(* ===== verification/Kmod_Prelude.thy ===== *)
theory Kmod_Prelude
  imports Main "HOL-Library.Word" "HOL-Library.Sublist"
begin

text \<open>
  Shared vocabulary of the development: the C integer types, nullable pointers, error codes
  and results, the TAILQ operations the LinuxKPI shims use, and the list lemmas their proofs
  share. The collections \<open>kmod_defs\<close> (small definitions that proofs unfold) and
  \<open>tailq\<close> (facts on the list operations) carry the component proofs.
\<close>

unbundle bit_operations_syntax

named_theorems kmod_defs \<open>small definitions unfolded by component proofs\<close>
named_theorems tailq \<open>facts on the TAILQ operations\<close>

subsection \<open>C types\<close>

type_synonym u8 = "8 word"
type_synonym u16 = "16 word"
type_synonym u32 = "32 word"
type_synonym u64 = "64 word"

text \<open>An address. A nullable pointer is a \<open>ptr option\<close>, with \<open>None\<close> for NULL.\<close>
type_synonym ptr = nat

subsection \<open>Error codes\<close>

text \<open>
  The errno values the modelled code returns by name. A function that returns a negative
  errno or an ERR_PTR returns \<open>Inl\<close> of the code here. \<open>Errno n\<close> is a code that a callback
  or an external function produced and the modelled code only passes on; \<open>Null_call\<close> is not
  a code at all: it marks a jump through a NULL function pointer, which panics the kernel.
\<close>
datatype errno =
    EINVAL | ENOMEM | ENXIO | ENODEV | ENOENT | ENOSPC | ENODATA | ENOTSUP | ENOTSUPP
  | EBUSY | EIO | EPIPE | EPROBE_DEFER | Errno int | Null_call

type_synonym 'a result = "errno + 'a"

text \<open>
  A body of C statements of the form \<^verbatim>\<open>ret = f(); if (ret) goto err;\<close>: the steps run in
  order on the state until one fails.
\<close>
fun run_steps :: "('s \<Rightarrow> unit result \<times> 's) list \<Rightarrow> 's \<Rightarrow> unit result \<times> 's" where
  "run_steps [] s = (Inr (), s)"
| "run_steps (f # fs) s =
     (case f s of (Inl e, s') \<Rightarrow> (Inl e, s') | (Inr _, s') \<Rightarrow> run_steps fs s')"

definition step_when :: "bool \<Rightarrow> ('s \<Rightarrow> unit result \<times> 's) \<Rightarrow> 's \<Rightarrow> unit result \<times> 's" where
  "step_when b f s = (if b then f s else (Inr (), s))"

lemma run_steps_append:
  "run_steps (fs @ gs) s =
     (case run_steps fs s of (Inl e, s') \<Rightarrow> (Inl e, s') | (Inr _, s') \<Rightarrow> run_steps gs s')"
  by (induction fs arbitrary: s) (auto split: prod.splits sum.splits)

text \<open>A property that every step keeps is kept by the sequence.\<close>
lemma run_steps_invariant:
  assumes "run_steps fs s = (res, s')" and "P s"
    and "\<And>f s res s'. f \<in> set fs \<Longrightarrow> P s \<Longrightarrow> f s = (res, s') \<Longrightarrow> P s'"
  shows "P s'"
  using assms
proof (induction fs arbitrary: s)
  case (Cons f fs)
  obtain res1 s1 where f: "f s = (res1, s1)" by fastforce
  then have "P s1" using Cons.prems(2,3) by (meson list.set_intros(1))
  then show ?case
    using Cons.IH [of s1] Cons.prems f by (cases res1) auto
qed simp

subsection \<open>TAILQ operations\<close>

text \<open>
  \<open>TAILQ_FOREACH_SAFE (e) { if (!P) continue; TAILQ_REMOVE(e); ... return; }\<close>: the first
  element that satisfies the test leaves the list.
\<close>
primrec remove_first :: "('a \<Rightarrow> bool) \<Rightarrow> 'a list \<Rightarrow> 'a list" where
  "remove_first P [] = []"
| "remove_first P (x # xs) = (if P x then xs else x # remove_first P xs)"

lemma remove_first_append [tailq]:
  "remove_first P (xs @ ys) =
     (if \<exists>x\<in>set xs. P x then remove_first P xs @ ys else xs @ remove_first P ys)"
  by (induction xs) auto

lemma remove_first_id [tailq]: "\<forall>x\<in>set xs. \<not> P x \<Longrightarrow> remove_first P xs = xs"
  by (induction xs) auto

lemma set_remove_first_subset [tailq]: "set (remove_first P xs) \<subseteq> set xs"
  by (induction xs) auto

lemma filter_remove_first [tailq]:
  "(\<And>x. P x \<Longrightarrow> \<not> Q x) \<Longrightarrow> filter Q (remove_first P xs) = filter Q xs"
  by (induction xs) auto

lemma find_append [tailq]:
  "List.find P (xs @ ys) = (case List.find P xs of Some x \<Rightarrow> Some x | None \<Rightarrow> List.find P ys)"
  by (induction xs) auto

lemma find_remove_first_other [tailq]:
  "(\<And>x. P x \<Longrightarrow> \<not> Q x) \<Longrightarrow> List.find Q (remove_first P xs) = List.find Q xs"
  by (induction xs) auto

lemma find_None_iff_all: "List.find P xs = None \<longleftrightarrow> (\<forall>x\<in>set xs. \<not> P x)"
  by (induction xs) auto

lemma find_SomeD: "List.find P xs = Some x \<Longrightarrow> x \<in> set xs \<and> P x"
  by (induction xs) (auto split: if_splits)

lemma distinct_map_remove_first [tailq]:
  "distinct (map f xs) \<Longrightarrow> distinct (map f (remove_first P xs))"
proof (induction xs)
  case (Cons x xs)
  then show ?case using set_remove_first_subset [of P xs] by auto
qed simp

lemma remove_first_distinct_key [tailq]:
  "distinct (map f xs) \<Longrightarrow> remove_first (\<lambda>x. f x = k) xs = filter (\<lambda>x. f x \<noteq> k) xs"
proof (induction xs)
  case (Cons x xs)
  show ?case
  proof (cases "f x = k")
    case True
    with Cons.prems have "\<forall>y\<in>set xs. f y \<noteq> k" by (auto simp: image_iff)
    then show ?thesis using True by (auto intro: filter_True [symmetric])
  next
    case False
    then show ?thesis using Cons by simp
  qed
qed simp

subsection \<open>A keyed registry on a TAILQ\<close>

text \<open>
  The interface that the shims' registries share: \<open>reg\<close> appends an entry, \<open>unreg\<close> drops the
  first entry with the given key and \<open>look\<close> finds the first one. The facts below are what
  attach and detach rely on: a device that was not registered is found after registration,
  unregistering it restores the previous contents, other keys are not disturbed, and a second
  registration under the same key is shadowed by the first.
\<close>
locale tailq_registry =
  fixes key :: "'e \<Rightarrow> 'k"
    and entries :: "'s \<Rightarrow> 'e list"
    and reg :: "'e \<Rightarrow> 's \<Rightarrow> 's"
    and unreg :: "'k \<Rightarrow> 's \<Rightarrow> 's"
    and look :: "'s \<Rightarrow> 'k \<Rightarrow> 'e option"
  assumes entries_reg: "entries (reg e s) = entries s @ [e]"
    and entries_unreg: "entries (unreg k s) = remove_first (\<lambda>e. key e = k) (entries s)"
    and look_find: "look s k = List.find (\<lambda>e. key e = k) (entries s)"
begin

lemma look_reg:
  "look (reg e s) k =
     (case look s k of Some e0 \<Rightarrow> Some e0 | None \<Rightarrow> if key e = k then Some e else None)"
  by (simp add: look_find entries_reg find_append split: option.split)

lemma look_reg_fresh: "look s (key e) = None \<Longrightarrow> look (reg e s) (key e) = Some e"
  by (simp add: look_reg)

lemma look_reg_shadowed: "look s k = Some e0 \<Longrightarrow> look (reg e s) k = Some e0"
  by (simp add: look_reg)

lemma unreg_reg: "look s (key e) = None \<Longrightarrow> entries (unreg (key e) (reg e s)) = entries s"
  by (simp add: look_find entries_reg entries_unreg find_None_iff_all remove_first_append)

lemma look_unreg_other: "k' \<noteq> k \<Longrightarrow> look (unreg k s) k' = look s k'"
  unfolding look_find entries_unreg by (rule find_remove_first_other) simp

lemma look_unreg_self: "distinct (map key (entries s)) \<Longrightarrow> look (unreg k s) k = None"
  by (simp add: look_find entries_unreg remove_first_distinct_key find_None_iff_all)

lemma distinct_reg:
  "distinct (map key (entries s)) \<Longrightarrow> look s (key e) = None \<Longrightarrow>
   distinct (map key (entries (reg e s)))"
  by (auto simp: look_find entries_reg find_None_iff_all)

lemma distinct_unreg: "distinct (map key (entries s)) \<Longrightarrow> distinct (map key (entries (unreg k s)))"
  by (simp add: entries_unreg distinct_map_remove_first)

end

subsection \<open>Words\<close>

lemma take_bit_word_self:
  fixes w :: "'a::len word"
  assumes "unat w < 2 ^ n"
  shows "take_bit n w = w"
proof -
  have "unat (take_bit n w) = unat w"
    using assms by (simp add: unsigned_take_bit_eq take_bit_nat_eq_self)
  then show ?thesis by (rule word_unat_eq_iff [THEN iffD2])
qed

lemma word_and_mask_self:
  fixes w :: "'a::len word"
  assumes "unat w < 2 ^ n"
  shows "w AND mask n = w"
  using take_bit_word_self [OF assms] by (simp add: take_bit_eq_mask)

lemma sint_eq_uint:
  fixes w :: "'a::len word"
  assumes "unat w < 2 ^ (LENGTH('a) - 1)"
  shows "sint w = uint w"
proof -
  have "uint w < 2 ^ (LENGTH('a) - 1)"
    using assms by (metis of_nat_less_iff of_nat_numeral of_nat_power uint_nat)
  moreover have "- (2 ^ (LENGTH('a) - 1)) \<le> uint w"
    using uint_ge_0 [of w] by (metis neg_le_0_iff_le order_trans zero_le_numeral zero_le_power)
  ultimately have "signed_take_bit (LENGTH('a) - 1) (uint w) = uint w"
    by (intro signed_take_bit_int_eq_self)
  then show ?thesis by (simp add: sint_uint)
qed

lemma unat_add_small:
  fixes a b :: "'a::len word"
  assumes "unat a + unat b < 2 ^ LENGTH('a)"
  shows "unat (a + b) = unat a + unat b"
proof -
  have "a + b = of_nat (unat a + unat b)" by simp
  then have "unat (a + b) = (unat a + unat b) mod 2 ^ LENGTH('a)"
    by (simp only: unat_of_nat take_bit_eq_mod)
  then show ?thesis using assms by simp
qed

lemma unat_add_diff1:
  fixes a b :: u64
  assumes "0 < unat b"
  shows "unat a + unat b - 1 < 2 ^ 64 \<Longrightarrow> unat (a + b - 1) = unat a + unat b - 1"
proof -
  assume lt: "unat a + unat b - 1 < 2 ^ 64"
  have "a + b - 1 = of_nat (unat a + unat b - 1)" using assms by (simp add: of_nat_diff)
  then have "unat (a + b - 1) = (unat a + unat b - 1) mod 2 ^ 64"
    by (simp only: unat_of_nat) (simp add: take_bit_eq_mod)
  then show ?thesis using lt by simp
qed

end
