(* ===== verification/Lkpi_Platform.thy ===== *)
theory Lkpi_Platform
  imports Kmod_Prelude
begin

text \<open>
  The platform-device registry (\<^verbatim>\<open>graphics/lkpi/lkpi_platform.c\<close>): the list that stands in for
  the platform bus LinuxKPI does not have. The newbus shims register one entry per attached
  block, and \<open>platform_find_device_by_driver\<close> is the iterator from which the display master
  builds its match list. Shown here: the registry contract, and that iterating from NULL
  visits exactly the devices of a driver, in registration order, and stops.
\<close>

subsection \<open>State\<close>

text \<open>
  \<open>struct device\<close> as far as the shims read it: its own address, the newbus device (NULL
  before attach) and the interrupt number recorded at attach.
\<close>
record device =
  dev_addr :: ptr
  bsddev :: "ptr option"
  dev_irq :: u32

record platform_device =
  pdev_addr :: ptr
  pdev_dev :: device

record lkpi_pdev_ent =
  pe_pdev :: platform_device
  pe_drv :: "ptr option"

type_synonym pdev_registry = "lkpi_pdev_ent list"

abbreviation pe_dev_addr :: "lkpi_pdev_ent \<Rightarrow> ptr" where
  "pe_dev_addr e \<equiv> dev_addr (pdev_dev (pe_pdev e))"

subsection \<open>Operations\<close>

definition lkpi_platform_device_register ::
    "platform_device option \<Rightarrow> ptr option \<Rightarrow> pdev_registry \<Rightarrow> pdev_registry" where
  "lkpi_platform_device_register pdev drv pdevs =
     (case pdev of None \<Rightarrow> pdevs
      | Some p \<Rightarrow> pdevs @ [\<lparr>pe_pdev = p, pe_drv = drv\<rparr>])"

definition lkpi_platform_device_unregister ::
    "ptr option \<Rightarrow> pdev_registry \<Rightarrow> pdev_registry" where
  "lkpi_platform_device_unregister pdev pdevs =
     remove_first (\<lambda>e. Some (pdev_addr (pe_pdev e)) = pdev) pdevs"

text \<open>The loop of \<open>platform_find_device_by_driver\<close>, with its flag \<open>seen\<close>.\<close>
fun find_by_driver_loop ::
    "bool \<Rightarrow> ptr option \<Rightarrow> ptr \<Rightarrow> pdev_registry \<Rightarrow> ptr option" where
  "find_by_driver_loop seen start drv [] = None"
| "find_by_driver_loop seen start drv (e # es) =
     (if \<not> seen then find_by_driver_loop (Some (pe_dev_addr e) = start) start drv es
      else if pe_drv e = Some drv then Some (pe_dev_addr e)
      else find_by_driver_loop seen start drv es)"

definition platform_find_device_by_driver ::
    "ptr option \<Rightarrow> ptr option \<Rightarrow> pdev_registry \<Rightarrow> ptr option" where
  "platform_find_device_by_driver start drv pdevs =
     (case drv of None \<Rightarrow> None
      | Some d \<Rightarrow> find_by_driver_loop (start = None) start d pdevs)"

text \<open>
  \<open>lkpi_of_reg_by_index\<close>: \<open>bus_get_resource\<close> is newbus, so it is the argument \<open>get_res\<close>
  (device, index to start and count; None for failure). NULL output pointers are not modelled:
  both values are returned.
\<close>
definition lkpi_of_reg_by_index ::
    "(ptr \<Rightarrow> int \<Rightarrow> (u64 \<times> u64) option) \<Rightarrow> platform_device option \<Rightarrow> int \<Rightarrow> (u64 \<times> u64) result" where
  "lkpi_of_reg_by_index get_res pdev idx =
     (case pdev of None \<Rightarrow> Inl EINVAL
      | Some p \<Rightarrow>
         (case bsddev (pdev_dev p) of None \<Rightarrow> Inl EINVAL
          | Some b \<Rightarrow>
             if idx < 0 then Inl EINVAL
             else (case get_res b idx of None \<Rightarrow> Inl ENOENT | Some r \<Rightarrow> Inr r)))"

subsection \<open>The registry contract\<close>

interpretation pdevs: tailq_registry
  "\<lambda>e. Some (pdev_addr (pe_pdev e))"
  "\<lambda>s. s"
  "\<lambda>e. lkpi_platform_device_register (Some (pe_pdev e)) (pe_drv e)"
  "lkpi_platform_device_unregister"
  "\<lambda>s k. List.find (\<lambda>e. Some (pdev_addr (pe_pdev e)) = k) s"
  by unfold_locales
     (simp_all add: lkpi_platform_device_register_def lkpi_platform_device_unregister_def)

subsection \<open>Enumeration\<close>

text \<open>The devices a driver is bound to, in registration order: the abstract answer.\<close>
definition devices_of :: "ptr \<Rightarrow> pdev_registry \<Rightarrow> ptr list" where
  "devices_of drv pdevs = map pe_dev_addr (filter (\<lambda>e. pe_drv e = Some drv) pdevs)"

definition devs_distinct :: "pdev_registry \<Rightarrow> bool" where
  "devs_distinct pdevs \<longleftrightarrow> distinct (map pe_dev_addr pdevs)"

text \<open>
  The caller's loop (\<^verbatim>\<open>while ((d = platform_find_device_by_driver(p, drv))) { body; p = d; }\<close>
  in \<open>vc4_match_add_drivers\<close>), with the body as \<open>f\<close>. It does not end when a device of the
  driver is registered twice, so it is partial: None is a loop that never returns.
\<close>
partial_function (option) for_each_device ::
    "(ptr \<Rightarrow> 'b \<Rightarrow> 'b) \<Rightarrow> ptr option \<Rightarrow> ptr \<Rightarrow> pdev_registry \<Rightarrow> 'b \<Rightarrow> 'b option" where
  "for_each_device f start drv pdevs b =
     (case platform_find_device_by_driver start (Some drv) pdevs of
        None \<Rightarrow> Some b
      | Some d \<Rightarrow> for_each_device f (Some d) drv pdevs (f d b))"

lemma find_by_driver_loop_seen:
  "find_by_driver_loop True start drv es =
     (case devices_of drv es of [] \<Rightarrow> None | d # _ \<Rightarrow> Some d)"
  by (induction es) (auto simp: devices_of_def)

lemma find_by_driver_loop_skip:
  "Some (pe_dev_addr e) = start \<Longrightarrow> start \<notin> Some ` pe_dev_addr ` set es1 \<Longrightarrow>
   find_by_driver_loop False start drv (es1 @ e # es2) = find_by_driver_loop True start drv es2"
  by (induction es1) auto

lemma devices_of_append: "devices_of drv (xs @ ys) = devices_of drv xs @ devices_of drv ys"
  by (simp add: devices_of_def)

lemma devices_of_split:
  "devices_of drv es = d # ds \<Longrightarrow>
   \<exists>es1 e es2. es = es1 @ e # es2 \<and> pe_dev_addr e = d \<and> devices_of drv es2 = ds"
proof (induction es)
  case (Cons x xs)
  show ?case
  proof (cases "pe_drv x = Some drv")
    case True
    with Cons.prems have "pe_dev_addr x = d \<and> devices_of drv xs = ds"
      by (auto simp: devices_of_def)
    then show ?thesis by (intro exI [of _ "[]"]) auto
  next
    case False
    with Cons.prems have "devices_of drv xs = d # ds" by (simp add: devices_of_def)
    from Cons.IH [OF this] obtain es1 e es2
      where "xs = es1 @ e # es2" "pe_dev_addr e = d" "devices_of drv es2 = ds" by blast
    then show ?thesis by (intro exI [of _ "x # es1"]) auto
  qed
qed (simp add: devices_of_def)

lemma for_each_device_suffix:
  assumes "devs_distinct (es1 @ e # es2)" and "start = Some (pe_dev_addr e)"
  shows "for_each_device f start drv (es1 @ e # es2) b = Some (fold f (devices_of drv es2) b)"
  using assms
proof (induction "length es2" arbitrary: es1 e es2 start b rule: less_induct)
  case less
  have notin: "start \<notin> Some ` pe_dev_addr ` set es1"
    using less.prems by (auto simp: devs_distinct_def)
  have find: "platform_find_device_by_driver start (Some drv) (es1 @ e # es2) =
      (case devices_of drv es2 of [] \<Rightarrow> None | d # _ \<Rightarrow> Some d)"
    using find_by_driver_loop_skip [OF less.prems(2) [symmetric] notin] less.prems(2)
    by (simp add: platform_find_device_by_driver_def find_by_driver_loop_seen)
  show ?case
  proof (cases "devices_of drv es2")
    case Nil
    then show ?thesis by (subst for_each_device.simps) (simp add: find)
  next
    case (Cons d ds)
    then obtain f1 x f2 where es2: "es2 = f1 @ x # f2" "pe_dev_addr x = d" "devices_of drv f2 = ds"
      using devices_of_split by blast
    have "for_each_device f (Some d) drv ((es1 @ e # f1) @ x # f2) (f d b) =
        Some (fold f (devices_of drv f2) (f d b))"
      by (rule less.hyps) (use es2 less.prems in \<open>auto simp: devs_distinct_def\<close>)
    then have rest: "for_each_device f (Some d) drv (es1 @ e # es2) (f d b) = Some (fold f ds (f d b))"
      using es2 by simp
    have "platform_find_device_by_driver start (Some drv) (es1 @ e # es2) = Some d"
      using find Cons by simp
    then show ?thesis using rest Cons by (subst for_each_device.simps) simp
  qed
qed

text \<open>
  With distinct devices the loop returns, and it has run its body once per device of the
  driver, in registration order.
\<close>
lemma for_each_device_all:
  assumes "devs_distinct pdevs"
  shows "for_each_device f None drv pdevs b = Some (fold f (devices_of drv pdevs) b)"
proof (cases "devices_of drv pdevs")
  case Nil
  then show ?thesis
    by (subst for_each_device.simps)
       (simp add: platform_find_device_by_driver_def find_by_driver_loop_seen)
next
  case (Cons d ds)
  then obtain f1 x f2 where s: "pdevs = f1 @ x # f2" "pe_dev_addr x = d" "devices_of drv f2 = ds"
    using devices_of_split by blast
  have "for_each_device f (Some d) drv (f1 @ x # f2) (f d b) = Some (fold f (devices_of drv f2) (f d b))"
    by (rule for_each_device_suffix) (use s assms in auto)
  then have rest: "for_each_device f (Some d) drv pdevs (f d b) = Some (fold f ds (f d b))"
    using s by simp
  have "platform_find_device_by_driver None (Some drv) pdevs = Some d"
    using Cons by (simp add: platform_find_device_by_driver_def find_by_driver_loop_seen)
  then show ?thesis using rest Cons by (subst for_each_device.simps) simp
qed

lemma devices_of_distinct: "devs_distinct pdevs \<Longrightarrow> distinct (devices_of drv pdevs)"
  by (simp add: devs_distinct_def devices_of_def distinct_map_filter)

end
