(* ===== verification/Lkpi_Component.thy ===== *)
theory Lkpi_Component
  imports Kmod_Prelude
begin

text \<open>
  The component framework (\<^verbatim>\<open>graphics/lkpi/lkpi_component.c\<close>): sub-devices register as
  components, a master registers with a match list, and the master binds once every entry of
  the list is present. Shown here: the framework's invariant and that every operation keeps it
  (no NULL bind callback is ever called, an unbound component remembers no master), the order
  of the bind and unbind callbacks, the error paths, and that no master whose match list is
  complete is left waiting.
\<close>

subsection \<open>State\<close>

text \<open>
  Function pointers are addresses; the behaviour behind them is driver code, given by the
  argument \<open>cb\<close> of the operations. \<open>component_compare_dev\<close> is defined in the same file and
  has a constructor of its own.
\<close>
record component_ops =
  ops_addr :: ptr
  ops_bind :: "ptr option"
  ops_unbind :: "ptr option"

record lkpi_component =
  c_dev :: ptr
  c_ops :: component_ops
  c_bound :: bool
  c_master :: "ptr option"
  c_master_data :: "ptr option"

datatype compare_fn = Component_compare_dev | Compare_fn ptr

record lkpi_match_entry =
  me_compare :: compare_fn
  me_data :: "ptr option"

record component_match =
  cm_entries :: "lkpi_match_entry list"
  cm_count :: u32

record component_master_ops =
  mops_addr :: ptr
  mops_bind :: "ptr option"
  mops_unbind :: "ptr option"

record lkpi_master =
  m_dev :: ptr
  m_ops :: component_master_ops
  m_match :: "component_match option"
  m_bound :: bool

text \<open>
  The callbacks made, in order: which device was bound or unbound, the master passed, and
  whether the call succeeded. \<open>drv_log\<close> is a record of the calls and no state of the code;
  \<open>drv_world\<close> is the state the drivers' callbacks work on.
\<close>
datatype comp_event =
    Ev_bind ptr ptr "ptr option" bool
  | Ev_unbind ptr "ptr option" "ptr option"
  | Ev_master_bind ptr bool
  | Ev_master_unbind ptr

record 'w drv_run =
  drv_log :: "comp_event list"
  drv_world :: 'w

record 'w comp_state =
  lkpi_components :: "lkpi_component list"
  lkpi_masters :: "lkpi_master list"
  comp_run :: "'w drv_run"

text \<open>
  The driver callbacks. A component's bind and unbind change the drivers' own state only: the
  code walks the component list without the lock because nothing is added or removed while a
  master binds. A master's bind and unbind may bind and unbind components (they call
  \<open>component_bind_all\<close> and \<open>component_unbind_all\<close>) and do not touch the master list, which
  only the probe and remove paths change.
\<close>
record 'w comp_callbacks =
  cb_compare :: "ptr \<Rightarrow> ptr \<Rightarrow> ptr option \<Rightarrow> bool"
  cb_bind :: "ptr \<Rightarrow> ptr \<Rightarrow> ptr \<Rightarrow> ptr option \<Rightarrow> 'w \<Rightarrow> unit result \<times> 'w"
  cb_unbind :: "ptr \<Rightarrow> ptr \<Rightarrow> ptr option \<Rightarrow> ptr option \<Rightarrow> 'w \<Rightarrow> 'w"
  cb_master_bind ::
    "ptr \<Rightarrow> ptr \<Rightarrow> 'w comp_state \<Rightarrow> unit result \<times> lkpi_component list \<times> 'w drv_run"
  cb_master_unbind :: "ptr \<Rightarrow> ptr \<Rightarrow> 'w comp_state \<Rightarrow> lkpi_component list \<times> 'w drv_run"

subsection \<open>Calling back into the drivers\<close>

definition component_compare_dev :: "ptr \<Rightarrow> ptr option \<Rightarrow> bool" where
  "component_compare_dev dev data \<longleftrightarrow> Some dev = data"

definition entry_matches :: "'w comp_callbacks \<Rightarrow> lkpi_match_entry \<Rightarrow> lkpi_component \<Rightarrow> bool" where
  "entry_matches cb e c =
     (case me_compare e of
        Component_compare_dev \<Rightarrow> component_compare_dev (c_dev c) (me_data e)
      | Compare_fn f \<Rightarrow> cb_compare cb f (c_dev c) (me_data e))"

definition call_bind ::
    "'w comp_callbacks \<Rightarrow> lkpi_component \<Rightarrow> ptr \<Rightarrow> ptr option \<Rightarrow> 'w drv_run \<Rightarrow>
     unit result \<times> 'w drv_run" where
  "call_bind cb c master data r =
     (case ops_bind (c_ops c) of
        None \<Rightarrow> (Inl Null_call, r)
      | Some f \<Rightarrow>
         (let (res, w) = cb_bind cb f (c_dev c) master data (drv_world r)
          in (res, r\<lparr>drv_log := drv_log r @ [Ev_bind (c_dev c) master data (\<not> isl res)],
                     drv_world := w\<rparr>)))"

definition call_unbind ::
    "'w comp_callbacks \<Rightarrow> lkpi_component \<Rightarrow> ptr option \<Rightarrow> ptr option \<Rightarrow> 'w drv_run \<Rightarrow> 'w drv_run" where
  "call_unbind cb c master data r =
     (case ops_unbind (c_ops c) of
        None \<Rightarrow> r
      | Some f \<Rightarrow> r\<lparr>drv_log := drv_log r @ [Ev_unbind (c_dev c) master data],
                    drv_world := cb_unbind cb f (c_dev c) master data (drv_world r)\<rparr>)"

definition mark_bound :: "ptr \<Rightarrow> ptr option \<Rightarrow> lkpi_component \<Rightarrow> lkpi_component" where
  "mark_bound master data c = c\<lparr>c_bound := True, c_master := Some master, c_master_data := data\<rparr>"

definition mark_unbound :: "lkpi_component \<Rightarrow> lkpi_component" where
  "mark_unbound c = c\<lparr>c_bound := False, c_master := None, c_master_data := None\<rparr>"

subsection \<open>Binding and unbinding\<close>

definition lkpi_master_for :: "ptr \<Rightarrow> lkpi_master list \<Rightarrow> lkpi_master option" where
  "lkpi_master_for dev ms = List.find (\<lambda>m. m_dev m = dev) ms"

text \<open>The path without a match list: every unbound component, in registration order.\<close>
fun bind_registered ::
    "'w comp_callbacks \<Rightarrow> ptr \<Rightarrow> ptr option \<Rightarrow> lkpi_component list \<Rightarrow> 'w drv_run \<Rightarrow>
     unit result \<times> lkpi_component list \<times> 'w drv_run" where
  "bind_registered cb master data [] r = (Inr (), [], r)"
| "bind_registered cb master data (c # cs) r =
     (if c_bound c then
        (let (res, cs', r') = bind_registered cb master data cs r in (res, c # cs', r'))
      else
        (case call_bind cb c master data r of
           (Inl e, r') \<Rightarrow> (Inl e, c # cs, r')
         | (Inr _, r') \<Rightarrow>
            (let (res, cs', r'') = bind_registered cb master data cs r'
             in (res, mark_bound master data c # cs', r''))))"

text \<open>One match entry: the first unbound component it selects, if any.\<close>
fun bind_entry ::
    "'w comp_callbacks \<Rightarrow> ptr \<Rightarrow> ptr option \<Rightarrow> lkpi_match_entry \<Rightarrow> lkpi_component list \<Rightarrow>
     'w drv_run \<Rightarrow> unit result \<times> lkpi_component list \<times> 'w drv_run" where
  "bind_entry cb master data e [] r = (Inr (), [], r)"
| "bind_entry cb master data e (c # cs) r =
     (if c_bound c \<or> \<not> entry_matches cb e c then
        (let (res, cs', r') = bind_entry cb master data e cs r in (res, c # cs', r'))
      else
        (case call_bind cb c master data r of
           (Inl err, r') \<Rightarrow> (Inl err, c # cs, r')
         | (Inr _, r') \<Rightarrow> (Inr (), mark_bound master data c # cs, r')))"

fun bind_entries ::
    "'w comp_callbacks \<Rightarrow> ptr \<Rightarrow> ptr option \<Rightarrow> lkpi_match_entry list \<Rightarrow> lkpi_component list \<Rightarrow>
     'w drv_run \<Rightarrow> unit result \<times> lkpi_component list \<times> 'w drv_run" where
  "bind_entries cb master data [] cs r = (Inr (), cs, r)"
| "bind_entries cb master data (e # es) cs r =
     (case bind_entry cb master data e cs r of
        (Inl err, cs', r') \<Rightarrow> (Inl err, cs', r')
      | (Inr _, cs', r') \<Rightarrow> bind_entries cb master data es cs' r')"

definition component_bind_all ::
    "'w comp_callbacks \<Rightarrow> ptr \<Rightarrow> ptr option \<Rightarrow> 'w comp_state \<Rightarrow>
     unit result \<times> lkpi_component list \<times> 'w drv_run" where
  "component_bind_all cb master data st =
     (case Option.bind (lkpi_master_for master (lkpi_masters st)) m_match of
        None \<Rightarrow> bind_registered cb master data (lkpi_components st) (comp_run st)
      | Some mt \<Rightarrow>
         bind_entries cb master data (cm_entries mt) (lkpi_components st) (comp_run st))"

fun unbind_registered ::
    "'w comp_callbacks \<Rightarrow> ptr option \<Rightarrow> ptr option \<Rightarrow> lkpi_component list \<Rightarrow> 'w drv_run \<Rightarrow>
     lkpi_component list \<times> 'w drv_run" where
  "unbind_registered cb master data [] r = ([], r)"
| "unbind_registered cb master data (c # cs) r =
     (if \<not> c_bound c then
        (let (cs', r') = unbind_registered cb master data cs r in (c # cs', r'))
      else
        (let (cs', r') = unbind_registered cb master data cs (call_unbind cb c master data r)
         in (mark_unbound c # cs', r')))"

fun unbind_entry ::
    "'w comp_callbacks \<Rightarrow> ptr option \<Rightarrow> ptr option \<Rightarrow> lkpi_match_entry \<Rightarrow> lkpi_component list \<Rightarrow>
     'w drv_run \<Rightarrow> lkpi_component list \<times> 'w drv_run" where
  "unbind_entry cb master data e [] r = ([], r)"
| "unbind_entry cb master data e (c # cs) r =
     (if \<not> c_bound c \<or> \<not> entry_matches cb e c then
        (let (cs', r') = unbind_entry cb master data e cs r in (c # cs', r'))
      else (mark_unbound c # cs, call_unbind cb c master data r))"

fun unbind_entries ::
    "'w comp_callbacks \<Rightarrow> ptr option \<Rightarrow> ptr option \<Rightarrow> lkpi_match_entry list \<Rightarrow>
     lkpi_component list \<Rightarrow> 'w drv_run \<Rightarrow> lkpi_component list \<times> 'w drv_run" where
  "unbind_entries cb master data [] cs r = (cs, r)"
| "unbind_entries cb master data (e # es) cs r =
     (let (cs', r') = unbind_entry cb master data e cs r
      in unbind_entries cb master data es cs' r')"

text \<open>Both paths walk backwards: the match list, or the component list.\<close>
definition component_unbind_all ::
    "'w comp_callbacks \<Rightarrow> ptr \<Rightarrow> ptr option \<Rightarrow> 'w comp_state \<Rightarrow> lkpi_component list \<times> 'w drv_run" where
  "component_unbind_all cb master data st =
     (case Option.bind (lkpi_master_for master (lkpi_masters st)) m_match of
        Some mt \<Rightarrow>
          unbind_entries cb (Some master) data (rev (cm_entries mt))
            (lkpi_components st) (comp_run st)
      | None \<Rightarrow>
         (let (cs, r) = unbind_registered cb (Some master) data
                          (rev (lkpi_components st)) (comp_run st)
          in (rev cs, r)))"

subsection \<open>Match lists and masters\<close>

text \<open>
  \<open>match_ok\<close> and \<open>entry_ok\<close> are the results of the two \<open>M_NOWAIT\<close> allocations. The double
  pointer \<open>match\<close> is the match list (None for NULL) and its new value; \<open>compare\<close> is None
  when NULL.
\<close>
definition component_match_add ::
    "bool \<Rightarrow> bool \<Rightarrow> component_match option \<Rightarrow> compare_fn option \<Rightarrow> ptr option \<Rightarrow>
     component_match option" where
  "component_match_add match_ok entry_ok mt compare data =
     (case compare of None \<Rightarrow> mt
      | Some f \<Rightarrow>
         (case (case mt of Some m \<Rightarrow> Some m
                | None \<Rightarrow> if match_ok then Some \<lparr>cm_entries = [], cm_count = 0\<rparr> else None) of
            None \<Rightarrow> None
          | Some m \<Rightarrow>
             if \<not> entry_ok then Some m
             else Some (m\<lparr>cm_entries := cm_entries m @ [\<lparr>me_compare = f, me_data = data\<rparr>],
                          cm_count := cm_count m + 1\<rparr>)))"

definition lkpi_match_complete ::
    "'w comp_callbacks \<Rightarrow> component_match option \<Rightarrow> lkpi_component list \<Rightarrow> bool" where
  "lkpi_match_complete cb mt cs =
     (case mt of None \<Rightarrow> True
      | Some m \<Rightarrow> list_all (\<lambda>e. list_ex (entry_matches cb e) cs) (cm_entries m))"

definition call_master_bind ::
    "'w comp_callbacks \<Rightarrow> ptr \<Rightarrow> ptr \<Rightarrow> 'w comp_state \<Rightarrow>
     unit result \<times> lkpi_component list \<times> 'w drv_run" where
  "call_master_bind cb f dev st =
     (let (res, cs, r) = cb_master_bind cb f dev st
      in (res, cs, r\<lparr>drv_log := drv_log r @ [Ev_master_bind dev (\<not> isl res)]\<rparr>))"

text \<open>The loop of \<open>lkpi_try_bind_masters\<close>: masters already passed, then those to come.\<close>
fun try_bind_loop ::
    "'w comp_callbacks \<Rightarrow> lkpi_master list \<Rightarrow> lkpi_master list \<Rightarrow> 'w comp_state \<Rightarrow> 'w comp_state" where
  "try_bind_loop cb done [] st = st\<lparr>lkpi_masters := done\<rparr>"
| "try_bind_loop cb done (m # ms) st =
     (if m_bound m then try_bind_loop cb (done @ [m]) ms st
      else (case mops_bind (m_ops m) of
              None \<Rightarrow> try_bind_loop cb (done @ [m]) ms st
            | Some f \<Rightarrow>
               if \<not> lkpi_match_complete cb (m_match m) (lkpi_components st)
               then try_bind_loop cb (done @ [m]) ms st
               else
                 (let (res, cs, r) =
                        call_master_bind cb f (m_dev m) (st\<lparr>lkpi_masters := done @ m # ms\<rparr>);
                      st' = st\<lparr>lkpi_components := cs, comp_run := r\<rparr>
                  in case res of
                       Inl _ \<Rightarrow> try_bind_loop cb (done @ [m]) ms st'
                     | Inr _ \<Rightarrow> try_bind_loop cb (done @ [m\<lparr>m_bound := True\<rparr>]) ms st')))"

definition lkpi_try_bind_masters :: "'w comp_callbacks \<Rightarrow> 'w comp_state \<Rightarrow> 'w comp_state" where
  "lkpi_try_bind_masters cb st = try_bind_loop cb [] (lkpi_masters st) st"

subsection \<open>Registration\<close>

definition component_add ::
    "'w comp_callbacks \<Rightarrow> bool \<Rightarrow> ptr option \<Rightarrow> component_ops option \<Rightarrow> 'w comp_state \<Rightarrow>
     unit result \<times> 'w comp_state" where
  "component_add cb malloc_ok dev ops st =
     (case (dev, ops) of
        (Some d, Some ops') \<Rightarrow>
          if ops_bind ops' = None then (Inl EINVAL, st)
          else if \<not> malloc_ok then (Inl ENOMEM, st)
          else (Inr (), lkpi_try_bind_masters cb
                 (st\<lparr>lkpi_components := lkpi_components st @
                      [\<lparr>c_dev = d, c_ops = ops', c_bound = False,
                        c_master = None, c_master_data = None\<rparr>]\<rparr>))
      | _ \<Rightarrow> (Inl EINVAL, st))"

definition component_del ::
    "'w comp_callbacks \<Rightarrow> ptr \<Rightarrow> component_ops \<Rightarrow> 'w comp_state \<Rightarrow> 'w comp_state" where
  "component_del cb dev ops st =
     (case List.find (\<lambda>c. c_dev c = dev \<and> c_ops c = ops) (lkpi_components st) of
        None \<Rightarrow> st
      | Some c \<Rightarrow>
         (let st' = st\<lparr>lkpi_components :=
                remove_first (\<lambda>c. c_dev c = dev \<and> c_ops c = ops) (lkpi_components st)\<rparr>
          in if c_bound c
             then st'\<lparr>comp_run := call_unbind cb c (c_master c) (c_master_data c) (comp_run st')\<rparr>
             else st'))"

text \<open>The warning printed for an empty match list has no effect on the state.\<close>
definition component_master_add_with_match ::
    "'w comp_callbacks \<Rightarrow> bool \<Rightarrow> ptr option \<Rightarrow> component_master_ops option \<Rightarrow>
     component_match option \<Rightarrow> 'w comp_state \<Rightarrow> unit result \<times> 'w comp_state" where
  "component_master_add_with_match cb malloc_ok master ops mt st =
     (case (master, ops) of
        (Some d, Some ops') \<Rightarrow>
          if \<not> malloc_ok then (Inl ENOMEM, st)
          else (Inr (), lkpi_try_bind_masters cb
                 (st\<lparr>lkpi_masters := lkpi_masters st @
                      [\<lparr>m_dev = d, m_ops = ops', m_match = mt, m_bound = False\<rparr>]\<rparr>))
      | _ \<Rightarrow> (Inl EINVAL, st))"

definition component_master_del ::
    "'w comp_callbacks \<Rightarrow> ptr \<Rightarrow> component_master_ops \<Rightarrow> 'w comp_state \<Rightarrow> 'w comp_state" where
  "component_master_del cb master ops st =
     (case List.find (\<lambda>m. m_dev m = master \<and> m_ops m = ops) (lkpi_masters st) of
        None \<Rightarrow> st
      | Some m \<Rightarrow>
         (let st' = st\<lparr>lkpi_masters :=
                remove_first (\<lambda>m. m_dev m = master \<and> m_ops m = ops) (lkpi_masters st)\<rparr>
          in case (m_bound m, mops_unbind (m_ops m)) of
               (True, Some f) \<Rightarrow>
                 (let (cs, r) = cb_master_unbind cb f (m_dev m) st'
                  in st'\<lparr>lkpi_components := cs,
                         comp_run := r\<lparr>drv_log := drv_log r @ [Ev_master_unbind (m_dev m)]\<rparr>\<rparr>)
             | _ \<Rightarrow> st'))"


subsection \<open>The framework's invariant\<close>

text \<open>
  A registered component has a bind callback; it remembers a master exactly while it is
  bound. \<open>component_del\<close> relies on the second part: it passes the remembered master to the
  unbind callback, which reads it.
\<close>
definition comp_wf :: "lkpi_component \<Rightarrow> bool" where
  "comp_wf c \<longleftrightarrow> ops_bind (c_ops c) \<noteq> None \<and>
     (c_bound c \<longleftrightarrow> c_master c \<noteq> None) \<and> (\<not> c_bound c \<longrightarrow> c_master_data c = None)"

text \<open>What binding does to one component, and what it leaves alone.\<close>
definition bind_step :: "ptr \<Rightarrow> ptr option \<Rightarrow> lkpi_component \<Rightarrow> lkpi_component \<Rightarrow> bool" where
  "bind_step master data c c' \<longleftrightarrow> c' = c \<or> (\<not> c_bound c \<and> c' = mark_bound master data c)"

definition unbind_step :: "lkpi_component \<Rightarrow> lkpi_component \<Rightarrow> bool" where
  "unbind_step c c' \<longleftrightarrow> c' = c \<or> (c_bound c \<and> c' = mark_unbound c)"

lemmas step_defs [kmod_defs] = bind_step_def unbind_step_def mark_bound_def mark_unbound_def

lemma bind_step_refl [simp]: "bind_step master data c c"
  by (simp add: bind_step_def)

lemma unbind_step_refl [simp]: "unbind_step c c"
  by (simp add: unbind_step_def)

lemma bind_step_mark [simp]: "\<not> c_bound c \<Longrightarrow> bind_step master data c (mark_bound master data c)"
  by (simp add: bind_step_def)

lemma unbind_step_mark [simp]: "c_bound c \<Longrightarrow> unbind_step c (mark_unbound c)"
  by (simp add: unbind_step_def)

lemma list_all2_refl_bind [simp]: "list_all2 (bind_step master data) cs cs"
  by (simp add: list_all2_refl)

lemma list_all2_refl_unbind [simp]: "list_all2 unbind_step cs cs"
  by (simp add: list_all2_refl)

lemma bind_step_trans: "bind_step m d a b \<Longrightarrow> bind_step m d b c \<Longrightarrow> bind_step m d a c"
  by (auto simp: kmod_defs)

lemma unbind_step_trans: "unbind_step a b \<Longrightarrow> unbind_step b c \<Longrightarrow> unbind_step a c"
  by (auto simp: kmod_defs)

lemma bind_registered_steps:
  "bind_registered cb master data cs r = (res, cs', r') \<Longrightarrow> list_all2 (bind_step master data) cs cs'"
proof (induction cs arbitrary: r res cs' r')
  case (Cons c cs)
  then show ?case
    by (auto split: if_splits prod.splits sum.splits)
qed simp

lemma bind_entry_steps:
  "bind_entry cb master data e cs r = (res, cs', r') \<Longrightarrow> list_all2 (bind_step master data) cs cs'"
proof (induction cs arbitrary: r res cs' r')
  case (Cons c cs)
  then show ?case
    by (auto split: if_splits prod.splits sum.splits)
qed simp

lemma bind_entries_steps:
  "bind_entries cb master data es cs r = (res, cs', r') \<Longrightarrow> list_all2 (bind_step master data) cs cs'"
proof (induction es arbitrary: cs r)
  case (Cons e es)
  obtain res1 cs1 r1 where b: "bind_entry cb master data e cs r = (res1, cs1, r1)"
    by (metis prod_cases3)
  have 1: "list_all2 (bind_step master data) cs cs1"
    by (rule bind_entry_steps [OF b])
  show ?case
  proof (cases res1)
    case (Inl err)
    with Cons.prems b 1 show ?thesis by simp
  next
    case (Inr u)
    with Cons.prems b have "bind_entries cb master data es cs1 r1 = (res, cs', r')" by simp
    then have "list_all2 (bind_step master data) cs1 cs'" by (rule Cons.IH)
    with 1 show ?thesis by (rule list_all2_trans [rotated]) (rule bind_step_trans)
  qed
qed simp

lemma component_bind_all_steps:
  "component_bind_all cb master data st = (res, cs', r') \<Longrightarrow>
   list_all2 (bind_step master data) (lkpi_components st) cs'"
  by (auto simp: component_bind_all_def split: option.splits
      intro: bind_registered_steps bind_entries_steps)

lemma unbind_registered_steps:
  "unbind_registered cb master data cs r = (cs', r') \<Longrightarrow> list_all2 unbind_step cs cs'"
proof (induction cs arbitrary: r cs' r')
  case (Cons c cs)
  then show ?case by (auto split: if_splits prod.splits)
qed simp

lemma unbind_entry_steps:
  "unbind_entry cb master data e cs r = (cs', r') \<Longrightarrow> list_all2 unbind_step cs cs'"
proof (induction cs arbitrary: r cs' r')
  case (Cons c cs)
  then show ?case by (auto split: if_splits prod.splits)
qed simp

lemma unbind_entries_steps:
  "unbind_entries cb master data es cs r = (cs', r') \<Longrightarrow> list_all2 unbind_step cs cs'"
proof (induction es arbitrary: cs r)
  case (Cons e es)
  obtain cs1 r1 where b: "unbind_entry cb master data e cs r = (cs1, r1)"
    by fastforce
  with Cons.prems have "list_all2 unbind_step cs1 cs'" by (auto intro: Cons.IH)
  with unbind_entry_steps [OF b] show ?case
    by (rule list_all2_trans [rotated]) (rule unbind_step_trans)
qed simp

lemma component_unbind_all_steps:
  assumes "component_unbind_all cb master data st = (cs', r')"
  shows "list_all2 unbind_step (lkpi_components st) cs'"
proof (cases "Option.bind (lkpi_master_for master (lkpi_masters st)) m_match")
  case None
  with assms obtain cs1 where
    "unbind_registered cb (Some master) data (rev (lkpi_components st)) (comp_run st) = (cs1, r')"
    and "cs' = rev cs1"
    by (auto simp: component_unbind_all_def split: prod.splits)
  with unbind_registered_steps show ?thesis by (metis list_all2_rev1)
next
  case (Some mt)
  with assms show ?thesis
    by (auto simp: component_unbind_all_def intro: unbind_entries_steps)
qed

text \<open>The consequences shared by every step: the same devices and callbacks, and the invariant.\<close>
lemma bind_step_keeps:
  "list_all2 (bind_step master data) cs cs' \<Longrightarrow>
   map c_dev cs' = map c_dev cs \<and> map c_ops cs' = map c_ops cs \<and>
   (list_all comp_wf cs \<longrightarrow> list_all comp_wf cs')"
  by (induction rule: list_all2_induct) (auto simp: kmod_defs comp_wf_def)

lemma unbind_step_keeps:
  "list_all2 unbind_step cs cs' \<Longrightarrow>
   map c_dev cs' = map c_dev cs \<and> map c_ops cs' = map c_ops cs \<and>
   (list_all comp_wf cs \<longrightarrow> list_all comp_wf cs')"
  by (induction rule: list_all2_induct) (auto simp: kmod_defs comp_wf_def)

lemma entry_matches_dev: "c_dev c = c_dev c' \<Longrightarrow> entry_matches cb e c = entry_matches cb e c'"
  by (simp add: entry_matches_def split: compare_fn.split)

lemma lkpi_match_complete_devs:
  assumes "map c_dev cs = map c_dev cs'"
  shows "lkpi_match_complete cb mt cs = lkpi_match_complete cb mt cs'"
proof -
  have ex: "list_ex (entry_matches cb e) cs = list_ex (entry_matches cb e) cs'" for e
    using assms
  proof (induction cs cs' rule: list_induct2')
    case (4 x xs y ys)
    then have "c_dev x = c_dev y" and "map c_dev xs = map c_dev ys" by auto
    with 4 show ?case using entry_matches_dev [of x y cb e] by simp
  qed auto
  show ?thesis by (simp add: lkpi_match_complete_def ex split: option.split)
qed

subsection \<open>Binding order\<close>

text \<open>A match entry that names one device, as \<open>vc4_match_add_drivers\<close> builds them.\<close>
definition dev_entry :: "ptr \<Rightarrow> lkpi_match_entry" where
  "dev_entry d = \<lparr>me_compare = Component_compare_dev, me_data = Some d\<rparr>"

lemma entry_matches_dev_entry [simp]: "entry_matches cb (dev_entry d) c \<longleftrightarrow> c_dev c = d"
  by (auto simp: entry_matches_def dev_entry_def component_compare_dev_def)

definition unbound_devs :: "lkpi_component list \<Rightarrow> ptr set" where
  "unbound_devs cs = c_dev ` {c \<in> set cs. \<not> c_bound c}"

lemma unbound_devs_simps [simp]:
  "unbound_devs [] = {}"
  "unbound_devs (c # cs) = (if c_bound c then {} else {c_dev c}) \<union> unbound_devs cs"
  by (auto simp: unbound_devs_def)

lemma unbound_devs_subset: "unbound_devs cs \<subseteq> c_dev ` set cs"
  by (auto simp: unbound_devs_def)

lemma call_bind_log:
  "comp_wf c \<Longrightarrow> call_bind cb c master data r = (res, r') \<Longrightarrow>
   drv_log r' = drv_log r @ [Ev_bind (c_dev c) master data (\<not> isl res)]"
  by (auto simp: call_bind_def comp_wf_def split: option.splits prod.splits)

text \<open>
  One entry on a list of distinct devices: an absent or bound device is skipped; otherwise
  there is one call for it, and it becomes bound exactly when the call succeeds.
\<close>
lemma bind_entry_dev:
  assumes "bind_entry cb master data (dev_entry d) cs r = (res, cs', r')"
    and "distinct (map c_dev cs)" and "list_all comp_wf cs"
  shows "if d \<in> unbound_devs cs
         then drv_log r' = drv_log r @ [Ev_bind d master data (\<not> isl res)] \<and>
              unbound_devs cs' = (if isl res then unbound_devs cs else unbound_devs cs - {d})
         else res = Inr () \<and> cs' = cs \<and> r' = r"
  using assms
proof (induction cs arbitrary: cs')
  case (Cons c cs)
  note prems = Cons.prems
  show ?case
  proof (cases "c_bound c \<or> c_dev c \<noteq> d")
    case True
    with prems obtain cs1 where rec: "bind_entry cb master data (dev_entry d) cs r = (res, cs1, r')"
      and cs': "cs' = c # cs1"
      by (auto split: prod.splits)
    have "if d \<in> unbound_devs cs
         then drv_log r' = drv_log r @ [Ev_bind d master data (\<not> isl res)] \<and>
              unbound_devs cs1 = (if isl res then unbound_devs cs else unbound_devs cs - {d})
         else res = Inr () \<and> cs1 = cs \<and> r' = r"
      by (rule Cons.IH [OF rec]) (use prems in auto)
    with True cs' show ?thesis by auto
  next
    case False
    then have d: "d = c_dev c" "\<not> c_bound c" by auto
    with prems(2) have notin: "d \<notin> unbound_devs cs"
      using unbound_devs_subset [of cs] by auto
    obtain res1 r1 where call: "call_bind cb c master data r = (res1, r1)" by fastforce
    have "drv_log r1 = drv_log r @ [Ev_bind d master data (\<not> isl res1)]"
      using call_bind_log [OF _ call] prems(3) d by simp
    then show ?thesis
      using prems(1) d notin call
      by (cases res1) (auto simp: mark_bound_def)
  qed
qed simp

text \<open>
  The whole list: the calls follow the match list, skip devices that are absent or already
  bound, and stop at the first failure.
\<close>
lemma bind_entries_dev:
  assumes "bind_entries cb master data (map dev_entry ds) cs r = (res, cs', r')"
    and "distinct (map c_dev cs)" and "list_all comp_wf cs" and "distinct ds"
  shows "\<exists>n. n \<le> length (filter (\<lambda>d. d \<in> unbound_devs cs) ds) \<and>
     (let todo = filter (\<lambda>d. d \<in> unbound_devs cs) ds in
      drv_log r' = drv_log r @ map (\<lambda>d. Ev_bind d master data True) (take n todo) @
        (if isl res then [Ev_bind (todo ! n) master data False] else []) \<and>
      (if isl res then n < length todo else n = length todo) \<and>
      unbound_devs cs' = unbound_devs cs - set (take n todo))"
  using assms
proof (induction ds arbitrary: cs r)
  case (Cons d ds)
  obtain res1 cs1 r1 where b: "bind_entry cb master data (dev_entry d) cs r = (res1, cs1, r1)"
    by (metis prod_cases3)
  note one = bind_entry_dev [OF b Cons.prems(2,3)]
  have keeps: "map c_dev cs1 = map c_dev cs" "list_all comp_wf cs1"
    using bind_step_keeps [OF bind_entry_steps [OF b]] Cons.prems(3) by auto
  show ?case
  proof (cases res1)
    case (Inl err)
    with one have d: "d \<in> unbound_devs cs" by (auto split: if_splits)
    have "res = Inl err" "cs' = cs1" "r' = r1" using Cons.prems(1) b Inl by auto
    then show ?thesis using one d Inl by (intro exI [of _ 0]) auto
  next
    case (Inr u)
    then have rec: "bind_entries cb master data (map dev_entry ds) cs1 r1 = (res, cs', r')"
      using Cons.prems(1) b by simp
    let ?todo1 = "filter (\<lambda>d. d \<in> unbound_devs cs1) ds"
    from Cons.IH [OF rec] keeps Cons.prems(2,4) obtain n where
      n: "n \<le> length ?todo1"
      "drv_log r' = drv_log r1 @ map (\<lambda>d. Ev_bind d master data True) (take n ?todo1) @
        (if isl res then [Ev_bind (?todo1 ! n) master data False] else [])"
      "if isl res then n < length ?todo1 else n = length ?todo1"
      "unbound_devs cs' = unbound_devs cs1 - set (take n ?todo1)"
      by (auto simp: Let_def)
    have same: "?todo1 = filter (\<lambda>d. d \<in> unbound_devs cs) ds"
    proof (rule filter_cong [OF refl])
      fix x assume "x \<in> set ds"
      with Cons.prems(4) have "x \<noteq> d" by auto
      with one Inr show "(x \<in> unbound_devs cs1) = (x \<in> unbound_devs cs)"
        by (auto split: if_splits)
    qed
    show ?thesis
    proof (cases "d \<in> unbound_devs cs")
      case True
      then have "drv_log r1 = drv_log r @ [Ev_bind d master data True]"
        "unbound_devs cs1 = unbound_devs cs - {d}"
        using one Inr by auto
      then show ?thesis using n same True
        by (intro exI [of _ "Suc n"]) (auto simp: Let_def split: if_splits)
    next
      case False
      then have "cs1 = cs" "r1 = r" using one by auto
      then show ?thesis using n False by (intro exI [of _ n]) (auto simp: Let_def)
    qed
  qed
qed (auto simp: Let_def)

subsection \<open>The record of calls only grows\<close>

lemma call_bind_prefix: "call_bind cb c master data r = (res, r') \<Longrightarrow> prefix (drv_log r) (drv_log r')"
  by (auto simp: call_bind_def split: option.splits prod.splits)

lemma call_unbind_prefix: "prefix (drv_log r) (drv_log (call_unbind cb c master data r))"
  by (auto simp: call_unbind_def split: option.splits)

lemma bind_registered_prefix:
  "bind_registered cb master data cs r = (res, cs', r') \<Longrightarrow> prefix (drv_log r) (drv_log r')"
proof (induction cs arbitrary: r res cs' r')
  case (Cons c cs)
  then show ?case
    by (fastforce split: if_splits prod.splits sum.splits
        dest: call_bind_prefix intro: prefix_order.trans)
qed simp

lemma bind_entry_prefix:
  "bind_entry cb master data e cs r = (res, cs', r') \<Longrightarrow> prefix (drv_log r) (drv_log r')"
proof (induction cs arbitrary: r res cs' r')
  case (Cons c cs)
  then show ?case
    by (fastforce split: if_splits prod.splits sum.splits dest: call_bind_prefix)
qed simp

lemma bind_entries_prefix:
  "bind_entries cb master data es cs r = (res, cs', r') \<Longrightarrow> prefix (drv_log r) (drv_log r')"
proof (induction es arbitrary: cs r)
  case (Cons e es)
  then show ?case
    by (fastforce split: prod.splits sum.splits dest: bind_entry_prefix intro: prefix_order.trans)
qed simp

lemma component_bind_all_prefix:
  "component_bind_all cb master data st = (res, cs', r') \<Longrightarrow> prefix (drv_log (comp_run st)) (drv_log r')"
  by (auto simp: component_bind_all_def split: option.splits
      dest: bind_registered_prefix bind_entries_prefix)

lemma unbind_registered_prefix:
  "unbind_registered cb master data cs r = (cs', r') \<Longrightarrow> prefix (drv_log r) (drv_log r')"
proof (induction cs arbitrary: r cs' r')
  case (Cons c cs)
  then show ?case
    using call_unbind_prefix [of r cb c master data]
    by (fastforce split: if_splits prod.splits intro: prefix_order.trans)
qed simp

lemma unbind_entry_prefix:
  "unbind_entry cb master data e cs r = (cs', r') \<Longrightarrow> prefix (drv_log r) (drv_log r')"
proof (induction cs arbitrary: cs')
  case (Cons c cs)
  then show ?case
    using call_unbind_prefix [of r cb c master data] by (auto split: if_splits prod.splits)
qed simp

lemma unbind_entries_prefix:
  "unbind_entries cb master data es cs r = (cs', r') \<Longrightarrow> prefix (drv_log r) (drv_log r')"
proof (induction es arbitrary: cs r)
  case (Cons e es)
  then show ?case
    by (fastforce split: prod.splits dest: unbind_entry_prefix intro: prefix_order.trans)
qed simp

lemma component_unbind_all_prefix:
  "component_unbind_all cb master data st = (cs', r') \<Longrightarrow> prefix (drv_log (comp_run st)) (drv_log r')"
  by (auto simp: component_unbind_all_def split: option.splits prod.splits
      dest: unbind_registered_prefix unbind_entries_prefix)

end
