(* ===== verification/Lkpi_Component_Laws.thy ===== *)
theory Lkpi_Component_Laws
  imports Lkpi_Component
begin

text \<open>
  Properties of the component framework: the mirror of binding and unbinding, the contract a
  master's callbacks keep (the locale \<open>component_master\<close>, interpreted on the vc4 master in
  \<open>Vc4_Drv\<close>), and under it that no master whose match list is complete is left waiting.
\<close>

subsection \<open>Unbinding order\<close>

definition bound_devs :: "lkpi_component list \<Rightarrow> ptr set" where
  "bound_devs cs = c_dev ` {c \<in> set cs. c_bound c \<and> ops_unbind (c_ops c) \<noteq> None}"

lemma bound_devs_simps [simp]:
  "bound_devs [] = {}"
  "bound_devs (c # cs) =
     (if c_bound c \<and> ops_unbind (c_ops c) \<noteq> None then {c_dev c} else {}) \<union> bound_devs cs"
  by (auto simp: bound_devs_def)

lemma bound_devs_subset: "bound_devs cs \<subseteq> c_dev ` set cs"
  by (auto simp: bound_devs_def)

lemma call_unbind_log:
  "drv_log (call_unbind cb c master data r) =
     drv_log r @ (if ops_unbind (c_ops c) = None then [] else [Ev_unbind (c_dev c) master data])"
  by (auto simp: call_unbind_def split: option.splits)

lemma unbind_entry_dev:
  assumes "unbind_entry cb master data (dev_entry d) cs r = (cs', r')"
    and "distinct (map c_dev cs)"
  shows "drv_log r' = drv_log r @ (if d \<in> bound_devs cs then [Ev_unbind d master data] else []) \<and>
         bound_devs cs' = bound_devs cs - {d} \<and>
         unbound_devs cs' = unbound_devs cs \<union> ({d} \<inter> c_dev ` set cs)"
  using assms
proof (induction cs arbitrary: cs')
  case (Cons c cs)
  show ?case
  proof (cases "\<not> c_bound c \<or> c_dev c \<noteq> d")
    case True
    with Cons.prems obtain cs1 where rec: "unbind_entry cb master data (dev_entry d) cs r = (cs1, r')"
      and cs': "cs' = c # cs1"
      by (auto split: prod.splits)
    with Cons.IH [OF rec] Cons.prems(2) True cs' show ?thesis by auto
  next
    case False
    then have d: "d = c_dev c" "c_bound c" by auto
    with Cons.prems(2) have notin: "d \<notin> c_dev ` set cs" by auto
    have "cs' = mark_unbound c # cs" "r' = call_unbind cb c master data r"
      using Cons.prems(1) d by auto
    then show ?thesis
      using d notin bound_devs_subset [of cs] unbound_devs_subset [of cs]
      by (auto simp: mark_unbound_def call_unbind_log)
  qed
qed simp

lemma unbind_entries_dev:
  assumes "unbind_entries cb master data (map dev_entry ds) cs r = (cs', r')"
    and "distinct (map c_dev cs)" and "distinct ds"
  shows "drv_log r' = drv_log r @
           map (\<lambda>d. Ev_unbind d master data) (filter (\<lambda>d. d \<in> bound_devs cs) ds) \<and>
         unbound_devs cs' = unbound_devs cs \<union> (set ds \<inter> c_dev ` set cs)"
  using assms
proof (induction ds arbitrary: cs r)
  case (Cons d ds)
  obtain cs1 r1 where b: "unbind_entry cb master data (dev_entry d) cs r = (cs1, r1)"
    by fastforce
  note one = unbind_entry_dev [OF b Cons.prems(2)]
  have devs: "map c_dev cs1 = map c_dev cs"
    using unbind_step_keeps [OF unbind_entry_steps [OF b]] by simp
  then have devset: "c_dev ` set cs1 = c_dev ` set cs" by (metis list.set_map)
  have rec: "unbind_entries cb master data (map dev_entry ds) cs1 r1 = (cs', r')"
    using Cons.prems(1) b by simp
  have same: "filter (\<lambda>d. d \<in> bound_devs cs1) ds = filter (\<lambda>d. d \<in> bound_devs cs) ds"
    by (rule filter_cong [OF refl]) (use one Cons.prems(3) in auto)
  from Cons.IH [OF rec] devs Cons.prems(2,3) one same devset show ?case by auto
qed simp

lemma bound_after_bind:
  assumes "list_all2 (bind_step master data) cs cs'" and "unbound_devs cs' = unbound_devs cs - set ds"
    and "set ds \<subseteq> c_dev ` set cs" and "distinct (map c_dev cs)"
    and "list_all (\<lambda>c. ops_unbind (c_ops c) \<noteq> None) cs"
  shows "set ds \<subseteq> bound_devs cs'"
proof
  fix d assume d: "d \<in> set ds"
  have keeps: "map c_dev cs' = map c_dev cs" "map c_ops cs' = map c_ops cs"
    using bind_step_keeps [OF assms(1)] by auto
  from d assms(3) have "d \<in> set (map c_dev cs')" using keeps by auto
  then obtain c' where c': "c' \<in> set cs'" "c_dev c' = d" by auto
  have "d \<notin> unbound_devs cs'" using d assms(2) by auto
  then have "c_bound c'" using c' by (auto simp: unbound_devs_def)
  moreover have "ops_unbind (c_ops c') \<noteq> None"
  proof -
    have "c_ops c' \<in> set (map c_ops cs)" using c'(1) keeps(2) by (metis image_eqI list.set_map)
    then show ?thesis using assms(5) by (auto simp: list_all_iff)
  qed
  ultimately show "d \<in> bound_devs cs'" using c' by (auto simp: bound_devs_def)
qed

subsection \<open>The contract of a master\<close>

text \<open>
  Whether a master still waits for a reason: it is bound, has no bind callback, its match list
  is not complete, or its bind callback was called after the first \<open>n\<close> recorded calls and failed.
\<close>
definition bind_attempted :: "'w comp_callbacks \<Rightarrow> nat \<Rightarrow> 'w comp_state \<Rightarrow> lkpi_master \<Rightarrow> bool" where
  "bind_attempted cb n st m \<longleftrightarrow> m_bound m \<or> mops_bind (m_ops m) = None \<or>
     \<not> lkpi_match_complete cb (m_match m) (lkpi_components st) \<or>
     Ev_master_bind (m_dev m) False \<in> set (drop n (drv_log (comp_run st)))"

text \<open>
  What the framework relies on in a master's callbacks: they bind and unbind components but
  neither add nor remove any, keep the invariant, and extend the record of calls.
\<close>
locale component_master =
  fixes cb :: "'w comp_callbacks"
  assumes master_bind_keeps:
    "cb_master_bind cb f d st = (res, cs, r) \<Longrightarrow> list_all comp_wf (lkpi_components st) \<Longrightarrow>
     map c_dev cs = map c_dev (lkpi_components st) \<and> map c_ops cs = map c_ops (lkpi_components st) \<and>
     list_all comp_wf cs \<and> prefix (drv_log (comp_run st)) (drv_log r)"
    and master_unbind_keeps:
    "cb_master_unbind cb f d st = (cs, r) \<Longrightarrow> list_all comp_wf (lkpi_components st) \<Longrightarrow>
     map c_dev cs = map c_dev (lkpi_components st) \<and> list_all comp_wf cs"
begin

lemma attempted_mono:
  assumes "bind_attempted cb n st m" and "map c_dev (lkpi_components st') = map c_dev (lkpi_components st)"
    and "prefix (drv_log (comp_run st)) (drv_log (comp_run st'))"
  shows "bind_attempted cb n st' m"
proof -
  from assms(3) obtain zs where zs: "drv_log (comp_run st') = drv_log (comp_run st) @ zs"
    by (auto simp: prefix_def)
  have "set (drop n (drv_log (comp_run st))) \<subseteq> set (drop n (drv_log (comp_run st')))"
    by (simp add: zs)
  with assms(1) show ?thesis
    using lkpi_match_complete_devs [OF assms(2), of cb] by (auto simp: bind_attempted_def)
qed

lemma call_master_bind_keeps:
  assumes "call_master_bind cb f d st = (res, cs, r)" and "list_all comp_wf (lkpi_components st)"
  shows "map c_dev cs = map c_dev (lkpi_components st) \<and> map c_ops cs = map c_ops (lkpi_components st) \<and>
     list_all comp_wf cs \<and> (\<exists>zs. drv_log r = drv_log (comp_run st) @ zs @ [Ev_master_bind d (\<not> isl res)])"
proof -
  obtain r0 where m: "cb_master_bind cb f d st = (res, cs, r0)"
    and r: "drv_log r = drv_log r0 @ [Ev_master_bind d (\<not> isl res)]"
    using assms(1) by (auto simp: call_master_bind_def split: prod.splits)
  from master_bind_keeps [OF m assms(2)] r show ?thesis by (auto simp: prefix_def)
qed

text \<open>
  One pass over the masters: components keep their devices and invariant, the master list
  keeps its members, the record of calls grows, and each master passed has been attempted.
\<close>
lemma try_bind_loop_pass:
  assumes "st' = try_bind_loop cb done ms st" and "list_all comp_wf (lkpi_components st)"
    and "n \<le> length (drv_log (comp_run st))" and "\<forall>m\<in>set done. bind_attempted cb n st m"
  shows "map c_dev (lkpi_components st') = map c_dev (lkpi_components st) \<and>
     list_all comp_wf (lkpi_components st') \<and>
     map m_dev (lkpi_masters st') = map m_dev (done @ ms) \<and>
     map m_match (lkpi_masters st') = map m_match (done @ ms) \<and>
     prefix (drv_log (comp_run st)) (drv_log (comp_run st')) \<and>
     (\<forall>m\<in>set (lkpi_masters st'). bind_attempted cb n st' m)"
  using assms
proof (induction ms arbitrary: "done" st)
  case Nil
  then show ?case by (auto simp: bind_attempted_def)
next
  case (Cons m ms)
  show ?case
  proof (cases "m_bound m \<or> mops_bind (m_ops m) = None \<or>
                \<not> lkpi_match_complete cb (m_match m) (lkpi_components st)")
    case True
    then have step: "st' = try_bind_loop cb (done @ [m]) ms st"
      using Cons.prems(1) by (auto split: option.splits)
    have "bind_attempted cb n st m" using True by (auto simp: bind_attempted_def)
    then show ?thesis using Cons.IH [OF step Cons.prems(2,3)] Cons.prems(4) by auto
  next
    case False
    then obtain f where f: "mops_bind (m_ops m) = Some f" by auto
    obtain res cs r where call:
      "call_master_bind cb f (m_dev m) (st\<lparr>lkpi_masters := done @ m # ms\<rparr>) = (res, cs, r)"
      by (metis prod_cases3)
    define m' where "m' = (if isl res then m else m\<lparr>m_bound := True\<rparr>)"
    define st1 where "st1 = st\<lparr>lkpi_components := cs, comp_run := r\<rparr>"
    have step: "st' = try_bind_loop cb (done @ [m']) ms st1"
      using Cons.prems(1) False f call by (cases res) (auto simp: m'_def st1_def Let_def)
    have "list_all comp_wf (lkpi_components (st\<lparr>lkpi_masters := done @ m # ms\<rparr>))"
      using Cons.prems(2) by simp
    from call_master_bind_keeps [OF call this] obtain zs where
      k: "map c_dev cs = map c_dev (lkpi_components st)" "list_all comp_wf cs"
         "drv_log r = drv_log (comp_run st) @ zs @ [Ev_master_bind (m_dev m) (\<not> isl res)]"
      by auto
    have pre: "prefix (drv_log (comp_run st)) (drv_log (comp_run st1))"
      by (simp add: st1_def k(3) prefix_def)
    have att: "bind_attempted cb n st1 m'"
      using Cons.prems(3) k(3) by (auto simp: bind_attempted_def m'_def st1_def)
    have "\<forall>x\<in>set (done @ [m']). bind_attempted cb n st1 x"
      using att attempted_mono [OF _ _ pre] Cons.prems(4) k(1) by (auto simp: st1_def)
    moreover have "n \<le> length (drv_log (comp_run st1))"
      using Cons.prems(3) by (simp add: st1_def k(3))
    ultimately have IH: "map c_dev (lkpi_components st') = map c_dev (lkpi_components st1) \<and>
     list_all comp_wf (lkpi_components st') \<and>
     map m_dev (lkpi_masters st') = map m_dev ((done @ [m']) @ ms) \<and>
     map m_match (lkpi_masters st') = map m_match ((done @ [m']) @ ms) \<and>
     prefix (drv_log (comp_run st1)) (drv_log (comp_run st')) \<and>
     (\<forall>m\<in>set (lkpi_masters st'). bind_attempted cb n st' m)"
      using Cons.IH [OF step] k(2) by (simp add: st1_def)
    show ?thesis
      using IH k(1) prefix_order.trans [OF pre] by (auto simp: st1_def m'_def)
  qed
qed

lemma try_bind_masters_pass:
  assumes "list_all comp_wf (lkpi_components st)"
  defines "st' \<equiv> lkpi_try_bind_masters cb st"
  shows "map c_dev (lkpi_components st') = map c_dev (lkpi_components st) \<and>
     list_all comp_wf (lkpi_components st') \<and>
     map m_dev (lkpi_masters st') = map m_dev (lkpi_masters st) \<and>
     map m_match (lkpi_masters st') = map m_match (lkpi_masters st) \<and>
     (\<forall>m\<in>set (lkpi_masters st'). bind_attempted cb (length (drv_log (comp_run st))) st' m)"
proof -
  have eq: "st' = try_bind_loop cb [] (lkpi_masters st) st"
    by (simp add: st'_def lkpi_try_bind_masters_def)
  show ?thesis
    using try_bind_loop_pass [OF eq assms(1), of "length (drv_log (comp_run st))"] by auto
qed

end

subsection \<open>Properties of binding\<close>

lemma component_bind_all_match:
  "lkpi_master_for master (lkpi_masters st) = Some m \<Longrightarrow> m_match m = Some mt \<Longrightarrow>
   component_bind_all cb master data st =
     bind_entries cb master data (cm_entries mt) (lkpi_components st) (comp_run st)"
  by (simp add: component_bind_all_def)

lemma component_unbind_all_match:
  "lkpi_master_for master (lkpi_masters st) = Some m \<Longrightarrow> m_match m = Some mt \<Longrightarrow>
   component_unbind_all cb master data st =
     unbind_entries cb (Some master) data (rev (cm_entries mt)) (lkpi_components st) (comp_run st)"
  by (simp add: component_unbind_all_def)

text \<open>
  The situation in which the vc4 master binds: it is registered with a match list that names
  distinct devices, every one of them registered as a component and not yet bound.
\<close>
definition ready_to_bind :: "ptr \<Rightarrow> ptr list \<Rightarrow> 'w comp_state \<Rightarrow> bool" where
  "ready_to_bind master ds st \<longleftrightarrow>
     (case lkpi_master_for master (lkpi_masters st) of None \<Rightarrow> False
      | Some m \<Rightarrow> (case m_match m of None \<Rightarrow> False
                  | Some mt \<Rightarrow> cm_entries mt = map dev_entry ds)) \<and>
     distinct ds \<and> distinct (map c_dev (lkpi_components st)) \<and>
     list_all comp_wf (lkpi_components st) \<and>
     list_all (\<lambda>d. d \<in> unbound_devs (lkpi_components st)) ds"

lemma ready_to_bindE:
  assumes "ready_to_bind master ds st"
  obtains m mt where "lkpi_master_for master (lkpi_masters st) = Some m" "m_match m = Some mt"
    "cm_entries mt = map dev_entry ds" "distinct ds" "distinct (map c_dev (lkpi_components st))"
    "list_all comp_wf (lkpi_components st)" "set ds \<subseteq> unbound_devs (lkpi_components st)"
  using assms by (auto simp: ready_to_bind_def list_all_iff split: option.splits)

lemma ready_bind_calls:
  assumes "ready_to_bind master ds st" and "component_bind_all cb master data st = (res, cs', r')"
  shows "\<exists>n \<le> length ds. (if isl res then n < length ds else n = length ds) \<and>
     drv_log r' = drv_log (comp_run st) @ map (\<lambda>d. Ev_bind d master data True) (take n ds) @
        (if isl res then [Ev_bind (ds ! n) master data False] else []) \<and>
     unbound_devs cs' = unbound_devs (lkpi_components st) - set (take n ds)"
proof -
  from assms(1) obtain m mt where s: "lkpi_master_for master (lkpi_masters st) = Some m"
    "m_match m = Some mt" "cm_entries mt = map dev_entry ds" "distinct ds"
    "distinct (map c_dev (lkpi_components st))" "list_all comp_wf (lkpi_components st)"
    "set ds \<subseteq> unbound_devs (lkpi_components st)"
    by (rule ready_to_bindE)
  have todo: "filter (\<lambda>d. d \<in> unbound_devs (lkpi_components st)) ds = ds"
    by (rule filter_True) (use s(7) in auto)
  have "bind_entries cb master data (map dev_entry ds) (lkpi_components st) (comp_run st) = (res, cs', r')"
    using assms(2) s(3) component_bind_all_match [OF s(1,2)] by simp
  from bind_entries_dev [OF this s(5,6,4)] show ?thesis by (auto simp: todo Let_def)
qed

text \<open>
  \<open>component_bind_all\<close> binds in the order of the master's match list, whatever the order
  in which the components registered: on success the bind callbacks called are exactly those
  of the listed devices, one each, in match order, and afterwards those devices are bound.
\<close>
theorem component_bind_all_match_order:
  assumes "ready_to_bind master ds st" and "component_bind_all cb master data st = (Inr (), cs', r')"
  shows "drv_log r' = drv_log (comp_run st) @ map (\<lambda>d. Ev_bind d master data True) ds \<and>
     unbound_devs cs' = unbound_devs (lkpi_components st) - set ds"
  using ready_bind_calls [OF assms] by auto

text \<open>
  C5. A failing bind callback stops \<open>component_bind_all\<close>: the components before it in the match
  list are bound and stay bound, the failing one and those after it are not, no later callback
  is called, and the error is returned.
\<close>
theorem component_bind_all_error:
  assumes "ready_to_bind master ds st" and "component_bind_all cb master data st = (Inl e, cs', r')"
  shows "\<exists>n < length ds.
     drv_log r' = drv_log (comp_run st) @ map (\<lambda>d. Ev_bind d master data True) (take n ds) @
        [Ev_bind (ds ! n) master data False] \<and>
     unbound_devs cs' = unbound_devs (lkpi_components st) - set (take n ds)"
  using ready_bind_calls [OF assms] by auto

text \<open>
  C4. \<open>component_unbind_all\<close> is the mirror of \<open>component_bind_all\<close>: after a successful bind it
  calls the unbind callbacks of the listed devices in the reverse of the order in which they
  were bound, and leaves as many components unbound as before.
\<close>
theorem component_unbind_mirrors_bind:
  assumes "ready_to_bind master ds st" and "component_bind_all cb master data st = (Inr (), cs', r')"
    and "list_all (\<lambda>c. ops_unbind (c_ops c) \<noteq> None) (lkpi_components st)"
    and "component_unbind_all cb master data (st\<lparr>lkpi_components := cs', comp_run := r'\<rparr>) = (cs'', r'')"
  shows "drv_log r'' = drv_log (comp_run st) @ map (\<lambda>d. Ev_bind d master data True) ds @
           map (\<lambda>d. Ev_unbind d (Some master) data) (rev ds) \<and>
         unbound_devs cs'' = unbound_devs (lkpi_components st)"
proof -
  from assms(1) obtain m mt where s: "lkpi_master_for master (lkpi_masters st) = Some m"
    "m_match m = Some mt" "cm_entries mt = map dev_entry ds" "distinct ds"
    "distinct (map c_dev (lkpi_components st))" "list_all comp_wf (lkpi_components st)"
    "set ds \<subseteq> unbound_devs (lkpi_components st)"
    by (rule ready_to_bindE)
  note steps = component_bind_all_steps [OF assms(2)]
  have devs: "map c_dev cs' = map c_dev (lkpi_components st)"
    using bind_step_keeps [OF steps] by simp
  have in_devs: "set ds \<subseteq> c_dev ` set (lkpi_components st)"
    using s(7) unbound_devs_subset by blast
  have bound: "drv_log r' = drv_log (comp_run st) @ map (\<lambda>d. Ev_bind d master data True) ds"
    "unbound_devs cs' = unbound_devs (lkpi_components st) - set ds"
    using ready_bind_calls [OF assms(1,2)] by auto
  have "set ds \<subseteq> bound_devs cs'"
    by (rule bound_after_bind [OF steps bound(2) in_devs s(5) assms(3)])
  then have all: "filter (\<lambda>d. d \<in> bound_devs cs') (rev ds) = rev ds"
    by (intro filter_True) auto
  have "unbind_entries cb (Some master) data (map dev_entry (rev ds)) cs' r' = (cs'', r'')"
    using assms(4) s(1-3) by (simp add: component_unbind_all_match [where m = m and mt = mt] rev_map)
  from unbind_entries_dev [OF this] devs s(4,5) all
  have "drv_log r'' = drv_log r' @ map (\<lambda>d. Ev_unbind d (Some master) data) (rev ds)"
    "unbound_devs cs'' = unbound_devs cs' \<union> (set ds \<inter> c_dev ` set cs')"
    by auto
  moreover have "c_dev ` set cs' = c_dev ` set (lkpi_components st)"
    using devs by (metis list.set_map)
  ultimately show ?thesis using bound in_devs s(7) by auto
qed

subsection \<open>Concrete instances\<close>

text \<open>
  A pipeline of three devices for the witnesses: the bind callback at address 99 fails, every
  other succeeds, and the master at address 1 lists the devices 11, 12, 13.
\<close>
definition demo_cb :: "unit comp_callbacks" where
  "demo_cb = \<lparr>cb_compare = (\<lambda>f d data. False),
     cb_bind = (\<lambda>f d m data w. (if f = 99 then Inl EIO else Inr (), w)),
     cb_unbind = (\<lambda>f d m data w. w),
     cb_master_bind = (\<lambda>f d st. (Inr (), lkpi_components st, comp_run st)),
     cb_master_unbind = (\<lambda>f d st. (lkpi_components st, comp_run st))\<rparr>"

definition demo_component :: "ptr \<Rightarrow> ptr \<Rightarrow> lkpi_component" where
  "demo_component f d = \<lparr>c_dev = d, c_ops = \<lparr>ops_addr = f, ops_bind = Some f, ops_unbind = Some f\<rparr>,
     c_bound = False, c_master = None, c_master_data = None\<rparr>"

definition demo_master :: "ptr list \<Rightarrow> lkpi_master" where
  "demo_master ds = \<lparr>m_dev = 1, m_ops = \<lparr>mops_addr = 2, mops_bind = Some 3, mops_unbind = Some 4\<rparr>,
     m_match = Some \<lparr>cm_entries = map dev_entry ds, cm_count = of_nat (length ds)\<rparr>, m_bound = False\<rparr>"

definition demo_state :: "lkpi_component list \<Rightarrow> unit comp_state" where
  "demo_state cs = \<lparr>lkpi_components = cs, lkpi_masters = [demo_master [11, 12, 13]],
     comp_run = \<lparr>drv_log = [], drv_world = ()\<rparr>\<rparr>"

lemmas demo_defs = demo_cb_def demo_component_def demo_master_def demo_state_def

lemma demo_ready:
  "ready_to_bind 1 [11, 12, 13]
     (demo_state [demo_component f1 13, demo_component f2 11, demo_component f3 12])"
  by (simp add: demo_defs ready_to_bind_def lkpi_master_for_def comp_wf_def)

definition demo_ok :: "unit comp_state" where
  "demo_ok = demo_state [demo_component 5 13, demo_component 5 11, demo_component 5 12]"

lemma demo_bind:
  "component_bind_all demo_cb 1 (Some 7) demo_ok =
     (Inr (), map (mark_bound 1 (Some 7)) (lkpi_components demo_ok),
      \<lparr>drv_log = [Ev_bind 11 1 (Some 7) True, Ev_bind 12 1 (Some 7) True, Ev_bind 13 1 (Some 7) True],
       drv_world = ()\<rparr>)"
  by (simp add: demo_ok_def demo_defs component_bind_all_def lkpi_master_for_def call_bind_def mark_bound_def)

theorem component_bind_all_match_order_witness:
  "drv_log (snd (snd (component_bind_all demo_cb 1 (Some 7) demo_ok))) =
     [Ev_bind 11 1 (Some 7) True, Ev_bind 12 1 (Some 7) True, Ev_bind 13 1 (Some 7) True]"
  using component_bind_all_match_order [OF demo_ready [of 5 5 5, folded demo_ok_def] demo_bind]
  unfolding demo_bind by (simp add: demo_ok_def demo_state_def)

definition demo_fail :: "unit comp_state" where
  "demo_fail = demo_state [demo_component 5 13, demo_component 5 11, demo_component 99 12]"

lemma demo_bind_fail:
  "component_bind_all demo_cb 1 None demo_fail =
     (Inl EIO, [demo_component 5 13, mark_bound 1 None (demo_component 5 11), demo_component 99 12],
      \<lparr>drv_log = [Ev_bind 11 1 None True, Ev_bind 12 1 None False], drv_world = ()\<rparr>)"
  by (simp add: demo_fail_def demo_defs component_bind_all_def lkpi_master_for_def call_bind_def mark_bound_def)

theorem component_bind_all_error_witness:
  "\<exists>n < length [11, 12, 13::ptr].
     drv_log (snd (snd (component_bind_all demo_cb 1 None demo_fail))) =
       map (\<lambda>d. Ev_bind d 1 None True) (take n [11, 12, 13]) @ [Ev_bind ([11, 12, 13] ! n) 1 None False]"
  using component_bind_all_error [OF demo_ready [of 5 5 99, folded demo_fail_def] demo_bind_fail]
  unfolding demo_bind_fail by (auto simp: demo_fail_def demo_state_def)

lemma demo_unbind:
  "component_unbind_all demo_cb 1 (Some 7) (demo_ok\<lparr>
       lkpi_components := map (mark_bound 1 (Some 7)) (lkpi_components demo_ok),
       comp_run := \<lparr>drv_log = [Ev_bind 11 1 (Some 7) True, Ev_bind 12 1 (Some 7) True,
         Ev_bind 13 1 (Some 7) True], drv_world = ()\<rparr>\<rparr>) =
     (lkpi_components demo_ok,
      \<lparr>drv_log = [Ev_bind 11 1 (Some 7) True, Ev_bind 12 1 (Some 7) True, Ev_bind 13 1 (Some 7) True,
         Ev_unbind 13 (Some 1) (Some 7), Ev_unbind 12 (Some 1) (Some 7), Ev_unbind 11 (Some 1) (Some 7)],
       drv_world = ()\<rparr>)"
  by (simp add: demo_ok_def demo_defs component_unbind_all_def lkpi_master_for_def call_unbind_def
      mark_bound_def mark_unbound_def)

theorem component_unbind_mirrors_bind_witness:
  "unbound_devs (fst (component_unbind_all demo_cb 1 (Some 7) (demo_ok\<lparr>
       lkpi_components := map (mark_bound 1 (Some 7)) (lkpi_components demo_ok),
       comp_run := \<lparr>drv_log = [Ev_bind 11 1 (Some 7) True, Ev_bind 12 1 (Some 7) True,
         Ev_bind 13 1 (Some 7) True], drv_world = ()\<rparr>\<rparr>))) = unbound_devs (lkpi_components demo_ok)"
proof -
  have "list_all (\<lambda>c. ops_unbind (c_ops c) \<noteq> None) (lkpi_components demo_ok)"
    by (simp add: demo_ok_def demo_defs)
  from component_unbind_mirrors_bind
    [OF demo_ready [of 5 5 5, folded demo_ok_def] demo_bind this demo_unbind]
  show ?thesis unfolding demo_unbind by simp
qed

end
