(* ===== verification/Vc4_Drv.thy ===== *)
theory Vc4_Drv
  imports Lkpi_Platform Lkpi_Component_Laws
begin

text \<open>
  The vc4 display master (\<^verbatim>\<open>graphics/drivers/gpu/drm/vc4/vc4_drv.c\<close>): it builds its match list
  from the platform-device registry in the order of \<open>component_drivers\<close>, registers with the
  component framework, and binds its components from \<open>vc4_drm_bind\<close>. Shown here: the match
  list, that \<open>vc4_drm_bind\<close> keeps the contract of a master, that it binds the encoders
  before the CRTCs, and what the framework then guarantees for the whole pipeline.
\<close>

subsection \<open>The match list\<close>

text \<open>
  \<open>alloc d\<close> gives the results of the two \<open>M_NOWAIT\<close> allocations that \<open>component_match_add\<close>
  makes for device \<open>d\<close>.
\<close>
definition match_add_dev ::
    "(ptr \<Rightarrow> bool \<times> bool) \<Rightarrow> ptr \<Rightarrow> component_match option \<Rightarrow> component_match option" where
  "match_add_dev alloc d mt =
     component_match_add (fst (alloc d)) (snd (alloc d)) mt (Some Component_compare_dev) (Some d)"

fun vc4_match_add_drivers ::
    "(ptr \<Rightarrow> bool \<times> bool) \<Rightarrow> ptr list \<Rightarrow> pdev_registry \<Rightarrow> component_match option \<Rightarrow>
     component_match option option" where
  "vc4_match_add_drivers alloc [] pdevs mt = Some mt"
| "vc4_match_add_drivers alloc (drv # drivers) pdevs mt =
     Option.bind (for_each_device (match_add_dev alloc) None drv pdevs mt)
       (vc4_match_add_drivers alloc drivers pdevs)"

text \<open>The drivers of the pipeline, by the addresses of their \<open>struct lkpi_driver\<close>.\<close>
record vc4_driver_ids =
  vc4_hvs_driver :: ptr
  vc4_hdmi_driver :: ptr
  vc4_crtc_driver :: ptr

definition component_drivers :: "vc4_driver_ids \<Rightarrow> ptr list" where
  "component_drivers ids = [vc4_hvs_driver ids, vc4_hdmi_driver ids, vc4_crtc_driver ids]"

subsection \<open>Binding the master\<close>

datatype vc4_gen = VC4_GEN_4 | VC4_GEN_5 | VC4_GEN_6_C | VC4_GEN_6_D

text \<open>
  What \<open>vc4_drm_bind\<close> calls outside this file: each call may fail and works on the drivers'
  state. \<open>firmware_get\<close> answers None when the tree has no firmware node, \<open>Some False\<close> when
  \<open>rpi_firmware_get\<close> returns NULL and \<open>Some True\<close> otherwise; \<open>firmware_kms_node\<close> is
  \<open>firmware_kms()\<close>, \<open>firmware_kms_flag\<close> the field \<open>vc4->firmware_kms\<close>. The DRM device
  allocated is \<open>drm_ptr\<close>.
\<close>
record 'w vc4_ext =
  ext_set_dma_mask :: "nat \<Rightarrow> 'w \<Rightarrow> 'w"
  ext_dev_alloc :: "'w \<Rightarrow> unit result \<times> 'w"
  ext_set_drvdata :: "ptr option \<Rightarrow> 'w \<Rightarrow> 'w"
  ext_mutex_init :: "'w \<Rightarrow> unit result \<times> 'w"
  ext_bo_cache_init :: "'w \<Rightarrow> unit result \<times> 'w"
  ext_mode_config_init :: "'w \<Rightarrow> unit result \<times> 'w"
  ext_gem_init :: "'w \<Rightarrow> unit result \<times> 'w"
  ext_firmware_get :: "'w \<Rightarrow> bool option"
  ext_remove_framebuffers :: "'w \<Rightarrow> unit result \<times> 'w"
  ext_firmware_kms_node :: "'w \<Rightarrow> bool"
  ext_notify_display_done :: "'w \<Rightarrow> 'w"
  ext_add_action :: "'w \<Rightarrow> unit result \<times> 'w"
  ext_firmware_kms_flag :: "'w \<Rightarrow> bool"
  ext_create_planes :: "'w \<Rightarrow> unit result \<times> 'w"
  ext_kms_load :: "'w \<Rightarrow> unit result \<times> 'w"
  ext_disable_at_boot :: "'w \<Rightarrow> 'w"
  ext_dev_register :: "'w \<Rightarrow> unit result \<times> 'w"
  ext_fbdev_setup :: "'w \<Rightarrow> 'w"
  ext_shutdown :: "'w \<Rightarrow> 'w"
  drm_ptr :: ptr

type_synonym 'w bind_st = "lkpi_component list \<times> 'w drv_run"

definition on_world :: "('w \<Rightarrow> 'w) \<Rightarrow> 'w bind_st \<Rightarrow> unit result \<times> 'w bind_st" where
  "on_world f s = (case s of (cs, r) \<Rightarrow> (Inr (), cs, r\<lparr>drv_world := f (drv_world r)\<rparr>))"

definition call_ext :: "('w \<Rightarrow> unit result \<times> 'w) \<Rightarrow> 'w bind_st \<Rightarrow> unit result \<times> 'w bind_st" where
  "call_ext f s = (case s of (cs, r) \<Rightarrow>
     (let (res, w) = f (drv_world r) in (res, cs, r\<lparr>drv_world := w\<rparr>)))"

definition vc4_component_unbind_all ::
    "'w comp_callbacks \<Rightarrow> 'w vc4_ext \<Rightarrow> ptr \<Rightarrow> lkpi_master list \<Rightarrow> 'w bind_st \<Rightarrow> 'w bind_st" where
  "vc4_component_unbind_all cb ext dev ms s =
     component_unbind_all cb dev (Some (drm_ptr ext))
       \<lparr>lkpi_components = fst s, lkpi_masters = ms, comp_run = snd s\<rparr>"

definition bind_components ::
    "'w comp_callbacks \<Rightarrow> 'w vc4_ext \<Rightarrow> ptr \<Rightarrow> lkpi_master list \<Rightarrow> 'w bind_st \<Rightarrow> unit result \<times> 'w bind_st" where
  "bind_components cb ext dev ms s =
     component_bind_all cb dev (Some (drm_ptr ext))
       \<lparr>lkpi_components = fst s, lkpi_masters = ms, comp_run = snd s\<rparr>"

text \<open>\<open>devm_add_action_or_reset\<close> runs the action at once when it cannot be registered.\<close>
definition add_unbind_action ::
    "'w comp_callbacks \<Rightarrow> 'w vc4_ext \<Rightarrow> ptr \<Rightarrow> lkpi_master list \<Rightarrow> 'w bind_st \<Rightarrow> unit result \<times> 'w bind_st" where
  "add_unbind_action cb ext dev ms s =
     (case call_ext (ext_add_action ext) s of
        (Inl e, s') \<Rightarrow> (Inl e, vc4_component_unbind_all cb ext dev ms s')
      | (Inr _, s') \<Rightarrow> (Inr (), s'))"

text \<open>The firmware part: defer when the node is there and its driver is not.\<close>
definition firmware_steps :: "'w vc4_ext \<Rightarrow> 'w bind_st \<Rightarrow> unit result \<times> 'w bind_st" where
  "firmware_steps ext s =
     (case ext_firmware_get ext (drv_world (snd s)) of
        Some False \<Rightarrow> (Inl EPROBE_DEFER, s)
      | fw \<Rightarrow>
         run_steps
           [call_ext (ext_remove_framebuffers ext),
            \<lambda>s. if fw = Some True \<and> \<not> ext_firmware_kms_node ext (drv_world (snd s))
                then on_world (ext_notify_display_done ext) s else (Inr (), s)] s)"

definition unless_fkms ::
    "'w vc4_ext \<Rightarrow> ('w bind_st \<Rightarrow> unit result \<times> 'w bind_st) \<Rightarrow> 'w bind_st \<Rightarrow> unit result \<times> 'w bind_st" where
  "unless_fkms ext f s = step_when (\<not> ext_firmware_kms_flag ext (drv_world (snd s))) f s"

text \<open>
  \<open>vc4_drm_bind\<close> after the allocation of the DRM device; \<open>of_dma_configure\<close> always succeeds
  without acting (see \<open>Lkpi_Of\<close>), so the lookup before it has no effect.
\<close>
definition vc4_bind_steps ::
    "'w comp_callbacks \<Rightarrow> 'w vc4_ext \<Rightarrow> vc4_gen \<Rightarrow> ptr \<Rightarrow> lkpi_master list \<Rightarrow>
     ('w bind_st \<Rightarrow> unit result \<times> 'w bind_st) list" where
  "vc4_bind_steps cb ext gen dev ms =
     [step_when (gen = VC4_GEN_4) (call_ext (ext_mutex_init ext)),
      step_when (gen = VC4_GEN_4) (call_ext (ext_bo_cache_init ext)),
      call_ext (ext_mode_config_init ext),
      step_when (gen = VC4_GEN_4) (call_ext (ext_gem_init ext)),
      firmware_steps ext,
      bind_components cb ext dev ms,
      add_unbind_action cb ext dev ms,
      unless_fkms ext (call_ext (ext_create_planes ext)),
      call_ext (ext_kms_load ext),
      unless_fkms ext (on_world (ext_disable_at_boot ext)),
      call_ext (ext_dev_register ext),
      on_world (ext_fbdev_setup ext)]"

definition vc4_drm_bind ::
    "'w comp_callbacks \<Rightarrow> 'w vc4_ext \<Rightarrow> vc4_gen \<Rightarrow> ptr \<Rightarrow> 'w comp_state \<Rightarrow>
     unit result \<times> lkpi_component list \<times> 'w drv_run" where
  "vc4_drm_bind cb ext gen dev st =
     (let s0 = (lkpi_components st, comp_run st);
          mask = (if gen = VC4_GEN_6_C \<or> gen = VC4_GEN_6_D then 36 else 32);
          (_, s1) = on_world (ext_set_dma_mask ext mask) s0
      in case call_ext (ext_dev_alloc ext) s1 of
           (Inl e, s2) \<Rightarrow> (Inl e, s2)
         | (Inr _, s2) \<Rightarrow>
            (let (_, s3) = on_world (ext_set_drvdata ext (Some (drm_ptr ext))) s2
             in case run_steps (vc4_bind_steps cb ext gen dev (lkpi_masters st)) s3 of
                  (Inr _, s4) \<Rightarrow> (Inr (), s4)
                | (Inl e, s4) \<Rightarrow> (Inl e, snd (on_world (ext_set_drvdata ext None) s4))))"

definition vc4_drm_unbind :: "'w vc4_ext \<Rightarrow> 'w comp_state \<Rightarrow> lkpi_component list \<times> 'w drv_run" where
  "vc4_drm_unbind ext st =
     (let r = comp_run st
      in (lkpi_components st,
          r\<lparr>drv_world := ext_set_drvdata ext None (ext_shutdown ext (drv_world r))\<rparr>))"

text \<open>The callback table of the pipeline: the master's two callbacks are the ones above.\<close>
definition vc4_callbacks ::
    "'w comp_callbacks \<Rightarrow> 'w vc4_ext \<Rightarrow> vc4_gen \<Rightarrow> 'w comp_callbacks" where
  "vc4_callbacks cb ext gen =
     cb\<lparr>cb_master_bind := (\<lambda>f dev st. vc4_drm_bind cb ext gen dev st),
        cb_master_unbind := (\<lambda>f dev st. vc4_drm_unbind ext st)\<rparr>"

definition vc4_platform_drm_probe ::
    "'w comp_callbacks \<Rightarrow> (ptr \<Rightarrow> bool \<times> bool) \<Rightarrow> bool \<Rightarrow> vc4_driver_ids \<Rightarrow> component_master_ops \<Rightarrow>
     ptr \<Rightarrow> pdev_registry \<Rightarrow> 'w comp_state \<Rightarrow> (unit result \<times> 'w comp_state) option" where
  "vc4_platform_drm_probe cb alloc malloc_ok ids vc4_drm_ops dev pdevs st =
     map_option (\<lambda>mt. component_master_add_with_match cb malloc_ok (Some dev) (Some vc4_drm_ops) mt st)
       (vc4_match_add_drivers alloc (component_drivers ids) pdevs None)"

definition vc4_platform_drm_remove ::
    "'w comp_callbacks \<Rightarrow> component_master_ops \<Rightarrow> ptr \<Rightarrow> 'w comp_state \<Rightarrow> 'w comp_state" where
  "vc4_platform_drm_remove cb vc4_drm_ops dev st = component_master_del cb dev vc4_drm_ops st"

subsection \<open>The contract of a master, for vc4\<close>

definition keeps_from :: "'w comp_state \<Rightarrow> 'w bind_st \<Rightarrow> bool" where
  "keeps_from st s \<longleftrightarrow>
     map c_dev (fst s) = map c_dev (lkpi_components st) \<and>
     map c_ops (fst s) = map c_ops (lkpi_components st) \<and>
     list_all comp_wf (fst s) \<and> prefix (drv_log (comp_run st)) (drv_log (snd s))"

lemma keeps_from_on_world: "on_world f s = (res, s') \<Longrightarrow> keeps_from st s \<Longrightarrow> keeps_from st s'"
  by (auto simp: on_world_def keeps_from_def split: prod.splits)

lemma keeps_from_call_ext: "call_ext f s = (res, s') \<Longrightarrow> keeps_from st s \<Longrightarrow> keeps_from st s'"
  by (auto simp: call_ext_def keeps_from_def split: prod.splits)

lemma keeps_from_bind_components:
  assumes "bind_components cb ext dev ms s = (res, s')" and "keeps_from st s"
  shows "keeps_from st s'"
proof -
  obtain cs r where s': "s' = (cs, r)" by fastforce
  note b = assms(1)[unfolded bind_components_def s']
  show ?thesis
    using bind_step_keeps [OF component_bind_all_steps [OF b]] component_bind_all_prefix [OF b] assms(2)
    by (auto simp: keeps_from_def s' intro: prefix_order.trans)
qed

lemma keeps_from_unbind_all:
  assumes "keeps_from st s"
  shows "keeps_from st (vc4_component_unbind_all cb ext dev ms s)"
proof -
  obtain cs r where s': "vc4_component_unbind_all cb ext dev ms s = (cs, r)" by fastforce
  note b = s'[unfolded vc4_component_unbind_all_def]
  show ?thesis
    using unbind_step_keeps [OF component_unbind_all_steps [OF b]] component_unbind_all_prefix [OF b] assms
    by (auto simp: keeps_from_def s' intro: prefix_order.trans)
qed

lemma keeps_from_add_action:
  "add_unbind_action cb ext dev ms s = (res, s') \<Longrightarrow> keeps_from st s \<Longrightarrow> keeps_from st s'"
  by (auto simp: add_unbind_action_def split: prod.splits sum.splits
      dest: keeps_from_call_ext intro: keeps_from_unbind_all)

lemma keeps_from_snd_on_world: "keeps_from st s \<Longrightarrow> keeps_from st (snd (on_world f s))"
  by (auto simp: on_world_def keeps_from_def split: prod.splits)

lemma keeps_from_firmware:
  "firmware_steps ext s = (res, s') \<Longrightarrow> keeps_from st s \<Longrightarrow> keeps_from st s'"
  by (auto simp: firmware_steps_def split: option.splits bool.splits prod.splits sum.splits if_splits
      dest: keeps_from_call_ext keeps_from_on_world)

lemmas keeps_from_steps =
  keeps_from_on_world keeps_from_call_ext keeps_from_bind_components keeps_from_add_action
  keeps_from_firmware

lemma keeps_from_bind_steps:
  assumes "f \<in> set (vc4_bind_steps cb ext gen dev ms)" and "keeps_from st s" and "f s = (res, s')"
  shows "keeps_from st s'"
  using assms unfolding vc4_bind_steps_def
  by (auto simp: unless_fkms_def step_when_def split: if_splits intro: keeps_from_steps)

lemma vc4_drm_bind_keeps:
  assumes "vc4_drm_bind cb ext gen dev st = (res, cs, r)" and "list_all comp_wf (lkpi_components st)"
  shows "keeps_from st (cs, r)"
proof -
  have s0: "keeps_from st (lkpi_components st, comp_run st)"
    using assms(2) by (simp add: keeps_from_def)
  have after: "keeps_from st s'" if "run_steps (vc4_bind_steps cb ext gen dev ms) s = (res, s')"
    and "keeps_from st s" for ms s res s'
    by (rule run_steps_invariant [where P = "keeps_from st", OF that]) (rule keeps_from_bind_steps)
  show ?thesis
    using assms(1) s0
    by (auto simp: vc4_drm_bind_def Let_def split: prod.splits sum.splits
        dest!: after keeps_from_on_world keeps_from_call_ext)
       (metis keeps_from_snd_on_world)
qed

interpretation vc4: component_master "vc4_callbacks cb ext gen" for cb ext gen
proof unfold_locales
  fix f d st res cs r
  assume "cb_master_bind (vc4_callbacks cb ext gen) f d st = (res, cs, r)"
    and "list_all comp_wf (lkpi_components st)"
  then have "keeps_from st (cs, r)"
    by (auto simp: vc4_callbacks_def intro: vc4_drm_bind_keeps)
  then show "map c_dev cs = map c_dev (lkpi_components st) \<and>
     map c_ops cs = map c_ops (lkpi_components st) \<and>
     list_all comp_wf cs \<and> prefix (drv_log (comp_run st)) (drv_log r)"
    by (simp add: keeps_from_def)
next
  fix f d st cs r
  assume "cb_master_unbind (vc4_callbacks cb ext gen) f d st = (cs, r)"
    and "list_all comp_wf (lkpi_components st)"
  then show "map c_dev cs = map c_dev (lkpi_components st) \<and> list_all comp_wf cs"
    by (auto simp: vc4_callbacks_def vc4_drm_unbind_def Let_def)
qed

subsection \<open>The calls of the vc4 bind\<close>

text \<open>Steps outside the component framework leave components and calls alone.\<close>
definition same_calls :: "'w bind_st \<Rightarrow> 'w bind_st \<Rightarrow> bool" where
  "same_calls s s' \<longleftrightarrow> fst s' = fst s \<and> drv_log (snd s') = drv_log (snd s)"

definition quiet :: "('w bind_st \<Rightarrow> unit result \<times> 'w bind_st) \<Rightarrow> bool" where
  "quiet f \<longleftrightarrow> (\<forall>s. same_calls s (snd (f s)))"

lemma quiet_on_world [simp]: "quiet (on_world f)"
  by (auto simp: quiet_def same_calls_def on_world_def split: prod.splits)

lemma quiet_call_ext [simp]: "quiet (call_ext f)"
  by (auto simp: quiet_def same_calls_def call_ext_def split: prod.splits)

lemma quiet_step_when [simp]: "quiet f \<Longrightarrow> quiet (step_when b f)"
  by (auto simp: quiet_def same_calls_def step_when_def)

lemma quiet_unless_fkms [simp]: "quiet f \<Longrightarrow> quiet (unless_fkms ext f)"
  by (auto simp: quiet_def same_calls_def step_when_def unless_fkms_def)

lemma quiet_run_steps:
  assumes "list_all quiet fs"
  shows "quiet (run_steps fs)"
  unfolding quiet_def
proof
  fix s
  obtain res s' where r: "run_steps fs s = (res, s')" by (metis prod.collapse)
  have "same_calls s s'"
  proof (rule run_steps_invariant [where P = "same_calls s", OF r])
    fix f s1 res1 s2
    assume f: "f \<in> set fs" and s1: "same_calls s s1" and s2: "f s1 = (res1, s2)"
    have "same_calls s1 (snd (f s1))" using f assms unfolding list_all_iff quiet_def by blast
    then show "same_calls s s2" using s1 s2 by (simp add: same_calls_def)
  qed (simp add: same_calls_def)
  with r show "same_calls s (snd (run_steps fs s))" by simp
qed

lemma quiet_if [simp]: "quiet f \<Longrightarrow> quiet (\<lambda>s. if P s then f s else (Inr (), s))"
  by (auto simp: quiet_def same_calls_def)

lemma quiet_firmware [simp]: "quiet (firmware_steps ext)"
  by (auto simp: quiet_def firmware_steps_def same_calls_def call_ext_def on_world_def
      split: prod.splits sum.splits option.splits bool.splits)

lemma quiet_result:
  "quiet f \<Longrightarrow> f s = (res, s') \<Longrightarrow> fst s' = fst s \<and> drv_log (snd s') = drv_log (snd s)"
  unfolding quiet_def same_calls_def by (metis snd_conv)

lemma run_steps_append_Inr:
  "run_steps (fs @ gs) s = (Inr u, s') \<longleftrightarrow>
     (\<exists>v s1. run_steps fs s = (Inr v, s1) \<and> run_steps gs s1 = (Inr u, s'))"
  by (auto simp: run_steps_append split: prod.splits sum.splits)

lemma vc4_bind_steps_split:
  "vc4_bind_steps cb ext gen dev ms =
     [step_when (gen = VC4_GEN_4) (call_ext (ext_mutex_init ext)),
      step_when (gen = VC4_GEN_4) (call_ext (ext_bo_cache_init ext)),
      call_ext (ext_mode_config_init ext),
      step_when (gen = VC4_GEN_4) (call_ext (ext_gem_init ext)),
      firmware_steps ext] @
     [bind_components cb ext dev ms] @ [add_unbind_action cb ext dev ms] @
     [unless_fkms ext (call_ext (ext_create_planes ext)),
      call_ext (ext_kms_load ext),
      unless_fkms ext (on_world (ext_disable_at_boot ext)),
      call_ext (ext_dev_register ext),
      on_world (ext_fbdev_setup ext)]"
  by (simp add: vc4_bind_steps_def)

lemma add_unbind_action_Inr:
  "add_unbind_action cb ext dev ms s = (Inr u, s') \<Longrightarrow>
   fst s' = fst s \<and> drv_log (snd s') = drv_log (snd s)"
  by (auto simp: add_unbind_action_def split: prod.splits sum.splits
      dest: quiet_result [OF quiet_call_ext])

lemma bind_steps_success:
  assumes "run_steps (vc4_bind_steps cb ext gen dev ms) s = (Inr (), s')"
  shows "\<exists>s1 s2. bind_components cb ext dev ms s1 = (Inr (), s2) \<and>
     fst s1 = fst s \<and> drv_log (snd s1) = drv_log (snd s) \<and>
     fst s' = fst s2 \<and> drv_log (snd s') = drv_log (snd s2)"
proof -
  from assms obtain s1 s2 s3 where
    pre: "run_steps [step_when (gen = VC4_GEN_4) (call_ext (ext_mutex_init ext)),
      step_when (gen = VC4_GEN_4) (call_ext (ext_bo_cache_init ext)),
      call_ext (ext_mode_config_init ext),
      step_when (gen = VC4_GEN_4) (call_ext (ext_gem_init ext)),
      firmware_steps ext] s = (Inr (), s1)" and
    b: "run_steps [bind_components cb ext dev ms] s1 = (Inr (), s2)" and
    a: "run_steps [add_unbind_action cb ext dev ms] s2 = (Inr (), s3)" and
    post: "run_steps [unless_fkms ext (call_ext (ext_create_planes ext)),
      call_ext (ext_kms_load ext),
      unless_fkms ext (on_world (ext_disable_at_boot ext)),
      call_ext (ext_dev_register ext),
      on_world (ext_fbdev_setup ext)] s3 = (Inr (), s')"
    unfolding vc4_bind_steps_split run_steps_append_Inr by (metis (full_types) old.unit.exhaust)
  have "bind_components cb ext dev ms s1 = (Inr (), s2)"
    using b by (auto split: prod.splits sum.splits)
  moreover have "fst s1 = fst s \<and> drv_log (snd s1) = drv_log (snd s)"
    by (rule quiet_result [OF quiet_run_steps pre]) simp
  moreover have "fst s3 = fst s2 \<and> drv_log (snd s3) = drv_log (snd s2)"
    using a by (auto split: prod.splits sum.splits dest: add_unbind_action_Inr)
  moreover have "fst s' = fst s3 \<and> drv_log (snd s') = drv_log (snd s3)"
    by (rule quiet_result [OF quiet_run_steps post]) simp
  ultimately show ?thesis by (intro exI [of _ s1] exI [of _ s2]) simp
qed

lemma vc4_drm_bind_success:
  assumes "vc4_drm_bind cb ext gen dev st = (Inr (), cs, r)" and "ready_to_bind dev ds st"
  shows "drv_log r = drv_log (comp_run st) @ map (\<lambda>d. Ev_bind d dev (Some (drm_ptr ext)) True) ds \<and>
     unbound_devs cs = unbound_devs (lkpi_components st) - set ds"
proof -
  obtain w where run: "run_steps (vc4_bind_steps cb ext gen dev (lkpi_masters st))
      (lkpi_components st, (comp_run st)\<lparr>drv_world := w\<rparr>) = (Inr (), cs, r)"
    using assms(1)
    by (auto simp: vc4_drm_bind_def Let_def on_world_def call_ext_def split: prod.splits sum.splits)
  define s0 where "s0 = (lkpi_components st, (comp_run st)\<lparr>drv_world := w\<rparr>)"
  have s0: "fst s0 = lkpi_components st" "drv_log (snd s0) = drv_log (comp_run st)"
    by (simp_all add: s0_def)
  note run = run [folded s0_def]
  from bind_steps_success [OF run] obtain s1 s2 where
    b: "bind_components cb ext dev (lkpi_masters st) s1 = (Inr (), s2)" and
    s1: "fst s1 = fst s0" "drv_log (snd s1) = drv_log (snd s0)" and
    s2: "cs = fst s2" "drv_log r = drv_log (snd s2)"
    by auto
  let ?st = "\<lparr>lkpi_components = fst s1, lkpi_masters = lkpi_masters st, comp_run = snd s1\<rparr>"
  have "ready_to_bind dev ds ?st" using assms(2) s0 s1 by (simp add: ready_to_bind_def)
  moreover have "component_bind_all cb dev (Some (drm_ptr ext)) ?st = (Inr (), fst s2, snd s2)"
    using b by (simp add: bind_components_def)
  ultimately show ?thesis using ready_bind_calls [of dev ds ?st cb "Some (drm_ptr ext)"] s0 s1 s2
    by fastforce
qed

subsection \<open>The match list\<close>

lemma match_add_dev_ok:
  "alloc d = (True, True) \<Longrightarrow>
   match_add_dev alloc d mt =
     (case mt of None \<Rightarrow> Some \<lparr>cm_entries = [dev_entry d], cm_count = 1\<rparr>
      | Some m \<Rightarrow> Some (m\<lparr>cm_entries := cm_entries m @ [dev_entry d], cm_count := cm_count m + 1\<rparr>))"
  by (auto simp: match_add_dev_def component_match_add_def dev_entry_def split: option.split)

lemma fold_match_add_dev:
  "(\<And>d. d \<in> set ds \<Longrightarrow> alloc d = (True, True)) \<Longrightarrow>
   fold (match_add_dev alloc) ds (Some m) =
     Some (m\<lparr>cm_entries := cm_entries m @ map dev_entry ds,
             cm_count := cm_count m + of_nat (length ds)\<rparr>)"
  by (induction ds arbitrary: m) (simp_all add: match_add_dev_ok)

text \<open>The match list of a pass: the devices driver by driver.\<close>
definition pipeline :: "ptr list \<Rightarrow> pdev_registry \<Rightarrow> ptr list" where
  "pipeline drivers pdevs = concat (map (\<lambda>drv. devices_of drv pdevs) drivers)"

definition match_list_of :: "ptr list \<Rightarrow> component_match option" where
  "match_list_of ds = (if ds = [] then None
     else Some \<lparr>cm_entries = map dev_entry ds, cm_count = of_nat (length ds)\<rparr>)"

lemma fold_match_add_dev_None:
  assumes "\<And>d. d \<in> set ds \<Longrightarrow> alloc d = (True, True)"
  shows "fold (match_add_dev alloc) ds None = match_list_of ds"
  using assms by (cases ds) (simp_all add: match_add_dev_ok fold_match_add_dev match_list_of_def)

lemma match_add_drivers_fold:
  "devs_distinct pdevs \<Longrightarrow>
   vc4_match_add_drivers alloc drivers pdevs mt =
     Some (fold (match_add_dev alloc) (pipeline drivers pdevs) mt)"
  by (induction drivers arbitrary: mt) (simp_all add: pipeline_def for_each_device_all)

lemma pipeline_distinct:
  assumes "devs_distinct pdevs" and "distinct drivers"
  shows "distinct (pipeline drivers pdevs)"
  using assms(2)
proof (induction drivers)
  case (Cons drv drivers)
  have one: "e1 = e2" if "e1 \<in> set pdevs" "e2 \<in> set pdevs" "pe_dev_addr e1 = pe_dev_addr e2" for e1 e2
    using assms(1) that unfolding devs_distinct_def distinct_map inj_on_def by blast
  have "set (devices_of drv pdevs) \<inter> set (pipeline drivers pdevs) = {}"
  proof (rule equals0I)
    fix d assume "d \<in> set (devices_of drv pdevs) \<inter> set (pipeline drivers pdevs)"
    then obtain e1 e2 drv' where "e1 \<in> set pdevs" "pe_drv e1 = Some drv" "pe_dev_addr e1 = d"
      "drv' \<in> set drivers" "e2 \<in> set pdevs" "pe_drv e2 = Some drv'" "pe_dev_addr e2 = d"
      by (auto simp: pipeline_def devices_of_def)
    with one [of e1 e2] Cons.prems show False by auto
  qed
  with Cons devices_of_distinct [OF assms(1), of drv] show ?case
    by (simp add: pipeline_def)
qed (simp add: pipeline_def)

subsection \<open>The pipeline comes up\<close>

lemma try_bind_loop_bound:
  "list_all m_bound ms \<Longrightarrow>
   try_bind_loop cb done (ms @ rest) st = try_bind_loop cb (done @ ms) rest st"
  by (induction ms arbitrary: "done") auto

lemma lkpi_master_for_last:
  "list_all (\<lambda>m. m_dev m \<noteq> dev) ms \<Longrightarrow> m_dev m = dev \<Longrightarrow> lkpi_master_for dev (ms @ [m]) = Some m"
  by (auto simp: lkpi_master_for_def find_append list_all_iff split: option.split dest: find_SomeD)

lemma match_complete_devs:
  "set ds \<subseteq> unbound_devs cs \<Longrightarrow> lkpi_match_complete cb (match_list_of ds) cs"
  by (auto simp: lkpi_match_complete_def match_list_of_def list_all_iff list_ex_iff unbound_devs_def)

text \<open>
  The display master waiting to bind: all other masters are bound, the match list names the
  pipeline \<open>ds\<close>, and the component list is sound.
\<close>
definition vc4_waiting :: "ptr \<Rightarrow> ptr list \<Rightarrow> lkpi_master list \<Rightarrow> lkpi_master \<Rightarrow> bool" where
  "vc4_waiting dev ds ms m \<longleftrightarrow>
     list_all m_bound ms \<and> list_all (\<lambda>m. m_dev m \<noteq> dev) ms \<and>
     m_dev m = dev \<and> mops_bind (m_ops m) \<noteq> None \<and> \<not> m_bound m \<and>
     m_match m = match_list_of ds \<and> ds \<noteq> [] \<and> distinct ds"

definition pipeline_present :: "ptr list \<Rightarrow> lkpi_component list \<Rightarrow> bool" where
  "pipeline_present ds cs \<longleftrightarrow>
     distinct (map c_dev cs) \<and> list_all comp_wf cs \<and> list_all (\<lambda>d. d \<in> unbound_devs cs) ds"

text \<open>
  Nothing outside this driver fails: no bind callback of a component, and none of the calls of \<open>vc4_drm_bind\<close> that its generation makes.
\<close>
definition outside_succeeds :: "'w comp_callbacks \<Rightarrow> 'w vc4_ext \<Rightarrow> vc4_gen \<Rightarrow> bool" where
  "outside_succeeds cb ext gen \<longleftrightarrow>
     (\<forall>f d m x w. \<not> isl (fst (cb_bind cb f d m x w))) \<and> (\<forall>w. \<not> isl (fst (ext_dev_alloc ext w))) \<and>
     (gen = VC4_GEN_4 \<longrightarrow> (\<forall>w. \<not> isl (fst (ext_mutex_init ext w)) \<and> \<not> isl (fst (ext_bo_cache_init ext w)) \<and> \<not> isl (fst (ext_gem_init ext w)))) \<and>
     (\<forall>w. \<not> isl (fst (ext_mode_config_init ext w)) \<and> ext_firmware_get ext w \<noteq> Some False \<and> \<not> isl (fst (ext_remove_framebuffers ext w)) \<and>
          \<not> isl (fst (ext_add_action ext w)) \<and> \<not> isl (fst (ext_create_planes ext w)) \<and> \<not> isl (fst (ext_kms_load ext w)) \<and>
          \<not> isl (fst (ext_dev_register ext w)))"

lemma call_bind_succeeds: "outside_succeeds cb ext gen \<Longrightarrow> comp_wf c \<Longrightarrow> \<not> isl (fst (call_bind cb c m x r))"
proof -
  assume "outside_succeeds cb ext gen" "comp_wf c"
  then obtain f where "ops_bind (c_ops c) = Some f" "\<not> isl (fst (cb_bind cb f (c_dev c) m x (drv_world r)))"
    by (auto simp: outside_succeeds_def comp_wf_def)
  then show ?thesis by (auto simp: call_bind_def split: prod.splits)
qed

lemma bind_entry_succeeds:
  assumes "outside_succeeds cb ext gen" "list_all comp_wf cs"
  shows "\<not> isl (fst (bind_entry cb m x e cs r))"
  using assms(2) by (induction cs) (auto dest: call_bind_succeeds [OF assms(1), of _ m x r] split: prod.splits sum.splits)

lemma bind_registered_succeeds:
  assumes "outside_succeeds cb ext gen" "list_all comp_wf cs"
  shows "\<not> isl (fst (bind_registered cb m x cs r))"
  using assms(2)
proof (induction cs arbitrary: r)
  case (Cons c cs)
  then show ?case using call_bind_succeeds [OF assms(1), of c m x r] by (auto split: prod.splits sum.splits) (metis fst_conv)+
qed simp

lemma bind_entries_succeeds:
  assumes "outside_succeeds cb ext gen" "list_all comp_wf cs"
  shows "\<not> isl (fst (bind_entries cb m x es cs r))"
  using assms(2)
proof (induction es arbitrary: cs r)
  case (Cons e es)
  obtain res cs' r' where b: "bind_entry cb m x e cs r = (res, cs', r')" by (metis prod_cases3)
  then obtain u where res: "res = Inr u" using bind_entry_succeeds [OF assms(1) Cons.prems, of m x e r] by (cases res) auto
  have "list_all comp_wf cs'" using bind_step_keeps [OF bind_entry_steps [OF b]] Cons.prems by blast
  then show ?case using Cons.IH b res by simp
qed simp

lemma bind_components_succeeds:
  "outside_succeeds cb ext gen \<Longrightarrow> list_all comp_wf (fst s) \<Longrightarrow> \<not> isl (fst (bind_components cb ext dev ms s))"
  using bind_entries_succeeds [of cb ext gen "fst s"] bind_registered_succeeds [of cb ext gen "fst s"]
  by (simp add: bind_components_def component_bind_all_def split: option.splits)

lemma run_steps_succeed:
  assumes "\<And>f s. f \<in> set fs \<Longrightarrow> P s \<Longrightarrow> \<not> isl (fst (f s)) \<and> P (snd (f s))" "P s"
  shows "\<not> isl (fst (run_steps fs s))"
  using assms
proof (induction fs arbitrary: s)
  case (Cons f fs)
  obtain res s' where f: "f s = (res, s')" by fastforce
  then obtain u where "res = Inr u" "P s'" using Cons.prems(1) [of f s] Cons.prems(2) by (cases res) auto
  then show ?case using Cons f by simp
qed simp

lemma bind_step_succeeds:
  assumes ok: "outside_succeeds cb ext gen" and f: "f \<in> set (vc4_bind_steps cb ext gen dev ms)" and s: "keeps_from st s"
  shows "\<not> isl (fst (f s)) \<and> keeps_from st (snd (f s))"
proof
  have wf: "list_all comp_wf (fst s)" using s by (simp add: keeps_from_def)
  show "keeps_from st (snd (f s))" using keeps_from_bind_steps [OF f s] by (metis prod.collapse)
  show "\<not> isl (fst (f s))"
    using f ok bind_components_succeeds [OF ok wf, of dev ms] unfolding vc4_bind_steps_def
    by (auto simp: outside_succeeds_def unless_fkms_def step_when_def call_ext_def on_world_def add_unbind_action_def firmware_steps_def
        split: prod.splits sum.splits if_splits option.splits bool.splits) (metis fst_conv isl_def)+
qed

lemma vc4_drm_bind_succeeds:
  assumes "outside_succeeds cb ext gen" "list_all comp_wf (lkpi_components st)"
  shows "\<not> isl (fst (vc4_drm_bind cb ext gen dev st))"
proof -
  have "keeps_from st (lkpi_components st, (comp_run st)\<lparr>drv_world := w\<rparr>)" for w using assms(2) by (simp add: keeps_from_def)
  then have "\<not> isl (fst (run_steps (vc4_bind_steps cb ext gen dev ms) (lkpi_components st, (comp_run st)\<lparr>drv_world := w\<rparr>)))" for w ms
    using bind_step_succeeds [OF assms(1)] by (intro run_steps_succeed [where P = "keeps_from st"])
  moreover have "\<not> isl (fst (ext_dev_alloc ext w))" for w using assms(1) by (simp add: outside_succeeds_def)
  ultimately show ?thesis
    by (auto simp: vc4_drm_bind_def Let_def on_world_def call_ext_def split: prod.splits sum.splits) (metis fst_conv isl_def)+
qed

text \<open>
  The outcome of the attempt: bound in pipeline order; or, only when something outside failed (\<open>ok\<close> is false), not bound and the failure
  recorded.
\<close>
definition pipeline_outcome ::
    "bool \<Rightarrow> ptr \<Rightarrow> ptr \<Rightarrow> ptr list \<Rightarrow> lkpi_master list \<Rightarrow> lkpi_master \<Rightarrow> lkpi_component list \<Rightarrow>
     comp_event list \<Rightarrow> 'w comp_state \<Rightarrow> bool" where
  "pipeline_outcome ok dev drm ds ms m cs log st' \<longleftrightarrow>
     (lkpi_masters st' = ms @ [m\<lparr>m_bound := True\<rparr>] \<and>
      drv_log (comp_run st') =
        log @ map (\<lambda>d. Ev_bind d dev (Some drm) True) ds @ [Ev_master_bind dev True] \<and>
      unbound_devs (lkpi_components st') = unbound_devs cs - set ds) \<or>
     (\<not> ok \<and> lkpi_masters st' = ms @ [m] \<and>
      (\<exists>zs. drv_log (comp_run st') = log @ zs @ [Ev_master_bind dev False]))"

lemma try_bind_waiting:
  assumes wait: "vc4_waiting dev ds ms m" and pres: "pipeline_present ds (lkpi_components st)"
    and masters: "lkpi_masters st = ms @ [m]"
  shows "pipeline_outcome (outside_succeeds cb ext gen) dev (drm_ptr ext) ds ms m (lkpi_components st) (drv_log (comp_run st))
           (lkpi_try_bind_masters (vc4_callbacks cb ext gen) st)"
proof -
  let ?cb = "vc4_callbacks cb ext gen"
  from wait obtain f where f: "mops_bind (m_ops m) = Some f" by (auto simp: vc4_waiting_def)
  have sub: "set ds \<subseteq> unbound_devs (lkpi_components st)"
    using pres by (auto simp: pipeline_present_def list_all_iff)
  obtain res cs r where call: "call_master_bind ?cb f dev st = (res, cs, r)" by (metis prod_cases3)
  then obtain r0 where bind: "vc4_drm_bind cb ext gen dev st = (res, cs, r0)"
    and r: "drv_log r = drv_log r0 @ [Ev_master_bind dev (\<not> isl res)]"
    by (auto simp: call_master_bind_def vc4_callbacks_def split: prod.splits)
  have st: "st\<lparr>lkpi_masters := ms @ [m]\<rparr> = st" using masters by simp
  have "match_list_of ds = m_match m" "m_dev m = dev" "\<not> m_bound m" "list_all m_bound ms"
    using wait by (auto simp: vc4_waiting_def)
  moreover have "lkpi_match_complete ?cb (m_match m) (lkpi_components st)"
    using match_complete_devs [OF sub] calculation(1) by simp
  ultimately have loop: "lkpi_try_bind_masters ?cb st = (if isl res
       then st\<lparr>lkpi_components := cs, comp_run := r, lkpi_masters := ms @ [m]\<rparr>
       else st\<lparr>lkpi_components := cs, comp_run := r, lkpi_masters := ms @ [m\<lparr>m_bound := True\<rparr>]\<rparr>)"
    using f call by (cases res) (simp_all add: lkpi_try_bind_masters_def masters try_bind_loop_bound st)
  have ready: "ready_to_bind dev ds st"
    using wait pres lkpi_master_for_last [of dev ms m] masters
    by (auto simp: ready_to_bind_def vc4_waiting_def pipeline_present_def match_list_of_def)
  show ?thesis
  proof (cases res)
    case (Inl e)
    have "keeps_from st (cs, r0)"
      by (rule vc4_drm_bind_keeps [OF bind]) (use pres in \<open>simp add: pipeline_present_def\<close>)
    moreover have "\<not> outside_succeeds cb ext gen"
      using vc4_drm_bind_succeeds [of cb ext gen st dev] bind Inl pres by (auto simp: pipeline_present_def)
    ultimately show ?thesis
      using loop Inl r by (auto simp: pipeline_outcome_def keeps_from_def prefix_def)
  next
    case (Inr u)
    then show ?thesis
      using vc4_drm_bind_success [of cb ext gen dev st cs r0 ds] bind ready loop r
      by (simp add: pipeline_outcome_def)
  qed
qed

lemma probe_pipeline_order:
  assumes "devs_distinct pdevs" and "distinct (component_drivers ids)"
    and "ds = devices_of (vc4_hvs_driver ids) pdevs @ devices_of (vc4_hdmi_driver ids) pdevs @
              devices_of (vc4_crtc_driver ids) pdevs"
    and "ds \<noteq> []" and "list_all (\<lambda>d. alloc d = (True, True)) ds"
    and "list_all (\<lambda>m. m_bound m \<and> m_dev m \<noteq> dev) (lkpi_masters st)"
    and "mops_bind ops \<noteq> None" and "pipeline_present ds (lkpi_components st)"
  shows "\<exists>st'. vc4_platform_drm_probe (vc4_callbacks cb ext gen) alloc True ids ops dev pdevs st =
             Some (Inr (), st') \<and>
           pipeline_outcome (outside_succeeds cb ext gen) dev (drm_ptr ext) ds (lkpi_masters st)
             \<lparr>m_dev = dev, m_ops = ops, m_match = match_list_of ds, m_bound = False\<rparr>
             (lkpi_components st) (drv_log (comp_run st)) st'"
proof -
  have ds: "ds = pipeline (component_drivers ids) pdevs"
    using assms(3) by (simp add: pipeline_def component_drivers_def)
  have "vc4_match_add_drivers alloc (component_drivers ids) pdevs None = Some (match_list_of ds)"
    using assms(1,5) by (simp add: match_add_drivers_fold fold_match_add_dev_None ds list_all_iff)
  moreover have "distinct ds" using pipeline_distinct [OF assms(1,2)] ds by simp
  ultimately show ?thesis
    using try_bind_waiting [of dev ds "lkpi_masters st"
        "\<lparr>m_dev = dev, m_ops = ops, m_match = match_list_of ds, m_bound = False\<rparr>"
        "st\<lparr>lkpi_masters := lkpi_masters st @
           [\<lparr>m_dev = dev, m_ops = ops, m_match = match_list_of ds, m_bound = False\<rparr>]\<rparr>" cb ext gen]
      assms(4,6,7,8)
    by (simp add: vc4_platform_drm_probe_def component_master_add_with_match_def vc4_waiting_def
        list_all_iff)
qed

subsection \<open>Properties\<close>

text \<open>
  The probe of the display master returns, and when the devices of the pipeline are
  registered it binds them in the order HVS, HDMI encoders, CRTCs, whatever the order in which
  the blocks attached or their components registered: either the master is bound after exactly
  those bind calls in that order, or the failed attempt is recorded and the master stays on the
  list unbound. The probe itself reports success in both cases.
\<close>
theorem vc4_probe_binds_in_pipeline_order:
  assumes "devs_distinct pdevs" and "distinct (component_drivers ids)"
    and "ds = devices_of (vc4_hvs_driver ids) pdevs @ devices_of (vc4_hdmi_driver ids) pdevs @
              devices_of (vc4_crtc_driver ids) pdevs"
    and "ds \<noteq> []" and "list_all (\<lambda>d. alloc d = (True, True)) ds"
    and "list_all (\<lambda>m. m_bound m \<and> m_dev m \<noteq> dev) (lkpi_masters st)"
    and "mops_bind ops \<noteq> None" and "pipeline_present ds (lkpi_components st)"
  shows "\<exists>st'. vc4_platform_drm_probe (vc4_callbacks cb ext gen) alloc True ids ops dev pdevs st =
             Some (Inr (), st') \<and>
           pipeline_outcome (outside_succeeds cb ext gen) dev (drm_ptr ext) ds (lkpi_masters st)
             \<lparr>m_dev = dev, m_ops = ops, m_match = match_list_of ds, m_bound = False\<rparr>
             (lkpi_components st) (drv_log (comp_run st)) st'"
  using assms by (rule probe_pipeline_order)

lemma unbound_devs_append [simp]: "unbound_devs (cs @ cs') = unbound_devs cs \<union> unbound_devs cs'"
  by (auto simp: unbound_devs_def)

text \<open>
  The other arrival order: the master is waiting and the component that completes the
  pipeline registers last. \<open>component_add\<close> then binds the whole pipeline in the master's order
  (or records the failed attempt), not in the order of arrival.
\<close>
theorem vc4_last_component_binds_pipeline:
  assumes "vc4_waiting dev ds ms m" and "lkpi_masters st = ms @ [m]"
    and "ops_bind ops \<noteq> None" and "d \<notin> c_dev ` set (lkpi_components st)"
    and "pipeline_present (remove1 d ds) (lkpi_components st)"
  shows "\<exists>st' cs. component_add (vc4_callbacks cb ext gen) True (Some d) (Some ops) st = (Inr (), st') \<and>
           unbound_devs cs = insert d (unbound_devs (lkpi_components st)) \<and>
           pipeline_outcome (outside_succeeds cb ext gen) dev (drm_ptr ext) ds ms m cs (drv_log (comp_run st)) st'"
proof -
  let ?cs = "lkpi_components st @ [\<lparr>c_dev = d, c_ops = ops, c_bound = False,
                        c_master = None, c_master_data = None\<rparr>]"
  have "pipeline_present ds ?cs"
    using assms(3-5) by (auto simp: pipeline_present_def list_all_iff comp_wf_def)
  then show ?thesis
    using try_bind_waiting [OF assms(1), of "st\<lparr>lkpi_components := ?cs\<rparr>" cb ext gen] assms(2,3)
    by (intro exI [of _ "lkpi_try_bind_masters (vc4_callbacks cb ext gen) (st\<lparr>lkpi_components := ?cs\<rparr>)"]
        exI [of _ ?cs]) (auto simp: component_add_def)
qed

text \<open>
  No master is left waiting without cause: after \<open>component_add\<close> under the vc4 callbacks every
  master on the list is bound, has no bind callback, has an incomplete match list, or had its
  bind callback called by this very registration and failing.
\<close>
theorem vc4_component_add_settles:
  assumes "list_all comp_wf (lkpi_components st)"
    and "component_add (vc4_callbacks cb ext gen) malloc_ok dev ops st = (Inr (), st')"
    and "m \<in> set (lkpi_masters st')"
  shows "bind_attempted (vc4_callbacks cb ext gen) (length (drv_log (comp_run st))) st' m \<and>
         list_all comp_wf (lkpi_components st')"
proof -
  from assms(2) obtain d ops' where a: "dev = Some d" "ops = Some ops'" "ops_bind ops' \<noteq> None"
    and st': "st' = lkpi_try_bind_masters (vc4_callbacks cb ext gen) (st\<lparr>lkpi_components :=
        lkpi_components st @ [\<lparr>c_dev = d, c_ops = ops', c_bound = False,
                        c_master = None, c_master_data = None\<rparr>]\<rparr>)"
    by (auto simp: component_add_def split: option.splits if_splits)
  show ?thesis
    using vc4.try_bind_masters_pass [of "st\<lparr>lkpi_components :=
        lkpi_components st @ [\<lparr>c_dev = d, c_ops = ops', c_bound = False,
                        c_master = None, c_master_data = None\<rparr>]\<rparr>" cb ext gen] assms(1,3) a(3) st'
    by (simp add: comp_wf_def)
qed

subsection \<open>Concrete instances\<close>

text \<open>A vc4 whose external calls all succeed, on a machine with one HVS, one HDMI and one CRTC.\<close>
definition demo_ext :: "unit vc4_ext" where
  "demo_ext = \<lparr>ext_set_dma_mask = (\<lambda>n w. w), ext_dev_alloc = (\<lambda>w. (Inr (), w)),
     ext_set_drvdata = (\<lambda>p w. w), ext_mutex_init = (\<lambda>w. (Inr (), w)),
     ext_bo_cache_init = (\<lambda>w. (Inr (), w)), ext_mode_config_init = (\<lambda>w. (Inr (), w)),
     ext_gem_init = (\<lambda>w. (Inr (), w)), ext_firmware_get = (\<lambda>w. Some True),
     ext_remove_framebuffers = (\<lambda>w. (Inr (), w)), ext_firmware_kms_node = (\<lambda>w. False),
     ext_notify_display_done = (\<lambda>w. w), ext_add_action = (\<lambda>w. (Inr (), w)),
     ext_firmware_kms_flag = (\<lambda>w. False), ext_create_planes = (\<lambda>w. (Inr (), w)),
     ext_kms_load = (\<lambda>w. (Inr (), w)), ext_disable_at_boot = (\<lambda>w. w),
     ext_dev_register = (\<lambda>w. (Inr (), w)), ext_fbdev_setup = (\<lambda>w. w),
     ext_shutdown = (\<lambda>w. w), drm_ptr = 7\<rparr>"

definition demo_pdev :: "ptr \<Rightarrow> ptr \<Rightarrow> lkpi_pdev_ent" where
  "demo_pdev d drv = \<lparr>pe_pdev = \<lparr>pdev_addr = 100 + d,
     pdev_dev = \<lparr>dev_addr = d, bsddev = Some (200 + d), dev_irq = 0\<rparr>\<rparr>, pe_drv = Some drv\<rparr>"

definition demo_ids :: vc4_driver_ids where
  "demo_ids = \<lparr>vc4_hvs_driver = 51, vc4_hdmi_driver = 52, vc4_crtc_driver = 53\<rparr>"

definition demo_registry :: pdev_registry where
  "demo_registry = [demo_pdev 13 53, demo_pdev 11 51, demo_pdev 12 52]"

definition demo_fresh :: "unit comp_state" where
  "demo_fresh = (demo_state [demo_component 5 13, demo_component 5 12, demo_component 5 11])\<lparr>lkpi_masters := []\<rparr>"

text \<open>Callbacks that all succeed.\<close>
definition good_cb :: "unit comp_callbacks" where
  "good_cb = demo_cb\<lparr>cb_bind := (\<lambda>f d m data w. (Inr (), w))\<rparr>"

lemma good_outside: "outside_succeeds good_cb demo_ext gen"
  by (simp add: outside_succeeds_def good_cb_def demo_ext_def)

lemmas vc4_demo_defs = demo_defs demo_ext_def demo_pdev_def demo_ids_def demo_registry_def demo_fresh_def

theorem vc4_probe_binds_in_pipeline_order_witness:
  "\<exists>st'. vc4_platform_drm_probe (vc4_callbacks good_cb demo_ext VC4_GEN_4) (\<lambda>d. (True, True)) True
            demo_ids \<lparr>mops_addr = 2, mops_bind = Some 3, mops_unbind = Some 4\<rparr> 1 demo_registry
            demo_fresh = Some (Inr (), st') \<and>
          pipeline_outcome True 1 7 [11, 12, 13] []
            \<lparr>m_dev = 1, m_ops = \<lparr>mops_addr = 2, mops_bind = Some 3, mops_unbind = Some 4\<rparr>,
             m_match = match_list_of [11, 12, 13], m_bound = False\<rparr>
            (lkpi_components demo_fresh) [] st'"
  using good_outside [of VC4_GEN_4] vc4_probe_binds_in_pipeline_order
    [of demo_registry demo_ids "[11, 12, 13]" "\<lambda>d. (True, True)" 1 demo_fresh
        "\<lparr>mops_addr = 2, mops_bind = Some 3, mops_unbind = Some 4\<rparr>" good_cb demo_ext VC4_GEN_4]
  by (simp add: vc4_demo_defs devs_distinct_def component_drivers_def devices_of_def
      pipeline_present_def comp_wf_def)

definition demo_waiting :: "unit comp_state" where
  "demo_waiting = demo_state [demo_component 5 13, demo_component 5 12]"

theorem vc4_last_component_binds_pipeline_witness:
  "\<exists>st' cs. component_add (vc4_callbacks good_cb demo_ext VC4_GEN_5) True (Some 11)
       (Some \<lparr>ops_addr = 5, ops_bind = Some 5, ops_unbind = Some 5\<rparr>) demo_waiting = (Inr (), st') \<and>
     unbound_devs cs = insert 11 (unbound_devs (lkpi_components demo_waiting)) \<and>
     pipeline_outcome True 1 7 [11, 12, 13] [] (demo_master [11, 12, 13]) cs [] st'"
  using good_outside [of VC4_GEN_5] vc4_last_component_binds_pipeline
    [of 1 "[11, 12, 13]" "[]" "demo_master [11, 12, 13]" demo_waiting
        "\<lparr>ops_addr = 5, ops_bind = Some 5, ops_unbind = Some 5\<rparr>" 11 good_cb demo_ext VC4_GEN_5]
  by (simp add: vc4_demo_defs demo_waiting_def vc4_waiting_def match_list_of_def
      pipeline_present_def comp_wf_def)

theorem vc4_component_add_settles_witness:
  "list_all (bind_attempted (vc4_callbacks demo_cb demo_ext VC4_GEN_5) 0
       (snd (component_add (vc4_callbacks demo_cb demo_ext VC4_GEN_5) True (Some 11)
         (Some \<lparr>ops_addr = 5, ops_bind = Some 5, ops_unbind = None\<rparr>) demo_waiting)))
     (lkpi_masters (snd (component_add (vc4_callbacks demo_cb demo_ext VC4_GEN_5) True (Some 11)
         (Some \<lparr>ops_addr = 5, ops_bind = Some 5, ops_unbind = None\<rparr>) demo_waiting)))"
  (is "list_all _ (lkpi_masters (snd ?r))")
proof -
  have "list_all comp_wf (lkpi_components demo_waiting)"
    by (simp add: demo_waiting_def demo_defs comp_wf_def)
  moreover have "?r = (Inr (), snd ?r)" by (simp add: component_add_def)
  ultimately show ?thesis
    using vc4_component_add_settles [of demo_waiting demo_cb demo_ext VC4_GEN_5]
    by (auto simp: demo_waiting_def demo_state_def list_all_iff)
qed

end
