(* ===== verification/Lkpi_Of.thy ===== *)
theory Lkpi_Of
  imports Lkpi_Platform
begin

text \<open>
  Device-tree lookups for LinuxKPI drivers (\<^verbatim>\<open>graphics/lkpi/lkpi_of.c\<close>) with the tag macros of
  \<^verbatim>\<open>graphics/lkpi/linux/platform_device.h\<close>. FreeBSD's OFW interface is the argument \<open>ofw\<close>;
  what the walk relies on is that the links describe a tree (\<open>tree_links\<close>). Shown here: the
  walk is the preorder traversal and ends, the search loop visits every compatible node once
  and leaks no node, string-list properties resolve a name to its index, and interrupt numbers
  round-trip through their tag.
\<close>

subsection \<open>The device tree and device nodes\<close>

type_synonym phandle = nat

text \<open>The OFW interface; a phandle of 0 is no node.\<close>
record ofw =
  OF_child :: "phandle \<Rightarrow> phandle"
  OF_peer :: "phandle \<Rightarrow> phandle"
  OF_parent :: "phandle \<Rightarrow> phandle"
  node_is_compatible :: "phandle \<Rightarrow> string \<Rightarrow> bool"
  node_status_okay :: "phandle \<Rightarrow> bool"
  OF_getencprop :: "phandle \<Rightarrow> string \<Rightarrow> phandle list option"
  OF_node_from_xref :: "phandle \<Rightarrow> phandle"
  OF_getprop :: "phandle \<Rightarrow> string \<Rightarrow> string option"
  OF_getproplen :: "phandle \<Rightarrow> string \<Rightarrow> int"

text \<open>
  \<open>struct device_node\<close> with its address; the set of addresses allocated and not yet freed is
  the state \<open>live\<close> of the operations that allocate. \<open>malloc\<close> is the allocator: the address
  it returns in a given state, None when it fails.
\<close>
record device_node =
  dn_addr :: ptr
  dn_node :: phandle

record of_device_id =
  compatible :: string
  id_data :: "ptr option"

record lkpi_of_ent =
  oe_dev :: ptr
  oe_node :: "device_node option"
  oe_match :: "of_device_id list option"

type_synonym of_registry = "lkpi_of_ent list"
type_synonym allocator = "ptr set \<Rightarrow> ptr option"

subsection \<open>The registry of device nodes\<close>

definition lkpi_set_of_node ::
    "ptr option \<Rightarrow> device_node option \<Rightarrow> of_device_id list option \<Rightarrow> of_registry \<Rightarrow> of_registry" where
  "lkpi_set_of_node dev node mt reg =
     (case dev of None \<Rightarrow> reg
      | Some d \<Rightarrow> reg @ [\<lparr>oe_dev = d, oe_node = node, oe_match = mt\<rparr>])"

definition lkpi_clear_of_node :: "ptr option \<Rightarrow> of_registry \<Rightarrow> of_registry" where
  "lkpi_clear_of_node dev reg = remove_first (\<lambda>e. Some (oe_dev e) = dev) reg"

definition dev_of_node :: "of_registry \<Rightarrow> ptr option \<Rightarrow> device_node option" where
  "dev_of_node reg dev =
     (case dev of None \<Rightarrow> None
      | Some d \<Rightarrow> Option.bind (List.find (\<lambda>e. oe_dev e = d) reg) oe_node)"

definition lkpi_of_match_table :: "of_registry \<Rightarrow> ptr option \<Rightarrow> of_device_id list option" where
  "lkpi_of_match_table reg dev =
     (case dev of None \<Rightarrow> None
      | Some d \<Rightarrow> Option.bind (List.find (\<lambda>e. oe_dev e = d) reg) oe_match)"

interpretation of_nodes: tailq_registry
  "\<lambda>e. Some (oe_dev e)"
  "\<lambda>s. s"
  "\<lambda>e. lkpi_set_of_node (Some (oe_dev e)) (oe_node e) (oe_match e)"
  "lkpi_clear_of_node"
  "\<lambda>s k. List.find (\<lambda>e. Some (oe_dev e) = k) s"
  by unfold_locales (simp_all add: lkpi_set_of_node_def lkpi_clear_of_node_def)

subsection \<open>Matching\<close>

text \<open>A match table ends at the first entry with an empty compatible string.\<close>
fun match_loop :: "ofw \<Rightarrow> phandle \<Rightarrow> of_device_id list \<Rightarrow> of_device_id option" where
  "match_loop ofw n [] = None"
| "match_loop ofw n (m # ms) =
     (if compatible m = [] then None
      else if node_is_compatible ofw n (compatible m) then Some m
      else match_loop ofw n ms)"

definition of_match_device ::
    "ofw \<Rightarrow> of_registry \<Rightarrow> of_device_id list option \<Rightarrow> ptr option \<Rightarrow> of_device_id option" where
  "of_match_device ofw reg matches dev =
     (case (matches, dev) of
        (Some ms, Some d) \<Rightarrow>
          (case dev_of_node reg (Some d) of None \<Rightarrow> None
           | Some dn \<Rightarrow> match_loop ofw (dn_node dn) ms)
      | _ \<Rightarrow> None)"

definition of_device_get_match_data :: "ofw \<Rightarrow> of_registry \<Rightarrow> ptr option \<Rightarrow> ptr option" where
  "of_device_get_match_data ofw reg dev =
     (case dev of None \<Rightarrow> None
      | Some d \<Rightarrow> Option.bind (of_match_device ofw reg (lkpi_of_match_table reg (Some d)) (Some d)) id_data)"

definition of_device_is_available :: "ofw \<Rightarrow> device_node option \<Rightarrow> bool" where
  "of_device_is_available ofw np =
     (case np of None \<Rightarrow> False | Some dn \<Rightarrow> node_status_okay ofw (dn_node dn))"

definition of_device_is_compatible :: "ofw \<Rightarrow> device_node option \<Rightarrow> string option \<Rightarrow> bool" where
  "of_device_is_compatible ofw np str =
     (case (np, str) of
        (Some dn, Some c) \<Rightarrow> node_is_compatible ofw (dn_node dn) c
      | _ \<Rightarrow> False)"

definition of_dma_configure :: "unit result" where
  "of_dma_configure = Inr ()"

definition of_find_i2c_adapter_by_node :: "device_node option \<Rightarrow> ptr option" where
  "of_find_i2c_adapter_by_node np = None"

subsection \<open>Nodes that a caller owns\<close>

definition of_node_get :: "device_node option \<Rightarrow> device_node option" where
  "of_node_get np = np"

definition of_node_put :: "device_node option \<Rightarrow> ptr set \<Rightarrow> ptr set" where
  "of_node_put np live = (case np of None \<Rightarrow> live | Some dn \<Rightarrow> live - {dn_addr dn})"

text \<open>\<open>malloc\<close> of a device node that names \<open>n\<close>, as the three lookups do it.\<close>
definition new_node ::
    "allocator \<Rightarrow> phandle \<Rightarrow> ptr set \<Rightarrow> device_node option \<times> ptr set" where
  "new_node malloc n live =
     (case malloc live of None \<Rightarrow> (None, live)
      | Some a \<Rightarrow> (Some \<lparr>dn_addr = a, dn_node = n\<rparr>, insert a live))"

definition of_parse_phandle ::
    "ofw \<Rightarrow> allocator \<Rightarrow> device_node option \<Rightarrow> string option \<Rightarrow> int \<Rightarrow> ptr set \<Rightarrow>
     device_node option \<times> ptr set" where
  "of_parse_phandle ofw malloc np name index live =
     (case (np, name) of
        (Some dn, Some nm) \<Rightarrow>
          if index < 0 then (None, live)
          else (case OF_getencprop ofw (dn_node dn) nm of
                  None \<Rightarrow> (None, live)
                | Some handles \<Rightarrow>
                   if index \<ge> int (length handles) then (None, live)
                   else (let target = OF_node_from_xref ofw (handles ! nat index)
                         in if target = 0 then (None, live) else new_node malloc target live))
      | _ \<Rightarrow> (None, live))"

subsection \<open>Walking the tree\<close>

text \<open>The loop of \<open>of_next_node\<close> that climbs to the next sibling; None if it never ends.\<close>
partial_function (option) of_climb :: "ofw \<Rightarrow> phandle \<Rightarrow> phandle option" where
  "of_climb ofw node =
     (if node = 0 then Some 0
      else if OF_peer ofw node \<noteq> 0 then Some (OF_peer ofw node)
      else of_climb ofw (OF_parent ofw node))"

definition of_next_node :: "ofw \<Rightarrow> phandle \<Rightarrow> phandle option" where
  "of_next_node ofw node =
     (if node = 0 then Some (OF_peer ofw 0)
      else if OF_child ofw node \<noteq> 0 then Some (OF_child ofw node)
      else of_climb ofw node)"

text \<open>The search loop of both find functions: the next node that \<open>P\<close> accepts, 0 at the end.\<close>
partial_function (option) find_node_loop ::
    "ofw \<Rightarrow> (phandle \<Rightarrow> bool) \<Rightarrow> phandle \<Rightarrow> phandle option" where
  "find_node_loop ofw P node =
     Option.bind (of_next_node ofw node)
       (\<lambda>n. if n = 0 then Some 0 else if P n then Some n else find_node_loop ofw P n)"

text \<open>
  The result is None when the walk does not end. With a NULL compatible string (\<open>str\<close>) the function returns
  before it drops the reference to \<open>from\<close>.
\<close>
definition of_find_compatible_node ::
    "ofw \<Rightarrow> allocator \<Rightarrow> device_node option \<Rightarrow> string option \<Rightarrow> ptr set \<Rightarrow>
     (device_node option \<times> ptr set) option" where
  "of_find_compatible_node ofw malloc from str live =
     (case str of None \<Rightarrow> Some (None, live)
      | Some c \<Rightarrow>
         (let node = (case from of None \<Rightarrow> 0 | Some dn \<Rightarrow> dn_node dn);
              live' = of_node_put from live
          in map_option (\<lambda>n. if n = 0 then (None, live') else new_node malloc n live')
               (find_node_loop ofw (\<lambda>n. node_is_compatible ofw n c) node)))"

definition of_find_matching_node_and_match ::
    "ofw \<Rightarrow> allocator \<Rightarrow> device_node option \<Rightarrow> of_device_id list option \<Rightarrow> ptr set \<Rightarrow>
     (device_node option \<times> of_device_id option \<times> ptr set) option" where
  "of_find_matching_node_and_match ofw malloc from matches live =
     (case matches of None \<Rightarrow> Some (None, None, live)
      | Some ms \<Rightarrow>
         (let node = (case from of None \<Rightarrow> 0 | Some dn \<Rightarrow> dn_node dn);
              live' = of_node_put from live
          in map_option (\<lambda>n. if n = 0 then (None, None, live')
                else (case new_node malloc n live' of
                        (None, l) \<Rightarrow> (None, None, l)
                      | (Some dn, l) \<Rightarrow> (Some dn, match_loop ofw n ms, l)))
               (find_node_loop ofw (\<lambda>n. match_loop ofw n ms \<noteq> None) node)))"

subsection \<open>Properties of a node\<close>

text \<open>
  \<open>of_find_property\<close> returns the address of a static variable as a sentinel: here the length
  that is also stored through \<open>lenp\<close>, cut to 32 bits.
\<close>
definition of_find_property :: "ofw \<Rightarrow> device_node option \<Rightarrow> string option \<Rightarrow> int option" where
  "of_find_property ofw np name =
     (case (np, name) of
        (Some dn, Some nm) \<Rightarrow>
          if dn_node dn = 0 then None
          else (let len = OF_getproplen ofw (dn_node dn) nm
                in if len < 0 then None else Some (signed_take_bit 31 len))
      | _ \<Rightarrow> None)"

definition of_property_read_bool :: "ofw \<Rightarrow> device_node option \<Rightarrow> string option \<Rightarrow> bool" where
  "of_property_read_bool ofw np name \<longleftrightarrow> of_find_property ofw np name \<noteq> None"

text \<open>
  The C string at an offset of a buffer. \<open>mem\<close> is the property followed by whatever memory
  lies behind it: a property without its final NUL is read past its end.
\<close>
definition cstr_at :: "string \<Rightarrow> nat \<Rightarrow> string" where
  "cstr_at mem off = takeWhile (\<lambda>c. c \<noteq> CHR 0x00) (drop off mem)"

function match_string_loop :: "string \<Rightarrow> nat \<Rightarrow> string \<Rightarrow> nat \<Rightarrow> nat \<Rightarrow> nat option" where
  "match_string_loop mem len s i off =
     (if off < len then
        (if cstr_at mem off = s then Some i
         else match_string_loop mem len s (Suc i) (off + length (cstr_at mem off) + 1))
      else None)"
  by pat_completeness auto
termination by (relation "measure (\<lambda>(mem, len, s, i, off). len - off)") auto

declare match_string_loop.simps [simp del]

definition of_property_match_string ::
    "ofw \<Rightarrow> string \<Rightarrow> device_node option \<Rightarrow> string option \<Rightarrow> string option \<Rightarrow> nat result" where
  "of_property_match_string ofw beyond np propname s =
     (case (np, propname, s) of
        (Some dn, Some pn, Some str) \<Rightarrow>
          if dn_node dn = 0 then Inl EINVAL
          else (case OF_getprop ofw (dn_node dn) pn of
                  None \<Rightarrow> Inl ENODATA
                | Some vals \<Rightarrow>
                   (case match_string_loop (vals @ beyond) (length vals) str 0 0 of
                      None \<Rightarrow> Inl ENODATA | Some i \<Rightarrow> Inr i))
      | _ \<Rightarrow> Inl EINVAL)"

subsection \<open>Interrupts and registers\<close>

text \<open>The tag macros of \<^verbatim>\<open>linux/platform_device.h\<close>.\<close>
definition LKPI_IRQ_OF_TAG :: u32 where
  "LKPI_IRQ_OF_TAG = 0x40000000"

definition LKPI_IRQ_OF :: "u32 \<Rightarrow> u32" where
  "LKPI_IRQ_OF rid = LKPI_IRQ_OF_TAG OR rid"

definition LKPI_IRQ_IS_OF :: "u32 \<Rightarrow> bool" where
  "LKPI_IRQ_IS_OF irq \<longleftrightarrow> irq AND LKPI_IRQ_OF_TAG \<noteq> 0"

definition LKPI_IRQ_OF_RID :: "u32 \<Rightarrow> u32" where
  "LKPI_IRQ_OF_RID irq = irq AND 0xffff"

text \<open>
  The resource list that newbus keeps for a device: None when there is none, and for each
  entry whether it is an interrupt.
\<close>
type_synonym resource_lists = "ptr \<Rightarrow> bool list option"

definition lkpi_of_irq_count :: "resource_lists \<Rightarrow> device \<Rightarrow> nat" where
  "lkpi_of_irq_count rls dev =
     (case bsddev dev of None \<Rightarrow> 0
      | Some b \<Rightarrow> (case rls b of None \<Rightarrow> 0 | Some rl \<Rightarrow> length (filter (\<lambda>is_irq. is_irq) rl)))"

text \<open>
  \<open>irq_invalid\<close> is LINUX_IRQ_INVALID of the kernel. The result is the unsigned number behind
  the returned int; the comparison casts \<open>num\<close> to int.
\<close>
definition lkpi_platform_get_irq ::
    "resource_lists \<Rightarrow> u32 \<Rightarrow> platform_device option \<Rightarrow> u32 \<Rightarrow> u32 result" where
  "lkpi_platform_get_irq rls irq_invalid pdev num =
     (case pdev of None \<Rightarrow> Inl ENXIO
      | Some p \<Rightarrow>
         (let count = lkpi_of_irq_count rls (pdev_dev p)
          in if num = 0 \<and> count \<le> 1 then
               (if dev_irq (pdev_dev p) = irq_invalid then Inl ENXIO else Inr (dev_irq (pdev_dev p)))
             else if sint num \<ge> int count then Inl ENXIO
             else Inr (LKPI_IRQ_OF num)))"

definition lkpi_platform_get_irq_byname ::
    "ofw \<Rightarrow> of_registry \<Rightarrow> string \<Rightarrow> resource_lists \<Rightarrow> platform_device option \<Rightarrow> string option \<Rightarrow>
     u32 result" where
  "lkpi_platform_get_irq_byname ofw reg beyond rls pdev name =
     (case (pdev, name) of
        (Some p, Some nm) \<Rightarrow>
          (case dev_of_node reg (Some (dev_addr (pdev_dev p))) of None \<Rightarrow> Inl ENXIO
           | Some dn \<Rightarrow>
              if dn_node dn = 0 then Inl ENXIO
              else (case OF_getprop ofw (dn_node dn) ''interrupt-names'' of
                      None \<Rightarrow> Inl ENXIO
                    | Some names \<Rightarrow>
                       (case match_string_loop (names @ beyond) (length names) nm 0 0 of
                          None \<Rightarrow> Inl ENXIO
                        | Some i \<Rightarrow>
                           if i \<ge> lkpi_of_irq_count rls (pdev_dev p) then Inl ENXIO
                           else Inr (LKPI_IRQ_OF (of_nat i)))))
      | _ \<Rightarrow> Inl ENXIO)"

text \<open>
  \<open>bus_alloc\<close> is \<open>bus_alloc_resource_any\<close> for memory followed by \<open>rman_get_virtual\<close>: the mapped
  address of the device's register bank, None when it cannot be allocated.
\<close>
definition lkpi_platform_ioremap_resource ::
    "(ptr \<Rightarrow> int \<Rightarrow> ptr option) \<Rightarrow> platform_device option \<Rightarrow> u32 \<Rightarrow> ptr result" where
  "lkpi_platform_ioremap_resource bus_alloc pdev index =
     (case pdev of None \<Rightarrow> Inl ENODEV
      | Some p \<Rightarrow>
         (case bsddev (pdev_dev p) of None \<Rightarrow> Inl ENODEV
          | Some b \<Rightarrow> (case bus_alloc b (sint index) of None \<Rightarrow> Inl ENOMEM | Some v \<Rightarrow> Inr v)))"

subsection \<open>The walk is a preorder traversal\<close>

datatype of_tree = Of_node phandle "of_tree list"

fun head_of :: "of_tree list \<Rightarrow> phandle" where
  "head_of [] = 0"
| "head_of (Of_node n cs # ts) = n"

fun preorder :: "of_tree list \<Rightarrow> phandle list" where
  "preorder [] = []"
| "preorder (Of_node n cs # ts) = n # preorder cs @ preorder ts"

text \<open>
  What the walk relies on in the OFW interface: the child, peer and parent links of the nodes
  are those of the forest \<open>ts\<close> under the parent \<open>up\<close>, and no node is 0.
\<close>
fun tree_links :: "ofw \<Rightarrow> phandle \<Rightarrow> of_tree list \<Rightarrow> bool" where
  "tree_links ofw up [] \<longleftrightarrow> True"
| "tree_links ofw up (Of_node n cs # ts) \<longleftrightarrow>
     n \<noteq> 0 \<and> OF_parent ofw n = up \<and> OF_child ofw n = head_of cs \<and> OF_peer ofw n = head_of ts \<and>
     tree_links ofw n cs \<and> tree_links ofw up ts"

definition device_tree :: "ofw \<Rightarrow> of_tree \<Rightarrow> bool" where
  "device_tree ofw t \<longleftrightarrow> OF_peer ofw 0 = head_of [t] \<and> tree_links ofw 0 [t] \<and> distinct (preorder [t])"

text \<open>Each element is followed by the next, and the last by \<open>fin\<close>.\<close>
fun follows :: "('a \<Rightarrow> 'a option) \<Rightarrow> 'a list \<Rightarrow> 'a option \<Rightarrow> bool" where
  "follows nxt [] fin \<longleftrightarrow> True"
| "follows nxt [x] fin \<longleftrightarrow> nxt x = fin"
| "follows nxt (x # y # zs) fin \<longleftrightarrow> nxt x = Some y \<and> follows nxt (y # zs) fin"

lemma follows_append:
  "follows nxt (xs @ ys) fin \<longleftrightarrow>
     (if ys = [] then follows nxt xs fin else follows nxt xs (Some (hd ys)) \<and> follows nxt ys fin)"
  by (induction nxt xs fin rule: follows.induct) (cases ys; auto)+

lemma follows_Cons: "follows nxt (x # xs) fin \<longleftrightarrow>
    nxt x = (case xs of [] \<Rightarrow> fin | y # _ \<Rightarrow> Some y) \<and> follows nxt xs fin"
  by (cases xs) auto

lemma preorder_head: "ts \<noteq> [] \<Longrightarrow> preorder ts \<noteq> [] \<and> hd (preorder ts) = head_of ts"
  by (cases ts rule: preorder.cases) auto

lemma preorder_Nil [simp]: "preorder ts = [] \<longleftrightarrow> ts = []"
  using preorder_head by fastforce

lemma head_of_0 [simp]: "tree_links ofw up ts \<Longrightarrow> head_of ts = 0 \<longleftrightarrow> ts = []"
  by (cases ts rule: head_of.cases) auto

lemma preorder_nonzero: "tree_links ofw up ts \<Longrightarrow> 0 \<notin> set (preorder ts)"
  by (induction ofw up ts rule: tree_links.induct) auto

lemma tree_links_follows:
  "tree_links ofw up ts \<Longrightarrow> follows (of_next_node ofw) (preorder ts) (of_climb ofw up)"
proof (induction ofw up ts rule: tree_links.induct)
  case (2 ofw up n cs ts)
  have climb: "of_climb ofw n = (if ts = [] then of_climb ofw up else Some (head_of ts))"
    using 2(3) by (subst of_climb.simps) auto
  have nxt: "of_next_node ofw n = (if cs = [] then of_climb ofw n else Some (head_of cs))"
    using 2(3) by (auto simp: of_next_node_def)
  have cs: "follows (of_next_node ofw) (preorder cs) (of_climb ofw n)"
    and ts: "follows (of_next_node ofw) (preorder ts) (of_climb ofw up)"
    using 2 by auto
  have "follows (of_next_node ofw) (n # preorder cs) (of_climb ofw n)"
    using cs nxt preorder_head [of cs] by (auto simp: follows_Cons split: list.split)
  then show ?case
    using climb ts preorder_head [of ts] follows_append [of _ "n # preorder cs" "preorder ts"]
    by auto
qed simp

lemma device_tree_follows:
  assumes "device_tree ofw t"
  shows "follows (of_next_node ofw) (0 # preorder [t]) (Some 0)"
proof -
  have "of_climb ofw 0 = Some 0" by (subst of_climb.simps) simp
  then have "follows (of_next_node ofw) (preorder [t]) (Some 0)"
    using tree_links_follows [of ofw 0 "[t]"] assms by (simp add: device_tree_def)
  moreover have "of_next_node ofw 0 = Some (hd (preorder [t]))"
    using assms preorder_head [of "[t]"] by (simp add: of_next_node_def device_tree_def)
  moreover obtain y ys where "preorder [t] = y # ys" using preorder_head [of "[t]"] by (cases "preorder [t]") auto
  ultimately show ?thesis by simp
qed

lemma find_node_loop_follows:
  assumes "follows (of_next_node ofw) (x # xs) (Some 0)" and "0 \<notin> set xs"
  shows "find_node_loop ofw P x = Some (case List.find P xs of None \<Rightarrow> 0 | Some n \<Rightarrow> n)"
  using assms
proof (induction xs arbitrary: x)
  case Nil
  then show ?case by (subst find_node_loop.simps) simp
next
  case (Cons y ys)
  then have "of_next_node ofw x = Some y" "find_node_loop ofw P y = Some (case List.find P ys of None \<Rightarrow> 0 | Some n \<Rightarrow> n)"
    by auto
  then show ?case using Cons.prems(2) by (subst find_node_loop.simps) auto
qed

text \<open>The nodes still to come after \<open>node\<close> (0 is the start).\<close>
definition nodes_after :: "of_tree \<Rightarrow> phandle \<Rightarrow> phandle list" where
  "nodes_after t node =
     (if node = 0 then preorder [t] else tl (dropWhile (\<lambda>n. n \<noteq> node) (preorder [t])))"

lemma follows_drop: "follows nxt xs fin \<Longrightarrow> follows nxt (drop k xs) fin"
proof (induction nxt xs fin arbitrary: k rule: follows.induct)
  case (2 nxt x fin)
  then show ?case by (cases k) auto
next
  case (3 nxt x y zs fin)
  then show ?case by (cases k) auto
qed simp

lemma find_node_loop_tree:
  assumes "device_tree ofw t" and "node = 0 \<or> node \<in> set (preorder [t])"
  shows "find_node_loop ofw P node =
           Some (case List.find P (nodes_after t node) of None \<Rightarrow> 0 | Some n \<Rightarrow> n)"
proof (cases "node = 0")
  case True
  then show ?thesis
    using find_node_loop_follows [OF device_tree_follows [OF assms(1)]] preorder_nonzero [of ofw 0 "[t]"] assms(1)
    by (simp add: nodes_after_def device_tree_def)
next
  case False
  with assms(2) obtain xs ys where split: "preorder [t] = xs @ node # ys" "node \<notin> set xs"
    by (meson split_list_first)
  have "follows (of_next_node ofw) (drop (Suc (length xs)) (0 # preorder [t])) (Some 0)"
    by (rule follows_drop) (rule device_tree_follows [OF assms(1)])
  then have "follows (of_next_node ofw) (node # ys) (Some 0)" using split by simp
  moreover have "0 \<notin> set ys"
    using preorder_nonzero [of ofw 0 "[t]"] assms(1) split(1) by (auto simp: device_tree_def)
  moreover have "nodes_after t node = ys"
    using split False by (simp add: nodes_after_def dropWhile_append)
  ultimately show ?thesis using find_node_loop_follows by metis
qed

subsection \<open>Visiting every compatible node\<close>

text \<open>
  The caller's idiom \<^verbatim>\<open>while ((np = of_find_compatible_node(np, NULL, c)) != NULL)\<close>: the nodes
  visited, and the nodes allocated afterwards.
\<close>
partial_function (option) each_compatible_node ::
    "ofw \<Rightarrow> allocator \<Rightarrow> string \<Rightarrow> device_node option \<Rightarrow> ptr set \<Rightarrow> phandle list \<Rightarrow>
     (phandle list \<times> ptr set) option" where
  "each_compatible_node ofw malloc c from live seen =
     Option.bind (of_find_compatible_node ofw malloc from (Some c) live)
       (\<lambda>(np, live'). case np of None \<Rightarrow> Some (seen, live')
          | Some dn \<Rightarrow> each_compatible_node ofw malloc c (Some dn) live' (seen @ [dn_node dn]))"

text \<open>The allocator returns an address not in use.\<close>
definition allocator_ok :: "allocator \<Rightarrow> bool" where
  "allocator_ok malloc \<longleftrightarrow> (\<forall>live. finite live \<longrightarrow> (\<exists>a. malloc live = Some a \<and> a \<notin> live))"

lemma new_node_ok:
  assumes "allocator_ok malloc" and "finite live"
  obtains a where "new_node malloc n live = (Some \<lparr>dn_addr = a, dn_node = n\<rparr>, insert a live)" "a \<notin> live"
proof -
  from assms obtain a where "malloc live = Some a" "a \<notin> live" by (auto simp: allocator_ok_def)
  then show thesis using that [of a] by (simp add: new_node_def)
qed

lemma find_split:
  "List.find P xs = Some y \<Longrightarrow> \<exists>us vs. xs = us @ y # vs \<and> filter P us = [] \<and> P y"
proof (induction xs)
  case (Cons x xs)
  show ?case
  proof (cases "P x")
    case True
    then show ?thesis using Cons.prems by (intro exI [of _ "[]"] exI [of _ xs]) auto
  next
    case False
    then obtain us vs where "xs = us @ y # vs \<and> filter P us = [] \<and> P y" using Cons by auto
    then show ?thesis using False by (intro exI [of _ "x # us"] exI [of _ vs]) auto
  qed
qed simp

lemma nodes_after_split:
  assumes "preorder [t] = xs @ n # ys" and "distinct (preorder [t])" and "n \<noteq> 0"
  shows "nodes_after t n = ys"
  using assms by (auto simp: nodes_after_def dropWhile_append)

lemma each_compatible_node_from:
  assumes tree: "device_tree ofw t" and ok: "allocator_ok malloc" and "finite live"
    and "preorder [t] = xs @ ys" and "from = None \<and> xs = [] \<or>
      (\<exists>dn. from = Some dn \<and> xs \<noteq> [] \<and> dn_node dn = last xs)"
  shows "each_compatible_node ofw malloc c from live seen =
     Some (seen @ filter (\<lambda>n. node_is_compatible ofw n c) ys, of_node_put from live)"
  using assms(3-5)
proof (induction "length ys" arbitrary: xs ys "from" live seen rule: less_induct)
  case less
  let ?P = "\<lambda>n. node_is_compatible ofw n c"
  let ?node = "case from of None \<Rightarrow> 0 | Some dn \<Rightarrow> dn_node dn"
  let ?live = "of_node_put from live"
  have dist: "distinct (preorder [t])" and nz: "0 \<notin> set (preorder [t])"
    using tree preorder_nonzero [of ofw 0 "[t]"] by (auto simp: device_tree_def)
  have node: "?node = 0 \<or> ?node \<in> set (preorder [t])" and after: "nodes_after t ?node = ys"
  proof -
    have "(from = None \<and> xs = []) \<or> (\<exists>us dn. from = Some dn \<and> xs = us @ [dn_node dn])"
      using less.prems(3) by (metis append_butlast_last_id)
    then have "(?node = 0 \<and> xs = []) \<or> (\<exists>us. preorder [t] = us @ ?node # ys \<and> ?node \<noteq> 0)"
      using less.prems(2) nz by auto
    then show "?node = 0 \<or> ?node \<in> set (preorder [t])" "nodes_after t ?node = ys"
      using nodes_after_split [OF _ dist] less.prems(2) by (auto simp: nodes_after_def)
  qed
  have fin: "finite ?live" using less.prems(1) by (simp add: of_node_put_def split: option.split)
  have step: "of_find_compatible_node ofw malloc from (Some c) live =
     (case List.find ?P ys of None \<Rightarrow> Some (None, ?live)
      | Some n \<Rightarrow> Some (if n = 0 then (None, ?live) else new_node malloc n ?live))"
    using find_node_loop_tree [OF tree node, of ?P] after
    by (simp add: of_find_compatible_node_def Let_def split: option.split)
  show ?case
  proof (cases "List.find ?P ys")
    case None
    then have "filter ?P ys = []" by (simp add: find_None_iff_all filter_empty_conv)
    then show ?thesis using step None by (subst each_compatible_node.simps) simp
  next
    case (Some n)
    then obtain us vs where ys: "ys = us @ n # vs" "filter ?P us = []" "?P n"
      using find_split by metis
    have "n \<noteq> 0" using nz less.prems(2) ys by auto
    obtain a where a: "new_node malloc n ?live = (Some \<lparr>dn_addr = a, dn_node = n\<rparr>, insert a ?live)"
        "a \<notin> ?live"
      using new_node_ok [OF ok fin] by metis
    have "each_compatible_node ofw malloc c (Some \<lparr>dn_addr = a, dn_node = n\<rparr>) (insert a ?live) (seen @ [n]) =
       Some ((seen @ [n]) @ filter ?P vs, of_node_put (Some \<lparr>dn_addr = a, dn_node = n\<rparr>) (insert a ?live))"
      by (rule less.hyps [where xs = "xs @ us @ [n]"]) (use ys less.prems(2) fin in auto)
    then show ?thesis
      using step Some \<open>n \<noteq> 0\<close> a ys
      by (subst each_compatible_node.simps) (simp add: of_node_put_def)
  qed
qed

text \<open>
  C7. Walking the tree with \<open>of_find_compatible_node\<close> returns, visits every node that claims
  the compatible string exactly once and in depth-first order, and leaks no node: every node
  allocated on the way has been freed.
\<close>
theorem each_compatible_node_visits_all:
  assumes "device_tree ofw t" and "allocator_ok malloc" and "finite live"
  shows "each_compatible_node ofw malloc c None live [] =
           Some (filter (\<lambda>n. node_is_compatible ofw n c) (preorder [t]), live)"
  using each_compatible_node_from [OF assms, of "[]" "preorder [t]" None c "[]"]
  by (simp add: of_node_put_def)

subsection \<open>String-list properties\<close>

text \<open>A string-list property: each string with its NUL.\<close>
definition string_list :: "string list \<Rightarrow> string" where
  "string_list ss = concat (map (\<lambda>s. s @ [CHR 0x00]) ss)"

fun first_index :: "'a \<Rightarrow> 'a list \<Rightarrow> nat option" where
  "first_index x [] = None"
| "first_index x (y # ys) = (if x = y then Some 0 else map_option Suc (first_index x ys))"

lemma first_index_Some:
  "first_index x xs = Some i \<longleftrightarrow> i < length xs \<and> xs ! i = x \<and> (\<forall>j < i. xs ! j \<noteq> x)"
proof (induction xs arbitrary: i)
  case (Cons y ys)
  show ?case
  proof (cases i)
    case (Suc k)
    then show ?thesis using Cons.IH [of k] by (auto simp: less_Suc_eq_0_disj)
  qed auto
qed simp

lemma first_index_None: "first_index x xs = None \<longleftrightarrow> x \<notin> set xs"
  by (induction xs) auto

definition nul_free :: "string \<Rightarrow> bool" where
  "nul_free s \<longleftrightarrow> CHR 0x00 \<notin> set s"

lemma cstr_at_string:
  "nul_free s \<Longrightarrow> cstr_at (pre @ s @ CHR 0x00 # rest) (length pre) = s"
proof -
  assume "nul_free s"
  then have "takeWhile (\<lambda>c. c \<noteq> CHR 0x00) (s @ CHR 0x00 # rest) =
      s @ takeWhile (\<lambda>c. c \<noteq> CHR 0x00) (CHR 0x00 # rest)"
    by (intro takeWhile_append2) (auto simp: nul_free_def)
  then show ?thesis by (simp add: cstr_at_def)
qed

lemma match_string_loop_list:
  assumes "list_all nul_free ss"
  shows "match_string_loop (pre @ string_list ss @ beyond) (length pre + length (string_list ss))
           s i (length pre) = map_option ((+) i) (first_index s ss)"
  using assms
proof (induction ss arbitrary: pre i)
  case Nil
  then show ?case by (subst match_string_loop.simps) (simp add: string_list_def)
next
  case (Cons x xs)
  let ?mem = "pre @ string_list (x # xs) @ beyond"
  have at: "cstr_at ?mem (length pre) = x"
    using cstr_at_string [of x pre "string_list xs @ beyond"] Cons.prems by (simp add: string_list_def)
  have rec: "match_string_loop ?mem (length pre + length (string_list (x # xs))) s (Suc i)
       (length pre + length x + 1) = map_option ((+) (Suc i)) (first_index s xs)"
    using Cons.IH [of "pre @ x @ [CHR 0x00]" "Suc i"] Cons.prems by (cases "first_index s xs") (simp_all add: string_list_def algebra_simps)
  have less: "length pre < length pre + length (string_list (x # xs))"
    by (simp add: string_list_def)
  show ?case
  proof (cases "x = s")
    case True
    then show ?thesis using at less by (subst match_string_loop.simps) simp
  next
    case False
    have "match_string_loop ?mem (length pre + length (string_list (x # xs))) s i (length pre) =
        match_string_loop ?mem (length pre + length (string_list (x # xs))) s (Suc i) (length pre + length x + 1)"
      using at less False by (subst match_string_loop.simps) simp
    then show ?thesis using rec False by (cases "first_index s xs") simp_all
  qed
qed

text \<open>
  \<open>of_property_match_string\<close> inverts the encoding of a string list: for a property that holds
  the strings \<open>ss\<close>, it answers the index of the first string equal to the one asked for,
  whatever lies behind the property in memory, and -ENODATA when there is none.
\<close>
theorem of_property_match_string_index:
  assumes "OF_getprop ofw n pn = Some (string_list ss)" and "list_all nul_free ss" and "n \<noteq> 0"
  shows "of_property_match_string ofw beyond (Some \<lparr>dn_addr = a, dn_node = n\<rparr>) (Some pn) (Some s) =
           (case first_index s ss of None \<Rightarrow> Inl ENODATA | Some i \<Rightarrow> Inr i)"
  using match_string_loop_list [OF assms(2), of "[]" beyond s 0] assms(1,3)
  by (simp add: of_property_match_string_def option.map_ident split: option.split)

subsection \<open>Interrupt numbers\<close>

lemma irq_tag:
  assumes "rid < 0x10000"
  shows "LKPI_IRQ_IS_OF (LKPI_IRQ_OF rid)" and "LKPI_IRQ_OF_RID (LKPI_IRQ_OF rid) = rid"
proof -
  have "(LKPI_IRQ_OF_TAG OR rid) AND LKPI_IRQ_OF_TAG = LKPI_IRQ_OF_TAG OR (rid AND LKPI_IRQ_OF_TAG)"
    by (simp add: bit.conj_disj_distrib2)
  then show "LKPI_IRQ_IS_OF (LKPI_IRQ_OF rid)"
    by (simp add: LKPI_IRQ_IS_OF_def LKPI_IRQ_OF_def LKPI_IRQ_OF_TAG_def or_eq_0_iff)
  have "rid AND mask 16 = rid"
    by (rule word_and_mask_self) (use assms in \<open>simp add: word_less_nat_alt\<close>)
  then have "rid AND 0xffff = rid" by (simp add: mask_eq_exp_minus_1)
  then show "LKPI_IRQ_OF_RID (LKPI_IRQ_OF rid) = rid"
    by (simp add: LKPI_IRQ_OF_RID_def LKPI_IRQ_OF_def LKPI_IRQ_OF_TAG_def bit.conj_disj_distrib2)
qed

text \<open>
  \<open>platform_get_irq_byname\<close> answers the tagged resource id of the named interrupt: with
  interrupt-names holding \<open>names\<close> and at least as many interrupts in the resource list, the
  number returned carries the tag and decodes to the index of the name, so that
  \<open>request_irq\<close> allocates that interrupt and no other. An unknown name is -ENXIO.
\<close>
theorem lkpi_platform_get_irq_byname_rid:
  assumes "dev_of_node reg (Some (dev_addr (pdev_dev p))) = Some dn" and "dn_node dn \<noteq> 0"
    and "OF_getprop ofw (dn_node dn) ''interrupt-names'' = Some (string_list names)"
    and "list_all nul_free names" and "length names \<le> lkpi_of_irq_count rls (pdev_dev p)"
    and "length names \<le> 65536"
  shows "case lkpi_platform_get_irq_byname ofw reg beyond rls (Some p) (Some nm) of
           Inl e \<Rightarrow> e = ENXIO \<and> nm \<notin> set names
         | Inr irq \<Rightarrow> LKPI_IRQ_IS_OF irq \<and>
             first_index nm names = Some (unat (LKPI_IRQ_OF_RID irq))"
proof (cases "first_index nm names")
  case None
  moreover from None have "nm \<notin> set names" by (simp add: first_index_None)
  ultimately show ?thesis
    using match_string_loop_list [OF assms(4), of "[]" beyond nm 0] assms(1-3)
    by (simp add: lkpi_platform_get_irq_byname_def)
next
  case (Some i)
  then have i: "i < length names" by (simp add: first_index_Some)
  then have "unat (of_nat i :: u32) = i" using assms(6) by (simp add: unat_of_nat take_bit_nat_eq_self)
  moreover from this have "(of_nat i :: u32) < 0x10000"
    using i assms(6) by (simp add: word_less_nat_alt)
  ultimately show ?thesis
    using match_string_loop_list [OF assms(4), of "[]" beyond nm 0] assms(1-3,5) i Some irq_tag
    by (simp add: lkpi_platform_get_irq_byname_def)
qed

text \<open>
  \<open>platform_get_irq\<close> by index: on a device with several interrupts an index is answered
  exactly when the resource list has it, with a tagged number that decodes to the index; a
  device with at most one interrupt keeps the untagged number read at attach for index 0.
  Only indices below 65536 are covered, the range of the tag's resource id.
\<close>
theorem lkpi_platform_get_irq_index:
  assumes "num < 0x10000"
  shows "lkpi_platform_get_irq rls irq_invalid (Some p) num =
     (let count = lkpi_of_irq_count rls (pdev_dev p); irq = dev_irq (pdev_dev p)
      in if num = 0 \<and> count \<le> 1 then (if irq = irq_invalid then Inl ENXIO else Inr irq)
         else if unat num < count then Inr (LKPI_IRQ_OF num) else Inl ENXIO) \<and>
     LKPI_IRQ_IS_OF (LKPI_IRQ_OF num) \<and> LKPI_IRQ_OF_RID (LKPI_IRQ_OF num) = num"
proof -
  have "sint num = uint num"
    by (rule sint_eq_uint) (use assms in \<open>simp add: word_less_nat_alt\<close>)
  then have "(sint num \<ge> int n) = (\<not> unat num < n)" for n
    by (metis not_less of_nat_less_iff uint_nat)
  then show ?thesis using irq_tag [OF assms]
    by (simp add: lkpi_platform_get_irq_def Let_def)
qed

subsection \<open>Match data\<close>

lemma match_loop_find:
  "match_loop ofw n ms =
     List.find (\<lambda>m. node_is_compatible ofw n (compatible m)) (takeWhile (\<lambda>m. compatible m \<noteq> []) ms)"
  by (induction ms) auto

text \<open>
  The match data a driver reads is that of the first table entry its node claims: once the
  shim has registered a new device with its node and table, \<open>of_device_get_match_data\<close> answers
  the data of the first compatible entry before the table's end, and clearing the node
  restores the registry exactly.
\<close>
theorem of_device_get_match_data_registered:
  assumes "List.find (\<lambda>e. Some (oe_dev e) = Some d) reg = None"
  shows "of_device_get_match_data ofw (lkpi_set_of_node (Some d) (Some dn) (Some ms) reg) (Some d) =
           Option.bind (List.find (\<lambda>m. node_is_compatible ofw (dn_node dn) (compatible m))
             (takeWhile (\<lambda>m. compatible m \<noteq> []) ms)) id_data \<and>
         lkpi_clear_of_node (Some d) (lkpi_set_of_node (Some d) (Some dn) (Some ms) reg) = reg"
  using of_nodes.look_reg_fresh [of "\<lparr>oe_dev = d, oe_node = Some dn, oe_match = Some ms\<rparr>" reg]
    of_nodes.unreg_reg [of "\<lparr>oe_dev = d, oe_node = Some dn, oe_match = Some ms\<rparr>" reg] assms
  by (simp add: of_device_get_match_data_def of_match_device_def lkpi_of_match_table_def
      dev_of_node_def match_loop_find)

subsection \<open>Concrete instances\<close>

text \<open>A tree of four nodes, 1 with children 2 (with child 3) and 4; nodes 2 and 4 are HDMI blocks.\<close>
definition demo_ofw :: ofw where
  "demo_ofw = \<lparr>OF_child = (\<lambda>n. if n = 1 then 2 else if n = 2 then 3 else 0),
     OF_peer = (\<lambda>n. if n = 0 then 1 else if n = 2 then 4 else 0),
     OF_parent = (\<lambda>n. if n = 2 \<or> n = 4 then 1 else if n = 3 then 2 else 0),
     node_is_compatible = (\<lambda>n c. (n = 2 \<or> n = 4) \<and> c = ''hdmi''),
     node_status_okay = (\<lambda>n. True), OF_getencprop = (\<lambda>n s. None), OF_node_from_xref = (\<lambda>n. n),
     OF_getprop = (\<lambda>n s. if n = 2 then Some (string_list [''ch0-eof'', ''ch1-eof'', ''ch2-eof'']) else None),
     OF_getproplen = (\<lambda>n s. -1)\<rparr>"

definition demo_tree :: of_tree where
  "demo_tree = Of_node 1 [Of_node 2 [Of_node 3 []], Of_node 4 []]"

definition demo_malloc :: allocator where
  "demo_malloc live = Some (Suc (Max (insert 0 live)))"

definition demo_of_registry :: of_registry where
  "demo_of_registry = [\<lparr>oe_dev = 11, oe_node = Some \<lparr>dn_addr = 70, dn_node = 2\<rparr>, oe_match = None\<rparr>]"

definition demo_hvs :: platform_device where
  "demo_hvs = \<lparr>pdev_addr = 111, pdev_dev = \<lparr>dev_addr = 11, bsddev = Some 211, dev_irq = 0\<rparr>\<rparr>"

lemma demo_allocator_ok: "allocator_ok demo_malloc"
proof -
  have "Suc (Max (insert 0 live)) \<notin> live" if "finite live" for live :: "ptr set"
    using that Max_ge [of "insert 0 live"] by (metis Suc_n_not_le_n finite_insert insertCI)
  then show ?thesis by (simp add: allocator_ok_def demo_malloc_def)
qed

theorem each_compatible_node_visits_all_witness:
  "each_compatible_node demo_ofw demo_malloc ''hdmi'' None {} [] = Some ([2, 4], {})"
  using each_compatible_node_visits_all [of demo_ofw demo_tree demo_malloc "{}" "''hdmi''"] demo_allocator_ok
  by (simp add: demo_ofw_def demo_tree_def device_tree_def)

lemma demo_names_nul_free: "list_all nul_free [''ch0-eof'', ''ch1-eof'', ''ch2-eof'']"
  by (simp add: nul_free_def)

theorem of_property_match_string_index_witness:
  "of_property_match_string demo_ofw ''junk'' (Some \<lparr>dn_addr = 70, dn_node = 2\<rparr>)
     (Some ''interrupt-names'') (Some ''ch1-eof'') = Inr 1"
  using of_property_match_string_index [of demo_ofw 2 "''interrupt-names''" _ "''junk''" 70 "''ch1-eof''",
      OF _ demo_names_nul_free]
  by (simp add: demo_ofw_def)

theorem lkpi_platform_get_irq_byname_rid_witness:
  "case lkpi_platform_get_irq_byname demo_ofw demo_of_registry [] (\<lambda>b. Some [True, False, True, True])
       (Some demo_hvs) (Some ''ch2-eof'') of
     Inl e \<Rightarrow> e = ENXIO \<and> ''ch2-eof'' \<notin> set [''ch0-eof'', ''ch1-eof'', ''ch2-eof'']
   | Inr irq \<Rightarrow> LKPI_IRQ_IS_OF irq \<and>
       first_index ''ch2-eof'' [''ch0-eof'', ''ch1-eof'', ''ch2-eof''] = Some (unat (LKPI_IRQ_OF_RID irq))"
  by (rule lkpi_platform_get_irq_byname_rid
        [where dn = "\<lparr>dn_addr = 70, dn_node = 2\<rparr>", OF _ _ _ demo_names_nul_free])
     (simp_all add: demo_ofw_def demo_of_registry_def demo_hvs_def dev_of_node_def lkpi_of_irq_count_def)

theorem lkpi_platform_get_irq_index_witness:
  "lkpi_platform_get_irq (\<lambda>b. Some [True, False, True, True]) 65535 (Some demo_hvs) 2 = Inr (LKPI_IRQ_OF 2)"
  using lkpi_platform_get_irq_index [of 2 "\<lambda>b. Some [True, False, True, True]" 65535 demo_hvs]
  by (simp add: demo_hvs_def lkpi_of_irq_count_def)

theorem of_device_get_match_data_registered_witness:
  "of_device_get_match_data demo_ofw (lkpi_set_of_node (Some 12) (Some \<lparr>dn_addr = 71, dn_node = 4\<rparr>)
     (Some [\<lparr>compatible = ''hvs'', id_data = Some 1\<rparr>, \<lparr>compatible = ''hdmi'', id_data = Some 2\<rparr>])
     demo_of_registry) (Some 12) = Some 2"
  using of_device_get_match_data_registered
    [of 12 demo_of_registry demo_ofw "\<lparr>dn_addr = 71, dn_node = 4\<rparr>"
      "[\<lparr>compatible = ''hvs'', id_data = Some 1\<rparr>, \<lparr>compatible = ''hdmi'', id_data = Some 2\<rparr>]"]
  by (simp add: demo_of_registry_def demo_ofw_def)

end
