(* ===== verification/Vc4_Newbus.thy ===== *)
theory Vc4_Newbus
  imports Vc4_Drv Lkpi_Of
begin

text \<open>
  The newbus glue of the vc4 pipeline (\<^verbatim>\<open>graphics/vc4_kms/vc4_newbus.c\<close>) and the shims on top
  of it (\<^verbatim>\<open>vc4_hvs_newbus.c\<close>, \<^verbatim>\<open>vc4_crtc_newbus.c\<close>, \<^verbatim>\<open>vc4_hdmi_newbus.c\<close>,
  \<^verbatim>\<open>vc4_master_newbus.c\<close>). Shown here: when a block is probed, that detach undoes attach, what
  a failed attach leaves behind, and that the pipeline comes up in its order whatever the
  order in which newbus attaches the blocks.
\<close>

subsection \<open>State\<close>

text \<open>
  A platform driver: the address of its embedded \<open>struct lkpi_driver\<close>, its match table and
  callbacks (None for NULL). A callback sees the registries and works on the state \<open>'s\<close> of the
  drivers; a probe that does not return is None.
\<close>
record 's platform_driver =
  drv_addr :: ptr
  of_match_table :: "of_device_id list option"
  drv_probe :: "(pdev_registry \<Rightarrow> platform_device \<Rightarrow> 's \<Rightarrow> (unit result \<times> 's) option) option"
  drv_remove_new :: "(platform_device \<Rightarrow> 's \<Rightarrow> 's) option"
  drv_remove :: "(platform_device \<Rightarrow> 's \<Rightarrow> 's) option"

record vc4_newbus_softc =
  sc_bsddev :: ptr
  sc_pdev :: platform_device
  sc_node :: device_node

record 's newbus_state =
  nb_of_nodes :: of_registry
  nb_pdevs :: pdev_registry
  nb_drivers :: 's

text \<open>
  Newbus and OFW: the status and compatible strings of a device, its node, the outcome of
  \<open>linux_dma_priv_init\<close> (an errno), and the number of the device's first interrupt, read by
  allocating and releasing it.
\<close>
record newbus_ext =
  bus_status_okay :: "ptr \<Rightarrow> bool"
  bus_is_compatible :: "ptr \<Rightarrow> string \<Rightarrow> bool"
  bus_get_node :: "ptr \<Rightarrow> phandle"
  dma_priv_init :: "ptr \<Rightarrow> unit result"
  first_irq :: "ptr \<Rightarrow> u32 option"

subsection \<open>Operations\<close>

fun probe_loop :: "newbus_ext \<Rightarrow> ptr \<Rightarrow> of_device_id list \<Rightarrow> bool" where
  "probe_loop ext dev [] = False"
| "probe_loop ext dev (m # ms) =
     (if compatible m = [] then False
      else if \<not> bus_is_compatible ext dev (compatible m) then probe_loop ext dev ms
      else True)"

text \<open>\<open>Inr ()\<close> is BUS_PROBE_DEFAULT; the description set on the device is not modelled.\<close>
definition vc4_newbus_probe :: "newbus_ext \<Rightarrow> ptr \<Rightarrow> 's platform_driver option \<Rightarrow> unit result" where
  "vc4_newbus_probe ext dev drv =
     (if \<not> bus_status_okay ext dev then Inl ENXIO
      else case drv of None \<Rightarrow> Inl ENXIO
      | Some d \<Rightarrow> (case of_match_table d of None \<Rightarrow> Inl ENXIO
                   | Some ms \<Rightarrow> if probe_loop ext dev ms then Inr () else Inl ENXIO))"

text \<open>
  The first part of attach: the softc is filled and the device registered. The registry entry
  stands for the address of the embedded platform device, from which only addresses are read
  back. Names, list heads and locks of the device are not modelled.
\<close>
definition attach_register ::
    "newbus_ext \<Rightarrow> ptr \<Rightarrow> 's platform_driver \<Rightarrow> vc4_newbus_softc \<Rightarrow> 's newbus_state \<Rightarrow>
     vc4_newbus_softc \<times> 's newbus_state" where
  "attach_register ext dev drv sc st =
     (let node = (sc_node sc)\<lparr>dn_node := bus_get_node ext dev\<rparr>;
          d = (pdev_dev (sc_pdev sc))\<lparr>bsddev := Some dev\<rparr>;
          pdev = (sc_pdev sc)\<lparr>pdev_dev := d\<rparr>
      in (sc\<lparr>sc_bsddev := dev, sc_node := node, sc_pdev := pdev\<rparr>,
          st\<lparr>nb_of_nodes := lkpi_set_of_node (Some (dev_addr d)) (Some node) (of_match_table drv)
                             (nb_of_nodes st),
             nb_pdevs := lkpi_platform_device_register (Some pdev) (Some (drv_addr drv)) (nb_pdevs st)\<rparr>))"

definition attach_irq :: "newbus_ext \<Rightarrow> u32 \<Rightarrow> ptr \<Rightarrow> vc4_newbus_softc \<Rightarrow> vc4_newbus_softc" where
  "attach_irq ext irq_invalid dev sc =
     sc\<lparr>sc_pdev := (sc_pdev sc)\<lparr>pdev_dev := (pdev_dev (sc_pdev sc))
          \<lparr>dev_irq := (case first_irq ext dev of Some n \<Rightarrow> n | None \<Rightarrow> irq_invalid)\<rparr>\<rparr>\<rparr>"

definition vc4_newbus_attach ::
    "newbus_ext \<Rightarrow> u32 \<Rightarrow> ptr \<Rightarrow> 's platform_driver \<Rightarrow> vc4_newbus_softc \<Rightarrow> 's newbus_state \<Rightarrow>
     (unit result \<times> vc4_newbus_softc \<times> 's newbus_state) option" where
  "vc4_newbus_attach ext irq_invalid dev drv sc st =
     (let (sc1, st1) = attach_register ext dev drv sc st
      in case dma_priv_init ext (dev_addr (pdev_dev (sc_pdev sc1))) of
           Inl e \<Rightarrow> Some (Inl e, sc1, st1)
         | Inr _ \<Rightarrow>
            (let sc2 = attach_irq ext irq_invalid dev sc1
             in case drv_probe drv of
                  None \<Rightarrow> Some (Inl ENXIO, sc2, st1)
                | Some probe \<Rightarrow>
                   (case probe (nb_pdevs st1) (sc_pdev sc2) (nb_drivers st1) of
                      None \<Rightarrow> None
                    | Some (Inl _, s) \<Rightarrow> Some (Inl ENXIO, sc2, st1\<lparr>nb_drivers := s\<rparr>)
                    | Some (Inr _, s) \<Rightarrow> Some (Inr (), sc2, st1\<lparr>nb_drivers := s\<rparr>))))"

definition vc4_newbus_detach ::
    "'s platform_driver \<Rightarrow> vc4_newbus_softc \<Rightarrow> 's newbus_state \<Rightarrow> 's newbus_state" where
  "vc4_newbus_detach drv sc st =
     (let s = (case drv_remove_new drv of
                 Some f \<Rightarrow> f (sc_pdev sc) (nb_drivers st)
               | None \<Rightarrow> (case drv_remove drv of
                           Some f \<Rightarrow> f (sc_pdev sc) (nb_drivers st)
                         | None \<Rightarrow> nb_drivers st))
      in \<lparr>nb_of_nodes = lkpi_clear_of_node (Some (dev_addr (pdev_dev (sc_pdev sc)))) (nb_of_nodes st),
          nb_pdevs = lkpi_platform_device_unregister (Some (pdev_addr (sc_pdev sc))) (nb_pdevs st),
          nb_drivers = s\<rparr>)"

subsection \<open>The drivers of the pipeline\<close>

text \<open>\<open>vc4_hvs_dev_probe\<close>, \<open>vc4_crtc_dev_probe\<close> and \<open>vc4_hdmi_dev_probe\<close> differ in their \<open>ops\<close> only.\<close>
definition component_dev_probe ::
    "'w comp_callbacks \<Rightarrow> bool \<Rightarrow> component_ops \<Rightarrow> pdev_registry \<Rightarrow> platform_device \<Rightarrow> 'w comp_state \<Rightarrow>
     (unit result \<times> 'w comp_state) option" where
  "component_dev_probe cb malloc_ok ops pdevs pdev st =
     Some (component_add cb malloc_ok (Some (dev_addr (pdev_dev pdev))) (Some ops) st)"

definition component_dev_remove ::
    "'w comp_callbacks \<Rightarrow> component_ops \<Rightarrow> platform_device \<Rightarrow> 'w comp_state \<Rightarrow> 'w comp_state" where
  "component_dev_remove cb ops pdev st = component_del cb (dev_addr (pdev_dev pdev)) ops st"

definition component_driver ::
    "'w comp_callbacks \<Rightarrow> ptr \<Rightarrow> of_device_id list \<Rightarrow> component_ops \<Rightarrow> 'w comp_state platform_driver" where
  "component_driver cb addr table ops =
     \<lparr>drv_addr = addr, of_match_table = Some table, drv_probe = Some (component_dev_probe cb True ops),
      drv_remove_new = Some (component_dev_remove cb ops), drv_remove = None\<rparr>"

text \<open>\<open>vc4_platform_driver\<close>, whose probe is the one of \<open>Vc4_Drv\<close>.\<close>
definition vc4_platform_driver ::
    "'w comp_callbacks \<Rightarrow> (ptr \<Rightarrow> bool \<times> bool) \<Rightarrow> vc4_driver_ids \<Rightarrow> component_master_ops \<Rightarrow> ptr \<Rightarrow>
     of_device_id list \<Rightarrow> 'w comp_state platform_driver" where
  "vc4_platform_driver cb alloc ids ops addr table =
     \<lparr>drv_addr = addr, of_match_table = Some table,
      drv_probe = Some (\<lambda>pdevs pdev st.
        vc4_platform_drm_probe cb alloc True ids ops (dev_addr (pdev_dev pdev)) pdevs st),
      drv_remove_new = Some (\<lambda>pdev st. vc4_platform_drm_remove cb ops (dev_addr (pdev_dev pdev)) st),
      drv_remove = None\<rparr>"

text \<open>
  A block of the pipeline as newbus attaches it: its newbus device, its softc and its driver's
  address, match table and component operations.
\<close>
record vc4_block =
  blk_bsddev :: ptr
  blk_sc :: vc4_newbus_softc
  blk_driver :: ptr
  blk_table :: "of_device_id list"
  blk_ops :: component_ops

abbreviation blk_dev :: "vc4_block \<Rightarrow> ptr" where
  "blk_dev b \<equiv> dev_addr (pdev_dev (sc_pdev (blk_sc b)))"

text \<open>Attaching blocks one after the other; None when one of them fails.\<close>
fun attach_blocks ::
    "newbus_ext \<Rightarrow> u32 \<Rightarrow> 'w comp_callbacks \<Rightarrow> vc4_block list \<Rightarrow> 'w comp_state newbus_state \<Rightarrow>
     'w comp_state newbus_state option" where
  "attach_blocks ext irq_invalid cb [] st = Some st"
| "attach_blocks ext irq_invalid cb (b # bs) st =
     (case vc4_newbus_attach ext irq_invalid (blk_bsddev b)
             (component_driver cb (blk_driver b) (blk_table b) (blk_ops b)) (blk_sc b) st of
        Some (Inr _, sc, st') \<Rightarrow> attach_blocks ext irq_invalid cb bs st'
      | _ \<Rightarrow> None)"

subsection \<open>Probe\<close>

lemma probe_loop_ex:
  "probe_loop ext dev ms \<longleftrightarrow>
     list_ex (\<lambda>m. bus_is_compatible ext dev (compatible m)) (takeWhile (\<lambda>m. compatible m \<noteq> []) ms)"
  by (induction ms) auto

text \<open>
  A shim claims a device exactly when the device is enabled and its node claims one of the
  compatible strings of the vendored driver's own match table.
\<close>
theorem vc4_newbus_probe_iff:
  "vc4_newbus_probe ext dev drv = Inr () \<longleftrightarrow>
     bus_status_okay ext dev \<and>
     (\<exists>d ms. drv = Some d \<and> of_match_table d = Some ms \<and>
        list_ex (\<lambda>m. bus_is_compatible ext dev (compatible m)) (takeWhile (\<lambda>m. compatible m \<noteq> []) ms))"
  by (auto simp: vc4_newbus_probe_def probe_loop_ex split: option.split)

subsection \<open>Attach and detach\<close>

definition registered_from ::
    "vc4_newbus_softc \<Rightarrow> 's platform_driver \<Rightarrow> 's newbus_state \<Rightarrow> vc4_newbus_softc \<Rightarrow> 's newbus_state \<Rightarrow> bool" where
  "registered_from sc drv st sc' st' \<longleftrightarrow>
     (\<exists>node pdev. nb_of_nodes st' = nb_of_nodes st @
             [\<lparr>oe_dev = dev_addr (pdev_dev (sc_pdev sc)), oe_node = Some node, oe_match = of_match_table drv\<rparr>] \<and>
           nb_pdevs st' = nb_pdevs st @ [\<lparr>pe_pdev = pdev, pe_drv = Some (drv_addr drv)\<rparr>] \<and>
           pdev_addr pdev = pdev_addr (sc_pdev sc) \<and>
           dev_addr (pdev_dev pdev) = dev_addr (pdev_dev (sc_pdev sc))) \<and>
     pdev_addr (sc_pdev sc') = pdev_addr (sc_pdev sc) \<and>
     dev_addr (pdev_dev (sc_pdev sc')) = dev_addr (pdev_dev (sc_pdev sc))"

lemma attach_register_registers:
  "attach_register ext dev drv sc st = (sc1, st1) \<Longrightarrow>
   registered_from sc drv st sc1 st1 \<and> nb_drivers st1 = nb_drivers st"
  by (auto simp: attach_register_def registered_from_def lkpi_set_of_node_def
      lkpi_platform_device_register_def Let_def)

lemma attach_irq_keeps:
  "pdev_addr (sc_pdev (attach_irq ext irq_invalid dev sc)) = pdev_addr (sc_pdev sc)"
  "dev_addr (pdev_dev (sc_pdev (attach_irq ext irq_invalid dev sc))) = dev_addr (pdev_dev (sc_pdev sc))"
  by (simp_all add: attach_irq_def)

lemma registered_from_cong:
  "registered_from sc drv st sc1 st1 \<Longrightarrow>
   registered_from sc drv st (attach_irq ext irq_invalid dev sc1) (st1\<lparr>nb_drivers := s\<rparr>) \<and>
   registered_from sc drv st (attach_irq ext irq_invalid dev sc1) st1"
  by (simp add: registered_from_def attach_irq_keeps)

text \<open>What attach does to the registries, on every path on which it returns.\<close>
lemma attach_registers:
  assumes "vc4_newbus_attach ext irq_invalid dev drv sc st = Some (res, sc', st')"
  shows "registered_from sc drv st sc' st'"
proof -
  obtain sc1 st1 where r: "attach_register ext dev drv sc st = (sc1, st1)" by fastforce
  from attach_register_registers [OF r] have reg: "registered_from sc drv st sc1 st1" ..
  show ?thesis
    using assms registered_from_cong [OF reg] reg
    by (auto simp: vc4_newbus_attach_def r Let_def split: sum.splits option.splits)
qed

text \<open>
  Detach undoes attach: detaching a device that was just attached, and was in neither
  registry before, restores both registries exactly.
\<close>
theorem vc4_newbus_detach_undoes_attach:
  assumes "vc4_newbus_attach ext irq_invalid dev drv sc st = Some (res, sc', st')"
    and "List.find (\<lambda>e. Some (oe_dev e) = Some (dev_addr (pdev_dev (sc_pdev sc)))) (nb_of_nodes st) = None"
    and "List.find (\<lambda>e. Some (pdev_addr (pe_pdev e)) = Some (pdev_addr (sc_pdev sc))) (nb_pdevs st) = None"
  shows "nb_of_nodes (vc4_newbus_detach drv sc' st') = nb_of_nodes st \<and>
         nb_pdevs (vc4_newbus_detach drv sc' st') = nb_pdevs st"
proof -
  from attach_registers [OF assms(1)] obtain node pdev where
    r: "nb_of_nodes st' = nb_of_nodes st @
         [\<lparr>oe_dev = dev_addr (pdev_dev (sc_pdev sc)), oe_node = Some node, oe_match = of_match_table drv\<rparr>]"
       "nb_pdevs st' = nb_pdevs st @ [\<lparr>pe_pdev = pdev, pe_drv = Some (drv_addr drv)\<rparr>]"
       "pdev_addr pdev = pdev_addr (sc_pdev sc)" "pdev_addr (sc_pdev sc') = pdev_addr (sc_pdev sc)"
       "dev_addr (pdev_dev (sc_pdev sc')) = dev_addr (pdev_dev (sc_pdev sc))"
    by (auto simp: registered_from_def)
  show ?thesis
    using of_nodes.unreg_reg [of "\<lparr>oe_dev = dev_addr (pdev_dev (sc_pdev sc)), oe_node = Some node,
        oe_match = of_match_table drv\<rparr>" "nb_of_nodes st"]
      pdevs.unreg_reg [of "\<lparr>pe_pdev = pdev, pe_drv = Some (drv_addr drv)\<rparr>" "nb_pdevs st"] assms(2,3) r
    by (simp add: vc4_newbus_detach_def lkpi_set_of_node_def lkpi_platform_device_register_def)
qed

text \<open>
  A failed attach leaves the device registered: when attach reports an error, its device is
  still in both registries, under its driver, although newbus does not detach a device whose
  attach failed and releases its softc. The match list of a master built later names it.
\<close>
theorem vc4_newbus_attach_error_leaks:
  assumes "vc4_newbus_attach ext irq_invalid dev drv sc st = Some (Inl e, sc', st')"
  shows "dev_addr (pdev_dev (sc_pdev sc)) \<in> set (devices_of (drv_addr drv) (nb_pdevs st')) \<and>
         length (nb_of_nodes st') = Suc (length (nb_of_nodes st))"
  using attach_registers [OF assms] by (auto simp: registered_from_def devices_of_append) (auto simp: devices_of_def)

subsection \<open>The pipeline comes up in order\<close>

definition block_component :: "vc4_block \<Rightarrow> lkpi_component" where
  "block_component b = \<lparr>c_dev = blk_dev b, c_ops = blk_ops b, c_bound = False, c_master = None,
     c_master_data = None\<rparr>"

definition block_devs :: "ptr \<Rightarrow> vc4_block list \<Rightarrow> ptr list" where
  "block_devs drv bs = map blk_dev (filter (\<lambda>b. blk_driver b = drv) bs)"

text \<open>A successful attach ran the driver's probe on the registered device.\<close>
lemma attach_probes:
  assumes "vc4_newbus_attach ext irq_invalid dev drv sc st = Some (Inr u, sc', st')"
  obtains probe pdev v where "drv_probe drv = Some probe"
    "probe (nb_pdevs st') pdev (nb_drivers st) = Some (Inr v, nb_drivers st')"
    "dev_addr (pdev_dev pdev) = dev_addr (pdev_dev (sc_pdev sc))"
proof -
  obtain sc1 st1 where r: "attach_register ext dev drv sc st = (sc1, st1)" by fastforce
  note reg = attach_register_registers [OF r]
  from assms obtain probe v s where p: "drv_probe drv = Some probe"
    "probe (nb_pdevs st1) (sc_pdev (attach_irq ext irq_invalid dev sc1)) (nb_drivers st1) = Some (Inr v, s)"
    "st' = st1\<lparr>nb_drivers := s\<rparr>"
    by (auto simp: vc4_newbus_attach_def r Let_def split: sum.splits option.splits prod.splits)
  then show thesis
    using that [of probe "sc_pdev (attach_irq ext irq_invalid dev sc1)" v] reg
    by (simp add: attach_irq_keeps registered_from_def)
qed

lemma component_add_no_master:
  assumes "component_add cb True (Some d) (Some ops) st = (Inr u, st')" and "lkpi_masters st = []"
  shows "ops_bind ops \<noteq> None \<and>
         st' = st\<lparr>lkpi_components := lkpi_components st @ [\<lparr>c_dev = d, c_ops = ops, c_bound = False,
                 c_master = None, c_master_data = None\<rparr>]\<rparr>"
  using assms by (auto simp: component_add_def lkpi_try_bind_masters_def split: if_splits)

lemma attach_block:
  assumes "vc4_newbus_attach ext irq_invalid (blk_bsddev b)
       (component_driver cb (blk_driver b) (blk_table b) (blk_ops b)) (blk_sc b) st = Some (Inr u, sc, st')"
    and "lkpi_masters (nb_drivers st) = []"
  shows "ops_bind (blk_ops b) \<noteq> None \<and>
         nb_drivers st' = (nb_drivers st)\<lparr>lkpi_components := lkpi_components (nb_drivers st) @ [block_component b]\<rparr> \<and>
         map pe_dev_addr (nb_pdevs st') = map pe_dev_addr (nb_pdevs st) @ [blk_dev b] \<and>
         (\<forall>drv. devices_of drv (nb_pdevs st') = devices_of drv (nb_pdevs st) @ block_devs drv [b])"
proof -
  obtain probe pdev v where
    p: "drv_probe (component_driver cb (blk_driver b) (blk_table b) (blk_ops b)) = Some probe"
    "probe (nb_pdevs st') pdev (nb_drivers st) = Some (Inr v, nb_drivers st')"
    "dev_addr (pdev_dev pdev) = blk_dev b"
    using attach_probes [OF assms(1)] by blast
  then have "component_add cb True (Some (blk_dev b)) (Some (blk_ops b)) (nb_drivers st) =
       (Inr v, nb_drivers st')"
    by (auto simp: component_driver_def component_dev_probe_def)
  then have "ops_bind (blk_ops b) \<noteq> None \<and>
        nb_drivers st' = (nb_drivers st)\<lparr>lkpi_components := lkpi_components (nb_drivers st) @ [block_component b]\<rparr>"
    using component_add_no_master [OF _ assms(2)] by (simp add: block_component_def)
  moreover from attach_registers [OF assms(1)] obtain pdev where
    "nb_pdevs st' = nb_pdevs st @ [\<lparr>pe_pdev = pdev, pe_drv = Some (blk_driver b)\<rparr>]"
    "dev_addr (pdev_dev pdev) = blk_dev b"
    by (auto simp: registered_from_def component_driver_def)
  ultimately show ?thesis by (simp add: devices_of_append devices_of_def block_devs_def)
qed

lemma attach_blocks_state:
  assumes "attach_blocks ext irq_invalid cb bs st = Some st'" and "lkpi_masters (nb_drivers st) = []"
  shows "list_all (\<lambda>b. ops_bind (blk_ops b) \<noteq> None) bs \<and>
         nb_drivers st' = (nb_drivers st)\<lparr>lkpi_components := lkpi_components (nb_drivers st) @ map block_component bs\<rparr> \<and>
         map pe_dev_addr (nb_pdevs st') = map pe_dev_addr (nb_pdevs st) @ map blk_dev bs \<and>
         (\<forall>drv. devices_of drv (nb_pdevs st') = devices_of drv (nb_pdevs st) @ block_devs drv bs)"
  using assms
proof (induction bs arbitrary: st)
  case (Cons b bs)
  then obtain u sc st1 where
    a: "vc4_newbus_attach ext irq_invalid (blk_bsddev b)
       (component_driver cb (blk_driver b) (blk_table b) (blk_ops b)) (blk_sc b) st = Some (Inr u, sc, st1)"
    and rest: "attach_blocks ext irq_invalid cb bs st1 = Some st'"
    by (auto split: option.splits sum.splits)
  note one = attach_block [OF a Cons.prems(2)]
  then have "lkpi_masters (nb_drivers st1) = []" using Cons.prems(2) by simp
  from Cons.IH [OF rest this] one show ?case by (auto simp: block_devs_def)
qed (simp add: block_devs_def)

lemma pipeline_present_blocks:
  assumes "distinct (map blk_dev bs)" and "list_all (\<lambda>b. ops_bind (blk_ops b) \<noteq> None) bs"
    and "set ds \<subseteq> blk_dev ` set bs"
  shows "pipeline_present ds (map block_component bs)"
proof -
  have "unbound_devs (map block_component bs) = blk_dev ` set bs"
    by (force simp: unbound_devs_def block_component_def)
  then show ?thesis using assms
    by (auto simp: pipeline_present_def list_all_iff comp_wf_def block_component_def comp_def)
qed

lemma block_devs_subset: "set (block_devs drv bs) \<subseteq> blk_dev ` set bs"
  by (auto simp: block_devs_def)

text \<open>
  C1. The whole pipeline: blocks attach through newbus in any order \<open>bs\<close> with no master yet, then
  the master attaches. Its attach succeeds, and when no component's bind callback and no call of
  the master's bind outside the driver fails, the master is bound and has bound exactly the components of the
  pipeline, in the order HVS, HDMI encoders, CRTCs (within a driver, the order of attachment). Only
  when one of those fails may the master be left unbound, with the failed attempt recorded.
\<close>
theorem vc4_pipeline_comes_up_in_order:
  assumes "attach_blocks ext irq_invalid (vc4_callbacks cb vext gen) bs
             \<lparr>nb_of_nodes = [], nb_pdevs = [],
              nb_drivers = \<lparr>lkpi_components = [], lkpi_masters = [], comp_run = r\<rparr>\<rparr> = Some st"
    and "distinct (dev # map blk_dev bs)" and "dev = dev_addr (pdev_dev (sc_pdev sc))"
    and "distinct (addr # component_drivers ids)"
    and "ds = block_devs (vc4_hvs_driver ids) bs @ block_devs (vc4_hdmi_driver ids) bs @
              block_devs (vc4_crtc_driver ids) bs"
    and "ds \<noteq> []" and "list_all (\<lambda>d. alloc d = (True, True)) ds" and "mops_bind ops \<noteq> None"
    and "dma_priv_init ext dev = Inr ()"
  shows "\<exists>sc' st'. vc4_newbus_attach ext irq_invalid bsd
             (vc4_platform_driver (vc4_callbacks cb vext gen) alloc ids ops addr table) sc st =
             Some (Inr (), sc', st') \<and>
           pipeline_outcome (outside_succeeds cb vext gen) dev (drm_ptr vext) ds []
             \<lparr>m_dev = dev, m_ops = ops, m_match = match_list_of ds, m_bound = False\<rparr>
             (map block_component bs) (drv_log r) (nb_drivers st')"
proof -
  let ?drv = "vc4_platform_driver (vc4_callbacks cb vext gen) alloc ids ops addr table"
  have s: "list_all (\<lambda>b. ops_bind (blk_ops b) \<noteq> None) bs"
      "nb_drivers st = \<lparr>lkpi_components = map block_component bs, lkpi_masters = [], comp_run = r\<rparr>"
      "map pe_dev_addr (nb_pdevs st) = map blk_dev bs"
      "\<And>drv. devices_of drv (nb_pdevs st) = block_devs drv bs"
    using attach_blocks_state [OF assms(1)] by (auto simp: devices_of_def)
  obtain sc1 st1 where reg: "attach_register ext bsd ?drv sc st = (sc1, st1)" by fastforce
  from attach_register_registers [OF reg] obtain pdev where
    r1: "nb_pdevs st1 = nb_pdevs st @ [\<lparr>pe_pdev = pdev, pe_drv = Some addr\<rparr>]"
      "dev_addr (pdev_dev pdev) = dev" "nb_drivers st1 = nb_drivers st"
      "dev_addr (pdev_dev (sc_pdev sc1)) = dev"
    using assms(3) by (auto simp: registered_from_def vc4_platform_driver_def)
  have "devs_distinct (nb_pdevs st1)" using r1 s(3) assms(2) by (simp add: devs_distinct_def)
  moreover have "devices_of drv (nb_pdevs st1) = block_devs drv bs" if "drv \<in> set (component_drivers ids)" for drv
    using that r1(1) s(4) assms(4) by (auto simp: devices_of_append) (auto simp: devices_of_def)
  then have "ds = devices_of (vc4_hvs_driver ids) (nb_pdevs st1) @ devices_of (vc4_hdmi_driver ids) (nb_pdevs st1) @
              devices_of (vc4_crtc_driver ids) (nb_pdevs st1)"
    using assms(5) by (simp add: component_drivers_def)
  moreover have "pipeline_present ds (lkpi_components (nb_drivers st1))"
    using s(1,2) r1(3) assms(2,5) block_devs_subset [of _ bs]
    by (intro pipeline_present_blocks [of bs, THEN back_subst [where P = "pipeline_present ds"]]) auto
  ultimately obtain s' where
    p: "vc4_platform_drm_probe (vc4_callbacks cb vext gen) alloc True ids ops dev (nb_pdevs st1) (nb_drivers st1) =
          Some (Inr (), s')"
       "pipeline_outcome (outside_succeeds cb vext gen) dev (drm_ptr vext) ds [] \<lparr>m_dev = dev, m_ops = ops, m_match = match_list_of ds,
          m_bound = False\<rparr> (map block_component bs) (drv_log r) s'"
    using probe_pipeline_order [of "nb_pdevs st1" ids ds alloc dev "nb_drivers st1" ops cb vext gen] assms(4,6,7,8) s(2) r1(3)
    by auto
  show ?thesis
    using p r1(3,4) assms(9)
    by (intro exI [of _ "attach_irq ext irq_invalid bsd sc1"] exI [of _ "st1\<lparr>nb_drivers := s'\<rparr>"])
       (simp add: vc4_newbus_attach_def reg Let_def attach_irq_keeps, simp add: vc4_platform_driver_def attach_irq_keeps)
qed

subsection \<open>Concrete instances\<close>

text \<open>A machine on which the device at address 19 cannot get its DMA tag; the others attach.\<close>
definition demo_newbus :: newbus_ext where
  "demo_newbus = \<lparr>bus_status_okay = (\<lambda>d. True), bus_is_compatible = (\<lambda>d c. c = ''hdmi''),
     bus_get_node = (\<lambda>d. d + 1), dma_priv_init = (\<lambda>a. if a = 19 then Inl ENOMEM else Inr ()),
     first_irq = (\<lambda>d. None)\<rparr>"

definition demo_softc :: "ptr \<Rightarrow> vc4_newbus_softc" where
  "demo_softc d = \<lparr>sc_bsddev = 0, sc_pdev = \<lparr>pdev_addr = 100 + d,
     pdev_dev = \<lparr>dev_addr = d, bsddev = None, dev_irq = 0\<rparr>\<rparr>, sc_node = \<lparr>dn_addr = 400 + d, dn_node = 0\<rparr>\<rparr>"

definition demo_block :: "ptr \<Rightarrow> ptr \<Rightarrow> vc4_block" where
  "demo_block d drv = \<lparr>blk_bsddev = 200 + d, blk_sc = demo_softc d, blk_driver = drv, blk_table = [],
     blk_ops = \<lparr>ops_addr = 5, ops_bind = Some 5, ops_unbind = Some 5\<rparr>\<rparr>"

definition demo_newbus_state :: "unit comp_state newbus_state" where
  "demo_newbus_state = \<lparr>nb_of_nodes = [], nb_pdevs = [],
     nb_drivers = \<lparr>lkpi_components = [], lkpi_masters = [], comp_run = \<lparr>drv_log = [], drv_world = ()\<rparr>\<rparr>\<rparr>"

definition demo_blocks :: "vc4_block list" where
  "demo_blocks = [demo_block 13 53, demo_block 11 51, demo_block 12 52]"

lemmas demo_newbus_defs = demo_newbus_def demo_softc_def demo_block_def demo_newbus_state_def demo_blocks_def

lemma demo_attach_block:
  "\<exists>sc st. vc4_newbus_attach demo_newbus 65535 211
     (component_driver (vc4_callbacks demo_cb demo_ext VC4_GEN_6_C) 51 []
        \<lparr>ops_addr = 5, ops_bind = Some 5, ops_unbind = Some 5\<rparr>) (demo_softc 11) demo_newbus_state =
     Some (Inr (), sc, st)"
  by (simp add: vc4_newbus_attach_def attach_register_def attach_irq_def component_driver_def
      component_dev_probe_def component_add_def lkpi_try_bind_masters_def demo_newbus_defs Let_def)

theorem vc4_newbus_detach_undoes_attach_witness:
  "\<exists>sc st. vc4_newbus_attach demo_newbus 65535 211
     (component_driver (vc4_callbacks demo_cb demo_ext VC4_GEN_6_C) 51 []
        \<lparr>ops_addr = 5, ops_bind = Some 5, ops_unbind = Some 5\<rparr>) (demo_softc 11) demo_newbus_state =
     Some (Inr (), sc, st) \<and>
     nb_pdevs (vc4_newbus_detach (component_driver (vc4_callbacks demo_cb demo_ext VC4_GEN_6_C) 51 []
        \<lparr>ops_addr = 5, ops_bind = Some 5, ops_unbind = Some 5\<rparr>) sc st) = []"
proof -
  from demo_attach_block obtain sc st where a: "vc4_newbus_attach demo_newbus 65535 211
     (component_driver (vc4_callbacks demo_cb demo_ext VC4_GEN_6_C) 51 []
        \<lparr>ops_addr = 5, ops_bind = Some 5, ops_unbind = Some 5\<rparr>) (demo_softc 11) demo_newbus_state =
     Some (Inr (), sc, st)" by blast
  with vc4_newbus_detach_undoes_attach [OF a] show ?thesis by (auto simp: demo_newbus_state_def)
qed

theorem vc4_newbus_attach_error_leaks_witness:
  "\<exists>sc st. vc4_newbus_attach demo_newbus 65535 300
     (component_driver (vc4_callbacks demo_cb demo_ext VC4_GEN_6_C) 51 []
        \<lparr>ops_addr = 5, ops_bind = Some 5, ops_unbind = Some 5\<rparr>) (demo_softc 19) demo_newbus_state =
     Some (Inl ENOMEM, sc, st) \<and> 19 \<in> set (devices_of 51 (nb_pdevs st))"
proof -
  obtain sc st where a: "vc4_newbus_attach demo_newbus 65535 300
     (component_driver (vc4_callbacks demo_cb demo_ext VC4_GEN_6_C) 51 []
        \<lparr>ops_addr = 5, ops_bind = Some 5, ops_unbind = Some 5\<rparr>) (demo_softc 19) demo_newbus_state =
     Some (Inl ENOMEM, sc, st)"
    by (simp add: vc4_newbus_attach_def attach_register_def demo_newbus_defs Let_def)
  with vc4_newbus_attach_error_leaks [OF a] show ?thesis
    by (auto simp: demo_softc_def component_driver_def)
qed

lemma demo_attach_blocks:
  "\<exists>st. attach_blocks demo_newbus 65535 (vc4_callbacks good_cb demo_ext VC4_GEN_6_C) demo_blocks
     \<lparr>nb_of_nodes = [], nb_pdevs = [], nb_drivers = \<lparr>lkpi_components = [], lkpi_masters = [],
        comp_run = \<lparr>drv_log = [], drv_world = ()\<rparr>\<rparr>\<rparr> = Some st"
  by (simp add: vc4_newbus_attach_def attach_register_def attach_irq_def component_driver_def
      component_dev_probe_def component_add_def lkpi_try_bind_masters_def demo_newbus_defs Let_def)

theorem vc4_pipeline_comes_up_in_order_witness:
  "\<exists>st sc' st'. attach_blocks demo_newbus 65535 (vc4_callbacks good_cb demo_ext VC4_GEN_6_C) demo_blocks
       \<lparr>nb_of_nodes = [], nb_pdevs = [], nb_drivers = \<lparr>lkpi_components = [], lkpi_masters = [],
          comp_run = \<lparr>drv_log = [], drv_world = ()\<rparr>\<rparr>\<rparr> = Some st \<and>
     vc4_newbus_attach demo_newbus 65535 201
       (vc4_platform_driver (vc4_callbacks good_cb demo_ext VC4_GEN_6_C) (\<lambda>d. (True, True)) demo_ids
          \<lparr>mops_addr = 2, mops_bind = Some 3, mops_unbind = Some 4\<rparr> 50 []) (demo_softc 1) st =
       Some (Inr (), sc', st') \<and>
     pipeline_outcome True 1 7 [11, 12, 13] []
       \<lparr>m_dev = 1, m_ops = \<lparr>mops_addr = 2, mops_bind = Some 3, mops_unbind = Some 4\<rparr>,
        m_match = match_list_of [11, 12, 13], m_bound = False\<rparr>
       (map block_component demo_blocks) [] (nb_drivers st')"
proof -
  from demo_attach_blocks obtain st where
    a: "attach_blocks demo_newbus 65535 (vc4_callbacks good_cb demo_ext VC4_GEN_6_C) demo_blocks
     \<lparr>nb_of_nodes = [], nb_pdevs = [], nb_drivers = \<lparr>lkpi_components = [], lkpi_masters = [],
        comp_run = \<lparr>drv_log = [], drv_world = ()\<rparr>\<rparr>\<rparr> = Some st" by blast
  show ?thesis
    using good_outside [of VC4_GEN_6_C] vc4_pipeline_comes_up_in_order [OF a, of 1 "demo_softc 1" 50 demo_ids "[11, 12, 13]" "\<lambda>d. (True, True)"
        "\<lparr>mops_addr = 2, mops_bind = Some 3, mops_unbind = Some 4\<rparr>" 201 "[]"] a
    by (simp add: demo_newbus_defs demo_ids_def component_drivers_def block_devs_def demo_ext_def)
qed

end
