(* ===== verification/Vc4_Fkms.thy ===== *)
theory Vc4_Fkms
  imports Vc4_Newbus
begin

text \<open>
  The firmware-KMS master (\<^verbatim>\<open>graphics/vc4_fkms/vc4_fkms_master.c\<close>): one newbus device that is
  at once the component and the master, so it binds itself from attach without a match list.
  Shown here: attach binds exactly its own component, detach undoes it on the component list,
  and neither detach nor a failed attach clears the node registered at attach.
\<close>

subsection \<open>State\<close>

record vc4_fkms_softc =
  fk_bsddev :: ptr
  fk_irq_res :: "ptr option"
  fk_pdev :: platform_device
  fk_master :: device
  fk_node :: device_node
  fk_vc4 :: "ptr option"
  fk_bound :: bool

record 'w fkms_state =
  fk_of_nodes :: of_registry
  fk_comps :: "'w comp_state"

text \<open>
  What attach calls outside this file. \<open>fk_drm_alloc\<close> gives the DRM device (embedded in
  \<open>struct vc4_dev\<close>) or an error; \<open>fk_search_compatible\<close> is \<open>ofw_bus_search_compatible\<close> finding an
  entry of the driver's table; \<open>fkms_table\<close> and \<open>fkms_ops\<close> are the match table and component
  operations of \<open>vc4_firmware_kms.c\<close>.
\<close>
record fkms_ext =
  fk_status_okay :: "ptr \<Rightarrow> bool"
  fk_search_compatible :: "ptr \<Rightarrow> string list \<Rightarrow> bool"
  fk_get_node :: "ptr \<Rightarrow> phandle"
  fk_first_irq :: "ptr \<Rightarrow> u32 option"
  fk_dma_priv_init :: "ptr \<Rightarrow> unit result"
  fk_drm_alloc :: "ptr result"
  fk_mode_config_init :: "unit result"
  fk_vblank_init :: "unit result"
  fk_dev_register :: "unit result"
  fkms_table :: "of_device_id list"
  fkms_ops :: component_ops

definition compat_data :: "string list" where
  "compat_data = [''raspberrypi,rpi-firmware-kms-2712'', ''raspberrypi,rpi-firmware-kms'']"

subsection \<open>Operations\<close>

definition vc4_fkms_probe_bsd :: "fkms_ext \<Rightarrow> ptr \<Rightarrow> unit result" where
  "vc4_fkms_probe_bsd ext dev =
     (if \<not> fk_status_okay ext dev then Inl ENXIO
      else if \<not> fk_search_compatible ext dev compat_data then Inl ENXIO
      else Inr ())"

text \<open>The fields filled in and the node registered, up to the allocation of the DRM device.\<close>
definition fkms_setup ::
    "fkms_ext \<Rightarrow> u32 \<Rightarrow> ptr \<Rightarrow> vc4_fkms_softc \<Rightarrow> 'w fkms_state \<Rightarrow> vc4_fkms_softc \<times> 'w fkms_state" where
  "fkms_setup ext irq_invalid dev sc st =
     (let node = (fk_node sc)\<lparr>dn_node := fk_get_node ext dev\<rparr>;
          irq = (case fk_first_irq ext dev of Some n \<Rightarrow> n | None \<Rightarrow> irq_invalid);
          pdev = (fk_pdev sc)\<lparr>pdev_dev := (pdev_dev (fk_pdev sc))\<lparr>bsddev := Some dev, dev_irq := irq\<rparr>\<rparr>
      in (sc\<lparr>fk_bsddev := dev, fk_irq_res := None, fk_pdev := pdev,
             fk_master := (fk_master sc)\<lparr>bsddev := Some dev\<rparr>, fk_node := node\<rparr>,
          st\<lparr>fk_of_nodes := lkpi_set_of_node (Some (dev_addr (pdev_dev pdev))) (Some node)
               (Some (fkms_table ext)) (fk_of_nodes st)\<rparr>))"

text \<open>
  The rest of attach, from the component's registration on; \<open>malloc\<close> is the outcome of
  the allocation in \<open>component_add\<close>. The failure path releases an interrupt that is never held,
  and turns an error of 0 into ENXIO, which no path produces.
\<close>
definition fkms_bind_steps ::
    "'w comp_callbacks \<Rightarrow> fkms_ext \<Rightarrow> bool \<Rightarrow> ptr \<Rightarrow> vc4_fkms_softc \<times> 'w fkms_state \<Rightarrow>
     unit result \<times> vc4_fkms_softc \<times> 'w fkms_state" where
  "fkms_bind_steps cb ext malloc drm =
     run_steps
       [\<lambda>(sc, st). let (res, s) = component_add cb malloc (Some (dev_addr (pdev_dev (fk_pdev sc))))
                                    (Some (fkms_ops ext)) (fk_comps st)
                   in (res, sc, st\<lparr>fk_comps := s\<rparr>),
        \<lambda>(sc, st). let (res, cs, r) = component_bind_all cb (dev_addr (fk_master sc)) (Some drm) (fk_comps st);
                       st' = st\<lparr>fk_comps := (fk_comps st)\<lparr>lkpi_components := cs, comp_run := r\<rparr>\<rparr>
                   in (res, if isl res then sc else sc\<lparr>fk_bound := True\<rparr>, st'),
        \<lambda>s. (fk_vblank_init ext, s),
        \<lambda>s. (fk_dev_register ext, s)]"

definition vc4_fkms_attach ::
    "'w comp_callbacks \<Rightarrow> fkms_ext \<Rightarrow> bool \<Rightarrow> u32 \<Rightarrow> ptr \<Rightarrow> vc4_fkms_softc \<Rightarrow> 'w fkms_state \<Rightarrow>
     unit result \<times> vc4_fkms_softc \<times> 'w fkms_state" where
  "vc4_fkms_attach cb ext malloc irq_invalid dev sc st =
     (let (sc1, st1) = fkms_setup ext irq_invalid dev sc st
      in case fk_dma_priv_init ext (dev_addr (fk_master sc1)) of
           Inl e \<Rightarrow> (Inl e, sc1, st1)
         | Inr _ \<Rightarrow>
            (case fk_drm_alloc ext of
               Inl _ \<Rightarrow> (Inl ENOMEM, sc1, st1)
             | Inr drm \<Rightarrow>
                (let sc2 = sc1\<lparr>fk_vc4 := Some drm\<rparr>
                 in case fk_mode_config_init ext of
                      Inl e \<Rightarrow> (Inl e, sc2, st1)
                    | Inr _ \<Rightarrow> fkms_bind_steps cb ext malloc drm (sc2, st1))))"

definition vc4_fkms_detach ::
    "'w comp_callbacks \<Rightarrow> fkms_ext \<Rightarrow> vc4_fkms_softc \<Rightarrow> 'w fkms_state \<Rightarrow> 'w fkms_state" where
  "vc4_fkms_detach cb ext sc st =
     (let s1 = (case fk_vc4 sc of
                  Some drm \<Rightarrow>
                    (if fk_bound sc then
                       (let (cs, r) = component_unbind_all cb (dev_addr (fk_master sc)) (Some drm) (fk_comps st)
                        in (fk_comps st)\<lparr>lkpi_components := cs, comp_run := r\<rparr>)
                     else fk_comps st)
                | None \<Rightarrow> fk_comps st)
      in st\<lparr>fk_comps := component_del cb (dev_addr (pdev_dev (fk_pdev sc))) (fkms_ops ext) s1\<rparr>)"

subsection \<open>Properties\<close>

definition fkms_component :: "fkms_ext \<Rightarrow> vc4_fkms_softc \<Rightarrow> lkpi_component" where
  "fkms_component ext sc = \<lparr>c_dev = dev_addr (pdev_dev (fk_pdev sc)), c_ops = fkms_ops ext, c_bound = False,
     c_master = None, c_master_data = None\<rparr>"

lemma fkms_setup_fields:
  "fkms_setup ext irq_invalid dev sc st = (sc1, st1) \<Longrightarrow>
   dev_addr (pdev_dev (fk_pdev sc1)) = dev_addr (pdev_dev (fk_pdev sc)) \<and>
   dev_addr (fk_master sc1) = dev_addr (fk_master sc) \<and>
   fk_comps st1 = fk_comps st \<and>
   length (fk_of_nodes st1) = Suc (length (fk_of_nodes st))"
  by (auto simp: fkms_setup_def lkpi_set_of_node_def Let_def)

lemma fkms_bind_success:
  assumes "fkms_bind_steps cb ext malloc drm (sc, st) = (Inr (), sc', st')"
    and "lkpi_components (fk_comps st) = []" and "lkpi_masters (fk_comps st) = []"
  shows "\<exists>f w. ops_bind (fkms_ops ext) = Some f \<and> sc' = sc\<lparr>fk_bound := True\<rparr> \<and>
     st' = st\<lparr>fk_comps := (fk_comps st)\<lparr>
       lkpi_components := [mark_bound (dev_addr (fk_master sc)) (Some drm) (fkms_component ext sc)],
       comp_run := (comp_run (fk_comps st))\<lparr>drv_log := drv_log (comp_run (fk_comps st)) @
          [Ev_bind (dev_addr (pdev_dev (fk_pdev sc))) (dev_addr (fk_master sc)) (Some drm) True],
          drv_world := w\<rparr>\<rparr>\<rparr>"
proof -
  from assms obtain s where add: "component_add cb malloc (Some (dev_addr (pdev_dev (fk_pdev sc))))
      (Some (fkms_ops ext)) (fk_comps st) = (Inr (), s)"
    by (auto simp: fkms_bind_steps_def split: prod.splits sum.splits)
  then have s: "ops_bind (fkms_ops ext) \<noteq> None"
      "s = (fk_comps st)\<lparr>lkpi_components := [fkms_component ext sc]\<rparr>"
    using assms(2,3)
    by (auto simp: component_add_def lkpi_try_bind_masters_def fkms_component_def split: if_splits)
  then obtain f where f: "ops_bind (fkms_ops ext) = Some f" by auto
  obtain res w where call: "cb_bind cb f (dev_addr (pdev_dev (fk_pdev sc))) (dev_addr (fk_master sc)) (Some drm)
      (drv_world (comp_run (fk_comps st))) = (res, w)" by fastforce
  show ?thesis
    using assms f s(2) call add
    by (cases res)
       (auto simp: fkms_bind_steps_def component_bind_all_def lkpi_master_for_def call_bind_def
        fkms_component_def Let_def split: prod.splits sum.splits)
qed

text \<open>What a successful attach went through.\<close>
lemma fkms_attach_success:
  assumes "vc4_fkms_attach cb ext malloc irq_invalid dev sc st = (Inr (), sc', st')"
  obtains sc1 st1 drm where "fkms_setup ext irq_invalid dev sc st = (sc1, st1)"
    "fkms_bind_steps cb ext malloc drm (sc1\<lparr>fk_vc4 := Some drm\<rparr>, st1) = (Inr (), sc', st')"
  using assms by (auto simp: vc4_fkms_attach_def Let_def split: prod.splits sum.splits)

lemma fkms_unbind_bound:
  assumes "c = mark_bound master data (fkms_component ext sc)" and "lkpi_masters s = []"
    and "lkpi_components s = [c]"
  shows "component_unbind_all cb master data s =
     ([fkms_component ext sc], call_unbind cb c (Some master) data (comp_run s))"
  using assms
  by (simp add: component_unbind_all_def lkpi_master_for_def mark_bound_def mark_unbound_def fkms_component_def)

text \<open>
  C8. Firmware KMS binds and unbinds itself: on a machine with no other component, a successful
  attach makes one bind call, for its own device with its own master and DRM device, and leaves
  that one component bound; detach then makes the matching unbind call (if the driver has one)
  and leaves no component.
\<close>
theorem vc4_fkms_attach_detach:
  assumes "vc4_fkms_attach cb ext malloc irq_invalid dev sc st = (Inr (), sc', st')"
    and "lkpi_components (fk_comps st) = []" and "lkpi_masters (fk_comps st) = []"
  shows "\<exists>drm. fk_vc4 sc' = Some drm \<and>
     lkpi_components (fk_comps st') = [mark_bound (dev_addr (fk_master sc)) (Some drm) (fkms_component ext sc)] \<and>
     drv_log (comp_run (fk_comps st')) = drv_log (comp_run (fk_comps st)) @
       [Ev_bind (dev_addr (pdev_dev (fk_pdev sc))) (dev_addr (fk_master sc)) (Some drm) True] \<and>
     lkpi_components (fk_comps (vc4_fkms_detach cb ext sc' st')) = [] \<and>
     drv_log (comp_run (fk_comps (vc4_fkms_detach cb ext sc' st'))) = drv_log (comp_run (fk_comps st')) @
       (if ops_unbind (fkms_ops ext) = None then []
        else [Ev_unbind (dev_addr (pdev_dev (fk_pdev sc))) (Some (dev_addr (fk_master sc))) (Some drm)])"
proof -
  obtain sc1 st1 drm where init: "fkms_setup ext irq_invalid dev sc st = (sc1, st1)"
    and bind: "fkms_bind_steps cb ext malloc drm (sc1\<lparr>fk_vc4 := Some drm\<rparr>, st1) = (Inr (), sc', st')"
    using fkms_attach_success [OF assms(1)] by blast
  note f = fkms_setup_fields [OF init]
  have comp: "fkms_component ext (sc1\<lparr>fk_vc4 := Some drm\<rparr>) = fkms_component ext sc"
    using f by (simp add: fkms_component_def)
  obtain w where
    sc': "sc' = sc1\<lparr>fk_vc4 := Some drm, fk_bound := True\<rparr>" and
    cs: "lkpi_components (fk_comps st') = [mark_bound (dev_addr (fk_master sc)) (Some drm) (fkms_component ext sc)]" and
    log: "drv_log (comp_run (fk_comps st')) = drv_log (comp_run (fk_comps st)) @
       [Ev_bind (dev_addr (pdev_dev (fk_pdev sc))) (dev_addr (fk_master sc)) (Some drm) True]" and
    ms: "lkpi_masters (fk_comps st') = []"
    using fkms_bind_success [OF bind] f assms(2,3) comp by auto
  have unb: "component_unbind_all cb (dev_addr (fk_master sc')) (Some drm) (fk_comps st') =
     ([fkms_component ext sc], call_unbind cb (mark_bound (dev_addr (fk_master sc)) (Some drm) (fkms_component ext sc))
        (Some (dev_addr (fk_master sc))) (Some drm) (comp_run (fk_comps st')))"
    using fkms_unbind_bound [OF refl ms cs] sc' f by simp
  have "lkpi_components (fk_comps (vc4_fkms_detach cb ext sc' st')) = [] \<and>
     drv_log (comp_run (fk_comps (vc4_fkms_detach cb ext sc' st'))) = drv_log (comp_run (fk_comps st')) @
       (if ops_unbind (fkms_ops ext) = None then []
        else [Ev_unbind (dev_addr (pdev_dev (fk_pdev sc))) (Some (dev_addr (fk_master sc))) (Some drm)])"
    using unb sc' f
    by (simp add: vc4_fkms_detach_def component_del_def call_unbind_log mark_bound_def fkms_component_def)
  with sc' cs log show ?thesis by (intro exI [of _ drm]) simp
qed

text \<open>
  The node that attach registers stays registered: neither a failed attach nor detach after a
  successful one removes it, so a second attach of the same device adds a second entry.
\<close>
theorem vc4_fkms_node_stays_registered:
  assumes "vc4_fkms_attach cb ext malloc irq_invalid dev sc st = (res, sc', st')"
  shows "length (fk_of_nodes st') = Suc (length (fk_of_nodes st)) \<and>
         length (fk_of_nodes (vc4_fkms_detach cb ext sc' st')) = Suc (length (fk_of_nodes st))"
proof -
  obtain sc1 st1 where init: "fkms_setup ext irq_invalid dev sc st = (sc1, st1)" by fastforce
  have keep: "fk_of_nodes (snd s') = fk_of_nodes (snd s)"
    if "fkms_bind_steps cb ext malloc drm s = (r, s')" for drm s r s'
    using that [unfolded fkms_bind_steps_def]
    by (rule run_steps_invariant [where P = "\<lambda>x. fk_of_nodes (snd x) = fk_of_nodes (snd s)"])
       (auto simp: Let_def split: prod.splits)
  have "fk_of_nodes st' = fk_of_nodes st1"
    using assms init keep
    by (fastforce simp: vc4_fkms_attach_def Let_def split: sum.splits prod.splits)
  then show ?thesis using fkms_setup_fields [OF init] by (simp add: vc4_fkms_detach_def Let_def)
qed

subsection \<open>Concrete instances\<close>

definition demo_fkms :: fkms_ext where
  "demo_fkms = \<lparr>fk_status_okay = (\<lambda>d. True), fk_search_compatible = (\<lambda>d cs. True), fk_get_node = (\<lambda>d. 8),
     fk_first_irq = (\<lambda>d. Some 33), fk_dma_priv_init = (\<lambda>d. Inr ()), fk_drm_alloc = Inr 77,
     fk_mode_config_init = Inr (), fk_vblank_init = Inr (), fk_dev_register = Inr (), fkms_table = [],
     fkms_ops = \<lparr>ops_addr = 5, ops_bind = Some 5, ops_unbind = Some 5\<rparr>\<rparr>"

definition demo_fkms_softc :: vc4_fkms_softc where
  "demo_fkms_softc = \<lparr>fk_bsddev = 0, fk_irq_res = None,
     fk_pdev = \<lparr>pdev_addr = 120, pdev_dev = \<lparr>dev_addr = 20, bsddev = None, dev_irq = 0\<rparr>\<rparr>,
     fk_master = \<lparr>dev_addr = 21, bsddev = None, dev_irq = 0\<rparr>, fk_node = \<lparr>dn_addr = 22, dn_node = 0\<rparr>,
     fk_vc4 = None, fk_bound = False\<rparr>"

definition demo_fkms_state :: "unit fkms_state" where
  "demo_fkms_state = \<lparr>fk_of_nodes = [], fk_comps = \<lparr>lkpi_components = [], lkpi_masters = [],
     comp_run = \<lparr>drv_log = [], drv_world = ()\<rparr>\<rparr>\<rparr>"

lemmas demo_fkms_defs = demo_fkms_def demo_fkms_softc_def demo_fkms_state_def

lemma demo_fkms_attach:
  "\<exists>sc st. vc4_fkms_attach demo_cb demo_fkms True 65535 220 demo_fkms_softc demo_fkms_state = (Inr (), sc, st)"
  by (simp add: vc4_fkms_attach_def fkms_setup_def fkms_bind_steps_def component_add_def
      lkpi_try_bind_masters_def component_bind_all_def lkpi_master_for_def call_bind_def demo_cb_def
      demo_fkms_defs Let_def)

theorem vc4_fkms_attach_detach_witness:
  "\<exists>sc st drm. vc4_fkms_attach demo_cb demo_fkms True 65535 220 demo_fkms_softc demo_fkms_state = (Inr (), sc, st) \<and>
     drv_log (comp_run (fk_comps (vc4_fkms_detach demo_cb demo_fkms sc st))) =
       [Ev_bind 20 21 (Some drm) True, Ev_unbind 20 (Some 21) (Some drm)]"
proof -
  obtain sc st where a:
    "vc4_fkms_attach demo_cb demo_fkms True 65535 220 demo_fkms_softc demo_fkms_state = (Inr (), sc, st)"
    using demo_fkms_attach by blast
  from vc4_fkms_attach_detach [OF a] a show ?thesis by (auto simp: demo_fkms_defs)
qed

theorem vc4_fkms_node_stays_registered_witness:
  "\<exists>sc st. vc4_fkms_attach demo_cb demo_fkms True 65535 220 demo_fkms_softc demo_fkms_state = (Inr (), sc, st) \<and>
     length (fk_of_nodes (vc4_fkms_detach demo_cb demo_fkms sc st)) = 1"
proof -
  obtain sc st where a:
    "vc4_fkms_attach demo_cb demo_fkms True 65535 220 demo_fkms_softc demo_fkms_state = (Inr (), sc, st)"
    using demo_fkms_attach by blast
  from vc4_fkms_node_stays_registered [OF a] a show ?thesis by (auto simp: demo_fkms_state_def)
qed

end
