(* ===== verification/Lkpi_Irq.thy ===== *)
theory Lkpi_Irq
  imports Lkpi_Of "HOL-Library.Multiset"
begin

text \<open>
  Several interrupts per device-tree device (\<^verbatim>\<open>graphics/lkpi/lkpi_irq.c\<close>). Shown here: the
  resources held on the bus are exactly those of the registered interrupts, on every path of
  request and free, and a tagged interrupt number is requested under its own resource id.
\<close>

subsection \<open>State\<close>

record lkpi_of_irq =
  oi_dev :: device
  oi_irq :: u32
  oi_arg :: "ptr option"
  oi_res :: ptr
  oi_cookie :: "ptr option"
  oi_handler :: "ptr option"
  oi_handler_arg :: "ptr option"

text \<open>The calls made to newbus, in order: device, resource id and resource.\<close>
datatype bus_event =
    Bus_alloc "ptr option" u32 ptr
  | Bus_setup "ptr option" ptr
  | Bus_teardown "ptr option" ptr ptr
  | Bus_release "ptr option" u32 ptr

record 'b irq_state =
  lkpi_of_irqs :: "lkpi_of_irq list"
  bus_log :: "bus_event list"
  bus_world :: 'b

text \<open>
  Newbus and the kernel's own \<open>lkpi_request_irq\<close> and \<open>lkpi_free_irq\<close>. \<open>bus_alloc_irq\<close> takes
  the device, the resource id and whether the interrupt may be shared, and gives the id it
  allocated (the C call writes it back) with the resource; \<open>bus_setup_intr\<close> gives the cookie.
\<close>
record 'b irq_bus =
  bus_alloc_irq :: "ptr \<Rightarrow> u32 \<Rightarrow> bool \<Rightarrow> 'b \<Rightarrow> (u32 \<times> ptr) option \<times> 'b"
  bus_setup_intr :: "ptr \<Rightarrow> ptr \<Rightarrow> 'b \<Rightarrow> ptr option result \<times> 'b"
  bus_teardown_intr :: "ptr option \<Rightarrow> ptr \<Rightarrow> ptr \<Rightarrow> 'b \<Rightarrow> 'b"
  bus_release_irq :: "ptr option \<Rightarrow> u32 \<Rightarrow> ptr \<Rightarrow> 'b \<Rightarrow> 'b"
  kernel_request_irq ::
    "device option \<Rightarrow> u32 \<Rightarrow> ptr option \<Rightarrow> ptr option \<Rightarrow> bool \<Rightarrow> ptr option \<Rightarrow> 'b \<Rightarrow> unit result \<times> 'b"
  kernel_free_irq :: "u32 \<Rightarrow> ptr option \<Rightarrow> 'b \<Rightarrow> 'b"

subsection \<open>Operations\<close>

datatype filter_result = FILTER_STRAY | FILTER_HANDLED

text \<open>\<open>call\<close> runs a handler and says whether it returned IRQ_HANDLED.\<close>
definition lkpi_of_irq_filter ::
    "(ptr \<Rightarrow> u32 \<Rightarrow> ptr option \<Rightarrow> bool) \<Rightarrow> lkpi_of_irq \<Rightarrow> filter_result" where
  "lkpi_of_irq_filter call e =
     (case oi_handler e of None \<Rightarrow> FILTER_STRAY
      | Some h \<Rightarrow> if call h (oi_irq e) (oi_handler_arg e) then FILTER_HANDLED else FILTER_STRAY)"

definition bus_call :: "bus_event \<Rightarrow> ('b \<Rightarrow> 'b) \<Rightarrow> 'b irq_state \<Rightarrow> 'b irq_state" where
  "bus_call ev f st = st\<lparr>bus_log := bus_log st @ [ev], bus_world := f (bus_world st)\<rparr>"

text \<open>\<open>shared\<close> is \<^verbatim>\<open>(flags & IRQF_SHARED) != 0\<close>; the name is used in a message only.\<close>
definition lkpi_of_request_irq ::
    "'b irq_bus \<Rightarrow> device option \<Rightarrow> u32 \<Rightarrow> ptr option \<Rightarrow> ptr option \<Rightarrow> bool \<Rightarrow> ptr option \<Rightarrow>
     'b irq_state \<Rightarrow> unit result \<times> 'b irq_state" where
  "lkpi_of_request_irq bus xdev irq handler thread_handler shared arg st =
     (if \<not> LKPI_IRQ_IS_OF irq then
        (let (res, w) = kernel_request_irq bus xdev irq handler thread_handler shared arg (bus_world st)
         in (res, st\<lparr>bus_world := w\<rparr>))
      else case xdev of None \<Rightarrow> (Inl ENXIO, st)
      | Some d \<Rightarrow>
         (case bsddev d of None \<Rightarrow> (Inl ENXIO, st)
          | Some b \<Rightarrow>
             if thread_handler \<noteq> None then (Inl ENOTSUP, st)
             else (case bus_alloc_irq bus b (LKPI_IRQ_OF_RID irq) shared (bus_world st) of
                     (None, w) \<Rightarrow> (Inl ENXIO, st\<lparr>bus_world := w\<rparr>)
                   | (Some (rid, res), w) \<Rightarrow>
                      (let st1 = bus_call (Bus_alloc (Some b) rid res) (\<lambda>_. w) st
                       in case bus_setup_intr bus b res (bus_world st1) of
                            (Inl err, w') \<Rightarrow>
                              (Inl err, bus_call (Bus_release (Some b) rid res)
                                 (bus_release_irq bus (Some b) rid res) (st1\<lparr>bus_world := w'\<rparr>))
                          | (Inr cookie, w') \<Rightarrow>
                              (Inr (), (bus_call (Bus_setup (Some b) res) (\<lambda>_. w') st1)
                                 \<lparr>lkpi_of_irqs := lkpi_of_irqs st1 @
                                   [\<lparr>oi_dev = d, oi_irq = irq, oi_arg = arg, oi_res = res,
                                     oi_cookie = cookie, oi_handler = handler,
                                     oi_handler_arg = arg\<rparr>]\<rparr>)))))"

definition irq_entry_is :: "device \<Rightarrow> u32 \<Rightarrow> ptr option \<Rightarrow> lkpi_of_irq \<Rightarrow> bool" where
  "irq_entry_is xdev irq arg e \<longleftrightarrow>
     dev_addr (oi_dev e) = dev_addr xdev \<and> oi_irq e = irq \<and> oi_arg e = arg"

definition lkpi_of_free_irq ::
    "'b irq_bus \<Rightarrow> device \<Rightarrow> u32 \<Rightarrow> ptr option \<Rightarrow> 'b irq_state \<Rightarrow> 'b irq_state" where
  "lkpi_of_free_irq bus xdev irq arg st =
     (if \<not> LKPI_IRQ_IS_OF irq then st\<lparr>bus_world := kernel_free_irq bus irq arg (bus_world st)\<rparr>
      else (case List.find (irq_entry_is xdev irq arg) (lkpi_of_irqs st) of
              None \<Rightarrow> st
            | Some e \<Rightarrow>
               (let st1 = st\<lparr>lkpi_of_irqs := remove_first (irq_entry_is xdev irq arg) (lkpi_of_irqs st)\<rparr>;
                    st2 = (case oi_cookie e of None \<Rightarrow> st1
                           | Some c \<Rightarrow> bus_call (Bus_teardown (bsddev xdev) (oi_res e) c)
                                         (bus_teardown_intr bus (bsddev xdev) (oi_res e) c) st1)
                in bus_call (Bus_release (bsddev xdev) (LKPI_IRQ_OF_RID irq) (oi_res e))
                     (bus_release_irq bus (bsddev xdev) (LKPI_IRQ_OF_RID irq) (oi_res e)) st2)))"

subsection \<open>The resources held\<close>

fun held_after :: "(ptr option \<times> u32 \<times> ptr) multiset \<Rightarrow> bus_event list \<Rightarrow> (ptr option \<times> u32 \<times> ptr) multiset" where
  "held_after h [] = h"
| "held_after h (Bus_alloc b rid r # es) = held_after (add_mset (b, rid, r) h) es"
| "held_after h (Bus_release b rid r # es) = held_after (h - {#(b, rid, r)#}) es"
| "held_after h (_ # es) = held_after h es"

definition held :: "bus_event list \<Rightarrow> (ptr option \<times> u32 \<times> ptr) multiset" where
  "held es = held_after {#} es"

lemma held_after_append: "held_after h (xs @ ys) = held_after (held_after h xs) ys"
  by (induction h xs rule: held_after.induct) auto

lemma held_append [simp]: "held (es @ ys) = held_after (held es) ys"
  by (simp add: held_def held_after_append)

lemma bus_call_simps [simp]:
  "bus_log (bus_call ev f st) = bus_log st @ [ev]"
  "lkpi_of_irqs (bus_call ev f st) = lkpi_of_irqs st"
  "bus_world (bus_call ev f st) = f (bus_world st)"
  by (simp_all add: bus_call_def)

definition irq_resource :: "lkpi_of_irq \<Rightarrow> ptr option \<times> u32 \<times> ptr" where
  "irq_resource e = (bsddev (oi_dev e), LKPI_IRQ_OF_RID (oi_irq e), oi_res e)"

text \<open>The registered interrupts own what is held on the bus.\<close>
definition irqs_held :: "'b irq_state \<Rightarrow> bool" where
  "irqs_held st \<longleftrightarrow> held (bus_log st) = mset (map irq_resource (lkpi_of_irqs st))"

text \<open>The bus hands out the resource id it was asked for, as the OFW buses do.\<close>
definition keeps_rid :: "'b irq_bus \<Rightarrow> bool" where
  "keeps_rid bus \<longleftrightarrow>
     (\<forall>b rid shared w. case fst (bus_alloc_irq bus b rid shared w) of None \<Rightarrow> True
        | Some (rid', r) \<Rightarrow> rid' = rid)"

lemma keeps_ridD:
  "keeps_rid bus \<Longrightarrow> bus_alloc_irq bus b rid shared w = (Some (rid', r), w') \<Longrightarrow> rid' = rid"
  unfolding keeps_rid_def by (metis (mono_tags, lifting) case_prod_conv fst_conv option.simps(5))

lemma mset_remove_first:
  "List.find P xs = Some x \<Longrightarrow> mset (map f (remove_first P xs)) = mset (map f xs) - {#f x#}"
  by (induction xs) (auto split: if_splits dest: find_SomeD)

subsection \<open>Properties\<close>

text \<open>
  Requesting an interrupt keeps the account of bus resources on every path: on success one
  entry is added and the resource allocated for it is held, on failure no entry is added and
  whatever was allocated on the way has been released.
\<close>
theorem lkpi_of_request_irq_keeps_held:
  assumes "irqs_held st" and "keeps_rid bus"
    and "lkpi_of_request_irq bus xdev irq handler thread_handler shared arg st = (res, st')"
  shows "irqs_held st' \<and> (isl res \<longrightarrow> lkpi_of_irqs st' = lkpi_of_irqs st \<and> held (bus_log st') = held (bus_log st))"
proof (cases "LKPI_IRQ_IS_OF irq \<and> xdev \<noteq> None \<and> Option.bind xdev bsddev \<noteq> None \<and> thread_handler = None")
  case False
  then show ?thesis using assms(1,3)
    by (auto simp: lkpi_of_request_irq_def irqs_held_def split: prod.splits option.splits if_splits)
next
  case True
  then obtain d b where d: "xdev = Some d" "bsddev d = Some b" by auto
  show ?thesis
  proof (cases "fst (bus_alloc_irq bus b (LKPI_IRQ_OF_RID irq) shared (bus_world st))")
    case None
    then show ?thesis using assms(1,3) True d
      by (auto simp: lkpi_of_request_irq_def irqs_held_def split: prod.splits)
  next
    case (Some a)
    then obtain r w where a: "bus_alloc_irq bus b (LKPI_IRQ_OF_RID irq) shared (bus_world st) =
        (Some (LKPI_IRQ_OF_RID irq, r), w)"
      using keeps_ridD [OF assms(2)] by (metis prod.collapse)
    show ?thesis
      using assms(1,3) True d a
      by (auto simp: lkpi_of_request_irq_def irqs_held_def irq_resource_def Let_def
          split: prod.splits sum.splits)
  qed
qed

text \<open>
  Freeing an interrupt keeps the account: the resource of the entry that is removed is
  released under the id it was allocated with, and nothing else is. The device must be the
  one the entry was registered for, newbus device included.
\<close>
theorem lkpi_of_free_irq_keeps_held:
  assumes "irqs_held st"
    and "list_all (\<lambda>e. dev_addr (oi_dev e) = dev_addr xdev \<longrightarrow> bsddev (oi_dev e) = bsddev xdev) (lkpi_of_irqs st)"
  shows "irqs_held (lkpi_of_free_irq bus xdev irq arg st)"
proof (cases "LKPI_IRQ_IS_OF irq \<and> List.find (irq_entry_is xdev irq arg) (lkpi_of_irqs st) \<noteq> None")
  case False
  then show ?thesis using assms(1)
    by (auto simp: lkpi_of_free_irq_def irqs_held_def)
next
  case True
  then obtain e where e: "List.find (irq_entry_is xdev irq arg) (lkpi_of_irqs st) = Some e" by auto
  then have "irq_resource e = (bsddev xdev, LKPI_IRQ_OF_RID irq, oi_res e)"
    using assms(2) by (auto simp: irq_resource_def irq_entry_is_def list_all_iff dest: find_SomeD)
  then show ?thesis
    using True e assms(1) mset_remove_first [OF e, of irq_resource]
    by (auto simp: lkpi_of_free_irq_def irqs_held_def Let_def split: option.splits)
qed

text \<open>
  Request and free are inverse: freeing an interrupt that was just requested, with the same
  device and argument and no earlier registration under them, restores the list of interrupts
  and the resources held.
\<close>
theorem lkpi_of_request_free_irq:
  assumes "LKPI_IRQ_IS_OF irq" and "keeps_rid bus"
    and "\<not> list_ex (irq_entry_is d irq arg) (lkpi_of_irqs st)"
    and "lkpi_of_request_irq bus (Some d) irq handler thread_handler shared arg st = (Inr (), st1)"
  shows "lkpi_of_irqs (lkpi_of_free_irq bus d irq arg st1) = lkpi_of_irqs st \<and>
         held (bus_log (lkpi_of_free_irq bus d irq arg st1)) = held (bus_log st)"
proof -
  from assms(1,4) obtain b rid r cookie where
    b: "bsddev d = Some b" and
    rid: "rid = LKPI_IRQ_OF_RID irq" and
    irqs: "lkpi_of_irqs st1 = lkpi_of_irqs st @ [\<lparr>oi_dev = d, oi_irq = irq, oi_arg = arg, oi_res = r,
       oi_cookie = cookie, oi_handler = handler, oi_handler_arg = arg\<rparr>]" and
    log: "bus_log st1 = bus_log st @ [Bus_alloc (Some b) rid r, Bus_setup (Some b) r]"
    using keeps_ridD [OF assms(2)]
    by (auto simp: lkpi_of_request_irq_def Let_def split: prod.splits option.splits if_splits sum.splits)
  have none: "\<forall>e\<in>set (lkpi_of_irqs st). \<not> irq_entry_is d irq arg e"
    using assms(3) by (simp add: list_ex_iff)
  then have "List.find (irq_entry_is d irq arg) (lkpi_of_irqs st) = None"
    by (simp add: find_None_iff_all)
  moreover have "held (bus_log st1) = add_mset (Some b, rid, r) (held (bus_log st))"
    using log by simp
  ultimately show ?thesis
    using none assms(1) b rid irqs
    by (auto simp: lkpi_of_free_irq_def Let_def find_append remove_first_append remove_first_id
        irq_entry_is_def split: option.splits)
qed

subsection \<open>Concrete instances\<close>

text \<open>A bus on which every allocation succeeds and the resource 502 cannot be set up.\<close>
definition demo_bus :: "unit irq_bus" where
  "demo_bus = \<lparr>bus_alloc_irq = (\<lambda>b rid sh w. (Some (rid, 500 + unat rid), w)),
     bus_setup_intr = (\<lambda>b r w. (if r = 502 then Inl EINVAL else Inr (Some 600), w)),
     bus_teardown_intr = (\<lambda>b r c w. w), bus_release_irq = (\<lambda>b rid r w. w),
     kernel_request_irq = (\<lambda>d irq h th sh a w. (Inr (), w)), kernel_free_irq = (\<lambda>irq a w. w)\<rparr>"

definition demo_irqs :: "unit irq_state" where
  "demo_irqs = \<lparr>lkpi_of_irqs = [], bus_log = [], bus_world = ()\<rparr>"

lemma demo_bus_keeps_rid: "keeps_rid demo_bus"
  by (simp add: keeps_rid_def demo_bus_def)

lemma demo_irq_tag: "LKPI_IRQ_IS_OF 0x40000001" "LKPI_IRQ_IS_OF 0x40000002"
    "LKPI_IRQ_OF_RID 0x40000001 = 1" "LKPI_IRQ_OF_RID 0x40000002 = 2"
  by (simp_all add: LKPI_IRQ_IS_OF_def LKPI_IRQ_OF_TAG_def LKPI_IRQ_OF_RID_def)

lemma demo_request:
  "lkpi_of_request_irq demo_bus (Some (pdev_dev demo_hvs)) 0x40000001 (Some 9) None False (Some 8) demo_irqs =
     (Inr (), \<lparr>lkpi_of_irqs = [\<lparr>oi_dev = pdev_dev demo_hvs, oi_irq = 0x40000001, oi_arg = Some 8,
        oi_res = 501, oi_cookie = Some 600, oi_handler = Some 9, oi_handler_arg = Some 8\<rparr>],
       bus_log = [Bus_alloc (Some 211) 1 501, Bus_setup (Some 211) 501], bus_world = ()\<rparr>)"
  by (simp add: lkpi_of_request_irq_def demo_bus_def demo_irqs_def demo_hvs_def demo_irq_tag bus_call_def)

theorem lkpi_of_request_irq_keeps_held_witness:
  "held (bus_log (snd (lkpi_of_request_irq demo_bus (Some (pdev_dev demo_hvs)) 0x40000002 (Some 9) None
      False (Some 8) demo_irqs))) = {#}"
proof -
  obtain st' where req: "lkpi_of_request_irq demo_bus (Some (pdev_dev demo_hvs)) 0x40000002 (Some 9) None
      False (Some 8) demo_irqs = (Inl EINVAL, st')"
    by (simp add: lkpi_of_request_irq_def demo_bus_def demo_irqs_def demo_hvs_def demo_irq_tag bus_call_def)
  have "irqs_held demo_irqs" by (simp add: irqs_held_def demo_irqs_def held_def)
  from lkpi_of_request_irq_keeps_held [OF this demo_bus_keeps_rid req] req
  show ?thesis by (simp add: demo_irqs_def held_def)
qed

theorem lkpi_of_free_irq_keeps_held_witness:
  "irqs_held (lkpi_of_free_irq demo_bus (pdev_dev demo_hvs) 0x40000001 (Some 8)
     (snd (lkpi_of_request_irq demo_bus (Some (pdev_dev demo_hvs)) 0x40000001 (Some 9) None
        False (Some 8) demo_irqs)))"
  unfolding demo_request
  by (rule lkpi_of_free_irq_keeps_held)
     (simp_all add: irqs_held_def held_def irq_resource_def demo_irq_tag demo_hvs_def)

theorem lkpi_of_request_free_irq_witness:
  "lkpi_of_irqs (lkpi_of_free_irq demo_bus (pdev_dev demo_hvs) 0x40000001 (Some 8)
     (snd (lkpi_of_request_irq demo_bus (Some (pdev_dev demo_hvs)) 0x40000001 (Some 9) None
        False (Some 8) demo_irqs))) = []"
  using lkpi_of_request_free_irq [OF demo_irq_tag(1) demo_bus_keeps_rid _ demo_request]
  unfolding demo_request by (simp add: demo_irqs_def)

end
