(* ===== verification/Lkpi_Drm.thy ===== *)
theory Lkpi_Drm
  imports Lkpi_Of
begin

text \<open>
  The DRM helpers of \<^verbatim>\<open>graphics/lkpi/lkpi_drm.c\<close>: managed mutexes, the fence-context test and
  register banks by name. Shown here: a failed managed init leaves no live mutex, a fence
  matches a context exactly when every fence behind it does, and a named register bank is the
  bank at the index of its name, with the end address that covers it.
\<close>

subsection \<open>Managed mutexes\<close>

text \<open>
  The mutexes initialised and not yet destroyed, and the managed release actions (\<open>drmm_mutex_release\<close> with its
  argument) in registration order. \<open>add_action\<close> is the outcome of \<open>drmm_add_action\<close>, which
  registers the action when it succeeds.
\<close>
record drm_managed =
  live_mutexes :: "ptr set"
  managed_actions :: "ptr list"

definition linux_mutex_init :: "ptr \<Rightarrow> drm_managed \<Rightarrow> drm_managed" where
  "linux_mutex_init lock m = m\<lparr>live_mutexes := insert lock (live_mutexes m)\<rparr>"

definition linux_mutex_destroy :: "ptr \<Rightarrow> drm_managed \<Rightarrow> drm_managed" where
  "linux_mutex_destroy lock m = m\<lparr>live_mutexes := live_mutexes m - {lock}\<rparr>"

definition drmm_mutex_release :: "ptr \<Rightarrow> drm_managed \<Rightarrow> drm_managed" where
  "drmm_mutex_release p m = linux_mutex_destroy p m"

definition drmm_mutex_init ::
    "unit result \<Rightarrow> ptr option \<Rightarrow> ptr option \<Rightarrow> drm_managed \<Rightarrow> unit result \<times> drm_managed" where
  "drmm_mutex_init add_action dev lock m =
     (case (dev, lock) of
        (Some d, Some l) \<Rightarrow>
          (let m1 = linux_mutex_init l m
           in case add_action of
                Inl e \<Rightarrow> (Inl e, linux_mutex_destroy l m1)
              | Inr _ \<Rightarrow> (Inr (), m1\<lparr>managed_actions := managed_actions m1 @ [l]\<rparr>))
      | _ \<Rightarrow> (Inl EINVAL, m))"

subsection \<open>Fences\<close>

datatype dma_fence = Fence u64 | Fence_array u64 "dma_fence list"

fun fence_context :: "dma_fence \<Rightarrow> u64" where
  "fence_context (Fence c) = c"
| "fence_context (Fence_array c fs) = c"

text \<open>The loop over the array's members, which stops at the first mismatch.\<close>
fun members_match :: "dma_fence list \<Rightarrow> u64 \<Rightarrow> bool" where
  "members_match [] context = True"
| "members_match (f # fs) context =
     (if fence_context f \<noteq> context then False else members_match fs context)"

definition dma_fence_match_context :: "dma_fence option \<Rightarrow> u64 \<Rightarrow> bool" where
  "dma_fence_match_context fence context =
     (case fence of None \<Rightarrow> False
      | Some (Fence c) \<Rightarrow> c = context
      | Some (Fence_array c fs) \<Rightarrow> members_match fs context)"

subsection \<open>Register banks by name\<close>

record linux_resource =
  res_start :: u64
  res_end :: u64
  res_name :: string

text \<open>\<open>is_mem\<close> is \<^verbatim>\<open>type == IORESOURCE_MEM\<close>.\<close>
definition platform_get_resource_byname ::
    "ofw \<Rightarrow> of_registry \<Rightarrow> string \<Rightarrow> (ptr \<Rightarrow> int \<Rightarrow> (u64 \<times> u64) option) \<Rightarrow> platform_device option \<Rightarrow> bool \<Rightarrow>
     string option \<Rightarrow> linux_resource option" where
  "platform_get_resource_byname ofw reg beyond get_res pdev is_mem name =
     (case (pdev, name) of
        (Some p, Some nm) \<Rightarrow>
          if \<not> is_mem then None
          else (case dev_of_node reg (Some (dev_addr (pdev_dev p))) of
                  None \<Rightarrow> None
                | Some dn \<Rightarrow>
                   (case of_property_match_string ofw beyond (Some dn) (Some ''reg-names'') (Some nm) of
                      Inl _ \<Rightarrow> None
                    | Inr idx \<Rightarrow>
                       (case lkpi_of_reg_by_index get_res (Some p) (int idx) of
                          Inl _ \<Rightarrow> None
                        | Inr (start, len) \<Rightarrow>
                            Some \<lparr>res_start = start, res_end = start + len - 1, res_name = nm\<rparr>)))
      | _ \<Rightarrow> None)"

subsection \<open>Properties\<close>

text \<open>
  \<open>drmm_mutex_init\<close> ties the mutex to its release action: on success the mutex is live and
  its release action is registered, and running that action destroys it; a failure leaves the
  state as it was, so no mutex is live without the action that destroys it.
\<close>
theorem drmm_mutex_init_managed:
  assumes "drmm_mutex_init add_action dev (Some l) m = (res, m')" and "l \<notin> live_mutexes m"
  shows "if isl res then m' = m
         else live_mutexes m' = insert l (live_mutexes m) \<and>
              managed_actions m' = managed_actions m @ [l] \<and>
              live_mutexes (drmm_mutex_release l m') = live_mutexes m"
  using assms
  by (auto simp: drmm_mutex_init_def linux_mutex_init_def linux_mutex_destroy_def
      drmm_mutex_release_def Let_def split: option.splits sum.splits)

lemma members_match_all: "members_match fs context \<longleftrightarrow> list_all (\<lambda>f. fence_context f = context) fs"
  by (induction fs) auto

text \<open>
  A fence matches a context exactly when it, or each member of the array it stands for,
  belongs to that context: one member of another context makes the test fail.
\<close>
theorem dma_fence_match_context_all:
  "dma_fence_match_context fence context \<longleftrightarrow>
     (\<exists>f. fence = Some f \<and>
        list_all (\<lambda>g. fence_context g = context) (case f of Fence c \<Rightarrow> [f] | Fence_array c fs \<Rightarrow> fs))"
  by (auto simp: dma_fence_match_context_def members_match_all split: option.split dma_fence.split)

text \<open>
  \<open>platform_get_resource_byname\<close> finds the register bank whose name it is given: with
  reg-names holding \<open>names\<close>, the answer is the bank at the index of the name, its end is its
  start plus its length less one, and there is no answer for an unknown name or when the bus
  has no such bank.
\<close>
theorem platform_get_resource_byname_bank:
  assumes "dev_of_node reg (Some (dev_addr (pdev_dev p))) = Some dn" and "dn_node dn \<noteq> 0"
    and "OF_getprop ofw (dn_node dn) ''reg-names'' = Some (string_list names)"
    and "list_all nul_free names" and "bsddev (pdev_dev p) = Some b"
  shows "platform_get_resource_byname ofw reg beyond get_res (Some p) True (Some nm) =
     (case first_index nm names of None \<Rightarrow> None
      | Some i \<Rightarrow> map_option (\<lambda>(start, len). \<lparr>res_start = start, res_end = start + len - 1, res_name = nm\<rparr>)
                   (get_res b (int i)))"
proof -
  obtain a n where dn: "dn = \<lparr>dn_addr = a, dn_node = n\<rparr>" by (cases dn) auto
  have "of_property_match_string ofw beyond (Some dn) (Some ''reg-names'') (Some nm) =
      (case first_index nm names of None \<Rightarrow> Inl ENODATA | Some i \<Rightarrow> Inr i)"
    using match_string_loop_list [OF assms(4), of "[]" beyond nm 0] assms(2,3)
    by (simp add: dn of_property_match_string_def option.map_ident split: option.split)
  then show ?thesis using assms(1,5)
    by (auto simp: platform_get_resource_byname_def lkpi_of_reg_by_index_def split: option.split)
qed

subsection \<open>Concrete instances\<close>

theorem drmm_mutex_init_managed_witness:
  "drmm_mutex_init (Inl ENOMEM) (Some 1) (Some 2) \<lparr>live_mutexes = {5}, managed_actions = []\<rparr> =
     (Inl ENOMEM, \<lparr>live_mutexes = {5}, managed_actions = []\<rparr>)"
  using drmm_mutex_init_managed
    [of "Inl ENOMEM" "Some 1" 2 "\<lparr>live_mutexes = {5}, managed_actions = []\<rparr>"
        "fst (drmm_mutex_init (Inl ENOMEM) (Some 1) (Some 2) \<lparr>live_mutexes = {5}, managed_actions = []\<rparr>)"
        "snd (drmm_mutex_init (Inl ENOMEM) (Some 1) (Some 2) \<lparr>live_mutexes = {5}, managed_actions = []\<rparr>)"]
  by (simp add: drmm_mutex_init_def)

theorem platform_get_resource_byname_bank_witness:
  "platform_get_resource_byname demo_ofw demo_of_registry [] (\<lambda>b i. if i = 1 then Some (0x7c580000, 0x1a000) else None)
     (Some demo_hvs) True (Some ''ch1-eof'') =
   Some \<lparr>res_start = 0x7c580000, res_end = 0x7c599fff, res_name = ''ch1-eof''\<rparr>"
  using platform_get_resource_byname_bank
    [of demo_of_registry demo_hvs "\<lparr>dn_addr = 70, dn_node = 2\<rparr>" demo_ofw, OF _ _ _ demo_names_nul_free,
     where b = 211 and beyond = "[]" and nm = "''ch1-eof''"
       and get_res = "\<lambda>b i. if i = 1 then Some (0x7c580000, 0x1a000) else None"]
  by (simp add: demo_of_registry_def demo_ofw_def demo_hvs_def dev_of_node_def)

end
