(* ===== verification/Guest_Memory.thy ===== *)
theory Guest_Memory
  imports Kmod_Prelude
begin

text \<open>
  Memory that the guest shares with a device: bytes at 64-bit addresses, with the little-endian
  fields of packed C structures. The VirtualBox adapter reads and writes it while the guest
  waits, so both sides are functions on it. The facts are the usual ones of an array: a field
  that was stored is loaded again, and stores outside a region leave what is loaded from it.
\<close>

subsection \<open>Bytes\<close>

type_synonym memory = "u64 \<Rightarrow> u8"

definition store_bytes :: "u64 \<Rightarrow> u8 list \<Rightarrow> memory \<Rightarrow> memory" where
  "store_bytes a bs m = (\<lambda>x. let i = unat (x - a) in if i < length bs then bs ! i else m x)"

definition load_bytes :: "memory \<Rightarrow> u64 \<Rightarrow> nat \<Rightarrow> u8 list" where
  "load_bytes m a n = map (\<lambda>i. m (a + of_nat i)) [0..<n]"

text \<open>The \<open>n\<close> addresses from \<open>a\<close> on, with wrap-around.\<close>
definition addrs :: "u64 \<Rightarrow> nat \<Rightarrow> u64 set" where
  "addrs a n = {x. unat (x - a) < n}"

lemma length_load_bytes [simp]: "length (load_bytes m a n) = n"
  by (simp add: load_bytes_def)

lemma nth_load_bytes [simp]: "i < n \<Longrightarrow> load_bytes m a n ! i = m (a + of_nat i)"
  by (simp add: load_bytes_def)

lemma unat_offset: "i < 2 ^ 64 \<Longrightarrow> unat (a + of_nat i - a :: u64) = i"
  by (simp add: unat_of_nat take_bit_nat_eq_self)

lemma store_bytes_outside: "x \<notin> addrs a (length bs) \<Longrightarrow> store_bytes a bs m x = m x"
  by (simp add: store_bytes_def addrs_def Let_def)

lemma load_store_bytes:
  assumes "length bs \<le> 2 ^ 64"
  shows "load_bytes (store_bytes a bs m) a (length bs) = bs"
proof (rule nth_equalityI)
  fix i assume "i < length (load_bytes (store_bytes a bs m) a (length bs))"
  then have "i < length bs" "i < 2 ^ 64" using assms by simp_all
  then show "load_bytes (store_bytes a bs m) a (length bs) ! i = bs ! i"
    using unat_offset [of i a] by (simp add: store_bytes_def Let_def)
qed simp

lemma load_bytes_cong:
  assumes "\<And>x. x \<in> addrs a n \<Longrightarrow> m x = m' x" and "n \<le> 2 ^ 64"
  shows "load_bytes m a n = load_bytes m' a n"
proof (rule nth_equalityI)
  fix i assume "i < length (load_bytes m a n)"
  then have "i < n" "i < 2 ^ 64" using assms(2) by simp_all
  then have "a + of_nat i \<in> addrs a n" using unat_offset [of i a] by (simp add: addrs_def)
  then show "load_bytes m a n ! i = load_bytes m' a n ! i" using assms(1) \<open>i < n\<close> by simp
qed simp

lemma load_bytes_append:
  "load_bytes m a (n + k) = load_bytes m a n @ load_bytes m (a + of_nat n) k"
proof (rule nth_equalityI)
  fix i assume "i < length (load_bytes m a (n + k))"
  then show "load_bytes m a (n + k) ! i = (load_bytes m a n @ load_bytes m (a + of_nat n) k) ! i"
    by (cases "i < n") (simp_all add: nth_append add.assoc flip: of_nat_add)
qed simp

text \<open>Ranges at two offsets from one base do not meet when the offsets are far enough apart.\<close>
lemma addrs_offset_iff:
  assumes "i + n \<le> 2 ^ 64"
  shows "x \<in> addrs (a + of_nat i) n \<longleftrightarrow> i \<le> unat (x - a) \<and> unat (x - a) < i + n"
proof -
  let ?d = "x - a"
  have eq: "x - (a + of_nat i) = ?d - of_nat i" by simp
  show ?thesis
  proof (cases "n = 0")
    case True
    then show ?thesis by (simp add: addrs_def)
  next
    case False
    then have i: "i < 2 ^ 64" using assms by simp
    then have ui: "unat (of_nat i :: u64) = i" by (simp add: unat_of_nat take_bit_nat_eq_self)
    show ?thesis
    proof (cases "i \<le> unat ?d")
      case True
      then have "unat (?d - of_nat i) = unat ?d - i"
        using ui by (simp add: unat_sub word_le_nat_alt)
      then show ?thesis using True by (auto simp: addrs_def eq)
    next
      case False
      have "?d - of_nat i = of_nat (2 ^ 64 + unat ?d - i)"
        using i by (simp add: of_nat_diff)
      then have "unat (?d - of_nat i) = (2 ^ 64 + unat ?d - i) mod 2 ^ 64"
        by (simp only: unat_of_nat) (simp add: take_bit_eq_mod)
      also have "\<dots> = 2 ^ 64 + unat ?d - i" using False i by (intro mod_less) linarith
      finally show ?thesis using False assms by (simp add: addrs_def eq)
    qed
  qed
qed

lemma addrs_subset:
  assumes "i + n \<le> k" and "k \<le> 2 ^ 64"
  shows "addrs (a + of_nat i) n \<subseteq> addrs a k"
  using addrs_offset_iff [of i n _ a] assms by (auto simp: addrs_def)

lemma addrs_disjoint:
  assumes "i + n \<le> j \<or> j + k \<le> i" and "i + n \<le> 2 ^ 64" and "j + k \<le> 2 ^ 64"
  shows "addrs (a + of_nat i) n \<inter> addrs (a + of_nat j) k = {}"
  using addrs_offset_iff [OF assms(2), of _ a] addrs_offset_iff [OF assms(3), of _ a] assms(1) by auto

text \<open>The same addresses as numbers, when the range does not wrap.\<close>
lemma addrs_unat:
  assumes "unat a + n \<le> 2 ^ 64"
  shows "x \<in> addrs a n \<longleftrightarrow> unat x \<in> {unat a ..< unat a + n}"
  using addrs_offset_iff [of "unat a" n x 0] assms by simp

subsection \<open>Little-endian fields\<close>

definition le32 :: "u32 \<Rightarrow> u8 list" where
  "le32 w = [ucast w, ucast (drop_bit 8 w), ucast (drop_bit 16 w), ucast (drop_bit 24 w)]"

definition le16 :: "u16 \<Rightarrow> u8 list" where
  "le16 w = [ucast w, ucast (drop_bit 8 w)]"

fun of_le :: "u8 list \<Rightarrow> u64" where
  "of_le [] = 0"
| "of_le (b # bs) = ucast b OR push_bit 8 (of_le bs)"

definition rd32 :: "memory \<Rightarrow> u64 \<Rightarrow> u32" where
  "rd32 m a = ucast (of_le (load_bytes m a 4))"

definition rd16 :: "memory \<Rightarrow> u64 \<Rightarrow> u16" where
  "rd16 m a = ucast (of_le (load_bytes m a 2))"

definition wr32 :: "u64 \<Rightarrow> u32 \<Rightarrow> memory \<Rightarrow> memory" where
  "wr32 a w = store_bytes a (le32 w)"

lemma length_le [simp]: "length (le32 w) = 4" "length (le16 v) = 2"
  by (simp_all add: le32_def le16_def)

lemma of_le32: "ucast (of_le (le32 w)) = w"
proof (rule bit_word_eqI)
  fix n assume "n < LENGTH(32)"
  then show "bit (ucast (of_le (le32 w)) :: u32) n = bit w n"
    by (cases "n < 24"; cases "n < 16") (auto simp: le32_def bit_simps)
qed

lemma of_le16: "ucast (of_le (le16 w)) = w"
  by (rule bit_word_eqI) (auto simp: le16_def bit_simps)

lemma rd32_wr32: "rd32 (wr32 a w m) a = w"
  using load_store_bytes [of "le32 w" a m] by (simp add: rd32_def wr32_def of_le32)

lemma rd32_cong: "(\<And>x. x \<in> addrs a 4 \<Longrightarrow> m x = m' x) \<Longrightarrow> rd32 m a = rd32 m' a"
  unfolding rd32_def by (subst load_bytes_cong [of a 4 m m']) simp_all

lemma rd32_store_outside:
  "addrs b 4 \<inter> addrs a (length bs) = {} \<Longrightarrow> rd32 (store_bytes a bs m) b = rd32 m b"
  by (rule rd32_cong) (auto intro!: store_bytes_outside)

subsection \<open>Fields of a structure\<close>

text \<open>A sequence of stores at offsets from the address of a structure.\<close>
fun store_fields :: "u64 \<Rightarrow> (nat \<times> u8 list) list \<Rightarrow> memory \<Rightarrow> memory" where
  "store_fields a [] m = m"
| "store_fields a ((off, bs) # fs) m = store_fields a fs (store_bytes (a + of_nat off) bs m)"

definition fields_end :: "(nat \<times> u8 list) list \<Rightarrow> nat" where
  "fields_end fs = fold max (map (\<lambda>(off, bs). off + length bs) fs) 0"

lemma fields_end_simps [simp]:
  "fields_end [] = 0"
  "fields_end ((off, bs) # fs) = max (off + length bs) (fields_end fs)"
proof -
  have "fold max xs (max k n) = max (k :: nat) (fold max xs n)" for xs k n
    by (induction xs arbitrary: n) (simp, simp, metis max.left_commute)
  then show "fields_end ((off, bs) # fs) = max (off + length bs) (fields_end fs)"
    by (simp add: fields_end_def) (metis max_0R)
qed (simp add: fields_end_def)

lemma store_fields_outside:
  assumes "fields_end fs \<le> n" and "n \<le> 2 ^ 64" and "x \<notin> addrs a n"
  shows "store_fields a fs m x = m x"
  using assms(1)
proof (induction fs arbitrary: m)
  case (Cons f fs)
  obtain off bs where f: "f = (off, bs)" by fastforce
  have "off + length bs \<le> n" using Cons.prems f by simp
  then have "x \<notin> addrs (a + of_nat off) (length bs)" using addrs_subset assms(2,3) by blast
  then show ?case using Cons f by (simp add: store_bytes_outside)
qed simp

lemma load_store_fields_other:
  assumes "\<And>k bs. (k, bs) \<in> set fs \<Longrightarrow> k + length bs \<le> off \<or> off + n \<le> k"
    and "\<And>k bs. (k, bs) \<in> set fs \<Longrightarrow> k + length bs \<le> 2 ^ 64" and "off + n \<le> 2 ^ 64"
  shows "load_bytes (store_fields a fs m) (a + of_nat off) n = load_bytes m (a + of_nat off) n"
  using assms(1,2)
proof (induction fs arbitrary: m)
  case (Cons f fs)
  obtain o' bs where f: "f = (o', bs)" by fastforce
  have "addrs (a + of_nat o') (length bs) \<inter> addrs (a + of_nat off) n = {}"
    by (rule addrs_disjoint) (use Cons.prems f assms(3) in auto)
  then have "load_bytes (store_bytes (a + of_nat o') bs m) (a + of_nat off) n = load_bytes m (a + of_nat off) n"
    using assms(3) by (intro load_bytes_cong store_bytes_outside) auto
  then show ?case using Cons f by simp
qed simp

text \<open>Fields that do not overlap are all found again.\<close>
fun fields_apart :: "(nat \<times> u8 list) list \<Rightarrow> bool" where
  "fields_apart [] = True"
| "fields_apart ((off, bs) # fs) \<longleftrightarrow>
     (\<forall>(o', bs') \<in> set fs. o' + length bs' \<le> off \<or> off + length bs \<le> o') \<and> fields_apart fs"

lemma fields_end_ge: "(off, bs) \<in> set fs \<Longrightarrow> off + length bs \<le> fields_end fs"
  by (induction fs) auto

lemma load_store_fields:
  assumes "fields_apart fs" and "fields_end fs \<le> 2 ^ 64" and "(off, bs) \<in> set fs"
  shows "load_bytes (store_fields a fs m) (a + of_nat off) (length bs) = bs"
  using assms
proof (induction fs arbitrary: m)
  case (Cons f fs)
  obtain o' bs' where f: "f = (o', bs')" by fastforce
  have ends: "k + length b \<le> 2 ^ 64" if "(k, b) \<in> set (f # fs)" for k b
    using fields_end_ge [OF that] Cons.prems(2) by linarith
  show ?case
  proof (cases "(off, bs) \<in> set fs")
    case True
    then show ?thesis using Cons f by simp
  next
    case False
    then have here: "o' = off" "bs' = bs" using Cons.prems(3) f by auto
    have "load_bytes (store_fields a fs (store_bytes (a + of_nat off) bs m)) (a + of_nat off) (length bs) =
        load_bytes (store_bytes (a + of_nat off) bs m) (a + of_nat off) (length bs)"
      by (rule load_store_fields_other) (use Cons.prems(1) ends f here in auto)
    also have "\<dots> = bs" using ends [of off bs] f here by (intro load_store_bytes) simp
    finally show ?thesis using f here by simp
  qed
qed simp

end
