(* ===== verification/Genalloc_Bitmap.thy ===== *)
theory Genalloc_Bitmap
  imports Kmod_Prelude
begin

text \<open>
  The lock-less bitmap operations of the generic allocator (\<^verbatim>\<open>graphics/lib/genalloc.c\<close>). A
  bitmap is its array of 64-bit words; an access outside the array is the value None. Shown
  here, once for setting and clearing by a locale: an operation on a range inside the bitmap
  stays inside it, flips exactly the bits of the range when all of them had the old value, and
  otherwise reports how much it left undone, having flipped exactly the bits before that.
\<close>

type_synonym bitmap = "u64 list"

definition bit_at :: "bitmap \<Rightarrow> nat \<Rightarrow> bool" where
  "bit_at bm i \<longleftrightarrow> i div 64 < length bm \<and> bit (bm ! (i div 64)) (i mod 64)"

subsection \<open>Operations\<close>

text \<open>
  One word. With no other user of the word, \<open>try_cmpxchg\<close> succeeds on its first attempt: the
  result is the new word, or None for -EBUSY.
\<close>
definition set_bits_ll :: "u64 \<Rightarrow> u64 \<Rightarrow> u64 option" where
  "set_bits_ll val mask_to_set = (if val AND mask_to_set \<noteq> 0 then None else Some (val OR mask_to_set))"

definition clear_bits_ll :: "u64 \<Rightarrow> u64 \<Rightarrow> u64 option" where
  "clear_bits_ll val mask_to_clear =
     (if val AND mask_to_clear \<noteq> mask_to_clear then None else Some (val AND NOT mask_to_clear))"

definition BITMAP_FIRST_WORD_MASK :: "nat \<Rightarrow> u64" where
  "BITMAP_FIRST_WORD_MASK start = push_bit (start mod 64) (- 1)"

definition BITMAP_LAST_WORD_MASK :: "nat \<Rightarrow> u64" where
  "BITMAP_LAST_WORD_MASK nbits = drop_bit ((64 - nbits mod 64) mod 64) (- 1)"

text \<open>
  The loop that \<open>bitmap_set_ll\<close> and \<open>bitmap_clear_ll\<close> share, with the word operation as \<open>upd\<close>.
  \<open>p\<close> is the word index, and \<open>Suc b\<close> the number of bits to change in the word (\<open>bits_to_set\<close>),
  which is 64 from the second word on. The result is the number of bits left undone and the
  bitmap; None is an access outside the bitmap.
\<close>
function ll_loop ::
    "(u64 \<Rightarrow> u64 \<Rightarrow> u64 option) \<Rightarrow> nat \<Rightarrow> bitmap \<Rightarrow> nat \<Rightarrow> nat \<Rightarrow> nat \<Rightarrow> u64 \<Rightarrow> (nat \<times> bitmap) option" where
  "ll_loop upd sz bm p nr b msk =
     (if nr \<ge> Suc b then
        (if p \<ge> length bm then None
         else case upd (bm ! p) msk of
                None \<Rightarrow> Some (nr, bm)
              | Some w \<Rightarrow> ll_loop upd sz (bm[p := w]) (Suc p) (nr - Suc b) 63 (- 1))
      else if nr \<noteq> 0 then
        (if p \<ge> length bm then None
         else case upd (bm ! p) (msk AND BITMAP_LAST_WORD_MASK sz) of
                None \<Rightarrow> Some (nr, bm)
              | Some w \<Rightarrow> Some (0, bm[p := w]))
      else Some (0, bm))"
  by pat_completeness auto
termination by (relation "measure (\<lambda>(upd, sz, bm, p, nr, b, msk). nr)") auto

declare ll_loop.simps [simp del]

definition bitmap_set_ll :: "bitmap \<Rightarrow> nat \<Rightarrow> nat \<Rightarrow> (nat \<times> bitmap) option" where
  "bitmap_set_ll bm start nr =
     ll_loop set_bits_ll (start + nr) bm (start div 64) nr (63 - start mod 64) (BITMAP_FIRST_WORD_MASK start)"

definition bitmap_clear_ll :: "bitmap \<Rightarrow> nat \<Rightarrow> nat \<Rightarrow> (nat \<times> bitmap) option" where
  "bitmap_clear_ll bm start nr =
     ll_loop clear_bits_ll (start + nr) bm (start div 64) nr (63 - start mod 64) (BITMAP_FIRST_WORD_MASK start)"

subsection \<open>Masks\<close>

lemma bit_first_mask: "k < 64 \<Longrightarrow> bit (push_bit lo (- 1) :: u64) k \<longleftrightarrow> lo \<le> k"
  by (simp add: bit_push_bit_iff bit_not_iff bit_mask_iff not_less)

lemma bit_last_mask:
  assumes "k < 64" and "sz mod 64 \<noteq> 0"
  shows "bit (BITMAP_LAST_WORD_MASK sz) k \<longleftrightarrow> k < sz mod 64"
  using assms by (auto simp: BITMAP_LAST_WORD_MASK_def bit_drop_bit_eq bit_mask_iff)

subsection \<open>Range updates\<close>

text \<open>
  What an update of the bits \<open>{lo..<lo + n}\<close> from \<open>v\<close> to its negation does when it leaves \<open>r\<close> of
  them undone: exactly the bits before those are flipped, each of them had the value \<open>v\<close>, and
  there is a reason to stop if anything is left.
\<close>
definition range_updated :: "bool \<Rightarrow> nat \<Rightarrow> nat \<Rightarrow> nat \<Rightarrow> bitmap \<Rightarrow> bitmap \<Rightarrow> bool" where
  "range_updated v lo n r bm bm' \<longleftrightarrow>
     length bm' = length bm \<and> r \<le> n \<and>
     (\<forall>i. bit_at bm' i = (if lo \<le> i \<and> i < lo + (n - r) then \<not> v else bit_at bm i)) \<and>
     (\<forall>i. lo \<le> i \<and> i < lo + (n - r) \<longrightarrow> bit_at bm i = v) \<and>
     (r \<noteq> 0 \<longrightarrow> (\<exists>i. lo + (n - r) \<le> i \<and> i < lo + n \<and> bit_at bm i \<noteq> v))"

lemma range_in_word:
  "hi \<le> 64 \<Longrightarrow> 64 * p + lo \<le> i \<and> i < 64 * p + hi \<longleftrightarrow> i div 64 = p \<and> lo \<le> i mod 64 \<and> i mod 64 < hi"
  for i p lo hi :: nat
proof -
  assume hi: "hi \<le> 64"
  define q r where "q = i div 64" and "r = i mod 64"
  have i: "i = 64 * q + r" "r < 64" by (simp_all add: q_def r_def)
  have "64 * p + lo \<le> i \<and> i < 64 * p + hi \<longleftrightarrow> q = p \<and> lo \<le> r \<and> r < hi"
  proof (cases q p rule: linorder_cases)
    case less
    then have "Suc q \<le> p" by simp
    then have "i < 64 * p" using i by linarith
    then show ?thesis using less by simp
  next
    case equal
    then show ?thesis unfolding i(1) by simp
  next
    case greater
    then have "Suc p \<le> q" by simp
    then have "64 * p + hi \<le> i" using i hi by linarith
    then show ?thesis using greater by simp
  qed
  then show ?thesis by (simp only: q_def r_def)
qed

text \<open>
  What the loop relies on in the word operation: it changes the bits of the mask from \<open>v\<close> to
  its negation if all of them are \<open>v\<close>, and fails otherwise.
\<close>
locale range_update =
  fixes upd :: "u64 \<Rightarrow> u64 \<Rightarrow> u64 option" and v :: bool
  assumes upd_Some: "upd w m = Some w' \<Longrightarrow>
      (\<forall>k<64. bit m k \<longrightarrow> bit w k = v) \<and> (\<forall>k<64. bit w' k = (if bit m k then \<not> v else bit w k))"
    and upd_None: "upd w m = None \<Longrightarrow> \<exists>k<64. bit m k \<and> bit w k \<noteq> v"
begin

lemma word_update:
  assumes "p < length bm" and "upd (bm ! p) m = Some w" and "\<forall>k<64. bit m k \<longleftrightarrow> lo \<le> k \<and> k < hi"
    and "hi \<le> 64"
  shows "bit_at (bm[p := w]) i = (if 64 * p + lo \<le> i \<and> i < 64 * p + hi then \<not> v else bit_at bm i)"
    and "64 * p + lo \<le> i \<Longrightarrow> i < 64 * p + hi \<Longrightarrow> bit_at bm i = v"
proof -
  have k: "i mod 64 < 64" by simp
  note u = upd_Some [OF assms(2)] and r = range_in_word [OF assms(4), of p lo i]
  show "bit_at (bm[p := w]) i = (if 64 * p + lo \<le> i \<and> i < 64 * p + hi then \<not> v else bit_at bm i)"
    unfolding r using u assms(1,3) k by (cases "i div 64 = p") (simp_all add: bit_at_def)
  show "64 * p + lo \<le> i \<Longrightarrow> i < 64 * p + hi \<Longrightarrow> bit_at bm i = v"
    using r u assms(1,3) k by (simp add: bit_at_def)
qed

lemma word_no_update:
  assumes "p < length bm" and "upd (bm ! p) m = None" and "\<forall>k<64. bit m k \<longleftrightarrow> lo \<le> k \<and> k < hi"
    and "hi \<le> 64"
  shows "\<exists>i. 64 * p + lo \<le> i \<and> i < 64 * p + hi \<and> bit_at bm i \<noteq> v"
proof -
  from upd_None [OF assms(2)] obtain k where k: "k < 64" "bit m k" "bit (bm ! p) k \<noteq> v" by blast
  then have "bit_at bm (64 * p + k) \<noteq> v" using assms(1) by (simp add: bit_at_def)
  then show ?thesis using k assms(3) by (intro exI [of _ "64 * p + k"]) auto
qed

lemma updated_none: "\<exists>i. lo \<le> i \<and> i < lo + n \<and> bit_at bm i \<noteq> v \<Longrightarrow> range_updated v lo n n bm bm"
  by (auto simp: range_updated_def)

lemma updated_append:
  assumes "range_updated v lo n 0 bm bm1" and "range_updated v (lo + n) n' r bm1 bm2"
  shows "range_updated v lo (n + n') r bm bm2"
proof -
  note u1 = assms(1)[unfolded range_updated_def] and u2 = assms(2)[unfolded range_updated_def]
  have r: "r \<le> n'" using u2 by simp
  then have nr: "n + n' - r = n + (n' - r)" by simp
  have later: "bit_at bm1 i = bit_at bm i" if "lo + n \<le> i" for i
    using u1 that by simp
  have "bit_at bm2 i = (if lo \<le> i \<and> i < lo + (n + (n' - r)) then \<not> v else bit_at bm i)" for i
    using u1 u2 by (cases "i < lo + n") auto
  moreover have "bit_at bm i = v" if "lo \<le> i" "i < lo + (n + (n' - r))" for i
    using u1 u2 later [of i] that by (cases "i < lo + n") auto
  moreover have "\<exists>i. lo + (n + (n' - r)) \<le> i \<and> i < lo + (n + n') \<and> bit_at bm i \<noteq> v" if "r \<noteq> 0"
  proof -
    from u2 that obtain i where "lo + n + (n' - r) \<le> i" "i < lo + n + n'" "bit_at bm1 i \<noteq> v" by blast
    then show ?thesis using later [of i] by (intro exI [of _ i]) auto
  qed
  ultimately show ?thesis using u1 u2 r unfolding range_updated_def nr by simp
qed

lemma updated_word:
  assumes "p < length bm" and "upd (bm ! p) m = Some w" and "\<forall>k<64. bit m k \<longleftrightarrow> lo \<le> k \<and> k < hi"
    and "hi \<le> 64" and "lo \<le> hi"
  shows "range_updated v (64 * p + lo) (hi - lo) 0 bm (bm[p := w])"
  using word_update [OF assms(1-4)] assms(5) by (auto simp: range_updated_def)

lemma ll_loop_updated:
  assumes "off < 64" and "sz = 64 * p + off + nr" and "sz \<le> 64 * length bm"
  shows "\<exists>r bm'. ll_loop upd sz bm p nr (63 - off) (push_bit off (- 1)) = Some (r, bm') \<and>
           range_updated v (64 * p + off) nr r bm bm'"
  using assms
proof (induction nr arbitrary: bm p off rule: less_induct)
  case (less nr)
  have first: "\<forall>k<64. bit (push_bit off (- 1) :: u64) k \<longleftrightarrow> off \<le> k \<and> k < 64"
    using bit_first_mask by blast
  consider "nr = 0" | "nr \<ge> 64 - off" | "0 < nr" "nr < 64 - off" by linarith
  then show ?case
  proof cases
    case 1
    then show ?thesis by (subst ll_loop.simps) (auto simp: range_updated_def)
  next
    case 2
    then have p: "p < length bm" and nr: "nr = (64 - off) + (nr - (64 - off))" using less.prems by auto
    have test: "nr \<ge> Suc (63 - off)" "nr - Suc (63 - off) = nr - (64 - off)" using 2 less.prems(1) by auto
    show ?thesis
    proof (cases "upd (bm ! p) (push_bit off (- 1))")
      case None
      have "\<exists>i. 64 * p + off \<le> i \<and> i < 64 * p + off + nr \<and> bit_at bm i \<noteq> v"
        using word_no_update [OF p None first] 2 less.prems(1) by fastforce
      then show ?thesis using None p test updated_none by (subst ll_loop.simps) auto
    next
      case (Some w)
      have one: "range_updated v (64 * p + off) (64 - off) 0 bm (bm[p := w])"
        by (rule updated_word [OF p Some first]) (use less.prems in auto)
      have "\<exists>r bm'. ll_loop upd sz (bm[p := w]) (Suc p) (nr - (64 - off)) (63 - 0) (push_bit 0 (- 1)) =
          Some (r, bm') \<and> range_updated v (64 * Suc p + 0) (nr - (64 - off)) r (bm[p := w]) bm'"
        by (rule less.IH) (use less.prems 2 in auto)
      then obtain r bm' where rest:
        "ll_loop upd sz (bm[p := w]) (Suc p) (nr - (64 - off)) 63 (- 1) = Some (r, bm')"
        "range_updated v (64 * p + off + (64 - off)) (nr - (64 - off)) r (bm[p := w]) bm'"
        using less.prems(1) by (auto simp: algebra_simps)
      from updated_append [OF one rest(2)] nr have "range_updated v (64 * p + off) nr r bm bm'" by simp
      then show ?thesis using rest(1) Some p test by (subst ll_loop.simps) auto
    qed
  next
    case 3
    then have p: "p < length bm" using less.prems by auto
    have "(64 * p + (off + nr)) mod 64 = off + nr" using 3 by simp
    then have sz: "sz mod 64 = off + nr" using less.prems(2) by (simp add: add.assoc)
    let ?m = "push_bit off (- 1) AND BITMAP_LAST_WORD_MASK sz"
    have m: "\<forall>k<64. bit ?m k \<longleftrightarrow> off \<le> k \<and> k < off + nr"
      using bit_last_mask [of _ sz] first sz 3 by (auto simp: bit_and_iff)
    have test: "\<not> nr \<ge> Suc (63 - off)" using 3 by auto
    show ?thesis
    proof (cases "upd (bm ! p) ?m")
      case None
      have "\<exists>i. 64 * p + off \<le> i \<and> i < 64 * p + off + nr \<and> bit_at bm i \<noteq> v"
        using word_no_update [OF p None m] 3 by (simp add: algebra_simps)
      then show ?thesis using None p test 3 updated_none by (subst ll_loop.simps) auto
    next
      case (Some w)
      have "range_updated v (64 * p + off) (off + nr - off) 0 bm (bm[p := w])"
        by (rule updated_word [OF p Some m]) (use 3 in auto)
      then show ?thesis using Some p test 3 by (subst ll_loop.simps) auto
    qed
  qed
qed

end

interpretation set_ll: range_update set_bits_ll False
proof
  fix w m w' :: u64
  show "set_bits_ll w m = Some w' \<Longrightarrow>
      (\<forall>k<64. bit m k \<longrightarrow> bit w k = False) \<and> (\<forall>k<64. bit w' k = (if bit m k then \<not> False else bit w k))"
    by (auto simp: set_bits_ll_def bit_or_iff split: if_splits) (metis bit_0_eq bit_and_iff bot_apply bot_bool_def)
  show "set_bits_ll w m = None \<Longrightarrow> \<exists>k<64. bit m k \<and> bit w k \<noteq> False"
    by (auto simp: set_bits_ll_def bit_eq_iff bit_and_iff split: if_splits)
qed

interpretation clear_ll: range_update clear_bits_ll True
proof
  fix w m w' :: u64
  show "clear_bits_ll w m = Some w' \<Longrightarrow>
      (\<forall>k<64. bit m k \<longrightarrow> bit w k = True) \<and> (\<forall>k<64. bit w' k = (if bit m k then \<not> True else bit w k))"
    by (auto simp: clear_bits_ll_def bit_and_iff bit_not_iff split: if_splits) (metis bit_and_iff)
  show "clear_bits_ll w m = None \<Longrightarrow> \<exists>k<64. bit m k \<and> bit w k \<noteq> True"
    by (auto simp: clear_bits_ll_def bit_eq_iff bit_and_iff split: if_splits)
qed

subsection \<open>Properties\<close>

lemma bitmap_set_ll_updated:
  assumes "start + nr \<le> 64 * length bm"
  shows "\<exists>r bm'. bitmap_set_ll bm start nr = Some (r, bm') \<and> range_updated False start nr r bm bm'"
  using set_ll.ll_loop_updated [of "start mod 64" "start + nr" "start div 64" nr bm] assms
  by (simp add: bitmap_set_ll_def BITMAP_FIRST_WORD_MASK_def)

lemma bitmap_clear_ll_updated:
  assumes "start + nr \<le> 64 * length bm"
  shows "\<exists>r bm'. bitmap_clear_ll bm start nr = Some (r, bm') \<and> range_updated True start nr r bm bm'"
  using clear_ll.ll_loop_updated [of "start mod 64" "start + nr" "start div 64" nr bm] assms
  by (simp add: bitmap_clear_ll_def BITMAP_FIRST_WORD_MASK_def)

lemma bitmap_eqI:
  assumes "length bm = length bm'" and "\<And>i. bit_at bm i = bit_at bm' i"
  shows "bm = bm'"
proof (rule nth_equalityI [OF assms(1)])
  fix p assume p: "p < length bm"
  show "bm ! p = bm' ! p"
  proof (rule bit_word_eqI)
    fix k assume "k < LENGTH(64)"
    then show "bit (bm ! p) k = bit (bm' ! p) k"
      using assms(2) [of "64 * p + k"] p assms(1) by (simp add: bit_at_def)
  qed
qed

lemma range_updated_all:
  assumes "range_updated v lo n r bm bm'"
  shows "r = 0 \<longleftrightarrow> (\<forall>i. lo \<le> i \<and> i < lo + n \<longrightarrow> bit_at bm i = v)"
proof (cases "r = 0")
  case False
  then obtain i where "lo + (n - r) \<le> i" "i < lo + n" "bit_at bm i \<noteq> v"
    using assms by (auto simp: range_updated_def)
  then show ?thesis using False by (metis add_leD1)
qed (use assms in \<open>simp add: range_updated_def\<close>)

text \<open>
  \<open>bitmap_set_ll\<close> on a range inside the bitmap accesses no other word, succeeds exactly when
  every bit of the range is clear, and then sets exactly the range; when it fails, the bits it
  has set are the first \<open>nr - r\<close> of the range, all of them clear before.
\<close>
theorem bitmap_set_ll_sets_range:
  assumes "start + nr \<le> 64 * length bm"
  shows "\<exists>r bm'. bitmap_set_ll bm start nr = Some (r, bm') \<and> length bm' = length bm \<and> r \<le> nr \<and>
     (r = 0 \<longleftrightarrow> (\<forall>i. start \<le> i \<and> i < start + nr \<longrightarrow> \<not> bit_at bm i)) \<and>
     (\<forall>i. bit_at bm' i \<longleftrightarrow> bit_at bm i \<or> (start \<le> i \<and> i < start + (nr - r))) \<and>
     (\<forall>i. start \<le> i \<and> i < start + (nr - r) \<longrightarrow> \<not> bit_at bm i)"
proof -
  from bitmap_set_ll_updated [OF assms] obtain r bm' where
    s: "bitmap_set_ll bm start nr = Some (r, bm')" "range_updated False start nr r bm bm'" by blast
  have bits: "\<forall>i. bit_at bm' i \<longleftrightarrow> bit_at bm i \<or> (start \<le> i \<and> i < start + (nr - r))"
    using s(2) unfolding range_updated_def by auto
  have rest: "length bm' = length bm \<and> r \<le> nr \<and> (\<forall>i. start \<le> i \<and> i < start + (nr - r) \<longrightarrow> \<not> bit_at bm i)"
    using s(2) unfolding range_updated_def by simp
  have all: "r = 0 \<longleftrightarrow> (\<forall>i. start \<le> i \<and> i < start + nr \<longrightarrow> \<not> bit_at bm i)"
    using range_updated_all [OF s(2)] by simp
  show ?thesis using s(1) bits rest all by blast
qed

lemma clear_after_set:
  assumes "start + nr \<le> 64 * length bm" and s: "range_updated False start nr r bm bm1"
  shows "bitmap_clear_ll bm1 start (nr - r) = Some (0, bm)"
proof -
  have len: "length bm1 = length bm" using s by (simp add: range_updated_def)
  then have "start + (nr - r) \<le> 64 * length bm1" using assms(1) by simp
  then obtain r2 bm2 where c: "bitmap_clear_ll bm1 start (nr - r) = Some (r2, bm2)"
    "range_updated True start (nr - r) r2 bm1 bm2"
    using bitmap_clear_ll_updated by blast
  have r2: "r2 = 0" using range_updated_all [OF c(2)] s by (simp add: range_updated_def)
  have "bm2 = bm"
    by (rule bitmap_eqI) (use s c(2) r2 in \<open>simp_all add: range_updated_def\<close>)
  with c(1) r2 show ?thesis by simp
qed

text \<open>
  Setting and clearing are inverse, also after a conflict: when \<open>bitmap_set_ll\<close> stops with \<open>r\<close>
  bits left undone, clearing the other \<open>nr - r\<close> succeeds and restores the bitmap exactly. It is
  the rollback of the allocation path, whose assertion on the result can therefore not fail.
\<close>
theorem bitmap_set_clear_ll_roundtrip:
  assumes "start + nr \<le> 64 * length bm"
  shows "\<exists>r bm1. bitmap_set_ll bm start nr = Some (r, bm1) \<and> bitmap_clear_ll bm1 start (nr - r) = Some (0, bm)"
  using bitmap_set_ll_updated [OF assms] clear_after_set [OF assms] by blast

theorem bitmap_set_ll_sets_range_witness:
  "\<exists>r bm'. bitmap_set_ll [0, 0x10] 60 20 = Some (r, bm') \<and> length bm' = 2 \<and> r \<le> 20"
  using bitmap_set_ll_sets_range [of 60 20 "[0, 0x10]"] by auto

theorem bitmap_set_clear_ll_roundtrip_witness:
  "\<exists>r bm1. bitmap_set_ll [0, 0x10] 60 20 = Some (r, bm1) \<and> bitmap_clear_ll bm1 60 (20 - r) = Some (0, [0, 0x10])"
  by (rule bitmap_set_clear_ll_roundtrip) simp

end
