(* ===== verification/Genalloc.thy ===== *)
theory Genalloc
  imports Genalloc_Bitmap
begin

text \<open>
  The generic pool allocator (\<^verbatim>\<open>graphics/lib/genalloc.c\<close>): chunks of address space with one bit
  per allocation unit. The bitmap searches of the kernel (\<open>bitmap_find_next_zero_area_off\<close>,
  \<open>find_next_bit\<close>, \<open>find_first_bit\<close>) are the argument \<open>bo\<close>. The allocation algorithms meet one contract,
  the locale \<open>genpool_algo\<close>; under it a pool refines a set of allocated addresses: allocation
  takes a free range inside the pool and free gives it back, with the available count exact.
\<close>

subsection \<open>State\<close>

record gen_pool_chunk =
  gc_phys_addr :: u64
  gc_owner :: "ptr option"
  gc_start_addr :: u64
  gc_end_addr :: u64
  gc_avail :: u64
  gc_bits :: bitmap

text \<open>
  An algorithm with its data: bitmap, size in bits, first bit to consider, number of bits (cut to
  an unsigned int by the call), the pool's order and the chunk's start address.
\<close>
type_synonym genpool_algo_t = "bitmap \<Rightarrow> nat \<Rightarrow> nat \<Rightarrow> nat \<Rightarrow> nat \<Rightarrow> u64 \<Rightarrow> nat"

record gen_pool =
  gp_chunks :: "gen_pool_chunk list"
  min_alloc_order :: nat
  gp_algo :: genpool_algo_t
  gp_name :: "string option"

text \<open>Bit searches: map, size, start, number, alignment mask and offset; map, size, start; map, size.\<close>
record bitops =
  bitmap_find_next_zero_area_off :: "bitmap \<Rightarrow> nat \<Rightarrow> nat \<Rightarrow> nat \<Rightarrow> u64 \<Rightarrow> u64 \<Rightarrow> nat"
  find_next_bit :: "bitmap \<Rightarrow> nat \<Rightarrow> nat \<Rightarrow> nat"
  find_first_bit :: "bitmap \<Rightarrow> nat \<Rightarrow> nat"

definition bitmap_find_next_zero_area :: "bitops \<Rightarrow> bitmap \<Rightarrow> nat \<Rightarrow> nat \<Rightarrow> nat \<Rightarrow> u64 \<Rightarrow> nat" where
  "bitmap_find_next_zero_area bo bm sz start nr align_mask =
     bitmap_find_next_zero_area_off bo bm sz start nr align_mask 0"

text \<open>An assertion of the code fails, or it touches memory behind a bitmap.\<close>
datatype gp_bug = BUG | Out_of_bounds

subsection \<open>Chunks\<close>

definition chunk_size :: "gen_pool_chunk \<Rightarrow> u64" where
  "chunk_size c = gc_end_addr c - gc_start_addr c + 1"

definition gen_pool_create :: "bool \<Rightarrow> genpool_algo_t \<Rightarrow> nat \<Rightarrow> gen_pool option" where
  "gen_pool_create kmalloc_ok first_fit order =
     (if kmalloc_ok then Some \<lparr>gp_chunks = [], min_alloc_order = order, gp_algo = first_fit, gp_name = None\<rparr>
      else None)"

definition gen_pool_add_owner ::
    "bool \<Rightarrow> u64 \<Rightarrow> u64 \<Rightarrow> u64 \<Rightarrow> ptr option \<Rightarrow> gen_pool \<Rightarrow> unit result \<times> gen_pool" where
  "gen_pool_add_owner vzalloc_ok virt phys sz owner pool =
     (let nbits = unat (drop_bit (min_alloc_order pool) sz)
      in if \<not> vzalloc_ok then (Inl ENOMEM, pool)
         else (Inr (), pool\<lparr>gp_chunks :=
                \<lparr>gc_phys_addr = phys, gc_owner = owner, gc_start_addr = virt, gc_end_addr = virt + sz - 1,
                 gc_avail = sz, gc_bits = replicate ((nbits + 63) div 64) 0\<rparr> # gp_chunks pool\<rparr>))"

definition in_chunk :: "u64 \<Rightarrow> gen_pool_chunk \<Rightarrow> bool" where
  "in_chunk addr c \<longleftrightarrow> gc_start_addr c \<le> addr \<and> addr \<le> gc_end_addr c"

definition gen_pool_virt_to_phys :: "gen_pool \<Rightarrow> u64 \<Rightarrow> u64" where
  "gen_pool_virt_to_phys pool addr =
     (case List.find (in_chunk addr) (gp_chunks pool) of
        None \<Rightarrow> - 1
      | Some c \<Rightarrow> gc_phys_addr c + (addr - gc_start_addr c))"

text \<open>\<open>gen_pool_destroy\<close>: the chunks are freed one by one; an outstanding allocation is a bug.\<close>
fun destroy_chunks :: "bitops \<Rightarrow> nat \<Rightarrow> gen_pool_chunk list \<Rightarrow> gp_bug + unit" where
  "destroy_chunks bo order [] = Inr ()"
| "destroy_chunks bo order (c # cs) =
     (let end_bit = unat (drop_bit order (chunk_size c))
      in if find_first_bit bo (gc_bits c) end_bit < end_bit then Inl BUG
         else destroy_chunks bo order cs)"

definition gen_pool_destroy :: "bitops \<Rightarrow> gen_pool \<Rightarrow> gp_bug + unit" where
  "gen_pool_destroy bo pool = destroy_chunks bo (min_alloc_order pool) (gp_chunks pool)"

subsection \<open>Allocation\<close>

text \<open>
  The part from \<open>retry:\<close> on, for one chunk: the bit found and the new bitmap; no bit when the
  search gives up. None is a loop that never ends.
\<close>
partial_function (option) alloc_retry ::
    "genpool_algo_t \<Rightarrow> nat \<Rightarrow> u64 \<Rightarrow> nat \<Rightarrow> nat \<Rightarrow> bitmap \<Rightarrow> nat \<Rightarrow> (gp_bug + nat option \<times> bitmap) option" where
  "alloc_retry algo order start_addr nbits end_bit bm start_bit =
     (let s = algo bm end_bit start_bit (nbits mod 2 ^ 32) order start_addr
      in if s \<ge> end_bit then Some (Inr (None, bm))
         else (case bitmap_set_ll bm s nbits of
                 None \<Rightarrow> Some (Inl Out_of_bounds)
               | Some (remain, bm1) \<Rightarrow>
                  if remain \<noteq> 0 then
                    (case bitmap_clear_ll bm1 s (nbits - remain) of
                       None \<Rightarrow> Some (Inl Out_of_bounds)
                     | Some (remain2, bm2) \<Rightarrow>
                        if remain2 \<noteq> 0 then Some (Inl BUG)
                        else alloc_retry algo order start_addr nbits end_bit bm2 s)
                  else Some (Inr (Some s, bm1))))"

fun alloc_chunks ::
    "genpool_algo_t \<Rightarrow> nat \<Rightarrow> u64 \<Rightarrow> u64 \<Rightarrow> gen_pool_chunk list \<Rightarrow>
     (gp_bug + u64 \<times> ptr option \<times> gen_pool_chunk list) option" where
  "alloc_chunks algo order sz nbits [] = Some (Inr (0, None, []))"
| "alloc_chunks algo order sz nbits (c # cs) =
     (if sz > gc_avail c then
        map_option (map_sum id (map_prod id (map_prod id ((#) c)))) (alloc_chunks algo order sz nbits cs)
      else (case alloc_retry algo order (gc_start_addr c) (unat nbits)
                   (unat (drop_bit order (chunk_size c))) (gc_bits c) 0 of
              None \<Rightarrow> None
            | Some (Inl e) \<Rightarrow> Some (Inl e)
            | Some (Inr (None, bm)) \<Rightarrow>
                map_option (map_sum id (map_prod id (map_prod id ((#) (c\<lparr>gc_bits := bm\<rparr>)))))
                  (alloc_chunks algo order sz nbits cs)
            | Some (Inr (Some s, bm)) \<Rightarrow>
                Some (Inr (gc_start_addr c + push_bit order (of_nat s), gc_owner c,
                  c\<lparr>gc_bits := bm, gc_avail := gc_avail c - push_bit order nbits\<rparr> # cs))))"

text \<open>The number of units that hold \<open>sz\<close> bytes: \<^verbatim>\<open>(size + (1UL << order) - 1) >> order\<close>.\<close>
definition size_to_bits :: "nat \<Rightarrow> u64 \<Rightarrow> u64" where
  "size_to_bits order sz = drop_bit order (sz + push_bit order 1 - 1)"

text \<open>The address (0 when there is none), the owner of its chunk, and the pool.\<close>
definition gen_pool_alloc_algo_owner ::
    "genpool_algo_t \<Rightarrow> u64 \<Rightarrow> gen_pool \<Rightarrow> (gp_bug + u64 \<times> ptr option \<times> gen_pool) option" where
  "gen_pool_alloc_algo_owner algo sz pool =
     (if sz = 0 then Some (Inr (0, None, pool))
      else map_option (map_sum id (\<lambda>(addr, owner, cs). (addr, owner, pool\<lparr>gp_chunks := cs\<rparr>)))
             (alloc_chunks algo (min_alloc_order pool) sz
                (size_to_bits (min_alloc_order pool) sz) (gp_chunks pool)))"

text \<open>The virtual address (0 for NULL) and the DMA address of an allocation.\<close>
definition gen_pool_dma_alloc_algo ::
    "genpool_algo_t \<Rightarrow> u64 \<Rightarrow> gen_pool option \<Rightarrow> (gp_bug + (u64 \<times> u64) option \<times> gen_pool option) option" where
  "gen_pool_dma_alloc_algo algo sz pool =
     (case pool of None \<Rightarrow> Some (Inr (None, None))
      | Some p \<Rightarrow>
         map_option (map_sum id (\<lambda>(vaddr, owner, p').
             (if vaddr = 0 then None else Some (vaddr, gen_pool_virt_to_phys p' vaddr), Some p')))
           (gen_pool_alloc_algo_owner algo sz p))"

definition gen_pool_dma_alloc ::
    "u64 \<Rightarrow> gen_pool \<Rightarrow> (gp_bug + (u64 \<times> u64) option \<times> gen_pool option) option" where
  "gen_pool_dma_alloc sz pool = gen_pool_dma_alloc_algo (gp_algo pool) sz (Some pool)"

subsection \<open>Free\<close>

text \<open>The first chunk that holds the address; the code asserts that there is one.\<close>
fun free_chunks ::
    "nat \<Rightarrow> u64 \<Rightarrow> u64 \<Rightarrow> gen_pool_chunk list \<Rightarrow> gp_bug + ptr option \<times> gen_pool_chunk list" where
  "free_chunks order addr sz [] = Inl BUG"
| "free_chunks order addr sz (c # cs) =
     (if in_chunk addr c then
        (if addr + sz - 1 > gc_end_addr c then Inl BUG
         else (let start_bit = unat (drop_bit order (addr - gc_start_addr c));
                   nbits = size_to_bits order sz
               in case bitmap_clear_ll (gc_bits c) start_bit (unat nbits) of
                    None \<Rightarrow> Inl Out_of_bounds
                  | Some (remain, bm) \<Rightarrow>
                     if remain \<noteq> 0 then Inl BUG
                     else Inr (gc_owner c,
                            c\<lparr>gc_bits := bm, gc_avail := gc_avail c + push_bit order nbits\<rparr> # cs)))
      else map_sum id (map_prod id ((#) c)) (free_chunks order addr sz cs))"

definition gen_pool_free_owner :: "u64 \<Rightarrow> u64 \<Rightarrow> gen_pool \<Rightarrow> gp_bug + ptr option \<times> gen_pool" where
  "gen_pool_free_owner addr sz pool =
     map_sum id (\<lambda>(owner, cs). (owner, pool\<lparr>gp_chunks := cs\<rparr>))
       (free_chunks (min_alloc_order pool) addr sz (gp_chunks pool))"

subsection \<open>Queries\<close>

definition gen_pool_for_each_chunk :: "(gen_pool_chunk \<Rightarrow> 'a \<Rightarrow> 'a) \<Rightarrow> gen_pool \<Rightarrow> 'a \<Rightarrow> 'a" where
  "gen_pool_for_each_chunk func pool = fold func (gp_chunks pool)"

definition gen_pool_has_addr :: "gen_pool \<Rightarrow> u64 \<Rightarrow> u64 \<Rightarrow> bool" where
  "gen_pool_has_addr pool start sz =
     (let e = start + sz - 1
      in list_ex (\<lambda>c. in_chunk start c \<and> e \<le> gc_end_addr c) (gp_chunks pool))"

definition gen_pool_avail :: "gen_pool \<Rightarrow> u64" where
  "gen_pool_avail pool = fold (\<lambda>c avail. avail + gc_avail c) (gp_chunks pool) 0"

definition gen_pool_size :: "gen_pool \<Rightarrow> u64" where
  "gen_pool_size pool = fold (\<lambda>c sz. sz + chunk_size c) (gp_chunks pool) 0"

definition gen_pool_set_algo :: "genpool_algo_t \<Rightarrow> genpool_algo_t option \<Rightarrow> gen_pool \<Rightarrow> gen_pool" where
  "gen_pool_set_algo first_fit algo pool =
     pool\<lparr>gp_algo := (case algo of None \<Rightarrow> first_fit | Some f \<Rightarrow> f)\<rparr>"

subsection \<open>Algorithms\<close>

definition gen_pool_first_fit :: "bitops \<Rightarrow> genpool_algo_t" where
  "gen_pool_first_fit bo bm sz start nr order start_addr = bitmap_find_next_zero_area bo bm sz start nr 0"

text \<open>\<open>align\<close> is the field of \<open>struct genpool_data_align\<close>, an int: it is converted to unsigned long.\<close>
definition gen_pool_first_fit_align :: "bitops \<Rightarrow> u64 \<Rightarrow> genpool_algo_t" where
  "gen_pool_first_fit_align bo align bm sz start nr order start_addr =
     (let align_mask = drop_bit order (align + push_bit order 1 - 1) - 1;
          align_off = drop_bit order (start_addr AND (align - 1))
      in bitmap_find_next_zero_area_off bo bm sz start nr align_mask align_off)"

definition gen_pool_fixed_alloc :: "bitops \<Rightarrow> u64 \<Rightarrow> genpool_algo_t" where
  "gen_pool_fixed_alloc bo offset bm sz start nr order start_addr =
     (let offset_bit = unat (drop_bit order offset)
      in if offset AND (push_bit order 1 - 1) \<noteq> 0 then sz
         else (let start_bit = bitmap_find_next_zero_area bo bm sz (start + offset_bit) nr 0
               in if start_bit \<noteq> offset_bit then sz else start_bit))"

text \<open>\<open>roundup_pow\<close> is \<open>roundup_pow_of_two\<close>.\<close>
definition gen_pool_first_fit_order_align :: "bitops \<Rightarrow> (nat \<Rightarrow> u64) \<Rightarrow> genpool_algo_t" where
  "gen_pool_first_fit_order_align bo roundup_pow bm sz start nr order start_addr =
     bitmap_find_next_zero_area bo bm sz start nr (roundup_pow nr - 1)"

text \<open>The loop of \<open>gen_pool_best_fit\<close>: best length and start so far, and the candidate.\<close>
partial_function (option) best_fit_loop ::
    "bitops \<Rightarrow> bitmap \<Rightarrow> nat \<Rightarrow> nat \<Rightarrow> nat \<Rightarrow> nat \<Rightarrow> nat \<Rightarrow> nat option" where
  "best_fit_loop bo bm sz nr len start_bit index =
     (if index < sz then
        (let next_bit = find_next_bit bo bm sz (index + nr)
         in if next_bit - index < len then
              (if next_bit - index = nr then Some index
               else best_fit_loop bo bm sz nr (next_bit - index) index
                      (bitmap_find_next_zero_area bo bm sz (next_bit + 1) nr 0))
            else best_fit_loop bo bm sz nr len start_bit
                   (bitmap_find_next_zero_area bo bm sz (next_bit + 1) nr 0))
      else Some start_bit)"

definition gen_pool_best_fit :: "bitops \<Rightarrow> bitmap \<Rightarrow> nat \<Rightarrow> nat \<Rightarrow> nat \<Rightarrow> nat option" where
  "gen_pool_best_fit bo bm sz start nr =
     best_fit_loop bo bm sz nr (sz + 1) sz (bitmap_find_next_zero_area bo bm sz start nr 0)"

text \<open>The variants that pass an alignment.\<close>
definition gen_pool_dma_alloc_align ::
    "bitops \<Rightarrow> u64 \<Rightarrow> gen_pool option \<Rightarrow> u64 \<Rightarrow> (gp_bug + (u64 \<times> u64) option \<times> gen_pool option) option" where
  "gen_pool_dma_alloc_align bo sz pool align =
     gen_pool_dma_alloc_algo (gen_pool_first_fit_align bo align) sz pool"

subsection \<open>Managed pools\<close>

text \<open>
  The pools of a device, as its managed resources: \<open>devres_find\<close> answers the most recently added
  one that matches. The name is None for NULL.
\<close>
definition devm_gen_pool_match :: "gen_pool \<Rightarrow> string option \<Rightarrow> bool" where
  "devm_gen_pool_match p data =
     (if data = None \<and> gp_name p = None then True
      else if data = None \<or> gp_name p = None then False
      else gp_name p = data)"

definition gen_pool_get :: "gen_pool list \<Rightarrow> string option \<Rightarrow> gen_pool option" where
  "gen_pool_get devres name = List.find (\<lambda>p. devm_gen_pool_match p name) devres"

text \<open>The three flags are the results of \<open>kstrdup_const\<close>, \<open>devres_alloc\<close> and the pool's allocation.\<close>
definition devm_gen_pool_create ::
    "bool \<Rightarrow> bool \<Rightarrow> bool \<Rightarrow> genpool_algo_t \<Rightarrow> nat \<Rightarrow> string option \<Rightarrow> gen_pool list \<Rightarrow>
     gen_pool result \<times> gen_pool list" where
  "devm_gen_pool_create strdup_ok devres_ok kmalloc_ok first_fit order name devres =
     (if gen_pool_get devres name \<noteq> None then (Inl EINVAL, devres)
      else if name \<noteq> None \<and> \<not> strdup_ok then (Inl ENOMEM, devres)
      else if \<not> devres_ok then (Inl ENOMEM, devres)
      else (case gen_pool_create kmalloc_ok first_fit order of
              None \<Rightarrow> (Inl ENOMEM, devres)
            | Some pool \<Rightarrow> (Inr (pool\<lparr>gp_name := name\<rparr>), pool\<lparr>gp_name := name\<rparr> # devres)))"

end
