(* ===== verification/Genalloc_Laws.thy ===== *)
theory Genalloc_Laws
  imports Genalloc
begin

text \<open>
  Properties of the pool allocator. The contract of an allocation algorithm is the locale
  \<open>genpool_algo\<close>; what the code relies on in the kernel's bitmap searches is the locale
  \<open>bitmap_search\<close>, under which each algorithm of the file meets that contract. A pool is
  abstracted to the addresses it manages and the addresses allocated.
\<close>

subsection \<open>The contract of an algorithm\<close>

text \<open>Every bit of the range is clear.\<close>
definition range_free :: "bitmap \<Rightarrow> nat \<Rightarrow> nat \<Rightarrow> bool" where
  "range_free bm i n \<longleftrightarrow> (\<forall>k. i \<le> k \<and> k < i + n \<longrightarrow> \<not> bit_at bm k)"

text \<open>
  What the allocator relies on in its algorithm: an answer below the size is the start of a
  free range that ends inside the bitmap.
\<close>
locale genpool_algo =
  fixes algo :: genpool_algo_t
  assumes algo_fits: "algo bm sz start nr order sa < sz \<Longrightarrow> algo bm sz start nr order sa + nr \<le> sz"
    and algo_free: "algo bm sz start nr order sa < sz \<Longrightarrow> range_free bm (algo bm sz start nr order sa) nr"
begin

text \<open>Then the first attempt succeeds: the retry path is never taken without a concurrent user.\<close>
lemma alloc_retry_first:
  assumes "sz \<le> 64 * length bm" and "nr < 2 ^ 32" and s_def: "s = algo bm sz start nr order sa"
  shows "if s \<ge> sz then alloc_retry algo order sa nr sz bm start = Some (Inr (None, bm))
         else \<exists>bm'. alloc_retry algo order sa nr sz bm start = Some (Inr (Some s, bm')) \<and>
                s + nr \<le> sz \<and> range_updated False s nr 0 bm bm'"
proof (cases "s \<ge> sz")
  case True
  then show ?thesis using assms(2,3) by (subst alloc_retry.simps) simp
next
  case False
  then have fits: "s + nr \<le> sz" and free: "range_free bm s nr"
    using algo_fits algo_free by (auto simp: s_def)
  then obtain r bm' where set: "bitmap_set_ll bm s nr = Some (r, bm')" "range_updated False s nr r bm bm'"
    using bitmap_set_ll_updated [of s nr bm] assms(1) by auto
  moreover have "r = 0" using range_updated_all [OF set(2)] free by (simp add: range_free_def)
  ultimately show ?thesis using False fits assms(2,3) by (subst alloc_retry.simps) auto
qed

end

text \<open>What the code relies on in the kernel's bitmap searches.\<close>
definition zero_area_at :: "bitmap \<Rightarrow> nat \<Rightarrow> nat \<Rightarrow> nat \<Rightarrow> u64 \<Rightarrow> u64 \<Rightarrow> nat \<Rightarrow> bool" where
  "zero_area_at bm sz start nr msk off i \<longleftrightarrow>
     start \<le> i \<and> i + nr \<le> sz \<and> range_free bm i nr \<and> (of_nat i + off) AND msk = 0"

locale bitmap_search =
  fixes bo :: bitops
  assumes zero_area_found:
      "bitmap_find_next_zero_area_off bo bm sz start nr msk off < sz \<Longrightarrow>
       zero_area_at bm sz start nr msk off (bitmap_find_next_zero_area_off bo bm sz start nr msk off)"
    and zero_area_first:
      "zero_area_at bm sz start nr msk off i \<Longrightarrow> bitmap_find_next_zero_area_off bo bm sz start nr msk off \<le> i"
    and next_bit_range: "start \<le> sz \<Longrightarrow> start \<le> find_next_bit bo bm sz start \<and> find_next_bit bo bm sz start \<le> sz"
    and next_bit_set: "find_next_bit bo bm sz start < sz \<Longrightarrow> bit_at bm (find_next_bit bo bm sz start)"
    and next_bit_clear: "start \<le> k \<Longrightarrow> k < find_next_bit bo bm sz start \<Longrightarrow> k < sz \<Longrightarrow> \<not> bit_at bm k"
    and first_bit: "find_first_bit bo bm sz < sz \<longleftrightarrow> (\<exists>k < sz. bit_at bm k)"
begin

lemma zero_area_fits:
  "bitmap_find_next_zero_area_off bo bm sz start nr msk off < sz \<Longrightarrow>
   bitmap_find_next_zero_area_off bo bm sz start nr msk off + nr \<le> sz \<and>
   range_free bm (bitmap_find_next_zero_area_off bo bm sz start nr msk off) nr"
  using zero_area_found by (simp add: zero_area_at_def)

lemma first_fit_algo: "genpool_algo (gen_pool_first_fit bo)"
  by unfold_locales (simp_all add: gen_pool_first_fit_def bitmap_find_next_zero_area_def zero_area_fits)

lemma first_fit_align_algo: "genpool_algo (gen_pool_first_fit_align bo align)"
  by unfold_locales (simp_all add: gen_pool_first_fit_align_def Let_def zero_area_fits)

lemma fixed_alloc_algo: "genpool_algo (gen_pool_fixed_alloc bo offset)"
proof
  fix bm sz start nr order and sa :: u64
  assume "gen_pool_fixed_alloc bo offset bm sz start nr order sa < sz"
  then have "gen_pool_fixed_alloc bo offset bm sz start nr order sa =
      bitmap_find_next_zero_area_off bo bm sz (start + unat (drop_bit order offset)) nr 0 0 \<and>
      bitmap_find_next_zero_area_off bo bm sz (start + unat (drop_bit order offset)) nr 0 0 < sz"
    by (auto simp: gen_pool_fixed_alloc_def bitmap_find_next_zero_area_def Let_def split: if_splits)
  then show "gen_pool_fixed_alloc bo offset bm sz start nr order sa + nr \<le> sz"
    "range_free bm (gen_pool_fixed_alloc bo offset bm sz start nr order sa) nr"
    using zero_area_fits by (auto simp del: One_nat_def)
qed

lemma first_fit_order_align_algo: "genpool_algo (gen_pool_first_fit_order_align bo roundup_pow)"
  by unfold_locales
     (simp_all add: gen_pool_first_fit_order_align_def bitmap_find_next_zero_area_def zero_area_fits)

end

sublocale bitmap_search \<subseteq> first_fit: genpool_algo "gen_pool_first_fit bo"
  by (rule first_fit_algo)

subsection \<open>The invariant of a chunk\<close>

definition chunk_range :: "gen_pool_chunk \<Rightarrow> nat set" where
  "chunk_range c = {unat (gc_start_addr c) .. unat (gc_end_addr c)}"

definition chunk_bits :: "nat \<Rightarrow> gen_pool_chunk \<Rightarrow> nat" where
  "chunk_bits order c = unat (drop_bit order (chunk_size c))"

text \<open>
  The chunk does not start at address 0 (the allocator's failure value) and does not wrap; its
  bitmap has a bit for every whole unit and no bit beyond; the available count is the size
  less the units in use.
\<close>
definition chunk_wf :: "nat \<Rightarrow> gen_pool_chunk \<Rightarrow> bool" where
  "chunk_wf order c \<longleftrightarrow>
     order < 64 \<and> gc_start_addr c \<noteq> 0 \<and> gc_start_addr c \<le> gc_end_addr c \<and>
     length (gc_bits c) = (chunk_bits order c + 63) div 64 \<and>
     (\<forall>i. bit_at (gc_bits c) i \<longrightarrow> i < chunk_bits order c) \<and>
     unat (gc_avail c) + card {i. bit_at (gc_bits c) i} * 2 ^ order = unat (chunk_size c)"

text \<open>The addresses in use.\<close>
definition chunk_allocated :: "nat \<Rightarrow> gen_pool_chunk \<Rightarrow> nat set" where
  "chunk_allocated order c =
     {a. unat (gc_start_addr c) \<le> a \<and> bit_at (gc_bits c) ((a - unat (gc_start_addr c)) div 2 ^ order)}"

lemma chunk_size_nat:
  assumes "gc_start_addr c \<noteq> 0" and "gc_start_addr c \<le> gc_end_addr c"
  shows "unat (chunk_size c) = unat (gc_end_addr c) - unat (gc_start_addr c) + 1"
proof -
  have e: "unat (gc_end_addr c) < 2 ^ 64" using unsigned_less [of "gc_end_addr c", where ?'a = nat] by simp
  have s: "0 < unat (gc_start_addr c)" using assms(1) by (simp add: unat_gt_0)
  have "chunk_size c = of_nat (unat (gc_end_addr c) - unat (gc_start_addr c) + 1)"
    using assms(2) by (simp add: chunk_size_def of_nat_diff word_le_nat_alt)
  then have "unat (chunk_size c) = (unat (gc_end_addr c) - unat (gc_start_addr c) + 1) mod 2 ^ 64"
    by (simp only: unat_of_nat) simp
  then show ?thesis using e s by simp
qed

lemma unat_push_bit_of_nat:
  assumes "s * 2 ^ order < 2 ^ 64"
  shows "unat (push_bit order (of_nat s :: u64)) = s * 2 ^ order"
proof -
  have "push_bit order (of_nat s :: u64) = of_nat (s * 2 ^ order)" by (simp add: push_bit_eq_mult)
  then have "unat (push_bit order (of_nat s :: u64)) = s * 2 ^ order mod 2 ^ 64"
    by (simp only: unat_of_nat) simp
  then show ?thesis using assms by simp
qed

lemma chunk_bits_bound: "chunk_bits order c * 2 ^ order \<le> unat (chunk_size c)"
proof -
  have "chunk_bits order c = unat (chunk_size c) div 2 ^ order"
    unfolding chunk_bits_def unat_drop_bit_eq by (simp add: drop_bit_eq_div)
  then show ?thesis by simp
qed

lemma finite_bits: "finite {i. bit_at bm i}"
proof (rule finite_subset)
  show "{i. bit_at bm i} \<subseteq> {..< 64 * length bm}"
    by (auto simp: bit_at_def)
qed simp

lemma card_set:
  assumes "range_updated False s n 0 bm bm'"
  shows "card {i. bit_at bm' i} = card {i. bit_at bm i} + n"
proof -
  have "{i. bit_at bm' i} = {i. bit_at bm i} \<union> {s..<s + n}"
    using assms by (auto simp: range_updated_def split: if_splits)
  moreover have "{i. bit_at bm i} \<inter> {s..<s + n} = {}"
    using assms by (auto simp: range_updated_def)
  ultimately show ?thesis using finite_bits [of bm] by (simp add: card_Un_disjoint)
qed

lemma card_clear:
  assumes "range_updated True s n 0 bm bm'"
  shows "card {i. bit_at bm i} = card {i. bit_at bm' i} + n"
proof -
  have "{i. bit_at bm i} = {i. bit_at bm' i} \<union> {s..<s + n}"
    using assms by (auto simp: range_updated_def)
  moreover have "{i. bit_at bm' i} \<inter> {s..<s + n} = {}"
    using assms by (auto simp: range_updated_def)
  ultimately show ?thesis using finite_bits [of bm'] by (simp add: card_Un_disjoint)
qed

text \<open>The addresses of a range of units.\<close>
lemma unit_addresses:
  "{a. b \<le> a \<and> s \<le> (a - b) div 2 ^ order \<and> (a - b) div 2 ^ order < s + n} =
   {b + s * 2 ^ order ..< b + s * 2 ^ order + n * 2 ^ order}"
  for b s n order :: nat
proof -
  have units: "s \<le> d div 2 ^ order \<and> d div 2 ^ order < s + n \<longleftrightarrow> s * 2 ^ order \<le> d \<and> d < s * 2 ^ order + n * 2 ^ order" for d :: nat
    by (simp add: less_eq_div_iff_mult_less_eq div_less_iff_less_mult add_mult_distrib)
  have "b \<le> a \<and> s \<le> (a - b) div 2 ^ order \<and> (a - b) div 2 ^ order < s + n \<longleftrightarrow>
      b + s * 2 ^ order \<le> a \<and> a < b + s * 2 ^ order + n * 2 ^ order" for a
  proof (cases "b \<le> a")
    case True
    then obtain d where "a = b + d" using le_Suc_ex by blast
    then show ?thesis using units [of d] by (simp add: add.assoc)
  next
    case False
    then have "\<not> b + s * 2 ^ order \<le> a" by linarith
    then show ?thesis using False by simp
  qed
  then show ?thesis by (simp add: set_eq_iff)
qed

lemma allocated_set:
  assumes "range_updated False s n 0 (gc_bits c) bm" and "gc_bits c' = bm" and "gc_start_addr c' = gc_start_addr c"
  shows "chunk_allocated order c' = chunk_allocated order c \<union>
      {unat (gc_start_addr c) + s * 2 ^ order ..< unat (gc_start_addr c) + s * 2 ^ order + n * 2 ^ order}"
    and "chunk_allocated order c \<inter>
      {unat (gc_start_addr c) + s * 2 ^ order ..< unat (gc_start_addr c) + s * 2 ^ order + n * 2 ^ order} = {}"
  using assms unfolding unit_addresses [symmetric]
  by (auto simp: chunk_allocated_def range_updated_def split: if_splits)

lemma allocated_clear:
  assumes "range_updated True s n 0 (gc_bits c) bm" and "gc_bits c' = bm" and "gc_start_addr c' = gc_start_addr c"
  shows "chunk_allocated order c' = chunk_allocated order c -
      {unat (gc_start_addr c) + s * 2 ^ order ..< unat (gc_start_addr c) + s * 2 ^ order + n * 2 ^ order}"
  using assms unfolding unit_addresses [symmetric]
  by (auto simp: chunk_allocated_def range_updated_def split: if_splits)

subsection \<open>One chunk\<close>

lemma card_bits_bound:
  assumes "\<forall>i. bit_at bm i \<longrightarrow> i < n"
  shows "card {i. bit_at bm i} \<le> n"
proof -
  have "{i. bit_at bm i} \<subseteq> {..<n}" using assms by auto
  from card_mono [OF _ this] show ?thesis by simp
qed

lemma chunk_size_lt: "unat (chunk_size c) < 2 ^ 64"
  using unsigned_less [of "chunk_size c", where ?'a = nat] by simp

lemma unat_push_bit:
  assumes "unat w * 2 ^ order < 2 ^ 64"
  shows "unat (push_bit order w :: u64) = unat w * 2 ^ order"
  using unat_push_bit_of_nat [OF assms] by simp

text \<open>Taking a free range of a chunk keeps its invariant, and the range lies inside the chunk.\<close>
lemma chunk_take:
  assumes wf: "chunk_wf order c" and upd: "range_updated False s (unat nbits) 0 (gc_bits c) bm"
    and fits: "s + unat nbits \<le> chunk_bits order c" and pos: "nbits \<noteq> 0"
  shows "chunk_wf order (c\<lparr>gc_bits := bm, gc_avail := gc_avail c - push_bit order nbits\<rparr>)"
    and "unat (gc_start_addr c + push_bit order (of_nat s)) = unat (gc_start_addr c) + s * 2 ^ order"
    and "unat (gc_start_addr c) + s * 2 ^ order + unat nbits * 2 ^ order \<le> Suc (unat (gc_end_addr c))"
proof -
  let ?c = "c\<lparr>gc_bits := bm, gc_avail := gc_avail c - push_bit order nbits\<rparr>"
  have w: "order < 64" "gc_start_addr c \<noteq> 0" "gc_start_addr c \<le> gc_end_addr c"
    "length (gc_bits c) = (chunk_bits order c + 63) div 64" "\<forall>i. bit_at (gc_bits c) i \<longrightarrow> i < chunk_bits order c"
    "unat (gc_avail c) + card {i. bit_at (gc_bits c) i} * 2 ^ order = unat (chunk_size c)"
    using wf by (auto simp: chunk_wf_def)
  have same: "chunk_bits order ?c = chunk_bits order c" "chunk_size ?c = chunk_size c"
    by (simp_all add: chunk_bits_def chunk_size_def)
  have bits: "\<forall>i. bit_at bm i \<longrightarrow> i < chunk_bits order c"
    using upd w(5) fits by (auto simp: range_updated_def split: if_splits)
  have len: "length bm = length (gc_bits c)" using upd by (simp add: range_updated_def)
  note card = card_set [OF upd]
  have "card {i. bit_at bm i} * 2 ^ order \<le> unat (chunk_size c)"
    using card_bits_bound [OF bits] chunk_bits_bound [of order c] by (meson mult_le_mono1 order_trans)
  then have used: "(card {i. bit_at (gc_bits c) i} + unat nbits) * 2 ^ order \<le> unat (chunk_size c)"
    using card by simp
  then have n: "unat nbits * 2 ^ order \<le> unat (gc_avail c)"
    using w(6) by (simp add: add_mult_distrib)
  then have push: "unat (push_bit order nbits) = unat nbits * 2 ^ order"
    using unsigned_less [of "gc_avail c", where ?'a = nat] by (intro unat_push_bit) simp
  then have "unat (gc_avail c - push_bit order nbits) = unat (gc_avail c) - unat nbits * 2 ^ order"
    using n by (simp add: unat_sub word_le_nat_alt)
  then have "unat (gc_avail c - push_bit order nbits) + card {i. bit_at bm i} * 2 ^ order = unat (chunk_size c)"
    using w(6) n card by (simp add: add_mult_distrib)
  then show "chunk_wf order ?c"
    using w bits len same by (simp add: chunk_wf_def)
  have "(s + unat nbits) * 2 ^ order \<le> unat (chunk_size c)"
    using fits chunk_bits_bound [of order c] by (meson mult_le_mono1 order_trans)
  then have in_size: "s * 2 ^ order + unat nbits * 2 ^ order \<le> unat (gc_end_addr c) - unat (gc_start_addr c) + 1"
    using chunk_size_nat [OF w(2,3)] by (simp add: add_mult_distrib)
  have le: "unat (gc_start_addr c) \<le> unat (gc_end_addr c)" using w(3) by (simp add: word_le_nat_alt)
  from in_size le show last: "unat (gc_start_addr c) + s * 2 ^ order + unat nbits * 2 ^ order \<le> Suc (unat (gc_end_addr c))"
    by linarith
  have "s * 2 ^ order < 2 ^ 64" using in_size chunk_size_nat [OF w(2,3)] chunk_size_lt [of c] by linarith
  then have p: "unat (push_bit order (of_nat s :: u64)) = s * 2 ^ order" by (rule unat_push_bit_of_nat)
  have "1 \<le> unat nbits * 2 ^ order" using pos by (simp add: unat_gt_0 Suc_le_eq)
  then have "unat (gc_start_addr c) + s * 2 ^ order \<le> unat (gc_end_addr c)" using last by linarith
  then have "unat (gc_start_addr c) + s * 2 ^ order < 2 ^ 64"
    using unsigned_less [of "gc_end_addr c", where ?'a = nat] by simp
  then show "unat (gc_start_addr c + push_bit order (of_nat s)) = unat (gc_start_addr c) + s * 2 ^ order"
    using p unat_add_small [of "gc_start_addr c" "push_bit order (of_nat s)"] by simp
qed

text \<open>Giving back a range of units that are all in use keeps the invariant.\<close>
lemma chunk_give:
  assumes wf: "chunk_wf order c" and upd: "range_updated True s (unat nbits) 0 (gc_bits c) bm"
  shows "chunk_wf order (c\<lparr>gc_bits := bm, gc_avail := gc_avail c + push_bit order nbits\<rparr>)"
proof -
  let ?c = "c\<lparr>gc_bits := bm, gc_avail := gc_avail c + push_bit order nbits\<rparr>"
  have w: "\<forall>i. bit_at (gc_bits c) i \<longrightarrow> i < chunk_bits order c"
    "unat (gc_avail c) + card {i. bit_at (gc_bits c) i} * 2 ^ order = unat (chunk_size c)"
    using wf by (auto simp: chunk_wf_def)
  have same: "chunk_bits order ?c = chunk_bits order c" "chunk_size ?c = chunk_size c"
    by (simp_all add: chunk_bits_def chunk_size_def)
  have bits: "\<forall>i. bit_at bm i \<longrightarrow> i < chunk_bits order c"
    using upd w(1) by (auto simp: range_updated_def split: if_splits)
  have len: "length bm = length (gc_bits c)" using upd by (simp add: range_updated_def)
  note card = card_clear [OF upd]
  have sum: "unat (gc_avail c) + unat nbits * 2 ^ order \<le> unat (chunk_size c)"
    using w(2) card by (simp add: add_mult_distrib)
  then have push: "unat (push_bit order nbits) = unat nbits * 2 ^ order"
    using chunk_size_lt [of c] by (intro unat_push_bit) simp
  have "unat (gc_avail c + push_bit order nbits) = unat (gc_avail c) + unat nbits * 2 ^ order"
    using unat_add_small [of "gc_avail c" "push_bit order nbits"] push sum chunk_size_lt [of c] by simp
  then have "unat (gc_avail c + push_bit order nbits) + card {i. bit_at bm i} * 2 ^ order = unat (chunk_size c)"
    using w(2) card by (simp add: add_mult_distrib)
  then show ?thesis using wf bits len same by (simp add: chunk_wf_def)
qed

subsection \<open>The pool\<close>

fun chunks_disjoint :: "gen_pool_chunk list \<Rightarrow> bool" where
  "chunks_disjoint [] = True"
| "chunks_disjoint (c # cs) \<longleftrightarrow> (\<forall>d\<in>set cs. chunk_range c \<inter> chunk_range d = {}) \<and> chunks_disjoint cs"

definition pool_wf :: "gen_pool \<Rightarrow> bool" where
  "pool_wf pool \<longleftrightarrow> list_all (chunk_wf (min_alloc_order pool)) (gp_chunks pool) \<and> chunks_disjoint (gp_chunks pool)"

definition chunks_allocated :: "nat \<Rightarrow> gen_pool_chunk list \<Rightarrow> nat set" where
  "chunks_allocated order cs = (\<Union>c\<in>set cs. chunk_allocated order c)"

text \<open>The abstraction of a pool: the addresses it manages and those allocated.\<close>
definition managed :: "gen_pool \<Rightarrow> nat set" where
  "managed pool = (\<Union>c\<in>set (gp_chunks pool). chunk_range c)"

definition allocated :: "gen_pool \<Rightarrow> nat set" where
  "allocated pool = chunks_allocated (min_alloc_order pool) (gp_chunks pool)"

lemma chunks_allocated_Cons [simp]:
  "chunks_allocated order (c # cs) = chunk_allocated order c \<union> chunks_allocated order cs"
  by (simp add: chunks_allocated_def)

lemma chunk_allocated_subset:
  assumes "chunk_wf order c"
  shows "chunk_allocated order c \<subseteq> chunk_range c"
proof
  fix a assume a: "a \<in> chunk_allocated order c"
  let ?s = "unat (gc_start_addr c)"
  have "(a - ?s) div 2 ^ order < chunk_bits order c"
    using a assms by (auto simp: chunk_allocated_def chunk_wf_def)
  then have "a - ?s < chunk_bits order c * 2 ^ order" by (simp add: div_less_iff_less_mult)
  then have "a - ?s < unat (chunk_size c)" using chunk_bits_bound [of order c] by linarith
  then show "a \<in> chunk_range c"
    using a assms chunk_size_nat [of c]
    by (auto simp: chunk_range_def chunk_allocated_def chunk_wf_def word_le_nat_alt)
qed

text \<open>Chunks are replaced by chunks at the same addresses.\<close>
definition same_layout :: "gen_pool_chunk list \<Rightarrow> gen_pool_chunk list \<Rightarrow> bool" where
  "same_layout cs cs' \<longleftrightarrow>
     list_all2 (\<lambda>c c'. gc_start_addr c' = gc_start_addr c \<and> gc_end_addr c' = gc_end_addr c \<and>
       gc_phys_addr c' = gc_phys_addr c \<and> gc_owner c' = gc_owner c) cs cs'"

lemma same_layout_simps [simp]:
  "same_layout [] []" "same_layout cs cs"
  "same_layout (c # cs) (c' # cs') \<longleftrightarrow>
     gc_start_addr c' = gc_start_addr c \<and> gc_end_addr c' = gc_end_addr c \<and>
     gc_phys_addr c' = gc_phys_addr c \<and> gc_owner c' = gc_owner c \<and> same_layout cs cs'"
  by (auto simp: same_layout_def list_all2_refl)

lemma same_layout_ranges: "same_layout cs cs' \<Longrightarrow> map chunk_range cs' = map chunk_range cs"
  unfolding same_layout_def by (induction rule: list_all2_induct) (auto simp: chunk_range_def)

lemma chunks_disjoint_ranges:
  "map chunk_range cs' = map chunk_range cs \<Longrightarrow> chunks_disjoint cs' = chunks_disjoint cs"
proof (induction cs arbitrary: cs')
  case (Cons c cs)
  then obtain c' ds where ds: "cs' = c' # ds" "chunk_range c' = chunk_range c" "map chunk_range ds = map chunk_range cs"
    by (cases cs') auto
  then have "chunk_range ` set ds = chunk_range ` set cs" by (metis list.set_map)
  then have "(\<forall>d\<in>set ds. chunk_range c' \<inter> chunk_range d = {}) = (\<forall>d\<in>set cs. chunk_range c \<inter> chunk_range d = {})"
    using ds(2) by (metis (no_types, lifting) image_iff)
  then show ?case using Cons.IH [OF ds(3)] ds(1) by simp
qed simp

lemma chunks_allocated_subset:
  "list_all (chunk_wf order) cs \<Longrightarrow> chunks_allocated order cs \<subseteq> (\<Union>c\<in>set cs. chunk_range c)"
  using chunk_allocated_subset by (fastforce simp: chunks_allocated_def list_all_iff)

text \<open>The outcome of an allocation of \<open>n\<close> bytes.\<close>
definition alloc_outcome ::
    "nat \<Rightarrow> nat \<Rightarrow> gen_pool_chunk list \<Rightarrow> u64 \<Rightarrow> ptr option \<Rightarrow> gen_pool_chunk list \<Rightarrow> bool" where
  "alloc_outcome order n cs addr owner cs' \<longleftrightarrow>
     list_all (chunk_wf order) cs' \<and> same_layout cs cs' \<and>
     (if addr = 0 then cs' = cs
      else (\<exists>c\<in>set cs. owner = gc_owner c \<and> {unat addr ..< unat addr + n} \<subseteq> chunk_range c) \<and>
           {unat addr ..< unat addr + n} \<inter> chunks_allocated order cs = {} \<and>
           chunks_allocated order cs' = chunks_allocated order cs \<union> {unat addr ..< unat addr + n})"

lemma alloc_outcome_skip:
  assumes "alloc_outcome order n cs addr owner cs'" and "chunk_wf order c"
    and "\<forall>d\<in>set cs. chunk_range c \<inter> chunk_range d = {}"
  shows "alloc_outcome order n (c # cs) addr owner (c # cs')"
proof (cases "addr = 0")
  case True
  then show ?thesis using assms(1,2) by (auto simp: alloc_outcome_def)
next
  case False
  then obtain d where d: "d \<in> set cs" "owner = gc_owner d" "{unat addr ..< unat addr + n} \<subseteq> chunk_range d"
    using assms(1) by (auto simp: alloc_outcome_def)
  then have "{unat addr ..< unat addr + n} \<inter> chunk_allocated order c = {}"
    using chunk_allocated_subset [OF assms(2)] assms(3) by blast
  then show ?thesis using assms(1,2) d False by (auto simp: alloc_outcome_def)
qed

context genpool_algo
begin

lemma alloc_chunks_outcome:
  assumes "list_all (chunk_wf order) cs" and "chunks_disjoint cs" and "unat nbits < 2 ^ 32" and "nbits \<noteq> 0"
  shows "\<exists>addr owner cs'. alloc_chunks algo order sz nbits cs = Some (Inr (addr, owner, cs')) \<and>
           alloc_outcome order (unat nbits * 2 ^ order) cs addr owner cs'"
  using assms(1,2)
proof (induction cs)
  case Nil
  show ?case by (simp add: alloc_outcome_def)
next
  case (Cons c cs)
  let ?n = "unat nbits * 2 ^ order"
  have wf: "chunk_wf order c" and disj: "\<forall>d\<in>set cs. chunk_range c \<inter> chunk_range d = {}"
    using Cons.prems by auto
  from Cons obtain addr owner cs' where
    rest: "alloc_chunks algo order sz nbits cs = Some (Inr (addr, owner, cs'))" "alloc_outcome order ?n cs addr owner cs'"
    by auto
  have skip: "alloc_outcome order ?n (c # cs) addr owner (c # cs')"
    by (rule alloc_outcome_skip [OF rest(2) wf disj])
  let ?s = "algo (gc_bits c) (chunk_bits order c) 0 (unat nbits) order (gc_start_addr c)"
  have len: "chunk_bits order c \<le> 64 * length (gc_bits c)" using wf by (simp add: chunk_wf_def)
  note first = alloc_retry_first [OF len assms(3), of _ 0 order "gc_start_addr c", OF refl]
  show ?case
  proof (cases "sz > gc_avail c \<or> ?s \<ge> chunk_bits order c")
    case True
    then have "alloc_chunks algo order sz nbits (c # cs) = Some (Inr (addr, owner, c # cs'))"
      using rest(1) first by (auto simp: chunk_bits_def)
    with skip show ?thesis by blast
  next
    case False
    with first obtain bm where r:
      "alloc_retry algo order (gc_start_addr c) (unat nbits) (chunk_bits order c) (gc_bits c) 0 = Some (Inr (Some ?s, bm))"
      "?s + unat nbits \<le> chunk_bits order c" "range_updated False ?s (unat nbits) 0 (gc_bits c) bm"
      by auto
    let ?c = "c\<lparr>gc_bits := bm, gc_avail := gc_avail c - push_bit order nbits\<rparr>"
    let ?addr = "gc_start_addr c + push_bit order (of_nat ?s)"
    have run: "alloc_chunks algo order sz nbits (c # cs) = Some (Inr (?addr, gc_owner c, ?c # cs))"
      using r(1) False by (simp add: chunk_bits_def)
    note take = chunk_take [OF wf r(3,2) assms(4)]
    let ?R = "{unat ?addr ..< unat ?addr + ?n}"
    have start: "0 < unat (gc_start_addr c)" using wf by (simp add: chunk_wf_def unat_gt_0)
    then have nz: "?addr \<noteq> 0" using take(2) by (metis add_is_0 less_not_refl2 unat_0)
    have sub: "?R \<subseteq> chunk_range c"
      unfolding take(2) chunk_range_def using take(3) by auto
    have "chunk_allocated order ?c = chunk_allocated order c \<union> ?R"
      and "chunk_allocated order c \<inter> ?R = {}"
      unfolding take(2) using allocated_set [OF r(3), of ?c order] by simp_all
    moreover have "chunks_allocated order cs \<inter> ?R = {}"
      using sub disj chunks_allocated_subset [of order cs] Cons.prems(1) by fastforce
    ultimately have "alloc_outcome order ?n (c # cs) ?addr (gc_owner c) (?c # cs)"
      using take(1) Cons.prems(1) nz sub by (auto simp: alloc_outcome_def)
    with run show ?thesis by blast
  qed
qed

end

subsection \<open>Rounding\<close>

lemma size_to_bits_nat:
  assumes "order < 64" and "unat sz + 2 ^ order \<le> 2 ^ 64"
  shows "unat (size_to_bits order sz) = (unat sz + 2 ^ order - 1) div 2 ^ order"
proof -
  have "push_bit order (1 :: u64) = of_nat (2 ^ order)" by (simp add: push_bit_eq_mult)
  moreover have "1 \<le> unat sz + 2 ^ order" by (simp add: Suc_le_eq)
  ultimately have "sz + push_bit order 1 - 1 = of_nat (unat sz + 2 ^ order - 1)"
    by (simp add: of_nat_diff)
  then have "unat (sz + push_bit order 1 - 1) = (unat sz + 2 ^ order - 1) mod 2 ^ 64"
    by (simp only: unat_of_nat) (simp add: take_bit_eq_mod)
  also have "\<dots> = unat sz + 2 ^ order - 1" using assms(2) by (intro mod_less) simp
  finally show ?thesis
    unfolding size_to_bits_def unat_drop_bit_eq by (simp add: drop_bit_eq_div)
qed

lemma size_to_bits_covers:
  assumes "order < 64" and "unat sz + 2 ^ order \<le> 2 ^ 64" and "sz \<noteq> 0"
  shows "size_to_bits order sz \<noteq> 0" and "unat sz \<le> unat (size_to_bits order sz) * 2 ^ order"
    and "unat (size_to_bits order sz) * 2 ^ order < unat sz + 2 ^ order"
proof -
  let ?q = "(unat sz + 2 ^ order - 1) div 2 ^ order"
  have pos: "0 < unat sz" using assms(3) by (simp add: unat_gt_0)
  have eq: "unat (size_to_bits order sz) = ?q" by (rule size_to_bits_nat [OF assms(1,2)])
  have "?q * 2 ^ order + (unat sz + 2 ^ order - 1) mod 2 ^ order = unat sz + 2 ^ order - 1"
    by (rule div_mult_mod_eq)
  moreover have "(unat sz + 2 ^ order - 1) mod 2 ^ order < 2 ^ order" by simp
  ultimately have b: "unat sz \<le> ?q * 2 ^ order" "?q * 2 ^ order < unat sz + 2 ^ order"
    using pos by linarith+
  then show "unat sz \<le> unat (size_to_bits order sz) * 2 ^ order"
    "unat (size_to_bits order sz) * 2 ^ order < unat sz + 2 ^ order"
    using eq by simp_all
  then show "size_to_bits order sz \<noteq> 0" using pos by (metis mult_0 not_le unat_0)
qed

subsection \<open>Allocation refines taking a free range\<close>

text \<open>The sizes the allocator handles: not 0, no wrap when rounded up, and less than \<open>2 ^ 32\<close> units.\<close>
definition size_ok :: "nat \<Rightarrow> u64 \<Rightarrow> bool" where
  "size_ok order sz \<longleftrightarrow> order < 64 \<and> sz \<noteq> 0 \<and> unat sz + 2 ^ order \<le> 2 ^ 64 \<and> unat (size_to_bits order sz) < 2 ^ 32"

text \<open>The bytes handed out for a request.\<close>
definition alloc_bytes :: "nat \<Rightarrow> u64 \<Rightarrow> u64 \<Rightarrow> nat set" where
  "alloc_bytes order sz addr = {unat addr ..< unat addr + unat (size_to_bits order sz) * 2 ^ order}"

context genpool_algo
begin

lemma alloc_pool:
  assumes "pool_wf pool" and "size_ok (min_alloc_order pool) sz"
  shows "\<exists>addr owner cs. gen_pool_alloc_algo_owner algo sz pool = Some (Inr (addr, owner, pool\<lparr>gp_chunks := cs\<rparr>)) \<and>
     alloc_chunks algo (min_alloc_order pool) sz (size_to_bits (min_alloc_order pool) sz) (gp_chunks pool) =
       Some (Inr (addr, owner, cs)) \<and>
     alloc_outcome (min_alloc_order pool) (unat (size_to_bits (min_alloc_order pool) sz) * 2 ^ min_alloc_order pool)
       (gp_chunks pool) addr owner cs"
  using alloc_chunks_outcome [of "min_alloc_order pool" "gp_chunks pool" "size_to_bits (min_alloc_order pool) sz" sz]
    size_to_bits_covers(1) [of "min_alloc_order pool" sz] assms
  by (auto simp: gen_pool_alloc_algo_owner_def pool_wf_def size_ok_def)

end

lemma same_layout_wf:
  assumes "same_layout (gp_chunks pool) cs" and "pool_wf pool"
    and "list_all (chunk_wf (min_alloc_order pool)) cs"
  shows "pool_wf (pool\<lparr>gp_chunks := cs\<rparr>)" and "managed (pool\<lparr>gp_chunks := cs\<rparr>) = managed pool"
proof -
  note ranges = same_layout_ranges [OF assms(1)]
  show "pool_wf (pool\<lparr>gp_chunks := cs\<rparr>)"
    using chunks_disjoint_ranges [OF ranges] assms(2,3) by (simp add: pool_wf_def)
  have "chunk_range ` set cs = chunk_range ` set (gp_chunks pool)" using ranges by (metis list.set_map)
  then show "managed (pool\<lparr>gp_chunks := cs\<rparr>) = managed pool" by (simp add: managed_def)
qed

text \<open>
  C2. Allocation refines taking a free range: with the default first-fit algorithm it returns, keeps the
  pool's invariant and the addresses it manages, and either answers 0 and changes nothing, or
  hands out at least the bytes asked for, inside the pool and none of them in use, and exactly
  those become allocated.
\<close>
theorem gen_pool_alloc_refines:
  assumes "bitmap_search bo" and "pool_wf pool" and "size_ok (min_alloc_order pool) sz"
  shows "\<exists>addr owner pool'. gen_pool_alloc_algo_owner (gen_pool_first_fit bo) sz pool = Some (Inr (addr, owner, pool')) \<and>
     pool_wf pool' \<and> managed pool' = managed pool \<and>
     (if addr = 0 then pool' = pool
      else alloc_bytes (min_alloc_order pool) sz addr \<subseteq> managed pool \<and>
           alloc_bytes (min_alloc_order pool) sz addr \<inter> allocated pool = {} \<and>
           allocated pool' = allocated pool \<union> alloc_bytes (min_alloc_order pool) sz addr \<and>
           unat sz \<le> card (alloc_bytes (min_alloc_order pool) sz addr))"
proof -
  let ?o = "min_alloc_order pool"
  obtain addr owner cs where a:
    "gen_pool_alloc_algo_owner (gen_pool_first_fit bo) sz pool = Some (Inr (addr, owner, pool\<lparr>gp_chunks := cs\<rparr>))"
    "alloc_outcome ?o (unat (size_to_bits ?o sz) * 2 ^ ?o) (gp_chunks pool) addr owner cs"
    using genpool_algo.alloc_pool [OF bitmap_search.first_fit_algo [OF assms(1)] assms(2,3)] by blast
  then have layout: "same_layout (gp_chunks pool) cs" "list_all (chunk_wf ?o) cs"
    by (auto simp: alloc_outcome_def)
  have "unat sz \<le> card (alloc_bytes ?o sz addr)"
    using size_to_bits_covers(2) [of ?o sz] assms(3) by (simp add: alloc_bytes_def size_ok_def)
  moreover have "alloc_bytes ?o sz addr \<subseteq> managed pool" if "addr \<noteq> 0"
    using a(2) that unfolding alloc_outcome_def alloc_bytes_def managed_def by (simp, blast)
  moreover have "if addr = 0 then cs = gp_chunks pool
      else alloc_bytes ?o sz addr \<inter> allocated pool = {} \<and>
           allocated (pool\<lparr>gp_chunks := cs\<rparr>) = allocated pool \<union> alloc_bytes ?o sz addr"
    using a(2) by (simp add: alloc_outcome_def alloc_bytes_def allocated_def)
  ultimately show ?thesis
    using a(1) same_layout_wf [OF layout(1) assms(2) layout(2)]
    by (intro exI [of _ addr] exI [of _ owner] exI [of _ "pool\<lparr>gp_chunks := cs\<rparr>"]) auto
qed

subsection \<open>Free undoes allocation\<close>

lemma in_chunk_range: "in_chunk a c \<longleftrightarrow> unat a \<in> chunk_range c"
  by (simp add: in_chunk_def chunk_range_def word_le_nat_alt)

lemma drop_push_bit:
  assumes "s * 2 ^ order < 2 ^ 64"
  shows "unat (drop_bit order (push_bit order (of_nat s :: u64))) = s"
  unfolding unat_drop_bit_eq unat_push_bit_of_nat [OF assms] by (simp add: drop_bit_eq_div)

context genpool_algo
begin

text \<open>The chunk that an allocation changed, if any.\<close>
lemma free_alloc_chunks:
  assumes "list_all (chunk_wf order) cs" and "chunks_disjoint cs" and ok: "size_ok order sz"
    and "alloc_chunks algo order sz (size_to_bits order sz) cs = Some (Inr (addr, owner, cs'))" and "addr \<noteq> 0"
  shows "free_chunks order addr sz cs' = Inr (owner, cs)"
  using assms(1,2,4)
proof (induction cs arbitrary: cs')
  case Nil
  then show ?case using assms(5) by simp
next
  case (Cons c cs)
  let ?nb = "size_to_bits order sz"
  have o: "order < 64" "unat ?nb < 2 ^ 32" "?nb \<noteq> 0"
    using ok size_to_bits_covers(1) [of order sz] by (auto simp: size_ok_def)
  have wf: "chunk_wf order c" and disj: "\<forall>d\<in>set cs. chunk_range c \<inter> chunk_range d = {}"
    using Cons.prems by auto
  let ?s = "algo (gc_bits c) (chunk_bits order c) 0 (unat ?nb) order (gc_start_addr c)"
  have len: "chunk_bits order c \<le> 64 * length (gc_bits c)" using wf by (simp add: chunk_wf_def)
  note first = alloc_retry_first [OF len o(2), of _ 0 order "gc_start_addr c", OF refl]
  show ?case
  proof (cases "sz > gc_avail c \<or> ?s \<ge> chunk_bits order c")
    case True
    then obtain ds where rest: "alloc_chunks algo order sz ?nb cs = Some (Inr (addr, owner, ds))" "cs' = c # ds"
      using Cons.prems(3) first alloc_chunks_outcome [of order cs ?nb sz] Cons.prems(1,2) o(2,3)
      by (cases "sz > gc_avail c") (auto simp: chunk_bits_def)
    have "alloc_outcome order (unat ?nb * 2 ^ order) cs addr owner ds"
      using alloc_chunks_outcome [of order cs ?nb sz] Cons.prems(1,2) o rest(1) by auto
    then obtain d where d: "d \<in> set cs" "{unat addr ..< unat addr + unat ?nb * 2 ^ order} \<subseteq> chunk_range d"
      using assms(5) by (auto simp: alloc_outcome_def)
    have "unat addr \<in> {unat addr ..< unat addr + unat ?nb * 2 ^ order}"
      using o(3) by (simp add: unat_gt_0)
    with d(2) have "unat addr \<in> chunk_range d" ..
    then have "\<not> in_chunk addr c" using d(1) disj unfolding in_chunk_range by blast
    then show ?thesis using Cons.IH [of ds] Cons.prems(1,2) rest by simp
  next
    case False
    with first obtain bm where r:
      "alloc_retry algo order (gc_start_addr c) (unat ?nb) (chunk_bits order c) (gc_bits c) 0 = Some (Inr (Some ?s, bm))"
      "?s + unat ?nb \<le> chunk_bits order c" "range_updated False ?s (unat ?nb) 0 (gc_bits c) bm"
      by auto
    have res: "addr = gc_start_addr c + push_bit order (of_nat ?s)" "owner = gc_owner c"
      "cs' = c\<lparr>gc_bits := bm, gc_avail := gc_avail c - push_bit order ?nb\<rparr> # cs"
      using Cons.prems(3) r(1) False by (simp_all add: chunk_bits_def)
    note take = chunk_take [OF wf r(3,2) o(3)]
    have a: "unat addr = unat (gc_start_addr c) + ?s * 2 ^ order" using take(2) res(1) by simp
    have cover: "unat sz \<le> unat ?nb * 2 ^ order" "0 < unat sz"
      using size_to_bits_covers(2) [of order sz] ok by (auto simp: size_ok_def unat_gt_0)
    have last: "unat addr + unat sz - 1 \<le> unat (gc_end_addr c)" using a take(3) cover by linarith
    have inside: "in_chunk addr c" using a last cover by (simp add: in_chunk_def word_le_nat_alt)
    have "unat addr + unat sz - 1 < 2 ^ 64"
      using last unsigned_less [of "gc_end_addr c", where ?'a = nat] by simp
    then have fits: "\<not> addr + sz - 1 > gc_end_addr c"
      using unat_add_diff1 [OF cover(2)] last by (simp add: word_less_nat_alt)
    have "?s * 2 ^ order \<le> unat addr" using a by simp
    then have "?s * 2 ^ order < 2 ^ 64" using unsigned_less [of addr, where ?'a = nat] by simp
    then have bit: "unat (drop_bit order (addr - gc_start_addr c)) = ?s"
      using drop_push_bit res(1) by simp
    have "bitmap_clear_ll bm ?s (unat ?nb) = Some (0, gc_bits c)"
      using clear_after_set [OF _ r(3)] r(2) len by simp
    then show ?thesis
      using inside fits bit res(2,3) by (simp add: in_chunk_def)
  qed
qed

end

lemma pool_same_chunks [simp]: "pool\<lparr>gp_chunks := gp_chunks pool\<rparr> = pool"
  by simp

lemma find_in_chunk:
  assumes "chunks_disjoint cs" and "c \<in> set cs" and "unat addr \<in> chunk_range c"
  shows "List.find (in_chunk addr) cs = Some c"
  using assms
proof (induction cs)
  case (Cons d ds)
  show ?case
  proof (cases "c = d")
    case True
    then show ?thesis using Cons.prems(3) by (simp add: in_chunk_range)
  next
    case False
    then have c: "c \<in> set ds" using Cons.prems(2) by simp
    then have "\<not> in_chunk addr d" using Cons.prems(1,3) by (auto simp: in_chunk_range)
    then show ?thesis using Cons.IH c Cons.prems(1,3) by simp
  qed
qed simp

text \<open>
  C3. Free undoes allocation: giving back what an allocation handed out, with the size that was
  asked for, trips no assertion and restores the pool exactly, bitmaps and available counts
  included. It holds for first fit with any alignment.
\<close>
theorem gen_pool_free_undoes_alloc:
  assumes "bitmap_search bo" and "pool_wf pool" and "size_ok (min_alloc_order pool) sz"
    and "gen_pool_alloc_algo_owner (gen_pool_first_fit_align bo align) sz pool = Some (Inr (addr, owner, pool'))"
    and "addr \<noteq> 0"
  shows "gen_pool_free_owner addr sz pool' = Inr (owner, pool)"
proof -
  note algo = bitmap_search.first_fit_align_algo [OF assms(1), of align]
  from genpool_algo.alloc_pool [OF algo assms(2,3)] assms(4) obtain cs where
    cs: "pool' = pool\<lparr>gp_chunks := cs\<rparr>" "alloc_chunks (gen_pool_first_fit_align bo align) (min_alloc_order pool) sz
      (size_to_bits (min_alloc_order pool) sz) (gp_chunks pool) = Some (Inr (addr, owner, cs))"
    by auto
  have "free_chunks (min_alloc_order pool) addr sz cs = Inr (owner, gp_chunks pool)"
    by (rule genpool_algo.free_alloc_chunks [OF algo _ _ assms(3) cs(2) assms(5)])
       (use assms(2) in \<open>simp_all add: pool_wf_def\<close>)
  then show ?thesis using cs(1) by (simp add: gen_pool_free_owner_def)
qed

text \<open>
  An address the pool handed out translates: after a successful first-fit allocation the whole
  range is reported as the pool's (\<open>gen_pool_has_addr\<close>), and the physical address of each byte of it
  is the chunk's physical base plus the byte's offset in the chunk, whose owner is reported.
\<close>
theorem gen_pool_alloc_translates:
  assumes "bitmap_search bo" and "pool_wf pool" and "size_ok (min_alloc_order pool) sz"
    and "gen_pool_alloc_algo_owner (gen_pool_first_fit bo) sz pool = Some (Inr (addr, owner, pool'))"
    and "addr \<noteq> 0" and "unat k < unat sz"
  shows "gen_pool_has_addr pool' addr sz \<and>
     (\<exists>c\<in>set (gp_chunks pool). owner = gc_owner c \<and>
        gen_pool_virt_to_phys pool' (addr + k) = gc_phys_addr c + (addr + k - gc_start_addr c))"
proof -
  let ?o = "min_alloc_order pool"
  let ?R = "{unat addr ..< unat addr + unat (size_to_bits ?o sz) * 2 ^ ?o}"
  from genpool_algo.alloc_pool [OF bitmap_search.first_fit_algo [OF assms(1)] assms(2,3)] assms(4)
  obtain cs where cs: "pool' = pool\<lparr>gp_chunks := cs\<rparr>"
    "alloc_outcome ?o (unat (size_to_bits ?o sz) * 2 ^ ?o) (gp_chunks pool) addr owner cs" by auto
  then obtain c where c: "c \<in> set (gp_chunks pool)" "owner = gc_owner c" "?R \<subseteq> chunk_range c"
    using assms(5) by (auto simp: alloc_outcome_def)
  have layout: "same_layout (gp_chunks pool) cs" using cs(2) by (simp add: alloc_outcome_def)
  then obtain c' where c': "c' \<in> set cs" "gc_start_addr c' = gc_start_addr c" "gc_end_addr c' = gc_end_addr c"
      "gc_phys_addr c' = gc_phys_addr c"
    using c(1) unfolding same_layout_def list_all2_conv_all_nth by (metis in_set_conv_nth)
  have disj: "chunks_disjoint cs"
    using chunks_disjoint_ranges [OF same_layout_ranges [OF layout]] assms(2) by (simp add: pool_wf_def)
  have sz: "unat sz \<le> unat (size_to_bits ?o sz) * 2 ^ ?o" "0 < unat sz"
    using size_to_bits_covers(2) [of ?o sz] assms(3) by (auto simp: size_ok_def unat_gt_0)
  have range: "unat addr + j \<in> chunk_range c'" if "j < unat sz" for j
  proof -
    have "unat addr + j \<in> ?R" using that sz by simp
    with c(3) have "unat addr + j \<in> chunk_range c" ..
    then show ?thesis using c'(2,3) by (simp add: chunk_range_def)
  qed
  have last: "unat addr + (unat sz - 1) \<le> unat (gc_end_addr c')"
    using range [of "unat sz - 1"] sz by (simp add: chunk_range_def)
  have lt: "unat addr + unat sz - 1 < 2 ^ 64"
    using last unsigned_less [of "gc_end_addr c'", where ?'a = nat] sz by simp
  have "in_chunk addr c'" using range [of 0] sz by (simp add: in_chunk_range)
  moreover have "addr + sz - 1 \<le> gc_end_addr c'"
    using unat_add_diff1 [OF sz(2) lt] last sz by (simp add: word_le_nat_alt)
  ultimately have has: "gen_pool_has_addr pool' addr sz"
    using c'(1) cs(1) by (auto simp: gen_pool_has_addr_def list_ex_iff)
  have "unat (addr + k) = unat addr + unat k"
    using lt assms(6) by (intro unat_add_small) simp
  then have "List.find (in_chunk (addr + k)) cs = Some c'"
    using find_in_chunk [OF disj c'(1)] range [OF assms(6)] by simp
  then show ?thesis using has c c' cs(1) by (auto simp: gen_pool_virt_to_phys_def)
qed

subsection \<open>Adding chunks and destroying the pool\<close>

lemma bit_at_replicate [simp]: "\<not> bit_at (replicate n 0) i" "Collect (bit_at (replicate n 0)) = {}"
  by (simp_all add: bit_at_def)

lemma end_addr_nat:
  assumes "0 < unat sz" and "unat virt + unat sz \<le> 2 ^ 64"
  shows "unat (virt + sz - 1 :: u64) = unat virt + unat sz - 1"
  using unat_add_diff1 [OF assms(1), of virt] assms(2) by simp

lemma add_owner_extends:
  assumes "pool_wf pool" and "min_alloc_order pool < 64" and "virt \<noteq> 0" and "sz \<noteq> 0"
    and "unat virt + unat sz \<le> 2 ^ 64" and "{unat virt ..< unat virt + unat sz} \<inter> managed pool = {}"
    and "gen_pool_add_owner ok virt phys sz owner pool = (res, pool')"
  shows "if ok then res = Inr () \<and> pool_wf pool' \<and> allocated pool' = allocated pool \<and>
             managed pool' = managed pool \<union> {unat virt ..< unat virt + unat sz}
         else res = Inl ENOMEM \<and> pool' = pool"
proof (cases ok)
  case True
  define c where "c = \<lparr>gc_phys_addr = phys, gc_owner = owner, gc_start_addr = virt, gc_end_addr = virt + sz - 1,
     gc_avail = sz, gc_bits = replicate ((unat (drop_bit (min_alloc_order pool) sz) + 63) div 64) (0 :: u64)\<rparr>"
  have pos: "0 < unat sz" using assms(4) by (simp add: unat_gt_0)
  note e = end_addr_nat [OF pos assms(5)]
  have range: "chunk_range c = {unat virt ..< unat virt + unat sz}"
    using e pos by (auto simp: chunk_range_def c_def)
  have sz: "chunk_size c = sz" by (simp add: chunk_size_def c_def)
  have "virt \<le> virt + sz - 1" using e pos by (simp add: word_le_nat_alt)
  then have wf: "chunk_wf (min_alloc_order pool) c"
    using sz assms(2,3) by (simp add: chunk_wf_def chunk_bits_def) (simp add: c_def)
  have none: "chunk_allocated (min_alloc_order pool) c = {}" by (simp add: chunk_allocated_def c_def)
  have "pool' = pool\<lparr>gp_chunks := c # gp_chunks pool\<rparr> \<and> res = Inr ()"
    using assms(7) True by (auto simp: gen_pool_add_owner_def c_def Let_def)
  then show ?thesis
    using wf none range assms(1,6) True
    by (auto simp: pool_wf_def allocated_def managed_def)
next
  case False
  then show ?thesis using assms(7) by (auto simp: gen_pool_add_owner_def Let_def)
qed

text \<open>
  Adding a chunk that lies beside the others extends what the pool manages by exactly its
  addresses and allocates nothing; the pool's invariant holds again. When the allocation of the
  chunk fails the pool is unchanged and the error is -ENOMEM.
\<close>
theorem gen_pool_add_owner_extends:
  assumes "pool_wf pool" and "min_alloc_order pool < 64" and "virt \<noteq> 0" and "sz \<noteq> 0"
    and "unat virt + unat sz \<le> 2 ^ 64" and "{unat virt ..< unat virt + unat sz} \<inter> managed pool = {}"
    and "gen_pool_add_owner ok virt phys sz owner pool = (res, pool')"
  shows "if ok then res = Inr () \<and> pool_wf pool' \<and> allocated pool' = allocated pool \<and>
             managed pool' = managed pool \<union> {unat virt ..< unat virt + unat sz}
         else res = Inl ENOMEM \<and> pool' = pool"
  using assms by (rule add_owner_extends)

lemma chunk_allocated_empty:
  assumes "chunk_wf order c" and "bitmap_search bo"
  shows "chunk_allocated order c = {} \<longleftrightarrow> \<not> find_first_bit bo (gc_bits c) (chunk_bits order c) < chunk_bits order c"
proof -
  have "chunk_allocated order c = {} \<longleftrightarrow> \<not> (\<exists>k. bit_at (gc_bits c) k)"
  proof
    assume empty: "chunk_allocated order c = {}"
    show "\<not> (\<exists>k. bit_at (gc_bits c) k)"
    proof
      assume "\<exists>k. bit_at (gc_bits c) k"
      then obtain k where "bit_at (gc_bits c) k" ..
      then have "unat (gc_start_addr c) + k * 2 ^ order \<in> chunk_allocated order c"
        by (simp add: chunk_allocated_def)
      with empty show False by simp
    qed
  qed (simp add: chunk_allocated_def)
  then show ?thesis
    using bitmap_search.first_bit [OF assms(2)] assms(1) by (auto simp: chunk_wf_def)
qed

lemma destroy_chunks_ok:
  "list_all (chunk_wf order) cs \<Longrightarrow> bitmap_search bo \<Longrightarrow>
   destroy_chunks bo order cs = (if chunks_allocated order cs = {} then Inr () else Inl BUG)"
proof (induction cs)
  case (Cons c cs)
  then show ?case
    using chunk_allocated_empty [of order c bo] by (simp add: Let_def chunk_bits_def)
qed (simp add: chunks_allocated_def)

text \<open>
  Destroying a pool trips its assertion exactly when something is still allocated.
\<close>
theorem gen_pool_destroy_checks:
  assumes "bitmap_search bo" and "pool_wf pool"
  shows "gen_pool_destroy bo pool = (if allocated pool = {} then Inr () else Inl BUG)"
  using destroy_chunks_ok [OF _ assms(1)] assms(2)
  by (simp add: gen_pool_destroy_def pool_wf_def allocated_def)

subsection \<open>Best fit\<close>

text \<open>The start of a free run that is long enough.\<close>
definition is_hole :: "bitmap \<Rightarrow> nat \<Rightarrow> nat \<Rightarrow> nat \<Rightarrow> nat \<Rightarrow> bool" where
  "is_hole bm sz start nr i \<longleftrightarrow>
     start \<le> i \<and> i + nr \<le> sz \<and> range_free bm i nr \<and> (i = start \<or> bit_at bm (i - 1))"

definition hole_len :: "bitops \<Rightarrow> bitmap \<Rightarrow> nat \<Rightarrow> nat \<Rightarrow> nat \<Rightarrow> nat" where
  "hole_len bo bm sz nr i = find_next_bit bo bm sz (i + nr) - i"

text \<open>What the loop of \<open>gen_pool_best_fit\<close> knows about the runs before \<open>index\<close>.\<close>
definition best_so_far :: "bitops \<Rightarrow> bitmap \<Rightarrow> nat \<Rightarrow> nat \<Rightarrow> nat \<Rightarrow> nat \<Rightarrow> nat \<Rightarrow> nat \<Rightarrow> bool" where
  "best_so_far bo bm sz start nr len sb index \<longleftrightarrow>
     (\<forall>j < index. is_hole bm sz start nr j \<longrightarrow> len \<le> hole_len bo bm sz nr j) \<and>
     (sb = sz \<and> len = sz + 1 \<and> (\<forall>j < index. \<not> is_hole bm sz start nr j) \<or>
      is_hole bm sz start nr sb \<and> len = hole_len bo bm sz nr sb) \<and>
     (index < sz \<longrightarrow> is_hole bm sz start nr index)"

definition best_fit_ok :: "bitops \<Rightarrow> bitmap \<Rightarrow> nat \<Rightarrow> nat \<Rightarrow> nat \<Rightarrow> nat \<Rightarrow> bool" where
  "best_fit_ok bo bm sz start nr s \<longleftrightarrow>
     (if s < sz then is_hole bm sz start nr s \<and>
        (\<forall>j. is_hole bm sz start nr j \<longrightarrow> hole_len bo bm sz nr s \<le> hole_len bo bm sz nr j)
      else s = sz \<and> (\<forall>j. \<not> is_hole bm sz start nr j))"

context bitmap_search
begin

lemma zero_area_is_hole:
  assumes "start \<le> st" and "st = start \<or> bit_at bm (st - 1)" and "0 < nr"
    and "i = bitmap_find_next_zero_area bo bm sz st nr 0" and "i < sz"
  shows "is_hole bm sz start nr i"
proof -
  have at: "zero_area_at bm sz st nr 0 0 i"
    using zero_area_found assms(4,5) by (simp add: bitmap_find_next_zero_area_def)
  then have z: "st \<le> i" "i + nr \<le> sz" "range_free bm i nr" by (simp_all add: zero_area_at_def)
  show ?thesis
  proof (cases "i = st")
    case True
    then show ?thesis using z assms(1,2) by (simp add: is_hole_def)
  next
    case False
    then have "\<not> zero_area_at bm sz st nr 0 0 (i - 1)"
      using zero_area_first [of bm sz st nr 0 0 "i - 1"] z(1) assms(4)
      by (auto simp: bitmap_find_next_zero_area_def)
    then have "\<not> range_free bm (i - 1) nr" using False z by (simp add: zero_area_at_def)
    then obtain k where k: "i - 1 \<le> k" "k < i - 1 + nr" "bit_at bm k" by (auto simp: range_free_def)
    then have "\<not> i \<le> k" using z(3) by (auto simp: range_free_def)
    then have "k = i - 1" using k(1) by linarith
    then show ?thesis using k z assms(1) by (auto simp: is_hole_def)
  qed
qed

lemma next_bit_of_hole:
  assumes "is_hole bm sz start nr i" and "0 < nr"
  shows "i + nr \<le> find_next_bit bo bm sz (i + nr)" and "find_next_bit bo bm sz (i + nr) \<le> sz"
    and "nr \<le> hole_len bo bm sz nr i"
    and "i \<le> k \<Longrightarrow> k < find_next_bit bo bm sz (i + nr) \<Longrightarrow> \<not> bit_at bm k"
proof -
  have fit: "i + nr \<le> sz" "range_free bm i nr" using assms(1) by (simp_all add: is_hole_def)
  note range = next_bit_range [OF fit(1), of bm]
  then show "i + nr \<le> find_next_bit bo bm sz (i + nr)" "find_next_bit bo bm sz (i + nr) \<le> sz"
    "nr \<le> hole_len bo bm sz nr i"
    unfolding hole_len_def by linarith+
  assume k: "i \<le> k" "k < find_next_bit bo bm sz (i + nr)"
  show "\<not> bit_at bm k"
  proof (cases "k < i + nr")
    case True
    then show ?thesis using fit(2) k(1) by (simp add: range_free_def)
  next
    case False
    then show ?thesis using next_bit_clear [of "i + nr" k bm sz] k range by simp
  qed
qed

text \<open>A run that starts after the current one starts after its end.\<close>
lemma later_hole:
  assumes "is_hole bm sz start nr i" and "is_hole bm sz start nr j" and "i < j" and "0 < nr"
  shows "bitmap_find_next_zero_area bo bm sz (find_next_bit bo bm sz (i + nr) + 1) nr 0 \<le> j"
proof -
  have "start \<le> i" "bit_at bm (j - 1)" using assms by (auto simp: is_hole_def)
  then have "find_next_bit bo bm sz (i + nr) \<le> j - 1"
    using next_bit_of_hole(4) [OF assms(1,4), of "j - 1"] assms(3) by (metis Suc_leI Suc_pred' diff_Suc_1 le_less_linear
      less_Suc_eq_le not_less_zero gr0I)
  then have "zero_area_at bm sz (find_next_bit bo bm sz (i + nr) + 1) nr 0 0 j"
    using assms(2,3) by (auto simp: zero_area_at_def is_hole_def)
  from zero_area_first [OF this] show ?thesis by (simp add: bitmap_find_next_zero_area_def)
qed

lemma best_fit_loop_ok:
  assumes "best_so_far bo bm sz start nr len sb index" and "0 < nr"
  shows "\<exists>s. best_fit_loop bo bm sz nr len sb index = Some s \<and> best_fit_ok bo bm sz start nr s"
  using assms(1)
proof (induction "sz - index" arbitrary: len sb index rule: less_induct)
  case less
  show ?case
  proof (cases "index < sz")
    case False
    have below: "j < index" if "is_hole bm sz start nr j" for j
      using that False assms(2) by (auto simp: is_hole_def)
    have "best_fit_ok bo bm sz start nr sb"
      using less.prems below assms(2)
      by (auto simp: best_so_far_def best_fit_ok_def is_hole_def)
    then show ?thesis using False by (subst best_fit_loop.simps) simp
  next
    case True
    let ?nb = "find_next_bit bo bm sz (index + nr)"
    let ?i = "bitmap_find_next_zero_area bo bm sz (?nb + 1) nr 0"
    have hole: "is_hole bm sz start nr index" using less.prems True by (simp add: best_so_far_def)
    note nb = next_bit_of_hole [OF hole assms(2)]
    have later: "j < ?i \<Longrightarrow> is_hole bm sz start nr j \<Longrightarrow> j < index \<or> j = index" for j
      using later_hole [OF hole _ _ assms(2), of j] by (meson leD linorder_neqE_nat)
    have i_hole: "is_hole bm sz start nr ?i" if "?i < sz"
    proof -
      have "zero_area_at bm sz (?nb + 1) nr 0 0 ?i"
        using zero_area_found that by (simp add: bitmap_find_next_zero_area_def)
      then have "?nb < sz" using that by (simp add: zero_area_at_def)
      then have "bit_at bm ?nb" by (rule next_bit_set)
      then show ?thesis
        using zero_area_is_hole [of start "?nb + 1" bm nr ?i sz] that assms(2) hole nb(1) by (simp add: is_hole_def)
    qed
    have "?nb + 1 \<le> ?i \<or> sz \<le> ?i"
      using zero_area_found [of bm sz "?nb + 1" nr 0 0]
      by (auto simp: bitmap_find_next_zero_area_def zero_area_at_def not_le)
    then have dec: "sz - ?i < sz - index" using True nb(1) by auto
    have len_index: "hole_len bo bm sz nr index = ?nb - index" by (simp add: hole_len_def)
    show ?thesis
    proof (cases "?nb - index < len")
      case better: True
      show ?thesis
      proof (cases "?nb - index = nr")
        case fits: True
        have "best_fit_ok bo bm sz start nr index"
          using hole True next_bit_of_hole(3) [OF _ assms(2)] len_index fits by (auto simp: best_fit_ok_def)
        then show ?thesis using True better fits by (subst best_fit_loop.simps) (simp add: Let_def)
      next
        case False
        have "best_so_far bo bm sz start nr (?nb - index) index ?i"
          using less.prems hole later i_hole len_index better by (fastforce simp: best_so_far_def)
        from less.hyps [OF dec this] show ?thesis
          using True better False by (subst best_fit_loop.simps) (simp add: Let_def)
      qed
    next
      case worse: False
      have sb: "is_hole bm sz start nr sb \<and> len = hole_len bo bm sz nr sb"
        using less.prems worse nb(2) by (auto simp: best_so_far_def)
      have "best_so_far bo bm sz start nr len sb ?i"
        using less.prems sb later i_hole len_index worse by (fastforce simp: best_so_far_def)
      from less.hyps [OF dec this] show ?thesis
        using True worse by (subst best_fit_loop.simps) (simp add: Let_def)
    qed
  qed
qed

lemma best_fit_best:
  assumes "0 < nr"
  shows "\<exists>s. gen_pool_best_fit bo bm sz start nr = Some s \<and> best_fit_ok bo bm sz start nr s"
proof -
  let ?i = "bitmap_find_next_zero_area bo bm sz start nr 0"
  have none: "\<not> is_hole bm sz start nr j" if "j < ?i" for j
  proof
    assume "is_hole bm sz start nr j"
    then have "zero_area_at bm sz start nr 0 0 j" by (simp add: is_hole_def zero_area_at_def)
    from zero_area_first [OF this] that show False by (simp add: bitmap_find_next_zero_area_def)
  qed
  have "is_hole bm sz start nr ?i" if "?i < sz"
    by (rule zero_area_is_hole [of start start bm nr ?i sz]) (use assms that in auto)
  then have "best_so_far bo bm sz start nr (sz + 1) sz ?i" using none by (simp add: best_so_far_def)
  from best_fit_loop_ok [OF this assms] show ?thesis by (simp add: gen_pool_best_fit_def)
qed

end

text \<open>
  C6. \<open>gen_pool_best_fit\<close> returns, and what it returns is best: the start of a free run of at least
  \<open>nr\<close> bits such that no other long enough free run is shorter; if there is no such run it
  answers the size of the bitmap.
\<close>
theorem gen_pool_best_fit_is_best:
  assumes "bitmap_search bo" and "0 < nr"
  shows "\<exists>s. gen_pool_best_fit bo bm sz start nr = Some s \<and>
     (if s < sz then is_hole bm sz start nr s \<and>
        (\<forall>j. is_hole bm sz start nr j \<longrightarrow> hole_len bo bm sz nr s \<le> hole_len bo bm sz nr j)
      else s = sz \<and> (\<forall>j. \<not> is_hole bm sz start nr j))"
  using bitmap_search.best_fit_best [OF assms] by (simp add: best_fit_ok_def)

subsection \<open>Managed pools\<close>

text \<open>
  A device has at most one pool of a name: \<open>devm_gen_pool_create\<close> refuses a name that is
  taken with -EINVAL, and on success the pool is the one found under its name while every other
  name is answered as before; a failure changes nothing.
\<close>
theorem devm_gen_pool_create_unique:
  "case devm_gen_pool_create strdup_ok devres_ok kmalloc_ok first_fit order name devres of
     (Inl e, devres') \<Rightarrow> devres' = devres \<and> (e = EINVAL \<longleftrightarrow> gen_pool_get devres name \<noteq> None)
   | (Inr pool, devres') \<Rightarrow> gen_pool_get devres name = None \<and>
       (\<forall>other. gen_pool_get devres' other = (if other = name then Some pool else gen_pool_get devres other)) \<and>
       gp_chunks pool = [] \<and> min_alloc_order pool = order"
  by (auto simp: devm_gen_pool_create_def gen_pool_create_def gen_pool_get_def devm_gen_pool_match_def)

subsection \<open>Concrete instances\<close>

text \<open>The bitmap searches by inspection of every position.\<close>
definition zero_area_test :: "bitmap \<Rightarrow> nat \<Rightarrow> nat \<Rightarrow> u64 \<Rightarrow> u64 \<Rightarrow> nat \<Rightarrow> bool" where
  "zero_area_test bm sz nr msk off i \<longleftrightarrow>
     i + nr \<le> sz \<and> list_all (\<lambda>k. \<not> bit_at bm k) [i..<i + nr] \<and> (of_nat i + off) AND msk = 0"

definition scan_from :: "(nat \<Rightarrow> bool) \<Rightarrow> nat \<Rightarrow> nat \<Rightarrow> nat" where
  "scan_from P start sz = (case List.find P [start..<sz] of None \<Rightarrow> sz | Some i \<Rightarrow> i)"

definition scan_bitops :: bitops where
  "scan_bitops = \<lparr>bitmap_find_next_zero_area_off =
       (\<lambda>bm sz start nr msk off. scan_from (zero_area_test bm sz nr msk off) start sz),
     find_next_bit = (\<lambda>bm sz start. scan_from (bit_at bm) start sz),
     find_first_bit = (\<lambda>bm sz. scan_from (bit_at bm) 0 sz)\<rparr>"

lemma scan_from_found: "scan_from P start sz < sz \<Longrightarrow> P (scan_from P start sz) \<and> start \<le> scan_from P start sz"
  by (auto simp: scan_from_def split: option.splits dest: find_SomeD)

lemma scan_from_first: "start \<le> i \<Longrightarrow> i < sz \<Longrightarrow> P i \<Longrightarrow> scan_from P start sz \<le> i"
proof -
  assume i: "start \<le> i" "i < sz" "P i"
  show "scan_from P start sz \<le> i"
  proof (cases "List.find P [start..<sz]")
    case None
    then show ?thesis using i by (auto simp: find_None_iff_all)
  next
    case (Some j)
    then obtain n where n: "n < length [start..<sz]" "[start..<sz] ! n = j" "\<forall>k<n. \<not> P ([start..<sz] ! k)"
      by (auto simp: find_Some_iff)
    then have "j = start + n" by simp
    moreover have "\<not> i < j"
    proof
      assume "i < j"
      then have "i - start < n" using \<open>j = start + n\<close> i(1) by linarith
      then have "\<not> P ([start..<sz] ! (i - start))" using n(3) by blast
      then show False using i by simp
    qed
    ultimately show ?thesis using Some by (simp add: scan_from_def)
  qed
qed

lemma scan_from_le: "scan_from P start sz \<le> sz"
  by (auto simp: scan_from_def split: option.splits dest: find_SomeD)

interpretation scan: bitmap_search scan_bitops
proof
  fix bm sz start nr msk off i k
  let ?z = "scan_from (zero_area_test bm sz nr msk off) start sz"
  show "bitmap_find_next_zero_area_off scan_bitops bm sz start nr msk off < sz \<Longrightarrow>
       zero_area_at bm sz start nr msk off (bitmap_find_next_zero_area_off scan_bitops bm sz start nr msk off)"
    using scan_from_found [of "zero_area_test bm sz nr msk off" start sz]
    by (auto simp: scan_bitops_def zero_area_at_def zero_area_test_def range_free_def list_all_iff)
  show "zero_area_at bm sz start nr msk off i \<Longrightarrow> bitmap_find_next_zero_area_off scan_bitops bm sz start nr msk off \<le> i"
    using scan_from_first [of start i sz "zero_area_test bm sz nr msk off"]
      scan_from_le [of "zero_area_test bm sz nr msk off" start sz]
    by (cases "i < sz") (auto simp: scan_bitops_def zero_area_at_def zero_area_test_def range_free_def list_all_iff)
  show "start \<le> sz \<Longrightarrow> start \<le> find_next_bit scan_bitops bm sz start \<and> find_next_bit scan_bitops bm sz start \<le> sz"
    using scan_from_found [of "bit_at bm" start sz] scan_from_le [of "bit_at bm" start sz]
    by (cases "scan_from (bit_at bm) start sz < sz") (auto simp: scan_bitops_def)
  show "find_next_bit scan_bitops bm sz start < sz \<Longrightarrow> bit_at bm (find_next_bit scan_bitops bm sz start)"
    using scan_from_found [of "bit_at bm" start sz] by (simp add: scan_bitops_def)
  show "start \<le> k \<Longrightarrow> k < find_next_bit scan_bitops bm sz start \<Longrightarrow> k < sz \<Longrightarrow> \<not> bit_at bm k"
    using scan_from_first [of start k sz "bit_at bm"] by (auto simp: scan_bitops_def)
  show "find_first_bit scan_bitops bm sz < sz \<longleftrightarrow> (\<exists>k < sz. bit_at bm k)"
    using scan_from_found [of "bit_at bm" 0 sz] scan_from_first [of 0 _ sz "bit_at bm"]
    by (auto simp: scan_bitops_def intro: le_less_trans)
qed

interpretation scan_align: genpool_algo "gen_pool_first_fit_align scan_bitops align" for align
  by (rule scan.first_fit_align_algo)

interpretation scan_fixed: genpool_algo "gen_pool_fixed_alloc scan_bitops offset" for offset
  by (rule scan.fixed_alloc_algo)

interpretation scan_order: genpool_algo "gen_pool_first_fit_order_align scan_bitops roundup_pow" for roundup_pow
  by (rule scan.first_fit_order_align_algo)

text \<open>A pool of 64 units of 16 bytes at address 0x1000.\<close>
definition demo_pool :: gen_pool where
  "demo_pool = \<lparr>gp_chunks = [\<lparr>gc_phys_addr = 0x80000000, gc_owner = Some 9, gc_start_addr = 0x1000,
       gc_end_addr = 0x13ff, gc_avail = 0x400, gc_bits = replicate 1 0\<rparr>],
     min_alloc_order = 4, gp_algo = gen_pool_first_fit scan_bitops, gp_name = None\<rparr>"

lemma demo_pool_wf: "pool_wf demo_pool"
  by (simp add: pool_wf_def demo_pool_def chunk_wf_def chunk_bits_def chunk_size_def unat_drop_bit_eq drop_bit_eq_div
      del: replicate.simps)

lemma demo_size_ok: "size_ok (min_alloc_order demo_pool) 100"
  by (simp add: size_ok_def demo_pool_def size_to_bits_nat)

theorem gen_pool_alloc_refines_witness:
  "\<exists>addr owner pool'. gen_pool_alloc_algo_owner (gen_pool_first_fit scan_bitops) 100 demo_pool =
     Some (Inr (addr, owner, pool')) \<and> pool_wf pool' \<and> managed pool' = managed demo_pool"
  using gen_pool_alloc_refines [OF scan.bitmap_search_axioms demo_pool_wf demo_size_ok] by blast

lemma demo_search: "gen_pool_first_fit_align scan_bitops 64 [0] 64 0 7 4 0x1000 = 0"
proof -
  have "List.find P [0..<64] = Some 0" if "P 0" for P
    using that by (simp add: upt_conv_Cons)
  then have "scan_from P 0 64 = 0" if "P 0" for P using that by (simp add: scan_from_def)
  moreover have "zero_area_test [0] 64 7 3 0 0"
    by (simp add: zero_area_test_def bit_at_def list_all_iff)
  ultimately show ?thesis by (simp add: gen_pool_first_fit_align_def scan_bitops_def)
qed

lemma demo_alloc:
  "\<exists>pool. gen_pool_alloc_algo_owner (gen_pool_first_fit_align scan_bitops 64) 100 demo_pool =
     Some (Inr (0x1000, Some 9, pool))"
proof -
  obtain bm where bm: "alloc_retry (gen_pool_first_fit_align scan_bitops 64) 4 0x1000 7 64 [0] 0 = Some (Inr (Some 0, bm))"
    using scan_align.alloc_retry_first [where sz = 64 and bm = "[0]" and nr = 7 and start = 0 and order = 4
        and sa = "0x1000" and s = 0 and align = 64] demo_search by auto
  have "size_to_bits 4 100 = 7" by (simp add: size_to_bits_def)
  then show ?thesis
    using bm by (simp add: gen_pool_alloc_algo_owner_def demo_pool_def chunk_size_def)
qed

theorem gen_pool_free_undoes_alloc_witness:
  "\<exists>pool. gen_pool_alloc_algo_owner (gen_pool_first_fit_align scan_bitops 64) 100 demo_pool =
     Some (Inr (0x1000, Some 9, pool)) \<and> gen_pool_free_owner 0x1000 100 pool = Inr (Some 9, demo_pool)"
proof -
  from demo_alloc obtain pool where
    a: "gen_pool_alloc_algo_owner (gen_pool_first_fit_align scan_bitops 64) 100 demo_pool =
     Some (Inr (0x1000, Some 9, pool))" by blast
  with gen_pool_free_undoes_alloc [OF scan.bitmap_search_axioms demo_pool_wf demo_size_ok a] show ?thesis by auto
qed

lemma demo_alloc_first_fit:
  "\<exists>pool. gen_pool_alloc_algo_owner (gen_pool_first_fit scan_bitops) 100 demo_pool =
     Some (Inr (0x1000, Some 9, pool))"
proof -
  have "gen_pool_first_fit scan_bitops [0] 64 0 7 4 0x1000 = 0"
    using demo_search
    by (simp add: gen_pool_first_fit_def gen_pool_first_fit_align_def bitmap_find_next_zero_area_def scan_bitops_def
        scan_from_def zero_area_test_def bit_at_def list_all_iff upt_conv_Cons)
  then obtain bm where bm: "alloc_retry (gen_pool_first_fit scan_bitops) 4 0x1000 7 64 [0] 0 = Some (Inr (Some 0, bm))"
    using scan.first_fit.alloc_retry_first [where sz = 64 and bm = "[0]" and nr = 7 and start = 0 and order = 4
        and sa = "0x1000" and s = 0] by auto
  have "size_to_bits 4 100 = 7" by (simp add: size_to_bits_def)
  then show ?thesis
    using bm by (simp add: gen_pool_alloc_algo_owner_def demo_pool_def chunk_size_def)
qed

theorem gen_pool_alloc_translates_witness:
  "\<exists>pool. gen_pool_alloc_algo_owner (gen_pool_first_fit scan_bitops) 100 demo_pool = Some (Inr (0x1000, Some 9, pool)) \<and>
     gen_pool_virt_to_phys pool 0x1010 = 0x80000010"
proof -
  from demo_alloc_first_fit obtain pool where
    a: "gen_pool_alloc_algo_owner (gen_pool_first_fit scan_bitops) 100 demo_pool = Some (Inr (0x1000, Some 9, pool))" by blast
  with gen_pool_alloc_translates [OF scan.bitmap_search_axioms demo_pool_wf demo_size_ok a, where k = "0x10"] show ?thesis
    by (auto simp: demo_pool_def)
qed

theorem gen_pool_add_owner_extends_witness:
  "managed (snd (gen_pool_add_owner True 0x2000 0x90000000 0x100 None demo_pool)) = managed demo_pool \<union> {0x2000..<0x2100}"
proof -
  have "min_alloc_order demo_pool < 64" by (simp add: demo_pool_def)
  moreover have "{unat (0x2000 :: u64) ..< unat (0x2000 :: u64) + unat (0x100 :: u64)} \<inter> managed demo_pool = {}"
    by (auto simp: demo_pool_def managed_def chunk_range_def)
  ultimately show ?thesis
    using gen_pool_add_owner_extends [OF demo_pool_wf _ _ _ _ _ surjective_pairing,
        where virt = "0x2000" and sz = "0x100" and ok = True and phys = "0x90000000" and owner = None]
    by simp
qed

theorem gen_pool_destroy_checks_witness: "gen_pool_destroy scan_bitops demo_pool = Inr ()"
  using gen_pool_destroy_checks [OF scan.bitmap_search_axioms demo_pool_wf]
  by (simp add: demo_pool_def allocated_def chunks_allocated_def chunk_allocated_def del: replicate.simps)

theorem gen_pool_best_fit_is_best_witness:
  "\<exists>s. gen_pool_best_fit scan_bitops [0xff0f] 64 0 2 = Some s"
  using gen_pool_best_fit_is_best [OF scan.bitmap_search_axioms, of 2 "[0xff0f]" 64 0] by auto

end
