(* ===== verification/Hgsmi.thy ===== *)
theory Hgsmi
  imports Guest_Memory Genalloc_Laws
begin

text \<open>
  The Host-Guest Shared Memory Interface of the VirtualBox adapter
  (\<^verbatim>\<open>drivers/gpu/drm/vboxvideo/vbox_hgsmi.c\<close>, \<^verbatim>\<open>hgsmi_base.c\<close>, \<^verbatim>\<open>modesetting.c\<close>). A command is a buffer
  from the guest heap, a \<open>gen_pool\<close>, framed by a header and a checksummed tail; its offset is
  written to a port, the host handles it while the guest waits, and the buffer is freed. The host
  is an argument: the effect on shared memory of handling the buffer at an offset. The port writes
  are recorded in order.
\<close>

subsection \<open>State\<close>

type_synonym host = "u32 \<Rightarrow> memory \<Rightarrow> memory"

record guest =
  g_pool :: gen_pool
  g_mem :: memory
  g_out :: "(u16 \<times> u32) list"

text \<open>
  A call on a state that may trip an assertion of the allocator (\<open>Inl\<close>) or not return (\<open>None\<close>).
\<close>
type_synonym ('s, 'a) call = "'s \<Rightarrow> (gp_bug + 'a \<times> 's) option"
type_synonym 'a hgsmi = "(guest, 'a) call"

definition hg_return :: "'a \<Rightarrow> ('s, 'a) call" where
  "hg_return x g = Some (Inr (x, g))"

definition hg_bind :: "('s, 'a) call \<Rightarrow> ('a \<Rightarrow> ('s, 'b) call) \<Rightarrow> ('s, 'b) call" where
  "hg_bind f k g =
     (case f g of None \<Rightarrow> None | Some (Inl e) \<Rightarrow> Some (Inl e) | Some (Inr (x, g')) \<Rightarrow> k x g')"

lemma hg_bind_simps [simp]:
  "f g = Some (Inr (x, g')) \<Longrightarrow> hg_bind f k g = k x g'"
  "f g = Some (Inl e) \<Longrightarrow> hg_bind f k g = Some (Inl e)"
  "f g = None \<Longrightarrow> hg_bind f k g = None"
  by (simp_all add: hg_bind_def)

subsection \<open>The checksum\<close>

primrec hgsmi_hash_process :: "u32 \<Rightarrow> u8 list \<Rightarrow> u32" where
  "hgsmi_hash_process hash [] = hash"
| "hgsmi_hash_process hash (b # bs) =
     (let h1 = hash + ucast b; h2 = h1 + push_bit 10 h1; h3 = h2 XOR drop_bit 6 h2
      in hgsmi_hash_process h3 bs)"

definition hgsmi_hash_end :: "u32 \<Rightarrow> u32" where
  "hgsmi_hash_end hash =
     (let h1 = hash + push_bit 3 hash; h2 = h1 XOR drop_bit 11 h1 in h2 + push_bit 15 h2)"

text \<open>\<open>header\<close> and \<open>tail\<close> are the bytes behind the two pointers.\<close>
definition hgsmi_checksum :: "u32 \<Rightarrow> u8 list \<Rightarrow> u8 list \<Rightarrow> u32" where
  "hgsmi_checksum offset header tail =
     hgsmi_hash_end
       (hgsmi_hash_process (hgsmi_hash_process (hgsmi_hash_process 0 (le32 offset)) header) (take 4 tail))"

subsection \<open>Buffers\<close>

definition HGSMI_BUFFER_HEADER_F_SEQ_SINGLE :: u8 where
  "HGSMI_BUFFER_HEADER_F_SEQ_SINGLE = 0"

definition VGA_PORT_HGSMI_GUEST :: u16 where
  "VGA_PORT_HGSMI_GUEST = 0x3d0"

text \<open>
  The header has its 16 bytes at \<open>h\<close> (\<open>data_size\<close> 0, \<open>flags\<close> 4, \<open>channel\<close> 5, \<open>channel_info\<close> 6,
  \<open>header_data\<close> 8), the tail its 8 bytes behind the data (\<open>reserved\<close> 0, \<open>checksum\<close> 4).
\<close>
definition hgsmi_buffer_alloc :: "u64 \<Rightarrow> u8 \<Rightarrow> u16 \<Rightarrow> u64 option hgsmi" where
  "hgsmi_buffer_alloc sz channel channel_info g =
     (case gen_pool_dma_alloc (sz + 16 + 8) (g_pool g) of
        None \<Rightarrow> None
      | Some (Inl e) \<Rightarrow> Some (Inl e)
      | Some (Inr (res, pool)) \<Rightarrow>
         (let g1 = (case pool of None \<Rightarrow> g | Some p \<Rightarrow> g\<lparr>g_pool := p\<rparr>)
          in case res of
               None \<Rightarrow> Some (Inr (None, g1))
             | Some (h, offset) \<Rightarrow>
                (let t = h + 16 + sz;
                     m1 = store_fields h [(4, [HGSMI_BUFFER_HEADER_F_SEQ_SINGLE]), (0, le32 (ucast sz)),
                            (5, [channel]), (6, le16 channel_info), (8, replicate 8 0)] (g_mem g1);
                     m2 = store_bytes t (le32 0) m1;
                     m3 = wr32 (t + 4) (hgsmi_checksum (ucast offset) (load_bytes m2 h 16) (load_bytes m2 t 8)) m2
                 in Some (Inr (Some (h + 16), g1\<lparr>g_mem := m3\<rparr>)))))"

definition hgsmi_buffer_free :: "u64 \<Rightarrow> unit hgsmi" where
  "hgsmi_buffer_free buf g =
     (let h = buf - 16; total_size = ucast (rd32 (g_mem g) h) + 16 + 8
      in case gen_pool_free_owner h total_size (g_pool g) of
           Inl e \<Rightarrow> Some (Inl e)
         | Inr (_, pool) \<Rightarrow> Some (Inr ((), g\<lparr>g_pool := pool\<rparr>)))"

definition hgsmi_buffer_submit :: "host \<Rightarrow> u64 \<Rightarrow> unit hgsmi" where
  "hgsmi_buffer_submit hst buf g =
     (let offset = ucast (gen_pool_virt_to_phys (g_pool g) (buf - 16))
      in Some (Inr ((), g\<lparr>g_out := g_out g @ [(VGA_PORT_HGSMI_GUEST, offset)], g_mem := hst offset (g_mem g)\<rparr>)))"

text \<open>
  The shape of every command: allocate, fill the fields in at their offsets, submit, read
  the answer, free. None is a failed allocation.
\<close>
definition hgsmi_call ::
    "host \<Rightarrow> u64 \<Rightarrow> u8 \<Rightarrow> u16 \<Rightarrow> (nat \<times> u8 list) list \<Rightarrow> (memory \<Rightarrow> u64 \<Rightarrow> 'a) \<Rightarrow> 'a option hgsmi" where
  "hgsmi_call hst sz channel channel_info fs answer =
     hg_bind (hgsmi_buffer_alloc sz channel channel_info) (\<lambda>p.
       case p of None \<Rightarrow> hg_return None
       | Some buf \<Rightarrow>
          (\<lambda>g. hg_bind (hgsmi_buffer_submit hst buf) (\<lambda>_ g1.
                 hg_bind (hgsmi_buffer_free buf) (\<lambda>_. hg_return (Some (answer (g_mem g1) buf))) g1)
               (g\<lparr>g_mem := store_fields buf fs (g_mem g)\<rparr>)))"

subsection \<open>Commands\<close>

definition HGSMI_CH_HGSMI :: u8 where "HGSMI_CH_HGSMI = 1"
definition HGSMI_CH_VBVA :: u8 where "HGSMI_CH_VBVA = 2"
definition HGSMI_CC_HOST_FLAGS_LOCATION :: u16 where "HGSMI_CC_HOST_FLAGS_LOCATION = 0"
definition VBVA_QUERY_CONF32 :: u16 where "VBVA_QUERY_CONF32 = 1"
definition VBVA_FLUSH :: u16 where "VBVA_FLUSH = 5"
definition VBVA_INFO_SCREEN :: u16 where "VBVA_INFO_SCREEN = 6"
definition VBVA_ENABLE :: u16 where "VBVA_ENABLE = 7"
definition VBVA_MOUSE_POINTER_SHAPE :: u16 where "VBVA_MOUSE_POINTER_SHAPE = 8"
definition VBVA_INFO_CAPS :: u16 where "VBVA_INFO_CAPS = 12"
definition VBVA_QUERY_MODE_HINTS :: u16 where "VBVA_QUERY_MODE_HINTS = 19"
definition VBVA_REPORT_INPUT_MAPPING :: u16 where "VBVA_REPORT_INPUT_MAPPING = 20"
definition VBVA_CURSOR_POSITION :: u16 where "VBVA_CURSOR_POSITION = 21"
definition VINF_SUCCESS :: u32 where "VINF_SUCCESS = 0"
definition VERR_NO_MEMORY :: u32 where "VERR_NO_MEMORY = - 8"
definition VERR_NOT_IMPLEMENTED :: u32 where "VERR_NOT_IMPLEMENTED = - 12"
definition VERR_NOT_SUPPORTED :: u32 where "VERR_NOT_SUPPORTED = - 37"
definition U32_MAX :: u32 where "U32_MAX = - 1"

text \<open>The commands that return 0 or -ENOMEM.\<close>
definition hgsmi_done :: "'a option hgsmi \<Rightarrow> 'a result hgsmi" where
  "hgsmi_done f = hg_bind f (\<lambda>r. hg_return (case r of None \<Rightarrow> Inl ENOMEM | Some x \<Rightarrow> Inr x))"

definition hgsmi_report_flags_location :: "host \<Rightarrow> u32 \<Rightarrow> unit result hgsmi" where
  "hgsmi_report_flags_location hst location =
     hgsmi_done (hgsmi_call hst 8 HGSMI_CH_HGSMI HGSMI_CC_HOST_FLAGS_LOCATION
       [(0, le32 location), (4, le32 16)] (\<lambda>m p. ()))"

definition hgsmi_send_caps_info :: "host \<Rightarrow> u32 \<Rightarrow> unit result hgsmi" where
  "hgsmi_send_caps_info hst caps =
     hgsmi_done (hgsmi_call hst 8 HGSMI_CH_VBVA VBVA_INFO_CAPS
       [(0, le32 VERR_NOT_IMPLEMENTED), (4, le32 caps)] (\<lambda>m p. ()))"

text \<open>The value is what \<open>*value_ret\<close> receives.\<close>
definition hgsmi_query_conf :: "host \<Rightarrow> u32 \<Rightarrow> u32 result hgsmi" where
  "hgsmi_query_conf hst index =
     hgsmi_done (hgsmi_call hst 8 HGSMI_CH_VBVA VBVA_QUERY_CONF32
       [(0, le32 index), (4, le32 U32_MAX)] (\<lambda>m p. rd32 m (p + 4)))"

definition hgsmi_test_query_conf :: "host \<Rightarrow> unit result hgsmi" where
  "hgsmi_test_query_conf hst =
     hg_bind (hgsmi_query_conf hst U32_MAX) (\<lambda>r.
       hg_return (case r of Inl e \<Rightarrow> Inl e | Inr v \<Rightarrow> if v = U32_MAX then Inr () else Inl EIO))"

definition VBOX_MOUSE_POINTER_VISIBLE :: u32 where "VBOX_MOUSE_POINTER_VISIBLE = 1"
definition VBOX_MOUSE_POINTER_ALPHA :: u32 where "VBOX_MOUSE_POINTER_ALPHA = 2"
definition VBOX_MOUSE_POINTER_SHAPE :: u32 where "VBOX_MOUSE_POINTER_SHAPE = 4"

definition pointer_pixel_len :: "u32 \<Rightarrow> u32 \<Rightarrow> u32" where
  "pointer_pixel_len width height =
     ((((width + 7) div 8) * height + 3) AND NOT 3) + width * 4 * height"

definition pointer_shape_rc :: "u32 \<Rightarrow> unit result" where
  "pointer_shape_rc res =
     (if res = VINF_SUCCESS then Inr ()
      else if res = VERR_NO_MEMORY then Inl ENOMEM
      else if res = VERR_NOT_SUPPORTED then Inl EBUSY
      else Inl EINVAL)"

text \<open>\<open>pixels\<close> are the bytes behind the pointer, of which \<open>len\<close> belong to the caller.\<close>
definition hgsmi_update_pointer_shape ::
    "host \<Rightarrow> u32 \<Rightarrow> u32 \<Rightarrow> u32 \<Rightarrow> u32 \<Rightarrow> u32 \<Rightarrow> u8 list \<Rightarrow> u32 \<Rightarrow> unit result hgsmi" where
  "hgsmi_update_pointer_shape hst flags hot_x hot_y width height pixels len =
     (let shape = (flags AND VBOX_MOUSE_POINTER_SHAPE \<noteq> 0);
          pixel_len = (if shape then pointer_pixel_len width height else 0);
          flags' = (if shape then flags OR VBOX_MOUSE_POINTER_VISIBLE else flags)
      in if shape \<and> pixel_len > len then hg_return (Inl EINVAL)
         else hg_bind (hgsmi_call hst (24 + ucast pixel_len + 4) HGSMI_CH_VBVA VBVA_MOUSE_POINTER_SHAPE
                ([(0, le32 VINF_SUCCESS), (4, le32 flags'), (8, le32 hot_x), (12, le32 hot_y),
                  (16, le32 width), (20, le32 height)] @
                 (if pixel_len \<noteq> 0 then [(24, take (unat pixel_len) pixels)] else []))
                (\<lambda>m p. rd32 m p))
              (\<lambda>r. hg_return (case r of None \<Rightarrow> Inl ENOMEM | Some res \<Rightarrow> pointer_shape_rc res)))"

text \<open>The values are what \<open>*x_host\<close> and \<open>*y_host\<close> receive.\<close>
definition hgsmi_cursor_position :: "host \<Rightarrow> bool \<Rightarrow> u32 \<Rightarrow> u32 \<Rightarrow> (u32 \<times> u32) result hgsmi" where
  "hgsmi_cursor_position hst report_position x y =
     hgsmi_done (hgsmi_call hst 12 HGSMI_CH_VBVA VBVA_CURSOR_POSITION
       [(0, le32 (of_bool report_position)), (4, le32 x), (8, le32 y)]
       (\<lambda>m p. (rd32 m (p + 4), rd32 m (p + 8))))"

definition hgsmi_process_display_info ::
    "host \<Rightarrow> u32 \<Rightarrow> u32 \<Rightarrow> u32 \<Rightarrow> u32 \<Rightarrow> u32 \<Rightarrow> u32 \<Rightarrow> u32 \<Rightarrow> u16 \<Rightarrow> u16 \<Rightarrow> unit hgsmi" where
  "hgsmi_process_display_info hst display origin_x origin_y start_offset pitch width height bpp flags =
     hg_bind (hgsmi_call hst 32 HGSMI_CH_VBVA VBVA_INFO_SCREEN
       [(0, le32 display), (4, le32 origin_x), (8, le32 origin_y), (12, le32 start_offset),
        (16, le32 pitch), (20, le32 width), (24, le32 height), (28, le16 bpp), (30, le16 flags)]
       (\<lambda>m p. ())) (\<lambda>_. hg_return ())"

definition hgsmi_update_input_mapping :: "host \<Rightarrow> u32 \<Rightarrow> u32 \<Rightarrow> u32 \<Rightarrow> u32 \<Rightarrow> unit result hgsmi" where
  "hgsmi_update_input_mapping hst origin_x origin_y width height =
     hgsmi_done (hgsmi_call hst 16 HGSMI_CH_VBVA VBVA_REPORT_INPUT_MAPPING
       [(0, le32 origin_x), (4, le32 origin_y), (8, le32 width), (12, le32 height)] (\<lambda>m p. ()))"

record vbva_modehint =
  mh_magic :: u32
  mh_cx :: u32
  mh_cy :: u32
  mh_bpp :: u32
  mh_display :: u32
  mh_dx :: u32
  mh_dy :: u32
  mh_enabled :: u32

definition rd_modehint :: "memory \<Rightarrow> u64 \<Rightarrow> vbva_modehint" where
  "rd_modehint m a =
     \<lparr>mh_magic = rd32 m a, mh_cx = rd32 m (a + 4), mh_cy = rd32 m (a + 8), mh_bpp = rd32 m (a + 12),
      mh_display = rd32 m (a + 16), mh_dx = rd32 m (a + 20), mh_dy = rd32 m (a + 24), mh_enabled = rd32 m (a + 28)\<rparr>"

text \<open>
  \<open>hints\<close> is false for a NULL pointer; the array it points to receives the list returned.
\<close>
definition hgsmi_get_mode_hints :: "host \<Rightarrow> u32 \<Rightarrow> bool \<Rightarrow> vbva_modehint list result hgsmi" where
  "hgsmi_get_mode_hints hst screens hints =
     (if \<not> hints then hg_return (Inl EINVAL)
      else hg_bind (hgsmi_call hst (8 + ucast screens * 32) HGSMI_CH_VBVA VBVA_QUERY_MODE_HINTS
             [(0, le16 (ucast screens)), (2, le16 32), (4, le32 VERR_NOT_SUPPORTED)]
             (\<lambda>m p. if sint (rd32 m (p + 4)) < 0 then Inl EIO
                     else Inr (map (\<lambda>i. rd_modehint m (p + 8 + of_nat (32 * i))) [0..<unat screens])))
           (\<lambda>r. hg_return (case r of None \<Rightarrow> Inl ENOMEM | Some x \<Rightarrow> x)))"

end
