(* ===== verification/Hgsmi_Laws.thy ===== *)
theory Hgsmi_Laws
  imports Hgsmi
begin

text \<open>
  What the HGSMI commands guarantee: the frame around a command verifies, the host sees the fields
  that were given, the answer is passed on and the guest heap is left as it was. The proofs
  rest on the allocator's contract: what was taken from the pool is given back by the same address and size.
\<close>

subsection \<open>The frame of a buffer\<close>

lemma ucast_down_up:
  fixes w :: u64
  assumes "unat w < 2 ^ 32"
  shows "ucast (ucast w :: u32) = w"
  using assms by (simp add: take_bit_word_self unsigned_ucast_eq word_eq_iff_unsigned flip: take_bit_eq_mask)

definition header_bytes :: "u64 \<Rightarrow> u8 \<Rightarrow> u16 \<Rightarrow> u8 list" where
  "header_bytes sz channel channel_info =
     le32 (ucast sz) @ [HGSMI_BUFFER_HEADER_F_SEQ_SINGLE, channel] @ le16 channel_info @ replicate 8 0"

definition header_fields :: "u64 \<Rightarrow> u8 \<Rightarrow> u16 \<Rightarrow> (nat \<times> u8 list) list" where
  "header_fields sz channel channel_info =
     [(4, [HGSMI_BUFFER_HEADER_F_SEQ_SINGLE]), (0, le32 (ucast sz)), (5, [channel]),
      (6, le16 channel_info), (8, replicate 8 0)]"

text \<open>All stores of \<open>hgsmi_buffer_alloc\<close>, at their offsets from the header.\<close>
definition buffer_fields :: "u32 \<Rightarrow> u64 \<Rightarrow> u8 \<Rightarrow> u16 \<Rightarrow> (nat \<times> u8 list) list" where
  "buffer_fields offset sz channel channel_info =
     header_fields sz channel channel_info @
     [(16 + unat sz, le32 0),
      (20 + unat sz, le32 (hgsmi_checksum offset (header_bytes sz channel channel_info) (le32 0)))]"

text \<open>A buffer the host accepts: the header as documented and a tail whose checksum verifies.\<close>
definition valid_buffer :: "memory \<Rightarrow> u64 \<Rightarrow> u32 \<Rightarrow> u64 \<Rightarrow> u8 \<Rightarrow> u16 \<Rightarrow> bool" where
  "valid_buffer m h offset sz channel channel_info \<longleftrightarrow>
     load_bytes m h 16 = header_bytes sz channel channel_info \<and>
     rd32 m (h + 16 + sz) = 0 \<and>
     rd32 m (h + 16 + sz + 4) = hgsmi_checksum offset (load_bytes m h 16) (load_bytes m (h + 16 + sz) 8)"

lemma store_fields_append: "store_fields a (xs @ ys) m = store_fields a ys (store_fields a xs m)"
  by (induction a xs m rule: store_fields.induct) simp_all

lemma length_header_bytes [simp]: "length (header_bytes sz channel channel_info) = 16"
  by (simp add: header_bytes_def)

lemma header_fields_shape:
  "fields_apart (header_fields sz channel channel_info)" "fields_end (header_fields sz channel channel_info) = 16"
  by (simp_all add: header_fields_def)

lemma load_header:
  "load_bytes (store_fields h (header_fields sz channel channel_info) m) h 16 = header_bytes sz channel channel_info"
proof -
  let ?m = "store_fields h (header_fields sz channel channel_info) m"
  have field: "load_bytes ?m (h + of_nat off) (length bs) = bs"
    if "(off, bs) \<in> set (header_fields sz channel channel_info)" for off bs
    by (rule load_store_fields [OF header_fields_shape(1) _ that]) (simp add: header_fields_shape(2))
  have split: "load_bytes ?m h 16 = load_bytes ?m h 4 @ load_bytes ?m (h + 4) 1 @ load_bytes ?m (h + 5) 1 @
      load_bytes ?m (h + 6) 2 @ load_bytes ?m (h + 8) 8"
    using load_bytes_append [of ?m h 4 12] load_bytes_append [of ?m "h + 4" 1 11]
      load_bytes_append [of ?m "h + 5" 1 10] load_bytes_append [of ?m "h + 6" 2 8] by (simp add: add.commute)
  show ?thesis
    unfolding split header_bytes_def
    using field [of 4 "[HGSMI_BUFFER_HEADER_F_SEQ_SINGLE]"] field [of 0 "le32 (ucast sz)"]
      field [of 5 "[channel]"] field [of 6 "le16 channel_info"] field [of 8 "replicate 8 0"]
    by (simp add: header_fields_def)
qed

text \<open>The stores of the allocation, in one sequence.\<close>
lemma alloc_stores:
  assumes "unat sz + 24 \<le> 2 ^ 64"
    and "m1 = store_fields h (header_fields sz channel channel_info) m"
    and "m2 = store_bytes (h + 16 + sz) (le32 0) m1"
    and "m3 = wr32 (h + 16 + sz + 4)
           (hgsmi_checksum offset (load_bytes m2 h 16) (load_bytes m2 (h + 16 + sz) 8)) m2"
  shows "m3 = store_fields h (buffer_fields offset sz channel channel_info) m"
proof -
  have m2: "m2 = store_fields h (header_fields sz channel channel_info @ [(16 + unat sz, le32 0)]) m"
    using assms(2,3) by (simp add: store_fields_append add.assoc)
  have "load_bytes m2 (h + of_nat 0) 16 = load_bytes m1 (h + of_nat 0) 16"
    using load_store_fields_other [of "[(16 + unat sz, le32 0)]" 0 16 h m1] assms(1,3) by (simp add: add.assoc)
  then have hdr: "load_bytes m2 h 16 = header_bytes sz channel channel_info"
    using load_header assms(2) by simp
  have "load_bytes m2 (h + 16 + sz) 4 = le32 0"
    using load_store_bytes [of "le32 0" "h + 16 + sz" m1] assms(3) by simp
  then have "take 4 (load_bytes m2 (h + 16 + sz) 8) = le32 0"
    using load_bytes_append [of m2 "h + 16 + sz" 4 4] by simp
  then have "hgsmi_checksum offset (load_bytes m2 h 16) (load_bytes m2 (h + 16 + sz) 8) =
      hgsmi_checksum offset (header_bytes sz channel channel_info) (le32 0)"
    by (simp add: hgsmi_checksum_def hdr)
  then show ?thesis
    using assms(4) m2 by (simp add: buffer_fields_def store_fields_append wr32_def ac_simps)
qed

lemma buffer_fields_shape:
  "fields_apart (buffer_fields offset sz channel channel_info)"
  "fields_end (buffer_fields offset sz channel channel_info) = unat sz + 24"
  by (simp_all add: buffer_fields_def header_fields_def)

lemma stored_buffer_valid:
  assumes "unat sz + 24 \<le> 2 ^ 64"
  shows "valid_buffer (store_fields h (buffer_fields offset sz channel channel_info) m) h offset sz channel channel_info"
proof -
  let ?m = "store_fields h (buffer_fields offset sz channel channel_info) m"
  have field: "load_bytes ?m (h + of_nat off) (length bs) = bs"
    if "(off, bs) \<in> set (buffer_fields offset sz channel channel_info)" for off bs
    by (rule load_store_fields [OF buffer_fields_shape(1) _ that]) (use assms in \<open>simp add: buffer_fields_shape(2)\<close>)
  have "load_bytes ?m (h + of_nat 0) 16 =
      load_bytes (store_fields h (header_fields sz channel channel_info) m) (h + of_nat 0) 16"
    unfolding buffer_fields_def store_fields_append by (rule load_store_fields_other) (use assms in auto)
  then have hdr: "load_bytes ?m h 16 = header_bytes sz channel channel_info" by (simp add: load_header)
  have res: "load_bytes ?m (h + 16 + sz) 4 = le32 0"
    using field [of "16 + unat sz" "le32 0"] by (simp add: buffer_fields_def add.assoc)
  then have "take 4 (load_bytes ?m (h + 16 + sz) 8) = le32 0"
    using load_bytes_append [of ?m "h + 16 + sz" 4 4] by simp
  moreover have "rd32 ?m (h + 16 + sz + 4) = hgsmi_checksum offset (header_bytes sz channel channel_info) (le32 0)"
    unfolding rd32_def
    using field [of "20 + unat sz" "le32 (hgsmi_checksum offset (header_bytes sz channel channel_info) (le32 0))"]
    by (simp add: buffer_fields_def of_le32 ac_simps)
  ultimately show ?thesis
    using res hdr of_le32 [of 0] by (simp add: valid_buffer_def rd32_def hgsmi_checksum_def)
qed

subsection \<open>What a command does\<close>

lemma virt_to_phys_layout:
  assumes "same_layout cs cs'"
  shows "gen_pool_virt_to_phys (pool\<lparr>gp_chunks := cs'\<rparr>) = gen_pool_virt_to_phys (pool\<lparr>gp_chunks := cs\<rparr>)"
proof
  fix a
  show "gen_pool_virt_to_phys (pool\<lparr>gp_chunks := cs'\<rparr>) a = gen_pool_virt_to_phys (pool\<lparr>gp_chunks := cs\<rparr>) a"
    using assms unfolding same_layout_def gen_pool_virt_to_phys_def
    by (induction rule: list_all2_induct) (auto simp: in_chunk_def)
qed

text \<open>The heap: its algorithm meets the allocator's contract and its chunks are well formed.\<close>
definition heap_ok :: "gen_pool \<Rightarrow> bool" where
  "heap_ok pool \<longleftrightarrow> genpool_algo (gp_algo pool) \<and> pool_wf pool"

text \<open>\<open>n\<close> bytes at \<open>h\<close> were taken from \<open>pool\<close>, which is \<open>pool'\<close> now.\<close>
definition took :: "gen_pool \<Rightarrow> u64 \<Rightarrow> u64 \<Rightarrow> gen_pool \<Rightarrow> bool" where
  "took pool n h pool' \<longleftrightarrow>
     (\<exists>owner. gen_pool_free_owner h n pool' = Inr (owner, pool)) \<and>
     gen_pool_virt_to_phys pool' = gen_pool_virt_to_phys pool \<and>
     unat h + unat n \<le> 2 ^ 64 \<and>
     {unat h ..< unat h + unat n} \<subseteq> managed pool \<and>
     {unat h ..< unat h + unat n} \<inter> allocated pool = {}"

lemma managed_less: "a \<in> managed pool \<Longrightarrow> a < 2 ^ 64"
  unfolding managed_def chunk_range_def
  using unsigned_less [where ?'a = nat and ?'b = 64] by (fastforce intro: le_less_trans)

lemma dma_alloc_outcome:
  assumes "heap_ok pool" and "size_ok (min_alloc_order pool) n"
  shows "gen_pool_dma_alloc n pool = Some (Inr (None, Some pool)) \<or>
     (\<exists>h pool'. gen_pool_dma_alloc n pool = Some (Inr (Some (h, gen_pool_virt_to_phys pool h), Some pool')) \<and>
        took pool n h pool')"
proof -
  let ?o = "min_alloc_order pool"
  have algo: "genpool_algo (gp_algo pool)" and wf: "pool_wf pool" using assms(1) by (simp_all add: heap_ok_def)
  from genpool_algo.alloc_pool [OF algo wf assms(2)] obtain addr owner cs where
    al: "gen_pool_alloc_algo_owner (gp_algo pool) n pool = Some (Inr (addr, owner, pool\<lparr>gp_chunks := cs\<rparr>))"
    and ch: "alloc_chunks (gp_algo pool) ?o n (size_to_bits ?o n) (gp_chunks pool) = Some (Inr (addr, owner, cs))"
    and out: "alloc_outcome ?o (unat (size_to_bits ?o n) * 2 ^ ?o) (gp_chunks pool) addr owner cs" by blast
  show ?thesis
  proof (cases "addr = 0")
    case True
    then show ?thesis using al out
      by (simp add: gen_pool_dma_alloc_def gen_pool_dma_alloc_algo_def alloc_outcome_def)
  next
    case False
    let ?R = "{unat addr ..< unat addr + unat (size_to_bits ?o n) * 2 ^ ?o}"
    have lay: "gen_pool_virt_to_phys (pool\<lparr>gp_chunks := cs\<rparr>) = gen_pool_virt_to_phys pool"
      using virt_to_phys_layout [of "gp_chunks pool" cs pool] out by (simp add: alloc_outcome_def)
    have "free_chunks ?o addr n cs = Inr (owner, gp_chunks pool)"
      by (rule genpool_algo.free_alloc_chunks [OF algo _ _ assms(2) ch False])
         (use wf in \<open>simp_all add: pool_wf_def\<close>)
    then have free: "gen_pool_free_owner addr n (pool\<lparr>gp_chunks := cs\<rparr>) = Inr (owner, pool)"
      by (simp add: gen_pool_free_owner_def)
    have sz: "0 < unat n" "unat n \<le> unat (size_to_bits ?o n) * 2 ^ ?o"
      using size_to_bits_covers(2) [of ?o n] assms(2) by (auto simp: size_ok_def unat_gt_0)
    have R: "?R \<subseteq> managed pool" "?R \<inter> allocated pool = {}"
      using out False by (auto simp: alloc_outcome_def managed_def allocated_def)
    moreover have "{unat addr ..< unat addr + unat n} \<subseteq> ?R" using sz by auto
    ultimately have sub: "{unat addr ..< unat addr + unat n} \<subseteq> managed pool"
      "{unat addr ..< unat addr + unat n} \<inter> allocated pool = {}" by blast+
    have "unat addr + (unat n - 1) \<in> managed pool" using sub(1) sz(1) by auto
    then have "unat addr + unat n \<le> 2 ^ 64" using managed_less sz(1) by fastforce
    then have "took pool n addr (pool\<lparr>gp_chunks := cs\<rparr>)"
      using free lay sub by (auto simp: took_def)
    then show ?thesis using al False lay
      by (auto simp: gen_pool_dma_alloc_def gen_pool_dma_alloc_algo_def)
  qed
qed

text \<open>The size of a command: it fits the heap's arithmetic and the header's 32-bit size.\<close>
definition cmd_size_ok :: "gen_pool \<Rightarrow> u64 \<Rightarrow> bool" where
  "cmd_size_ok pool sz \<longleftrightarrow> size_ok (min_alloc_order pool) (sz + 24) \<and> unat sz + 24 < 2 ^ 32"

lemma unat_sz24: "unat sz + 24 < 2 ^ 32 \<Longrightarrow> unat (sz + 24 :: u64) = unat sz + 24"
  by (subst unat_add_small) simp_all

text \<open>The outcomes of an allocation.\<close>
lemma buffer_alloc_outcome:
  assumes "heap_ok (g_pool g)" and "cmd_size_ok (g_pool g) sz"
  obtains (fail) "hgsmi_buffer_alloc sz channel channel_info g = Some (Inr (None, g))"
    | (ok) h pool' where "took (g_pool g) (sz + 24) h pool'"
        "hgsmi_buffer_alloc sz channel channel_info g = Some (Inr (Some (h + 16),
           g\<lparr>g_pool := pool', g_mem := store_fields h (buffer_fields (ucast (gen_pool_virt_to_phys (g_pool g) h))
               sz channel channel_info) (g_mem g)\<rparr>))"
proof -
  have eq: "sz + 16 + 8 = sz + 24" by simp
  have size: "size_ok (min_alloc_order (g_pool g)) (sz + 24)" and lt: "unat sz + 24 \<le> 2 ^ 64"
    using assms(2) by (simp_all add: cmd_size_ok_def)
  from dma_alloc_outcome [OF assms(1) size] show thesis
  proof
    assume "gen_pool_dma_alloc (sz + 24) (g_pool g) = Some (Inr (None, Some (g_pool g)))"
    then show thesis using fail by (simp add: hgsmi_buffer_alloc_def eq)
  next
    assume "\<exists>h pool'. gen_pool_dma_alloc (sz + 24) (g_pool g) =
        Some (Inr (Some (h, gen_pool_virt_to_phys (g_pool g) h), Some pool')) \<and> took (g_pool g) (sz + 24) h pool'"
    then obtain h pool' where h: "gen_pool_dma_alloc (sz + 24) (g_pool g) =
        Some (Inr (Some (h, gen_pool_virt_to_phys (g_pool g) h), Some pool'))" "took (g_pool g) (sz + 24) h pool'"
      by blast
    show thesis
      by (rule ok [OF h(2)])
         (simp add: hgsmi_buffer_alloc_def eq h(1) Let_def
            alloc_stores [OF lt refl refl refl, unfolded header_fields_def, simplified])
  qed
qed

text \<open>
  What the guest relies on in the host: it leaves the headers of the buffers alone.
\<close>
definition host_keeps_headers :: "host \<Rightarrow> gen_pool \<Rightarrow> bool" where
  "host_keeps_headers hst pool \<longleftrightarrow>
     (\<forall>h m x. unat h \<in> managed pool \<and> x \<in> addrs h 16 \<longrightarrow>
        hst (ucast (gen_pool_virt_to_phys pool h)) m x = m x)"

text \<open>The memory the host sees: the frame and the fields of the command.\<close>
definition command_memory ::
    "u64 \<Rightarrow> u32 \<Rightarrow> u64 \<Rightarrow> u8 \<Rightarrow> u16 \<Rightarrow> (nat \<times> u8 list) list \<Rightarrow> memory \<Rightarrow> memory" where
  "command_memory h offset sz channel channel_info fs m =
     store_fields (h + 16) fs (store_fields h (buffer_fields offset sz channel channel_info) m)"

lemma payload_apart:
  assumes "fields_end fs \<le> unat sz" and "unat sz + 24 \<le> 2 ^ 64" and "off + n \<le> 16 \<or> 16 + unat sz \<le> off"
    and "off + n \<le> 2 ^ 64"
  shows "load_bytes (command_memory h offset sz channel channel_info fs m) (h + of_nat off) n =
     load_bytes (store_fields h (buffer_fields offset sz channel channel_info) m) (h + of_nat off) n"
  unfolding command_memory_def
proof (rule load_bytes_cong)
  fix x assume x: "x \<in> addrs (h + of_nat off) n"
  have "addrs (h + of_nat off) n \<inter> addrs (h + of_nat 16) (unat sz) = {}"
    by (rule addrs_disjoint) (use assms in auto)
  then have "x \<notin> addrs (h + 16) (unat sz)" using x by auto
  then show "store_fields (h + 16) fs (store_fields h (buffer_fields offset sz channel channel_info) m) x =
      store_fields h (buffer_fields offset sz channel channel_info) m x"
    using assms(1,2) by (intro store_fields_outside [of fs "unat sz"]) auto
qed (use assms in simp)

text \<open>The command is a buffer the host accepts, with its fields in place, and it changes nothing else.\<close>
lemma command_memory_valid:
  assumes "fields_end fs \<le> unat sz" and "unat sz + 24 \<le> 2 ^ 64"
  shows "valid_buffer (command_memory h offset sz channel channel_info fs m) h offset sz channel channel_info"
proof -
  let ?m = "command_memory h offset sz channel channel_info fs m"
  let ?b = "store_fields h (buffer_fields offset sz channel channel_info) m"
  have "load_bytes ?m h 16 = load_bytes ?b h 16"
    using payload_apart [OF assms, of 0 16 h] by simp
  moreover have "load_bytes ?m (h + 16 + sz) 8 = load_bytes ?b (h + 16 + sz) 8"
    using payload_apart [OF assms, of "16 + unat sz" 8 h] assms(2) by (simp add: add.assoc)
  moreover have "rd32 ?m (h + 16 + sz) = rd32 ?b (h + 16 + sz)"
    unfolding rd32_def using payload_apart [OF assms, of "16 + unat sz" 4 h] assms(2) by (simp add: add.assoc)
  moreover have "rd32 ?m (h + 16 + sz + 4) = rd32 ?b (h + 16 + sz + 4)"
    unfolding rd32_def using payload_apart [OF assms, of "20 + unat sz" 4 h] assms(2) by (simp add: ac_simps)
  ultimately show ?thesis
    using stored_buffer_valid [OF assms(2), of h offset channel channel_info m] by (simp add: valid_buffer_def)
qed

lemma command_memory_fields:
  assumes "fields_apart fs" and "fields_end fs \<le> 2 ^ 64" and "(off, bs) \<in> set fs"
  shows "load_bytes (command_memory h offset sz channel channel_info fs m) (h + 16 + of_nat off) (length bs) = bs"
  unfolding command_memory_def by (rule load_store_fields [OF assms])

lemma command_memory_outside:
  assumes "fields_end fs \<le> unat sz" and "unat sz + 24 \<le> 2 ^ 64" and "x \<notin> addrs h (unat sz + 24)"
  shows "command_memory h offset sz channel channel_info fs m x = m x"
proof -
  have "addrs (h + of_nat 16) (unat sz) \<subseteq> addrs h (unat sz + 24)"
    by (rule addrs_subset) (use assms(2) in auto)
  then have "x \<notin> addrs (h + 16) (unat sz)" using assms(3) by auto
  then show ?thesis
    using store_fields_outside [of fs "unat sz" x "h + 16"]
      store_fields_outside [of "buffer_fields offset sz channel channel_info" "unat sz + 24" x h]
      assms by (simp add: command_memory_def buffer_fields_shape)
qed

subsection \<open>Commands leave the heap as it was\<close>

lemma buffer_free_took:
  assumes "took pool (sz + 24) h pool'" and "unat sz + 24 < 2 ^ 32" and "g_pool g = pool'"
    and "rd32 (g_mem g) h = ucast sz"
  shows "hgsmi_buffer_free (h + 16) g = Some (Inr ((), g\<lparr>g_pool := pool\<rparr>))"
proof -
  have "ucast (ucast sz :: u32) = sz"
    using assms(2) by (intro ucast_down_up) simp
  then have total: "ucast (rd32 (g_mem g) h) + 16 + 8 = sz + 24" using assms(4) by simp
  obtain owner where "gen_pool_free_owner h (sz + 24) pool' = Inr (owner, pool)"
    using assms(1) by (auto simp: took_def)
  then show ?thesis unfolding hgsmi_buffer_free_def Let_def assms(3) by (simp only: add_diff_cancel total) simp
qed

text \<open>
  A command either fails for lack of memory and does nothing, or the host sees a valid buffer
  with the command's fields at an offset that is written to the port once, and the heap is
  what it was when the command returns.
\<close>
lemma hgsmi_call_outcome:
  assumes "heap_ok (g_pool g)" and "cmd_size_ok (g_pool g) sz" and "fields_end fs \<le> unat sz"
    and "host_keeps_headers hst (g_pool g)"
  obtains (fail) "hgsmi_call hst sz channel channel_info fs answer g = Some (Inr (None, g))"
    | (ok) h pool' offset m where "took (g_pool g) (sz + 24) h pool'"
        "offset = ucast (gen_pool_virt_to_phys (g_pool g) h)"
        "m = command_memory h offset sz channel channel_info fs (g_mem g)"
        "hgsmi_call hst sz channel channel_info fs answer g = Some (Inr (Some (answer (hst offset m) (h + 16)),
           g\<lparr>g_out := g_out g @ [(VGA_PORT_HGSMI_GUEST, offset)], g_mem := hst offset m\<rparr>))"
  using assms(1,2)
proof (cases rule: buffer_alloc_outcome [where channel = channel and channel_info = channel_info])
  case fail
  then show thesis using that(1) by (simp add: hgsmi_call_def hg_return_def)
next
  case (ok h pool')
  let ?off = "ucast (gen_pool_virt_to_phys (g_pool g) h) :: u32"
  let ?m = "command_memory h ?off sz channel channel_info fs (g_mem g)"
  let ?g = "g\<lparr>g_pool := pool', g_mem := store_fields h (buffer_fields ?off sz channel channel_info) (g_mem g)\<rparr>"
  let ?g1 = "g\<lparr>g_pool := pool', g_out := g_out g @ [(VGA_PORT_HGSMI_GUEST, ?off)], g_mem := hst ?off ?m\<rparr>"
  have lt: "unat sz + 24 < 2 ^ 32" "unat sz + 24 \<le> 2 ^ 64" using assms(2) by (simp_all add: cmd_size_ok_def)
  have submit: "hgsmi_buffer_submit hst (h + 16) (?g\<lparr>g_mem := store_fields (h + 16) fs (g_mem ?g)\<rparr>) =
      Some (Inr ((), ?g1))"
    using ok(1) by (simp add: hgsmi_buffer_submit_def took_def command_memory_def Let_def)
  have "{unat h ..< unat h + unat (sz + 24)} \<subseteq> managed (g_pool g)" using ok(1) by (simp add: took_def)
  then have "unat h \<in> managed (g_pool g)" using unat_sz24 [OF lt(1)] by auto
  then have keep: "hst ?off ?m x = ?m x" if "x \<in> addrs h 16" for x
    using assms(4) that by (auto simp: host_keeps_headers_def)
  have hdr: "rd32 (hst ?off ?m) h = rd32 ?m h"
    by (rule rd32_cong, rule keep) (simp add: addrs_def)
  have "load_bytes ?m h 4 = le32 (ucast sz)"
  proof -
    have "load_bytes ?m h 16 = header_bytes sz channel channel_info"
      using command_memory_valid [OF assms(3) lt(2)] by (simp add: valid_buffer_def)
    then show ?thesis using load_bytes_append [of ?m h 4 12] by (simp add: header_bytes_def append_eq_append_conv)
  qed
  then have "rd32 (hst ?off ?m) h = ucast sz" using hdr of_le32 by (simp add: rd32_def)
  then have free: "hgsmi_buffer_free (h + 16) ?g1 = Some (Inr ((), ?g1\<lparr>g_pool := g_pool g\<rparr>))"
    by (intro buffer_free_took [OF ok(1) lt(1)]) simp_all
  show thesis
    by (rule that(2) [OF ok(1) refl refl])
       (simp add: hgsmi_call_def ok(2) submit [simplified] free [simplified] hg_return_def)
qed

subsection \<open>Properties\<close>

text \<open>The driver's heap has units of 16 bytes.\<close>
definition guest_ok :: "host \<Rightarrow> guest \<Rightarrow> bool" where
  "guest_ok hst g \<longleftrightarrow>
     heap_ok (g_pool g) \<and> min_alloc_order (g_pool g) = 4 \<and> host_keeps_headers hst (g_pool g)"

lemma cmd_size_ok_heap:
  assumes "min_alloc_order pool = 4" and "unat sz + 24 < 2 ^ 32"
  shows "cmd_size_ok pool sz"
proof -
  have n: "unat (sz + 24) = unat sz + 24" by (rule unat_sz24 [OF assms(2)])
  have "sz + 24 \<noteq> 0" using n by (metis add_is_0 unat_eq_zero zero_neq_numeral)
  moreover have "unat (size_to_bits 4 (sz + 24)) < 2 ^ 32"
    using size_to_bits_nat [of 4 "sz + 24"] n assms(2) by simp
  ultimately show ?thesis using assms n by (simp add: cmd_size_ok_def size_ok_def)
qed

text \<open>
  The states a command can end in: nothing happened, or the host handled a valid buffer with
  the given fields and the heap is as before.
\<close>
definition command_sent ::
    "host \<Rightarrow> u64 \<Rightarrow> u8 \<Rightarrow> u16 \<Rightarrow> (nat \<times> u8 list) list \<Rightarrow> u64 \<Rightarrow> memory \<Rightarrow> guest \<Rightarrow> guest \<Rightarrow> bool" where
  "command_sent hst sz channel channel_info fs buf m g g' \<longleftrightarrow>
     (let h = buf - 16; offset = ucast (gen_pool_virt_to_phys (g_pool g) h)
      in {unat h ..< unat h + unat sz + 24} \<subseteq> managed (g_pool g) - allocated (g_pool g) \<and>
         unat h + unat sz + 24 \<le> 2 ^ 64 \<and>
         valid_buffer m h offset sz channel channel_info \<and>
         (\<forall>off bs. (off, bs) \<in> set fs \<longrightarrow> load_bytes m (buf + of_nat off) (length bs) = bs) \<and>
         (\<forall>x. x \<notin> addrs h (unat sz + 24) \<longrightarrow> m x = g_mem g x) \<and>
         g' = g\<lparr>g_out := g_out g @ [(VGA_PORT_HGSMI_GUEST, offset)], g_mem := hst offset m\<rparr>)"

lemma command_sent_pool: "command_sent hst sz channel channel_info fs buf m g g' \<Longrightarrow> g_pool g' = g_pool g"
  by (simp add: command_sent_def Let_def)

lemma took_range:
  assumes "took pool (sz + 24) h pool'" and "unat sz + 24 < 2 ^ 32"
  shows "{unat h ..< unat h + unat sz + 24} \<subseteq> managed pool - allocated pool"
    and "unat h + unat sz + 24 \<le> 2 ^ 64"
  using assms(1) unat_sz24 [OF assms(2)] by (auto simp: took_def add.assoc)

lemma hgsmi_call_cases:
  assumes "guest_ok hst g" and "unat sz + 24 < 2 ^ 32" and "fields_end fs \<le> unat sz" and "fields_apart fs"
  obtains (fail) "hgsmi_call hst sz channel channel_info fs answer g = Some (Inr (None, g))"
    | (ok) buf m g' where "command_sent hst sz channel channel_info fs buf m g g'"
        "hgsmi_call hst sz channel channel_info fs answer g = Some (Inr (Some (answer (g_mem g') buf), g'))"
proof -
  have ok: "heap_ok (g_pool g)" "cmd_size_ok (g_pool g) sz" "host_keeps_headers hst (g_pool g)"
    using assms(1,2) by (simp_all add: guest_ok_def cmd_size_ok_heap)
  have lt: "unat sz + 24 \<le> 2 ^ 64" and fe: "fields_end fs \<le> 2 ^ 64" using assms(2,3) by simp_all
  from ok(1,2) assms(3) ok(3) show thesis
  proof (cases rule: hgsmi_call_outcome [where channel = channel and channel_info = channel_info and answer = answer])
    case fail
    then show thesis by (rule that(1))
  next
    case (ok h pool' offset m)
    let ?g = "g\<lparr>g_out := g_out g @ [(VGA_PORT_HGSMI_GUEST, offset)], g_mem := hst offset m\<rparr>"
    have "command_sent hst sz channel channel_info fs (h + 16) m g ?g"
      unfolding command_sent_def Let_def
      using ok(2,3) took_range [OF ok(1) assms(2)] command_memory_valid [OF assms(3) lt]
        command_memory_outside [OF assms(3) lt] command_memory_fields [OF assms(4) fe]
      by simp
    then show thesis by (rule that(2)) (use ok(4) in simp)
  qed
qed

text \<open>
  C10. A buffer handed out by \<open>hgsmi_buffer_alloc\<close> is well formed: it lies in a free part of the
  guest heap, its header holds the size, channel and command, the checksum in its tail is the
  hash of its offset, header and reserved word, and no memory outside it changed. When the heap
  has no room, nothing changes at all. The call always returns.
\<close>
theorem hgsmi_buffer_alloc_valid:
  assumes "heap_ok (g_pool g)" and "cmd_size_ok (g_pool g) sz"
  shows "\<exists>r g'. hgsmi_buffer_alloc sz channel channel_info g = Some (Inr (r, g')) \<and>
     (case r of
        None \<Rightarrow> g' = g
      | Some buf \<Rightarrow>
         (let h = buf - 16
          in {unat h ..< unat h + unat sz + 24} \<subseteq> managed (g_pool g) - allocated (g_pool g) \<and>
             valid_buffer (g_mem g') h (ucast (gen_pool_virt_to_phys (g_pool g) h)) sz channel channel_info \<and>
             (\<forall>x. x \<in> addrs h (unat sz + 24) \<or> g_mem g' x = g_mem g x) \<and> g_out g' = g_out g))"
  using assms
proof (cases rule: buffer_alloc_outcome [where channel = channel and channel_info = channel_info])
  case (ok h pool')
  have lt: "unat sz + 24 < 2 ^ 32" "unat sz + 24 \<le> 2 ^ 64" using assms(2) by (simp_all add: cmd_size_ok_def)
  have "x \<in> addrs h (unat sz + 24) \<or>
      store_fields h (buffer_fields offset sz channel channel_info) (g_mem g) x = g_mem g x" for x offset
    using store_fields_outside [of "buffer_fields offset sz channel channel_info" "unat sz + 24" x h] lt
    by (auto simp: buffer_fields_shape)
  then show ?thesis
    using ok(2) took_range(1) [OF ok(1) lt(1)] stored_buffer_valid [OF lt(2)] by (simp add: Let_def)
qed simp

lemma hgsmi_call_either:
  assumes "guest_ok hst g" and "unat sz + 24 < 2 ^ 32" and "fields_end fs \<le> unat sz" and "fields_apart fs"
  shows "hgsmi_call hst sz channel channel_info fs answer g = Some (Inr (None, g)) \<or>
    (\<exists>buf m g'. command_sent hst sz channel channel_info fs buf m g g' \<and>
       hgsmi_call hst sz channel channel_info fs answer g = Some (Inr (Some (answer (g_mem g') buf), g')))"
  by (rule hgsmi_call_cases [OF assms, of channel channel_info answer]) blast+

lemma hgsmi_call_keeps:
  assumes "guest_ok hst g" and "unat sz + 24 < 2 ^ 32" and "fields_end fs \<le> unat sz" and "fields_apart fs"
  shows "\<exists>r g'. hgsmi_call hst sz channel channel_info fs answer g = Some (Inr (r, g')) \<and> g_pool g' = g_pool g"
  using hgsmi_call_either [OF assms, of channel channel_info answer] command_sent_pool by fastforce

text \<open>A command that ends in a call leaves the heap alone.\<close>
definition keeps_heap :: "guest \<Rightarrow> 'a hgsmi \<Rightarrow> bool" where
  "keeps_heap g f \<longleftrightarrow> (\<exists>r g'. f g = Some (Inr (r, g')) \<and> g_pool g' = g_pool g)"

lemma keeps_heap_return [simp]: "keeps_heap g (hg_return x)"
  by (simp add: keeps_heap_def hg_return_def)

lemma keeps_heap_then: "keeps_heap g f \<Longrightarrow> keeps_heap g (hg_bind f (\<lambda>r. hg_return (k r)))"
  by (auto simp: keeps_heap_def hg_return_def)

lemma keeps_heap_done: "keeps_heap g f \<Longrightarrow> keeps_heap g (hgsmi_done f)"
  unfolding hgsmi_done_def by (rule keeps_heap_then)

lemma keeps_heap_call:
  assumes "guest_ok hst g" and "unat sz + 24 < 2 ^ 32" and "fields_end fs \<le> unat sz" and "fields_apart fs"
  shows "keeps_heap g (hgsmi_call hst sz channel channel_info fs answer)"
  using hgsmi_call_keeps [OF assms] by (simp add: keeps_heap_def)

lemma hints_size:
  assumes "unat screens \<le> 2 ^ 20"
  shows "unat (8 + ucast (screens :: u32) * 32 :: u64) = 8 + unat screens * 32"
proof -
  have "(8 + ucast screens * 32 :: u64) = of_nat (8 + unat screens * 32)"
    by simp
  then show ?thesis using assms by (simp only: unat_of_nat) (simp add: take_bit_eq_mod)
qed

text \<open>The commands one by one.\<close>
lemma query_conf_keeps: "guest_ok hst g \<Longrightarrow> keeps_heap g (hgsmi_query_conf hst index)"
  unfolding hgsmi_query_conf_def by (intro keeps_heap_done keeps_heap_call) simp_all

lemma test_query_conf_keeps: "guest_ok hst g \<Longrightarrow> keeps_heap g (hgsmi_test_query_conf hst)"
  unfolding hgsmi_test_query_conf_def by (intro keeps_heap_then query_conf_keeps)

lemma report_flags_location_keeps: "guest_ok hst g \<Longrightarrow> keeps_heap g (hgsmi_report_flags_location hst location)"
  unfolding hgsmi_report_flags_location_def by (intro keeps_heap_done keeps_heap_call) simp_all

lemma send_caps_info_keeps: "guest_ok hst g \<Longrightarrow> keeps_heap g (hgsmi_send_caps_info hst caps)"
  unfolding hgsmi_send_caps_info_def by (intro keeps_heap_done keeps_heap_call) simp_all

lemma cursor_position_keeps: "guest_ok hst g \<Longrightarrow> keeps_heap g (hgsmi_cursor_position hst report x y)"
  unfolding hgsmi_cursor_position_def by (intro keeps_heap_done keeps_heap_call) simp_all

lemma process_display_info_keeps:
  "guest_ok hst g \<Longrightarrow>
   keeps_heap g (hgsmi_process_display_info hst display x y start pitch width height bpp flags)"
  unfolding hgsmi_process_display_info_def by (intro keeps_heap_then keeps_heap_call) simp_all

lemma update_input_mapping_keeps: "guest_ok hst g \<Longrightarrow> keeps_heap g (hgsmi_update_input_mapping hst x y width height)"
  unfolding hgsmi_update_input_mapping_def by (intro keeps_heap_done keeps_heap_call) simp_all

lemma get_mode_hints_keeps:
  "guest_ok hst g \<Longrightarrow> unat screens \<le> 2 ^ 20 \<Longrightarrow> keeps_heap g (hgsmi_get_mode_hints hst screens hints)"
  unfolding hgsmi_get_mode_hints_def by (auto intro!: keeps_heap_then keeps_heap_call simp: hints_size)

lemma pixel_len_nat:
  assumes "unat width \<le> 2 ^ 12" and "unat height \<le> 2 ^ 12"
  shows "unat (pointer_pixel_len width height) =
     ((unat width + 7) div 8 * unat height + 3) div 4 * 4 + unat width * 4 * unat height"
    and "unat (pointer_pixel_len width height) < 2 ^ 27"
proof -
  let ?w = "unat width" and ?h = "unat height"
  have wh: "?w * ?h \<le> 2 ^ 12 * 2 ^ 12" using assms by (rule mult_le_mono)
  have d: "(?w + 7) div 8 \<le> 2 ^ 10" using assms(1) by simp
  have dh: "(?w + 7) div 8 * ?h \<le> 2 ^ 10 * 2 ^ 12" using d assms(2) by (rule mult_le_mono)
  have small: "unat (of_nat k :: u32) = k" if "k < 2 ^ 32" for k
    using that by (simp add: unat_of_nat take_bit_eq_mod)
  have w7: "unat (width + 7) = ?w + 7" using assms(1) by (subst unat_add_small) simp_all
  have div8: "(width + 7) div 8 = of_nat ((?w + 7) div 8)"
    by (rule word_unat_eq_iff [THEN iffD2]) (use d w7 in \<open>simp add: unat_div small\<close>)
  have and4: "(of_nat k AND NOT 3 :: u32) = of_nat (k div 4 * 4)" if "k < 2 ^ 32" for k
  proof -
    have m: "(3 :: u32) = mask 2" by (simp add: mask_eq_exp_minus_1)
    have "(of_nat k AND NOT 3 :: u32) = push_bit 2 (drop_bit 2 (of_nat k))"
      unfolding m by (rule bit_word_eqI) (auto simp: bit_simps not_less dest!: le_Suc_ex)
    also have "drop_bit 2 (of_nat k :: u32) = of_nat (k div 4)"
      by (rule word_unat_eq_iff [THEN iffD2]) (use that in \<open>simp add: drop_bit_eq_div unat_div small\<close>)
    finally show ?thesis by (simp add: push_bit_eq_mult mult.commute)
  qed
  have "(((width + 7) div 8) * height + 3 :: u32) = of_nat ((?w + 7) div 8 * ?h + 3)" by (simp add: div8)
  moreover have "(?w + 7) div 8 * ?h + 3 < 2 ^ 32" using dh by simp
  ultimately have pl: "pointer_pixel_len width height =
      of_nat (((?w + 7) div 8 * ?h + 3) div 4 * 4 + ?w * 4 * ?h)"
    unfolding pointer_pixel_len_def using and4 [of "(?w + 7) div 8 * ?h + 3"] by simp
  have bound: "((?w + 7) div 8 * ?h + 3) div 4 * 4 + ?w * 4 * ?h < 2 ^ 27"
  proof -
    have "((?w + 7) div 8 * ?h + 3) div 4 * 4 \<le> 2 ^ 10 * 2 ^ 12 + 3" using dh by linarith
    moreover have "?w * 4 * ?h \<le> 4 * (2 ^ 12 * 2 ^ 12)"
      using mult_le_mono2 [OF wh, of 4] by (simp only: mult.assoc mult.left_commute [of _ 4])
    ultimately have "((?w + 7) div 8 * ?h + 3) div 4 * 4 + ?w * 4 * ?h \<le> 2 ^ 10 * 2 ^ 12 + 3 + 4 * (2 ^ 12 * 2 ^ 12)"
      by (rule add_le_mono)
    also have "\<dots> < 2 ^ 27" by simp
    finally show ?thesis .
  qed
  show eq: "unat (pointer_pixel_len width height) =
     ((unat width + 7) div 8 * unat height + 3) div 4 * 4 + unat width * 4 * unat height"
    unfolding pl by (rule small, rule less_trans [OF bound]) simp
  show "unat (pointer_pixel_len width height) < 2 ^ 27" unfolding eq by (rule bound)
qed

lemma update_pointer_shape_keeps:
  assumes "guest_ok hst g" and "unat width \<le> 2 ^ 12" and "unat height \<le> 2 ^ 12"
  shows "keeps_heap g (hgsmi_update_pointer_shape hst flags hot_x hot_y width height pixels len)"
proof -
  have call: "keeps_heap g (hgsmi_call hst (24 + ucast pl + 4) HGSMI_CH_VBVA VBVA_MOUSE_POINTER_SHAPE
      ([(0, le32 VINF_SUCCESS), (4, le32 fl), (8, le32 hot_x), (12, le32 hot_y), (16, le32 width), (20, le32 height)] @
       (if pl \<noteq> 0 then [(24, take (unat pl) pixels)] else [])) (\<lambda>m p. rd32 m p))"
    if "unat pl < 2 ^ 27" for pl :: u32 and fl
  proof -
    have "24 + ucast pl + 4 = (of_nat (unat pl + 28) :: u64)" by simp
    then have sz: "unat (24 + ucast pl + 4 :: u64) = unat pl + 28"
      using that by (simp only: unat_of_nat) (simp add: take_bit_eq_mod)
    show ?thesis by (rule keeps_heap_call [OF assms(1)]) (use sz that in auto)
  qed
  have "unat (pointer_pixel_len width height) < 2 ^ 27" using pixel_len_nat [OF assms(2,3)] by simp
  from call [OF this] call [of 0] show ?thesis
    unfolding hgsmi_update_pointer_shape_def Let_def
    by (auto simp: keeps_heap_then simp del: append_Cons intro: keeps_heap_return)
qed

lemmas commands_keep = query_conf_keeps test_query_conf_keeps report_flags_location_keeps send_caps_info_keeps
  cursor_position_keeps process_display_info_keeps update_input_mapping_keeps get_mode_hints_keeps
  update_pointer_shape_keeps

text \<open>
  C11. Each of the nine HGSMI commands returns and gives its buffer back: for every host that leaves the headers of the
  commands alone, and whatever else it answers, the guest heap is the same before and after the call. The mode hints are those of
  at most a million screens, and a pointer shape is at most 4096 pixels wide and high.
\<close>
theorem hgsmi_commands_keep_heap:
  assumes "guest_ok hst g" and "unat screens \<le> 2 ^ 20" and "unat shape_width \<le> 2 ^ 12" and "unat shape_height \<le> 2 ^ 12"
  shows "keeps_heap g (hgsmi_report_flags_location hst location) \<and>
    keeps_heap g (hgsmi_send_caps_info hst caps) \<and>
    keeps_heap g (hgsmi_query_conf hst index) \<and>
    keeps_heap g (hgsmi_test_query_conf hst) \<and>
    keeps_heap g (hgsmi_cursor_position hst report x y) \<and>
    keeps_heap g (hgsmi_process_display_info hst display x y start pitch width height bpp flags) \<and>
    keeps_heap g (hgsmi_update_input_mapping hst x y width height) \<and>
    keeps_heap g (hgsmi_get_mode_hints hst screens hints) \<and>
    keeps_heap g (hgsmi_update_pointer_shape hst shape_flags hot_x hot_y shape_width shape_height pixels len)"
  using assms by (intro conjI commands_keep)

subsection \<open>Answers\<close>

text \<open>
  \<open>hgsmi_query_conf\<close> asks the host for the configuration value at the index and passes on
  its answer: either there is no memory and nothing happened, or the host handled a valid
  buffer on the VBVA channel that holds the index and all ones, and the value returned is the
  second word of the buffer after the host is done. \<open>hgsmi_test_query_conf\<close> accepts exactly the
  hosts that leave all ones there.
\<close>
theorem hgsmi_query_conf_answer:
  assumes "guest_ok hst g"
  shows "hgsmi_query_conf hst index g = Some (Inr (Inl ENOMEM, g)) \<or>
     (\<exists>buf m g'. command_sent hst 8 HGSMI_CH_VBVA VBVA_QUERY_CONF32 [(0, le32 index), (4, le32 U32_MAX)] buf m g g' \<and>
        hgsmi_query_conf hst index g = Some (Inr (Inr (rd32 (g_mem g') (buf + 4)), g')) \<and>
        (index = U32_MAX \<longrightarrow> hgsmi_test_query_conf hst g =
           Some (Inr (if rd32 (g_mem g') (buf + 4) = U32_MAX then Inr () else Inl EIO, g'))))"
proof -
  let ?fs = "[(0, le32 index), (4, le32 U32_MAX)]"
  have "hgsmi_call hst 8 HGSMI_CH_VBVA VBVA_QUERY_CONF32 ?fs (\<lambda>m p. rd32 m (p + 4)) g = Some (Inr (None, g)) \<or>
      (\<exists>buf m g'. command_sent hst 8 HGSMI_CH_VBVA VBVA_QUERY_CONF32 ?fs buf m g g' \<and>
         hgsmi_call hst 8 HGSMI_CH_VBVA VBVA_QUERY_CONF32 ?fs (\<lambda>m p. rd32 m (p + 4)) g =
           Some (Inr (Some (rd32 (g_mem g') (buf + 4)), g')))"
    by (rule hgsmi_call_either [OF assms]) simp_all
  then show ?thesis
  proof (elim disjE exE conjE)
    fix buf m g'
    assume sent: "command_sent hst 8 HGSMI_CH_VBVA VBVA_QUERY_CONF32 ?fs buf m g g'"
      and call: "hgsmi_call hst 8 HGSMI_CH_VBVA VBVA_QUERY_CONF32 ?fs (\<lambda>m p. rd32 m (p + 4)) g =
           Some (Inr (Some (rd32 (g_mem g') (buf + 4)), g'))"
    from call have q: "hgsmi_query_conf hst index g = Some (Inr (Inr (rd32 (g_mem g') (buf + 4)), g'))"
      by (simp add: hgsmi_query_conf_def hgsmi_done_def hg_return_def)
    then have "index = U32_MAX \<longrightarrow> hgsmi_test_query_conf hst g =
        Some (Inr (if rd32 (g_mem g') (buf + 4) = U32_MAX then Inr () else Inl EIO, g'))"
      by (cases "index = U32_MAX") (simp_all add: hgsmi_test_query_conf_def hg_return_def)
    then show ?thesis using q sent by blast
  qed (simp add: hgsmi_query_conf_def hgsmi_done_def hg_return_def)
qed

text \<open>The fields of the message, with the pixels when there are any.\<close>
definition pointer_fields :: "u32 \<Rightarrow> u32 \<Rightarrow> u32 \<Rightarrow> u32 \<Rightarrow> u32 \<Rightarrow> u8 list \<Rightarrow> (nat \<times> u8 list) list" where
  "pointer_fields flags hot_x hot_y width height data =
     [(0, le32 VINF_SUCCESS), (4, le32 flags), (8, le32 hot_x), (12, le32 hot_y), (16, le32 width), (20, le32 height),
      (24, data)]"

text \<open>
  \<open>hgsmi_update_pointer_shape\<close> with a shape of up to 4096 by 4096 pixels: the AND mask, padded
  to four bytes, and the XOR mask must fit in the data given, or the call returns -EINVAL and
  sends nothing. Otherwise it returns -ENOMEM with nothing sent, or the host receives one
  valid buffer with the geometry, the flags with the visible bit added and exactly those
  bytes of pixel data, and the host's result is translated to the return value.
\<close>
theorem hgsmi_update_pointer_shape_sent:
  assumes "guest_ok hst g" and "flags AND VBOX_MOUSE_POINTER_SHAPE \<noteq> 0"
    and "unat width \<le> 2 ^ 12" and "unat height \<le> 2 ^ 12" and "0 < unat width" and "0 < unat height"
    and "length pixels = unat len"
    and "n = ((unat width + 7) div 8 * unat height + 3) div 4 * 4 + unat width * 4 * unat height"
    and "call = hgsmi_update_pointer_shape hst flags hot_x hot_y width height pixels len"
  shows "if n > unat len then call g = Some (Inr (Inl EINVAL, g))
     else call g = Some (Inr (Inl ENOMEM, g)) \<or>
       (\<exists>buf m g'. command_sent hst (of_nat n + 28) HGSMI_CH_VBVA VBVA_MOUSE_POINTER_SHAPE
          (pointer_fields (flags OR VBOX_MOUSE_POINTER_VISIBLE) hot_x hot_y width height (take n pixels)) buf m g g' \<and>
          call g = Some (Inr (pointer_shape_rc (rd32 (g_mem g') buf), g')))"
proof -
  let ?pl = "pointer_pixel_len width height"
  have pl: "unat ?pl = n" "n < 2 ^ 27" using pixel_len_nat [OF assms(3,4)] assms(8) by simp_all
  have "0 < unat width * 4 * unat height" using assms(5,6) by simp
  then have "0 < n" unfolding assms(8) by simp
  then have pos: "?pl \<noteq> 0" using pl(1) by auto
  have gt: "?pl > len \<longleftrightarrow> n > unat len" using pl(1) by (simp add: word_less_nat_alt)
  have len: "(ucast ?pl :: u64) = of_nat n" using pl(1) by (simp flip: pl(1))
  show ?thesis
  proof (cases "n > unat len")
    case True
    then show ?thesis using assms(2,9) gt by (simp add: hgsmi_update_pointer_shape_def hg_return_def)
  next
    case False
    let ?fs = "pointer_fields (flags OR VBOX_MOUSE_POINTER_VISIBLE) hot_x hot_y width height (take n pixels)"
    have sz: "unat (of_nat n + 28 :: u64) = n + 28"
      using pl(2) by (subst unat_add_small) (simp_all add: unat_of_nat take_bit_eq_mod)
    have call: "call g = hg_bind (hgsmi_call hst (of_nat n + 28) HGSMI_CH_VBVA VBVA_MOUSE_POINTER_SHAPE ?fs (\<lambda>m p. rd32 m p))
        (\<lambda>r. hg_return (case r of None \<Rightarrow> Inl ENOMEM | Some res \<Rightarrow> pointer_shape_rc res)) g"
      using assms(2,9) gt False pos len pl(1)
      by (simp add: hgsmi_update_pointer_shape_def pointer_fields_def add.commute)
    have n: "length (take n pixels) = n" using False assms(7) by simp
    have fs: "fields_end ?fs \<le> unat (of_nat n + 28 :: u64)" "fields_apart ?fs"
      using n sz by (auto simp: pointer_fields_def simp del: length_take)
    have "unat (of_nat n + 28 :: u64) + 24 < 2 ^ 32" using sz pl(2) by simp
    from hgsmi_call_either [OF assms(1) this fs, of HGSMI_CH_VBVA VBVA_MOUSE_POINTER_SHAPE "\<lambda>m p. rd32 m p"] False
    show ?thesis unfolding call hg_return_def by (elim disjE exE conjE) (simp, auto)
  qed
qed

lemma hgsmi_process_display_info_sent:
  assumes "guest_ok hst g"
    and "fs = [(0, le32 display), (4, le32 origin_x), (8, le32 origin_y), (12, le32 start_offset), (16, le32 pitch),
       (20, le32 width), (24, le32 height), (28, le16 bpp), (30, le16 flags)]"
  shows "hgsmi_process_display_info hst display origin_x origin_y start_offset pitch width height bpp flags g =
       Some (Inr ((), g)) \<or>
     (\<exists>buf m g'. command_sent hst 32 HGSMI_CH_VBVA VBVA_INFO_SCREEN fs buf m g g' \<and>
        hgsmi_process_display_info hst display origin_x origin_y start_offset pitch width height bpp flags g =
          Some (Inr ((), g')))"
proof -
  have "hgsmi_call hst 32 HGSMI_CH_VBVA VBVA_INFO_SCREEN fs (\<lambda>m p. ()) g = Some (Inr (None, g)) \<or>
    (\<exists>buf m g'. command_sent hst 32 HGSMI_CH_VBVA VBVA_INFO_SCREEN fs buf m g g' \<and>
      hgsmi_call hst 32 HGSMI_CH_VBVA VBVA_INFO_SCREEN fs (\<lambda>m p. ()) g = Some (Inr (Some (), g')))"
    by (rule hgsmi_call_either [OF assms(1)]) (simp_all add: assms(2))
  then show ?thesis unfolding hgsmi_process_display_info_def assms(2) [symmetric]
    by (elim disjE exE conjE) (simp_all add: hg_return_def, blast)
qed

subsection \<open>A concrete heap and host\<close>

text \<open>The pool of the allocator's examples; the host answers all ones in the second word of a command.\<close>
definition demo_guest :: guest where
  "demo_guest = \<lparr>g_pool = demo_pool, g_mem = (\<lambda>_. 0), g_out = []\<rparr>"

definition demo_host :: host where
  "demo_host offset m = wr32 (ucast offset - 0x7ffff000 + 20) U32_MAX m"

lemma demo_virt_to_phys:
  assumes "unat h \<in> managed demo_pool"
  shows "ucast (ucast (gen_pool_virt_to_phys demo_pool h) :: u32) = h + 0x7ffff000"
proof -
  have h: "0x1000 \<le> unat h" "unat h \<le> 0x13ff"
    using assms by (simp_all add: managed_def demo_pool_def chunk_range_def)
  then have "in_chunk h (hd (gp_chunks demo_pool))" by (simp add: in_chunk_def demo_pool_def word_le_nat_alt)
  then have p: "gen_pool_virt_to_phys demo_pool h = h + 0x7ffff000"
    by (simp add: gen_pool_virt_to_phys_def demo_pool_def)
  have "unat (h + 0x7ffff000) = unat h + 0x7ffff000" using h by (subst unat_add_small) simp_all
  then show ?thesis unfolding p using h by (intro ucast_down_up) simp
qed

lemma demo_guest_ok: "guest_ok demo_host demo_guest"
proof -
  have "demo_host (ucast (gen_pool_virt_to_phys demo_pool h)) m x = m x"
    if h: "unat h \<in> managed demo_pool" and x: "x \<in> addrs h 16" for h m x
  proof -
    have "addrs (h + of_nat 0) 16 \<inter> addrs (h + of_nat 20) 4 = {}" by (rule addrs_disjoint) simp_all
    then have "x \<notin> addrs (h + 20) (length (le32 U32_MAX))" using x by auto
    then show ?thesis
      using demo_virt_to_phys [OF h] by (simp add: demo_host_def wr32_def store_bytes_outside)
  qed
  then show ?thesis
    using scan.first_fit_algo demo_pool_wf
    by (auto simp: guest_ok_def demo_guest_def heap_ok_def host_keeps_headers_def demo_pool_def)
qed

theorem hgsmi_buffer_alloc_valid_witness:
  "\<exists>r g'. hgsmi_buffer_alloc 8 HGSMI_CH_VBVA VBVA_QUERY_CONF32 demo_guest = Some (Inr (r, g'))"
proof -
  have "heap_ok (g_pool demo_guest)" "min_alloc_order (g_pool demo_guest) = 4"
    using demo_guest_ok by (simp_all add: guest_ok_def)
  then show ?thesis
    using hgsmi_buffer_alloc_valid [of demo_guest 8 HGSMI_CH_VBVA VBVA_QUERY_CONF32] cmd_size_ok_heap [of "g_pool demo_guest" 8]
    by auto
qed

theorem hgsmi_commands_keep_heap_witness:
  "keeps_heap demo_guest (hgsmi_query_conf demo_host 0) \<and> keeps_heap demo_guest (hgsmi_get_mode_hints demo_host 2 True)"
  using hgsmi_commands_keep_heap [OF demo_guest_ok, of 2 64 64] by simp

theorem hgsmi_query_conf_answer_witness:
  "\<exists>r g'. hgsmi_query_conf demo_host U32_MAX demo_guest = Some (Inr (r, g'))"
  using hgsmi_query_conf_answer [OF demo_guest_ok, of U32_MAX] by blast

theorem hgsmi_update_pointer_shape_sent_witness:
  "hgsmi_update_pointer_shape demo_host VBOX_MOUSE_POINTER_SHAPE 0 0 64 64 (replicate 100 0) 100 demo_guest =
     Some (Inr (Inl EINVAL, demo_guest))"
  using hgsmi_update_pointer_shape_sent [OF demo_guest_ok _ _ _ _ _ _ refl refl, of VBOX_MOUSE_POINTER_SHAPE 64 64 "replicate 100 0" 100 0 0]
  by (simp add: VBOX_MOUSE_POINTER_SHAPE_def)

end
