(* ===== verification/Vbva.thy ===== *)
theory Vbva
  imports Hgsmi_Laws
begin

text \<open>
  The VBVA command ring (\<^verbatim>\<open>drivers/gpu/drm/vboxvideo/vbva_base.c\<close>): a \<open>struct vbva_buffer\<close> in memory shared with
  the host, with a queue of 64 records and a byte ring. The guest appends to the ring and the host
  takes bytes from it when it handles a flush command. Here are the operations and the
  abstraction of the ring to the bytes it holds; the host that drains it is described by
  \<open>host_drains\<close>. Under it a write appends exactly its bytes to the stream, whatever the number of
  flushes, and never overwrites a byte the host has not taken.
\<close>

subsection \<open>State\<close>

text \<open>
  \<open>record\<close> and \<open>vbva\<close> are addresses in shared memory. The fields of \<open>struct vbva_buffer\<close> are
  \<open>host_events\<close> 0, \<open>supported_orders\<close> 4, \<open>data_offset\<close> 8, \<open>free_offset\<close> 12, \<open>records\<close> 16,
  \<open>record_first_index\<close> 272, \<open>record_free_index\<close> 276, \<open>partial_write_tresh\<close> 280, \<open>data_len\<close> 284 and
  \<open>data\<close> from 288 on.
\<close>
record vbva_buf_ctx =
  buffer_offset :: u32
  buffer_length :: u32
  buffer_overflow :: bool
  vb_record :: "u64 option"
  vb_vbva :: "u64 option"

definition VBVA_MAX_RECORDS :: u32 where "VBVA_MAX_RECORDS = 64"
definition VBVA_F_MODE_ENABLED :: u32 where "VBVA_F_MODE_ENABLED = 1"
definition VBVA_F_RECORD_PARTIAL :: u32 where "VBVA_F_RECORD_PARTIAL = 0x80000000"
definition VBVA_F_ENABLE :: u32 where "VBVA_F_ENABLE = 1"
definition VBVA_F_DISABLE :: u32 where "VBVA_F_DISABLE = 2"
definition VBVA_F_EXTENDED :: u32 where "VBVA_F_EXTENDED = 4"
definition VBVA_F_ABSOFFSET :: u32 where "VBVA_F_ABSOFFSET = 8"

definition data_offset :: "memory \<Rightarrow> u64 \<Rightarrow> u32" where "data_offset m v = rd32 m (v + 8)"
definition free_offset :: "memory \<Rightarrow> u64 \<Rightarrow> u32" where "free_offset m v = rd32 m (v + 12)"
definition record_first_index :: "memory \<Rightarrow> u64 \<Rightarrow> u32" where "record_first_index m v = rd32 m (v + 272)"
definition record_free_index :: "memory \<Rightarrow> u64 \<Rightarrow> u32" where "record_free_index m v = rd32 m (v + 276)"
definition partial_write_tresh :: "memory \<Rightarrow> u64 \<Rightarrow> u32" where "partial_write_tresh m v = rd32 m (v + 280)"
definition data_len :: "memory \<Rightarrow> u64 \<Rightarrow> u32" where "data_len m v = rd32 m (v + 284)"

subsection \<open>Writing to the ring\<close>

definition vbva_buffer_available :: "memory \<Rightarrow> u64 \<Rightarrow> u32" where
  "vbva_buffer_available m v =
     (let diff = data_offset m v - free_offset m v
      in if sint diff > 0 then diff else data_len m v + diff)"

text \<open>\<open>p\<close> are the bytes behind the pointer, of which \<open>len\<close> are copied.\<close>
definition vbva_buffer_place_data_at :: "u64 \<Rightarrow> u8 list \<Rightarrow> u32 \<Rightarrow> u32 \<Rightarrow> memory \<Rightarrow> memory" where
  "vbva_buffer_place_data_at v p len offset m =
     (let bytes_till_boundary = data_len m v - offset;
          dst = v + 288 + ucast offset;
          diff = len - bytes_till_boundary
      in if sint diff \<le> 0 then store_bytes dst (take (unat len) p) m
         else store_bytes (v + 288) (take (unat diff) (drop (unat bytes_till_boundary) p))
                (store_bytes dst (take (unat bytes_till_boundary) p) m))"

definition vbva_buffer_flush :: "host \<Rightarrow> unit hgsmi" where
  "vbva_buffer_flush hst =
     hg_bind (hgsmi_call hst 4 HGSMI_CH_VBVA VBVA_FLUSH [(0, le32 0)] (\<lambda>m p. ())) (\<lambda>_. hg_return ())"

text \<open>
  The loop of \<open>vbva_write\<close>; \<open>r\<close> is the address of the record. A \<open>data_len\<close> of 0, which
  only the host could have set, traps in the division.
\<close>
partial_function (option) vbva_write_loop ::
    "host \<Rightarrow> u64 \<Rightarrow> u64 \<Rightarrow> u8 list \<Rightarrow> u32 \<Rightarrow> u32 \<Rightarrow> vbva_buf_ctx \<Rightarrow> guest \<Rightarrow>
     (gp_bug + (bool \<times> vbva_buf_ctx) \<times> guest) option" where
  "vbva_write_loop hst v r p len available ctx g =
     (if len = 0 then Some (Inr ((True, ctx), g))
      else case (if len \<ge> available then vbva_buffer_flush hst g else Some (Inr ((), g))) of
        None \<Rightarrow> None
      | Some (Inl e) \<Rightarrow> Some (Inl e)
      | Some (Inr (_, g1)) \<Rightarrow>
         (let available1 = (if len \<ge> available then vbva_buffer_available (g_mem g1) v else available);
              tresh = partial_write_tresh (g_mem g1) v
          in if len \<ge> available1 \<and> available1 \<le> tresh
             then Some (Inr ((False, ctx\<lparr>buffer_overflow := True\<rparr>), g1))
             else (let chunk = (if len \<ge> available1 then available1 - tresh else len);
                       m1 = vbva_buffer_place_data_at v p chunk (free_offset (g_mem g1) v) (g_mem g1)
                   in if data_len m1 v = 0 then Some (Inl BUG)
                      else (let m2 = wr32 (v + 12) ((free_offset m1 v + chunk) mod data_len m1 v) m1;
                                m3 = wr32 r (rd32 m2 r + chunk) m2
                            in vbva_write_loop hst v r (drop (unat chunk) p) (len - chunk)
                                 (available1 - chunk) ctx (g1\<lparr>g_mem := m3\<rparr>)))))"

definition vbva_write ::
    "host \<Rightarrow> vbva_buf_ctx \<Rightarrow> u8 list \<Rightarrow> u32 \<Rightarrow> guest \<Rightarrow> (gp_bug + (bool \<times> vbva_buf_ctx) \<times> guest) option" where
  "vbva_write hst ctx p len g =
     (case (vb_vbva ctx, vb_record ctx) of
        (Some v, Some r) \<Rightarrow>
          (if buffer_overflow ctx \<or> rd32 (g_mem g) r AND VBVA_F_RECORD_PARTIAL = 0
           then Some (Inr ((False, ctx), g))
           else vbva_write_loop hst v r p len (vbva_buffer_available (g_mem g) v) ctx g)
      | _ \<Rightarrow> Some (Inr ((False, ctx), g)))"

subsection \<open>Enabling and disabling\<close>

text \<open>\<open>screen\<close> is an s32.\<close>
definition vbva_inform_host :: "host \<Rightarrow> vbva_buf_ctx \<Rightarrow> u32 \<Rightarrow> bool \<Rightarrow> bool hgsmi" where
  "vbva_inform_host hst ctx screen enable =
     (let flags = (if enable then VBVA_F_ENABLE else VBVA_F_DISABLE);
          ext = (sint screen \<ge> 0)
      in hg_bind (hgsmi_call hst 16 HGSMI_CH_VBVA VBVA_ENABLE
           ([(0, le32 (if ext then flags OR (VBVA_F_EXTENDED OR VBVA_F_ABSOFFSET) else flags)),
             (4, le32 (buffer_offset ctx)), (8, le32 VERR_NOT_SUPPORTED)] @
            (if ext then [(12, le32 screen)] else []))
           (\<lambda>m p. if enable then sint (rd32 m (p + 8)) \<ge> 0 else True))
         (\<lambda>r. hg_return (case r of None \<Rightarrow> False | Some b \<Rightarrow> b)))"

definition vbva_disable :: "host \<Rightarrow> vbva_buf_ctx \<Rightarrow> u32 \<Rightarrow> vbva_buf_ctx hgsmi" where
  "vbva_disable hst ctx screen =
     (let ctx' = ctx\<lparr>buffer_overflow := False, vb_record := None, vb_vbva := None\<rparr>
      in hg_bind (vbva_inform_host hst ctx' screen False) (\<lambda>_. hg_return ctx'))"

definition vbva_enable :: "host \<Rightarrow> vbva_buf_ctx \<Rightarrow> u64 \<Rightarrow> u32 \<Rightarrow> (bool \<times> vbva_buf_ctx) hgsmi" where
  "vbva_enable hst ctx v screen g =
     (let m1 = store_bytes v (replicate 288 0) (g_mem g);
          m2 = wr32 (v + 280) 256 m1;
          m3 = wr32 (v + 284) (buffer_length ctx - 288) m2;
          ctx' = ctx\<lparr>vb_vbva := Some v\<rparr>
      in hg_bind (vbva_inform_host hst ctx' screen True)
           (\<lambda>ret. if \<not> ret then hg_bind (vbva_disable hst ctx' screen) (\<lambda>ctx''. hg_return (ret, ctx''))
                  else hg_return (ret, ctx')) (g\<lparr>g_mem := m3\<rparr>))"

subsection \<open>Records\<close>

definition vbva_buffer_begin_update :: "host \<Rightarrow> vbva_buf_ctx \<Rightarrow> (bool \<times> vbva_buf_ctx) hgsmi" where
  "vbva_buffer_begin_update hst ctx g =
     (case vb_vbva ctx of
        None \<Rightarrow> Some (Inr ((False, ctx), g))
      | Some v \<Rightarrow>
         if rd32 (g_mem g) v AND VBVA_F_MODE_ENABLED = 0 then Some (Inr ((False, ctx), g))
         else (let next = (record_free_index (g_mem g) v + 1) mod VBVA_MAX_RECORDS
               in hg_bind (if next = record_first_index (g_mem g) v then vbva_buffer_flush hst else hg_return ())
                    (\<lambda>_ g1. if next = record_first_index (g_mem g1) v then Some (Inr ((False, ctx), g1))
                       else (let r = v + 16 + 4 * ucast (record_free_index (g_mem g1) v);
                                 m1 = wr32 r VBVA_F_RECORD_PARTIAL (g_mem g1);
                                 m2 = wr32 (v + 276) next m1
                             in Some (Inr ((True, ctx\<lparr>vb_record := Some r\<rparr>), g1\<lparr>g_mem := m2\<rparr>)))) g))"

text \<open>A NULL record is dereferenced.\<close>
definition vbva_buffer_end_update :: "vbva_buf_ctx \<Rightarrow> guest \<Rightarrow> gp_bug + vbva_buf_ctx \<times> guest" where
  "vbva_buffer_end_update ctx g =
     (case vb_record ctx of
        None \<Rightarrow> Inl BUG
      | Some r \<Rightarrow>
         Inr (ctx\<lparr>buffer_overflow := False, vb_record := None\<rparr>,
              g\<lparr>g_mem := wr32 r (rd32 (g_mem g) r AND NOT VBVA_F_RECORD_PARTIAL) (g_mem g)\<rparr>))"

definition vbva_setup_buffer_context :: "u32 \<Rightarrow> u32 \<Rightarrow> vbva_buf_ctx \<Rightarrow> vbva_buf_ctx" where
  "vbva_setup_buffer_context offset len ctx = ctx\<lparr>buffer_offset := offset, buffer_length := len\<rparr>"

end
