(* ===== verification/Vbva_Laws.thy ===== *)
theory Vbva_Laws
  imports Vbva
begin

text \<open>
  What the VBVA ring guarantees: the ring in shared memory is a window of bytes, a write extends the
  window, a flush lets the host shorten it at the front, and both compose to a stream. On top of
  it stand the record queue and the enabling of a screen.
\<close>

subsection \<open>Windows of a ring\<close>

text \<open>The \<open>u\<close> bytes from position \<open>d\<close> on in a ring of \<open>n\<close> bytes.\<close>
definition window :: "(nat \<Rightarrow> u8) \<Rightarrow> nat \<Rightarrow> nat \<Rightarrow> nat \<Rightarrow> u8 list" where
  "window b n d u = map (\<lambda>i. b ((d + i) mod n)) [0..<u]"

lemma length_window [simp]: "length (window b n d u) = u"
  by (simp add: window_def)

lemma nth_window [simp]: "i < u \<Longrightarrow> window b n d u ! i = b ((d + i) mod n)"
  by (simp add: window_def)

lemma window_drop: "k \<le> u \<Longrightarrow> drop k (window b n d u) = window b n ((d + k) mod n) (u - k)"
  by (rule nth_equalityI) (simp_all add: mod_add_left_eq add.assoc)

lemma window_append: "window b n d (u + k) = window b n d u @ window b n ((d + u) mod n) k"
proof (rule nth_equalityI)
  fix i assume i: "i < length (window b n d (u + k))"
  show "window b n d (u + k) ! i = (window b n d u @ window b n ((d + u) mod n) k) ! i"
  proof (cases "i < u")
    case False
    then have "((d + u) mod n + (i - u)) mod n = (d + i) mod n" by (simp only: mod_add_left_eq) simp
    then show ?thesis using i False by (simp add: nth_append)
  qed (use i in \<open>simp add: nth_append\<close>)
qed simp

lemma window_cong: "0 < n \<Longrightarrow> (\<And>i. i < n \<Longrightarrow> b i = b' i) \<Longrightarrow> window b n d u = window b' n d u"
  by (simp add: window_def)

lemma mod_once: "a < 2 * n \<Longrightarrow> a mod n = (if a < n then a else a - n)" for a n :: nat
  by (simp add: mod_if)

lemma ring_position:
  fixes s i n :: nat
  assumes "s < n" and "i < n"
  shows "((s + i) mod n + n - s) mod n = i"
proof -
  have "(s + i) mod n = (if s + i < n then s + i else s + i - n)"
    by (rule mod_once) (use assms in simp)
  then show ?thesis using assms by (auto split: if_splits)
qed

text \<open>The effect of writing \<open>k\<close> bytes at position \<open>s\<close>.\<close>
definition ring_write :: "(nat \<Rightarrow> u8) \<Rightarrow> nat \<Rightarrow> nat \<Rightarrow> u8 list \<Rightarrow> nat \<Rightarrow> nat \<Rightarrow> u8" where
  "ring_write b n s p k i = (if (i + n - s) mod n < k then p ! ((i + n - s) mod n) else b i)"

lemma window_written:
  assumes "s < n" and "k \<le> n" and "k \<le> length p"
  shows "window (ring_write b n s p k) n s k = take k p"
  by (rule nth_equalityI) (use assms in \<open>simp_all add: ring_write_def ring_position\<close>)

lemma window_before:
  assumes "d < n" and "u + k \<le> n"
  shows "window (ring_write b n ((d + u) mod n) p k) n d u = window b n d u"
proof (rule nth_equalityI)
  fix i assume "i < length (window (ring_write b n ((d + u) mod n) p k) n d u)"
  then have i: "i < u" by simp
  let ?s = "(d + u) mod n" and ?j = "(d + i) mod n"
  have s: "?s = (if d + u < n then d + u else d + u - n)" and j: "?j = (if d + i < n then d + i else d + i - n)"
    by (rule mod_once, use assms i in simp)+
  have "(?j + n - ?s) mod n = n - (u - i)"
  proof -
    have "?j + n - ?s = n - (u - i) \<or> ?j + n - ?s = n - (u - i) + n"
      using s j assms i by (auto split: if_splits)
    moreover have "n - (u - i) < n" using assms i by simp
    ultimately show ?thesis by auto
  qed
  then have "\<not> (?j + n - ?s) mod n < k" using assms i by simp
  then show "window (ring_write b n ?s p k) n d u ! i = window b n d u ! i"
    using i by (simp add: ring_write_def)
qed simp

lemma window_extend:
  assumes "d < n" and "u + k \<le> n" and "k \<le> length p" and "0 < n"
  shows "window (ring_write b n ((d + u) mod n) p k) n d (u + k) = window b n d u @ take k p"
  using assms window_before [OF assms(1,2)] window_written [of "(d + u) mod n" n k p]
  by (simp add: window_append)

subsection \<open>The ring in memory\<close>

abbreviation ring_byte :: "memory \<Rightarrow> u64 \<Rightarrow> nat \<Rightarrow> u8" where
  "ring_byte m v i \<equiv> m (v + of_nat (288 + i))"

definition ring_len :: "memory \<Rightarrow> u64 \<Rightarrow> nat" where
  "ring_len m v = unat (data_len m v)"

definition ring_used :: "memory \<Rightarrow> u64 \<Rightarrow> nat" where
  "ring_used m v = (unat (free_offset m v) + ring_len m v - unat (data_offset m v)) mod ring_len m v"

text \<open>The bytes that the host has not taken yet, oldest first.\<close>
definition ring_contents :: "memory \<Rightarrow> u64 \<Rightarrow> u8 list" where
  "ring_contents m v = window (ring_byte m v) (ring_len m v) (unat (data_offset m v)) (ring_used m v)"

definition ring_ok :: "memory \<Rightarrow> u64 \<Rightarrow> bool" where
  "ring_ok m v \<longleftrightarrow>
     0 < ring_len m v \<and> ring_len m v < 2 ^ 31 \<and> unat (data_offset m v) < ring_len m v \<and>
     unat (free_offset m v) < ring_len m v \<and> 0 < unat (partial_write_tresh m v)"

lemma ring_used_less: "ring_ok m v \<Longrightarrow> ring_used m v < ring_len m v"
  by (simp add: ring_ok_def ring_used_def)

lemma ring_free_position:
  assumes "ring_ok m v"
  shows "(unat (data_offset m v) + ring_used m v) mod ring_len m v = unat (free_offset m v)"
proof -
  have "(unat (data_offset m v) + ring_used m v) mod ring_len m v =
      (unat (data_offset m v) + (unat (free_offset m v) + ring_len m v - unat (data_offset m v))) mod ring_len m v"
    by (simp add: ring_used_def mod_add_right_eq)
  also have "\<dots> = unat (free_offset m v)" using assms by (simp add: ring_ok_def)
  finally show ?thesis .
qed

text \<open>The signed difference of two offsets below \<open>2 ^ 31\<close>.\<close>
lemma sint_diff:
  fixes a b :: u32
  assumes "unat a < 2 ^ 31" and "unat b < 2 ^ 31"
  shows "sint (a - b) = int (unat a) - int (unat b)"
proof -
  have "a - b = word_of_int (int (unat a) - int (unat b))" by simp
  then have "sint (a - b) = signed_take_bit 31 (int (unat a) - int (unat b))"
    by (simp only: signed_of_int) simp
  also have "\<dots> = int (unat a) - int (unat b)"
  proof (rule signed_take_bit_int_eq_self)
    have "int (unat a) < 2 ^ 31" "int (unat b) < 2 ^ 31"
      using assms by (metis of_nat_less_iff of_nat_numeral of_nat_power)+
    then show "- (2 ^ 31) \<le> int (unat a) - int (unat b)" "int (unat a) - int (unat b) < 2 ^ 31" by linarith+
  qed
  finally show ?thesis .
qed

lemma unat_available:
  assumes "ring_ok m v"
  shows "unat (vbva_buffer_available m v) = ring_len m v - ring_used m v"
proof -
  let ?d = "data_offset m v" and ?f = "free_offset m v" and ?n = "ring_len m v"
  have b: "unat ?d < ?n" "unat ?f < ?n" "?n < 2 ^ 31" using assms by (simp_all add: ring_ok_def)
  have "sint (?d - ?f) = int (unat ?d) - int (unat ?f)" using b by (intro sint_diff) simp_all
  then have diff: "0 < sint (?d - ?f) \<longleftrightarrow> unat ?f < unat ?d" by linarith
  have used: "ring_used m v = (if unat ?f < unat ?d then unat ?f + ?n - unat ?d else unat ?f - unat ?d)"
    using b unfolding ring_used_def by (subst mod_once) auto
  show ?thesis
  proof (cases "unat ?f < unat ?d")
    case True
    then have "unat (?d - ?f) = unat ?d - unat ?f" by (simp add: unat_sub word_le_nat_alt)
    then show ?thesis using True b diff used by (simp add: vbva_buffer_available_def Let_def)
  next
    case False
    have "data_len m v + (?d - ?f) = of_nat (?n + unat ?d - unat ?f)"
      using b by (simp add: ring_len_def of_nat_diff)
    then have "unat (data_len m v + (?d - ?f)) = (?n + unat ?d - unat ?f) mod 2 ^ 32"
      by (simp only: unat_of_nat) (simp add: take_bit_eq_mod)
    then show ?thesis using False b diff used by (simp add: vbva_buffer_available_def Let_def)
  qed
qed

lemma store_bytes_at:
  assumes "j < 2 ^ 64" and "k + length bs \<le> 2 ^ 64"
  shows "store_bytes (v + of_nat k) bs m (v + of_nat j) =
     (if k \<le> j \<and> j < k + length bs then bs ! (j - k) else m (v + of_nat j))"
proof (cases "k \<le> j")
  case True
  then have "v + of_nat j - (v + of_nat k) = (of_nat (j - k) :: u64)" by (simp add: of_nat_diff)
  then have "unat (v + of_nat j - (v + of_nat k)) = j - k"
    using assms(1) by (simp only: unat_of_nat) (simp add: take_bit_eq_mod)
  then show ?thesis using True by (auto simp: store_bytes_def Let_def)
next
  case False
  have "v + of_nat j \<notin> addrs (v + of_nat k) (length bs)"
    using addrs_offset_iff [OF assms(2), of "v + of_nat j" v] unat_offset [OF assms(1), of v] False by simp
  then show ?thesis using False by (simp add: store_bytes_outside)
qed

text \<open>\<open>vbva_buffer_place_data_at\<close> writes \<open>k\<close> bytes into the ring and nothing outside it.\<close>
lemma place_data:
  assumes "ring_ok m v" and "unat len \<le> ring_len m v" and "unat len \<le> length p"
    and "m1 = vbva_buffer_place_data_at v p len (free_offset m v) m"
  shows "i < ring_len m v \<Longrightarrow>
      ring_byte m1 v i = ring_write (ring_byte m v) (ring_len m v) (unat (free_offset m v)) p (unat len) i"
    and "x \<notin> addrs (v + of_nat 288) (ring_len m v) \<Longrightarrow> m1 x = m x"
proof -
  let ?n = "ring_len m v" and ?f = "unat (free_offset m v)" and ?k = "unat len"
  have b: "?f < ?n" "?n < 2 ^ 31" using assms(1) by (simp_all add: ring_ok_def)
  have till: "unat (data_len m v - free_offset m v) = ?n - ?f"
    using b by (simp add: ring_len_def unat_sub word_le_nat_alt)
  have "sint (len - (data_len m v - free_offset m v)) = int ?k - int (?n - ?f)"
    using sint_diff [of len "data_len m v - free_offset m v"] till b assms(2) by simp
  then have le: "sint (len - (data_len m v - free_offset m v)) \<le> 0 \<longleftrightarrow> ?k \<le> ?n - ?f" by linarith
  have m1: "m1 = (if ?k \<le> ?n - ?f then store_bytes (v + of_nat (288 + ?f)) (take ?k p) m
      else store_bytes (v + of_nat 288) (take (?k - (?n - ?f)) (drop (?n - ?f) p))
             (store_bytes (v + of_nat (288 + ?f)) (take (?n - ?f) p) m))"
  proof (cases "?k \<le> ?n - ?f")
    case True
    then show ?thesis using le assms(4) by (simp add: vbva_buffer_place_data_at_def Let_def add.assoc)
  next
    case False
    then have "unat (len - (data_len m v - free_offset m v)) = ?k - (?n - ?f)"
      using till by (simp add: unat_sub word_le_nat_alt)
    then show ?thesis
      using False le till assms(4) by (simp add: vbva_buffer_place_data_at_def Let_def add.assoc)
  qed
  show "ring_byte m1 v i = ring_write (ring_byte m v) ?n ?f p ?k i" if i: "i < ?n"
  proof -
    have pos: "(i + ?n - ?f) mod ?n = (if ?f \<le> i then i - ?f else i + ?n - ?f)"
      using i b by (subst mod_once) auto
    have at: "store_bytes (v + of_nat (288 + j)) bs m' (v + of_nat (288 + i)) =
        (if j \<le> i \<and> i < j + length bs then bs ! (i - j) else m' (v + of_nat (288 + i)))"
      if "j + length bs \<le> ?n" for j bs m'
      using store_bytes_at [of "288 + i" "288 + j" bs v m'] that i b by (auto simp: algebra_simps)
    show ?thesis
    proof (cases "?k \<le> ?n - ?f")
      case True
      then have "?f + length (take ?k p) \<le> ?n" using b assms(3) by simp
      then show ?thesis
        using True m1 at [of ?f "take ?k p" m] pos i assms(3) b
        by (auto simp: ring_write_def simp del: of_nat_add)
    next
      case False
      have "0 + length (take (?k - (?n - ?f)) (drop (?n - ?f) p)) \<le> ?n" "?f + length (take (?n - ?f) p) \<le> ?n"
        using False b assms(2,3) by auto
      then show ?thesis
        using False m1 at [of 0 "take (?k - (?n - ?f)) (drop (?n - ?f) p)"] at [of ?f "take (?n - ?f) p" m]
          pos i assms(2,3) b
        by (auto simp: ring_write_def add.commute [of ?n i] simp del: of_nat_add)
    qed
  qed
  show "m1 x = m x" if x: "x \<notin> addrs (v + of_nat 288) ?n"
  proof -
    have out: "store_bytes (v + of_nat (288 + j)) bs m' x = m' x" if "j + length bs \<le> ?n" for j bs m'
      using addrs_subset [of j "length bs" ?n "v + of_nat 288"] that b x
      by (intro store_bytes_outside) (auto simp: add.assoc)
    show ?thesis
    proof (cases "?k \<le> ?n - ?f")
      case True
      then show ?thesis using m1 out [of ?f "take ?k p" m] b assms(3) by (simp del: of_nat_add)
    next
      case False
      then show ?thesis
        using m1 out [of 0 "take (?k - (?n - ?f)) (drop (?n - ?f) p)"] out [of ?f "take (?n - ?f) p" m] b assms(2,3)
        by (simp del: of_nat_add)
    qed
  qed
qed

subsection \<open>Fields of the ring\<close>

definition record_at :: "u64 \<Rightarrow> u64 \<Rightarrow> bool" where
  "record_at v r \<longleftrightarrow> (\<exists>k < 64. r = v + of_nat (16 + 4 * k))"

lemma field_wr32:
  assumes "a + 4 \<le> b \<or> b + 4 \<le> a" and "a < 2 ^ 32" and "b < 2 ^ 32"
  shows "rd32 (wr32 (v + of_nat a) w m) (v + of_nat b) = rd32 m (v + of_nat b)"
proof -
  have "addrs (v + of_nat b) 4 \<inter> addrs (v + of_nat a) 4 = {}"
    by (rule addrs_disjoint) (use assms in auto)
  then show ?thesis unfolding wr32_def by (intro rd32_store_outside) simp
qed

lemma data_wr32:
  assumes "a + 4 \<le> 288" and "i < 2 ^ 32"
  shows "wr32 (v + of_nat a) w m (v + of_nat (288 + i)) = m (v + of_nat (288 + i))"
  unfolding wr32_def using store_bytes_at [of "288 + i" a "le32 w" v m] assms by simp

text \<open>A change that stays inside the data area leaves the fields.\<close>
lemma field_data:
  assumes "\<And>x. x \<notin> addrs (v + of_nat 288) n \<Longrightarrow> m' x = m x" and "a + 4 \<le> 288" and "n < 2 ^ 32"
  shows "rd32 m' (v + of_nat a) = rd32 m (v + of_nat a)"
proof (rule rd32_cong)
  fix x assume "x \<in> addrs (v + of_nat a) 4"
  moreover have "addrs (v + of_nat a) 4 \<inter> addrs (v + of_nat 288) n = {}"
    by (rule addrs_disjoint) (use assms in auto)
  ultimately show "m' x = m x" using assms(1) by blast
qed

text \<open>One round of the loop of \<open>vbva_write\<close>, when there is room.\<close>
lemma write_round:
  assumes ok: "ring_ok m v" and r: "record_at v r" and room: "ring_used m v + unat chunk < ring_len m v"
    and p: "unat chunk \<le> length p"
    and m1: "m1 = vbva_buffer_place_data_at v p chunk (free_offset m v) m"
    and m2: "m2 = wr32 (v + 12) ((free_offset m1 v + chunk) mod data_len m1 v) m1"
    and m3: "m3 = wr32 r (rd32 m2 r + chunk) m2"
  shows "ring_ok m3 v" and "ring_len m3 v = ring_len m v" and "data_len m1 v \<noteq> 0"
    and "ring_used m3 v = ring_used m v + unat chunk"
    and "ring_contents m3 v = ring_contents m v @ take (unat chunk) p"
    and "rd32 m3 r = rd32 m r + chunk"
    and "partial_write_tresh m3 v = partial_write_tresh m v"
    and "x \<notin> addrs v (288 + ring_len m v) \<Longrightarrow> m3 x = m x"
proof -
  let ?n = "ring_len m v" and ?f = "unat (free_offset m v)" and ?d = "unat (data_offset m v)" and ?k = "unat chunk"
  obtain j where j: "j < 64" "r = v + of_nat (16 + 4 * j)" using r by (auto simp: record_at_def)
  have b: "?f < ?n" "?n < 2 ^ 31" "?d < ?n" using ok by (simp_all add: ring_ok_def)
  note place = place_data [OF ok _ p m1]
  have k: "?k \<le> ?n" using room by simp
  have f1: "rd32 m1 (v + of_nat a) = rd32 m (v + of_nat a)" if "a + 4 \<le> 288" for a
    by (rule field_data [of v ?n, OF place(2) [OF k] that]) (use b in auto)
  have f2: "rd32 m2 (v + of_nat a) = rd32 m (v + of_nat a)" if "a + 4 \<le> 288" "a + 4 \<le> 12 \<or> 16 \<le> a" for a
    using field_wr32 [of 12 a v _ m1] f1 that unfolding m2 by auto
  have f3: "rd32 m3 (v + of_nat a) = rd32 m2 (v + of_nat a)" if "a + 4 \<le> 288" "a + 4 \<le> 16 \<or> 272 \<le> a" for a
    unfolding m3 j(2) by (rule field_wr32) (use that j(1) in auto)
  have same: "data_offset m3 v = data_offset m v" "data_len m3 v = data_len m v"
      "partial_write_tresh m3 v = partial_write_tresh m v" "data_len m1 v = data_len m v" "free_offset m1 v = free_offset m v"
    using f1 [of 12] f1 [of 284] f2 [of 8] f2 [of 280] f2 [of 284] f3 [of 8] f3 [of 280] f3 [of 284]
    by (simp_all add: data_offset_def data_len_def partial_write_tresh_def free_offset_def)
  have "free_offset m3 v = (free_offset m v + chunk) mod data_len m v"
    using f3 [of 12] same rd32_wr32 [of "v + 12"] m2 by (simp add: free_offset_def)
  moreover have "unat (free_offset m v + chunk) = ?f + ?k"
    using b k by (intro unat_add_small) simp
  ultimately have free: "unat (free_offset m3 v) = (?f + ?k) mod ?n"
    by (simp add: unat_mod ring_len_def)
  show len: "ring_len m3 v = ?n" and "data_len m1 v \<noteq> 0"
    and "partial_write_tresh m3 v = partial_write_tresh m v"
    using same b by (auto simp: ring_len_def)
  show "ring_ok m3 v"
    using ok free same len by (simp add: ring_ok_def)
  have pos: "(?d + (ring_used m v + ?k)) mod ?n = (?f + ?k) mod ?n"
    by (metis add.assoc mod_add_left_eq ring_free_position [OF ok])
  show used: "ring_used m3 v = ring_used m v + ?k"
  proof -
    have "ring_used m3 v = ((?d + (ring_used m v + ?k)) mod ?n + ?n - ?d) mod ?n"
      unfolding pos by (simp add: ring_used_def [of m3] len free same)
    then show ?thesis using ring_position [of ?d ?n "ring_used m v + ?k"] b room by simp
  qed
  have bytes: "ring_byte m3 v i = ring_write (ring_byte m v) ?n ((?d + ring_used m v) mod ?n) p ?k i" if "i < ?n" for i
  proof -
    have "ring_byte m3 v i = ring_byte m1 v i"
      using data_wr32 [of 12 i v _ m1] data_wr32 [of "16 + 4 * j" i v _ m2] that b j m2 m3 by simp
    then show ?thesis using place(1) [OF k that] ring_free_position [OF ok] by simp
  qed
  show "ring_contents m3 v = ring_contents m v @ take ?k p"
    unfolding ring_contents_def len used same
    using window_cong [where d = ?d and u = "ring_used m v + ?k", OF _ bytes] window_extend [of ?d ?n "ring_used m v" ?k p] b room p
    by simp
  show "rd32 m3 r = rd32 m r + chunk"
    using f2 [of "16 + 4 * j"] j m3 by (simp add: rd32_wr32)
  show "m3 x = m x" if x: "x \<notin> addrs v (288 + ?n)"
  proof -
    have sub: "addrs (v + of_nat a) l \<subseteq> addrs v (288 + ?n)" if "a + l \<le> 288 + ?n" for a l
      by (rule addrs_subset [OF that]) (use b in simp)
    have "m3 x = m2 x" unfolding m3 wr32_def by (rule store_bytes_outside) (use sub [of "16 + 4 * j" 4] j x in auto)
    also have "\<dots> = m1 x" unfolding m2 wr32_def by (rule store_bytes_outside) (use sub [of 12 4] x in auto)
    also have "\<dots> = m x" by (rule place(2) [OF k]) (use sub [of 288 ?n] x in auto)
    finally show ?thesis .
  qed
qed

subsection \<open>Flushing\<close>

definition outside_heap :: "u64 \<Rightarrow> nat \<Rightarrow> gen_pool \<Rightarrow> bool" where
  "outside_heap v n pool \<longleftrightarrow> (\<forall>x \<in> addrs v n. unat x \<notin> managed pool)"

text \<open>The part of the buffer the host has no business with.\<close>
definition guest_part :: "u64 \<Rightarrow> nat \<Rightarrow> u64 set" where
  "guest_part v n = addrs v (288 + n) - (addrs v 12 \<union> addrs (v + 272) 4)"

definition agree_on :: "u64 set \<Rightarrow> memory \<Rightarrow> memory \<Rightarrow> bool" where
  "agree_on S m m' \<longleftrightarrow> (\<forall>x\<in>S. m' x = m x)"

text \<open>
  The host counts the bytes that it takes from the ring: the count is a function of addresses of its own. It is there to say which bytes have
  been taken; no code of the guest reads it.
\<close>
record host_count =
  count_at :: "u64 set"
  taken :: "memory \<Rightarrow> nat"

text \<open>
  What the guest relies on in the host: handling a command it may take bytes from the front of the
  ring, and records, and set its event flags; the rest of the buffer it leaves alone.
\<close>
definition host_drains :: "host_count \<Rightarrow> host \<Rightarrow> u64 \<Rightarrow> bool" where
  "host_drains t hst v \<longleftrightarrow>
     (\<forall>m m'. agree_on (count_at t) m m' \<longrightarrow> taken t m' = taken t m) \<and>
     (\<forall>offset m. ring_ok m v \<longrightarrow>
        agree_on (guest_part v (ring_len m v)) m (hst offset m) \<and>
        (\<exists>k \<le> ring_used m v.
           unat (data_offset (hst offset m) v) = (unat (data_offset m v) + k) mod ring_len m v \<and>
           taken t (hst offset m) = taken t m + k))"

text \<open>The count lies neither in the buffer nor in the heap of the commands.\<close>
definition count_apart :: "host_count \<Rightarrow> u64 \<Rightarrow> nat \<Rightarrow> gen_pool \<Rightarrow> bool" where
  "count_apart t v n pool \<longleftrightarrow> (\<forall>x \<in> count_at t. x \<notin> addrs v n \<and> unat x \<notin> managed pool)"

lemma taken_same: "host_drains t hst v \<Longrightarrow> (\<And>x. x \<in> count_at t \<Longrightarrow> m' x = m x) \<Longrightarrow> taken t m' = taken t m"
  unfolding host_drains_def agree_on_def by blast

lemma addrs_field:
  assumes "a + l \<le> 288 + n" and "n < 2 ^ 32" and "12 \<le> a" and "a + l \<le> 272 \<or> 276 \<le> a"
  shows "addrs (v + of_nat a) l \<subseteq> guest_part v n"
proof -
  have "addrs (v + of_nat a) l \<subseteq> addrs v (288 + n)" by (rule addrs_subset) (use assms in auto)
  moreover have "addrs (v + of_nat a) l \<inter> addrs (v + of_nat 0) 12 = {}"
    by (rule addrs_disjoint) (use assms in auto)
  moreover have "addrs (v + of_nat a) l \<inter> addrs (v + of_nat 272) 4 = {}"
    by (rule addrs_disjoint) (use assms in auto)
  ultimately show ?thesis by (auto simp: guest_part_def)
qed

lemma in_addrs_self: "i < 2 ^ 64 \<Longrightarrow> v + of_nat i \<in> addrs (v + of_nat i) 1"
  by (simp add: addrs_def)

text \<open>What agreement on the protected part of the buffer preserves.\<close>
lemma ring_agree:
  assumes "agree_on (guest_part v n) m m'" and "n < 2 ^ 31"
  shows "12 \<le> a \<Longrightarrow> a + 4 \<le> 288 \<Longrightarrow> a + 4 \<le> 272 \<or> 276 \<le> a \<Longrightarrow> rd32 m' (v + of_nat a) = rd32 m (v + of_nat a)"
    and "i < n \<Longrightarrow> ring_byte m' v i = ring_byte m v i"
proof -
  show "rd32 m' (v + of_nat a) = rd32 m (v + of_nat a)" if "12 \<le> a" "a + 4 \<le> 288" "a + 4 \<le> 272 \<or> 276 \<le> a"
    by (rule rd32_cong) (use addrs_field [of a 4 n v] that assms in \<open>auto simp: agree_on_def\<close>)
  show "ring_byte m' v i = ring_byte m v i" if "i < n"
    using addrs_field [of "288 + i" 1 n v] in_addrs_self [of "288 + i" v] that assms by (fastforce simp: agree_on_def)
qed

lemma ring_agree_fields:
  assumes "agree_on (guest_part v (ring_len m v)) m m'"
    and "ring_ok m v" and "record_at v r"
  shows "free_offset m' v = free_offset m v" "data_len m' v = data_len m v"
    "partial_write_tresh m' v = partial_write_tresh m v" "rd32 m' r = rd32 m r"
    "record_free_index m' v = record_free_index m v"
    "i < ring_len m v \<Longrightarrow> ring_byte m' v i = ring_byte m v i"
proof -
  have n: "ring_len m v < 2 ^ 31" using assms(2) by (simp add: ring_ok_def)
  note fld = ring_agree(1) [OF assms(1) n]
  show "free_offset m' v = free_offset m v" "data_len m' v = data_len m v"
    "partial_write_tresh m' v = partial_write_tresh m v" "record_free_index m' v = record_free_index m v"
    using fld [of 12] fld [of 284] fld [of 280] fld [of 276]
    by (simp_all add: free_offset_def data_len_def partial_write_tresh_def record_free_index_def)
  obtain j where "j < 64" "r = v + of_nat (16 + 4 * j)" using assms(3) by (auto simp: record_at_def)
  then show "rd32 m' r = rd32 m r" using fld [of "16 + 4 * j"] by auto
  show "i < ring_len m v \<Longrightarrow> ring_byte m' v i = ring_byte m v i"
    by (rule ring_agree(2) [OF assms(1) n])
qed

text \<open>The host takes a prefix of the ring.\<close>
lemma host_drains_prefix:
  assumes "host_drains t hst v" and "ring_ok m v" and "record_at v r" and "m' = hst offset m"
  obtains k where "ring_ok m' v" "ring_len m' v = ring_len m v" "k \<le> ring_used m v"
    "ring_used m' v = ring_used m v - k" "ring_contents m' v = drop k (ring_contents m v)"
    "partial_write_tresh m' v = partial_write_tresh m v" "rd32 m' r = rd32 m r"
    "record_free_index m' v = record_free_index m v" "taken t m' = taken t m + k"
proof -
  let ?n = "ring_len m v" and ?d = "unat (data_offset m v)" and ?f = "unat (free_offset m v)" and ?u = "ring_used m v"
  have keep: "agree_on (guest_part v ?n) m m'" using assms(1,2,4) by (simp add: host_drains_def)
  obtain k where k: "k \<le> ?u" "unat (data_offset m' v) = (?d + k) mod ?n" "taken t m' = taken t m + k"
    using assms(1,2,4) unfolding host_drains_def by blast
  note same = ring_agree_fields [OF keep assms(2,3)]
  have b: "?d < ?n" "?f < ?n" "0 < ?n" "?n < 2 ^ 31" using assms(2) by (simp_all add: ring_ok_def)
  have u: "?u < ?n" by (rule ring_used_less [OF assms(2)])
  have len: "ring_len m' v = ?n" using same(2) by (simp add: ring_len_def)
  have used: "ring_used m' v = ?u - k"
  proof -
    have "?f = ((?d + k) mod ?n + (?u - k)) mod ?n"
      unfolding mod_add_left_eq using ring_free_position [OF assms(2)] k(1) by simp
    then have "ring_used m' v = (((?d + k) mod ?n + (?u - k)) mod ?n + ?n - (?d + k) mod ?n) mod ?n"
      unfolding ring_used_def len same(1) k(2) by simp
    then show ?thesis using ring_position [of "(?d + k) mod ?n" ?n "?u - k"] b u by simp
  qed
  have "ring_contents m' v = window (ring_byte m v) ?n ((?d + k) mod ?n) (?u - k)"
    unfolding ring_contents_def len used k(2) by (rule window_cong [OF b(3) same(6)])
  then have contents: "ring_contents m' v = drop k (ring_contents m v)"
    using window_drop [OF k(1)] by (simp add: ring_contents_def)
  show thesis
    by (rule that [OF _ len k(1) used contents same(3,4,5) k(3)])
       (use assms(2) same k(2) len b in \<open>simp add: ring_ok_def\<close>)
qed

lemma command_outside_heap:
  assumes "command_sent hst sz channel channel_info fs buf m g g'" and "unat x \<notin> managed (g_pool g)"
  shows "m x = g_mem g x"
proof -
  let ?h = "buf - 16"
  have sent: "{unat ?h ..< unat ?h + unat sz + 24} \<subseteq> managed (g_pool g)" "unat ?h + unat sz + 24 \<le> 2 ^ 64"
    "x \<notin> addrs ?h (unat sz + 24) \<Longrightarrow> m x = g_mem g x"
    using assms(1) by (auto simp: command_sent_def Let_def)
  have "unat x \<notin> {unat ?h ..< unat ?h + unat sz + 24}" using sent(1) assms(2) by blast
  then have "x \<notin> addrs ?h (unat sz + 24)"
    using addrs_unat [of ?h "unat sz + 24" x] sent(2) by (simp add: add.assoc)
  then show ?thesis by (rule sent(3))
qed

lemma command_outside:
  assumes "command_sent hst sz channel channel_info fs buf m g g'" and "outside_heap v n (g_pool g)" and "x \<in> addrs v n"
  shows "m x = g_mem g x"
  by (rule command_outside_heap [OF assms(1)]) (use assms(2,3) in \<open>simp add: outside_heap_def\<close>)

text \<open>Any command the host handles leaves a suffix of the ring.\<close>
lemma command_sent_drains:
  assumes sent: "command_sent hst sz channel channel_info fs buf m g g'"
    and "host_drains t hst v" and "ring_ok (g_mem g) v" and "record_at v r"
    and out: "outside_heap v (288 + ring_len (g_mem g) v) (g_pool g)" and apart: "count_apart t v (288 + ring_len (g_mem g) v) (g_pool g)"
  obtains k where "g_pool g' = g_pool g"
    "ring_ok (g_mem g') v" "ring_len (g_mem g') v = ring_len (g_mem g) v" "k \<le> ring_used (g_mem g) v"
    "ring_used (g_mem g') v = ring_used (g_mem g) v - k"
    "ring_contents (g_mem g') v = drop k (ring_contents (g_mem g) v)"
    "partial_write_tresh (g_mem g') v = partial_write_tresh (g_mem g) v" "rd32 (g_mem g') r = rd32 (g_mem g) r"
    "record_free_index (g_mem g') v = record_free_index (g_mem g) v" "taken t (g_mem g') = taken t (g_mem g) + k"
proof -
  obtain offset where g': "g_mem g' = hst offset m" "g_pool g' = g_pool g"
    using sent by (auto simp: command_sent_def Let_def)
  have agree: "m x = g_mem g x" if "x \<in> addrs v (288 + ring_len (g_mem g) v)" for x
    by (rule command_outside [OF sent out that])
  then have "agree_on (guest_part v (ring_len (g_mem g) v)) (g_mem g) m"
    by (simp add: agree_on_def guest_part_def)
  note same = ring_agree_fields [OF this assms(3,4)]
  have d: "data_offset m v = data_offset (g_mem g) v"
    unfolding data_offset_def
  proof (rule rd32_cong)
    fix x assume "x \<in> addrs (v + 8) 4"
    moreover have "addrs (v + of_nat 8) 4 \<subseteq> addrs v (288 + ring_len (g_mem g) v)"
      by (rule addrs_subset) (use assms(3) in \<open>auto simp: ring_ok_def\<close>)
    ultimately show "m x = g_mem g x" by (intro agree) auto
  qed
  have eq: "ring_len m v = ring_len (g_mem g) v" "ring_used m v = ring_used (g_mem g) v"
    using same d by (simp_all add: ring_len_def ring_used_def)
  have ok: "ring_ok m v" using assms(3) same d eq by (simp add: ring_ok_def)
  have contents: "ring_contents m v = ring_contents (g_mem g) v"
    unfolding ring_contents_def eq d by (rule window_cong) (use assms(3) same(6) in \<open>auto simp: ring_ok_def\<close>)
  have count: "taken t m = taken t (g_mem g)"
    by (rule taken_same [OF assms(2)]) (use command_outside_heap [OF sent] apart in \<open>simp add: count_apart_def\<close>)
  show thesis
    by (rule host_drains_prefix [OF assms(2) ok assms(4) g'(1)])
       (rule that [OF g'(2)]; use eq same contents count in simp)
qed

text \<open>A flush, whether or not there was memory for it.\<close>
lemma vbva_flush_drains:
  assumes "guest_ok hst g" and "host_drains t hst v" and "ring_ok (g_mem g) v" and "record_at v r"
    and "outside_heap v (288 + ring_len (g_mem g) v) (g_pool g)" and "count_apart t v (288 + ring_len (g_mem g) v) (g_pool g)"
  obtains g1 k where "vbva_buffer_flush hst g = Some (Inr ((), g1))" "g_pool g1 = g_pool g"
    "ring_ok (g_mem g1) v" "ring_len (g_mem g1) v = ring_len (g_mem g) v" "k \<le> ring_used (g_mem g) v"
    "ring_used (g_mem g1) v = ring_used (g_mem g) v - k"
    "ring_contents (g_mem g1) v = drop k (ring_contents (g_mem g) v)"
    "partial_write_tresh (g_mem g1) v = partial_write_tresh (g_mem g) v" "rd32 (g_mem g1) r = rd32 (g_mem g) r"
    "record_free_index (g_mem g1) v = record_free_index (g_mem g) v" "taken t (g_mem g1) = taken t (g_mem g) + k"
proof -
  have "hgsmi_call hst 4 HGSMI_CH_VBVA VBVA_FLUSH [(0, le32 0)] (\<lambda>m p. ()) g = Some (Inr (None, g)) \<or>
    (\<exists>buf m g'. command_sent hst 4 HGSMI_CH_VBVA VBVA_FLUSH [(0, le32 0)] buf m g g' \<and>
       hgsmi_call hst 4 HGSMI_CH_VBVA VBVA_FLUSH [(0, le32 0)] (\<lambda>m p. ()) g = Some (Inr (Some (), g')))"
    by (rule hgsmi_call_either [OF assms(1)]) simp_all
  then show thesis
  proof (elim disjE exE conjE)
    assume "hgsmi_call hst 4 HGSMI_CH_VBVA VBVA_FLUSH [(0, le32 0)] (\<lambda>m p. ()) g = Some (Inr (None, g))"
    then have "vbva_buffer_flush hst g = Some (Inr ((), g))" by (simp add: vbva_buffer_flush_def hg_return_def)
    then show thesis by (rule that [of g 0]) (use assms(3) in simp_all)
  next
    fix buf m g'
    assume sent: "command_sent hst 4 HGSMI_CH_VBVA VBVA_FLUSH [(0, le32 0)] buf m g g'"
      and call: "hgsmi_call hst 4 HGSMI_CH_VBVA VBVA_FLUSH [(0, le32 0)] (\<lambda>m p. ()) g = Some (Inr (Some (), g'))"
    have "vbva_buffer_flush hst g = Some (Inr ((), g'))"
      using call by (simp add: vbva_buffer_flush_def hg_return_def)
    then show thesis by (rule command_sent_drains [OF sent assms(2-6) that])
  qed
qed

subsection \<open>The stream\<close>

text \<open>
  From \<open>m\<close> to \<open>m'\<close> the guest appended \<open>bs\<close> to the stream, counting them in the record; what is gone from its front is exactly what the
  host counted.
\<close>
definition stream_step :: "host_count \<Rightarrow> u64 \<Rightarrow> u64 \<Rightarrow> u8 list \<Rightarrow> memory \<Rightarrow> memory \<Rightarrow> bool" where
  "stream_step t v r bs m m' \<longleftrightarrow>
     ring_ok m' v \<and> ring_len m' v = ring_len m v \<and>
     (\<exists>k \<le> length (ring_contents m v @ bs). taken t m' = taken t m + k \<and> ring_contents m' v = drop k (ring_contents m v @ bs)) \<and>
     rd32 m' r = rd32 m r + of_nat (length bs)"

lemma stream_step_refl: "ring_ok m v \<Longrightarrow> stream_step t v r [] m m"
  by (auto simp: stream_step_def)

lemma stream_step_trans:
  assumes "stream_step t v r bs m m1" and "stream_step t v r bs' m1 m2"
  shows "stream_step t v r (bs @ bs') m m2"
proof -
  obtain k where k: "k \<le> length (ring_contents m v @ bs)" "taken t m1 = taken t m + k" "ring_contents m1 v = drop k (ring_contents m v @ bs)"
    using assms(1) by (auto simp: stream_step_def)
  obtain l where l: "l \<le> length (ring_contents m1 v @ bs')" "taken t m2 = taken t m1 + l" "ring_contents m2 v = drop l (ring_contents m1 v @ bs')"
    using assms(2) by (auto simp: stream_step_def)
  let ?S = "ring_contents m v @ bs @ bs'"
  have eq: "ring_contents m1 v @ bs' = drop k ?S" using k by simp
  have "ring_contents m2 v = drop (l + k) ?S" using l(3) unfolding eq by (simp only: drop_drop)
  moreover have "l + k \<le> length ?S" using l(1) k(1) unfolding eq by auto
  ultimately have "\<exists>k \<le> length ?S. taken t m2 = taken t m + k \<and> ring_contents m2 v = drop k ?S"
    using k(2) l(2) by (intro exI [of _ "l + k"]) simp
  moreover have "rd32 m2 r = rd32 m r + of_nat (length (bs @ bs'))" using assms by (simp add: stream_step_def)
  ultimately show ?thesis using assms by (simp add: stream_step_def)
qed

text \<open>The setting of a write: heap, host and ring as they should be, and the ring outside the heap.\<close>
definition vbva_setting :: "host_count \<Rightarrow> host \<Rightarrow> u64 \<Rightarrow> u64 \<Rightarrow> guest \<Rightarrow> bool" where
  "vbva_setting t hst v r g \<longleftrightarrow>
     guest_ok hst g \<and> host_drains t hst v \<and> ring_ok (g_mem g) v \<and> record_at v r \<and>
     outside_heap v (288 + ring_len (g_mem g) v) (g_pool g) \<and> count_apart t v (288 + ring_len (g_mem g) v) (g_pool g)"

lemma guest_ok_pool: "guest_ok hst g \<Longrightarrow> g_pool g' = g_pool g \<Longrightarrow> guest_ok hst g'"
  by (simp add: guest_ok_def)

lemma vbva_setting_step:
  assumes "vbva_setting t hst v r g" and "g_pool g' = g_pool g" and "stream_step t v r bs (g_mem g) (g_mem g')"
  shows "vbva_setting t hst v r g'"
  using assms guest_ok_pool [OF _ assms(2)] by (auto simp: vbva_setting_def stream_step_def)

lemma vbva_flush_step:
  assumes "vbva_setting t hst v r g"
  obtains g1 where "vbva_buffer_flush hst g = Some (Inr ((), g1))" "g_pool g1 = g_pool g"
    "stream_step t v r [] (g_mem g) (g_mem g1)"
proof -
  have s: "guest_ok hst g" "host_drains t hst v" "ring_ok (g_mem g) v" "record_at v r"
    "outside_heap v (288 + ring_len (g_mem g) v) (g_pool g)" "count_apart t v (288 + ring_len (g_mem g) v) (g_pool g)" using assms by (simp_all add: vbva_setting_def)
  obtain g1 k where fl: "vbva_buffer_flush hst g = Some (Inr ((), g1))" "g_pool g1 = g_pool g"
    "ring_ok (g_mem g1) v" "ring_len (g_mem g1) v = ring_len (g_mem g) v" "k \<le> ring_used (g_mem g) v"
    "ring_contents (g_mem g1) v = drop k (ring_contents (g_mem g) v)" "rd32 (g_mem g1) r = rd32 (g_mem g) r"
    "taken t (g_mem g1) = taken t (g_mem g) + k"
    by (rule vbva_flush_drains [OF s])
  have "stream_step t v r [] (g_mem g) (g_mem g1)"
    using fl(3-8) by (auto simp: stream_step_def intro!: exI [of _ k]) (simp add: ring_contents_def)
  then show thesis by (rule that [OF fl(1,2)])
qed

text \<open>The loop of \<open>vbva_write\<close> returns, and writes a prefix of its data, all of it when it succeeds.\<close>
lemma vbva_write_loop_stream:
  assumes "vbva_setting t hst v r g" and "unat available = ring_len (g_mem g) v - ring_used (g_mem g) v"
    and "length p = unat len"
  shows "\<exists>ok g' j. vbva_write_loop hst v r p len available ctx g =
       Some (Inr ((ok, if ok then ctx else ctx\<lparr>buffer_overflow := True\<rparr>), g')) \<and>
     g_pool g' = g_pool g \<and> j \<le> length p \<and> (ok \<longrightarrow> j = length p) \<and>
     stream_step t v r (take j p) (g_mem g) (g_mem g')"
  using assms
proof (induction "unat len" arbitrary: len p available g rule: less_induct)
  case less
  show ?case
  proof (cases "len = 0")
    case True
    then have "vbva_write_loop hst v r p len available ctx g = Some (Inr ((True, ctx), g))"
      by (subst vbva_write_loop.simps) simp
    then show ?thesis
      using True less.prems stream_step_refl [of "g_mem g" v t r]
      by (intro exI [of _ True] exI [of _ g] exI [of _ 0]) (simp add: vbva_setting_def)
  next
    case False
    have ready: "\<exists>g1 av. (if len \<ge> available then vbva_buffer_flush hst g else Some (Inr ((), g))) = Some (Inr ((), g1)) \<and>
        g_pool g1 = g_pool g \<and> stream_step t v r [] (g_mem g) (g_mem g1) \<and>
        av = (if len \<ge> available then vbva_buffer_available (g_mem g1) v else available) \<and>
        unat av = ring_len (g_mem g1) v - ring_used (g_mem g1) v"
    proof (cases "len \<ge> available")
      case True
      show ?thesis
        by (rule vbva_flush_step [OF less.prems(1)])
           (use True unat_available in \<open>auto simp: stream_step_def\<close>)
    next
      case False
      then show ?thesis
        using less.prems stream_step_refl [of "g_mem g" v t r] by (auto simp: vbva_setting_def)
    qed
    then obtain g1 av where fl: "(if len \<ge> available then vbva_buffer_flush hst g else Some (Inr ((), g))) = Some (Inr ((), g1))"
      and pool1: "g_pool g1 = g_pool g" and step1: "stream_step t v r [] (g_mem g) (g_mem g1)"
      and av: "av = (if len \<ge> available then vbva_buffer_available (g_mem g1) v else available)"
      and room: "unat av = ring_len (g_mem g1) v - ring_used (g_mem g1) v" by blast
    define tresh where "tresh = partial_write_tresh (g_mem g1) v"
    have set1: "vbva_setting t hst v r g1" by (rule vbva_setting_step [OF less.prems(1) pool1 step1])
    then have ok1: "ring_ok (g_mem g1) v" and rec: "record_at v r" and dr: "host_drains t hst v"
      and ap: "count_apart t v (288 + ring_len (g_mem g1) v) (g_pool g1)" by (simp_all add: vbva_setting_def)
    show ?thesis
    proof (cases "len \<ge> av \<and> av \<le> tresh")
      case True
      then have "vbva_write_loop hst v r p len available ctx g = Some (Inr ((False, ctx\<lparr>buffer_overflow := True\<rparr>), g1))"
        using False fl av tresh_def by (subst vbva_write_loop.simps) (simp add: Let_def)
      then show ?thesis using pool1 step1 by (intro exI [of _ False] exI [of _ g1] exI [of _ 0]) simp
    next
      case go: False
      define chunk where "chunk = (if len \<ge> av then av - tresh else len)"
      have tpos: "0 < unat tresh" "0 < unat len" using ok1 False by (simp_all add: ring_ok_def tresh_def unat_gt_0)
      have "unat chunk = (if unat av \<le> unat len then unat av - unat tresh else unat len)"
        using go by (auto simp: chunk_def word_le_nat_alt unat_sub)
      then have ck: "0 < unat chunk" "unat chunk \<le> unat len" "unat chunk < unat av"
        using go tpos unfolding word_le_nat_alt by (presburger)+
      define m1 where "m1 = vbva_buffer_place_data_at v p chunk (free_offset (g_mem g1) v) (g_mem g1)"
      define m2 where "m2 = wr32 (v + 12) ((free_offset m1 v + chunk) mod data_len m1 v) m1"
      define m3 where "m3 = wr32 r (rd32 m2 r + chunk) m2"
      define g2 where "g2 = g1\<lparr>g_mem := m3\<rparr>"
      have fits: "ring_used (g_mem g1) v + unat chunk < ring_len (g_mem g1) v" using ck room by simp
      have pl: "unat chunk \<le> length p" using ck(2) less.prems(3) by simp
      note rd = write_round [OF ok1 rec fits pl m1_def m2_def m3_def]
      have "taken t (g_mem g2) = taken t (g_mem g1)"
        by (rule taken_same [OF dr]) (use rd(8) ap in \<open>simp add: g2_def count_apart_def\<close>)
      then have step2: "stream_step t v r (take (unat chunk) p) (g_mem g1) (g_mem g2)"
        using rd(1-7) pl by (auto simp: stream_step_def g2_def intro!: exI [of _ 0])
      have step: "stream_step t v r (take (unat chunk) p) (g_mem g) (g_mem g2)"
        using stream_step_trans [OF step1 step2] by simp
      have pool2: "g_pool g2 = g_pool g" using pool1 by (simp add: g2_def)
      have set2: "vbva_setting t hst v r g2" by (rule vbva_setting_step [OF less.prems(1) pool2 step])
      have dec: "unat (len - chunk) = unat len - unat chunk" "unat (av - chunk) = unat av - unat chunk"
        using ck by (simp_all add: unat_sub word_le_nat_alt)
      have unfold: "vbva_write_loop hst v r p len available ctx g =
          vbva_write_loop hst v r (drop (unat chunk) p) (len - chunk) (av - chunk) ctx g2"
        using False fl go rd(3) by (subst vbva_write_loop.simps)
          (simp add: Let_def g2_def m3_def m2_def m1_def chunk_def av tresh_def split: if_splits)
      have "\<exists>ok g' j. vbva_write_loop hst v r (drop (unat chunk) p) (len - chunk) (av - chunk) ctx g2 =
           Some (Inr ((ok, if ok then ctx else ctx\<lparr>buffer_overflow := True\<rparr>), g')) \<and>
         g_pool g' = g_pool g2 \<and> j \<le> length (drop (unat chunk) p) \<and> (ok \<longrightarrow> j = length (drop (unat chunk) p)) \<and>
         stream_step t v r (take j (drop (unat chunk) p)) (g_mem g2) (g_mem g')"
        by (rule less.hyps) (use ck dec set2 rd room g2_def less.prems(3) in auto)
      then obtain ok g' j where rest: "vbva_write_loop hst v r (drop (unat chunk) p) (len - chunk) (av - chunk) ctx g2 =
           Some (Inr ((ok, if ok then ctx else ctx\<lparr>buffer_overflow := True\<rparr>), g'))"
        "g_pool g' = g_pool g2" "j \<le> length (drop (unat chunk) p)" "ok \<longrightarrow> j = length (drop (unat chunk) p)"
        "stream_step t v r (take j (drop (unat chunk) p)) (g_mem g2) (g_mem g')" by blast
      have "stream_step t v r (take (unat chunk + j) p) (g_mem g) (g_mem g')"
        using stream_step_trans [OF step rest(5)] by (simp add: take_add)
      then show ?thesis
        using unfold rest(1-4) pool2 pl
        by (intro exI [of _ ok] exI [of _ g'] exI [of _ "unat chunk + j"]) auto
    qed
  qed
qed

text \<open>
  C9. \<open>vbva_write\<close> is a reliable byte stream: with an open record and a host that only takes bytes
  from the front of the ring and counts them, the call returns, the heap is unchanged, and what the ring then
  holds is what it held followed by the bytes written, less exactly as many bytes at the front as the host
  has taken during the call; the record's length has grown by the number of bytes written. On success all the data was
  written, on failure a prefix of it and the overflow flag is set. So no byte the host had not taken is lost or
  overwritten, however often the ring wraps around or is flushed.
\<close>
theorem vbva_write_stream:
  assumes "vbva_setting t hst v r g" and "vb_vbva ctx = Some v" and "vb_record ctx = Some r"
    and "\<not> buffer_overflow ctx" and "rd32 (g_mem g) r AND VBVA_F_RECORD_PARTIAL \<noteq> 0" and "length p = unat len"
  shows "\<exists>ok g' j. vbva_write hst ctx p len g = Some (Inr ((ok, ctx\<lparr>buffer_overflow := \<not> ok\<rparr>), g')) \<and>
     g_pool g' = g_pool g \<and> j \<le> length p \<and> (ok \<longrightarrow> j = length p) \<and>
     taken t (g_mem g) \<le> taken t (g_mem g') \<and>
     taken t (g_mem g') - taken t (g_mem g) \<le> length (ring_contents (g_mem g) v @ take j p) \<and>
     ring_contents (g_mem g') v = drop (taken t (g_mem g') - taken t (g_mem g)) (ring_contents (g_mem g) v @ take j p) \<and>
     rd32 (g_mem g') r = rd32 (g_mem g) r + of_nat j \<and> ring_ok (g_mem g') v"
proof -
  have "unat (vbva_buffer_available (g_mem g) v) = ring_len (g_mem g) v - ring_used (g_mem g) v"
    using assms(1) by (intro unat_available) (simp add: vbva_setting_def)
  from vbva_write_loop_stream [OF assms(1) this assms(6), of ctx] obtain ok g' j where
    loop: "vbva_write_loop hst v r p len (vbva_buffer_available (g_mem g) v) ctx g =
       Some (Inr ((ok, if ok then ctx else ctx\<lparr>buffer_overflow := True\<rparr>), g'))"
    and rest: "g_pool g' = g_pool g" "j \<le> length p" "ok \<longrightarrow> j = length p"
    and step: "stream_step t v r (take j p) (g_mem g) (g_mem g')" by blast
  have "(if ok then ctx else ctx\<lparr>buffer_overflow := True\<rparr>) = ctx\<lparr>buffer_overflow := \<not> ok\<rparr>"
    using assms(4) by (cases ctx) simp
  then have "vbva_write hst ctx p len g = Some (Inr ((ok, ctx\<lparr>buffer_overflow := \<not> ok\<rparr>), g'))"
    using loop assms(2-5) by (simp add: vbva_write_def)
  then show ?thesis using rest step by (auto simp: stream_step_def)
qed

subsection \<open>Records\<close>

text \<open>Stores to the record queue leave the ring.\<close>
lemma ring_wr32_other:
  assumes "a + 4 \<le> 8 \<or> 16 \<le> a" and "a + 4 \<le> 280" and "m' = wr32 (v + of_nat a) w m" and "ring_ok m v"
  shows "ring_contents m' v = ring_contents m v" and "ring_ok m' v" and "ring_len m' v = ring_len m v"
proof -
  have "rd32 m' (v + of_nat b) = rd32 m (v + of_nat b)" if "b = 8 \<or> b = 12 \<or> b = 280 \<or> b = 284" for b
    unfolding assms(3) by (rule field_wr32) (use assms that in auto)
  from this [of 8] this [of 12] this [of 280] this [of 284]
  have same: "data_offset m' v = data_offset m v" "free_offset m' v = free_offset m v"
    "partial_write_tresh m' v = partial_write_tresh m v" "data_len m' v = data_len m v"
    by (simp_all add: data_offset_def free_offset_def partial_write_tresh_def data_len_def)
  then show len: "ring_len m' v = ring_len m v" and "ring_ok m' v"
    using assms(4) by (simp_all add: ring_len_def ring_ok_def)
  have used: "ring_used m' v = ring_used m v" by (simp add: ring_used_def len same)
  have byte: "ring_byte m' v i = ring_byte m v i" if "i < ring_len m v" for i
    unfolding assms(3) by (rule data_wr32) (use assms that in \<open>auto simp: ring_ok_def\<close>)
  show "ring_contents m' v = ring_contents m v"
    unfolding ring_contents_def len used same
    by (rule window_cong [OF _ byte]) (use assms(4) in \<open>simp_all add: ring_ok_def\<close>)
qed

text \<open>
  What opening a record does: it takes the slot at the free index, marks it partial and moves the
  index on. What is gone from the ring is what the host took while the queue was flushed.
\<close>
definition record_opened :: "host_count \<Rightarrow> u64 \<Rightarrow> u64 \<Rightarrow> memory \<Rightarrow> memory \<Rightarrow> bool" where
  "record_opened t v r m m' \<longleftrightarrow>
     r = v + of_nat (16 + 4 * unat (record_free_index m v)) \<and>
     rd32 m' r = VBVA_F_RECORD_PARTIAL \<and>
     record_free_index m' v = (record_free_index m v + 1) mod VBVA_MAX_RECORDS \<and>
     ring_ok m' v \<and> ring_len m' v = ring_len m v \<and>
     (\<exists>k \<le> ring_used m v. taken t m' = taken t m + k \<and> ring_contents m' v = drop k (ring_contents m v))"

lemma wr32_header:
  assumes "a + 4 \<le> 288" and "x \<notin> addrs v 288"
  shows "wr32 (v + of_nat a) w m x = m x"
  unfolding wr32_def by (rule store_bytes_outside) (use addrs_subset [of a 4 288 v] assms in auto)

text \<open>Stores to the head of the buffer leave the host's count.\<close>
lemma taken_header:
  assumes "vbva_setting t hst v r g" and "\<And>x. x \<notin> addrs v 288 \<Longrightarrow> m' x = m x"
  shows "taken t m' = taken t m"
proof (rule taken_same [where v = v and hst = hst])
  show "host_drains t hst v" using assms(1) by (simp add: vbva_setting_def)
  fix x assume "x \<in> count_at t"
  then have "x \<notin> addrs v (288 + ring_len (g_mem g) v)" using assms(1) by (simp add: vbva_setting_def count_apart_def)
  moreover have "addrs (v + of_nat 0) 288 \<subseteq> addrs v (288 + ring_len (g_mem g) v)"
    by (rule addrs_subset) (use assms(1) in \<open>auto simp: vbva_setting_def ring_ok_def\<close>)
  ultimately show "m' x = m x" by (intro assms(2)) auto
qed

lemma begin_update_memory:
  assumes "ring_ok m1 v" and "unat (record_free_index m1 v) < 64"
    and "r = v + 16 + 4 * ucast (record_free_index m1 v)"
    and "m2 = wr32 (v + 276) nxt (wr32 r w m1)"
  shows "r = v + of_nat (16 + 4 * unat (record_free_index m1 v))"
    and "rd32 m2 r = w" and "record_free_index m2 v = nxt"
    and "ring_contents m2 v = ring_contents m1 v" and "ring_ok m2 v" and "ring_len m2 v = ring_len m1 v"
    and "x \<notin> addrs v 288 \<Longrightarrow> m2 x = m1 x"
proof -
  let ?a = "16 + 4 * unat (record_free_index m1 v)"
  show r: "r = v + of_nat ?a" using assms(3) by (simp add: add.assoc)
  have a: "?a + 4 \<le> 8 \<or> 16 \<le> ?a" "?a + 4 \<le> 276" using assms(2) by auto
  have m2: "m2 = wr32 (v + of_nat 276) nxt (wr32 (v + of_nat ?a) w m1)" using assms(4) r by simp
  have "rd32 m2 (v + of_nat ?a) = rd32 (wr32 (v + of_nat ?a) w m1) (v + of_nat ?a)"
    unfolding m2 by (rule field_wr32) (use a in auto)
  then show "rd32 m2 r = w" using r by (simp add: rd32_wr32)
  show "record_free_index m2 v = nxt" using assms(4) by (simp add: record_free_index_def rd32_wr32)
  note first = ring_wr32_other [OF a(1) _ refl assms(1), of w]
  have "?a + 4 \<le> 280" using a by simp
  note second = ring_wr32_other [OF _ _ m2 first(2) [OF this]]
  show "ring_contents m2 v = ring_contents m1 v" "ring_ok m2 v" "ring_len m2 v = ring_len m1 v"
    using first [OF \<open>?a + 4 \<le> 280\<close>] second by simp_all
  show "m2 x = m1 x" if "x \<notin> addrs v 288"
    unfolding m2 using wr32_header [of 276] wr32_header [of ?a] a that by simp
qed

lemma vbva_begin_update_opens:
  assumes "vbva_setting t hst v r g" and "vb_vbva ctx = Some v"
    and "rd32 (g_mem g) v AND VBVA_F_MODE_ENABLED \<noteq> 0"
    and "r = v + of_nat (16 + 4 * unat (record_free_index (g_mem g) v))"
    and "unat (record_free_index (g_mem g) v) < 64"
  shows "\<exists>ok ctx' g'. vbva_buffer_begin_update hst ctx g = Some (Inr ((ok, ctx'), g')) \<and> g_pool g' = g_pool g \<and>
     (if ok then ctx' = ctx\<lparr>vb_record := Some r\<rparr> \<and> record_opened t v r (g_mem g) (g_mem g')
      else ctx' = ctx \<and> record_first_index (g_mem g') v = (record_free_index (g_mem g) v + 1) mod VBVA_MAX_RECORDS \<and>
        (\<exists>k \<le> ring_used (g_mem g) v. taken t (g_mem g') = taken t (g_mem g) + k \<and>
           ring_contents (g_mem g') v = drop k (ring_contents (g_mem g) v)))"
proof -
  let ?next = "(record_free_index (g_mem g) v + 1) mod VBVA_MAX_RECORDS"
  have s: "guest_ok hst g" "host_drains t hst v" "ring_ok (g_mem g) v" "record_at v r"
    "outside_heap v (288 + ring_len (g_mem g) v) (g_pool g)" "count_apart t v (288 + ring_len (g_mem g) v) (g_pool g)" using assms(1) by (simp_all add: vbva_setting_def)
  have "\<exists>g1 k. (if ?next = record_first_index (g_mem g) v then vbva_buffer_flush hst else hg_return ()) g = Some (Inr ((), g1)) \<and>
      g_pool g1 = g_pool g \<and> ring_ok (g_mem g1) v \<and> ring_len (g_mem g1) v = ring_len (g_mem g) v \<and>
      (k \<le> ring_used (g_mem g) v \<and> taken t (g_mem g1) = taken t (g_mem g) + k \<and>
       ring_contents (g_mem g1) v = drop k (ring_contents (g_mem g) v)) \<and>
      record_free_index (g_mem g1) v = record_free_index (g_mem g) v"
  proof (cases "?next = record_first_index (g_mem g) v")
    case True
    obtain g1 k where "vbva_buffer_flush hst g = Some (Inr ((), g1))" "g_pool g1 = g_pool g"
      "ring_ok (g_mem g1) v" "ring_len (g_mem g1) v = ring_len (g_mem g) v" "k \<le> ring_used (g_mem g) v"
      "ring_contents (g_mem g1) v = drop k (ring_contents (g_mem g) v)"
      "record_free_index (g_mem g1) v = record_free_index (g_mem g) v" "taken t (g_mem g1) = taken t (g_mem g) + k"
      by (rule vbva_flush_drains [OF s])
    then show ?thesis using True by (intro exI [of _ g1] exI [of _ k]) simp
  next
    case False
    then show ?thesis using s(3) by (auto simp: hg_return_def intro!: exI [of _ 0])
  qed
  then obtain g1 k where fl: "(if ?next = record_first_index (g_mem g) v then vbva_buffer_flush hst else hg_return ()) g = Some (Inr ((), g1))"
    and g1: "g_pool g1 = g_pool g" "ring_ok (g_mem g1) v" "ring_len (g_mem g1) v = ring_len (g_mem g) v"
      "k \<le> ring_used (g_mem g) v \<and> taken t (g_mem g1) = taken t (g_mem g) + k \<and>
       ring_contents (g_mem g1) v = drop k (ring_contents (g_mem g) v)"
      "record_free_index (g_mem g1) v = record_free_index (g_mem g) v" by blast
  let ?r = "v + 16 + 4 * ucast (record_free_index (g_mem g1) v)"
  let ?m2 = "wr32 (v + 276) ?next (wr32 ?r VBVA_F_RECORD_PARTIAL (g_mem g1))"
  note mem = begin_update_memory [where nxt = ?next and w = VBVA_F_RECORD_PARTIAL, OF g1(2) _ refl refl]
  have bu: "vbva_buffer_begin_update hst ctx g =
      (if ?next = record_first_index (g_mem g1) v then Some (Inr ((False, ctx), g1))
       else Some (Inr ((True, ctx\<lparr>vb_record := Some ?r\<rparr>), g1\<lparr>g_mem := ?m2\<rparr>)))"
    using assms(2,3) fl by (simp add: vbva_buffer_begin_update_def Let_def)
  show ?thesis
  proof (cases "?next = record_first_index (g_mem g1) v")
    case True
    then have "vbva_buffer_begin_update hst ctx g = Some (Inr ((False, ctx), g1))" using bu by simp
    then show ?thesis using g1(1,4) True by (intro exI [of _ False] exI [of _ ctx] exI [of _ g1]) auto
  next
    case False
    have lt: "unat (record_free_index (g_mem g1) v) < 64" using assms(5) g1(5) by simp
    have r: "?r = r" using mem(1) [OF lt] assms(4) g1(5) by metis
    have "taken t (wr32 (v + 276) ?next (wr32 r VBVA_F_RECORD_PARTIAL (g_mem g1))) = taken t (g_mem g1)"
      by (rule taken_header [OF assms(1)]) (rule mem(7) [OF lt, unfolded r])
    then have "record_opened t v r (g_mem g) (wr32 (v + 276) ?next (wr32 r VBVA_F_RECORD_PARTIAL (g_mem g1)))"
      unfolding record_opened_def using mem(2-6) [OF lt, unfolded r] g1(3,5) g1(4) assms(4) by (intro conjI) (simp_all, blast?)
    then show ?thesis using bu [unfolded r] False g1(1) by auto
  qed
qed

lemma partial_flag:
  assumes "unat w < 2 ^ 31"
  shows "(VBVA_F_RECORD_PARTIAL + w) AND NOT VBVA_F_RECORD_PARTIAL = w" and "VBVA_F_RECORD_PARTIAL \<noteq> 0"
proof -
  have flag: "VBVA_F_RECORD_PARTIAL = push_bit 31 1" by (simp add: VBVA_F_RECORD_PARTIAL_def)
  have fb: "bit VBVA_F_RECORD_PARTIAL n \<longleftrightarrow> n = 31" for n
    unfolding flag by (subst bit_push_bit_iff) (auto simp: bit_1_iff)
  have w: "\<not> bit w n" if "31 \<le> n" for n
    using take_bit_word_self [OF assms] that by (metis bit_take_bit_iff leD)
  have "VBVA_F_RECORD_PARTIAL + w = VBVA_F_RECORD_PARTIAL OR w"
    by (rule disjunctive_add) (use w in \<open>auto simp: fb\<close>)
  then show "(VBVA_F_RECORD_PARTIAL + w) AND NOT VBVA_F_RECORD_PARTIAL = w"
    by (auto intro!: bit_word_eqI simp: bit_and_iff bit_or_iff bit_not_iff fb w)
  show "VBVA_F_RECORD_PARTIAL \<noteq> 0" by (simp add: VBVA_F_RECORD_PARTIAL_def)
qed

lemma update_cycle:
  assumes "vbva_setting t hst v r g" and "vb_vbva ctx = Some v" and "\<not> buffer_overflow ctx"
    and "rd32 (g_mem g) v AND VBVA_F_MODE_ENABLED \<noteq> 0"
    and "r = v + of_nat (16 + 4 * unat (record_free_index (g_mem g) v))"
    and "unat (record_free_index (g_mem g) v) < 64"
    and "length p = unat len" and "unat len < 2 ^ 31"
    and "vbva_buffer_begin_update hst ctx g = Some (Inr ((True, ctx1), g1))"
    and "vbva_write hst ctx1 p len g1 = Some (Inr ((True, ctx2), g2))"
  shows "\<exists>g3. vbva_buffer_end_update ctx2 g2 = Inr (ctx\<lparr>vb_record := None\<rparr>, g3) \<and>
     rd32 (g_mem g3) r = len \<and> g_pool g3 = g_pool g \<and> ring_ok (g_mem g3) v \<and>
     taken t (g_mem g) \<le> taken t (g_mem g3) \<and>
     ring_contents (g_mem g3) v = drop (taken t (g_mem g3) - taken t (g_mem g)) (ring_contents (g_mem g) v @ p)"
proof -
  have b: "ctx1 = ctx\<lparr>vb_record := Some r\<rparr>" "record_opened t v r (g_mem g) (g_mem g1)" "g_pool g1 = g_pool g"
    using vbva_begin_update_opens [OF assms(1,2,4,5,6)] assms(9) by auto
  obtain k0 where o: "rd32 (g_mem g1) r = VBVA_F_RECORD_PARTIAL" "ring_ok (g_mem g1) v"
    "ring_len (g_mem g1) v = ring_len (g_mem g) v" "ring_contents (g_mem g1) v = drop k0 (ring_contents (g_mem g) v)"
    "k0 \<le> length (ring_contents (g_mem g) v)" "taken t (g_mem g1) = taken t (g_mem g) + k0"
    using b(2) by (auto simp: record_opened_def ring_contents_def [of "g_mem g"])
  have set1: "vbva_setting t hst v r g1"
    using assms(1) b(3) o guest_ok_pool [of hst g g1] by (simp add: vbva_setting_def)
  have "unat (vbva_buffer_available (g_mem g1) v) = ring_len (g_mem g1) v - ring_used (g_mem g1) v"
    by (rule unat_available [OF o(2)])
  from vbva_write_loop_stream [OF set1 this assms(7), of ctx1] assms(10) b(1) assms(2,3) o(1) partial_flag(2)
  have w: "ctx2 = ctx1" "g_pool g2 = g_pool g1" "stream_step t v r p (g_mem g1) (g_mem g2)"
    by (auto simp: vbva_write_def split: if_splits)
  then obtain k1 where w3: "ring_ok (g_mem g2) v" "rd32 (g_mem g2) r = VBVA_F_RECORD_PARTIAL + len"
    "ring_contents (g_mem g2) v = drop k1 (ring_contents (g_mem g1) v @ p)"
    "taken t (g_mem g2) = taken t (g_mem g1) + k1"
    using o(1) assms(7) by (auto simp: stream_step_def)
  let ?a = "16 + 4 * unat (record_free_index (g_mem g) v)"
  let ?m3 = "wr32 r len (g_mem g2)"
  have a: "?a + 4 \<le> 8 \<or> 16 \<le> ?a" "?a + 4 \<le> 280" "?m3 = wr32 (v + of_nat ?a) len (g_mem g2)" using assms(5,6) by auto
  note fin = ring_wr32_other [OF a w3(1)]
  have "rd32 (g_mem g2) r AND NOT VBVA_F_RECORD_PARTIAL = len" using w3(2) partial_flag(1) [OF assms(8)] by simp
  moreover have "ctx\<lparr>vb_record := Some r, buffer_overflow := False, vb_record := None\<rparr> = ctx\<lparr>vb_record := None\<rparr>"
    using assms(3) by (cases ctx) simp
  ultimately have e: "vbva_buffer_end_update ctx2 g2 = Inr (ctx\<lparr>vb_record := None\<rparr>, g2\<lparr>g_mem := ?m3\<rparr>)"
    using w(1) b(1) by (simp add: vbva_buffer_end_update_def)
  have "drop k0 (ring_contents (g_mem g) v) @ p = drop k0 (ring_contents (g_mem g) v @ p)" using o(5) by simp
  then have "ring_contents (g_mem g2) v = drop (k1 + k0) (ring_contents (g_mem g) v @ p)"
    using w3(3) o(4) by (simp only: drop_drop)
  moreover have "taken t ?m3 = taken t (g_mem g2)"
    by (rule taken_header [OF assms(1)]) (unfold a(3), rule wr32_header, use a(2) in simp)
  ultimately show ?thesis
    using e fin w(2) b(3) o(6) w3(4) rd32_wr32 [of r len "g_mem g2"] by (intro exI [of _ "g2\<lparr>g_mem := ?m3\<rparr>"]) (simp add: add.commute)
qed

text \<open>
  A whole update, begin, write, end, when each of the three succeeds: the record it used is the one
  at the free index, its final word is the length of the data with the partial mark gone, the ring
  holds the earlier bytes the host has not taken followed by the data, and the context is ready
  for the next update.
\<close>
theorem vbva_update_cycle:
  assumes "vbva_setting t hst v r g" and "vb_vbva ctx = Some v" and "\<not> buffer_overflow ctx"
    and "rd32 (g_mem g) v AND VBVA_F_MODE_ENABLED \<noteq> 0"
    and "r = v + of_nat (16 + 4 * unat (record_free_index (g_mem g) v))"
    and "unat (record_free_index (g_mem g) v) < 64"
    and "length p = unat len" and "unat len < 2 ^ 31"
    and "vbva_buffer_begin_update hst ctx g = Some (Inr ((True, ctx1), g1))"
    and "vbva_write hst ctx1 p len g1 = Some (Inr ((True, ctx2), g2))"
  shows "\<exists>g3. vbva_buffer_end_update ctx2 g2 = Inr (ctx\<lparr>vb_record := None\<rparr>, g3) \<and>
     rd32 (g_mem g3) r = len \<and> g_pool g3 = g_pool g \<and> ring_ok (g_mem g3) v \<and>
     taken t (g_mem g) \<le> taken t (g_mem g3) \<and>
     ring_contents (g_mem g3) v = drop (taken t (g_mem g3) - taken t (g_mem g)) (ring_contents (g_mem g) v @ p)"
  using assms by (rule update_cycle)

subsection \<open>Enabling a screen\<close>

lemma vbva_inform_cases:
  assumes "guest_ok hst g"
  shows "vbva_inform_host hst ctx screen enable g = Some (Inr (False, g)) \<or>
     (\<exists>fs buf m g'. command_sent hst 16 HGSMI_CH_VBVA VBVA_ENABLE fs buf m g g' \<and>
        vbva_inform_host hst ctx screen enable g = Some (Inr (enable \<longrightarrow> sint (rd32 (g_mem g') (buf + 8)) \<ge> 0, g')))"
proof -
  let ?flags = "if enable then VBVA_F_ENABLE else VBVA_F_DISABLE"
  let ?fs = "[(0, le32 (if sint screen \<ge> 0 then ?flags OR (VBVA_F_EXTENDED OR VBVA_F_ABSOFFSET) else ?flags)),
             (4, le32 (buffer_offset ctx)), (8, le32 VERR_NOT_SUPPORTED)] @
            (if sint screen \<ge> 0 then [(12, le32 screen)] else [])"
  let ?answer = "\<lambda>m p. if enable then sint (rd32 m (p + 8)) \<ge> 0 else True"
  have "hgsmi_call hst 16 HGSMI_CH_VBVA VBVA_ENABLE ?fs ?answer g = Some (Inr (None, g)) \<or>
    (\<exists>buf m g'. command_sent hst 16 HGSMI_CH_VBVA VBVA_ENABLE ?fs buf m g g' \<and>
       hgsmi_call hst 16 HGSMI_CH_VBVA VBVA_ENABLE ?fs ?answer g = Some (Inr (Some (?answer (g_mem g') buf), g')))"
    by (rule hgsmi_call_either [OF assms]) simp_all
  then show ?thesis
  proof (elim disjE exE conjE)
    fix buf m g'
    assume "command_sent hst 16 HGSMI_CH_VBVA VBVA_ENABLE ?fs buf m g g'"
      and "hgsmi_call hst 16 HGSMI_CH_VBVA VBVA_ENABLE ?fs ?answer g = Some (Inr (Some (?answer (g_mem g') buf), g'))"
    moreover from this(2) have "vbva_inform_host hst ctx screen enable g =
        Some (Inr (enable \<longrightarrow> sint (rd32 (g_mem g') (buf + 8)) \<ge> 0, g'))"
      unfolding vbva_inform_host_def Let_def by (simp add: hg_return_def)
    ultimately show ?thesis by blast
  next
    assume "hgsmi_call hst 16 HGSMI_CH_VBVA VBVA_ENABLE ?fs ?answer g = Some (Inr (None, g))"
    then have "vbva_inform_host hst ctx screen enable g = Some (Inr (False, g))"
      unfolding vbva_inform_host_def Let_def by (simp add: hg_return_def)
    then show ?thesis by blast
  qed
qed

lemma vbva_disable_returns:
  assumes "guest_ok hst g"
  shows "\<exists>g'. vbva_disable hst ctx screen g =
       Some (Inr (ctx\<lparr>buffer_overflow := False, vb_record := None, vb_vbva := None\<rparr>, g')) \<and> g_pool g' = g_pool g"
  using vbva_inform_cases [OF assms, of "ctx\<lparr>buffer_overflow := False, vb_record := None, vb_vbva := None\<rparr>" screen False]
    command_sent_pool by (fastforce simp: vbva_disable_def hg_return_def hg_bind_def Let_def)

text \<open>The ring that \<open>vbva_enable\<close> sets up.\<close>
lemma fresh_ring:
  assumes "288 < unat len" and "unat len < 2 ^ 31"
    and "m = wr32 (v + 284) (len - 288) (wr32 (v + 280) 256 (store_bytes v (replicate 288 0) m0))"
  shows "ring_ok m v" and "ring_contents m v = []" and "ring_len m v = unat len - 288"
    and "record_first_index m v = 0" and "record_free_index m v = 0"
proof -
  let ?m0 = "store_bytes v (replicate 288 0) m0"
  have m: "m = wr32 (v + of_nat 284) (len - 288) (wr32 (v + of_nat 280) 256 ?m0)" using assms(3) by simp
  have zero: "rd32 ?m0 (v + of_nat a) = 0" if "a + 4 \<le> 288" for a
  proof -
    have "?m0 (v + of_nat a + of_nat i) = 0" if "i < 4" for i
      using store_bytes_at [of "a + i" 0 "replicate 288 0" v m0] that \<open>a + 4 \<le> 288\<close> by (simp add: add.assoc)
    then have "load_bytes ?m0 (v + of_nat a) 4 = replicate 4 0" by (intro nth_equalityI) simp_all
    then have "load_bytes ?m0 (v + of_nat a) 4 = le32 0" by (simp add: le32_def eval_nat_numeral)
    then show ?thesis using of_le32 [of 0] by (simp add: rd32_def)
  qed
  have cleared: "rd32 m (v + of_nat a) = 0" if "a + 4 \<le> 280" for a
    unfolding m using field_wr32 [of 284 a v] field_wr32 [of 280 a v] zero [of a] that by auto
  from cleared [of 272] cleared [of 276] show "record_first_index m v = 0" "record_free_index m v = 0"
    by (simp_all add: record_first_index_def record_free_index_def)
  from cleared [of 8] cleared [of 12] have d: "data_offset m v = 0" "free_offset m v = 0"
    by (simp_all add: data_offset_def free_offset_def)
  have "rd32 m (v + of_nat 280) = 256"
    unfolding m using field_wr32 [of 284 280 v] rd32_wr32 [of "v + of_nat 280"] by simp
  then have t: "partial_write_tresh m v = 256" by (simp add: partial_write_tresh_def)
  have "data_len m v = len - 288" unfolding assms(3) by (simp add: data_len_def rd32_wr32)
  then show len: "ring_len m v = unat len - 288"
    using assms(1) by (simp add: ring_len_def unat_sub word_le_nat_alt)
  then show "ring_ok m v" using assms(1,2) d t by (simp add: ring_ok_def)
  show "ring_contents m v = []" by (simp add: ring_contents_def ring_used_def d window_def)
qed

text \<open>
  \<open>vbva_enable\<close> returns and leaves the heap as it was. If the host accepts, the context points
  to the buffer and the ring in it is empty, of the buffer's length less its header, and well formed;
  otherwise VBVA is switched off again: no buffer, no record, no overflow.
\<close>
theorem vbva_enable_fresh:
  assumes "guest_ok hst g" and "host_drains t hst v" and "288 < unat (buffer_length ctx)"
    and "unat (buffer_length ctx) < 2 ^ 31" and "outside_heap v (unat (buffer_length ctx)) (g_pool g)"
    and "count_apart t v (unat (buffer_length ctx)) (g_pool g)"
  shows "\<exists>ret ctx' g'. vbva_enable hst ctx v screen g = Some (Inr ((ret, ctx'), g')) \<and> g_pool g' = g_pool g \<and>
     (if ret then ctx' = ctx\<lparr>vb_vbva := Some v\<rparr> \<and> ring_ok (g_mem g') v \<and> ring_contents (g_mem g') v = [] \<and>
        ring_len (g_mem g') v = unat (buffer_length ctx) - 288
      else ctx' = ctx\<lparr>buffer_overflow := False, vb_record := None, vb_vbva := None\<rparr>)"
proof -
  let ?m = "wr32 (v + 284) (buffer_length ctx - 288) (wr32 (v + 280) 256 (store_bytes v (replicate 288 0) (g_mem g)))"
  let ?g = "g\<lparr>g_mem := ?m\<rparr>" and ?ctx = "ctx\<lparr>vb_vbva := Some v\<rparr>"
  note fresh = fresh_ring [OF assms(3,4) refl, of v "g_mem g"]
  have ok: "guest_ok hst ?g" by (rule guest_ok_pool [OF assms(1)]) simp
  have en: "vbva_enable hst ctx v screen g = hg_bind (vbva_inform_host hst ?ctx screen True)
      (\<lambda>ret. if \<not> ret then hg_bind (vbva_disable hst ?ctx screen) (\<lambda>ctx''. hg_return (ret, ctx''))
             else hg_return (ret, ?ctx)) ?g"
    by (simp add: vbva_enable_def Let_def)
  have off: "\<exists>g'. vbva_enable hst ctx v screen g =
      Some (Inr ((False, ctx\<lparr>buffer_overflow := False, vb_record := None, vb_vbva := None\<rparr>), g')) \<and> g_pool g' = g_pool g"
    if "vbva_inform_host hst ?ctx screen True ?g = Some (Inr (False, g1))" "g_pool g1 = g_pool g" for g1
    using vbva_disable_returns [OF guest_ok_pool [OF assms(1) that(2)], of ?ctx screen] that
    by (auto simp: en hg_return_def hg_bind_def)
  from vbva_inform_cases [OF ok, of ?ctx screen True] show ?thesis
  proof (elim disjE exE conjE)
    assume "vbva_inform_host hst ?ctx screen True ?g = Some (Inr (False, ?g))"
    from off [OF this] show ?thesis by fastforce
  next
    fix fs buf m g1
    assume sent: "command_sent hst 16 HGSMI_CH_VBVA VBVA_ENABLE fs buf m ?g g1"
      and inf: "vbva_inform_host hst ?ctx screen True ?g = Some (Inr (True \<longrightarrow> sint (rd32 (g_mem g1) (buf + 8)) \<ge> 0, g1))"
    have pool: "g_pool g1 = g_pool g" using command_sent_pool [OF sent] by simp
    show ?thesis
    proof (cases "sint (rd32 (g_mem g1) (buf + 8)) \<ge> 0")
      case True
      have rec: "record_at v (v + of_nat 16)" by (auto simp: record_at_def intro!: exI [of _ 0])
      have "288 + ring_len (g_mem ?g) v = unat (buffer_length ctx)" using fresh(3) assms(3) by simp
      then have out: "outside_heap v (288 + ring_len (g_mem ?g) v) (g_pool ?g)" using assms(5) by simp
      have apart: "count_apart t v (288 + ring_len (g_mem ?g) v) (g_pool ?g)"
        using assms(6) \<open>288 + ring_len (g_mem ?g) v = unat (buffer_length ctx)\<close> by simp
      have rok: "ring_ok (g_mem ?g) v" using fresh(1) by simp
      have "ring_ok (g_mem g1) v \<and> ring_contents (g_mem g1) v = [] \<and> ring_len (g_mem g1) v = unat (buffer_length ctx) - 288"
        by (rule command_sent_drains [OF sent assms(2) rok rec out apart]) (use fresh in simp)
      then show ?thesis using True inf pool by (auto simp: en hg_return_def)
    next
      case False
      then have "vbva_inform_host hst ?ctx screen True ?g = Some (Inr (False, g1))" using inf by simp
      from off [OF this pool] show ?thesis by fastforce
    qed
  qed
qed

text \<open>A write that fits needs no flush and succeeds.\<close>
lemma vbva_write_fits:
  assumes "ring_ok (g_mem g) v" and "record_at v r" and "length p = unat len"
    and "ring_used (g_mem g) v + unat len < ring_len (g_mem g) v"
    and "vb_vbva ctx = Some v" and "vb_record ctx = Some r" and "\<not> buffer_overflow ctx"
    and "rd32 (g_mem g) r AND VBVA_F_RECORD_PARTIAL \<noteq> 0"
  shows "\<exists>g'. vbva_write hst ctx p len g = Some (Inr ((True, ctx), g'))"
proof -
  let ?av = "vbva_buffer_available (g_mem g) v"
  have "unat len < unat ?av" using unat_available [OF assms(1)] assms(4) by simp
  then have lt: "\<not> ?av \<le> len" by (simp add: word_le_nat_alt)
  let ?m1 = "vbva_buffer_place_data_at v p len (free_offset (g_mem g) v) (g_mem g)"
  have "data_len ?m1 v \<noteq> 0"
    by (rule write_round(3) [OF assms(1,2,4) _ refl refl refl]) (use assms(3) in simp)
  then have "\<exists>g'. vbva_write_loop hst v r p len ?av ctx g = Some (Inr ((True, ctx), g'))"
    using lt by (subst vbva_write_loop.simps) (auto simp: Let_def vbva_write_loop.simps [of hst v r _ 0])
  then show ?thesis using assms(5-8) by (simp add: vbva_write_def)
qed

subsection \<open>A concrete ring\<close>

text \<open>
  A buffer of 1 KiB away from the heap of the examples, and a host that takes everything on each command and counts it,
  as long as the count fits its word.
\<close>
definition demo_vbva :: u64 where "demo_vbva = 0x10000"

definition demo_count :: host_count where
  "demo_count = \<lparr>count_at = addrs 0x8000 4, taken = (\<lambda>m. unat (rd32 m 0x8000))\<rparr>"

definition drain_host :: host where
  "drain_host offset m =
     (if ring_used m demo_vbva + taken demo_count m < 2 ^ 32
      then wr32 0x8000 (of_nat (taken demo_count m + ring_used m demo_vbva)) (wr32 (demo_vbva + 8) (free_offset m demo_vbva) m)
      else m)"

definition demo_ring :: memory where
  "demo_ring = wr32 (demo_vbva + 284) (1024 - 288)
     (wr32 (demo_vbva + 280) 256 (store_bytes demo_vbva (replicate 288 0) (\<lambda>_. 0)))"

definition demo_ctx :: vbva_buf_ctx where
  "demo_ctx = \<lparr>buffer_offset = 0x80001000, buffer_length = 1024, buffer_overflow = False, vb_record = None,
     vb_vbva = Some demo_vbva\<rparr>"

lemma demo_heap_far:
  assumes "unat h \<in> managed demo_pool" and "n \<le> 2 ^ 32" and "k \<le> 16"
  shows "addrs h k \<inter> addrs demo_vbva n = {}"
proof -
  have h: "0x1000 \<le> unat h" "unat h \<le> 0x13ff"
    using assms(1) by (simp_all add: managed_def demo_pool_def chunk_range_def)
  have "x \<in> addrs h k \<Longrightarrow> unat x < 0x2000" for x
    using addrs_unat [of h k x] h assms(3) by auto
  moreover have "x \<in> addrs demo_vbva n \<Longrightarrow> 0x10000 \<le> unat x" for x
    using addrs_unat [of demo_vbva n x] assms(2) by (simp add: demo_vbva_def)
  ultimately show ?thesis by fastforce
qed

lemma demo_outside: "outside_heap demo_vbva 1024 demo_pool"
  unfolding outside_heap_def
proof
  fix x assume "x \<in> addrs demo_vbva 1024"
  then have "0x10000 \<le> unat x" using addrs_unat [of demo_vbva 1024 x] by (simp add: demo_vbva_def)
  then show "unat x \<notin> managed demo_pool" by (simp add: managed_def demo_pool_def chunk_range_def)
qed

lemma demo_far_unat:
  assumes "x \<in> addrs (of_nat a) n" and "a + n \<le> 2 ^ 32"
  shows "a \<le> unat x" and "unat x < a + n"
proof -
  have "unat (of_nat a :: u64) = a" using assms(2) by (simp add: unat_of_nat take_bit_nat_eq_self)
  then show "a \<le> unat x" "unat x < a + n" using addrs_unat [of "of_nat a" n x] assms by simp_all
qed

lemma demo_count_below: "x \<in> addrs 0x8000 4 \<Longrightarrow> 0x8000 \<le> unat x \<and> unat x < 0x8004"
  using demo_far_unat [of x "0x8000" 4] by simp

lemma demo_vbva_above: "x \<in> addrs (demo_vbva + of_nat a) n \<Longrightarrow> a + n \<le> 2 ^ 32 - 0x10000 \<Longrightarrow> 0x10000 \<le> unat x"
  using demo_far_unat(1) [of x "0x10000 + a" n] by (simp add: demo_vbva_def)

lemma demo_count_apart: "count_apart demo_count demo_vbva 1024 demo_pool"
  unfolding count_apart_def
proof
  fix x assume "x \<in> count_at demo_count"
  then have x: "0x8000 \<le> unat x" "unat x < 0x8004" using demo_count_below by (auto simp: demo_count_def)
  then show "x \<notin> addrs demo_vbva 1024 \<and> unat x \<notin> managed demo_pool"
    using demo_vbva_above [of x 0 1024] by (auto simp: managed_def demo_pool_def chunk_range_def)
qed

lemma drain_host_keeps: "x \<notin> addrs (demo_vbva + 8) 4 \<Longrightarrow> x \<notin> addrs 0x8000 4 \<Longrightarrow> drain_host offset m x = m x"
  by (simp add: drain_host_def wr32_def store_bytes_outside)

lemma demo_count_far: "x \<in> addrs (demo_vbva + of_nat a) n \<Longrightarrow> a + n \<le> 2 ^ 32 - 0x10000 \<Longrightarrow> x \<notin> addrs 0x8000 4"
  using demo_vbva_above [of x a n] demo_count_below [of x] by auto

lemma drain_host_ok: "host_drains demo_count drain_host demo_vbva"
  unfolding host_drains_def
proof (intro conjI allI impI)
  fix m m' :: memory assume "agree_on (count_at demo_count) m m'"
  then have "rd32 m' 0x8000 = rd32 m 0x8000" by (intro rd32_cong) (simp add: agree_on_def demo_count_def)
  then show "taken demo_count m' = taken demo_count m" by (simp add: demo_count_def)
next
  fix offset m assume ok: "ring_ok m demo_vbva"
  have n: "ring_len m demo_vbva < 2 ^ 31" using ok by (simp add: ring_ok_def)
  have "drain_host offset m x = m x" if "x \<in> guest_part demo_vbva (ring_len m demo_vbva)" for x
  proof (rule drain_host_keeps)
    show "x \<notin> addrs (demo_vbva + 8) 4" using that addrs_subset [of 8 4 12 demo_vbva] by (auto simp: guest_part_def)
    show "x \<notin> addrs 0x8000 4"
      using demo_count_far [of x 0 "288 + ring_len m demo_vbva"] that n by (simp add: guest_part_def)
  qed
  then show "agree_on (guest_part demo_vbva (ring_len m demo_vbva)) m (drain_host offset m)" by (simp add: agree_on_def)
  let ?w = "wr32 (demo_vbva + 8) (free_offset m demo_vbva) m"
  have "addrs (demo_vbva + 8) 4 \<inter> addrs 0x8000 4 = {}" using demo_count_far [of _ 8 4] by auto
  then have "data_offset (wr32 0x8000 c ?w) demo_vbva = free_offset m demo_vbva" for c
    by (simp add: data_offset_def wr32_def [of "0x8000"] rd32_store_outside rd32_wr32)
  moreover have "unat (rd32 m 0x8000 + of_nat (ring_used m demo_vbva)) = unat (rd32 m 0x8000) + ring_used m demo_vbva"
    if "unat (rd32 m 0x8000) + ring_used m demo_vbva < 2 ^ 32"
    using that by (subst unat_add_small) (simp_all add: unat_of_nat take_bit_nat_eq_self)
  ultimately show "\<exists>k\<le>ring_used m demo_vbva. unat (data_offset (drain_host offset m) demo_vbva) =
      (unat (data_offset m demo_vbva) + k) mod ring_len m demo_vbva \<and>
      taken demo_count (drain_host offset m) = taken demo_count m + k"
    using ring_free_position [OF ok] ok
    by (cases "ring_used m demo_vbva + taken demo_count m < 2 ^ 32")
       (auto simp: drain_host_def demo_count_def rd32_wr32 add.commute ring_ok_def
         intro!: exI [of _ "ring_used m demo_vbva"] intro: exI [of _ 0])
qed

lemma drain_guest_ok: "g_pool g = demo_pool \<Longrightarrow> guest_ok drain_host g"
proof -
  assume g: "g_pool g = demo_pool"
  have "drain_host off m x = m x" if "unat h \<in> managed demo_pool" "x \<in> addrs h 16" for h m x off
  proof (rule drain_host_keeps)
    have "0x1000 \<le> unat h" "unat h \<le> 0x13ff"
      using that(1) by (simp_all add: managed_def demo_pool_def chunk_range_def)
    then have x: "unat x < 0x2000" using addrs_unat [of h 16 x] that(2) by simp
    show "x \<notin> addrs (demo_vbva + 8) 4" "x \<notin> addrs 0x8000 4"
      using demo_far_unat(1) [of x "0x10008" 4] demo_far_unat(1) [of x "0x8000" 4] x by (auto simp: demo_vbva_def)
  qed
  then show "guest_ok drain_host g"
    using scan.first_fit_algo demo_pool_wf g
    by (auto simp: guest_ok_def heap_ok_def host_keeps_headers_def demo_pool_def)
qed

lemmas demo_ring_fresh = fresh_ring [of 1024 demo_ring demo_vbva "\<lambda>_. 0", unfolded demo_ring_def, OF _ _ refl,
    folded demo_ring_def, simplified]

lemma demo_record: "record_at demo_vbva (demo_vbva + 16)"
  by (auto simp: record_at_def intro!: exI [of _ 0])

theorem vbva_enable_fresh_witness:
  "\<exists>ret ctx g. vbva_enable drain_host demo_ctx demo_vbva 0 demo_guest = Some (Inr ((ret, ctx), g))"
  using vbva_enable_fresh [OF drain_guest_ok drain_host_ok, of demo_guest demo_ctx 0] demo_outside demo_count_apart
  by (auto simp: demo_ctx_def demo_guest_def)

text \<open>A guest with an open record, and one that is ready to open one.\<close>
definition demo_open :: guest where
  "demo_open = demo_guest\<lparr>g_mem := wr32 (demo_vbva + 16) VBVA_F_RECORD_PARTIAL demo_ring\<rparr>"

lemma demo_open_setting: "vbva_setting demo_count drain_host demo_vbva (demo_vbva + 16) demo_open"
proof -
  let ?m = "wr32 (demo_vbva + of_nat 16) VBVA_F_RECORD_PARTIAL demo_ring"
  have "ring_ok ?m demo_vbva" "ring_len ?m demo_vbva = 736"
    using ring_wr32_other [of 16 ?m demo_vbva VBVA_F_RECORD_PARTIAL demo_ring] demo_ring_fresh by simp_all
  then show ?thesis
    using drain_host_ok demo_record drain_guest_ok [of demo_open] demo_outside demo_count_apart
    by (simp add: vbva_setting_def demo_open_def demo_guest_def)
qed

theorem vbva_write_stream_witness:
  "\<exists>g. vbva_write drain_host (demo_ctx\<lparr>vb_record := Some (demo_vbva + 16)\<rparr>) [1, 2, 3] 3 demo_open =
     Some (Inr ((True, demo_ctx\<lparr>vb_record := Some (demo_vbva + 16)\<rparr>), g)) \<and>
     taken demo_count (g_mem demo_open) \<le> taken demo_count (g_mem g) \<and>
     ring_contents (g_mem g) demo_vbva = drop (taken demo_count (g_mem g) - taken demo_count (g_mem demo_open)) [1, 2, 3]"
proof -
  let ?ctx = "demo_ctx\<lparr>vb_record := Some (demo_vbva + 16)\<rparr>"
  have rec: "rd32 (g_mem demo_open) (demo_vbva + 16) AND VBVA_F_RECORD_PARTIAL \<noteq> 0"
    by (simp add: demo_open_def rd32_wr32 VBVA_F_RECORD_PARTIAL_def)
  have ring: "ring_contents (g_mem demo_open) demo_vbva = []" "ring_len (g_mem demo_open) demo_vbva = 736"
    "ring_ok (g_mem demo_open) demo_vbva"
    using ring_wr32_other [of 16 "wr32 (demo_vbva + 16) VBVA_F_RECORD_PARTIAL demo_ring" demo_vbva VBVA_F_RECORD_PARTIAL demo_ring] demo_ring_fresh
    by (simp_all add: demo_open_def)
  then have "ring_used (g_mem demo_open) demo_vbva = 0"
    unfolding ring_contents_def by (metis length_window list.size(3))
  then have fits: "\<exists>g'. vbva_write drain_host ?ctx [1, 2, 3] 3 demo_open = Some (Inr ((True, ?ctx), g'))"
    using ring rec demo_record by (intro vbva_write_fits [where v = demo_vbva and r = "demo_vbva + 16"]) (simp_all add: demo_ctx_def)
  from vbva_write_stream [OF demo_open_setting _ _ _ rec, of ?ctx "[1, 2, 3]" 3] fits ring(1)
  show ?thesis by (auto simp: demo_ctx_def)
qed

definition demo_ready :: guest where
  "demo_ready = demo_guest\<lparr>g_mem := wr32 demo_vbva VBVA_F_MODE_ENABLED demo_ring\<rparr>"

lemma demo_ready_setting:
  "vbva_setting demo_count drain_host demo_vbva (demo_vbva + 16) demo_ready"
  "record_free_index (g_mem demo_ready) demo_vbva = 0" "record_first_index (g_mem demo_ready) demo_vbva = 0"
  "ring_used (g_mem demo_ready) demo_vbva = 0" "ring_len (g_mem demo_ready) demo_vbva = 736"
  "rd32 (g_mem demo_ready) demo_vbva = VBVA_F_MODE_ENABLED"
proof -
  let ?m = "wr32 (demo_vbva + of_nat 0) VBVA_F_MODE_ENABLED demo_ring"
  have m: "g_mem demo_ready = ?m" "g_pool demo_ready = demo_pool" by (simp_all add: demo_ready_def demo_guest_def)
  have ring: "ring_ok ?m demo_vbva" "ring_len ?m demo_vbva = 736" "ring_contents ?m demo_vbva = []"
    using ring_wr32_other [of 0 ?m demo_vbva VBVA_F_MODE_ENABLED demo_ring] demo_ring_fresh by simp_all
  then show "vbva_setting demo_count drain_host demo_vbva (demo_vbva + 16) demo_ready"
    using drain_host_ok demo_record drain_guest_ok [of demo_ready] demo_outside demo_count_apart m by (simp add: vbva_setting_def)
  show "ring_len (g_mem demo_ready) demo_vbva = 736" using ring m by simp
  show "ring_used (g_mem demo_ready) demo_vbva = 0"
    using ring(3) unfolding m ring_contents_def by (metis length_window list.size(3))
  show "rd32 (g_mem demo_ready) demo_vbva = VBVA_F_MODE_ENABLED" using m by (simp add: rd32_wr32)
  show "record_free_index (g_mem demo_ready) demo_vbva = 0" "record_first_index (g_mem demo_ready) demo_vbva = 0"
    using field_wr32 [of 0 276 demo_vbva VBVA_F_MODE_ENABLED demo_ring] field_wr32 [of 0 272 demo_vbva VBVA_F_MODE_ENABLED demo_ring]
      demo_ring_fresh m by (simp_all add: record_free_index_def record_first_index_def)
qed

theorem vbva_update_cycle_witness:
  "\<exists>ctx1 g1 ctx2 g2 ctx3 g3. vbva_buffer_begin_update drain_host demo_ctx demo_ready = Some (Inr ((True, ctx1), g1)) \<and>
     vbva_write drain_host ctx1 [1, 2, 3] 3 g1 = Some (Inr ((True, ctx2), g2)) \<and>
     vbva_buffer_end_update ctx2 g2 = Inr (ctx3, g3) \<and> rd32 (g_mem g3) (demo_vbva + 16) = 3"
proof -
  note s = demo_ready_setting
  have ctx: "vb_vbva demo_ctx = Some demo_vbva" "\<not> buffer_overflow demo_ctx" "vb_record demo_ctx = None"
    by (simp_all add: demo_ctx_def)
  have en: "rd32 (g_mem demo_ready) demo_vbva AND VBVA_F_MODE_ENABLED \<noteq> 0"
    using s(6) by (simp add: VBVA_F_MODE_ENABLED_def)
  have r: "demo_vbva + 16 = demo_vbva + of_nat (16 + 4 * unat (record_free_index (g_mem demo_ready) demo_vbva))"
    "unat (record_free_index (g_mem demo_ready) demo_vbva) < 64" using s(2) by simp_all
  have "\<exists>ctx1 g1. vbva_buffer_begin_update drain_host demo_ctx demo_ready = Some (Inr ((True, ctx1), g1))"
    using s(2,3) en ctx by (simp add: vbva_buffer_begin_update_def VBVA_MAX_RECORDS_def hg_return_def hg_bind_def Let_def)
  then obtain ctx1 g1 where b: "vbva_buffer_begin_update drain_host demo_ctx demo_ready = Some (Inr ((True, ctx1), g1))"
    by blast
  from vbva_begin_update_opens [OF s(1) ctx(1) en r] b
  have o: "ctx1 = demo_ctx\<lparr>vb_record := Some (demo_vbva + 16)\<rparr>"
    "record_opened demo_count demo_vbva (demo_vbva + 16) (g_mem demo_ready) (g_mem g1)" by auto
  then obtain k where "ring_contents (g_mem g1) demo_vbva = drop k (ring_contents (g_mem demo_ready) demo_vbva)"
    by (auto simp: record_opened_def)
  then have "ring_used (g_mem g1) demo_vbva \<le> ring_used (g_mem demo_ready) demo_vbva"
    unfolding ring_contents_def by (metis diff_le_self length_drop length_window)
  then have "\<exists>g2. vbva_write drain_host ctx1 [1, 2, 3] 3 g1 = Some (Inr ((True, ctx1), g2))"
    using o ctx s(4,5) demo_record
    by (intro vbva_write_fits [of g1 demo_vbva "demo_vbva + 16"]) (auto simp: record_opened_def VBVA_F_RECORD_PARTIAL_def)
  then obtain g2 where w: "vbva_write drain_host ctx1 [1, 2, 3] 3 g1 = Some (Inr ((True, ctx1), g2))" by blast
  from vbva_update_cycle [OF s(1) ctx(1,2) en r _ _ b w] b w show ?thesis by auto
qed

end
