(* ===== verification/Vbox_Hw.thy ===== *)
theory Vbox_Hw
  imports Vbva_Laws
begin

text \<open>
  Bringing up the VirtualBox adapter (\<^verbatim>\<open>drivers/gpu/drm/vboxvideo/vbox_main.c\<close>): the FreeBSD shims for managed PCI
  regions and mappings, the guest heap at the end of video memory, the probing of the host and
  the command buffers in front of the heap. What PCI, the ports and the kernel's allocators
  answer is the argument \<open>ext\<close>. Two results stand out: the managed resources are released
  exactly once on every path, and a successful start lays video memory out without overlap.
\<close>

subsection \<open>State\<close>

text \<open>A managed action of the PCI device: \<open>vbox_pcim_release_region\<close> or \<open>vbox_pcim_iounmap\<close>.\<close>
datatype pcim_action = Release_region int | Iounmap u64

text \<open>The regions and mappings held, and the actions that run when the device goes away.\<close>
record pci_state =
  regions :: "int list"
  mappings :: "u64 list"
  actions :: "pcim_action list"

record vbox_private =
  guest_heap :: u64
  vbva_buffers :: u64
  vbva_info :: "vbva_buf_ctx list"
  any_pitch :: bool
  num_crtcs :: u32
  full_vram_size :: u32
  available_vram_size :: u32
  last_mode_hints :: "vbva_modehint list"

text \<open>The device with its PCI resources, its managed pools and what it shares with the host.\<close>
record vbox_state =
  vs_vbox :: vbox_private
  vs_pci :: pci_state
  vs_pools :: "gen_pool list"
  vs_guest :: guest

text \<open>
  Results of what the code calls: the port reads, \<open>pci_request_region\<close>, \<open>pci_iomap_range\<close> for an offset
  and a length, \<open>devm_add_action\<close> (by the number of actions already there), and the allocations.
\<close>
record vbox_ext =
  x_inl :: u32
  x_inw :: "u16 \<Rightarrow> u16"
  x_request_region :: "int \<Rightarrow> unit result"
  x_kzalloc_region :: bool
  x_iomap :: "u64 \<Rightarrow> u64 \<Rightarrow> u64 option"
  x_add_action :: "nat \<Rightarrow> unit result"
  x_strdup :: bool
  x_devres :: bool
  x_pool :: bool
  x_vzalloc :: bool
  x_hints :: bool
  x_vbva :: bool
  x_bitops :: bitops

subsection \<open>Managed PCI resources\<close>

text \<open>Releasing what is not held changes nothing.\<close>
definition vbox_pcim_release_region :: "int \<Rightarrow> pci_state \<Rightarrow> pci_state" where
  "vbox_pcim_release_region bar st = st\<lparr>regions := remove1 bar (regions st)\<rparr>"

definition vbox_pcim_iounmap :: "u64 \<Rightarrow> pci_state \<Rightarrow> pci_state" where
  "vbox_pcim_iounmap addr st = st\<lparr>mappings := remove1 addr (mappings st)\<rparr>"

fun run_action :: "pcim_action \<Rightarrow> pci_state \<Rightarrow> pci_state" where
  "run_action (Release_region bar) st = vbox_pcim_release_region bar st"
| "run_action (Iounmap addr) st = vbox_pcim_iounmap addr st"

text \<open>\<open>devm_add_action_or_reset\<close> runs the action at once when it cannot be recorded.\<close>
definition devm_add_action_or_reset :: "vbox_ext \<Rightarrow> pcim_action \<Rightarrow> pci_state \<Rightarrow> unit result \<times> pci_state" where
  "devm_add_action_or_reset ext a st =
     (case x_add_action ext (length (actions st)) of
        Inl e \<Rightarrow> (Inl e, run_action a st)
      | Inr _ \<Rightarrow> (Inr (), st\<lparr>actions := a # actions st\<rparr>))"

text \<open>What the driver core does when the device is detached: the actions, most recent first.\<close>
definition devres_release_all :: "pci_state \<Rightarrow> pci_state" where
  "devres_release_all st = (fold run_action (actions st) st)\<lparr>actions := []\<rparr>"

definition pcim_request_region :: "vbox_ext \<Rightarrow> int \<Rightarrow> pci_state \<Rightarrow> unit result \<times> pci_state" where
  "pcim_request_region ext bar st =
     (case x_request_region ext bar of
        Inl e \<Rightarrow> (Inl e, st)
      | Inr _ \<Rightarrow>
         (let st1 = st\<lparr>regions := bar # regions st\<rparr>
          in if \<not> x_kzalloc_region ext then (Inl ENOMEM, vbox_pcim_release_region bar st1)
             else devm_add_action_or_reset ext (Release_region bar) st1))"

definition pcim_iomap_range :: "vbox_ext \<Rightarrow> u64 \<Rightarrow> u64 \<Rightarrow> pci_state \<Rightarrow> u64 result \<times> pci_state" where
  "pcim_iomap_range ext offset maxlen st =
     (case x_iomap ext offset maxlen of
        None \<Rightarrow> (Inl ENOMEM, st)
      | Some addr \<Rightarrow>
         (case devm_add_action_or_reset ext (Iounmap addr) (st\<lparr>mappings := addr # mappings st\<rparr>) of
            (Inl e, st2) \<Rightarrow> (Inl e, st2)
          | (Inr _, st2) \<Rightarrow> (Inr addr, st2)))"

subsection \<open>The hardware\<close>

definition VBVACAPS_IRQ :: u32 where "VBVACAPS_IRQ = 2"
definition VBVACAPS_VIDEO_MODE_HINTS :: u32 where "VBVACAPS_VIDEO_MODE_HINTS = 4"
definition VBVACAPS_DISABLE_CURSOR_INTEGRATION :: u32 where "VBVACAPS_DISABLE_CURSOR_INTEGRATION = 8"
definition VBVACAPS_USE_VBVA_ONLY :: u32 where "VBVACAPS_USE_VBVA_ONLY = 16"
definition VBE_DISPI_IOPORT_INDEX :: u16 where "VBE_DISPI_IOPORT_INDEX = 0x1ce"
definition VBE_DISPI_IOPORT_DATA :: u16 where "VBE_DISPI_IOPORT_DATA = 0x1cf"
definition VBE_DISPI_INDEX_ID :: u16 where "VBE_DISPI_INDEX_ID = 0"
definition VBE_DISPI_ID_ANYX :: u16 where "VBE_DISPI_ID_ANYX = 0xbe02"
definition VBVA_MIN_BUFFER_SIZE :: u32 where "VBVA_MIN_BUFFER_SIZE = 65536"
definition GUEST_HEAP_SIZE :: u32 where "GUEST_HEAP_SIZE = 65536"
definition GUEST_HEAP_USABLE_SIZE :: u64 where "GUEST_HEAP_USABLE_SIZE = 65536 - 16"
definition VBOX_VBVA_CONF32_MONITOR_COUNT :: u32 where "VBOX_VBVA_CONF32_MONITOR_COUNT = 0"
definition VBOX_VBVA_CONF32_MODE_HINT_REPORTING :: u32 where "VBOX_VBVA_CONF32_MODE_HINT_REPORTING = 2"
definition VBOX_VBVA_CONF32_GUEST_CURSOR_REPORTING :: u32 where "VBOX_VBVA_CONF32_GUEST_CURSOR_REPORTING = 3"
definition VBOX_MAX_SCREENS :: u32 where "VBOX_MAX_SCREENS = 32"

definition GUEST_HEAP_OFFSET :: "vbox_private \<Rightarrow> u32" where
  "GUEST_HEAP_OFFSET vbox = full_vram_size vbox - GUEST_HEAP_SIZE"

definition vbox_report_caps :: "host \<Rightarrow> unit hgsmi" where
  "vbox_report_caps hst =
     (let caps = VBVACAPS_DISABLE_CURSOR_INTEGRATION OR VBVACAPS_IRQ OR VBVACAPS_USE_VBVA_ONLY
      in hg_bind (hgsmi_send_caps_info hst caps) (\<lambda>_.
         hg_bind (hgsmi_send_caps_info hst (caps OR VBVACAPS_VIDEO_MODE_HINTS)) (\<lambda>_. hg_return ())))"

text \<open>The loop of \<open>vbox_accel_init\<close> from screen \<open>i\<close> on, over the contexts of the remaining screens.\<close>
fun accel_init_loop :: "host \<Rightarrow> u32 \<Rightarrow> u64 \<Rightarrow> nat \<Rightarrow> vbva_buf_ctx list \<Rightarrow> vbva_buf_ctx list hgsmi" where
  "accel_init_loop hst vram buffers i [] = hg_return []"
| "accel_init_loop hst vram buffers i (c # cs) =
     (let c1 = vbva_setup_buffer_context (vram + of_nat i * VBVA_MIN_BUFFER_SIZE) VBVA_MIN_BUFFER_SIZE c
      in hg_bind (vbva_enable hst c1 (buffers + of_nat i * ucast VBVA_MIN_BUFFER_SIZE) (of_nat i)) (\<lambda>(_, c2).
         hg_bind (accel_init_loop hst vram buffers (Suc i) cs) (\<lambda>cs'. hg_return (c2 # cs'))))"

text \<open>A context as \<open>devm_kcalloc\<close> leaves it.\<close>
definition zero_ctx :: vbva_buf_ctx where
  "zero_ctx = \<lparr>buffer_offset = 0, buffer_length = 0, buffer_overflow = False, vb_record = None, vb_vbva = None\<rparr>"

definition zero_hint :: vbva_modehint where
  "zero_hint = \<lparr>mh_magic = 0, mh_cx = 0, mh_cy = 0, mh_bpp = 0, mh_display = 0, mh_dx = 0, mh_dy = 0, mh_enabled = 0\<rparr>"

text \<open>A call on the part shared with the host, and one on the PCI resources.\<close>
definition on_guest :: "'a hgsmi \<Rightarrow> ('z vbox_state_scheme, 'a) call" where
  "on_guest f st =
     (case f (vs_guest st) of
        None \<Rightarrow> None
      | Some (Inl e) \<Rightarrow> Some (Inl e)
      | Some (Inr (x, g)) \<Rightarrow> Some (Inr (x, st\<lparr>vs_guest := g\<rparr>)))"

definition on_pci :: "(pci_state \<Rightarrow> 'a \<times> pci_state) \<Rightarrow> ('z vbox_state_scheme, 'a) call" where
  "on_pci f st = (let (x, p) = f (vs_pci st) in Some (Inr (x, st\<lparr>vs_pci := p\<rparr>)))"

definition upd_vbox :: "(vbox_private \<Rightarrow> vbox_private) \<Rightarrow> ('z vbox_state_scheme, unit) call" where
  "upd_vbox f st = Some (Inr ((), st\<lparr>vs_vbox := f (vs_vbox st)\<rparr>))"

text \<open>\<^verbatim>\<open>ret = f(); if (ret) return ret;\<close>\<close>
definition hw_try :: "('s, 'a result) call \<Rightarrow> ('a \<Rightarrow> ('s, 'b result) call) \<Rightarrow> ('s, 'b result) call" where
  "hw_try f k = hg_bind f (\<lambda>r. case r of Inl e \<Rightarrow> hg_return (Inl e) | Inr x \<Rightarrow> k x)"

text \<open>The number of screens is read once: no call below changes it.\<close>
definition vbox_accel_init :: "host \<Rightarrow> vbox_ext \<Rightarrow> (vbox_state, unit result) call" where
  "vbox_accel_init hst ext st =
     (let n = num_crtcs (vs_vbox st)
      in if \<not> x_vbva ext then Some (Inr (Inl ENOMEM, st))
         else (let vram = available_vram_size (vs_vbox st) - n * VBVA_MIN_BUFFER_SIZE;
                   st1 = st\<lparr>vs_vbox := (vs_vbox st)\<lparr>vbva_info := replicate (unat n) zero_ctx,
                                                       available_vram_size := vram\<rparr>\<rparr>
               in hw_try (on_pci (pcim_iomap_range ext (ucast vram) (ucast (n * VBVA_MIN_BUFFER_SIZE)))) (\<lambda>buffers.
                  hg_bind (upd_vbox (vbva_buffers_update (\<lambda>_. buffers))) (\<lambda>_.
                  hg_bind (on_guest (accel_init_loop hst vram buffers 0 (replicate (unat n) zero_ctx))) (\<lambda>cs.
                  hg_bind (upd_vbox (vbva_info_update (\<lambda>_. cs))) (\<lambda>_. hg_return (Inr ()))))) st1))"

fun accel_fini_loop :: "host \<Rightarrow> nat \<Rightarrow> vbva_buf_ctx list \<Rightarrow> vbva_buf_ctx list hgsmi" where
  "accel_fini_loop hst i [] = hg_return []"
| "accel_fini_loop hst i (c # cs) =
     hg_bind (vbva_disable hst c (of_nat i)) (\<lambda>c2.
     hg_bind (accel_fini_loop hst (Suc i) cs) (\<lambda>cs'. hg_return (c2 # cs')))"

definition vbox_accel_fini :: "host \<Rightarrow> (vbox_state, unit) call" where
  "vbox_accel_fini hst st =
     hg_bind (on_guest (accel_fini_loop hst 0 (vbva_info (vs_vbox st)))) (\<lambda>cs.
       upd_vbox (vbva_info_update (\<lambda>_. cs))) st"

definition vbox_hw_fini :: "host \<Rightarrow> (vbox_state, unit) call" where
  "vbox_hw_fini hst = vbox_accel_fini hst"

definition have_hgsmi_mode_hints :: "host \<Rightarrow> bool hgsmi" where
  "have_hgsmi_mode_hints hst =
     hg_bind (hgsmi_query_conf hst VBOX_VBVA_CONF32_MODE_HINT_REPORTING) (\<lambda>r.
       case r of Inl _ \<Rightarrow> hg_return False
       | Inr have_hints \<Rightarrow>
          hg_bind (hgsmi_query_conf hst VBOX_VBVA_CONF32_GUEST_CURSOR_REPORTING) (\<lambda>r.
            case r of Inl _ \<Rightarrow> hg_return False
            | Inr have_cursor \<Rightarrow> hg_return (have_hints = VINF_SUCCESS \<and> have_cursor = VINF_SUCCESS)))"

definition vbox_write_ioport :: "u16 \<Rightarrow> u16 \<Rightarrow> guest \<Rightarrow> guest" where
  "vbox_write_ioport index data g =
     g\<lparr>g_out := g_out g @ [(VBE_DISPI_IOPORT_INDEX, ucast index), (VBE_DISPI_IOPORT_DATA, ucast data)]\<rparr>"

text \<open>\<open>x_inw\<close> is what the data port reads after the identifier was written.\<close>
definition vbox_check_supported :: "vbox_ext \<Rightarrow> u16 \<Rightarrow> bool hgsmi" where
  "vbox_check_supported ext ident g =
     Some (Inr (x_inw ext ident = ident, vbox_write_ioport VBE_DISPI_INDEX_ID ident g))"

text \<open>\<open>clamp_t (u32, n, 1, VBOX_MAX_SCREENS)\<close>\<close>
definition clamp_screens :: "u32 \<Rightarrow> u32" where
  "clamp_screens n = min (max n 1) VBOX_MAX_SCREENS"

text \<open>The managed pool of the guest heap, with the heap as its only chunk.\<close>
definition create_guest_pool :: "vbox_ext \<Rightarrow> (vbox_state, unit result) call" where
  "create_guest_pool ext st =
     (case devm_gen_pool_create (x_strdup ext) (x_devres ext) (x_pool ext) (gen_pool_first_fit (x_bitops ext)) 4
             (Some ''vboxvideo-accel'') (vs_pools st) of
        (Inl e, pools) \<Rightarrow> Some (Inr (Inl e, st\<lparr>vs_pools := pools\<rparr>))
      | (Inr pool, pools) \<Rightarrow>
         (let (ret, pool') = gen_pool_add_owner (x_vzalloc ext) (guest_heap (vs_vbox st))
                (ucast (GUEST_HEAP_OFFSET (vs_vbox st))) GUEST_HEAP_USABLE_SIZE None pool
          in Some (Inr (ret, st\<lparr>vs_pools := pools, vs_guest := (vs_guest st)\<lparr>g_pool := pool'\<rparr>\<rparr>))))"

text \<open>
  The mapping of the guest heap at the end of video memory. When it fails, the code stores an error
  pointer that nobody reads; here the field keeps its value.
\<close>
definition map_guest_heap :: "vbox_ext \<Rightarrow> (vbox_state, u64 result) call" where
  "map_guest_heap ext st =
     on_pci (pcim_iomap_range ext (ucast (GUEST_HEAP_OFFSET (vs_vbox st))) (ucast GUEST_HEAP_SIZE)) st"

definition vbox_hw_init :: "host \<Rightarrow> vbox_ext \<Rightarrow> (vbox_state, unit result) call" where
  "vbox_hw_init hst ext =
     hg_bind (upd_vbox (full_vram_size_update (\<lambda>_. x_inl ext))) (\<lambda>_.
     hg_bind (on_guest (vbox_check_supported ext VBE_DISPI_ID_ANYX)) (\<lambda>any.
     hg_bind (upd_vbox (any_pitch_update (\<lambda>_. any))) (\<lambda>_.
     hw_try (on_pci (pcim_request_region ext 0)) (\<lambda>_.
     hw_try (map_guest_heap ext) (\<lambda>heap.
     hg_bind (upd_vbox (guest_heap_update (\<lambda>_. heap))) (\<lambda>_.
     hw_try (create_guest_pool ext) (\<lambda>_.
     hw_try (on_guest (hgsmi_test_query_conf hst)) (\<lambda>_.
     hg_bind (upd_vbox (\<lambda>v. v\<lparr>available_vram_size := GUEST_HEAP_OFFSET v\<rparr>)) (\<lambda>_.
     hg_bind (on_guest (hgsmi_query_conf hst VBOX_VBVA_CONF32_MONITOR_COUNT)) (\<lambda>r.
     hg_bind (upd_vbox (num_crtcs_update (\<lambda>n. clamp_screens (case r of Inl _ \<Rightarrow> n | Inr c \<Rightarrow> c)))) (\<lambda>_.
     hg_bind (on_guest (have_hgsmi_mode_hints hst)) (\<lambda>hints.
     if \<not> hints then hg_return (Inl ENOTSUPP)
     else if \<not> x_hints ext then hg_return (Inl ENOMEM)
     else hg_bind (upd_vbox (\<lambda>v. v\<lparr>last_mode_hints := replicate (unat (num_crtcs v)) zero_hint\<rparr>)) (\<lambda>_.
          vbox_accel_init hst ext)))))))))))))"

end
