(* ===== verification/Vbox_Hw_Laws.thy ===== *)
theory Vbox_Hw_Laws
  imports Vbox_Hw
begin

text \<open>
  Properties of the start of the VirtualBox adapter: how calls compose (\<open>call_keeps\<close>, \<open>ends\<close>), the
  managed PCI resources, and the layout of video memory after a successful start.
\<close>

subsection \<open>Reasoning about calls\<close>

text \<open>A call keeps a property of the state on every path that returns.\<close>
definition call_keeps :: "('s \<Rightarrow> bool) \<Rightarrow> ('s, 'a) call \<Rightarrow> bool" where
  "call_keeps P f \<longleftrightarrow> (\<forall>st x st'. P st \<longrightarrow> f st = Some (Inr (x, st')) \<longrightarrow> P st')"

named_theorems call_keeps_intro \<open>rules for call_keeps\<close>

lemma call_keeps_return [call_keeps_intro]: "call_keeps P (hg_return x)"
  by (simp add: call_keeps_def hg_return_def)

lemma hg_bind_returns:
  "hg_bind f k s = Some (Inr (y, s')) \<longleftrightarrow> (\<exists>x s1. f s = Some (Inr (x, s1)) \<and> k x s1 = Some (Inr (y, s')))"
  by (simp add: hg_bind_def split: option.split sum.split prod.split)

lemma call_keeps_bind [call_keeps_intro]:
  "call_keeps P f \<Longrightarrow> (\<And>x. call_keeps P (k x)) \<Longrightarrow> call_keeps P (hg_bind f k)"
  unfolding call_keeps_def hg_bind_returns by blast

lemma call_keeps_try [call_keeps_intro]:
  assumes "call_keeps P f" and "\<And>x. call_keeps P (k x)"
  shows "call_keeps P (hw_try f k)"
  unfolding hw_try_def
  by (rule call_keeps_bind [OF assms(1)]) (auto split: sum.split intro: assms(2) call_keeps_return)

lemma call_keeps_if [call_keeps_intro]: "call_keeps P f \<Longrightarrow> call_keeps P g \<Longrightarrow> call_keeps P (if b then f else g)"
  by simp

text \<open>A call returns, with a result and a state that satisfy the condition.\<close>
definition ends :: "('s, 'a) call \<Rightarrow> 's \<Rightarrow> ('a \<Rightarrow> 's \<Rightarrow> bool) \<Rightarrow> bool" where
  "ends f st Q \<longleftrightarrow> (\<exists>x st'. f st = Some (Inr (x, st')) \<and> Q x st')"

lemma ends_return [simp]: "ends (hg_return x) st Q \<longleftrightarrow> Q x st"
  by (simp add: ends_def hg_return_def)

lemma ends_bind [simp]: "ends (hg_bind f k) st Q \<longleftrightarrow> ends f st (\<lambda>x st'. ends (k x) st' Q)"
  unfolding ends_def hg_bind_returns by blast

lemma ends_try: "ends (hw_try f k) st Q \<longleftrightarrow>
    ends f st (\<lambda>r st'. case r of Inl e \<Rightarrow> Q (Inl e) st' | Inr x \<Rightarrow> ends (k x) st' Q)"
  unfolding hw_try_def ends_bind
  by (rule arg_cong [where f = "ends f st"]) (auto intro!: ext split: sum.split)

lemma ends_mono: "ends f st Q \<Longrightarrow> (\<And>x st'. Q x st' \<Longrightarrow> R x st') \<Longrightarrow> ends f st R"
  by (auto simp: ends_def)

lemma ends_upd_vbox [simp]: "ends (upd_vbox f) st Q \<longleftrightarrow> Q () (st\<lparr>vs_vbox := f (vs_vbox st)\<rparr>)"
  by (simp add: ends_def upd_vbox_def)

lemma ends_on_guest [simp]: "ends (on_guest f) st Q \<longleftrightarrow> ends f (vs_guest st) (\<lambda>x g. Q x (st\<lparr>vs_guest := g\<rparr>))"
  by (auto simp: ends_def on_guest_def split: option.splits sum.splits)

lemma ends_on_pci [simp]: "ends (on_pci f) st Q \<longleftrightarrow> (case f (vs_pci st) of (x, p) \<Rightarrow> Q x (st\<lparr>vs_pci := p\<rparr>))"
  by (auto simp: ends_def on_pci_def split: prod.splits)

lemma keeps_heap_ends: "keeps_heap g f \<longleftrightarrow> ends f g (\<lambda>x g'. g_pool g' = g_pool g)"
  by (auto simp: keeps_heap_def ends_def)

subsection \<open>Managed resources\<close>

text \<open>Every region and every mapping that is held has exactly one action that releases it.\<close>
fun action_regions :: "pcim_action list \<Rightarrow> int list" where
  "action_regions [] = []"
| "action_regions (Release_region bar # as) = bar # action_regions as"
| "action_regions (Iounmap addr # as) = action_regions as"

fun action_mappings :: "pcim_action list \<Rightarrow> u64 list" where
  "action_mappings [] = []"
| "action_mappings (Release_region bar # as) = action_mappings as"
| "action_mappings (Iounmap addr # as) = addr # action_mappings as"

definition pci_ok :: "pci_state \<Rightarrow> bool" where
  "pci_ok st \<longleftrightarrow> regions st = action_regions (actions st) \<and> mappings st = action_mappings (actions st)"

lemma release_all:
  assumes "pci_ok st"
  shows "devres_release_all st = st\<lparr>regions := [], mappings := [], actions := []\<rparr>"
proof -
  have "fold run_action as (st\<lparr>regions := action_regions as, mappings := action_mappings as\<rparr>) =
      st\<lparr>regions := [], mappings := []\<rparr>" for as
    by (cases st, induction as rule: action_regions.induct)
       (simp_all add: vbox_pcim_release_region_def vbox_pcim_iounmap_def)
  moreover have "st = st\<lparr>regions := action_regions (actions st), mappings := action_mappings (actions st)\<rparr>"
    using assms by (simp add: pci_ok_def)
  ultimately show ?thesis unfolding devres_release_all_def by metis
qed

lemma request_region_ok: "pci_ok st \<Longrightarrow> pci_ok (snd (pcim_request_region ext bar st))"
  by (auto simp: pcim_request_region_def devm_add_action_or_reset_def vbox_pcim_release_region_def pci_ok_def Let_def
      split: sum.splits)

lemma iomap_range_ok: "pci_ok st \<Longrightarrow> pci_ok (snd (pcim_iomap_range ext off len st))"
  by (auto simp: pcim_iomap_range_def devm_add_action_or_reset_def vbox_pcim_iounmap_def pci_ok_def Let_def
      split: sum.splits option.splits)

lemma on_pci_keeps: "(\<And>p. pci_ok p \<Longrightarrow> pci_ok (snd (f p))) \<Longrightarrow> call_keeps (\<lambda>st. pci_ok (vs_pci st)) (on_pci f)"
  by (fastforce simp: call_keeps_def on_pci_def Let_def split: prod.splits)

lemma pci_steps [call_keeps_intro]:
  "call_keeps (\<lambda>st. pci_ok (vs_pci st)) (on_pci (pcim_request_region ext bar))"
  "call_keeps (\<lambda>st. pci_ok (vs_pci st)) (on_pci (pcim_iomap_range ext off len))"
  by (rule on_pci_keeps, erule request_region_ok) (rule on_pci_keeps, erule iomap_range_ok)

lemma other_steps [call_keeps_intro]:
  "call_keeps (\<lambda>st. pci_ok (vs_pci st)) (upd_vbox f)"
  "call_keeps (\<lambda>st. pci_ok (vs_pci st)) (on_guest h)"
  "call_keeps (\<lambda>st. pci_ok (vs_pci st)) (create_guest_pool ext)"
  by (auto simp: call_keeps_def upd_vbox_def on_guest_def create_guest_pool_def Let_def
      split: option.splits sum.splits prod.splits)

lemma map_guest_heap_keeps [call_keeps_intro]: "call_keeps (\<lambda>st. pci_ok (vs_pci st)) (map_guest_heap ext)"
  unfolding call_keeps_def map_guest_heap_def by (metis pci_steps(2) call_keeps_def)

lemma accel_init_keeps [call_keeps_intro]: "call_keeps (\<lambda>st. pci_ok (vs_pci st)) (vbox_accel_init hst ext)"
  unfolding call_keeps_def
proof (intro allI impI)
  fix st x st'
  assume ok: "pci_ok (vs_pci st)" and eq: "vbox_accel_init hst ext st = Some (Inr (x, st'))"
  have rest: "call_keeps (\<lambda>st. pci_ok (vs_pci st)) (hw_try (on_pci (pcim_iomap_range ext off len)) (\<lambda>buffers.
      hg_bind (upd_vbox (vbva_buffers_update (\<lambda>_. buffers))) (\<lambda>_.
      hg_bind (on_guest (accel_init_loop hst vram buffers 0 cs0)) (\<lambda>cs.
      hg_bind (upd_vbox (vbva_info_update (\<lambda>_. cs))) (\<lambda>_. hg_return (Inr ()))))))" for off len vram cs0
    by (intro call_keeps_intro)
  show "pci_ok (vs_pci st')"
  proof (cases "x_vbva ext")
    case True
    then show ?thesis
      using eq ok rest [unfolded call_keeps_def, rule_format, where st = "st\<lparr>vs_vbox := v\<rparr>" for v]
      by (simp add: vbox_accel_init_def Let_def)
  next
    case False
    then show ?thesis using eq ok by (simp add: vbox_accel_init_def Let_def)
  qed
qed

text \<open>
  C13. Starting the adapter leaks no PCI resource: on every path of \<open>vbox_hw_init\<close>, success or any of
  its errors, each region and each mapping still held has its own release action, so that
  running the managed actions, as the driver core does when the device goes away, leaves none
  held and finds each of them held when its turn comes.
\<close>
theorem vbox_hw_init_no_leak:
  assumes "pci_ok (vs_pci st)" and "vbox_hw_init hst ext st = Some (Inr (r, st'))"
  shows "pci_ok (vs_pci st') \<and>
    devres_release_all (vs_pci st') = (vs_pci st')\<lparr>regions := [], mappings := [], actions := []\<rparr>"
proof -
  have "call_keeps (\<lambda>st. pci_ok (vs_pci st)) (vbox_hw_init hst ext)"
    unfolding vbox_hw_init_def by (intro call_keeps_intro)
  then have "pci_ok (vs_pci st')" using assms by (auto simp: call_keeps_def)
  then show ?thesis by (simp add: release_all)
qed

subsection \<open>The layout of video memory\<close>

lemma vbva_enable_ends:
  assumes "guest_ok hst g"
  shows "ends (vbva_enable hst ctx v screen) g (\<lambda>(ret, ctx') g'. g_pool g' = g_pool g \<and>
    buffer_offset ctx' = buffer_offset ctx \<and> buffer_length ctx' = buffer_length ctx \<and>
    (vb_vbva ctx' = Some v \<or> vb_vbva ctx' = None))"
proof -
  let ?g = "g\<lparr>g_mem := wr32 (v + 284) (buffer_length ctx - 288) (wr32 (v + 280) 256 (store_bytes v (replicate 288 0) (g_mem g)))\<rparr>"
  let ?ctx = "ctx\<lparr>vb_vbva := Some v\<rparr>"
  have ok: "guest_ok hst ?g" by (rule guest_ok_pool [OF assms]) simp
  have "ends (vbva_inform_host hst ?ctx screen True) ?g (\<lambda>ret g'. g_pool g' = g_pool g)"
    using vbva_inform_cases [OF ok, of ?ctx screen True] command_sent_pool by (fastforce simp: ends_def)
  note inform = this
  have dis: "ends (vbva_disable hst ?ctx screen) g' (\<lambda>ctx' g''. g_pool g'' = g_pool g \<and>
      ctx' = ?ctx\<lparr>buffer_overflow := False, vb_record := None, vb_vbva := None\<rparr>)" if "g_pool g' = g_pool g" for g'
    using vbva_disable_returns [OF guest_ok_pool [OF assms that], of ?ctx screen] that by (auto simp: ends_def)
  have "ends (hg_bind (vbva_inform_host hst ?ctx screen True)
      (\<lambda>ret. if \<not> ret then hg_bind (vbva_disable hst ?ctx screen) (\<lambda>ctx''. hg_return (ret, ctx''))
             else hg_return (ret, ?ctx))) ?g (\<lambda>(ret, ctx') g'. g_pool g' = g_pool g \<and>
    buffer_offset ctx' = buffer_offset ctx \<and> buffer_length ctx' = buffer_length ctx \<and>
    (vb_vbva ctx' = Some v \<or> vb_vbva ctx' = None))"
    unfolding ends_bind
  proof (rule ends_mono [OF inform])
    fix ret :: bool and g' :: guest
    assume pool: "g_pool g' = g_pool g"
    show "ends (if \<not> ret then hg_bind (vbva_disable hst ?ctx screen) (\<lambda>ctx''. hg_return (ret, ctx''))
             else hg_return (ret, ?ctx)) g' (\<lambda>(ret, ctx') g'. g_pool g' = g_pool g \<and>
      buffer_offset ctx' = buffer_offset ctx \<and> buffer_length ctx' = buffer_length ctx \<and>
      (vb_vbva ctx' = Some v \<or> vb_vbva ctx' = None))"
      using pool by (auto intro: ends_mono [OF dis [OF pool]])
  qed
  then show ?thesis by (simp add: ends_def vbva_enable_def Let_def)
qed

text \<open>The context of screen \<open>i\<close> as it must be.\<close>
definition screen_ctx :: "u32 \<Rightarrow> u64 \<Rightarrow> nat \<Rightarrow> vbva_buf_ctx \<Rightarrow> bool" where
  "screen_ctx vram buffers i c \<longleftrightarrow>
     buffer_offset c = vram + of_nat i * VBVA_MIN_BUFFER_SIZE \<and> buffer_length c = VBVA_MIN_BUFFER_SIZE \<and>
     (vb_vbva c = Some (buffers + of_nat i * ucast VBVA_MIN_BUFFER_SIZE) \<or> vb_vbva c = None)"

lemma accel_init_loop_ends:
  assumes "guest_ok hst g"
  shows "ends (accel_init_loop hst vram buffers i cs) g (\<lambda>cs' g'. g_pool g' = g_pool g \<and> length cs' = length cs \<and>
    (\<forall>j < length cs. screen_ctx vram buffers (i + j) (cs' ! j)))"
  using assms
proof (induction cs arbitrary: i g)
  case Nil
  then show ?case by simp
next
  case (Cons c cs)
  let ?c = "vbva_setup_buffer_context (vram + of_nat i * VBVA_MIN_BUFFER_SIZE) VBVA_MIN_BUFFER_SIZE c"
  let ?v = "buffers + of_nat i * ucast VBVA_MIN_BUFFER_SIZE"
  have "ends (vbva_enable hst ?c ?v (of_nat i)) g (\<lambda>(ret, c2) g1. g_pool g1 = g_pool g \<and> screen_ctx vram buffers i c2)"
    by (rule ends_mono [OF vbva_enable_ends [OF Cons.prems]])
       (auto simp: screen_ctx_def vbva_setup_buffer_context_def)
  then have "ends (hg_bind (vbva_enable hst ?c ?v (of_nat i)) (\<lambda>(_, c2).
      hg_bind (accel_init_loop hst vram buffers (Suc i) cs) (\<lambda>cs'. hg_return (c2 # cs')))) g
    (\<lambda>cs' g'. g_pool g' = g_pool g \<and> length cs' = length (c # cs) \<and>
      (\<forall>j < length (c # cs). screen_ctx vram buffers (i + j) (cs' ! j)))"
    unfolding ends_bind
  proof (rule ends_mono)
    fix x :: "bool \<times> vbva_buf_ctx" and g1 :: guest
    assume x: "(\<lambda>(ret, c2) g1. g_pool g1 = g_pool g \<and> screen_ctx vram buffers i c2) x g1"
    obtain ret c2 where x2: "x = (ret, c2)" by fastforce
    then have pool: "g_pool g1 = g_pool g" and c2: "screen_ctx vram buffers i c2" using x by simp_all
    note IH = Cons.IH [OF guest_ok_pool [OF Cons.prems(1) pool], of "Suc i"]
    show "ends (case x of (_, c2) \<Rightarrow>
        hg_bind (accel_init_loop hst vram buffers (Suc i) cs) (\<lambda>cs'. hg_return (c2 # cs'))) g1
      (\<lambda>cs' g'. g_pool g' = g_pool g \<and> length cs' = length (c # cs) \<and>
        (\<forall>j < length (c # cs). screen_ctx vram buffers (i + j) (cs' ! j)))"
      unfolding x2 prod.case ends_bind ends_return
      by (rule ends_mono [OF IH]) (use c2 pool in \<open>auto simp: nth_Cons split: nat.split\<close>)
  qed
  then show ?case by (simp only: accel_init_loop.simps Let_def)
qed

text \<open>
  The guest's memory after a successful start: heap, then the screens' buffers in front of it,
  then what is left for frame buffers.
\<close>
definition vram_split :: "vbox_private \<Rightarrow> bool" where
  "vram_split v \<longleftrightarrow>
     1 \<le> unat (num_crtcs v) \<and> unat (num_crtcs v) \<le> 32 \<and>
     unat (available_vram_size v) + unat (num_crtcs v) * 65536 + 65536 = unat (full_vram_size v) \<and>
     length (last_mode_hints v) = unat (num_crtcs v) \<and> length (vbva_info v) = unat (num_crtcs v) \<and>
     (\<forall>i < unat (num_crtcs v).
        unat (buffer_offset (vbva_info v ! i)) = unat (available_vram_size v) + i * 65536 \<and>
        unat (buffer_length (vbva_info v ! i)) = 65536 \<and>
        (vb_vbva (vbva_info v ! i) = Some (vbva_buffers v + of_nat (i * 65536)) \<or> vb_vbva (vbva_info v ! i) = None))"

text \<open>
  The heap of the guest is the mapping of the last 64 KB of video memory: its pool manages all of it but 16 bytes,
  nothing of it is allocated, and the address handed to the host is the one in video memory.
\<close>
definition heap_at_end :: "vbox_ext \<Rightarrow> vbox_state \<Rightarrow> bool" where
  "heap_at_end ext st \<longleftrightarrow>
     (let heap = guest_heap (vs_vbox st); pool = g_pool (vs_guest st); start = unat (x_inl ext) - 65536
      in full_vram_size (vs_vbox st) = x_inl ext \<and> x_iomap ext (of_nat start) 65536 = Some heap \<and>
         managed pool = {unat heap ..< unat heap + 65520} \<and> allocated pool = {} \<and>
         (\<forall>i < 65520. gen_pool_virt_to_phys pool (heap + of_nat i) = of_nat (start + i)))"

text \<open>
  The layout: heap, buffers and the rest do not overlap and fill video memory, and the buffers are those that the mapping of their part
  of video memory gives.
\<close>
definition vram_layout :: "vbox_ext \<Rightarrow> vbox_state \<Rightarrow> bool" where
  "vram_layout ext st \<longleftrightarrow> vram_split (vs_vbox st) \<and> heap_at_end ext st \<and>
     x_iomap ext (of_nat (unat (available_vram_size (vs_vbox st)))) (of_nat (unat (num_crtcs (vs_vbox st)) * 65536)) =
       Some (vbva_buffers (vs_vbox st))"

text \<open>The pool of the guest heap once its chunk is in it.\<close>
definition guest_heap_pool :: "vbox_ext \<Rightarrow> u64 \<Rightarrow> gen_pool" where
  "guest_heap_pool ext heap = snd (gen_pool_add_owner True heap (ucast (x_inl ext - GUEST_HEAP_SIZE)) GUEST_HEAP_USABLE_SIZE None
     \<lparr>gp_chunks = [], min_alloc_order = 4, gp_algo = gen_pool_first_fit (x_bitops ext),
      gp_name = Some ''vboxvideo-accel''\<rparr>)"

text \<open>The same of the heap as the start builds it.\<close>
definition heap_started :: "vbox_ext \<Rightarrow> vbox_state \<Rightarrow> bool" where
  "heap_started ext st \<longleftrightarrow> g_pool (vs_guest st) = guest_heap_pool ext (guest_heap (vs_vbox st)) \<and>
     full_vram_size (vs_vbox st) = x_inl ext \<and>
     x_iomap ext (ucast (x_inl ext - GUEST_HEAP_SIZE)) (ucast GUEST_HEAP_SIZE) = Some (guest_heap (vs_vbox st))"

text \<open>
  What the start relies on: the kernel's bitmap searches, enough video memory for the heap and
  the buffers of every screen, mappings that are not NULL and do not wrap, and a host that
  leaves the headers of the commands alone.
\<close>
definition vbox_platform :: "host \<Rightarrow> vbox_ext \<Rightarrow> bool" where
  "vbox_platform hst ext \<longleftrightarrow> bitmap_search (x_bitops ext) \<and> 33 * 65536 \<le> unat (x_inl ext) \<and>
     (\<forall>heap. x_iomap ext (ucast (x_inl ext - GUEST_HEAP_SIZE)) (ucast GUEST_HEAP_SIZE) = Some heap \<longrightarrow>
        heap \<noteq> 0 \<and> unat heap + 65536 \<le> 2 ^ 64 \<and> host_keeps_headers hst (guest_heap_pool ext heap))"

lemma ucast_of_unat: "(ucast (x :: u32) :: u64) = of_nat (unat x)"
  by simp

lemma heap_offset:
  assumes "65536 \<le> unat (n :: u32)"
  shows "(ucast (n - GUEST_HEAP_SIZE) :: u64) = of_nat (unat n - 65536)"
proof -
  have "unat (n - GUEST_HEAP_SIZE) = unat n - 65536"
    using assms by (simp add: GUEST_HEAP_SIZE_def unat_sub word_le_nat_alt)
  then show ?thesis using ucast_of_unat [of "n - GUEST_HEAP_SIZE"] by simp
qed

lemma guest_heap_pool_shape:
  assumes "65536 \<le> unat (x_inl ext)" and "heap \<noteq> 0" and "unat heap + 65536 \<le> 2 ^ 64"
  shows "managed (guest_heap_pool ext heap) = {unat heap ..< unat heap + 65520}"
    and "allocated (guest_heap_pool ext heap) = {}"
    and "i < 65520 \<Longrightarrow> gen_pool_virt_to_phys (guest_heap_pool ext heap) (heap + of_nat i) = of_nat (unat (x_inl ext) - 65536 + i)"
proof -
  let ?off = "ucast (x_inl ext - GUEST_HEAP_SIZE) :: u64"
  let ?pool = "\<lparr>gp_chunks = [], min_alloc_order = 4, gp_algo = gen_pool_first_fit (x_bitops ext),
      gp_name = Some ''vboxvideo-accel''\<rparr>"
  obtain res pool' where add: "gen_pool_add_owner True heap ?off GUEST_HEAP_USABLE_SIZE None ?pool = (res, pool')" by fastforce
  have none: "pool_wf ?pool" "managed ?pool = {}" "allocated ?pool = {}"
    by (simp_all add: pool_wf_def managed_def allocated_def chunks_allocated_def)
  have "managed pool' = {unat heap ..< unat heap + 65520} \<and> allocated pool' = {}"
    using add_owner_extends [OF none(1) _ assms(2) _ _ _ add] none(2,3) assms(3) by (simp add: GUEST_HEAP_USABLE_SIZE_def)
  then show "managed (guest_heap_pool ext heap) = {unat heap ..< unat heap + 65520}"
    "allocated (guest_heap_pool ext heap) = {}" using add by (simp_all add: guest_heap_pool_def)
  show "gen_pool_virt_to_phys (guest_heap_pool ext heap) (heap + of_nat i) = of_nat (unat (x_inl ext) - 65536 + i)"
    if "i < 65520"
  proof -
    have u: "unat (heap + of_nat i) = unat heap + i"
      using that assms(3) by (subst unat_add_small) (simp_all add: unat_of_nat take_bit_nat_eq_self)
    have "unat (heap + GUEST_HEAP_USABLE_SIZE - 1) = unat heap + 65520 - 1"
      using end_addr_nat [of GUEST_HEAP_USABLE_SIZE heap] assms(3) by (simp add: GUEST_HEAP_USABLE_SIZE_def)
    then have "heap \<le> heap + of_nat i" "heap + of_nat i \<le> heap + GUEST_HEAP_USABLE_SIZE - 1"
      using u that by (simp_all add: word_le_nat_alt)
    then have "gen_pool_virt_to_phys (guest_heap_pool ext heap) (heap + of_nat i) = ?off + of_nat i"
      by (simp add: gen_pool_virt_to_phys_def guest_heap_pool_def gen_pool_add_owner_def in_chunk_def Let_def)
    then show ?thesis using heap_offset [OF assms(1)] by simp
  qed
qed

lemma heap_started_at_end:
  assumes "vbox_platform hst ext" and "heap_started ext st"
  shows "heap_at_end ext st"
proof -
  let ?heap = "guest_heap (vs_vbox st)" and ?off = "ucast (x_inl ext - GUEST_HEAP_SIZE) :: u64"
  have vram: "65536 \<le> unat (x_inl ext)" using assms(1) by (simp add: vbox_platform_def)
  have st: "g_pool (vs_guest st) = guest_heap_pool ext ?heap" "full_vram_size (vs_vbox st) = x_inl ext"
    "x_iomap ext ?off (ucast GUEST_HEAP_SIZE) = Some ?heap" using assms(2) by (simp_all add: heap_started_def)
  then have "?heap \<noteq> 0" "unat ?heap + 65536 \<le> 2 ^ 64" using assms(1) by (auto simp: vbox_platform_def)
  note shape = guest_heap_pool_shape [OF vram this]
  show ?thesis
    unfolding heap_at_end_def Let_def st(1) using shape st(2,3) heap_offset [OF vram] by (simp add: GUEST_HEAP_SIZE_def)
qed

text \<open>What the steps below reach.\<close>
definition vram_started :: "vbox_ext \<Rightarrow> vbox_state \<Rightarrow> bool" where
  "vram_started ext st \<longleftrightarrow> vram_split (vs_vbox st) \<and> heap_started ext st \<and>
     x_iomap ext (ucast (available_vram_size (vs_vbox st))) (ucast (num_crtcs (vs_vbox st) * VBVA_MIN_BUFFER_SIZE)) =
       Some (vbva_buffers (vs_vbox st))"

lemma iomap_range_result:
  "fst (pcim_iomap_range ext off len p) = Inr heap \<Longrightarrow> x_iomap ext off len = Some heap"
  by (auto simp: pcim_iomap_range_def devm_add_action_or_reset_def split: option.splits sum.splits)

lemma accel_init_ends:
  assumes "guest_ok hst (vs_guest st)" and "1 \<le> unat (num_crtcs (vs_vbox st))" and "unat (num_crtcs (vs_vbox st)) \<le> 32"
    and "33 * 65536 \<le> unat (full_vram_size (vs_vbox st))"
    and "available_vram_size (vs_vbox st) = GUEST_HEAP_OFFSET (vs_vbox st)"
    and "length (last_mode_hints (vs_vbox st)) = unat (num_crtcs (vs_vbox st))"
    and "heap_started ext st"
  shows "ends (vbox_accel_init hst ext) st (\<lambda>r st'. r = Inr () \<longrightarrow> vram_started ext st')"
proof (cases "x_vbva ext")
  case False
  then show ?thesis by (simp add: ends_def vbox_accel_init_def)
next
  case True
  let ?v = "vs_vbox st"
  let ?n = "num_crtcs ?v"
  let ?vram = "available_vram_size ?v - ?n * VBVA_MIN_BUFFER_SIZE"
  have nb: "unat (?n * VBVA_MIN_BUFFER_SIZE) = unat ?n * 65536"
  proof -
    have "?n * VBVA_MIN_BUFFER_SIZE = of_nat (unat ?n * 65536)" by (simp add: VBVA_MIN_BUFFER_SIZE_def)
    then show ?thesis using assms(3) by (simp only: unat_of_nat) (simp add: take_bit_eq_mod)
  qed
  have heap: "unat (available_vram_size ?v) = unat (full_vram_size ?v) - 65536"
    using assms(4,5) by (simp add: GUEST_HEAP_OFFSET_def GUEST_HEAP_SIZE_def unat_sub word_le_nat_alt)
  have vram: "unat ?vram + unat ?n * 65536 + 65536 = unat (full_vram_size ?v)"
    using heap nb assms(3,4) by (simp add: unat_sub word_le_nat_alt)
  have off: "unat (?vram + of_nat i * VBVA_MIN_BUFFER_SIZE) = unat ?vram + i * 65536" if "i < unat ?n" for i
  proof -
    have "?vram + of_nat i * VBVA_MIN_BUFFER_SIZE = of_nat (unat ?vram + i * 65536)" by (simp add: VBVA_MIN_BUFFER_SIZE_def)
    moreover have "unat ?vram + i * 65536 < 2 ^ 32"
      using vram that unsigned_less [of "full_vram_size ?v", where ?'a = nat] by simp
    ultimately show ?thesis by (simp only: unat_of_nat) (simp add: take_bit_eq_mod)
  qed
  have lay: "vram_split (?v\<lparr>vbva_info := cs, available_vram_size := ?vram, vbva_buffers := buffers\<rparr>)"
    if "length cs = unat ?n" "\<forall>j < unat ?n. screen_ctx ?vram buffers (0 + j) (cs ! j)" for cs buffers
    using that assms(2,3,6) vram off
    by (auto simp: vram_split_def screen_ctx_def VBVA_MIN_BUFFER_SIZE_def)
  let ?st = "st\<lparr>vs_vbox := ?v\<lparr>vbva_info := replicate (unat ?n) zero_ctx, available_vram_size := ?vram\<rparr>\<rparr>"
  have fin: "vram_started ext (?st\<lparr>vs_pci := p, vs_guest := g\<rparr>\<lparr>vs_vbox := (vs_vbox ?st)\<lparr>vbva_buffers := buffers, vbva_info := cs\<rparr>\<rparr>)"
    if "fst (pcim_iomap_range ext (ucast ?vram) (ucast (?n * VBVA_MIN_BUFFER_SIZE)) (vs_pci st)) = Inr buffers"
      and "g_pool g = g_pool (vs_guest st)" and "length cs = unat ?n" "\<forall>j < unat ?n. screen_ctx ?vram buffers (0 + j) (cs ! j)"
    for p g cs buffers
  proof -
    have upd: "?v\<lparr>vbva_info := xs, available_vram_size := a, vbva_buffers := b, vbva_info := cs\<rparr> =
        ?v\<lparr>vbva_info := cs, available_vram_size := a, vbva_buffers := b\<rparr>" for xs a b by (cases ?v) simp
    show ?thesis
      using lay [OF that(3,4)] iomap_range_result [OF that(1)] assms(7) that(2)
      by (simp add: vram_started_def heap_started_def upd)
  qed
  have "ends (hw_try (on_pci (pcim_iomap_range ext (ucast ?vram) (ucast (?n * VBVA_MIN_BUFFER_SIZE)))) (\<lambda>buffers.
       hg_bind (upd_vbox (vbva_buffers_update (\<lambda>_. buffers))) (\<lambda>_.
       hg_bind (on_guest (accel_init_loop hst ?vram buffers 0 (replicate (unat ?n) zero_ctx))) (\<lambda>cs.
       hg_bind (upd_vbox (vbva_info_update (\<lambda>_. cs))) (\<lambda>_. hg_return (Inr ())))))) ?st
     (\<lambda>r st'. r = Inr () \<longrightarrow> vram_started ext st')"
    unfolding ends_try ends_on_pci
    by (auto split: prod.split sum.split intro: fin [simplified] simp: fst_def
        intro!: ends_mono [OF accel_init_loop_ends [OF assms(1), of ?vram _ 0 "replicate (unat ?n) zero_ctx"]])
  then show ?thesis using True by (simp add: ends_def vbox_accel_init_def Let_def)
qed

subsection \<open>The start as a whole\<close>

lemma guest_heap_pool_ok:
  assumes "vbox_platform hst ext" and "x_iomap ext (ucast (x_inl ext - GUEST_HEAP_SIZE)) (ucast GUEST_HEAP_SIZE) = Some heap"
    and "g_pool g = guest_heap_pool ext heap"
  shows "guest_ok hst g"
proof -
  let ?pool = "\<lparr>gp_chunks = [], min_alloc_order = 4, gp_algo = gen_pool_first_fit (x_bitops ext),
      gp_name = Some ''vboxvideo-accel''\<rparr>"
  have h: "heap \<noteq> 0" "unat heap + unat GUEST_HEAP_USABLE_SIZE \<le> 2 ^ 64" "host_keeps_headers hst (guest_heap_pool ext heap)"
    using assms(1,2) by (auto simp: vbox_platform_def GUEST_HEAP_USABLE_SIZE_def)
  have "pool_wf (guest_heap_pool ext heap)"
    using add_owner_extends [of ?pool heap GUEST_HEAP_USABLE_SIZE True "ucast (x_inl ext - GUEST_HEAP_SIZE)" None] h
    by (auto simp: guest_heap_pool_def GUEST_HEAP_USABLE_SIZE_def pool_wf_def managed_def
        intro: surjective_pairing)
  moreover have "genpool_algo (gen_pool_first_fit (x_bitops ext))"
    using assms(1) bitmap_search.first_fit_algo by (auto simp: vbox_platform_def)
  ultimately show ?thesis using h(3) assms(3)
    by (simp add: guest_ok_def heap_ok_def) (simp add: guest_heap_pool_def gen_pool_add_owner_def Let_def)
qed

text \<open>A step that keeps the guest's heap keeps the heap in working order.\<close>
lemma ends_keeps_heap:
  assumes "keeps_heap g f" and "guest_ok hst g" and "\<And>x g'. guest_ok hst g' \<Longrightarrow> g_pool g' = g_pool g \<Longrightarrow> Q x g'"
  shows "ends f g Q"
proof -
  from assms(1) obtain x g' where "f g = Some (Inr (x, g'))" "g_pool g' = g_pool g" by (auto simp: keeps_heap_def)
  then show ?thesis using assms(3) [of g' x] guest_ok_pool [OF assms(2)] by (auto simp: ends_def)
qed

lemma mode_hints_ends:
  assumes "guest_ok hst g" and "\<And>x g'. guest_ok hst g' \<Longrightarrow> g_pool g' = g_pool g \<Longrightarrow> Q x g'"
  shows "ends (have_hgsmi_mode_hints hst) g Q"
  unfolding have_hgsmi_mode_hints_def ends_bind
  by (rule ends_keeps_heap [OF query_conf_keeps [OF assms(1)] assms(1)])
     (fastforce split: sum.split intro: assms(2) intro!: ends_keeps_heap [OF query_conf_keeps])

lemma clamp_screens_range: "1 \<le> unat (clamp_screens n) \<and> unat (clamp_screens n) \<le> 32"
  by (auto simp: clamp_screens_def VBOX_MAX_SCREENS_def min_def max_def word_le_nat_alt)

text \<open>The last steps of \<open>vbox_hw_init\<close>: the mode hints and the command buffers.\<close>
lemma hw_hints_ends:
  assumes "guest_ok hst (vs_guest st)" and "33 * 65536 \<le> unat (full_vram_size (vs_vbox st))"
    and "available_vram_size (vs_vbox st) = GUEST_HEAP_OFFSET (vs_vbox st)"
    and "1 \<le> unat (num_crtcs (vs_vbox st))" and "unat (num_crtcs (vs_vbox st)) \<le> 32" and "heap_started ext st"
  shows "ends (hg_bind (on_guest (have_hgsmi_mode_hints hst)) (\<lambda>hints.
     if \<not> hints then hg_return (Inl ENOTSUPP)
     else if \<not> x_hints ext then hg_return (Inl ENOMEM)
     else hg_bind (upd_vbox (\<lambda>v. v\<lparr>last_mode_hints := replicate (unat (num_crtcs v)) zero_hint\<rparr>)) (\<lambda>_.
          vbox_accel_init hst ext))) st (\<lambda>r st'. r = Inr () \<longrightarrow> vram_started ext st')"
  unfolding ends_bind ends_on_guest
proof (rule mode_hints_ends [OF assms(1)])
  fix hints g
  assume "guest_ok hst g" "g_pool g = g_pool (vs_guest st)"
  then show "ends (if \<not> hints then hg_return (Inl ENOTSUPP)
     else if \<not> x_hints ext then hg_return (Inl ENOMEM)
     else hg_bind (upd_vbox (\<lambda>v. v\<lparr>last_mode_hints := replicate (unat (num_crtcs v)) zero_hint\<rparr>)) (\<lambda>_.
          vbox_accel_init hst ext)) (st\<lparr>vs_guest := g\<rparr>) (\<lambda>r st'. r = Inr () \<longrightarrow> vram_started ext st')"
    using assms(2-) by (auto intro!: accel_init_ends simp: GUEST_HEAP_OFFSET_def heap_started_def)
qed

lemma ends_guest_bind:
  assumes "\<And>g. guest_ok hst g \<Longrightarrow> keeps_heap g f" and "guest_ok hst (vs_guest st)"
    and "\<And>x g'. guest_ok hst g' \<Longrightarrow> g_pool g' = g_pool (vs_guest st) \<Longrightarrow> ends (k x) (st\<lparr>vs_guest := g'\<rparr>) Q"
  shows "ends (hg_bind (on_guest f) k) st Q"
  using ends_keeps_heap [OF assms(1) [OF assms(2)] assms(2,3)] by simp

lemma ends_upd_bind: "ends (k ()) (st\<lparr>vs_vbox := f (vs_vbox st)\<rparr>) Q \<Longrightarrow> ends (hg_bind (upd_vbox f) k) st Q"
  by simp

lemma hw_probe_ends:
  assumes "guest_ok hst (vs_guest st)" and "33 * 65536 \<le> unat (full_vram_size (vs_vbox st))" and "heap_started ext st"
  shows "ends (hw_try (on_guest (hgsmi_test_query_conf hst)) (\<lambda>_.
     hg_bind (upd_vbox (\<lambda>v. v\<lparr>available_vram_size := GUEST_HEAP_OFFSET v\<rparr>)) (\<lambda>_.
     hg_bind (on_guest (hgsmi_query_conf hst VBOX_VBVA_CONF32_MONITOR_COUNT)) (\<lambda>r.
     hg_bind (upd_vbox (num_crtcs_update (\<lambda>n. clamp_screens (case r of Inl _ \<Rightarrow> n | Inr c \<Rightarrow> c)))) (\<lambda>_.
     hg_bind (on_guest (have_hgsmi_mode_hints hst)) (\<lambda>hints.
     if \<not> hints then hg_return (Inl ENOTSUPP)
     else if \<not> x_hints ext then hg_return (Inl ENOMEM)
     else hg_bind (upd_vbox (\<lambda>v. v\<lparr>last_mode_hints := replicate (unat (num_crtcs v)) zero_hint\<rparr>)) (\<lambda>_.
          vbox_accel_init hst ext))))))) st (\<lambda>r st'. r = Inr () \<longrightarrow> vram_started ext st')"
  unfolding hw_try_def
proof (rule ends_guest_bind [OF test_query_conf_keeps assms(1)])
  fix r :: "unit result" and g
  assume g: "guest_ok hst g" "g_pool g = g_pool (vs_guest st)"
  show "ends (case r of Inl e \<Rightarrow> hg_return (Inl e) | Inr x \<Rightarrow>
     hg_bind (upd_vbox (\<lambda>v. v\<lparr>available_vram_size := GUEST_HEAP_OFFSET v\<rparr>)) (\<lambda>_.
     hg_bind (on_guest (hgsmi_query_conf hst VBOX_VBVA_CONF32_MONITOR_COUNT)) (\<lambda>r.
     hg_bind (upd_vbox (num_crtcs_update (\<lambda>n. clamp_screens (case r of Inl _ \<Rightarrow> n | Inr c \<Rightarrow> c)))) (\<lambda>_.
     hg_bind (on_guest (have_hgsmi_mode_hints hst)) (\<lambda>hints.
     if \<not> hints then hg_return (Inl ENOTSUPP)
     else if \<not> x_hints ext then hg_return (Inl ENOMEM)
     else hg_bind (upd_vbox (\<lambda>v. v\<lparr>last_mode_hints := replicate (unat (num_crtcs v)) zero_hint\<rparr>)) (\<lambda>_.
          vbox_accel_init hst ext)))))) (st\<lparr>vs_guest := g\<rparr>) (\<lambda>r st'. r = Inr () \<longrightarrow> vram_started ext st')"
  proof (cases r)
    case (Inr x)
    show ?thesis
      unfolding Inr sum.case
      by (rule ends_upd_bind, rule ends_guest_bind [OF query_conf_keeps], assumption, simp add: g(1), rule ends_upd_bind,
          rule hw_hints_ends)
         (use assms(2,3) g(2) in \<open>simp_all add: clamp_screens_range [simplified] GUEST_HEAP_OFFSET_def heap_started_def\<close>)
  qed simp
qed

lemma create_pool_ends:
  assumes "vbox_platform hst ext" and "x_iomap ext (ucast (x_inl ext - GUEST_HEAP_SIZE)) (ucast GUEST_HEAP_SIZE) = Some heap"
    and "guest_heap (vs_vbox st) = heap" and "full_vram_size (vs_vbox st) = x_inl ext"
  shows "ends (create_guest_pool ext) st (\<lambda>r st'. vs_vbox st' = vs_vbox st \<and>
    (r = Inr () \<longrightarrow> guest_ok hst (vs_guest st') \<and> heap_started ext st'))"
proof -
  have "guest_ok hst ((vs_guest st)\<lparr>g_pool := guest_heap_pool ext heap\<rparr>)"
    by (rule guest_heap_pool_ok [OF assms(1,2)]) simp
  then show ?thesis
    using assms(2-4)
    by (auto simp: heap_started_def ends_def create_guest_pool_def devm_gen_pool_create_def gen_pool_create_def gen_pool_add_owner_def
        guest_heap_pool_def GUEST_HEAP_OFFSET_def Let_def split: prod.split)
qed

lemma ends_map_guest_heap:
  "ends (map_guest_heap ext) st Q \<longleftrightarrow>
     (case pcim_iomap_range ext (ucast (full_vram_size (vs_vbox st) - GUEST_HEAP_SIZE)) (ucast GUEST_HEAP_SIZE) (vs_pci st) of
        (x, p) \<Rightarrow> Q x (st\<lparr>vs_pci := p\<rparr>))"
  by (auto simp: ends_def map_guest_heap_def on_pci_def GUEST_HEAP_OFFSET_def split: prod.splits)

lemma vbox_check_supported_ends:
  "ends (vbox_check_supported ext i) g Q \<longleftrightarrow> Q (x_inw ext i = i) (vbox_write_ioport VBE_DISPI_INDEX_ID i g)"
  by (auto simp: ends_def vbox_check_supported_def)

lemma hw_init_ends:
  assumes "vbox_platform hst ext"
  shows "ends (vbox_hw_init hst ext) st (\<lambda>r st'. r = Inr () \<longrightarrow> vram_started ext st')"
proof -
  have vram: "33 * 65536 \<le> unat (x_inl ext)" using assms by (simp add: vbox_platform_def)
  have pool: "ends (hw_try (create_guest_pool ext) (\<lambda>_. k)) st1 (\<lambda>r st'. r = Inr () \<longrightarrow> vram_started ext st')"
    if "x_iomap ext (ucast (x_inl ext - GUEST_HEAP_SIZE)) (ucast GUEST_HEAP_SIZE) = Some heap"
      and "guest_heap (vs_vbox st1) = heap" and "full_vram_size (vs_vbox st1) = x_inl ext"
      and "\<And>st2. guest_ok hst (vs_guest st2) \<Longrightarrow> 33 * 65536 \<le> unat (full_vram_size (vs_vbox st2)) \<Longrightarrow> heap_started ext st2 \<Longrightarrow>
         ends k st2 (\<lambda>r st'. r = Inr () \<longrightarrow> vram_started ext st')" for heap k st1
    unfolding ends_try
    by (rule ends_mono [OF create_pool_ends [OF assms that(1-3)]]) (use that(3,4) vram in \<open>auto split: sum.split\<close>)
  have heap: "ends (hw_try (map_guest_heap ext) (\<lambda>heap. hg_bind (upd_vbox (guest_heap_update (\<lambda>_. heap))) (\<lambda>_.
      hw_try (create_guest_pool ext) (\<lambda>_. k)))) st1 (\<lambda>r st'. r = Inr () \<longrightarrow> vram_started ext st')"
    if "full_vram_size (vs_vbox st1) = x_inl ext"
      and k: "\<And>st2. guest_ok hst (vs_guest st2) \<Longrightarrow> 33 * 65536 \<le> unat (full_vram_size (vs_vbox st2)) \<Longrightarrow> heap_started ext st2 \<Longrightarrow>
         ends k st2 (\<lambda>r st'. r = Inr () \<longrightarrow> vram_started ext st')" for k st1
    unfolding ends_try [of "map_guest_heap ext"] ends_map_guest_heap that(1)
    by (auto split: prod.split sum.split intro!: pool [OF _ _ _ k] simp: that(1)
        dest!: arg_cong [where f = fst, THEN iomap_range_result [OF trans]])
  have start: "ends (hg_bind (upd_vbox (full_vram_size_update (\<lambda>_. x_inl ext))) (\<lambda>_.
     hg_bind (on_guest (vbox_check_supported ext VBE_DISPI_ID_ANYX)) (\<lambda>any.
     hg_bind (upd_vbox (any_pitch_update (\<lambda>_. any))) (\<lambda>_.
     hw_try (on_pci (pcim_request_region ext 0)) (\<lambda>_.
     hw_try (map_guest_heap ext) (\<lambda>heap. hg_bind (upd_vbox (guest_heap_update (\<lambda>_. heap))) (\<lambda>_.
     hw_try (create_guest_pool ext) (\<lambda>_. k)))))))) st (\<lambda>r st'. r = Inr () \<longrightarrow> vram_started ext st')"
    if "\<And>st2. guest_ok hst (vs_guest st2) \<Longrightarrow> 33 * 65536 \<le> unat (full_vram_size (vs_vbox st2)) \<Longrightarrow> heap_started ext st2 \<Longrightarrow>
         ends k st2 (\<lambda>r st'. r = Inr () \<longrightarrow> vram_started ext st')" for k
    by (auto simp: ends_try [of "on_pci f" for f] vbox_check_supported_ends
        split: prod.split sum.split intro!: heap that)
  show ?thesis unfolding vbox_hw_init_def by (rule start) (rule hw_probe_ends)
qed

lemma started_layout:
  assumes "vbox_platform hst ext" and "vram_started ext st"
  shows "vram_layout ext st"
proof -
  let ?v = "vs_vbox st"
  have n: "unat (num_crtcs ?v) \<le> 32" using assms(2) by (simp add: vram_started_def vram_split_def)
  have "num_crtcs ?v * VBVA_MIN_BUFFER_SIZE = of_nat (unat (num_crtcs ?v) * 65536)" by (simp add: VBVA_MIN_BUFFER_SIZE_def)
  then have "unat (num_crtcs ?v * VBVA_MIN_BUFFER_SIZE) = unat (num_crtcs ?v) * 65536"
    using n by (simp only: unat_of_nat) (simp add: take_bit_eq_mod)
  then have eq: "(ucast (num_crtcs ?v * VBVA_MIN_BUFFER_SIZE) :: u64) = of_nat (unat (num_crtcs ?v) * 65536)"
    using ucast_of_unat [of "num_crtcs ?v * VBVA_MIN_BUFFER_SIZE"] by argo
  have start: "vram_split ?v" "heap_started ext st"
    "x_iomap ext (ucast (available_vram_size ?v)) (ucast (num_crtcs ?v * VBVA_MIN_BUFFER_SIZE)) = Some (vbva_buffers ?v)"
    using assms(2) unfolding vram_started_def by blast+
  from start(1,3) heap_started_at_end [OF assms(1) start(2)] show ?thesis
    unfolding vram_layout_def eq ucast_of_unat [of "available_vram_size ?v"] by blast
qed

text \<open>
  C12. On an adapter with at least 33 * 64 KB of video memory and a host that leaves the headers of the commands alone, starting
  always comes back, whatever else the host answers and whichever call fails, and
  a successful start has cut the end of video memory into parts that do not overlap: the guest heap is the mapping
  of the last 64 KB, with nothing allocated and its addresses translated to their place in video memory; in front of it lies one
  64 KB command buffer per screen in the order of the screens, in the mapping of just that part;
  and in front of those the memory left for frame buffers. There are between 1 and 32 screens and as
  many mode hints and buffer contexts; each context is enabled on its own part of the mapping or not
  at all.
\<close>
theorem vbox_hw_init_layout:
  assumes "vbox_platform hst ext"
  shows "ends (vbox_hw_init hst ext) st (\<lambda>r st'. r = Inr () \<longrightarrow> vram_layout ext st')"
  by (rule ends_mono [OF hw_init_ends [OF assms]]) (rule impI, rule started_layout [OF assms], simp)

subsection \<open>Witnesses\<close>

text \<open>16 MB of video memory, mapped at 2 GB, and a host that does not write.\<close>
definition demo_ext :: vbox_ext where
  "demo_ext = \<lparr>x_inl = 0x1000000, x_inw = (\<lambda>i. i), x_request_region = (\<lambda>_. Inr ()), x_kzalloc_region = True,
     x_iomap = (\<lambda>off _. Some (0x80000000 + off)), x_add_action = (\<lambda>_. Inr ()), x_strdup = True, x_devres = True,
     x_pool = True, x_vzalloc = True, x_hints = True, x_vbva = True, x_bitops = scan_bitops\<rparr>"

definition demo_vbox :: vbox_state where
  "demo_vbox = \<lparr>vs_vbox = \<lparr>guest_heap = 0, vbva_buffers = 0, vbva_info = [], any_pitch = False, num_crtcs = 0,
      full_vram_size = 0, available_vram_size = 0, last_mode_hints = []\<rparr>,
     vs_pci = \<lparr>regions = [], mappings = [], actions = []\<rparr>, vs_pools = [], vs_guest = demo_guest\<rparr>"

lemma demo_platform: "vbox_platform (\<lambda>_ m. m) demo_ext"
  using scan.bitmap_search_axioms
  by (auto simp: vbox_platform_def demo_ext_def host_keeps_headers_def GUEST_HEAP_SIZE_def)

lemma hw_init_returns: "\<exists>r st'. vbox_hw_init (\<lambda>_ m. m) demo_ext demo_vbox = Some (Inr (r, st'))"
  using hw_init_ends [OF demo_platform, of demo_vbox] by (auto simp: ends_def)

theorem vbox_hw_init_no_leak_witness:
  "\<exists>r st'. vbox_hw_init (\<lambda>_ m. m) demo_ext demo_vbox = Some (Inr (r, st')) \<and> pci_ok (vs_pci st')"
proof -
  from hw_init_returns obtain r st' where r: "vbox_hw_init (\<lambda>_ m. m) demo_ext demo_vbox = Some (Inr (r, st'))" by blast
  moreover have "pci_ok (vs_pci demo_vbox)" by (simp add: pci_ok_def demo_vbox_def)
  ultimately show ?thesis using vbox_hw_init_no_leak [OF _ r] by blast
qed

text \<open>A fresh heap has room for a command of up to 64 bytes.\<close>
lemma fresh_heap_alloc:
  assumes "vbox_platform hst ext" and "heap_started ext st" and "sz \<noteq> 0" and "unat sz \<le> 64"
  shows "\<exists>h p. gen_pool_dma_alloc sz (g_pool (vs_guest st)) = Some (Inr (Some h, Some p))"
proof -
  let ?heap = "guest_heap (vs_vbox st)" and ?bm = "replicate 64 0 :: u64 list"
  have pool: "g_pool (vs_guest st) = guest_heap_pool ext ?heap" and h: "?heap \<noteq> 0"
    using assms(1,2) by (auto simp: heap_started_def vbox_platform_def)
  have search: "bitmap_search (x_bitops ext)" using assms(1) by (simp add: vbox_platform_def)
  let ?nr = "unat (size_to_bits 4 sz)"
  have nr: "?nr \<le> 5" using size_to_bits_nat [of 4 sz] assms(4) by simp
  let ?s = "gen_pool_first_fit (x_bitops ext) ?bm 4095 0 ?nr 4 ?heap"
  have "zero_area_at ?bm 4095 0 ?nr 0 0 0" using nr by (simp add: zero_area_at_def range_free_def)
  then have s: "?s = 0"
    using bitmap_search.zero_area_first [OF search]
    by (simp add: gen_pool_first_fit_def bitmap_find_next_zero_area_def le_zero_eq [symmetric] del: le_zero_eq)
  obtain bm where "alloc_retry (gen_pool_first_fit (x_bitops ext)) 4 ?heap ?nr 4095 ?bm 0 = Some (Inr (Some 0, bm))"
    using genpool_algo.alloc_retry_first [OF bitmap_search.first_fit_algo [OF search], of 4095 ?bm ?nr ?s 0 4 ?heap] nr s by auto
  moreover have "\<not> sz > GUEST_HEAP_USABLE_SIZE" using assms(4) by (simp add: GUEST_HEAP_USABLE_SIZE_def word_less_nat_alt)
  moreover have "drop_bit 4 (GUEST_HEAP_USABLE_SIZE :: u64) = 4095" by (simp add: GUEST_HEAP_USABLE_SIZE_def)
  ultimately show ?thesis
    using h assms(3) unfolding pool
    by (simp add: gen_pool_dma_alloc_def gen_pool_dma_alloc_algo_def gen_pool_alloc_algo_owner_def guest_heap_pool_def
        gen_pool_add_owner_def chunk_size_def Let_def)
qed

text \<open>A host that accepts the queries for mode hints and cursor reports, and leaves everything else as it is.\<close>
definition hint_host :: host where
  "hint_host offset m =
     (let buf = 0x80000000 + ucast offset + 16
      in if rd32 m buf = VBOX_VBVA_CONF32_MODE_HINT_REPORTING \<or> rd32 m buf = VBOX_VBVA_CONF32_GUEST_CURSOR_REPORTING
         then wr32 (buf + 4) VINF_SUCCESS m else m)"

lemma demo_heap_shape:
  "managed (guest_heap_pool demo_ext 0x80FF0000) = {0x80FF0000 ..< 0x80FFFFF0}"
  "allocated (guest_heap_pool demo_ext 0x80FF0000) = {}"
  "i < 65520 \<Longrightarrow> gen_pool_virt_to_phys (guest_heap_pool demo_ext 0x80FF0000) (0x80FF0000 + of_nat i) = of_nat (0xFF0000 + i)"
  using guest_heap_pool_shape [where ext = demo_ext and heap = "0x80FF0000"] by (simp_all add: demo_ext_def)

text \<open>The buffer that the host finds at an offset is the one behind the header at that address.\<close>
lemma demo_offset:
  assumes "unat h \<in> managed (guest_heap_pool demo_ext 0x80FF0000)"
  shows "(0x80000000 + ucast (ucast (gen_pool_virt_to_phys (guest_heap_pool demo_ext 0x80FF0000) h) :: u32) :: u64) = h"
proof -
  let ?i = "unat h - 0x80FF0000"
  have i: "?i < 65520" "0x80FF0000 \<le> unat h" using assms unfolding demo_heap_shape by auto
  have h: "h = 0x80FF0000 + of_nat ?i" using i(2) by (simp add: of_nat_diff)
  have "unat (ucast (of_nat (0xFF0000 + ?i) :: u64) :: u32) = 0xFF0000 + ?i"
  proof -
    have "unat (of_nat (0xFF0000 + ?i) :: u64) = 0xFF0000 + ?i"
      using i(1) by (simp only: unat_of_nat) (simp add: take_bit_nat_eq_self)
    then show ?thesis using i(1) by (simp only: unsigned_ucast_eq) (simp add: take_bit_nat_eq_self)
  qed
  then have "(ucast (ucast (of_nat (0xFF0000 + ?i) :: u64) :: u32) :: u64) = of_nat (0xFF0000 + ?i)"
    unfolding ucast_of_unat [of "ucast (of_nat (0xFF0000 + ?i) :: u64)"] by argo
  moreover have "gen_pool_virt_to_phys (guest_heap_pool demo_ext 0x80FF0000) h = of_nat (0xFF0000 + ?i)"
    by (subst h) (rule demo_heap_shape(3) [OF i(1)])
  ultimately have "(0x80000000 + ucast (ucast (gen_pool_virt_to_phys (guest_heap_pool demo_ext 0x80FF0000) h) :: u32) :: u64) =
      0x80000000 + of_nat (0xFF0000 + ?i)" by simp
  also have "\<dots> = h" by (subst (2) h) simp
  finally show ?thesis .
qed

lemma hint_platform: "vbox_platform hint_host demo_ext"
proof -
  have "host_keeps_headers hint_host (guest_heap_pool demo_ext 0x80FF0000)"
    unfolding host_keeps_headers_def
  proof (intro allI impI)
    fix h m x
    assume a: "unat h \<in> managed (guest_heap_pool demo_ext 0x80FF0000) \<and> x \<in> addrs h 16"
    have "addrs (h + of_nat 0) 16 \<inter> addrs (h + of_nat 20) 4 = {}" by (rule addrs_disjoint) simp_all
    moreover have "h + 16 + 4 = h + of_nat 20" by simp
    ultimately have "x \<notin> addrs (h + 16 + 4) (length (le32 VINF_SUCCESS))" using a by (simp only: length_le) auto
    then show "hint_host (ucast (gen_pool_virt_to_phys (guest_heap_pool demo_ext 0x80FF0000) h)) m x = m x"
      using a by (simp add: hint_host_def demo_offset wr32_def store_bytes_outside Let_def)
  qed
  then show ?thesis
    using scan.bitmap_search_axioms by (auto simp: vbox_platform_def demo_ext_def GUEST_HEAP_SIZE_def)
qed

lemma call_allocates:
  assumes "gen_pool_dma_alloc (sz + 16 + 8) (g_pool g) = Some (Inr (Some h, Some p))"
  shows "hgsmi_call hst sz channel channel_info fs answer g \<noteq> Some (Inr (None, g'))"
  using assms
  by (cases h) (auto simp: hgsmi_call_def hgsmi_buffer_alloc_def hg_bind_def hg_return_def Let_def split: option.splits sum.splits)

text \<open>The queries that the start makes of this host.\<close>
lemma hint_query:
  assumes "heap_started demo_ext st"
  shows "ends (hgsmi_query_conf hint_host index) (vs_guest st) (\<lambda>r g'. g_pool g' = g_pool (vs_guest st) \<and>
    r = Inr (if index = 2 \<or> index = 3 then VINF_SUCCESS else U32_MAX))"
proof -
  let ?g = "vs_guest st"
  have pool: "g_pool ?g = guest_heap_pool demo_ext 0x80FF0000" using assms by (auto simp: heap_started_def demo_ext_def GUEST_HEAP_SIZE_def)
  have ok: "guest_ok hint_host ?g"
    by (rule guest_heap_pool_ok [OF hint_platform, where heap = "0x80FF0000"])
       (simp_all add: pool demo_ext_def GUEST_HEAP_SIZE_def)
  have "hgsmi_query_conf hint_host index ?g \<noteq> Some (Inr (Inl ENOMEM, ?g))"
  proof -
    obtain h p where "gen_pool_dma_alloc (8 + 16 + 8) (g_pool ?g) = Some (Inr (Some h, Some p))"
      using fresh_heap_alloc [OF hint_platform assms, of "8 + 16 + 8"] by auto
    then have "hgsmi_call hint_host 8 HGSMI_CH_VBVA VBVA_QUERY_CONF32 [(0, le32 index), (4, le32 U32_MAX)]
        (\<lambda>m p. rd32 m (p + 4)) ?g \<noteq> Some (Inr (None, ?g))" by (rule call_allocates)
    then show ?thesis by (auto simp: hgsmi_query_conf_def hgsmi_done_def hg_bind_def hg_return_def split: option.splits sum.splits)
  qed
  with hgsmi_query_conf_answer [OF ok, of index] obtain buf m g' where
    sent: "command_sent hint_host 8 HGSMI_CH_VBVA VBVA_QUERY_CONF32 [(0, le32 index), (4, le32 U32_MAX)] buf m ?g g'"
    and q: "hgsmi_query_conf hint_host index ?g = Some (Inr (Inr (rd32 (g_mem g') (buf + 4)), g'))" by blast
  let ?h = "buf - 16"
  have c: "unat ?h \<in> managed (guest_heap_pool demo_ext 0x80FF0000)" "load_bytes m buf 4 = le32 index"
    "load_bytes m (buf + 4) 4 = le32 U32_MAX"
    "g_mem g' = hint_host (ucast (gen_pool_virt_to_phys (guest_heap_pool demo_ext 0x80FF0000) ?h)) m"
    using sent pool by (auto simp: command_sent_def Let_def subset_eq)
  have "0x80000000 + ucast (ucast (gen_pool_virt_to_phys (guest_heap_pool demo_ext 0x80FF0000) ?h) :: u32) + 16 = buf"
    using demo_offset [OF c(1)] by simp
  then have "rd32 (g_mem g') (buf + 4) = (if index = 2 \<or> index = 3 then VINF_SUCCESS else U32_MAX)"
    using c(2,3) of_le32 [of index] of_le32 [of U32_MAX] unfolding c(4) hint_host_def
    by (simp add: rd32_def VBOX_VBVA_CONF32_MODE_HINT_REPORTING_def VBOX_VBVA_CONF32_GUEST_CURSOR_REPORTING_def Let_def)
       (simp add: rd32_wr32 [unfolded rd32_def])
  then show ?thesis using q command_sent_pool [OF sent] by (simp add: ends_def)
qed

definition started :: "vbox_private \<Rightarrow> vbox_state \<Rightarrow> bool" where
  "started v st \<longleftrightarrow> heap_started demo_ext st \<and> vs_vbox st = v"

lemma hint_query_bind:
  assumes "started v st"
    and "\<And>st'. started v st' \<Longrightarrow>
      ends (hg_bind (on_guest (k (Inr (if index = 2 \<or> index = 3 then VINF_SUCCESS else U32_MAX)))) k') st' Q"
  shows "ends (hg_bind (on_guest (hg_bind (hgsmi_query_conf hint_host index) k)) k') st Q"
proof -
  have s: "heap_started demo_ext st" "vs_vbox st = v" using assms(1) by (simp_all add: started_def)
  show ?thesis
    unfolding ends_bind ends_on_guest
  proof (rule ends_mono [OF hint_query [OF s(1)]])
    fix r :: "u32 result" and g' :: guest
    assume g: "g_pool g' = g_pool (vs_guest st) \<and> r = Inr (if index = 2 \<or> index = 3 then VINF_SUCCESS else U32_MAX)"
    then have "started v (st\<lparr>vs_guest := g'\<rparr>)" using s by (simp add: started_def heap_started_def)
    from assms(2) [OF this] g show "ends (k r) g' (\<lambda>x g'. ends (k' x) (st\<lparr>vs_guest := g'\<rparr>) Q)" by simp
  qed
qed

lemma hg_bind_return: "hg_bind f hg_return = f"
  by (rule ext) (auto simp: hg_bind_def hg_return_def split: option.split sum.split)

text \<open>The command buffers of this start.\<close>
lemma hint_accel:
  assumes "started v st" and "unat (num_crtcs v) \<le> 32"
  shows "ends (vbox_accel_init hint_host demo_ext) st (\<lambda>r st'. r = Inr ())"
proof -
  let ?n = "num_crtcs v"
  have s: "heap_started demo_ext st" "vs_vbox st = v" using assms(1) by (simp_all add: started_def)
  have ok: "guest_ok hint_host (vs_guest st)"
    by (rule guest_heap_pool_ok [OF hint_platform, where heap = "guest_heap (vs_vbox st)"]) (use s(1) in \<open>simp_all add: heap_started_def\<close>)
  have map: "\<exists>addr p'. pcim_iomap_range demo_ext off len p = (Inr addr, p')" for off len p
    by (simp add: pcim_iomap_range_def devm_add_action_or_reset_def demo_ext_def)
  have "ends (hw_try (on_pci (pcim_iomap_range demo_ext off len)) (\<lambda>buffers.
       hg_bind (upd_vbox (vbva_buffers_update (\<lambda>_. buffers))) (\<lambda>_.
       hg_bind (on_guest (accel_init_loop hint_host vram buffers 0 cs0)) (\<lambda>cs.
       hg_bind (upd_vbox (vbva_info_update (\<lambda>_. cs))) (\<lambda>_. hg_return (Inr ()))))))
     (st\<lparr>vs_vbox := v'\<rparr>) (\<lambda>r st'. r = Inr ())" for off len vram cs0 v'
  proof -
    obtain addr p' where "pcim_iomap_range demo_ext off len (vs_pci st) = (Inr addr, p')" using map by blast
    then show ?thesis
      unfolding ends_try ends_on_pci by (simp add: ends_mono [OF accel_init_loop_ends [OF ok]])
  qed
  then show ?thesis
    by (simp add: ends_def vbox_accel_init_def demo_ext_def Let_def)
qed

text \<open>The part of the start that talks to the host.\<close>
lemma hint_rest:
  assumes "started v st"
  shows "ends (hw_try (on_guest (hgsmi_test_query_conf hint_host)) (\<lambda>_.
     hg_bind (upd_vbox (\<lambda>v. v\<lparr>available_vram_size := GUEST_HEAP_OFFSET v\<rparr>)) (\<lambda>_.
     hg_bind (on_guest (hgsmi_query_conf hint_host VBOX_VBVA_CONF32_MONITOR_COUNT)) (\<lambda>r.
     hg_bind (upd_vbox (num_crtcs_update (\<lambda>n. clamp_screens (case r of Inl _ \<Rightarrow> n | Inr c \<Rightarrow> c)))) (\<lambda>_.
     hg_bind (on_guest (have_hgsmi_mode_hints hint_host)) (\<lambda>hints.
     if \<not> hints then hg_return (Inl ENOTSUPP)
     else if \<not> x_hints demo_ext then hg_return (Inl ENOMEM)
     else hg_bind (upd_vbox (\<lambda>v. v\<lparr>last_mode_hints := replicate (unat (num_crtcs v)) zero_hint\<rparr>)) (\<lambda>_.
          vbox_accel_init hint_host demo_ext))))))) st (\<lambda>r st'. r = Inr ())"
proof -
  have upd: "started (f v) (st\<lparr>vs_vbox := f (vs_vbox st)\<rparr>)"
    if "started v st" "guest_heap (f v) = guest_heap v" "full_vram_size (f v) = full_vram_size v" for f v st
    using that by (auto simp: started_def heap_started_def)
  have accel: "ends (hg_bind (upd_vbox (\<lambda>v. v\<lparr>last_mode_hints := h v\<rparr>)) (\<lambda>_. vbox_accel_init hint_host demo_ext)) st (\<lambda>r st'. r = Inr ())"
    if "started v st" "unat (num_crtcs v) \<le> 32" for h v st
    by (rule ends_upd_bind, rule hint_accel, rule upd [OF that(1)]) (use that(2) in simp_all)
  have hints: "ends (hg_bind (on_guest (have_hgsmi_mode_hints hint_host)) (\<lambda>hints.
     if \<not> hints then hg_return (Inl ENOTSUPP)
     else if \<not> x_hints demo_ext then hg_return (Inl ENOMEM)
     else hg_bind (upd_vbox (\<lambda>v. v\<lparr>last_mode_hints := h v\<rparr>)) (\<lambda>_.
          vbox_accel_init hint_host demo_ext))) st (\<lambda>r st'. r = Inr ())"
    if "started v st" "unat (num_crtcs v) \<le> 32" for h v st
    unfolding have_hgsmi_mode_hints_def VBOX_VBVA_CONF32_MODE_HINT_REPORTING_def VBOX_VBVA_CONF32_GUEST_CURSOR_REPORTING_def
  proof (rule hint_query_bind [OF that(1)], unfold sum.case, rule hint_query_bind, assumption)
    fix st' assume "started v st'"
    from accel [OF this that(2), of h] show "ends (hg_bind (on_guest (case Inr (if (3::u32) = 2 \<or> (3::u32) = 3 then VINF_SUCCESS else U32_MAX) of
        Inl x \<Rightarrow> hg_return False | Inr have_cursor \<Rightarrow>
          hg_return ((if (2::u32) = 2 \<or> (2::u32) = 3 then VINF_SUCCESS else U32_MAX) = VINF_SUCCESS \<and> have_cursor = VINF_SUCCESS))) (\<lambda>hints.
     if \<not> hints then hg_return (Inl ENOTSUPP)
     else if \<not> x_hints demo_ext then hg_return (Inl ENOMEM)
     else hg_bind (upd_vbox (\<lambda>v. v\<lparr>last_mode_hints := h v\<rparr>)) (\<lambda>_.
          vbox_accel_init hint_host demo_ext))) st' (\<lambda>r st'. r = Inr ())"
      by (simp add: demo_ext_def)
  qed
  have count: "ends (hg_bind (on_guest (hgsmi_query_conf hint_host VBOX_VBVA_CONF32_MONITOR_COUNT)) (\<lambda>r.
     hg_bind (upd_vbox (num_crtcs_update (\<lambda>n. clamp_screens (case r of Inl _ \<Rightarrow> n | Inr c \<Rightarrow> c)))) (\<lambda>_.
     hg_bind (on_guest (have_hgsmi_mode_hints hint_host)) (\<lambda>hints.
     if \<not> hints then hg_return (Inl ENOTSUPP)
     else if \<not> x_hints demo_ext then hg_return (Inl ENOMEM)
     else hg_bind (upd_vbox (\<lambda>v. v\<lparr>last_mode_hints := replicate (unat (num_crtcs v)) zero_hint\<rparr>)) (\<lambda>_.
          vbox_accel_init hint_host demo_ext))))) st (\<lambda>r st'. r = Inr ())" if "started v st" for v st
    unfolding VBOX_VBVA_CONF32_MONITOR_COUNT_def
    by (subst hg_bind_return [symmetric, of "hgsmi_query_conf hint_host 0"], rule hint_query_bind [OF that],
        unfold ends_bind [of "on_guest (hg_return x)" for x] ends_on_guest ends_return, rule ends_upd_bind, rule hints,
        rule upd) (simp_all add: clamp_screens_range [simplified])
  have neq: "(U32_MAX = 2 \<or> U32_MAX = 3) = False" by (simp add: U32_MAX_def)
  have same: "st\<lparr>vs_guest := vs_guest st\<rparr> = st" for st :: vbox_state by simp
  show ?thesis
    unfolding hw_try_def hgsmi_test_query_conf_def
    by (rule hint_query_bind [OF assms], unfold ends_bind [of "on_guest (hg_return x)" for x] ends_on_guest ends_return)
       (simp only: neq sum.case if_True if_False refl same, rule ends_upd_bind, rule count, rule upd, simp_all)
qed

lemma hint_start: "ends (vbox_hw_init hint_host demo_ext) demo_vbox (\<lambda>r st'. r = Inr ())"
proof -
  have start: "ends (hg_bind (upd_vbox (full_vram_size_update (\<lambda>_. x_inl demo_ext))) (\<lambda>_.
     hg_bind (on_guest (vbox_check_supported demo_ext VBE_DISPI_ID_ANYX)) (\<lambda>any.
     hg_bind (upd_vbox (any_pitch_update (\<lambda>_. any))) (\<lambda>_.
     hw_try (on_pci (pcim_request_region demo_ext 0)) (\<lambda>_.
     hw_try (map_guest_heap demo_ext) (\<lambda>heap. hg_bind (upd_vbox (guest_heap_update (\<lambda>_. heap))) (\<lambda>_.
     hw_try (create_guest_pool demo_ext) (\<lambda>_. k)))))))) demo_vbox Q"
    if "\<And>st. heap_started demo_ext st \<Longrightarrow> ends k st Q" for k Q
  proof -
    have pool: "ends (hw_try (create_guest_pool demo_ext) (\<lambda>_. k)) st Q"
      if "guest_heap (vs_vbox st) = 0x80FF0000" "full_vram_size (vs_vbox st) = x_inl demo_ext" "vs_pools st = []" for st
    proof -
      have "ends (create_guest_pool demo_ext) st (\<lambda>r st'. r = Inr () \<and> heap_started demo_ext st')"
        using that
        by (auto simp: heap_started_def ends_def create_guest_pool_def devm_gen_pool_create_def gen_pool_create_def
            gen_pool_add_owner_def gen_pool_get_def guest_heap_pool_def GUEST_HEAP_OFFSET_def GUEST_HEAP_SIZE_def demo_ext_def Let_def)
      then show ?thesis unfolding ends_try by (rule ends_mono) (auto intro: \<open>\<And>st. heap_started demo_ext st \<Longrightarrow> ends k st Q\<close>)
    qed
    show ?thesis
      unfolding ends_bind ends_try [of "on_pci f" for f] ends_try [of "map_guest_heap demo_ext"] ends_map_guest_heap
        ends_on_guest ends_upd_vbox vbox_check_supported_ends ends_on_pci
      by (simp add: pcim_request_region_def pcim_iomap_range_def devm_add_action_or_reset_def demo_ext_def GUEST_HEAP_SIZE_def
          pool [unfolded demo_ext_def] demo_vbox_def)
  qed
  show ?thesis
    unfolding vbox_hw_init_def
    by (rule start) (rule hint_rest, simp add: started_def)
qed

theorem vbox_hw_init_layout_witness:
  "\<exists>st. vbox_hw_init hint_host demo_ext demo_vbox = Some (Inr (Inr (), st)) \<and> vram_layout demo_ext st"
  using vbox_hw_init_layout [OF hint_platform, of demo_vbox] hint_start by (auto simp: ends_def)

end
