(* ===== verification/Vbox_Irq.thy ===== *)
theory Vbox_Irq
  imports Vbox_Hw_Laws
begin

text \<open>
  Interrupts and mode hints of the VirtualBox adapter (\<^verbatim>\<open>drivers/gpu/drm/vboxvideo/vbox_irq.c\<close>): the handler
  that acknowledges the host, the worker that asks the host for its wishes and brings connectors
  and CRTCs into line with them, and the check of the positions the host suggests. The locks the
  code takes are not modelled: one operation runs at a time.
\<close>

subsection \<open>State\<close>

record vbox_crtc =
  disconnected :: bool
  crtc_id :: u32
  fb_offset :: u32
  cursor_enabled :: bool
  x_hint :: u32
  y_hint :: u32
  cr_width :: u32
  cr_height :: u32
  cr_x :: u32
  cr_y :: u32

text \<open>\<open>conn_crtc\<close> is the position of the connector's CRTC in the list of CRTCs.\<close>
record vbox_connector =
  conn_crtc :: nat
  hint_width :: u32
  hint_height :: u32
  hint_disconnected :: bool

text \<open>
  The device with its CRTCs and connectors, in the order of the lists of the mode configuration,
  whether the hot-plug work is pending, how many hot-plug events were sent and whether the
  interrupt is ours; then the state of \<^verbatim>\<open>vbox_mode.c\<close>.
\<close>
record vbox_dev = vbox_state +
  crtc_list :: "vbox_crtc list"
  connector_list :: "vbox_connector list"
  hotplug_work :: bool
  hotplug_events :: nat
  irq_requested :: bool
  input_mapping_width :: u32
  input_mapping_height :: u32
  single_framebuffer :: bool
  cursor_data :: "u8 list"

datatype irqreturn = IRQ_NONE | IRQ_HANDLED

subsection \<open>The handler\<close>

definition VGA_PORT_HGSMI_HOST :: u16 where "VGA_PORT_HGSMI_HOST = 0x3b0"
definition HOST_FLAGS_OFFSET :: u64 where "HOST_FLAGS_OFFSET = GUEST_HEAP_USABLE_SIZE"
definition HGSMIHOSTFLAGS_IRQ :: u32 where "HGSMIHOSTFLAGS_IRQ = 2"
definition HGSMIHOSTFLAGS_VSYNC :: u32 where "HGSMIHOSTFLAGS_VSYNC = 0x10"
definition HGSMIHOSTFLAGS_HOTPLUG :: u32 where "HGSMIHOSTFLAGS_HOTPLUG = 0x20"
definition HGSMIHOSTFLAGS_CURSOR_CAPABILITIES :: u32 where "HGSMIHOSTFLAGS_CURSOR_CAPABILITIES = 0x40"
definition VBVAMODEHINT_MAGIC :: u32 where "VBVAMODEHINT_MAGIC = 0x0801add9"
definition VBVA_SCREEN_F_ACTIVE :: u16 where "VBVA_SCREEN_F_ACTIVE = 1"
definition VBVA_SCREEN_F_DISABLED :: u16 where "VBVA_SCREEN_F_DISABLED = 2"
definition VBVA_SCREEN_F_BLANK :: u16 where "VBVA_SCREEN_F_BLANK = 4"

definition vbox_clear_irq :: "vbox_dev \<Rightarrow> vbox_dev" where
  "vbox_clear_irq st =
     st\<lparr>vs_guest := (vs_guest st)\<lparr>g_out := g_out (vs_guest st) @ [(VGA_PORT_HGSMI_HOST, NOT 0)]\<rparr>\<rparr>"

definition vbox_get_flags :: "vbox_dev \<Rightarrow> u32" where
  "vbox_get_flags st = rd32 (g_mem (vs_guest st)) (guest_heap (vs_vbox st) + HOST_FLAGS_OFFSET)"

definition vbox_report_hotplug :: "vbox_dev \<Rightarrow> vbox_dev" where
  "vbox_report_hotplug st = st\<lparr>hotplug_work := True\<rparr>"

definition vbox_irq_handler :: "vbox_dev \<Rightarrow> irqreturn \<times> vbox_dev" where
  "vbox_irq_handler st =
     (let host_flags = vbox_get_flags st
      in if host_flags AND HGSMIHOSTFLAGS_IRQ = 0 then (IRQ_NONE, st)
         else (let st1 = (if host_flags AND (HGSMIHOSTFLAGS_HOTPLUG OR HGSMIHOSTFLAGS_CURSOR_CAPABILITIES) \<noteq> 0 \<and>
                             host_flags AND HGSMIHOSTFLAGS_VSYNC = 0
                          then vbox_report_hotplug st else st)
               in (IRQ_HANDLED, vbox_clear_irq st1)))"

subsection \<open>Position hints\<close>

text \<open>The test of the inner loop, for screens \<open>i\<close> and \<open>j\<close>; the sums are of 32 bits.\<close>
definition hints_clash :: "vbva_modehint \<Rightarrow> vbva_modehint \<Rightarrow> bool" where
  "hints_clash hi hj \<longleftrightarrow>
     mh_enabled hi \<noteq> 0 \<and> mh_enabled hj \<noteq> 0 \<and>
     (mh_dx hi \<ge> 0xffff \<or> mh_dy hi \<ge> 0xffff \<or> mh_dx hj \<ge> 0xffff \<or> mh_dy hj \<ge> 0xffff \<or>
      (mh_dx hi < mh_dx hj + (mh_cx hj AND 0x8fff) \<and> mh_dx hi + (mh_cx hi AND 0x8fff) > mh_dx hj) \<or>
      (mh_dy hi < mh_dy hj + (mh_cy hj AND 0x8fff) \<and> mh_dy hi + (mh_cy hi AND 0x8fff) > mh_dy hj))"

definition hints_valid :: "vbva_modehint list \<Rightarrow> bool" where
  "hints_valid hs \<longleftrightarrow> list_all (\<lambda>i. list_all (\<lambda>j. \<not> hints_clash (hs ! i) (hs ! j)) [0..<i]) [0..<length hs]"

primrec default_hints :: "u16 \<Rightarrow> vbva_modehint list \<Rightarrow> vbva_modehint list" where
  "default_hints currentx [] = []"
| "default_hints currentx (h # hs) =
     (if mh_enabled h \<noteq> 0
      then h\<lparr>mh_dx := ucast currentx, mh_dy := 0\<rparr> # default_hints (currentx + ucast (mh_cx h AND 0x8fff)) hs
      else h # default_hints currentx hs)"

text \<open>\<open>last_mode_hints\<close> has \<open>num_crtcs\<close> entries.\<close>
definition validate_or_set_position_hints :: "vbva_modehint list \<Rightarrow> vbva_modehint list" where
  "validate_or_set_position_hints hs = (if hints_valid hs then hs else default_hints 0 hs)"

subsection \<open>Mode hints\<close>

definition upd_crtc :: "nat \<Rightarrow> (vbox_crtc \<Rightarrow> vbox_crtc) \<Rightarrow> vbox_dev \<Rightarrow> vbox_dev" where
  "upd_crtc k f st = st\<lparr>crtc_list := (crtc_list st)[k := f (crtc_list st ! k)]\<rparr>"

definition upd_connector :: "nat \<Rightarrow> (vbox_connector \<Rightarrow> vbox_connector) \<Rightarrow> vbox_dev \<Rightarrow> vbox_dev" where
  "upd_connector n f st = st\<lparr>connector_list := (connector_list st)[n := f (connector_list st ! n)]\<rparr>"

text \<open>
  The body of the loop over the connectors, for connector \<open>n\<close>. A CRTC has its own number, which is
  below \<open>num_crtcs\<close>, so that the read of the hints is inside the array.
\<close>
definition update_connector :: "host \<Rightarrow> nat \<Rightarrow> (vbox_dev, unit) call" where
  "update_connector hst n st =
     (let conn = connector_list st ! n; k = conn_crtc conn; crtc = crtc_list st ! k;
          hints = last_mode_hints (vs_vbox st) ! unat (crtc_id crtc)
      in if mh_magic hints \<noteq> VBVAMODEHINT_MAGIC then hg_return () st
         else (let gone = (mh_enabled hints = 0);
                   st1 = upd_crtc k (\<lambda>c. c\<lparr>x_hint := mh_dx hints, y_hint := mh_dy hints\<rparr>)
                          (upd_connector n (\<lambda>c. c\<lparr>hint_width := mh_cx hints, hint_height := mh_cy hints,
                                                  hint_disconnected := gone\<rparr>) st)
               in if disconnected crtc = gone then hg_return () st1
                  else hg_bind (on_guest (hgsmi_process_display_info hst (crtc_id crtc) 0 0 0
                          (mh_cx hints * 4) (mh_cx hints) (mh_cy hints) 0
                          (VBVA_SCREEN_F_ACTIVE OR (if gone then VBVA_SCREEN_F_DISABLED else VBVA_SCREEN_F_BLANK))))
                        (\<lambda>_ st2. hg_return () (upd_crtc k (\<lambda>c. c\<lparr>disconnected := gone\<rparr>) st2)) st1))"

primrec update_connectors :: "host \<Rightarrow> nat list \<Rightarrow> (vbox_dev, unit) call" where
  "update_connectors hst [] = hg_return ()"
| "update_connectors hst (n # ns) = hg_bind (update_connector hst n) (\<lambda>_. update_connectors hst ns)"

definition vbox_update_mode_hints :: "host \<Rightarrow> (vbox_dev, unit) call" where
  "vbox_update_mode_hints hst st =
     hg_bind (on_guest (hgsmi_get_mode_hints hst (num_crtcs (vs_vbox st)) True)) (\<lambda>r.
       case r of
         Inl e \<Rightarrow> hg_return ()
       | Inr hs \<Rightarrow>
          hg_bind (upd_vbox (last_mode_hints_update (\<lambda>_. validate_or_set_position_hints hs))) (\<lambda>_.
            update_connectors hst [0..<length (connector_list st)])) st"

text \<open>The worker clears its pending bit, as the work queue does, before it runs.\<close>
definition vbox_hotplug_worker :: "host \<Rightarrow> (vbox_dev, unit) call" where
  "vbox_hotplug_worker hst st =
     hg_bind (vbox_update_mode_hints hst)
       (\<lambda>_ st'. hg_return () (st'\<lparr>hotplug_events := Suc (hotplug_events st')\<rparr>)) (st\<lparr>hotplug_work := False\<rparr>)"

text \<open>\<open>res\<close> is the result of \<open>request_irq\<close>.\<close>
definition vbox_irq_init :: "host \<Rightarrow> unit result \<Rightarrow> (vbox_dev, unit result) call" where
  "vbox_irq_init hst res st =
     hg_bind (vbox_update_mode_hints hst)
       (\<lambda>_ st'. hg_return res (st'\<lparr>irq_requested := \<not> isl res\<rparr>)) (st\<lparr>hotplug_work := False\<rparr>)"

text \<open>After the interrupt is freed, \<open>flush_work\<close> runs the worker if it is still pending.\<close>
definition vbox_irq_fini :: "host \<Rightarrow> (vbox_dev, unit) call" where
  "vbox_irq_fini hst st =
     (let st1 = st\<lparr>irq_requested := False\<rparr>
      in if hotplug_work st1 then vbox_hotplug_worker hst st1 else hg_return () st1)"

subsection \<open>Positions\<close>

text \<open>The columns a screen covers.\<close>
definition columns :: "vbva_modehint \<Rightarrow> nat set" where
  "columns h = {unat (mh_dx h) ..< unat (mh_dx h) + unat (mh_cx h)}"

definition screens_apart :: "vbva_modehint list \<Rightarrow> bool" where
  "screens_apart hs \<longleftrightarrow> (\<forall>i < length hs. \<forall>j < length hs. i \<noteq> j \<and> mh_enabled (hs ! i) \<noteq> 0 \<and> mh_enabled (hs ! j) \<noteq> 0 \<longrightarrow>
     columns (hs ! i) \<inter> columns (hs ! j) = {})"

text \<open>What the function may change of a hint: the position of an enabled screen.\<close>
definition same_screen :: "vbva_modehint \<Rightarrow> vbva_modehint \<Rightarrow> bool" where
  "same_screen h h' \<longleftrightarrow> h'\<lparr>mh_dx := mh_dx h, mh_dy := mh_dy h\<rparr> = h \<and> (mh_enabled h = 0 \<longrightarrow> h' = h)"

primrec total_width :: "vbva_modehint list \<Rightarrow> nat" where
  "total_width [] = 0"
| "total_width (h # hs) = (if mh_enabled h \<noteq> 0 then unat (mh_cx h) else 0) + total_width hs"

lemma mask_small: "(x :: u32) < 0x1000 \<Longrightarrow> x AND 0x8fff = x"
proof -
  assume "x < 0x1000"
  then have "unat (take_bit 12 x) = unat x"
    by (simp add: word_less_nat_alt unsigned_take_bit_eq take_bit_nat_eq_self)
  then have x: "x = x AND mask 12" by (simp add: word_unat_eq_iff flip: take_bit_eq_mask)
  have "x AND 0x8fff = x AND (mask 12 AND 0x8fff)" by (subst x) (simp only: and.assoc)
  also have "mask 12 AND 0x8fff = (mask 12 :: u32)" by (simp add: mask_eq_exp_minus_1)
  finally show ?thesis using x by simp
qed

lemma default_hints_same: "list_all2 same_screen hs (default_hints c hs)"
  by (induction hs arbitrary: c) (auto simp: same_screen_def list_all2_same)

lemma default_hints_length [simp]: "length (default_hints c hs) = length hs"
  by (induction hs arbitrary: c) auto

lemma default_hints_order:
  assumes "\<forall>h \<in> set hs. mh_enabled h \<noteq> 0 \<longrightarrow> mh_cx h < 0x1000" and "unat c + total_width hs < 65536"
  shows "(\<forall>i < length hs. mh_enabled (default_hints c hs ! i) \<noteq> 0 \<longrightarrow> unat c \<le> unat (mh_dx (default_hints c hs ! i))) \<and>
    (\<forall>j < length hs. \<forall>i < j. mh_enabled (default_hints c hs ! i) \<noteq> 0 \<and> mh_enabled (default_hints c hs ! j) \<noteq> 0 \<longrightarrow>
       unat (mh_dx (default_hints c hs ! i)) + unat (mh_cx (default_hints c hs ! i)) \<le> unat (mh_dx (default_hints c hs ! j)))"
  using assms
proof (induction hs arbitrary: c)
  case Nil
  then show ?case by simp
next
  case (Cons h hs)
  show ?case
  proof (cases "mh_enabled h = 0")
    case True
    then show ?thesis using Cons.IH [of c] Cons.prems by (simp add: nth_Cons split: nat.split)
  next
    case False
    let ?c = "c + ucast (mh_cx h AND 0x8fff)"
    have cx: "mh_cx h AND 0x8fff = mh_cx h" using Cons.prems(1) False by (simp add: mask_small)
    have "unat (ucast (mh_cx h) :: u16) = unat (mh_cx h)"
      using Cons.prems(2) False by (simp add: unsigned_ucast_eq take_bit_nat_eq_self)
    then have c: "unat ?c = unat c + unat (mh_cx h)"
      using Cons.prems(2) False cx by (subst unat_add_small) simp_all
    have dx: "unat (ucast c :: u32) = unat c" using unsigned_less [of c, where ?'a = nat] by (simp add: unsigned_ucast_eq take_bit_nat_eq_self)
    show ?thesis using Cons.IH [of ?c] Cons.prems False c dx by (auto simp: nth_Cons split: nat.split)
  qed
qed

lemma clash_spans:
  assumes "\<not> hints_clash hi hj" and "mh_enabled hi \<noteq> 0" and "mh_enabled hj \<noteq> 0" and "mh_cx hi < 0x1000" and "mh_cx hj < 0x1000"
  shows "columns hi \<inter> columns hj = {}"
proof -
  have lt: "unat (mh_dx hi) < 0xffff" "unat (mh_dx hj) < 0xffff" "unat (mh_cx hi) < 0x1000" "unat (mh_cx hj) < 0x1000"
    using assms by (auto simp: hints_clash_def word_le_nat_alt word_less_nat_alt)
  then have "unat (mh_dx hi + mh_cx hi) = unat (mh_dx hi) + unat (mh_cx hi)"
    "unat (mh_dx hj + mh_cx hj) = unat (mh_dx hj) + unat (mh_cx hj)" by (auto intro!: unat_add_small)
  then show ?thesis using assms
    by (auto simp: hints_clash_def columns_def mask_small word_le_nat_alt word_less_nat_alt)
qed

lemma screens_apartI:
  assumes "\<And>i j. i < length hs \<Longrightarrow> j < i \<Longrightarrow> mh_enabled (hs ! i) \<noteq> 0 \<Longrightarrow> mh_enabled (hs ! j) \<noteq> 0 \<Longrightarrow>
    columns (hs ! i) \<inter> columns (hs ! j) = {}"
  shows "screens_apart hs"
  unfolding screens_apart_def using assms by (metis Int_commute linorder_neqE_nat)

lemma validate_apart:
  assumes "\<forall>h \<in> set hs. mh_enabled h \<noteq> 0 \<longrightarrow> mh_cx h < 0x1000" and "total_width hs < 65536"
  shows "screens_apart (validate_or_set_position_hints hs)"
proof (cases "hints_valid hs")
  case True
  then have "screens_apart hs"
    using assms(1) by (intro screens_apartI clash_spans) (auto simp: hints_valid_def list_all_iff)
  then show ?thesis using True by (simp add: validate_or_set_position_hints_def)
next
  case False
  have "screens_apart (default_hints 0 hs)"
    using default_hints_order [OF assms(1), of 0] assms(2)
    by (intro screens_apartI) (fastforce simp: columns_def)
  then show ?thesis using False by (simp add: validate_or_set_position_hints_def)
qed

text \<open>
  After the position hints are validated the enabled screens are apart: no column belongs to two
  of them, provided each is narrower than 4096 pixels and together they are narrower than 65536.
  Nothing but the position of an enabled screen is changed.
\<close>
theorem position_hints_apart:
  assumes "\<forall>h \<in> set hs. mh_enabled h \<noteq> 0 \<longrightarrow> mh_cx h < 0x1000" and "total_width hs < 65536"
  shows "screens_apart (validate_or_set_position_hints hs) \<and> list_all2 same_screen hs (validate_or_set_position_hints hs)"
  using validate_apart [OF assms] default_hints_same
  by (simp add: validate_or_set_position_hints_def same_screen_def list_all2_same)

text \<open>
  Two enabled screens that start on the same row are never accepted, even when the host
  placed them side by side: the rows alone make them clash.
\<close>
lemma same_row_replaced:
  assumes "i < length hs" and "j < i" and "mh_enabled (hs ! i) \<noteq> 0" and "mh_enabled (hs ! j) \<noteq> 0"
    and "mh_dy (hs ! i) = mh_dy (hs ! j)" and "mh_dy (hs ! j) < 0xffff"
    and "0 < mh_cy (hs ! i)" and "mh_cy (hs ! i) < 0x1000" and "0 < mh_cy (hs ! j)" and "mh_cy (hs ! j) < 0x1000"
  shows "validate_or_set_position_hints hs = default_hints 0 hs"
proof -
  have gt: "d < d + c" if "d < 0xffff" "0 < c" "c < 0x1000" for c d :: u32
  proof -
    have "unat (d + c) = unat d + unat c" using that by (intro unat_add_small) (simp add: word_less_nat_alt)
    then show ?thesis using that by (simp add: word_less_nat_alt)
  qed
  have "hints_clash (hs ! i) (hs ! j)"
    using assms(3-) gt by (simp add: hints_clash_def mask_small)
  then show ?thesis using assms(1,2) by (auto simp: validate_or_set_position_hints_def hints_valid_def list_all_iff)
qed

text \<open>A screen of 4096 columns counts as having none: the mask drops the bit, and both screens land on column 0.\<close>
definition wide_hint :: vbva_modehint where
  "wide_hint = \<lparr>mh_magic = VBVAMODEHINT_MAGIC, mh_cx = 4096, mh_cy = 2160, mh_bpp = 32, mh_display = 0, mh_dx = 0xffff,
     mh_dy = 0xffff, mh_enabled = 1\<rparr>"

lemma wide_screens_overlap:
  "map mh_dx (validate_or_set_position_hints [wide_hint, wide_hint]) = [0, 0]"
  by (simp add: validate_or_set_position_hints_def hints_valid_def hints_clash_def wide_hint_def)

subsection \<open>The hot-plug worker\<close>

text \<open>Every connector has a CRTC, and every CRTC a hint.\<close>
definition dev_ok :: "vbox_dev \<Rightarrow> bool" where
  "dev_ok st \<longleftrightarrow> (\<forall>n < length (connector_list st). conn_crtc (connector_list st ! n) < length (crtc_list st)) \<and>
     (\<forall>k < length (crtc_list st). unat (crtc_id (crtc_list st ! k)) < unat (num_crtcs (vs_vbox st))) \<and>
     unat (num_crtcs (vs_vbox st)) \<le> 32"

text \<open>Connector \<open>n\<close> and its CRTC say what the host's hint for the screen says.\<close>
definition synced :: "vbox_dev \<Rightarrow> nat \<Rightarrow> bool" where
  "synced st n \<longleftrightarrow>
     (let conn = connector_list st ! n; crtc = crtc_list st ! conn_crtc conn;
          h = last_mode_hints (vs_vbox st) ! unat (crtc_id crtc)
      in mh_magic h = VBVAMODEHINT_MAGIC \<longrightarrow>
         hint_width conn = mh_cx h \<and> hint_height conn = mh_cy h \<and> hint_disconnected conn = (mh_enabled h = 0) \<and>
         x_hint crtc = mh_dx h \<and> y_hint crtc = mh_dy h \<and> disconnected crtc = (mh_enabled h = 0))"

text \<open>What no step of the worker changes.\<close>
definition same_shape :: "vbox_dev \<Rightarrow> vbox_dev \<Rightarrow> bool" where
  "same_shape st st' \<longleftrightarrow> vs_vbox st' = vs_vbox st \<and> map conn_crtc (connector_list st') = map conn_crtc (connector_list st) \<and>
     map crtc_id (crtc_list st') = map crtc_id (crtc_list st) \<and>
     hotplug_events st' = hotplug_events st \<and> hotplug_work st' = hotplug_work st"

lemma same_shape_refl [simp]: "same_shape st st"
  by (simp add: same_shape_def)

lemma same_shape_trans: "same_shape a b \<Longrightarrow> same_shape b c \<Longrightarrow> same_shape a c"
  by (simp add: same_shape_def)

lemma same_shape_lengths:
  assumes "same_shape st st'"
  shows "length (connector_list st') = length (connector_list st)" "length (crtc_list st') = length (crtc_list st)"
  using assms map_eq_imp_length_eq by (auto simp: same_shape_def)

lemma same_shape_dev_ok:
  assumes "same_shape st st'" and "dev_ok st"
  shows "dev_ok st'"
  using assms same_shape_lengths [OF assms(1)]
  unfolding dev_ok_def same_shape_def by (metis nth_map)

lemma list_update_field: "map f (xs[k := x]) = map f xs" if "k < length xs \<Longrightarrow> f x = f (xs ! k)"
  using that by (cases "k < length xs") (simp_all add: map_update list_update_same_conv list_update_beyond)

lemma update_connector_ends:
  assumes "guest_ok hst (vs_guest st)" and "dev_ok st" and "n < length (connector_list st)"
  shows "ends (update_connector hst n) st (\<lambda>_ st'. guest_ok hst (vs_guest st') \<and> same_shape st st' \<and> synced st' n \<and>
    (\<forall>m < length (connector_list st). synced st m \<longrightarrow> synced st' m))"
proof -
  define conn where "conn = connector_list st ! n"
  define k where "k = conn_crtc conn"
  define crtc where "crtc = crtc_list st ! k"
  define h where "h = last_mode_hints (vs_vbox st) ! unat (crtc_id crtc)"
  have k: "k < length (crtc_list st)" using assms(2,3) by (simp add: dev_ok_def k_def conn_def)
  let ?conns = "(connector_list st)[n := conn\<lparr>hint_width := mh_cx h, hint_height := mh_cy h, hint_disconnected := (mh_enabled h = 0)\<rparr>]"
  let ?crtcs = "(crtc_list st)[k := crtc\<lparr>x_hint := mh_dx h, y_hint := mh_dy h, disconnected := (mh_enabled h = 0)\<rparr>]"
  have final: "guest_ok hst g \<Longrightarrow> st' = st\<lparr>connector_list := ?conns, crtc_list := ?crtcs, vs_guest := g\<rparr> \<Longrightarrow>
     guest_ok hst (vs_guest st') \<and> same_shape st st' \<and> synced st' n \<and> (\<forall>m < length (connector_list st). synced st m \<longrightarrow> synced st' m)"
    for g st'
    using k assms(3)
    by (auto simp: same_shape_def synced_def Let_def list_update_field nth_list_update conn_def k_def crtc_def h_def)
  consider "mh_magic h \<noteq> VBVAMODEHINT_MAGIC" | "mh_magic h = VBVAMODEHINT_MAGIC" "disconnected crtc = (mh_enabled h = 0)"
    | "mh_magic h = VBVAMODEHINT_MAGIC" "disconnected crtc \<noteq> (mh_enabled h = 0)" by blast
  then show ?thesis
  proof cases
    case 1
    then have "update_connector hst n st = Some (Inr ((), st))"
      by (simp add: update_connector_def hg_return_def h_def crtc_def k_def conn_def)
    then show ?thesis using 1 assms(1) by (simp add: ends_def synced_def Let_def h_def crtc_def k_def conn_def)
  next
    case 2
    have same: "crtc\<lparr>x_hint := mh_dx h, y_hint := mh_dy h\<rparr> = crtc\<lparr>x_hint := mh_dx h, y_hint := mh_dy h, disconnected := (mh_enabled h = 0)\<rparr>"
      using 2 by (cases crtc) simp
    have "update_connector hst n st = Some (Inr ((), st\<lparr>connector_list := ?conns, crtc_list := ?crtcs, vs_guest := vs_guest st\<rparr>))"
      using 2 unfolding same [symmetric] update_connector_def Let_def conn_def [symmetric] k_def [symmetric] crtc_def [symmetric] h_def [symmetric]
      by (simp add: upd_crtc_def upd_connector_def hg_return_def flip: conn_def crtc_def)
    then show ?thesis using final [OF assms(1) refl] by (simp add: ends_def)
  next
    case 3
    obtain g where g: "guest_ok hst g" "update_connector hst n st =
        Some (Inr ((), st\<lparr>connector_list := ?conns, crtc_list := ?crtcs, vs_guest := g\<rparr>))"
    proof -
      let ?f = "hgsmi_process_display_info hst (crtc_id crtc) 0 0 0 (mh_cx h * 4) (mh_cx h) (mh_cy h) 0
        (VBVA_SCREEN_F_ACTIVE OR (if mh_enabled h = 0 then VBVA_SCREEN_F_DISABLED else VBVA_SCREEN_F_BLANK))"
      have "keeps_heap (vs_guest st) ?f" by (rule process_display_info_keeps [OF assms(1)])
      then obtain g where g: "?f (vs_guest st) = Some (Inr ((), g))" "g_pool g = g_pool (vs_guest st)"
        by (auto simp: keeps_heap_def)
      have "guest_ok hst g" by (rule guest_ok_pool [OF assms(1) g(2)])
      moreover have "update_connector hst n st =
        Some (Inr ((), st\<lparr>connector_list := ?conns, crtc_list := ?crtcs, vs_guest := g\<rparr>))"
        using 3 g(1) k unfolding update_connector_def Let_def conn_def [symmetric] k_def [symmetric] crtc_def [symmetric] h_def [symmetric]
        by (simp add: upd_crtc_def upd_connector_def on_guest_def hg_bind_def hg_return_def flip: conn_def crtc_def)
      ultimately show thesis by (rule that)
    qed
    then show ?thesis using final [OF g(1) refl] by (simp add: ends_def)
  qed
qed

lemma update_connectors_ends:
  assumes "guest_ok hst (vs_guest st)" and "dev_ok st" and "\<forall>n \<in> set ns. n < length (connector_list st)"
  shows "ends (update_connectors hst ns) st (\<lambda>_ st'. guest_ok hst (vs_guest st') \<and> same_shape st st' \<and>
    (\<forall>m < length (connector_list st). synced st m \<or> m \<in> set ns \<longrightarrow> synced st' m))"
  using assms
proof (induction ns arbitrary: st)
  case Nil
  then show ?case by simp
next
  case (Cons n ns)
  have n: "n < length (connector_list st)" using Cons.prems(3) by simp
  show ?case
    unfolding update_connectors.simps ends_bind
  proof (rule ends_mono [OF update_connector_ends [OF Cons.prems(1,2) n]], elim conjE)
    fix st1 :: vbox_dev
    assume st1: "guest_ok hst (vs_guest st1)" "same_shape st st1" "synced st1 n"
      "\<forall>m < length (connector_list st). synced st m \<longrightarrow> synced st1 m"
    note len = same_shape_lengths(1) [OF st1(2)]
    have "\<forall>n \<in> set ns. n < length (connector_list st1)" using Cons.prems(3) len by simp
    from Cons.IH [OF st1(1) same_shape_dev_ok [OF st1(2) Cons.prems(2)] this]
    show "ends (update_connectors hst ns) st1 (\<lambda>_ st'. guest_ok hst (vs_guest st') \<and> same_shape st st' \<and>
      (\<forall>m < length (connector_list st). synced st m \<or> m \<in> set (n # ns) \<longrightarrow> synced st' m))"
      by (rule ends_mono) (use st1 len same_shape_trans [OF st1(2)] in auto)
  qed
qed

text \<open>
  The outcome of asking the host, by its answer: when it refuses, or there is no memory to ask it, nothing of the display
  changes; when it gives hints, they are recorded, with their positions validated, and every connector is in line with them.
\<close>
definition hints_taken :: "(gp_bug + vbva_modehint list result \<times> guest) option \<Rightarrow> vbox_dev \<Rightarrow> vbox_dev \<Rightarrow> bool" where
  "hints_taken answer st st' \<longleftrightarrow>
     (case answer of
        Some (Inr (Inl e, g)) \<Rightarrow>
          vs_vbox st' = vs_vbox st \<and> crtc_list st' = crtc_list st \<and> connector_list st' = connector_list st
      | Some (Inr (Inr hs, g)) \<Rightarrow>
          vs_vbox st' = (vs_vbox st)\<lparr>last_mode_hints := validate_or_set_position_hints hs\<rparr> \<and>
          map conn_crtc (connector_list st') = map conn_crtc (connector_list st) \<and>
          map crtc_id (crtc_list st') = map crtc_id (crtc_list st) \<and>
          (\<forall>n < length (connector_list st'). synced st' n)
      | _ \<Rightarrow> False)"

lemma hints_taken_events:
  assumes "hints_taken answer st st2" and "vs_vbox st0 = vs_vbox st" and "crtc_list st0 = crtc_list st"
    and "connector_list st0 = connector_list st"
  shows "hints_taken answer st0 (st2\<lparr>hotplug_events := n\<rparr>)"
  using assms by (auto simp: hints_taken_def synced_def split: option.splits sum.splits)

lemma update_mode_hints_ends:
  assumes "guest_ok hst (vs_guest st)" and "dev_ok st"
  shows "ends (vbox_update_mode_hints hst) st (\<lambda>_ st'. guest_ok hst (vs_guest st') \<and> dev_ok st' \<and>
    hints_taken (hgsmi_get_mode_hints hst (num_crtcs (vs_vbox st)) True (vs_guest st)) st st' \<and>
    hotplug_events st' = hotplug_events st \<and> hotplug_work st' = hotplug_work st)"
  (is "ends _ _ ?Q")
proof -
  let ?get = "hgsmi_get_mode_hints hst (num_crtcs (vs_vbox st)) True"
  have "keeps_heap (vs_guest st) ?get"
    by (rule get_mode_hints_keeps [OF assms(1)]) (use assms(2) in \<open>simp add: dev_ok_def\<close>)
  then obtain r g where get: "?get (vs_guest st) = Some (Inr (r, g))" and "g_pool g = g_pool (vs_guest st)"
    by (auto simp: keeps_heap_def)
  then have g: "guest_ok hst g" by (intro guest_ok_pool [OF assms(1)])
  have "ends (hg_bind (on_guest ?get) (\<lambda>r.
       case r of Inl e \<Rightarrow> hg_return ()
       | Inr hs \<Rightarrow> hg_bind (upd_vbox (last_mode_hints_update (\<lambda>_. validate_or_set_position_hints hs))) (\<lambda>_.
            update_connectors hst [0..<length (connector_list st)]))) st ?Q"
  proof (cases r)
    case (Inl e)
    then show ?thesis using g get assms(2) by (simp add: ends_def hints_taken_def dev_ok_def on_guest_def hg_return_def)
  next
    case (Inr hs)
    let ?st = "st\<lparr>vs_guest := g, vs_vbox := (vs_vbox st)\<lparr>last_mode_hints := validate_or_set_position_hints hs\<rparr>\<rparr>"
    have "dev_ok ?st" using assms(2) by (simp add: dev_ok_def)
    then have "ends (update_connectors hst [0..<length (connector_list ?st)]) ?st ?Q"
      using g get Inr by (intro ends_mono [OF update_connectors_ends])
        (auto simp: hints_taken_def same_shape_lengths dest: same_shape_dev_ok, auto simp: same_shape_def)
    then show ?thesis using Inr get by (simp add: ends_def on_guest_def hg_bind_def upd_vbox_def)
  qed
  then show ?thesis by (simp add: ends_def vbox_update_mode_hints_def)
qed

lemma flag_bits:
  "(x :: u32) AND HGSMIHOSTFLAGS_IRQ = 0 \<longleftrightarrow> \<not> bit x 1" "x AND HGSMIHOSTFLAGS_VSYNC = 0 \<longleftrightarrow> \<not> bit x 4"
  "x AND (HGSMIHOSTFLAGS_HOTPLUG OR HGSMIHOSTFLAGS_CURSOR_CAPABILITIES) = 0 \<longleftrightarrow> \<not> bit x 5 \<and> \<not> bit x 6"
proof -
  have one: "x AND 2 ^ n = 0 \<longleftrightarrow> \<not> bit x n" if "n < 32" for n
    using that by (simp add: and_exp_eq_0_iff_not_bit)
  show "x AND HGSMIHOSTFLAGS_IRQ = 0 \<longleftrightarrow> \<not> bit x 1" "x AND HGSMIHOSTFLAGS_VSYNC = 0 \<longleftrightarrow> \<not> bit x 4"
    using one [of 1] one [of 4] by (simp_all add: HGSMIHOSTFLAGS_IRQ_def HGSMIHOSTFLAGS_VSYNC_def)
  have "HGSMIHOSTFLAGS_HOTPLUG = 2 ^ 5" "HGSMIHOSTFLAGS_CURSOR_CAPABILITIES = 2 ^ 6"
    by (simp_all add: HGSMIHOSTFLAGS_HOTPLUG_def HGSMIHOSTFLAGS_CURSOR_CAPABILITIES_def)
  then show "x AND (HGSMIHOSTFLAGS_HOTPLUG OR HGSMIHOSTFLAGS_CURSOR_CAPABILITIES) = 0 \<longleftrightarrow> \<not> bit x 5 \<and> \<not> bit x 6"
    using one [of 5] one [of 6] by (simp only: bit.conj_disj_distrib or_eq_0_iff)
qed

lemma vbox_irq_handler_bits:
  "vbox_irq_handler st =
     (let f = vbox_get_flags st
      in if \<not> bit f 1 then (IRQ_NONE, st)
         else (IRQ_HANDLED, vbox_clear_irq (if (bit f 5 \<or> bit f 6) \<and> \<not> bit f 4 then vbox_report_hotplug st else st)))"
  by (simp add: vbox_irq_handler_def flag_bits Let_def)

text \<open>
  C14. A hot-plug announced by the host is delivered: when the host raised the interrupt with the hot-plug
  or the cursor flag and without vertical sync, the handler acknowledges it with one write to the host
  port and queues the worker; the worker returns and sends one hot-plug event. When asking the host for hints fails, the display is
  as it was; when it answers with hints, they are recorded with validated positions, and every connector and its CRTC are in line with
  them. The host leaves the headers of the commands alone.
\<close>
theorem vbox_hotplug_delivered:
  assumes "guest_ok hst (vs_guest st)" and "dev_ok st"
    and "bit (vbox_get_flags st) 1" and "bit (vbox_get_flags st) 5 \<or> bit (vbox_get_flags st) 6" and "\<not> bit (vbox_get_flags st) 4"
  shows "\<exists>st1 st2. vbox_irq_handler st = (IRQ_HANDLED, st1) \<and> hotplug_work st1 \<and>
    g_out (vs_guest st1) = g_out (vs_guest st) @ [(VGA_PORT_HGSMI_HOST, - 1)] \<and>
    vbox_hotplug_worker hst st1 = Some (Inr ((), st2)) \<and> \<not> hotplug_work st2 \<and>
    hotplug_events st2 = Suc (hotplug_events st) \<and>
    hints_taken (hgsmi_get_mode_hints hst (num_crtcs (vs_vbox st)) True (vs_guest st1)) st st2"
proof -
  define s where "s = vbox_clear_irq (vbox_report_hotplug st)"
  define s' where "s' = s\<lparr>hotplug_work := False\<rparr>"
  have h: "vbox_irq_handler st = (IRQ_HANDLED, s)" using assms(3-5) by (auto simp: s_def vbox_irq_handler_bits)
  have s: "vs_vbox s' = vs_vbox st" "crtc_list s' = crtc_list st" "connector_list s' = connector_list st"
    "vs_guest s' = vs_guest s" "hotplug_events s' = hotplug_events st" "\<not> hotplug_work s'" "hotplug_work s"
    "g_out (vs_guest s) = g_out (vs_guest st) @ [(VGA_PORT_HGSMI_HOST, - 1)]" "g_pool (vs_guest s) = g_pool (vs_guest st)"
    by (simp_all add: s'_def s_def vbox_clear_irq_def vbox_report_hotplug_def)
  have ok: "guest_ok hst (vs_guest s')" "dev_ok s'"
    using assms(1,2) guest_ok_pool [OF assms(1), of "vs_guest s"] s by (simp_all add: dev_ok_def)
  let ?answer = "hgsmi_get_mode_hints hst (num_crtcs (vs_vbox st)) True (vs_guest s)"
  obtain st2 where st2: "vbox_update_mode_hints hst s' = Some (Inr ((), st2))" "hints_taken ?answer s' st2"
    "hotplug_events st2 = hotplug_events st" "\<not> hotplug_work st2"
    using update_mode_hints_ends [OF ok] unfolding s(1,4,5) using s(6) by (auto simp: ends_def)
  let ?st2 = "st2\<lparr>hotplug_events := Suc (hotplug_events st)\<rparr>"
  have "vbox_hotplug_worker hst s = Some (Inr ((), ?st2))"
    using st2(1,3) by (simp add: vbox_hotplug_worker_def hg_return_def hg_bind_def flip: s'_def)
  moreover have "hints_taken ?answer st ?st2" by (rule hints_taken_events [OF st2(2)]) (simp_all add: s)
  ultimately show ?thesis using h s(7,8) st2(4) by (intro exI [of _ s] exI [of _ ?st2]) simp
qed

subsection \<open>Witnesses\<close>

definition demo_hints :: "vbva_modehint list" where
  "demo_hints = [wide_hint\<lparr>mh_cx := 1024\<rparr>, wide_hint\<lparr>mh_cx := 800, mh_enabled := 0\<rparr>, wide_hint\<lparr>mh_cx := 640\<rparr>]"

theorem position_hints_apart_witness:
  "screens_apart (validate_or_set_position_hints demo_hints) \<and> map mh_dx (validate_or_set_position_hints demo_hints) = [0, 0xffff, 1024]"
  using position_hints_apart [of demo_hints]
  by (simp add: demo_hints_def wide_hint_def validate_or_set_position_hints_def hints_valid_def hints_clash_def)

definition demo_dev :: vbox_dev where
  "demo_dev = vbox_state.extend (demo_vbox\<lparr>vs_guest := demo_guest\<lparr>g_mem := wr32 HOST_FLAGS_OFFSET 0x22 (\<lambda>_. 0)\<rparr>\<rparr>)
     \<lparr>crtc_list = [], connector_list = [], hotplug_work = False, hotplug_events = 0, irq_requested = True,
      input_mapping_width = 0, input_mapping_height = 0, single_framebuffer = False, cursor_data = []\<rparr>"

lemma irq_handler_pool: "vbox_irq_handler st = (r, st1) \<Longrightarrow> g_pool (vs_guest st1) = g_pool (vs_guest st)"
  by (auto simp: vbox_irq_handler_def vbox_clear_irq_def vbox_report_hotplug_def Let_def split: if_splits)

text \<open>A host that answers a query for mode hints with one enabled screen of 800 by 600.\<close>
definition mode_host :: host where
  "mode_host offset m =
     store_bytes (0x80000000 + ucast offset + 20)
       (le32 VINF_SUCCESS @ le32 VBVAMODEHINT_MAGIC @ le32 800 @ le32 600 @ le32 32 @ le32 0 @ le32 0 @ le32 0 @ le32 1) m"

lemma load_stored:
  assumes "k + n \<le> length bs" and "length bs < 2 ^ 64"
  shows "load_bytes (store_bytes a bs m) (a + of_nat k) n = take n (drop k bs)"
proof (rule nth_equalityI)
  fix i assume "i < length (load_bytes (store_bytes a bs m) (a + of_nat k) n)"
  then have i: "i < n" by simp
  have "a + of_nat k + of_nat i - a = (of_nat (k + i) :: u64)" by simp
  then have "unat (a + of_nat k + of_nat i - a) = k + i"
    using i assms by (simp only: unat_of_nat) (simp add: take_bit_nat_eq_self)
  then show "load_bytes (store_bytes a bs m) (a + of_nat k) n ! i = take n (drop k bs) ! i"
    using i assms by (simp add: store_bytes_def)
qed (use assms in simp)

lemma mode_platform: "vbox_platform mode_host demo_ext"
proof -
  have "host_keeps_headers mode_host (guest_heap_pool demo_ext 0x80FF0000)"
    unfolding host_keeps_headers_def
  proof (intro allI impI)
    fix h m x
    assume a: "unat h \<in> managed (guest_heap_pool demo_ext 0x80FF0000) \<and> x \<in> addrs h 16"
    have "addrs (h + of_nat 0) 16 \<inter> addrs (h + of_nat 20) 36 = {}" by (rule addrs_disjoint) simp_all
    then have "x \<notin> addrs (h + 20) 36" using a by auto
    then show "mode_host (ucast (gen_pool_virt_to_phys (guest_heap_pool demo_ext 0x80FF0000) h)) m x = m x"
      using a by (simp add: mode_host_def demo_offset store_bytes_outside)
  qed
  then show ?thesis
    using scan.bitmap_search_axioms by (auto simp: vbox_platform_def demo_ext_def GUEST_HEAP_SIZE_def)
qed

definition demo_hot :: vbox_dev where
  "demo_hot = vbox_state.extend
     \<lparr>vs_vbox = \<lparr>guest_heap = 0x80FF0000, vbva_buffers = 0, vbva_info = [], any_pitch = True, num_crtcs = 1,
        full_vram_size = 0x1000000, available_vram_size = 0, last_mode_hints = [zero_hint]\<rparr>,
      vs_pci = \<lparr>regions = [], mappings = [], actions = []\<rparr>, vs_pools = [],
      vs_guest = \<lparr>g_pool = guest_heap_pool demo_ext 0x80FF0000, g_mem = wr32 0x80FFFFF0 0x22 (\<lambda>_. 0), g_out = []\<rparr>\<rparr>
     \<lparr>crtc_list = [\<lparr>disconnected = True, crtc_id = 0, fb_offset = 0, cursor_enabled = False, x_hint = 0, y_hint = 0,
        cr_width = 0, cr_height = 0, cr_x = 0, cr_y = 0\<rparr>],
      connector_list = [\<lparr>conn_crtc = 0, hint_width = 0, hint_height = 0, hint_disconnected = True\<rparr>],
      hotplug_work = False, hotplug_events = 0, irq_requested = True,
      input_mapping_width = 0, input_mapping_height = 0, single_framebuffer = False, cursor_data = []\<rparr>"

text \<open>Its answer is the one hint.\<close>
lemma mode_host_answers:
  assumes "g_pool g = guest_heap_pool demo_ext 0x80FF0000"
  shows "\<exists>g'. hgsmi_get_mode_hints mode_host 1 True g = Some (Inr (Inr
    [\<lparr>mh_magic = VBVAMODEHINT_MAGIC, mh_cx = 800, mh_cy = 600, mh_bpp = 32, mh_display = 0, mh_dx = 0, mh_dy = 0, mh_enabled = 1\<rparr>], g'))"
proof -
  have ok: "guest_ok mode_host g"
    by (rule guest_heap_pool_ok [OF mode_platform, where heap = "0x80FF0000"])
       (simp_all add: assms demo_ext_def GUEST_HEAP_SIZE_def)
  let ?fs = "[(0, le16 1), (2, le16 32), (4, le32 VERR_NOT_SUPPORTED)]"
  let ?answer = "\<lambda>m p. if sint (rd32 m (p + 4)) < 0 then Inl EIO
                     else Inr (map (\<lambda>i. rd_modehint m (p + 8 + of_nat (32 * i))) [0..<1])"
  let ?call = "hgsmi_call mode_host 40 HGSMI_CH_VBVA VBVA_QUERY_MODE_HINTS ?fs ?answer"
  have get: "hgsmi_get_mode_hints mode_host 1 True = hg_bind ?call (\<lambda>r. hg_return (case r of None \<Rightarrow> Inl ENOMEM | Some x \<Rightarrow> x))"
  proof -
    have one: "8 + ucast (1 :: u32) * 32 = (40 :: u64)" "ucast (1 :: u32) = (1 :: u16)" "unat (1 :: u32) = 1" by simp_all
    show ?thesis unfolding hgsmi_get_mode_hints_def one by (simp only: not_True_eq_False if_False)
  qed
  let ?st = "\<lparr>vs_vbox = vs_vbox demo_hot, vs_pci = vs_pci demo_hot, vs_pools = [], vs_guest = g\<rparr>"
  have "heap_started demo_ext ?st"
    using assms by (simp add: heap_started_def demo_hot_def vbox_state.defs demo_ext_def GUEST_HEAP_SIZE_def)
  then obtain h p where "gen_pool_dma_alloc (40 + 16 + 8) (g_pool g) = Some (Inr (Some h, Some p))"
    using fresh_heap_alloc [OF mode_platform, of ?st "40 + 16 + 8"] by auto
  then have "?call g \<noteq> Some (Inr (None, g))" by (rule call_allocates)
  moreover have "?call g = Some (Inr (None, g)) \<or>
     (\<exists>buf m g'. command_sent mode_host 40 HGSMI_CH_VBVA VBVA_QUERY_MODE_HINTS ?fs buf m g g' \<and>
        ?call g = Some (Inr (Some (?answer (g_mem g') buf), g')))"
    by (rule hgsmi_call_either [OF ok]) simp_all
  ultimately obtain buf m g' where
    sent: "command_sent mode_host 40 HGSMI_CH_VBVA VBVA_QUERY_MODE_HINTS ?fs buf m g g'"
    and q: "?call g = Some (Inr (Some (?answer (g_mem g') buf), g'))" by blast
  let ?h = "buf - 16"
  have c: "unat ?h \<in> managed (guest_heap_pool demo_ext 0x80FF0000)"
    "g_mem g' = mode_host (ucast (gen_pool_virt_to_phys (guest_heap_pool demo_ext 0x80FF0000) ?h)) m"
    using sent assms by (auto simp: command_sent_def Let_def subset_eq)
  let ?bs = "le32 VINF_SUCCESS @ le32 VBVAMODEHINT_MAGIC @ le32 800 @ le32 600 @ le32 32 @ le32 0 @ le32 0 @ le32 0 @ le32 1"
  have mem: "g_mem g' = store_bytes (buf + 4) ?bs m"
    unfolding c(2) mode_host_def demo_offset [OF c(1)] by (simp add: add.commute)
  have rd: "rd32 (g_mem g') (buf + 4 + of_nat k) = ucast (of_le (take 4 (drop k ?bs)))" if "k \<le> 32" for k
    unfolding mem rd32_def using that by (subst load_stored) simp_all
  have "?answer (g_mem g') buf = Inr
    [\<lparr>mh_magic = VBVAMODEHINT_MAGIC, mh_cx = 800, mh_cy = 600, mh_bpp = 32, mh_display = 0, mh_dx = 0, mh_dy = 0, mh_enabled = 1\<rparr>]"
    using rd [of 0] rd [of 4] rd [of 8] rd [of 12] rd [of 16] rd [of 20] rd [of 24] rd [of 28] rd [of 32]
    by (simp add: rd_modehint_def of_le32 VINF_SUCCESS_def add.assoc)
  then show ?thesis using q unfolding get by (simp add: hg_bind_def hg_return_def)
qed

theorem vbox_hotplug_delivered_witness:
  "\<exists>st1 st2. vbox_irq_handler demo_hot = (IRQ_HANDLED, st1) \<and> vbox_hotplug_worker mode_host st1 = Some (Inr ((), st2)) \<and>
     hotplug_events st2 = 1 \<and> hint_width (connector_list st2 ! 0) = 800 \<and> \<not> disconnected (crtc_list st2 ! 0)"
proof -
  have ok: "guest_ok mode_host (vs_guest demo_hot)"
    by (rule guest_heap_pool_ok [OF mode_platform, where heap = "0x80FF0000"])
       (simp_all add: demo_hot_def vbox_state.defs demo_ext_def GUEST_HEAP_SIZE_def)
  have dev: "dev_ok demo_hot" by (simp add: dev_ok_def demo_hot_def vbox_state.defs)
  have flags: "vbox_get_flags demo_hot = 0x22"
    by (simp add: vbox_get_flags_def demo_hot_def vbox_state.defs rd32_wr32 HOST_FLAGS_OFFSET_def GUEST_HEAP_USABLE_SIZE_def)
  from vbox_hotplug_delivered [OF ok dev] obtain st1 st2 where
    h: "vbox_irq_handler demo_hot = (IRQ_HANDLED, st1)" "vbox_hotplug_worker mode_host st1 = Some (Inr ((), st2))"
      "hotplug_events st2 = Suc (hotplug_events demo_hot)"
    and taken: "hints_taken (hgsmi_get_mode_hints mode_host (num_crtcs (vs_vbox demo_hot)) True (vs_guest st1)) demo_hot st2"
    by (auto simp: flags)
  have "g_pool (vs_guest st1) = guest_heap_pool demo_ext 0x80FF0000"
    using irq_handler_pool [OF h(1)] by (simp add: demo_hot_def vbox_state.defs)
  from mode_host_answers [OF this] taken
  have "synced st2 0 \<and> length (connector_list st2) = 1 \<and> conn_crtc (connector_list st2 ! 0) = 0 \<and> crtc_id (crtc_list st2 ! 0) = 0 \<and>
      last_mode_hints (vs_vbox st2) = [\<lparr>mh_magic = VBVAMODEHINT_MAGIC, mh_cx = 800, mh_cy = 600, mh_bpp = 32, mh_display = 0,
        mh_dx = 0, mh_dy = 0, mh_enabled = 1\<rparr>]"
    by (auto simp: hints_taken_def demo_hot_def vbox_state.defs validate_or_set_position_hints_def hints_valid_def map_eq_Cons_conv)
  then show ?thesis using h by (auto simp: synced_def Let_def demo_hot_def vbox_state.defs)
qed

end
