(* ===== verification/Vbox_Mode.thy ===== *)
theory Vbox_Mode
  imports Vbox_Irq "HOL-Library.Signed_Division"
begin

text \<open>
  Mode setting of the VirtualBox adapter (\<^verbatim>\<open>drivers/gpu/drm/vboxvideo/vbox_mode.c\<close>): programming a mode, the view
  and the input mapping, the dirty rectangles of the primary plane, the cursor image and its mask,
  the connector's modes and the EDID made up for it. The state of the DRM core that the code reads
  (frame buffers, CRTC and plane states) is an argument; a C \<open>int\<close> is an \<open>int\<close>, since its overflow
  is undefined, and the unsigned arithmetic wraps at its width.
\<close>

subsection \<open>State of the DRM core\<close>

text \<open>\<open>fb_vram\<close> is \<open>drm_gem_vram_offset\<close> of the buffer's first object.\<close>
record drm_framebuffer =
  fb_id :: ptr
  fb_width :: u32
  fb_height :: u32
  fb_cpp :: u8
  fb_pitch :: u32
  fb_vram :: u64

text \<open>What the code reads of a \<open>drm_crtc\<close> and of its state.\<close>
record drm_crtc =
  primary_fb :: "drm_framebuffer option"
  dc_y :: int
  dc_enable :: bool
  dc_hdisplay :: u16
  dc_vdisplay :: u16
  dc_needs_modeset :: bool

text \<open>
  The CRTCs of the device, and its \<open>ddev.fb_helper\<close>: None is the NULL pointer that it is until the console is set up, otherwise it
  holds the helper's frame buffer, which may itself be NULL.
\<close>
record drm_view =
  drm_crtcs :: "drm_crtc list"
  fb_helper :: "ptr option option"

definition VBE_DISPI_INDEX_XRES :: u16 where "VBE_DISPI_INDEX_XRES = 1"
definition VBE_DISPI_INDEX_YRES :: u16 where "VBE_DISPI_INDEX_YRES = 2"
definition VBE_DISPI_INDEX_BPP :: u16 where "VBE_DISPI_INDEX_BPP = 3"
definition VBE_DISPI_INDEX_ENABLE :: u16 where "VBE_DISPI_INDEX_ENABLE = 4"
definition VBE_DISPI_INDEX_VIRT_WIDTH :: u16 where "VBE_DISPI_INDEX_VIRT_WIDTH = 6"
definition VBE_DISPI_INDEX_X_OFFSET :: u16 where "VBE_DISPI_INDEX_X_OFFSET = 8"
definition VBE_DISPI_INDEX_Y_OFFSET :: u16 where "VBE_DISPI_INDEX_Y_OFFSET = 9"
definition VBE_DISPI_ENABLED :: u16 where "VBE_DISPI_ENABLED = 1"
definition VBVA_INFO_VIEW :: u16 where "VBVA_INFO_VIEW = 3"

subsection \<open>Programming a mode\<close>

text \<open>The registers of the old interface, in the order they are written; \<open>w32\<close> is the value as an u32.\<close>
definition dispi_writes :: "vbox_crtc \<Rightarrow> int \<Rightarrow> int \<Rightarrow> int \<Rightarrow> int \<Rightarrow> (u16 \<times> u16) list" where
  "dispi_writes crtc width height bpp pitch =
     (let w32 = (word_of_int :: int \<Rightarrow> u32)
      in [(VBE_DISPI_INDEX_XRES, word_of_int width), (VBE_DISPI_INDEX_YRES, word_of_int height),
          (VBE_DISPI_INDEX_VIRT_WIDTH, word_of_int ((pitch * 8) sdiv bpp)), (VBE_DISPI_INDEX_BPP, word_of_int bpp),
          (VBE_DISPI_INDEX_ENABLE, VBE_DISPI_ENABLED),
          (VBE_DISPI_INDEX_X_OFFSET, ucast (fb_offset crtc mod w32 pitch div w32 bpp * 8 + cr_x crtc)),
          (VBE_DISPI_INDEX_Y_OFFSET, ucast (fb_offset crtc div w32 pitch + cr_y crtc))])"

definition write_ioports :: "(u16 \<times> u16) list \<Rightarrow> unit hgsmi" where
  "write_ioports ws g = hg_return () (fold (\<lambda>(i, d). vbox_write_ioport i d) ws g)"

text \<open>
  A frame buffer has a pitch and whole bytes per pixel; without them the divisions of the first
  condition trap.
\<close>
definition vbox_do_modeset :: "host \<Rightarrow> drm_view \<Rightarrow> nat \<Rightarrow> (vbox_dev, unit) call" where
  "vbox_do_modeset hst drm k st =
     (let crtc = crtc_list st ! k; dc = drm_crtcs drm ! k; fb = primary_fb dc;
          w32 = (word_of_int :: int \<Rightarrow> u32);
          width = (if cr_width crtc \<noteq> 0 then sint (cr_width crtc) else 640);
          height = (if cr_height crtc \<noteq> 0 then sint (cr_height crtc) else 480);
          bpp = (case fb of Some f \<Rightarrow> uint (fb_cpp f) * 8 | None \<Rightarrow> 32);
          pitch = (case fb of Some f \<Rightarrow> sint (fb_pitch f) | None \<Rightarrow> (width * bpp) sdiv 8);
          x_offset = (if single_framebuffer st then cr_x crtc else x_hint crtc);
          y_offset = (if single_framebuffer st then cr_y crtc else y_hint crtc);
          flags = VBVA_SCREEN_F_ACTIVE OR (if fb \<noteq> None \<and> dc_enable dc then 0 else VBVA_SCREEN_F_BLANK) OR
                  (if disconnected crtc then VBVA_SCREEN_F_DISABLED else 0);
          info = hgsmi_process_display_info hst (crtc_id crtc) x_offset y_offset
                   (cr_x crtc * w32 bpp div 8 + cr_y crtc * w32 pitch) (w32 pitch) (w32 width) (w32 height)
                   (word_of_int bpp) flags
      in if crtc_id crtc = 0 \<and> fb \<noteq> None
         then if w32 pitch = 0 then Some (Inl BUG)
              else if \<not> fb_offset crtc div w32 pitch < w32 (0xffff - dc_y dc) then on_guest info st
              else if bpp = 0 then Some (Inl BUG)
              else if fb_offset crtc mod w32 (bpp sdiv 8) \<noteq> 0 then on_guest info st
              else on_guest (hg_bind (write_ioports (dispi_writes crtc width height bpp pitch)) (\<lambda>_. info)) st
         else on_guest info st)"

definition vbox_set_view :: "host \<Rightarrow> nat \<Rightarrow> (vbox_dev, unit result) call" where
  "vbox_set_view hst k st =
     (let crtc = crtc_list st ! k; avail = available_vram_size (vs_vbox st)
      in on_guest (hg_bind
           (hgsmi_call hst 16 HGSMI_CH_VBVA VBVA_INFO_VIEW
              [(0, le32 (crtc_id crtc)), (4, le32 (fb_offset crtc)),
               (8, le32 (avail - fb_offset crtc + crtc_id crtc * VBVA_MIN_BUFFER_SIZE)),
               (12, le32 (avail - fb_offset crtc))] (\<lambda>m p. ()))
           (\<lambda>r. hg_return (case r of None \<Rightarrow> Inl ENOMEM | Some _ \<Rightarrow> Inr ()))) st)"

text \<open>
  The loop over the CRTCs' frame buffers: the first one found and whether it is the only one.
  The scan stops at the first buffer when that is the console's; to find that out it reads the helper, and traps when there is none.
\<close>
fun scan_framebuffers ::
    "ptr option option \<Rightarrow> drm_framebuffer option \<Rightarrow> bool \<Rightarrow> drm_framebuffer option list \<Rightarrow> gp_bug + drm_framebuffer option \<times> bool" where
  "scan_framebuffers helper fb1 single [] = Inr (fb1, single)"
| "scan_framebuffers helper fb1 single (None # fbs) = scan_framebuffers helper fb1 single fbs"
| "scan_framebuffers helper None single (Some fb # fbs) =
     (case helper of
        None \<Rightarrow> Inl BUG
      | Some helper_fb \<Rightarrow>
          if Some (fb_id fb) = helper_fb then Inr (Some fb, single) else scan_framebuffers helper (Some fb) single fbs)"
| "scan_framebuffers helper (Some fb1) single (Some fb # fbs) =
     scan_framebuffers helper (Some fb1) (if fb_id fb \<noteq> fb_id fb1 then False else single) fbs"

text \<open>The span of all screens, with the maxima taken in 16 bits.\<close>
fun screens_extent :: "vbox_crtc list \<Rightarrow> vbox_connector list \<Rightarrow> u16 \<times> u16 \<Rightarrow> u16 \<times> u16" where
  "screens_extent crtcs [] (width, height) = (width, height)"
| "screens_extent crtcs (conn # conns) (width, height) =
     (let crtc = crtcs ! conn_crtc conn
      in screens_extent crtcs conns
           (max width (ucast (x_hint crtc + hint_width conn)), max height (ucast (y_hint crtc + hint_height conn))))"

definition vbox_set_up_input_mapping :: "drm_view \<Rightarrow> (vbox_dev, bool) call" where
  "vbox_set_up_input_mapping drm st =
     (let old = single_framebuffer st
      in case scan_framebuffers (fb_helper drm) None True (map primary_fb (drm_crtcs drm)) of
           Inl bug \<Rightarrow> Some (Inl bug)
         | Inr (None, _) \<Rightarrow> hg_return False st
         | Inr (Some fb1, True) \<Rightarrow>
             hg_return (old \<noteq> True) (st\<lparr>single_framebuffer := True, input_mapping_width := fb_width fb1,
                                        input_mapping_height := fb_height fb1\<rparr>)
         | Inr (Some fb1, False) \<Rightarrow>
             (let (width, height) = screens_extent (crtc_list st) (connector_list st) (0, 0)
              in hg_return (old \<noteq> False) (st\<lparr>single_framebuffer := False, input_mapping_width := ucast width,
                                             input_mapping_height := ucast height\<rparr>)))"

primrec modeset_all :: "host \<Rightarrow> drm_view \<Rightarrow> nat list \<Rightarrow> (vbox_dev, unit) call" where
  "modeset_all hst drm [] = hg_return ()"
| "modeset_all hst drm (k # ks) = hg_bind (vbox_do_modeset hst drm k) (\<lambda>_. modeset_all hst drm ks)"

text \<open>The results of \<open>vbox_set_view\<close> and \<open>hgsmi_update_input_mapping\<close> are not looked at.\<close>
definition vbox_crtc_set_base_and_mode ::
    "host \<Rightarrow> drm_view \<Rightarrow> nat \<Rightarrow> drm_framebuffer \<Rightarrow> u32 \<Rightarrow> u32 \<Rightarrow> (vbox_dev, unit) call" where
  "vbox_crtc_set_base_and_mode hst drm k fb x y st =
     (let dc = drm_crtcs drm ! k;
          st1 = (if dc_enable dc
                 then upd_crtc k (\<lambda>c. c\<lparr>cr_width := ucast (dc_hdisplay dc), cr_height := ucast (dc_vdisplay dc)\<rparr>) st
                 else st);
          st2 = upd_crtc k (\<lambda>c. c\<lparr>cr_x := x, cr_y := y, fb_offset := ucast (fb_vram fb)\<rparr>) st1
      in hg_bind (if dc_needs_modeset dc then vbox_set_up_input_mapping drm else hg_return False) (\<lambda>changed st3.
         hg_bind (if changed then modeset_all hst drm (filter (\<lambda>i. i \<noteq> k) [0..<length (crtc_list st3)]) else hg_return ()) (\<lambda>_.
         hg_bind (vbox_set_view hst k) (\<lambda>_.
         hg_bind (vbox_do_modeset hst drm k) (\<lambda>_ st4.
         hg_bind (if dc_needs_modeset dc
                  then on_guest (hgsmi_update_input_mapping hst 0 0 (input_mapping_width st4) (input_mapping_height st4))
                  else hg_return (Inr ())) (\<lambda>_. hg_return ()) st4))) st3) st2)"

subsection \<open>The primary plane\<close>

text \<open>A damage rectangle.\<close>
record drm_mode_rect =
  rx1 :: int
  ry1 :: int
  rx2 :: int
  ry2 :: int

text \<open>The bytes of the \<open>vbva_cmd_hdr\<close> of a rectangle: \<open>x\<close>, \<open>y\<close>, \<open>w\<close>, \<open>h\<close> of 16 bits each.\<close>
definition cmd_hdr :: "drm_mode_rect \<Rightarrow> u8 list" where
  "cmd_hdr c =
     (let w16 = (word_of_int :: int \<Rightarrow> u16)
      in le16 (w16 (rx1 c)) @ le16 (w16 (ry1 c)) @ le16 (w16 (rx2 c) - w16 (rx1 c)) @ le16 (w16 (ry2 c) - w16 (ry1 c)))"

text \<open>The body of the loop: the result of \<open>vbva_write\<close> is not looked at.\<close>
definition send_clip :: "host \<Rightarrow> drm_mode_rect \<Rightarrow> vbva_buf_ctx \<Rightarrow> vbva_buf_ctx hgsmi" where
  "send_clip hst c ctx =
     hg_bind (vbva_buffer_begin_update hst ctx) (\<lambda>(ok, ctx1).
       if \<not> ok then hg_return ctx1
       else hg_bind (vbva_write hst ctx1 (cmd_hdr c) 8) (\<lambda>(_, ctx2) g.
              Some (vbva_buffer_end_update ctx2 g)))"

primrec send_clips :: "host \<Rightarrow> drm_mode_rect list \<Rightarrow> vbva_buf_ctx \<Rightarrow> vbva_buf_ctx hgsmi" where
  "send_clips hst [] ctx = hg_return ctx"
| "send_clips hst (c # cs) ctx = hg_bind (send_clip hst c ctx) (\<lambda>ctx'. send_clips hst cs ctx')"

text \<open>\<open>src_x\<close> and \<open>src_y\<close> have 16 fractional bits.\<close>
definition vbox_primary_atomic_update ::
    "host \<Rightarrow> drm_view \<Rightarrow> nat \<Rightarrow> drm_framebuffer \<Rightarrow> u32 \<Rightarrow> u32 \<Rightarrow> drm_mode_rect list \<Rightarrow> (vbox_dev, unit) call" where
  "vbox_primary_atomic_update hst drm k fb src_x src_y clips =
     hg_bind (vbox_crtc_set_base_and_mode hst drm k fb (drop_bit 16 src_x) (drop_bit 16 src_y)) (\<lambda>_ st.
       if clips = [] then hg_return () st
       else (let i = unat (crtc_id (crtc_list st ! k))
             in hg_bind (on_guest (send_clips hst clips (vbva_info (vs_vbox st) ! i))) (\<lambda>ctx.
                  upd_vbox (\<lambda>v. v\<lparr>vbva_info := (vbva_info v)[i := ctx]\<rparr>)) st))"

definition vbox_primary_atomic_disable ::
    "host \<Rightarrow> drm_view \<Rightarrow> nat \<Rightarrow> drm_framebuffer \<Rightarrow> u32 \<Rightarrow> u32 \<Rightarrow> (vbox_dev, unit) call" where
  "vbox_primary_atomic_disable hst drm k fb src_x src_y =
     vbox_crtc_set_base_and_mode hst drm k fb (drop_bit 16 src_x) (drop_bit 16 src_y)"

subsection \<open>The cursor plane\<close>

text \<open>
  \<open>has_crtc\<close> says that the new state names a CRTC, \<open>has_state\<close> that its state is part of the
  update, \<open>check\<close> is the result of the helper's check and \<open>has_fb\<close> that there is a frame buffer.
\<close>
definition vbox_cursor_atomic_check :: "bool \<Rightarrow> bool \<Rightarrow> unit result \<Rightarrow> bool \<Rightarrow> u32 \<Rightarrow> u32 \<Rightarrow> unit result" where
  "vbox_cursor_atomic_check has_crtc has_state check has_fb width height =
     (if has_crtc \<and> \<not> has_state then Inl EINVAL
      else case check of
        Inl e \<Rightarrow> Inl e
      | Inr _ \<Rightarrow> if \<not> has_fb then Inr ()
                 else if width > 64 \<or> height > 64 \<or> width = 0 \<or> height = 0 then Inl EINVAL
                 else Inr ())"

text \<open>Pixel \<open>n\<close> of the image, a little-endian word; the index is computed in 32 bits.\<close>
definition src_pixel :: "u8 list \<Rightarrow> nat \<Rightarrow> u32" where
  "src_pixel src n = ucast (of_le (take 4 (drop (4 * (n mod 2 ^ 32)) src)))"

text \<open>One step of the inner loop: bit \<open>7 - j mod 8\<close> of the byte of column \<open>j\<close> in line \<open>i\<close>.\<close>
definition mask_step :: "u8 list \<Rightarrow> u32 \<Rightarrow> nat \<times> nat \<Rightarrow> u8 list \<Rightarrow> u8 list" where
  "mask_step src width ij dst =
     (case ij of (i, j) \<Rightarrow>
        (let k = i * unat ((width + 7) div 8) + j div 8
         in if src_pixel src (i * unat width + j) > 0xf0000000
            then dst[k := dst ! k OR drop_bit (j mod 8) 0x80] else dst))"

definition copy_cursor_image :: "u8 list \<Rightarrow> u8 list \<Rightarrow> u32 \<Rightarrow> u32 \<Rightarrow> nat \<Rightarrow> u8 list" where
  "copy_cursor_image src dst width height mask_size =
     (let n = unat (width * height * 4);
          dst1 = take mask_size dst @ take n src @ drop (mask_size + n) dst
      in fold (mask_step src width) (List.product [0..<unat height] [0..<unat width]) dst1)"

text \<open>\<open>changed\<close> says that the frame buffer is not the one of the old state; \<open>src\<close> are the mapped pixels.\<close>
definition vbox_cursor_atomic_update ::
    "host \<Rightarrow> nat \<Rightarrow> bool \<Rightarrow> u32 \<Rightarrow> u32 \<Rightarrow> int \<Rightarrow> int \<Rightarrow> u8 list \<Rightarrow> (vbox_dev, unit) call" where
  "vbox_cursor_atomic_update hst k changed width height hotspot_x hotspot_y src st =
     (if \<not> changed then hg_return () st
      else (let mask_size = ((width + 7) div 8 * height + 3) AND NOT 3;
                data_size = ucast (width * height * 4) + ucast mask_size :: u64;
                st1 = upd_crtc k (\<lambda>c. c\<lparr>cursor_enabled := True\<rparr>) st;
                cdata = copy_cursor_image src (cursor_data st1) width height (unat mask_size);
                flags = VBOX_MOUSE_POINTER_VISIBLE OR VBOX_MOUSE_POINTER_SHAPE OR VBOX_MOUSE_POINTER_ALPHA
            in hg_bind (on_guest (hgsmi_update_pointer_shape hst flags
                   (min (word_of_int (max hotspot_x 0)) width) (min (word_of_int (max hotspot_y 0)) height)
                   width height cdata (ucast data_size))) (\<lambda>_. hg_return ()) (st1\<lparr>cursor_data := cdata\<rparr>)))"

definition vbox_cursor_atomic_disable :: "host \<Rightarrow> nat \<Rightarrow> (vbox_dev, unit) call" where
  "vbox_cursor_atomic_disable hst k st =
     (let st1 = upd_crtc k (\<lambda>c. c\<lparr>cursor_enabled := False\<rparr>) st
      in if list_ex cursor_enabled (crtc_list st1) then hg_return () st1
         else hg_bind (on_guest (hgsmi_update_pointer_shape hst 0 0 0 0 0 [] 0)) (\<lambda>_. hg_return ()) st1)"

subsection \<open>Connectors\<close>

definition edid_template :: "u8 list" where
  "edid_template =
     [0x00, 0xFF, 0xFF, 0xFF, 0xFF, 0xFF, 0xFF, 0x00, 0x58, 0x58, 0x00, 0x00, 0x00, 0x00, 0x00, 0x00,
      0x01, 0x00, 0x01, 0x03, 0x80, 0x00, 0x00, 0x78, 0xEE,
      0xEE, 0x91, 0xA3, 0x54, 0x4C, 0x99, 0x26, 0x0F, 0x50, 0x54, 0x00, 0x00, 0x00,
      0x01, 0x01, 0x01, 0x01, 0x01, 0x01, 0x01, 0x01, 0x01, 0x01, 0x01, 0x01, 0x01, 0x01, 0x01, 0x01,
      0x00, 0x00, 0x00, 0x06, 0x00, 0x00, 0x06, 0x00, 0x02, 0x02, 0x02, 0x02,
      0x00, 0x00, 0x00, 0x00, 0x00, 0x00,
      0x00, 0x00, 0x00, 0xFD, 0x00, 0x00, 0xC8, 0x00, 0xC8, 0x64, 0x00, 0x0A, 0x20, 0x20, 0x20, 0x20, 0x20, 0x20,
      0x00, 0x00, 0x00, 0xFC, 0x00, 0x56, 0x42, 0x4F, 0x58, 0x20, 0x6D, 0x6F, 0x6E, 0x69, 0x74, 0x6F, 0x72, 0x0A,
      0x00, 0x00, 0x00, 0x10, 0x00, 0x0A, 0x20, 0x20, 0x20, 0x20, 0x20, 0x20, 0x20, 0x20, 0x20, 0x20, 0x20, 0x20,
      0x00, 0x00]"

text \<open>The template with the mode filled in.\<close>
definition edid_fields :: "int \<Rightarrow> int \<Rightarrow> u8 list" where
  "edid_fields width height =
     (let w8 = (word_of_int :: int \<Rightarrow> u8);
          clock = ((width + 6) * (height + 6) * 60) sdiv 10000
      in edid_template[12 := w8 (width AND 0xff), 13 := w8 (drop_bit 8 width),
           14 := w8 (height AND 0xff), 15 := w8 (drop_bit 8 height),
           54 := w8 (clock AND 0xff), 55 := w8 (drop_bit 8 clock),
           56 := w8 (width AND 0xff), 58 := w8 (drop_bit 4 width AND 0xf0),
           59 := w8 (height AND 0xff), 61 := w8 (drop_bit 4 height AND 0xf0)])"

text \<open>The data handed to \<open>drm_connector_update_edid_property\<close>.\<close>
definition vbox_set_edid :: "int \<Rightarrow> int \<Rightarrow> u8 list" where
  "vbox_set_edid width height =
     (let edid = edid_fields width height;
          total = sum_list (map (ucast :: u8 \<Rightarrow> u32) (take 127 edid))
      in edid[127 := ucast ((0x100 - (total AND 0xFF)) AND 0xFF)])"

text \<open>What \<open>vbox_get_modes\<close> leaves on the connector: the mode it prefers, the EDID and the suggested position.\<close>
record conn_props =
  preferred_mode :: "(int \<times> int) option"
  cp_edid :: "u8 list"
  suggested_x :: u64
  suggested_y :: u64

text \<open>\<open>noedid\<close> is the number of standard modes, \<open>cvt\<close> says that \<open>drm_cvt_mode\<close> gave a mode.\<close>
definition vbox_get_modes :: "host \<Rightarrow> u32 \<Rightarrow> bool \<Rightarrow> nat \<Rightarrow> (vbox_dev, u32 \<times> conn_props) call" where
  "vbox_get_modes hst noedid cvt n st =
     (let conn = connector_list st ! n; crtc = crtc_list st ! conn_crtc conn;
          width = (if hint_width conn \<noteq> 0 then sint (hint_width conn) else 1024);
          height = (if hint_height conn \<noteq> 0 then sint (hint_height conn) else 768)
      in hg_bind (on_guest (hgsmi_report_flags_location hst (GUEST_HEAP_OFFSET (vs_vbox st) + ucast HOST_FLAGS_OFFSET))) (\<lambda>_.
         hg_bind (if crtc_id crtc = 0 then on_guest (vbox_report_caps hst) else hg_return ()) (\<lambda>_.
         hg_return (if cvt then noedid + 1 else noedid,
           \<lparr>preferred_mode = (if cvt then Some (width, height) else None),
            cp_edid = vbox_set_edid width height,
            suggested_x = (if x_hint crtc \<noteq> - 1 then ucast (x_hint crtc) else 0),
            suggested_y = (if y_hint crtc \<noteq> - 1 then ucast (y_hint crtc) else 0)\<rparr>))) st)"

text \<open>True for \<open>connector_status_connected\<close>.\<close>
definition vbox_connector_detect :: "vbox_dev \<Rightarrow> nat \<Rightarrow> bool" where
  "vbox_connector_detect st n = (\<not> hint_disconnected (connector_list st ! n))"

end
