(* ===== verification/Vbox_Mode_Laws.thy ===== *)
theory Vbox_Mode_Laws
  imports Vbox_Mode
begin

text \<open>
  Properties of mode setting on the VirtualBox adapter: the cursor mask, the EDID, the safety of a mode
  set with the input mapping it leaves, and the way of a damage rectangle into the ring of its screen.
\<close>

subsection \<open>The cursor image\<close>

lemma mask_step_length [simp]: "length (mask_step src width ij dst) = length dst"
  by (simp add: mask_step_def Let_def split: prod.split)

lemma mask_fold_length [simp]: "length (fold (mask_step src width) ps dst) = length dst"
  by (induction ps arbitrary: dst) simp_all

text \<open>The position of a pixel's mask bit, and the bit as the steps of the loop set it.\<close>
definition mask_byte :: "u32 \<Rightarrow> nat \<times> nat \<Rightarrow> nat" where
  "mask_byte width ij = (case ij of (i, j) \<Rightarrow> i * unat ((width + 7) div 8) + j div 8)"

definition opaque :: "u8 list \<Rightarrow> u32 \<Rightarrow> nat \<times> nat \<Rightarrow> bool" where
  "opaque src width ij = (case ij of (i, j) \<Rightarrow> src_pixel src (i * unat width + j) > 0xf0000000)"

lemma bit_80: "bit (drop_bit s (0x80 :: u8)) b \<longleftrightarrow> s + b = 7"
proof -
  have "(0x80 :: u8) = 2 ^ 7" by simp
  then show ?thesis by (simp only: bit_drop_bit_eq o_def bit_exp_iff) auto
qed

lemma mask_step_bit:
  assumes "k < length dst"
  shows "bit (mask_step src width p dst ! k) b \<longleftrightarrow>
    bit (dst ! k) b \<or> (k = mask_byte width p \<and> snd p mod 8 + b = 7 \<and> opaque src width p)"
  using assms
  by (cases p; cases "k = mask_byte width p")
     (auto simp: mask_step_def mask_byte_def opaque_def Let_def bit_or_iff bit_80)

lemma mask_fold_bit:
  assumes "k < length dst"
  shows "bit (fold (mask_step src width) ps dst ! k) b \<longleftrightarrow>
    bit (dst ! k) b \<or> (\<exists>p \<in> set ps. k = mask_byte width p \<and> snd p mod 8 + b = 7 \<and> opaque src width p)"
  using assms by (induction ps arbitrary: dst) (auto simp: mask_step_bit)

lemma byte_in_line: "j div 8 < (w + 7) div 8" if "j < w" for j w :: nat
proof -
  have "j div 8 < (j + 8) div 8" by simp
  also have "\<dots> \<le> (w + 7) div 8" using that by (intro div_le_mono) simp
  finally show ?thesis .
qed

lemma line_size: "unat (width + 7 :: u32) = unat width + 7 \<Longrightarrow> unat ((width + 7) div 8) = (unat width + 7) div 8"
  by (simp add: unat_div_distrib)

lemma mask_byte_inj:
  assumes "j < unat width" and "j' < unat width" and "unat width + 7 < 2 ^ 32"
    and "mask_byte width (i, j) = mask_byte width (i', j')" and "j mod 8 = j' mod 8"
  shows "i = i' \<and> j = j'"
proof -
  let ?l = "(unat width + 7) div 8"
  have l: "unat ((width + 7) div 8) = ?l" using assms(3) by (intro line_size) (simp add: unat_add_small)
  have lt: "j div 8 < ?l" "j' div 8 < ?l" using assms(1,2) by (simp_all add: byte_in_line)
  have "(i * ?l + j div 8) div ?l = (i' * ?l + j' div 8) div ?l" using assms(4) l by (simp add: mask_byte_def)
  then have "i = i'" using lt by (simp add: div_mult_self3)
  moreover from this have "j div 8 = j' div 8" using assms(4) by (simp add: mask_byte_def)
  ultimately show ?thesis using assms(5) by (metis div_mult_mod_eq)
qed

lemma mask_byte_bound:
  assumes "i < unat height" and "j < unat width" and "unat width + 7 < 2 ^ 32"
  shows "mask_byte width (i, j) < unat height * ((unat width + 7) div 8)"
proof -
  let ?l = "(unat width + 7) div 8"
  have l: "unat ((width + 7) div 8) = ?l" using assms(3) by (intro line_size) (simp add: unat_add_small)
  have "j div 8 < ?l" using assms(2) by (rule byte_in_line)
  then have "mask_byte width (i, j) < Suc i * ?l" by (simp add: mask_byte_def l)
  also have "\<dots> \<le> unat height * ?l" using assms(1) by (intro mult_le_mono1) simp
  finally show ?thesis .
qed

lemma fold_mask_outside:
  assumes "\<And>p. p \<in> set ps \<Longrightarrow> mask_byte width p < n" and "n \<le> k" and "k < length dst"
  shows "fold (mask_step src width) ps dst ! k = dst ! k"
proof (rule bit_eqI)
  have "k \<noteq> mask_byte width p" if "p \<in> set ps" for p using assms(1) [OF that] assms(2) by simp
  then show "bit (fold (mask_step src width) ps dst ! k) b = bit (dst ! k) b" for b
    using assms(3) by (auto simp: mask_fold_bit)
qed


text \<open>
  The mask is not the one the comment describes, a bit for each alpha above 0xF0: a pixel of alpha 0xF0 with any colour is in it.
\<close>
lemma cursor_mask_counts_colour:
  assumes "src = le32 0xf0000001"
  shows "src_pixel src 0 > 0xf0000000" and "drop_bit 24 (src_pixel src 0) = 0xf0"
proof -
  have "src_pixel src 0 = 0xf0000001" unfolding assms src_pixel_def using of_le32 [of "0xf0000001"] by simp
  then show "src_pixel src 0 > 0xf0000000" "drop_bit 24 (src_pixel src 0) = 0xf0" by simp_all
qed

text \<open>
  The mask is only ever added to: a bit set for an opaque pixel of an earlier cursor stays in the
  mask of every later one, whatever its pixels.
\<close>
lemma cursor_mask_stale:
  assumes "k < mask_size" and "mask_size \<le> length dst" and "bit (dst ! k) b"
  shows "bit (copy_cursor_image src dst width height mask_size ! k) b"
  using assms by (simp add: copy_cursor_image_def Let_def mask_fold_bit nth_append)


subsection \<open>The EDID\<close>

lemma ucast_8_add: "(ucast (x + y :: u32) :: u8) = ucast x + ucast y"
  by (simp add: word_unat_eq_iff unsigned_ucast_eq unat_word_ariths take_bit_eq_mod mod_add_eq mod_mod_cancel)

lemma ucast_8_diff: "(ucast (x - y :: u32) :: u8) = ucast x - ucast y"
  by (metis ucast_8_add add_diff_cancel_right' diff_add_cancel)

lemma ucast_8_mask: "(ucast (x AND 0xFF :: u32) :: u8) = ucast x"
proof -
  have "(0xFF :: u32) = mask 8" by (simp add: mask_eq_exp_minus_1)
  then show ?thesis by (simp only: flip: take_bit_eq_mask) (auto intro!: bit_word_eqI simp: bit_simps)
qed

lemma ucast_8_up: "(ucast (ucast (x :: u8) :: u32) :: u8) = x"
  by (rule bit_word_eqI) (auto simp: bit_simps)

lemma sum_list_ucast: "(ucast (sum_list (map (ucast :: u8 \<Rightarrow> u32) bs)) :: u8) = sum_list bs"
  by (induction bs) (simp_all add: ucast_8_add ucast_8_up)

lemma edid_sum:
  assumes "length bs = 128"
  shows "sum_list (bs[127 := ucast ((0x100 - (sum_list (map (ucast :: u8 \<Rightarrow> u32) (take 127 bs)) AND 0xFF)) AND 0xFF)]) = 0"
proof -
  have "bs[127 := x] = take 127 bs @ [x]" for x using assms by (simp add: upd_conv_take_nth_drop)
  moreover have "(ucast (0x100 :: u32) :: u8) = 0" by simp
  ultimately show ?thesis
    by (simp add: ucast_8_mask ucast_8_diff sum_list_ucast)
qed

lemma edid_template_length: "length edid_template = 128"
  by (simp add: edid_template_def)

lemma byte_of_int: "uint (word_of_int x :: u8) = x mod 256"
  by (simp add: uint_word_of_int take_bit_eq_mod)

lemma and_ff_int: "(x :: int) AND 0xff = x mod 256"
proof -
  have "(0xff :: int) = mask 8" by (simp add: mask_eq_exp_minus_1)
  then show ?thesis by (simp only: flip: take_bit_eq_mask) (simp add: take_bit_eq_mod)
qed

text \<open>The high nibble of a twelve-bit size.\<close>
lemma and_f0_int: "(drop_bit 4 x AND 0xf0 :: int) = 16 * ((x div 256) mod 16)"
proof -
  have "drop_bit 4 x AND push_bit 4 (mask 4) = push_bit 4 (drop_bit 4 (drop_bit 4 x) AND mask 4)"
    by (auto intro!: bit_eqI simp: bit_simps)
  moreover have "(0xf0 :: int) = push_bit 4 (mask 4)" by (simp add: mask_eq_exp_minus_1 push_bit_eq_mult)
  ultimately have "drop_bit 4 x AND 0xf0 = push_bit 4 (drop_bit 4 (drop_bit 4 x) AND mask 4)" by simp
  also have "\<dots> = 16 * ((x div 256) mod 16)"
    by (simp add: push_bit_eq_mult drop_bit_eq_div take_bit_eq_mod zdiv_zmult2_eq [of 16 x 16, symmetric, simplified]
        flip: take_bit_eq_mask)
  finally show ?thesis .
qed

lemma two_bytes: "0 \<le> x \<Longrightarrow> x < 65536 \<Longrightarrow> x mod 256 + 256 * ((x div 256) mod 256) = (x :: int)"
  by (simp add: div_pos_pos_trivial mod_pos_pos_trivial)

lemma twelve_bits: "0 \<le> x \<Longrightarrow> x < 4096 \<Longrightarrow> x mod 256 + 16 * (16 * ((x div 256) mod 16)) = (x :: int)"
  by (simp add: mod_pos_pos_trivial)

lemma edid_field_values:
  "edid_fields w h ! 12 = word_of_int (w AND 0xff)" "edid_fields w h ! 13 = word_of_int (w div 256)"
  "edid_fields w h ! 14 = word_of_int (h AND 0xff)" "edid_fields w h ! 15 = word_of_int (h div 256)"
  "edid_fields w h ! 56 = word_of_int (w AND 0xff)" "edid_fields w h ! 58 = word_of_int (drop_bit 4 w AND 0xf0)"
  "edid_fields w h ! 59 = word_of_int (h AND 0xff)" "edid_fields w h ! 61 = word_of_int (drop_bit 4 h AND 0xf0)"
  by (simp_all add: edid_fields_def Let_def edid_template_length drop_bit_eq_div [of 8])

text \<open>
  C18. The EDID made up for a mode is well-formed: 128 bytes whose sum is 0 modulo 256. Its serial number
  gives back width and height of a mode below 65536, so that different modes have different
  serial numbers, and its first timing gives back those of a mode below 4096.
\<close>
theorem vbox_set_edid_decodes:
  assumes "0 \<le> width" and "width < 65536" and "0 \<le> height" and "height < 65536" and "edid = vbox_set_edid width height"
  shows "length edid = 128 \<and> sum_list edid = 0 \<and>
    uint (edid ! 12) + 256 * uint (edid ! 13) = width \<and> uint (edid ! 14) + 256 * uint (edid ! 15) = height \<and>
    (width < 4096 \<longrightarrow> uint (edid ! 56) + 16 * uint (edid ! 58) = width) \<and>
    (height < 4096 \<longrightarrow> uint (edid ! 59) + 16 * uint (edid ! 61) = height)"
proof -
  have len: "length (edid_fields width height) = 128" by (simp add: edid_fields_def Let_def edid_template_length)
  have "length edid = 128" "sum_list edid = 0"
    unfolding assms(5) vbox_set_edid_def Let_def using edid_sum [OF len] by (simp_all add: len)
  moreover have field: "edid ! i = edid_fields width height ! i" if "i \<noteq> 127" for i
    using that by (simp add: assms(5) vbox_set_edid_def Let_def)
  have v: "uint (edid ! 12) = width mod 256" "uint (edid ! 13) = (width div 256) mod 256"
    "uint (edid ! 14) = height mod 256" "uint (edid ! 15) = (height div 256) mod 256"
    "uint (edid ! 56) = width mod 256" "uint (edid ! 59) = height mod 256"
    "uint (edid ! 58) = 16 * ((width div 256) mod 16)" "uint (edid ! 61) = 16 * ((height div 256) mod 16)"
    by (simp_all add: field edid_field_values byte_of_int and_ff_int) (simp_all only: and_f0_int)
  ultimately show ?thesis
    unfolding v using two_bytes [OF assms(1,2)] two_bytes [OF assms(3,4)] twelve_bits [OF assms(1)] twelve_bits [OF assms(3)]
    by (intro conjI impI)
qed

theorem vbox_set_edid_decodes_witness:
  "uint (vbox_set_edid 1920 1080 ! 56) + 16 * uint (vbox_set_edid 1920 1080 ! 58) = 1920"
  using vbox_set_edid_decodes [OF _ _ _ _ refl, of 1920 1080] by simp

subsection \<open>Dirty rectangles\<close>

text \<open>The four coordinates in a command header, as the host reads them.\<close>
definition hdr_fields :: "u8 list \<Rightarrow> u16 list" where
  "hdr_fields bs = map (\<lambda>i. ucast (of_le (take 2 (drop (2 * i) bs)))) [0..<4]"

lemma cmd_hdr_length [simp]: "length (cmd_hdr c) = 8"
  by (simp add: cmd_hdr_def Let_def)

lemma cmd_hdr_fields:
  "hdr_fields (cmd_hdr c) = [word_of_int (rx1 c), word_of_int (ry1 c), word_of_int (rx2 c - rx1 c), word_of_int (ry2 c - ry1 c)]"
proof -
  have "[0..<4] = [0, 1, 2, 3 :: nat]" by (simp add: upt_rec)
  then show ?thesis by (simp add: hdr_fields_def cmd_hdr_def Let_def of_le16)
qed

lemma send_clip_appends:
  assumes "vbva_setting t hst v r g" and "vb_vbva ctx = Some v" and "\<not> buffer_overflow ctx"
    and "rd32 (g_mem g) v AND VBVA_F_MODE_ENABLED \<noteq> 0"
    and "r = v + of_nat (16 + 4 * unat (record_free_index (g_mem g) v))"
    and "unat (record_free_index (g_mem g) v) < 64"
    and "ring_used (g_mem g) v + 8 < ring_len (g_mem g) v"
  shows "\<exists>ctx' g'. send_clip hst c ctx g = Some (Inr (ctx', g')) \<and> g_pool g' = g_pool g \<and>
    taken t (g_mem g) \<le> taken t (g_mem g') \<and>
    (record_first_index (g_mem g') v = (record_free_index (g_mem g) v + 1) mod VBVA_MAX_RECORDS \<and> ctx' = ctx \<and>
     ring_contents (g_mem g') v = drop (taken t (g_mem g') - taken t (g_mem g)) (ring_contents (g_mem g) v) \<or>
     ctx' = ctx\<lparr>vb_record := None\<rparr> \<and> rd32 (g_mem g') r = 8 \<and> ring_ok (g_mem g') v \<and>
     ring_contents (g_mem g') v = drop (taken t (g_mem g') - taken t (g_mem g)) (ring_contents (g_mem g) v @ cmd_hdr c))"
proof -
  from vbva_begin_update_opens [OF assms(1,2,4,5,6)] obtain ok ctx1 g1 where
    b: "vbva_buffer_begin_update hst ctx g = Some (Inr ((ok, ctx1), g1))" "g_pool g1 = g_pool g"
    "if ok then ctx1 = ctx\<lparr>vb_record := Some r\<rparr> \<and> record_opened t v r (g_mem g) (g_mem g1)
     else ctx1 = ctx \<and> record_first_index (g_mem g1) v = (record_free_index (g_mem g) v + 1) mod VBVA_MAX_RECORDS \<and>
       (\<exists>k \<le> ring_used (g_mem g) v. taken t (g_mem g1) = taken t (g_mem g) + k \<and>
          ring_contents (g_mem g1) v = drop k (ring_contents (g_mem g) v))" by blast
  show ?thesis
  proof (cases ok)
    case False
    then show ?thesis using b by (auto simp: send_clip_def hg_return_def)
  next
    case True
    then have o: "ctx1 = ctx\<lparr>vb_record := Some r\<rparr>" "record_opened t v r (g_mem g) (g_mem g1)" using b(3) by simp_all
    then obtain k where "ring_contents (g_mem g1) v = drop k (ring_contents (g_mem g) v)"
      by (auto simp: record_opened_def)
    then have "ring_used (g_mem g1) v \<le> ring_used (g_mem g) v"
      unfolding ring_contents_def by (metis diff_le_self length_drop length_window)
    then obtain g2 where w: "vbva_write hst ctx1 (cmd_hdr c) 8 g1 = Some (Inr ((True, ctx1), g2))"
      using vbva_write_fits [of g1 v r "cmd_hdr c" 8 ctx1 hst] o assms(1,2,3,7)
      by (auto simp: record_opened_def VBVA_F_RECORD_PARTIAL_def vbva_setting_def)
    have b1: "vbva_buffer_begin_update hst ctx g = Some (Inr ((True, ctx1), g1))" using b(1) True by simp
    obtain g3 where e: "vbva_buffer_end_update ctx1 g2 = Inr (ctx\<lparr>vb_record := None\<rparr>, g3)"
      "rd32 (g_mem g3) r = 8" "g_pool g3 = g_pool g" "ring_ok (g_mem g3) v"
      "taken t (g_mem g) \<le> taken t (g_mem g3)"
      "ring_contents (g_mem g3) v = drop (taken t (g_mem g3) - taken t (g_mem g)) (ring_contents (g_mem g) v @ cmd_hdr c)"
      using update_cycle [OF assms(1-6) _ _ b1 w] by auto
    then show ?thesis using b1 w by (auto simp: send_clip_def)
  qed
qed

text \<open>
  C16. A damage rectangle of the primary plane reaches the ring of its screen when the ring has room for a
  header. Either the record queue is full even after asking the host to empty it, and the
  rectangle is skipped with nothing added to the ring; or what the ring holds is what it held followed by a
  header from which the host reads the rectangle's corner and size modulo 65536, and the record
  that announces it is closed with length 8. In both cases exactly as many bytes are gone from the front of the
  ring as the host has counted as taken.
\<close>
theorem damage_reaches_ring:
  assumes "vbva_setting t hst v r g" and "vb_vbva ctx = Some v" and "\<not> buffer_overflow ctx"
    and "rd32 (g_mem g) v AND VBVA_F_MODE_ENABLED \<noteq> 0"
    and "r = v + of_nat (16 + 4 * unat (record_free_index (g_mem g) v))"
    and "unat (record_free_index (g_mem g) v) < 64"
    and "ring_used (g_mem g) v + 8 < ring_len (g_mem g) v"
  shows "\<exists>ctx' g'. send_clip hst c ctx g = Some (Inr (ctx', g')) \<and> g_pool g' = g_pool g \<and>
    taken t (g_mem g) \<le> taken t (g_mem g') \<and>
    (record_first_index (g_mem g') v = (record_free_index (g_mem g) v + 1) mod VBVA_MAX_RECORDS \<and> ctx' = ctx \<and>
     ring_contents (g_mem g') v = drop (taken t (g_mem g') - taken t (g_mem g)) (ring_contents (g_mem g) v) \<or>
     ctx' = ctx\<lparr>vb_record := None\<rparr> \<and> rd32 (g_mem g') r = 8 \<and> ring_ok (g_mem g') v \<and>
     (\<exists>hdr. ring_contents (g_mem g') v = drop (taken t (g_mem g') - taken t (g_mem g)) (ring_contents (g_mem g) v @ hdr) \<and>
        length hdr = 8 \<and>
        hdr_fields hdr = [word_of_int (rx1 c), word_of_int (ry1 c), word_of_int (rx2 c - rx1 c), word_of_int (ry2 c - ry1 c)]))"
  using send_clip_appends [OF assms, of c] cmd_hdr_fields [of c] cmd_hdr_length [of c] by blast

theorem damage_reaches_ring_witness:
  "\<exists>ctx' g'. send_clip drain_host \<lparr>rx1 = 1, ry1 = 2, rx2 = 5, ry2 = 7\<rparr> demo_ctx demo_ready = Some (Inr (ctx', g')) \<and>
     taken demo_count (g_mem demo_ready) \<le> taken demo_count (g_mem g')"
proof -
  note s = demo_ready_setting
  have "rd32 (g_mem demo_ready) demo_vbva AND VBVA_F_MODE_ENABLED \<noteq> 0" using s(6) by (simp add: VBVA_F_MODE_ENABLED_def)
  then show ?thesis
    using damage_reaches_ring [OF s(1), of demo_ctx "\<lparr>rx1 = 1, ry1 = 2, rx2 = 5, ry2 = 7\<rparr>"] s by (auto simp: demo_ctx_def)
qed

subsection \<open>Setting a mode\<close>

text \<open>The frame buffers of the device have a pitch and at least one byte per pixel.\<close>
definition fbs_ok :: "drm_view \<Rightarrow> bool" where
  "fbs_ok drm \<longleftrightarrow> (\<forall>dc \<in> set (drm_crtcs drm). \<forall>fb. primary_fb dc = Some fb \<longrightarrow> fb_pitch fb \<noteq> 0 \<and> fb_cpp fb \<noteq> 0)"

lemma write_ioports_pool: "g_pool (fold (\<lambda>(i, d). vbox_write_ioport i d) ws g) = g_pool g"
  by (induction ws arbitrary: g) (auto simp: vbox_write_ioport_def)

lemma write_ioports_keeps: "guest_ok hst g \<Longrightarrow> keeps_heap g (write_ioports ws)"
  by (simp add: keeps_heap_def write_ioports_def hg_return_def write_ioports_pool)

text \<open>The parts of the device that talking to the host leaves alone.\<close>
definition same_dev :: "vbox_dev \<Rightarrow> vbox_dev \<Rightarrow> bool" where
  "same_dev st st' \<longleftrightarrow> st' = st\<lparr>vs_guest := vs_guest st'\<rparr>"

lemma same_dev_refl: "same_dev st st"
  by (simp add: same_dev_def)

lemma same_dev_trans: "same_dev a b \<Longrightarrow> same_dev b c \<Longrightarrow> same_dev a c"
  unfolding same_dev_def by (cases a; cases b; cases c) simp

lemma same_dev_fields:
  assumes "same_dev st st'"
  shows "crtc_list st' = crtc_list st" "input_mapping_width st' = input_mapping_width st"
    "input_mapping_height st' = input_mapping_height st" "single_framebuffer st' = single_framebuffer st"
  using assms unfolding same_dev_def by (cases st; cases st'; simp)+

lemma same_dev_bind:
  assumes "ends f st (\<lambda>_ st'. guest_ok hst (vs_guest st') \<and> same_dev st st')" and "same_dev st0 st"
    and "\<And>x st'. guest_ok hst (vs_guest st') \<Longrightarrow> same_dev st0 st' \<Longrightarrow> ends (k x) st' Q"
  shows "ends (hg_bind f k) st Q"
  unfolding ends_bind by (rule ends_mono [OF assms(1)]) (use assms(2,3) same_dev_trans in blast)

lemma on_guest_ends:
  assumes "\<And>g. guest_ok hst g \<Longrightarrow> keeps_heap g f" and "guest_ok hst (vs_guest st)"
  shows "ends (on_guest f) st (\<lambda>_ st'. guest_ok hst (vs_guest st') \<and> same_dev st st')"
  using ends_keeps_heap [OF assms(1) [OF assms(2)] assms(2), of "\<lambda>_ g. guest_ok hst g"]
  by (simp add: same_dev_def)

lemma modeset_ends:
  assumes "guest_ok hst (vs_guest st)" and "fbs_ok drm" and "k < length (drm_crtcs drm)"
  shows "ends (vbox_do_modeset hst drm k) st (\<lambda>_ st'. guest_ok hst (vs_guest st') \<and> same_dev st st')"
proof -
  let ?f = "primary_fb (drm_crtcs drm ! k)"
  have fb: "fb_pitch fb \<noteq> 0" "fb_cpp fb \<noteq> 0" if "?f = Some fb" for fb
    using that assms(2,3) nth_mem [of k "drm_crtcs drm"] by (auto simp: fbs_ok_def)
  have regs: "keeps_heap g (hg_bind (write_ioports ws) (\<lambda>_. hgsmi_process_display_info hst a1 a2 a3 a4 a5 a6 a7 a8 a9))"
    if "guest_ok hst g" for g ws a1 a2 a3 a4 a5 a6 a7 a8 a9
  proof -
    have "guest_ok hst (fold (\<lambda>(i, d). vbox_write_ioport i d) ws g)"
      by (rule guest_ok_pool [OF that]) (rule write_ioports_pool)
    from process_display_info_keeps [OF this] show ?thesis
      by (simp add: keeps_heap_def write_ioports_def hg_return_def hg_bind_def write_ioports_pool)
  qed
  have "\<exists>f. vbox_do_modeset hst drm k st = on_guest f st \<and> (\<forall>g. guest_ok hst g \<longrightarrow> keeps_heap g f)"
  proof (cases ?f)
    case None
    then show ?thesis by (auto simp: vbox_do_modeset_def Let_def intro!: exI process_display_info_keeps)
  next
    case (Some fb)
    note fb = fb [OF this]
    have "(word_of_int (sint (fb_pitch fb)) :: u32) \<noteq> 0" using fb(1) by simp
    moreover have "uint (fb_cpp fb) * 8 \<noteq> 0" using fb(2) by (simp add: uint_0_iff)
    ultimately show ?thesis using Some
      by (simp add: vbox_do_modeset_def Let_def) (blast intro: process_display_info_keeps regs)
  qed
  then show ?thesis using on_guest_ends [OF _ assms(1)] by (fastforce simp: ends_def)
qed

lemma modeset_all_ends:
  assumes "guest_ok hst (vs_guest st)" and "fbs_ok drm" and "\<forall>k \<in> set ks. k < length (drm_crtcs drm)"
  shows "ends (modeset_all hst drm ks) st (\<lambda>_ st'. guest_ok hst (vs_guest st') \<and> same_dev st st')"
  using assms
proof (induction ks arbitrary: st)
  case Nil
  then show ?case by (simp add: same_dev_def)
next
  case (Cons k ks)
  have k: "k < length (drm_crtcs drm)" using Cons.prems(3) by simp
  show ?case
    unfolding modeset_all.simps ends_bind
    by (rule ends_mono [OF modeset_ends [OF Cons.prems(1,2) k]], elim conjE, rule ends_mono [OF Cons.IH])
       (use Cons.prems(2,3) same_dev_trans in auto)
qed

lemma set_view_ends:
  assumes "guest_ok hst (vs_guest st)"
  shows "ends (vbox_set_view hst k) st (\<lambda>_ st'. guest_ok hst (vs_guest st') \<and> same_dev st st')"
proof -
  have "keeps_heap g (hg_bind (hgsmi_call hst 16 HGSMI_CH_VBVA VBVA_INFO_VIEW
      [(0, le32 a), (4, le32 b), (8, le32 c), (12, le32 d)] (\<lambda>m p. ())) (\<lambda>r. hg_return (h r)))" if "guest_ok hst g" for g a b c d h
    using that by (intro keeps_heap_then keeps_heap_call) simp_all
  from on_guest_ends [OF this assms] show ?thesis by (simp add: vbox_set_view_def ends_def Let_def)
qed

subsection \<open>The input mapping\<close>

lemma scan_framebuffers_some:
  "scan_framebuffers helper (Some f) s fbs = Inr (Some f, s \<and> (\<forall>f' \<in> set (List.map_filter (\<lambda>a. a) fbs). fb_id f' = fb_id f))"
  by (induction helper "Some f" s fbs rule: scan_framebuffers.induct) (auto simp: map_filter_simps)

lemma scan_framebuffers_none:
  "scan_framebuffers helper None True fbs =
     (case List.map_filter (\<lambda>a. a) fbs of
        [] \<Rightarrow> Inr (None, True)
      | f # fs \<Rightarrow>
          (case helper of None \<Rightarrow> Inl BUG
           | Some h \<Rightarrow> Inr (Some f, h = Some (fb_id f) \<or> (\<forall>f' \<in> set fs. fb_id f' = fb_id f))))"
  by (induction fbs) (auto simp: map_filter_simps scan_framebuffers_some split: option.split)

text \<open>The reference for the total span, over the natural numbers.\<close>
primrec max_over :: "('a \<Rightarrow> nat) \<Rightarrow> 'a list \<Rightarrow> nat" where
  "max_over f [] = 0"
| "max_over f (x # xs) = max (f x) (max_over f xs)"

lemma ucast_16_le: "unat (x :: u32) < 65536 \<Longrightarrow> unat (ucast x :: u16) = unat x"
  by (simp add: unsigned_ucast_eq take_bit_nat_eq_self)

lemma unat_max: "unat (max a b) = max (unat a) (unat (b :: 'a :: len word))"
  by (simp add: max_def word_le_nat_alt)

lemma screens_extent_max:
  assumes "\<forall>c \<in> set conns. unat (x_hint (crtcs ! conn_crtc c) + hint_width c) < 65536 \<and>
      unat (y_hint (crtcs ! conn_crtc c) + hint_height c) < 65536"
  shows "unat (fst (screens_extent crtcs conns (w, h))) =
      max (unat w) (max_over (\<lambda>c. unat (x_hint (crtcs ! conn_crtc c) + hint_width c)) conns) \<and>
    unat (snd (screens_extent crtcs conns (w, h))) =
      max (unat h) (max_over (\<lambda>c. unat (y_hint (crtcs ! conn_crtc c) + hint_height c)) conns)"
  using assms
  by (induction conns arbitrary: w h) (simp_all add: Let_def unat_max ucast_16_le max.assoc)

text \<open>
  How the range of the pointer device must follow from the frame buffers: nothing without one, the
  size of the first when it is the console's or the only one, else the span of all screens.
\<close>
definition mapping_follows :: "drm_view \<Rightarrow> vbox_dev \<Rightarrow> vbox_dev \<Rightarrow> bool" where
  "mapping_follows drm st st' \<longleftrightarrow>
     (case List.map_filter primary_fb (drm_crtcs drm) of
        [] \<Rightarrow> input_mapping_width st' = input_mapping_width st \<and> input_mapping_height st' = input_mapping_height st \<and>
              single_framebuffer st' = single_framebuffer st
      | f # fs \<Rightarrow>
          if fb_helper drm = Some (Some (fb_id f)) \<or> (\<forall>f' \<in> set fs. fb_id f' = fb_id f)
          then single_framebuffer st' \<and> input_mapping_width st' = fb_width f \<and> input_mapping_height st' = fb_height f
          else \<not> single_framebuffer st' \<and>
            unat (input_mapping_width st') =
              max_over (\<lambda>c. unat (x_hint (crtc_list st ! conn_crtc c) + hint_width c)) (connector_list st) \<and>
            unat (input_mapping_height st') =
              max_over (\<lambda>c. unat (y_hint (crtc_list st ! conn_crtc c) + hint_height c)) (connector_list st))"

definition hints_fit :: "vbox_dev \<Rightarrow> bool" where
  "hints_fit st \<longleftrightarrow> (\<forall>c \<in> set (connector_list st).
     unat (x_hint (crtc_list st ! conn_crtc c) + hint_width c) < 65536 \<and>
     unat (y_hint (crtc_list st ! conn_crtc c) + hint_height c) < 65536)"

lemma map_filter_id: "List.map_filter (\<lambda>a. a) (map f xs) = List.map_filter f xs"
  by (simp add: List.map_filter_def comp_def filter_map)

lemma input_mapping_follows:
  assumes "hints_fit st" and "fb_helper drm \<noteq> None"
  shows "ends (vbox_set_up_input_mapping drm) st (\<lambda>changed st'. mapping_follows drm st st' \<and>
    changed = (single_framebuffer st' \<noteq> single_framebuffer st) \<and> crtc_list st' = crtc_list st \<and> vs_guest st' = vs_guest st)"
proof (cases "List.map_filter primary_fb (drm_crtcs drm)")
  case Nil
  then show ?thesis
    by (auto simp: vbox_set_up_input_mapping_def scan_framebuffers_none map_filter_id mapping_follows_def Let_def ends_def hg_return_def
        intro: exI [of _ False])
next
  case (Cons f fs)
  obtain h where h: "fb_helper drm = Some h" using assms(2) by blast
  have up: "unat (ucast (x :: u16) :: u32) = unat x" for x
    using unsigned_less [of x, where ?'a = nat] by (simp add: unsigned_ucast_eq take_bit_nat_eq_self)
  let ?scan = "scan_framebuffers (fb_helper drm) None True (map primary_fb (drm_crtcs drm))"
  show ?thesis
  proof (cases "h = Some (fb_id f) \<or> (\<forall>f' \<in> set fs. fb_id f' = fb_id f)")
    case True
    then have "?scan = Inr (Some f, True)" using Cons h by (simp add: scan_framebuffers_none map_filter_id)
    then show ?thesis
      using True Cons h by (simp add: vbox_set_up_input_mapping_def mapping_follows_def Let_def ends_def hg_return_def)
  next
    case False
    then have "?scan = Inr (Some f, False)" using Cons h by (simp add: scan_framebuffers_none map_filter_id)
    then show ?thesis
      using False Cons h screens_extent_max [OF assms(1) [unfolded hints_fit_def], of 0 0]
      by (cases "screens_extent (crtc_list st) (connector_list st) (0, 0)")
         (simp add: vbox_set_up_input_mapping_def mapping_follows_def Let_def ends_def hg_return_def up)
  qed
qed

text \<open>Before the console is set up there is no helper, and a mapping with a frame buffer on some CRTC dereferences NULL.\<close>
lemma input_mapping_without_console_traps:
  assumes "fb_helper drm = None" and "List.map_filter primary_fb (drm_crtcs drm) \<noteq> []"
  shows "vbox_set_up_input_mapping drm st = Some (Inl BUG)"
  using assms by (auto simp: vbox_set_up_input_mapping_def scan_framebuffers_none map_filter_id split: list.split)

text \<open>The CRTC as \<open>vbox_crtc_set_base_and_mode\<close> leaves it.\<close>
definition based_crtc :: "drm_crtc \<Rightarrow> drm_framebuffer \<Rightarrow> u32 \<Rightarrow> u32 \<Rightarrow> vbox_crtc \<Rightarrow> vbox_crtc" where
  "based_crtc dc fb x y c =
     (if dc_enable dc then c\<lparr>cr_width := ucast (dc_hdisplay dc), cr_height := ucast (dc_vdisplay dc)\<rparr> else c)
       \<lparr>cr_x := x, cr_y := y, fb_offset := ucast (fb_vram fb)\<rparr>"

lemma based_crtc_hints:
  "x_hint ((cs[k := based_crtc dc fb x y (cs ! k)]) ! i) = x_hint (cs ! i)"
  "y_hint ((cs[k := based_crtc dc fb x y (cs ! k)]) ! i) = y_hint (cs ! i)"
  by (cases "i = k"; cases "k < length cs"; simp add: based_crtc_def list_update_beyond)+

lemma set_base_ends:
  assumes "guest_ok hst (vs_guest st)" and "fbs_ok drm" and "k < length (crtc_list st)"
    and "length (drm_crtcs drm) = length (crtc_list st)" and "hints_fit st" and "dc = drm_crtcs drm ! k"
    and "dc_needs_modeset dc \<Longrightarrow> fb_helper drm \<noteq> None"
  shows "ends (vbox_crtc_set_base_and_mode hst drm k fb x y) st (\<lambda>_ st'. guest_ok hst (vs_guest st') \<and>
    crtc_list st' = (crtc_list st)[k := based_crtc dc fb x y (crtc_list st ! k)] \<and>
    (if dc_needs_modeset dc then mapping_follows drm st st'
     else input_mapping_width st' = input_mapping_width st \<and> input_mapping_height st' = input_mapping_height st \<and>
          single_framebuffer st' = single_framebuffer st))"
  (is "ends _ _ ?Q")
proof -
  define st2 where "st2 = st\<lparr>crtc_list := (crtc_list st)[k := based_crtc dc fb x y (crtc_list st ! k)]\<rparr>"
  have st2: "upd_crtc k (\<lambda>c. c\<lparr>cr_x := x, cr_y := y, fb_offset := ucast (fb_vram fb)\<rparr>) (if dc_enable dc
      then upd_crtc k (\<lambda>c. c\<lparr>cr_width := ucast (dc_hdisplay dc), cr_height := ucast (dc_vdisplay dc)\<rparr>) st else st) = st2"
    using assms(3) by (simp add: st2_def upd_crtc_def based_crtc_def)
  have fit: "hints_fit st2" using assms(5) by (simp add: hints_fit_def st2_def based_crtc_hints)
  have mapped: "ends (if dc_needs_modeset dc then vbox_set_up_input_mapping drm else hg_return False) st2 (\<lambda>_ st3.
      vs_guest st3 = vs_guest st \<and> crtc_list st3 = crtc_list st2 \<and>
      (if dc_needs_modeset dc then mapping_follows drm st2 st3
       else input_mapping_width st3 = input_mapping_width st \<and> input_mapping_height st3 = input_mapping_height st \<and>
            single_framebuffer st3 = single_framebuffer st))"
    using ends_mono [OF input_mapping_follows [OF fit assms(7)]] by (auto simp: st2_def ends_def hg_return_def)
  have fin: "?Q u st'" if st3: "vs_guest st3 = vs_guest st" "crtc_list st3 = crtc_list st2"
      "if dc_needs_modeset dc then mapping_follows drm st2 st3
       else input_mapping_width st3 = input_mapping_width st \<and> input_mapping_height st3 = input_mapping_height st \<and>
            single_framebuffer st3 = single_framebuffer st"
      and fin: "guest_ok hst (vs_guest st')" "same_dev st3 st'" for u :: unit and st3 st'
  proof -
    note f = same_dev_fields [OF fin(2)]
    have "mapping_follows drm st st' \<longleftrightarrow> mapping_follows drm st2 st3"
      unfolding mapping_follows_def f st2_def
      by (cases "List.map_filter primary_fb (drm_crtcs drm)") (simp_all add: based_crtc_hints)
    moreover have "crtc_list st' = (crtc_list st)[k := based_crtc dc fb x y (crtc_list st ! k)]"
      using f(1) st3(2) by (simp add: st2_def)
    ultimately show ?thesis using fin(1) st3(3) f(2-4) by (cases "dc_needs_modeset dc") simp_all
  qed
  have rest: "ends (hg_bind (if changed then modeset_all hst drm (filter (\<lambda>i. i \<noteq> k) [0..<length (crtc_list st3)]) else hg_return ()) (\<lambda>_.
         hg_bind (vbox_set_view hst k) (\<lambda>_.
         hg_bind (vbox_do_modeset hst drm k) (\<lambda>_ st4.
         hg_bind (if dc_needs_modeset dc
                  then on_guest (hgsmi_update_input_mapping hst 0 0 (input_mapping_width st4) (input_mapping_height st4))
                  else hg_return (Inr ())) (\<lambda>_. hg_return ()) st4)))) st3 ?Q"
    if st3: "vs_guest st3 = vs_guest st" "crtc_list st3 = crtc_list st2"
      "if dc_needs_modeset dc then mapping_follows drm st2 st3
       else input_mapping_width st3 = input_mapping_width st \<and> input_mapping_height st3 = input_mapping_height st \<and>
            single_framebuffer st3 = single_framebuffer st" for changed st3
  proof (rule same_dev_bind [OF _ same_dev_refl])
    show "ends (if changed then modeset_all hst drm (filter (\<lambda>i. i \<noteq> k) [0..<length (crtc_list st3)]) else hg_return ()) st3
        (\<lambda>_ st'. guest_ok hst (vs_guest st') \<and> same_dev st3 st')"
      using modeset_all_ends [OF _ assms(2), of hst st3] assms(1,4) st3(1,2) by (simp add: st2_def same_dev_refl)
    fix st4 :: vbox_dev
    assume 4: "guest_ok hst (vs_guest st4)" "same_dev st3 st4"
    show "ends (hg_bind (vbox_set_view hst k) (\<lambda>_. hg_bind (vbox_do_modeset hst drm k) (\<lambda>_ st4.
         hg_bind (if dc_needs_modeset dc
                  then on_guest (hgsmi_update_input_mapping hst 0 0 (input_mapping_width st4) (input_mapping_height st4))
                  else hg_return (Inr ())) (\<lambda>_. hg_return ()) st4))) st4 ?Q"
    proof (rule same_dev_bind [OF set_view_ends [OF 4(1)] 4(2)], rule same_dev_bind [OF modeset_ends])
      fix st5 :: vbox_dev
      assume 5: "guest_ok hst (vs_guest st5)"
      have "ends (if dc_needs_modeset dc
                  then on_guest (hgsmi_update_input_mapping hst 0 0 (input_mapping_width st5) (input_mapping_height st5))
                  else hg_return (Inr ())) st5 (\<lambda>_ st'. guest_ok hst (vs_guest st') \<and> same_dev st5 st')"
        using on_guest_ends [OF update_input_mapping_keeps 5] 5 by (simp add: same_dev_refl)
      moreover assume "same_dev st3 st5"
      ultimately have "ends (hg_bind (if dc_needs_modeset dc
                  then on_guest (hgsmi_update_input_mapping hst 0 0 (input_mapping_width st5) (input_mapping_height st5))
                  else hg_return (Inr ())) (\<lambda>_. hg_return ())) st5 ?Q"
        by (rule same_dev_bind) (unfold ends_return, rule fin [OF st3])
      then show "ends (\<lambda>st5. hg_bind (if dc_needs_modeset dc
                  then on_guest (hgsmi_update_input_mapping hst 0 0 (input_mapping_width st5) (input_mapping_height st5))
                  else hg_return (Inr ())) (\<lambda>_. hg_return ()) st5) st5 ?Q"
        by (simp only: ends_def)
    qed (use assms(2-4) in simp_all)
  qed
  have "ends (hg_bind (if dc_needs_modeset dc then vbox_set_up_input_mapping drm else hg_return False) (\<lambda>changed st3.
       hg_bind (if changed then modeset_all hst drm (filter (\<lambda>i. i \<noteq> k) [0..<length (crtc_list st3)]) else hg_return ()) (\<lambda>_.
         hg_bind (vbox_set_view hst k) (\<lambda>_.
         hg_bind (vbox_do_modeset hst drm k) (\<lambda>_ st4.
         hg_bind (if dc_needs_modeset dc
                  then on_guest (hgsmi_update_input_mapping hst 0 0 (input_mapping_width st4) (input_mapping_height st4))
                  else hg_return (Inr ())) (\<lambda>_. hg_return ()) st4))) st3)) st2 ?Q"
    unfolding ends_bind [of _ _ st2]
    by (rule ends_mono [OF mapped], elim conjE) (use rest in \<open>simp only: ends_def\<close>)
  then show ?thesis
    unfolding ends_def vbox_crtc_set_base_and_mode_def assms(6) [symmetric] st2 Let_def by simp
qed


subsection \<open>Witnesses\<close>

definition demo_fb :: drm_framebuffer where
  "demo_fb = \<lparr>fb_id = 7, fb_width = 800, fb_height = 600, fb_cpp = 4, fb_pitch = 3200, fb_vram = 0\<rparr>"

definition demo_drm :: drm_view where
  "demo_drm = \<lparr>drm_crtcs = [\<lparr>primary_fb = Some demo_fb, dc_y = 0, dc_enable = True, dc_hdisplay = 800, dc_vdisplay = 600,
     dc_needs_modeset = True\<rparr>], fb_helper = Some None\<rparr>"

definition demo_screen :: vbox_dev where
  "demo_screen = demo_dev\<lparr>crtc_list := [\<lparr>disconnected = False, crtc_id = 0, fb_offset = 0, cursor_enabled = False,
     x_hint = 0, y_hint = 0, cr_width = 0, cr_height = 0, cr_x = 0, cr_y = 0\<rparr>]\<rparr>"


end
