(* ===== verification/Lkpi_Virtio.thy ===== *)
theory Lkpi_Virtio
  imports Guest_Memory "HOL-Library.Multiset"
begin

text \<open>
  The LinuxKPI virtio shim (\<^verbatim>\<open>linuxkpi_virtio/linux_virtio.c\<close>): Linux' virtqueue interface on FreeBSD's. FreeBSD's
  virtqueue and virtio bus are not part of the sources: they are the record \<open>vq_ops\<close> and arguments,
  and what the shim relies on is the locale \<open>bsd_virtqueue\<close>, a queue of buffers the device has
  used. Shown here are that a request reaches the queue with its segments unmerged and its readable
  part counted exactly, that the drain loop of a driver loses no buffer, that the
  features asked for are the bits of the table, and that discovery leaks nothing.
\<close>

subsection \<open>Scatter lists\<close>

record scatterlist =
  sg_dma_address :: u64
  sg_phys :: u64
  sg_length :: u32

record segment =
  ss_paddr :: u64
  ss_len :: u64

definition lkpi_sg_paddr :: "scatterlist \<Rightarrow> u64" where
  "lkpi_sg_paddr sg = (if sg_dma_address sg \<noteq> 0 then sg_dma_address sg else sg_phys sg)"

subsection \<open>Virtqueues\<close>

text \<open>
  FreeBSD's virtqueue: free descriptors, enqueue (cookie, segments, readable and writable counts; 0 or
  an errno), dequeue, the interrupt and the notification.
\<close>
record 'q vq_ops =
  bsd_nfree :: "'q \<Rightarrow> int"
  bsd_enqueue :: "ptr \<Rightarrow> segment list \<Rightarrow> int \<Rightarrow> int \<Rightarrow> 'q \<Rightarrow> unit result \<times> 'q"
  bsd_dequeue :: "'q \<Rightarrow> (ptr \<times> u32) option \<times> 'q"
  bsd_enable_intr :: "'q \<Rightarrow> bool \<times> 'q"
  bsd_disable_intr :: "'q \<Rightarrow> 'q"
  bsd_notify :: "'q \<Rightarrow> 'q"

text \<open>\<open>sg_segs\<close> is the array of \<open>vq_sglist\<close>, with \<open>vq_sgmax\<close> entries, of which \<open>sg_nseg\<close> are in use.\<close>
record 'q lkpi_virtqueue =
  vq_index :: nat
  vq_name :: "string option"
  vq_callback :: "ptr option"
  vq_bsd :: 'q
  sg_segs :: "segment list"
  sg_nseg :: int
  vq_sgmax :: int

definition virtqueue_num_free :: "'q vq_ops \<Rightarrow> 'q lkpi_virtqueue \<Rightarrow> u32" where
  "virtqueue_num_free bsd vq = word_of_int (bsd_nfree bsd (vq_bsd vq))"

text \<open>
  The inner loop over one chain; the state is the array, the number of segments and the number of
  readable ones. False is the return with -ENOSPC.
\<close>
fun add_chain :: "int \<Rightarrow> bool \<Rightarrow> scatterlist list \<Rightarrow> segment list \<times> int \<times> int \<Rightarrow> bool \<times> segment list \<times> int \<times> int" where
  "add_chain sgmax out [] st = (True, st)"
| "add_chain sgmax out (s # ss) (segs, nseg, readable) =
     (if nseg \<ge> sgmax then (False, segs, nseg, readable)
      else add_chain sgmax out ss
             (segs[nat nseg := \<lparr>ss_paddr = lkpi_sg_paddr s, ss_len = ucast (sg_length s)\<rparr>], nseg + 1,
              if out then readable + 1 else readable))"

text \<open>The outer loop, from chain \<open>i\<close> on.\<close>
fun add_chains ::
    "int \<Rightarrow> nat \<Rightarrow> nat \<Rightarrow> scatterlist list list \<Rightarrow> segment list \<times> int \<times> int \<Rightarrow> bool \<times> segment list \<times> int \<times> int" where
  "add_chains sgmax out_sgs i [] st = (True, st)"
| "add_chains sgmax out_sgs i (c # cs) st =
     (case add_chain sgmax (i < out_sgs) c st of
        (False, st') \<Rightarrow> (False, st')
      | (True, st') \<Rightarrow> add_chains sgmax out_sgs (Suc i) cs st')"

definition lkpi_virtqueue_add_sgs ::
    "'q vq_ops \<Rightarrow> scatterlist list list \<Rightarrow> nat \<Rightarrow> nat \<Rightarrow> ptr \<Rightarrow> 'q lkpi_virtqueue \<Rightarrow> unit result \<times> 'q lkpi_virtqueue" where
  "lkpi_virtqueue_add_sgs bsd sgs out_sgs in_sgs cookie vq =
     (case add_chains (vq_sgmax vq) out_sgs 0 (take (out_sgs + in_sgs) sgs) (sg_segs vq, 0, 0) of
        (False, segs, _, _) \<Rightarrow> (Inl ENOSPC, vq\<lparr>sg_segs := segs\<rparr>)
      | (True, segs, nseg, readable) \<Rightarrow>
         (let (res, q) = bsd_enqueue bsd cookie (take (nat nseg) segs) readable (nseg - readable) (vq_bsd vq)
          in (res, vq\<lparr>sg_segs := segs, sg_nseg := nseg, vq_bsd := q\<rparr>)))"

definition lkpi_virtqueue_kick_prepare :: "'q lkpi_virtqueue \<Rightarrow> bool" where
  "lkpi_virtqueue_kick_prepare vq = True"

definition lkpi_virtqueue_notify :: "'q vq_ops \<Rightarrow> 'q lkpi_virtqueue \<Rightarrow> 'q lkpi_virtqueue" where
  "lkpi_virtqueue_notify bsd vq = vq\<lparr>vq_bsd := bsd_notify bsd (vq_bsd vq)\<rparr>"

text \<open>The cookie with its length, None for NULL.\<close>
definition lkpi_virtqueue_get_buf :: "'q vq_ops \<Rightarrow> 'q lkpi_virtqueue \<Rightarrow> (ptr \<times> u32) option \<times> 'q lkpi_virtqueue" where
  "lkpi_virtqueue_get_buf bsd vq = (let (r, q) = bsd_dequeue bsd (vq_bsd vq) in (r, vq\<lparr>vq_bsd := q\<rparr>))"

text \<open>\<open>bsd_enable_intr\<close> says true when more buffers arrived meanwhile.\<close>
definition lkpi_virtqueue_enable_cb :: "'q vq_ops \<Rightarrow> 'q lkpi_virtqueue \<Rightarrow> bool \<times> 'q lkpi_virtqueue" where
  "lkpi_virtqueue_enable_cb bsd vq = (let (more, q) = bsd_enable_intr bsd (vq_bsd vq) in (\<not> more, vq\<lparr>vq_bsd := q\<rparr>))"

definition lkpi_virtqueue_disable_cb :: "'q vq_ops \<Rightarrow> 'q lkpi_virtqueue \<Rightarrow> 'q lkpi_virtqueue" where
  "lkpi_virtqueue_disable_cb bsd vq = vq\<lparr>vq_bsd := bsd_disable_intr bsd (vq_bsd vq)\<rparr>"

text \<open>\<open>run\<close> runs a callback on its queue.\<close>
definition lkpi_virtqueue_intr :: "(ptr \<Rightarrow> 'q lkpi_virtqueue \<Rightarrow> 'q lkpi_virtqueue) \<Rightarrow> 'q lkpi_virtqueue \<Rightarrow> 'q lkpi_virtqueue" where
  "lkpi_virtqueue_intr run vq = (case vq_callback vq of None \<Rightarrow> vq | Some cb \<Rightarrow> run cb vq)"

subsection \<open>The configuration space\<close>

definition lkpi_virtio_has_feature :: "(u64 \<Rightarrow> bool) \<Rightarrow> nat \<Rightarrow> bool" where
  "lkpi_virtio_has_feature with_feature fbit = with_feature (push_bit fbit 1)"

text \<open>\<open>le16toh\<close> and its kin on the bytes of an integer in memory: \<open>big\<close> is the byte order of the machine.\<close>
definition letoh :: "bool \<Rightarrow> u8 list \<Rightarrow> u8 list" where
  "letoh big bs = (if big then rev bs else bs)"

text \<open>\<open>cfg\<close> reads bytes of the device's configuration; the result is what \<open>buf\<close> holds.\<close>
definition lkpi_virtio_cread_bytes :: "bool \<Rightarrow> (nat \<Rightarrow> nat \<Rightarrow> u8 list) \<Rightarrow> nat \<Rightarrow> nat \<Rightarrow> u8 list" where
  "lkpi_virtio_cread_bytes big cfg offset len =
     (if len = 1 then cfg offset 1
      else if len = 2 then letoh big (cfg offset 2)
      else if len = 4 then letoh big (cfg offset 4)
      else if len = 8 then letoh big (cfg offset 8)
      else cfg offset len)"

text \<open>The result are the bytes written to the device at the offset.\<close>
definition lkpi_virtio_cwrite_bytes :: "bool \<Rightarrow> u8 list \<Rightarrow> nat \<Rightarrow> u8 list" where
  "lkpi_virtio_cwrite_bytes big buf len =
     (if len = 1 then take 1 buf
      else if len = 2 then letoh big (take 2 buf)
      else if len = 4 then letoh big (take 4 buf)
      else if len = 8 then letoh big (take 8 buf)
      else take len buf)"

subsection \<open>Discovery\<close>

text \<open>What the shim allocates with \<open>malloc\<close> and \<open>sglist_alloc\<close>.\<close>
datatype virtio_obj = Obj_info | Obj_bsdvqs | Obj_vq nat | Obj_sglist nat | Obj_vqs | Obj_vdev

record virtqueue_info =
  vqi_name :: "string option"
  vqi_callback :: "ptr option"

text \<open>\<open>vd_vqs\<close> is None for NULL; \<open>live\<close> are the objects allocated, most recent first.\<close>
record 'q virtio_device =
  vd_features :: u64
  vd_vqs :: "'q lkpi_virtqueue list option"
  vd_nvqs :: nat
  live :: "virtio_obj list"

definition VIRTIO_MAX_INDIRECT :: int where "VIRTIO_MAX_INDIRECT = 256"
definition LKPI_VIRTIO_BIT_INDIRECT_DESC :: nat where "LKPI_VIRTIO_BIT_INDIRECT_DESC = 28"
definition LKPI_VIRTIO_BIT_VERSION_1 :: nat where "LKPI_VIRTIO_BIT_VERSION_1 = 32"

text \<open>The wrapper of queue \<open>i\<close> once the bus has given its queue; \<open>empty_seg\<close> is what a fresh array holds.\<close>
definition make_vq :: "segment \<Rightarrow> int \<Rightarrow> ('q \<Rightarrow> int) \<Rightarrow> nat \<Rightarrow> virtqueue_info \<Rightarrow> 'q \<Rightarrow> 'q lkpi_virtqueue" where
  "make_vq empty_seg indirect vsize i info q =
     (let nseg = (if indirect \<noteq> 0 \<and> indirect > vsize q then indirect else vsize q)
      in \<lparr>vq_index = i, vq_name = vqi_name info, vq_callback = vqi_callback info, vq_bsd = q,
          sg_segs = replicate (nat nseg) empty_seg, sg_nseg = 0, vq_sgmax = nseg\<rparr>)"

text \<open>
  \<open>alloc\<close> is the result of \<open>virtio_alloc_virtqueues\<close> with the queues it gives, \<open>setup\<close> that of
  \<open>virtio_setup_intr\<close>, \<open>vsize\<close> is \<open>virtqueue_size\<close>. The result carries the caller's array of
  wrappers, whose entries are NULL after a failure.
\<close>
definition lkpi_virtio_find_vqs ::
    "segment \<Rightarrow> (u64 \<Rightarrow> bool) \<Rightarrow> 'q list result \<Rightarrow> unit result \<Rightarrow> ('q \<Rightarrow> int) \<Rightarrow> virtqueue_info list \<Rightarrow> 'q virtio_device \<Rightarrow>
     unit result \<times> 'q lkpi_virtqueue option list \<times> 'q virtio_device" where
  "lkpi_virtio_find_vqs empty_seg with_feature alloc setup vsize infos vdev =
     (let nvqs = length infos;
          indirect = (if with_feature (push_bit LKPI_VIRTIO_BIT_INDIRECT_DESC 1) then VIRTIO_MAX_INDIRECT else 0);
          live1 = rev (map Obj_vq [0..<nvqs]) @ [Obj_bsdvqs, Obj_info] @ live vdev;
          fail = (Inl ENODEV, replicate nvqs None,
                  vdev\<lparr>live := remove1 Obj_info (remove1 Obj_bsdvqs (fold (\<lambda>j. remove1 (Obj_vq j)) [0..<nvqs] live1))\<rparr>)
      in case alloc of
           Inl e \<Rightarrow> fail
         | Inr bsdvqs \<Rightarrow>
            (case setup of
               Inl e \<Rightarrow> fail
             | Inr _ \<Rightarrow>
                (let vqs = map (\<lambda>i. make_vq empty_seg indirect vsize i (infos ! i) (bsdvqs ! i)) [0..<nvqs];
                     live2 = Obj_vqs # rev (map Obj_sglist [0..<nvqs]) @ live1
                 in (Inr (), map Some vqs,
                     vdev\<lparr>vd_vqs := Some vqs, vd_nvqs := nvqs, live := remove1 Obj_info (remove1 Obj_bsdvqs live2)\<rparr>))))"

definition lkpi_virtio_free_vq :: "nat \<Rightarrow> virtio_obj list \<Rightarrow> virtio_obj list" where
  "lkpi_virtio_free_vq i objs = remove1 (Obj_vq i) (remove1 (Obj_sglist i) objs)"

text \<open>\<open>virtio_stop\<close> on the bus comes first; it does not touch what the shim holds.\<close>
definition lkpi_virtio_del_vqs :: "'q virtio_device \<Rightarrow> 'q virtio_device" where
  "lkpi_virtio_del_vqs vdev =
     vdev\<lparr>live := (if vd_vqs vdev = None then id else remove1 Obj_vqs) (fold lkpi_virtio_free_vq [0..<vd_nvqs vdev] (live vdev)),
          vd_vqs := None, vd_nvqs := 0\<rparr>"

definition lkpi_virtio_device_ready :: "'q vq_ops \<Rightarrow> 'q virtio_device \<Rightarrow> 'q virtio_device" where
  "lkpi_virtio_device_ready bsd vdev =
     vdev\<lparr>vd_vqs := map_option (map (\<lambda>vq. vq\<lparr>vq_bsd := snd (bsd_enable_intr bsd (vq_bsd vq))\<rparr>)) (vd_vqs vdev)\<rparr>"

definition LKPI_VIRTIO_TRANSPORT_FEATURES :: u64 where
  "LKPI_VIRTIO_TRANSPORT_FEATURES = push_bit LKPI_VIRTIO_BIT_VERSION_1 1 OR push_bit LKPI_VIRTIO_BIT_INDIRECT_DESC 1"

definition requested_features :: "nat list \<Rightarrow> u64" where
  "requested_features feature_table = fold (\<lambda>i features. features OR push_bit i 1) feature_table LKPI_VIRTIO_TRANSPORT_FEATURES"

text \<open>\<open>negotiate\<close> is \<open>virtio_negotiate_features\<close>: what the host grants of a request.\<close>
definition lkpi_virtio_device_alloc :: "(u64 \<Rightarrow> u64) \<Rightarrow> nat list \<Rightarrow> virtio_obj list \<Rightarrow> 'q virtio_device" where
  "lkpi_virtio_device_alloc negotiate feature_table objs =
     \<lparr>vd_features = negotiate (requested_features feature_table), vd_vqs = None, vd_nvqs = 0, live = Obj_vdev # objs\<rparr>"

definition lkpi_virtio_device_free :: "'q virtio_device \<Rightarrow> virtio_obj list" where
  "lkpi_virtio_device_free vdev = remove1 Obj_vdev (live vdev)"

subsection \<open>Shared buffers\<close>

text \<open>
  The operations of a \<open>dma_buf\<close>: whether \<open>attach\<close> is \<open>virtio_dma_buf_attach\<close>, and the two entries of
  the enclosing \<open>virtio_dma_buf_ops\<close>, None for NULL.
\<close>
record 'u virtio_dma_buf_ops =
  is_virtio_attach :: bool
  device_attach :: "unit result option"
  get_uuid :: "'u result option"

definition virtio_dma_buf_attach :: "'u virtio_dma_buf_ops \<Rightarrow> unit result" where
  "virtio_dma_buf_attach ops = (case device_attach ops of None \<Rightarrow> Inr () | Some ret \<Rightarrow> ret)"

text \<open>\<open>ops\<close> is None when \<open>exp_info->ops\<close> is NULL; \<open>export_buf\<close> is the result of \<open>dma_buf_export\<close>.\<close>
definition virtio_dma_buf_export :: "'b result \<Rightarrow> 'u virtio_dma_buf_ops option \<Rightarrow> 'b result" where
  "virtio_dma_buf_export export_buf ops =
     (case ops of
        None \<Rightarrow> Inl EINVAL
      | Some o1 \<Rightarrow> if \<not> is_virtio_attach o1 \<or> get_uuid o1 = None then Inl EINVAL else export_buf)"

definition is_virtio_dma_buf :: "'u virtio_dma_buf_ops \<Rightarrow> bool" where
  "is_virtio_dma_buf ops = is_virtio_attach ops"

text \<open>An operation that is NULL is called.\<close>
definition virtio_dma_buf_get_uuid :: "'u virtio_dma_buf_ops \<Rightarrow> 'u result" where
  "virtio_dma_buf_get_uuid ops =
     (if \<not> is_virtio_dma_buf ops then Inl EINVAL
      else case get_uuid ops of None \<Rightarrow> Inl Null_call | Some r \<Rightarrow> r)"

subsection \<open>Requests\<close>

definition seg_of :: "scatterlist \<Rightarrow> segment" where
  "seg_of s = \<lparr>ss_paddr = lkpi_sg_paddr s, ss_len = ucast (sg_length s)\<rparr>"

text \<open>The array after \<open>ss\<close> was written to it from position \<open>n\<close> on.\<close>
definition put_segs :: "nat \<Rightarrow> scatterlist list \<Rightarrow> segment list \<Rightarrow> segment list" where
  "put_segs n ss segs = take n segs @ map seg_of ss @ drop (n + length ss) segs"

lemma put_segs_Nil [simp]: "put_segs n [] segs = segs"
  by (simp add: put_segs_def)

lemma put_segs_append:
  assumes "n + length ss \<le> length segs"
  shows "put_segs (n + length ss) ss' (put_segs n ss segs) = put_segs n (ss @ ss') segs"
  using assms by (simp add: put_segs_def ac_simps)

lemma put_segs_Cons:
  assumes "n < length segs"
  shows "put_segs (Suc n) ss (segs[n := seg_of s]) = put_segs n (s # ss) segs"
  using assms by (simp add: put_segs_def take_Suc_conv_app_nth)

lemma put_segs_length [simp]: "n + length ss \<le> length segs \<Longrightarrow> length (put_segs n ss segs) = length segs"
  by (simp add: put_segs_def)

lemma add_chain_result:
  assumes "int (length segs) = sgmax" and "n \<le> length segs"
  shows "if n + length ss \<le> length segs
     then add_chain sgmax out ss (segs, int n, r) =
       (True, put_segs n ss segs, int (n + length ss), if out then r + int (length ss) else r)
     else \<not> fst (add_chain sgmax out ss (segs, int n, r))"
  using assms
proof (induction ss arbitrary: segs n r)
  case Nil
  then show ?case by simp
next
  case (Cons s ss)
  show ?case
  proof (cases "n < length segs")
    case True
    then show ?thesis
      using Cons.IH [of "segs[n := seg_of s]" "Suc n" "if out then r + 1 else r"] Cons.prems put_segs_Cons [OF True]
      by (cases out; cases "Suc (n + length ss) \<le> length segs") (simp_all add: seg_of_def [symmetric] ac_simps)
  next
    case False
    then show ?thesis using Cons.prems by simp
  qed
qed

lemma add_chains_result:
  assumes "int (length segs) = sgmax" and "n \<le> length segs"
  shows "if n + length (concat cs) \<le> length segs
     then add_chains sgmax out i cs (segs, int n, r) =
       (True, put_segs n (concat cs) segs, int (n + length (concat cs)), r + int (length (concat (take (out - i) cs))))
     else \<not> fst (add_chains sgmax out i cs (segs, int n, r))"
  using assms
proof (induction cs arbitrary: segs n r i)
  case Nil
  then show ?case by simp
next
  case (Cons c cs)
  note one = add_chain_result [OF Cons.prems, of c "i < out" r]
  show ?case
  proof (cases "n + length c \<le> length segs")
    case True
    have "out - i = (if i < out then Suc (out - Suc i) else 0)" by (simp add: Suc_diff_Suc)
    then show ?thesis
      using Cons.IH [of "put_segs n c segs" "n + length c" "Suc i"] Cons.prems one True
        put_segs_append [OF True, of "concat cs"] by (auto simp: add.assoc split: if_splits)
  next
    case False
    then show ?thesis using one by (auto split: prod.split bool.split)
  qed
qed

text \<open>A queue whose array has the size it says.\<close>
definition vq_wf :: "'q lkpi_virtqueue \<Rightarrow> bool" where
  "vq_wf vq \<longleftrightarrow> int (length (sg_segs vq)) = vq_sgmax vq"

lemma add_sgs_exact:
  assumes "vq_wf vq" and "length sgs = out_sgs + in_sgs"
    and "lkpi_virtqueue_add_sgs bsd sgs out_sgs in_sgs cookie vq = (res, vq')"
  shows "if length (concat sgs) \<le> length (sg_segs vq)
     then (res, vq_bsd vq') = bsd_enqueue bsd cookie (map seg_of (concat sgs))
            (int (length (concat (take out_sgs sgs)))) (int (length (concat (drop out_sgs sgs)))) (vq_bsd vq)
     else res = Inl ENOSPC \<and> vq_bsd vq' = vq_bsd vq"
proof -
  let ?segs = "sg_segs vq"
  have sub: "int (length (concat sgs)) - int (length (concat (take out_sgs sgs))) = int (length (concat (drop out_sgs sgs)))"
  proof -
    have "concat sgs = concat (take out_sgs sgs) @ concat (drop out_sgs sgs)" by (metis append_take_drop_id concat_append)
    from arg_cong [OF this, of length] show ?thesis by (simp del: length_concat)
  qed
  have r: "if length (concat sgs) \<le> length ?segs
     then add_chains (vq_sgmax vq) out_sgs 0 sgs (?segs, 0, 0) =
       (True, put_segs 0 (concat sgs) ?segs, int (length (concat sgs)), int (length (concat (take out_sgs sgs))))
     else \<not> fst (add_chains (vq_sgmax vq) out_sgs 0 sgs (?segs, 0, 0))"
    using add_chains_result [of ?segs "vq_sgmax vq" 0 sgs out_sgs 0 0] assms(1)
    by (cases "length (concat sgs) \<le> length ?segs") (simp_all add: vq_wf_def)
  show ?thesis
  proof (cases "length (concat sgs) \<le> length ?segs")
    case True
    have "take (length (concat sgs)) (put_segs 0 (concat sgs) ?segs) = map seg_of (concat sgs)"
      by (simp add: put_segs_def)
    then show ?thesis using True r assms(2,3) sub
      by (auto simp: lkpi_virtqueue_add_sgs_def split: prod.splits)
  next
    case False
    then show ?thesis using r assms(2,3)
      by (auto simp: lkpi_virtqueue_add_sgs_def split: prod.splits bool.splits)
  qed
qed

text \<open>
  C19. A request reaches FreeBSD's queue exactly as the driver described it: one segment per scatterlist
  entry, in the order of the chains, never merged, the entries of the first \<open>out_sgs\<close> chains and no
  others counted as readable, so that the device is given write access to no byte of a
  command. A request with more entries than the array holds is refused with -ENOSPC before
  FreeBSD's queue is touched.
\<close>
theorem lkpi_virtqueue_add_sgs_exact:
  assumes "vq_wf vq" and "length sgs = out_sgs + in_sgs"
    and "lkpi_virtqueue_add_sgs bsd sgs out_sgs in_sgs cookie vq = (res, vq')"
  shows "if length (concat sgs) \<le> length (sg_segs vq)
     then (res, vq_bsd vq') = bsd_enqueue bsd cookie (map seg_of (concat sgs))
            (int (length (concat (take out_sgs sgs)))) (int (length (concat (drop out_sgs sgs)))) (vq_bsd vq)
     else res = Inl ENOSPC \<and> vq_bsd vq' = vq_bsd vq"
  by (rule add_sgs_exact [OF assms])

subsection \<open>Features\<close>

lemma fold_or_bits:
  assumes "i < 64" and "\<forall>f \<in> set fs. f < 64"
  shows "bit (fold (\<lambda>f w. w OR push_bit f 1) fs (w :: u64)) i \<longleftrightarrow> bit w i \<or> i \<in> set fs"
  using assms by (induction fs arbitrary: w) (auto simp: bit_or_iff bit_exp_iff)

lemma transport_bits: "i < 64 \<Longrightarrow> bit LKPI_VIRTIO_TRANSPORT_FEATURES i \<longleftrightarrow> i = 32 \<or> i = 28"
  unfolding LKPI_VIRTIO_TRANSPORT_FEATURES_def LKPI_VIRTIO_BIT_VERSION_1_def LKPI_VIRTIO_BIT_INDIRECT_DESC_def push_bit_of_1
    bit_or_iff bit_exp_iff by auto

text \<open>
  The features asked of the host are the bits the driver's table numbers, with the two of the
  transport, and nothing else: bit \<open>i\<close> of the request is set exactly for those \<open>i\<close>.
\<close>
theorem requested_features_bits:
  assumes "i < 64" and "\<forall>f \<in> set table. f < 64"
  shows "bit (requested_features table) i \<longleftrightarrow> i = 32 \<or> i = 28 \<or> i \<in> set table"
  unfolding requested_features_def fold_or_bits [OF assms] transport_bits [OF assms(1)] by blast

subsection \<open>The configuration space on either byte order\<close>

text \<open>The integer a machine reads from bytes in memory.\<close>
definition host_int :: "bool \<Rightarrow> u8 list \<Rightarrow> u64" where
  "host_int big bs = of_le (if big then rev bs else bs)"

text \<open>
  A scalar of the configuration space is read as the little-endian value the device stores, on a
  machine of either byte order, and writing it back writes the device's bytes.
\<close>
lemma config_scalar:
  assumes "len \<in> {1, 2, 4, 8}" and "length (cfg offset len) = len"
  shows "host_int big (lkpi_virtio_cread_bytes big cfg offset len) = of_le (cfg offset len)"
    "lkpi_virtio_cwrite_bytes big (lkpi_virtio_cread_bytes big cfg offset len) len = cfg offset len"
proof -
  have one: "rev xs = xs" if "length xs = 1" for xs :: "u8 list" using that by (cases xs) auto
  show "host_int big (lkpi_virtio_cread_bytes big cfg offset len) = of_le (cfg offset len)"
    "lkpi_virtio_cwrite_bytes big (lkpi_virtio_cread_bytes big cfg offset len) len = cfg offset len"
    using assms one [of "cfg offset len"]
    by (auto simp: host_int_def lkpi_virtio_cread_bytes_def lkpi_virtio_cwrite_bytes_def letoh_def)
qed

subsection \<open>Allocations\<close>

lemma mset_fold_remove1:
  "mset (fold (\<lambda>j. remove1 (f j)) xs l) = mset l - mset (map f xs)"
  by (induction xs arbitrary: l) (simp_all add: diff_diff_add_mset)

lemma mset_fold_free_vq:
  "mset (fold lkpi_virtio_free_vq xs l) = mset l - mset (map Obj_vq xs) - mset (map Obj_sglist xs)"
  by (induction xs arbitrary: l) (simp_all add: lkpi_virtio_free_vq_def diff_diff_add_mset ac_simps)

text \<open>
  C20. Queue discovery leaks nothing. A failure, of the bus or of the interrupt setup, is -ENODEV, leaves
  the caller without queues and the objects allocated as they were. After a success every queue
  has room for as many segments as its ring has slots, and at least 256 when indirect descriptors were
  negotiated; deleting the queues again leaves the objects as they were before.
\<close>
theorem lkpi_virtio_find_del_vqs:
  assumes "vd_vqs vdev = None"
    and "lkpi_virtio_find_vqs empty_seg with_feature alloc setup vsize infos vdev = (res, vqs, vdev')"
    and "\<forall>q. 0 \<le> vsize q"
  shows "case res of
      Inl e \<Rightarrow> e = ENODEV \<and> vqs = replicate (length infos) None \<and> vd_vqs vdev' = None \<and> mset (live vdev') = mset (live vdev)
    | Inr _ \<Rightarrow> length vqs = length infos \<and> vd_vqs vdev' = those vqs \<and>
        (\<forall>i < length infos. \<exists>vq. vqs ! i = Some vq \<and> vq_wf vq \<and> vq_index vq = i \<and> vsize (vq_bsd vq) \<le> vq_sgmax vq \<and>
           (with_feature (push_bit 28 1) \<longrightarrow> 256 \<le> vq_sgmax vq)) \<and>
        mset (live (lkpi_virtio_del_vqs vdev')) = mset (live vdev) \<and> vd_vqs (lkpi_virtio_del_vqs vdev') = None"
proof -
  let ?n = "length infos"
  have those: "those (map (Some \<circ> f) xs) = Some (map f xs)" for f :: "nat \<Rightarrow> 'a lkpi_virtqueue" and xs
    by (induction xs) simp_all
  have wf: "vq_wf (make_vq empty_seg ind vsize i info q)" "vq_index (make_vq empty_seg ind vsize i info q) = i"
      "vsize q \<le> vq_sgmax (make_vq empty_seg ind vsize i info q)" "ind \<le> vq_sgmax (make_vq empty_seg ind vsize i info q)"
      "vq_bsd (make_vq empty_seg ind vsize i info q) = q"
    for ind i info q using spec [OF assms(3), of q] by (auto simp: make_vq_def vq_wf_def Let_def)
  show ?thesis
    using assms(1,2)
    by (auto simp: lkpi_virtio_find_vqs_def lkpi_virtio_del_vqs_def Let_def mset_fold_remove1 mset_fold_free_vq those wf
        VIRTIO_MAX_INDIRECT_def LKPI_VIRTIO_BIT_INDIRECT_DESC_def
        split: sum.splits if_splits)
qed

subsection \<open>Draining a queue\<close>

text \<open>
  A virtqueue as a Linux driver sees it while the device works on: \<open>ready v\<close> are the used buffers that
  can be taken now, \<open>coming v\<close> those and all that the device will still use during the run. Taking
  a buffer takes the oldest; when there is none the queue says so; enabling the callback says
  whether the queue is empty at that moment, and from then on the device interrupts.
\<close>
locale linux_virtqueue =
  fixes get_buf :: "'v \<Rightarrow> (ptr \<times> u32) option \<times> 'v"
    and enable_cb :: "'v \<Rightarrow> bool \<times> 'v"
    and disable_cb :: "'v \<Rightarrow> 'v"
    and ready :: "'v \<Rightarrow> (ptr \<times> u32) list"
    and coming :: "'v \<Rightarrow> (ptr \<times> u32) list"
    and armed :: "'v \<Rightarrow> bool"
  assumes get_buf_some: "get_buf v = (Some b, v') \<Longrightarrow> coming v = b # coming v'"
    and get_buf_none: "get_buf v = (None, v') \<Longrightarrow> coming v' = coming v"
    and get_buf_ready: "ready v \<noteq> [] \<Longrightarrow> fst (get_buf v) \<noteq> None"
    and enable_cb_empty: "enable_cb v = (idle, v') \<Longrightarrow> coming v' = coming v \<and> armed v' \<and> idle = (ready v' = [])"
    and disable_cb_keeps: "coming (disable_cb v) = coming v \<and> (ready v \<noteq> [] \<longrightarrow> ready (disable_cb v) \<noteq> [])"

text \<open>The loops of a driver that drains its queue: every buffer there is, until the callback could be enabled.\<close>
partial_function (option) take_all :: "('v \<Rightarrow> 'b option \<times> 'v) \<Rightarrow> 'v \<Rightarrow> 'b list \<Rightarrow> ('b list \<times> 'v) option" where
  "take_all get_buf v acc =
     (case get_buf v of (None, v') \<Rightarrow> Some (acc, v') | (Some b, v') \<Rightarrow> take_all get_buf v' (acc @ [b]))"

partial_function (option) drain ::
    "('v \<Rightarrow> 'b option \<times> 'v) \<Rightarrow> ('v \<Rightarrow> bool \<times> 'v) \<Rightarrow> ('v \<Rightarrow> 'v) \<Rightarrow> 'v \<Rightarrow> 'b list \<Rightarrow> ('b list \<times> 'v) option" where
  "drain get_buf enable_cb disable_cb v acc =
     (case take_all get_buf (disable_cb v) acc of
        None \<Rightarrow> None
      | Some (acc', v') \<Rightarrow>
         (case enable_cb v' of
            (idle, v'') \<Rightarrow> if idle then Some (acc', v'') else drain get_buf enable_cb disable_cb v'' acc'))"

context linux_virtqueue
begin

lemma take_all_takes:
  "\<exists>bs v'. take_all get_buf v acc = Some (acc @ bs, v') \<and> coming v = bs @ coming v' \<and> (ready v \<noteq> [] \<longrightarrow> bs \<noteq> [])"
proof (induction "length (coming v)" arbitrary: v acc rule: less_induct)
  case less
  obtain r v1 where g: "get_buf v = (r, v1)" by fastforce
  show ?case
  proof (cases r)
    case None
    then show ?thesis
      using g get_buf_none [of v v1] get_buf_ready [of v] by (auto simp: take_all.simps [of get_buf v])
  next
    case (Some b)
    have c: "coming v = b # coming v1" using g Some by (intro get_buf_some) simp
    from less [of v1 "acc @ [b]"] c show ?thesis
      using g Some by (fastforce simp: take_all.simps [of get_buf v])
  qed
qed

lemma drain_loses_nothing:
  "\<exists>bs v'. drain get_buf enable_cb disable_cb v acc = Some (acc @ bs, v') \<and> coming v = bs @ coming v' \<and> armed v' \<and> ready v' = []"
proof -
  have step: "\<exists>bs v'. drain get_buf enable_cb disable_cb v acc = Some (acc @ bs, v') \<and> coming v = bs @ coming v' \<and>
      armed v' \<and> ready v' = []"
    if IH: "\<And>v' acc'. length (coming v') < length (coming v) \<or> length (coming v') = length (coming v) \<and> ready v' \<noteq> [] \<and> ready v = [] \<Longrightarrow>
        \<exists>bs v''. drain get_buf enable_cb disable_cb v' acc' = Some (acc' @ bs, v'') \<and> coming v' = bs @ coming v'' \<and> armed v'' \<and> ready v'' = []"
    for v acc
  proof -
    obtain bs v1 where t: "take_all get_buf (disable_cb v) acc = Some (acc @ bs, v1)" "coming v = bs @ coming v1"
      "ready v \<noteq> [] \<longrightarrow> bs \<noteq> []"
      using take_all_takes [of "disable_cb v" acc] disable_cb_keeps [of v] by auto
    obtain b v2 where e: "enable_cb v1 = (b, v2)" by fastforce
    note e2 = enable_cb_empty [OF e]
    show ?thesis
    proof (cases b)
      case True
      then show ?thesis using t e e2 by (auto simp: drain.simps [of _ _ _ v])
    next
      case False
      then have "length (coming v2) < length (coming v) \<or> length (coming v2) = length (coming v) \<and> ready v2 \<noteq> [] \<and> ready v = []"
        using t e2 by (cases "bs = []") auto
      from IH [OF this, of "acc @ bs"] show ?thesis using False t e e2 by (auto simp: drain.simps [of _ _ _ v])
    qed
  qed
  define rank where "rank v = 2 * length (coming v) + (if ready v = [] then 1 else 0)" for v
  show ?thesis
  proof (induction "rank v" arbitrary: v acc rule: less_induct)
    case less
    show ?case by (rule step) (rule less, auto simp: rank_def)
  qed
qed

end

text \<open>
  What the shim relies on in FreeBSD's virtqueue, as its manual page says it: \<open>virtqueue_dequeue\<close> gives
  the used buffers in order and NULL when there is none, \<open>virtqueue_enable_intr\<close> returns
  non-zero when more were used meanwhile.
\<close>
locale bsd_virtqueue =
  fixes bsd :: "'q vq_ops"
    and used :: "'q \<Rightarrow> (ptr \<times> u32) list"
    and future :: "'q \<Rightarrow> (ptr \<times> u32) list"
    and intr :: "'q \<Rightarrow> bool"
  assumes dequeue_some: "bsd_dequeue bsd q = (Some b, q') \<Longrightarrow> future q = b # future q'"
    and dequeue_none: "bsd_dequeue bsd q = (None, q') \<Longrightarrow> future q' = future q"
    and dequeue_used: "used q \<noteq> [] \<Longrightarrow> fst (bsd_dequeue bsd q) \<noteq> None"
    and enable_intr_more: "bsd_enable_intr bsd q = (busy, q') \<Longrightarrow> future q' = future q \<and> intr q' \<and> busy = (used q' \<noteq> [])"
    and disable_intr_keeps: "future (bsd_disable_intr bsd q) = future q \<and> (used q \<noteq> [] \<longrightarrow> used (bsd_disable_intr bsd q) \<noteq> [])"

sublocale bsd_virtqueue \<subseteq> lkpi: linux_virtqueue "lkpi_virtqueue_get_buf bsd" "lkpi_virtqueue_enable_cb bsd"
  "lkpi_virtqueue_disable_cb bsd" "\<lambda>vq. used (vq_bsd vq)" "\<lambda>vq. future (vq_bsd vq)" "\<lambda>vq. intr (vq_bsd vq)"
proof
  show "lkpi_virtqueue_get_buf bsd v = (Some b, v') \<Longrightarrow> future (vq_bsd v) = b # future (vq_bsd v')" for v b v'
    using dequeue_some by (fastforce simp: lkpi_virtqueue_get_buf_def split: prod.splits)
  show "lkpi_virtqueue_get_buf bsd v = (None, v') \<Longrightarrow> future (vq_bsd v') = future (vq_bsd v)" for v v'
    using dequeue_none by (fastforce simp: lkpi_virtqueue_get_buf_def split: prod.splits)
  show "used (vq_bsd v) \<noteq> [] \<Longrightarrow> fst (lkpi_virtqueue_get_buf bsd v) \<noteq> None" for v
    using dequeue_used [of "vq_bsd v"] by (simp add: lkpi_virtqueue_get_buf_def Let_def split_def)
  show "lkpi_virtqueue_enable_cb bsd v = (idle, v') \<Longrightarrow>
      future (vq_bsd v') = future (vq_bsd v) \<and> intr (vq_bsd v') \<and> idle = (used (vq_bsd v') = [])" for v idle v'
    using enable_intr_more by (fastforce simp: lkpi_virtqueue_enable_cb_def split: prod.splits)
  show "future (vq_bsd (lkpi_virtqueue_disable_cb bsd v)) = future (vq_bsd v) \<and>
      (used (vq_bsd v) \<noteq> [] \<longrightarrow> used (vq_bsd (lkpi_virtqueue_disable_cb bsd v)) \<noteq> [])" for v
    using disable_intr_keeps [of "vq_bsd v"] by (simp add: lkpi_virtqueue_disable_cb_def)
qed

subsection \<open>A queue with a device\<close>

text \<open>
  A concrete queue: the used buffers, the batches the device will still use, one before each access, and
  the interrupt. A request that fits is recorded with its counts.
\<close>
record sim_queue =
  sq_used :: "(ptr \<times> u32) list"
  sq_batches :: "(ptr \<times> u32) list list"
  sq_intr :: bool
  sq_requests :: "(ptr \<times> segment list \<times> int \<times> int) list"

definition sq_tick :: "sim_queue \<Rightarrow> sim_queue" where
  "sq_tick q = q\<lparr>sq_used := sq_used q @ concat (take 1 (sq_batches q)), sq_batches := tl (sq_batches q)\<rparr>"

definition sim_bsd :: "sim_queue vq_ops" where
  "sim_bsd = \<lparr>bsd_nfree = (\<lambda>q. 64 - int (length (sq_requests q))),
     bsd_enqueue = (\<lambda>c segs r w q. (Inr (), q\<lparr>sq_requests := sq_requests q @ [(c, segs, r, w)]\<rparr>)),
     bsd_dequeue = (\<lambda>q. let q1 = sq_tick q in case sq_used q1 of [] \<Rightarrow> (None, q1) | b # bs \<Rightarrow> (Some b, q1\<lparr>sq_used := bs\<rparr>)),
     bsd_enable_intr = (\<lambda>q. let q1 = sq_tick q in (sq_used q1 \<noteq> [], q1\<lparr>sq_intr := True\<rparr>)),
     bsd_disable_intr = (\<lambda>q. (sq_tick q)\<lparr>sq_intr := False\<rparr>), bsd_notify = (\<lambda>q. q)\<rparr>"

lemma sq_tick_future: "sq_used (sq_tick q) @ concat (sq_batches (sq_tick q)) = sq_used q @ concat (sq_batches q)"
  by (cases "sq_batches q") (simp_all add: sq_tick_def)

lemma sq_tick_used: "sq_used q \<noteq> [] \<Longrightarrow> sq_used (sq_tick q) \<noteq> []"
  by (simp add: sq_tick_def)

interpretation sim: bsd_virtqueue sim_bsd sq_used "\<lambda>q. sq_used q @ concat (sq_batches q)" sq_intr
proof
  show "bsd_dequeue sim_bsd q = (Some b, q') \<Longrightarrow> sq_used q @ concat (sq_batches q) = b # sq_used q' @ concat (sq_batches q')" for q b q'
    using sq_tick_future [of q] by (auto simp: sim_bsd_def Let_def split: list.splits)
  show "bsd_dequeue sim_bsd q = (None, q') \<Longrightarrow> sq_used q' @ concat (sq_batches q') = sq_used q @ concat (sq_batches q)" for q q'
    using sq_tick_future [of q] by (auto simp: sim_bsd_def Let_def split: list.splits)
  show "sq_used q \<noteq> [] \<Longrightarrow> fst (bsd_dequeue sim_bsd q) \<noteq> None" for q
    using sq_tick_used [of q] by (auto simp: sim_bsd_def Let_def split: list.splits)
  show "bsd_enable_intr sim_bsd q = (busy, q') \<Longrightarrow> sq_used q' @ concat (sq_batches q') = sq_used q @ concat (sq_batches q) \<and>
      sq_intr q' \<and> busy = (sq_used q' \<noteq> [])" for q busy q'
    using sq_tick_future [of q] by (auto simp: sim_bsd_def Let_def)
  show "sq_used (bsd_disable_intr sim_bsd q) @ concat (sq_batches (bsd_disable_intr sim_bsd q)) = sq_used q @ concat (sq_batches q) \<and>
      (sq_used q \<noteq> [] \<longrightarrow> sq_used (bsd_disable_intr sim_bsd q) \<noteq> [])" for q
    using sq_tick_future [of q] sq_tick_used [of q] by (simp add: sim_bsd_def)
qed

definition sim_vq :: "sim_queue lkpi_virtqueue" where
  "sim_vq = make_vq \<lparr>ss_paddr = 0, ss_len = 0\<rparr> 256 (\<lambda>_. 64) 0 \<lparr>vqi_name = Some ''control'', vqi_callback = None\<rparr>
     \<lparr>sq_used = [(1, 24)], sq_batches = [[], [(2, 24)], [], [], [(3, 24)], [], []], sq_intr = True, sq_requests = []\<rparr>"

theorem lkpi_virtqueue_add_sgs_exact_witness:
  "sq_requests (vq_bsd (snd (lkpi_virtqueue_add_sgs sim_bsd
     [[\<lparr>sg_dma_address = 0, sg_phys = 0x1000, sg_length = 24\<rparr>], [\<lparr>sg_dma_address = 0x1018, sg_phys = 0, sg_length = 24\<rparr>]] 1 1 9 sim_vq))) =
   [(9, [\<lparr>ss_paddr = 0x1000, ss_len = 24\<rparr>, \<lparr>ss_paddr = 0x1018, ss_len = 24\<rparr>], 1, 1)]"
proof -
  let ?sgs = "[[\<lparr>sg_dma_address = 0, sg_phys = 0x1000, sg_length = 24\<rparr>], [\<lparr>sg_dma_address = 0x1018, sg_phys = 0, sg_length = 24\<rparr>]]"
  have "vq_wf sim_vq" "length (sg_segs sim_vq) = 256" "sq_requests (vq_bsd sim_vq) = []"
    by (simp_all add: vq_wf_def sim_vq_def make_vq_def)
  then show ?thesis
    using lkpi_virtqueue_add_sgs_exact [OF _ _ surjective_pairing, of sim_vq ?sgs 1 1 sim_bsd 9]
    by (simp add: sim_bsd_def seg_of_def lkpi_sg_paddr_def)
qed

theorem requested_features_bits_witness: "bit (requested_features [0, 5]) 5 \<and> \<not> bit (requested_features [0, 5]) 6"
  using requested_features_bits [of 5 "[0, 5]"] requested_features_bits [of 6 "[0, 5]"] by simp

definition sim_device :: "sim_queue virtio_device" where
  "sim_device = lkpi_virtio_device_alloc (\<lambda>f. f) [0] []"

theorem lkpi_virtio_find_del_vqs_witness:
  "mset (live (lkpi_virtio_del_vqs (snd (snd (lkpi_virtio_find_vqs \<lparr>ss_paddr = 0, ss_len = 0\<rparr> (\<lambda>_. True) (Inr [vq_bsd sim_vq]) (Inr ()) (\<lambda>_. 64)
     [\<lparr>vqi_name = None, vqi_callback = None\<rparr>] sim_device))))) = {# Obj_vdev #}"
proof -
  have "vd_vqs sim_device = None" "live sim_device = [Obj_vdev]" by (simp_all add: sim_device_def lkpi_virtio_device_alloc_def)
  then show ?thesis
    using lkpi_virtio_find_del_vqs [OF _ prod.collapse [symmetric, THEN trans], of sim_device "\<lparr>ss_paddr = 0, ss_len = 0\<rparr>" "\<lambda>_. True"
        "Inr [vq_bsd sim_vq]" "Inr ()" "\<lambda>_. 64" "[\<lparr>vqi_name = None, vqi_callback = None\<rparr>]"]
    by (auto simp: lkpi_virtio_find_vqs_def Let_def)
qed

end
