(* ===== verification/Virtgpu_Fence.thy ===== *)
theory Virtgpu_Fence
  imports Kmod_Prelude "HOL-Library.Multiset"
begin

text \<open>
  The fences of virtio-gpu (\<^verbatim>\<open>drivers/gpu/drm/virtio/virtgpu_fence.c\<close>): a fence gets its number when its
  command is queued, waits in a list, and is signalled when the host answers with its number or
  with a later one of the same context. The comparison of two fences is \<open>dma_fence_is_later\<close> of the DRM
  stack, an argument here, with what the code relies on as the locale \<open>fence_order\<close>. The calls on
  \<open>dma_fence\<close> are recorded in order. The lists are protected by one lock, so that one operation
  runs at a time; their sequences are the step relation at the end.
\<close>

subsection \<open>State\<close>

text \<open>\<open>fn_ptr\<close> is the address of the fence, \<open>fn_event\<close> that its \<open>e\<close> is not NULL.\<close>
record virtio_gpu_fence =
  fn_ptr :: ptr
  fn_context :: u64
  fn_seqno :: u64
  fn_ring_idx :: u32
  fn_id :: u64
  fn_emit_info :: bool
  fn_event :: bool

record virtio_gpu_fence_driver =
  last_fence_id :: u64
  current_fence_id :: u64
  drv_context :: u64
  fences :: "virtio_gpu_fence list"
  got :: "ptr list"
  signalled :: "virtio_gpu_fence list"
  sent :: "ptr list"
  put :: "ptr list"

text \<open>The fields of \<open>virtio_gpu_ctrl_hdr\<close>, in the machine's byte order.\<close>
record virtio_gpu_ctrl_hdr =
  hdr_type :: u32
  hdr_flags :: u32
  hdr_fence_id :: u64
  hdr_ctx_id :: u32
  hdr_ring_idx :: u8

definition VIRTIO_GPU_FLAG_FENCE :: u32 where "VIRTIO_GPU_FLAG_FENCE = 1"
definition VIRTIO_GPU_FLAG_INFO_RING_IDX :: u32 where "VIRTIO_GPU_FLAG_INFO_RING_IDX = 2"

subsection \<open>Operations\<close>

text \<open>\<open>mem\<close> is the address \<open>kzalloc\<close> gave, None for NULL.\<close>
definition virtio_gpu_fence_alloc ::
    "ptr option \<Rightarrow> u64 \<Rightarrow> u32 \<Rightarrow> virtio_gpu_fence_driver \<Rightarrow> virtio_gpu_fence option" where
  "virtio_gpu_fence_alloc mem base_fence_ctx ring_idx drv =
     map_option (\<lambda>p. \<lparr>fn_ptr = p, fn_context = base_fence_ctx + ucast ring_idx, fn_seqno = 0, fn_ring_idx = ring_idx,
        fn_id = 0, fn_emit_info = (base_fence_ctx \<noteq> drv_context drv), fn_event = False\<rparr>) mem"

definition virtio_gpu_fence_emit ::
    "virtio_gpu_ctrl_hdr \<Rightarrow> virtio_gpu_fence \<Rightarrow> virtio_gpu_fence_driver \<Rightarrow>
     virtio_gpu_ctrl_hdr \<times> virtio_gpu_fence \<times> virtio_gpu_fence_driver" where
  "virtio_gpu_fence_emit hdr fence drv =
     (let n = current_fence_id drv + 1;
          fence1 = fence\<lparr>fn_id := n, fn_seqno := n\<rparr>;
          drv1 = drv\<lparr>current_fence_id := n, got := got drv @ [fn_ptr fence], fences := fences drv @ [fence1]\<rparr>;
          hdr1 = hdr\<lparr>hdr_flags := hdr_flags hdr OR VIRTIO_GPU_FLAG_FENCE, hdr_fence_id := n\<rparr>;
          hdr2 = (if fn_emit_info fence
                  then hdr1\<lparr>hdr_flags := hdr_flags hdr1 OR VIRTIO_GPU_FLAG_INFO_RING_IDX, hdr_ring_idx := ucast (fn_ring_idx fence)\<rparr>
                  else hdr1)
      in (hdr2, fence1, drv1))"

text \<open>Signal, send the event if there is one, unlink and drop the reference.\<close>
definition complete_fence :: "virtio_gpu_fence \<Rightarrow> virtio_gpu_fence_driver \<Rightarrow> virtio_gpu_fence_driver" where
  "complete_fence f drv =
     drv\<lparr>signalled := signalled drv @ [f],
         sent := (if fn_event f then sent drv @ [fn_ptr f] else sent drv),
         fences := filter (\<lambda>g. fn_ptr g \<noteq> fn_ptr f) (fences drv),
         put := put drv @ [fn_ptr f]\<rparr>"

text \<open>The inner loop, which may unlink the entry it is at.\<close>
definition signal_earlier ::
    "(virtio_gpu_fence \<Rightarrow> virtio_gpu_fence \<Rightarrow> bool) \<Rightarrow> virtio_gpu_fence \<Rightarrow> virtio_gpu_fence_driver \<Rightarrow> virtio_gpu_fence_driver" where
  "signal_earlier is_later s drv =
     fold (\<lambda>curr d. if fn_context s \<noteq> fn_context curr then d
                    else if \<not> is_later s curr then d
                    else complete_fence curr d) (fences drv) drv"

definition virtio_gpu_fence_event_process ::
    "(virtio_gpu_fence \<Rightarrow> virtio_gpu_fence \<Rightarrow> bool) \<Rightarrow> u64 \<Rightarrow> virtio_gpu_fence_driver \<Rightarrow> virtio_gpu_fence_driver" where
  "virtio_gpu_fence_event_process is_later fence_id drv =
     (let drv1 = drv\<lparr>last_fence_id := fence_id\<rparr>
      in case List.find (\<lambda>f. fence_id = fn_id f) (fences drv1) of
           None \<Rightarrow> drv1
         | Some s \<Rightarrow> complete_fence s (signal_earlier is_later s drv1))"

subsection \<open>The invariant\<close>

text \<open>
  The list is in the order of the numbers, which are those of the sequence, none is beyond the last
  one given or \<open>2 ^ 31\<close> behind it, and no fence is in it twice.
\<close>
definition fences_wf :: "virtio_gpu_fence_driver \<Rightarrow> bool" where
  "fences_wf drv \<longleftrightarrow>
     sorted_wrt (\<lambda>f g. fn_id f < fn_id g) (fences drv) \<and> distinct (map fn_ptr (fences drv)) \<and>
     (\<forall>f \<in> set (fences drv). fn_seqno f = fn_id f \<and> fn_id f \<le> current_fence_id drv \<and>
        unat (current_fence_id drv) < unat (fn_id f) + 2 ^ 31)"

text \<open>Numbers less than \<open>2 ^ 31\<close> apart, as far as the DRM stack's comparison reaches.\<close>
definition seq_near :: "u64 \<Rightarrow> u64 \<Rightarrow> bool" where
  "seq_near a b \<longleftrightarrow> unat a < unat b + 2 ^ 31 \<and> unat b < unat a + 2 ^ 31"

text \<open>The comparison of fences of one context whose numbers are near.\<close>
locale fence_order =
  fixes is_later :: "virtio_gpu_fence \<Rightarrow> virtio_gpu_fence \<Rightarrow> bool"
  assumes is_later_seqno: "fn_context f = fn_context g \<Longrightarrow> seq_near (fn_seqno f) (fn_seqno g) \<Longrightarrow>
    is_later f g \<longleftrightarrow> fn_seqno g < fn_seqno f"

text \<open>
  The comparison as Linux documents it for fences without 64-bit numbers: the sign of the difference of the
  low halves. It meets the law, as does the comparison of the whole numbers.
\<close>
definition is_later_32 :: "virtio_gpu_fence \<Rightarrow> virtio_gpu_fence \<Rightarrow> bool" where
  "is_later_32 f g \<longleftrightarrow> 0 < sint (ucast (fn_seqno f) - ucast (fn_seqno g) :: u32)"

definition is_later_64 :: "virtio_gpu_fence \<Rightarrow> virtio_gpu_fence \<Rightarrow> bool" where
  "is_later_64 f g \<longleftrightarrow> fn_seqno f > fn_seqno g"

interpretation order32: fence_order is_later_32
proof
  fix f g :: virtio_gpu_fence
  let ?d = "uint (fn_seqno f) - uint (fn_seqno g)"
  assume "seq_near (fn_seqno f) (fn_seqno g)"
  then have "unat (fn_seqno f) < unat (fn_seqno g) + 2147483648" "unat (fn_seqno g) < unat (fn_seqno f) + 2147483648"
    by (simp_all add: seq_near_def)
  then have "- 2147483648 \<le> ?d" "?d < 2147483648" unfolding uint_nat by linarith+
  then have "sint (word_of_int ?d :: u32) = ?d" by (simp only: sint_sbintrunc') (simp add: signed_take_bit_int_eq_self)
  moreover have "(ucast (fn_seqno f) - ucast (fn_seqno g) :: u32) = word_of_int ?d" by (simp only: ucast_eq wi_hom_sub)
  ultimately have d: "sint (ucast (fn_seqno f) - ucast (fn_seqno g) :: u32) = ?d" by metis
  show "is_later_32 f g \<longleftrightarrow> fn_seqno g < fn_seqno f" unfolding is_later_32_def word_less_def d by linarith
qed

interpretation order64: fence_order is_later_64
  by unfold_locales (simp add: is_later_64_def)

text \<open>What answering a fence completes: its context up to its number.\<close>
definition due :: "virtio_gpu_fence \<Rightarrow> virtio_gpu_fence \<Rightarrow> bool" where
  "due s f \<longleftrightarrow> fn_context f = fn_context s \<and> fn_id f \<le> fn_id s"

lemma due_refl: "due s s"
  by (simp add: due_def)

lemma complete_fence_fields [simp]:
  "signalled (complete_fence f drv) = signalled drv @ [f]"
  "fences (complete_fence f drv) = filter (\<lambda>g. fn_ptr g \<noteq> fn_ptr f) (fences drv)"
  "put (complete_fence f drv) = put drv @ [fn_ptr f]"
  "got (complete_fence f drv) = got drv"
  "last_fence_id (complete_fence f drv) = last_fence_id drv"
  "current_fence_id (complete_fence f drv) = current_fence_id drv"
  "sent (complete_fence f drv) = sent drv @ map fn_ptr (filter fn_event [f])"
  by (simp_all add: complete_fence_def)

text \<open>Completing a list of fences one after the other.\<close>
lemma complete_all:
  "signalled (fold complete_fence fs drv) = signalled drv @ fs"
  "fences (fold complete_fence fs drv) = filter (\<lambda>g. fn_ptr g \<notin> fn_ptr ` set fs) (fences drv)"
  "put (fold complete_fence fs drv) = put drv @ map fn_ptr fs"
  "got (fold complete_fence fs drv) = got drv"
  "last_fence_id (fold complete_fence fs drv) = last_fence_id drv"
  "current_fence_id (fold complete_fence fs drv) = current_fence_id drv"
  "sent (fold complete_fence fs drv) = sent drv @ map fn_ptr (filter fn_event fs)"
  by (induction fs arbitrary: drv) (auto intro!: filter_cong)

lemma fold_filter: "fold (\<lambda>x d. if P x then f x d else d) xs d = fold f (filter P xs) d"
  by (induction xs arbitrary: d) simp_all

lemma signal_earlier_filter:
  "signal_earlier is_later s drv =
     fold complete_fence (filter (\<lambda>f. fn_context s = fn_context f \<and> is_later s f) (fences drv)) drv"
proof -
  have "(\<lambda>curr d. if fn_context s \<noteq> fn_context curr then d else if \<not> is_later s curr then d else complete_fence curr d) =
      (\<lambda>curr d. if fn_context s = fn_context curr \<and> is_later s curr then complete_fence curr d else d)"
    by (auto intro!: ext)
  then show ?thesis unfolding signal_earlier_def by (simp only: fold_filter)
qed

lemma sorted_upto:
  assumes "sorted_wrt (\<lambda>f g. fn_id f < fn_id g) fs" and "s \<in> set fs"
  shows "filter (due s) fs = filter (\<lambda>f. fn_context f = fn_context s \<and> fn_id f < fn_id s) fs @ [s]"
  using assms
proof (induction fs)
  case Nil
  then show ?case by simp
next
  case (Cons f fs)
  show ?case
  proof (cases "f = s")
    case True
    then have "filter (due s) fs = []" "filter (\<lambda>f. fn_context f = fn_context s \<and> fn_id f < fn_id s) fs = []"
      using Cons.prems(1) by (fastforce simp: filter_empty_conv due_def)+
    then show ?thesis using True due_refl by simp
  next
    case False
    then have "s \<in> set fs" "fn_id f < fn_id s" using Cons.prems by auto
    then show ?thesis using Cons.IH Cons.prems(1) by (auto simp: due_def)
  qed
qed

context fence_order
begin

text \<open>An answer completes what is due, in the order of the list, the fence itself last.\<close>
lemma event_process_completes:
  assumes "fences_wf drv" and "s \<in> set (fences drv)"
  shows "virtio_gpu_fence_event_process is_later (fn_id s) drv =
    fold complete_fence (filter (due s) (fences drv)) (drv\<lparr>last_fence_id := fn_id s\<rparr>)"
proof -
  have inj: "f = s" if "f \<in> set (fences drv)" "fn_id f = fn_id s" for f
    using assms that unfolding fences_wf_def by (metis less_irrefl sorted_wrt_iff_nth_less linorder_neqE_nat in_set_conv_nth)
  then have find: "List.find (\<lambda>f. fn_id s = fn_id f) (fences drv) = Some s"
    using assms(2) by (metis (mono_tags, lifting) find_None_iff find_Some_iff nth_mem not_None_eq)
  have "is_later s f \<longleftrightarrow> fn_id f < fn_id s" if "f \<in> set (fences drv)" "fn_context s = fn_context f" for f
  proof -
    have w: "fn_seqno g = fn_id g \<and> unat (fn_id g) \<le> unat (current_fence_id drv) \<and>
        unat (current_fence_id drv) < unat (fn_id g) + 2 ^ 31" if "g \<in> set (fences drv)" for g
      using that assms(1) by (simp add: fences_wf_def word_le_nat_alt)
    have "seq_near (fn_id s) (fn_id f)" using w [OF that(1)] w [OF assms(2)] by (auto simp: seq_near_def)
    moreover have "fn_seqno f = fn_id f" "fn_seqno s = fn_id s" using w [OF that(1)] w [OF assms(2)] by simp_all
    ultimately show ?thesis using is_later_seqno [OF that(2)] by simp
  qed
  then have "filter (\<lambda>f. fn_context s = fn_context f \<and> is_later s f) (fences drv) =
      filter (\<lambda>f. fn_context f = fn_context s \<and> fn_id f < fn_id s) (fences drv)"
    by (intro filter_cong) auto
  then show ?thesis
    using find sorted_upto [OF _ assms(2)] assms(1)
    by (simp add: virtio_gpu_fence_event_process_def signal_earlier_filter fences_wf_def)
qed

end

subsection \<open>Sequences of operations\<close>

text \<open>
  A fence that is not waiting is queued with a command, while numbers remain and none of the waiting is
  \<open>2 ^ 31\<close> behind; the host answers, with any number.
\<close>
inductive fence_step ::
    "(virtio_gpu_fence \<Rightarrow> virtio_gpu_fence \<Rightarrow> bool) \<Rightarrow> virtio_gpu_fence_driver \<Rightarrow> virtio_gpu_fence_driver \<Rightarrow> bool"
  for is_later where
  emit: "fn_ptr f \<notin> fn_ptr ` set (fences drv) \<Longrightarrow> unat (current_fence_id drv) + 1 < 2 ^ 64 \<Longrightarrow>
    (\<forall>g \<in> set (fences drv). unat (current_fence_id drv) + 1 < unat (fn_id g) + 2 ^ 31) \<Longrightarrow>
    virtio_gpu_fence_emit hdr f drv = (hdr', f', drv') \<Longrightarrow> fence_step is_later drv drv'"
| answer: "fence_step is_later drv (virtio_gpu_fence_event_process is_later n drv)"

text \<open>The driver as it is initialised.\<close>
definition fence_start :: "u64 \<Rightarrow> virtio_gpu_fence_driver" where
  "fence_start ctx = \<lparr>last_fence_id = 0, current_fence_id = 0, drv_context = ctx, fences = [], got = [], signalled = [],
     sent = [], put = []\<rparr>"

inductive fence_reachable :: "(virtio_gpu_fence \<Rightarrow> virtio_gpu_fence \<Rightarrow> bool) \<Rightarrow> virtio_gpu_fence_driver \<Rightarrow> bool" for is_later where
  start: "fence_reachable is_later (fence_start ctx)"
| step: "fence_reachable is_later drv \<Longrightarrow> fence_step is_later drv drv' \<Longrightarrow> fence_reachable is_later drv'"

text \<open>Signalled and waiting fences of one context, in this order, have rising numbers.\<close>
definition in_order :: "virtio_gpu_fence list \<Rightarrow> bool" where
  "in_order fs \<longleftrightarrow> sorted_wrt (\<lambda>f g. fn_context f = fn_context g \<longrightarrow> fn_id f < fn_id g) fs"

text \<open>Every reference taken is either dropped or belongs to a waiting fence.\<close>
definition refs_balanced :: "virtio_gpu_fence_driver \<Rightarrow> bool" where
  "refs_balanced drv \<longleftrightarrow>
     put drv = map fn_ptr (signalled drv) \<and> mset (got drv) = mset (put drv) + mset (map fn_ptr (fences drv))"

definition fence_inv :: "virtio_gpu_fence_driver \<Rightarrow> bool" where
  "fence_inv drv \<longleftrightarrow> fences_wf drv \<and> in_order (signalled drv @ fences drv) \<and> refs_balanced drv \<and>
     (\<forall>f \<in> set (signalled drv). fn_id f \<le> current_fence_id drv)"

lemma due_removed:
  assumes "distinct (map fn_ptr fs)"
  shows "filter (\<lambda>g. fn_ptr g \<notin> fn_ptr ` set (filter (due s) fs)) fs = filter (\<lambda>g. \<not> due s g) fs"
proof (rule filter_cong [OF refl])
  fix g assume "g \<in> set fs"
  then show "(fn_ptr g \<notin> fn_ptr ` set (filter (due s) fs)) = (\<not> due s g)"
    using assms by (auto simp: distinct_map dest: inj_onD)
qed

lemma in_order_completed:
  assumes "in_order (xs @ fs)"
  shows "in_order (xs @ filter (due s) fs @ filter (\<lambda>g. \<not> due s g) fs)"
  using assms unfolding in_order_def sorted_wrt_append
  by (auto simp: sorted_wrt_filter due_def not_le)

lemma mset_split: "mset (map f xs) = mset (map f (filter P xs)) + mset (map f (filter (\<lambda>x. \<not> P x) xs))"
  by (induction xs) simp_all

lemma answer_inv_found:
  assumes "fence_order is_later" and "fence_inv drv" and "s \<in> set (fences drv)"
  shows "fence_inv (virtio_gpu_fence_event_process is_later (fn_id s) drv)"
proof -
  have wf: "fences_wf drv" and ord: "in_order (signalled drv @ fences drv)" and refs: "refs_balanced drv"
    using assms(2) by (simp_all add: fence_inv_def)
  have d: "distinct (map fn_ptr (fences drv))" using wf by (simp add: fences_wf_def)
  note eq = fence_order.event_process_completes [OF assms(1) wf assms(3)]
  have "fences_wf (virtio_gpu_fence_event_process is_later (fn_id s) drv)"
    using wf unfolding eq fences_wf_def complete_all by (auto simp: sorted_wrt_filter distinct_map_filter)
  moreover have "in_order (signalled (virtio_gpu_fence_event_process is_later (fn_id s) drv) @
      fences (virtio_gpu_fence_event_process is_later (fn_id s) drv))"
    using in_order_completed [OF ord, of s] unfolding eq complete_all by (simp add: due_removed [OF d, simplified])
  moreover have "refs_balanced (virtio_gpu_fence_event_process is_later (fn_id s) drv)"
    using refs mset_split [of fn_ptr "fences drv" "due s"] unfolding eq refs_balanced_def complete_all
    by (simp add: due_removed [OF d, simplified])
  moreover have "\<forall>f \<in> set (signalled (virtio_gpu_fence_event_process is_later (fn_id s) drv)). fn_id f \<le> current_fence_id drv"
    using assms(2) wf unfolding eq complete_all by (auto simp: fence_inv_def fences_wf_def)
  ultimately show ?thesis by (simp add: fence_inv_def eq complete_all)
qed

lemma answer_inv:
  assumes "fence_order is_later" and "fence_inv drv"
  shows "fence_inv (virtio_gpu_fence_event_process is_later n drv)"
proof (cases "List.find (\<lambda>f. n = fn_id f) (fences drv)")
  case None
  then show ?thesis using assms(2)
    by (simp add: virtio_gpu_fence_event_process_def fence_inv_def fences_wf_def refs_balanced_def)
next
  case (Some s)
  then have "s \<in> set (fences drv)" "n = fn_id s" by (auto simp: find_Some_iff)
  then show ?thesis using answer_inv_found [OF assms] by simp
qed

lemma emit_inv:
  assumes "fence_inv drv" and "fn_ptr f \<notin> fn_ptr ` set (fences drv)" and "unat (current_fence_id drv) + 1 < 2 ^ 64"
    and "\<forall>g \<in> set (fences drv). unat (current_fence_id drv) + 1 < unat (fn_id g) + 2 ^ 31"
    and "virtio_gpu_fence_emit hdr f drv = (hdr', f', drv')"
  shows "fence_inv drv'"
proof -
  let ?n = "current_fence_id drv + 1"
  have n: "unat ?n = unat (current_fence_id drv) + 1" using assms(3) by (simp add: unat_word_ariths)
  have f': "fn_id f' = ?n" "fn_seqno f' = ?n" "fn_ptr f' = fn_ptr f" "fn_context f' = fn_context f"
    and drv': "fences drv' = fences drv @ [f']" "current_fence_id drv' = ?n" "got drv' = got drv @ [fn_ptr f]"
      "signalled drv' = signalled drv" "put drv' = put drv"
    using assms(5) by (auto simp: virtio_gpu_fence_emit_def Let_def)
  have below: "fn_id g < ?n \<and> fn_id g \<le> ?n" if "g \<in> set (signalled drv @ fences drv)" for g
    using that assms(1) n by (auto simp: fence_inv_def fences_wf_def word_less_nat_alt word_le_nat_alt)
  have "fences_wf drv'"
    using assms(1,2,4) below n by (auto simp: fence_inv_def fences_wf_def drv' f' sorted_wrt_append)
  moreover have "in_order (signalled drv' @ fences drv')"
    using assms(1) below by (auto simp: fence_inv_def in_order_def drv' f' sorted_wrt_append)
  moreover have "refs_balanced drv'"
    using assms(1) by (simp add: fence_inv_def refs_balanced_def drv' f')
  ultimately show ?thesis using below by (auto simp: fence_inv_def drv')
qed

lemma reachable_inv:
  assumes "fence_order is_later" and "fence_reachable is_later drv"
  shows "fence_inv drv"
  using assms(2)
proof induction
  case (start ctx)
  then show ?case by (simp add: fence_start_def fence_inv_def fences_wf_def in_order_def refs_balanced_def)
next
  case (step drv drv')
  from step.hyps(2) step.IH show ?case
    by cases (auto intro: emit_inv answer_inv [OF assms(1)])
qed

text \<open>
  When the host answers with the number of a waiting fence, exactly the waiting fences of its context up
  to that number are signalled, in the order they were queued, each unlinked and its
  reference dropped once, their events sent; every other fence waits on in its place. An answer with
  any other number signals nothing.
\<close>
theorem fence_event_signals:
  assumes "fence_order is_later" and "fence_reachable is_later drv"
    and "drv' = virtio_gpu_fence_event_process is_later n drv"
  shows "last_fence_id drv' = n \<and>
    (case List.find (\<lambda>f. fn_id f = n) (fences drv) of
       None \<Rightarrow> fences drv' = fences drv \<and> signalled drv' = signalled drv \<and> sent drv' = sent drv \<and> put drv' = put drv
     | Some s \<Rightarrow> fences drv' = filter (\<lambda>f. \<not> (fn_context f = fn_context s \<and> fn_id f \<le> n)) (fences drv) \<and>
         signalled drv' = signalled drv @ filter (\<lambda>f. fn_context f = fn_context s \<and> fn_id f \<le> n) (fences drv) \<and>
         sent drv' = sent drv @ map fn_ptr (filter fn_event (filter (\<lambda>f. fn_context f = fn_context s \<and> fn_id f \<le> n) (fences drv))) \<and>
         put drv' = put drv @ map fn_ptr (filter (\<lambda>f. fn_context f = fn_context s \<and> fn_id f \<le> n) (fences drv)))"
proof (cases "List.find (\<lambda>f. fn_id f = n) (fences drv)")
  case None
  moreover from this have "List.find (\<lambda>f. n = fn_id f) (fences drv) = None" by (auto simp: find_None_iff)
  ultimately show ?thesis using assms(3) by (simp add: virtio_gpu_fence_event_process_def)
next
  case (Some s)
  then have s: "s \<in> set (fences drv)" "fn_id s = n" by (auto simp: find_Some_iff)
  have wf: "fences_wf drv" using reachable_inv [OF assms(1,2)] by (simp add: fence_inv_def)
  then have d: "distinct (map fn_ptr (fences drv))" by (simp add: fences_wf_def)
  have due: "due s = (\<lambda>f. fn_context f = fn_context s \<and> fn_id f \<le> n)" by (auto simp: due_def s(2))
  have "drv' = fold complete_fence (filter (due s) (fences drv)) (drv\<lparr>last_fence_id := n\<rparr>)"
    using fence_order.event_process_completes [OF assms(1) wf s(1)] s(2) assms(3) by simp
  then show ?thesis using Some due_removed [OF d, of s] by (simp add: complete_all due)
qed

text \<open>
  C21. In every state the driver can reach, whatever numbers the host answers with, the fences of a context have
  been signalled in the order they were queued, each before any that still waits, none twice, and
  the references taken are those dropped and those of the waiting fences.
\<close>
theorem fences_signal_in_order:
  assumes "fence_order is_later" and "fence_reachable is_later drv"
  shows "in_order (signalled drv @ fences drv) \<and> refs_balanced drv \<and> fences_wf drv"
  using reachable_inv [OF assms] by (simp add: fence_inv_def)

subsection \<open>Witnesses\<close>

definition demo_fence :: "ptr \<Rightarrow> u64 \<Rightarrow> virtio_gpu_fence" where
  "demo_fence p ctx = \<lparr>fn_ptr = p, fn_context = ctx, fn_seqno = 0, fn_ring_idx = 0, fn_id = 0, fn_emit_info = False, fn_event = False\<rparr>"

definition demo_hdr :: virtio_gpu_ctrl_hdr where
  "demo_hdr = \<lparr>hdr_type = 0, hdr_flags = 0, hdr_fence_id = 0, hdr_ctx_id = 0, hdr_ring_idx = 0\<rparr>"

text \<open>Two fences of one context and one of another.\<close>
definition demo_fences :: virtio_gpu_fence_driver where
  "demo_fences = snd (snd (virtio_gpu_fence_emit demo_hdr (demo_fence 3 7) (snd (snd (virtio_gpu_fence_emit demo_hdr (demo_fence 2 8)
     (snd (snd (virtio_gpu_fence_emit demo_hdr (demo_fence 1 7) (fence_start 7)))))))))"

lemma emit_reachable:
  assumes "fence_reachable is_later drv" and "fn_ptr f \<notin> fn_ptr ` set (fences drv)" and "unat (current_fence_id drv) + 1 < 2 ^ 64"
    and "\<forall>g \<in> set (fences drv). unat (current_fence_id drv) + 1 < unat (fn_id g) + 2 ^ 31"
  shows "fence_reachable is_later (snd (snd (virtio_gpu_fence_emit hdr f drv)))"
  by (rule fence_reachable.step [OF assms(1)], rule fence_step.emit [OF assms(2-4)]) (simp add: prod_eq_iff)

lemma demo_fences_reachable: "fence_reachable is_later_32 demo_fences"
  unfolding demo_fences_def
  by (intro emit_reachable fence_reachable.start)
     (simp_all add: virtio_gpu_fence_emit_def Let_def fence_start_def demo_fence_def)

theorem fence_event_signals_witness:
  "map fn_ptr (signalled (virtio_gpu_fence_event_process is_later_32 3 demo_fences)) = [1, 3]"
  using fence_event_signals [OF order32.fence_order_axioms demo_fences_reachable refl, of 3]
  by (simp add: demo_fences_def virtio_gpu_fence_emit_def Let_def fence_start_def demo_fence_def)

theorem fences_signal_in_order_witness: "refs_balanced demo_fences \<and> length (fences demo_fences) = 3"
  using fences_signal_in_order [OF order32.fence_order_axioms demo_fences_reachable]
  by (simp add: demo_fences_def virtio_gpu_fence_emit_def Let_def fence_start_def demo_fence_def)

end
