(* ===== verification/Virtgpu_Vq.thy ===== *)
theory Virtgpu_Vq
  imports Lkpi_Virtio Virtgpu_Fence "HOL-Library.Monad_Syntax"
begin

text \<open>
  The queues of virtio-gpu (\<^verbatim>\<open>drivers/gpu/drm/virtio/virtgpu_vq.c\<close>, first half): command buffers, the page list
  of a data buffer, queueing with a fence, waiting for room, the notification, the cursor queue.
  An operation returns None when it does not come back: it waits for ever, trips a BUG_ON or
  touches a buffer that was freed. The rest of the kernel is the record \<open>vg_env\<close>; what the
  driver calls in the object code, and the waking of sleepers, is recorded in \<open>vg_log\<close>.
\<close>

subsection \<open>State\<close>

datatype virtio_gpu_resp_cb =
    Unref_cb | Get_display_info_cb | Get_capset_info_cb | Capset_cb | Get_edid_cb | Resource_uuid_cb | Resource_map_cb

record virtio_gpu_object_array =
  oa_ptr :: ptr
  oa_objs :: "ptr list"

text \<open>A command buffer: \<open>vb_hdr\<close> and \<open>vb_body\<close> are what \<open>buf\<close> points to.\<close>
record virtio_gpu_vbuffer =
  vb_buf :: ptr
  vb_hdr :: virtio_gpu_ctrl_hdr
  vb_body :: "u8 list"
  vb_size :: nat
  vb_data_buf :: "ptr option"
  vb_data_size :: u32
  vb_resp_buf :: ptr
  vb_resp_size :: int
  vb_resp_cb :: "virtio_gpu_resp_cb option"
  vb_resp_cb_data :: "ptr option"
  vb_objs :: "virtio_gpu_object_array option"
  vb_seqno :: u32

record 'q virtio_gpu_queue =
  q_vq :: "'q lkpi_virtqueue"
  q_seqno :: u32
  q_dequeue_work :: bool

record virtio_gpu_rect =
  r_x :: u32
  r_y :: u32
  r_width :: u32
  r_height :: u32

record virtio_gpu_display_one =
  do_r :: virtio_gpu_rect
  do_enabled :: u32
  do_flags :: u32

text \<open>The cursor fields are those of \<open>virtio_gpu_update_cursor\<close>.\<close>
record virtio_gpu_output =
  out_index :: nat
  out_info :: virtio_gpu_display_one
  out_cursor_hdr :: virtio_gpu_ctrl_hdr
  out_cursor_scanout :: u32
  out_cursor_rest :: "u8 list"
  out_edid :: "u8 list option"

record virtio_gpu_drv_capset =
  cs_id :: u32
  cs_max_version :: u32
  cs_max_size :: u32

record virtio_gpu_drv_cap_cache =
  cc_ptr :: ptr
  cc_id :: u32
  cc_version :: u32
  cc_size :: u32
  cc_data :: "u8 list"
  cc_valid :: bool

datatype obj_state = STATE_INITIALIZING | STATE_OK | STATE_ERR

text \<open>An object, with the fields of \<open>virtio_gpu_object_vram\<close> for those that are one.\<close>
record virtio_gpu_object =
  hw_res_handle :: u32
  bo_created :: bool
  bo_shmem :: bool
  bo_uuid_state :: obj_state
  bo_uuid :: "u8 list"
  bo_map_state :: obj_state
  bo_map_info :: u32

text \<open>Calls into the object code and into the kernel, in order.\<close>
datatype vg_event =
    Unlock_resv ptr | Add_fence ptr ptr | Put_free_delayed ptr | Put_free ptr | Cleanup_object ptr
  | Dma_sync ptr | Warn | Wake_ctrl | Wake_cursor | Wake_resp | Hotplug | Kfree ptr

record 'q virtio_gpu_device =
  vg_ctrlq :: "'q virtio_gpu_queue"
  vg_cursorq :: "'q virtio_gpu_queue"
  vg_vbufs :: "ptr \<Rightarrow> virtio_gpu_vbuffer option"
  vg_pending_commands :: u32
  vg_fence_drv :: virtio_gpu_fence_driver
  vg_plugged :: bool
  vg_has_indirect :: bool
  vg_has_edid :: bool
  vg_display_info_pending :: bool
  vg_outputs :: "virtio_gpu_output list"
  vg_num_scanouts :: nat
  vg_capsets :: "virtio_gpu_drv_capset list option"
  vg_num_capsets :: u32
  vg_cap_cache :: "virtio_gpu_drv_cap_cache list"
  vg_objects :: "ptr \<Rightarrow> virtio_gpu_object option"
  vg_log :: "vg_event list"

text \<open>
  The kernel around the driver: FreeBSD's virtqueue, the physical address of a kernel address, whether it is
  one of \<open>vmalloc\<close>, the page \<open>vmalloc_to_page\<close> finds, whether the two allocations of a page list
  succeed, the comparison of fences, whether buffers are mapped with the DMA interface, whether the
  connectors changed, the EDID reader of the DRM core (which calls a block reader), and what the other
  threads have done to the device when a sleeper wakes up.
\<close>
record 'q vg_env =
  env_bsd :: "'q vq_ops"
  env_vtophys :: "ptr \<Rightarrow> u64"
  env_is_vmalloc :: "ptr \<Rightarrow> bool"
  env_page :: "ptr \<Rightarrow> u64 option"
  env_sgt_alloc :: bool
  env_is_later :: "virtio_gpu_fence \<Rightarrow> virtio_gpu_fence \<Rightarrow> bool"
  env_use_dma_api :: bool
  env_hpd_irq_event :: bool
  env_edid_read :: "(u32 \<Rightarrow> nat \<Rightarrow> u8 list result option) \<Rightarrow> u8 list option option"
  env_ctrl_sleep :: "'q virtio_gpu_device \<Rightarrow> 'q virtio_gpu_device"
  env_cursor_sleep :: "'q virtio_gpu_device \<Rightarrow> 'q virtio_gpu_device"

definition logged :: "vg_event list \<Rightarrow> 'q virtio_gpu_device \<Rightarrow> 'q virtio_gpu_device" where
  "logged es dev = dev\<lparr>vg_log := vg_log dev @ es\<rparr>"

text \<open>A loop whose body may not come back.\<close>
fun each :: "('a \<Rightarrow> 's \<Rightarrow> 's option) \<Rightarrow> 'a list \<Rightarrow> 's \<Rightarrow> 's option" where
  "each f [] s = Some s"
| "each f (x # xs) s = (case f x s of None \<Rightarrow> None | Some s' \<Rightarrow> each f xs s')"

subsection \<open>Command buffers\<close>

definition MAX_INLINE_CMD_SIZE :: nat where "MAX_INLINE_CMD_SIZE = 96"
definition MAX_INLINE_RESP_SIZE :: int where "MAX_INLINE_RESP_SIZE = 24"

text \<open>The sizes of the structures on a 64-bit machine.\<close>
definition sizeof_vbuffer :: nat where "sizeof_vbuffer = 96"
definition sizeof_ctrl_hdr :: nat where "sizeof_ctrl_hdr = 24"

definition VBUFFER_SIZE :: nat where
  "VBUFFER_SIZE = sizeof_vbuffer + MAX_INLINE_CMD_SIZE + nat MAX_INLINE_RESP_SIZE"

definition virtio_gpu_ctrl_ack :: "'q virtio_gpu_device \<Rightarrow> 'q virtio_gpu_device" where
  "virtio_gpu_ctrl_ack dev = dev\<lparr>vg_ctrlq := (vg_ctrlq dev)\<lparr>q_dequeue_work := True\<rparr>\<rparr>"

definition virtio_gpu_cursor_ack :: "'q virtio_gpu_device \<Rightarrow> 'q virtio_gpu_device" where
  "virtio_gpu_cursor_ack dev = dev\<lparr>vg_cursorq := (vg_cursorq dev)\<lparr>q_dequeue_work := True\<rparr>\<rparr>"

definition zero_hdr :: virtio_gpu_ctrl_hdr where
  "zero_hdr = \<lparr>hdr_type = 0, hdr_flags = 0, hdr_fence_id = 0, hdr_ctx_id = 0, hdr_ring_idx = 0\<rparr>"

text \<open>\<open>p\<close> is the address the cache gave, which cannot fail; the memory is zeroed.\<close>
definition virtio_gpu_get_vbuf ::
    "ptr \<Rightarrow> nat \<Rightarrow> int \<Rightarrow> ptr option \<Rightarrow> virtio_gpu_resp_cb option \<Rightarrow> 'q virtio_gpu_device \<Rightarrow> 'q virtio_gpu_device option" where
  "virtio_gpu_get_vbuf p sz resp_size resp_buf resp_cb dev =
     (if sz > MAX_INLINE_CMD_SIZE \<or> sz < sizeof_ctrl_hdr then None
      else let buf = p + sizeof_vbuffer
           in case (if resp_size \<le> MAX_INLINE_RESP_SIZE then Some (buf + sz) else resp_buf) of
                None \<Rightarrow> None
              | Some r \<Rightarrow> Some (dev\<lparr>vg_vbufs := (vg_vbufs dev)(p \<mapsto>
                   \<lparr>vb_buf = buf, vb_hdr = zero_hdr, vb_body = replicate (sz - sizeof_ctrl_hdr) 0, vb_size = sz,
                    vb_data_buf = None, vb_data_size = 0, vb_resp_buf = r, vb_resp_size = resp_size, vb_resp_cb = resp_cb,
                    vb_resp_cb_data = None, vb_objs = None, vb_seqno = 0\<rparr>)\<rparr>))"

definition virtio_gpu_alloc_cmd_resp ::
    "ptr \<Rightarrow> virtio_gpu_resp_cb option \<Rightarrow> nat \<Rightarrow> int \<Rightarrow> ptr option \<Rightarrow> 'q virtio_gpu_device \<Rightarrow> 'q virtio_gpu_device option" where
  "virtio_gpu_alloc_cmd_resp p cb cmd_size resp_size resp_buf dev = virtio_gpu_get_vbuf p cmd_size resp_size resp_buf cb dev"

definition virtio_gpu_alloc_cmd :: "ptr \<Rightarrow> nat \<Rightarrow> 'q virtio_gpu_device \<Rightarrow> 'q virtio_gpu_device option" where
  "virtio_gpu_alloc_cmd p sz dev = virtio_gpu_alloc_cmd_resp p None sz (int sizeof_ctrl_hdr) None dev"

definition virtio_gpu_alloc_cmd_cb ::
    "ptr \<Rightarrow> nat \<Rightarrow> virtio_gpu_resp_cb \<Rightarrow> 'q virtio_gpu_device \<Rightarrow> 'q virtio_gpu_device option" where
  "virtio_gpu_alloc_cmd_cb p sz cb dev = virtio_gpu_alloc_cmd_resp p (Some cb) sz (int sizeof_ctrl_hdr) None dev"

text \<open>\<open>update_cursor\<close> has 56 bytes and no response.\<close>
definition virtio_gpu_alloc_cursor :: "ptr \<Rightarrow> 'q virtio_gpu_device \<Rightarrow> 'q virtio_gpu_device option" where
  "virtio_gpu_alloc_cursor p dev = virtio_gpu_get_vbuf p 56 0 None None dev"

definition free_vbuf :: "ptr \<Rightarrow> 'q virtio_gpu_device \<Rightarrow> 'q virtio_gpu_device option" where
  "free_vbuf p dev =
     map_option (\<lambda>vb. logged ((if vb_resp_size vb > MAX_INLINE_RESP_SIZE then [Kfree (vb_resp_buf vb)] else []) @
                              (case vb_data_buf vb of None \<Rightarrow> [] | Some d \<Rightarrow> [Kfree d]))
                         (dev\<lparr>vg_vbufs := (vg_vbufs dev)(p := None)\<rparr>))
       (vg_vbufs dev p)"

subsection \<open>The page list of a data buffer\<close>

definition PAGE_SIZE :: nat where "PAGE_SIZE = 4096"

text \<open>
  The loop over the entries. \<open>s\<close> is the minimum of the rest of the page and the rest of the buffer, as
  \<open>int\<close>; adding it to the address and taking it from the size follow C's conversions.
\<close>
fun sgt_entries :: "(ptr \<Rightarrow> u64 option) \<Rightarrow> nat \<Rightarrow> ptr \<Rightarrow> u32 \<Rightarrow> u32 \<Rightarrow> scatterlist list option" where
  "sgt_entries page 0 data sz offset = Some []"
| "sgt_entries page (Suc n) data sz offset =
     (case page data of
        None \<Rightarrow> None
      | Some pg \<Rightarrow>
         (let s = min (int PAGE_SIZE - uint offset) (sint sz)
          in map_option (Cons \<lparr>sg_dma_address = 0, sg_phys = pg + ucast offset, sg_length = word_of_int s\<rparr>)
               (sgt_entries page n (nat (int data + s)) (sz - word_of_int s) 0)))"

text \<open>The list and the number of its entries, None for NULL; what was allocated before a failure is freed.\<close>
definition vmalloc_to_sgt :: "bool \<Rightarrow> (ptr \<Rightarrow> u64 option) \<Rightarrow> ptr \<Rightarrow> u32 \<Rightarrow> (scatterlist list \<times> nat) option" where
  "vmalloc_to_sgt alloc page data sz =
     (let offset = of_nat (data mod PAGE_SIZE);
          sg_ents = (unat (offset + sz + of_nat PAGE_SIZE - 1)) div PAGE_SIZE
      in if \<not> alloc then None else map_option (\<lambda>sgl. (sgl, sg_ents)) (sgt_entries page sg_ents data sz offset))"

subsection \<open>Queueing on the control queue\<close>

definition virtio_gpu_notify :: "'q vq_ops \<Rightarrow> 'q virtio_gpu_device \<Rightarrow> 'q virtio_gpu_device" where
  "virtio_gpu_notify bsd dev =
     (if vg_pending_commands dev = 0 then dev
      else let dev1 = dev\<lparr>vg_pending_commands := 0\<rparr>; vq = q_vq (vg_ctrlq dev1)
           in if lkpi_virtqueue_kick_prepare vq then dev1\<lparr>vg_ctrlq := (vg_ctrlq dev1)\<lparr>q_vq := lkpi_virtqueue_notify bsd vq\<rparr>\<rparr>
              else dev1)"

text \<open>From \<open>again\<close> to the end of the wait, the lock held on return.\<close>
partial_function (option) ctrl_room :: "'q vg_env \<Rightarrow> u32 \<Rightarrow> 'q virtio_gpu_device \<Rightarrow> 'q virtio_gpu_device option" where
  "ctrl_room env elemcnt dev =
     (if virtqueue_num_free (env_bsd env) (q_vq (vg_ctrlq dev)) < elemcnt
      then ctrl_room env elemcnt (env_ctrl_sleep env (virtio_gpu_notify (env_bsd env) dev))
      else Some dev)"

definition emit_ctrl_fence :: "ptr \<Rightarrow> virtio_gpu_vbuffer \<Rightarrow> virtio_gpu_fence \<Rightarrow> 'q virtio_gpu_device \<Rightarrow> 'q virtio_gpu_device" where
  "emit_ctrl_fence p vb fence dev =
     (let (hdr, fence', drv) = virtio_gpu_fence_emit (vb_hdr vb) fence (vg_fence_drv dev)
      in logged (case vb_objs vb of None \<Rightarrow> [] | Some objs \<Rightarrow> [Add_fence (oa_ptr objs) (fn_ptr fence), Unlock_resv (oa_ptr objs)])
           (dev\<lparr>vg_fence_drv := drv, vg_vbufs := (vg_vbufs dev)(p \<mapsto> vb\<lparr>vb_hdr := hdr\<rparr>)\<rparr>))"

text \<open>\<open>virtio_gpu_array_unlock_resv\<close> on the way out of a failure.\<close>
definition unlock_on_error :: "virtio_gpu_vbuffer \<Rightarrow> virtio_gpu_fence option \<Rightarrow> 'q virtio_gpu_device \<Rightarrow> 'q virtio_gpu_device" where
  "unlock_on_error vb fence dev =
     (case (fence, vb_objs vb) of (Some _, Some objs) \<Rightarrow> logged [Unlock_resv (oa_ptr objs)] dev | _ \<Rightarrow> dev)"

definition virtio_gpu_queue_ctrl_sgs ::
    "'q vg_env \<Rightarrow> ptr \<Rightarrow> virtio_gpu_fence option \<Rightarrow> nat \<Rightarrow> scatterlist list list \<Rightarrow> nat \<Rightarrow> nat \<Rightarrow> 'q virtio_gpu_device \<Rightarrow>
     (unit result \<times> 'q virtio_gpu_device) option" where
  "virtio_gpu_queue_ctrl_sgs env p fence elemcnt sgs outcnt incnt dev =
     (case vg_vbufs dev p of
        None \<Rightarrow> None
      | Some vb \<Rightarrow>
         (if \<not> vg_plugged dev then map_option (\<lambda>d. (Inl ENODEV, d)) (free_vbuf p (unlock_on_error vb fence dev))
          else do {
            dev1 \<leftarrow> ctrl_room env (if vg_has_indirect dev then 1 else of_nat elemcnt) dev;
            vb1 \<leftarrow> vg_vbufs dev1 p;
            let dev2 = (case fence of None \<Rightarrow> dev1 | Some f \<Rightarrow> emit_ctrl_fence p vb1 f dev1);
            vb2 \<leftarrow> vg_vbufs dev2 p;
            let (ret, vq) = lkpi_virtqueue_add_sgs (env_bsd env) sgs outcnt incnt p (q_vq (vg_ctrlq dev2));
            let dev3 = (case ret of Inl _ \<Rightarrow> logged [Warn] dev2 | Inr _ \<Rightarrow> dev2);
            let seqno = q_seqno (vg_ctrlq dev3) + 1;
            Some (Inr (), dev3\<lparr>vg_ctrlq := (vg_ctrlq dev3)\<lparr>q_vq := vq, q_seqno := seqno\<rparr>,
                    vg_vbufs := (vg_vbufs dev3)(p \<mapsto> vb2\<lparr>vb_seqno := seqno\<rparr>),
                    vg_pending_commands := vg_pending_commands dev3 + 1\<rparr>)
          }))"

definition sg_init_one :: "'q vg_env \<Rightarrow> ptr \<Rightarrow> u32 \<Rightarrow> scatterlist list" where
  "sg_init_one env a len = [\<lparr>sg_dma_address = 0, sg_phys = env_vtophys env a, sg_length = len\<rparr>]"

text \<open>The address of a nullable pointer.\<close>
definition addr_of :: "ptr option \<Rightarrow> ptr" where
  "addr_of p = (case p of None \<Rightarrow> 0 | Some a \<Rightarrow> a)"

text \<open>The chains of the data with the number of their entries; None when there is no memory for the page list.\<close>
definition data_sgs :: "'q vg_env \<Rightarrow> virtio_gpu_vbuffer \<Rightarrow> (scatterlist list list \<times> nat) option" where
  "data_sgs env vb =
     (let data = addr_of (vb_data_buf vb)
      in if vb_data_size vb = 0 then Some ([], 0)
         else if env_is_vmalloc env data
         then map_option (\<lambda>(sgl, sg_ents). ([sgl], sg_ents)) (vmalloc_to_sgt (env_sgt_alloc env) (env_page env) data (vb_data_size vb))
         else Some ([sg_init_one env data (vb_data_size vb)], 1))"

definition virtio_gpu_queue_fenced_ctrl_buffer ::
    "'q vg_env \<Rightarrow> ptr \<Rightarrow> virtio_gpu_fence option \<Rightarrow> 'q virtio_gpu_device \<Rightarrow> (unit result \<times> 'q virtio_gpu_device) option" where
  "virtio_gpu_queue_fenced_ctrl_buffer env p fence dev =
     (case vg_vbufs dev p of
        None \<Rightarrow> None
      | Some vb \<Rightarrow>
         (let vcmd = sg_init_one env (vb_buf vb) (of_nat (vb_size vb))
          in case data_sgs env vb of
               None \<Rightarrow> Some (Inl ENOMEM, unlock_on_error vb fence dev)
             | Some (vout, ents) \<Rightarrow>
                (let vresp = (if vb_resp_size vb \<noteq> 0 then [sg_init_one env (vb_resp_buf vb) (word_of_int (vb_resp_size vb))] else [])
                 in virtio_gpu_queue_ctrl_sgs env p fence (1 + ents + length vresp) (vcmd # vout @ vresp) (1 + length vout) (length vresp) dev)))"

definition virtio_gpu_queue_ctrl_buffer ::
    "'q vg_env \<Rightarrow> ptr \<Rightarrow> 'q virtio_gpu_device \<Rightarrow> (unit result \<times> 'q virtio_gpu_device) option" where
  "virtio_gpu_queue_ctrl_buffer env p dev = virtio_gpu_queue_fenced_ctrl_buffer env p None dev"

subsection \<open>The cursor queue\<close>

text \<open>From \<open>retry\<close> until the request is taken, or fails otherwise than for want of room.\<close>
partial_function (option) cursor_add :: "'q vg_env \<Rightarrow> ptr \<Rightarrow> scatterlist list list \<Rightarrow> 'q virtio_gpu_device \<Rightarrow> 'q virtio_gpu_device option" where
  "cursor_add env p sgs dev =
     (let (ret, vq) = lkpi_virtqueue_add_sgs (env_bsd env) sgs 1 0 p (q_vq (vg_cursorq dev));
          dev1 = dev\<lparr>vg_cursorq := (vg_cursorq dev)\<lparr>q_vq := vq\<rparr>\<rparr>
      in if ret = Inl ENOSPC then cursor_add env p sgs (env_cursor_sleep env dev1) else Some dev1)"

definition virtio_gpu_queue_cursor :: "'q vg_env \<Rightarrow> ptr \<Rightarrow> 'q virtio_gpu_device \<Rightarrow> 'q virtio_gpu_device option" where
  "virtio_gpu_queue_cursor env p dev =
     (case vg_vbufs dev p of
        None \<Rightarrow> None
      | Some vb \<Rightarrow>
         (if \<not> vg_plugged dev then free_vbuf p dev
          else do {
            dev1 \<leftarrow> cursor_add env p [sg_init_one env (vb_buf vb) (of_nat (vb_size vb))] dev;
            vb1 \<leftarrow> vg_vbufs dev1 p;
            let seqno = q_seqno (vg_cursorq dev1) + 1;
            let vq = q_vq (vg_cursorq dev1);
            Some (dev1\<lparr>vg_vbufs := (vg_vbufs dev1)(p \<mapsto> vb1\<lparr>vb_seqno := seqno\<rparr>),
              vg_cursorq := (vg_cursorq dev1)\<lparr>q_seqno := seqno,
                q_vq := (if lkpi_virtqueue_kick_prepare vq then lkpi_virtqueue_notify (env_bsd env) vq else vq)\<rparr>\<rparr>)
          }))"

subsection \<open>The page list covers the buffer\<close>

text \<open>The physical addresses an entry stands for.\<close>
definition sg_addrs :: "scatterlist \<Rightarrow> u64 list" where
  "sg_addrs s = map (\<lambda>i. sg_phys s + of_nat i) [0..<unat (sg_length s)]"

text \<open>The physical address of byte \<open>a\<close> of mapped memory whose page frames are \<open>frame\<close>.\<close>
definition mapped_addr :: "(nat \<Rightarrow> u64) \<Rightarrow> ptr \<Rightarrow> u64" where
  "mapped_addr frame a = frame (a div PAGE_SIZE) + of_nat (a mod PAGE_SIZE)"

lemma sint_small: "unat (w :: u32) < 2 ^ 31 \<Longrightarrow> sint w = int (unat w)"
proof -
  assume "unat w < 2 ^ 31"
  then have "unat w < 2147483648" by simp
  then have "uint w < 2147483648" unfolding uint_nat by linarith
  then have "signed_take_bit 31 (uint w) = uint w"
    by (intro signed_take_bit_int_eq_self order.trans [OF _ uint_ge_0]) simp_all
  moreover have "LENGTH(32) - Suc 0 = 31" by simp
  ultimately show ?thesis unfolding sint_uint by (simp only: uint_nat)
qed

lemma addrs_upto: "map (\<lambda>i. f (k + i)) [0..<n] = map f [k..<k + n]"
  by (rule nth_equalityI) simp_all

text \<open>The bytes of one entry, which does not leave its page.\<close>
lemma page_entry_addrs:
  assumes "data mod 4096 + k \<le> 4096"
  shows "map (\<lambda>i. frame (data div 4096) + of_nat (data mod 4096) + of_nat i) [0..<k] = map (mapped_addr frame) [data..<data + k]"
proof -
  have "frame (data div 4096) + of_nat (data mod 4096) + of_nat i = mapped_addr frame (data + i)" if "i < k" for i
  proof -
    have "data mod 4096 + i < 4096" using that assms by simp
    moreover have "data + i = data mod 4096 + i + data div 4096 * 4096" by simp
    ultimately have "(data + i) div 4096 = data div 4096" "(data + i) mod 4096 = data mod 4096 + i"
      by (simp_all only: div_mult_self1 mod_mult_self1 div_less mod_less)
    then show ?thesis by (simp add: mapped_addr_def PAGE_SIZE_def)
  qed
  then show ?thesis by (simp flip: addrs_upto)
qed

text \<open>What is left after an entry of \<open>k\<close> bytes, which ends the page or the buffer.\<close>
lemma rest_of_pages:
  fixes off sz k :: nat
  assumes "k = min (4096 - off) sz" and "off < 4096" and "0 < sz"
  shows "(off + sz + 4095) div 4096 = Suc ((sz - k + 4095) div 4096)"
proof (cases "k = sz")
  case True
  then have "off + sz \<le> 4096" using assms by linarith
  moreover from this have "off + sz + 4095 = (off + sz - 1) + 4096" using assms(3) by simp
  ultimately have "(off + sz + 4095) div 4096 = (off + sz - 1) div 4096 + 1" by (simp only: div_add_self2)
  then show ?thesis using True \<open>off + sz \<le> 4096\<close> assms(3) by simp
next
  case False
  then have "off + k = 4096" using assms(1,2) by linarith
  then have "off + sz + 4095 = (sz - k + 4095) + 4096" using assms(1) by simp
  then have "(off + sz + 4095) div 4096 = (sz - k + 4095) div 4096 + 1" by (simp only: div_add_self2)
  then show ?thesis by simp
qed

text \<open>The list is complete, in the order of the buffer, and no entry is empty or leaves its page.\<close>
definition covers :: "(nat \<Rightarrow> u64) \<Rightarrow> ptr \<Rightarrow> nat \<Rightarrow> scatterlist list \<Rightarrow> bool" where
  "covers frame data n sgl \<longleftrightarrow>
     concat (map sg_addrs sgl) = map (mapped_addr frame) [data..<data + n] \<and>
     (\<forall>s \<in> set sgl. 0 < sg_length s \<and> unat (sg_length s) \<le> PAGE_SIZE)"

lemma covers_Cons:
  assumes "sg_addrs e = map (mapped_addr frame) [data..<data + k]" and "covers frame (data + k) (n - k) sgl" and "k \<le> n"
    and "0 < sg_length e" and "unat (sg_length e) \<le> PAGE_SIZE"
  shows "covers frame data n (e # sgl)"
  using assms upt_add_eq_append [of data "data + k" "n - k"] by (simp add: covers_def)

lemma sgt_entries_covers:
  assumes "n = (unat offset + unat sz + 4095) div 4096" and "unat sz < 2 ^ 31" and "unat offset < 4096"
    and "if sz = 0 then offset = 0 else unat offset = data mod 4096"
    and "\<forall>a. data \<le> a \<and> a < data + unat sz \<longrightarrow> page a = Some (frame (a div 4096))"
  shows "\<exists>sgl. sgt_entries page n data sz offset = Some sgl \<and> length sgl = n \<and> covers frame data (unat sz) sgl"
  using assms
proof (induction n arbitrary: data sz offset)
  case 0
  then show ?case by (simp add: div_eq_0_iff covers_def)
next
  case (Suc n)
  have "sz \<noteq> 0" using Suc.prems(1,4) by auto
  then have pos: "0 < unat sz" and off: "unat offset = data mod 4096" using Suc.prems(4) by (simp_all add: unat_gt_0)
  define k where "k = min (4096 - unat offset) (unat sz)"
  let ?rest = "sz - word_of_int (int k)"
  have k: "0 < k" "k \<le> unat sz" "data mod 4096 + k \<le> 4096" using pos Suc.prems(3) off by (simp_all add: k_def)
  have w: "min (int PAGE_SIZE - uint offset) (sint sz) = int k"
  proof -
    have "int PAGE_SIZE - uint offset = int (4096 - unat offset)"
      unfolding PAGE_SIZE_def uint_nat using Suc.prems(3) by linarith
    then show ?thesis unfolding sint_small [OF Suc.prems(2)] k_def by (simp only: of_nat_min)
  qed
  have ws: "unat (word_of_int (int k) :: u32) = k" using k(3) by (simp add: unat_of_nat take_bit_nat_eq_self)
  then have rest: "unat ?rest = unat sz - k" using k(2) by (simp add: unat_sub word_le_nat_alt)
  have n: "n = (unat (0 :: u32) + unat ?rest + 4095) div 4096"
    using rest_of_pages [OF k_def Suc.prems(3) pos] Suc.prems(1) rest by simp
  have al: "if ?rest = 0 then (0 :: u32) = 0 else unat (0 :: u32) = (data + k) mod 4096"
  proof (cases "k = unat sz")
    case True
    then show ?thesis using rest by (simp add: unat_eq_zero)
  next
    case False
    then have "data mod 4096 + k = 4096" using off Suc.prems(3) unfolding k_def by linarith
    then show ?thesis by (metis mod_add_left_eq mod_self unat_0)
  qed
  obtain sgl where sgl: "sgt_entries page n (data + k) ?rest 0 = Some sgl" "length sgl = n" "covers frame (data + k) (unat sz - k) sgl"
  proof -
    have "unat ?rest < 2 ^ 31" using Suc.prems(2) rest by linarith
    from Suc.IH [OF n this _ al] show ?thesis using that Suc.prems(5) k rest by auto
  qed
  define e where "e = \<lparr>sg_dma_address = 0, sg_phys = frame (data div 4096) + ucast offset, sg_length = word_of_int (int k)\<rparr>"
  have "(ucast offset :: u64) = of_nat (data mod 4096)" by (simp flip: off)
  then have "sg_addrs e = map (mapped_addr frame) [data..<data + k]"
    using ws page_entry_addrs [OF k(3), of frame] by (simp add: sg_addrs_def e_def)
  then have "covers frame data (unat sz) (e # sgl)"
    using sgl(3) k ws by (intro covers_Cons) (simp_all add: e_def word_less_nat_alt PAGE_SIZE_def)
  moreover have "sgt_entries page (Suc n) data sz offset = Some (e # sgl)"
    using Suc.prems(5) pos w sgl(1) by (simp add: e_def nat_int_add)
  ultimately show ?case using sgl(2) by simp
qed

text \<open>
  C25. The page list of a data buffer describes it exactly, wherever in its first page it starts: byte by
  byte, the physical addresses of the entries are those of the buffer's bytes, in order, none left
  out and none beyond its end; there are as many entries as announced, and none is empty or
  crosses a page.
\<close>
theorem vmalloc_to_sgt_covers:
  assumes "0 < sz" and "data mod PAGE_SIZE + unat sz + PAGE_SIZE \<le> 2 ^ 31"
    and "\<forall>a. data \<le> a \<and> a < data + unat sz \<longrightarrow> page a = Some (frame (a div PAGE_SIZE))"
  shows "\<exists>sgl. vmalloc_to_sgt True page data sz = Some (sgl, length sgl) \<and>
    concat (map sg_addrs sgl) = map (mapped_addr frame) [data..<data + unat sz] \<and>
    (\<forall>s \<in> set sgl. 0 < sg_length s \<and> unat (sg_length s) \<le> PAGE_SIZE)"
proof -
  define offset :: u32 where "offset = of_nat (data mod PAGE_SIZE)"
  define n where "n = (unat offset + unat sz + 4095) div 4096"
  have b: "data mod 4096 + unat sz + 4095 < 2147483648" "data mod 4096 < 4096" using assms(2) by (simp_all add: PAGE_SIZE_def)
  have off: "unat offset = data mod 4096"
    using b(2) by (simp add: offset_def PAGE_SIZE_def unat_of_nat take_bit_nat_eq_self)
  have "unat (offset + sz + 4095) = unat offset + unat sz + 4095"
    using b(1) off by (simp add: unat_word_ariths)
  moreover have "offset + sz + of_nat PAGE_SIZE - 1 = offset + sz + 4095" by (simp add: PAGE_SIZE_def algebra_simps)
  ultimately have n': "unat (offset + sz + of_nat PAGE_SIZE - 1) div PAGE_SIZE = n" by (simp only: n_def) (simp add: PAGE_SIZE_def)
  obtain sgl where "sgt_entries page n data sz offset = Some sgl" "length sgl = n" "covers frame data (unat sz) sgl"
  proof -
    have "if sz = 0 then offset = 0 else unat offset = data mod 4096" using assms(1) off by auto
    from sgt_entries_covers [OF n_def _ _ this, of page frame] show ?thesis using that b off assms(3) by (auto simp: PAGE_SIZE_def)
  qed
  then show ?thesis
    unfolding vmalloc_to_sgt_def Let_def offset_def [symmetric] n' covers_def by simp
qed

text \<open>A buffer of 6000 bytes that starts 64 bytes before the end of a page.\<close>
theorem vmalloc_to_sgt_covers_witness:
  "\<exists>sgl. vmalloc_to_sgt True (\<lambda>a. Some (of_nat (a div PAGE_SIZE) * 0x10000)) 0x2fc0 6000 = Some (sgl, length sgl) \<and>
     concat (map sg_addrs sgl) = map (mapped_addr (\<lambda>n. of_nat n * 0x10000)) [0x2fc0..<0x2fc0 + 6000]"
proof -
  let ?frame = "\<lambda>n. of_nat n * 0x10000 :: u64"
  have u: "unat (6000 :: u32) = 6000" by simp
  have "0 < (6000 :: u32)" "0x2fc0 mod PAGE_SIZE + unat (6000 :: u32) + PAGE_SIZE \<le> 2 ^ 31"
    "\<forall>a. 0x2fc0 \<le> a \<and> a < 0x2fc0 + unat (6000 :: u32) \<longrightarrow> Some (?frame (a div PAGE_SIZE)) = Some (?frame (a div PAGE_SIZE))"
    by (simp_all add: PAGE_SIZE_def)
  from vmalloc_to_sgt_covers [OF this] show ?thesis unfolding u by blast
qed

end
