(* ===== verification/Virtgpu_Cmd.thy ===== *)
theory Virtgpu_Cmd
  imports Virtgpu_Vq
begin

text \<open>
  The commands of virtio-gpu (\<^verbatim>\<open>drivers/gpu/drm/virtio/virtgpu_vq.c\<close>, second half, with the format table of
  \<^verbatim>\<open>virtgpu_plane.c\<close>): each fills a command buffer with the little-endian fields of its structure
  in \<^verbatim>\<open>include/uapi/linux/virtio_gpu.h\<close> and queues it; the callbacks take the host's answers, which are bytes too;
  the workers drain the queues. An address that an allocation gave is an argument.
\<close>

subsection \<open>Bytes\<close>

definition le64 :: "u64 \<Rightarrow> u8 list" where
  "le64 w = le32 (ucast w) @ le32 (ucast (drop_bit 32 w))"

definition fld32 :: "u8 list \<Rightarrow> nat \<Rightarrow> u32" where
  "fld32 bs off = ucast (of_le (take 4 (drop off bs)))"

definition fld64 :: "u8 list \<Rightarrow> nat \<Rightarrow> u64" where
  "fld64 bs off = of_le (take 8 (drop off bs))"

definition hdr_bytes :: "virtio_gpu_ctrl_hdr \<Rightarrow> u8 list" where
  "hdr_bytes h = le32 (hdr_type h) @ le32 (hdr_flags h) @ le64 (hdr_fence_id h) @ le32 (hdr_ctx_id h) @ [hdr_ring_idx h, 0, 0, 0]"

text \<open>The bytes of a command as the host reads them.\<close>
definition cmd_bytes :: "virtio_gpu_vbuffer \<Rightarrow> u8 list" where
  "cmd_bytes vb = hdr_bytes (vb_hdr vb) @ vb_body vb"

datatype virtio_gpu_ctrl_type =
    CMD_GET_DISPLAY_INFO | CMD_RESOURCE_CREATE_2D | CMD_RESOURCE_UNREF | CMD_SET_SCANOUT | CMD_RESOURCE_FLUSH
  | CMD_TRANSFER_TO_HOST_2D | CMD_RESOURCE_ATTACH_BACKING | CMD_GET_CAPSET_INFO | CMD_GET_CAPSET | CMD_GET_EDID
  | CMD_RESOURCE_ASSIGN_UUID | CMD_RESOURCE_CREATE_BLOB | CMD_SET_SCANOUT_BLOB
  | CMD_CTX_CREATE | CMD_CTX_DESTROY | CMD_CTX_ATTACH_RESOURCE | CMD_CTX_DETACH_RESOURCE | CMD_RESOURCE_CREATE_3D
  | CMD_TRANSFER_TO_HOST_3D | CMD_TRANSFER_FROM_HOST_3D | CMD_SUBMIT_3D | CMD_RESOURCE_MAP_BLOB | CMD_RESOURCE_UNMAP_BLOB
  | RESP_OK_RESOURCE_UUID | RESP_OK_MAP_INFO

fun ctrl_code :: "virtio_gpu_ctrl_type \<Rightarrow> u32" where
  "ctrl_code CMD_GET_DISPLAY_INFO = 0x100"
| "ctrl_code CMD_RESOURCE_CREATE_2D = 0x101"
| "ctrl_code CMD_RESOURCE_UNREF = 0x102"
| "ctrl_code CMD_SET_SCANOUT = 0x103"
| "ctrl_code CMD_RESOURCE_FLUSH = 0x104"
| "ctrl_code CMD_TRANSFER_TO_HOST_2D = 0x105"
| "ctrl_code CMD_RESOURCE_ATTACH_BACKING = 0x106"
| "ctrl_code CMD_GET_CAPSET_INFO = 0x108"
| "ctrl_code CMD_GET_CAPSET = 0x109"
| "ctrl_code CMD_GET_EDID = 0x10a"
| "ctrl_code CMD_RESOURCE_ASSIGN_UUID = 0x10b"
| "ctrl_code CMD_RESOURCE_CREATE_BLOB = 0x10c"
| "ctrl_code CMD_SET_SCANOUT_BLOB = 0x10d"
| "ctrl_code CMD_CTX_CREATE = 0x200"
| "ctrl_code CMD_CTX_DESTROY = 0x201"
| "ctrl_code CMD_CTX_ATTACH_RESOURCE = 0x202"
| "ctrl_code CMD_CTX_DETACH_RESOURCE = 0x203"
| "ctrl_code CMD_RESOURCE_CREATE_3D = 0x204"
| "ctrl_code CMD_TRANSFER_TO_HOST_3D = 0x205"
| "ctrl_code CMD_TRANSFER_FROM_HOST_3D = 0x206"
| "ctrl_code CMD_SUBMIT_3D = 0x207"
| "ctrl_code CMD_RESOURCE_MAP_BLOB = 0x208"
| "ctrl_code CMD_RESOURCE_UNMAP_BLOB = 0x209"
| "ctrl_code RESP_OK_RESOURCE_UUID = 0x1105"
| "ctrl_code RESP_OK_MAP_INFO = 0x1106"

definition rect_bytes :: "virtio_gpu_rect \<Rightarrow> u8 list" where
  "rect_bytes r = le32 (r_x r) @ le32 (r_y r) @ le32 (r_width r) @ le32 (r_height r)"

record drm_virtgpu_3d_box =
  b_x :: u32
  b_y :: u32
  b_z :: u32
  b_w :: u32
  b_h :: u32
  b_d :: u32

definition convert_to_hw_box :: "drm_virtgpu_3d_box \<Rightarrow> u8 list" where
  "convert_to_hw_box src = le32 (b_x src) @ le32 (b_y src) @ le32 (b_z src) @ le32 (b_w src) @ le32 (b_h src) @ le32 (b_d src)"

text \<open>Zero the command, set its type and context, and the rest of its fields.\<close>
definition fill_cmd :: "virtio_gpu_ctrl_type \<Rightarrow> u32 \<Rightarrow> u8 list \<Rightarrow> virtio_gpu_vbuffer \<Rightarrow> virtio_gpu_vbuffer" where
  "fill_cmd t ctx body vb = vb\<lparr>vb_hdr := zero_hdr\<lparr>hdr_type := ctrl_code t, hdr_ctx_id := ctx\<rparr>, vb_body := body\<rparr>"

definition update_vbuf ::
    "ptr \<Rightarrow> (virtio_gpu_vbuffer \<Rightarrow> virtio_gpu_vbuffer) \<Rightarrow> 'q virtio_gpu_device \<Rightarrow> 'q virtio_gpu_device option" where
  "update_vbuf p f dev = map_option (\<lambda>vb. dev\<lparr>vg_vbufs := (vg_vbufs dev)(p \<mapsto> f vb)\<rparr>) (vg_vbufs dev p)"

definition update_object ::
    "ptr \<Rightarrow> (virtio_gpu_object \<Rightarrow> virtio_gpu_object) \<Rightarrow> 'q virtio_gpu_device \<Rightarrow> 'q virtio_gpu_device option" where
  "update_object b f dev = map_option (\<lambda>bo. dev\<lparr>vg_objects := (vg_objects dev)(b \<mapsto> f bo)\<rparr>) (vg_objects dev b)"

text \<open>\<open>gem_to_virtio_gpu_obj(objs->objs[0])\<close>\<close>
definition first_object :: "virtio_gpu_object_array \<Rightarrow> 'q virtio_gpu_device \<Rightarrow> (ptr \<times> virtio_gpu_object) option" where
  "first_object objs dev =
     (case oa_objs objs of [] \<Rightarrow> None | b # _ \<Rightarrow> map_option (Pair b) (vg_objects dev b))"

subsection \<open>Callbacks\<close>

definition virtio_gpu_cmd_unref_cb :: "ptr \<Rightarrow> 'q virtio_gpu_device \<Rightarrow> 'q virtio_gpu_device option" where
  "virtio_gpu_cmd_unref_cb p dev = do {
     vb \<leftarrow> vg_vbufs dev p;
     bo \<leftarrow> vb_resp_cb_data vb;
     dev1 \<leftarrow> update_vbuf p (\<lambda>vb. vb\<lparr>vb_resp_cb_data := None\<rparr>) dev;
     Some (logged [Cleanup_object bo] dev1)
   }"

text \<open>Entry \<open>i\<close> of \<open>pmodes\<close>.\<close>
definition pmode :: "u8 list \<Rightarrow> nat \<Rightarrow> virtio_gpu_display_one" where
  "pmode resp i =
     (let off = 24 + 24 * i
      in \<lparr>do_r = \<lparr>r_x = fld32 resp off, r_y = fld32 resp (off + 4), r_width = fld32 resp (off + 8), r_height = fld32 resp (off + 12)\<rparr>,
          do_enabled = fld32 resp (off + 16), do_flags = fld32 resp (off + 20)\<rparr>)"

text \<open>\<open>outputs\<close> is an array of a fixed length.\<close>
definition virtio_gpu_cmd_get_display_info_cb :: "bool \<Rightarrow> u8 list \<Rightarrow> 'q virtio_gpu_device \<Rightarrow> 'q virtio_gpu_device option" where
  "virtio_gpu_cmd_get_display_info_cb hpd resp dev =
     (if vg_num_scanouts dev > length (vg_outputs dev) then None
      else let outs = fold (\<lambda>i os. os[i := (os ! i)\<lparr>out_info := pmode resp i\<rparr>]) [0..<vg_num_scanouts dev] (vg_outputs dev)
           in Some (logged (Wake_resp # (if hpd then [] else [Hotplug]))
                      (dev\<lparr>vg_outputs := outs, vg_display_info_pending := False\<rparr>)))"

definition virtio_gpu_cmd_get_capset_info_cb :: "ptr \<Rightarrow> u8 list \<Rightarrow> 'q virtio_gpu_device \<Rightarrow> 'q virtio_gpu_device option" where
  "virtio_gpu_cmd_get_capset_info_cb p resp dev = do {
     vb \<leftarrow> vg_vbufs dev p;
     let i = unat (fld32 (vb_body vb) 0);
     case vg_capsets dev of
       None \<Rightarrow> Some (logged [Wake_resp] dev)
     | Some cs \<Rightarrow>
        (if i \<ge> length cs then None
         else Some (logged [Wake_resp] (dev\<lparr>vg_capsets := Some (cs[i := \<lparr>cs_id = fld32 resp 24, cs_max_version = fld32 resp 28,
                cs_max_size = fld32 resp 32\<rparr>])\<rparr>)))
   }"

text \<open>The first entry of the cache that matches takes the data.\<close>
fun fill_cache :: "u32 \<Rightarrow> u32 \<Rightarrow> u8 list \<Rightarrow> virtio_gpu_drv_cap_cache list \<Rightarrow> virtio_gpu_drv_cap_cache list" where
  "fill_cache version i data [] = []"
| "fill_cache version i data (c # cs) =
     (if cc_version c = version \<and> cc_id c = i
      then c\<lparr>cc_data := take (unat (cc_size c)) data, cc_valid := True\<rparr> # cs
      else c # fill_cache version i data cs)"

definition virtio_gpu_cmd_capset_cb :: "ptr \<Rightarrow> u8 list \<Rightarrow> 'q virtio_gpu_device \<Rightarrow> 'q virtio_gpu_device option" where
  "virtio_gpu_cmd_capset_cb p resp dev =
     map_option (\<lambda>vb. logged [Wake_resp] (dev\<lparr>vg_cap_cache :=
         fill_cache (fld32 (vb_body vb) 4) (fld32 (vb_body vb) 0) (drop 24 resp) (vg_cap_cache dev)\<rparr>))
       (vg_vbufs dev p)"

definition EDID_LENGTH :: u32 where "EDID_LENGTH = 128"

text \<open>The answer has 1024 bytes of EDID behind 32 others; None is a read beyond them.\<close>
definition virtio_get_edid_block :: "u8 list \<Rightarrow> u32 \<Rightarrow> nat \<Rightarrow> u8 list result option" where
  "virtio_get_edid_block resp block len =
     (let start = unat (block * EDID_LENGTH)
      in if start + len > unat (fld32 resp 24) then Some (Inl EINVAL)
         else if start + len > 1024 then None
         else Some (Inr (take len (drop (32 + start) resp))))"

definition virtio_gpu_cmd_get_edid_cb ::
    "((u32 \<Rightarrow> nat \<Rightarrow> u8 list result option) \<Rightarrow> u8 list option option) \<Rightarrow> ptr \<Rightarrow> u8 list \<Rightarrow> 'q virtio_gpu_device \<Rightarrow>
     'q virtio_gpu_device option" where
  "virtio_gpu_cmd_get_edid_cb edid_read p resp dev = do {
     vb \<leftarrow> vg_vbufs dev p;
     let scanout = unat (fld32 (vb_body vb) 0);
     if scanout \<ge> vg_num_scanouts dev then Some dev
     else if scanout \<ge> length (vg_outputs dev) then None
     else do {
       new_edid \<leftarrow> edid_read (virtio_get_edid_block resp);
       Some (logged [Wake_resp] (dev\<lparr>vg_outputs := (vg_outputs dev)[scanout := (vg_outputs dev ! scanout)\<lparr>out_edid := new_edid\<rparr>]\<rparr>))
     }
   }"

definition virtio_gpu_cmd_resource_uuid_cb :: "ptr \<Rightarrow> u8 list \<Rightarrow> 'q virtio_gpu_device \<Rightarrow> 'q virtio_gpu_device option" where
  "virtio_gpu_cmd_resource_uuid_cb p resp dev = do {
     vb \<leftarrow> vg_vbufs dev p;
     objs \<leftarrow> vb_objs vb;
     (b, bo) \<leftarrow> first_object objs dev;
     let dev1 = (if bo_uuid_state bo \<noteq> STATE_INITIALIZING then logged [Warn] dev else dev);
     dev2 \<leftarrow> update_object b (\<lambda>bo.
         if fld32 resp 0 = ctrl_code RESP_OK_RESOURCE_UUID \<and> bo_uuid_state bo = STATE_INITIALIZING
         then bo\<lparr>bo_uuid := take 16 (drop 24 resp), bo_uuid_state := STATE_OK\<rparr>
         else bo\<lparr>bo_uuid_state := STATE_ERR\<rparr>) dev1;
     Some (logged [Wake_resp] dev2)
   }"

text \<open>\<open>map_info\<close> is taken as it is in memory, on a little-endian machine.\<close>
definition virtio_gpu_cmd_resource_map_cb :: "ptr \<Rightarrow> u8 list \<Rightarrow> 'q virtio_gpu_device \<Rightarrow> 'q virtio_gpu_device option" where
  "virtio_gpu_cmd_resource_map_cb p resp dev = do {
     vb \<leftarrow> vg_vbufs dev p;
     objs \<leftarrow> vb_objs vb;
     (b, bo) \<leftarrow> first_object objs dev;
     dev1 \<leftarrow> update_object b (\<lambda>bo.
         if fld32 resp 0 = ctrl_code RESP_OK_MAP_INFO then bo\<lparr>bo_map_info := fld32 resp 24, bo_map_state := STATE_OK\<rparr>
         else bo\<lparr>bo_map_state := STATE_ERR\<rparr>) dev;
     Some (logged [Wake_resp] dev1)
   }"

fun call_resp_cb ::
    "'q vg_env \<Rightarrow> virtio_gpu_resp_cb \<Rightarrow> ptr \<Rightarrow> u8 list \<Rightarrow> 'q virtio_gpu_device \<Rightarrow> 'q virtio_gpu_device option" where
  "call_resp_cb env Unref_cb p resp dev = virtio_gpu_cmd_unref_cb p dev"
| "call_resp_cb env Get_display_info_cb p resp dev = virtio_gpu_cmd_get_display_info_cb (env_hpd_irq_event env) resp dev"
| "call_resp_cb env Get_capset_info_cb p resp dev = virtio_gpu_cmd_get_capset_info_cb p resp dev"
| "call_resp_cb env Capset_cb p resp dev = virtio_gpu_cmd_capset_cb p resp dev"
| "call_resp_cb env Get_edid_cb p resp dev = virtio_gpu_cmd_get_edid_cb (env_edid_read env) p resp dev"
| "call_resp_cb env Resource_uuid_cb p resp dev = virtio_gpu_cmd_resource_uuid_cb p resp dev"
| "call_resp_cb env Resource_map_cb p resp dev = virtio_gpu_cmd_resource_map_cb p resp dev"

subsection \<open>The workers\<close>

text \<open>The body of the first loop: \<open>answer\<close> gives what the host wrote to the response of a buffer.\<close>
definition handle_response ::
    "'q vg_env \<Rightarrow> (ptr \<Rightarrow> u8 list) \<Rightarrow> ptr \<Rightarrow> 'q virtio_gpu_device \<Rightarrow> 'q virtio_gpu_device option" where
  "handle_response env answer p dev = do {
     entry \<leftarrow> vg_vbufs dev p;
     let resp = answer p;
     let dev1 = (if fld32 resp 4 AND VIRTIO_GPU_FLAG_FENCE \<noteq> 0
                 then dev\<lparr>vg_fence_drv := virtio_gpu_fence_event_process (env_is_later env) (fld64 resp 8) (vg_fence_drv dev)\<rparr>
                 else dev);
     case vb_resp_cb entry of None \<Rightarrow> Some dev1 | Some cb \<Rightarrow> call_resp_cb env cb p resp dev1
   }"

text \<open>The body of the second loop.\<close>
definition release_entry :: "ptr \<Rightarrow> 'q virtio_gpu_device \<Rightarrow> 'q virtio_gpu_device option" where
  "release_entry p dev = do {
     entry \<leftarrow> vg_vbufs dev p;
     free_vbuf p (case vb_objs entry of None \<Rightarrow> dev | Some objs \<Rightarrow> logged [Put_free_delayed (oa_ptr objs)] dev)
   }"

definition virtio_gpu_dequeue_ctrl_func ::
    "'q vg_env \<Rightarrow> (ptr \<Rightarrow> u8 list) \<Rightarrow> 'q virtio_gpu_device \<Rightarrow> 'q virtio_gpu_device option" where
  "virtio_gpu_dequeue_ctrl_func env answer dev = do {
     let bsd = env_bsd env;
     (reclaimed, vq) \<leftarrow> drain (lkpi_virtqueue_get_buf bsd) (lkpi_virtqueue_enable_cb bsd) (lkpi_virtqueue_disable_cb bsd)
                          (q_vq (vg_ctrlq dev)) [];
     let dev1 = dev\<lparr>vg_ctrlq := (vg_ctrlq dev)\<lparr>q_vq := vq, q_dequeue_work := False\<rparr>\<rparr>;
     dev2 \<leftarrow> each (handle_response env answer) (map fst reclaimed) dev1;
     each release_entry (map fst reclaimed) (logged [Wake_ctrl] dev2)
   }"

definition virtio_gpu_dequeue_cursor_func :: "'q vg_env \<Rightarrow> 'q virtio_gpu_device \<Rightarrow> 'q virtio_gpu_device option" where
  "virtio_gpu_dequeue_cursor_func env dev = do {
     let bsd = env_bsd env;
     (reclaimed, vq) \<leftarrow> drain (lkpi_virtqueue_get_buf bsd) (lkpi_virtqueue_enable_cb bsd) (lkpi_virtqueue_disable_cb bsd)
                          (q_vq (vg_cursorq dev)) [];
     let dev1 = dev\<lparr>vg_cursorq := (vg_cursorq dev)\<lparr>q_vq := vq, q_dequeue_work := False\<rparr>\<rparr>;
     dev2 \<leftarrow> each free_vbuf (map fst reclaimed) dev1;
     Some (logged [Wake_cursor] dev2)
   }"

subsection \<open>Commands\<close>

text \<open>Queue a filled buffer, with a fence or without, and go on whatever the result.\<close>
definition send_fenced :: "'q vg_env \<Rightarrow> ptr \<Rightarrow> virtio_gpu_fence option \<Rightarrow> 'q virtio_gpu_device \<Rightarrow> 'q virtio_gpu_device option" where
  "send_fenced env p fence dev = map_option snd (virtio_gpu_queue_fenced_ctrl_buffer env p fence dev)"

definition send :: "'q vg_env \<Rightarrow> ptr \<Rightarrow> 'q virtio_gpu_device \<Rightarrow> 'q virtio_gpu_device option" where
  "send env p dev = map_option snd (virtio_gpu_queue_ctrl_buffer env p dev)"

text \<open>The fields of \<open>virtio_gpu_object_params\<close> that the commands read.\<close>
record virtio_gpu_object_params =
  pr_size :: u64
  pr_format :: u32
  pr_width :: u32
  pr_height :: u32
  pr_target :: u32
  pr_bind :: u32
  pr_depth :: u32
  pr_array_size :: u32
  pr_last_level :: u32
  pr_nr_samples :: u32
  pr_flags :: u32
  pr_ctx_id :: u32
  pr_blob_mem :: u32
  pr_blob_flags :: u32
  pr_blob_id :: u64

text \<open>\<open>cmd_p->r\<close> from the four arguments.\<close>
definition rect :: "u32 \<Rightarrow> u32 \<Rightarrow> u32 \<Rightarrow> u32 \<Rightarrow> u8 list" where
  "rect x y width height = rect_bytes \<lparr>r_x = x, r_y = y, r_width = width, r_height = height\<rparr>"

definition virtio_gpu_cmd_create_resource ::
    "'q vg_env \<Rightarrow> ptr \<Rightarrow> ptr \<Rightarrow> virtio_gpu_object_params \<Rightarrow> virtio_gpu_object_array option \<Rightarrow> virtio_gpu_fence option \<Rightarrow>
     'q virtio_gpu_device \<Rightarrow> 'q virtio_gpu_device option" where
  "virtio_gpu_cmd_create_resource env p b params objs fence dev = do {
     bo \<leftarrow> vg_objects dev b;
     dev1 \<leftarrow> virtio_gpu_alloc_cmd p 40 dev;
     dev2 \<leftarrow> update_vbuf p (\<lambda>vb. (fill_cmd CMD_RESOURCE_CREATE_2D 0
         (le32 (hw_res_handle bo) @ le32 (pr_format params) @ le32 (pr_width params) @ le32 (pr_height params)) vb)\<lparr>vb_objs := objs\<rparr>) dev1;
     dev3 \<leftarrow> send_fenced env p fence dev2;
     update_object b (\<lambda>bo. bo\<lparr>bo_created := True\<rparr>) dev3
   }"

definition virtio_gpu_cmd_unref_resource :: "'q vg_env \<Rightarrow> ptr \<Rightarrow> ptr \<Rightarrow> 'q virtio_gpu_device \<Rightarrow> 'q virtio_gpu_device option" where
  "virtio_gpu_cmd_unref_resource env p b dev = do {
     bo \<leftarrow> vg_objects dev b;
     dev1 \<leftarrow> virtio_gpu_alloc_cmd_cb p 32 Unref_cb dev;
     dev2 \<leftarrow> update_vbuf p (\<lambda>vb. (fill_cmd CMD_RESOURCE_UNREF 0 (le32 (hw_res_handle bo) @ le32 0) vb)\<lparr>vb_resp_cb_data := Some b\<rparr>) dev1;
     (ret, dev3) \<leftarrow> virtio_gpu_queue_ctrl_buffer env p dev2;
     Some (case ret of Inl _ \<Rightarrow> logged [Cleanup_object b] dev3 | Inr _ \<Rightarrow> dev3)
   }"

definition virtio_gpu_cmd_set_scanout ::
    "'q vg_env \<Rightarrow> ptr \<Rightarrow> u32 \<Rightarrow> u32 \<Rightarrow> u32 \<Rightarrow> u32 \<Rightarrow> u32 \<Rightarrow> u32 \<Rightarrow> 'q virtio_gpu_device \<Rightarrow> 'q virtio_gpu_device option" where
  "virtio_gpu_cmd_set_scanout env p scanout_id resource_id width height x y dev = do {
     dev1 \<leftarrow> virtio_gpu_alloc_cmd p 48 dev;
     dev2 \<leftarrow> update_vbuf p (fill_cmd CMD_SET_SCANOUT 0 (rect x y width height @ le32 scanout_id @ le32 resource_id)) dev1;
     send env p dev2
   }"

definition virtio_gpu_cmd_resource_flush ::
    "'q vg_env \<Rightarrow> ptr \<Rightarrow> u32 \<Rightarrow> u32 \<Rightarrow> u32 \<Rightarrow> u32 \<Rightarrow> u32 \<Rightarrow> virtio_gpu_object_array option \<Rightarrow> virtio_gpu_fence option \<Rightarrow>
     'q virtio_gpu_device \<Rightarrow> 'q virtio_gpu_device option" where
  "virtio_gpu_cmd_resource_flush env p resource_id x y width height objs fence dev = do {
     dev1 \<leftarrow> virtio_gpu_alloc_cmd p 48 dev;
     dev2 \<leftarrow> update_vbuf p (\<lambda>vb. (fill_cmd CMD_RESOURCE_FLUSH 0 (rect x y width height @ le32 resource_id @ le32 0) vb)\<lparr>vb_objs := objs\<rparr>) dev1;
     send_fenced env p fence dev2
   }"

text \<open>\<open>dma_sync_sgtable_for_device\<close> on an object in guest memory.\<close>
definition sync_object :: "'q vg_env \<Rightarrow> ptr \<Rightarrow> virtio_gpu_object \<Rightarrow> 'q virtio_gpu_device \<Rightarrow> 'q virtio_gpu_device" where
  "sync_object env b bo dev = (if bo_shmem bo \<and> env_use_dma_api env then logged [Dma_sync b] dev else dev)"

definition virtio_gpu_cmd_transfer_to_host_2d ::
    "'q vg_env \<Rightarrow> ptr \<Rightarrow> u64 \<Rightarrow> u32 \<Rightarrow> u32 \<Rightarrow> u32 \<Rightarrow> u32 \<Rightarrow> virtio_gpu_object_array \<Rightarrow> virtio_gpu_fence option \<Rightarrow>
     'q virtio_gpu_device \<Rightarrow> 'q virtio_gpu_device option" where
  "virtio_gpu_cmd_transfer_to_host_2d env p offset width height x y objs fence dev = do {
     (b, bo) \<leftarrow> first_object objs dev;
     dev1 \<leftarrow> virtio_gpu_alloc_cmd p 56 (sync_object env b bo dev);
     dev2 \<leftarrow> update_vbuf p (\<lambda>vb. (fill_cmd CMD_TRANSFER_TO_HOST_2D 0
         (rect x y width height @ le64 offset @ le32 (hw_res_handle bo) @ le32 0) vb)\<lparr>vb_objs := Some objs\<rparr>) dev1;
     send_fenced env p fence dev2
   }"

text \<open>An entry has 16 bytes; the size is that of a 32-bit integer.\<close>
definition virtio_gpu_cmd_resource_attach_backing ::
    "'q vg_env \<Rightarrow> ptr \<Rightarrow> u32 \<Rightarrow> ptr option \<Rightarrow> u32 \<Rightarrow> virtio_gpu_fence option \<Rightarrow> 'q virtio_gpu_device \<Rightarrow> 'q virtio_gpu_device option" where
  "virtio_gpu_cmd_resource_attach_backing env p resource_id ents nents fence dev = do {
     dev1 \<leftarrow> virtio_gpu_alloc_cmd p 32 dev;
     dev2 \<leftarrow> update_vbuf p (\<lambda>vb. (fill_cmd CMD_RESOURCE_ATTACH_BACKING 0 (le32 resource_id @ le32 nents) vb)
         \<lparr>vb_data_buf := ents, vb_data_size := 16 * nents\<rparr>) dev1;
     send_fenced env p fence dev2
   }"

definition virtio_gpu_object_attach ::
    "'q vg_env \<Rightarrow> ptr \<Rightarrow> virtio_gpu_object \<Rightarrow> ptr option \<Rightarrow> u32 \<Rightarrow> 'q virtio_gpu_device \<Rightarrow> 'q virtio_gpu_device option" where
  "virtio_gpu_object_attach env p obj ents nents dev = virtio_gpu_cmd_resource_attach_backing env p (hw_res_handle obj) ents nents None dev"

text \<open>\<open>resp_buf\<close> is what \<open>kzalloc\<close> gave. The structure has 408 bytes.\<close>
definition virtio_gpu_cmd_get_display_info ::
    "'q vg_env \<Rightarrow> ptr \<Rightarrow> ptr option \<Rightarrow> 'q virtio_gpu_device \<Rightarrow> (unit result \<times> 'q virtio_gpu_device) option" where
  "virtio_gpu_cmd_get_display_info env p resp_buf dev =
     (if resp_buf = None then Some (Inl ENOMEM, dev)
      else do {
        dev1 \<leftarrow> virtio_gpu_alloc_cmd_resp p (Some Get_display_info_cb) 24 408 resp_buf dev;
        dev2 \<leftarrow> update_vbuf p (fill_cmd CMD_GET_DISPLAY_INFO 0 []) (dev1\<lparr>vg_display_info_pending := True\<rparr>);
        dev3 \<leftarrow> send env p dev2;
        Some (Inr (), dev3)
      })"

definition virtio_gpu_cmd_get_capset_info ::
    "'q vg_env \<Rightarrow> ptr \<Rightarrow> ptr option \<Rightarrow> u32 \<Rightarrow> 'q virtio_gpu_device \<Rightarrow> (unit result \<times> 'q virtio_gpu_device) option" where
  "virtio_gpu_cmd_get_capset_info env p resp_buf idx dev =
     (if resp_buf = None then Some (Inl ENOMEM, dev)
      else do {
        dev1 \<leftarrow> virtio_gpu_alloc_cmd_resp p (Some Get_capset_info_cb) 32 40 resp_buf dev;
        dev2 \<leftarrow> update_vbuf p (fill_cmd CMD_GET_CAPSET_INFO 0 (le32 idx @ le32 0)) dev1;
        dev3 \<leftarrow> send env p dev2;
        Some (Inr (), dev3)
      })"

text \<open>
  \<open>ent\<close>, \<open>caps\<close> and \<open>resp_buf\<close> are what the three allocations gave. Index and version are compared as
  unsigned. The result carries \<open>*cache_p\<close>. The data of a fresh entry is empty until the host answers.
\<close>
definition virtio_gpu_cmd_get_capset ::
    "'q vg_env \<Rightarrow> ptr \<Rightarrow> ptr option \<Rightarrow> ptr option \<Rightarrow> ptr option \<Rightarrow> u32 \<Rightarrow> u32 \<Rightarrow> 'q virtio_gpu_device \<Rightarrow>
     (unit result \<times> ptr option \<times> 'q virtio_gpu_device) option" where
  "virtio_gpu_cmd_get_capset env p ent caps resp_buf idx version dev =
     (if idx \<ge> vg_num_capsets dev then Some (Inl EINVAL, None, dev)
      else do {
        cs \<leftarrow> vg_capsets dev;
        if unat idx \<ge> length cs then None
        else let c = cs ! unat idx; max_size = sint (cs_max_size c) in
        if version > cs_max_version c then Some (Inl EINVAL, None, dev)
        else case (ent, caps, resp_buf) of
          (Some e, Some cp, Some rb) \<Rightarrow>
            (case List.find (\<lambda>s. cc_id s = cs_id c \<and> cc_version s = version) (vg_cap_cache dev) of
               Some s \<Rightarrow> Some (Inr (), Some (cc_ptr s), logged [Kfree rb, Kfree cp, Kfree e] dev)
             | None \<Rightarrow> do {
                 let dev1 = dev\<lparr>vg_cap_cache := vg_cap_cache dev @ [\<lparr>cc_ptr = e, cc_id = cs_id c, cc_version = version,
                              cc_size = cs_max_size c, cc_data = [], cc_valid = False\<rparr>]\<rparr>;
                 dev2 \<leftarrow> virtio_gpu_alloc_cmd_resp p (Some Capset_cb) 32 (sint (word_of_int (24 + max_size) :: u32)) (Some rb) dev1;
                 dev3 \<leftarrow> update_vbuf p (fill_cmd CMD_GET_CAPSET 0 (le32 (cs_id c) @ le32 version)) dev2;
                 dev4 \<leftarrow> send env p dev3;
                 Some (Inr (), Some e, dev4)
               })
        | (Some e, Some cp, None) \<Rightarrow> Some (Inl ENOMEM, None, logged [Kfree cp, Kfree e] dev)
        | (Some e, None, _) \<Rightarrow> Some (Inl ENOMEM, None, logged [Kfree e] dev)
        | (None, _) \<Rightarrow> Some (Inl ENOMEM, None, dev)
      })"

text \<open>\<open>mem\<close> gives, for each scanout, the address of the buffer and what \<open>kzalloc\<close> gave. The answer has 1056 bytes.\<close>
fun get_edids :: "'q vg_env \<Rightarrow> (nat \<Rightarrow> ptr \<times> ptr option) \<Rightarrow> nat list \<Rightarrow> 'q virtio_gpu_device \<Rightarrow> (unit result \<times> 'q virtio_gpu_device) option" where
  "get_edids env mem [] dev = Some (Inr (), dev)"
| "get_edids env mem (scanout # ss) dev =
     (case mem scanout of
        (_, None) \<Rightarrow> Some (Inl ENOMEM, dev)
      | (p, Some resp_buf) \<Rightarrow> do {
          dev1 \<leftarrow> virtio_gpu_alloc_cmd_resp p (Some Get_edid_cb) 32 1056 (Some resp_buf) dev;
          dev2 \<leftarrow> update_vbuf p (fill_cmd CMD_GET_EDID 0 (le32 (of_nat scanout) @ le32 0)) dev1;
          dev3 \<leftarrow> send env p dev2;
          get_edids env mem ss dev3
        })"

definition virtio_gpu_cmd_get_edids ::
    "'q vg_env \<Rightarrow> (nat \<Rightarrow> ptr \<times> ptr option) \<Rightarrow> 'q virtio_gpu_device \<Rightarrow> (unit result \<times> 'q virtio_gpu_device) option" where
  "virtio_gpu_cmd_get_edids env mem dev =
     (if \<not> vg_has_edid dev then Some (Inl EINVAL, logged [Warn] dev)
      else get_edids env mem [0..<vg_num_scanouts dev] dev)"

text \<open>\<open>name\<close> without its final zero, of which \<open>strscpy\<close> keeps 63 bytes.\<close>
definition virtio_gpu_cmd_context_create ::
    "'q vg_env \<Rightarrow> ptr \<Rightarrow> u32 \<Rightarrow> u32 \<Rightarrow> u32 \<Rightarrow> u8 list \<Rightarrow> 'q virtio_gpu_device \<Rightarrow> 'q virtio_gpu_device option" where
  "virtio_gpu_cmd_context_create env p ctx context_init nlen name dev = do {
     dev1 \<leftarrow> virtio_gpu_alloc_cmd p 96 dev;
     dev2 \<leftarrow> update_vbuf p (fill_cmd CMD_CTX_CREATE ctx
         (le32 nlen @ le32 context_init @ take 63 name @ replicate (64 - length (take 63 name)) 0)) dev1;
     send env p dev2
   }"

definition virtio_gpu_cmd_context_destroy :: "'q vg_env \<Rightarrow> ptr \<Rightarrow> u32 \<Rightarrow> 'q virtio_gpu_device \<Rightarrow> 'q virtio_gpu_device option" where
  "virtio_gpu_cmd_context_destroy env p ctx dev = do {
     dev1 \<leftarrow> virtio_gpu_alloc_cmd p 24 dev;
     dev2 \<leftarrow> update_vbuf p (fill_cmd CMD_CTX_DESTROY ctx []) dev1;
     send env p dev2
   }"

definition virtio_gpu_cmd_context_attach_resource ::
    "'q vg_env \<Rightarrow> ptr \<Rightarrow> u32 \<Rightarrow> virtio_gpu_object_array \<Rightarrow> 'q virtio_gpu_device \<Rightarrow> 'q virtio_gpu_device option" where
  "virtio_gpu_cmd_context_attach_resource env p ctx objs dev = do {
     (b, bo) \<leftarrow> first_object objs dev;
     dev1 \<leftarrow> virtio_gpu_alloc_cmd p 32 dev;
     dev2 \<leftarrow> update_vbuf p (\<lambda>vb. (fill_cmd CMD_CTX_ATTACH_RESOURCE ctx (le32 (hw_res_handle bo) @ le32 0) vb)\<lparr>vb_objs := Some objs\<rparr>) dev1;
     send env p dev2
   }"

definition virtio_gpu_cmd_context_detach_resource ::
    "'q vg_env \<Rightarrow> ptr \<Rightarrow> u32 \<Rightarrow> virtio_gpu_object_array \<Rightarrow> 'q virtio_gpu_device \<Rightarrow> 'q virtio_gpu_device option" where
  "virtio_gpu_cmd_context_detach_resource env p ctx objs dev = do {
     (b, bo) \<leftarrow> first_object objs dev;
     dev1 \<leftarrow> virtio_gpu_alloc_cmd p 32 dev;
     dev2 \<leftarrow> update_vbuf p (\<lambda>vb. (fill_cmd CMD_CTX_DETACH_RESOURCE ctx (le32 (hw_res_handle bo) @ le32 0) vb)\<lparr>vb_objs := Some objs\<rparr>) dev1;
     send env p dev2
   }"

definition virtio_gpu_cmd_resource_create_3d ::
    "'q vg_env \<Rightarrow> ptr \<Rightarrow> ptr \<Rightarrow> virtio_gpu_object_params \<Rightarrow> virtio_gpu_object_array option \<Rightarrow> virtio_gpu_fence option \<Rightarrow>
     'q virtio_gpu_device \<Rightarrow> 'q virtio_gpu_device option" where
  "virtio_gpu_cmd_resource_create_3d env p b params objs fence dev = do {
     bo \<leftarrow> vg_objects dev b;
     dev1 \<leftarrow> virtio_gpu_alloc_cmd p 72 dev;
     dev2 \<leftarrow> update_vbuf p (\<lambda>vb. (fill_cmd CMD_RESOURCE_CREATE_3D 0
         (le32 (hw_res_handle bo) @ le32 (pr_target params) @ le32 (pr_format params) @ le32 (pr_bind params) @
          le32 (pr_width params) @ le32 (pr_height params) @ le32 (pr_depth params) @ le32 (pr_array_size params) @
          le32 (pr_last_level params) @ le32 (pr_nr_samples params) @ le32 (pr_flags params) @ le32 0) vb)\<lparr>vb_objs := objs\<rparr>) dev1;
     dev3 \<leftarrow> send_fenced env p fence dev2;
     update_object b (\<lambda>bo. bo\<lparr>bo_created := True\<rparr>) dev3
   }"

text \<open>The fields of \<open>virtio_gpu_transfer_host_3d\<close> behind the header.\<close>
definition transfer_3d_body :: "drm_virtgpu_3d_box \<Rightarrow> u64 \<Rightarrow> u32 \<Rightarrow> u32 \<Rightarrow> u32 \<Rightarrow> u32 \<Rightarrow> u8 list" where
  "transfer_3d_body box offset resource_id level stride layer_stride =
     convert_to_hw_box box @ le64 offset @ le32 resource_id @ le32 level @ le32 stride @ le32 layer_stride"

definition virtio_gpu_cmd_transfer_to_host_3d ::
    "'q vg_env \<Rightarrow> ptr \<Rightarrow> u32 \<Rightarrow> u64 \<Rightarrow> u32 \<Rightarrow> u32 \<Rightarrow> u32 \<Rightarrow> drm_virtgpu_3d_box \<Rightarrow> virtio_gpu_object_array \<Rightarrow> virtio_gpu_fence option \<Rightarrow>
     'q virtio_gpu_device \<Rightarrow> 'q virtio_gpu_device option" where
  "virtio_gpu_cmd_transfer_to_host_3d env p ctx offset level stride layer_stride box objs fence dev = do {
     (b, bo) \<leftarrow> first_object objs dev;
     dev1 \<leftarrow> virtio_gpu_alloc_cmd p 72 (sync_object env b bo dev);
     dev2 \<leftarrow> update_vbuf p (\<lambda>vb. (fill_cmd CMD_TRANSFER_TO_HOST_3D ctx
         (transfer_3d_body box offset (hw_res_handle bo) level stride layer_stride) vb)\<lparr>vb_objs := Some objs\<rparr>) dev1;
     send_fenced env p fence dev2
   }"

definition virtio_gpu_cmd_transfer_from_host_3d ::
    "'q vg_env \<Rightarrow> ptr \<Rightarrow> u32 \<Rightarrow> u64 \<Rightarrow> u32 \<Rightarrow> u32 \<Rightarrow> u32 \<Rightarrow> drm_virtgpu_3d_box \<Rightarrow> virtio_gpu_object_array \<Rightarrow> virtio_gpu_fence option \<Rightarrow>
     'q virtio_gpu_device \<Rightarrow> 'q virtio_gpu_device option" where
  "virtio_gpu_cmd_transfer_from_host_3d env p ctx offset level stride layer_stride box objs fence dev = do {
     (b, bo) \<leftarrow> first_object objs dev;
     dev1 \<leftarrow> virtio_gpu_alloc_cmd p 72 dev;
     dev2 \<leftarrow> update_vbuf p (\<lambda>vb. (fill_cmd CMD_TRANSFER_FROM_HOST_3D ctx
         (transfer_3d_body box offset (hw_res_handle bo) level stride layer_stride) vb)\<lparr>vb_objs := Some objs\<rparr>) dev1;
     send_fenced env p fence dev2
   }"

definition virtio_gpu_cmd_submit ::
    "'q vg_env \<Rightarrow> ptr \<Rightarrow> ptr option \<Rightarrow> u32 \<Rightarrow> u32 \<Rightarrow> virtio_gpu_object_array option \<Rightarrow> virtio_gpu_fence option \<Rightarrow>
     'q virtio_gpu_device \<Rightarrow> 'q virtio_gpu_device option" where
  "virtio_gpu_cmd_submit env p data data_size ctx objs fence dev = do {
     dev1 \<leftarrow> virtio_gpu_alloc_cmd p 32 dev;
     dev2 \<leftarrow> update_vbuf p (\<lambda>vb. (fill_cmd CMD_SUBMIT_3D ctx (le32 data_size @ le32 0) vb)
         \<lparr>vb_data_buf := data, vb_data_size := data_size, vb_objs := objs\<rparr>) dev1;
     send_fenced env p fence dev2
   }"

text \<open>The bytes of the cursor structure of output \<open>i\<close>, its scanout set first.\<close>
definition virtio_gpu_cursor_ping :: "'q vg_env \<Rightarrow> ptr \<Rightarrow> nat \<Rightarrow> 'q virtio_gpu_device \<Rightarrow> 'q virtio_gpu_device option" where
  "virtio_gpu_cursor_ping env p i dev =
     (if i \<ge> length (vg_outputs dev) then None
      else let output = (vg_outputs dev ! i)\<lparr>out_cursor_scanout := of_nat (out_index (vg_outputs dev ! i))\<rparr> in do {
        dev1 \<leftarrow> virtio_gpu_alloc_cursor p (dev\<lparr>vg_outputs := (vg_outputs dev)[i := output]\<rparr>);
        dev2 \<leftarrow> update_vbuf p (\<lambda>vb. vb\<lparr>vb_hdr := out_cursor_hdr output, vb_body := le32 (out_cursor_scanout output) @ out_cursor_rest output\<rparr>) dev1;
        virtio_gpu_queue_cursor env p dev2
      })"

text \<open>The response has 40 bytes.\<close>
definition virtio_gpu_cmd_resource_assign_uuid ::
    "'q vg_env \<Rightarrow> ptr \<Rightarrow> ptr option \<Rightarrow> virtio_gpu_object_array \<Rightarrow> 'q virtio_gpu_device \<Rightarrow> (unit result \<times> 'q virtio_gpu_device) option" where
  "virtio_gpu_cmd_resource_assign_uuid env p resp_buf objs dev = do {
     (b, bo) \<leftarrow> first_object objs dev;
     if resp_buf = None
     then map_option (\<lambda>dev1. (Inl ENOMEM, logged [Put_free (oa_ptr objs)] dev1)) (update_object b (\<lambda>bo. bo\<lparr>bo_uuid_state := STATE_ERR\<rparr>) dev)
     else do {
       dev1 \<leftarrow> virtio_gpu_alloc_cmd_resp p (Some Resource_uuid_cb) 32 40 resp_buf dev;
       dev2 \<leftarrow> update_vbuf p (\<lambda>vb. (fill_cmd CMD_RESOURCE_ASSIGN_UUID 0 (le32 (hw_res_handle bo) @ le32 0) vb)\<lparr>vb_objs := Some objs\<rparr>) dev1;
       dev3 \<leftarrow> send env p dev2;
       Some (Inr (), dev3)
     }
   }"

text \<open>The response has 32 bytes.\<close>
definition virtio_gpu_cmd_map ::
    "'q vg_env \<Rightarrow> ptr \<Rightarrow> ptr option \<Rightarrow> virtio_gpu_object_array \<Rightarrow> u64 \<Rightarrow> 'q virtio_gpu_device \<Rightarrow> (unit result \<times> 'q virtio_gpu_device) option" where
  "virtio_gpu_cmd_map env p resp_buf objs offset dev = do {
     (b, bo) \<leftarrow> first_object objs dev;
     if resp_buf = None then Some (Inl ENOMEM, dev)
     else do {
       dev1 \<leftarrow> virtio_gpu_alloc_cmd_resp p (Some Resource_map_cb) 40 32 resp_buf dev;
       dev2 \<leftarrow> update_vbuf p (\<lambda>vb. (fill_cmd CMD_RESOURCE_MAP_BLOB 0 (le32 (hw_res_handle bo) @ le32 0 @ le64 offset) vb)\<lparr>vb_objs := Some objs\<rparr>) dev1;
       dev3 \<leftarrow> send env p dev2;
       Some (Inr (), dev3)
     }
   }"

definition virtio_gpu_cmd_unmap :: "'q vg_env \<Rightarrow> ptr \<Rightarrow> virtio_gpu_object \<Rightarrow> 'q virtio_gpu_device \<Rightarrow> 'q virtio_gpu_device option" where
  "virtio_gpu_cmd_unmap env p bo dev = do {
     dev1 \<leftarrow> virtio_gpu_alloc_cmd p 32 dev;
     dev2 \<leftarrow> update_vbuf p (fill_cmd CMD_RESOURCE_UNMAP_BLOB 0 (le32 (hw_res_handle bo) @ le32 0)) dev1;
     send env p dev2
   }"

definition virtio_gpu_cmd_resource_create_blob ::
    "'q vg_env \<Rightarrow> ptr \<Rightarrow> ptr \<Rightarrow> virtio_gpu_object_params \<Rightarrow> ptr option \<Rightarrow> u32 \<Rightarrow> 'q virtio_gpu_device \<Rightarrow> 'q virtio_gpu_device option" where
  "virtio_gpu_cmd_resource_create_blob env p b params ents nents dev = do {
     bo \<leftarrow> vg_objects dev b;
     dev1 \<leftarrow> virtio_gpu_alloc_cmd p 56 dev;
     dev2 \<leftarrow> update_vbuf p (\<lambda>vb. (fill_cmd CMD_RESOURCE_CREATE_BLOB (pr_ctx_id params)
         (le32 (hw_res_handle bo) @ le32 (pr_blob_mem params) @ le32 (pr_blob_flags params) @ le32 nents @
          le64 (pr_blob_id params) @ le64 (pr_size params)) vb)\<lparr>vb_data_buf := ents, vb_data_size := 16 * nents\<rparr>) dev1;
     dev3 \<leftarrow> send env p dev2;
     update_object b (\<lambda>bo. bo\<lparr>bo_created := True\<rparr>) dev3
   }"

datatype drm_format = DRM_FORMAT_XRGB8888 | DRM_FORMAT_ARGB8888 | DRM_FORMAT_BGRX8888 | DRM_FORMAT_BGRA8888 | Other_format

text \<open>The format and whether it warns.\<close>
fun virtio_gpu_translate_format :: "drm_format \<Rightarrow> u32 \<times> bool" where
  "virtio_gpu_translate_format DRM_FORMAT_XRGB8888 = (2, False)"
| "virtio_gpu_translate_format DRM_FORMAT_ARGB8888 = (1, False)"
| "virtio_gpu_translate_format DRM_FORMAT_BGRX8888 = (4, False)"
| "virtio_gpu_translate_format DRM_FORMAT_BGRA8888 = (3, False)"
| "virtio_gpu_translate_format Other_format = (0, True)"

record drm_framebuffer =
  fb_format :: drm_format
  fb_width :: u32
  fb_height :: u32
  fb_pitches :: "nat \<Rightarrow> u32"
  fb_offsets :: "nat \<Rightarrow> u32"

definition virtio_gpu_cmd_set_scanout_blob ::
    "'q vg_env \<Rightarrow> ptr \<Rightarrow> u32 \<Rightarrow> virtio_gpu_object \<Rightarrow> drm_framebuffer \<Rightarrow> u32 \<Rightarrow> u32 \<Rightarrow> u32 \<Rightarrow> u32 \<Rightarrow>
     'q virtio_gpu_device \<Rightarrow> 'q virtio_gpu_device option" where
  "virtio_gpu_cmd_set_scanout_blob env p scanout_id bo fb width height x y dev = do {
     let (format, warn) = virtio_gpu_translate_format (fb_format fb);
     dev1 \<leftarrow> virtio_gpu_alloc_cmd p 96 (if warn then logged [Warn] dev else dev);
     dev2 \<leftarrow> update_vbuf p (fill_cmd CMD_SET_SCANOUT_BLOB 0
         (rect x y width height @ le32 scanout_id @ le32 (hw_res_handle bo) @ le32 (fb_width fb) @ le32 (fb_height fb) @
          le32 format @ le32 0 @ concat (map (\<lambda>i. le32 (fb_pitches fb i)) [0..<4]) @ concat (map (\<lambda>i. le32 (fb_offsets fb i)) [0..<4]))) dev1;
     send env p dev2
   }"

end
