(* ===== verification/Virtgpu_Laws.thy ===== *)
theory Virtgpu_Laws
  imports Virtgpu_Cmd
begin

text \<open>
  What the queues of virtio-gpu keep: the control worker answers every buffer the host used, whatever the host does
  meanwhile, and a queued command reaches the host whole, its fence numbered in the order of the queue.
\<close>

subsection \<open>Processing the used buffers\<close>

lemma logged_simps [simp]:
  "vg_vbufs (logged es dev) = vg_vbufs dev" "vg_fence_drv (logged es dev) = vg_fence_drv dev"
  "vg_ctrlq (logged es dev) = vg_ctrlq dev" "vg_cursorq (logged es dev) = vg_cursorq dev"
  "vg_outputs (logged es dev) = vg_outputs dev" "vg_num_scanouts (logged es dev) = vg_num_scanouts dev"
  "vg_capsets (logged es dev) = vg_capsets dev" "vg_objects (logged es dev) = vg_objects dev"
  "vg_cap_cache (logged es dev) = vg_cap_cache dev" "vg_plugged (logged es dev) = vg_plugged dev"
  "vg_has_indirect (logged es dev) = vg_has_indirect dev" "vg_log (logged es dev) = vg_log dev @ es"
  "vg_pending_commands (logged es dev) = vg_pending_commands dev"
  by (simp_all add: logged_def)

text \<open>What a callback finds when it is called: its data is there, its indices are in range, an EDID is not longer than its buffer.\<close>
fun cb_finds :: "virtio_gpu_resp_cb \<Rightarrow> u8 list \<Rightarrow> virtio_gpu_vbuffer \<Rightarrow> 'q virtio_gpu_device \<Rightarrow> bool" where
  "cb_finds Unref_cb resp vb dev = (vb_resp_cb_data vb \<noteq> None)"
| "cb_finds Get_display_info_cb resp vb dev = (vg_num_scanouts dev \<le> length (vg_outputs dev))"
| "cb_finds Get_capset_info_cb resp vb dev = (\<forall>n. map_option length (vg_capsets dev) = Some n \<longrightarrow> unat (fld32 (vb_body vb) 0) < n)"
| "cb_finds Capset_cb resp vb dev = True"
| "cb_finds Get_edid_cb resp vb dev = (vg_num_scanouts dev \<le> length (vg_outputs dev) \<and> unat (fld32 resp 24) \<le> 1024)"
| "cb_finds Resource_uuid_cb resp vb dev = (\<exists>objs. vb_objs vb = Some objs \<and> set (take 1 (oa_objs objs)) \<inter> dom (vg_objects dev) \<noteq> {})"
| "cb_finds Resource_map_cb resp vb dev = (\<exists>objs. vb_objs vb = Some objs \<and> set (take 1 (oa_objs objs)) \<inter> dom (vg_objects dev) \<noteq> {})"

definition cb_ready :: "(ptr \<Rightarrow> u8 list) \<Rightarrow> ptr \<Rightarrow> 'q virtio_gpu_device \<Rightarrow> bool" where
  "cb_ready answer p dev \<longleftrightarrow>
     (\<exists>vb. vg_vbufs dev p = Some vb \<and> (\<forall>cb. vb_resp_cb vb = Some cb \<longrightarrow> cb_finds cb (answer p) vb dev))"

lemma first_object_exists:
  "set (take 1 (oa_objs objs)) \<inter> dom (vg_objects dev) \<noteq> {} \<Longrightarrow> \<exists>b bo. first_object objs dev = Some (b, bo) \<and> vg_objects dev b = Some bo"
  by (cases "oa_objs objs") (auto simp: first_object_def)

text \<open>What handling the response of \<open>p\<close> leaves as it is.\<close>
definition frame :: "ptr \<Rightarrow> 'q virtio_gpu_device \<Rightarrow> 'q virtio_gpu_device \<Rightarrow> bool" where
  "frame p dev dev' \<longleftrightarrow>
     vg_ctrlq dev' = vg_ctrlq dev \<and> vg_cursorq dev' = vg_cursorq dev \<and>
     (\<forall>q. q \<noteq> p \<longrightarrow> vg_vbufs dev' q = vg_vbufs dev q) \<and>
     map_option (\<lambda>vb. vb\<lparr>vb_resp_cb_data := None\<rparr>) (vg_vbufs dev' p) = map_option (\<lambda>vb. vb\<lparr>vb_resp_cb_data := None\<rparr>) (vg_vbufs dev p) \<and>
     vg_num_scanouts dev' = vg_num_scanouts dev \<and> length (vg_outputs dev') = length (vg_outputs dev) \<and>
     map_option length (vg_capsets dev') = map_option length (vg_capsets dev) \<and> dom (vg_objects dev') = dom (vg_objects dev)"

lemma fold_update_length [simp]: "length (fold (\<lambda>i os. os[i := f i os]) is xs) = length xs"
  by (induction "is" arbitrary: xs) simp_all

text \<open>The reader of the DRM core comes back when the blocks can be read.\<close>
definition edid_read_total :: "'q vg_env \<Rightarrow> bool" where
  "edid_read_total env \<longleftrightarrow> (\<forall>rd. (\<forall>b n. rd b n \<noteq> None) \<longrightarrow> env_edid_read env rd \<noteq> None)"

lemma edid_block_total: "unat (fld32 resp 24) \<le> 1024 \<Longrightarrow> virtio_get_edid_block resp b n \<noteq> None"
  by (auto simp: virtio_get_edid_block_def Let_def)

lemmas callback_defs = virtio_gpu_cmd_unref_cb_def virtio_gpu_cmd_get_display_info_cb_def virtio_gpu_cmd_get_capset_info_cb_def
  virtio_gpu_cmd_capset_cb_def virtio_gpu_cmd_resource_uuid_cb_def virtio_gpu_cmd_resource_map_cb_def
  virtio_gpu_cmd_get_edid_cb_def update_vbuf_def update_object_def

lemma call_resp_cb_ok:
  assumes "cb_finds cb resp vb dev" and "vg_vbufs dev p = Some vb" and "edid_read_total env"
  shows "\<exists>dev'. call_resp_cb env cb p resp dev = Some dev' \<and> frame p dev dev' \<and> vg_fence_drv dev' = vg_fence_drv dev"
proof (cases cb)
  case Get_edid_cb
  then have "\<exists>e. env_edid_read env (virtio_get_edid_block resp) = Some e"
    using assms edid_block_total [of resp] by (auto simp: edid_read_total_def)
  then show ?thesis using assms(1,2) Get_edid_cb by (auto simp: callback_defs frame_def Let_def)
next
  case Resource_uuid_cb
  then obtain objs where o: "vb_objs vb = Some objs" "set (take 1 (oa_objs objs)) \<inter> dom (vg_objects dev) \<noteq> {}" using assms(1) by auto
  from first_object_exists [OF o(2)] obtain b bo where "first_object objs dev = Some (b, bo)" "vg_objects dev b = Some bo" by blast
  then show ?thesis using o(1) assms(2) Resource_uuid_cb by (auto simp: callback_defs frame_def Let_def)
next
  case Resource_map_cb
  then obtain objs where o: "vb_objs vb = Some objs" "set (take 1 (oa_objs objs)) \<inter> dom (vg_objects dev) \<noteq> {}" using assms(1) by auto
  from first_object_exists [OF o(2)] obtain b bo where "first_object objs dev = Some (b, bo)" "vg_objects dev b = Some bo" by blast
  then show ?thesis using o(1) assms(2) Resource_map_cb by (auto simp: callback_defs frame_def Let_def)
qed (use assms in \<open>auto simp: callback_defs frame_def Let_def split: option.splits\<close>)

text \<open>The fence an answer names, if any.\<close>
definition answered :: "u8 list \<Rightarrow> u64 list" where
  "answered resp = (if fld32 resp 4 AND VIRTIO_GPU_FLAG_FENCE \<noteq> 0 then [fld64 resp 8] else [])"

lemma handle_response_ok:
  assumes "cb_ready answer p dev" and "edid_read_total env"
  shows "\<exists>dev'. handle_response env answer p dev = Some dev' \<and> frame p dev dev' \<and>
    vg_fence_drv dev' = fold (virtio_gpu_fence_event_process (env_is_later env)) (answered (answer p)) (vg_fence_drv dev)"
proof -
  obtain vb where vb: "vg_vbufs dev p = Some vb" using assms(1) by (auto simp: cb_ready_def split: option.splits)
  define drv where "drv = fold (virtio_gpu_fence_event_process (env_is_later env)) (answered (answer p)) (vg_fence_drv dev)"
  define dev1 where "dev1 = dev\<lparr>vg_fence_drv := drv\<rparr>"
  have h: "handle_response env answer p dev =
      (case vb_resp_cb vb of None \<Rightarrow> Some dev1 | Some cb \<Rightarrow> call_resp_cb env cb p (answer p) dev1)"
  proof -
    have "dev1 = (if fld32 (answer p) 4 AND VIRTIO_GPU_FLAG_FENCE \<noteq> 0
        then dev\<lparr>vg_fence_drv := virtio_gpu_fence_event_process (env_is_later env) (fld64 (answer p) 8) (vg_fence_drv dev)\<rparr> else dev)"
      by (simp add: dev1_def drv_def answered_def)
    then show ?thesis using vb by (simp only: handle_response_def Let_def bind.simps)
  qed
  have fr: "frame p dev dev1" "frame p dev1 d \<Longrightarrow> frame p dev d" for d by (auto simp: frame_def dev1_def)
  show ?thesis
  proof (cases "vb_resp_cb vb")
    case None
    then show ?thesis using h fr by (simp add: dev1_def drv_def)
  next
    case (Some cb)
    have "cb_finds cb (answer p) vb dev1" using assms(1) vb Some by (cases cb) (auto simp: cb_ready_def dev1_def)
    moreover have "vg_vbufs dev1 p = Some vb" using vb by (simp add: dev1_def)
    ultimately obtain dev' where "call_resp_cb env cb p (answer p) dev1 = Some dev'" "frame p dev1 dev'" "vg_fence_drv dev' = vg_fence_drv dev1"
      using call_resp_cb_ok [OF _ _ assms(2)] by blast
    then show ?thesis using h Some fr by (auto simp: dev1_def drv_def)
  qed
qed

text \<open>Handling one response leaves the others ready.\<close>
lemma cb_ready_frame:
  assumes "frame p dev dev'" and "q \<noteq> p"
  shows "cb_ready answer q dev' = cb_ready answer q dev"
proof -
  have "cb_finds cb resp vb dev' = cb_finds cb resp vb dev" for cb resp vb
    using assms(1) by (cases cb) (simp_all add: frame_def)
  moreover have "vg_vbufs dev' q = vg_vbufs dev q" using assms by (simp add: frame_def)
  ultimately show ?thesis by (simp add: cb_ready_def)
qed

lemma each_response_ok:
  assumes "distinct ps" and "\<forall>p \<in> set ps. cb_ready answer p dev" and "edid_read_total env"
  shows "\<exists>dev'. each (handle_response env answer) ps dev = Some dev' \<and> vg_ctrlq dev' = vg_ctrlq dev \<and>
    (\<forall>q. map_option (\<lambda>vb. vb\<lparr>vb_resp_cb_data := None\<rparr>) (vg_vbufs dev' q) = map_option (\<lambda>vb. vb\<lparr>vb_resp_cb_data := None\<rparr>) (vg_vbufs dev q)) \<and>
    (\<forall>q. q \<notin> set ps \<longrightarrow> vg_vbufs dev' q = vg_vbufs dev q) \<and>
    vg_fence_drv dev' = fold (virtio_gpu_fence_event_process (env_is_later env)) (concat (map (\<lambda>p. answered (answer p)) ps)) (vg_fence_drv dev)"
  using assms(1,2)
proof (induction ps arbitrary: dev)
  case Nil
  then show ?case by simp
next
  case (Cons p ps)
  obtain dev1 where h: "handle_response env answer p dev = Some dev1" "frame p dev dev1"
      "vg_fence_drv dev1 = fold (virtio_gpu_fence_event_process (env_is_later env)) (answered (answer p)) (vg_fence_drv dev)"
    using handle_response_ok [OF _ assms(3)] Cons.prems(2) by fastforce
  have "\<forall>q \<in> set ps. cb_ready answer q dev1"
  proof
    fix q assume "q \<in> set ps"
    then have "q \<noteq> p" "cb_ready answer q dev" using Cons.prems by auto
    then show "cb_ready answer q dev1" by (simp add: cb_ready_frame [OF h(2)])
  qed
  from Cons.IH [OF _ this] Cons.prems(1) obtain dev' where "each (handle_response env answer) ps dev1 = Some dev'"
      "vg_ctrlq dev' = vg_ctrlq dev1"
      "\<forall>q. map_option (\<lambda>vb. vb\<lparr>vb_resp_cb_data := None\<rparr>) (vg_vbufs dev' q) = map_option (\<lambda>vb. vb\<lparr>vb_resp_cb_data := None\<rparr>) (vg_vbufs dev1 q)"
      "\<forall>q. q \<notin> set ps \<longrightarrow> vg_vbufs dev' q = vg_vbufs dev1 q"
      "vg_fence_drv dev' = fold (virtio_gpu_fence_event_process (env_is_later env)) (concat (map (\<lambda>p. answered (answer p)) ps)) (vg_fence_drv dev1)"
    by auto
  moreover have "map_option (\<lambda>vb. vb\<lparr>vb_resp_cb_data := None\<rparr>) (vg_vbufs dev1 q) = map_option (\<lambda>vb. vb\<lparr>vb_resp_cb_data := None\<rparr>) (vg_vbufs dev q)" for q
    using h(2) by (cases "q = p") (simp_all add: frame_def)
  ultimately show ?case using h by (simp add: frame_def)
qed

text \<open>What releasing a buffer hands to the delayed free and to \<open>kfree\<close>.\<close>
definition released :: "virtio_gpu_vbuffer \<Rightarrow> vg_event list" where
  "released vb = (case vb_objs vb of None \<Rightarrow> [] | Some objs \<Rightarrow> [Put_free_delayed (oa_ptr objs)]) @
     (if vb_resp_size vb > MAX_INLINE_RESP_SIZE then [Kfree (vb_resp_buf vb)] else []) @
     (case vb_data_buf vb of None \<Rightarrow> [] | Some d \<Rightarrow> [Kfree d])"

lemma release_entry_step:
  "vg_vbufs dev p = Some vb \<Longrightarrow> release_entry p dev = Some (logged (released vb) (dev\<lparr>vg_vbufs := (vg_vbufs dev)(p := None)\<rparr>))"
  by (cases "vb_objs vb"; cases "vb_data_buf vb") (simp_all add: release_entry_def free_vbuf_def released_def logged_def)

lemma each_release_ok:
  assumes "distinct ps" and "set ps \<subseteq> dom (vg_vbufs dev)"
  shows "each release_entry ps dev = Some (logged (concat (map (\<lambda>p. released (the (vg_vbufs dev p))) ps))
    (dev\<lparr>vg_vbufs := vg_vbufs dev |` (- set ps)\<rparr>))"
  using assms
proof (induction ps arbitrary: dev)
  case Nil
  then show ?case by (simp add: logged_def)
next
  case (Cons p ps)
  then obtain vb where vb: "vg_vbufs dev p = Some vb" by auto
  let ?dev = "logged (released vb) (dev\<lparr>vg_vbufs := (vg_vbufs dev)(p := None)\<rparr>)"
  have d: "set ps \<subseteq> dom (vg_vbufs ?dev)" "distinct ps" using Cons.prems by auto
  have e: "vg_vbufs ?dev |` (- set ps) = vg_vbufs dev |` (- set (p # ps))"
    by (auto simp: restrict_map_def fun_eq_iff)
  have m: "map (\<lambda>q. released (the (vg_vbufs ?dev q))) ps = map (\<lambda>q. released (the (vg_vbufs dev q))) ps"
    using Cons.prems(1) by auto
  have "each release_entry (p # ps) dev = each release_entry ps ?dev" using vb by (simp add: release_entry_step)
  also have "\<dots> = Some (logged (concat (map (\<lambda>q. released (the (vg_vbufs dev q))) ps)) (?dev\<lparr>vg_vbufs := vg_vbufs dev |` (- set (p # ps))\<rparr>))"
    using Cons.IH [OF d(2) d(1)] unfolding e m .
  finally show ?case using vb by (simp add: logged_def)
qed

context bsd_virtqueue
begin

lemma drain_queue:
  "\<exists>bs vq'. drain (lkpi_virtqueue_get_buf bsd) (lkpi_virtqueue_enable_cb bsd) (lkpi_virtqueue_disable_cb bsd) vq [] = Some (bs, vq') \<and>
     future (vq_bsd vq) = bs @ future (vq_bsd vq') \<and> intr (vq_bsd vq') \<and> used (vq_bsd vq') = []"
  using lkpi.drain_loses_nothing [of vq "[]"] by simp

end

lemma released_cb_data: "released (vb\<lparr>vb_resp_cb_data := None\<rparr>) = released vb"
  by (simp add: released_def)

text \<open>
  C22. The control worker answers everything the host has used. Whatever the host does meanwhile, with buffers
  that are live and each in the queue once, it comes back; the buffers it handled are those the
  host used, in their order, none lost and none twice; when it ends no used buffer is left behind with
  the interrupt off. Each fence the host named was processed, in order; after that the sleepers were woken, and then
  every handled buffer was freed once, with its objects, its response and its data, and no other.
\<close>
theorem virtio_gpu_dequeue_ctrl_complete:
  assumes "bsd_virtqueue (env_bsd env) used future intr"
    and "q = vq_bsd (q_vq (vg_ctrlq dev))"
    and "distinct (map fst (future q))" and "\<forall>b \<in> set (future q). cb_ready answer (fst b) dev"
    and "edid_read_total env"
  shows "\<exists>dev' bs log. virtio_gpu_dequeue_ctrl_func env answer dev = Some dev' \<and>
    (let q' = vq_bsd (q_vq (vg_ctrlq dev')); ps = map fst bs
     in future q = bs @ future q' \<and> used q' = [] \<and> intr q' \<and> vg_vbufs dev' = vg_vbufs dev |` (- set ps) \<and>
        vg_fence_drv dev' = fold (virtio_gpu_fence_event_process (env_is_later env)) (concat (map (\<lambda>p. answered (answer p)) ps)) (vg_fence_drv dev) \<and>
        vg_log dev' = log @ Wake_ctrl # concat (map (\<lambda>p. released (the (vg_vbufs dev p))) ps))"
proof -
  let ?bsd = "env_bsd env"
  obtain bs vq' where d: "drain (lkpi_virtqueue_get_buf ?bsd) (lkpi_virtqueue_enable_cb ?bsd) (lkpi_virtqueue_disable_cb ?bsd)
        (q_vq (vg_ctrlq dev)) [] = Some (bs, vq')"
      "future q = bs @ future (vq_bsd vq')" "intr (vq_bsd vq')" "used (vq_bsd vq') = []"
    using bsd_virtqueue.drain_queue [OF assms(1), of "q_vq (vg_ctrlq dev)"] assms(2) by auto
  define dev1 where "dev1 = dev\<lparr>vg_ctrlq := (vg_ctrlq dev)\<lparr>q_vq := vq', q_dequeue_work := False\<rparr>\<rparr>"
  define ps where "ps = map fst bs"
  have dist: "distinct ps" using assms(3) d(2) by (simp add: ps_def)
  have "cb_finds cb resp vb dev1 = cb_finds cb resp vb dev" for cb resp vb by (cases cb) (simp_all add: dev1_def)
  then have "\<forall>p \<in> set ps. cb_ready answer p dev1" using assms(4) d(2) by (auto simp: cb_ready_def dev1_def ps_def)
  from each_response_ok [OF dist this assms(5)] obtain dev2 where r:
      "each (handle_response env answer) ps dev1 = Some dev2" "vg_ctrlq dev2 = vg_ctrlq dev1"
      "\<And>p. map_option (\<lambda>vb. vb\<lparr>vb_resp_cb_data := None\<rparr>) (vg_vbufs dev2 p) = map_option (\<lambda>vb. vb\<lparr>vb_resp_cb_data := None\<rparr>) (vg_vbufs dev p)"
      "\<And>p. p \<notin> set ps \<Longrightarrow> vg_vbufs dev2 p = vg_vbufs dev p"
      "vg_fence_drv dev2 = fold (virtio_gpu_fence_event_process (env_is_later env)) (concat (map (\<lambda>p. answered (answer p)) ps)) (vg_fence_drv dev)"
    by (auto simp: dev1_def)
  have live: "vg_vbufs dev p \<noteq> None" if "p \<in> set ps" for p using that assms(4) d(2) by (auto simp: cb_ready_def ps_def)
  then have "set ps \<subseteq> dom (vg_vbufs dev2)" using r(3) by (metis domIff map_option_is_None subsetI)
  then have "each release_entry ps (logged [Wake_ctrl] dev2) =
      Some (logged (concat (map (\<lambda>p. released (the (vg_vbufs dev2 p))) ps)) ((logged [Wake_ctrl] dev2)\<lparr>vg_vbufs := vg_vbufs dev2 |` (- set ps)\<rparr>))"
    using each_release_ok [OF dist, of "logged [Wake_ctrl] dev2"] by simp
  moreover have "vg_vbufs dev2 |` (- set ps) = vg_vbufs dev |` (- set ps)"
    using r(4) by (auto simp: restrict_map_def fun_eq_iff)
  moreover have "map (\<lambda>p. released (the (vg_vbufs dev2 p))) ps = map (\<lambda>p. released (the (vg_vbufs dev p))) ps"
  proof (rule map_cong [OF refl])
    fix p assume "p \<in> set ps"
    with live obtain vb where "vg_vbufs dev p = Some vb" by auto
    with r(3) [of p] obtain vb' where "vg_vbufs dev2 p = Some vb'" "vb'\<lparr>vb_resp_cb_data := None\<rparr> = vb\<lparr>vb_resp_cb_data := None\<rparr>" by auto
    then show "released (the (vg_vbufs dev2 p)) = released (the (vg_vbufs dev p))"
      using \<open>vg_vbufs dev p = Some vb\<close> by (metis released_cb_data option.sel)
  qed
  ultimately have "virtio_gpu_dequeue_ctrl_func env answer dev =
      Some (logged (concat (map (\<lambda>p. released (the (vg_vbufs dev p))) ps)) ((logged [Wake_ctrl] dev2)\<lparr>vg_vbufs := vg_vbufs dev |` (- set ps)\<rparr>))"
    unfolding virtio_gpu_dequeue_ctrl_func_def Let_def d(1) by (simp add: r(1) flip: dev1_def ps_def)
  then show ?thesis
    using d r(2,5) by (intro exI [of _ bs] exI [of _ "vg_log dev2"] exI conjI) (auto simp: Let_def dev1_def logged_def simp flip: ps_def)
qed

subsection \<open>Queueing\<close>

text \<open>The device when the lock is held with room for \<open>n\<close> descriptors, after at most one wait.\<close>
definition with_room :: "'q vg_env \<Rightarrow> u32 \<Rightarrow> 'q virtio_gpu_device \<Rightarrow> 'q virtio_gpu_device" where
  "with_room env n dev =
     (if n \<le> virtqueue_num_free (env_bsd env) (q_vq (vg_ctrlq dev)) then dev
      else env_ctrl_sleep env (virtio_gpu_notify (env_bsd env) dev))"

lemma ctrl_room_with_room:
  assumes "\<forall>d. n \<le> virtqueue_num_free (env_bsd env) (q_vq (vg_ctrlq (env_ctrl_sleep env d)))"
  shows "ctrl_room env n dev = Some (with_room env n dev)"
proof -
  have free: "ctrl_room env n d = Some d" if "n \<le> virtqueue_num_free (env_bsd env) (q_vq (vg_ctrlq d))" for d
    using that by (simp add: ctrl_room.simps [of env n d] not_less [symmetric])
  show ?thesis
    using assms free by (simp add: ctrl_room.simps [of env n dev] with_room_def not_le)
qed

lemma emit_ctrl_fence_simps:
  "vg_ctrlq (emit_ctrl_fence p vb f dev) = vg_ctrlq dev"
  "vg_objects (emit_ctrl_fence p vb f dev) = vg_objects dev"
  "vg_cap_cache (emit_ctrl_fence p vb f dev) = vg_cap_cache dev"
  "vg_pending_commands (emit_ctrl_fence p vb f dev) = vg_pending_commands dev"
  "vg_fence_drv (emit_ctrl_fence p vb f dev) = snd (snd (virtio_gpu_fence_emit (vb_hdr vb) f (vg_fence_drv dev)))"
  "vg_vbufs (emit_ctrl_fence p vb f dev) = (vg_vbufs dev)(p \<mapsto> vb\<lparr>vb_hdr := fst (virtio_gpu_fence_emit (vb_hdr vb) f (vg_fence_drv dev))\<rparr>)"
  by (simp_all add: emit_ctrl_fence_def split_def Let_def)

lemma fence_emit_simps:
  "hdr_type (fst (virtio_gpu_fence_emit h f drv)) = hdr_type h"
  "hdr_ctx_id (fst (virtio_gpu_fence_emit h f drv)) = hdr_ctx_id h"
  "hdr_fence_id (fst (virtio_gpu_fence_emit h f drv)) = current_fence_id drv + 1"
  "bit (hdr_flags (fst (virtio_gpu_fence_emit h f drv))) 0"
  "current_fence_id (snd (snd (virtio_gpu_fence_emit h f drv))) = current_fence_id drv + 1"
  "fences (snd (snd (virtio_gpu_fence_emit h f drv))) =
     fences drv @ [f\<lparr>fn_id := current_fence_id drv + 1, fn_seqno := current_fence_id drv + 1\<rparr>]"
  by (simp_all add: virtio_gpu_fence_emit_def Let_def VIRTIO_GPU_FLAG_FENCE_def VIRTIO_GPU_FLAG_INFO_RING_IDX_def bit_simps)

text \<open>A buffer as it is in the queue: numbered, and its header with the fence.\<close>
definition queued_as :: "'q virtio_gpu_device \<Rightarrow> virtio_gpu_fence option \<Rightarrow> virtio_gpu_vbuffer \<Rightarrow> virtio_gpu_vbuffer" where
  "queued_as dev fence vb = vb\<lparr>vb_seqno := q_seqno (vg_ctrlq dev) + 1,
     vb_hdr := (case fence of None \<Rightarrow> vb_hdr vb | Some f \<Rightarrow> fst (virtio_gpu_fence_emit (vb_hdr vb) f (vg_fence_drv dev)))\<rparr>"

definition fenced_drv :: "virtio_gpu_vbuffer \<Rightarrow> virtio_gpu_fence option \<Rightarrow> virtio_gpu_fence_driver \<Rightarrow> virtio_gpu_fence_driver" where
  "fenced_drv vb fence drv = (case fence of None \<Rightarrow> drv | Some f \<Rightarrow> snd (snd (virtio_gpu_fence_emit (vb_hdr vb) f drv)))"

lemma queue_ctrl_sgs_result:
  assumes "vg_plugged dev" and "vg_vbufs dev p \<noteq> None"
    and "ctrl_room env (if vg_has_indirect dev then 1 else of_nat elemcnt) dev = Some dev1" and "vg_vbufs dev1 p = Some vb"
  shows "\<exists>dev'. virtio_gpu_queue_ctrl_sgs env p fence elemcnt sgs outcnt incnt dev = Some (Inr (), dev') \<and>
    q_vq (vg_ctrlq dev') = snd (lkpi_virtqueue_add_sgs (env_bsd env) sgs outcnt incnt p (q_vq (vg_ctrlq dev1))) \<and>
    vg_vbufs dev' = (vg_vbufs dev1)(p \<mapsto> queued_as dev1 fence vb) \<and> vg_fence_drv dev' = fenced_drv vb fence (vg_fence_drv dev1) \<and>
    vg_objects dev' = vg_objects dev1 \<and> vg_cap_cache dev' = vg_cap_cache dev1 \<and> vg_pending_commands dev' = vg_pending_commands dev1 + 1"
proof -
  obtain vb0 where vb0: "vg_vbufs dev p = Some vb0" using assms(2) by auto
  obtain ret vq where a: "lkpi_virtqueue_add_sgs (env_bsd env) sgs outcnt incnt p (q_vq (vg_ctrlq dev1)) = (ret, vq)" by fastforce
  show ?thesis
    using assms(1,3,4) vb0 a
    by (cases fence; cases ret)
       (auto simp: virtio_gpu_queue_ctrl_sgs_def Let_def emit_ctrl_fence_simps queued_as_def fenced_drv_def)
qed

text \<open>The readable and the writable entries of a request.\<close>
definition read_sgs :: "'q vg_env \<Rightarrow> virtio_gpu_vbuffer \<Rightarrow> scatterlist list list \<Rightarrow> scatterlist list" where
  "read_sgs env vb vout = sg_init_one env (vb_buf vb) (of_nat (vb_size vb)) @ concat vout"

definition write_sgs :: "'q vg_env \<Rightarrow> virtio_gpu_vbuffer \<Rightarrow> scatterlist list" where
  "write_sgs env vb = (if vb_resp_size vb = 0 then [] else sg_init_one env (vb_resp_buf vb) (word_of_int (vb_resp_size vb)))"

text \<open>The descriptors the driver waits for.\<close>
definition needed :: "'q vg_env \<Rightarrow> virtio_gpu_vbuffer \<Rightarrow> nat \<Rightarrow> 'q virtio_gpu_device \<Rightarrow> u32" where
  "needed env vb ents dev = (if vg_has_indirect dev then 1 else of_nat (1 + ents + length (write_sgs env vb)))"

lemma length_sg_init_one [simp]: "length (sg_init_one env a n) = 1"
  by (simp add: sg_init_one_def)

lemma queue_fenced_result:
  assumes "vg_plugged dev" and "vg_vbufs dev p = Some vb" and "data_sgs env vb = Some (vout, ents)"
    and "\<forall>d. needed env vb ents dev \<le> virtqueue_num_free (env_bsd env) (q_vq (vg_ctrlq (env_ctrl_sleep env d)))"
    and "\<forall>d. vg_vbufs (env_ctrl_sleep env d) p = vg_vbufs d p" and "dev1 = with_room env (needed env vb ents dev) dev"
  shows "\<exists>dev' resp. virtio_gpu_queue_fenced_ctrl_buffer env p fence dev = Some (Inr (), dev') \<and>
    concat resp = write_sgs env vb \<and> length resp = length (write_sgs env vb) \<and>
    q_vq (vg_ctrlq dev') = snd (lkpi_virtqueue_add_sgs (env_bsd env) (sg_init_one env (vb_buf vb) (of_nat (vb_size vb)) # vout @ resp)
       (1 + length vout) (length resp) p (q_vq (vg_ctrlq dev1))) \<and>
    vg_vbufs dev' = (vg_vbufs dev1)(p \<mapsto> queued_as dev1 fence vb) \<and> vg_fence_drv dev' = fenced_drv vb fence (vg_fence_drv dev1) \<and>
    vg_objects dev' = vg_objects dev1 \<and> vg_pending_commands dev' = vg_pending_commands dev1 + 1"
proof -
  define resp where "resp = (if vb_resp_size vb \<noteq> 0 then [sg_init_one env (vb_resp_buf vb) (word_of_int (vb_resp_size vb))] else [])"
  have resp: "concat resp = write_sgs env vb" "length resp = length (write_sgs env vb)" by (simp_all add: resp_def write_sgs_def)
  have "vg_vbufs (virtio_gpu_notify (env_bsd env) dev) = vg_vbufs dev" by (simp add: virtio_gpu_notify_def Let_def)
  then have vb1: "vg_vbufs dev1 p = Some vb" using assms(2,5,6) by (simp add: with_room_def)
  have room: "ctrl_room env (if vg_has_indirect dev then 1 else of_nat (1 + ents + length resp)) dev = Some dev1"
    unfolding resp(2) assms(6) using ctrl_room_with_room [OF assms(4), of dev] unfolding needed_def .
  obtain dev' where "virtio_gpu_queue_ctrl_sgs env p fence (1 + ents + length resp)
      (sg_init_one env (vb_buf vb) (of_nat (vb_size vb)) # vout @ resp) (1 + length vout) (length resp) dev = Some (Inr (), dev')"
      "q_vq (vg_ctrlq dev') = snd (lkpi_virtqueue_add_sgs (env_bsd env) (sg_init_one env (vb_buf vb) (of_nat (vb_size vb)) # vout @ resp)
         (1 + length vout) (length resp) p (q_vq (vg_ctrlq dev1)))"
      "vg_vbufs dev' = (vg_vbufs dev1)(p \<mapsto> queued_as dev1 fence vb)" "vg_fence_drv dev' = fenced_drv vb fence (vg_fence_drv dev1)"
      "vg_objects dev' = vg_objects dev1" "vg_pending_commands dev' = vg_pending_commands dev1 + 1"
    using queue_ctrl_sgs_result [OF assms(1) _ room vb1] assms(2) by (metis option.distinct(1))
  then show ?thesis
    using resp assms(2,3) by (auto simp: virtio_gpu_queue_fenced_ctrl_buffer_def Let_def simp flip: resp_def)
qed

text \<open>
  C23. A command that is queued reaches the host whole. The call comes back, after waiting for room if there was none,
  and FreeBSD's queue got one request with the buffer as its cookie: readable are the command, then the entries
  of its data, writable is its response and nothing else. With a fence, the header in the
  buffer carries the next number, which is flagged, and the fence waits behind all others
  under that number: the order of the numbers is that of the queue.
\<close>
theorem virtio_gpu_queue_fenced_exact:
  assumes "vg_plugged dev" and "vg_vbufs dev p = Some vb" and "data_sgs env vb = Some (vout, ents)"
    and "\<forall>d. needed env vb ents dev \<le> virtqueue_num_free (env_bsd env) (q_vq (vg_ctrlq (env_ctrl_sleep env d)))"
    and "\<forall>d. vg_vbufs (env_ctrl_sleep env d) p = vg_vbufs d p" and "dev1 = with_room env (needed env vb ents dev) dev"
    and "vq_wf (q_vq (vg_ctrlq dev1))"
    and "length (read_sgs env vb vout @ write_sgs env vb) \<le> length (sg_segs (q_vq (vg_ctrlq dev1)))"
  shows "\<exists>dev' vb'. virtio_gpu_queue_fenced_ctrl_buffer env p fence dev = Some (Inr (), dev') \<and>
    vq_bsd (q_vq (vg_ctrlq dev')) = snd (bsd_enqueue (env_bsd env) p (map seg_of (read_sgs env vb vout @ write_sgs env vb))
      (int (length (read_sgs env vb vout))) (int (length (write_sgs env vb))) (vq_bsd (q_vq (vg_ctrlq dev1)))) \<and>
    vg_vbufs dev' = (vg_vbufs dev1)(p \<mapsto> vb') \<and> vb_body vb' = vb_body vb \<and> hdr_type (vb_hdr vb') = hdr_type (vb_hdr vb) \<and>
    (case fence of
       None \<Rightarrow> vb_hdr vb' = vb_hdr vb \<and> vg_fence_drv dev' = vg_fence_drv dev1
     | Some f \<Rightarrow> (\<exists>n f'. n = current_fence_id (vg_fence_drv dev1) + 1 \<and> hdr_fence_id (vb_hdr vb') = n \<and> bit (hdr_flags (vb_hdr vb')) 0 \<and>
         current_fence_id (vg_fence_drv dev') = n \<and> fences (vg_fence_drv dev') = fences (vg_fence_drv dev1) @ [f'] \<and>
         fn_ptr f' = fn_ptr f \<and> fn_id f' = n \<and> fn_seqno f' = n))"
proof -
  obtain dev' resp where r: "virtio_gpu_queue_fenced_ctrl_buffer env p fence dev = Some (Inr (), dev')"
      "concat resp = write_sgs env vb" "length resp = length (write_sgs env vb)"
      "q_vq (vg_ctrlq dev') = snd (lkpi_virtqueue_add_sgs (env_bsd env) (sg_init_one env (vb_buf vb) (of_nat (vb_size vb)) # vout @ resp)
         (1 + length vout) (length resp) p (q_vq (vg_ctrlq dev1)))"
      "vg_vbufs dev' = (vg_vbufs dev1)(p \<mapsto> queued_as dev1 fence vb)" "vg_fence_drv dev' = fenced_drv vb fence (vg_fence_drv dev1)"
    using queue_fenced_result [OF assms(1-6), of fence] by blast
  let ?sgs = "sg_init_one env (vb_buf vb) (of_nat (vb_size vb)) # vout @ resp"
  have c: "concat ?sgs = read_sgs env vb vout @ write_sgs env vb" "concat (take (1 + length vout) ?sgs) = read_sgs env vb vout"
      "concat (drop (1 + length vout) ?sgs) = write_sgs env vb"
    using r(2) by (simp_all add: read_sgs_def)
  have "length ?sgs = 1 + length vout + length resp" by simp
  from add_sgs_exact [OF assms(7) this prod.collapse [symmetric], of "env_bsd env" p]
  have "vq_bsd (q_vq (vg_ctrlq dev')) = snd (bsd_enqueue (env_bsd env) p (map seg_of (read_sgs env vb vout @ write_sgs env vb))
      (int (length (read_sgs env vb vout))) (int (length (write_sgs env vb))) (vq_bsd (q_vq (vg_ctrlq dev1))))"
    unfolding c r(4) using assms(8) by (metis snd_conv)
  then show ?thesis
    using r(1,5,6) by (cases fence) (auto simp: queued_as_def fenced_drv_def fence_emit_simps)
qed

text \<open>A fresh buffer.\<close>
definition fresh_vbuf :: "ptr \<Rightarrow> nat \<Rightarrow> int \<Rightarrow> ptr option \<Rightarrow> virtio_gpu_resp_cb option \<Rightarrow> virtio_gpu_vbuffer" where
  "fresh_vbuf p n rs rb cb = \<lparr>vb_buf = p + 96, vb_hdr = zero_hdr, vb_body = replicate (n - 24) 0, vb_size = n, vb_data_buf = None, vb_data_size = 0,
     vb_resp_buf = (if rs \<le> 24 then p + 96 + n else the rb), vb_resp_size = rs, vb_resp_cb = cb, vb_resp_cb_data = None, vb_objs = None, vb_seqno = 0\<rparr>"

subsection \<open>Witnesses\<close>

text \<open>A machine with the queue of \<open>sim_vq\<close>, on which a sleeper finds the queue empty again.\<close>
definition sim_env :: "sim_queue vg_env" where
  "sim_env = \<lparr>env_bsd = sim_bsd, env_vtophys = of_nat, env_is_vmalloc = (\<lambda>_. False), env_page = (\<lambda>a. Some (of_nat a)), env_sgt_alloc = True,
     env_is_later = is_later_32, env_use_dma_api = True, env_hpd_irq_event = False,
     env_edid_read = (\<lambda>rd. map_option (\<lambda>r. case r of Inl _ \<Rightarrow> None | Inr b \<Rightarrow> Some b) (rd 0 128)),
     env_ctrl_sleep = (\<lambda>d. d\<lparr>vg_ctrlq := (vg_ctrlq d)\<lparr>q_vq := sim_vq\<rparr>\<rparr>), env_cursor_sleep = id\<rparr>"

definition sim_object :: virtio_gpu_object where
  "sim_object = \<lparr>hw_res_handle = 7, bo_created = False, bo_shmem = True, bo_uuid_state = STATE_INITIALIZING, bo_uuid = [],
     bo_map_state = STATE_INITIALIZING, bo_map_info = 0\<rparr>"

text \<open>Three commands in flight, one of them the release of an object, with three fences waiting.\<close>
definition sim_gpu :: "sim_queue virtio_gpu_device" where
  "sim_gpu = \<lparr>vg_ctrlq = \<lparr>q_vq = sim_vq, q_seqno = 3, q_dequeue_work = True\<rparr>, vg_cursorq = \<lparr>q_vq = sim_vq, q_seqno = 0, q_dequeue_work = False\<rparr>,
     vg_vbufs = [1 \<mapsto> fresh_vbuf 1 48 24 None None, 2 \<mapsto> (fresh_vbuf 2 32 24 None (Some Unref_cb))\<lparr>vb_resp_cb_data := Some 50\<rparr>,
       3 \<mapsto> fresh_vbuf 3 24 408 (Some 900) (Some Get_display_info_cb)],
     vg_pending_commands = 0, vg_fence_drv = demo_fences, vg_plugged = True, vg_has_indirect = True, vg_has_edid = False,
     vg_display_info_pending = True, vg_outputs = [], vg_num_scanouts = 0, vg_capsets = Some [\<lparr>cs_id = 4, cs_max_version = 1, cs_max_size = 160\<rparr>],
     vg_num_capsets = 1, vg_cap_cache = [], vg_objects = [50 \<mapsto> sim_object], vg_log = []\<rparr>"

text \<open>The host answers each command with the number of a fence.\<close>
definition sim_answer :: "ptr \<Rightarrow> u8 list" where
  "sim_answer p = le32 0x1100 @ le32 1 @ le64 (of_nat p) @ replicate 392 0"

theorem virtio_gpu_dequeue_ctrl_complete_witness:
  "\<exists>dev' bs. virtio_gpu_dequeue_ctrl_func sim_env sim_answer sim_gpu = Some dev' \<and>
     [(1, 24), (2, 24), (3, 24)] = bs @ sq_used (vq_bsd (q_vq (vg_ctrlq dev'))) @ concat (sq_batches (vq_bsd (q_vq (vg_ctrlq dev')))) \<and>
     sq_used (vq_bsd (q_vq (vg_ctrlq dev'))) = [] \<and> sq_intr (vq_bsd (q_vq (vg_ctrlq dev')))"
proof -
  let ?q = "vq_bsd (q_vq (vg_ctrlq sim_gpu))"
  have b: "bsd_virtqueue (env_bsd sim_env) sq_used (\<lambda>q. sq_used q @ concat (sq_batches q)) sq_intr"
    using sim.bsd_virtqueue_axioms by (simp add: sim_env_def)
  have q: "sq_used ?q @ concat (sq_batches ?q) = [(1, 24), (2, 24), (3, 24)]" by (simp add: sim_gpu_def sim_vq_def make_vq_def Let_def)
  have "\<forall>b \<in> set (sq_used ?q @ concat (sq_batches ?q)). cb_ready sim_answer (fst b) sim_gpu"
    unfolding q by (simp add: cb_ready_def sim_gpu_def fresh_vbuf_def)
  moreover have "edid_read_total sim_env" by (auto simp: edid_read_total_def sim_env_def)
  ultimately show ?thesis
    using virtio_gpu_dequeue_ctrl_complete [OF b refl, of sim_gpu sim_answer] q by (auto simp: Let_def)
qed

theorem virtio_gpu_queue_fenced_exact_witness:
  "\<exists>dev'. virtio_gpu_queue_fenced_ctrl_buffer sim_env 1 (Some (demo_fence 9 7)) sim_gpu = Some (Inr (), dev') \<and>
     sq_requests (vq_bsd (q_vq (vg_ctrlq dev'))) = [(1, [\<lparr>ss_paddr = 97, ss_len = 48\<rparr>, \<lparr>ss_paddr = 145, ss_len = 24\<rparr>], 1, 1)] \<and>
     map fn_id (fences (vg_fence_drv dev')) = [1, 2, 3, 4]"
proof -
  let ?vb = "fresh_vbuf 1 48 24 None None"
  have n: "virtqueue_num_free sim_bsd sim_vq = 64" by (simp add: virtqueue_num_free_def sim_bsd_def sim_vq_def make_vq_def Let_def)
  have a: "vg_plugged sim_gpu" "vg_vbufs sim_gpu 1 = Some ?vb" "data_sgs sim_env ?vb = Some ([], 0)"
      "\<forall>d. needed sim_env ?vb 0 sim_gpu \<le> virtqueue_num_free (env_bsd sim_env) (q_vq (vg_ctrlq (env_ctrl_sleep sim_env d)))"
      "\<forall>d. vg_vbufs (env_ctrl_sleep sim_env d) 1 = vg_vbufs d 1" "sim_gpu = with_room sim_env (needed sim_env ?vb 0 sim_gpu) sim_gpu"
      "vq_wf (q_vq (vg_ctrlq sim_gpu))"
      "length (read_sgs sim_env ?vb [] @ write_sgs sim_env ?vb) \<le> length (sg_segs (q_vq (vg_ctrlq sim_gpu)))"
    using n by (simp_all add: sim_gpu_def fresh_vbuf_def data_sgs_def needed_def sim_env_def with_room_def vq_wf_def sim_vq_def make_vq_def
        Let_def read_sgs_def write_sgs_def)
  have f: "map fn_id (fences demo_fences) = [1, 2, 3]" "current_fence_id demo_fences = 3"
      "vg_fence_drv sim_gpu = demo_fences" "sq_requests (vq_bsd (q_vq (vg_ctrlq sim_gpu))) = []"
    by (simp_all add: sim_gpu_def demo_fences_def virtio_gpu_fence_emit_def Let_def fence_start_def demo_fence_def sim_vq_def make_vq_def)
  from virtio_gpu_queue_fenced_exact [OF a, of "Some (demo_fence 9 7)"] f show ?thesis
    by (auto simp: read_sgs_def write_sgs_def sg_init_one_def fresh_vbuf_def sim_env_def sim_bsd_def seg_of_def lkpi_sg_paddr_def)
qed


end
