(* ===== verification/Virtgpu_Host.thy ===== *)
theory Virtgpu_Host
  imports Virtgpu_Laws
begin

text \<open>
  The commands of virtio-gpu as the host reads them: a decoder for the layout of
  \<^verbatim>\<open>include/uapi/linux/virtio_gpu.h\<close>, and that each command of the driver decodes to what it was called
  with; the cache of capability sets; and two ways in which the driver loses a buffer or reads too far.
\<close>

subsection \<open>What the host reads\<close>

text \<open>A request, as the structures of \<^verbatim>\<open>virtio_gpu.h\<close> lay it out.\<close>
datatype gpu_request =
    R_create_2d u32 u32 u32 u32
  | R_unref u32
  | R_set_scanout u32 u32 virtio_gpu_rect
  | R_flush u32 virtio_gpu_rect
  | R_to_host_2d u32 u64 virtio_gpu_rect
  | R_attach_backing u32 u32
  | R_display_info
  | R_capset_info u32
  | R_ctx_create u32 u32 u32 "u8 list"
  | R_ctx_destroy u32
  | R_ctx_attach u32 u32
  | R_ctx_detach u32 u32
  | R_create_3d u32 "u32 list"
  | R_to_host_3d u32 u32 u64 "u32 list" drm_virtgpu_3d_box
  | R_from_host_3d u32 u32 u64 "u32 list" drm_virtgpu_3d_box
  | R_submit u32 u32
  | R_assign_uuid u32
  | R_map_blob u32 u64
  | R_unmap_blob u32
  | R_create_blob u32 u32 u32 u32 u32 u64 u64
  | R_set_scanout_blob u32 u32 "u32 list" "u32 list" "u32 list" virtio_gpu_rect

definition rd_rect :: "u8 list \<Rightarrow> nat \<Rightarrow> virtio_gpu_rect" where
  "rd_rect bs off = \<lparr>r_x = fld32 bs off, r_y = fld32 bs (off + 4), r_width = fld32 bs (off + 8), r_height = fld32 bs (off + 12)\<rparr>"

definition rd_box :: "u8 list \<Rightarrow> nat \<Rightarrow> drm_virtgpu_3d_box" where
  "rd_box bs off = \<lparr>b_x = fld32 bs off, b_y = fld32 bs (off + 4), b_z = fld32 bs (off + 8), b_w = fld32 bs (off + 12),
     b_h = fld32 bs (off + 16), b_d = fld32 bs (off + 20)\<rparr>"

text \<open>A request by its type: the fields at their offsets.\<close>
definition decode_body :: "u32 \<Rightarrow> u32 \<Rightarrow> u8 list \<Rightarrow> gpu_request option" where
  "decode_body t ctx b =
     (if t = 0x100 then Some R_display_info
      else if t = 0x101 then Some (R_create_2d (fld32 b 0) (fld32 b 4) (fld32 b 8) (fld32 b 12))
      else if t = 0x102 then Some (R_unref (fld32 b 0))
      else if t = 0x103 then Some (R_set_scanout (fld32 b 16) (fld32 b 20) (rd_rect b 0))
      else if t = 0x104 then Some (R_flush (fld32 b 16) (rd_rect b 0))
      else if t = 0x105 then Some (R_to_host_2d (fld32 b 24) (fld64 b 16) (rd_rect b 0))
      else if t = 0x106 then Some (R_attach_backing (fld32 b 0) (fld32 b 4))
      else if t = 0x108 then Some (R_capset_info (fld32 b 0))
      else if t = 0x10b then Some (R_assign_uuid (fld32 b 0))
      else if t = 0x10c then Some (R_create_blob ctx (fld32 b 0) (fld32 b 4) (fld32 b 8) (fld32 b 12) (fld64 b 16) (fld64 b 24))
      else if t = 0x10d then Some (R_set_scanout_blob (fld32 b 16) (fld32 b 20) [fld32 b 24, fld32 b 28, fld32 b 32]
        (map (\<lambda>i. fld32 b (40 + 4 * i)) [0..<4]) (map (\<lambda>i. fld32 b (56 + 4 * i)) [0..<4]) (rd_rect b 0))
      else if t = 0x200 then Some (R_ctx_create ctx (fld32 b 0) (fld32 b 4) (take 64 (drop 8 b)))
      else if t = 0x201 then Some (R_ctx_destroy ctx)
      else if t = 0x202 then Some (R_ctx_attach ctx (fld32 b 0))
      else if t = 0x203 then Some (R_ctx_detach ctx (fld32 b 0))
      else if t = 0x204 then Some (R_create_3d (fld32 b 0) (map (\<lambda>i. fld32 b (4 + 4 * i)) [0..<10]))
      else if t = 0x205 then Some (R_to_host_3d ctx (fld32 b 32) (fld64 b 24) (map (\<lambda>i. fld32 b (36 + 4 * i)) [0..<3]) (rd_box b 0))
      else if t = 0x206 then Some (R_from_host_3d ctx (fld32 b 32) (fld64 b 24) (map (\<lambda>i. fld32 b (36 + 4 * i)) [0..<3]) (rd_box b 0))
      else if t = 0x207 then Some (R_submit ctx (fld32 b 0))
      else if t = 0x208 then Some (R_map_blob (fld32 b 0) (fld64 b 8))
      else if t = 0x209 then Some (R_unmap_blob (fld32 b 0))
      else None)"

definition decode_request :: "u8 list \<Rightarrow> gpu_request option" where
  "decode_request bs = decode_body (fld32 bs 0) (fld32 bs 16) (drop 24 bs)"

text \<open>The calls of the driver, with the values they are given.\<close>
datatype gpu_call =
    Create_2d virtio_gpu_object_params
  | Unref
  | Set_scanout u32 u32 virtio_gpu_rect
  | Flush u32 virtio_gpu_rect
  | To_host_2d u64 virtio_gpu_rect
  | Attach_backing u32 u32
  | Display_info
  | Capset_info u32
  | Ctx_create u32 u32 u32 "u8 list"
  | Ctx_destroy u32
  | Ctx_attach u32
  | Ctx_detach u32
  | Create_3d virtio_gpu_object_params
  | To_host_3d u32 u64 u32 u32 u32 drm_virtgpu_3d_box
  | From_host_3d u32 u64 u32 u32 u32 drm_virtgpu_3d_box
  | Submit u32 u32
  | Assign_uuid
  | Map_blob u64
  | Unmap_blob
  | Create_blob virtio_gpu_object_params u32
  | Set_scanout_blob u32 drm_framebuffer virtio_gpu_rect

text \<open>The addresses a call works on: its buffer, response, data, object and array, and its fence.\<close>
record call_env =
  ca_buf :: ptr
  ca_resp :: ptr
  ca_data :: "ptr option"
  ca_bo :: ptr
  ca_objs :: virtio_gpu_object_array
  ca_fence :: "virtio_gpu_fence option"

fun issue :: "'q vg_env \<Rightarrow> call_env \<Rightarrow> virtio_gpu_object \<Rightarrow> gpu_call \<Rightarrow> 'q virtio_gpu_device \<Rightarrow> 'q virtio_gpu_device option" where
  "issue env m bo (Create_2d pr) dev = virtio_gpu_cmd_create_resource env (ca_buf m) (ca_bo m) pr (Some (ca_objs m)) (ca_fence m) dev"
| "issue env m bo Unref dev = virtio_gpu_cmd_unref_resource env (ca_buf m) (ca_bo m) dev"
| "issue env m bo (Set_scanout s r rc) dev = virtio_gpu_cmd_set_scanout env (ca_buf m) s r (r_width rc) (r_height rc) (r_x rc) (r_y rc) dev"
| "issue env m bo (Flush r rc) dev =
     virtio_gpu_cmd_resource_flush env (ca_buf m) r (r_x rc) (r_y rc) (r_width rc) (r_height rc) (Some (ca_objs m)) (ca_fence m) dev"
| "issue env m bo (To_host_2d off rc) dev =
     virtio_gpu_cmd_transfer_to_host_2d env (ca_buf m) off (r_width rc) (r_height rc) (r_x rc) (r_y rc) (ca_objs m) (ca_fence m) dev"
| "issue env m bo (Attach_backing r n) dev = virtio_gpu_cmd_resource_attach_backing env (ca_buf m) r (ca_data m) n (ca_fence m) dev"
| "issue env m bo Display_info dev = map_option snd (virtio_gpu_cmd_get_display_info env (ca_buf m) (Some (ca_resp m)) dev)"
| "issue env m bo (Capset_info i) dev = map_option snd (virtio_gpu_cmd_get_capset_info env (ca_buf m) (Some (ca_resp m)) i dev)"
| "issue env m bo (Ctx_create ctx ini n name) dev = virtio_gpu_cmd_context_create env (ca_buf m) ctx ini n name dev"
| "issue env m bo (Ctx_destroy ctx) dev = virtio_gpu_cmd_context_destroy env (ca_buf m) ctx dev"
| "issue env m bo (Ctx_attach ctx) dev = virtio_gpu_cmd_context_attach_resource env (ca_buf m) ctx (ca_objs m) dev"
| "issue env m bo (Ctx_detach ctx) dev = virtio_gpu_cmd_context_detach_resource env (ca_buf m) ctx (ca_objs m) dev"
| "issue env m bo (Create_3d pr) dev = virtio_gpu_cmd_resource_create_3d env (ca_buf m) (ca_bo m) pr (Some (ca_objs m)) (ca_fence m) dev"
| "issue env m bo (To_host_3d ctx off l s ls box) dev = virtio_gpu_cmd_transfer_to_host_3d env (ca_buf m) ctx off l s ls box (ca_objs m) (ca_fence m) dev"
| "issue env m bo (From_host_3d ctx off l s ls box) dev = virtio_gpu_cmd_transfer_from_host_3d env (ca_buf m) ctx off l s ls box (ca_objs m) (ca_fence m) dev"
| "issue env m bo (Submit ctx n) dev = virtio_gpu_cmd_submit env (ca_buf m) (ca_data m) n ctx (Some (ca_objs m)) (ca_fence m) dev"
| "issue env m bo Assign_uuid dev = map_option snd (virtio_gpu_cmd_resource_assign_uuid env (ca_buf m) (Some (ca_resp m)) (ca_objs m) dev)"
| "issue env m bo (Map_blob off) dev = map_option snd (virtio_gpu_cmd_map env (ca_buf m) (Some (ca_resp m)) (ca_objs m) off dev)"
| "issue env m bo Unmap_blob dev = virtio_gpu_cmd_unmap env (ca_buf m) bo dev"
| "issue env m bo (Create_blob pr n) dev = virtio_gpu_cmd_resource_create_blob env (ca_buf m) (ca_bo m) pr (ca_data m) n dev"
| "issue env m bo (Set_scanout_blob s fb rc) dev =
     virtio_gpu_cmd_set_scanout_blob env (ca_buf m) s bo fb (r_width rc) (r_height rc) (r_x rc) (r_y rc) dev"

text \<open>What each call asks of the host, \<open>r\<close> the resource of its object. A name is cut to 63 bytes.\<close>
fun request_of :: "u32 \<Rightarrow> gpu_call \<Rightarrow> gpu_request" where
  "request_of r (Create_2d pr) = R_create_2d r (pr_format pr) (pr_width pr) (pr_height pr)"
| "request_of r Unref = R_unref r"
| "request_of r (Set_scanout s r' rc) = R_set_scanout s r' rc"
| "request_of r (Flush r' rc) = R_flush r' rc"
| "request_of r (To_host_2d off rc) = R_to_host_2d r off rc"
| "request_of r (Attach_backing r' n) = R_attach_backing r' n"
| "request_of r Display_info = R_display_info"
| "request_of r (Capset_info i) = R_capset_info i"
| "request_of r (Ctx_create ctx ini n name) = R_ctx_create ctx n ini (take 63 name @ replicate (64 - min 63 (length name)) 0)"
| "request_of r (Ctx_destroy ctx) = R_ctx_destroy ctx"
| "request_of r (Ctx_attach ctx) = R_ctx_attach ctx r"
| "request_of r (Ctx_detach ctx) = R_ctx_detach ctx r"
| "request_of r (Create_3d pr) = R_create_3d r [pr_target pr, pr_format pr, pr_bind pr, pr_width pr, pr_height pr, pr_depth pr,
     pr_array_size pr, pr_last_level pr, pr_nr_samples pr, pr_flags pr]"
| "request_of r (To_host_3d ctx off l s ls box) = R_to_host_3d ctx r off [l, s, ls] box"
| "request_of r (From_host_3d ctx off l s ls box) = R_from_host_3d ctx r off [l, s, ls] box"
| "request_of r (Submit ctx n) = R_submit ctx n"
| "request_of r Assign_uuid = R_assign_uuid r"
| "request_of r (Map_blob off) = R_map_blob r off"
| "request_of r Unmap_blob = R_unmap_blob r"
| "request_of r (Create_blob pr n) = R_create_blob (pr_ctx_id pr) r (pr_blob_mem pr) (pr_blob_flags pr) n (pr_blob_id pr) (pr_size pr)"
| "request_of r (Set_scanout_blob s fb rc) = R_set_scanout_blob s r [fb_width fb, fb_height fb, fst (virtio_gpu_translate_format (fb_format fb))]
     (map (fb_pitches fb) [0..<4]) (map (fb_offsets fb) [0..<4]) rc"

lemma length_le64 [simp]: "length (le64 w) = 8"
  by (simp add: le64_def)

lemma fld32_le32 [simp]: "fld32 (le32 w @ bs) 0 = w" "fld32 (le32 w) 0 = w"
  by (simp_all add: fld32_def of_le32)

lemma of_le_append: "of_le (xs @ ys) = of_le xs OR push_bit (8 * length xs) (of_le ys)"
  by (induction xs) (simp_all add: push_bit_or or.assoc push_bit_push_bit)

lemma of_le_le32: "of_le (le32 w) = ucast w"
proof (rule bit_word_eqI)
  fix n assume "n < LENGTH(64)"
  then show "bit (of_le (le32 w)) n \<longleftrightarrow> bit (ucast w :: u64) n"
    using bit_imp_le_length [of w n] by (cases "n < 24"; cases "n < 16") (auto simp: le32_def bit_simps)
qed

lemma of_le64: "of_le (le64 w) = w"
  unfolding le64_def of_le_append of_le_le32
  by (rule bit_word_eqI) (auto simp: bit_simps)
lemma fld64_le64 [simp]: "fld64 (le64 w @ bs) 0 = w" "fld64 (le64 w) 0 = w"
  by (simp_all add: fld64_def of_le64)

lemma fld_skip [simp]:
  "length xs \<le> n \<Longrightarrow> fld32 (xs @ bs) n = fld32 bs (n - length xs)"
  "length xs \<le> n \<Longrightarrow> fld64 (xs @ bs) n = fld64 bs (n - length xs)"
  by (simp_all add: fld32_def fld64_def)

text \<open>A device on which the next command is queued at once.\<close>
definition sendable :: "'q vg_env \<Rightarrow> 'q virtio_gpu_device \<Rightarrow> bool" where
  "sendable env dev \<longleftrightarrow> vg_plugged dev \<and> vg_has_indirect dev \<and> 1 \<le> virtqueue_num_free (env_bsd env) (q_vq (vg_ctrlq dev)) \<and>
     (\<forall>vb. data_sgs env vb \<noteq> None)"

lemma sendable_simps [simp]:
  "sendable env (logged es dev) = sendable env dev"
  "sendable env (dev\<lparr>vg_vbufs := m\<rparr>) = sendable env dev"
  "sendable env (dev\<lparr>vg_cap_cache := cc\<rparr>) = sendable env dev"
  "sendable env (dev\<lparr>vg_display_info_pending := b\<rparr>) = sendable env dev"
  by (simp_all add: sendable_def)

text \<open>The device after a command was queued.\<close>
definition after_send :: "'q vg_env \<Rightarrow> ptr \<Rightarrow> virtio_gpu_fence option \<Rightarrow> 'q virtio_gpu_device \<Rightarrow> 'q virtio_gpu_device" where
  "after_send env p fence dev = snd (the (virtio_gpu_queue_fenced_ctrl_buffer env p fence dev))"

lemma send_queues:
  assumes "sendable env dev" and "vg_vbufs dev p = Some vb"
  shows "virtio_gpu_queue_fenced_ctrl_buffer env p fence dev = Some (Inr (), after_send env p fence dev)"
    and "vg_vbufs (after_send env p fence dev) = (vg_vbufs dev)(p \<mapsto> queued_as dev fence vb)"
    and "vg_objects (after_send env p fence dev) = vg_objects dev"
    and "vg_cap_cache (after_send env p fence dev) = vg_cap_cache dev"
proof -
  obtain vout ents where d: "data_sgs env vb = Some (vout, ents)" using assms(1) by (fastforce simp: sendable_def)
  have room: "ctrl_room env (if vg_has_indirect dev then 1 else of_nat n) dev = Some dev" for n
    using assms(1) by (simp add: sendable_def ctrl_room.simps [of env 1 dev] not_less [symmetric])
  have "vg_plugged dev" "vg_vbufs dev p \<noteq> None" using assms by (simp_all add: sendable_def)
  note q = queue_ctrl_sgs_result [OF this room assms(2)]
  have "\<exists>dev'. virtio_gpu_queue_fenced_ctrl_buffer env p fence dev = Some (Inr (), dev') \<and>
      vg_vbufs dev' = (vg_vbufs dev)(p \<mapsto> queued_as dev fence vb) \<and> vg_objects dev' = vg_objects dev \<and>
      vg_cap_cache dev' = vg_cap_cache dev"
    unfolding virtio_gpu_queue_fenced_ctrl_buffer_def Let_def assms(2) d option.case prod.case using q by blast
  then obtain dev' where "virtio_gpu_queue_fenced_ctrl_buffer env p fence dev = Some (Inr (), dev')"
      "vg_vbufs dev' = (vg_vbufs dev)(p \<mapsto> queued_as dev fence vb)" "vg_objects dev' = vg_objects dev"
      "vg_cap_cache dev' = vg_cap_cache dev" by blast
  then show "virtio_gpu_queue_fenced_ctrl_buffer env p fence dev = Some (Inr (), after_send env p fence dev)"
    "vg_vbufs (after_send env p fence dev) = (vg_vbufs dev)(p \<mapsto> queued_as dev fence vb)"
    "vg_objects (after_send env p fence dev) = vg_objects dev"
    "vg_cap_cache (after_send env p fence dev) = vg_cap_cache dev"
    by (simp_all add: after_send_def)
qed

text \<open>The three steps of a command: take a buffer, fill it, queue it.\<close>
lemma alloc_fresh:
  assumes "24 \<le> n" and "n \<le> 96" and "rs \<le> 24 \<or> rb \<noteq> None"
  shows "virtio_gpu_alloc_cmd_resp p cb n rs rb dev = Some (dev\<lparr>vg_vbufs := (vg_vbufs dev)(p \<mapsto> fresh_vbuf p n rs rb cb)\<rparr>)"
  using assms
  by (auto simp: Let_def virtio_gpu_alloc_cmd_resp_def virtio_gpu_get_vbuf_def MAX_INLINE_CMD_SIZE_def sizeof_ctrl_hdr_def sizeof_vbuffer_def
      MAX_INLINE_RESP_SIZE_def fresh_vbuf_def)

lemma update_vbuf_last: "update_vbuf p f (dev\<lparr>vg_vbufs := m(p \<mapsto> vb)\<rparr>) = Some (dev\<lparr>vg_vbufs := m(p \<mapsto> f vb)\<rparr>)"
  by (simp add: update_vbuf_def)

lemma queued_as_dev [simp]:
  "queued_as (dev\<lparr>vg_vbufs := m\<rparr>) fence vb = queued_as dev fence vb"
  "queued_as (dev\<lparr>vg_display_info_pending := b\<rparr>) fence vb = queued_as dev fence vb"
  "queued_as (logged es dev) fence vb = queued_as dev fence vb"
  by (cases fence; simp add: queued_as_def)+

lemma send_fresh:
  assumes "sendable env dev"
  shows "virtio_gpu_queue_fenced_ctrl_buffer env p fence (dev\<lparr>vg_vbufs := m(p \<mapsto> vb)\<rparr>) =
      Some (Inr (), after_send env p fence (dev\<lparr>vg_vbufs := m(p \<mapsto> vb)\<rparr>))"
    and "vg_vbufs (after_send env p fence (dev\<lparr>vg_vbufs := m(p \<mapsto> vb)\<rparr>)) = m(p \<mapsto> queued_as dev fence vb)"
    and "vg_objects (after_send env p fence (dev\<lparr>vg_vbufs := m(p \<mapsto> vb)\<rparr>)) = vg_objects dev"
    and "vg_cap_cache (after_send env p fence (dev\<lparr>vg_vbufs := m(p \<mapsto> vb)\<rparr>)) = vg_cap_cache dev"
  using send_queues [of env "dev\<lparr>vg_vbufs := m(p \<mapsto> vb)\<rparr>" p vb fence] assms by simp_all

text \<open>The buffer is in the device's table, holds the request and fits its memory.\<close>
definition carries :: "ptr \<Rightarrow> virtio_gpu_vbuffer \<Rightarrow> gpu_request \<Rightarrow> bool" where
  "carries p vb r \<longleftrightarrow> decode_request (cmd_bytes vb) = Some r \<and> length (cmd_bytes vb) = vb_size vb \<and>
     vb_buf vb = p + sizeof_vbuffer \<and> vb_buf vb + vb_size vb \<le> p + VBUFFER_SIZE \<and>
     (vb_resp_size vb \<le> MAX_INLINE_RESP_SIZE \<longrightarrow>
        vb_resp_buf vb = vb_buf vb + vb_size vb \<and> vb_resp_buf vb + nat (vb_resp_size vb) \<le> p + VBUFFER_SIZE)"

lemma length_hdr_bytes [simp]: "length (hdr_bytes h) = 24"
  by (simp add: hdr_bytes_def)

lemma hdr_fields [simp]: "fld32 (hdr_bytes h @ bs) 0 = hdr_type h" "fld32 (hdr_bytes h @ bs) 16 = hdr_ctx_id h"
  by (simp_all add: hdr_bytes_def)

lemma decode_cmd: "decode_request (cmd_bytes vb) = decode_body (hdr_type (vb_hdr vb)) (hdr_ctx_id (vb_hdr vb)) (vb_body vb)"
  by (simp add: decode_request_def cmd_bytes_def)

lemma queued_as_simps [simp]:
  "hdr_type (vb_hdr (queued_as dev fence vb)) = hdr_type (vb_hdr vb)" "hdr_ctx_id (vb_hdr (queued_as dev fence vb)) = hdr_ctx_id (vb_hdr vb)"
  "vb_body (queued_as dev fence vb) = vb_body vb" "vb_size (queued_as dev fence vb) = vb_size vb" "vb_buf (queued_as dev fence vb) = vb_buf vb"
  "vb_resp_size (queued_as dev fence vb) = vb_resp_size vb" "vb_resp_buf (queued_as dev fence vb) = vb_resp_buf vb"
  by (cases fence; simp add: queued_as_def fence_emit_simps)+

lemma carries_queued:
  "carries p (queued_as dev fence vb) r \<longleftrightarrow>
     decode_body (hdr_type (vb_hdr vb)) (hdr_ctx_id (vb_hdr vb)) (vb_body vb) = Some r \<and> 24 + length (vb_body vb) = vb_size vb \<and>
     vb_buf vb = p + 96 \<and> vb_buf vb + vb_size vb \<le> p + 216 \<and>
     (vb_resp_size vb \<le> 24 \<longrightarrow> vb_resp_buf vb = vb_buf vb + vb_size vb \<and> vb_resp_buf vb + nat (vb_resp_size vb) \<le> p + 216)"
  unfolding carries_def decode_cmd
  by (simp add: cmd_bytes_def sizeof_vbuffer_def VBUFFER_SIZE_def MAX_INLINE_CMD_SIZE_def MAX_INLINE_RESP_SIZE_def)

lemmas cmd_steps = virtio_gpu_alloc_cmd_def virtio_gpu_alloc_cmd_cb_def send_def send_fenced_def virtio_gpu_queue_ctrl_buffer_def
  sizeof_ctrl_hdr_def alloc_fresh update_vbuf_last fill_cmd_def fresh_vbuf_def rect_def rect_bytes_def sync_object_def

lemmas cmd_defs =
  virtio_gpu_cmd_create_resource_def virtio_gpu_cmd_unref_resource_def virtio_gpu_cmd_set_scanout_def virtio_gpu_cmd_resource_flush_def
  virtio_gpu_cmd_transfer_to_host_2d_def virtio_gpu_cmd_resource_attach_backing_def virtio_gpu_cmd_get_display_info_def
  virtio_gpu_cmd_get_capset_info_def virtio_gpu_cmd_context_create_def virtio_gpu_cmd_context_destroy_def
  virtio_gpu_cmd_context_attach_resource_def virtio_gpu_cmd_context_detach_resource_def virtio_gpu_cmd_resource_create_3d_def
  virtio_gpu_cmd_transfer_to_host_3d_def virtio_gpu_cmd_transfer_from_host_3d_def virtio_gpu_cmd_submit_def
  virtio_gpu_cmd_resource_assign_uuid_def virtio_gpu_cmd_map_def virtio_gpu_cmd_unmap_def virtio_gpu_cmd_resource_create_blob_def
  virtio_gpu_cmd_set_scanout_blob_def

lemma pending_first: "dev\<lparr>vg_vbufs := x, vg_display_info_pending := b\<rparr> = dev\<lparr>vg_display_info_pending := b, vg_vbufs := x\<rparr>"
  by simp

lemmas layout = carries_queued decode_body_def rd_rect_def rd_box_def convert_to_hw_box_def transfer_3d_body_def upt_rec [of _ "numeral k" for k]

lemma issue_carries:
  assumes "sendable env dev" and "vg_objects dev (ca_bo m) = Some bo" and "oa_objs (ca_objs m) = ca_bo m # obs" and "d = issue env m bo c dev"
  shows "d \<noteq> None \<and> vg_vbufs (the d) = (vg_vbufs dev)(ca_buf m \<mapsto> the (vg_vbufs (the d) (ca_buf m))) \<and>
    carries (ca_buf m) (the (vg_vbufs (the d) (ca_buf m))) (request_of (hw_res_handle bo) c)"
proof -
  have f: "first_object (ca_objs m) dev = Some (ca_bo m, bo)" using assms(2,3) by (simp add: first_object_def)
  show ?thesis
  proof (cases c)
    case Display_info
    then show ?thesis
      using assms f by (simp add: cmd_defs cmd_steps pending_first send_fresh layout)
  next
    case (Set_scanout_blob off fb rc)
    then show ?thesis
      using assms f by (simp add: cmd_defs cmd_steps send_fresh layout split_def Let_def)
  qed (use assms f in \<open>simp add: cmd_defs cmd_steps send_fresh layout update_object_def\<close>)+
qed


subsection \<open>The cache of capability sets\<close>

text \<open>No set is in the cache twice.\<close>
definition cache_wf :: "'q virtio_gpu_device \<Rightarrow> bool" where
  "cache_wf dev \<longleftrightarrow> distinct (map (\<lambda>c. (cc_id c, cc_version c)) (vg_cap_cache dev))"

text \<open>
  Asking for a capability set that is cached sends nothing: the entry found is handed out and what was allocated for
  a new one is freed. A set that is not cached is put at the end, not yet valid, and asked for; the cache
  never holds a set twice. When the host answers, exactly that entry takes the data
  behind the header, as much as it has room for, and becomes valid.
\<close>
theorem virtio_gpu_get_capset_cached:
  assumes "sendable env dev" and "cache_wf dev" and "vg_capsets dev = Some cs" and "unat idx < length cs" and "idx < vg_num_capsets dev"
    and "c = cs ! unat idx" and "version \<le> cs_max_version c"
    and "r = virtio_gpu_cmd_get_capset env p (Some e) (Some cp) (Some rb) idx version dev"
  shows "case List.find (\<lambda>s. cc_id s = cs_id c \<and> cc_version s = version) (vg_cap_cache dev) of
      Some s \<Rightarrow> r = Some (Inr (), Some (cc_ptr s), logged [Kfree rb, Kfree cp, Kfree e] dev)
    | None \<Rightarrow> \<exists>dev'. r = Some (Inr (), Some e, dev') \<and> cache_wf dev' \<and>
        (\<exists>new. vg_cap_cache dev' = vg_cap_cache dev @ [new] \<and> cc_ptr new = e \<and> cc_id new = cs_id c \<and> cc_version new = version \<and> \<not> cc_valid new \<and>
           (\<forall>resp. \<exists>dev''. virtio_gpu_cmd_capset_cb p resp dev' = Some dev'' \<and>
              vg_cap_cache dev'' = vg_cap_cache dev @ [new\<lparr>cc_data := take (unat (cs_max_size c)) (drop 24 resp), cc_valid := True\<rparr>]))"
proof (cases "List.find (\<lambda>s. cc_id s = cs_id c \<and> cc_version s = version) (vg_cap_cache dev)")
  case (Some s)
  then show ?thesis using assms by (simp add: virtio_gpu_cmd_get_capset_def not_le [symmetric])
next
  case None
  define new where "new = \<lparr>cc_ptr = e, cc_id = cs_id c, cc_version = version, cc_size = cs_max_size c, cc_data = [], cc_valid = False\<rparr>"
  define rs where "rs = sint (24 + cs_max_size c)"
  let ?dev = "dev\<lparr>vg_cap_cache := vg_cap_cache dev @ [new]\<rparr>"
  let ?vb = "fill_cmd CMD_GET_CAPSET 0 (le32 (cs_id c) @ le32 version) (fresh_vbuf p 32 rs (Some rb) (Some Capset_cb))"
  have absent: "\<forall>s \<in> set (vg_cap_cache dev). \<not> (cc_id s = cs_id c \<and> cc_version s = version)" using None by (simp add: find_None_iff)
  have s: "sendable env ?dev" using assms(1) by simp
  let ?dev' = "after_send env p None (?dev\<lparr>vg_vbufs := (vg_vbufs dev)(p \<mapsto> ?vb)\<rparr>)"
  have "virtio_gpu_cmd_get_capset env p (Some e) (Some cp) (Some rb) idx version dev = Some (Inr (), Some e, ?dev')"
    using assms(3-5,7) None alloc_fresh [of 32 rs "Some rb" p "Some Capset_cb" ?dev] send_fresh(1) [OF s, of p None "vg_vbufs dev" ?vb]
      update_vbuf_last [where dev = ?dev and m = "vg_vbufs dev" and p = p]
    by (simp add: virtio_gpu_cmd_get_capset_def not_le [symmetric] send_def virtio_gpu_queue_ctrl_buffer_def Let_def
        flip: assms(6) new_def rs_def)
  moreover have cache: "vg_cap_cache ?dev' = vg_cap_cache dev @ [new]" using send_fresh(4) [OF s, of p None "vg_vbufs dev" ?vb] by simp
  moreover have "cache_wf ?dev'" using assms(2) absent cache by (auto simp: cache_wf_def new_def)
  moreover have "virtio_gpu_cmd_capset_cb p resp ?dev' =
      Some (logged [Wake_resp] (?dev'\<lparr>vg_cap_cache := vg_cap_cache dev @ [new\<lparr>cc_data := take (unat (cs_max_size c)) (drop 24 resp), cc_valid := True\<rparr>]\<rparr>))" for resp
  proof -
    have "fill_cache version (cs_id c) d (xs @ [new]) = xs @ [new\<lparr>cc_data := take (unat (cs_max_size c)) d, cc_valid := True\<rparr>]"
      if "\<forall>s \<in> set xs. \<not> (cc_id s = cs_id c \<and> cc_version s = version)" for d xs
      using that by (induction xs) (auto simp: new_def)
    moreover have "vg_vbufs ?dev' p = Some (queued_as ?dev None ?vb)" using send_fresh(2) [OF s, of p None "vg_vbufs dev" ?vb] by simp
    ultimately show ?thesis
      using absent cache by (simp add: virtio_gpu_cmd_capset_cb_def fill_cmd_def)
  qed
  ultimately show ?thesis using None assms(8) by (auto simp: new_def)
qed

subsection \<open>Witnesses\<close>

lemma sim_sendable: "sendable sim_env sim_gpu"
  by (simp add: sendable_def sim_env_def sim_gpu_def virtqueue_num_free_def sim_bsd_def sim_vq_def make_vq_def Let_def data_sgs_def)


theorem virtio_gpu_get_capset_cached_witness:
  "\<exists>dev'. virtio_gpu_cmd_get_capset sim_env 600 (Some 700) (Some 800) (Some 900) 0 1 sim_gpu = Some (Inr (), Some 700, dev') \<and> cache_wf dev'"
  using virtio_gpu_get_capset_cached [OF sim_sendable _ _ _ _ refl _ refl, of "[\<lparr>cs_id = 4, cs_max_version = 1, cs_max_size = 160\<rparr>]" 0 1 600 700 800 900]
  by (auto simp: sim_gpu_def cache_wf_def)

subsection \<open>What is lost\<close>

text \<open>
  When the page list of a command's data cannot be made, the command's buffer stays allocated, though it is in no
  queue and its caller has dropped it: nobody will free it.
\<close>
lemma no_page_list_leaks:
  assumes "vg_vbufs dev p = Some vb" and "data_sgs env vb = None"
  shows "virtio_gpu_queue_fenced_ctrl_buffer env p None dev = Some (Inl ENOMEM, dev)"
  using assms by (simp add: virtio_gpu_queue_fenced_ctrl_buffer_def unlock_on_error_def Let_def)

text \<open>A host that announces an EDID longer than its buffer makes the driver read beyond it.\<close>
lemma edid_overread:
  assumes "fld32 resp 24 = 2048"
  shows "virtio_get_edid_block resp 8 128 = None"
  using assms by (simp add: virtio_get_edid_block_def EDID_LENGTH_def)

end
