(* ===== verification/Vc4_Bo.thy ===== *)
theory Vc4_Bo
  imports Kmod_Prelude "HOL-Library.Monad_Syntax"
begin

text \<open>
  The buffer objects of vc4 (\<^verbatim>\<open>drivers/gpu/drm/vc4/vc4_bo.c\<close>, with the madvise call of
  \<^verbatim>\<open>vc4_gem.c\<close> and the allocation of \<^verbatim>\<open>drm_gem_dma_helper.c\<close>): the statistics per label, the cache of freed
  objects by size and by age, the pool of purgeable objects, and the calls of user space. An operation returns None
  when it accesses an object that was freed or an array beyond its end. The linked lists are
  lists of addresses; \<open>size_head\<close> links an object into a list of the cache or into the pool, and
  unlinking it takes it out of whichever it is in. Locks are held over whole operations, but for the
  purge of user objects, which drops its lock: what other threads do meanwhile is an argument.
\<close>

subsection \<open>State\<close>

datatype vc4_madv = VC4_MADV_WILLNEED | VC4_MADV_DONTNEED | VC4_MADV_PURGED | VC4_MADV_NOTSUPP

text \<open>
  \<open>bo_label\<close> is None for -1, \<open>bo_vaddr\<close> that the memory is there, \<open>bo_mem\<close> what it holds; the shader is
  there or not, as are the import and the public name.
\<close>
record vc4_bo =
  bo_size :: u64
  bo_t_format :: bool
  bo_free_time :: u64
  bo_validated_shader :: bool
  bo_label :: "nat option"
  bo_usecnt :: u32
  bo_madv :: vc4_madv
  bo_vaddr :: bool
  bo_mem :: "nat \<Rightarrow> u8"
  bo_imported :: bool
  bo_named :: bool

record vc4_label =
  lb_name :: "string option"
  num_allocated :: u32
  size_allocated :: u32

text \<open>\<open>vc4_gen_4\<close> says that the generation is at most \<open>VC4_GEN_4\<close>.\<close>
record vc4_dev =
  vc4_gen_4 :: bool
  vc4_bos :: "ptr \<Rightarrow> vc4_bo option"
  size_list :: "ptr list list"
  time_list :: "ptr list"
  time_timer :: bool
  bo_labels :: "vc4_label list"
  purgeable_list :: "ptr list"
  purgeable_num :: u32
  purgeable_size :: u64
  purged_num :: u32
  purged_size :: u64

text \<open>The kinds of buffer objects, in the order of \<open>vc4_kernel_bo_type\<close>.\<close>
definition VC4_BO_TYPE_KERNEL :: nat where "VC4_BO_TYPE_KERNEL = 0"
definition VC4_BO_TYPE_V3D :: nat where "VC4_BO_TYPE_V3D = 1"
definition VC4_BO_TYPE_V3D_SHADER :: nat where "VC4_BO_TYPE_V3D_SHADER = 2"
definition VC4_BO_TYPE_DUMB :: nat where "VC4_BO_TYPE_DUMB = 3"
definition VC4_BO_TYPE_KERNEL_CACHE :: nat where "VC4_BO_TYPE_KERNEL_CACHE = 7"
definition VC4_BO_TYPE_COUNT :: nat where "VC4_BO_TYPE_COUNT = 8"

definition bo_type_names :: "string list" where
  "bo_type_names = [''kernel'', ''V3D'', ''V3D shader'', ''dumb'', ''binner'', ''RCL'', ''BCL'', ''kernel BO cache'']"

definition upd_bo :: "ptr \<Rightarrow> (vc4_bo \<Rightarrow> vc4_bo) \<Rightarrow> vc4_dev \<Rightarrow> vc4_dev option" where
  "upd_bo p f dev = map_option (\<lambda>bo. dev\<lparr>vc4_bos := (vc4_bos dev)(p \<mapsto> f bo)\<rparr>) (vc4_bos dev p)"

definition upd_label :: "nat \<Rightarrow> (vc4_label \<Rightarrow> vc4_label) \<Rightarrow> vc4_dev \<Rightarrow> vc4_dev option" where
  "upd_label l f dev =
     (if l < length (bo_labels dev) then Some (dev\<lparr>bo_labels := (bo_labels dev)[l := f (bo_labels dev ! l)]\<rparr>) else None)"

subsection \<open>Labels\<close>

definition is_user_label :: "nat \<Rightarrow> bool" where
  "is_user_label label \<longleftrightarrow> label \<ge> VC4_BO_TYPE_COUNT"

text \<open>The loop: the slot that has the name, or the last free one before the end.\<close>
fun find_label :: "vc4_label list \<Rightarrow> string \<Rightarrow> nat \<Rightarrow> nat option \<Rightarrow> nat option \<times> nat option" where
  "find_label [] name i free_slot = (None, free_slot)"
| "find_label (lb # lbs) name i free_slot =
     (case lb_name lb of
        None \<Rightarrow> find_label lbs name (Suc i) (Some i)
      | Some n \<Rightarrow> if n = name then (Some i, free_slot) else find_label lbs name (Suc i) free_slot)"

text \<open>\<open>alloc\<close> says whether \<open>krealloc\<close> succeeds; None is -1. A warning for a free slot in use changes nothing.\<close>
definition vc4_get_user_label :: "bool \<Rightarrow> string \<Rightarrow> vc4_dev \<Rightarrow> nat option \<times> vc4_dev" where
  "vc4_get_user_label alloc name dev =
     (case find_label (bo_labels dev) name 0 None of
        (Some i, _) \<Rightarrow> (Some i, dev)
      | (None, Some s) \<Rightarrow> (Some s, dev\<lparr>bo_labels := (bo_labels dev)[s := (bo_labels dev ! s)\<lparr>lb_name := Some name\<rparr>]\<rparr>)
      | (None, None) \<Rightarrow>
         if \<not> alloc then (None, dev)
         else (Some (length (bo_labels dev)),
               dev\<lparr>bo_labels := bo_labels dev @ [\<lparr>lb_name = Some name, num_allocated = 0, size_allocated = 0\<rparr>]\<rparr>))"

definition count_in :: "vc4_bo \<Rightarrow> vc4_label \<Rightarrow> vc4_label" where
  "count_in bo lb = lb\<lparr>num_allocated := num_allocated lb + 1, size_allocated := size_allocated lb + ucast (bo_size bo)\<rparr>"

definition count_out :: "nat \<Rightarrow> vc4_bo \<Rightarrow> vc4_label \<Rightarrow> vc4_label" where
  "count_out l bo lb =
     (let lb1 = lb\<lparr>num_allocated := num_allocated lb - 1, size_allocated := size_allocated lb - ucast (bo_size bo)\<rparr>
      in if num_allocated lb1 = 0 \<and> is_user_label l then lb1\<lparr>lb_name := None\<rparr> else lb1)"

definition vc4_bo_set_label :: "ptr \<Rightarrow> nat option \<Rightarrow> vc4_dev \<Rightarrow> vc4_dev option" where
  "vc4_bo_set_label p label dev = do {
     bo \<leftarrow> vc4_bos dev p;
     dev1 \<leftarrow> (case label of None \<Rightarrow> Some dev | Some l \<Rightarrow> upd_label l (count_in bo) dev);
     old \<leftarrow> bo_label bo;
     dev2 \<leftarrow> upd_label old (count_out old bo) dev1;
     upd_bo p (\<lambda>bo. bo\<lparr>bo_label := label\<rparr>) dev2
   }"

subsection \<open>The cache\<close>

definition bo_page_index :: "u64 \<Rightarrow> u32" where
  "bo_page_index sz = ucast (sz div 4096 - 1)"

text \<open>\<open>drm_gem_dma_free\<close> frees the memory and the object.\<close>
definition vc4_bo_destroy :: "ptr \<Rightarrow> vc4_dev \<Rightarrow> vc4_dev option" where
  "vc4_bo_destroy p dev = map_option (\<lambda>d. d\<lparr>vc4_bos := (vc4_bos d)(p := None)\<rparr>) (vc4_bo_set_label p None dev)"

definition del_size_head :: "ptr \<Rightarrow> vc4_dev \<Rightarrow> vc4_dev" where
  "del_size_head p dev = dev\<lparr>size_list := map (removeAll p) (size_list dev), purgeable_list := removeAll p (purgeable_list dev)\<rparr>"

definition vc4_bo_remove_from_cache :: "ptr \<Rightarrow> vc4_dev \<Rightarrow> vc4_dev" where
  "vc4_bo_remove_from_cache p dev = del_size_head p (dev\<lparr>time_list := removeAll p (time_list dev)\<rparr>)"

text \<open>The index of the list in the array, which grows if it has to; None for NULL.\<close>
definition vc4_get_cache_list_for_size :: "bool \<Rightarrow> u64 \<Rightarrow> vc4_dev \<Rightarrow> nat option \<times> vc4_dev" where
  "vc4_get_cache_list_for_size alloc sz dev =
     (let page_index = bo_page_index sz; n = length (size_list dev)
      in if n \<le> unat page_index
         then if \<not> alloc then (None, dev)
              else let new_size = max (of_nat n * 2) (page_index + 1)
                   in (Some (unat page_index), dev\<lparr>size_list := size_list dev @ replicate (unat new_size - n) []\<rparr>)
         else (Some (unat page_index), dev))"

partial_function (option) vc4_bo_cache_purge :: "vc4_dev \<Rightarrow> vc4_dev option" where
  "vc4_bo_cache_purge dev =
     (if time_list dev = [] then Some dev
      else let p = last (time_list dev)
           in case vc4_bo_destroy p (vc4_bo_remove_from_cache p dev) of
                None \<Rightarrow> None
              | Some dev1 \<Rightarrow> vc4_bo_cache_purge dev1)"

text \<open>\<open>time_before\<close>: the sign of the difference.\<close>
definition time_before :: "u64 \<Rightarrow> u64 \<Rightarrow> bool" where
  "time_before a b \<longleftrightarrow> sint (a - b) < 0"

text \<open>\<open>now\<close> is \<open>jiffies\<close>, \<open>second\<close> is \<open>msecs_to_jiffies(1000)\<close>.\<close>
partial_function (option) vc4_bo_cache_free_old :: "u64 \<Rightarrow> u64 \<Rightarrow> vc4_dev \<Rightarrow> vc4_dev option" where
  "vc4_bo_cache_free_old now second dev =
     (if time_list dev = [] then Some dev
      else let p = last (time_list dev)
           in case vc4_bos dev p of
                None \<Rightarrow> None
              | Some bo \<Rightarrow>
                 (if time_before (now - second) (bo_free_time bo) then Some (dev\<lparr>time_timer := True\<rparr>)
                  else case vc4_bo_destroy p (vc4_bo_remove_from_cache p dev) of
                         None \<Rightarrow> None
                       | Some dev1 \<Rightarrow> vc4_bo_cache_free_old now second dev1))"

text \<open>The size is passed as a 32-bit integer.\<close>
definition vc4_bo_get_from_cache :: "u32 \<Rightarrow> nat \<Rightarrow> vc4_dev \<Rightarrow> (ptr option \<times> vc4_dev) option" where
  "vc4_bo_get_from_cache sz type dev =
     (let page_index = unat (bo_page_index (ucast sz))
      in if page_index \<ge> length (size_list dev) then Some (None, dev)
         else case size_list dev ! page_index of
                [] \<Rightarrow> Some (None, dev)
              | p # _ \<Rightarrow> map_option (Pair (Some p)) (vc4_bo_set_label p (Some type) (vc4_bo_remove_from_cache p dev)))"

subsection \<open>The pool of purgeable objects\<close>

definition vc4_bo_add_to_purgeable_pool :: "ptr \<Rightarrow> vc4_dev \<Rightarrow> vc4_dev option" where
  "vc4_bo_add_to_purgeable_pool p dev =
     (if \<not> vc4_gen_4 dev then Some dev
      else map_option (\<lambda>bo. dev\<lparr>purgeable_list := purgeable_list dev @ [p], purgeable_num := purgeable_num dev + 1,
                               purgeable_size := purgeable_size dev + bo_size bo\<rparr>) (vc4_bos dev p))"

definition vc4_bo_remove_from_purgeable_pool_locked :: "ptr \<Rightarrow> vc4_dev \<Rightarrow> vc4_dev option" where
  "vc4_bo_remove_from_purgeable_pool_locked p dev =
     (if \<not> vc4_gen_4 dev then Some dev
      else map_option (\<lambda>bo. (del_size_head p dev)\<lparr>purgeable_num := purgeable_num dev - 1,
                               purgeable_size := purgeable_size dev - bo_size bo\<rparr>) (vc4_bos dev p))"

definition vc4_bo_remove_from_purgeable_pool :: "ptr \<Rightarrow> vc4_dev \<Rightarrow> vc4_dev option" where
  "vc4_bo_remove_from_purgeable_pool p dev = vc4_bo_remove_from_purgeable_pool_locked p dev"

text \<open>The memory is freed; the two warnings change nothing.\<close>
definition vc4_bo_purge :: "vc4_bo \<Rightarrow> vc4_bo" where
  "vc4_bo_purge bo = bo\<lparr>bo_vaddr := False, bo_madv := VC4_MADV_PURGED\<rparr>"

definition linked :: "ptr \<Rightarrow> vc4_dev \<Rightarrow> bool" where
  "linked p dev \<longleftrightarrow> p \<in> set (concat (size_list dev)) \<or> p \<in> set (purgeable_list dev)"

text \<open>The body of the loop after the lock was taken again, on object \<open>p\<close>.\<close>
definition purge_one :: "ptr \<Rightarrow> vc4_dev \<Rightarrow> vc4_dev option" where
  "purge_one p dev = do {
     bo \<leftarrow> vc4_bos dev p;
     if bo_madv bo = VC4_MADV_DONTNEED \<and> \<not> linked p dev \<and> bo_usecnt bo = 0
     then let dev1 = dev\<lparr>vc4_bos := (vc4_bos dev)(p \<mapsto> vc4_bo_purge bo)\<rparr>
          in Some (if bo_size bo \<noteq> 0 then dev1\<lparr>purged_size := purged_size dev1 + bo_size bo, purged_num := purged_num dev1 + 1\<rparr> else dev1)
     else Some dev
   }"

text \<open>\<open>others p\<close> is what other threads do while the loop waits for the lock of object \<open>p\<close>.\<close>
partial_function (option) vc4_bo_userspace_cache_purge :: "(ptr \<Rightarrow> vc4_dev \<Rightarrow> vc4_dev) \<Rightarrow> vc4_dev \<Rightarrow> vc4_dev option" where
  "vc4_bo_userspace_cache_purge others dev =
     (if purgeable_list dev = [] then Some dev
      else let p = hd (purgeable_list dev)
           in case vc4_bo_remove_from_purgeable_pool_locked p dev of
                None \<Rightarrow> None
              | Some dev1 \<Rightarrow>
                 (case purge_one p (others p dev1) of None \<Rightarrow> None | Some dev2 \<Rightarrow> vc4_bo_userspace_cache_purge others dev2))"

subsection \<open>Freeing an object\<close>

text \<open>\<open>alloc\<close> says whether the array of lists can grow.\<close>
definition cache_object :: "bool \<Rightarrow> u64 \<Rightarrow> u64 \<Rightarrow> ptr \<Rightarrow> vc4_bo \<Rightarrow> vc4_dev \<Rightarrow> vc4_dev option" where
  "cache_object alloc now second p bo dev =
     (case vc4_get_cache_list_for_size alloc (bo_size bo) dev of
        (None, dev1) \<Rightarrow> vc4_bo_destroy p dev1
      | (Some i, dev1) \<Rightarrow>
         if i \<ge> length (size_list dev1) then None
         else do {
           dev2 \<leftarrow> upd_bo p (\<lambda>bo. bo\<lparr>bo_validated_shader := False, bo_madv := VC4_MADV_NOTSUPP, bo_usecnt := 0,
                     bo_t_format := False, bo_free_time := now\<rparr>) dev1;
           let dev3 = dev2\<lparr>size_list := (size_list dev2)[i := p # size_list dev2 ! i], time_list := p # time_list dev2\<rparr>;
           dev4 \<leftarrow> vc4_bo_set_label p (Some VC4_BO_TYPE_KERNEL_CACHE) dev3;
           vc4_bo_cache_free_old now second dev4
         })"

definition vc4_free_object :: "bool \<Rightarrow> u64 \<Rightarrow> u64 \<Rightarrow> ptr \<Rightarrow> vc4_dev \<Rightarrow> vc4_dev option" where
  "vc4_free_object alloc now second p dev = do {
     bo \<leftarrow> vc4_bos dev p;
     dev1 \<leftarrow> (if bo_madv bo = VC4_MADV_DONTNEED \<and> bo_usecnt bo = 0 then vc4_bo_remove_from_purgeable_pool p dev else Some dev);
     if bo_imported bo \<or> bo_named bo \<or> \<not> bo_vaddr bo then vc4_bo_destroy p dev1
     else cache_object alloc now second p bo dev1
   }"

text \<open>The timer's work.\<close>
definition vc4_bo_cache_time_work :: "u64 \<Rightarrow> u64 \<Rightarrow> vc4_dev \<Rightarrow> vc4_dev option" where
  "vc4_bo_cache_time_work now second dev = vc4_bo_cache_free_old now second dev"

subsection \<open>Creating an object\<close>

text \<open>\<open>kz\<close> is what \<open>kzalloc\<close> gave, zeroed.\<close>
definition vc4_create_object :: "ptr option \<Rightarrow> u64 \<Rightarrow> vc4_dev \<Rightarrow> (ptr result \<times> vc4_dev) option" where
  "vc4_create_object kz sz dev =
     (if \<not> vc4_gen_4 dev then Some (Inl ENODEV, dev)
      else case kz of
             None \<Rightarrow> Some (Inl ENOMEM, dev)
           | Some p \<Rightarrow>
              (let bo = \<lparr>bo_size = sz, bo_t_format = False, bo_free_time = 0, bo_validated_shader = False, bo_label = Some VC4_BO_TYPE_KERNEL,
                    bo_usecnt = 0, bo_madv = VC4_MADV_WILLNEED, bo_vaddr = False, bo_mem = (\<lambda>_. 0), bo_imported = False, bo_named = False\<rparr>
               in map_option (\<lambda>d. (Inr p, d)) (upd_label VC4_BO_TYPE_KERNEL (count_in bo) (dev\<lparr>vc4_bos := (vc4_bos dev)(p \<mapsto> bo)\<rparr>))))"

text \<open>
  How an allocation goes: no object, an object that the GEM core cannot initialise (with its error), no
  memory behind it, or memory with some content.
\<close>
datatype dma_outcome = No_object | Init_failed ptr errno | No_memory ptr | Got_memory ptr "nat \<Rightarrow> u8"

definition round_page :: "u64 \<Rightarrow> u64" where
  "round_page sz = (sz + 4095) AND NOT 4095"

text \<open>On failure the object is freed, or its only reference dropped.\<close>
definition drm_gem_dma_create :: "bool \<Rightarrow> u64 \<Rightarrow> u64 \<Rightarrow> dma_outcome \<Rightarrow> u64 \<Rightarrow> vc4_dev \<Rightarrow> (ptr result \<times> vc4_dev) option" where
  "drm_gem_dma_create alloc now second oc sz0 dev =
     (let sz = round_page sz0
      in case oc of
           No_object \<Rightarrow> vc4_create_object None sz dev
         | Init_failed p e \<Rightarrow>
            map_option (\<lambda>(r, d). case r of Inl e' \<Rightarrow> (Inl e', d) | Inr _ \<Rightarrow> (Inl e, d\<lparr>vc4_bos := (vc4_bos d)(p := None)\<rparr>))
              (vc4_create_object (Some p) sz dev)
         | No_memory p \<Rightarrow> do {
             (r, d) \<leftarrow> vc4_create_object (Some p) sz dev;
             case r of Inl e \<Rightarrow> Some (Inl e, d) | Inr _ \<Rightarrow> map_option (Pair (Inl ENOMEM)) (vc4_free_object alloc now second p d)
           }
         | Got_memory p content \<Rightarrow> do {
             (r, d) \<leftarrow> vc4_create_object (Some p) sz dev;
             case r of Inl e \<Rightarrow> Some (Inl e, d)
             | Inr _ \<Rightarrow> map_option (Pair (Inr p)) (upd_bo p (\<lambda>bo. bo\<lparr>bo_vaddr := True, bo_mem := content\<rparr>) d)
           })"

text \<open>\<open>memset\<close> over the whole object.\<close>
definition zeroed :: "vc4_bo \<Rightarrow> vc4_bo" where
  "zeroed bo = bo\<lparr>bo_mem := (\<lambda>i. if i < unat (bo_size bo) then 0 else bo_mem bo i)\<rparr>"

text \<open>
  The attempts to allocate: at once, after the cache was emptied, and after the objects user space does not need were purged.
  \<open>oc1\<close>, \<open>oc2\<close> and \<open>oc3\<close> are their outcomes.
\<close>
definition alloc_attempts ::
    "bool \<Rightarrow> u64 \<Rightarrow> u64 \<Rightarrow> (ptr \<Rightarrow> vc4_dev \<Rightarrow> vc4_dev) \<Rightarrow> dma_outcome \<times> dma_outcome \<times> dma_outcome \<Rightarrow> u64 \<Rightarrow> vc4_dev \<Rightarrow>
     (ptr result \<times> vc4_dev) option" where
  "alloc_attempts alloc now second others ocs sz dev =
     (let (oc1, oc2, oc3) = ocs
      in do {
        (r1, dev1) \<leftarrow> drm_gem_dma_create alloc now second oc1 sz dev;
        (r2, dev2) \<leftarrow> (case r1 of Inr p \<Rightarrow> Some (Inr p, dev1)
                       | Inl _ \<Rightarrow> vc4_bo_cache_purge dev1 \<bind> drm_gem_dma_create alloc now second oc2 sz);
        (case r2 of Inr p \<Rightarrow> Some (Inr p, dev2)
         | Inl _ \<Rightarrow> vc4_bo_userspace_cache_purge others dev2 \<bind> drm_gem_dma_create alloc now second oc3 sz)
      })"

definition vc4_bo_create ::
    "bool \<Rightarrow> u64 \<Rightarrow> u64 \<Rightarrow> (ptr \<Rightarrow> vc4_dev \<Rightarrow> vc4_dev) \<Rightarrow> dma_outcome \<times> dma_outcome \<times> dma_outcome \<Rightarrow> u64 \<Rightarrow> bool \<Rightarrow> nat \<Rightarrow>
     vc4_dev \<Rightarrow> (ptr result \<times> vc4_dev) option" where
  "vc4_bo_create alloc now second others ocs unaligned_size allow_unzeroed type dev =
     (let sz = round_page unaligned_size
      in if \<not> vc4_gen_4 dev then Some (Inl ENODEV, dev)
         else if sz = 0 then Some (Inl EINVAL, dev)
         else do {
           (cached, dev1) \<leftarrow> vc4_bo_get_from_cache (ucast sz) type dev;
           case cached of
             Some p \<Rightarrow> map_option (Pair (Inr p)) (if allow_unzeroed then Some dev1 else upd_bo p zeroed dev1)
           | None \<Rightarrow> do {
               (r, dev2) \<leftarrow> alloc_attempts alloc now second others ocs sz dev1;
               (case r of
                  Inl _ \<Rightarrow> Some (Inl ENOMEM, dev2)
                | Inr p \<Rightarrow> do {
                    dev3 \<leftarrow> upd_bo p (\<lambda>bo. bo\<lparr>bo_madv := VC4_MADV_NOTSUPP\<rparr>) dev2;
                    map_option (Pair (Inr p)) (vc4_bo_set_label p (Some type) dev3)
                  })
             }
         })"

subsection \<open>Users of an object\<close>

definition vc4_bo_inc_usecnt :: "ptr \<Rightarrow> vc4_dev \<Rightarrow> (unit result \<times> vc4_dev) option" where
  "vc4_bo_inc_usecnt p dev =
     (if \<not> vc4_gen_4 dev then Some (Inl ENODEV, dev)
      else do {
        bo \<leftarrow> vc4_bos dev p;
        if bo_usecnt bo \<noteq> 0 then map_option (Pair (Inr ())) (upd_bo p (\<lambda>bo. bo\<lparr>bo_usecnt := bo_usecnt bo + 1\<rparr>) dev)
        else case bo_madv bo of
          VC4_MADV_WILLNEED \<Rightarrow> map_option (Pair (Inr ())) (upd_bo p (\<lambda>bo. bo\<lparr>bo_usecnt := 1\<rparr>) dev)
        | _ \<Rightarrow> Some (Inl EINVAL, dev)
      })"

definition vc4_bo_dec_usecnt :: "ptr \<Rightarrow> vc4_dev \<Rightarrow> vc4_dev option" where
  "vc4_bo_dec_usecnt p dev =
     (if \<not> vc4_gen_4 dev then Some dev
      else do {
        bo \<leftarrow> vc4_bos dev p;
        dev1 \<leftarrow> upd_bo p (\<lambda>bo. bo\<lparr>bo_usecnt := bo_usecnt bo - 1\<rparr>) dev;
        if bo_usecnt bo \<noteq> 1 then Some dev1
        else if bo_madv bo = VC4_MADV_DONTNEED then vc4_bo_add_to_purgeable_pool p dev1
        else Some dev1
      })"

text \<open>\<open>export_buf\<close> is the result of \<open>drm_gem_prime_export\<close>.\<close>
definition vc4_prime_export :: "'b result \<Rightarrow> ptr \<Rightarrow> vc4_dev \<Rightarrow> ('b result \<times> vc4_dev) option" where
  "vc4_prime_export export_buf p dev = do {
     bo \<leftarrow> vc4_bos dev p;
     if bo_validated_shader bo then Some (Inl EINVAL, dev)
     else do {
       (r, dev1) \<leftarrow> vc4_bo_inc_usecnt p dev;
       (case r of
          Inl e \<Rightarrow> Some (Inl e, dev1)
        | Inr _ \<Rightarrow> (case export_buf of Inl e \<Rightarrow> map_option (Pair (Inl e)) (vc4_bo_dec_usecnt p dev1) | Inr b \<Rightarrow> Some (Inr b, dev1)))
     }
   }"

text \<open>A mapping asks to write, and may be made writable later; \<open>mmap_result\<close> is that of \<open>drm_gem_dma_mmap\<close>.\<close>
record vm_area =
  vm_write :: bool
  vm_maywrite :: bool

definition vc4_gem_object_mmap :: "unit result \<Rightarrow> vc4_bo \<Rightarrow> vm_area \<Rightarrow> unit result \<times> vm_area" where
  "vc4_gem_object_mmap mmap_result bo vma =
     (if bo_validated_shader bo \<and> vm_write vma then (Inl EINVAL, vma)
      else let vma1 = (if bo_validated_shader bo then vma\<lparr>vm_maywrite := False\<rparr> else vma)
           in if bo_madv bo \<noteq> VC4_MADV_WILLNEED then (Inl EINVAL, vma1) else (mmap_result, vma1))"

subsection \<open>Calls of user space\<close>

text \<open>
  The handle of a new object: \<open>handle\<close> is the result of \<open>drm_gem_handle_create\<close>, which takes a
  reference; the caller's is dropped, which frees the object when there is no other.
\<close>
definition give_handle :: "bool \<Rightarrow> u64 \<Rightarrow> u64 \<Rightarrow> u32 result \<Rightarrow> ptr \<Rightarrow> vc4_dev \<Rightarrow> (u32 result \<times> vc4_dev) option" where
  "give_handle alloc now second handle p dev =
     (case handle of Inl e \<Rightarrow> map_option (Pair (Inl e)) (vc4_free_object alloc now second p dev) | Inr h \<Rightarrow> Some (Inr h, dev))"

record drm_mode_create_dumb =
  cd_height :: u32
  cd_width :: u32
  cd_bpp :: u32
  cd_pitch :: u32
  cd_size :: u64

text \<open>The products are 32-bit; the minimum is an \<open>int\<close>, compared as unsigned.\<close>
definition vc4_dumb_fixup_args :: "drm_mode_create_dumb \<Rightarrow> drm_mode_create_dumb" where
  "vc4_dumb_fixup_args args =
     (let min_pitch = (cd_width args * cd_bpp args + 7) div 8;
          args1 = (if cd_pitch args < min_pitch then args\<lparr>cd_pitch := min_pitch\<rparr> else args);
          need = ucast (cd_pitch args1 * cd_height args1)
      in if cd_size args1 < need then args1\<lparr>cd_size := need\<rparr> else args1)"

text \<open>The surroundings of a call that creates an object.\<close>
record bo_world =
  w_alloc :: bool
  w_now :: u64
  w_second :: u64
  w_others :: "ptr \<Rightarrow> vc4_dev \<Rightarrow> vc4_dev"
  w_outcomes :: "dma_outcome \<times> dma_outcome \<times> dma_outcome"
  w_handle :: "u32 result"

definition create_for_user :: "bo_world \<Rightarrow> u64 \<Rightarrow> nat \<Rightarrow> vc4_dev \<Rightarrow> (u32 result \<times> vc4_dev) option" where
  "create_for_user w sz type dev = do {
     (r, dev1) \<leftarrow> vc4_bo_create (w_alloc w) (w_now w) (w_second w) (w_others w) (w_outcomes w) sz False type dev;
     case r of
       Inl e \<Rightarrow> Some (Inl e, dev1)
     | Inr p \<Rightarrow> do {
         dev2 \<leftarrow> upd_bo p (\<lambda>bo. bo\<lparr>bo_madv := VC4_MADV_WILLNEED\<rparr>) dev1;
         give_handle (w_alloc w) (w_now w) (w_second w) (w_handle w) p dev2
       }
   }"

definition vc4_bo_dumb_create :: "bo_world \<Rightarrow> drm_mode_create_dumb \<Rightarrow> vc4_dev \<Rightarrow> (u32 result \<times> vc4_dev) option" where
  "vc4_bo_dumb_create w args dev =
     (if \<not> vc4_gen_4 dev then Some (Inl ENODEV, dev)
      else create_for_user w (cd_size (vc4_dumb_fixup_args args)) VC4_BO_TYPE_DUMB dev)"

text \<open>\<open>bin_bo\<close> is the result of \<open>vc4_v3d_bin_bo_get\<close>, \<open>v3d\<close> that the 3D block is there.\<close>
definition vc4_grab_bin_bo :: "bool \<Rightarrow> bool \<Rightarrow> unit result \<Rightarrow> unit result" where
  "vc4_grab_bin_bo v3d bin_bo_used bin_bo = (if \<not> v3d then Inl ENODEV else if bin_bo_used then Inr () else bin_bo)"

definition vc4_create_bo_ioctl :: "bo_world \<Rightarrow> unit result \<Rightarrow> u32 \<Rightarrow> vc4_dev \<Rightarrow> (u32 result \<times> vc4_dev) option" where
  "vc4_create_bo_ioctl w grab sz dev =
     (if \<not> vc4_gen_4 dev then Some (Inl ENODEV, dev)
      else case grab of Inl e \<Rightarrow> Some (Inl e, dev) | Inr _ \<Rightarrow> create_for_user w (ucast sz) VC4_BO_TYPE_V3D dev)"

record drm_vc4_create_shader_bo =
  sh_size :: u32
  sh_flags :: u32
  sh_pad :: u32

text \<open>
  \<open>user\<close> are the bytes \<open>copy_from_user\<close> reads, None when it fails; \<open>validate\<close> is the verdict of
  \<open>vc4_validate_shader\<close> on the object. A failure is \<open>-EFAULT\<close>.
\<close>
definition vc4_create_shader_bo_ioctl ::
    "bo_world \<Rightarrow> unit result \<Rightarrow> (nat \<Rightarrow> u8) option \<Rightarrow> (vc4_bo \<Rightarrow> bool) \<Rightarrow> drm_vc4_create_shader_bo \<Rightarrow> vc4_dev \<Rightarrow>
     (u32 result \<times> vc4_dev) option" where
  "vc4_create_shader_bo_ioctl w grab user validate args dev =
     (if \<not> vc4_gen_4 dev then Some (Inl ENODEV, dev)
      else if sh_size args = 0 \<or> sh_size args mod 8 \<noteq> 0 \<or> sh_flags args \<noteq> 0 \<or> sh_pad args \<noteq> 0 then Some (Inl EINVAL, dev)
      else case grab of
        Inl e \<Rightarrow> Some (Inl e, dev)
      | Inr _ \<Rightarrow> do {
          (r, dev1) \<leftarrow> vc4_bo_create (w_alloc w) (w_now w) (w_second w) (w_others w) (w_outcomes w) (ucast (sh_size args)) True
                         VC4_BO_TYPE_V3D_SHADER dev;
          (case r of
             Inl e \<Rightarrow> Some (Inl e, dev1)
           | Inr p \<Rightarrow> do {
               dev2 \<leftarrow> upd_bo p (\<lambda>bo. bo\<lparr>bo_madv := VC4_MADV_WILLNEED\<rparr>) dev1;
               (case user of
                  None \<Rightarrow> give_handle (w_alloc w) (w_now w) (w_second w) (Inl (Errno 14)) p dev2
                | Some content \<Rightarrow> do {
                    dev3 \<leftarrow> upd_bo p (\<lambda>bo. bo\<lparr>bo_mem := (\<lambda>i. if i < unat (sh_size args) then content i
                                                            else if i < unat (bo_size bo) then 0 else bo_mem bo i)\<rparr>) dev2;
                    bo \<leftarrow> vc4_bos dev3 p;
                    if \<not> validate bo then give_handle (w_alloc w) (w_now w) (w_second w) (Inl EINVAL) p dev3
                    else do {
                      dev4 \<leftarrow> upd_bo p (\<lambda>bo. bo\<lparr>bo_validated_shader := True\<rparr>) dev3;
                      give_handle (w_alloc w) (w_now w) (w_second w) (w_handle w) p dev4
                    }
                  })
             })
        })"

datatype tiling_modifier = DRM_FORMAT_MOD_NONE | DRM_FORMAT_MOD_BROADCOM_VC4_T_TILED | Other_modifier

text \<open>\<open>lookup\<close> is \<open>drm_gem_object_lookup\<close>; the reference it takes is dropped at the end and is never the last.\<close>
definition vc4_set_tiling_ioctl ::
    "(u32 \<Rightarrow> ptr option) \<Rightarrow> u32 \<Rightarrow> u32 \<Rightarrow> tiling_modifier \<Rightarrow> vc4_dev \<Rightarrow> (unit result \<times> vc4_dev) option" where
  "vc4_set_tiling_ioctl lookup handle flags modifier dev =
     (if \<not> vc4_gen_4 dev then Some (Inl ENODEV, dev)
      else if flags \<noteq> 0 \<or> modifier = Other_modifier then Some (Inl EINVAL, dev)
      else case lookup handle of
             None \<Rightarrow> Some (Inl ENOENT, dev)
           | Some p \<Rightarrow> map_option (Pair (Inr ())) (upd_bo p (\<lambda>bo. bo\<lparr>bo_t_format := (modifier = DRM_FORMAT_MOD_BROADCOM_VC4_T_TILED)\<rparr>) dev))"

definition vc4_get_tiling_ioctl :: "(u32 \<Rightarrow> ptr option) \<Rightarrow> u32 \<Rightarrow> u32 \<Rightarrow> u64 \<Rightarrow> vc4_dev \<Rightarrow> tiling_modifier result option" where
  "vc4_get_tiling_ioctl lookup handle flags modifier dev =
     (if \<not> vc4_gen_4 dev then Some (Inl ENODEV)
      else if flags \<noteq> 0 \<or> modifier \<noteq> 0 then Some (Inl EINVAL)
      else case lookup handle of
             None \<Rightarrow> Some (Inl ENOENT)
           | Some p \<Rightarrow> map_option (\<lambda>bo. Inr (if bo_t_format bo then DRM_FORMAT_MOD_BROADCOM_VC4_T_TILED else DRM_FORMAT_MOD_NONE)) (vc4_bos dev p))"

text \<open>\<open>name\<close> is the result of \<open>strndup_user\<close>, \<open>alloc\<close> whether the array of labels can grow.\<close>
definition vc4_label_bo_ioctl ::
    "(u32 \<Rightarrow> ptr option) \<Rightarrow> bool \<Rightarrow> u32 \<Rightarrow> u32 \<Rightarrow> string result \<Rightarrow> vc4_dev \<Rightarrow> (unit result \<times> vc4_dev) option" where
  "vc4_label_bo_ioctl lookup alloc handle len name dev =
     (if \<not> vc4_gen_4 dev then Some (Inl ENODEV, dev)
      else if len = 0 then Some (Inl EINVAL, dev)
      else case name of
        Inl e \<Rightarrow> Some (Inl e, dev)
      | Inr n \<Rightarrow>
         (case lookup handle of
            None \<Rightarrow> Some (Inl ENOENT, dev)
          | Some p \<Rightarrow>
             (case vc4_get_user_label alloc n dev of
                (None, dev1) \<Rightarrow> Some (Inl ENOMEM, dev1)
              | (Some l, dev1) \<Rightarrow> map_option (Pair (Inr ())) (vc4_bo_set_label p (Some l) dev1))))"

text \<open>The result says whether the content was retained.\<close>
definition vc4_gem_madvise_ioctl ::
    "(u32 \<Rightarrow> ptr option) \<Rightarrow> u32 \<Rightarrow> vc4_madv \<Rightarrow> u32 \<Rightarrow> vc4_dev \<Rightarrow> (bool result \<times> vc4_dev) option" where
  "vc4_gem_madvise_ioctl lookup handle madv pad dev =
     (if \<not> vc4_gen_4 dev then Some (Inl ENODEV, dev)
      else if madv \<noteq> VC4_MADV_DONTNEED \<and> madv \<noteq> VC4_MADV_WILLNEED then Some (Inl EINVAL, dev)
      else if pad \<noteq> 0 then Some (Inl EINVAL, dev)
      else case lookup handle of
        None \<Rightarrow> Some (Inl ENOENT, dev)
      | Some p \<Rightarrow> do {
          bo \<leftarrow> vc4_bos dev p;
          if bo_madv bo = VC4_MADV_NOTSUPP \<or> bo_imported bo then Some (Inl EINVAL, dev)
          else do {
            dev1 \<leftarrow> (if madv = VC4_MADV_DONTNEED \<and> bo_madv bo = VC4_MADV_WILLNEED \<and> bo_usecnt bo = 0
                     then vc4_bo_add_to_purgeable_pool p dev
                     else if madv = VC4_MADV_WILLNEED \<and> bo_madv bo = VC4_MADV_DONTNEED \<and> bo_usecnt bo = 0
                     then vc4_bo_remove_from_purgeable_pool p dev
                     else Some dev);
            dev2 \<leftarrow> (if bo_madv bo \<noteq> VC4_MADV_PURGED then upd_bo p (\<lambda>bo. bo\<lparr>bo_madv := madv\<rparr>) dev1 else Some dev1);
            Some (Inr (bo_madv bo \<noteq> VC4_MADV_PURGED), dev2)
          }
        })"

subsection \<open>Set-up and tear-down\<close>

text \<open>\<open>labels_mem\<close> and \<open>lock\<close> are the results of the allocation and of \<open>drmm_mutex_init\<close>; the action registered last is \<open>vc4_bo_cache_destroy\<close>.\<close>
definition vc4_bo_cache_init :: "bool \<Rightarrow> unit result \<Rightarrow> vc4_dev \<Rightarrow> unit result \<times> vc4_dev" where
  "vc4_bo_cache_init labels_mem lock dev =
     (if \<not> vc4_gen_4 dev then (Inl ENODEV, dev)
      else if \<not> labels_mem then (Inl ENOMEM, dev)
      else case lock of
             Inl e \<Rightarrow> (Inl e, dev)
           | Inr _ \<Rightarrow> (Inr (), dev\<lparr>bo_labels := map (\<lambda>n. \<lparr>lb_name = Some n, num_allocated = 0, size_allocated = 0\<rparr>) bo_type_names, time_list := []\<rparr>))"

text \<open>The labels that still count objects are reported.\<close>
definition vc4_bo_cache_destroy :: "vc4_dev \<Rightarrow> (nat list \<times> vc4_dev) option" where
  "vc4_bo_cache_destroy dev =
     map_option (\<lambda>d. (filter (\<lambda>i. num_allocated (bo_labels d ! i) \<noteq> 0) [0..<length (bo_labels d)], d\<lparr>bo_labels := []\<rparr>))
       (vc4_bo_cache_purge (dev\<lparr>time_timer := False\<rparr>))"

end
