(* ===== verification/Vc4_Gem.thy ===== *)
theory Vc4_Gem
  imports Vc4_Bo "HOL-Library.Multiset"
begin

text \<open>
  The job queue of vc4 (\<^verbatim>\<open>drivers/gpu/drm/vc4/vc4_gem.c\<close>, \<^verbatim>\<open>vc4_fence.c\<close>): jobs wait for the binner, then for the
  renderer, and are freed when they are done; sequence numbers, callbacks and waits; the lists of buffer objects a job holds;
  the copy of its command lists; the state saved of a hung GPU. The buffer objects are those of \<open>Vc4_Bo\<close>, with the references
  of the GEM core. What the validators, the render list, the performance monitors, the power management and the binner
  memory do, which are other files, is in arguments; the calls to them that give something back are in a log.
\<close>

subsection \<open>State\<close>

text \<open>A job. \<open>ex_bo\<close> is None for a NULL array; the pointers into the copy of the command lists are offsets.\<close>
record vc4_exec_info =
  ex_seqno :: u64
  ex_bin_dep_seqno :: u64
  ex_fence :: "u64 option"
  last_ct0ca :: u32
  last_ct1ca :: u32
  ex_bo :: "ptr list option"
  rcl_write_bo :: "ptr list"
  unref_list :: "ptr list"
  exec_bo :: "ptr option"
  shader_rec_u :: u32
  uniforms_u :: u32
  shader_state :: u32
  shader_state_size :: u32
  shader_rec_p :: u32
  shader_rec_size :: u32
  uniforms_p :: u32
  uniforms_size :: u32
  found_tile_binning :: bool
  bin_slots :: u32
  ct0ca :: u32
  ct0ea :: u32
  ct1ca :: u32
  ct1ea :: u32
  ex_perfmon :: "ptr option"
  bin_bo_used :: bool

definition exec_zero :: vc4_exec_info where
  "exec_zero = \<lparr>ex_seqno = 0, ex_bin_dep_seqno = 0, ex_fence = None, last_ct0ca = 0, last_ct1ca = 0, ex_bo = None, rcl_write_bo = [],
     unref_list = [], exec_bo = None, shader_rec_u = 0, uniforms_u = 0, shader_state = 0, shader_state_size = 0,
     shader_rec_p = 0, shader_rec_size = 0, uniforms_p = 0, uniforms_size = 0, found_tile_binning = False, bin_slots = 0, ct0ca = 0, ct0ea = 0, ct1ca = 0, ct1ea = 0,
     ex_perfmon = None, bin_bo_used = False\<rparr>"

datatype v3d_reg = V3D_L2CACTL | V3D_SLCACTL | V3D_CTNCA nat | V3D_CTNEA nat

text \<open>What the driver tells the hardware and the rest of the kernel, in order.\<close>
datatype gem_event =
    V3D_WRITE v3d_reg u32
  | Perfmon_start ptr
  | Perfmon_put "ptr option"
  | Queue_hangcheck
  | Schedule_reset
  | Schedule_cb nat
  | Fence_signal u64
  | Fence_put u64
  | Resv_fence ptr u64 bool
  | Pm_get
  | Pm_put
  | Bin_bo_put
  | Gpu_reset
  | Syncobj_fence ptr u64

record vc4_hang_state =
  hs_bo :: "ptr list"
  hs_bo_count :: nat
  start_bin :: u32
  start_render :: u32

text \<open>\<open>gem_refs\<close> counts the references to an object, \<open>resv_locked\<close> are the reservations this process holds.\<close>
record vc4_gem =
  gem_dev :: vc4_dev
  gem_refs :: "ptr \<Rightarrow> nat"
  bo_seqno :: "ptr \<Rightarrow> u64"
  bo_write_seqno :: "ptr \<Rightarrow> u64"
  resv_locked :: "ptr list"
  jobs :: "ptr \<Rightarrow> vc4_exec_info option"
  bin_job_list :: "ptr list"
  render_job_list :: "ptr list"
  job_done_list :: "ptr list"
  seqno_cb_list :: "(nat \<times> u64) list"
  emit_seqno :: u64
  finished_seqno :: u64
  active_perfmon :: "ptr option"
  bin_bo :: "ptr option"
  bin_alloc_used :: u32
  hang_state :: "vc4_hang_state option"
  gem_log :: "gem_event list"

definition logs :: "gem_event list \<Rightarrow> vc4_gem \<Rightarrow> vc4_gem" where
  "logs es g = g\<lparr>gem_log := gem_log g @ es\<rparr>"

definition upd_job :: "ptr \<Rightarrow> (vc4_exec_info \<Rightarrow> vc4_exec_info) \<Rightarrow> vc4_gem \<Rightarrow> vc4_gem option" where
  "upd_job p f g = map_option (\<lambda>ex. g\<lparr>jobs := (jobs g)(p \<mapsto> f ex)\<rparr>) (jobs g p)"

definition vc4_first_bin_job :: "vc4_gem \<Rightarrow> ptr option" where
  "vc4_first_bin_job g = (case bin_job_list g of [] \<Rightarrow> None | p # _ \<Rightarrow> Some p)"

definition vc4_first_render_job :: "vc4_gem \<Rightarrow> ptr option" where
  "vc4_first_render_job g = (case render_job_list g of [] \<Rightarrow> None | p # _ \<Rightarrow> Some p)"

definition vc4_fence_signaled :: "vc4_gem \<Rightarrow> u64 \<Rightarrow> bool" where
  "vc4_fence_signaled g seqno \<longleftrightarrow> finished_seqno g \<ge> seqno"

subsection \<open>Running jobs\<close>

definition vc4_queue_hangcheck :: "vc4_gem \<Rightarrow> vc4_gem" where
  "vc4_queue_hangcheck g = logs [Queue_hangcheck] g"

definition submit_cl :: "nat \<Rightarrow> u32 \<Rightarrow> u32 \<Rightarrow> vc4_gem \<Rightarrow> vc4_gem" where
  "submit_cl thread start ending g = logs [V3D_WRITE (V3D_CTNCA thread) start, V3D_WRITE (V3D_CTNEA thread) ending] g"

definition vc4_flush_caches :: "vc4_gem \<Rightarrow> vc4_gem" where
  "vc4_flush_caches g =
     logs [V3D_WRITE V3D_L2CACTL 4,
           V3D_WRITE V3D_SLCACTL (push_bit 24 0xf OR push_bit 16 0xf OR push_bit 8 0xf OR push_bit 0 0xf)] g"

definition vc4_flush_texture_caches :: "vc4_gem \<Rightarrow> vc4_gem" where
  "vc4_flush_texture_caches g =
     logs [V3D_WRITE V3D_L2CACTL 4, V3D_WRITE V3D_SLCACTL (push_bit 24 0xf OR push_bit 16 0xf)] g"

definition vc4_submit_next_render_job :: "vc4_gem \<Rightarrow> vc4_gem option" where
  "vc4_submit_next_render_job g =
     (case vc4_first_render_job g of
        None \<Rightarrow> Some g
      | Some p \<Rightarrow>
         if \<not> vc4_gen_4 (gem_dev g) then Some g
         else map_option (\<lambda>ex. submit_cl 1 (ct1ca ex) (ct1ea ex) (vc4_flush_texture_caches g)) (jobs g p))"

definition vc4_move_job_to_render :: "ptr \<Rightarrow> vc4_gem \<Rightarrow> vc4_gem option" where
  "vc4_move_job_to_render p g =
     (let was_empty = (render_job_list g = [])
      in if \<not> vc4_gen_4 (gem_dev g) then Some g
         else let g1 = g\<lparr>bin_job_list := removeAll p (bin_job_list g), render_job_list := removeAll p (render_job_list g) @ [p]\<rparr>
              in if was_empty then vc4_submit_next_render_job g1 else Some g1)"

text \<open>\<open>pm_start p a\<close> is the active monitor after \<open>vc4_perfmon_start\<close> on \<open>p\<close> with \<open>a\<close> active.\<close>
definition start_perfmon :: "(ptr \<Rightarrow> ptr option \<Rightarrow> ptr option) \<Rightarrow> ptr option \<Rightarrow> vc4_gem \<Rightarrow> vc4_gem" where
  "start_perfmon pm_start pm g =
     (case pm of
        Some p \<Rightarrow> if active_perfmon g \<noteq> Some p then logs [Perfmon_start p] (g\<lparr>active_perfmon := pm_start p (active_perfmon g)\<rparr>) else g
      | None \<Rightarrow> g)"

partial_function (option) vc4_submit_next_bin_job :: "(ptr \<Rightarrow> ptr option \<Rightarrow> ptr option) \<Rightarrow> vc4_gem \<Rightarrow> vc4_gem option" where
  "vc4_submit_next_bin_job pm_start g =
     (if \<not> vc4_gen_4 (gem_dev g) then Some g
      else case vc4_first_bin_job g of
        None \<Rightarrow> Some g
      | Some p \<Rightarrow>
         (case jobs g p of
            None \<Rightarrow> None
          | Some ex \<Rightarrow>
             let g1 = start_perfmon pm_start (ex_perfmon ex) (vc4_flush_caches g)
             in if ct0ca ex \<noteq> ct0ea ex then Some (submit_cl 0 (ct0ca ex) (ct0ea ex) g1)
                else (case vc4_move_job_to_render p g1 of
                        None \<Rightarrow> None
                      | Some g2 \<Rightarrow>
                         (case vc4_first_bin_job g2 of
                            None \<Rightarrow> Some g2
                          | Some n \<Rightarrow>
                             (case jobs g2 n of
                                None \<Rightarrow> None
                              | Some nx \<Rightarrow> if ex_perfmon nx = ex_perfmon ex then vc4_submit_next_bin_job pm_start g2 else Some g2)))))"

text \<open>\<open>ct0\<close> and \<open>ct1\<close> are the current addresses read from the two threads.\<close>
definition vc4_hangcheck_elapsed :: "u32 \<Rightarrow> u32 \<Rightarrow> vc4_gem \<Rightarrow> vc4_gem option" where
  "vc4_hangcheck_elapsed ct0 ct1 g =
     (case (vc4_first_bin_job g, vc4_first_render_job g) of
        (None, None) \<Rightarrow> Some g
      | (b, r) \<Rightarrow> do {
          bx \<leftarrow> (case b of None \<Rightarrow> Some None | Some p \<Rightarrow> map_option Some (jobs g p));
          rx \<leftarrow> (case r of None \<Rightarrow> Some None | Some p \<Rightarrow> map_option Some (jobs g p));
          if (\<exists>x. bx = Some x \<and> ct0 \<noteq> last_ct0ca x) \<or> (\<exists>x. rx = Some x \<and> ct1 \<noteq> last_ct1ca x)
          then do {
            g1 \<leftarrow> (case b of None \<Rightarrow> Some g | Some p \<Rightarrow> upd_job p (\<lambda>x. x\<lparr>last_ct0ca := ct0\<rparr>) g);
            g2 \<leftarrow> (case r of None \<Rightarrow> Some g1 | Some p \<Rightarrow> upd_job p (\<lambda>x. x\<lparr>last_ct1ca := ct1\<rparr>) g1);
            Some (vc4_queue_hangcheck g2)
          }
          else Some (logs [Schedule_reset] g)
        })"

subsection \<open>References\<close>

text \<open>\<open>drm_gem_object_put\<close>: the last reference frees the object; \<open>w\<close> says what freeing finds.\<close>
definition gem_put :: "bo_world \<Rightarrow> ptr \<Rightarrow> vc4_gem \<Rightarrow> vc4_gem option" where
  "gem_put w p g =
     (case gem_refs g p of
        0 \<Rightarrow> None
      | Suc n \<Rightarrow>
         let g1 = g\<lparr>gem_refs := (gem_refs g)(p := n)\<rparr>
         in if n = 0 then map_option (\<lambda>d. g1\<lparr>gem_dev := d\<rparr>) (vc4_free_object (w_alloc w) (w_now w) (w_second w) p (gem_dev g1)) else Some g1)"

fun gem_puts :: "bo_world \<Rightarrow> ptr list \<Rightarrow> vc4_gem \<Rightarrow> vc4_gem option" where
  "gem_puts w [] g = Some g"
| "gem_puts w (p # ps) g = gem_put w p g \<bind> gem_puts w ps"

definition gem_get :: "ptr \<Rightarrow> vc4_gem \<Rightarrow> vc4_gem" where
  "gem_get p g = g\<lparr>gem_refs := (gem_refs g)(p := gem_refs g p + 1)\<rparr>"

definition use_bo :: "ptr \<Rightarrow> vc4_gem \<Rightarrow> (unit result \<times> vc4_gem) option" where
  "use_bo p g = map_option (\<lambda>(r, d). (r, g\<lparr>gem_dev := d\<rparr>)) (vc4_bo_inc_usecnt p (gem_dev g))"

definition unuse_bo :: "ptr \<Rightarrow> vc4_gem \<Rightarrow> vc4_gem option" where
  "unuse_bo p g = map_option (\<lambda>d. g\<lparr>gem_dev := d\<rparr>) (vc4_bo_dec_usecnt p (gem_dev g))"

fun unuse_all :: "ptr list \<Rightarrow> vc4_gem \<Rightarrow> vc4_gem option" where
  "unuse_all [] g = Some g"
| "unuse_all (p # ps) g = unuse_bo p g \<bind> unuse_all ps"

text \<open>
  The loop of \<open>vc4_cl_lookup_bos\<close> over the objects: \<open>taken\<close> are those whose use was counted, last first, which is the order
  in which a failure gives them up.
\<close>
fun use_all :: "ptr list \<Rightarrow> ptr list \<Rightarrow> vc4_gem \<Rightarrow> (unit result \<times> vc4_gem) option" where
  "use_all taken [] g = Some (Inr (), g)"
| "use_all taken (p # ps) g = do {
     (r, g1) \<leftarrow> use_bo p g;
     case r of
       Inr _ \<Rightarrow> use_all (p # taken) ps g1
     | Inl e \<Rightarrow> map_option (Pair (Inl e)) (unuse_all taken g1)
   }"

text \<open>
  How \<open>drm_gem_objects_lookup\<close> ends: no array could be allocated, a handle names nothing (the array then holds the objects found before
  it), or all were found. It takes a reference to each object it found.
\<close>
datatype lookup_outcome = Lookup_no_memory | Lookup_failed "ptr list" errno | Lookup_found "ptr list"

text \<open>A failed lookup with no array reads it through a NULL pointer: the result is None.\<close>
definition vc4_cl_lookup_bos :: "bo_world \<Rightarrow> lookup_outcome \<Rightarrow> nat \<Rightarrow> vc4_exec_info \<Rightarrow> vc4_gem \<Rightarrow> (unit result \<times> vc4_exec_info \<times> vc4_gem) option" where
  "vc4_cl_lookup_bos w lookup bo_handle_count ex g =
     (if bo_handle_count = 0 then Some (Inl EINVAL, ex, g)
      else case lookup of
        Lookup_no_memory \<Rightarrow> None
      | Lookup_failed ps e \<Rightarrow> map_option (\<lambda>g1. (Inl e, ex\<lparr>ex_bo := None\<rparr>, g1)) (gem_puts w ps (fold gem_get ps g))
      | Lookup_found ps \<Rightarrow> do {
          (r, g1) \<leftarrow> use_all [] ps (fold gem_get ps g);
          case r of
            Inr _ \<Rightarrow> Some (Inr (), ex\<lparr>ex_bo := Some ps\<rparr>, g1)
          | Inl e \<Rightarrow> map_option (\<lambda>g2. (Inl e, ex\<lparr>ex_bo := None\<rparr>, g2)) (gem_puts w ps g1)
        })"

subsection \<open>Reservations\<close>

definition EDEADLK :: errno where "EDEADLK = Errno 35"
definition EFAULT :: errno where "EFAULT = Errno 14"
definition ETIME :: errno where "ETIME = Errno 62"
definition ERESTARTSYS :: errno where "ERESTARTSYS = Errno 512"

definition resv_lock :: "ptr \<Rightarrow> vc4_gem \<Rightarrow> vc4_gem" where
  "resv_lock p g = g\<lparr>resv_locked := p # resv_locked g\<rparr>"

definition resv_unlock :: "ptr \<Rightarrow> vc4_gem \<Rightarrow> vc4_gem" where
  "resv_unlock p g = g\<lparr>resv_locked := remove1 p (resv_locked g)\<rparr>"

definition vc4_unlock_bo_reservations :: "ptr list \<Rightarrow> vc4_gem \<Rightarrow> vc4_gem" where
  "vc4_unlock_bo_reservations bos g = fold resv_unlock bos g"

text \<open>\<open>ans n\<close> is the result of the n-th attempt to lock. The loop locks all but the contended one, and stops at the first that fails.\<close>
fun lock_each :: "(nat \<Rightarrow> unit result) \<Rightarrow> nat option \<Rightarrow> nat \<Rightarrow> ptr list \<Rightarrow> nat \<Rightarrow> vc4_gem \<Rightarrow> (errno \<times> nat + unit) \<times> nat \<times> vc4_gem" where
  "lock_each ans contended i [] n g = (Inr (), n, g)"
| "lock_each ans contended i (p # ps) n g =
     (if contended = Some i then lock_each ans contended (Suc i) ps n g
      else case ans n of
             Inr _ \<Rightarrow> lock_each ans contended (Suc i) ps (Suc n) (resv_lock p g)
           | Inl e \<Rightarrow> (Inl (e, i), Suc n, g))"

text \<open>What is given up when the lock of object \<open>i\<close> failed.\<close>
definition unlock_before :: "ptr list \<Rightarrow> nat option \<Rightarrow> nat \<Rightarrow> vc4_gem \<Rightarrow> vc4_gem" where
  "unlock_before bos contended i g =
     (let g1 = fold resv_unlock (take i bos) g
      in case contended of
           Some c \<Rightarrow> if c \<ge> i then resv_unlock (bos ! c) g1 else g1
         | None \<Rightarrow> g1)"

partial_function (option) lock_retry ::
    "(nat \<Rightarrow> unit result) \<Rightarrow> ptr list \<Rightarrow> nat option \<Rightarrow> nat \<Rightarrow> vc4_gem \<Rightarrow> (unit result \<times> vc4_gem) option" where
  "lock_retry ans bos contended n g =
     (let (slow, n1, g1) = (case contended of
            None \<Rightarrow> (Inr (), n, g)
          | Some c \<Rightarrow> (case ans n of Inr _ \<Rightarrow> (Inr (), Suc n, resv_lock (bos ! c) g) | Inl e \<Rightarrow> (Inl e, Suc n, g)))
      in case slow of
           Inl e \<Rightarrow> Some (Inl e, g1)
         | Inr _ \<Rightarrow>
            (case lock_each ans contended 0 bos n1 g1 of
               (Inr _, n2, g2) \<Rightarrow> Some (Inr (), g2)
             | (Inl (e, i), n2, g2) \<Rightarrow>
                let g3 = unlock_before bos contended i g2
                in if e = EDEADLK then lock_retry ans bos (Some i) n2 g3 else Some (Inl e, g3)))"

text \<open>\<open>reserve\<close> is the result of \<open>dma_resv_reserve_fences\<close> on each object.\<close>
definition vc4_lock_bo_reservations ::
    "(nat \<Rightarrow> unit result) \<Rightarrow> (ptr \<Rightarrow> unit result) \<Rightarrow> ptr list \<Rightarrow> vc4_gem \<Rightarrow> (unit result \<times> vc4_gem) option" where
  "vc4_lock_bo_reservations ans reserve bos g = do {
     (r, g1) \<leftarrow> lock_retry ans bos None 0 g;
     case r of
       Inl e \<Rightarrow> Some (Inl e, g1)
     | Inr _ \<Rightarrow>
        (case List.find (\<lambda>p. \<exists>e. reserve p = Inl e) bos of
           None \<Rightarrow> Some (Inr (), g1)
         | Some p \<Rightarrow> Some (reserve p, vc4_unlock_bo_reservations bos g1))
   }"

subsection \<open>Queueing a job\<close>

definition vc4_update_bo_seqnos :: "vc4_exec_info \<Rightarrow> u64 \<Rightarrow> u64 \<Rightarrow> vc4_gem \<Rightarrow> vc4_gem" where
  "vc4_update_bo_seqnos ex fence seqno g =
     (let bos = (case ex_bo ex of None \<Rightarrow> [] | Some ps \<Rightarrow> ps)
      in logs (map (\<lambda>p. Resv_fence p fence False) bos @ map (\<lambda>p. Resv_fence p fence True) (rcl_write_bo ex))
           (g\<lparr>bo_seqno := (\<lambda>p. if p \<in> set bos \<or> p \<in> set (unref_list ex) then seqno else bo_seqno g p),
              bo_write_seqno := (\<lambda>p. if p \<in> set (rcl_write_bo ex) then seqno else bo_write_seqno g p)\<rparr>))"

text \<open>The job gets its number and its fence and goes to the end of the list; \<open>p\<close> is its address.\<close>
definition enqueue_job :: "ptr option \<Rightarrow> ptr \<Rightarrow> vc4_exec_info \<Rightarrow> vc4_gem \<Rightarrow> vc4_gem" where
  "enqueue_job out_sync p ex g =
     (let seqno = emit_seqno g + 1;
          ex1 = ex\<lparr>ex_seqno := seqno, ex_fence := Some seqno\<rparr>;
          g1 = g\<lparr>emit_seqno := seqno\<rparr>;
          g2 = (case out_sync of None \<Rightarrow> g1 | Some s \<Rightarrow> logs [Syncobj_fence s seqno] g1);
          g3 = vc4_update_bo_seqnos ex1 seqno seqno g2;
          g4 = (case ex_bo ex1 of None \<Rightarrow> g3 | Some bos \<Rightarrow> vc4_unlock_bo_reservations bos g3)
      in g4\<lparr>jobs := (jobs g4)(p \<mapsto> ex1), bin_job_list := bin_job_list g4 @ [p]\<rparr>)"

text \<open>\<open>fence\<close> says whether the fence can be allocated.\<close>
definition vc4_queue_submit ::
    "bool \<Rightarrow> (ptr \<Rightarrow> ptr option \<Rightarrow> ptr option) \<Rightarrow> ptr option \<Rightarrow> ptr \<Rightarrow> vc4_exec_info \<Rightarrow> vc4_gem \<Rightarrow> (unit result \<times> vc4_gem) option" where
  "vc4_queue_submit fence pm_start out_sync p ex g =
     (if \<not> fence then Some (Inl ENOMEM, g)
      else do {
        let g1 = enqueue_job out_sync p ex g;
        rx \<leftarrow> (case vc4_first_render_job g1 of None \<Rightarrow> Some None | Some r \<Rightarrow> map_option Some (jobs g1 r));
        if vc4_first_bin_job g1 = Some p \<and> (case rx of None \<Rightarrow> True | Some r \<Rightarrow> ex_perfmon r = ex_perfmon ex)
        then map_option (\<lambda>g2. (Inr (), vc4_queue_hangcheck g2)) (vc4_submit_next_bin_job pm_start g1)
        else Some (Inr (), g1)
      })"

subsection \<open>Waiting\<close>

text \<open>
  One turn of the loop sees whether a signal is pending, how far the GPU is, and the time. \<open>expire\<close> is the time to give up,
  None for no limit.
\<close>
partial_function (option) wait_loop :: "(nat \<Rightarrow> bool \<times> u64 \<times> u64) \<Rightarrow> u64 \<Rightarrow> u64 option \<Rightarrow> bool \<Rightarrow> nat \<Rightarrow> (unit result \<times> nat) option" where
  "wait_loop obs seqno expire interruptible k =
     (let (sig, fin, jif) = obs k
      in if interruptible \<and> sig then Some (Inl ERESTARTSYS, k)
         else if fin \<ge> seqno then Some (Inr (), k)
         else if (case expire of None \<Rightarrow> False | Some e \<Rightarrow> sint (jif - e) \<ge> 0) then Some (Inl ETIME, k)
         else wait_loop obs seqno expire interruptible (Suc k))"

text \<open>\<open>start\<close> is \<open>jiffies\<close> on entry, \<open>to_jiffies\<close> is \<open>nsecs_to_jiffies\<close>.\<close>
definition vc4_wait_for_seqno ::
    "(u64 \<Rightarrow> u64) \<Rightarrow> u64 \<Rightarrow> (nat \<Rightarrow> bool \<times> u64 \<times> u64) \<Rightarrow> u64 \<Rightarrow> u64 \<Rightarrow> bool \<Rightarrow> vc4_gem \<Rightarrow> unit result option" where
  "vc4_wait_for_seqno to_jiffies start obs seqno timeout_ns interruptible g =
     (if \<not> vc4_gen_4 (gem_dev g) then Some (Inl ENODEV)
      else if finished_seqno g \<ge> seqno then Some (Inr ())
      else if timeout_ns = 0 then Some (Inl ETIME)
      else map_option fst (wait_loop obs seqno (if timeout_ns \<noteq> - 1 then Some (start + to_jiffies timeout_ns) else None) interruptible 0))"

text \<open>\<open>passed\<close> is the time the wait took, in nanoseconds.\<close>
definition vc4_wait_for_seqno_ioctl_helper ::
    "(u64 \<Rightarrow> u64) \<Rightarrow> u64 \<Rightarrow> u64 \<Rightarrow> (nat \<Rightarrow> bool \<times> u64 \<times> u64) \<Rightarrow> u64 \<Rightarrow> u64 \<Rightarrow> vc4_gem \<Rightarrow> (unit result \<times> u64) option" where
  "vc4_wait_for_seqno_ioctl_helper to_jiffies start passed obs seqno timeout_ns g =
     map_option (\<lambda>r. (r, if r = Inl ERESTARTSYS \<and> timeout_ns \<noteq> - 1 \<and> timeout_ns \<ge> passed then timeout_ns - passed else timeout_ns))
       (vc4_wait_for_seqno to_jiffies start obs seqno timeout_ns True g)"

definition vc4_wait_seqno_ioctl ::
    "(u64 \<Rightarrow> u64) \<Rightarrow> u64 \<Rightarrow> u64 \<Rightarrow> (nat \<Rightarrow> bool \<times> u64 \<times> u64) \<Rightarrow> u64 \<Rightarrow> u64 \<Rightarrow> vc4_gem \<Rightarrow> (unit result \<times> u64) option" where
  "vc4_wait_seqno_ioctl to_jiffies start passed obs seqno timeout_ns g =
     (if \<not> vc4_gen_4 (gem_dev g) then Some (Inl ENODEV, timeout_ns)
      else vc4_wait_for_seqno_ioctl_helper to_jiffies start passed obs seqno timeout_ns g)"

definition vc4_wait_bo_ioctl ::
    "(u64 \<Rightarrow> u64) \<Rightarrow> u64 \<Rightarrow> u64 \<Rightarrow> (nat \<Rightarrow> bool \<times> u64 \<times> u64) \<Rightarrow> (u32 \<Rightarrow> ptr option) \<Rightarrow> u32 \<Rightarrow> u32 \<Rightarrow> u64 \<Rightarrow> vc4_gem \<Rightarrow> (unit result \<times> u64) option" where
  "vc4_wait_bo_ioctl to_jiffies start passed obs lookup handle pad timeout_ns g =
     (if \<not> vc4_gen_4 (gem_dev g) then Some (Inl ENODEV, timeout_ns)
      else if pad \<noteq> 0 then Some (Inl EINVAL, timeout_ns)
      else case lookup handle of
             None \<Rightarrow> Some (Inl EINVAL, timeout_ns)
           | Some p \<Rightarrow> vc4_wait_for_seqno_ioctl_helper to_jiffies start passed obs (bo_seqno g p) timeout_ns g)"

subsection \<open>The command lists of a job\<close>

record drm_vc4_submit_cl =
  bin_cl_size :: u32
  sc_shader_rec_size :: u32
  sc_uniforms_size :: u32
  shader_rec_count :: u32
  bo_handle_count :: u32
  sc_flags :: u32
  perfmonid :: u32
  in_sync :: u32
  out_sync :: u32
  pad2 :: u32

text \<open>The offsets in the copy and the sizes of what is validated and of the copy, all 32-bit; an entry of the shader state has 8 bytes.\<close>
record bcl_layout =
  shader_rec_offset :: u32
  uniforms_offset :: u32
  exec_size :: u32
  temp_size :: u32

definition bcl_layout_of :: "drm_vc4_submit_cl \<Rightarrow> bcl_layout" where
  "bcl_layout_of args =
     (let sro = (bin_cl_size args + 15) div 16 * 16; uo = sro + sc_shader_rec_size args; es = uo + sc_uniforms_size args
      in \<lparr>shader_rec_offset = sro, uniforms_offset = uo, exec_size = es, temp_size = es + 8 * shader_rec_count args\<rparr>)"

definition bcl_overflows :: "drm_vc4_submit_cl \<Rightarrow> bool" where
  "bcl_overflows args \<longleftrightarrow>
     (let l = bcl_layout_of args
      in shader_rec_offset l < bin_cl_size args \<or> uniforms_offset l < shader_rec_offset l \<or> exec_size l < uniforms_offset l \<or>
         shader_rec_count args \<ge> 0xFFFFFFFF div 8 \<or> temp_size l < exec_size l)"

text \<open>
  What the other parts answer while the command lists are read: whether the copy can be allocated and user memory read, where an object
  is, what the two validators do to the job, what taking the binner memory gives (with whether the job now uses it), and what the wait
  for the rendering it depends on gives.
\<close>
record bcl_world =
  bw_temp :: bool
  bw_copies :: "bool \<times> bool \<times> bool"
  bw_dma_addr :: "ptr \<Rightarrow> u32"
  bw_validate_bin :: "vc4_exec_info \<Rightarrow> unit result \<times> vc4_exec_info"
  bw_validate_recs :: "vc4_exec_info \<Rightarrow> unit result \<times> vc4_exec_info"
  bw_bin_bo :: "bool \<Rightarrow> unit result \<times> bool"
  bw_wait :: "u64 \<Rightarrow> unit result option"

text \<open>The checks of the filled job.\<close>
definition check_bcl :: "bcl_world \<Rightarrow> vc4_exec_info \<Rightarrow> (unit result \<times> vc4_exec_info) option" where
  "check_bcl b ex =
     (case bw_validate_bin b ex of
        (Inl e, ex1) \<Rightarrow> Some (Inl e, ex1)
      | (Inr _, ex1) \<Rightarrow>
         (case bw_validate_recs b ex1 of
            (Inl e, ex2) \<Rightarrow> Some (Inl e, ex2)
          | (Inr _, ex2) \<Rightarrow>
             (case (if found_tile_binning ex2 then bw_bin_bo b (bin_bo_used ex2) else (Inr (), bin_bo_used ex2)) of
                (Inl e, u) \<Rightarrow> Some (Inl e, ex2\<lparr>bin_bo_used := u\<rparr>)
              | (Inr _, u) \<Rightarrow> map_option (\<lambda>r. (r, ex2\<lparr>bin_bo_used := u\<rparr>)) (bw_wait b (ex_bin_dep_seqno ex2)))))"

definition vc4_get_bcl ::
    "bo_world \<Rightarrow> bcl_world \<Rightarrow> drm_vc4_submit_cl \<Rightarrow> vc4_exec_info \<Rightarrow> vc4_gem \<Rightarrow> (unit result \<times> vc4_exec_info \<times> vc4_gem) option" where
  "vc4_get_bcl w b args ex g =
     (let l = bcl_layout_of args; (copy1, copy2, copy3) = bw_copies b
      in if bcl_overflows args then Some (Inl EINVAL, ex, g)
         else if \<not> bw_temp b then Some (Inl ENOMEM, ex, g)
         else
           let ex1 = ex\<lparr>shader_rec_u := shader_rec_offset l, uniforms_u := uniforms_offset l, shader_state := exec_size l,
                       shader_state_size := shader_rec_count args\<rparr>
           in if \<not> (copy1 \<and> copy2 \<and> copy3) then Some (Inl EFAULT, ex1, g)
              else do {
                (r, d) \<leftarrow> vc4_bo_create (w_alloc w) (w_now w) (w_second w) (w_others w) (w_outcomes w) (ucast (exec_size l)) True 6 (gem_dev g);
                let g1 = g\<lparr>gem_dev := d\<rparr>;
                (case r of
                   Inl e \<Rightarrow> Some (Inl e, ex1, g1)
                 | Inr p \<Rightarrow> do {
                     let ex2 = ex1\<lparr>exec_bo := Some p, unref_list := unref_list ex1 @ [p], ct0ca := bw_dma_addr b p,
                                   shader_rec_p := bw_dma_addr b p + shader_rec_offset l, shader_rec_size := sc_shader_rec_size args,
                                   uniforms_p := bw_dma_addr b p + uniforms_offset l, uniforms_size := sc_uniforms_size args\<rparr>;
                     map_option (\<lambda>(r2, ex3). (r2, ex3, g1\<lparr>gem_refs := (gem_refs g1)(p := 1)\<rparr>)) (check_bcl b ex2)
                   })
              })"

subsection \<open>Completing a job\<close>

fun release_bos :: "bo_world \<Rightarrow> ptr list \<Rightarrow> vc4_gem \<Rightarrow> vc4_gem option" where
  "release_bos w [] g = Some g"
| "release_bos w (p # ps) g = unuse_bo p g \<bind> gem_put w p \<bind> release_bos w ps"

definition vc4_complete_exec :: "bo_world \<Rightarrow> vc4_exec_info \<Rightarrow> vc4_gem \<Rightarrow> vc4_gem option" where
  "vc4_complete_exec w ex g = do {
     let g1 = (case ex_fence ex of None \<Rightarrow> g | Some f \<Rightarrow> logs [Fence_signal f, Fence_put f] g);
     g2 \<leftarrow> (case ex_bo ex of None \<Rightarrow> Some g1 | Some ps \<Rightarrow> release_bos w ps g1);
     g3 \<leftarrow> gem_puts w (unref_list ex) g2;
     let g4 = g3\<lparr>bin_alloc_used := bin_alloc_used g3 AND NOT (bin_slots ex)\<rparr>;
     Some (logs ((if bin_bo_used ex then [Bin_bo_put] else []) @ [Perfmon_put (ex_perfmon ex), Pm_put]) g4)
   }"

text \<open>The loop over the jobs that are done, which are then freed.\<close>
partial_function (option) complete_done :: "bo_world \<Rightarrow> vc4_gem \<Rightarrow> vc4_gem option" where
  "complete_done w g =
     (case job_done_list g of
        [] \<Rightarrow> Some g
      | p # ps \<Rightarrow>
         (case jobs g p of
            None \<Rightarrow> None
          | Some ex \<Rightarrow>
             (case vc4_complete_exec w ex (g\<lparr>job_done_list := ps\<rparr>) of
                None \<Rightarrow> None
              | Some g1 \<Rightarrow> complete_done w (g1\<lparr>jobs := (jobs g1)(p := None)\<rparr>))))"

definition vc4_job_handle_completed :: "bo_world \<Rightarrow> vc4_gem \<Rightarrow> vc4_gem option" where
  "vc4_job_handle_completed w g =
     (if \<not> vc4_gen_4 (gem_dev g) then Some g
      else map_option (\<lambda>g1. logs (map (Schedule_cb \<circ> fst) (filter (\<lambda>(cb, s). s \<le> finished_seqno g1) (seqno_cb_list g1)))
                              (g1\<lparr>seqno_cb_list := filter (\<lambda>(cb, s). \<not> s \<le> finished_seqno g1) (seqno_cb_list g1)\<rparr>)) (complete_done w g))"

definition vc4_queue_seqno_cb :: "nat \<Rightarrow> u64 \<Rightarrow> vc4_gem \<Rightarrow> unit result \<times> vc4_gem" where
  "vc4_queue_seqno_cb cb seqno g =
     (if \<not> vc4_gen_4 (gem_dev g) then (Inl ENODEV, g)
      else if seqno > finished_seqno g then (Inr (), g\<lparr>seqno_cb_list := seqno_cb_list g @ [(cb, seqno)]\<rparr>)
      else (Inr (), logs [Schedule_cb cb] g))"

definition vc4_job_done_work :: "bo_world \<Rightarrow> vc4_gem \<Rightarrow> vc4_gem option" where
  "vc4_job_done_work w g = vc4_job_handle_completed w g"

subsection \<open>Submitting a job\<close>

text \<open>
  The answers of the other parts to a submission: \<open>kcalloc\<close>, the power management, the lookup of the objects, of the monitor and of the
  fence to wait for (with whether it is from this driver and what the wait gives), the render list, the locks, the object for the
  result, and the allocation of the fence.
\<close>
record submit_world =
  sw_exec :: "ptr option"
  sw_pm_get :: "unit result"
  sw_lookup :: lookup_outcome
  sw_perfmon :: "u32 \<Rightarrow> ptr option"
  sw_in_fence :: "unit result"
  sw_own_fence :: bool
  sw_fence_wait :: "unit result"
  sw_rcl :: "vc4_exec_info \<Rightarrow> unit result \<times> vc4_exec_info"
  sw_lock :: "nat \<Rightarrow> unit result"
  sw_reserve :: "ptr \<Rightarrow> unit result"
  sw_out_sync :: "u32 \<Rightarrow> ptr option"
  sw_fence :: bool
  sw_pm_start :: "ptr \<Rightarrow> ptr option \<Rightarrow> ptr option"

text \<open>The steps from the lookup of the objects to the render list; a job that fails is completed at once.\<close>
definition prepare_job ::
    "bo_world \<Rightarrow> bcl_world \<Rightarrow> submit_world \<Rightarrow> drm_vc4_submit_cl \<Rightarrow> vc4_gem \<Rightarrow> (unit result \<times> vc4_exec_info \<times> vc4_gem) option" where
  "prepare_job w b s args g = do {
     (r1, ex1, g1) \<leftarrow> vc4_cl_lookup_bos w (sw_lookup s) (unat (bo_handle_count args)) exec_zero g;
     case r1 of
       Inl e \<Rightarrow> Some (Inl e, ex1, g1)
     | Inr _ \<Rightarrow>
        (let pm = (if perfmonid args \<noteq> 0 then sw_perfmon s (perfmonid args) else None); ex2 = ex1\<lparr>ex_perfmon := pm\<rparr>
         in if perfmonid args \<noteq> 0 \<and> pm = None then Some (Inl ENOENT, ex2, g1)
            else
              case (if in_sync args = 0 then Inr ()
                    else case sw_in_fence s of Inl e \<Rightarrow> Inl e | Inr _ \<Rightarrow> if sw_own_fence s then Inr () else sw_fence_wait s) of
                Inl e \<Rightarrow> Some (Inl e, ex2, g1)
              | Inr _ \<Rightarrow> do {
                  (r2, ex3, g2) \<leftarrow> (if bin_cl_size args \<noteq> 0 then vc4_get_bcl w b args ex2 g1
                                   else Some (Inr (), ex2\<lparr>ct0ca := 0, ct0ea := 0\<rparr>, g1));
                  case r2 of
                    Inl e \<Rightarrow> Some (Inl e, ex3, g2)
                  | Inr _ \<Rightarrow> (case sw_rcl s ex3 of (r3, ex4) \<Rightarrow> Some (r3, ex4, g2))
                })
   }"

text \<open>
  The result is the sequence number. A job that fails after its reservations were locked is completed like any other: the reservations
  stay locked.
\<close>
definition vc4_submit_cl_ioctl ::
    "bo_world \<Rightarrow> bcl_world \<Rightarrow> submit_world \<Rightarrow> bool \<Rightarrow> drm_vc4_submit_cl \<Rightarrow> vc4_gem \<Rightarrow> (u64 result \<times> vc4_gem) option" where
  "vc4_submit_cl_ioctl w b s v3d args g =
     (if \<not> vc4_gen_4 (gem_dev g) \<or> \<not> v3d then Some (Inl ENODEV, g)
      else if sc_flags args AND NOT 0xf \<noteq> 0 \<or> pad2 args \<noteq> 0 then Some (Inl EINVAL, g)
      else case (sw_exec s, sw_pm_get s) of
        (None, _) \<Rightarrow> Some (Inl ENOMEM, g)
      | (Some p, Inl e) \<Rightarrow> Some (Inl e, g)
      | (Some p, Inr _) \<Rightarrow> do {
          (r1, ex1, g1) \<leftarrow> prepare_job w b s args (logs [Pm_get] g);
          (case r1 of
             Inl e \<Rightarrow> map_option (Pair (Inl e)) (vc4_complete_exec w ex1 g1)
           | Inr _ \<Rightarrow> do {
               (r2, g2) \<leftarrow> vc4_lock_bo_reservations (sw_lock s) (sw_reserve s) (case ex_bo ex1 of None \<Rightarrow> [] | Some ps \<Rightarrow> ps) g1;
               (case r2 of
                  Inl e \<Rightarrow> map_option (Pair (Inl e)) (vc4_complete_exec w ex1 g2)
                | Inr _ \<Rightarrow>
                   (let sync = (if out_sync args \<noteq> 0 then sw_out_sync s (out_sync args) else None)
                    in if out_sync args \<noteq> 0 \<and> sync = None then map_option (Pair (Inl EINVAL)) (vc4_complete_exec w ex1 g2)
                       else do {
                         (r3, g3) \<leftarrow> vc4_queue_submit (sw_fence s) (sw_pm_start s) sync p ex1 g2;
                         (case r3 of
                            Inl e \<Rightarrow> map_option (Pair (Inl e)) (vc4_complete_exec w ex1 g3)
                          | Inr _ \<Rightarrow> Some (Inr (emit_seqno g3), g3))
                       }))
             })
        })"

subsection \<open>The state of a hung GPU\<close>

text \<open>The first \<open>hs_bo_count\<close> objects are given up.\<close>
definition vc4_free_hang_state :: "bo_world \<Rightarrow> vc4_hang_state \<Rightarrow> vc4_gem \<Rightarrow> vc4_gem option" where
  "vc4_free_hang_state w h g = gem_puts w (take (hs_bo_count h) (hs_bo h)) g"

text \<open>The objects of a job: those of its handles, whose use is counted, and those of its own.\<close>
definition retain_bo :: "ptr \<Rightarrow> vc4_gem \<Rightarrow> vc4_gem option" where
  "retain_bo p g = map_option (\<lambda>d. gem_get p (g\<lparr>gem_dev := d\<rparr>)) (upd_bo p (\<lambda>bo. bo\<lparr>bo_usecnt := bo_usecnt bo + 1\<rparr>) (gem_dev g))"

fun retain_bos :: "ptr list \<Rightarrow> vc4_gem \<Rightarrow> vc4_gem option" where
  "retain_bos [] g = Some g"
| "retain_bos (p # ps) g = retain_bo p g \<bind> retain_bos ps"

definition job_bos :: "vc4_exec_info \<Rightarrow> ptr list" where
  "job_bos ex = (case ex_bo ex of None \<Rightarrow> [] | Some ps \<Rightarrow> ps)"

definition retain_job :: "vc4_exec_info option \<Rightarrow> vc4_gem \<Rightarrow> vc4_gem option" where
  "retain_job x g = (case x of None \<Rightarrow> Some g | Some ex \<Rightarrow> map_option (fold gem_get (unref_list ex)) (retain_bos (job_bos ex) g))"

text \<open>An object that can be purged is needed again, and its use is given up.\<close>
definition unpurge_bo :: "ptr \<Rightarrow> vc4_gem \<Rightarrow> vc4_gem option" where
  "unpurge_bo p g =
     map_option (\<lambda>d. g\<lparr>gem_dev := d\<rparr>)
       (upd_bo p (\<lambda>bo. if bo_madv bo = VC4_MADV_NOTSUPP then bo
                       else bo\<lparr>bo_madv := (if bo_madv bo = VC4_MADV_PURGED then VC4_MADV_PURGED else VC4_MADV_WILLNEED),
                               bo_usecnt := bo_usecnt bo - 1\<rparr>) (gem_dev g))"

fun unpurge_bos :: "ptr list \<Rightarrow> vc4_gem \<Rightarrow> vc4_gem option" where
  "unpurge_bos [] g = Some g"
| "unpurge_bos (p # ps) g = unpurge_bo p g \<bind> unpurge_bos ps"

definition first_job :: "ptr option \<Rightarrow> vc4_gem \<Rightarrow> vc4_exec_info option option" where
  "first_job p g = (case p of None \<Rightarrow> Some None | Some q \<Rightarrow> map_option Some (jobs g q))"

text \<open>\<open>state_mem\<close> and \<open>array_mem\<close> say whether the two allocations succeed. The registers that are copied are left out.\<close>
definition vc4_save_hang_state :: "bo_world \<Rightarrow> bool \<Rightarrow> bool \<Rightarrow> vc4_gem \<Rightarrow> vc4_gem option" where
  "vc4_save_hang_state w state_mem array_mem g =
     (if \<not> state_mem \<or> (vc4_first_bin_job g = None \<and> vc4_first_render_job g = None) \<or> \<not> array_mem then Some g
      else do {
        x0 \<leftarrow> first_job (vc4_first_bin_job g) g;
        x1 \<leftarrow> first_job (vc4_first_render_job g) g;
        let bos = concat (map (\<lambda>x. case x of None \<Rightarrow> [] | Some ex \<Rightarrow> job_bos ex @ unref_list ex) [x0, x1]);
        g1 \<leftarrow> retain_job x0 g;
        g2 \<leftarrow> retain_job x1 g1;
        let h = \<lparr>hs_bo = bos, hs_bo_count = length bos, start_bin = (case x0 of None \<Rightarrow> 0 | Some ex \<Rightarrow> ct0ca ex),
                 start_render = (case x1 of None \<Rightarrow> 0 | Some ex \<Rightarrow> ct1ca ex)\<rparr>;
        g3 \<leftarrow> unpurge_bos bos g2;
        (case hang_state g3 of
           Some _ \<Rightarrow> vc4_free_hang_state w h g3
         | None \<Rightarrow> Some (g3\<lparr>hang_state := Some h\<rparr>))
      })"

text \<open>\<open>power_refcount\<close> decides whether the GPU is powered off and on; \<open>irq_reset\<close> is \<open>vc4_irq_reset\<close>.\<close>
definition vc4_reset :: "bool \<Rightarrow> (vc4_gem \<Rightarrow> vc4_gem) \<Rightarrow> vc4_gem \<Rightarrow> vc4_gem" where
  "vc4_reset power_refcount irq_reset g = vc4_queue_hangcheck (irq_reset (if power_refcount then logs [Gpu_reset] g else g))"

definition vc4_reset_work :: "bo_world \<Rightarrow> bool \<Rightarrow> bool \<Rightarrow> bool \<Rightarrow> (vc4_gem \<Rightarrow> vc4_gem) \<Rightarrow> vc4_gem \<Rightarrow> vc4_gem option" where
  "vc4_reset_work w state_mem array_mem power_refcount irq_reset g =
     map_option (vc4_reset power_refcount irq_reset) (vc4_save_hang_state w state_mem array_mem g)"

text \<open>
  A handle for each object, which holds a reference, until one cannot be made: the handles made, with the error. \<open>handle i\<close> is
  the result of \<open>drm_gem_handle_create\<close> on the i-th object.
\<close>
fun make_handles :: "(nat \<Rightarrow> u32 result) \<Rightarrow> nat \<Rightarrow> ptr list \<Rightarrow> vc4_gem \<Rightarrow> unit result \<times> (u32 \<times> ptr) list \<times> vc4_gem" where
  "make_handles handle i [] g = (Inr (), [], g)"
| "make_handles handle i (p # ps) g =
     (case handle i of
        Inl e \<Rightarrow> (Inl e, [], g)
      | Inr h \<Rightarrow> (case make_handles handle (Suc i) ps (gem_get p g) of (r, hs, g1) \<Rightarrow> (r, (h, p) # hs, g1)))"

text \<open>
  The result has the number of objects and the handles for the user. When a handle cannot be made, the count of the saved state is
  cut to the handles made, which is also what is given up then.
\<close>
definition vc4_get_hang_state_ioctl ::
    "bo_world \<Rightarrow> bool \<Rightarrow> bool \<Rightarrow> (nat \<Rightarrow> u32 result) \<Rightarrow> bool \<Rightarrow> nat \<Rightarrow> vc4_gem \<Rightarrow> ((nat \<times> (u32 \<times> ptr) list) result \<times> vc4_gem) option" where
  "vc4_get_hang_state_ioctl w v3d mem handle copy_ok user_count g =
     (if \<not> vc4_gen_4 (gem_dev g) \<or> \<not> v3d then Some (Inl ENODEV, g)
      else case hang_state g of
        None \<Rightarrow> Some (Inl ENOENT, g)
      | Some h \<Rightarrow>
         if user_count < hs_bo_count h then Some (Inr (hs_bo_count h, []), g)
         else
           let g1 = g\<lparr>hang_state := None\<rparr>
           in if \<not> mem then map_option (Pair (Inl ENOMEM)) (vc4_free_hang_state w h g1)
              else
                case make_handles handle 0 (take (hs_bo_count h) (hs_bo h)) g1 of
                  (r, hs, g2) \<Rightarrow>
                    (let h1 = (case r of Inl _ \<Rightarrow> h\<lparr>hs_bo_count := length hs\<rparr> | Inr _ \<Rightarrow> h);
                         r1 = (case r of Inl e \<Rightarrow> Inl e | Inr _ \<Rightarrow> if copy_ok then Inr () else Inl EFAULT)
                     in case r1 of
                          Inl e \<Rightarrow> do {
                            g3 \<leftarrow> gem_puts w (map snd hs) g2;
                            g4 \<leftarrow> vc4_free_hang_state w h1 g3;
                            Some (Inl e, g4)
                          }
                        | Inr _ \<Rightarrow> map_option (\<lambda>g3. (Inr (hs_bo_count h, hs), g3)) (vc4_free_hang_state w h1 g2)))"

subsection \<open>Set-up and tear-down\<close>

definition vc4_gem_destroy :: "bo_world \<Rightarrow> vc4_gem \<Rightarrow> vc4_gem option" where
  "vc4_gem_destroy w g = do {
     g1 \<leftarrow> (case bin_bo g of None \<Rightarrow> Some g | Some p \<Rightarrow> map_option (\<lambda>g. g\<lparr>bin_bo := None\<rparr>) (gem_put w p g));
     (case hang_state g1 of None \<Rightarrow> Some g1 | Some h \<Rightarrow> vc4_free_hang_state w h g1)
   }"

text \<open>\<open>power_lock\<close> and \<open>pool_lock\<close> are the results for the two locks, \<open>action\<close> that of registering \<open>vc4_gem_destroy\<close>, which runs at once when it fails.\<close>
definition vc4_gem_init :: "bo_world \<Rightarrow> unit result \<Rightarrow> unit result \<Rightarrow> unit result \<Rightarrow> vc4_gem \<Rightarrow> (unit result \<times> vc4_gem) option" where
  "vc4_gem_init w power_lock pool_lock action g =
     (if \<not> vc4_gen_4 (gem_dev g) then Some (Inl ENODEV, g)
      else
        let g1 = g\<lparr>bin_job_list := [], render_job_list := [], job_done_list := [], seqno_cb_list := []\<rparr>
        in case power_lock of
             Inl e \<Rightarrow> Some (Inl e, g1)
           | Inr _ \<Rightarrow>
              let g2 = g1\<lparr>gem_dev := (gem_dev g1)\<lparr>purgeable_list := []\<rparr>\<rparr>
              in case pool_lock of
                   Inl e \<Rightarrow> Some (Inl e, g2)
                 | Inr _ \<Rightarrow> (case action of Inl e \<Rightarrow> map_option (Pair (Inl e)) (vc4_gem_destroy w g2) | Inr _ \<Rightarrow> Some (Inr (), g2)))"

end
