(* ===== verification/Vc4_Bo_Laws.thy ===== *)
theory Vc4_Bo_Laws
  imports Vc4_Bo
begin

text \<open>
  What the buffer objects of vc4 keep: the labels count the objects that carry them, the cache holds each freed object
  once under its size and age, the pool holds exactly the idle objects user space does not need, and every
  operation returns.
\<close>

subsection \<open>The invariant\<close>

definition acct :: "(vc4_bo \<Rightarrow> 'w::len word) \<Rightarrow> nat \<Rightarrow> (ptr \<Rightarrow> vc4_bo option) \<Rightarrow> 'w word" where
  "acct f l bos = (\<Sum>p\<in>dom bos. if bo_label (the (bos p)) = Some l then f (the (bos p)) else 0)"

abbreviation bo_share :: "(vc4_bo \<Rightarrow> 'w::len word) \<Rightarrow> nat \<Rightarrow> vc4_bo option \<Rightarrow> 'w word" where
  "bo_share f l b \<equiv> (case b of None \<Rightarrow> 0 | Some bo \<Rightarrow> if bo_label bo = Some l then f bo else 0)"

lemma acct_remove:
  assumes "finite (dom bos)"
  shows "acct f l bos = acct f l (bos(p := None)) + bo_share f l (bos p)"
proof (cases "p \<in> dom bos")
  case True
  then obtain bo where bo: "bos p = Some bo" by blast
  have "acct f l bos = bo_share f l (bos p) + (\<Sum>q\<in>dom bos - {p}. if bo_label (the (bos q)) = Some l then f (the (bos q)) else 0)"
    unfolding acct_def by (subst sum.remove [OF assms True]) (simp add: bo)
  also have "(\<Sum>q\<in>dom bos - {p}. if bo_label (the (bos q)) = Some l then f (the (bos q)) else 0) = acct f l (bos(p := None))"
    unfolding acct_def by (rule sum.cong) auto
  finally show ?thesis by (simp add: add.commute)
next
  case False
  then have "bos(p := None) = bos" "bos p = None" by (auto simp: domIff)
  then show ?thesis by simp
qed

lemma acct_update:
  assumes "finite (dom bos)"
  shows "acct f l (bos(p \<mapsto> bo)) = acct f l bos - bo_share f l (bos p) + bo_share f l (Some bo)"
  using acct_remove [of "bos(p \<mapsto> bo)" f l p] acct_remove [OF assms, of f l p] assms by simp

lemma acct_delete:
  assumes "finite (dom bos)"
  shows "acct f l (bos(p := None)) = acct f l bos - bo_share f l (bos p)"
  using acct_remove [OF assms, of f l p] by simp

definition names_ok :: "vc4_label list \<Rightarrow> bool" where
  "names_ok lbs \<longleftrightarrow>
     (\<forall>i<VC4_BO_TYPE_COUNT. lb_name (lbs ! i) = Some (bo_type_names ! i)) \<and>
     (\<forall>i<length lbs. \<forall>j<length lbs. lb_name (lbs ! i) \<noteq> None \<longrightarrow> lb_name (lbs ! i) = lb_name (lbs ! j) \<longrightarrow> i = j)"

text \<open>Each label counts the objects that carry it, and the names of the labels differ.\<close>
definition labels_ok :: "vc4_label list \<Rightarrow> (ptr \<Rightarrow> vc4_bo option) \<Rightarrow> bool" where
  "labels_ok lbs bos \<longleftrightarrow>
     VC4_BO_TYPE_COUNT \<le> length lbs \<and>
     (\<forall>l<length lbs. num_allocated (lbs ! l) = acct (\<lambda>_. 1) l bos \<and> size_allocated (lbs ! l) = acct (\<lambda>bo. ucast (bo_size bo)) l bos) \<and>
     (\<forall>p bo. bos p = Some bo \<longrightarrow> (\<exists>l<length lbs. bo_label bo = Some l)) \<and> names_ok lbs"

text \<open>An object in the cache is whole, unused and counted for the cache.\<close>
definition cacheable :: "nat \<Rightarrow> vc4_bo \<Rightarrow> bool" where
  "cacheable i bo \<longleftrightarrow> unat (bo_page_index (bo_size bo)) = i \<and> bo_label bo = Some VC4_BO_TYPE_KERNEL_CACHE \<and> bo_vaddr bo \<and>
     bo_madv bo = VC4_MADV_NOTSUPP \<and> bo_usecnt bo = 0 \<and> \<not> bo_validated_shader bo \<and> \<not> bo_t_format bo \<and> \<not> bo_imported bo \<and> \<not> bo_named bo"

definition cache_ok :: "ptr list list \<Rightarrow> ptr list \<Rightarrow> (ptr \<Rightarrow> vc4_bo option) \<Rightarrow> bool" where
  "cache_ok sl ts bos \<longleftrightarrow> distinct ts \<and> distinct (concat sl) \<and> set (concat sl) = set ts \<and>
     (\<forall>i<length sl. \<forall>p\<in>set (sl ! i). \<exists>bo. bos p = Some bo \<and> cacheable i bo)"

definition idle :: "vc4_bo \<Rightarrow> bool" where
  "idle bo \<longleftrightarrow> bo_madv bo = VC4_MADV_DONTNEED \<and> bo_usecnt bo = 0"

text \<open>The pool holds the idle objects, but for those in \<open>X\<close>, which an operation is working on.\<close>
definition pool_ok :: "ptr set \<Rightarrow> ptr list \<Rightarrow> u32 \<Rightarrow> u64 \<Rightarrow> (ptr \<Rightarrow> vc4_bo option) \<Rightarrow> bool" where
  "pool_ok X pl n sz bos \<longleftrightarrow> distinct pl \<and> set pl = {p. \<exists>bo. bos p = Some bo \<and> idle bo} - X \<and>
     n = of_nat (length pl) \<and> sz = (\<Sum>p\<in>set pl. bo_size (the (bos p)))"

definition size_ok :: "vc4_bo \<Rightarrow> bool" where
  "size_ok bo \<longleftrightarrow> bo_size bo \<noteq> 0 \<and> 4096 dvd unat (bo_size bo) \<and> unat (bo_size bo) < 2 ^ 44"

definition bo_wfx :: "ptr set \<Rightarrow> vc4_dev \<Rightarrow> bool" where
  "bo_wfx X dev \<longleftrightarrow> vc4_gen_4 dev \<and> finite (dom (vc4_bos dev)) \<and> (\<forall>p bo. vc4_bos dev p = Some bo \<longrightarrow> size_ok bo) \<and>
     labels_ok (bo_labels dev) (vc4_bos dev) \<and> cache_ok (size_list dev) (time_list dev) (vc4_bos dev) \<and>
     pool_ok X (purgeable_list dev) (purgeable_num dev) (purgeable_size dev) (vc4_bos dev)"

abbreviation bo_wf :: "vc4_dev \<Rightarrow> bool" where
  "bo_wf \<equiv> bo_wfx {}"

subsection \<open>Labels\<close>

lemma count_simps [simp]:
  "num_allocated (count_in bo lb) = num_allocated lb + 1" "size_allocated (count_in bo lb) = size_allocated lb + ucast (bo_size bo)"
  "lb_name (count_in bo lb) = lb_name lb"
  "num_allocated (count_out l bo lb) = num_allocated lb - 1" "size_allocated (count_out l bo lb) = size_allocated lb - ucast (bo_size bo)"
  by (simp_all add: count_in_def count_out_def Let_def)

lemma count_out_name:
  "lb_name (count_out l bo lb) = lb_name lb \<or> (VC4_BO_TYPE_COUNT \<le> l \<and> lb_name (count_out l bo lb) = None)"
  by (simp add: count_out_def Let_def is_user_label_def)

text \<open>The array after an object moved from one label to another, or to none.\<close>
definition relabel :: "vc4_bo \<Rightarrow> nat \<Rightarrow> nat option \<Rightarrow> vc4_label list \<Rightarrow> vc4_label list" where
  "relabel bo old label lbs =
     (let lbs1 = (case label of None \<Rightarrow> lbs | Some l \<Rightarrow> lbs[l := count_in bo (lbs ! l)])
      in lbs1[old := count_out old bo (lbs1 ! old)])"

lemma vc4_bo_set_label_eq:
  assumes "vc4_bos dev p = Some bo" and "bo_label bo = Some old" and "old < length (bo_labels dev)"
    and "\<And>l. label = Some l \<Longrightarrow> l < length (bo_labels dev)"
  shows "vc4_bo_set_label p label dev =
    Some (dev\<lparr>bo_labels := relabel bo old label (bo_labels dev), vc4_bos := (vc4_bos dev)(p \<mapsto> bo\<lparr>bo_label := label\<rparr>)\<rparr>)"
  using assms by (cases label) (simp_all add: vc4_bo_set_label_def upd_label_def upd_bo_def relabel_def Let_def)

lemma relabel_simps:
  assumes "l < length lbs" and "old < length lbs" and "\<And>k. label = Some k \<Longrightarrow> k < length lbs"
  shows "num_allocated (relabel bo old label lbs ! l) =
      num_allocated (lbs ! l) + (if label = Some l then 1 else 0) - (if old = l then 1 else 0)" (is ?n)
    and "size_allocated (relabel bo old label lbs ! l) =
      size_allocated (lbs ! l) + (if label = Some l then ucast (bo_size bo) else 0) - (if old = l then ucast (bo_size bo) else 0)" (is ?s)
    and "lb_name (relabel bo old label lbs ! l) = lb_name (lbs ! l) \<or>
      (VC4_BO_TYPE_COUNT \<le> l \<and> lb_name (relabel bo old label lbs ! l) = None)" (is ?m)
proof -
  show ?n ?s using assms by (cases label; simp add: relabel_def nth_list_update)+
  show ?m using assms count_out_name [of l bo "lbs ! l"] count_out_name [of l bo "count_in bo (lbs ! l)"]
    by (cases label; simp add: relabel_def nth_list_update)
qed

lemma length_relabel [simp]: "length (relabel bo old label lbs) = length lbs"
  by (simp add: relabel_def Let_def split: option.split)

lemma names_ok_keep:
  assumes ok: "names_ok lbs" and len: "length lbs' = length lbs" "VC4_BO_TYPE_COUNT \<le> length lbs"
    and keep: "\<And>i. i < length lbs \<Longrightarrow> lb_name (lbs' ! i) = lb_name (lbs ! i) \<or> (VC4_BO_TYPE_COUNT \<le> i \<and> lb_name (lbs' ! i) = None)"
  shows "names_ok lbs'"
  unfolding names_ok_def len(1)
proof (intro conjI allI impI)
  fix i assume i: "i < VC4_BO_TYPE_COUNT"
  with len have "i < length lbs" by simp
  with keep [of i] i ok show "lb_name (lbs' ! i) = Some (bo_type_names ! i)" by (auto simp: names_ok_def)
next
  fix i j assume "i < length lbs" "j < length lbs" "lb_name (lbs' ! i) \<noteq> None" "lb_name (lbs' ! i) = lb_name (lbs' ! j)"
  with keep [of i] keep [of j] ok show "i = j" unfolding names_ok_def by (metis (no_types, lifting))
qed

lemma labels_ok_relabel:
  assumes ok: "labels_ok lbs bos" and fin: "finite (dom bos)" and p: "bos p = Some bo" and old: "bo_label bo = Some old"
    and new: "bos' = (case label of None \<Rightarrow> bos(p := None) | Some l \<Rightarrow> bos(p \<mapsto> bo\<lparr>bo_label := label\<rparr>))"
    and l: "\<And>k. label = Some k \<Longrightarrow> k < length lbs"
  shows "labels_ok (relabel bo old label lbs) bos'"
proof -
  have o: "old < length lbs" using ok p old unfolding labels_ok_def by (metis option.inject)
  have names: "names_ok (relabel bo old label lbs)"
  proof (rule names_ok_keep)
    show "names_ok lbs" "VC4_BO_TYPE_COUNT \<le> length lbs" using ok by (simp_all add: labels_ok_def)
  next
    fix i assume "i < length lbs"
    then show "lb_name (relabel bo old label lbs ! i) = lb_name (lbs ! i) \<or> (VC4_BO_TYPE_COUNT \<le> i \<and> lb_name (relabel bo old label lbs ! i) = None)"
      using o l by (rule relabel_simps(3))
  qed simp
  have count: "num_allocated (relabel bo old label lbs ! i) = acct (\<lambda>_. 1) i bos' \<and>
      size_allocated (relabel bo old label lbs ! i) = acct (\<lambda>bo. ucast (bo_size bo)) i bos'" if i: "i < length lbs" for i
  proof -
    have "num_allocated (lbs ! i) = acct (\<lambda>_. 1) i bos" "size_allocated (lbs ! i) = acct (\<lambda>bo. ucast (bo_size bo)) i bos"
      using ok i by (auto simp: labels_ok_def)
    moreover note relabel_simps(1) [OF i o, of label bo] relabel_simps(2) [OF i o, of label bo]
    ultimately show ?thesis using p old l unfolding new
      by (cases label) (simp_all add: acct_update [OF fin] acct_delete [OF fin])
  qed
  show ?thesis
    unfolding labels_ok_def length_relabel
  proof (intro conjI allI impI)
    fix q b assume "bos' q = Some b"
    then show "\<exists>l<length lbs. bo_label b = Some l" using ok l unfolding new
      by (cases label) (auto simp: labels_ok_def split: if_splits)
  qed (use ok count names in \<open>auto simp: labels_ok_def\<close>)
qed

lemma wf_labelE:
  assumes "bo_wfx X dev" and "vc4_bos dev p = Some bo"
  obtains l where "bo_label bo = Some l" "l < length (bo_labels dev)"
  using assms unfolding bo_wfx_def labels_ok_def by blast

text \<open>Destroying an object that is in no list.\<close>
lemma vc4_bo_destroy_eq:
  assumes wf: "bo_wfx X dev" and p: "vc4_bos dev p = Some bo"
  shows "\<exists>lbs. vc4_bo_destroy p dev = Some (dev\<lparr>bo_labels := lbs, vc4_bos := (vc4_bos dev)(p := None)\<rparr>) \<and>
     length lbs = length (bo_labels dev) \<and> labels_ok lbs ((vc4_bos dev)(p := None))"
proof -
  obtain l where l: "bo_label bo = Some l" "l < length (bo_labels dev)" using wf p by (rule wf_labelE)
  have "labels_ok (relabel bo l None (bo_labels dev)) ((vc4_bos dev)(p := None))"
    using labels_ok_relabel [of "bo_labels dev" "vc4_bos dev" p bo l _ None] wf p l by (simp add: bo_wfx_def)
  then show ?thesis using vc4_bo_set_label_eq [OF p l, of None] by (auto simp: vc4_bo_destroy_def)
qed

subsection \<open>Changing one object\<close>

lemma labels_ok_update:
  assumes "labels_ok lbs bos" and "finite (dom bos)" and "bos p = Some bo" and "bo_label bo' = bo_label bo" and "bo_size bo' = bo_size bo"
  shows "labels_ok lbs (bos(p \<mapsto> bo'))"
proof -
  have "acct f l (bos(p \<mapsto> bo')) = acct f l bos" if "f bo' = f bo" for f :: "vc4_bo \<Rightarrow> 32 word" and l
    using assms that by (simp add: acct_update)
  then show ?thesis using assms by (simp add: labels_ok_def)
qed

lemma labels_ok_new:
  assumes ok: "labels_ok lbs bos" and fin: "finite (dom bos)" and p: "bos p = None" and l: "bo_label bo = Some l" "l < length lbs"
  shows "labels_ok (lbs[l := count_in bo (lbs ! l)]) (bos(p \<mapsto> bo))"
proof -
  have "names_ok (lbs[l := count_in bo (lbs ! l)])"
  proof (rule names_ok_keep)
    show "names_ok lbs" "VC4_BO_TYPE_COUNT \<le> length lbs" using ok by (simp_all add: labels_ok_def)
  qed (use l in \<open>simp_all add: nth_list_update\<close>)
  then show ?thesis
    unfolding labels_ok_def length_list_update
  proof (intro conjI allI impI)
    fix i assume i: "i < length lbs"
    show "num_allocated (lbs[l := count_in bo (lbs ! l)] ! i) = acct (\<lambda>_. 1) i (bos(p \<mapsto> bo))"
      using ok i p l by (simp add: nth_list_update acct_update [OF fin] labels_ok_def)
    show "size_allocated (lbs[l := count_in bo (lbs ! l)] ! i) = acct (\<lambda>bo. ucast (bo_size bo)) i (bos(p \<mapsto> bo))"
      using ok i p l by (simp add: nth_list_update acct_update [OF fin] labels_ok_def)
  qed (use ok l in \<open>auto simp: labels_ok_def split: if_splits\<close>)
qed

lemma cache_ok_other: "cache_ok sl ts bos \<Longrightarrow> p \<notin> set ts \<Longrightarrow> cache_ok sl ts (bos(p := b))"
  unfolding cache_ok_def by (auto simp: set_conv_nth [of sl])

lemma pool_ok_out:
  assumes "pool_ok X pl n sz bos" and "p \<notin> set pl" and "\<And>bo. b = Some bo \<Longrightarrow> \<not> idle bo"
  shows "pool_ok (X - {p}) pl n sz (bos(p := b))"
proof -
  have "(\<Sum>q\<in>set pl. bo_size (the ((bos(p := b)) q))) = (\<Sum>q\<in>set pl. bo_size (the (bos q)))"
    using assms(2) by (intro sum.cong) auto
  moreover have "{q. \<exists>bo. (bos(p := b)) q = Some bo \<and> idle bo} = {q. \<exists>bo. bos q = Some bo \<and> idle bo} - {p}"
    using assms(3) by (auto split: if_splits)
  ultimately show ?thesis using assms(1,2) unfolding pool_ok_def by auto
qed

lemma pool_ok_update:
  assumes "pool_ok X pl n sz bos" and "bos p = Some bo" and "bo_size bo' = bo_size bo" and "idle bo' = idle bo"
  shows "pool_ok X pl n sz (bos(p \<mapsto> bo'))"
proof -
  have "(\<Sum>q\<in>set pl. bo_size (the ((bos(p \<mapsto> bo')) q))) = (\<Sum>q\<in>set pl. bo_size (the (bos q)))"
    using assms(2,3) by (intro sum.cong) auto
  moreover have "{q. \<exists>bo. (bos(p \<mapsto> bo')) q = Some bo \<and> idle bo} = {q. \<exists>bo. bos q = Some bo \<and> idle bo}"
    using assms(2,4) by (auto split: if_splits)
  ultimately show ?thesis using assms(1) unfolding pool_ok_def by simp
qed

lemma pool_ok_enter:
  assumes ok: "pool_ok X pl n sz bos" and p: "bos p = Some bo" "\<not> idle bo" "p \<notin> X" and new: "bo_size bo' = bo_size bo" "idle bo'"
  shows "pool_ok X (pl @ [p]) (n + 1) (sz + bo_size bo) (bos(p \<mapsto> bo'))"
proof -
  have np: "p \<notin> set pl" using ok p by (auto simp: pool_ok_def)
  have "(\<Sum>q\<in>set pl. bo_size (the ((bos(p \<mapsto> bo')) q))) = (\<Sum>q\<in>set pl. bo_size (the (bos q)))"
    using np by (intro sum.cong) auto
  then have "(\<Sum>q\<in>set (pl @ [p]). bo_size (the ((bos(p \<mapsto> bo')) q))) = (\<Sum>q\<in>set pl. bo_size (the (bos q))) + bo_size bo"
    using np new by (simp add: add.commute)
  moreover have "{q. \<exists>bo. (bos(p \<mapsto> bo')) q = Some bo \<and> idle bo} = insert p {q. \<exists>bo. bos q = Some bo \<and> idle bo}"
    using p new by (auto split: if_splits)
  ultimately show ?thesis using ok np p(3) unfolding pool_ok_def by auto
qed

lemma length_removeAll_distinct: "distinct xs \<Longrightarrow> x \<in> set xs \<Longrightarrow> length xs = Suc (length (removeAll x xs))"
  by (induction xs) auto

lemma pool_ok_leave:
  assumes ok: "pool_ok X pl n sz bos" and p: "bos p = Some bo" "p \<in> set pl"
  shows "pool_ok (insert p X) (removeAll p pl) (n - 1) (sz - bo_size bo) bos"
proof -
  have d: "distinct pl" using ok by (simp add: pool_ok_def)
  then have "length pl = Suc (length (removeAll p pl))" using p by (intro length_removeAll_distinct)
  moreover have "(\<Sum>q\<in>set pl. bo_size (the (bos q))) = bo_size bo + (\<Sum>q\<in>set pl - {p}. bo_size (the (bos q)))"
    using p by (subst sum.remove) auto
  ultimately show ?thesis using ok p d unfolding pool_ok_def by (auto simp: distinct_removeAll)
qed

text \<open>A change that keeps the label, the size and whether the object is idle.\<close>
lemma bo_wfx_update:
  assumes "bo_wfx X dev" and "vc4_bos dev p = Some bo" and "p \<notin> set (time_list dev)"
    and "bo_label bo' = bo_label bo" and "bo_size bo' = bo_size bo" and "idle bo' = idle bo"
  shows "bo_wfx X (dev\<lparr>vc4_bos := (vc4_bos dev)(p \<mapsto> bo')\<rparr>)"
  using assms labels_ok_update [of "bo_labels dev" "vc4_bos dev" p bo bo'] cache_ok_other [of _ _ "vc4_bos dev" p]
    pool_ok_update [of X _ _ _ "vc4_bos dev" p bo bo']
  unfolding bo_wfx_def by (auto simp: size_ok_def)

text \<open>An object that is not or no longer idle, and whose place in the pool was given up.\<close>
lemma bo_wfx_settle:
  assumes "bo_wfx X dev" and "vc4_bos dev p = Some bo" and "p \<notin> set (time_list dev)" and "p \<notin> set (purgeable_list dev)"
    and "bo_label bo' = bo_label bo" and "bo_size bo' = bo_size bo" and "\<not> idle bo'"
  shows "bo_wfx (X - {p}) (dev\<lparr>vc4_bos := (vc4_bos dev)(p \<mapsto> bo')\<rparr>)"
  using assms labels_ok_update [of "bo_labels dev" "vc4_bos dev" p bo bo'] cache_ok_other [of _ _ "vc4_bos dev" p]
    pool_ok_out [of X _ _ _ "vc4_bos dev" p "Some bo'"]
  unfolding bo_wfx_def by (auto simp: size_ok_def)

lemma vc4_bo_destroy_wf:
  assumes wf: "bo_wfx X dev" and p: "vc4_bos dev p = Some bo" "p \<notin> set (time_list dev)" "p \<notin> set (purgeable_list dev)"
  shows "\<exists>lbs. vc4_bo_destroy p dev = Some (dev\<lparr>bo_labels := lbs, vc4_bos := (vc4_bos dev)(p := None)\<rparr>) \<and>
     length lbs = length (bo_labels dev) \<and> bo_wfx (X - {p}) (dev\<lparr>bo_labels := lbs, vc4_bos := (vc4_bos dev)(p := None)\<rparr>)"
  using vc4_bo_destroy_eq [OF wf p(1)] cache_ok_other [of _ _ "vc4_bos dev" p] pool_ok_out [of X _ _ _ "vc4_bos dev" p None] wf p
  unfolding bo_wfx_def by auto

lemma vc4_bo_set_label_wf:
  assumes wf: "bo_wfx X dev" and p: "vc4_bos dev p = Some bo" "p \<notin> set (time_list dev)" and l: "l < length (bo_labels dev)"
  shows "\<exists>lbs. vc4_bo_set_label p (Some l) dev = Some (dev\<lparr>bo_labels := lbs, vc4_bos := (vc4_bos dev)(p \<mapsto> bo\<lparr>bo_label := Some l\<rparr>)\<rparr>) \<and>
     length lbs = length (bo_labels dev) \<and>
     bo_wfx X (dev\<lparr>bo_labels := lbs, vc4_bos := (vc4_bos dev)(p \<mapsto> bo\<lparr>bo_label := Some l\<rparr>)\<rparr>)"
proof -
  obtain k where k: "bo_label bo = Some k" "k < length (bo_labels dev)" using wf p(1) by (rule wf_labelE)
  have "labels_ok (relabel bo k (Some l) (bo_labels dev)) ((vc4_bos dev)(p \<mapsto> bo\<lparr>bo_label := Some l\<rparr>))"
    using labels_ok_relabel [of "bo_labels dev" "vc4_bos dev" p bo k _ "Some l"] wf p(1) k l by (simp add: bo_wfx_def)
  then have "bo_wfx X (dev\<lparr>bo_labels := relabel bo k (Some l) (bo_labels dev), vc4_bos := (vc4_bos dev)(p \<mapsto> bo\<lparr>bo_label := Some l\<rparr>)\<rparr>)"
    using wf p cache_ok_other [of _ _ "vc4_bos dev" p] pool_ok_update [of X _ _ _ "vc4_bos dev" p bo "bo\<lparr>bo_label := Some l\<rparr>"]
    unfolding bo_wfx_def by (auto simp: size_ok_def idle_def)
  moreover have "vc4_bo_set_label p (Some l) dev =
      Some (dev\<lparr>bo_labels := relabel bo k (Some l) (bo_labels dev), vc4_bos := (vc4_bos dev)(p \<mapsto> bo\<lparr>bo_label := Some l\<rparr>)\<rparr>)"
    using vc4_bo_set_label_eq [OF p(1) k, of "Some l"] l by simp
  ultimately show ?thesis by auto
qed

subsection \<open>The cache\<close>

lemma cached_bo:
  assumes "bo_wfx X dev" and "p \<in> set (time_list dev)"
  shows "\<exists>bo i. vc4_bos dev p = Some bo \<and> i < length (size_list dev) \<and> p \<in> set (size_list dev ! i) \<and> cacheable i bo"
proof -
  have "p \<in> set (concat (size_list dev))" using assms by (simp add: bo_wfx_def cache_ok_def)
  then obtain xs where "xs \<in> set (size_list dev)" "p \<in> set xs" by auto
  then obtain i where i: "i < length (size_list dev)" "p \<in> set (size_list dev ! i)" by (auto simp: in_set_conv_nth [of xs])
  moreover from i assms obtain bo where "vc4_bos dev p = Some bo" "cacheable i bo" unfolding bo_wfx_def cache_ok_def by blast
  ultimately show ?thesis by blast
qed

lemma cached_not_pooled: "bo_wfx X dev \<Longrightarrow> p \<in> set (time_list dev) \<Longrightarrow> p \<notin> set (purgeable_list dev)"
  using cached_bo [of X dev p] by (auto simp: bo_wfx_def pool_ok_def idle_def cacheable_def)

lemma distinct_concat_removeAll: "distinct (concat xss) \<Longrightarrow> distinct (concat (map (removeAll p) xss))"
proof -
  have "concat (map (removeAll p) xss) = removeAll p (concat xss)" by (induction xss) auto
  then show "distinct (concat xss) \<Longrightarrow> ?thesis" by (simp add: distinct_removeAll)
qed

lemma vc4_bo_remove_from_cache_simps [simp]:
  "vc4_bos (vc4_bo_remove_from_cache p dev) = vc4_bos dev" "bo_labels (vc4_bo_remove_from_cache p dev) = bo_labels dev"
  "time_list (vc4_bo_remove_from_cache p dev) = removeAll p (time_list dev)" "vc4_gen_4 (vc4_bo_remove_from_cache p dev) = vc4_gen_4 dev"
  "size_list (vc4_bo_remove_from_cache p dev) = map (removeAll p) (size_list dev)"
  "purgeable_list (vc4_bo_remove_from_cache p dev) = removeAll p (purgeable_list dev)"
  "purgeable_num (vc4_bo_remove_from_cache p dev) = purgeable_num dev" "purgeable_size (vc4_bo_remove_from_cache p dev) = purgeable_size dev"
  "purged_num (vc4_bo_remove_from_cache p dev) = purged_num dev" "purged_size (vc4_bo_remove_from_cache p dev) = purged_size dev"
  by (simp_all add: vc4_bo_remove_from_cache_def del_size_head_def)

lemma vc4_bo_remove_from_cache_wf:
  assumes wf: "bo_wfx X dev" and p: "p \<in> set (time_list dev)"
  shows "bo_wfx X (vc4_bo_remove_from_cache p dev)" and "purgeable_list (vc4_bo_remove_from_cache p dev) = purgeable_list dev"
proof -
  show pl: "purgeable_list (vc4_bo_remove_from_cache p dev) = purgeable_list dev" using cached_not_pooled [OF assms] by simp
  have "cache_ok (map (removeAll p) (size_list dev)) (removeAll p (time_list dev)) (vc4_bos dev)"
    using wf distinct_concat_removeAll [of "size_list dev" p]
    by (auto simp: bo_wfx_def cache_ok_def distinct_removeAll)
  then show "bo_wfx X (vc4_bo_remove_from_cache p dev)" using wf pl unfolding bo_wfx_def by simp
qed

text \<open>What emptying the cache leaves as it is.\<close>
definition cache_frame :: "vc4_dev \<Rightarrow> vc4_dev \<Rightarrow> bool" where
  "cache_frame dev dev' \<longleftrightarrow> length (bo_labels dev') = length (bo_labels dev) \<and> purgeable_list dev' = purgeable_list dev \<and>
     purged_num dev' = purged_num dev \<and> purged_size dev' = purged_size dev \<and>
     size_list dev' = map (filter (\<lambda>q. q \<notin> set (time_list dev) - set (time_list dev'))) (size_list dev) \<and>
     set (time_list dev') \<subseteq> set (time_list dev) \<and>
     (\<forall>q. vc4_bos dev' q = (if q \<in> set (time_list dev) - set (time_list dev') then None else vc4_bos dev q))"

lemma map_filter_all [simp]: "map (filter (\<lambda>q. True)) xss = xss"
  by (intro map_idI) simp

lemma removeAll_member: "p \<in> A \<Longrightarrow> removeAll p xs = filter (\<lambda>q. q \<in> A \<longrightarrow> q \<noteq> p) xs"
  by (induction xs) auto

lemma cache_frame_refl [simp]: "cache_frame dev dev"
  by (simp add: cache_frame_def)

lemma cache_frame_trans: "cache_frame d1 d2 \<Longrightarrow> cache_frame d2 d3 \<Longrightarrow> cache_frame d1 d3"
  unfolding cache_frame_def by (auto intro!: filter_cong)

lemma removeAll_last: "distinct xs \<Longrightarrow> xs \<noteq> [] \<Longrightarrow> removeAll (last xs) xs @ [last xs] = xs"
  by (cases xs rule: rev_cases) auto

text \<open>One turn of the loops that empty the cache.\<close>
lemma cache_drop:
  assumes wf: "bo_wf dev" and p: "p \<in> set (time_list dev)"
  shows "\<exists>dev'. vc4_bo_destroy p (vc4_bo_remove_from_cache p dev) = Some dev' \<and> bo_wf dev' \<and> cache_frame dev dev' \<and>
     time_list dev' = removeAll p (time_list dev) \<and> time_timer dev' = time_timer dev"
proof -
  obtain bo where bo: "vc4_bos dev p = Some bo" using cached_bo [OF assms] by blast
  note rm = vc4_bo_remove_from_cache_wf [OF assms]
  have np: "p \<notin> set (purgeable_list dev)" using cached_not_pooled [OF assms] .
  have tt: "time_timer (vc4_bo_remove_from_cache p dev) = time_timer dev" by (simp add: vc4_bo_remove_from_cache_def del_size_head_def)
  from vc4_bo_destroy_wf [OF rm(1), of p bo] bo rm(2) np obtain lbs where
    "vc4_bo_destroy p (vc4_bo_remove_from_cache p dev) =
       Some (vc4_bo_remove_from_cache p dev\<lparr>bo_labels := lbs, vc4_bos := (vc4_bos dev)(p := None)\<rparr>)"
    "length lbs = length (bo_labels dev)" "bo_wf (vc4_bo_remove_from_cache p dev\<lparr>bo_labels := lbs, vc4_bos := (vc4_bos dev)(p := None)\<rparr>)"
    by auto
  then show ?thesis using rm(2) p tt by (auto simp: cache_frame_def removeAll_member)
qed

lemma vc4_bo_cache_purge_returns:
  assumes "bo_wf dev"
  shows "\<exists>dev'. vc4_bo_cache_purge dev = Some dev' \<and> bo_wf dev' \<and> cache_frame dev dev' \<and> time_list dev' = []"
  using assms
proof (induction "length (time_list dev)" arbitrary: dev rule: less_induct)
  case less
  show ?case
  proof (cases "time_list dev = []")
    case True
    then show ?thesis using less.prems by (subst vc4_bo_cache_purge.simps) simp
  next
    case False
    then have p: "last (time_list dev) \<in> set (time_list dev)" by simp
    from cache_drop [OF less.prems this] obtain d where d:
      "vc4_bo_destroy (last (time_list dev)) (vc4_bo_remove_from_cache (last (time_list dev)) dev) = Some d" "bo_wf d"
      "cache_frame dev d" "time_list d = removeAll (last (time_list dev)) (time_list dev)" by blast
    then have "length (time_list d) < length (time_list dev)" using length_removeAll_less [OF p] by simp
    then obtain d' where "vc4_bo_cache_purge d = Some d'" "bo_wf d'" "cache_frame d d'" "time_list d' = []"
      using less.hyps d(2) by blast
    then show ?thesis using d False cache_frame_trans by (subst vc4_bo_cache_purge.simps) (auto simp: Let_def)
  qed
qed

text \<open>The objects freed more than a second ago go; those younger stay, as the list is in the order of age.\<close>
lemma vc4_bo_cache_free_old_returns:
  assumes "bo_wf dev"
  shows "\<exists>dev'. vc4_bo_cache_free_old now second dev = Some dev' \<and> bo_wf dev' \<and> cache_frame dev dev' \<and>
     (\<exists>old. time_list dev = time_list dev' @ old \<and>
        (\<forall>q\<in>set old. \<exists>bo. vc4_bos dev q = Some bo \<and> \<not> time_before (now - second) (bo_free_time bo))) \<and>
     (time_list dev' \<noteq> [] \<longrightarrow> time_timer dev' \<and>
        (\<exists>bo. vc4_bos dev' (last (time_list dev')) = Some bo \<and> time_before (now - second) (bo_free_time bo)))"
  using assms
proof (induction "length (time_list dev)" arbitrary: dev rule: less_induct)
  case less
  show ?case
  proof (cases "time_list dev = []")
    case True
    then show ?thesis using less.prems by (subst vc4_bo_cache_free_old.simps) simp
  next
    case False
    define p where "p = last (time_list dev)"
    have p: "p \<in> set (time_list dev)" using False by (simp add: p_def)
    then obtain bo where bo: "vc4_bos dev p = Some bo" using cached_bo less.prems by blast
    show ?thesis
    proof (cases "time_before (now - second) (bo_free_time bo)")
      case True
      have "bo_wf (dev\<lparr>time_timer := True\<rparr>)" "cache_frame dev (dev\<lparr>time_timer := True\<rparr>)"
        using less.prems by (simp_all add: bo_wfx_def cache_frame_def)
      then show ?thesis using True False bo by (subst vc4_bo_cache_free_old.simps) (auto simp: Let_def p_def)
    next
      case old: False
      from cache_drop [OF less.prems p] obtain d where d:
        "vc4_bo_destroy p (vc4_bo_remove_from_cache p dev) = Some d" "bo_wf d"
        "cache_frame dev d" "time_list d = removeAll p (time_list dev)" by blast
      have "distinct (time_list dev)" using less.prems by (simp add: bo_wfx_def cache_ok_def)
      then have tl: "time_list dev = time_list d @ [p]" using False d(4) by (simp add: removeAll_last p_def)
      then have "length (time_list d) < length (time_list dev)" by simp
      from less.hyps [OF this d(2)] obtain d' old where r: "vc4_bo_cache_free_old now second d = Some d'" "bo_wf d'" "cache_frame d d'"
        "time_list d = time_list d' @ old" "\<forall>q\<in>set old. \<exists>bo. vc4_bos d q = Some bo \<and> \<not> time_before (now - second) (bo_free_time bo)"
        "time_list d' \<noteq> [] \<longrightarrow> time_timer d' \<and>
          (\<exists>bo. vc4_bos d' (last (time_list d')) = Some bo \<and> time_before (now - second) (bo_free_time bo))" by blast
      have "vc4_bos dev q = vc4_bos d q" if "q \<in> set old" for q
        using that r(4) d(3) by (auto simp: cache_frame_def)
      then have "\<forall>q\<in>set (old @ [p]). \<exists>bo. vc4_bos dev q = Some bo \<and> \<not> time_before (now - second) (bo_free_time bo)"
        using r(5) bo old by auto
      moreover have "time_list dev = time_list d' @ (old @ [p])" using tl r(4) by simp
      moreover have "vc4_bo_cache_free_old now second dev = Some d'"
        using r(1) d(1) False bo old unfolding p_def by (subst vc4_bo_cache_free_old.simps) (simp add: Let_def)
      ultimately show ?thesis using r(2,6) cache_frame_trans [OF d(3) r(3)] by blast
    qed
  qed
qed

subsection \<open>The pool\<close>

lemma pooled_bo:
  assumes "bo_wfx X dev" and "p \<in> set (purgeable_list dev)"
  shows "\<exists>bo. vc4_bos dev p = Some bo \<and> idle bo \<and> p \<notin> set (time_list dev)"
  using assms cached_not_pooled [OF assms(1), of p] by (auto simp: bo_wfx_def pool_ok_def)

lemma pooled_iff:
  assumes "bo_wfx X dev" and "vc4_bos dev p = Some bo" and "p \<notin> X"
  shows "p \<in> set (purgeable_list dev) \<longleftrightarrow> idle bo"
  using assms by (auto simp: bo_wfx_def pool_ok_def)

lemma not_cached_removeAll: "bo_wfx X dev \<Longrightarrow> p \<notin> set (time_list dev) \<Longrightarrow> map (removeAll p) (size_list dev) = size_list dev"
  by (intro map_idI removeAll_id) (auto simp: bo_wfx_def cache_ok_def)

text \<open>Giving up the place in the pool: the object is the caller's.\<close>
lemma vc4_bo_remove_from_purgeable_pool_wf:
  assumes wf: "bo_wfx X dev" and p: "p \<in> set (purgeable_list dev)" "vc4_bos dev p = Some bo"
  shows "\<exists>dev'. vc4_bo_remove_from_purgeable_pool_locked p dev = Some dev' \<and> bo_wfx (insert p X) dev' \<and>
     dev' = dev\<lparr>purgeable_list := removeAll p (purgeable_list dev), purgeable_num := purgeable_num dev - 1,
       purgeable_size := purgeable_size dev - bo_size bo\<rparr>"
proof -
  have np: "p \<notin> set (time_list dev)" using pooled_bo [OF wf p(1)] by blast
  have "vc4_bo_remove_from_purgeable_pool_locked p dev =
      Some (dev\<lparr>purgeable_list := removeAll p (purgeable_list dev), purgeable_num := purgeable_num dev - 1,
        purgeable_size := purgeable_size dev - bo_size bo\<rparr>)"
    using wf p(2) not_cached_removeAll [OF wf np]
    by (simp add: vc4_bo_remove_from_purgeable_pool_locked_def del_size_head_def bo_wfx_def)
  moreover have "bo_wfx (insert p X) (dev\<lparr>purgeable_list := removeAll p (purgeable_list dev), purgeable_num := purgeable_num dev - 1,
        purgeable_size := purgeable_size dev - bo_size bo\<rparr>)"
    using wf pool_ok_leave [of X _ _ _ "vc4_bos dev" p bo] p by (simp add: bo_wfx_def)
  ultimately show ?thesis by blast
qed

text \<open>What a purge does to an object.\<close>
definition purged :: "vc4_bo \<Rightarrow> vc4_bo" where
  "purged bo = (if idle bo then vc4_bo_purge bo else bo)"

text \<open>One turn of the purge, with no other thread at work.\<close>
lemma pool_drop:
  assumes wf: "bo_wf dev" and p: "p \<in> set (purgeable_list dev)"
  shows "\<exists>d1 d2 bo. vc4_bo_remove_from_purgeable_pool_locked p dev = Some d1 \<and> purge_one p d1 = Some d2 \<and> bo_wf d2 \<and>
     vc4_bos dev p = Some bo \<and> idle bo \<and>
     d2 = dev\<lparr>purgeable_list := removeAll p (purgeable_list dev), purgeable_num := purgeable_num dev - 1,
       purgeable_size := purgeable_size dev - bo_size bo, vc4_bos := (vc4_bos dev)(p \<mapsto> vc4_bo_purge bo),
       purged_size := purged_size dev + bo_size bo, purged_num := purged_num dev + 1\<rparr>"
proof -
  obtain bo where bo: "vc4_bos dev p = Some bo" "idle bo" "p \<notin> set (time_list dev)" using pooled_bo [OF wf p] by blast
  from vc4_bo_remove_from_purgeable_pool_wf [OF wf p bo(1)] obtain d1 where
    d1: "vc4_bo_remove_from_purgeable_pool_locked p dev = Some d1" "bo_wfx {p} d1"
      "d1 = dev\<lparr>purgeable_list := removeAll p (purgeable_list dev), purgeable_num := purgeable_num dev - 1,
        purgeable_size := purgeable_size dev - bo_size bo\<rparr>" by blast
  have "set (concat (size_list dev)) = set (time_list dev)" using wf by (simp add: bo_wfx_def cache_ok_def)
  then have "\<not> linked p d1" using bo(3) d1(3) by (simp add: linked_def)
  moreover have "bo_size bo \<noteq> 0" using wf bo(1) by (auto simp: bo_wfx_def size_ok_def)
  ultimately have "purge_one p d1 = Some (d1\<lparr>vc4_bos := (vc4_bos d1)(p \<mapsto> vc4_bo_purge bo),
      purged_size := purged_size d1 + bo_size bo, purged_num := purged_num d1 + 1\<rparr>)"
    using bo d1(3) by (simp add: purge_one_def Let_def idle_def)
  moreover have "bo_wf (d1\<lparr>vc4_bos := (vc4_bos d1)(p \<mapsto> vc4_bo_purge bo)\<rparr>)"
    using bo_wfx_settle [OF d1(2), of p bo "vc4_bo_purge bo"] bo d1(3) by (simp add: vc4_bo_purge_def idle_def)
  then have "bo_wf (d1\<lparr>vc4_bos := (vc4_bos d1)(p \<mapsto> vc4_bo_purge bo),
      purged_size := purged_size d1 + bo_size bo, purged_num := purged_num d1 + 1\<rparr>)" by (simp add: bo_wfx_def)
  ultimately show ?thesis using d1(1) bo unfolding d1(3) by auto
qed

text \<open>With no other thread at work, the purge empties the pool: each idle object loses its memory, no other object changes.\<close>
lemma vc4_bo_userspace_cache_purge_returns:
  assumes "bo_wf dev"
  shows "\<exists>dev'. vc4_bo_userspace_cache_purge (\<lambda>_ d. d) dev = Some dev' \<and> bo_wf dev' \<and> purgeable_list dev' = [] \<and>
     vc4_bos dev' = map_option purged \<circ> vc4_bos dev \<and> size_list dev' = size_list dev \<and> time_list dev' = time_list dev \<and>
     bo_labels dev' = bo_labels dev \<and> purged_num dev' = purged_num dev + of_nat (length (purgeable_list dev)) \<and>
     purged_size dev' = purged_size dev + purgeable_size dev"
  using assms
proof (induction "length (purgeable_list dev)" arbitrary: dev rule: less_induct)
  case less
  note ok = less.prems [unfolded bo_wfx_def pool_ok_def]
  show ?case
  proof (cases "purgeable_list dev = []")
    case True
    with ok have "map_option purged \<circ> vc4_bos dev = vc4_bos dev" and "purgeable_size dev = 0"
      by (auto simp: purged_def fun_eq_iff map_option_cong option.map_ident split: option.splits)
    then show ?thesis using True less.prems by (subst vc4_bo_userspace_cache_purge.simps) simp
  next
    case False
    define p where "p = hd (purgeable_list dev)"
    have p: "p \<in> set (purgeable_list dev)" using False by (simp add: p_def)
    from pool_drop [OF less.prems p] obtain d1 d2 bo where d: "vc4_bo_remove_from_purgeable_pool_locked p dev = Some d1"
      "purge_one p d1 = Some d2" "bo_wf d2" "vc4_bos dev p = Some bo" "idle bo" and
      d2: "d2 = dev\<lparr>purgeable_list := removeAll p (purgeable_list dev), purgeable_num := purgeable_num dev - 1,
       purgeable_size := purgeable_size dev - bo_size bo, vc4_bos := (vc4_bos dev)(p \<mapsto> vc4_bo_purge bo),
       purged_size := purged_size dev + bo_size bo, purged_num := purged_num dev + 1\<rparr>" by blast
    have "distinct (purgeable_list dev)" using ok by blast
    then have len: "Suc (length (purgeable_list d2)) = length (purgeable_list dev)"
      using length_removeAll_distinct [OF _ p] by (simp add: d2)
    then have "length (purgeable_list d2) < length (purgeable_list dev)" by simp
    from less.hyps [OF this d(3)] obtain d3 where d3: "vc4_bo_userspace_cache_purge (\<lambda>_ d. d) d2 = Some d3" "bo_wf d3"
      "purgeable_list d3 = []" "vc4_bos d3 = map_option purged \<circ> vc4_bos d2" "size_list d3 = size_list d2" "time_list d3 = time_list d2"
      "bo_labels d3 = bo_labels d2" "purged_num d3 = purged_num d2 + of_nat (length (purgeable_list d2))"
      "purged_size d3 = purged_size d2 + purgeable_size d2" by blast
    have "map_option purged \<circ> vc4_bos d2 = map_option purged \<circ> vc4_bos dev"
      using d(4,5) by (auto simp: fun_eq_iff d2 purged_def vc4_bo_purge_def idle_def)
    moreover have "vc4_bo_userspace_cache_purge (\<lambda>_ d. d) dev = Some d3"
      using d(1,2) d3(1) False unfolding p_def by (subst vc4_bo_userspace_cache_purge.simps) (simp add: Let_def)
    moreover have "purged_num d3 = purged_num dev + of_nat (length (purgeable_list dev))"
      using d3(8) len [symmetric] by (simp add: d2)
    moreover have "purged_size d3 = purged_size dev + purgeable_size dev" using d3(9) by (simp add: d2)
    ultimately show ?thesis using d3 by (simp add: d2)
  qed
qed

subsection \<open>Freeing an object\<close>

lemma page_index_unat:
  assumes "sz \<noteq> 0" and "4096 dvd unat sz" and "unat sz < 2 ^ 44"
  shows "unat (bo_page_index sz) = unat sz div 4096 - 1" and "Suc (unat (bo_page_index sz)) < 2 ^ 32"
proof -
  have pos: "0 < unat sz" using assms(1) by (simp add: unat_gt_0)
  have d: "unat (sz div 4096) = unat sz div 4096" by (simp add: unat_div)
  have ge: "1 \<le> unat sz div 4096" using pos assms(2) by (auto elim: dvdE)
  have "unat (sz div 4096 - 1) = unat sz div 4096 - 1"
    using d ge by (subst unat_sub) (auto simp: word_le_nat_alt)
  moreover have lt: "unat sz div 4096 - 1 < 2 ^ 32 - 1" using assms(3) by simp
  ultimately show "unat (bo_page_index sz) = unat sz div 4096 - 1"
    by (simp add: bo_page_index_def unsigned_ucast_eq take_bit_nat_eq_self)
  then show "Suc (unat (bo_page_index sz)) < 2 ^ 32" using lt by simp
qed

lemma vc4_get_cache_list_for_size_cases:
  assumes "size_ok bo" and "vc4_get_cache_list_for_size alloc (bo_size bo) dev = (r, dev1)"
  shows "(r = None \<and> dev1 = dev) \<or>
    (r = Some (unat (bo_page_index (bo_size bo))) \<and> unat (bo_page_index (bo_size bo)) < length (size_list dev1) \<and>
     (\<exists>k. dev1 = dev\<lparr>size_list := size_list dev @ replicate k []\<rparr>))"
proof (cases "length (size_list dev) \<le> unat (bo_page_index (bo_size bo)) \<and> alloc")
  case True
  let ?i = "bo_page_index (bo_size bo)" and ?n = "length (size_list dev)"
  have "unat (?i + 1) = unat ?i + 1" using page_index_unat(2) [of "bo_size bo"] assms(1) by (subst unat_add_small) (simp_all add: size_ok_def)
  then have "unat ?i < unat (max (of_nat ?n * 2) (?i + 1))" by (simp add: max_def word_le_nat_alt)
  then show ?thesis using True assms(2) by (auto simp: vc4_get_cache_list_for_size_def Let_def)
next
  case False
  have "dev = dev\<lparr>size_list := size_list dev @ replicate 0 []\<rparr>" by simp
  then have "\<exists>k. dev = dev\<lparr>size_list := size_list dev @ replicate k []\<rparr>" by blast
  then show ?thesis using False assms(2) by (auto simp: vc4_get_cache_list_for_size_def Let_def split: if_splits)
qed

lemma cache_ok_grow: "cache_ok sl ts bos \<Longrightarrow> cache_ok (sl @ replicate k []) ts bos"
  by (auto simp: cache_ok_def nth_append)

lemma cache_ok_insert:
  assumes ok: "cache_ok sl ts bos" and p: "p \<notin> set ts" "bos p = Some bo" and i: "i < length sl" "cacheable i bo"
  shows "cache_ok (sl[i := p # sl ! i]) (p # ts) bos"
proof -
  have old: "concat sl = concat (take i sl) @ sl ! i @ concat (drop (Suc i) sl)"
    using id_take_nth_drop [OF i(1)] by (metis concat.simps(2) concat_append)
  have new: "concat (sl[i := p # sl ! i]) = concat (take i sl) @ (p # sl ! i) @ concat (drop (Suc i) sl)"
    using i(1) by (simp add: upd_conv_take_nth_drop)
  have "distinct (concat sl)" "set (concat sl) = set ts" "distinct ts" using ok unfolding cache_ok_def by blast+
  then have "distinct (concat (sl[i := p # sl ! i]))" "set (concat (sl[i := p # sl ! i])) = set (p # ts)" "distinct (p # ts)"
    using p(1) unfolding old new by auto
  moreover have "\<exists>bo. bos q = Some bo \<and> cacheable j bo" if "j < length sl" "q \<in> set (sl[i := p # sl ! i] ! j)" for j q
    using ok that p(2) i unfolding cache_ok_def by (cases "j = i") auto
  ultimately show ?thesis by (simp add: cache_ok_def)
qed

text \<open>Nothing but \<open>p\<close> and objects of the cache change.\<close>
definition free_frame :: "ptr \<Rightarrow> vc4_dev \<Rightarrow> vc4_dev \<Rightarrow> bool" where
  "free_frame p dev dev' \<longleftrightarrow> length (bo_labels dev') = length (bo_labels dev) \<and> p \<notin> set (purgeable_list dev') \<and>
     (\<forall>q. q \<noteq> p \<longrightarrow> q \<notin> set (time_list dev) \<longrightarrow> vc4_bos dev' q = vc4_bos dev q) \<and>
     (p \<in> set (time_list dev') \<or> vc4_bos dev' p = None) \<and> set (time_list dev') \<subseteq> insert p (set (time_list dev))"

text \<open>The object is the first the cache offers for its size, with its memory as it was.\<close>
definition offered :: "ptr \<Rightarrow> vc4_bo \<Rightarrow> vc4_dev \<Rightarrow> bool" where
  "offered p bo dev \<longleftrightarrow> unat (bo_page_index (bo_size bo)) < length (size_list dev) \<and>
     (\<exists>ps. size_list dev ! unat (bo_page_index (bo_size bo)) = p # ps) \<and>
     (\<exists>bo'. vc4_bos dev p = Some bo' \<and> bo_mem bo' = bo_mem bo)"

text \<open>An object just freed survives the removal of old ones.\<close>
lemma free_old_offered:
  assumes wf: "bo_wf dev" and p: "time_list dev = p # ts" "vc4_bos dev p = Some bo'" "bo_mem bo' = bo_mem bo"
    and i: "unat (bo_page_index (bo_size bo)) < length (size_list dev)" "size_list dev ! unat (bo_page_index (bo_size bo)) = p # ps"
    and young: "time_before (now - second) (bo_free_time bo')" and free: "vc4_bo_cache_free_old now second dev = Some dev'"
  shows "offered p bo dev'"
proof -
  from vc4_bo_cache_free_old_returns [OF wf, of now second] free obtain old where f: "cache_frame dev dev'"
    "time_list dev = time_list dev' @ old" "\<forall>q\<in>set old. \<exists>bo. vc4_bos dev q = Some bo \<and> \<not> time_before (now - second) (bo_free_time bo)" by auto
  have "p \<notin> set old" using f(3) p(2) young by auto
  then have pt: "p \<in> set (time_list dev')" using f(2) p(1) by (metis Un_iff list.set_intros(1) set_append)
  then show ?thesis using f(1) p i by (auto simp: offered_def cache_frame_def)
qed

text \<open>Linking an object that was reset into the cache.\<close>
lemma cache_link:
  assumes wf: "bo_wf dev" and p: "vc4_bos dev p = Some bo" "p \<notin> set (time_list dev)" and i: "i < length (size_list dev)"
    and bo: "cacheable i (bo\<lparr>bo_label := Some VC4_BO_TYPE_KERNEL_CACHE\<rparr>)"
  shows "\<exists>dev'. vc4_bo_set_label p (Some VC4_BO_TYPE_KERNEL_CACHE)
      (dev\<lparr>size_list := (size_list dev)[i := p # size_list dev ! i], time_list := p # time_list dev\<rparr>) = Some dev' \<and> bo_wf dev' \<and>
      length (bo_labels dev') = length (bo_labels dev) \<and> time_list dev' = p # time_list dev \<and> purgeable_list dev' = purgeable_list dev \<and>
      size_list dev' = (size_list dev)[i := p # size_list dev ! i] \<and>
      vc4_bos dev' = (vc4_bos dev)(p \<mapsto> bo\<lparr>bo_label := Some VC4_BO_TYPE_KERNEL_CACHE\<rparr>)"
proof -
  let ?bo = "bo\<lparr>bo_label := Some VC4_BO_TYPE_KERNEL_CACHE\<rparr>"
  let ?dev = "dev\<lparr>size_list := (size_list dev)[i := p # size_list dev ! i], time_list := p # time_list dev\<rparr>"
  have c: "VC4_BO_TYPE_KERNEL_CACHE < length (bo_labels dev)"
    using wf by (simp add: bo_wfx_def labels_ok_def VC4_BO_TYPE_KERNEL_CACHE_def VC4_BO_TYPE_COUNT_def)
  obtain l where l: "bo_label bo = Some l" "l < length (bo_labels dev)" using wf_labelE [OF wf p(1)] .
  define lbs where "lbs = relabel bo l (Some VC4_BO_TYPE_KERNEL_CACHE) (bo_labels dev)"
  have "bo_wf (dev\<lparr>bo_labels := lbs, vc4_bos := (vc4_bos dev)(p \<mapsto> ?bo)\<rparr>)"
    using vc4_bo_set_label_wf [OF wf p c] vc4_bo_set_label_eq [OF p(1) l, of "Some VC4_BO_TYPE_KERNEL_CACHE"] c
    unfolding lbs_def by auto
  moreover from this have "cache_ok ((size_list dev)[i := p # size_list dev ! i]) (p # time_list dev) ((vc4_bos dev)(p \<mapsto> ?bo))"
    using cache_ok_insert [of _ _ "(vc4_bos dev)(p \<mapsto> ?bo)" p ?bo i] p(2) i bo by (simp add: bo_wfx_def)
  ultimately have "bo_wf (?dev\<lparr>bo_labels := lbs, vc4_bos := (vc4_bos dev)(p \<mapsto> ?bo)\<rparr>)" by (simp add: bo_wfx_def)
  moreover have "vc4_bo_set_label p (Some VC4_BO_TYPE_KERNEL_CACHE) ?dev = Some (?dev\<lparr>bo_labels := lbs, vc4_bos := (vc4_bos dev)(p \<mapsto> ?bo)\<rparr>)"
    using vc4_bo_set_label_eq [of ?dev p bo l "Some VC4_BO_TYPE_KERNEL_CACHE"] p(1) l c unfolding lbs_def by simp
  ultimately show ?thesis by (simp add: lbs_def)
qed

lemma cache_object_wf:
  assumes wf: "bo_wfx {p} dev" and p: "vc4_bos dev p = Some bo" "p \<notin> set (time_list dev)" "p \<notin> set (purgeable_list dev)"
    and bo: "bo_vaddr bo" "\<not> bo_imported bo" "\<not> bo_named bo"
  shows "\<exists>dev'. cache_object alloc now second p bo dev = Some dev' \<and> bo_wf dev' \<and> free_frame p dev dev' \<and>
     (alloc \<longrightarrow> time_before (now - second) now \<longrightarrow> offered p bo dev')"
proof -
  obtain r dev1 where g: "vc4_get_cache_list_for_size alloc (bo_size bo) dev = (r, dev1)" by fastforce
  have sz: "size_ok bo" using wf p by (simp add: bo_wfx_def)
  show ?thesis
  proof (cases r)
    case None
    then have "dev1 = dev" "\<not> alloc" using vc4_get_cache_list_for_size_cases [OF sz g] g
      by (auto simp: vc4_get_cache_list_for_size_def Let_def split: if_splits)
    then show ?thesis using vc4_bo_destroy_wf [OF wf p] None g p by (auto simp: cache_object_def free_frame_def)
  next
    case (Some i)
    then obtain k where i: "i = unat (bo_page_index (bo_size bo))" "i < length (size_list dev1)"
      and dev1: "dev1 = dev\<lparr>size_list := size_list dev @ replicate k []\<rparr>"
      using vc4_get_cache_list_for_size_cases [OF sz g] by auto
    define bo2 where "bo2 = bo\<lparr>bo_validated_shader := False, bo_madv := VC4_MADV_NOTSUPP, bo_usecnt := 0,
      bo_t_format := False, bo_free_time := now\<rparr>"
    define dev2 where "dev2 = dev1\<lparr>vc4_bos := (vc4_bos dev1)(p \<mapsto> bo2)\<rparr>"
    have "bo_wfx {p} dev1" using wf cache_ok_grow unfolding dev1 bo_wfx_def by simp
    then have wf2: "bo_wf dev2" using bo_wfx_settle [of "{p}" dev1 p bo bo2] p
      unfolding dev2_def by (simp add: dev1 bo2_def idle_def)
    moreover have "vc4_bos dev2 p = Some bo2" "p \<notin> set (time_list dev2)" "i < length (size_list dev2)"
      "cacheable i (bo2\<lparr>bo_label := Some VC4_BO_TYPE_KERNEL_CACHE\<rparr>)"
      using p i bo by (simp_all add: dev2_def dev1 bo2_def cacheable_def)
    ultimately obtain dev4 where d4: "vc4_bo_set_label p (Some VC4_BO_TYPE_KERNEL_CACHE)
        (dev2\<lparr>size_list := (size_list dev2)[i := p # size_list dev2 ! i], time_list := p # time_list dev2\<rparr>) = Some dev4" "bo_wf dev4"
      "length (bo_labels dev4) = length (bo_labels dev2)" "time_list dev4 = p # time_list dev2" "purgeable_list dev4 = purgeable_list dev2"
      "size_list dev4 = (size_list dev2)[i := p # size_list dev2 ! i]" "vc4_bos dev4 = (vc4_bos dev2)(p \<mapsto> bo2\<lparr>bo_label := Some VC4_BO_TYPE_KERNEL_CACHE\<rparr>)"
      using cache_link [of dev2 p bo2 i] by blast
    from d4(2) obtain dev5 where d5: "vc4_bo_cache_free_old now second dev4 = Some dev5" "bo_wf dev5" "cache_frame dev4 dev5"
      using vc4_bo_cache_free_old_returns by blast
    have "upd_bo p (\<lambda>bo. bo\<lparr>bo_validated_shader := False, bo_madv := VC4_MADV_NOTSUPP, bo_usecnt := 0,
        bo_t_format := False, bo_free_time := now\<rparr>) dev1 = Some dev2"
      using p(1) by (simp add: upd_bo_def dev2_def bo2_def dev1)
    then have "cache_object alloc now second p bo dev = Some dev5"
      using g Some i(2) d4(1) d5(1) by (simp add: cache_object_def Let_def)
    moreover have "free_frame p dev dev5"
      using d5(3) p d4 by (auto simp: free_frame_def cache_frame_def dev2_def dev1)
    moreover have "offered p bo dev5" if "time_before (now - second) now"
      using free_old_offered [OF d4(2,4) _ _ _ _ _ d5(1), of _ bo] d4(6,7) i that by (simp add: bo2_def dev2_def)
    ultimately show ?thesis using d5(2) by blast
  qed
qed

lemma vc4_free_object_wf:
  assumes wf: "bo_wf dev" and p: "vc4_bos dev p = Some bo" "p \<notin> set (time_list dev)"
  shows "\<exists>dev'. vc4_free_object alloc now second p dev = Some dev' \<and> bo_wf dev' \<and> free_frame p dev dev' \<and>
     (alloc \<longrightarrow> time_before (now - second) now \<longrightarrow> bo_vaddr bo \<longrightarrow> \<not> bo_imported bo \<longrightarrow> \<not> bo_named bo \<longrightarrow> offered p bo dev')"
proof -
  have "\<exists>d. (if bo_madv bo = VC4_MADV_DONTNEED \<and> bo_usecnt bo = 0 then vc4_bo_remove_from_purgeable_pool p dev else Some dev) = Some d \<and>
      bo_wfx {p} d \<and> p \<notin> set (purgeable_list d) \<and> vc4_bos d = vc4_bos dev \<and> time_list d = time_list dev \<and> bo_labels d = bo_labels dev"
  proof (cases "idle bo")
    case True
    then show ?thesis using vc4_bo_remove_from_purgeable_pool_wf [OF wf _ p(1)] pooled_iff [OF wf p(1)]
      by (auto simp: idle_def vc4_bo_remove_from_purgeable_pool_def)
  next
    case False
    then have "bo_wfx {p} dev" "p \<notin> set (purgeable_list dev)" using wf p(1) by (auto simp: bo_wfx_def pool_ok_def)
    then show ?thesis using False by (auto simp: idle_def)
  qed
  then obtain d where d: "(if bo_madv bo = VC4_MADV_DONTNEED \<and> bo_usecnt bo = 0 then vc4_bo_remove_from_purgeable_pool p dev else Some dev) = Some d"
    "bo_wfx {p} d" "p \<notin> set (purgeable_list d)" "vc4_bos d = vc4_bos dev" "time_list d = time_list dev" "bo_labels d = bo_labels dev" by blast
  have frame: "free_frame p d d' = free_frame p dev d'" for d' using d by (simp add: free_frame_def)
  show ?thesis
  proof (cases "bo_imported bo \<or> bo_named bo \<or> \<not> bo_vaddr bo")
    case True
    then show ?thesis using vc4_bo_destroy_wf [OF d(2), of p bo] d p by (auto simp: vc4_free_object_def free_frame_def)
  next
    case False
    then show ?thesis using cache_object_wf [OF d(2), of bo alloc now second] d p frame by (auto simp: vc4_free_object_def)
  qed
qed

subsection \<open>Creating an object\<close>

lemma low_bits_zero:
  fixes y :: u64
  shows "y AND 4095 = 0 \<longleftrightarrow> 4096 dvd unat y"
proof -
  have m: "y AND 4095 = take_bit 12 y" by (simp add: take_bit_eq_mask mask_eq_exp_minus_1)
  have "unat (take_bit 12 y) = unat y mod 4096" by (simp only: unsigned_take_bit_eq) (simp add: take_bit_eq_mod)
  then show ?thesis unfolding m by (metis dvd_eq_mod_eq_0 unat_eq_zero)
qed

lemma round_page_aligned: "4096 dvd unat (round_page sz)"
  unfolding low_bits_zero [symmetric] round_page_def by (simp add: and.assoc)

lemma round_page_id:
  assumes "4096 dvd unat sz"
  shows "round_page sz = sz"
proof -
  have z: "sz AND 4095 = 0" using assms low_bits_zero by blast
  then have "sz + 4095 = sz OR 4095" by (simp add: disjunctive_add_eq_or)
  then have "round_page sz = (sz OR 4095) AND NOT 4095" by (simp add: round_page_def)
  also have "\<dots> = sz AND NOT 4095" by (simp add: bit.conj_disj_distrib2)
  also have "\<dots> = sz" using z by (auto intro!: bit_eqI simp: bit_simps bit_eq_iff)
  finally show ?thesis .
qed

text \<open>An attempt may fail, but not after the object was made; a new object is at an address that is free.\<close>
fun outcome_ok :: "vc4_dev \<Rightarrow> dma_outcome \<Rightarrow> bool" where
  "outcome_ok dev No_object = True"
| "outcome_ok dev (Init_failed p e) = False"
| "outcome_ok dev (No_memory p) = (vc4_bos dev p = None)"
| "outcome_ok dev (Got_memory p content) = (vc4_bos dev p = None)"

definition new_bo :: "u64 \<Rightarrow> vc4_bo" where
  "new_bo sz = \<lparr>bo_size = sz, bo_t_format = False, bo_free_time = 0, bo_validated_shader = False, bo_label = Some VC4_BO_TYPE_KERNEL,
     bo_usecnt = 0, bo_madv = VC4_MADV_WILLNEED, bo_vaddr = False, bo_mem = (\<lambda>_. 0), bo_imported = False, bo_named = False\<rparr>"

lemma cached_exists: "bo_wfx X dev \<Longrightarrow> vc4_bos dev p = None \<Longrightarrow> p \<notin> set (time_list dev) \<and> p \<notin> set (purgeable_list dev)"
  using cached_bo [of X dev p] by (auto simp: bo_wfx_def pool_ok_def)

lemma labels_many: "bo_wfx X dev \<Longrightarrow> t < VC4_BO_TYPE_COUNT \<Longrightarrow> t < length (bo_labels dev)"
  by (simp add: bo_wfx_def labels_ok_def)

lemma vc4_create_object_wf:
  assumes wf: "bo_wf dev" and p: "vc4_bos dev p = None" and sz: "size_ok (new_bo sz)"
  shows "\<exists>lbs. vc4_create_object (Some p) sz dev = Some (Inr p, dev\<lparr>bo_labels := lbs, vc4_bos := (vc4_bos dev)(p \<mapsto> new_bo sz)\<rparr>) \<and>
     length lbs = length (bo_labels dev) \<and> bo_wf (dev\<lparr>bo_labels := lbs, vc4_bos := (vc4_bos dev)(p \<mapsto> new_bo sz)\<rparr>)"
proof -
  have k: "VC4_BO_TYPE_KERNEL < length (bo_labels dev)"
    using labels_many [OF wf, of VC4_BO_TYPE_KERNEL] by (simp add: VC4_BO_TYPE_KERNEL_def VC4_BO_TYPE_COUNT_def)
  let ?lbs = "(bo_labels dev)[VC4_BO_TYPE_KERNEL := count_in (new_bo sz) (bo_labels dev ! VC4_BO_TYPE_KERNEL)]"
  have "vc4_create_object (Some p) sz dev = Some (Inr p, dev\<lparr>bo_labels := ?lbs, vc4_bos := (vc4_bos dev)(p \<mapsto> new_bo sz)\<rparr>)"
    using wf k by (simp add: vc4_create_object_def new_bo_def upd_label_def bo_wfx_def Let_def)
  moreover have "labels_ok ?lbs ((vc4_bos dev)(p \<mapsto> new_bo sz))"
    using wf k p by (intro labels_ok_new) (simp_all add: bo_wfx_def new_bo_def)
  moreover have "\<not> idle (new_bo sz)" by (simp add: idle_def new_bo_def)
  ultimately show ?thesis
    using wf sz cached_exists [OF wf p] cache_ok_other [of _ _ "vc4_bos dev" p] pool_ok_out [of "{}" _ _ _ "vc4_bos dev" p "Some (new_bo sz)"]
    by (auto simp: bo_wfx_def)
qed

lemma bo_wf_gen_4: "bo_wfx X dev \<Longrightarrow> vc4_gen_4 dev"
  by (simp add: bo_wfx_def)

text \<open>A failed attempt leaves the objects as they were; a successful one adds one object.\<close>
lemma drm_gem_dma_create_wf:
  assumes wf: "bo_wf dev" and oc: "outcome_ok dev oc" and sz: "size_ok (new_bo (round_page sz))"
  shows "\<exists>r dev'. drm_gem_dma_create alloc now second oc sz dev = Some (r, dev') \<and> bo_wf dev' \<and>
     length (bo_labels dev') = length (bo_labels dev) \<and> time_list dev' = time_list dev \<and> purgeable_list dev' = purgeable_list dev \<and>
     (case r of Inl _ \<Rightarrow> vc4_bos dev' = vc4_bos dev
      | Inr p \<Rightarrow> \<exists>content. oc = Got_memory p content \<and>
          vc4_bos dev' = (vc4_bos dev)(p \<mapsto> (new_bo (round_page sz))\<lparr>bo_vaddr := True, bo_mem := content\<rparr>))"
proof (cases oc)
  case No_object
  then show ?thesis using wf by (simp add: drm_gem_dma_create_def vc4_create_object_def Let_def bo_wf_gen_4)
next
  case (Init_failed p e)
  then show ?thesis using oc by simp
next
  case (No_memory p)
  let ?bo = "new_bo (round_page sz)"
  have p: "vc4_bos dev p = None" using oc No_memory by simp
  from vc4_create_object_wf [OF wf p sz] obtain lbs where
    c: "vc4_create_object (Some p) (round_page sz) dev = Some (Inr p, dev\<lparr>bo_labels := lbs, vc4_bos := (vc4_bos dev)(p \<mapsto> ?bo)\<rparr>)"
      "length lbs = length (bo_labels dev)" "bo_wf (dev\<lparr>bo_labels := lbs, vc4_bos := (vc4_bos dev)(p \<mapsto> ?bo)\<rparr>)" by blast
  from vc4_bo_destroy_wf [OF c(3), of p ?bo] cached_exists [OF wf p] obtain lbs' where
    d: "vc4_bo_destroy p (dev\<lparr>bo_labels := lbs, vc4_bos := (vc4_bos dev)(p \<mapsto> ?bo)\<rparr>) =
         Some (dev\<lparr>bo_labels := lbs', vc4_bos := (vc4_bos dev)(p := None)\<rparr>)"
      "length lbs' = length lbs" "bo_wf (dev\<lparr>bo_labels := lbs', vc4_bos := (vc4_bos dev)(p := None)\<rparr>)" by auto
  moreover have "(vc4_bos dev)(p := None) = vc4_bos dev" using p by auto
  moreover have "vc4_free_object alloc now second p (dev\<lparr>bo_labels := lbs, vc4_bos := (vc4_bos dev)(p \<mapsto> ?bo)\<rparr>) =
      Some (dev\<lparr>bo_labels := lbs', vc4_bos := (vc4_bos dev)(p := None)\<rparr>)"
    using d(1) by (simp add: vc4_free_object_def) (simp add: new_bo_def)
  ultimately show ?thesis using c No_memory by (simp add: drm_gem_dma_create_def)
next
  case (Got_memory p content)
  let ?bo = "new_bo (round_page sz)"
  have p: "vc4_bos dev p = None" using oc Got_memory by simp
  from vc4_create_object_wf [OF wf p sz] obtain lbs where
    c: "vc4_create_object (Some p) (round_page sz) dev = Some (Inr p, dev\<lparr>bo_labels := lbs, vc4_bos := (vc4_bos dev)(p \<mapsto> ?bo)\<rparr>)"
      "length lbs = length (bo_labels dev)" "bo_wf (dev\<lparr>bo_labels := lbs, vc4_bos := (vc4_bos dev)(p \<mapsto> ?bo)\<rparr>)" by blast
  have "bo_wf (dev\<lparr>bo_labels := lbs, vc4_bos := (vc4_bos dev)(p \<mapsto> ?bo\<lparr>bo_vaddr := True, bo_mem := content\<rparr>)\<rparr>)"
    using bo_wfx_update [OF c(3), of p ?bo "?bo\<lparr>bo_vaddr := True, bo_mem := content\<rparr>"] cached_exists [OF wf p]
    by (simp add: idle_def)
  then show ?thesis using c Got_memory by (simp add: drm_gem_dma_create_def upd_bo_def)
qed

text \<open>What a caller gets: an object that is in no list, of its kind, with its memory.\<close>
definition fresh_for :: "nat \<Rightarrow> u64 \<Rightarrow> vc4_bo \<Rightarrow> bool" where
  "fresh_for type sz bo \<longleftrightarrow> bo_label bo = Some type \<and> bo_size bo = sz \<and> bo_vaddr bo \<and> bo_madv bo = VC4_MADV_NOTSUPP \<and> bo_usecnt bo = 0 \<and>
     \<not> bo_validated_shader bo \<and> \<not> bo_t_format bo \<and> \<not> bo_imported bo \<and> \<not> bo_named bo"

lemma page_index_zero: "unat (bo_page_index 0) = 2 ^ 32 - 1"
  by (simp add: bo_page_index_def unsigned_ucast_eq unsigned_minus_1_eq_mask mask_eq_exp_minus_1)

lemma page_index_inj:
  assumes "size_ok bo" and "sz \<noteq> 0" and "4096 dvd unat sz" and "unat sz \<le> 2 ^ 32"
    and "unat (bo_page_index (bo_size bo)) = unat (bo_page_index (ucast (ucast sz :: u32)))"
  shows "bo_size bo = sz"
proof -
  have "sz \<noteq> 2 ^ 32"
  proof
    assume "sz = 2 ^ 32"
    then have "unat (bo_page_index (ucast (ucast sz :: u32))) = 2 ^ 32 - 1" using page_index_zero by simp
    then show False using page_index_unat(2) [of "bo_size bo"] assms(1,5) by (simp add: size_ok_def)
  qed
  then have lt: "unat sz < 2 ^ 32" using assms(4) word_unat_eq_iff [of sz "2 ^ 32"] by simp
  have "ucast (ucast sz :: u32) = sz" using take_bit_word_self [OF lt]
    by (intro word_unat_eq_iff [THEN iffD2]) (simp add: unsigned_ucast_eq)
  then have "unat (bo_size bo) div 4096 - 1 = unat sz div 4096 - 1"
    using assms page_index_unat(1) [of "bo_size bo"] page_index_unat(1) [of sz] lt by (simp add: size_ok_def)
  moreover have "0 < unat (bo_size bo)" "0 < unat sz" using assms(1,2) by (simp_all add: size_ok_def unat_gt_0)
  then have "0 < unat (bo_size bo) div 4096" "0 < unat sz div 4096"
    using assms(1,3) by (auto simp: size_ok_def elim!: dvdE)
  moreover have "unat (bo_size bo) = unat (bo_size bo) div 4096 * 4096" "unat sz = unat sz div 4096 * 4096"
    using assms(1,3) by (simp_all add: size_ok_def)
  ultimately have "unat (bo_size bo) = unat sz" by simp
  then show ?thesis by (rule word_unat_eq_iff [THEN iffD2])
qed

lemma vc4_bo_get_from_cache_wf:
  assumes wf: "bo_wf dev" and type: "type < length (bo_labels dev)"
  shows "vc4_bo_get_from_cache sz type dev = Some (None, dev) \<or>
    (\<exists>p dev' bo. vc4_bo_get_from_cache sz type dev = Some (Some p, dev') \<and> bo_wf dev' \<and> p \<in> set (time_list dev) \<and>
       vc4_bos dev p = Some bo \<and> cacheable (unat (bo_page_index (ucast sz))) bo \<and>
       vc4_bos dev' = (vc4_bos dev)(p \<mapsto> bo\<lparr>bo_label := Some type\<rparr>) \<and> p \<notin> set (time_list dev') \<and>
       length (bo_labels dev') = length (bo_labels dev) \<and> purgeable_list dev' = purgeable_list dev)"
proof (cases "unat (bo_page_index (ucast sz)) < length (size_list dev) \<and> size_list dev ! unat (bo_page_index (ucast sz)) \<noteq> []")
  case False
  then show ?thesis by (auto simp: vc4_bo_get_from_cache_def Let_def not_less)
next
  case True
  then obtain p ps where ps: "size_list dev ! unat (bo_page_index (ucast sz)) = p # ps" by (auto simp: neq_Nil_conv)
  with True have "p \<in> set (concat (size_list dev))" by (auto intro!: bexI [of _ "p # ps"]) (metis nth_mem)
  then have p: "p \<in> set (time_list dev)" using wf unfolding bo_wfx_def cache_ok_def by blast
  obtain bo where bo: "vc4_bos dev p = Some bo" "cacheable (unat (bo_page_index (ucast sz))) bo"
    using wf ps True unfolding bo_wfx_def cache_ok_def by (metis list.set_intros(1))
  note rm = vc4_bo_remove_from_cache_wf [OF wf p]
  from vc4_bo_set_label_wf [OF rm(1), of p bo type] bo type obtain lbs where
    "vc4_bo_set_label p (Some type) (vc4_bo_remove_from_cache p dev) =
       Some (vc4_bo_remove_from_cache p dev\<lparr>bo_labels := lbs, vc4_bos := (vc4_bos dev)(p \<mapsto> bo\<lparr>bo_label := Some type\<rparr>)\<rparr>)"
    "length lbs = length (bo_labels dev)"
    "bo_wf (vc4_bo_remove_from_cache p dev\<lparr>bo_labels := lbs, vc4_bos := (vc4_bos dev)(p \<mapsto> bo\<lparr>bo_label := Some type\<rparr>)\<rparr>)" by auto
  then show ?thesis using True ps p bo cached_not_pooled [OF wf p] by (auto simp: vc4_bo_get_from_cache_def Let_def)
qed

definition zero_filled :: "dma_outcome \<Rightarrow> bool" where
  "zero_filled oc \<longleftrightarrow> (\<forall>p content. oc = Got_memory p content \<longrightarrow> content = (\<lambda>_. 0))"

lemma outcome_ok_mono: "outcome_ok dev oc \<Longrightarrow> (\<And>p. vc4_bos dev p = None \<Longrightarrow> vc4_bos dev' p = None) \<Longrightarrow> outcome_ok dev' oc"
  by (cases oc) auto

text \<open>The objects others hold stay as they are, but that idle ones may lose their memory.\<close>
definition holders_keep :: "vc4_dev \<Rightarrow> vc4_dev \<Rightarrow> bool" where
  "holders_keep dev dev' \<longleftrightarrow> (\<forall>q b. q \<notin> set (time_list dev) \<longrightarrow> vc4_bos dev q = Some b \<longrightarrow>
     q \<notin> set (time_list dev') \<and> (vc4_bos dev' q = Some b \<or> vc4_bos dev' q = Some (purged b)))"

lemma purged_idem [simp]: "purged (purged b) = purged b"
  by (simp add: purged_def vc4_bo_purge_def idle_def)

lemma holders_keep_refl [simp]: "holders_keep dev dev"
  by (simp add: holders_keep_def)

lemma holders_keep_trans:
  assumes "holders_keep d1 d2" and "holders_keep d2 d3"
  shows "holders_keep d1 d3"
  unfolding holders_keep_def
proof (intro allI impI)
  fix q b assume "q \<notin> set (time_list d1)" "vc4_bos d1 q = Some b"
  then obtain b' where "q \<notin> set (time_list d2)" "vc4_bos d2 q = Some b'" "b' = b \<or> b' = purged b" using assms(1) by (auto simp: holders_keep_def)
  then show "q \<notin> set (time_list d3) \<and> (vc4_bos d3 q = Some b \<or> vc4_bos d3 q = Some (purged b))"
    using assms(2) by (auto simp: holders_keep_def)
qed

text \<open>The attempts: at once, after the cache was emptied, and after the idle objects were purged.\<close>
lemma alloc_attempts_wf:
  assumes wf: "bo_wf dev" and oc: "outcome_ok dev oc1" "outcome_ok dev oc2" "outcome_ok dev oc3" and sz: "size_ok (new_bo (round_page sz))"
  shows "\<exists>r dev'. alloc_attempts alloc now second (\<lambda>_ d. d) (oc1, oc2, oc3) sz dev = Some (r, dev') \<and>
     bo_wf dev' \<and> length (bo_labels dev') = length (bo_labels dev) \<and> holders_keep dev dev' \<and>
     (\<forall>p. r = Inr p \<longrightarrow> vc4_bos dev p = None \<and> (\<exists>content. Got_memory p content \<in> {oc1, oc2, oc3} \<and>
        vc4_bos dev' p = Some ((new_bo (round_page sz))\<lparr>bo_vaddr := True, bo_mem := content\<rparr>)))"
proof -
  let ?ok = "\<lambda>d oc r d'. bo_wf d' \<and> length (bo_labels d') = length (bo_labels d) \<and> holders_keep d d' \<and>
     (\<forall>q. r = Inl q \<longrightarrow> vc4_bos d' = vc4_bos d) \<and>
     (\<forall>p. r = Inr p \<longrightarrow> vc4_bos d p = None \<and> (\<exists>content. oc = Got_memory p content \<and>
        vc4_bos d' p = Some ((new_bo (round_page sz))\<lparr>bo_vaddr := True, bo_mem := content\<rparr>)))"
  have attempt: "\<exists>r d'. drm_gem_dma_create alloc now second oc sz d = Some (r, d') \<and> ?ok d oc r d'" if d: "bo_wf d" "outcome_ok d oc" for d oc
  proof -
    obtain r d' where "drm_gem_dma_create alloc now second oc sz d = Some (r, d')" "bo_wf d'" "length (bo_labels d') = length (bo_labels d)"
      "time_list d' = time_list d" and c: "case r of Inl _ \<Rightarrow> vc4_bos d' = vc4_bos d | Inr p \<Rightarrow> \<exists>content. oc = Got_memory p content \<and>
          vc4_bos d' = (vc4_bos d)(p \<mapsto> (new_bo (round_page sz))\<lparr>bo_vaddr := True, bo_mem := content\<rparr>)"
      using drm_gem_dma_create_wf [OF d sz] by blast
    then show ?thesis using d(2) by (cases r) (auto simp: holders_keep_def)
  qed
  obtain r1 d1 where a1: "drm_gem_dma_create alloc now second oc1 sz dev = Some (r1, d1)" "?ok dev oc1 r1 d1" using attempt [OF wf oc(1)] by blast
  show ?thesis
  proof (cases r1)
    case (Inr p)
    then show ?thesis using a1 by (auto simp: alloc_attempts_def)
  next
    case (Inl e)
    then have b1: "vc4_bos d1 = vc4_bos dev" using a1(2) by blast
    obtain d2 where d2: "vc4_bo_cache_purge d1 = Some d2" "bo_wf d2" "cache_frame d1 d2"
      using vc4_bo_cache_purge_returns a1(2) by blast
    have k2: "holders_keep d1 d2" using d2(3) by (auto simp: cache_frame_def holders_keep_def)
    have n2: "vc4_bos d2 p = None" if "vc4_bos dev p = None" for p using that d2(3) b1 by (simp add: cache_frame_def)
    obtain r2 d3 where a2: "drm_gem_dma_create alloc now second oc2 sz d2 = Some (r2, d3)" "?ok d2 oc2 r2 d3"
      using attempt [OF d2(2) outcome_ok_mono [OF oc(2) n2]] by blast
    have l3: "length (bo_labels d3) = length (bo_labels dev)" using a1(2) a2(2) d2(3) by (simp add: cache_frame_def)
    have k3: "holders_keep dev d3" using a1(2) a2(2) k2 holders_keep_trans by blast
    show ?thesis
    proof (cases r2)
      case (Inr p)
      then have "vc4_bos dev p = None" using oc(2) a2(2) by auto
      then show ?thesis using a1(1) d2(1) a2 Inl Inr l3 k3 by (auto simp: alloc_attempts_def)
    next
      case in2: (Inl e)
      then have b3: "vc4_bos d3 = vc4_bos d2" using a2(2) by blast
      obtain d4 where d4: "vc4_bo_userspace_cache_purge (\<lambda>_ d. d) d3 = Some d4" "bo_wf d4" "vc4_bos d4 = map_option purged \<circ> vc4_bos d3"
        "time_list d4 = time_list d3" "bo_labels d4 = bo_labels d3"
        using vc4_bo_userspace_cache_purge_returns a2(2) by blast
      have k4: "holders_keep d3 d4" using d4 by (auto simp: holders_keep_def)
      have n4: "vc4_bos d4 p = None" if "vc4_bos dev p = None" for p using that n2 d4(3) b3 by simp
      obtain r3 d5 where a3: "drm_gem_dma_create alloc now second oc3 sz d4 = Some (r3, d5)" "?ok d4 oc3 r3 d5"
        using attempt [OF d4(2) outcome_ok_mono [OF oc(3) n4]] by blast
      have "vc4_bos dev p = None" if "r3 = Inr p" for p using oc(3) a3(2) that by auto
      moreover have "holders_keep dev d5" using k3 k4 a3(2) holders_keep_trans by blast
      ultimately show ?thesis using a1(1) d2(1) a2(1) d4 a3 Inl in2 l3 by (auto simp: alloc_attempts_def)
    qed
  qed
qed

lemma fresh_not_pooled: "bo_wf dev \<Longrightarrow> vc4_bos dev p = Some bo \<Longrightarrow> fresh_for type sz bo \<Longrightarrow> p \<notin> set (purgeable_list dev)"
  using pooled_iff [of "{}" dev p bo] by (simp add: fresh_for_def idle_def)

text \<open>The outcome of a creation.\<close>
definition create_ok :: "bool \<Rightarrow> nat \<Rightarrow> u64 \<Rightarrow> vc4_dev \<Rightarrow> ptr result \<Rightarrow> vc4_dev \<Rightarrow> bool" where
  "create_ok allow_unzeroed type sz dev r dev' \<longleftrightarrow> bo_wf dev' \<and> length (bo_labels dev') = length (bo_labels dev) \<and> holders_keep dev dev' \<and>
     (\<forall>p. r = Inr p \<longrightarrow> (vc4_bos dev p = None \<or> p \<in> set (time_list dev)) \<and> p \<notin> set (time_list dev') \<and>
        (\<exists>bo. vc4_bos dev' p = Some bo \<and> fresh_for type sz bo \<and> (\<not> allow_unzeroed \<longrightarrow> (\<forall>i<unat sz. bo_mem bo i = 0))))"

lemma create_cached:
  assumes wf: "bo_wf dev" and type: "type < length (bo_labels dev)" and sz: "sz \<noteq> 0" "4096 dvd unat sz" "unat sz \<le> 2 ^ 32"
    and get: "vc4_bo_get_from_cache (ucast sz) type dev = Some (Some p, dev1)"
  shows "\<exists>dev'. (if allow_unzeroed then Some dev1 else upd_bo p zeroed dev1) = Some dev' \<and> create_ok allow_unzeroed type sz dev (Inr p) dev'"
proof -
  from vc4_bo_get_from_cache_wf [OF wf type, of "ucast sz"] get obtain bo where
    d1: "bo_wf dev1" "p \<in> set (time_list dev)" "vc4_bos dev p = Some bo" "cacheable (unat (bo_page_index (ucast (ucast sz :: u32)))) bo"
      "vc4_bos dev1 = (vc4_bos dev)(p \<mapsto> bo\<lparr>bo_label := Some type\<rparr>)" "p \<notin> set (time_list dev1)" "length (bo_labels dev1) = length (bo_labels dev)"
    by auto
  have "bo_size bo = sz" using d1(3,4) wf sz by (intro page_index_inj) (auto simp: cacheable_def bo_wfx_def)
  then have fresh: "fresh_for type sz (bo\<lparr>bo_label := Some type\<rparr>)" using d1(4) by (simp add: fresh_for_def cacheable_def)
  have time: "set (time_list dev1) \<subseteq> set (time_list dev)"
    using get by (auto simp: vc4_bo_get_from_cache_def Let_def vc4_bo_set_label_def upd_label_def upd_bo_def bind_eq_Some_conv
        split: if_splits list.splits option.splits)
  have keep: "holders_keep dev (dev1\<lparr>vc4_bos := (vc4_bos dev1)(p \<mapsto> b)\<rparr>)" for b using d1 time by (auto simp: holders_keep_def)
  show ?thesis
  proof (cases allow_unzeroed)
    case True
    have "dev1\<lparr>vc4_bos := (vc4_bos dev1)(p \<mapsto> bo\<lparr>bo_label := Some type\<rparr>)\<rparr> = dev1" using d1(5) by (simp add: fun_upd_idem)
    then have "holders_keep dev dev1" using keep [of "bo\<lparr>bo_label := Some type\<rparr>"] by simp
    then show ?thesis using True d1 fresh by (simp add: create_ok_def)
  next
    case False
    let ?bo = "zeroed (bo\<lparr>bo_label := Some type\<rparr>)"
    have "bo_wf (dev1\<lparr>vc4_bos := (vc4_bos dev1)(p \<mapsto> ?bo)\<rparr>)"
      using d1 by (intro bo_wfx_update [where bo = "bo\<lparr>bo_label := Some type\<rparr>"]) (simp_all add: zeroed_def idle_def)
    moreover have "fresh_for type sz ?bo" "\<forall>i<unat sz. bo_mem ?bo i = 0"
      using fresh \<open>bo_size bo = sz\<close> by (simp_all add: fresh_for_def zeroed_def)
    ultimately show ?thesis using False d1 keep [of ?bo] by (simp add: create_ok_def upd_bo_def)
  qed
qed

lemma create_new:
  assumes d: "bo_wf d" "length (bo_labels d) = length (bo_labels dev)" "holders_keep dev d"
    and p: "vc4_bos dev p = None" "vc4_bos d p = Some ((new_bo sz)\<lparr>bo_vaddr := True, bo_mem := content\<rparr>)"
    and type: "type < length (bo_labels dev)" and content: "content = (\<lambda>_. 0)"
  shows "\<exists>dev'. (do { dev3 \<leftarrow> upd_bo p (\<lambda>bo. bo\<lparr>bo_madv := VC4_MADV_NOTSUPP\<rparr>) d; map_option (Pair (Inr p)) (vc4_bo_set_label p (Some type) dev3) }) =
      Some (Inr p, dev') \<and> create_ok allow_unzeroed type sz dev (Inr p) dev'"
proof -
  define bo where "bo = (new_bo sz)\<lparr>bo_vaddr := True, bo_mem := content, bo_madv := VC4_MADV_NOTSUPP\<rparr>"
  have nt: "p \<notin> set (time_list d)" using cached_bo [OF d(1), of p] p(2) by (auto simp: cacheable_def new_bo_def)
  have "bo_wf (d\<lparr>vc4_bos := (vc4_bos d)(p \<mapsto> bo)\<rparr>)"
    using bo_wfx_update [OF d(1) p(2) nt, of bo] by (simp add: bo_def idle_def new_bo_def)
  from vc4_bo_set_label_wf [OF this, of p bo type] nt type d(2) obtain lbs where l:
    "vc4_bo_set_label p (Some type) (d\<lparr>vc4_bos := (vc4_bos d)(p \<mapsto> bo)\<rparr>) =
       Some (d\<lparr>bo_labels := lbs, vc4_bos := (vc4_bos d)(p \<mapsto> bo\<lparr>bo_label := Some type\<rparr>)\<rparr>)" "length lbs = length (bo_labels d)"
    "bo_wf (d\<lparr>bo_labels := lbs, vc4_bos := (vc4_bos d)(p \<mapsto> bo\<lparr>bo_label := Some type\<rparr>)\<rparr>)" by auto
  have "holders_keep dev (d\<lparr>bo_labels := lbs, vc4_bos := (vc4_bos d)(p \<mapsto> bo\<lparr>bo_label := Some type\<rparr>)\<rparr>)"
    using d(3) p(1) by (auto simp: holders_keep_def)
  then show ?thesis using p l d(2) nt content
    by (auto simp: create_ok_def upd_bo_def bo_def fresh_for_def new_bo_def)
qed

lemma vc4_bo_create_wf:
  assumes wf: "bo_wf dev" and oc: "\<forall>oc\<in>set [oc1, oc2, oc3]. outcome_ok dev oc \<and> zero_filled oc"
    and type: "type < VC4_BO_TYPE_COUNT" and sz: "unat (round_page sz) \<le> 2 ^ 32"
  shows "\<exists>r dev'. vc4_bo_create alloc now second (\<lambda>_ d. d) (oc1, oc2, oc3) sz allow_unzeroed type dev = Some (r, dev') \<and>
     create_ok allow_unzeroed type (round_page sz) dev r dev'"
proof (cases "round_page sz = 0")
  case True
  then show ?thesis using wf by (simp add: vc4_bo_create_def create_ok_def)
next
  case nz: False
  have tl: "type < length (bo_labels dev)" using labels_many [OF wf type] .
  let ?get = "vc4_bo_get_from_cache (ucast (round_page sz)) type dev"
  show ?thesis
  proof (cases "\<exists>p dev1. ?get = Some (Some p, dev1)")
    case True
    then show ?thesis using create_cached [OF wf tl nz round_page_aligned sz] nz bo_wf_gen_4 [OF wf]
      by (fastforce simp: vc4_bo_create_def Let_def)
  next
    case False
    then have get: "?get = Some (None, dev)" using vc4_bo_get_from_cache_wf [OF wf tl, of "ucast (round_page sz)"] by auto
    let ?s = "round_page sz"
    have rr: "round_page ?s = ?s" by (rule round_page_id [OF round_page_aligned])
    have ok: "size_ok (new_bo (round_page ?s))" using nz sz round_page_aligned by (simp add: rr size_ok_def new_bo_def)
    obtain r d where at: "alloc_attempts alloc now second (\<lambda>_ d. d) (oc1, oc2, oc3) ?s dev = Some (r, d)"
      and d: "bo_wf d" "length (bo_labels d) = length (bo_labels dev)" "holders_keep dev d"
        "\<forall>p. r = Inr p \<longrightarrow> vc4_bos dev p = None \<and> (\<exists>content. Got_memory p content \<in> {oc1, oc2, oc3} \<and>
          vc4_bos d p = Some ((new_bo (round_page ?s))\<lparr>bo_vaddr := True, bo_mem := content\<rparr>))"
      using alloc_attempts_wf [OF wf _ _ _ ok, of oc1 oc2 oc3 alloc now second] oc by force
    have create: "vc4_bo_create alloc now second (\<lambda>_ d. d) (oc1, oc2, oc3) sz allow_unzeroed type dev =
        (case r of Inl _ \<Rightarrow> Some (Inl ENOMEM, d)
         | Inr p \<Rightarrow> do { dev5 \<leftarrow> upd_bo p (\<lambda>bo. bo\<lparr>bo_madv := VC4_MADV_NOTSUPP\<rparr>) d; map_option (Pair (Inr p)) (vc4_bo_set_label p (Some type) dev5) })"
      using at get nz bo_wf_gen_4 [OF wf] by (simp add: vc4_bo_create_def Let_def)
    show ?thesis
    proof (cases r)
      case (Inl e)
      then show ?thesis using create d by (auto simp: create_ok_def)
    next
      case (Inr p)
      then obtain content where p: "vc4_bos dev p = None" "Got_memory p content \<in> {oc1, oc2, oc3}"
        "vc4_bos d p = Some ((new_bo ?s)\<lparr>bo_vaddr := True, bo_mem := content\<rparr>)" using d(4) rr by auto
      then have "content = (\<lambda>_. 0)" using oc by (auto simp: zero_filled_def)
      from create_new [OF d(1-3) p(1,3) tl this, of allow_unzeroed] show ?thesis unfolding create Inr sum.case by blast
    qed
  qed
qed

subsection \<open>Users of an object\<close>

text \<open>An object that a handle or a caller names.\<close>
definition held :: "vc4_dev \<Rightarrow> ptr \<Rightarrow> bool" where
  "held dev p \<longleftrightarrow> vc4_bos dev p \<noteq> None \<and> p \<notin> set (time_list dev)"

lemma upd_bo_wf:
  assumes "bo_wf dev" and "held dev p" and "\<And>bo. bo_label (f bo) = bo_label bo \<and> bo_size (f bo) = bo_size bo \<and> idle (f bo) = idle bo"
  shows "\<exists>dev'. upd_bo p f dev = Some dev' \<and> bo_wf dev' \<and> (\<forall>q. held dev' q = held dev q)"
proof -
  obtain bo where "vc4_bos dev p = Some bo" "p \<notin> set (time_list dev)" using assms(2) by (auto simp: held_def)
  then show ?thesis using bo_wfx_update [OF assms(1), of p bo "f bo"] assms(3) by (auto simp: upd_bo_def held_def)
qed

text \<open>An object becomes idle and enters the pool.\<close>
lemma pool_enter_wf:
  assumes wf: "bo_wf dev" and p: "vc4_bos dev p = Some bo" "p \<notin> set (time_list dev)" "\<not> idle bo"
    and new: "bo_size bo' = bo_size bo" "bo_label bo' = bo_label bo" "idle bo'"
  shows "bo_wf (dev\<lparr>vc4_bos := (vc4_bos dev)(p \<mapsto> bo'), purgeable_list := purgeable_list dev @ [p],
    purgeable_num := purgeable_num dev + 1, purgeable_size := purgeable_size dev + bo_size bo\<rparr>)"
  using wf p new labels_ok_update [of "bo_labels dev" "vc4_bos dev" p bo bo'] cache_ok_other [of _ _ "vc4_bos dev" p]
    pool_ok_enter [of "{}" _ _ _ "vc4_bos dev" p bo bo']
  unfolding bo_wfx_def by (auto simp: size_ok_def)

lemma vc4_bo_inc_usecnt_wf:
  assumes wf: "bo_wf dev" and p: "vc4_bos dev p = Some bo" "p \<notin> set (time_list dev)" "bo_usecnt bo \<noteq> - 1"
  shows "\<exists>r dev'. vc4_bo_inc_usecnt p dev = Some (r, dev') \<and> bo_wf dev'"
proof -
  have "idle (bo\<lparr>bo_usecnt := bo_usecnt bo + 1\<rparr>) = idle bo" if "bo_usecnt bo \<noteq> 0"
    using that p(3) by (auto simp: idle_def eq_neg_iff_add_eq_0)
  moreover have "idle (bo\<lparr>bo_usecnt := 1\<rparr>) = idle bo" if "bo_madv bo = VC4_MADV_WILLNEED" using that by (simp add: idle_def)
  ultimately show ?thesis
    using bo_wfx_update [OF wf p(1,2), of "bo\<lparr>bo_usecnt := bo_usecnt bo + 1\<rparr>"] bo_wfx_update [OF wf p(1,2), of "bo\<lparr>bo_usecnt := 1\<rparr>"]
      wf p(1) bo_wf_gen_4 [OF wf]
    by (cases "bo_madv bo") (auto simp: vc4_bo_inc_usecnt_def upd_bo_def)
qed

lemma vc4_bo_dec_usecnt_wf:
  assumes wf: "bo_wf dev" and p: "vc4_bos dev p = Some bo" "p \<notin> set (time_list dev)" "bo_usecnt bo \<noteq> 0"
  shows "\<exists>dev'. vc4_bo_dec_usecnt p dev = Some dev' \<and> bo_wf dev'"
proof -
  let ?bo = "bo\<lparr>bo_usecnt := bo_usecnt bo - 1\<rparr>"
  have ni: "\<not> idle bo" using p(3) by (simp add: idle_def)
  show ?thesis
  proof (cases "bo_usecnt bo = 1 \<and> bo_madv bo = VC4_MADV_DONTNEED")
    case True
    then show ?thesis using pool_enter_wf [OF wf p(1,2) ni, of ?bo] p(1) bo_wf_gen_4 [OF wf]
      by (simp add: vc4_bo_dec_usecnt_def upd_bo_def vc4_bo_add_to_purgeable_pool_def idle_def)
  next
    case False
    then have "\<not> idle ?bo" by (auto simp: idle_def)
    then show ?thesis using bo_wfx_update [OF wf p(1,2), of ?bo] False ni p(1) bo_wf_gen_4 [OF wf]
      by (auto simp: vc4_bo_dec_usecnt_def upd_bo_def)
  qed
qed

lemma vc4_gem_madvise_ioctl_wf:
  assumes wf: "bo_wf dev" and look: "\<And>p. lookup handle = Some p \<Longrightarrow> held dev p"
  shows "\<exists>r dev'. vc4_gem_madvise_ioctl lookup handle madv pad dev = Some (r, dev') \<and> bo_wf dev'"
proof (cases "(madv = VC4_MADV_DONTNEED \<or> madv = VC4_MADV_WILLNEED) \<and> pad = 0 \<and> lookup handle \<noteq> None")
  case False
  then show ?thesis using wf bo_wf_gen_4 [OF wf] by (auto simp: vc4_gem_madvise_ioctl_def)
next
  case True
  then obtain p where p: "lookup handle = Some p" "held dev p" using look by auto
  then obtain bo where bo: "vc4_bos dev p = Some bo" "p \<notin> set (time_list dev)" by (auto simp: held_def)
  let ?bo = "bo\<lparr>bo_madv := madv\<rparr>"
  consider (refused) "bo_madv bo = VC4_MADV_NOTSUPP \<or> bo_imported bo \<or> bo_madv bo = VC4_MADV_PURGED"
    | (enter) "\<not> idle bo" "idle ?bo" "bo_madv bo = VC4_MADV_WILLNEED" "\<not> bo_imported bo" "madv = VC4_MADV_DONTNEED"
    | (leave) "idle bo" "\<not> idle ?bo" "bo_madv bo = VC4_MADV_DONTNEED" "\<not> bo_imported bo" "madv = VC4_MADV_WILLNEED"
    | (same) "idle ?bo = idle bo" "bo_madv bo = VC4_MADV_WILLNEED \<or> bo_madv bo = VC4_MADV_DONTNEED" "\<not> bo_imported bo"
        "bo_usecnt bo \<noteq> 0 \<or> madv = bo_madv bo"
    using True by (cases "bo_madv bo") (auto simp: idle_def)
  then show ?thesis
  proof cases
    case refused
    then show ?thesis using True p bo wf bo_wf_gen_4 [OF wf] by (auto simp: vc4_gem_madvise_ioctl_def)
  next
    case enter
    have "bo_wf (dev\<lparr>purgeable_list := purgeable_list dev @ [p], purgeable_num := purgeable_num dev + 1,
        purgeable_size := purgeable_size dev + bo_size bo, vc4_bos := (vc4_bos dev)(p \<mapsto> ?bo)\<rparr>)"
      using pool_enter_wf [OF wf bo enter(1), of ?bo] enter(2) by (simp add: bo_wfx_def)
    then show ?thesis using enter True p bo bo_wf_gen_4 [OF wf]
      by (auto simp: vc4_gem_madvise_ioctl_def vc4_bo_add_to_purgeable_pool_def upd_bo_def idle_def)
  next
    case leave
    then have "p \<in> set (purgeable_list dev)" using pooled_iff [OF wf bo(1)] by simp
    from vc4_bo_remove_from_purgeable_pool_wf [OF wf this bo(1)] obtain d where d:
      "vc4_bo_remove_from_purgeable_pool_locked p dev = Some d" "bo_wfx {p} d"
      "vc4_bos d = vc4_bos dev" "time_list d = time_list dev" "p \<notin> set (purgeable_list d)" by auto
    have "bo_wf (d\<lparr>vc4_bos := (vc4_bos d)(p \<mapsto> ?bo)\<rparr>)" using bo_wfx_settle [OF d(2), of p bo ?bo] d bo leave(2) by simp
    then show ?thesis using leave d True p bo bo_wf_gen_4 [OF wf]
      by (auto simp: vc4_gem_madvise_ioctl_def vc4_bo_remove_from_purgeable_pool_def upd_bo_def idle_def)
  next
    case same
    then show ?thesis using bo_wfx_update [OF wf bo, of ?bo] True p bo bo_wf_gen_4 [OF wf]
      by (auto simp: vc4_gem_madvise_ioctl_def upd_bo_def idle_def)
  qed
qed

subsection \<open>Labels of user space\<close>

lemma find_label_found:
  "find_label lbs name i fs = (Some k, fs') \<Longrightarrow> i \<le> k \<and> k - i < length lbs \<and> lb_name (lbs ! (k - i)) = Some name"
proof (induction lbs name i fs rule: find_label.induct)
  case (2 lb lbs name i fs)
  then show ?case by (force simp: nth_Cons' Suc_diff_le split: option.splits if_splits)
qed simp

lemma find_label_none:
  "find_label lbs name i fs = (None, fs') \<Longrightarrow>
     (\<forall>lb\<in>set lbs. lb_name lb \<noteq> Some name) \<and>
     (\<forall>s. fs' = Some s \<longrightarrow> fs = Some s \<or> (i \<le> s \<and> s - i < length lbs \<and> lb_name (lbs ! (s - i)) = None))"
proof (induction lbs name i fs rule: find_label.induct)
  case (2 lb lbs name i fs)
  then show ?case by (force simp: nth_Cons' Suc_diff_le split: option.splits if_splits)
qed simp

lemma vc4_get_user_label_wf:
  assumes wf: "bo_wf dev" and get: "vc4_get_user_label alloc name dev = (r, dev')"
  shows "bo_wf dev' \<and> vc4_bos dev' = vc4_bos dev \<and> time_list dev' = time_list dev \<and>
    (\<forall>l. r = Some l \<longrightarrow> l < length (bo_labels dev') \<and> lb_name (bo_labels dev' ! l) = Some name) \<and> (r = None \<longrightarrow> \<not> alloc \<and> dev' = dev)"
proof -
  let ?lbs = "bo_labels dev" and ?new = "\<lparr>lb_name = Some name, num_allocated = 0, size_allocated = 0\<rparr>"
  obtain f s where fl: "find_label ?lbs name 0 None = (f, s)" by fastforce
  have ok: "labels_ok ?lbs (vc4_bos dev)" using wf by (simp add: bo_wfx_def)
  show ?thesis
  proof (cases f)
    case (Some k)
    then show ?thesis using find_label_found [of ?lbs name 0 None k s] fl wf get by (auto simp: vc4_get_user_label_def)
  next
    case None
    then have none: "lb_name (?lbs ! i) \<noteq> Some name" if "i < length ?lbs" for i using find_label_none [of ?lbs name 0 None s] fl that by auto
    then have none': "Some name \<noteq> lb_name (?lbs ! i)" if "i < length ?lbs" for i using that by metis
    show ?thesis
    proof (cases s)
      case (Some k)
      then have k: "k < length ?lbs" "lb_name (?lbs ! k) = None" using find_label_none [of ?lbs name 0 None s] fl None by auto
      then have "VC4_BO_TYPE_COUNT \<le> k" using ok by (auto simp: labels_ok_def names_ok_def not_less [symmetric])
      then have "labels_ok (?lbs[k := (?lbs ! k)\<lparr>lb_name := Some name\<rparr>]) (vc4_bos dev)"
        using ok k none none' by (auto simp: labels_ok_def names_ok_def nth_list_update)
      then show ?thesis using fl None Some get wf k by (auto simp: vc4_get_user_label_def bo_wfx_def)
    next
      case no: None
      have "bo_label bo \<noteq> Some (length ?lbs)" if "vc4_bos dev p = Some bo" for p bo
        using ok that unfolding labels_ok_def by (metis nat_neq_iff option.inject)
      then have "acct f (length ?lbs) (vc4_bos dev) = 0" for f :: "vc4_bo \<Rightarrow> u32"
        unfolding acct_def by (intro sum.neutral) auto
      then have "\<forall>l<Suc (length ?lbs). num_allocated ((?lbs @ [?new]) ! l) = acct (\<lambda>_. 1) l (vc4_bos dev) \<and>
          size_allocated ((?lbs @ [?new]) ! l) = acct (\<lambda>bo. ucast (bo_size bo)) l (vc4_bos dev)"
        using ok by (simp add: labels_ok_def nth_append less_Suc_eq)
      moreover have "\<exists>l<Suc (length ?lbs). bo_label bo = Some l" if "vc4_bos dev p = Some bo" for p bo
        using ok that unfolding labels_ok_def by (meson less_SucI)
      moreover have "names_ok (?lbs @ [?new])"
        using ok none none' by (auto simp: labels_ok_def names_ok_def nth_append less_Suc_eq)
      ultimately have "labels_ok (?lbs @ [?new]) (vc4_bos dev)" using ok by (simp add: labels_ok_def)
      then show ?thesis using fl None no get wf by (auto simp: vc4_get_user_label_def bo_wfx_def split: if_splits)
    qed
  qed
qed

lemma vc4_label_bo_ioctl_wf:
  assumes wf: "bo_wf dev" and look: "\<And>p. lookup handle = Some p \<Longrightarrow> held dev p"
  shows "\<exists>r dev'. vc4_label_bo_ioctl lookup alloc handle len name dev = Some (r, dev') \<and> bo_wf dev'"
proof (cases "len \<noteq> 0 \<and> lookup handle \<noteq> None \<and> (\<exists>n. name = Inr n)")
  case False
  then show ?thesis using wf bo_wf_gen_4 [OF wf] by (cases name) (auto simp: vc4_label_bo_ioctl_def)
next
  case True
  then obtain p n where p: "lookup handle = Some p" "held dev p" "name = Inr n" using look by auto
  obtain r d where g: "vc4_get_user_label alloc n dev = (r, d)" by fastforce
  note u = vc4_get_user_label_wf [OF wf g]
  show ?thesis
  proof (cases r)
    case None
    then show ?thesis using True p g u wf bo_wf_gen_4 [OF wf] by (simp add: vc4_label_bo_ioctl_def)
  next
    case (Some l)
    obtain bo where "vc4_bos d p = Some bo" "p \<notin> set (time_list d)" using p u by (auto simp: held_def)
    then show ?thesis using vc4_bo_set_label_wf [of "{}" d p bo l] True p g u Some bo_wf_gen_4 [OF wf]
      by (auto simp: vc4_label_bo_ioctl_def)
  qed
qed

subsection \<open>Sequences of calls\<close>

fun world_ok :: "bo_world \<Rightarrow> vc4_dev \<Rightarrow> bool" where
  "world_ok w dev = (w_others w = (\<lambda>_ d. d) \<and>
     (case w_outcomes w of (oc1, oc2, oc3) \<Rightarrow> \<forall>oc\<in>set [oc1, oc2, oc3]. outcome_ok dev oc \<and> zero_filled oc))"

lemma give_handle_wf:
  assumes "bo_wf dev" and "held dev p"
  shows "\<exists>r dev'. give_handle alloc now second handle p dev = Some (r, dev') \<and> bo_wf dev'"
  using vc4_free_object_wf [OF assms(1), of p _ alloc now second] assms
  by (cases handle) (auto simp: give_handle_def held_def)

text \<open>After a creation the object becomes visible to user space.\<close>
lemma make_willneed:
  assumes "create_ok allow type sz dev (Inr p) dev1"
  shows "\<exists>dev2. upd_bo p (\<lambda>bo. bo\<lparr>bo_madv := VC4_MADV_WILLNEED\<rparr>) dev1 = Some dev2 \<and> bo_wf dev2 \<and> held dev2 p"
proof -
  obtain bo where bo: "vc4_bos dev1 p = Some bo" "fresh_for type sz bo" and d: "bo_wf dev1" "p \<notin> set (time_list dev1)"
    using assms by (auto simp: create_ok_def)
  then have "idle (bo\<lparr>bo_madv := VC4_MADV_WILLNEED\<rparr>) = idle bo" by (simp add: fresh_for_def idle_def)
  then show ?thesis using bo_wfx_update [OF d(1) bo(1) d(2), of "bo\<lparr>bo_madv := VC4_MADV_WILLNEED\<rparr>"] bo d
    by (simp add: upd_bo_def held_def)
qed

lemma create_for_user_wf:
  assumes wf: "bo_wf dev" and w: "world_ok w dev" and type: "type < VC4_BO_TYPE_COUNT" and sz: "unat (round_page sz) \<le> 2 ^ 32"
  shows "\<exists>r dev'. create_for_user w sz type dev = Some (r, dev') \<and> bo_wf dev'"
proof -
  obtain oc1 oc2 oc3 where oc: "w_outcomes w = (oc1, oc2, oc3)" by (metis prod_cases3)
  obtain r d where c: "vc4_bo_create (w_alloc w) (w_now w) (w_second w) (w_others w) (w_outcomes w) sz False type dev = Some (r, d)"
    "create_ok False type (round_page sz) dev r d"
    using vc4_bo_create_wf [OF wf _ type sz, of oc1 oc2 oc3 "w_alloc w" "w_now w" "w_second w" False] w oc by auto
  show ?thesis
  proof (cases r)
    case (Inl e)
    then show ?thesis using c by (simp add: create_for_user_def create_ok_def)
  next
    case (Inr p)
    then obtain d2 where "upd_bo p (\<lambda>bo. bo\<lparr>bo_madv := VC4_MADV_WILLNEED\<rparr>) d = Some d2" "bo_wf d2" "held d2 p"
      using make_willneed c(2) by blast
    then show ?thesis using give_handle_wf [of d2 p] c(1) Inr by (simp add: create_for_user_def)
  qed
qed

lemma round_page_u32: "unat (round_page (ucast (sz :: u32))) \<le> 2 ^ 32"
proof -
  let ?x = "ucast sz + 4095 :: u64"
  have lt: "unat sz < 2 ^ 32" using unsigned_less [of sz] by simp
  then have u: "unat (ucast sz :: u64) = unat sz" by (simp add: unsigned_ucast_eq take_bit_nat_eq_self)
  have x: "unat ?x = unat sz + 4095" using u lt by (subst unat_add_small) simp_all
  have "?x AND NOT 4095 \<le> ?x" by (rule word_and_le2)
  then have "unat (round_page (ucast sz)) \<le> unat sz + 4095" using x by (simp add: round_page_def word_le_nat_alt)
  moreover obtain k where "unat (round_page (ucast sz)) = 4096 * k" using round_page_aligned by blast
  ultimately show ?thesis using lt by simp
qed

lemma vc4_create_shader_bo_ioctl_wf:
  assumes wf: "bo_wf dev" and w: "world_ok w dev"
  shows "\<exists>r dev'. vc4_create_shader_bo_ioctl w grab user validate args dev = Some (r, dev') \<and> bo_wf dev'"
proof (cases "(\<exists>u. grab = Inr u) \<and> \<not> (sh_size args = 0 \<or> sh_size args mod 8 \<noteq> 0 \<or> sh_flags args \<noteq> 0 \<or> sh_pad args \<noteq> 0)")
  case False
  then show ?thesis using wf bo_wf_gen_4 [OF wf] by (cases grab) (auto simp: vc4_create_shader_bo_ioctl_def)
next
  case True
  then obtain u where g: "grab = Inr u" by (elim conjE exE)
  note go = g conjunct2 [OF True] bo_wf_gen_4 [OF wf]
  obtain oc1 oc2 oc3 where oc: "w_outcomes w = (oc1, oc2, oc3)" by (metis prod_cases3)
  have type: "VC4_BO_TYPE_V3D_SHADER < VC4_BO_TYPE_COUNT" by (simp add: VC4_BO_TYPE_V3D_SHADER_def VC4_BO_TYPE_COUNT_def)
  obtain r d where c: "vc4_bo_create (w_alloc w) (w_now w) (w_second w) (w_others w) (w_outcomes w) (ucast (sh_size args)) True
      VC4_BO_TYPE_V3D_SHADER dev = Some (r, d)" "create_ok True VC4_BO_TYPE_V3D_SHADER (round_page (ucast (sh_size args))) dev r d"
    using vc4_bo_create_wf [OF wf _ type round_page_u32, of oc1 oc2 oc3 "w_alloc w" "w_now w" "w_second w" "sh_size args" True] w oc by auto
  show ?thesis
  proof (cases r)
    case (Inl e)
    then show ?thesis using c go by (simp add: vc4_create_shader_bo_ioctl_def create_ok_def)
  next
    case (Inr p)
    then obtain d2 where d2: "upd_bo p (\<lambda>bo. bo\<lparr>bo_madv := VC4_MADV_WILLNEED\<rparr>) d = Some d2" "bo_wf d2" "held d2 p"
      using make_willneed c(2) by blast
    show ?thesis
    proof (cases user)
      case None
      then show ?thesis using give_handle_wf [OF d2(2,3)] c(1) d2(1) go Inr by (simp add: vc4_create_shader_bo_ioctl_def)
    next
      case (Some content)
      let ?fill = "\<lambda>bo. bo\<lparr>bo_mem := (\<lambda>i. if i < unat (sh_size args) then content i else if i < unat (bo_size bo) then 0 else bo_mem bo i)\<rparr>"
      from upd_bo_wf [OF d2(2,3), of ?fill] obtain d3 where d3: "upd_bo p ?fill d2 = Some d3" "bo_wf d3" "held d3 p"
        using d2(3) by (auto simp: idle_def)
      from upd_bo_wf [OF d3(2,3), of "\<lambda>bo. bo\<lparr>bo_validated_shader := True\<rparr>"] obtain d4 where
        d4: "upd_bo p (\<lambda>bo. bo\<lparr>bo_validated_shader := True\<rparr>) d3 = Some d4" "bo_wf d4" "held d4 p"
        using d3(3) by (auto simp: idle_def)
      obtain bo where bo: "vc4_bos d3 p = Some bo" using d3(3) by (auto simp: held_def)
      show ?thesis
        using give_handle_wf [OF d3(2,3)] give_handle_wf [OF d4(2,3)] c(1) d2(1) d3(1) d4(1) bo go Inr Some
        by (simp add: vc4_create_shader_bo_ioctl_def)
    qed
  qed
qed

text \<open>The calls: from user space, from the last reference to an object, from other parts of the driver, and from the timer.\<close>
datatype bo_call =
    Call_create bo_world "unit result" u32
  | Call_dumb bo_world drm_mode_create_dumb
  | Call_shader bo_world "unit result" "(nat \<Rightarrow> u8) option" "vc4_bo \<Rightarrow> bool" drm_vc4_create_shader_bo
  | Call_madvise "u32 \<Rightarrow> ptr option" u32 vc4_madv u32
  | Call_label "u32 \<Rightarrow> ptr option" bool u32 u32 "string result"
  | Call_tiling "u32 \<Rightarrow> ptr option" u32 u32 tiling_modifier
  | Call_free bool u64 u64 ptr
  | Call_use ptr
  | Call_unuse ptr
  | Call_timer u64 u64
  | Call_purge
  | Call_shrink

fun run_call :: "bo_call \<Rightarrow> vc4_dev \<Rightarrow> vc4_dev option" where
  "run_call (Call_create w grab sz) dev = map_option snd (vc4_create_bo_ioctl w grab sz dev)"
| "run_call (Call_dumb w args) dev = map_option snd (vc4_bo_dumb_create w args dev)"
| "run_call (Call_shader w grab user validate args) dev = map_option snd (vc4_create_shader_bo_ioctl w grab user validate args dev)"
| "run_call (Call_madvise lookup handle madv pad) dev = map_option snd (vc4_gem_madvise_ioctl lookup handle madv pad dev)"
| "run_call (Call_label lookup alloc handle len name) dev = map_option snd (vc4_label_bo_ioctl lookup alloc handle len name dev)"
| "run_call (Call_tiling lookup handle flags modifier) dev = map_option snd (vc4_set_tiling_ioctl lookup handle flags modifier dev)"
| "run_call (Call_free alloc now second p) dev = vc4_free_object alloc now second p dev"
| "run_call (Call_use p) dev = map_option snd (vc4_bo_inc_usecnt p dev)"
| "run_call (Call_unuse p) dev = vc4_bo_dec_usecnt p dev"
| "run_call (Call_timer now second) dev = vc4_bo_cache_time_work now second dev"
| "run_call Call_purge dev = vc4_bo_cache_purge dev"
| "run_call Call_shrink dev = vc4_bo_userspace_cache_purge (\<lambda>_ d. d) dev"

text \<open>
  What the callers keep: handles and references name objects that exist and were not freed, new objects are at free addresses, a use
  is given up as often as it was taken, and the DRM core bounds the size of a dumb buffer.
\<close>
fun call_ok :: "bo_call \<Rightarrow> vc4_dev \<Rightarrow> bool" where
  "call_ok (Call_create w grab sz) dev = world_ok w dev"
| "call_ok (Call_dumb w args) dev = (world_ok w dev \<and> unat (round_page (cd_size (vc4_dumb_fixup_args args))) \<le> 2 ^ 32)"
| "call_ok (Call_shader w grab user validate args) dev = world_ok w dev"
| "call_ok (Call_madvise lookup handle madv pad) dev = (\<forall>p. lookup handle = Some p \<longrightarrow> held dev p)"
| "call_ok (Call_label lookup alloc handle len name) dev = (\<forall>p. lookup handle = Some p \<longrightarrow> held dev p)"
| "call_ok (Call_tiling lookup handle flags modifier) dev = (\<forall>p. lookup handle = Some p \<longrightarrow> held dev p)"
| "call_ok (Call_free alloc now second p) dev = held dev p"
| "call_ok (Call_use p) dev = (held dev p \<and> (\<forall>bo. vc4_bos dev p = Some bo \<longrightarrow> bo_usecnt bo \<noteq> - 1))"
| "call_ok (Call_unuse p) dev = (held dev p \<and> (\<forall>bo. vc4_bos dev p = Some bo \<longrightarrow> bo_usecnt bo \<noteq> 0))"
| "call_ok (Call_timer now second) dev = True"
| "call_ok Call_purge dev = True"
| "call_ok Call_shrink dev = True"

lemmas bo_type_defs = VC4_BO_TYPE_KERNEL_def VC4_BO_TYPE_V3D_def VC4_BO_TYPE_V3D_SHADER_def VC4_BO_TYPE_DUMB_def
  VC4_BO_TYPE_KERNEL_CACHE_def VC4_BO_TYPE_COUNT_def

lemma run_call_wf:
  assumes wf: "bo_wf dev" and ok: "call_ok c dev"
  shows "\<exists>dev'. run_call c dev = Some dev' \<and> bo_wf dev'"
proof (cases c)
  case (Call_create w grab sz)
  have t: "VC4_BO_TYPE_V3D < VC4_BO_TYPE_COUNT" by (simp add: bo_type_defs)
  show ?thesis using create_for_user_wf [OF wf _ t round_page_u32, of w sz] Call_create ok wf bo_wf_gen_4 [OF wf]
    by (cases grab) (auto simp: vc4_create_bo_ioctl_def)
next
  case (Call_dumb w args)
  have t: "VC4_BO_TYPE_DUMB < VC4_BO_TYPE_COUNT" by (simp add: bo_type_defs)
  show ?thesis using create_for_user_wf [OF wf _ t, of w "cd_size (vc4_dumb_fixup_args args)"] Call_dumb ok bo_wf_gen_4 [OF wf]
    by (auto simp: vc4_bo_dumb_create_def)
next
  case (Call_shader w grab user validate args)
  then show ?thesis using vc4_create_shader_bo_ioctl_wf [OF wf, of w grab user validate args] ok by auto
next
  case (Call_madvise lookup handle madv pad)
  then show ?thesis using vc4_gem_madvise_ioctl_wf [OF wf, of lookup handle madv pad] ok by auto
next
  case (Call_label lookup alloc handle len name)
  then show ?thesis using vc4_label_bo_ioctl_wf [OF wf, of lookup handle alloc len name] ok by auto
next
  case (Call_tiling lookup handle flags modifier)
  let ?f = "\<lambda>bo. bo\<lparr>bo_t_format := (modifier = DRM_FORMAT_MOD_BROADCOM_VC4_T_TILED)\<rparr>"
  have "\<exists>dev'. upd_bo p ?f dev = Some dev' \<and> bo_wf dev'" if "held dev p" for p
    using upd_bo_wf [OF wf that, of ?f] by (auto simp: idle_def)
  then show ?thesis using Call_tiling ok wf by (cases "lookup handle") (fastforce simp: vc4_set_tiling_ioctl_def)+
next
  case (Call_free alloc now second p)
  then show ?thesis using vc4_free_object_wf [OF wf, of p _ alloc now second] ok by (auto simp: held_def)
next
  case (Call_use p)
  then show ?thesis using vc4_bo_inc_usecnt_wf [OF wf, of p] ok by (fastforce simp: held_def)
next
  case (Call_unuse p)
  then show ?thesis using vc4_bo_dec_usecnt_wf [OF wf, of p] ok by (fastforce simp: held_def)
next
  case (Call_timer now second)
  then show ?thesis using vc4_bo_cache_free_old_returns [OF wf, of now second] by (auto simp: vc4_bo_cache_time_work_def)
next
  case Call_purge
  then show ?thesis using vc4_bo_cache_purge_returns [OF wf] by auto
next
  case Call_shrink
  then show ?thesis using vc4_bo_userspace_cache_purge_returns [OF wf] by auto
qed

text \<open>The device before the driver is bound.\<close>
definition vc4_dev_zero :: vc4_dev where
  "vc4_dev_zero = \<lparr>vc4_gen_4 = True, vc4_bos = (\<lambda>_. None), size_list = [], time_list = [], time_timer = False, bo_labels = [],
     purgeable_list = [], purgeable_num = 0, purgeable_size = 0, purged_num = 0, purged_size = 0\<rparr>"

inductive bo_reach :: "vc4_dev \<Rightarrow> bool" where
  bo_init: "vc4_bo_cache_init True (Inr ()) vc4_dev_zero = (Inr (), dev) \<Longrightarrow> bo_reach dev"
| bo_step: "bo_reach dev \<Longrightarrow> call_ok c dev \<Longrightarrow> run_call c dev = Some dev' \<Longrightarrow> bo_reach dev'"

lemma bo_names: "length bo_type_names = VC4_BO_TYPE_COUNT" "distinct bo_type_names"
  by (simp_all add: bo_type_names_def VC4_BO_TYPE_COUNT_def)

lemma init_wf:
  assumes "vc4_bo_cache_init True (Inr ()) vc4_dev_zero = (Inr (), dev)"
  shows "bo_wf dev"
  using assms bo_names
  by (auto simp: vc4_bo_cache_init_def vc4_dev_zero_def bo_wfx_def labels_ok_def names_ok_def cache_ok_def pool_ok_def acct_def nth_eq_iff_index_eq)

lemma bo_reach_wf: "bo_reach dev \<Longrightarrow> bo_wf dev"
proof (induction rule: bo_reach.induct)
  case (bo_init dev)
  then show ?case by (rule init_wf)
next
  case (bo_step dev c dev')
  then show ?case using run_call_wf by fastforce
qed

subsection \<open>Properties\<close>

text \<open>A device with no objects, and the surroundings of a call whose first attempt gets new memory.\<close>
definition vc4_dev_start :: vc4_dev where
  "vc4_dev_start = snd (vc4_bo_cache_init True (Inr ()) vc4_dev_zero)"

definition bo_world_new :: "ptr \<Rightarrow> bo_world" where
  "bo_world_new p = \<lparr>w_alloc = True, w_now = 0, w_second = 250, w_others = (\<lambda>_ d. d),
     w_outcomes = (Got_memory p (\<lambda>_. 0), No_object, No_object), w_handle = Inr 1\<rparr>"

lemma vc4_dev_start_reach: "bo_reach vc4_dev_start"
  by (rule bo_init) (simp add: vc4_dev_start_def vc4_bo_cache_init_def vc4_dev_zero_def)

lemma bo_world_new_ok: "vc4_bos dev p = None \<Longrightarrow> world_ok (bo_world_new p) dev"
  by (simp add: bo_world_new_def zero_filled_def)

lemma vc4_dev_start_bos [simp]: "vc4_bos vc4_dev_start p = None"
  by (simp add: vc4_dev_start_def vc4_bo_cache_init_def vc4_dev_zero_def)



text \<open>
  C27. Creating a buffer object. On a consistent device \<open>vc4_bo_create\<close> returns: either no object, or one that nobody held (its
  memory new or taken from the cache), of exactly the size asked for rounded up to pages, counted for its kind, in no list,
  and all zero unless the caller takes old content; the objects others hold keep their memory unless they are idle and
  marked as not needed.
\<close>
theorem vc4_bo_create_exact:
  assumes "bo_wf dev" and "\<forall>oc\<in>set [oc1, oc2, oc3]. outcome_ok dev oc \<and> zero_filled oc"
    and "type < VC4_BO_TYPE_COUNT" and "unat (round_page sz) \<le> 2 ^ 32"
  shows "\<exists>r dev'. vc4_bo_create alloc now second (\<lambda>_ d. d) (oc1, oc2, oc3) sz allow_unzeroed type dev = Some (r, dev') \<and>
     bo_wf dev' \<and> holders_keep dev dev' \<and>
     (\<forall>p. r = Inr p \<longrightarrow> (vc4_bos dev p = None \<or> p \<in> set (time_list dev)) \<and> p \<notin> set (time_list dev') \<and> p \<notin> set (purgeable_list dev') \<and>
        (\<exists>bo. vc4_bos dev' p = Some bo \<and> fresh_for type (round_page sz) bo \<and> (\<not> allow_unzeroed \<longrightarrow> (\<forall>i<unat (round_page sz). bo_mem bo i = 0))))"
proof -
  obtain r dev' where "vc4_bo_create alloc now second (\<lambda>_ d. d) (oc1, oc2, oc3) sz allow_unzeroed type dev = Some (r, dev')"
    "create_ok allow_unzeroed type (round_page sz) dev r dev'" using vc4_bo_create_wf [OF assms] by blast
  then show ?thesis using fresh_not_pooled [of dev'] by (force simp: create_ok_def)
qed

theorem vc4_bo_create_exact_witness:
  "\<exists>r dev'. vc4_bo_create True 0 250 (\<lambda>_ d. d) (No_object, Got_memory 1 (\<lambda>_. 0), No_object) 4096 False VC4_BO_TYPE_V3D vc4_dev_start = Some (r, dev') \<and>
     bo_wf dev' \<and> holders_keep vc4_dev_start dev'"
proof -
  have oc: "\<forall>oc\<in>set [No_object, Got_memory 1 (\<lambda>_. 0), No_object]. outcome_ok vc4_dev_start oc \<and> zero_filled oc" by (simp add: zero_filled_def)
  have ty: "VC4_BO_TYPE_V3D < VC4_BO_TYPE_COUNT" by (simp add: bo_type_defs)
  have sz: "unat (round_page 4096) \<le> 2 ^ 32" by (simp add: round_page_def)
  show ?thesis using vc4_bo_create_exact [OF bo_reach_wf [OF vc4_dev_start_reach] oc ty sz, of True 0 250 False] by blast
qed

text \<open>
  C28. The purge of user objects. With no other thread at work, \<open>vc4_bo_userspace_cache_purge\<close> ends with an empty pool: every
  object that is marked as not needed and not in use loses its memory and becomes purged, every other object, in use or needed,
  is untouched, and the statistics of what was purged grow by what the pool held.
\<close>
theorem vc4_bo_userspace_cache_purge_exact:
  assumes "bo_wf dev"
  shows "\<exists>dev'. vc4_bo_userspace_cache_purge (\<lambda>_ d. d) dev = Some dev' \<and> bo_wf dev' \<and> purgeable_list dev' = [] \<and>
     (\<forall>p bo. vc4_bos dev p = Some bo \<longrightarrow> vc4_bos dev' p = Some (if bo_madv bo = VC4_MADV_DONTNEED \<and> bo_usecnt bo = 0 then vc4_bo_purge bo else bo)) \<and>
     purged_num dev' = purged_num dev + purgeable_num dev \<and> purged_size dev' = purged_size dev + purgeable_size dev"
proof -
  have "purgeable_num dev = of_nat (length (purgeable_list dev))" using assms by (simp add: bo_wfx_def pool_ok_def)
  then show ?thesis using vc4_bo_userspace_cache_purge_returns [OF assms] by (auto simp: purged_def idle_def)
qed

text \<open>An object that user space holds and does not need.\<close>
definition idle_dev :: vc4_dev where
  "idle_dev = vc4_dev_start\<lparr>vc4_bos := (\<lambda>_. None)(1 \<mapsto> (new_bo 4096)\<lparr>bo_vaddr := True, bo_madv := VC4_MADV_DONTNEED\<rparr>),
     bo_labels := (bo_labels vc4_dev_start)[0 := \<lparr>lb_name = Some ''kernel'', num_allocated = 1, size_allocated = 4096\<rparr>],
     purgeable_list := [1], purgeable_num := 1, purgeable_size := 4096\<rparr>"

lemma idle_dev_labels: "labels_ok (bo_labels idle_dev) (vc4_bos idle_dev)"
proof -
  have start: "labels_ok (bo_labels vc4_dev_start) (\<lambda>_. None)"
    using bo_reach_wf [OF vc4_dev_start_reach] by (simp add: bo_wfx_def vc4_dev_start_def vc4_bo_cache_init_def vc4_dev_zero_def)
  let ?bo = "(new_bo 4096)\<lparr>bo_vaddr := True, bo_madv := VC4_MADV_DONTNEED\<rparr>"
  have "bo_labels idle_dev = (bo_labels vc4_dev_start)[0 := count_in ?bo (bo_labels vc4_dev_start ! 0)]"
    by (simp add: idle_dev_def vc4_dev_start_def vc4_bo_cache_init_def vc4_dev_zero_def bo_type_names_def count_in_def new_bo_def)
  then show ?thesis using labels_ok_new [OF start, where p = 1 and bo = ?bo and l = 0]
    by (simp add: idle_dev_def new_bo_def bo_type_defs vc4_dev_start_def vc4_bo_cache_init_def vc4_dev_zero_def bo_type_names_def count_in_def)
qed

lemma idle_dev_wf: "bo_wf idle_dev"
  using idle_dev_labels
  by (auto simp: bo_wfx_def idle_dev_def cache_ok_def pool_ok_def idle_def size_ok_def new_bo_def vc4_dev_start_def vc4_bo_cache_init_def vc4_dev_zero_def)

theorem vc4_bo_userspace_cache_purge_exact_witness:
  "\<exists>dev'. vc4_bo_userspace_cache_purge (\<lambda>_ d. d) idle_dev = Some dev' \<and> purgeable_list dev' = [] \<and> purged_num dev' = 1"
proof -
  have "purged_num idle_dev + purgeable_num idle_dev = 1" by (simp add: idle_dev_def vc4_dev_start_def vc4_bo_cache_init_def vc4_dev_zero_def)
  then show ?thesis using vc4_bo_userspace_cache_purge_exact [OF idle_dev_wf] by auto
qed



subsection \<open>Limits\<close>

text \<open>A request of 4 GiB and a page passes its size to the cache as 32 bits, and gets a cached object of one page.\<close>
lemma vc4_bo_create_truncates:
  assumes wf: "bo_wf dev" and c: "size_list dev = (p # ps) # sl" and type: "type < VC4_BO_TYPE_COUNT"
  shows "\<exists>dev' bo. vc4_bo_create alloc now second others ocs (2 ^ 32 + 4096) True type dev = Some (Inr p, dev') \<and>
    vc4_bos dev' p = Some bo \<and> bo_size bo = 4096"
proof -
  have rp: "round_page 4294971392 = 4294971392" by (simp add: round_page_def)
  have w: "(4294971392 :: u32) = 4096" by simp
  have i: "unat (bo_page_index (ucast (4096 :: u32))) = 0" by (simp add: bo_page_index_def)
  have tl: "type < length (bo_labels dev)" using labels_many [OF wf type] .
  obtain dev' bo where d: "vc4_bo_get_from_cache 4096 type dev = Some (Some p, dev')" "vc4_bos dev p = Some bo" "cacheable 0 bo"
    "vc4_bos dev' = (vc4_bos dev)(p \<mapsto> bo\<lparr>bo_label := Some type\<rparr>)"
    using vc4_bo_get_from_cache_wf [OF wf tl, of 4096] c i by (auto simp: vc4_bo_get_from_cache_def Let_def)
  have "bo_size bo = 4096" using d(2,3) wf i by (intro page_index_inj) (auto simp: cacheable_def bo_wfx_def)
  then show ?thesis using d bo_wf_gen_4 [OF wf] by (auto simp: vc4_bo_create_def rp w Let_def)
qed

text \<open>
  While the purge waits for the lock of an object, another thread asks for the object again: the pool gives up the object twice, and
  its number of objects wraps.
\<close>
lemma vc4_bo_purge_race_counts_twice:
  defines "willneed \<equiv> (\<lambda>p d. snd (the (vc4_gem_madvise_ioctl (\<lambda>_. Some p) 1 VC4_MADV_WILLNEED 0 d)))"
  shows "map_option (\<lambda>d. (purgeable_list d, purgeable_num d, purgeable_size d)) (vc4_bo_userspace_cache_purge willneed idle_dev) = Some ([], - 1, - 4096)"
  unfolding willneed_def idle_dev_def
  by (subst vc4_bo_userspace_cache_purge.simps, simp add: vc4_dev_start_def vc4_bo_cache_init_def vc4_dev_zero_def Let_def
      vc4_bo_remove_from_purgeable_pool_locked_def vc4_bo_remove_from_purgeable_pool_def del_size_head_def
      vc4_gem_madvise_ioctl_def new_bo_def purge_one_def upd_bo_def)
    (subst vc4_bo_userspace_cache_purge.simps, simp)

text \<open>An object that the GEM core cannot initialise is freed, but stays counted.\<close>
lemma drm_gem_dma_create_leaks_count:
  assumes wf: "bo_wf dev" and p: "vc4_bos dev p = None" and sz: "size_ok (new_bo (round_page sz))"
  shows "\<exists>dev'. drm_gem_dma_create alloc now second (Init_failed p e) sz dev = Some (Inl e, dev') \<and> vc4_bos dev' = vc4_bos dev \<and>
    num_allocated (bo_labels dev' ! VC4_BO_TYPE_KERNEL) = acct (\<lambda>_. 1) VC4_BO_TYPE_KERNEL (vc4_bos dev') + 1"
proof -
  have b: "(vc4_bos dev)(p := None) = vc4_bos dev" using p by auto
  from vc4_create_object_wf [OF assms] obtain lbs where c:
    "vc4_create_object (Some p) (round_page sz) dev = Some (Inr p, dev\<lparr>bo_labels := lbs, vc4_bos := (vc4_bos dev)(p \<mapsto> new_bo (round_page sz))\<rparr>)"
    "length lbs = length (bo_labels dev)" "bo_wf (dev\<lparr>bo_labels := lbs, vc4_bos := (vc4_bos dev)(p \<mapsto> new_bo (round_page sz))\<rparr>)" by blast
  have "VC4_BO_TYPE_KERNEL < length lbs" using labels_many [OF c(3), of VC4_BO_TYPE_KERNEL] by (simp add: bo_type_defs)
  then have "num_allocated (lbs ! VC4_BO_TYPE_KERNEL) = acct (\<lambda>_. 1) VC4_BO_TYPE_KERNEL ((vc4_bos dev)(p \<mapsto> new_bo (round_page sz)))"
    using c(3) by (simp add: bo_wfx_def labels_ok_def)
  also have "\<dots> = acct (\<lambda>_. 1) VC4_BO_TYPE_KERNEL (vc4_bos dev) + 1"
    using wf p by (subst acct_update) (simp_all add: bo_wfx_def new_bo_def)
  finally show ?thesis using c(1) b by (simp add: drm_gem_dma_create_def)
qed

end
