(* ===== verification/Vc4_Gem_Laws.thy ===== *)
theory Vc4_Gem_Laws
  imports Vc4_Gem Vc4_Bo_Laws
begin

text \<open>
  What the job queue of vc4 keeps: the reservations of a job are locked all or not at all, the objects it takes are given back
  exactly, the sizes of its command lists are checked without overflow, and jobs run in the order of their submission.
\<close>

text \<open>A device with one object that user space needs, and no jobs.\<close>
definition gem_start :: vc4_gem where
  "gem_start = \<lparr>gem_dev = vc4_dev_start\<lparr>vc4_bos := (\<lambda>_. None)(1 \<mapsto> new_bo 4096)\<rparr>, gem_refs = (\<lambda>_. 0)(1 := 1), bo_seqno = (\<lambda>_. 0),
     bo_write_seqno = (\<lambda>_. 0), resv_locked = [], jobs = (\<lambda>_. None), bin_job_list = [], render_job_list = [], job_done_list = [],
     seqno_cb_list = [], emit_seqno = 0, finished_seqno = 0, active_perfmon = None, bin_bo = None, bin_alloc_used = 0, hang_state = None,
     gem_log = []\<rparr>"

lemma gem_start_gen: "vc4_gen_4 (gem_dev gem_start)"
  by (simp add: gem_start_def vc4_dev_start_def vc4_bo_cache_init_def vc4_dev_zero_def)

subsection \<open>Reservations\<close>

lemma resv_simps [simp]:
  "resv_locked (resv_lock p g) = p # resv_locked g" "resv_locked (resv_unlock p g) = remove1 p (resv_locked g)"
  by (simp_all add: resv_lock_def resv_unlock_def)

definition resv_only :: "vc4_gem \<Rightarrow> vc4_gem \<Rightarrow> bool" where
  "resv_only g g' \<longleftrightarrow> g'\<lparr>resv_locked := []\<rparr> = g\<lparr>resv_locked := []\<rparr>"

lemma resv_only_refl [simp]: "resv_only g g"
  by (simp add: resv_only_def)

lemma resv_only_lock [simp]: "resv_only g (resv_lock p g') = resv_only g g'" "resv_only g (resv_unlock p g') = resv_only g g'"
  by (simp_all add: resv_only_def resv_lock_def resv_unlock_def)

lemma resv_only_trans: "resv_only g1 g2 \<Longrightarrow> resv_only g2 g3 \<Longrightarrow> resv_only g1 g3"
  by (simp add: resv_only_def)

lemma fold_unlock: "mset (resv_locked (fold resv_unlock ps g)) = mset (resv_locked g) - mset ps"
  by (induction ps arbitrary: g) (simp_all add: diff_diff_add_mset)

lemma fold_unlock_only [simp]: "resv_only g' (fold resv_unlock ps g) = resv_only g' g"
  by (induction ps arbitrary: g) simp_all

text \<open>The objects that the loop locks itself.\<close>
fun but_contended :: "nat option \<Rightarrow> nat \<Rightarrow> ptr list \<Rightarrow> ptr list" where
  "but_contended c i [] = []"
| "but_contended c i (p # ps) = (if c = Some i then but_contended c (Suc i) ps else p # but_contended c (Suc i) ps)"

lemma but_contended_mset:
  "mset (but_contended c i ps) = mset ps - (case c of None \<Rightarrow> {#} | Some k \<Rightarrow> if i \<le> k \<and> k < i + length ps then {# ps ! (k - i) #} else {#})"
proof (induction ps arbitrary: i)
  case (Cons p ps)
  then show ?case
  proof (cases c)
    case (Some k)
    consider "k = i" | "k \<noteq> i" "Suc i \<le> k" "k < i + length (p # ps)" | "k \<noteq> i" "\<not> (i \<le> k \<and> k < i + length (p # ps))" by force
    then show ?thesis
    proof cases
      case 2
      then obtain m where "k - i = Suc m" "k - Suc i = m" by (metis Suc_diff_Suc Suc_le_lessD)
      then show ?thesis using 2 Some Cons.IH [of "Suc i"] by (simp add: nth_mem_mset)
    qed (use Some Cons.IH [of "Suc i"] in auto)
  qed simp
qed (simp split: option.split)

lemma lock_each_result:
  assumes "lock_each ans c i ps n g = (r, n', g')"
  shows "resv_only g g' \<and> n \<le> n' \<and>
    (case r of
       Inr _ \<Rightarrow> mset (resv_locked g') = mset (resv_locked g) + mset (but_contended c i ps)
     | Inl (e, j) \<Rightarrow> n < n' \<and> (\<exists>m. n \<le> m \<and> ans m = Inl e) \<and> i \<le> j \<and> j < i + length ps \<and> c \<noteq> Some j \<and>
         mset (resv_locked g') = mset (resv_locked g) + mset (but_contended c i (take (j - i) ps)))"
  using assms
proof (induction ans c i ps n g arbitrary: r n' g' rule: lock_each.induct)
  case (2 ans c i p ps n g)
  show ?case
  proof (cases "c = Some i \<or> (\<exists>u. ans n = Inr u)")
    case False
    then show ?thesis using 2(3) by (auto split: sum.splits)
  next
    case True
    define n1 where "n1 = (if c = Some i then n else Suc n)"
    define g1 where "g1 = (if c = Some i then g else resv_lock p g)"
    have l: "lock_each ans c (Suc i) ps n1 g1 = (r, n', g')" using True 2(3) by (auto simp: n1_def g1_def split: if_splits)
    have o: "resv_only g g' = resv_only g1 g'" by (simp add: resv_only_def g1_def resv_lock_def)
    have t: "but_contended c i (take (j - i) (p # ps)) = (if c = Some i then [] else [p]) @ but_contended c (Suc i) (take (j - Suc i) ps)" if "Suc i \<le> j" for j
    proof -
      have "j - i = Suc (j - Suc i)" using that by simp
      then show ?thesis by simp
    qed
    have ih: "resv_only g1 g' \<and> n1 \<le> n' \<and>
      (case r of
         Inr _ \<Rightarrow> mset (resv_locked g') = mset (resv_locked g1) + mset (but_contended c (Suc i) ps)
       | Inl (e, j) \<Rightarrow> n1 < n' \<and> (\<exists>m. n1 \<le> m \<and> ans m = Inl e) \<and> Suc i \<le> j \<and> j < Suc i + length ps \<and> c \<noteq> Some j \<and>
           mset (resv_locked g') = mset (resv_locked g1) + mset (but_contended c (Suc i) (take (j - Suc i) ps)))"
    proof (cases "c = Some i")
      case c: True
      then have e: "n1 = n" "g1 = g" by (simp_all add: n1_def g1_def)
      show ?thesis using 2(1) [OF c l [unfolded e]] unfolding e .
    next
      case c: False
      then obtain u where u: "ans n = Inr u" using True by blast
      have e: "n1 = Suc n" "g1 = resv_lock p g" using c by (simp_all add: n1_def g1_def)
      show ?thesis using 2(2) [OF c u l [unfolded e]] unfolding e .
    qed
    have n: "n \<le> n1" and m: "mset (resv_locked g1) = mset (resv_locked g) + mset (if c = Some i then [] else [p])" by (simp_all add: n1_def g1_def)
    show ?thesis
    proof (cases r)
      case (Inl x)
      then show ?thesis using ih n m o t [of "snd x"] by (cases x) (auto intro: le_trans)
    next
      case (Inr u)
      then show ?thesis using ih n m o by auto
    qed
  qed
qed simp

lemma unlock_before_restores:
  assumes k: "\<And>k. c = Some k \<Longrightarrow> k < length bos" and i: "i < length bos" "c \<noteq> Some i"
    and held: "mset (resv_locked g) = M + (case c of None \<Rightarrow> {#} | Some k \<Rightarrow> {# bos ! k #}) + mset (but_contended c 0 (take i bos))"
  shows "mset (resv_locked (unlock_before bos c i g)) = M"
proof (cases c)
  case None
  then show ?thesis using held by (simp add: unlock_before_def fold_unlock but_contended_mset)
next
  case (Some k)
  show ?thesis
  proof (cases "k < i")
    case True
    then have "bos ! k \<in># mset (take i bos)" using i(1) by (auto simp: in_set_conv_nth intro!: exI [of _ k])
    then have "mset (resv_locked g) = M + mset (take i bos)" using held Some True i(1) by (simp add: but_contended_mset)
    then show ?thesis using Some True by (simp add: unlock_before_def fold_unlock)
  next
    case False
    then have "mset (resv_locked g) = M + {# bos ! k #} + mset (take i bos)" using held Some i(1) by (simp add: but_contended_mset)
    then show ?thesis using Some False by (simp add: unlock_before_def fold_unlock)
  qed
qed

lemma lock_retry_all_or_none:
  assumes "\<forall>n\<ge>N. ans n \<noteq> Inl EDEADLK" and "\<And>k. c = Some k \<Longrightarrow> k < length bos"
  shows "\<exists>r g'. lock_retry ans bos c n g = Some (r, g') \<and> resv_only g g' \<and>
    mset (resv_locked g') = mset (resv_locked g) + (if r = Inr () then mset bos else {#})"
  using assms(2)
proof (induction "N - n" arbitrary: c n g rule: less_induct)
  case less
  define slow where "slow = (case c of None \<Rightarrow> (Inr (), n, g)
    | Some k \<Rightarrow> (case ans n of Inr _ \<Rightarrow> (Inr (), Suc n, resv_lock (bos ! k) g) | Inl e \<Rightarrow> (Inl e, Suc n, g)))"
  obtain s n1 g1 where sl: "slow = (s, n1, g1)" by (metis prod_cases3)
  have s1: "resv_only g g1" "n \<le> n1" using sl by (auto simp: slow_def split: option.splits sum.splits)
  note unf = lock_retry.simps [of ans bos c n g, folded slow_def, unfolded sl]
  show ?case
  proof (cases s)
    case (Inl e)
    then have "g1 = g" using sl by (auto simp: slow_def split: option.splits sum.splits)
    then show ?thesis using Inl unf by simp
  next
    case (Inr u)
    then have m1: "mset (resv_locked g1) = mset (resv_locked g) + (case c of None \<Rightarrow> {#} | Some k \<Rightarrow> {# bos ! k #})"
      using sl by (auto simp: slow_def split: option.splits sum.splits)
    obtain r n2 g2 where l: "lock_each ans c 0 bos n1 g1 = (r, n2, g2)" by (metis prod_cases3)
    note le = lock_each_result [OF l]
    show ?thesis
    proof (cases r)
      case r: (Inr v)
      then have "mset (resv_locked g2) = mset (resv_locked g) + mset bos"
        using le m1 less.prems by (auto simp: but_contended_mset split: option.splits)
      then show ?thesis using unf Inr l r le s1(1) resv_only_trans by auto
    next
      case r: (Inl x)
      obtain e i where x: "x = (e, i)" by fastforce
      have i: "i < length bos" "c \<noteq> Some i" "n1 < n2" and a: "\<exists>m\<ge>n1. ans m = Inl e" using le r x by auto
      define g3 where "g3 = unlock_before bos c i g2"
      have m3: "mset (resv_locked g3) = mset (resv_locked g)" unfolding g3_def
        using le r x m1 by (intro unlock_before_restores less.prems i) (auto split: option.splits)
      have "resv_only g g2" using resv_only_trans [OF s1(1)] le by blast
      then have o3: "resv_only g g3" by (simp add: g3_def unlock_before_def Let_def split: option.splits)
      show ?thesis
      proof (cases "e = EDEADLK")
        case False
        then show ?thesis using unf Inr l r x m3 o3 by (auto simp: g3_def)
      next
        case True
        then have "n < N" using a s1(2) assms(1) by (metis leI le_trans)
        then have "N - n2 < N - n" using i(3) s1(2) by simp
        from less.hyps [OF this, of "Some i" g3] i(1) obtain r' g' where
          "lock_retry ans bos (Some i) n2 g3 = Some (r', g')" "resv_only g3 g'"
          "mset (resv_locked g') = mset (resv_locked g3) + (if r' = Inr () then mset bos else {#})" by auto
        then show ?thesis using unf Inr l r x m3 o3 True resv_only_trans by (auto simp: g3_def)
      qed
    qed
  qed
qed

text \<open>
  C31. Locking the reservations of a job. As long as the other processes stop backing off at some point, \<open>vc4_lock_bo_reservations\<close>
  returns; on success it holds exactly one more lock on each object of the job, and on any failure, of a lock or of the
  space for a fence, exactly the locks it held before, whichever object was contended.
\<close>
theorem vc4_lock_bo_reservations_all_or_none:
  assumes "\<forall>n\<ge>N. ans n \<noteq> Inl EDEADLK"
  shows "\<exists>r g'. vc4_lock_bo_reservations ans reserve bos g = Some (r, g') \<and>
    mset (resv_locked g') = mset (resv_locked g) + (if r = Inr () then mset bos else {#}) \<and> g'\<lparr>resv_locked := []\<rparr> = g\<lparr>resv_locked := []\<rparr>"
proof -
  obtain r g1 where l: "lock_retry ans bos None 0 g = Some (r, g1)" "resv_only g g1"
    "mset (resv_locked g1) = mset (resv_locked g) + (if r = Inr () then mset bos else {#})"
    using lock_retry_all_or_none [OF assms, of None bos 0 g] by auto
  show ?thesis
  proof (cases r)
    case (Inl e)
    then show ?thesis using l by (simp add: vc4_lock_bo_reservations_def resv_only_def)
  next
    case (Inr u)
    show ?thesis
    proof (cases "List.find (\<lambda>p. \<exists>e. reserve p = Inl e) bos")
      case None
      then show ?thesis using l Inr by (simp add: vc4_lock_bo_reservations_def resv_only_def)
    next
      case (Some p)
      then obtain e where "reserve p = Inl e" by (auto dest: find_SomeD)
      moreover have "resv_only g (vc4_unlock_bo_reservations bos g1)" using l(2) by (simp add: vc4_unlock_bo_reservations_def)
      ultimately show ?thesis using l(1,3) Inr Some
        by (auto simp: vc4_lock_bo_reservations_def vc4_unlock_bo_reservations_def fold_unlock resv_only_def)
    qed
  qed
qed

theorem vc4_lock_bo_reservations_all_or_none_witness:
  "\<exists>r g'. vc4_lock_bo_reservations (\<lambda>n. if n = 1 then Inl EDEADLK else Inr ()) (\<lambda>_. Inr ()) [5, 6] gem_start = Some (r, g') \<and>
    mset (resv_locked g') = mset (resv_locked gem_start) + (if r = Inr () then mset [5, 6] else {#})"
proof -
  have "\<forall>n\<ge>2 :: nat. (if n = 1 then Inl EDEADLK else Inr ()) \<noteq> (Inl EDEADLK :: unit result)" by simp
  then show ?thesis
    using vc4_lock_bo_reservations_all_or_none [of 2 "\<lambda>n. if n = 1 then Inl EDEADLK else Inr ()" "\<lambda>_. Inr ()" "[5, 6]" gem_start] by blast
qed

subsection \<open>The objects of a job\<close>

text \<open>The device with the use of the objects \<open>ps\<close> counted.\<close>
definition used :: "ptr list \<Rightarrow> vc4_dev \<Rightarrow> vc4_dev" where
  "used ps d = d\<lparr>vc4_bos := (\<lambda>p. map_option (\<lambda>bo. bo\<lparr>bo_usecnt := bo_usecnt bo + of_nat (count_list ps p)\<rparr>) (vc4_bos d p))\<rparr>"

definition usable :: "vc4_bo \<Rightarrow> bool" where
  "usable bo \<longleftrightarrow> bo_usecnt bo \<noteq> 0 \<or> bo_madv bo = VC4_MADV_WILLNEED"

text \<open>No count can wrap while \<open>n\<close> more uses are counted.\<close>
definition countable_bo :: "nat \<Rightarrow> vc4_dev \<Rightarrow> ptr \<Rightarrow> bool" where
  "countable_bo n d p \<longleftrightarrow> (\<exists>bo. vc4_bos d p = Some bo \<and> unat (bo_usecnt bo) + n < 2 ^ 32)"

lemma used_Nil [simp]: "used [] d = d"
  by (simp add: used_def option.map_ident)

lemma used_Cons:
  assumes "vc4_bos (used ps d) p = Some bo"
  shows "used (p # ps) d = (used ps d)\<lparr>vc4_bos := (vc4_bos (used ps d))(p \<mapsto> bo\<lparr>bo_usecnt := bo_usecnt bo + 1\<rparr>)\<rparr>"
  using assms by (auto simp: used_def fun_eq_iff add.assoc add.commute)

lemma used_count:
  assumes "countable_bo n d p" and "count_list ps p \<le> n"
  shows "\<exists>bo. vc4_bos d p = Some bo \<and> vc4_bos (used ps d) p = Some (bo\<lparr>bo_usecnt := bo_usecnt bo + of_nat (count_list ps p)\<rparr>) \<and>
     unat (bo_usecnt bo + of_nat (count_list ps p)) = unat (bo_usecnt bo) + count_list ps p"
proof -
  obtain bo where bo: "vc4_bos d p = Some bo" "unat (bo_usecnt bo) + n < 2 ^ 32" using assms(1) by (auto simp: countable_bo_def)
  have "unat (of_nat (count_list ps p) :: u32) = count_list ps p" using bo(2) assms(2) by (simp add: unat_of_nat take_bit_nat_eq_self)
  then have "unat (bo_usecnt bo + of_nat (count_list ps p)) = unat (bo_usecnt bo) + count_list ps p"
    using bo(2) assms(2) by (subst unat_add_small) simp_all
  then show ?thesis using bo by (simp add: used_def)
qed

text \<open>Counting one more use of a usable object.\<close>
lemma vc4_bo_inc_used:
  assumes "vc4_gen_4 d" and c: "countable_bo n d p" "count_list ps p < n" and bo: "vc4_bos d p = Some bo" 
  shows "vc4_bo_inc_usecnt p (used ps d) = (if usable bo \<or> p \<in> set ps then Some (Inr (), used (p # ps) d) else Some (Inl EINVAL, used ps d))"
proof -
  obtain u where u: "vc4_bos (used ps d) p = Some (bo\<lparr>bo_usecnt := bo_usecnt bo + of_nat (count_list ps p)\<rparr>)"
      "unat (bo_usecnt bo + of_nat (count_list ps p)) = unat (bo_usecnt bo) + count_list ps p"
    using used_count [OF c(1), of ps] c(2) bo by auto
  have nz: "bo_usecnt bo + of_nat (count_list ps p) \<noteq> 0 \<longleftrightarrow> bo_usecnt bo \<noteq> 0 \<or> p \<in> set ps"
    using u(2) by (metis add_is_0 count_list_0_iff unat_eq_zero)
  have g: "vc4_gen_4 (used ps d)" using assms(1) by (simp add: used_def)
  show ?thesis
    using u(1) nz g used_Cons [OF u(1)]
    by (cases "bo_madv bo") (auto simp: vc4_bo_inc_usecnt_def upd_bo_def usable_def)
qed

text \<open>Giving it up again.\<close>
lemma vc4_bo_dec_used:
  assumes "vc4_gen_4 d" and c: "countable_bo n d p" "count_list ps p < n" and bo: "vc4_bos d p = Some bo" "usable bo"
  shows "vc4_bo_dec_usecnt p (used (p # ps) d) = Some (used ps d)"
proof -
  let ?u = "bo_usecnt bo + of_nat (count_list (p # ps) p)"
  have u: "vc4_bos (used (p # ps) d) p = Some (bo\<lparr>bo_usecnt := ?u\<rparr>)" "unat ?u = unat (bo_usecnt bo) + Suc (count_list ps p)"
    using used_count [OF c(1), of "p # ps"] c(2) bo by auto
  have g: "vc4_gen_4 (used (p # ps) d)" using assms(1) by (simp add: used_def)
  have restore: "(used (p # ps) d)\<lparr>vc4_bos := (vc4_bos (used (p # ps) d))(p \<mapsto> bo\<lparr>bo_usecnt := ?u - 1\<rparr>)\<rparr> = used ps d"
    using bo(1) by (auto simp: used_def fun_eq_iff)
  have "bo_madv bo \<noteq> VC4_MADV_DONTNEED" if "?u = 1"
  proof -
    have "unat ?u = 1" unfolding that by simp
    then have "bo_usecnt bo = 0" using u(2) by (simp add: unat_eq_zero)
    then show ?thesis using bo(2) by (simp add: usable_def)
  qed
  then show ?thesis using u(1) g restore by (auto simp: vc4_bo_dec_usecnt_def upd_bo_def)
qed

lemma fold_gem_get: "fold gem_get ps g = g\<lparr>gem_refs := (\<lambda>q. gem_refs g q + count_list ps q)\<rparr>"
  by (induction ps arbitrary: g) (simp_all add: gem_get_def fun_upd_def, auto intro!: arg_cong [of _ _ "\<lambda>r. g\<lparr>gem_refs := r\<rparr>" for g])

lemma gem_put_shared:
  assumes "1 < gem_refs g p"
  shows "gem_put w p g = Some (g\<lparr>gem_refs := (gem_refs g)(p := gem_refs g p - 1)\<rparr>)"
  using assms by (cases "gem_refs g p") (auto simp: gem_put_def Let_def)

lemma refs_step: "1 \<le> refs p \<Longrightarrow> (\<lambda>q. refs q + count_list (p # ps) q)(p := refs p + count_list (p # ps) p - 1) = (\<lambda>q. refs q + count_list ps q)"
  by (auto simp: fun_eq_iff)

lemma gem_puts_shared:
  assumes "\<forall>p\<in>set ps. 1 \<le> refs p" and "gem_refs g = (\<lambda>q. refs q + count_list ps q)"
  shows "gem_puts w ps g = Some (g\<lparr>gem_refs := refs\<rparr>)"
  using assms
proof (induction ps arbitrary: g)
  case (Cons p ps)
  have "gem_put w p g = Some (g\<lparr>gem_refs := (\<lambda>q. refs q + count_list ps q)\<rparr>)"
    using gem_put_shared [of g p w] Cons.prems refs_step [of refs p ps] by simp
  then show ?case using Cons.IH [of "g\<lparr>gem_refs := (\<lambda>q. refs q + count_list ps q)\<rparr>"] Cons.prems(1) by simp
qed simp

text \<open>Objects a job can take: they exist, others hold a reference to each, their counts have room, and they are in use or needed.\<close>
definition takeable :: "nat \<Rightarrow> (ptr \<Rightarrow> nat) \<Rightarrow> vc4_dev \<Rightarrow> ptr \<Rightarrow> bool" where
  "takeable n refs d p \<longleftrightarrow> 1 \<le> refs p \<and> countable_bo n d p"

definition usable_in :: "vc4_dev \<Rightarrow> ptr \<Rightarrow> bool" where
  "usable_in d p \<longleftrightarrow> (\<exists>bo. vc4_bos d p = Some bo \<and> usable bo)"

lemma unuse_used:
  assumes "vc4_gen_4 d" and "countable_bo n d p" and "length (p # ps) \<le> n" and "usable_in d p" and "gem_dev g = used (p # ps) d"
  shows "unuse_bo p g = Some (g\<lparr>gem_dev := used ps d\<rparr>)"
proof -
  have "count_list ps p < n" using assms(3) count_le_length [of ps p] by simp
  then show ?thesis using vc4_bo_dec_used [OF assms(1,2)] assms(4,5) by (auto simp: unuse_bo_def usable_in_def)
qed

lemma release_bos_restores:
  assumes "vc4_gen_4 d" and "\<forall>p\<in>set ps. takeable n refs d p \<and> usable_in d p" and "length ps \<le> n"
    and "gem_dev g = used ps d" and "gem_refs g = (\<lambda>q. refs q + count_list ps q)"
  shows "release_bos w ps g = Some (g\<lparr>gem_dev := d, gem_refs := refs\<rparr>)"
  using assms
proof (induction ps arbitrary: g)
  case (Cons p ps)
  have u: "unuse_bo p g = Some (g\<lparr>gem_dev := used ps d\<rparr>)"
    using unuse_used [OF Cons.prems(1), of n p ps g] Cons.prems by (auto simp: takeable_def)
  have "gem_put w p (g\<lparr>gem_dev := used ps d\<rparr>) = Some (g\<lparr>gem_dev := used ps d, gem_refs := (\<lambda>q. refs q + count_list ps q)\<rparr>)"
    using gem_put_shared [of "g\<lparr>gem_dev := used ps d\<rparr>" p w] Cons.prems(2,5) refs_step [of refs p ps] by (simp add: takeable_def)
  then show ?case using u Cons.IH [of "g\<lparr>gem_dev := used ps d, gem_refs := (\<lambda>q. refs q + count_list ps q)\<rparr>"] Cons.prems by simp
qed simp

lemma unuse_all_restores:
  assumes "vc4_gen_4 d" and "\<forall>p\<in>set ps. countable_bo n d p \<and> usable_in d p" and "length ps \<le> n" and "gem_dev g = used ps d"
  shows "unuse_all ps g = Some (g\<lparr>gem_dev := d\<rparr>)"
  using assms
proof (induction ps arbitrary: g)
  case (Cons p ps)
  then show ?case using unuse_used [OF Cons.prems(1), of n p ps g] Cons.IH [of "g\<lparr>gem_dev := used ps d\<rparr>"] by auto
qed simp

lemma use_all_result:
  assumes "vc4_gen_4 d" and "\<forall>p\<in>set (taken @ ps). countable_bo n d p" and "length (taken @ ps) \<le> n"
    and "\<forall>p\<in>set taken. usable_in d p" and "gem_dev g = used taken d"
  shows "use_all taken ps g = Some (if \<forall>p\<in>set ps. usable_in d p then (Inr (), g\<lparr>gem_dev := used (rev ps @ taken) d\<rparr>) else (Inl EINVAL, g\<lparr>gem_dev := d\<rparr>))"
  using assms
proof (induction ps arbitrary: taken g)
  case (Cons p ps)
  obtain bo where bo: "vc4_bos d p = Some bo" using Cons.prems(2) by (auto simp: countable_bo_def)
  have "count_list taken p < n" using Cons.prems(3) count_le_length [of taken p] by simp
  then have inc: "vc4_bo_inc_usecnt p (used taken d) =
      (if usable bo \<or> p \<in> set taken then Some (Inr (), used (p # taken) d) else Some (Inl EINVAL, used taken d))"
    using vc4_bo_inc_used [OF Cons.prems(1) _ _ bo, of n taken] Cons.prems(2) by simp
  have us: "usable bo \<or> p \<in> set taken \<longleftrightarrow> usable_in d p" using Cons.prems(4) bo by (auto simp: usable_in_def)
  show ?case
  proof (cases "usable_in d p")
    case True
    then have "use_all taken (p # ps) g = use_all (p # taken) ps (g\<lparr>gem_dev := used (p # taken) d\<rparr>)"
      using inc us Cons.prems(5) by (simp add: use_bo_def)
    moreover have "use_all (p # taken) ps (g\<lparr>gem_dev := used (p # taken) d\<rparr>) =
      Some (if \<forall>p\<in>set ps. usable_in d p then (Inr (), g\<lparr>gem_dev := used (rev ps @ p # taken) d\<rparr>) else (Inl EINVAL, g\<lparr>gem_dev := d\<rparr>))"
      by (subst Cons.IH) (use Cons.prems True in auto)
    ultimately show ?thesis using True by simp
  next
    case False
    then have "use_bo p g = Some (Inl EINVAL, g)" using inc us Cons.prems(5) by (simp add: use_bo_def)
    moreover have "unuse_all taken g = Some (g\<lparr>gem_dev := d\<rparr>)" using Cons.prems by (intro unuse_all_restores) auto
    ultimately show ?thesis using False by simp
  qed
qed simp

lemma used_rev: "used (rev ps) d = used ps d"
  by (simp add: used_def count_list_rev)



subsection \<open>The copy of the command lists\<close>

lemma u32_no_wrap:
  fixes a b :: u32
  shows "\<not> a + b < a \<longleftrightarrow> unat a + unat b < 2 ^ 32"
proof
  assume "unat a + unat b < 2 ^ 32"
  then have "unat (a + b) = unat a + unat b" by (intro unat_add_small) simp
  then show "\<not> a + b < a" by (simp add: word_less_nat_alt)
next
  assume n: "\<not> a + b < a"
  show "unat a + unat b < 2 ^ 32"
  proof (rule ccontr)
    assume "\<not> unat a + unat b < 2 ^ 32"
    then have ge: "2 ^ 32 \<le> unat a + unat b" by simp
    have lt: "unat a < 2 ^ 32" "unat b < 2 ^ 32" using unsigned_less [of a] unsigned_less [of b] by simp_all
    have "a + b = of_nat (unat a + unat b)" by simp
    then have "unat (a + b) = (unat a + unat b) mod 2 ^ 32" by (simp only: unat_of_nat) (simp add: take_bit_eq_mod)
    also have "\<dots> = unat a + unat b - 2 ^ 32" using ge lt by (simp add: mod_if)
    finally show False using n lt ge by (simp add: word_less_nat_alt)
  qed
qed

lemma roundup_16:
  fixes b :: u32
  shows "if unat b + 15 < 2 ^ 32 then \<not> (b + 15) div 16 * 16 < b \<and> unat ((b + 15) div 16 * 16) = (unat b + 15) div 16 * 16
         else (b + 15) div 16 * 16 < b"
proof (cases "unat b + 15 < 2 ^ 32")
  case True
  then have u: "unat (b + 15) = unat b + 15" by (subst unat_add_small) simp_all
  have "unat ((b + 15) div 16 * 16) = (unat b + 15) div 16 * 16"
  proof -
    have d: "unat ((b + 15) div 16) = (unat b + 15) div 16" using u by (simp add: unat_div)
    have "(b + 15) div 16 * 16 = of_nat (unat ((b + 15) div 16) * 16)" by simp
    then have "(b + 15) div 16 * 16 = of_nat ((unat b + 15) div 16 * 16)" unfolding d .
    then show ?thesis using True by (simp only: unat_of_nat) (simp add: take_bit_nat_eq_self)
  qed
  then show ?thesis using True by (auto simp: word_less_nat_alt)
next
  case False
  have "unat b < 2 ^ 32" using unsigned_less [of b] by simp
  have "b + 15 = of_nat (unat b + 15)" by simp
  then have "unat (b + 15) = (unat b + 15) mod 2 ^ 32" by (simp only: unat_of_nat) (simp add: take_bit_eq_mod)
  also have "\<dots> = unat b + 15 - 2 ^ 32" using False \<open>unat b < 2 ^ 32\<close> by (simp add: mod_if)
  finally have "unat (b + 15) < 16" using \<open>unat b < 2 ^ 32\<close> by simp
  then have "(b + 15) div 16 = 0" by (simp add: word_less_nat_alt div_word_less)
  moreover have "0 < b" using False by (simp add: word_less_nat_alt)
  ultimately show ?thesis using False by simp
qed

text \<open>
  C33. The sizes of the command lists. The check against overflow in \<open>vc4_get_bcl\<close> is exact up to its limit on the shader records: it passes
  if and only if the lists, laid out one after the other, the second at a multiple of 16, and the shader state behind
  them fit into 32 bits; then no offset wraps, and each region ends where the next begins, inside the copy.
\<close>
theorem bcl_overflows_exact:
  "let start = (unat (bin_cl_size args) + 15) div 16 * 16; recs = unat (sc_shader_rec_size args); unis = unat (sc_uniforms_size args);
       states = 8 * unat (shader_rec_count args); l = bcl_layout_of args
   in if start + recs + unis + states < 2 ^ 32 \<and> unat (shader_rec_count args) < 536870911
      then \<not> bcl_overflows args \<and> unat (bin_cl_size args) \<le> unat (shader_rec_offset l) \<and> unat (shader_rec_offset l) = start \<and>
        unat (uniforms_offset l) = start + recs \<and> unat (exec_size l) = start + recs + unis \<and> unat (temp_size l) = start + recs + unis + states
      else bcl_overflows args"
proof -
  let ?b = "bin_cl_size args" and ?r = "sc_shader_rec_size args" and ?u = "sc_uniforms_size args" and ?c = "shader_rec_count args"
  define sro where "sro = (?b + 15) div 16 * 16"
  define start where "start = (unat ?b + 15) div 16 * 16"
  have ov: "bcl_overflows args \<longleftrightarrow> sro < ?b \<or> sro + ?r < sro \<or> sro + ?r + ?u < sro + ?r \<or> 536870911 \<le> ?c \<or> sro + ?r + ?u + 8 * ?c < sro + ?r + ?u"
    by (simp add: bcl_overflows_def bcl_layout_of_def sro_def Let_def)
  have c: "536870911 \<le> ?c \<longleftrightarrow> \<not> unat ?c < 536870911" by (simp add: word_le_nat_alt not_less)
  have st: "unat ?b \<le> start" "start \<le> unat ?b + 15" unfolding start_def by linarith+
  have ru: "if unat ?b + 15 < 2 ^ 32 then \<not> sro < ?b \<and> unat sro = start else sro < ?b" using roundup_16 [of ?b] unfolding sro_def start_def .
  have wrap16: "2 ^ 32 \<le> start" if "\<not> unat ?b + 15 < 2 ^ 32" using that unfolding start_def by simp
  have c8: "unat (8 * ?c) = 8 * unat ?c" if "unat ?c < 536870911"
  proof -
    have "8 * ?c = of_nat (8 * unat ?c)" by simp
    then show ?thesis using that by (simp only: unat_of_nat) (simp add: take_bit_nat_eq_self)
  qed
  have r: "unat (sro + ?r) = unat sro + unat ?r" if "unat sro + unat ?r < 2 ^ 32" using that by (intro unat_add_small) simp
  have u: "unat (sro + ?r + ?u) = unat (sro + ?r) + unat ?u" if "unat (sro + ?r) + unat ?u < 2 ^ 32" using that by (intro unat_add_small) simp
  have t: "unat (sro + ?r + ?u + 8 * ?c) = unat (sro + ?r + ?u) + unat (8 * ?c)" if "unat (sro + ?r + ?u) + unat (8 * ?c) < 2 ^ 32"
    using that by (intro unat_add_small) simp
  note nw = u32_no_wrap [of sro ?r] u32_no_wrap [of "sro + ?r" ?u] u32_no_wrap [of "sro + ?r + ?u" "8 * ?c"]
  have l: "shader_rec_offset (bcl_layout_of args) = sro" "uniforms_offset (bcl_layout_of args) = sro + ?r"
    "exec_size (bcl_layout_of args) = sro + ?r + ?u" "temp_size (bcl_layout_of args) = sro + ?r + ?u + 8 * ?c"
    by (simp_all add: bcl_layout_of_def sro_def Let_def)
  show ?thesis
  proof (cases "start + unat ?r + unat ?u + 8 * unat ?c < 2 ^ 32 \<and> unat ?c < 536870911")
    case True
    then have "unat ?b + 15 < 2 ^ 32" using wrap16 by linarith
    then have s: "unat sro = start" "\<not> sro < ?b" using ru by simp_all
    have "unat (sro + ?r) = start + unat ?r" using r s True by simp
    moreover from this have "unat (sro + ?r + ?u) = start + unat ?r + unat ?u" using u True by simp
    moreover from this have "unat (sro + ?r + ?u + 8 * ?c) = start + unat ?r + unat ?u + 8 * unat ?c" using t c8 True by simp
    ultimately show ?thesis using True s st nw c c8 ov l unfolding start_def [symmetric] by (simp add: Let_def)
  next
    case False
    have "bcl_overflows args"
    proof (rule ccontr)
      assume "\<not> bcl_overflows args"
      then have no: "\<not> sro < ?b" "unat sro + unat ?r < 2 ^ 32" "unat (sro + ?r) + unat ?u < 2 ^ 32" "unat ?c < 536870911"
        "unat (sro + ?r + ?u) + unat (8 * ?c) < 2 ^ 32" using ov c nw by auto
      then have "unat sro = start" using ru by (auto split: if_splits)
      then show False using no r u c8 False by simp
    qed
    then show ?thesis using False unfolding start_def [symmetric] by (simp add: Let_def)
  qed
qed

subsection \<open>The order of jobs\<close>

text \<open>What starting jobs leaves as it is.\<close>
definition queue_frame :: "vc4_gem \<Rightarrow> vc4_gem \<Rightarrow> bool" where
  "queue_frame g g' \<longleftrightarrow> gem_dev g' = gem_dev g \<and> gem_refs g' = gem_refs g \<and> jobs g' = jobs g \<and> resv_locked g' = resv_locked g \<and>
     job_done_list g' = job_done_list g \<and> seqno_cb_list g' = seqno_cb_list g \<and> emit_seqno g' = emit_seqno g \<and> finished_seqno g' = finished_seqno g \<and>
     bo_seqno g' = bo_seqno g \<and> bo_write_seqno g' = bo_write_seqno g \<and> prefix (gem_log g) (gem_log g')"

lemma queue_frame_trans: "queue_frame g1 g2 \<Longrightarrow> queue_frame g2 g3 \<Longrightarrow> queue_frame g1 g3"
  by (auto simp: queue_frame_def)

lemma logs_simps [simp]:
  "gem_dev (logs es g) = gem_dev g" "gem_refs (logs es g) = gem_refs g" "jobs (logs es g) = jobs g" "resv_locked (logs es g) = resv_locked g"
  "job_done_list (logs es g) = job_done_list g" "seqno_cb_list (logs es g) = seqno_cb_list g" "emit_seqno (logs es g) = emit_seqno g"
  "finished_seqno (logs es g) = finished_seqno g" "gem_log (logs es g) = gem_log g @ es" "bin_job_list (logs es g) = bin_job_list g"
  "bo_seqno (logs es g) = bo_seqno g" "bo_write_seqno (logs es g) = bo_write_seqno g"
  "render_job_list (logs es g) = render_job_list g" "active_perfmon (logs es g) = active_perfmon g" "hang_state (logs es g) = hang_state g"
  by (simp_all add: logs_def)

lemma start_perfmon_frame:
  "queue_frame g (start_perfmon pms pm (vc4_flush_caches g)) \<and> bin_job_list (start_perfmon pms pm (vc4_flush_caches g)) = bin_job_list g \<and>
   render_job_list (start_perfmon pms pm (vc4_flush_caches g)) = render_job_list g"
  by (simp add: start_perfmon_def vc4_flush_caches_def queue_frame_def split: option.split)

definition start_writes :: "nat \<Rightarrow> u32 \<Rightarrow> u32 \<Rightarrow> gem_event list" where
  "start_writes t ca ea = [V3D_WRITE (V3D_CTNCA t) ca, V3D_WRITE (V3D_CTNEA t) ea]"

lemma move_to_render:
  assumes "vc4_gen_4 (gem_dev g)" and bin: "bin_job_list g = p # ps" and d: "distinct (render_job_list g @ p # ps)" and p: "jobs g p = Some ex"
  shows "\<exists>g'. vc4_move_job_to_render p g = Some g' \<and> queue_frame g g' \<and> bin_job_list g' = ps \<and> render_job_list g' = render_job_list g @ [p] \<and>
    (render_job_list g = [] \<longrightarrow> suffix (start_writes 1 (ct1ca ex) (ct1ea ex)) (gem_log g'))"
proof -
  have "removeAll p (p # ps) = ps" "removeAll p (render_job_list g) = render_job_list g" using d by auto
  then show ?thesis using assms(1,2) p
    by (auto simp: vc4_move_job_to_render_def Let_def vc4_submit_next_render_job_def vc4_first_render_job_def submit_cl_def
        vc4_flush_texture_caches_def queue_frame_def start_writes_def suffix_def)
qed

definition binless :: "vc4_exec_info \<Rightarrow> bool" where
  "binless ex \<longleftrightarrow> ct0ca ex = ct0ea ex"

text \<open>Where the loop stops: no job waits for the binner, the first one was started, or it is of another monitor than those moved.\<close>
definition bin_settled :: "ptr option option \<Rightarrow> vc4_gem \<Rightarrow> bool" where
  "bin_settled pm g \<longleftrightarrow>
     (case bin_job_list g of
        [] \<Rightarrow> True
      | p # _ \<Rightarrow> \<exists>ex. jobs g p = Some ex \<and>
          ((\<not> binless ex \<and> suffix (start_writes 0 (ct0ca ex) (ct0ea ex)) (gem_log g)) \<or> (\<exists>m. pm = Some m \<and> ex_perfmon ex \<noteq> m)))"

text \<open>One turn of the loop: the first job is started, or it moves on and the loop looks at the next.\<close>
lemma submit_next_bin_turn:
  assumes gen: "vc4_gen_4 (gem_dev g)" and d: "distinct (render_job_list g @ bin_job_list g)" and bin: "bin_job_list g = p # ps" and ex: "jobs g p = Some ex"
  shows "\<exists>g2. queue_frame g g2 \<and>
    (if binless ex
     then bin_job_list g2 = ps \<and> render_job_list g2 = render_job_list g @ [p] \<and>
       vc4_submit_next_bin_job pms g =
         (case vc4_first_bin_job g2 of None \<Rightarrow> Some g2
          | Some n \<Rightarrow> (case jobs g2 n of None \<Rightarrow> None | Some nx \<Rightarrow> if ex_perfmon nx = ex_perfmon ex then vc4_submit_next_bin_job pms g2 else Some g2))
     else vc4_submit_next_bin_job pms g = Some g2 \<and> bin_job_list g2 = bin_job_list g \<and> render_job_list g2 = render_job_list g \<and>
       suffix (start_writes 0 (ct0ca ex) (ct0ea ex)) (gem_log g2))"
proof -
  define g1 where "g1 = start_perfmon pms (ex_perfmon ex) (vc4_flush_caches g)"
  have g1: "queue_frame g g1" "bin_job_list g1 = bin_job_list g" "render_job_list g1 = render_job_list g" "jobs g1 = jobs g" "gem_dev g1 = gem_dev g"
    using start_perfmon_frame [of g pms "ex_perfmon ex"] by (auto simp: g1_def queue_frame_def)
  note unf = vc4_submit_next_bin_job.simps [of pms g]
  show ?thesis
  proof (cases "binless ex")
    case False
    let ?g = "submit_cl 0 (ct0ca ex) (ct0ea ex) g1"
    have "vc4_submit_next_bin_job pms g = Some ?g"
      using unf gen bin ex False by (simp add: vc4_first_bin_job_def g1_def binless_def Let_def)
    moreover have "queue_frame g ?g" using g1(1) by (auto simp: queue_frame_def submit_cl_def)
    ultimately show ?thesis using False g1 by (intro exI [of _ ?g]) (auto simp: submit_cl_def start_writes_def suffix_def)
  next
    case True
    obtain g2 where g2: "vc4_move_job_to_render p g1 = Some g2" "queue_frame g1 g2" "bin_job_list g2 = ps"
      "render_job_list g2 = render_job_list g @ [p]"
      using move_to_render [of g1 p ps ex] gen d bin ex g1 by auto
    then show ?thesis using queue_frame_trans [OF g1(1) g2(2)] unf gen bin ex True
      by (intro exI [of _ g2]) (simp add: vc4_first_bin_job_def g1_def binless_def Let_def)
  qed
qed

lemma submit_next_bin_in_order:
  assumes "vc4_gen_4 (gem_dev g)" and "distinct (render_job_list g @ bin_job_list g)" and "\<forall>p\<in>set (bin_job_list g). jobs g p \<noteq> None"
  shows "\<exists>g' moved pm. vc4_submit_next_bin_job pms g = Some g' \<and> queue_frame g g' \<and> bin_job_list g = moved @ bin_job_list g' \<and>
    render_job_list g' = render_job_list g @ moved \<and> (\<forall>p\<in>set moved. \<exists>ex. jobs g p = Some ex \<and> binless ex \<and> pm = Some (ex_perfmon ex)) \<and>
    (\<forall>p ps ex. bin_job_list g = p # ps \<longrightarrow> jobs g p = Some ex \<longrightarrow> pm \<in> {None, Some (ex_perfmon ex)}) \<and> bin_settled pm g'"
  using assms
proof (induction "length (bin_job_list g)" arbitrary: g rule: less_induct)
  case less
  show ?case
  proof (cases "bin_job_list g")
    case Nil
    then show ?thesis using less.prems(1)
      by (subst vc4_submit_next_bin_job.simps) (auto simp: vc4_first_bin_job_def queue_frame_def bin_settled_def)
  next
    case (Cons p ps)
    then obtain ex where ex: "jobs g p = Some ex" using less.prems(3) by auto
    from submit_next_bin_turn [OF less.prems(1,2) Cons ex, of pms] obtain g2 where f2: "queue_frame g g2" and
      turn: "if binless ex
         then bin_job_list g2 = ps \<and> render_job_list g2 = render_job_list g @ [p] \<and>
           vc4_submit_next_bin_job pms g =
             (case vc4_first_bin_job g2 of None \<Rightarrow> Some g2
              | Some n \<Rightarrow> (case jobs g2 n of None \<Rightarrow> None | Some nx \<Rightarrow> if ex_perfmon nx = ex_perfmon ex then vc4_submit_next_bin_job pms g2 else Some g2))
         else vc4_submit_next_bin_job pms g = Some g2 \<and> bin_job_list g2 = bin_job_list g \<and> render_job_list g2 = render_job_list g \<and>
           suffix (start_writes 0 (ct0ca ex) (ct0ea ex)) (gem_log g2)" by blast
    have j2: "jobs g2 = jobs g" "gem_dev g2 = gem_dev g" using f2 by (simp_all add: queue_frame_def)
    show ?thesis
    proof (cases "binless ex")
      case False
      then show ?thesis using turn f2 Cons ex j2 by (intro exI [of _ g2] exI [of _ "[]"] exI [of _ None]) (auto simp: bin_settled_def)
    next
      case True
      then have g2: "bin_job_list g2 = ps" "render_job_list g2 = render_job_list g @ [p]"
        and step: "vc4_submit_next_bin_job pms g = (case vc4_first_bin_job g2 of None \<Rightarrow> Some g2
          | Some n \<Rightarrow> (case jobs g2 n of None \<Rightarrow> None | Some nx \<Rightarrow> if ex_perfmon nx = ex_perfmon ex then vc4_submit_next_bin_job pms g2 else Some g2))"
        using turn by simp_all
      have stop: ?thesis if "vc4_submit_next_bin_job pms g = Some g2" "bin_settled (Some (ex_perfmon ex)) g2"
        using that f2 g2 Cons ex True by (intro exI [of _ g2] exI [of _ "[p]"] exI [of _ "Some (ex_perfmon ex)"]) auto
      show ?thesis
      proof (cases "\<exists>n ns nx. ps = n # ns \<and> jobs g n = Some nx \<and> ex_perfmon nx = ex_perfmon ex")
        case False
        then show ?thesis using stop step g2 j2 less.prems(3) Cons by (cases ps) (auto simp: vc4_first_bin_job_def bin_settled_def)
      next
        case same: True
        have "length (bin_job_list g2) < length (bin_job_list g)" using g2 Cons by simp
        moreover have "distinct (render_job_list g2 @ bin_job_list g2)" "\<forall>q\<in>set (bin_job_list g2). jobs g2 q \<noteq> None" "vc4_gen_4 (gem_dev g2)"
          using less.prems g2 j2 Cons by auto
        ultimately obtain g3 moved pm where g3: "vc4_submit_next_bin_job pms g2 = Some g3" "queue_frame g2 g3" "bin_job_list g2 = moved @ bin_job_list g3"
          "render_job_list g3 = render_job_list g2 @ moved" "\<forall>p\<in>set moved. \<exists>ex. jobs g2 p = Some ex \<and> binless ex \<and> pm = Some (ex_perfmon ex)"
          "\<forall>p ps ex. bin_job_list g2 = p # ps \<longrightarrow> jobs g2 p = Some ex \<longrightarrow> pm \<in> {None, Some (ex_perfmon ex)}" "bin_settled pm g3"
          using less.hyps [of g2] by blast
        have pm: "pm = None \<or> pm = Some (ex_perfmon ex)" using g3(6) g2 same j2 by auto
        have "bin_settled (Some (ex_perfmon ex)) g3" using g3(7) pm by (auto simp: bin_settled_def split: list.splits)
        moreover have "\<forall>q\<in>set (p # moved). \<exists>x. jobs g q = Some x \<and> binless x \<and> Some (ex_perfmon ex) = Some (ex_perfmon x)"
          using g3(5) pm ex True j2 by fastforce
        moreover have "vc4_submit_next_bin_job pms g = Some g3" using step g3(1) g2 same j2 by (auto simp: vc4_first_bin_job_def)
        moreover have "bin_job_list g = (p # moved) @ bin_job_list g3" "render_job_list g3 = render_job_list g @ p # moved" using g3 g2 Cons by simp_all
        ultimately show ?thesis using queue_frame_trans [OF f2 g3(2)] Cons ex
          by (intro exI [of _ g3] exI [of _ "p # moved"] exI [of _ "Some (ex_perfmon ex)"]) simp
      qed
    qed
  qed
qed

text \<open>The jobs that wait, in the order in which they will be rendered.\<close>
definition waiting :: "vc4_gem \<Rightarrow> ptr list" where
  "waiting g = render_job_list g @ bin_job_list g"

definition seqno_of :: "vc4_gem \<Rightarrow> ptr \<Rightarrow> u64" where
  "seqno_of g p = ex_seqno (the (jobs g p))"

definition job_order :: "vc4_gem \<Rightarrow> bool" where
  "job_order g \<longleftrightarrow> vc4_gen_4 (gem_dev g) \<and> distinct (waiting g) \<and> (\<forall>p\<in>set (waiting g). jobs g p \<noteq> None) \<and>
     sorted_wrt (<) (map (seqno_of g) (waiting g)) \<and> (\<forall>p\<in>set (waiting g). seqno_of g p \<le> emit_seqno g)"

lemma fold_unlock_simps [simp]:
  "gem_dev (fold resv_unlock ps g) = gem_dev g" "jobs (fold resv_unlock ps g) = jobs g" "bin_job_list (fold resv_unlock ps g) = bin_job_list g"
  "render_job_list (fold resv_unlock ps g) = render_job_list g" "emit_seqno (fold resv_unlock ps g) = emit_seqno g"
  "bo_seqno (fold resv_unlock ps g) = bo_seqno g" "bo_write_seqno (fold resv_unlock ps g) = bo_write_seqno g"
  "gem_log (fold resv_unlock ps g) = gem_log g" "gem_refs (fold resv_unlock ps g) = gem_refs g"
  by (induction ps arbitrary: g) (simp_all add: resv_unlock_def)

lemma enqueue_job_fields:
  "gem_dev (enqueue_job sync p ex g) = gem_dev g" "gem_refs (enqueue_job sync p ex g) = gem_refs g"
  "jobs (enqueue_job sync p ex g) = (jobs g)(p \<mapsto> ex\<lparr>ex_seqno := emit_seqno g + 1, ex_fence := Some (emit_seqno g + 1)\<rparr>)"
  "bin_job_list (enqueue_job sync p ex g) = bin_job_list g @ [p]" "render_job_list (enqueue_job sync p ex g) = render_job_list g"
  "emit_seqno (enqueue_job sync p ex g) = emit_seqno g + 1"
  "mset (resv_locked (enqueue_job sync p ex g)) = mset (resv_locked g) - mset (job_bos ex)"
  "bo_seqno (enqueue_job sync p ex g) q = (if q \<in> set (job_bos ex) \<union> set (unref_list ex) then emit_seqno g + 1 else bo_seqno g q)"
  "bo_write_seqno (enqueue_job sync p ex g) q = (if q \<in> set (rcl_write_bo ex) then emit_seqno g + 1 else bo_write_seqno g q)"
  by (cases "ex_bo ex"; cases sync;
      simp add: enqueue_job_def vc4_update_bo_seqnos_def vc4_unlock_bo_reservations_def job_bos_def Let_def fold_unlock)+



subsection \<open>Waiting\<close>

text \<open>A wait for a number the GPU gets to comes back, and reports success only when the GPU got there.\<close>
lemma wait_loop_returns:
  assumes "\<exists>m\<ge>k. seqno \<le> fst (snd (obs m))"
  shows "\<exists>r m. wait_loop obs seqno expire interruptible k = Some (r, m) \<and> k \<le> m \<and>
    (r = Inr () \<longrightarrow> seqno \<le> fst (snd (obs m))) \<and> (r = Inl ERESTARTSYS \<longrightarrow> interruptible \<and> fst (obs m)) \<and> (r = Inl ETIME \<longrightarrow> expire \<noteq> None) \<and>
    r \<in> {Inr (), Inl ERESTARTSYS, Inl ETIME}"
proof -
  obtain m where "k \<le> m" "seqno \<le> fst (snd (obs m))" using assms by blast
  then show ?thesis
  proof (induction "m - k" arbitrary: k)
    case 0
    obtain sig fin jif where o: "obs k = (sig, fin, jif)" by (metis prod_cases3)
    moreover have "m = k" using 0 by simp
    ultimately show ?case using 0 by (subst wait_loop.simps) (auto simp: ERESTARTSYS_def ETIME_def)
  next
    case (Suc d)
    obtain sig fin jif where o: "obs k = (sig, fin, jif)" by (metis prod_cases3)
    have ih: "\<exists>r m. wait_loop obs seqno expire interruptible (Suc k) = Some (r, m) \<and> Suc k \<le> m \<and>
      (r = Inr () \<longrightarrow> seqno \<le> fst (snd (obs m))) \<and> (r = Inl ERESTARTSYS \<longrightarrow> interruptible \<and> fst (obs m)) \<and> (r = Inl ETIME \<longrightarrow> expire \<noteq> None) \<and>
      r \<in> {Inr (), Inl ERESTARTSYS, Inl ETIME}"
      using Suc by (intro Suc.hyps) auto
    consider "interruptible \<and> sig" | "\<not> (interruptible \<and> sig)" "seqno \<le> fin"
      | "\<not> (interruptible \<and> sig)" "\<not> seqno \<le> fin" "case expire of None \<Rightarrow> False | Some e \<Rightarrow> 0 \<le> sint (jif - e)"
      | "\<not> (interruptible \<and> sig)" "\<not> seqno \<le> fin" "\<not> (case expire of None \<Rightarrow> False | Some e \<Rightarrow> 0 \<le> sint (jif - e))" by blast
    then show ?case
    proof cases
      case 1
      then show ?thesis using o by (subst wait_loop.simps) (auto simp: ERESTARTSYS_def ETIME_def)
    next
      case 2
      then show ?thesis using o by (subst wait_loop.simps) (auto simp: ERESTARTSYS_def ETIME_def)
    next
      case 3
      then show ?thesis using o by (subst wait_loop.simps) (auto simp: ERESTARTSYS_def ETIME_def split: option.splits)
    next
      case 4
      then have "wait_loop obs seqno expire interruptible k = wait_loop obs seqno expire interruptible (Suc k)"
        using o by (subst wait_loop.simps) (auto simp: Let_def)
      then show ?thesis using ih by (metis Suc_leD)
    qed
  qed
qed

lemma vc4_wait_for_seqno_returns:
  assumes "vc4_gen_4 (gem_dev g)" and "\<exists>m. seqno \<le> fst (snd (obs m))"
  shows "\<exists>r. vc4_wait_for_seqno to_jiffies start obs seqno timeout_ns interruptible g = Some r \<and>
    (r = Inr () \<longrightarrow> vc4_fence_signaled g seqno \<or> (\<exists>m. seqno \<le> fst (snd (obs m)))) \<and>
    (r = Inl ETIME \<longrightarrow> timeout_ns \<noteq> - 1) \<and> (r = Inl ERESTARTSYS \<longrightarrow> interruptible)"
  using wait_loop_returns [of 0 seqno obs "if timeout_ns \<noteq> - 1 then Some (start + to_jiffies timeout_ns) else None" interruptible] assms
  by (auto simp: vc4_wait_for_seqno_def vc4_fence_signaled_def ETIME_def ERESTARTSYS_def)

subsection \<open>Limits\<close>

lemma resv_locked_kept:
  "gem_put w p g = Some g' \<Longrightarrow> resv_locked g' = resv_locked g"
  "unuse_bo p g = Some g' \<Longrightarrow> resv_locked g' = resv_locked g"
  by (auto simp: gem_put_def unuse_bo_def Let_def split: nat.splits if_splits)

lemma gem_puts_resv: "gem_puts w ps g = Some g' \<Longrightarrow> resv_locked g' = resv_locked g"
  by (induction ps arbitrary: g) (auto simp: bind_eq_Some_conv dest: resv_locked_kept)

lemma release_bos_resv: "release_bos w ps g = Some g' \<Longrightarrow> resv_locked g' = resv_locked g"
  by (induction ps arbitrary: g) (force simp: bind_eq_Some_conv dest: resv_locked_kept)+

lemma vc4_complete_exec_resv: "vc4_complete_exec w ex g = Some g' \<Longrightarrow> resv_locked g' = resv_locked g"
  by (auto simp: vc4_complete_exec_def Let_def bind_eq_Some_conv dest!: gem_puts_resv release_bos_resv split: option.splits)

text \<open>A submission whose object for the result does not exist, or whose fence cannot be allocated, ends with the reservations of its objects locked.\<close>
lemma vc4_submit_cl_keeps_locks:
  assumes go: "vc4_gen_4 (gem_dev g)" "sc_flags args AND NOT 0xf = 0" "pad2 args = 0" "sw_exec s = Some p" "sw_pm_get s = Inr ()"
    and prep: "prepare_job w b s args (logs [Pm_get] g) = Some (Inr (), ex, g1)" and bos: "ex_bo ex = Some ps"
    and lock: "vc4_lock_bo_reservations (sw_lock s) (sw_reserve s) ps g1 = Some (Inr (), g2)" and locked: "set ps \<subseteq> set (resv_locked g2)"
    and bad: "out_sync args \<noteq> 0 \<and> sw_out_sync s (out_sync args) = None \<or> out_sync args = 0 \<and> \<not> sw_fence s"
    and comp: "vc4_complete_exec w ex g2 = Some g3"
  shows "\<exists>e. vc4_submit_cl_ioctl w b s True args g = Some (Inl e, g3) \<and> set ps \<subseteq> set (resv_locked g3)"
  using assms vc4_complete_exec_resv [OF comp]
  by (auto simp: vc4_submit_cl_ioctl_def vc4_queue_submit_def)

text \<open>When the array for the objects of a job cannot be allocated, the error path reads it through a NULL pointer.\<close>
lemma vc4_cl_lookup_bos_null_array: "k \<noteq> 0 \<Longrightarrow> vc4_cl_lookup_bos w Lookup_no_memory k ex g = None"
  by (simp add: vc4_cl_lookup_bos_def)

text \<open>When the second of two handles to a saved state cannot be made, the state is gone, and its reference to the second object stays.\<close>
lemma vc4_get_hang_state_leaks:
  assumes "vc4_gen_4 (gem_dev g)" and "hang_state g = Some h" and "hs_bo h = [p, q]" and "hs_bo_count h = 2" and "p \<noteq> q"
    and "handle 0 = Inr h0" and "handle 1 = Inl e" and "gem_refs g p = Suc (Suc n)" and "2 \<le> k"
  shows "\<exists>g'. vc4_get_hang_state_ioctl w True True handle copy_ok k g = Some (Inl e, g') \<and> hang_state g' = None \<and>
    gem_refs g' p = gem_refs g p - 1 \<and> gem_refs g' q = gem_refs g q"
  using assms
  by (simp add: vc4_get_hang_state_ioctl_def Let_def gem_get_def gem_put_def vc4_free_hang_state_def)

end
