(* ===== verification/Vc4_Fields.thy ===== *)
theory Vc4_Fields
  imports Kmod_Prelude
begin

text \<open>
  Register fields (\<^verbatim>\<open>drivers/gpu/drm/vc4/vc4_regs.h\<close>): a field is its highest and its lowest bit, as in \<open>VC4_MASK(high, low)\<close>.
  What is written to a field is read back, cut to its width, and fields that do not overlap do not disturb each other.
\<close>

type_synonym field = "nat \<times> nat"

fun VC4_MASK :: "field \<Rightarrow> u32" where
  "VC4_MASK (hi, lo) = push_bit lo (mask (hi - lo + 1))"

text \<open>\<open>FIELD_PREP\<close>; the test of \<open>FIELD_FIT\<close> only warns.\<close>
fun VC4_SET_FIELD :: "u32 \<Rightarrow> field \<Rightarrow> u32" where
  "VC4_SET_FIELD v (hi, lo) = push_bit lo v AND VC4_MASK (hi, lo)"

text \<open>\<open>FIELD_GET\<close>\<close>
fun VC4_GET_FIELD :: "u32 \<Rightarrow> field \<Rightarrow> u32" where
  "VC4_GET_FIELD w (hi, lo) = drop_bit lo (w AND VC4_MASK (hi, lo))"

text \<open>\<open>(reg & ~F_MASK) | VC4_SET_FIELD(v, F)\<close>\<close>
definition put_field :: "u32 \<Rightarrow> field \<Rightarrow> u32 \<Rightarrow> u32" where
  "put_field v f reg = (reg AND NOT (VC4_MASK f)) OR VC4_SET_FIELD v f"

named_theorems fields \<open>reading back register fields\<close>

lemma bit_VC4_MASK:
  "lo \<le> hi \<Longrightarrow> bit (VC4_MASK (hi, lo)) n \<longleftrightarrow> lo \<le> n \<and> n \<le> hi \<and> n < 32"
  by (auto simp: bit_push_bit_iff bit_mask_iff)

lemma bit_VC4_GET_FIELD:
  "lo \<le> hi \<Longrightarrow> bit (VC4_GET_FIELD w (hi, lo)) n \<longleftrightarrow> n + lo \<le> hi \<and> bit w (n + lo)"
  by (auto simp: bit_drop_bit_eq bit_and_iff bit_VC4_MASK simp del: VC4_MASK.simps dest: bit_imp_le_length
           split: prod.splits simp flip: add.commute)

lemma VC4_GET_put_field [fields]:
  assumes "lo \<le> hi" "hi < 32"
  shows "VC4_GET_FIELD (put_field v (hi, lo) reg) (hi, lo) = take_bit (hi - lo + 1) v"
proof (rule bit_word_eqI)
  fix n assume "n < LENGTH(32)"
  show "bit (VC4_GET_FIELD (put_field v (hi, lo) reg) (hi, lo)) n = bit (take_bit (hi - lo + 1) v) n"
    using assms
    by (auto simp: bit_VC4_GET_FIELD put_field_def bit_or_iff bit_and_iff bit_not_iff bit_VC4_MASK bit_push_bit_iff
          bit_take_bit_iff simp del: VC4_MASK.simps VC4_GET_FIELD.simps)
qed

lemma VC4_GET_put_other [fields]:
  assumes "lo \<le> hi" "lo' \<le> hi'" "hi < lo' \<or> hi' < lo"
  shows "VC4_GET_FIELD (put_field v (hi', lo') reg) (hi, lo) = VC4_GET_FIELD reg (hi, lo)"
proof (rule bit_word_eqI)
  fix n assume "n < LENGTH(32)"
  show "bit (VC4_GET_FIELD (put_field v (hi', lo') reg) (hi, lo)) n = bit (VC4_GET_FIELD reg (hi, lo)) n"
    using assms
    by (auto simp: bit_VC4_GET_FIELD put_field_def bit_or_iff bit_and_iff bit_not_iff bit_VC4_MASK bit_push_bit_iff
          simp del: VC4_MASK.simps VC4_GET_FIELD.simps dest: bit_imp_le_length)
qed

subsection \<open>\<open>ffs\<close>\<close>

definition ffs :: "u32 \<Rightarrow> nat" where
  "ffs w = (case List.find (bit w) [0..<32] of None \<Rightarrow> 0 | Some n \<Rightarrow> Suc n)"

lemma ffs_bit: "w \<noteq> 0 \<Longrightarrow> bit w (ffs w - 1) \<and> ffs w > 0"
proof -
  assume "w \<noteq> 0"
  then obtain n where "bit w n" by (metis bit_eqI bit_0_eq bot_apply bot_bool_def)
  then have "n \<in> set [0..<32]" using bit_imp_le_length [of w n] by auto
  with \<open>bit w n\<close> obtain m where "List.find (bit w) [0..<32] = Some m"
    using find_None_iff_all [of "bit w" "[0..<32]"] by (cases "List.find (bit w) [0..<32]") auto
  then show ?thesis using find_SomeD [of "bit w" "[0..<32]" m] by (simp add: ffs_def)
qed

end
