(* ===== verification/Vc4_Kms.thy ===== *)
theory Vc4_Kms
  imports Vc4_Fields "HOL-Library.Multiset"
begin

text \<open>
  Mode setting of vc4 (\<^verbatim>\<open>drivers/gpu/drm/vc4/vc4_kms.c\<close>, with the layouts, the duplication and the reset of a CRTC's state from
  \<^verbatim>\<open>vc4_crtc.c\<close>): the choice of an HVS channel for each CRTC, the colour matrix, the load tracker, the core clock, and the commit
  that programs the muxes. Each CRTC, plane and private object has a current state; an atomic state holds pairs of an old and a new
  one for those that take part, at their index. An operation returns None when it touches memory outside an array or through NULL.
  The rest of the DRM core and of the kernel is the record \<open>kms_env\<close>; the calls of the commit into it are in a log.
\<close>

subsection \<open>State\<close>

datatype vc4_gen = VC4_GEN_4 | VC4_GEN_5 | VC4_GEN_6_C | VC4_GEN_6_D

datatype vc4_encoder_type =
    VC4_ENCODER_TYPE_NONE | VC4_ENCODER_TYPE_HDMI0 | VC4_ENCODER_TYPE_HDMI1 | VC4_ENCODER_TYPE_VEC | VC4_ENCODER_TYPE_DSI0
  | VC4_ENCODER_TYPE_DSI1 | VC4_ENCODER_TYPE_SMI | VC4_ENCODER_TYPE_DPI | VC4_ENCODER_TYPE_TXP0 | VC4_ENCODER_TYPE_TXP1

record vc4_crtc_data =
  hvs_available_channels :: u32
  hvs_output :: int

record vc4_crtc =
  crtc_data :: vc4_crtc_data
  feeds_txp :: bool

definition HVS_NUM_CHANNELS :: nat where "HVS_NUM_CHANNELS = 3"
definition VC4_HVS_CHANNEL_DISABLED :: u32 where "VC4_HVS_CHANNEL_DISABLED = - 1"

text \<open>The property blob of a colour matrix is an address; \<open>cs_encoder\<close> is the type of the encoder in \<open>encoder_mask\<close>.\<close>
record vc4_crtc_state =
  cs_enable :: bool
  cs_active :: bool
  cs_ctm :: "ptr option"
  cs_commit :: "ptr option"
  cs_encoder :: "vc4_encoder_type option"
  cs_margins :: "nat \<times> nat \<times> nat \<times> nat"
  assigned_channel :: u32
  cs_hvs_load :: u64
  update_muxing :: bool

record fifo_state =
  in_use :: bool
  fifo_load :: u64
  pending_commit :: "ptr option"

record vc4_hvs_state =
  core_clock_rate :: u64
  hvs_fifos :: "fifo_state list"

record vc4_load_tracker_state =
  hvs_load :: u64
  membus_load :: u64

record vc4_ctm_state =
  ctm :: "ptr option"
  ctm_fifo :: int

record vc4_plane_state =
  ps_fb :: bool
  ps_crtc :: "nat option"
  ps_hvs_load :: u64
  ps_membus_load :: u64

text \<open>
  The registers of the HVS, an indexed one by its channel. A device has one generation, and the names that share an offset between
  generations are not mixed, but for the write to \<open>SCALER_DISPSTAT\<close> of \<^verbatim>\<open>vc4_hvs.c\<close>.
\<close>
datatype hvs_reg = SCALER_DISPCTRL | SCALER_DISPSTAT | SCALER_DISPECTRL | SCALER_DISPEOLN | SCALER_DISPDITHER
  | SCALER_OLEDOFFS | SCALER_OLEDCOEF0 | SCALER_OLEDCOEF1 | SCALER_OLEDCOEF2
  | SCALER_DISPLISTX nat | SCALER_DISPLACTX nat | SCALER_DISPCTRLX nat | SCALER_DISPBKGNDX nat | SCALER_DISPSTATX nat | SCALER_DISPBASEX nat
  | SCALER_GAMADDR | SCALER_GAMDATA
  | SCALER6_CONTROL | SCALER6_VERSION | SCALER6_CXM_SIZE | SCALER6_PRI_MAP0 | SCALER6_PRI_MAP1
  | SCALER6_DISPX_CTRL0 nat | SCALER6_DISPX_CTRL1 nat | SCALER6_DISPX_LPTRS nat | SCALER6_DISPX_COB nat | SCALER6_DISPX_STATUS nat
  | SCALER6_DISPX_DL nat
  | CFC1_N_NL_CSC_CTRL nat | CFC1_N_MA_CSC_COEFF nat nat nat
  | SCALER_PI_CMP_CSC_RED0 nat | SCALER_PI_CMP_CSC_RED1 nat | SCALER_PI_CMP_CSC_RED_CLAMP nat | SCALER_PI_CMP_CSC_CFG nat
  | SCALER_PI_CMP_CSC_GREEN0 nat | SCALER_PI_CMP_CSC_GREEN1 nat | SCALER_PI_CMP_CSC_GREEN_CLAMP nat
  | SCALER_PI_CMP_CSC_BLUE0 nat | SCALER_PI_CMP_CSC_BLUE1 nat | SCALER_PI_CMP_CSC_BLUE_CLAMP nat

text \<open>What a commit asks of the rest of the kernel, in order.\<close>
datatype kms_event =
    Commit_wait ptr | Set_min_rate u64 | Modeset_disables | Commit_planes | Modeset_enables | Fake_vblank | Hw_done
  | Wait_flip_done | Cleanup_planes

record vc4_kms =
  kms_gen :: vc4_gen
  firmware_kms :: bool
  load_tracker_enabled :: bool
  kms_crtcs :: "vc4_crtc list"
  crtc_states :: "vc4_crtc_state list"
  plane_states :: "vc4_plane_state list"
  hvs_channels :: vc4_hvs_state
  load_tracker :: vc4_load_tracker_state
  ctm_manager :: vc4_ctm_state
  max_core_rate :: u64
  hvs_regs :: "hvs_reg \<Rightarrow> u32"
  commit_refs :: "ptr \<Rightarrow> int"
  kms_log :: "kms_event list"

record drm_atomic_state =
  as_crtcs :: "(vc4_crtc_state \<times> vc4_crtc_state) option list"
  as_planes :: "(vc4_plane_state \<times> vc4_plane_state) option list"
  as_hvs :: "(vc4_hvs_state \<times> vc4_hvs_state) option"
  as_load :: "(vc4_load_tracker_state \<times> vc4_load_tracker_state) option"
  as_ctm :: "(vc4_ctm_state \<times> vc4_ctm_state) option"
  legacy_cursor_update :: bool

text \<open>
  Whether taking each private object into an atomic state fails (the allocation, and for the colour matrix the lock), whether the array
  of CRTCs can be allocated, the kernel's \<open>sort\<close>, which need not be stable, \<open>drm_atomic_helper_check\<close>, and the matrix in a blob.
\<close>
record kms_env =
  env_hvs_err :: "errno option"
  env_load_err :: "errno option"
  env_ctm_lock_err :: "errno option"
  env_ctm_err :: "errno option"
  env_crtc_array :: bool
  env_sort :: "(nat \<Rightarrow> int) \<Rightarrow> nat list \<Rightarrow> nat list"
  env_helper_check :: "vc4_kms \<Rightarrow> drm_atomic_state \<Rightarrow> unit result \<times> drm_atomic_state"
  env_ctm_matrix :: "ptr \<Rightarrow> u64 list"

subsection \<open>The layouts of \<^verbatim>\<open>vc4_crtc.c\<close>\<close>

definition channels :: "nat list \<Rightarrow> u32" where
  "channels cs = fold (\<lambda>c w. w OR push_bit c 1) cs 0"

definition bcm2835_pv0_data :: vc4_crtc_data where "bcm2835_pv0_data = \<lparr>hvs_available_channels = channels [0], hvs_output = 0\<rparr>"
definition bcm2835_pv1_data :: vc4_crtc_data where "bcm2835_pv1_data = \<lparr>hvs_available_channels = channels [0, 1, 2], hvs_output = 2\<rparr>"
definition bcm2835_pv2_data :: vc4_crtc_data where "bcm2835_pv2_data = \<lparr>hvs_available_channels = channels [1], hvs_output = 1\<rparr>"
definition bcm2711_pv0_data :: vc4_crtc_data where "bcm2711_pv0_data = \<lparr>hvs_available_channels = channels [0], hvs_output = 0\<rparr>"
definition bcm2711_pv1_data :: vc4_crtc_data where "bcm2711_pv1_data = \<lparr>hvs_available_channels = channels [0, 1, 2], hvs_output = 3\<rparr>"
definition bcm2711_pv2_data :: vc4_crtc_data where "bcm2711_pv2_data = \<lparr>hvs_available_channels = channels [0, 1, 2], hvs_output = 4\<rparr>"
definition bcm2711_pv3_data :: vc4_crtc_data where "bcm2711_pv3_data = \<lparr>hvs_available_channels = channels [1], hvs_output = 1\<rparr>"
definition bcm2711_pv4_data :: vc4_crtc_data where "bcm2711_pv4_data = \<lparr>hvs_available_channels = channels [0, 1, 2], hvs_output = 5\<rparr>"
definition bcm2712_pv0_data :: vc4_crtc_data where "bcm2712_pv0_data = \<lparr>hvs_available_channels = channels [0], hvs_output = 0\<rparr>"
definition bcm2712_pv1_data :: vc4_crtc_data where "bcm2712_pv1_data = \<lparr>hvs_available_channels = channels [1], hvs_output = 1\<rparr>"

definition pv_crtc :: "vc4_crtc_data \<Rightarrow> vc4_crtc" where
  "pv_crtc d = \<lparr>crtc_data = d, feeds_txp = False\<rparr>"

definition bcm2835_crtcs :: "vc4_crtc list" where
  "bcm2835_crtcs = map pv_crtc [bcm2835_pv0_data, bcm2835_pv1_data, bcm2835_pv2_data]"

definition bcm2711_crtcs :: "vc4_crtc list" where
  "bcm2711_crtcs = map pv_crtc [bcm2711_pv0_data, bcm2711_pv1_data, bcm2711_pv2_data, bcm2711_pv3_data, bcm2711_pv4_data]"

definition bcm2712_crtcs :: "vc4_crtc list" where
  "bcm2712_crtcs = map pv_crtc [bcm2712_pv0_data, bcm2712_pv1_data]"

subsection \<open>The state of a CRTC\<close>

definition vc4_crtc_reset :: vc4_crtc_state where
  "vc4_crtc_reset = \<lparr>cs_enable = False, cs_active = False, cs_ctm = None, cs_commit = None, cs_encoder = None, cs_margins = (0, 0, 0, 0),
     assigned_channel = VC4_HVS_CHANNEL_DISABLED, cs_hvs_load = 0, update_muxing = False\<rparr>"

text \<open>The DRM core copies its part of the state and drops the commit; the driver copies the channel and the margins.\<close>
definition vc4_crtc_duplicate_state :: "vc4_crtc_state \<Rightarrow> vc4_crtc_state" where
  "vc4_crtc_duplicate_state old = old\<lparr>cs_commit := None, cs_hvs_load := 0, update_muxing := False\<rparr>"

subsection \<open>Private objects\<close>

definition vc4_ctm_duplicate_state :: "vc4_ctm_state \<Rightarrow> vc4_ctm_state" where
  "vc4_ctm_duplicate_state s = s"

definition vc4_load_tracker_duplicate_state :: "vc4_load_tracker_state \<Rightarrow> vc4_load_tracker_state" where
  "vc4_load_tracker_duplicate_state s = s"

text \<open>The pending commits are not copied.\<close>
definition vc4_hvs_channels_duplicate_state :: "vc4_hvs_state \<Rightarrow> vc4_hvs_state" where
  "vc4_hvs_channels_duplicate_state old =
     \<lparr>core_clock_rate = core_clock_rate old, hvs_fifos = map (\<lambda>f. f\<lparr>pending_commit := None\<rparr>) (hvs_fifos old)\<rparr>"

text \<open>\<open>drm_crtc_commit_put\<close> of every pending commit.\<close>
definition put_commits :: "ptr option list \<Rightarrow> vc4_kms \<Rightarrow> vc4_kms" where
  "put_commits cs dev = fold (\<lambda>c dev. case c of None \<Rightarrow> dev | Some p \<Rightarrow> dev\<lparr>commit_refs := (commit_refs dev)(p := commit_refs dev p - 1)\<rparr>) cs dev"

definition vc4_hvs_channels_destroy_state :: "vc4_hvs_state \<Rightarrow> vc4_kms \<Rightarrow> vc4_kms" where
  "vc4_hvs_channels_destroy_state s dev = put_commits (map pending_commit (hvs_fifos s)) dev"

definition vc4_get_ctm_state :: "kms_env \<Rightarrow> vc4_kms \<Rightarrow> drm_atomic_state \<Rightarrow> vc4_ctm_state result \<times> drm_atomic_state" where
  "vc4_get_ctm_state env dev st =
     (case env_ctm_lock_err env of Some e \<Rightarrow> (Inl e, st)
      | None \<Rightarrow>
         (case as_ctm st of Some (_, n) \<Rightarrow> (Inr n, st)
          | None \<Rightarrow>
             (case env_ctm_err env of Some e \<Rightarrow> (Inl e, st)
              | None \<Rightarrow> let d = vc4_ctm_duplicate_state (ctm_manager dev) in (Inr d, st\<lparr>as_ctm := Some (ctm_manager dev, d)\<rparr>))))"

definition vc4_hvs_get_global_state :: "kms_env \<Rightarrow> vc4_kms \<Rightarrow> drm_atomic_state \<Rightarrow> vc4_hvs_state result \<times> drm_atomic_state" where
  "vc4_hvs_get_global_state env dev st =
     (case as_hvs st of Some (_, n) \<Rightarrow> (Inr n, st)
      | None \<Rightarrow>
         (case env_hvs_err env of Some e \<Rightarrow> (Inl e, st)
          | None \<Rightarrow> let d = vc4_hvs_channels_duplicate_state (hvs_channels dev) in (Inr d, st\<lparr>as_hvs := Some (hvs_channels dev, d)\<rparr>)))"

definition vc4_hvs_get_new_global_state :: "drm_atomic_state \<Rightarrow> vc4_hvs_state result" where
  "vc4_hvs_get_new_global_state st = (case as_hvs st of None \<Rightarrow> Inl EINVAL | Some (_, n) \<Rightarrow> Inr n)"

definition vc4_hvs_get_old_global_state :: "drm_atomic_state \<Rightarrow> vc4_hvs_state result" where
  "vc4_hvs_get_old_global_state st = (case as_hvs st of None \<Rightarrow> Inl EINVAL | Some (o', _) \<Rightarrow> Inr o')"

text \<open>\<open>drm_atomic_get_private_obj_state(state, &vc4->load_tracker)\<close>\<close>
definition get_load_tracker :: "kms_env \<Rightarrow> vc4_kms \<Rightarrow> drm_atomic_state \<Rightarrow> vc4_load_tracker_state result \<times> drm_atomic_state" where
  "get_load_tracker env dev st =
     (case as_load st of Some (_, n) \<Rightarrow> (Inr n, st)
      | None \<Rightarrow>
         (case env_load_err env of Some e \<Rightarrow> (Inl e, st)
          | None \<Rightarrow> let d = vc4_load_tracker_duplicate_state (load_tracker dev) in (Inr d, st\<lparr>as_load := Some (load_tracker dev, d)\<rparr>)))"

text \<open>Assignments through the pointers these return.\<close>
definition set_new_hvs :: "vc4_hvs_state \<Rightarrow> drm_atomic_state \<Rightarrow> drm_atomic_state" where
  "set_new_hvs n st = st\<lparr>as_hvs := map_option (\<lambda>(o', _). (o', n)) (as_hvs st)\<rparr>"

definition set_new_load :: "vc4_load_tracker_state \<Rightarrow> drm_atomic_state \<Rightarrow> drm_atomic_state" where
  "set_new_load n st = st\<lparr>as_load := map_option (\<lambda>(o', _). (o', n)) (as_load st)\<rparr>"

definition set_new_ctm :: "vc4_ctm_state \<Rightarrow> drm_atomic_state \<Rightarrow> drm_atomic_state" where
  "set_new_ctm n st = st\<lparr>as_ctm := map_option (\<lambda>(o', _). (o', n)) (as_ctm st)\<rparr>"

subsection \<open>Choosing the channels\<close>

definition upd_fifo :: "u32 \<Rightarrow> (fifo_state \<Rightarrow> fifo_state) \<Rightarrow> vc4_hvs_state \<Rightarrow> vc4_hvs_state option" where
  "upd_fifo c f hvs =
     (if unat c < length (hvs_fifos hvs) then Some (hvs\<lparr>hvs_fifos := (hvs_fifos hvs)[unat c := f (hvs_fifos hvs ! unat c)]\<rparr>) else None)"

definition free_channels :: "vc4_hvs_state \<Rightarrow> u32" where
  "free_channels hvs = fold (\<lambda>i w. if in_use (hvs_fifos hvs ! i) then w else w OR push_bit i 1) [0..<length (hvs_fifos hvs)] 0"

type_synonym crtc_pairs = "(vc4_crtc_state \<times> vc4_crtc_state) option list"

text \<open>The loop over the sorted CRTCs; it changes the new states of the CRTCs and the new state of the channels.\<close>
fun pv_muxing_loop :: "vc4_crtc list \<Rightarrow> nat list \<Rightarrow> u32 \<Rightarrow> vc4_hvs_state \<Rightarrow> crtc_pairs \<Rightarrow> (unit result \<times> vc4_hvs_state \<times> crtc_pairs) option" where
  "pv_muxing_loop crtcs [] unassigned hvs cs = Some (Inr (), hvs, cs)"
| "pv_muxing_loop crtcs (i # is) unassigned hvs cs =
     (case cs ! i of
        None \<Rightarrow> pv_muxing_loop crtcs is unassigned hvs cs
      | Some (old, new) \<Rightarrow>
         (if cs_enable old = cs_enable new then pv_muxing_loop crtcs is unassigned hvs cs
          else
            let new = new\<lparr>update_muxing := True\<rparr>
            in if \<not> cs_enable new
               then (case upd_fifo (assigned_channel old) (\<lambda>f. f\<lparr>in_use := False\<rparr>) hvs of
                       None \<Rightarrow> None
                     | Some hvs' \<Rightarrow>
                        pv_muxing_loop crtcs is unassigned hvs' (cs[i := Some (old, new\<lparr>assigned_channel := VC4_HVS_CHANNEL_DISABLED\<rparr>)]))
               else
                 let matching = unassigned AND hvs_available_channels (crtc_data (crtcs ! i));
                     channel = of_nat (ffs matching - 1)
                 in if matching = 0 then Some (Inl EINVAL, hvs, cs[i := Some (old, new)])
                    else (case upd_fifo channel (\<lambda>f. f\<lparr>in_use := True\<rparr>) hvs of
                            None \<Rightarrow> None
                          | Some hvs' \<Rightarrow>
                             pv_muxing_loop crtcs is (unassigned AND NOT (push_bit (unat channel) 1)) hvs'
                               (cs[i := Some (old, new\<lparr>assigned_channel := channel\<rparr>)]))))"

definition vc4_pv_muxing_atomic_check :: "kms_env \<Rightarrow> vc4_kms \<Rightarrow> drm_atomic_state \<Rightarrow> (unit result \<times> drm_atomic_state) option" where
  "vc4_pv_muxing_atomic_check env dev st =
     (if firmware_kms dev then Some (Inr (), st)
      else case vc4_hvs_get_global_state env dev st of
        (Inl e, st1) \<Rightarrow> Some (Inl e, st1)
      | (Inr hvs, st1) \<Rightarrow>
         (if \<not> env_crtc_array env then Some (Inl ENOMEM, st1)
          else let sorted_crtcs = env_sort env (\<lambda>i. hvs_output (crtc_data (kms_crtcs dev ! i))) [0..<length (kms_crtcs dev)]
               in map_option (\<lambda>(r, hvs', cs'). (r, set_new_hvs hvs' (st1\<lparr>as_crtcs := cs'\<rparr>)))
                    (pv_muxing_loop (kms_crtcs dev) sorted_crtcs (free_channels hvs) hvs (as_crtcs st1))))"

subsection \<open>The colour matrix\<close>

text \<open>From S31.32 to the S0.9 of the hardware.\<close>
definition vc4_ctm_s31_32_to_s0_9 :: "u64 \<Rightarrow> u16" where
  "vc4_ctm_s31_32_to_s0_9 v =
     (if bit v 63 then push_bit 9 1 else 0) OR
     (if (v AND push_bit 32 (mask 31)) > 0 then mask 9 else ucast (drop_bit 23 v) AND mask 9)"

text \<open>The first loop: a CRTC whose matrix is removed releases the only matrix there is.\<close>
fun ctm_disable_loop :: "kms_env \<Rightarrow> vc4_kms \<Rightarrow> crtc_pairs \<Rightarrow> bool \<Rightarrow> drm_atomic_state \<Rightarrow> unit result \<times> bool \<times> drm_atomic_state" where
  "ctm_disable_loop env dev [] got st = (Inr (), got, st)"
| "ctm_disable_loop env dev (c # cs) got st =
     (case c of
        None \<Rightarrow> ctm_disable_loop env dev cs got st
      | Some (old, new) \<Rightarrow>
         (if cs_ctm new = None \<and> cs_ctm old \<noteq> None
          then (case vc4_get_ctm_state env dev st of
                  (Inl e, st1) \<Rightarrow> (Inl e, got, st1)
                | (Inr n, st1) \<Rightarrow> ctm_disable_loop env dev cs True (set_new_ctm (n\<lparr>ctm_fifo := 0\<rparr>) st1))
          else ctm_disable_loop env dev cs got st))"

text \<open>\<open>ctm_state\<close>, taken into the atomic state if the pointer is still NULL.\<close>
definition ctm_state_or_get :: "kms_env \<Rightarrow> vc4_kms \<Rightarrow> bool \<Rightarrow> drm_atomic_state \<Rightarrow> vc4_ctm_state result \<times> drm_atomic_state" where
  "ctm_state_or_get env dev got st =
     (if got then (case as_ctm st of Some (_, n) \<Rightarrow> (Inr n, st) | None \<Rightarrow> (Inl Null_call, st)) else vc4_get_ctm_state env dev st)"

text \<open>\<open>ARRAY_SIZE(ctm->matrix)\<close>\<close>
definition CTM_SIZE :: nat where "CTM_SIZE = 9"

definition ctm_scalar_ok :: "u64 \<Rightarrow> bool" where
  "ctm_scalar_ok v \<longleftrightarrow> v AND NOT (push_bit 63 1) \<le> push_bit 32 1"

text \<open>
  The second loop, by the index \<open>i\<close> of the CRTC. The loop over the matrix uses the same \<open>i\<close>, which is the size of the matrix when
  it is through, so that the outer loop goes on after that index, wherever it was.
\<close>
partial_function (option) ctm_loop :: "kms_env \<Rightarrow> vc4_kms \<Rightarrow> nat \<Rightarrow> bool \<Rightarrow> drm_atomic_state \<Rightarrow> (unit result \<times> drm_atomic_state) option" where
  "ctm_loop env dev i got st =
     (if i \<ge> length (as_crtcs st) then Some (Inr (), st)
      else case as_crtcs st ! i of
        None \<Rightarrow> ctm_loop env dev (Suc i) got st
      | Some (old, new) \<Rightarrow>
         (if cs_ctm new = cs_ctm old then ctm_loop env dev (Suc i) got st
          else case ctm_state_or_get env dev got st of
            (Inl e, st1) \<Rightarrow> Some (Inl e, st1)
          | (Inr n, st1) \<Rightarrow>
             (case cs_ctm new of
                None \<Rightarrow> ctm_loop env dev (Suc i) True st1
              | Some blob \<Rightarrow>
                 (let fifo = sint (assigned_channel new + 1)
                  in if ctm_fifo n \<noteq> 0 \<and> ctm_fifo n \<noteq> fifo then Some (Inl EINVAL, st1)
                     else if \<not> list_all ctm_scalar_ok (take CTM_SIZE (env_ctm_matrix env blob)) then Some (Inl EINVAL, st1)
                     else ctm_loop env dev (Suc CTM_SIZE) True (set_new_ctm \<lparr>ctm = Some blob, ctm_fifo = fifo\<rparr> st1)))))"

definition vc4_ctm_atomic_check :: "kms_env \<Rightarrow> vc4_kms \<Rightarrow> drm_atomic_state \<Rightarrow> (unit result \<times> drm_atomic_state) option" where
  "vc4_ctm_atomic_check env dev st =
     (case ctm_disable_loop env dev (as_crtcs st) False st of
        (Inl e, _, st1) \<Rightarrow> Some (Inl e, st1)
      | (Inr _, got, st1) \<Rightarrow> ctm_loop env dev 0 got st1)"

subsection \<open>The load tracker and the core clock\<close>

text \<open>A plane counts when it has a framebuffer and a CRTC that does not feed the transposer.\<close>
definition plane_counts :: "vc4_crtc list \<Rightarrow> vc4_plane_state \<Rightarrow> bool" where
  "plane_counts crtcs p = (ps_fb p \<and> (case ps_crtc p of None \<Rightarrow> False | Some c \<Rightarrow> \<not> feeds_txp (crtcs ! c)))"

definition track_plane :: "vc4_crtc list \<Rightarrow> (vc4_plane_state \<times> vc4_plane_state) option \<Rightarrow> vc4_load_tracker_state \<Rightarrow> vc4_load_tracker_state" where
  "track_plane crtcs pl l =
     (case pl of
        None \<Rightarrow> l
      | Some (old, new) \<Rightarrow>
         (let l1 = (if plane_counts crtcs old
                    then l\<lparr>membus_load := membus_load l - ps_membus_load old, hvs_load := hvs_load l - ps_hvs_load old\<rparr> else l)
          in if plane_counts crtcs new
             then l1\<lparr>membus_load := membus_load l1 + ps_membus_load new, hvs_load := hvs_load l1 + ps_hvs_load new\<rparr> else l1))"

text \<open>\<open>SZ_1G + SZ_512M\<close>\<close>
definition MEMBUS_LIMIT :: u64 where "MEMBUS_LIMIT = 0x60000000"
definition HVS_LIMIT :: u64 where "HVS_LIMIT = 240000000"

definition vc4_load_tracker_atomic_check :: "kms_env \<Rightarrow> vc4_kms \<Rightarrow> drm_atomic_state \<Rightarrow> unit result \<times> drm_atomic_state" where
  "vc4_load_tracker_atomic_check env dev st =
     (case get_load_tracker env dev st of
        (Inl e, st1) \<Rightarrow> (Inl e, st1)
      | (Inr l, st1) \<Rightarrow>
         (let l' = fold (track_plane (kms_crtcs dev)) (as_planes st1) l;
              st2 = set_new_load l' st1
          in if \<not> load_tracker_enabled dev then (Inr (), st2)
             else if membus_load l' > MEMBUS_LIMIT then (Inl ENOSPC, st2)
             else if hvs_load l' > HVS_LIMIT then (Inl ENOSPC, st2)
             else (Inr (), st2)))"

text \<open>One CRTC of the first loop of the clock check.\<close>
definition load_channel :: "(vc4_crtc_state \<times> vc4_crtc_state) option \<Rightarrow> vc4_hvs_state \<Rightarrow> vc4_hvs_state option" where
  "load_channel c hvs =
     (case c of
        None \<Rightarrow> Some hvs
      | Some (old, new) \<Rightarrow>
         (case (if cs_active old then upd_fifo (assigned_channel old) (\<lambda>f. f\<lparr>fifo_load := 0\<rparr>) hvs else Some hvs) of
            None \<Rightarrow> None
          | Some hvs1 \<Rightarrow>
             (if cs_active new then upd_fifo (assigned_channel new) (\<lambda>f. f\<lparr>fifo_load := cs_hvs_load new\<rparr>) hvs1 else Some hvs1)))"

fun load_channels :: "crtc_pairs \<Rightarrow> vc4_hvs_state \<Rightarrow> vc4_hvs_state option" where
  "load_channels [] hvs = Some hvs"
| "load_channels (c # cs) hvs = (case load_channel c hvs of None \<Rightarrow> None | Some hvs' \<Rightarrow> load_channels cs hvs')"

definition channel_rates :: "fifo_state list \<Rightarrow> nat \<times> u64" where
  "channel_rates fs = fold (\<lambda>f (n, r). if in_use f then (Suc n, max (fifo_load f) r) else (n, r)) fs (0, 0)"

definition vc4_core_clock_atomic_check :: "kms_env \<Rightarrow> vc4_kms \<Rightarrow> drm_atomic_state \<Rightarrow> (unit result \<times> drm_atomic_state) option" where
  "vc4_core_clock_atomic_check env dev st =
     (case get_load_tracker env dev st of
        (Inl e, st1) \<Rightarrow> Some (Inl e, st1)
      | (Inr l, st1) \<Rightarrow>
         (case vc4_hvs_get_global_state env dev st1 of
            (Inl e, st2) \<Rightarrow> Some (Inl e, st2)
          | (Inr hvs, st2) \<Rightarrow>
             (case load_channels (as_crtcs st2) hvs of
                None \<Rightarrow> None
              | Some hvs' \<Rightarrow>
                 (let (num_outputs, cob_rate) = channel_rates (hvs_fifos hvs');
                      pixel_rate = (if num_outputs > 1 then (hvs_load l * 40) div 100 else (hvs_load l * 60) div 100)
                  in Some (Inr (), set_new_hvs (hvs'\<lparr>core_clock_rate := max cob_rate pixel_rate\<rparr>) st2)))))"

definition vc4_atomic_check :: "kms_env \<Rightarrow> vc4_kms \<Rightarrow> drm_atomic_state \<Rightarrow> (unit result \<times> drm_atomic_state) option" where
  "vc4_atomic_check env dev st =
     (case vc4_pv_muxing_atomic_check env dev st of
        None \<Rightarrow> None
      | Some (Inl e, st1) \<Rightarrow> Some (Inl e, st1)
      | Some (Inr _, st1) \<Rightarrow>
         (case vc4_ctm_atomic_check env dev st1 of
            None \<Rightarrow> None
          | Some (Inl e, st2) \<Rightarrow> Some (Inl e, st2)
          | Some (Inr _, st2) \<Rightarrow>
             (case env_helper_check env dev st2 of
                (Inl e, st3) \<Rightarrow> Some (Inl e, st3)
              | (Inr _, st3) \<Rightarrow>
                 (case vc4_load_tracker_atomic_check env dev st3 of
                    (Inl e, st4) \<Rightarrow> Some (Inl e, st4)
                  | (Inr _, st4) \<Rightarrow> vc4_core_clock_atomic_check env dev st4))))"

subsection \<open>Committing\<close>

definition HVS_WRITE :: "hvs_reg \<Rightarrow> u32 \<Rightarrow> vc4_kms \<Rightarrow> vc4_kms" where
  "HVS_WRITE r v dev = dev\<lparr>hvs_regs := (hvs_regs dev)(r := v)\<rparr>"

definition kms_logged :: "kms_event list \<Rightarrow> vc4_kms \<Rightarrow> vc4_kms" where
  "kms_logged es dev = dev\<lparr>kms_log := kms_log dev @ es\<rparr>"

definition SCALER_DISPCTRL_PANIC2 :: field where "SCALER_DISPCTRL_PANIC2 = (29, 28)"
definition SCALER_DISPCTRL_DSP3_MUX :: field where "SCALER_DISPCTRL_DSP3_MUX = (19, 18)"
definition SCALER_DISPECTRL_DSP2_MUX :: field where "SCALER_DISPECTRL_DSP2_MUX = (31, 31)"
definition SCALER_DISPDITHER_DSP5_MUX :: field where "SCALER_DISPDITHER_DSP5_MUX = (31, 30)"
definition SCALER_DISPEOLN_DSP4_MUX :: field where "SCALER_DISPEOLN_DSP4_MUX = (31, 30)"
definition SCALER6_CONTROL_DSP1_TARGET :: field where "SCALER6_CONTROL_DSP1_TARGET = (13, 12)"
definition SCALER_OLEDOFFS_DISPFIFO :: field where "SCALER_OLEDOFFS_DISPFIFO = (25, 24)"

text \<open>A coefficient register: three fields of ten bits, from the entries \<open>a\<close>, \<open>b\<close> and \<open>c\<close> of the matrix.\<close>
definition oled_coef :: "u64 list \<Rightarrow> nat \<Rightarrow> nat \<Rightarrow> nat \<Rightarrow> u32" where
  "oled_coef m a b c =
     VC4_SET_FIELD (ucast (vc4_ctm_s31_32_to_s0_9 (m ! a))) (29, 20) OR
     VC4_SET_FIELD (ucast (vc4_ctm_s31_32_to_s0_9 (m ! b))) (19, 10) OR
     VC4_SET_FIELD (ucast (vc4_ctm_s31_32_to_s0_9 (m ! c))) (9, 0)"

text \<open>None when the matrix is enabled and its pointer is NULL.\<close>
definition vc4_ctm_commit :: "kms_env \<Rightarrow> vc4_kms \<Rightarrow> vc4_kms option" where
  "vc4_ctm_commit env dev =
     (if firmware_kms dev then Some dev
      else let fifo = ctm_fifo (ctm_manager dev);
               offs = HVS_WRITE SCALER_OLEDOFFS (VC4_SET_FIELD (word_of_int fifo) SCALER_OLEDOFFS_DISPFIFO)
           in if fifo = 0 then Some (offs dev)
              else map_option (\<lambda>blob. let m = env_ctm_matrix env blob
                     in offs (HVS_WRITE SCALER_OLEDCOEF0 (oled_coef m 2 5 8)
                          (HVS_WRITE SCALER_OLEDCOEF1 (oled_coef m 1 4 7)
                             (HVS_WRITE SCALER_OLEDCOEF2 (oled_coef m 0 3 6) dev))))
                   (ctm (ctm_manager dev)))"

text \<open>One CRTC of the loops that program the muxes, on each generation.\<close>
definition vc4_mux_crtc :: "vc4_crtc \<Rightarrow> vc4_crtc_state \<Rightarrow> vc4_kms \<Rightarrow> vc4_kms" where
  "vc4_mux_crtc crtc new dev =
     (if \<not> cs_active new \<or> hvs_output (crtc_data crtc) \<noteq> 2 then dev
      else let dispctrl = hvs_regs dev SCALER_DISPCTRL AND NOT (VC4_MASK SCALER_DISPCTRL_PANIC2)
           in HVS_WRITE SCALER_DISPCTRL
                (if feeds_txp crtc then dispctrl OR VC4_SET_FIELD 0 SCALER_DISPCTRL_PANIC2
                 else put_field (assigned_channel new) SCALER_DISPCTRL_DSP3_MUX dispctrl OR VC4_SET_FIELD 2 SCALER_DISPCTRL_PANIC2)
                dev)"

definition vc5_mux_crtc :: "vc4_crtc \<Rightarrow> vc4_crtc_state \<Rightarrow> vc4_kms \<Rightarrow> vc4_kms" where
  "vc5_mux_crtc crtc new dev =
     (if \<not> update_muxing new then dev
      else let channel = assigned_channel new;
               mux = (if channel = VC4_HVS_CHANNEL_DISABLED then 3 else channel AND mask 8);
               out = hvs_output (crtc_data crtc);
               put = (\<lambda>reg v f. HVS_WRITE reg (put_field v f (hvs_regs dev reg)) dev)
           in if out = 2 then put SCALER_DISPECTRL (if channel = 2 then 0 else 1) SCALER_DISPECTRL_DSP2_MUX
              else if out = 3 then put SCALER_DISPCTRL mux SCALER_DISPCTRL_DSP3_MUX
              else if out = 4 then put SCALER_DISPEOLN mux SCALER_DISPEOLN_DSP4_MUX
              else if out = 5 then put SCALER_DISPDITHER mux SCALER_DISPDITHER_DSP5_MUX
              else dev)"

text \<open>None when the CRTC has no encoder, whose type is read through NULL.\<close>
definition vc6_mux_crtc :: "vc4_crtc \<Rightarrow> vc4_crtc_state \<Rightarrow> vc4_kms \<Rightarrow> vc4_kms option" where
  "vc6_mux_crtc crtc new dev =
     (if \<not> update_muxing new \<or> assigned_channel new \<noteq> 1 then Some dev
      else map_option (\<lambda>t. let mux = (case t of VC4_ENCODER_TYPE_HDMI1 \<Rightarrow> 0 | VC4_ENCODER_TYPE_TXP1 \<Rightarrow> 2 | _ \<Rightarrow> 0)
             in HVS_WRITE SCALER6_CONTROL (put_field mux SCALER6_CONTROL_DSP1_TARGET (hvs_regs dev SCALER6_CONTROL)) dev)
           (cs_encoder new))"

text \<open>\<open>for_each_new_crtc_in_state\<close>\<close>
fun new_crtcs :: "(vc4_crtc \<Rightarrow> vc4_crtc_state \<Rightarrow> 's \<Rightarrow> 's option) \<Rightarrow> vc4_crtc list \<Rightarrow> crtc_pairs \<Rightarrow> 's \<Rightarrow> 's option" where
  "new_crtcs f (c # crtcs) (Some (old, new) # cs) s = (case f c new s of None \<Rightarrow> None | Some s' \<Rightarrow> new_crtcs f crtcs cs s')"
| "new_crtcs f (c # crtcs) (None # cs) s = new_crtcs f crtcs cs s"
| "new_crtcs f _ _ s = Some s"

definition vc4_hvs_pv_muxing_commit :: "drm_atomic_state \<Rightarrow> vc4_kms \<Rightarrow> vc4_kms option" where
  "vc4_hvs_pv_muxing_commit st dev = new_crtcs (\<lambda>c n d. Some (vc4_mux_crtc c n d)) (kms_crtcs dev) (as_crtcs st) dev"

definition vc5_hvs_pv_muxing_commit :: "drm_atomic_state \<Rightarrow> vc4_kms \<Rightarrow> vc4_kms option" where
  "vc5_hvs_pv_muxing_commit st dev = new_crtcs (\<lambda>c n d. Some (vc5_mux_crtc c n d)) (kms_crtcs dev) (as_crtcs st) dev"

definition vc6_hvs_pv_muxing_commit :: "drm_atomic_state \<Rightarrow> vc4_kms \<Rightarrow> vc4_kms option" where
  "vc6_hvs_pv_muxing_commit st dev = new_crtcs vc6_mux_crtc (kms_crtcs dev) (as_crtcs st) dev"

definition get_commit :: "ptr \<Rightarrow> vc4_kms \<Rightarrow> vc4_kms" where
  "get_commit p dev = dev\<lparr>commit_refs := (commit_refs dev)(p := commit_refs dev p + 1)\<rparr>"

text \<open>One CRTC of the setup: its commit becomes the pending commit of its channel, which holds a reference.\<close>
definition setup_crtc :: "vc4_crtc_state \<Rightarrow> vc4_hvs_state \<times> vc4_kms \<Rightarrow> (vc4_hvs_state \<times> vc4_kms) option" where
  "setup_crtc new = (\<lambda>(hvs, dev).
     let channel = assigned_channel new
     in if channel = VC4_HVS_CHANNEL_DISABLED then Some (hvs, dev)
        else if unat channel \<ge> length (hvs_fifos hvs) then None
        else if \<not> in_use (hvs_fifos hvs ! unat channel) then Some (hvs, dev)
        else case cs_commit new of
          None \<Rightarrow> None
        | Some p \<Rightarrow> map_option (\<lambda>hvs'. (hvs', get_commit p dev)) (upd_fifo channel (\<lambda>f. f\<lparr>pending_commit := Some p\<rparr>) hvs))"

definition vc4_atomic_commit_setup :: "drm_atomic_state \<Rightarrow> vc4_kms \<Rightarrow> (unit result \<times> drm_atomic_state \<times> vc4_kms) option" where
  "vc4_atomic_commit_setup st dev =
     (let st1 = (if firmware_kms dev then st else st\<lparr>legacy_cursor_update := False\<rparr>)
      in case vc4_hvs_get_new_global_state st1 of
           Inl e \<Rightarrow> Some (Inl e, st1, dev)
         | Inr hvs \<Rightarrow>
            map_option (\<lambda>(hvs', dev'). (Inr (), set_new_hvs hvs' st1, dev'))
              (new_crtcs (\<lambda>_ n. setup_crtc n) (kms_crtcs dev) (as_crtcs st1) (hvs, dev)))"

text \<open>Waiting for the commit before this one on each channel in use; its reference is given back.\<close>
definition wait_channel :: "fifo_state \<Rightarrow> vc4_kms \<Rightarrow> fifo_state \<times> vc4_kms" where
  "wait_channel f dev =
     (if \<not> in_use f then (f, dev)
      else case pending_commit f of
        None \<Rightarrow> (f, dev)
      | Some p \<Rightarrow> (f\<lparr>pending_commit := None\<rparr>, put_commits [Some p] (kms_logged [Commit_wait p] dev)))"

fun wait_channels :: "fifo_state list \<Rightarrow> vc4_kms \<Rightarrow> fifo_state list \<times> vc4_kms" where
  "wait_channels [] dev = ([], dev)"
| "wait_channels (f # fs) dev =
     (let (f', dev1) = wait_channel f dev; (fs', dev2) = wait_channels fs dev1 in (f' # fs', dev2))"

text \<open>\<open>clamp_t\<close> of the LinuxKPI is \<open>min\<close> of \<open>max\<close>.\<close>
definition raised_rate :: "vc4_hvs_state \<Rightarrow> vc4_hvs_state \<Rightarrow> u64 \<Rightarrow> u64" where
  "raised_rate old new max_rate = min (max (max (core_clock_rate old) (core_clock_rate new)) 500000000) max_rate"

definition muxing_commit :: "drm_atomic_state \<Rightarrow> vc4_kms \<Rightarrow> vc4_kms option" where
  "muxing_commit st dev =
     (if firmware_kms dev then Some dev
      else case kms_gen dev of
        VC4_GEN_4 \<Rightarrow> vc4_hvs_pv_muxing_commit st dev
      | VC4_GEN_5 \<Rightarrow> vc5_hvs_pv_muxing_commit st dev
      | _ \<Rightarrow> vc6_hvs_pv_muxing_commit st dev)"

definition vc4_atomic_commit_tail :: "kms_env \<Rightarrow> drm_atomic_state \<Rightarrow> vc4_kms \<Rightarrow> (drm_atomic_state \<times> vc4_kms) option" where
  "vc4_atomic_commit_tail env st dev =
     (case as_hvs st of
        None \<Rightarrow> Some (st, dev)
      | Some (old, new) \<Rightarrow>
         (let (fs, dev1) = wait_channels (hvs_fifos old) dev;
              st1 = st\<lparr>as_hvs := Some (old\<lparr>hvs_fifos := fs\<rparr>, new)\<rparr>;
              clocked = (kms_gen dev = VC4_GEN_5 \<and> \<not> firmware_kms dev);
              raised = raised_rate old new (max_core_rate dev);
              settled = min (max_core_rate dev) (core_clock_rate new);
              dev2 = kms_logged ((if clocked then [Set_min_rate raised, Set_min_rate raised] else []) @ [Modeset_disables]) dev1
          in case (if kms_gen dev \<in> {VC4_GEN_4, VC4_GEN_5} then vc4_ctm_commit env dev2 else Some dev2) of
               None \<Rightarrow> None
             | Some dev3 \<Rightarrow>
                map_option (\<lambda>dev4. (st1, kms_logged ([Commit_planes, Modeset_enables, Fake_vblank, Hw_done, Wait_flip_done, Cleanup_planes] @
                                          (if clocked then [Set_min_rate settled, Set_min_rate settled] else [])) dev4))
                  (muxing_commit st1 dev3)))"

subsection \<open>Framebuffers and loading\<close>

record drm_mode_fb_cmd2 =
  fb_modifiers :: bool
  fb_handle0 :: u32
  fb_modifier0 :: u64

definition DRM_FORMAT_MOD_BROADCOM_VC4_T_TILED :: u64 where "DRM_FORMAT_MOD_BROADCOM_VC4_T_TILED = 0x0700000000000001"

text \<open>\<open>t_format_of\<close> looks a handle up; the result is the request that \<open>drm_gem_fb_create\<close> gets.\<close>
definition vc4_fb_create :: "vc4_gen \<Rightarrow> (u32 \<Rightarrow> bool option) \<Rightarrow> drm_mode_fb_cmd2 \<Rightarrow> drm_mode_fb_cmd2 result" where
  "vc4_fb_create gen t_format_of cmd =
     (if gen \<noteq> VC4_GEN_4 then Inl ENODEV
      else if fb_modifiers cmd then Inr cmd
      else case t_format_of (fb_handle0 cmd) of
        None \<Rightarrow> Inl ENOENT
      | Some t \<Rightarrow> Inr (cmd\<lparr>fb_modifier0 := (if t then DRM_FORMAT_MOD_BROADCOM_VC4_T_TILED else 0)\<rparr>))"

record drm_mode_config =
  max_width :: nat
  max_height :: nat
  uses_vc4_fb_create :: bool
  mc_ready :: bool

definition fifo_zero :: fifo_state where "fifo_zero = \<lparr>in_use = False, fifo_load = 0, pending_commit = None\<rparr>"

definition vc4_ctm_obj_init :: "errno option \<Rightarrow> vc4_kms \<Rightarrow> unit result \<times> vc4_kms" where
  "vc4_ctm_obj_init err dev = (case err of Some e \<Rightarrow> (Inl e, dev) | None \<Rightarrow> (Inr (), dev\<lparr>ctm_manager := \<lparr>ctm = None, ctm_fifo = 0\<rparr>\<rparr>))"

definition vc4_load_tracker_obj_init :: "errno option \<Rightarrow> vc4_kms \<Rightarrow> unit result \<times> vc4_kms" where
  "vc4_load_tracker_obj_init err dev =
     (case err of Some e \<Rightarrow> (Inl e, dev) | None \<Rightarrow> (Inr (), dev\<lparr>load_tracker := \<lparr>hvs_load = 0, membus_load = 0\<rparr>\<rparr>))"

definition vc4_hvs_channels_obj_init :: "errno option \<Rightarrow> vc4_kms \<Rightarrow> unit result \<times> vc4_kms" where
  "vc4_hvs_channels_obj_init err dev =
     (case err of Some e \<Rightarrow> (Inl e, dev)
      | None \<Rightarrow> (Inr (), dev\<lparr>hvs_channels := \<lparr>core_clock_rate = 0, hvs_fifos = replicate HVS_NUM_CHANNELS fifo_zero\<rparr>\<rparr>))"

definition vc4_kms_limits :: "vc4_gen \<Rightarrow> nat" where
  "vc4_kms_limits gen = (case gen of VC4_GEN_4 \<Rightarrow> 2048 | VC4_GEN_5 \<Rightarrow> 7680 | _ \<Rightarrow> 8192)"

text \<open>
  The errors are those of \<open>drm_vblank_init\<close> and of the three objects (an allocation, or the registration of the release action).
  \<open>drm_mode_config_reset\<close> resets every CRTC; \<open>mc_ready\<close> is set when the polling starts.
\<close>
definition vc4_kms_load ::
    "errno option \<Rightarrow> errno option \<Rightarrow> errno option \<Rightarrow> errno option \<Rightarrow> vc4_kms \<Rightarrow> drm_mode_config \<Rightarrow> unit result \<times> vc4_kms \<times> drm_mode_config" where
  "vc4_kms_load vblank_err ctm_err load_err hvs_err dev mc =
     (let dev = (if kms_gen dev = VC4_GEN_4 then dev\<lparr>load_tracker_enabled := True\<rparr> else dev)
      in case vblank_err of
           Some e \<Rightarrow> (Inl e, dev, mc)
         | None \<Rightarrow>
            (let mc = mc\<lparr>max_width := vc4_kms_limits (kms_gen dev), max_height := vc4_kms_limits (kms_gen dev),
                         uses_vc4_fb_create := (kms_gen dev = VC4_GEN_4)\<rparr>;
                 (r, dev) = run_steps [vc4_ctm_obj_init ctm_err, vc4_load_tracker_obj_init load_err, vc4_hvs_channels_obj_init hvs_err] dev
             in case r of
                  Inl e \<Rightarrow> (Inl e, dev, mc)
                | Inr _ \<Rightarrow> (Inr (), dev\<lparr>crtc_states := map (\<lambda>_. vc4_crtc_reset) (kms_crtcs dev)\<rparr>, mc\<lparr>mc_ready := True\<rparr>)))"

end
