(* ===== verification/Vc4_Hvs.thy ===== *)
theory Vc4_Hvs
  imports Vc4_Kms
begin

text \<open>
  The Hardware Video Scaler (\<^verbatim>\<open>drivers/gpu/drm/vc4/vc4_hvs.c\<close>, with the page flip and the end of a CRTC's state from \<^verbatim>\<open>vc4_crtc.c\<close>): display
  lists are allocated in the HVS's own memory by the atomic check, written and installed by the commit, and given back once the
  hardware has gone on to the next frame. A register holds what was written to it, but for the status flags, which a write clears. The
  range allocator of the DRM core is an argument. An operation returns None when it touches memory outside an array, through NULL or
  after it was freed.
\<close>

subsection \<open>State\<close>

text \<open>\<open>struct vc4_hvs_dlist_allocation\<close>; \<open>mm_node\<close> is the start and the size of an inserted node.\<close>
record dlist_allocation =
  mm_node :: "(nat \<times> nat) option"
  da_channel :: u32
  target_frame_count :: u8
  dlist_programmed :: bool

text \<open>
  \<open>h_gone\<close> says that \<open>drm_dev_enter\<close> fails. \<open>dlist_range\<close> and \<open>dlist_nodes\<close> are the \<open>drm_mm\<close> of the display lists, \<open>dlist_allocs\<close> the
  allocations that were not freed, \<open>irq_on\<close> the state of the interrupt lines and \<open>clk_on\<close> the enable counts of the core and the display clock. \<open>h_dlist\<close> are the words from
  \<open>hvs->dlist\<close> on, which is at \<open>dlist_base\<close> behind the registers.
  \<open>h_log\<close> records the register writes.
\<close>
record vc4_hvs =
  h_gen :: vc4_gen
  h_gone :: bool
  h_regs :: "hvs_reg \<Rightarrow> u32"
  h_log :: "(hvs_reg \<times> u32) list"
  h_dlist :: "nat \<Rightarrow> u32"
  dlist_base :: nat
  dlist_mem_size :: nat
  eof_desc :: "int list"
  eof_enabled :: "bool list"
  bg_fill :: "bool list"
  dlist_range :: "nat \<times> nat"
  dlist_nodes :: "(nat \<times> nat) list"
  dlist_allocs :: "ptr \<Rightarrow> dlist_allocation option"
  stale_dlist_entries :: "ptr list"
  free_dlist_work :: bool
  mitchell_netravali_filter :: "(nat \<times> nat) option"
  nearest_neighbour_filter :: "(nat \<times> nat) option"
  irq_on :: "int \<Rightarrow> bool"
  underrun :: int
  clk_on :: "int \<times> int"
  clk_min_rate :: "u64 \<times> u64"
  h_max_core_rate :: u64
  vc5_hdmi_enable_hdmi_20 :: bool
  vc5_hdmi_enable_4096by2160 :: bool

text \<open>What the HVS code reads and writes of a CRTC; \<open>sent_events\<close> records \<open>drm_crtc_send_vblank_event\<close>.\<close>
record hvs_crtc =
  hc_feeds_txp :: bool
  hc_event :: "ptr option"
  current_dlist :: u32
  current_hvs_channel :: u32
  lut_r :: "u8 list"
  lut_g :: "u8 list"
  lut_b :: "u8 list"
  gamma_size :: nat
  vblank_refs :: int
  sent_events :: "ptr list"

text \<open>What it reads and writes of a CRTC's state.\<close>
record hvs_crtc_state =
  s_active :: bool
  s_event :: "ptr option"
  s_channel :: u32
  s_mm :: "ptr option"
  s_txp_armed :: bool
  s_color_mgmt_changed :: bool
  s_gamma_lut :: "(u16 \<times> u16 \<times> u16) list option"
  s_hdisplay :: u32
  s_vdisplay :: u32
  s_interlace :: bool
  s_connector_mask :: u32

text \<open>A plane of a CRTC, with the \<open>dlist_count\<close> words of its display list.\<close>
record hvs_plane =
  hp_dlist :: "u32 list"
  hp_zpos :: nat
  hp_needs_bg_fill :: bool

text \<open>\<open>drm_mm_insert_node\<close> on a range and its nodes, giving the start of a node of the given size; \<open>drm_color_lut_extract\<close> to eight bits.\<close>
record hvs_env =
  mm_insert :: "nat \<times> nat \<Rightarrow> (nat \<times> nat) list \<Rightarrow> nat \<Rightarrow> nat result"
  color_lut_extract :: "u16 \<Rightarrow> u8"

subsection \<open>Registers\<close>

definition BIT :: "nat \<Rightarrow> u32" where
  "BIT n = push_bit n 1"

definition gen6 :: "vc4_gen \<Rightarrow> bool" where
  "gen6 g \<longleftrightarrow> g \<in> {VC4_GEN_6_C, VC4_GEN_6_D}"

definition hvs_write :: "hvs_reg \<Rightarrow> u32 \<Rightarrow> vc4_hvs \<Rightarrow> vc4_hvs" where
  "hvs_write r v h =
     h\<lparr>h_regs := (h_regs h)(r := if r = SCALER_DISPSTAT then h_regs h r AND NOT v else v), h_log := h_log h @ [(r, v)]\<rparr>"

definition hvs_writes :: "(hvs_reg \<times> u32) list \<Rightarrow> vc4_hvs \<Rightarrow> vc4_hvs" where
  "hvs_writes ws h = fold (\<lambda>(r, v). hvs_write r v) ws h"

definition SCALER_DISPCTRL_DSPEISLUR :: "nat \<Rightarrow> u32" where "SCALER_DISPCTRL_DSPEISLUR x = BIT (13 + x)"
definition SCALER5_DISPCTRL_DSPEISLUR :: "nat \<Rightarrow> u32" where "SCALER5_DISPCTRL_DSPEISLUR x = BIT (9 + x * 4)"
definition SCALER_DISPCTRL_DSPEIEOLN :: "nat \<Rightarrow> u32" where "SCALER_DISPCTRL_DSPEIEOLN x = BIT (8 + x * 2)"
definition SCALER5_DISPCTRL_DSPEIEOLN :: "nat \<Rightarrow> u32" where "SCALER5_DISPCTRL_DSPEIEOLN x = BIT (8 + x * 4)"
definition SCALER_DISPCTRL_DSPEIEOF :: "nat \<Rightarrow> u32" where "SCALER_DISPCTRL_DSPEIEOF x = BIT (7 + x * 2)"
definition SCALER5_DISPCTRL_DSPEIEOF :: "nat \<Rightarrow> u32" where "SCALER5_DISPCTRL_DSPEIEOF x = BIT (7 + x * 4)"
definition SCALER_DISPCTRL_DISPEIRQ :: "nat \<Rightarrow> u32" where "SCALER_DISPCTRL_DISPEIRQ x = BIT (1 + x)"
definition SCALER_DISPSTAT_EUFLOW :: "nat \<Rightarrow> u32" where "SCALER_DISPSTAT_EUFLOW x = BIT (9 + x * 8)"
definition SCALER_DISPSTAT_EOF :: "nat \<Rightarrow> u32" where "SCALER_DISPSTAT_EOF x = BIT (8 + x * 8)"
definition SCALER_DISPSTAT_IRQMASK :: "nat \<Rightarrow> u32" where "SCALER_DISPSTAT_IRQMASK x = VC4_MASK (13 + x * 8, 8 + x * 8)"

definition SCALER_CHANNELS_COUNT :: nat where "SCALER_CHANNELS_COUNT = 3"
definition SCALER_DISPCTRLX_ENABLE :: u32 where "SCALER_DISPCTRLX_ENABLE = BIT 31"
definition SCALER_DISPCTRLX_RESET :: u32 where "SCALER_DISPCTRLX_RESET = BIT 30"
definition SCALER6_DISPX_CTRL0_ENB :: u32 where "SCALER6_DISPX_CTRL0_ENB = BIT 31"
definition SCALER6_DISPX_CTRL0_RESET :: u32 where "SCALER6_DISPX_CTRL0_RESET = BIT 30"
definition SCALER_DISPBKGND_GAMMA :: u32 where "SCALER_DISPBKGND_GAMMA = BIT 29"
definition SCALER_DISPBKGND_FILL :: u32 where "SCALER_DISPBKGND_FILL = BIT 24"
definition SCALER_CTL0_END :: u32 where "SCALER_CTL0_END = BIT 31"
definition HVS_BOOTLOADER_DLIST_END :: nat where "HVS_BOOTLOADER_DLIST_END = 32"
definition SCALER_DLIST_SIZE :: nat where "SCALER_DLIST_SIZE = 0x4000"

subsection \<open>The filter kernels\<close>

definition VC4_PPF_FILTER_WORD :: "int \<Rightarrow> int \<Rightarrow> int \<Rightarrow> u32" where
  "VC4_PPF_FILTER_WORD c0 c1 c2 =
     (word_of_int c0 AND 0x1ff) OR push_bit 9 (word_of_int c1 AND 0x1ff) OR push_bit 18 (word_of_int c2 AND 0x1ff)"

text \<open>\<open>VC4_LINEAR_PHASE_KERNEL\<close> of sixteen coefficients.\<close>
definition linear_phase_kernel :: "int list \<Rightarrow> u32 list" where
  "linear_phase_kernel c =
     [VC4_PPF_FILTER_WORD (c ! 0) (c ! 1) (c ! 2), VC4_PPF_FILTER_WORD (c ! 3) (c ! 4) (c ! 5), VC4_PPF_FILTER_WORD (c ! 6) (c ! 7) (c ! 8),
      VC4_PPF_FILTER_WORD (c ! 9) (c ! 10) (c ! 11), VC4_PPF_FILTER_WORD (c ! 12) (c ! 13) (c ! 14), VC4_PPF_FILTER_WORD (c ! 15) (c ! 15) 0]"

definition VC4_LINEAR_PHASE_KERNEL_DWORDS :: nat where "VC4_LINEAR_PHASE_KERNEL_DWORDS = 6"
definition VC4_KERNEL_DWORDS :: nat where "VC4_KERNEL_DWORDS = VC4_LINEAR_PHASE_KERNEL_DWORDS * 2 - 1"

definition mitchell_netravali_1_3_1_3_kernel :: "u32 list" where
  "mitchell_netravali_1_3_1_3_kernel = linear_phase_kernel [0, -2, -6, -8, -10, -8, -3, 2, 18, 50, 82, 119, 155, 187, 213, 227]"

definition nearest_neighbour_kernel :: "u32 list" where
  "nearest_neighbour_kernel = linear_phase_kernel [0, 0, 0, 0, 0, 0, 0, 0, 1, 1, 1, 1, 255, 255, 255, 255]"

definition write_words :: "nat \<Rightarrow> u32 list \<Rightarrow> (nat \<Rightarrow> u32) \<Rightarrow> nat \<Rightarrow> u32" where
  "write_words a ws m = (\<lambda>i. if a \<le> i \<and> i < a + length ws then ws ! (i - a) else m i)"

definition kernel_words :: "u32 list \<Rightarrow> u32 list" where
  "kernel_words krn =
     map (\<lambda>i. if i < VC4_LINEAR_PHASE_KERNEL_DWORDS then krn ! i else krn ! (VC4_KERNEL_DWORDS - i - 1)) [0..<VC4_KERNEL_DWORDS]"

text \<open>The node is returned with the state.\<close>
definition vc4_hvs_upload_linear_kernel :: "hvs_env \<Rightarrow> u32 list \<Rightarrow> vc4_hvs \<Rightarrow> (nat \<times> nat) result \<times> vc4_hvs" where
  "vc4_hvs_upload_linear_kernel env krn h =
     (case mm_insert env (dlist_range h) (dlist_nodes h) VC4_KERNEL_DWORDS of
        Inl e \<Rightarrow> (Inl e, h)
      | Inr start \<Rightarrow>
         (Inr (start, VC4_KERNEL_DWORDS),
          h\<lparr>dlist_nodes := dlist_nodes h @ [(start, VC4_KERNEL_DWORDS)], h_dlist := write_words start (kernel_words krn) (h_dlist h)\<rparr>))"

subsection \<open>The gamma table\<close>

definition vc4_hvs_lut_load :: "hvs_crtc \<Rightarrow> hvs_crtc_state \<Rightarrow> vc4_hvs \<Rightarrow> vc4_hvs option" where
  "vc4_hvs_lut_load crtc s h =
     (if h_gone h \<or> h_gen h \<noteq> VC4_GEN_4 then Some h
      else if gamma_size crtc > length (lut_r crtc) \<or> gamma_size crtc > length (lut_g crtc) \<or> gamma_size crtc > length (lut_b crtc) then None
      else Some (hvs_writes
             ((SCALER_GAMADDR, BIT 31 OR (s_channel s * 3 * of_nat (gamma_size crtc))) #
              map (\<lambda>v. (SCALER_GAMDATA, ucast v))
                (take (gamma_size crtc) (lut_r crtc) @ take (gamma_size crtc) (lut_g crtc) @ take (gamma_size crtc) (lut_b crtc))) h))"

text \<open>The loop over the entries that user space gave, in their number; the arrays have 256 elements.\<close>
fun gamma_loop :: "(u16 \<Rightarrow> u8) \<Rightarrow> nat \<Rightarrow> (u16 \<times> u16 \<times> u16) list \<Rightarrow> hvs_crtc \<Rightarrow> hvs_crtc option" where
  "gamma_loop ext i [] crtc = Some crtc"
| "gamma_loop ext i ((r, g, b) # lut) crtc =
     (if i \<ge> length (lut_r crtc) \<or> i \<ge> length (lut_g crtc) \<or> i \<ge> length (lut_b crtc) then None
      else gamma_loop ext (Suc i) lut
             (crtc\<lparr>lut_r := (lut_r crtc)[i := ext r], lut_g := (lut_g crtc)[i := ext g], lut_b := (lut_b crtc)[i := ext b]\<rparr>))"

definition vc4_hvs_update_gamma_lut ::
    "hvs_env \<Rightarrow> hvs_crtc \<Rightarrow> hvs_crtc_state \<Rightarrow> vc4_hvs \<Rightarrow> (hvs_crtc \<times> vc4_hvs) option" where
  "vc4_hvs_update_gamma_lut env crtc s h =
     (case s_gamma_lut s of
        None \<Rightarrow> None
      | Some lut \<Rightarrow>
         (case gamma_loop (color_lut_extract env) 0 lut crtc of
            None \<Rightarrow> None
          | Some crtc' \<Rightarrow> map_option (Pair crtc') (vc4_hvs_lut_load crtc' s h)))"

subsection \<open>End-of-frame interrupts\<close>

definition eof_bit :: "vc4_gen \<Rightarrow> nat \<Rightarrow> u32" where
  "eof_bit g c = (if g = VC4_GEN_4 then SCALER_DISPCTRL_DSPEIEOF c else SCALER5_DISPCTRL_DSPEIEOF c)"

definition vc4_hvs_irq_enable_eof :: "u32 \<Rightarrow> vc4_hvs \<Rightarrow> vc4_hvs option" where
  "vc4_hvs_irq_enable_eof channel h =
     (let c = unat channel
      in if c \<ge> length (eof_enabled h) then None
         else if eof_enabled h ! c then Some h
         else let h1 = (if gen6 (h_gen h) then h\<lparr>irq_on := (irq_on h)(eof_desc h ! c := True)\<rparr>
                        else hvs_write SCALER_DISPCTRL (h_regs h SCALER_DISPCTRL OR eof_bit (h_gen h) c) h)
              in Some (h1\<lparr>eof_enabled := (eof_enabled h1)[c := True]\<rparr>))"

definition vc4_hvs_irq_clear_eof :: "u32 \<Rightarrow> vc4_hvs \<Rightarrow> vc4_hvs option" where
  "vc4_hvs_irq_clear_eof channel h =
     (let c = unat channel
      in if c \<ge> length (eof_enabled h) then None
         else if \<not> eof_enabled h ! c then Some h
         else let h1 = (if gen6 (h_gen h) then h\<lparr>irq_on := (irq_on h)(eof_desc h ! c := False)\<rparr>
                        else hvs_write SCALER_DISPCTRL (h_regs h SCALER_DISPCTRL AND NOT (eof_bit (h_gen h) c)) h)
              in Some (h1\<lparr>eof_enabled := (eof_enabled h1)[c := False]\<rparr>))"

subsection \<open>Frame counts and channels\<close>

definition vc4_hvs_get_fifo_frame_count :: "vc4_hvs \<Rightarrow> u32 \<Rightarrow> u8" where
  "vc4_hvs_get_fifo_frame_count h fifo =
     (if h_gone h then 0
      else ucast (case h_gen h of
          VC4_GEN_5 \<Rightarrow>
            (if fifo = 0 then VC4_GET_FIELD (h_regs h (SCALER_DISPSTATX 1)) (25, 20)
             else if fifo = 1 then VC4_GET_FIELD (h_regs h (SCALER_DISPSTATX 1)) (19, 14)
             else if fifo = 2 then VC4_GET_FIELD (h_regs h (SCALER_DISPSTATX 2)) (19, 14) else 0)
        | VC4_GEN_4 \<Rightarrow>
            (if fifo = 0 then VC4_GET_FIELD (h_regs h (SCALER_DISPSTATX 1)) (23, 18)
             else if fifo = 1 then VC4_GET_FIELD (h_regs h (SCALER_DISPSTATX 1)) (17, 12)
             else if fifo = 2 then VC4_GET_FIELD (h_regs h (SCALER_DISPSTATX 2)) (17, 12) else 0)
        | _ \<Rightarrow> VC4_GET_FIELD (h_regs h (SCALER6_DISPX_STATUS (unat fifo))) (21, 16)))"

text \<open>The shifts are of \<open>int\<close>, and the difference is cut to a signed byte.\<close>
definition vc4_hvs_frcnt_lte :: "u8 \<Rightarrow> u8 \<Rightarrow> bool" where
  "vc4_hvs_frcnt_lte cnt1 cnt2 = (sint (word_of_int (uint cnt1 * 4 - uint cnt2 * 4) :: u8) \<le> 0)"

definition vc4_hvs_check_channel_active :: "vc4_hvs \<Rightarrow> u32 \<Rightarrow> bool" where
  "vc4_hvs_check_channel_active h fifo =
     (\<not> h_gone h \<and>
      (if gen6 (h_gen h) then h_regs h (SCALER6_DISPX_CTRL0 (unat fifo)) AND SCALER6_DISPX_CTRL0_ENB \<noteq> 0
       else h_regs h (SCALER_DISPCTRLX (unat fifo)) AND SCALER_DISPCTRLX_ENABLE \<noteq> 0))"

definition vc4_hvs_get_fifo_from_output :: "vc4_gen \<Rightarrow> (hvs_reg \<Rightarrow> u32) \<Rightarrow> int \<Rightarrow> u32 result" where
  "vc4_hvs_get_fifo_from_output gen regs output =
     (let muxed = (\<lambda>reg f. let ret = VC4_GET_FIELD (regs reg) f in if ret = 3 then Inl EPIPE else Inr ret)
      in case gen of
           VC4_GEN_4 \<Rightarrow> Inr (word_of_int output)
         | VC4_GEN_5 \<Rightarrow>
            (if output = 0 then Inr 0
             else if output = 1 then Inr 1
             else if output = 2 then (if VC4_GET_FIELD (regs SCALER_DISPECTRL) SCALER_DISPECTRL_DSP2_MUX = 0 then Inr 2 else Inr 0)
             else if output = 3 then muxed SCALER_DISPCTRL SCALER_DISPCTRL_DSP3_MUX
             else if output = 4 then muxed SCALER_DISPEOLN SCALER_DISPEOLN_DSP4_MUX
             else if output = 5 then muxed SCALER_DISPDITHER SCALER_DISPDITHER_DSP5_MUX
             else Inl EPIPE)
         | _ \<Rightarrow>
            (if output = 0 then Inr 0 else if output = 2 then Inr 2
             else if output = 1 \<or> output = 3 \<or> output = 4 then Inr 1 else Inl EPIPE))"

subsection \<open>Allocating and freeing display lists\<close>

definition vc4_hvs_free_dlist_entry_locked :: "ptr \<Rightarrow> vc4_hvs \<Rightarrow> vc4_hvs option" where
  "vc4_hvs_free_dlist_entry_locked p h =
     (case dlist_allocs h p of
        None \<Rightarrow> None
      | Some a \<Rightarrow>
         Some (h\<lparr>stale_dlist_entries := filter (\<lambda>q. q \<noteq> p) (stale_dlist_entries h),
                 dlist_nodes := (case mm_node a of None \<Rightarrow> dlist_nodes h | Some n \<Rightarrow> removeAll n (dlist_nodes h)),
                 dlist_allocs := (dlist_allocs h)(p := None)\<rparr>))"

fun free_entries :: "ptr list \<Rightarrow> vc4_hvs \<Rightarrow> vc4_hvs option" where
  "free_entries [] h = Some h"
| "free_entries (p # ps) h = (case vc4_hvs_free_dlist_entry_locked p h of None \<Rightarrow> None | Some h' \<Rightarrow> free_entries ps h')"

definition new_allocation :: dlist_allocation where
  "new_allocation = \<lparr>mm_node = None, da_channel = 0, target_frame_count = 0, dlist_programmed = False\<rparr>"

definition insert_node :: "hvs_env \<Rightarrow> nat \<Rightarrow> vc4_hvs \<Rightarrow> nat result" where
  "insert_node env n h = mm_insert env (dlist_range h) (dlist_nodes h) n"

text \<open>The node goes into the allocation at \<open>p\<close>, which gets its channel.\<close>
definition place_node :: "ptr \<Rightarrow> nat \<times> nat \<Rightarrow> u32 \<Rightarrow> vc4_hvs \<Rightarrow> vc4_hvs" where
  "place_node p n channel h =
     h\<lparr>dlist_nodes := dlist_nodes h @ [n], dlist_allocs := (dlist_allocs h)(p \<mapsto> new_allocation\<lparr>mm_node := Some n, da_channel := channel\<rparr>)\<rparr>"

text \<open>\<open>mem\<close> is what \<open>kzalloc\<close> gives. When the second attempt fails too, the allocation is not freed.\<close>
definition vc4_hvs_alloc_dlist_entry ::
    "hvs_env \<Rightarrow> ptr option \<Rightarrow> u32 \<Rightarrow> nat \<Rightarrow> vc4_hvs \<Rightarrow> (ptr option result \<times> vc4_hvs) option" where
  "vc4_hvs_alloc_dlist_entry env mem channel dlist_count h =
     (if channel = VC4_HVS_CHANNEL_DISABLED then Some (Inr None, h)
      else case mem of
        None \<Rightarrow> Some (Inl ENOMEM, h)
      | Some p \<Rightarrow>
         (let h0 = h\<lparr>dlist_allocs := (dlist_allocs h)(p \<mapsto> new_allocation)\<rparr>
          in case insert_node env dlist_count h0 of
               Inr start \<Rightarrow> Some (Inr (Some p), place_node p (start, dlist_count) channel h0)
             | Inl _ \<Rightarrow>
                (case free_entries (stale_dlist_entries h0) h0 of
                   None \<Rightarrow> None
                 | Some h1 \<Rightarrow>
                    (case insert_node env dlist_count h1 of
                       Inr start \<Rightarrow> Some (Inr (Some p), place_node p (start, dlist_count) channel h1)
                     | Inl e \<Rightarrow> Some (Inl e, h1)))))"

text \<open>Outside of the unit tests, \<open>kunit_get_current_test\<close> is NULL.\<close>
definition vc4_hvs_mark_dlist_entry_stale :: "ptr option \<Rightarrow> vc4_hvs \<Rightarrow> vc4_hvs option" where
  "vc4_hvs_mark_dlist_entry_stale alloc h =
     (case alloc of
        None \<Rightarrow> Some h
      | Some p \<Rightarrow>
         (case dlist_allocs h p of
            None \<Rightarrow> None
          | Some a \<Rightarrow>
             (if mm_node a = None then Some h
              else if \<not> dlist_programmed a then vc4_hvs_free_dlist_entry_locked p h
              else let frcnt = vc4_hvs_get_fifo_frame_count h (da_channel a);
                       h1 = h\<lparr>dlist_allocs := (dlist_allocs h)(p \<mapsto> a\<lparr>target_frame_count := (frcnt + 1) AND mask 6\<rparr>),
                              stale_dlist_entries := stale_dlist_entries h @ [p]\<rparr>
                   in vc4_hvs_irq_enable_eof (da_channel a)
                        (hvs_write SCALER_DISPSTAT (SCALER_DISPSTAT_EOF (unat (da_channel a))) h1))))"

definition vc4_hvs_schedule_dlist_sweep :: "u32 \<Rightarrow> vc4_hvs \<Rightarrow> vc4_hvs option" where
  "vc4_hvs_schedule_dlist_sweep channel h =
     (if stale_dlist_entries h \<noteq> [] then Some (h\<lparr>free_dlist_work := True\<rparr>) else vc4_hvs_irq_clear_eof channel h)"

text \<open>The loop of the sweep over the entries as they were, with the three counts and states it read before.\<close>
fun sweep_loop :: "(u32 \<Rightarrow> bool) \<Rightarrow> (u32 \<Rightarrow> u8) \<Rightarrow> ptr list \<Rightarrow> vc4_hvs \<Rightarrow> vc4_hvs option" where
  "sweep_loop active frcnt [] h = Some h"
| "sweep_loop active frcnt (p # ps) h =
     (case dlist_allocs h p of
        None \<Rightarrow> None
      | Some a \<Rightarrow>
         (if da_channel a \<ge> 3 then None
          else if active (da_channel a) \<and> \<not> vc4_hvs_frcnt_lte (target_frame_count a) (frcnt (da_channel a)) then sweep_loop active frcnt ps h
          else case vc4_hvs_free_dlist_entry_locked p h of None \<Rightarrow> None | Some h' \<Rightarrow> sweep_loop active frcnt ps h'))"

definition vc4_hvs_dlist_free_work :: "vc4_hvs \<Rightarrow> vc4_hvs option" where
  "vc4_hvs_dlist_free_work h =
     sweep_loop (vc4_hvs_check_channel_active h) (vc4_hvs_get_fifo_frame_count h) (stale_dlist_entries h) (h\<lparr>free_dlist_work := False\<rparr>)"

subsection \<open>Channels\<close>

definition vc4_hvs_init_channel :: "hvs_crtc \<Rightarrow> hvs_crtc_state \<Rightarrow> bool \<Rightarrow> vc4_hvs \<Rightarrow> (unit result \<times> vc4_hvs) option" where
  "vc4_hvs_init_channel crtc s oneshot h =
     (if h_gone h then Some (Inl ENODEV, h)
      else
        let c = unat (s_channel s);
            h1 = hvs_writes [(SCALER_DISPCTRLX c, 0), (SCALER_DISPCTRLX c, SCALER_DISPCTRLX_RESET), (SCALER_DISPCTRLX c, 0)] h;
            gen4 = (h_gen h = VC4_GEN_4);
            dispctrl =
              SCALER_DISPCTRLX_ENABLE OR
              (if gen4 then VC4_SET_FIELD (s_hdisplay s) (23, 12) OR VC4_SET_FIELD (s_vdisplay s) (11, 0) OR (if oneshot then BIT 29 else 0)
               else VC4_SET_FIELD (s_hdisplay s) (28, 16) OR VC4_SET_FIELD (s_vdisplay s) (12, 0) OR (if oneshot then BIT 15 else 0));
            bkgnd0 = h_regs h1 (SCALER_DISPBKGNDX c);
            bkgnd = (if gen4 then bkgnd0 OR BIT 31 else bkgnd0 AND NOT (BIT 31)) AND NOT SCALER_DISPBKGND_GAMMA AND NOT (BIT 30);
            h2 = hvs_writes [(SCALER_DISPCTRLX c, dispctrl),
                             (SCALER_DISPBKGNDX c, bkgnd OR (if gen4 then SCALER_DISPBKGND_GAMMA else 0) OR (if s_interlace s then BIT 30 else 0))] h1
        in map_option (Pair (Inr ())) (vc4_hvs_lut_load crtc s h2))"

definition vc6_hvs_init_channel :: "hvs_crtc_state \<Rightarrow> bool \<Rightarrow> vc4_hvs \<Rightarrow> unit result \<times> vc4_hvs" where
  "vc6_hvs_init_channel s oneshot h =
     (if h_gone h then (Inl ENODEV, h)
      else
        let c = unat (s_channel s);
            h1 = hvs_write (SCALER6_DISPX_CTRL0 c) SCALER6_DISPX_CTRL0_RESET h;
            disp_ctrl1 = h_regs h1 (SCALER6_DISPX_CTRL1 c) AND NOT (BIT 0)
        in (Inr (), hvs_writes
             [(SCALER6_DISPX_CTRL1 c, disp_ctrl1 OR (if s_interlace s then BIT 0 else 0)),
              (SCALER6_DISPX_CTRL0 c, SCALER6_DISPX_CTRL0_ENB OR VC4_SET_FIELD (s_hdisplay s - 1) (28, 16) OR (if oneshot then BIT 15 else 0) OR
                                      VC4_SET_FIELD (s_vdisplay s - 1) (12, 0))] h1))"

text \<open>The tests after the writes only warn.\<close>
definition vc4_stop_channel :: "nat \<Rightarrow> vc4_hvs \<Rightarrow> vc4_hvs" where
  "vc4_stop_channel c h =
     (if h_gone h \<or> h_regs h (SCALER_DISPCTRLX c) AND SCALER_DISPCTRLX_ENABLE = 0 then h
      else hvs_writes [(SCALER_DISPCTRLX c, SCALER_DISPCTRLX_RESET), (SCALER_DISPCTRLX c, 0)] h)"

definition vc6_stop_channel :: "nat \<Rightarrow> vc4_hvs \<Rightarrow> vc4_hvs" where
  "vc6_stop_channel c h =
     (if h_gone h \<or> h_regs h (SCALER6_DISPX_CTRL0 c) AND SCALER6_DISPX_CTRL0_ENB = 0 then h
      else let h1 = hvs_write (SCALER6_DISPX_CTRL0 c) (h_regs h (SCALER6_DISPX_CTRL0 c) OR SCALER6_DISPX_CTRL0_RESET) h
           in hvs_write (SCALER6_DISPX_CTRL0 c) (h_regs h1 (SCALER6_DISPX_CTRL0 c) AND NOT SCALER6_DISPX_CTRL0_ENB) h1)"

definition vc4_hvs_stop_channel :: "u32 \<Rightarrow> vc4_hvs \<Rightarrow> vc4_hvs" where
  "vc4_hvs_stop_channel chan h = (if gen6 (h_gen h) then vc6_stop_channel (unat chan) h else vc4_stop_channel (unat chan) h)"

subsection \<open>The atomic operations\<close>

definition vc4_plane_dlist_size :: "hvs_plane \<Rightarrow> u32" where
  "vc4_plane_dlist_size p = of_nat (length (hp_dlist p))"

text \<open>\<open>hweight32(mask) > 1\<close>\<close>
definition several_connectors :: "u32 \<Rightarrow> bool" where
  "several_connectors m \<longleftrightarrow> length (filter (bit m) [0..<32]) > 1"

definition planes_dlist_count :: "hvs_plane list \<Rightarrow> u32" where
  "planes_dlist_count planes = fold (\<lambda>p n. n + vc4_plane_dlist_size p) planes 0 + 1"

definition vc4_hvs_atomic_check ::
    "hvs_env \<Rightarrow> ptr option \<Rightarrow> hvs_plane list \<Rightarrow> hvs_crtc_state \<Rightarrow> vc4_hvs \<Rightarrow> (unit result \<times> hvs_crtc_state \<times> vc4_hvs) option" where
  "vc4_hvs_atomic_check env mem planes s h =
     (if several_connectors (s_connector_mask s) then Some (Inl EINVAL, s, h)
      else map_option (\<lambda>(r, h'). case r of Inl e \<Rightarrow> (Inl e, s, h') | Inr alloc \<Rightarrow> (Inr (), s\<lparr>s_mm := alloc\<rparr>, h'))
             (vc4_hvs_alloc_dlist_entry env mem (s_channel s) (unat (planes_dlist_count planes)) h))"

definition node_start :: "dlist_allocation \<Rightarrow> nat" where
  "node_start a = (case mm_node a of None \<Rightarrow> 0 | Some (start, _) \<Rightarrow> start)"

definition vc4_hvs_install_dlist :: "hvs_crtc_state \<Rightarrow> vc4_hvs \<Rightarrow> vc4_hvs option" where
  "vc4_hvs_install_dlist s h =
     (if h_gone h then Some h
      else case s_mm s of
        None \<Rightarrow> None
      | Some p \<Rightarrow>
         (case dlist_allocs h p of
            None \<Rightarrow> None
          | Some a \<Rightarrow>
             (let h1 = h\<lparr>dlist_allocs := (dlist_allocs h)(p \<mapsto> a\<lparr>dlist_programmed := True\<rparr>)\<rparr>; c = unat (s_channel s)
              in Some (if gen6 (h_gen h) then hvs_write (SCALER6_DISPX_LPTRS c) (VC4_SET_FIELD (of_nat (node_start a)) (11, 0)) h1
                       else hvs_write (SCALER_DISPLISTX c) (of_nat (node_start a)) h1))))"

definition vc4_hvs_update_dlist :: "vc4_hvs \<Rightarrow> hvs_crtc_state \<Rightarrow> hvs_crtc \<Rightarrow> (hvs_crtc_state \<times> hvs_crtc) option" where
  "vc4_hvs_update_dlist h s crtc =
     (let (s1, crtc1) =
        (case s_event s of
           None \<Rightarrow> (s, crtc)
         | Some e \<Rightarrow>
            (let crtc' = crtc\<lparr>vblank_refs := vblank_refs crtc + 1\<rparr>
             in if \<not> hc_feeds_txp crtc \<or> s_txp_armed s then (s\<lparr>s_event := None\<rparr>, crtc'\<lparr>hc_event := Some e\<rparr>) else (s, crtc')))
      in case s_mm s of
           None \<Rightarrow> None
         | Some p \<Rightarrow> map_option (\<lambda>a. (s1, crtc1\<lparr>current_dlist := of_nat (node_start a)\<rparr>)) (dlist_allocs h p))"

definition vc4_hvs_atomic_begin :: "hvs_crtc_state \<Rightarrow> hvs_crtc \<Rightarrow> hvs_crtc" where
  "vc4_hvs_atomic_begin s crtc = crtc\<lparr>current_hvs_channel := s_channel s\<rparr>"

text \<open>The error of the channel is not looked at.\<close>
definition vc4_hvs_atomic_enable ::
    "hvs_crtc_state \<Rightarrow> hvs_crtc \<Rightarrow> vc4_hvs \<Rightarrow> (hvs_crtc_state \<times> hvs_crtc \<times> vc4_hvs) option" where
  "vc4_hvs_atomic_enable s crtc h =
     (case vc4_hvs_install_dlist s h of
        None \<Rightarrow> None
      | Some h1 \<Rightarrow>
         (case vc4_hvs_update_dlist h1 s crtc of
            None \<Rightarrow> None
          | Some (s1, crtc1) \<Rightarrow>
             (if gen6 (h_gen h) then Some (s1, crtc1, snd (vc6_hvs_init_channel s1 (hc_feeds_txp crtc) h1))
              else map_option (\<lambda>(_, h2). (s1, crtc1, h2)) (vc4_hvs_init_channel crtc1 s1 (hc_feeds_txp crtc) h1))))"

definition vc4_hvs_atomic_disable :: "hvs_crtc_state \<Rightarrow> vc4_hvs \<Rightarrow> vc4_hvs" where
  "vc4_hvs_atomic_disable old h = vc4_hvs_stop_channel (s_channel old) h"

definition vc4_crtc_send_vblank :: "hvs_crtc_state \<Rightarrow> hvs_crtc \<Rightarrow> hvs_crtc_state \<times> hvs_crtc" where
  "vc4_crtc_send_vblank s crtc =
     (case s_event s of None \<Rightarrow> (s, crtc) | Some e \<Rightarrow> (s\<lparr>s_event := None\<rparr>, crtc\<lparr>sent_events := sent_events crtc @ [e]\<rparr>))"

text \<open>Where the next word goes, the memory, and whether the background is filled.\<close>
type_synonym flush_state = "nat \<times> (nat \<Rightarrow> u32) \<times> bool"

definition flush_plane :: "nat \<Rightarrow> hvs_plane \<Rightarrow> flush_state \<Rightarrow> flush_state" where
  "flush_plane start p = (\<lambda>(nxt, m, bg).
     (nxt + length (hp_dlist p), write_words nxt (hp_dlist p) m, if nxt = start then hp_needs_bg_fill p else bg))"

text \<open>One pass over the planes for each position, until a pass finds none.\<close>
function flush_loop :: "nat \<Rightarrow> hvs_plane list \<Rightarrow> nat \<Rightarrow> flush_state \<Rightarrow> flush_state" where
  "flush_loop start planes z fs =
     (if filter (\<lambda>p. hp_zpos p = z) planes = [] then fs
      else flush_loop start planes (Suc z) (fold (flush_plane start) (filter (\<lambda>p. hp_zpos p = z) planes) fs))"
  by pat_completeness auto
termination
proof (relation "measure (\<lambda>(start, planes, z, fs). length (filter (\<lambda>p. hp_zpos p \<ge> z) planes))")
  fix start :: nat and planes :: "hvs_plane list" and z :: nat and fs :: flush_state
  assume ne: "filter (\<lambda>p. hp_zpos p = z) planes \<noteq> []"
  have "length (filter (\<lambda>p. z \<le> hp_zpos p) planes) =
      length (filter (\<lambda>p. hp_zpos p = z) planes) + length (filter (\<lambda>p. Suc z \<le> hp_zpos p) planes)"
    by (induction planes) auto
  with ne have "length (filter (\<lambda>p. Suc z \<le> hp_zpos p) planes) < length (filter (\<lambda>p. z \<le> hp_zpos p) planes)" by simp
  then show "((start, planes, Suc z, fold (flush_plane start) (filter (\<lambda>p. hp_zpos p = z) planes) fs), start, planes, z, fs)
      \<in> measure (\<lambda>(start, planes, z, fs). length (filter (\<lambda>p. hp_zpos p \<ge> z) planes))" by simp
qed simp

declare flush_loop.simps [simp del]

text \<open>The gamma table of a commit that changed the colour management.\<close>
definition flush_gamma ::
    "hvs_env \<Rightarrow> hvs_crtc_state \<Rightarrow> hvs_crtc \<Rightarrow> vc4_hvs \<Rightarrow> (hvs_crtc \<times> vc4_hvs) option" where
  "flush_gamma env s crtc h =
     (let reg = SCALER_DISPBKGNDX (unat (s_channel s)); dispbkgndx = h_regs h reg
      in if \<not> s_color_mgmt_changed s then Some (crtc, h)
         else if s_gamma_lut s \<noteq> None
         then map_option (\<lambda>(crtc', h'). (crtc', hvs_write reg (dispbkgndx OR SCALER_DISPBKGND_GAMMA) h')) (vc4_hvs_update_gamma_lut env crtc s h)
         else Some (crtc, hvs_write reg (dispbkgndx AND NOT SCALER_DISPBKGND_GAMMA) h))"

text \<open>The lists of the planes go into the memory, with the end mark, and the background fill is set up.\<close>
definition flush_planes :: "hvs_plane list \<Rightarrow> nat \<Rightarrow> nat \<Rightarrow> vc4_hvs \<Rightarrow> vc4_hvs option" where
  "flush_planes planes start c h =
     (let (nxt, m, bg) = flush_loop start planes 0 (start, h_dlist h, True);
          h1 = h\<lparr>h_dlist := write_words nxt [SCALER_CTL0_END] m\<rparr>
      in if gen6 (h_gen h)
         then (if c < length (bg_fill h) then Some (h1\<lparr>bg_fill := (bg_fill h1)[c := bg]\<rparr>) else None)
         else Some (hvs_write (SCALER_DISPBKGNDX c) (h_regs h1 (SCALER_DISPBKGNDX c) OR SCALER_DISPBKGND_FILL) h1))"

text \<open>Only a CRTC that runs and stays running gets its new list here.\<close>
definition flush_install ::
    "bool \<Rightarrow> hvs_crtc_state \<Rightarrow> hvs_crtc \<Rightarrow> vc4_hvs \<Rightarrow> (hvs_crtc_state \<times> hvs_crtc \<times> vc4_hvs) option" where
  "flush_install old_active s crtc h =
     (if s_active s \<and> old_active
      then (case vc4_hvs_install_dlist s h of
              None \<Rightarrow> None
            | Some h1 \<Rightarrow> map_option (\<lambda>(s1, crtc1). (s1, crtc1, h1)) (vc4_hvs_update_dlist h1 s crtc))
      else Some (s, crtc, h))"

definition vc4_hvs_atomic_flush ::
    "hvs_env \<Rightarrow> bool \<Rightarrow> hvs_plane list \<Rightarrow> hvs_crtc_state \<Rightarrow> hvs_crtc \<Rightarrow> vc4_hvs \<Rightarrow> (hvs_crtc_state \<times> hvs_crtc \<times> vc4_hvs) option" where
  "vc4_hvs_atomic_flush env old_active planes s crtc h =
     (if h_gone h then (case vc4_crtc_send_vblank s crtc of (s', crtc') \<Rightarrow> Some (s', crtc', h))
      else if s_channel s = VC4_HVS_CHANNEL_DISABLED then Some (s, crtc, h)
      else case s_mm s of
        None \<Rightarrow> None
      | Some p \<Rightarrow>
         (case dlist_allocs h p of
            None \<Rightarrow> None
          | Some a \<Rightarrow>
             (case flush_planes planes (node_start a) (unat (s_channel s)) h of
                None \<Rightarrow> None
              | Some h1 \<Rightarrow>
                 (case flush_install old_active s crtc h1 of
                    None \<Rightarrow> None
                  | Some (s1, crtc1, h2) \<Rightarrow> map_option (\<lambda>(crtc2, h3). (s1, crtc2, h3)) (flush_gamma env s1 crtc1 h2)))))"

definition vc4_crtc_destroy_state :: "hvs_crtc_state \<Rightarrow> vc4_hvs \<Rightarrow> vc4_hvs option" where
  "vc4_crtc_destroy_state s h = vc4_hvs_mark_dlist_entry_stale (s_mm s) h"

definition vc4_crtc_handle_page_flip :: "vc4_hvs \<Rightarrow> hvs_crtc \<Rightarrow> hvs_crtc" where
  "vc4_crtc_handle_page_flip h crtc =
     (let c = unat (current_hvs_channel crtc);
          cur = (if gen6 (h_gen h) then VC4_GET_FIELD (h_regs h (SCALER6_DISPX_DL c)) (11, 0) else h_regs h (SCALER_DISPLACTX c))
      in case hc_event crtc of
           None \<Rightarrow> crtc
         | Some e \<Rightarrow>
            (if current_dlist crtc = cur \<or> hc_feeds_txp crtc
             then crtc\<lparr>sent_events := sent_events crtc @ [e], hc_event := None, vblank_refs := vblank_refs crtc - 1\<rparr> else crtc))"

subsection \<open>Interrupts\<close>

definition slur_bit :: "vc4_gen \<Rightarrow> nat \<Rightarrow> u32" where
  "slur_bit g c = (if g = VC4_GEN_5 then SCALER5_DISPCTRL_DSPEISLUR c else SCALER_DISPCTRL_DSPEISLUR c)"

definition vc4_hvs_mask_underrun :: "nat \<Rightarrow> vc4_hvs \<Rightarrow> vc4_hvs" where
  "vc4_hvs_mask_underrun c h =
     (if h_gone h then h else hvs_write SCALER_DISPCTRL (h_regs h SCALER_DISPCTRL AND NOT (slur_bit (h_gen h) c)) h)"

definition vc4_hvs_unmask_underrun :: "nat \<Rightarrow> vc4_hvs \<Rightarrow> vc4_hvs" where
  "vc4_hvs_unmask_underrun c h =
     (if h_gone h then h
      else hvs_writes [(SCALER_DISPSTAT, SCALER_DISPSTAT_EUFLOW c), (SCALER_DISPCTRL, h_regs h SCALER_DISPCTRL OR slur_bit (h_gen h) c)] h)"

definition vc4_hvs_report_underrun :: "vc4_hvs \<Rightarrow> vc4_hvs" where
  "vc4_hvs_report_underrun h = h\<lparr>underrun := underrun h + 1\<rparr>"

text \<open>The loop over the channels, with the two registers as they were read; the flag says whether the interrupt was handled.\<close>
fun irq_loop :: "u32 \<Rightarrow> u32 \<Rightarrow> nat list \<Rightarrow> bool \<Rightarrow> vc4_hvs \<Rightarrow> (bool \<times> vc4_hvs) option" where
  "irq_loop status control [] handled h = Some (handled, h)"
| "irq_loop status control (c # cs) handled h =
     (let under = (status AND SCALER_DISPSTAT_EUFLOW c \<noteq> 0 \<and> control AND slur_bit (h_gen h) c \<noteq> 0);
          h1 = (if under then vc4_hvs_report_underrun (vc4_hvs_mask_underrun c h) else h)
      in if status AND SCALER_DISPSTAT_EOF c \<noteq> 0
         then (case vc4_hvs_schedule_dlist_sweep (of_nat c) h1 of None \<Rightarrow> None | Some h2 \<Rightarrow> irq_loop status control cs True h2)
         else irq_loop status control cs (handled \<or> under) h1)"

definition vc4_hvs_irq_handler :: "vc4_hvs \<Rightarrow> (bool \<times> vc4_hvs) option" where
  "vc4_hvs_irq_handler h =
     map_option (\<lambda>(handled, h'). (handled, hvs_write SCALER_DISPSTAT (SCALER_DISPSTAT_IRQMASK 0 OR SCALER_DISPSTAT_IRQMASK 1 OR SCALER_DISPSTAT_IRQMASK 2) h'))
       (irq_loop (h_regs h SCALER_DISPSTAT) (h_regs h SCALER_DISPCTRL) [0..<SCALER_CHANNELS_COUNT] False h)"

definition vc6_hvs_eof_irq_handler :: "int \<Rightarrow> vc4_hvs \<Rightarrow> (bool \<times> vc4_hvs) option" where
  "vc6_hvs_eof_irq_handler irq h =
     (case List.find (\<lambda>i. eof_enabled h ! i \<and> eof_desc h ! i = irq) [0..<HVS_NUM_CHANNELS] of
        None \<Rightarrow> Some (False, h)
      | Some i \<Rightarrow>
         (let ctrl1 = h_regs h (SCALER6_DISPX_CTRL1 i);
              h1 = hvs_write (SCALER6_DISPX_CTRL1 i) (if bg_fill h ! i then ctrl1 OR BIT 8 else ctrl1 AND NOT (BIT 8)) h
          in map_option (Pair True) (vc4_hvs_schedule_dlist_sweep (of_nat i) h1)))"

end
