(* ===== verification/Vc4_Hvs_Init.thy ===== *)
theory Vc4_Hvs_Init
  imports Vc4_Hvs
begin

text \<open>
  Bringing the HVS up and down (\<^verbatim>\<open>drivers/gpu/drm/vc4/vc4_hvs.c\<close> from \<open>__vc4_hvs_alloc\<close> on): the memory managers, the first values of the
  registers, the filter kernels, the shares of the composite output buffer, clocks and interrupts. The answers of the firmware, of the
  clocks and of the interrupt code are the record \<open>hvs_bind_env\<close>.
\<close>

definition drm_mm_init :: "nat \<Rightarrow> nat \<Rightarrow> vc4_hvs \<Rightarrow> vc4_hvs" where
  "drm_mm_init start sz h = h\<lparr>dlist_range := (start, start + sz), dlist_nodes := []\<rparr>"

definition hvs_zero :: "vc4_gen \<Rightarrow> (hvs_reg \<Rightarrow> u32) \<Rightarrow> (nat \<Rightarrow> u32) \<Rightarrow> vc4_hvs" where
  "hvs_zero gen regs m =
     \<lparr>h_gen = gen, h_gone = False, h_regs = regs, h_log = [], h_dlist = m, dlist_base = 0, dlist_mem_size = 0,
      eof_desc = replicate HVS_NUM_CHANNELS 0, eof_enabled = replicate HVS_NUM_CHANNELS False, bg_fill = replicate HVS_NUM_CHANNELS False,
      dlist_range = (0, 0), dlist_nodes = [], dlist_allocs = (\<lambda>_. None), stale_dlist_entries = [], free_dlist_work = False,
      mitchell_netravali_filter = None, nearest_neighbour_filter = None, irq_on = (\<lambda>_. False), underrun = 0, clk_on = (0, 0),
      clk_min_rate = (0, 0), h_max_core_rate = 0, vc5_hdmi_enable_hdmi_20 = False, vc5_hdmi_enable_4096by2160 = False\<rparr>"

text \<open>The size of the line buffers and of the prefetch memory are with the planes that use them.\<close>
definition vc4_hvs_alloc :: "bool \<Rightarrow> vc4_gen \<Rightarrow> (hvs_reg \<Rightarrow> u32) \<Rightarrow> (nat \<Rightarrow> u32) \<Rightarrow> vc4_hvs result" where
  "vc4_hvs_alloc mem gen regs m =
     (if \<not> mem then Inl ENOMEM
      else
        let h = hvs_zero gen regs m;
            dlist_start = HVS_BOOTLOADER_DLIST_END;
            dlist_size = (if gen6 gen then unat (h_regs h SCALER6_CXM_SIZE) else SCALER_DLIST_SIZE div 4 - HVS_BOOTLOADER_DLIST_END);
            h1 = (drm_mm_init dlist_start dlist_size h)\<lparr>dlist_mem_size := dlist_size\<rparr>
        in Inr (drm_mm_init HVS_BOOTLOADER_DLIST_END (SCALER_DLIST_SIZE div 4 - HVS_BOOTLOADER_DLIST_END) h1))"

definition reg_put :: "hvs_reg \<Rightarrow> u32 \<Rightarrow> field \<Rightarrow> vc4_hvs \<Rightarrow> vc4_hvs" where
  "reg_put r v f h = hvs_write r (put_field v f (h_regs h r)) h"

text \<open>The interrupt enables that are cleared, on the first generation and on the second.\<close>
definition irq_clear_mask :: "vc4_gen \<Rightarrow> u32" where
  "irq_clear_mask g =
     (if g = VC4_GEN_4
      then BIT 4 OR BIT 5 OR BIT 6 OR
           SCALER_DISPCTRL_DSPEIEOF 0 OR SCALER_DISPCTRL_DSPEIEOF 1 OR SCALER_DISPCTRL_DSPEIEOF 2 OR
           SCALER_DISPCTRL_DSPEIEOLN 0 OR SCALER_DISPCTRL_DSPEIEOLN 1 OR SCALER_DISPCTRL_DSPEIEOLN 2 OR
           SCALER_DISPCTRL_DSPEISLUR 0 OR SCALER_DISPCTRL_DSPEISLUR 1 OR SCALER_DISPCTRL_DSPEISLUR 2 OR BIT 0
      else BIT 4 OR BIT 5 OR
           SCALER5_DISPCTRL_DSPEIEOF 0 OR SCALER5_DISPCTRL_DSPEIEOF 1 OR SCALER5_DISPCTRL_DSPEIEOF 2 OR
           SCALER5_DISPCTRL_DSPEIEOLN 0 OR SCALER5_DISPCTRL_DSPEIEOLN 1 OR SCALER5_DISPCTRL_DSPEIEOLN 2 OR
           SCALER5_DISPCTRL_DSPEISLUR 0 OR SCALER5_DISPCTRL_DSPEISLUR 1 OR SCALER5_DISPCTRL_DSPEISLUR 2 OR BIT 0)"

definition set_panic :: "u32 \<Rightarrow> u32" where
  "set_panic v =
     (v AND NOT (VC4_MASK (25, 24) OR VC4_MASK (27, 26) OR VC4_MASK (29, 28))) OR
     VC4_SET_FIELD 2 (25, 24) OR VC4_SET_FIELD 2 (27, 26) OR VC4_SET_FIELD 2 (29, 28)"

definition vc4_hvs_hw_init :: "vc4_hvs \<Rightarrow> vc4_hvs" where
  "vc4_hvs_hw_init h =
     (let h1 = hvs_write SCALER_DISPCTRL (h_regs h SCALER_DISPCTRL OR BIT 31) h;
          h2 = reg_put SCALER_DISPECTRL 0 SCALER_DISPECTRL_DSP2_MUX h1;
          h3 = reg_put SCALER_DISPCTRL 3 SCALER_DISPCTRL_DSP3_MUX h2;
          h4 = reg_put SCALER_DISPEOLN 3 SCALER_DISPEOLN_DSP4_MUX h3;
          h5 = reg_put SCALER_DISPDITHER 3 SCALER_DISPDITHER_DSP5_MUX h4;
          dispctrl = h_regs h5 SCALER_DISPCTRL OR (SCALER_DISPCTRL_DISPEIRQ 0 OR SCALER_DISPCTRL_DISPEIRQ 1 OR SCALER_DISPCTRL_DISPEIRQ 2)
      in hvs_write SCALER_DISPCTRL (set_panic (set_panic (dispctrl AND NOT (irq_clear_mask (h_gen h))))) h5)"

text \<open>For limited and full range, and the encodings BT601, BT709 and BT2020.\<close>
definition csc_coeffs :: "u32 list list list list" where
  "csc_coeffs =
     [[[[0x004A8542, 0x0, 0x0066254A, 0x0, 0xFF908A0D], [0x004A8542, 0xFFE6ED5D, 0xFFCBF856, 0x0, 0x0043C9A3], [0x004A8542, 0x00811A54, 0x0, 0x0, 0xFF759502]],
       [[0x004A8542, 0x0, 0x0072BC44, 0x0, 0xFF83F312], [0x004A8542, 0xFFF25A22, 0xFFDDE4D0, 0x0, 0x00267064], [0x004A8542, 0x00873197, 0x0, 0x0, 0xFF6F7DC0]],
       [[0x004A8542, 0x0, 0x006B4A17, 0x0, 0xFF8B653F], [0x004A8542, 0xFFF402D9, 0xFFDDE4D0, 0x0, 0x0024C7AE], [0x004A8542, 0x008912CC, 0x0, 0x0, 0xFF6D9C8B]]],
      [[[0x00400000, 0x0, 0x0059BA5E, 0x0, 0xFFA645A1], [0x00400000, 0xFFE9F9AC, 0xFFD24B97, 0x0, 0x0043BABB], [0x00400000, 0x00716872, 0x0, 0x0, 0xFF8E978D]],
       [[0x00400000, 0x0, 0x0064C985, 0x0, 0xFF9B367A], [0x00400000, 0xFFF402E1, 0xFFE20A40, 0x0, 0x0029F2DE], [0x00400000, 0x0076C226, 0x0, 0x0, 0xFF893DD9]],
       [[0x00400000, 0x0, 0x005E3F14, 0x0, 0xFFA1C0EB], [0x00400000, 0xFFF577F6, 0xFFDB580F, 0x0, 0x002F2FFA], [0x00400000, 0x007868DB, 0x0, 0x0, 0xFF879724]]]]"

definition vc6_d0_csc_coeffs :: "u32 list list list list" where
  "vc6_d0_csc_coeffs =
     [[[[0x1f002543, 0x00003313], [0x18002543, 0xf377e5fc], [0x18002543, 0x408d0000]],
       [[0x1f002543, 0x0000395e], [0x18002543, 0xf92deef2], [0x18002543, 0x43990000]],
       [[0x1f002543, 0x000035a0], [0x18002543, 0xfa00eb20], [0x18002543, 0x44800000]]],
      [[[0x00002000, 0x00002cdd], [0x18002000, 0xf4fde926], [0x18002000, 0x38b40000]],
       [[0x00002000, 0x00003265], [0x18002000, 0xfa01f105], [0x18002000, 0x3b610000]],
       [[0x00002000, 0x00002f30], [0x18002000, 0xfabcedb7], [0x18002000, 0x3c340000]]]]"

definition vc6_hvs_hw_init :: "vc4_hvs \<Rightarrow> vc4_hvs" where
  "vc6_hvs_hw_init h =
     hvs_writes
       ([(SCALER6_CONTROL, BIT 31 OR VC4_SET_FIELD 8 (22, 18) OR VC4_SET_FIELD 15 (7, 4)), (SCALER6_PRI_MAP0, 0xffffffff), (SCALER6_PRI_MAP1, 0xffffffff)] @
        (if h_gen h = VC4_GEN_6_C
         then concat (map (\<lambda>i. let c = csc_coeffs ! (i div 3) ! (i mod 3)
                in concat (map (\<lambda>a. map (\<lambda>b. (CFC1_N_MA_CSC_COEFF a b i, c ! a ! b)) [0..<5]) [0..<3]) @ [(CFC1_N_NL_CSC_CTRL i, BIT 15)]) [0..<6])
         else concat (map (\<lambda>i. let c = vc6_d0_csc_coeffs ! (i div 3) ! (i mod 3)
                in [(SCALER_PI_CMP_CSC_RED0 i, c ! 0 ! 0), (SCALER_PI_CMP_CSC_RED1 i, c ! 0 ! 1), (SCALER_PI_CMP_CSC_RED_CLAMP i, 0xfff00000),
                    (SCALER_PI_CMP_CSC_CFG i, 1),
                    (SCALER_PI_CMP_CSC_GREEN0 i, c ! 1 ! 0), (SCALER_PI_CMP_CSC_GREEN1 i, c ! 1 ! 1), (SCALER_PI_CMP_CSC_GREEN_CLAMP i, 0xfff00000),
                    (SCALER_PI_CMP_CSC_BLUE0 i, c ! 2 ! 0), (SCALER_PI_CMP_CSC_BLUE1 i, c ! 2 ! 1), (SCALER_PI_CMP_CSC_BLUE_CLAMP i, 0xfff00000)]) [0..<6]))) h"

text \<open>The base and the top of each channel's share of the composite output buffer.\<close>
definition vc4_hvs_cob_init :: "vc4_hvs \<Rightarrow> vc4_hvs" where
  "vc4_hvs_cob_init h =
     (case h_gen h of
        VC4_GEN_4 \<Rightarrow>
          (let top2 = 2048 * 3; top1 = top2 + 2048 * 3; top0 = 20736
           in hvs_writes [(SCALER_DISPBASEX 2, 0 OR push_bit 16 (top2 - 1)), (SCALER_DISPBASEX 1, top2 OR push_bit 16 (top1 - 1)),
                          (SCALER_DISPBASEX 0, top1 OR push_bit 16 (top0 - 1))] h)
      | VC4_GEN_5 \<Rightarrow>
          (let top2 = 4096 * 3; base1 = top2 + 16; top1 = base1 + 4096 * 3; base0 = top1 + 16; top0 = 44416
           in hvs_writes [(SCALER_DISPBASEX 2, 0 OR push_bit 16 top2), (SCALER_DISPBASEX 1, base1 OR push_bit 16 top1),
                          (SCALER_DISPBASEX 0, base0 OR push_bit 16 top0)] h)
      | _ \<Rightarrow>
          (let top2 = 3840; base1 = top2 + 16; top1 = top2 + 3840 * 4; base0 = top1 + 16; top0 = top1 + 3840 * 4
           in hvs_writes [(SCALER6_DISPX_COB 2, VC4_SET_FIELD top2 (31, 16) OR VC4_SET_FIELD 0 (15, 0)),
                          (SCALER6_DISPX_COB 1, VC4_SET_FIELD top1 (31, 16) OR VC4_SET_FIELD base1 (15, 0)),
                          (SCALER6_DISPX_COB 0, VC4_SET_FIELD top0 (31, 16) OR VC4_SET_FIELD base0 (15, 0))] h))"

subsection \<open>Binding\<close>

text \<open>
  The mapping of the registers and the allocation of the structure, the node and the handle of the firmware, the two clocks, the highest
  core rate, whether the clocks can be enabled, the interrupt request of the older generations and the interrupts by name.
\<close>
record hvs_bind_env =
  be_ioremap :: "errno option"
  be_mem :: bool
  be_fw_node :: bool
  be_fw :: bool
  be_core_clk :: "errno option"
  be_disp_clk :: "errno option"
  be_max_rate :: u32
  be_core_enable :: "errno option"
  be_disp_enable :: "errno option"
  be_request_irq :: "errno option"
  be_irq_byname :: "nat \<Rightarrow> int result"

definition hvs_fail_on :: "errno option \<Rightarrow> (vc4_hvs \<Rightarrow> vc4_hvs) \<Rightarrow> vc4_hvs \<Rightarrow> unit result \<times> vc4_hvs" where
  "hvs_fail_on err f h = (case err of Some e \<Rightarrow> (Inl e, h) | None \<Rightarrow> (Inr (), f h))"

definition hvs_version :: "vc4_hvs \<Rightarrow> vc4_hvs" where
  "hvs_version h =
     (if h_gen h = VC4_GEN_6_C \<and> VC4_GET_FIELD (h_regs h SCALER6_VERSION) (7, 0) = 0x54 then h\<lparr>h_gen := VC4_GEN_6_D\<rparr> else h)"

definition hvs_clock_steps :: "hvs_bind_env \<Rightarrow> (vc4_hvs \<Rightarrow> unit result \<times> vc4_hvs) list" where
  "hvs_clock_steps be =
     [hvs_fail_on (be_core_clk be) id, hvs_fail_on (be_disp_clk be) id,
      hvs_fail_on None (\<lambda>h. h\<lparr>vc5_hdmi_enable_hdmi_20 := (be_max_rate be \<ge> 550000000), vc5_hdmi_enable_4096by2160 := (be_max_rate be \<ge> 600000000),
                             h_max_core_rate := ucast (be_max_rate be)\<rparr>),
      hvs_fail_on (be_core_enable be) (\<lambda>h. h\<lparr>clk_on := (fst (clk_on h) + 1, snd (clk_on h))\<rparr>),
      hvs_fail_on (be_disp_enable be) (\<lambda>h. h\<lparr>clk_on := (fst (clk_on h), snd (clk_on h) + 1)\<rparr>)]"

text \<open>The clocks and the limits that the firmware gives, from the second generation on.\<close>
definition hvs_clocks :: "hvs_bind_env \<Rightarrow> vc4_hvs \<Rightarrow> unit result \<times> vc4_hvs" where
  "hvs_clocks be h =
     (if h_gen h = VC4_GEN_4 then (Inr (), h)
      else if \<not> be_fw_node be then (Inl EINVAL, h)
      else if \<not> be_fw be then (Inl EPROBE_DEFER, h)
      else run_steps (hvs_clock_steps be) h)"

definition hvs_upload :: "hvs_env \<Rightarrow> u32 list \<Rightarrow> ((nat \<times> nat) \<Rightarrow> vc4_hvs \<Rightarrow> vc4_hvs) \<Rightarrow> vc4_hvs \<Rightarrow> unit result \<times> vc4_hvs" where
  "hvs_upload env krn f h =
     (case vc4_hvs_upload_linear_kernel env krn h of (Inl e, h') \<Rightarrow> (Inl e, h') | (Inr n, h') \<Rightarrow> (Inr (), f n h'))"

text \<open>The interrupts of the third generation, one for each channel; the result of the request is not looked at.\<close>
fun hvs_irqs :: "(nat \<Rightarrow> int result) \<Rightarrow> nat list \<Rightarrow> vc4_hvs \<Rightarrow> unit result \<times> vc4_hvs" where
  "hvs_irqs byname [] h = (Inr (), h)"
| "hvs_irqs byname (i # is) h =
     (case byname i of Inl e \<Rightarrow> (Inl e, h) | Inr irq \<Rightarrow> hvs_irqs byname is (h\<lparr>eof_desc := (eof_desc h)[i := irq]\<rparr>))"

definition hvs_bind_steps :: "hvs_env \<Rightarrow> hvs_bind_env \<Rightarrow> (vc4_hvs \<Rightarrow> unit result \<times> vc4_hvs) list" where
  "hvs_bind_steps env be =
     [hvs_fail_on None hvs_version,
      hvs_clocks be,
      hvs_fail_on None (\<lambda>h. h\<lparr>dlist_base := (if h_gen h = VC4_GEN_4 then 0x2000 else 0x4000)\<rparr>),
      hvs_fail_on None (\<lambda>h. if gen6 (h_gen h) then vc6_hvs_hw_init h else vc4_hvs_hw_init h),
      hvs_upload env mitchell_netravali_1_3_1_3_kernel (\<lambda>n h. h\<lparr>mitchell_netravali_filter := Some n\<rparr>),
      hvs_upload env nearest_neighbour_kernel (\<lambda>n h. h\<lparr>nearest_neighbour_filter := Some n\<rparr>),
      hvs_fail_on None vc4_hvs_cob_init]"

text \<open>The interrupts come last. \<open>vc4->hvs\<close> is set once the structure is there.\<close>
definition hvs_request_irqs :: "hvs_bind_env \<Rightarrow> vc4_hvs \<Rightarrow> unit result \<times> vc4_hvs" where
  "hvs_request_irqs be h =
     (if gen6 (h_gen h) then hvs_irqs (be_irq_byname be) [0..<HVS_NUM_CHANNELS] h else hvs_fail_on (be_request_irq be) id h)"

definition vc4_hvs_bind ::
    "hvs_env \<Rightarrow> hvs_bind_env \<Rightarrow> vc4_gen \<Rightarrow> (hvs_reg \<Rightarrow> u32) \<Rightarrow> (nat \<Rightarrow> u32) \<Rightarrow> unit result \<times> vc4_hvs option" where
  "vc4_hvs_bind env be gen regs m =
     (case be_ioremap be of
        Some e \<Rightarrow> (Inl e, None)
      | None \<Rightarrow>
         (case vc4_hvs_alloc (be_mem be) gen regs m of
            Inl e \<Rightarrow> (Inl e, None)
          | Inr h0 \<Rightarrow> (case run_steps (hvs_bind_steps env be @ [hvs_request_irqs be]) h0 of (r, h) \<Rightarrow> (r, Some h))))"

text \<open>\<open>clk_disable_unprepare\<close> and \<open>clk_set_min_rate\<close> do nothing on the NULL clocks of the first generation. Afterwards \<open>vc4->hvs\<close> is NULL.\<close>
definition vc4_hvs_unbind :: "vc4_hvs \<Rightarrow> vc4_hvs" where
  "vc4_hvs_unbind h =
     (let h1 = h\<lparr>mitchell_netravali_filter := None, nearest_neighbour_filter := None, dlist_nodes := []\<rparr>
      in if h_gen h = VC4_GEN_4 then h1
         else h1\<lparr>clk_min_rate := (0, 0), clk_on := (fst (clk_on h) - 1, snd (clk_on h) - 1)\<rparr>)"

end
