(* ===== verification/Vc4_Hvs_Laws.thy ===== *)
theory Vc4_Hvs_Laws
  imports Vc4_Hvs_Init
begin

text \<open>
  The invariant of the display lists of the HVS: frame counts as sequence numbers, what the lists on the channels depend on, the steps
  of the driver and of the hardware, and that freeing, sweeping, allocating and the interrupt handlers keep the invariant.
\<close>

subsection \<open>Frame counts\<close>

lemma sint_u8: "sint (word_of_int x :: u8) = (x + 128) mod 256 - 128"
  by (simp add: signed_of_int signed_take_bit_eq_take_bit_shift take_bit_eq_mod)

lemma shifted_mod: "((d :: int) + 32) mod 64 \<le> 32 \<longleftrightarrow> (- d) mod 64 \<le> 32"
proof -
  define k where "k = d mod 64"
  have k: "0 \<le> k" "k < 64" by (simp_all add: k_def)
  have 1: "(d + 32) mod 64 = (k + 32) mod 64" and 2: "(- d) mod 64 = (- k) mod 64"
    by (simp_all add: k_def mod_simps)
  consider "k = 0" | "0 < k" "k < 32" | "32 \<le> k" using k by linarith
  then show ?thesis
  proof cases
    case 2
    then have "(- k) mod 64 = 64 - k" by (simp add: zmod_zminus1_eq_if)
    then show ?thesis using 1 2 \<open>(- d) mod 64 = (- k) mod 64\<close> by simp
  next
    case 3
    then have "(- k) mod 64 = 64 - k" "(k + 32) mod 64 = k - 32"
      using k by (simp_all add: zmod_zminus1_eq_if mod_pos_geq)
    then show ?thesis using 1 3 k \<open>(- d) mod 64 = (- k) mod 64\<close> by simp
  qed (simp add: 1 2)
qed

text \<open>The comparison of two 6-bit counts is that of RFC 1982: the second is at most 32 frames ahead.\<close>
lemma vc4_hvs_frcnt_lte_iff:
  "vc4_hvs_frcnt_lte cnt1 cnt2 \<longleftrightarrow> (uint cnt2 - uint cnt1) mod 64 \<le> 32"
proof -
  have "(uint cnt1 * 4 - uint cnt2 * 4 + 128) mod 256 = 4 * ((uint cnt1 - uint cnt2 + 32) mod 64)"
    using mult_mod_right [of 4 "uint cnt1 - uint cnt2 + 32" 64] by (simp add: algebra_simps)
  then have "vc4_hvs_frcnt_lte cnt1 cnt2 \<longleftrightarrow> (uint cnt1 - uint cnt2 + 32) mod 64 \<le> 32"
    unfolding vc4_hvs_frcnt_lte_def sint_u8 by simp
  then show ?thesis using shifted_mod [of "uint cnt1 - uint cnt2"] by simp
qed

lemma uint_next_frame: "uint ((n + 1 :: u8) AND mask 6) = (uint n + 1) mod 64"
proof -
  have "uint ((n + 1 :: u8) AND mask 6) = uint (n + 1) mod 64"
    unfolding take_bit_eq_mask [symmetric] unsigned_take_bit_eq by (simp add: take_bit_eq_mod)
  also have "\<dots> = (uint n + 1) mod 256 mod 64" by (simp add: uint_word_ariths)
  finally show ?thesis by (simp add: mod_mod_cancel)
qed

lemma frcnt_next_not_lte: "\<not> vc4_hvs_frcnt_lte ((n + 1) AND mask 6) n"
proof -
  have "(uint n - uint ((n + 1) AND mask 6)) mod 64 = (uint n - (uint n + 1)) mod 64"
    unfolding uint_next_frame by (simp add: mod_simps del: diff_add_cancel)
  then show ?thesis by (simp add: vc4_hvs_frcnt_lte_iff)
qed

text \<open>\<open>k\<close> frames after the count was \<open>n\<close>, the entry is due for the first 33 of them.\<close>
lemma frcnt_due:
  assumes "uint m = (uint n + int k) mod 64" "1 \<le> k" "k \<le> 33"
  shows "vc4_hvs_frcnt_lte ((n + 1) AND mask 6) m"
proof -
  have "(uint m - uint ((n + 1) AND mask 6)) mod 64 = (uint n + int k - (uint n + 1)) mod 64"
    unfolding uint_next_frame assms(1) by (simp add: mod_simps)
  then show ?thesis using assms(2,3) by (simp add: vc4_hvs_frcnt_lte_iff)
qed

subsection \<open>What a register write leaves alone\<close>

definition regs_change :: "vc4_hvs \<Rightarrow> vc4_hvs \<Rightarrow> bool" where
  "regs_change h h' \<longleftrightarrow> h' = h\<lparr>h_regs := h_regs h', h_log := h_log h'\<rparr>"

lemma regs_change_refl [simp]: "regs_change h h" by (simp add: regs_change_def)

lemma regs_change_trans: "regs_change h h' \<Longrightarrow> regs_change h' h'' \<Longrightarrow> regs_change h h''"
  by (cases h; cases h'; cases h'') (simp add: regs_change_def)

lemma regs_change_write [simp]: "regs_change h (hvs_write r v h)"
  by (auto simp: regs_change_def hvs_write_def)

lemma regs_change_writes [simp]: "regs_change h (hvs_writes ws h)"
proof (induction ws arbitrary: h)
  case (Cons w ws)
  then have "regs_change (hvs_write (fst w) (snd w) h) (hvs_writes (w # ws) h)" by (simp add: hvs_writes_def case_prod_unfold)
  then show ?case by (rule regs_change_trans [OF regs_change_write])
qed (simp add: hvs_writes_def)

lemma h_regs_write: "h_regs (hvs_write r v h) r' = (if r' = r then (if r = SCALER_DISPSTAT then h_regs h r AND NOT v else v) else h_regs h r')"
  by (simp add: hvs_write_def)

lemma hvs_writes_simps [simp]: "hvs_writes [] h = h" "hvs_writes ((r, v) # ws) h = hvs_writes ws (hvs_write r v h)"
  by (simp_all add: hvs_writes_def)

lemma h_regs_writes_other: "r \<notin> fst ` set ws \<Longrightarrow> h_regs (hvs_writes ws h) r = h_regs h r"
  by (induction ws arbitrary: h) (auto simp: hvs_writes_def h_regs_write)

lemma regs_change_fields:
  assumes "regs_change h h'"
  shows "h_gen h' = h_gen h" "h_gone h' = h_gone h" "h_dlist h' = h_dlist h" "dlist_range h' = dlist_range h" "dlist_nodes h' = dlist_nodes h"
    "dlist_allocs h' = dlist_allocs h" "stale_dlist_entries h' = stale_dlist_entries h" "eof_enabled h' = eof_enabled h"
    "eof_desc h' = eof_desc h" "irq_on h' = irq_on h" "bg_fill h' = bg_fill h" "free_dlist_work h' = free_dlist_work h"
  using assms by (cases h; cases h'; simp add: regs_change_def)+

lemmas hvs_write_fields [simp] = regs_change_fields [OF regs_change_write]
lemmas hvs_writes_fields [simp] = regs_change_fields [OF regs_change_writes]

subsection \<open>What the display lists depend on\<close>

text \<open>The list that a channel will show from its next frame on.\<close>
definition installed_start :: "vc4_hvs \<Rightarrow> nat \<Rightarrow> nat" where
  "installed_start h c =
     (if gen6 (h_gen h) then unat (VC4_GET_FIELD (h_regs h (SCALER6_DISPX_LPTRS c)) (11, 0)) else unat (h_regs h (SCALER_DISPLISTX c)))"

abbreviation channel_on :: "vc4_hvs \<Rightarrow> nat \<Rightarrow> bool" where
  "channel_on h c \<equiv> vc4_hvs_check_channel_active h (of_nat c)"

abbreviation frame_count :: "vc4_hvs \<Rightarrow> nat \<Rightarrow> u8" where
  "frame_count h c \<equiv> vc4_hvs_get_fifo_frame_count h (of_nat c)"

text \<open>The registers that say which list a channel shows, whether it runs and which frame it is at.\<close>
definition list_regs :: "hvs_reg set" where
  "list_regs = range SCALER_DISPLISTX \<union> range SCALER_DISPCTRLX \<union> range SCALER_DISPSTATX \<union>
     range SCALER6_DISPX_LPTRS \<union> range SCALER6_DISPX_CTRL0 \<union> range SCALER6_DISPX_STATUS"

definition same_view :: "vc4_hvs \<Rightarrow> vc4_hvs \<Rightarrow> bool" where
  "same_view h h' \<longleftrightarrow> h_gen h' = h_gen h \<and> h_gone h' = h_gone h \<and> (\<forall>r\<in>list_regs. h_regs h' r = h_regs h r)"

lemma same_viewD:
  assumes "same_view h h'"
  shows "installed_start h' c = installed_start h c" "channel_on h' c = channel_on h c" "frame_count h' c = frame_count h c"
  using assms by (auto simp: same_view_def list_regs_def installed_start_def vc4_hvs_check_channel_active_def
      vc4_hvs_get_fifo_frame_count_def split: vc4_gen.split)

lemma same_view_refl [simp]: "same_view h h" by (simp add: same_view_def)

lemma same_view_trans: "same_view h h' \<Longrightarrow> same_view h' h'' \<Longrightarrow> same_view h h''" by (simp add: same_view_def)

lemma same_view_write: "r \<notin> list_regs \<Longrightarrow> same_view h (hvs_write r v h)"
  by (auto simp: same_view_def h_regs_write)

lemma same_view_writes: "fst ` set ws \<inter> list_regs = {} \<Longrightarrow> same_view h (hvs_writes ws h)"
  unfolding same_view_def by (auto intro!: h_regs_writes_other)

subsection \<open>The invariant of the allocations\<close>

definition apart :: "nat \<times> nat \<Rightarrow> nat \<times> nat \<Rightarrow> bool" where
  "apart m n \<longleftrightarrow> fst m + snd m \<le> fst n \<or> fst n + snd n \<le> fst m"

text \<open>What the code relies on in \<open>drm_mm_insert_node\<close>: a node lies in the range and apart from the nodes there are.\<close>
definition mm_sound :: "hvs_env \<Rightarrow> bool" where
  "mm_sound env \<longleftrightarrow> (\<forall>rng ns n start. mm_insert env rng ns n = Inr start \<longrightarrow>
     fst rng \<le> start \<and> start + n \<le> snd rng \<and> (\<forall>m\<in>set ns. apart m (start, n)))"

text \<open>
  The nodes are apart and within the first 4096 words, behind those of the boot loader, every allocation has a node of its own, and a stale one was installed on
  one of the three channels, whose interrupt is on.
\<close>
definition lists_inv :: "vc4_hvs \<Rightarrow> bool" where
  "lists_inv h \<longleftrightarrow>
     HVS_BOOTLOADER_DLIST_END \<le> fst (dlist_range h) \<and> snd (dlist_range h) \<le> 4096 \<and>
     (\<forall>n\<in>set (dlist_nodes h). fst (dlist_range h) \<le> fst n \<and> fst n + snd n \<le> snd (dlist_range h) \<and> 0 < snd n) \<and>
     (\<forall>m\<in>set (dlist_nodes h). \<forall>n\<in>set (dlist_nodes h). m \<noteq> n \<longrightarrow> apart m n) \<and>
     (\<forall>p a n. dlist_allocs h p = Some a \<longrightarrow> mm_node a = Some n \<longrightarrow> n \<in> set (dlist_nodes h)) \<and>
     (\<forall>p q a b n. dlist_allocs h p = Some a \<longrightarrow> dlist_allocs h q = Some b \<longrightarrow> mm_node a = Some n \<longrightarrow> mm_node b = Some n \<longrightarrow> p = q) \<and>
     distinct (stale_dlist_entries h) \<and>
     (\<forall>p\<in>set (stale_dlist_entries h). \<exists>a n. dlist_allocs h p = Some a \<and> mm_node a = Some n \<and> dlist_programmed a \<and>
        da_channel a < 3 \<and> eof_enabled h ! unat (da_channel a))"

text \<open>A list that is there, and that was installed on the channel.\<close>
definition list_on :: "vc4_hvs \<Rightarrow> nat \<Rightarrow> ptr \<Rightarrow> nat \<Rightarrow> bool" where
  "list_on h c p start \<longleftrightarrow>
     (\<exists>a n. dlist_allocs h p = Some a \<and> mm_node a = Some n \<and> dlist_programmed a \<and> da_channel a = of_nat c \<and> fst n = start)"

text \<open>
  \<open>shown c\<close> is the start of the list that the hardware reads for channel \<open>c\<close> in this frame, \<open>cur c\<close> the allocation of the CRTC's current state.
  The next list of a running channel is that of the current state; the list it reads is still allocated, and if it is stale, it was
  marked in this frame.
\<close>
definition shown_inv :: "vc4_hvs \<Rightarrow> (nat \<Rightarrow> nat option) \<Rightarrow> (nat \<Rightarrow> ptr option) \<Rightarrow> bool" where
  "shown_inv h shown cur \<longleftrightarrow> (\<forall>c < 3.
     (channel_on h c \<longrightarrow> (\<exists>p. cur c = Some p \<and> p \<notin> set (stale_dlist_entries h) \<and> list_on h c p (installed_start h c))) \<and>
     (\<forall>start. shown c = Some start \<longrightarrow> channel_on h c \<and>
        (\<exists>p. list_on h c p start \<and>
             (p \<in> set (stale_dlist_entries h) \<longrightarrow> target_frame_count (the (dlist_allocs h p)) = (frame_count h c + 1) AND mask 6))))"

text \<open>The interrupt of a channel is on in the hardware when the code believes so.\<close>
definition eof_hw :: "vc4_hvs \<Rightarrow> nat \<Rightarrow> bool" where
  "eof_hw h c = (if gen6 (h_gen h) then irq_on h (eof_desc h ! c) else h_regs h SCALER_DISPCTRL AND eof_bit (h_gen h) c \<noteq> 0)"

definition eof_inv :: "vc4_hvs \<Rightarrow> bool" where
  "eof_inv h \<longleftrightarrow> length (eof_enabled h) = 3 \<and> length (eof_desc h) = 3 \<and> length (bg_fill h) = 3 \<and>
     (gen6 (h_gen h) \<longrightarrow> distinct (eof_desc h)) \<and> (\<forall>c < 3. eof_enabled h ! c \<longrightarrow> eof_hw h c)"

definition hvs_inv :: "vc4_hvs \<Rightarrow> (nat \<Rightarrow> nat option) \<Rightarrow> (nat \<Rightarrow> ptr option) \<Rightarrow> bool" where
  "hvs_inv h shown cur \<longleftrightarrow> \<not> h_gone h \<and> lists_inv h \<and> shown_inv h shown cur \<and> eof_inv h"

subsection \<open>The steps of the driver and of the hardware\<close>

text \<open>A frame of channel \<open>c\<close> starts: the count goes on, the list that is installed is read, the status says so.\<close>
definition next_frame :: "nat \<Rightarrow> vc4_hvs \<Rightarrow> vc4_hvs \<Rightarrow> bool" where
  "next_frame c h h' \<longleftrightarrow>
     (\<exists>r. h' = h\<lparr>h_regs := r\<rparr>) \<and>
     (\<forall>c' < 3. installed_start h' c' = installed_start h c' \<and> channel_on h' c' = channel_on h c' \<and>
        frame_count h' c' = (if c' = c then (frame_count h c + 1) AND mask 6 else frame_count h c')) \<and>
     h_regs h' SCALER_DISPCTRL = h_regs h SCALER_DISPCTRL \<and>
     h_regs h' SCALER_DISPSTAT = h_regs h SCALER_DISPSTAT OR SCALER_DISPSTAT_EOF c"

inductive hvs_step :: "hvs_env \<Rightarrow> vc4_hvs \<times> (nat \<Rightarrow> nat option) \<times> (nat \<Rightarrow> ptr option) \<Rightarrow>
    vc4_hvs \<times> (nat \<Rightarrow> nat option) \<times> (nat \<Rightarrow> ptr option) \<Rightarrow> bool" for env where
  Check: "vc4_hvs_atomic_check env mem planes s h = Some (r, s', h') \<Longrightarrow>
     (\<And>p. mem = Some p \<Longrightarrow> dlist_allocs h p = None) \<Longrightarrow>
     s_channel s < 3 \<or> s_channel s = VC4_HVS_CHANNEL_DISABLED \<Longrightarrow> planes_dlist_count planes \<noteq> 0 \<Longrightarrow>
     (\<exists>start. insert_node env (unat (planes_dlist_count planes)) h = Inr start) \<or> stale_dlist_entries h = [] \<Longrightarrow>
     hvs_step env (h, shown, cur) (h', shown, cur)"
| Flush: "vc4_hvs_atomic_flush env old_active planes s crtc h = Some (s', crtc', h') \<Longrightarrow>
     s_channel s < 3 \<Longrightarrow> s_mm s = Some p \<Longrightarrow> p \<notin> set (stale_dlist_entries h) \<Longrightarrow>
     dlist_allocs h p = Some a \<Longrightarrow> mm_node a \<noteq> None \<Longrightarrow> da_channel a = s_channel s \<Longrightarrow>
     hvs_step env (h, shown, cur) (h', shown, if s_active s \<and> old_active then cur(unat (s_channel s) := Some p) else cur)"
| Enable: "vc4_hvs_atomic_enable s crtc h = Some (s', crtc', h') \<Longrightarrow>
     s_channel s < 3 \<Longrightarrow> \<not> vc4_hvs_check_channel_active h (s_channel s) \<Longrightarrow>
     s_mm s = Some p \<Longrightarrow> p \<notin> set (stale_dlist_entries h) \<Longrightarrow>
     dlist_allocs h p = Some a \<Longrightarrow> mm_node a \<noteq> None \<Longrightarrow> da_channel a = s_channel s \<Longrightarrow>
     hvs_step env (h, shown, cur) (h', shown, cur(unat (s_channel s) := Some p))"
| Disable: "s_channel s < 3 \<Longrightarrow>
     hvs_step env (h, shown, cur) (vc4_hvs_atomic_disable s h, shown(unat (s_channel s) := None), cur)"
| Destroy: "vc4_crtc_destroy_state s h = Some h' \<Longrightarrow>
     (\<And>p a. s_mm s = Some p \<Longrightarrow> dlist_allocs h p = Some a \<Longrightarrow> da_channel a < 3 \<and> p \<notin> set (stale_dlist_entries h) \<and>
        (vc4_hvs_check_channel_active h (da_channel a) \<longrightarrow> cur (unat (da_channel a)) \<noteq> Some p)) \<Longrightarrow>
     hvs_step env (h, shown, cur) (h', shown, cur)"
| Frame: "c < 3 \<Longrightarrow> channel_on h c \<Longrightarrow> next_frame c h h' \<Longrightarrow>
     hvs_step env (h, shown, cur) (h', shown(c := Some (installed_start h c)), cur)"
| Irq: "\<not> gen6 (h_gen h) \<Longrightarrow> vc4_hvs_irq_handler h = Some (handled, h') \<Longrightarrow> hvs_step env (h, shown, cur) (h', shown, cur)"
| Irq6: "gen6 (h_gen h) \<Longrightarrow> vc6_hvs_eof_irq_handler irq h = Some (handled, h') \<Longrightarrow> hvs_step env (h, shown, cur) (h', shown, cur)"
| Work: "free_dlist_work h \<Longrightarrow> vc4_hvs_dlist_free_work h = Some h' \<Longrightarrow> hvs_step env (h, shown, cur) (h', shown, cur)"

lemma apart_sym: "apart m n \<Longrightarrow> apart n m" by (auto simp: apart_def)

subsection \<open>Every step keeps the invariant\<close>

lemma lists_invD:
  assumes "lists_inv h"
  shows "n \<in> set (dlist_nodes h) \<Longrightarrow> fst (dlist_range h) \<le> fst n \<and> fst n + snd n \<le> snd (dlist_range h) \<and> 0 < snd n"
    "m \<in> set (dlist_nodes h) \<Longrightarrow> n \<in> set (dlist_nodes h) \<Longrightarrow> m \<noteq> n \<Longrightarrow> apart m n"
    "dlist_allocs h p = Some a \<Longrightarrow> mm_node a = Some n \<Longrightarrow> n \<in> set (dlist_nodes h)"
    "dlist_allocs h p = Some a \<Longrightarrow> dlist_allocs h q = Some b \<Longrightarrow> mm_node a = Some n \<Longrightarrow> mm_node b = Some n \<Longrightarrow> p = q"
    "distinct (stale_dlist_entries h)"
    "p \<in> set (stale_dlist_entries h) \<Longrightarrow> \<exists>a n. dlist_allocs h p = Some a \<and> mm_node a = Some n \<and> dlist_programmed a \<and>
        da_channel a < 3 \<and> eof_enabled h ! unat (da_channel a)"
    "snd (dlist_range h) \<le> 4096" "HVS_BOOTLOADER_DLIST_END \<le> fst (dlist_range h)"
  using assms unfolding lists_inv_def by blast+

lemma lists_inv_cong:
  assumes "lists_inv h" "dlist_allocs h' = dlist_allocs h" "dlist_nodes h' = dlist_nodes h" "dlist_range h' = dlist_range h"
    "stale_dlist_entries h' = stale_dlist_entries h" "stale_dlist_entries h = [] \<or> eof_enabled h' = eof_enabled h"
  shows "lists_inv h'"
  using assms unfolding lists_inv_def by auto

lemma shown_inv_cong:
  assumes "shown_inv h shown cur" "same_view h h'" "dlist_allocs h' = dlist_allocs h" "stale_dlist_entries h' = stale_dlist_entries h"
  shows "shown_inv h' shown cur"
  using assms(1) unfolding shown_inv_def list_on_def same_viewD [OF assms(2)] assms(3,4) .

lemma eof_inv_cong:
  assumes "eof_inv h" "eof_enabled h' = eof_enabled h" "eof_desc h' = eof_desc h" "length (bg_fill h') = length (bg_fill h)" "h_gen h' = h_gen h"
    "irq_on h' = irq_on h" "\<And>c. c < 3 \<Longrightarrow> h_regs h' SCALER_DISPCTRL AND eof_bit (h_gen h) c = h_regs h SCALER_DISPCTRL AND eof_bit (h_gen h) c"
  shows "eof_inv h'"
  using assms unfolding eof_inv_def eof_hw_def by simp

text \<open>A register that neither the lists nor the interrupts depend on.\<close>
lemma hvs_inv_write:
  assumes "hvs_inv h shown cur" "r \<notin> list_regs" "r = SCALER_DISPCTRL \<Longrightarrow> \<forall>c < 3. v AND eof_bit (h_gen h) c = h_regs h r AND eof_bit (h_gen h) c"
  shows "hvs_inv (hvs_write r v h) shown cur"
  using assms unfolding hvs_inv_def
  by (auto intro!: lists_inv_cong [of h] shown_inv_cong [of h] eof_inv_cong [of h] same_view_write simp: h_regs_write)

lemma free_entry_Some:
  assumes "dlist_allocs h p = Some a"
  shows "vc4_hvs_free_dlist_entry_locked p h =
    Some (h\<lparr>stale_dlist_entries := filter (\<lambda>q. q \<noteq> p) (stale_dlist_entries h),
            dlist_nodes := (case mm_node a of None \<Rightarrow> dlist_nodes h | Some n \<Rightarrow> removeAll n (dlist_nodes h)),
            dlist_allocs := (dlist_allocs h)(p := None)\<rparr>)"
  using assms by (simp add: vc4_hvs_free_dlist_entry_locked_def)

lemma lists_inv_free:
  assumes inv: "lists_inv h" and free: "vc4_hvs_free_dlist_entry_locked p h = Some h'"
  shows "lists_inv h'"
proof -
  obtain a where a: "dlist_allocs h p = Some a" using free by (auto simp: vc4_hvs_free_dlist_entry_locked_def split: option.splits)
  let ?ns = "case mm_node a of None \<Rightarrow> dlist_nodes h | Some n \<Rightarrow> removeAll n (dlist_nodes h)"
  have h': "h' = h\<lparr>stale_dlist_entries := filter (\<lambda>q. q \<noteq> p) (stale_dlist_entries h), dlist_nodes := ?ns, dlist_allocs := (dlist_allocs h)(p := None)\<rparr>"
    using free_entry_Some [OF a] free by simp
  have sub: "set ?ns \<subseteq> set (dlist_nodes h)" by (auto split: option.splits)
  have keeps: "n \<in> set ?ns" if "dlist_allocs h q = Some b" "mm_node b = Some n" "q \<noteq> p" for q b n
    using lists_invD(3) [OF inv that(1,2)] lists_invD(4) [OF inv a that(1) _ that(2)] that(3) by (cases "mm_node a") auto
  show ?thesis unfolding lists_inv_def
  proof (intro conjI ballI allI impI)
    fix q b n assume "dlist_allocs h' q = Some b" "mm_node b = Some n"
    then show "n \<in> set (dlist_nodes h')" using keeps [of q b n] by (auto simp: h' split: if_splits)
  next
    fix q r b d n
    assume "dlist_allocs h' q = Some b" "dlist_allocs h' r = Some d" "mm_node b = Some n" "mm_node d = Some n"
    then show "q = r" using lists_invD(4) [OF inv, of q b r d n] by (auto simp: h' split: if_splits)
  next
    fix q assume "q \<in> set (stale_dlist_entries h')"
    then show "\<exists>a n. dlist_allocs h' q = Some a \<and> mm_node a = Some n \<and> dlist_programmed a \<and> da_channel a < 3 \<and> eof_enabled h' ! unat (da_channel a)"
      using lists_invD(6) [OF inv, of q] by (auto simp: h')
  next
    fix m n assume "m \<in> set (dlist_nodes h')" "n \<in> set (dlist_nodes h')" "m \<noteq> n"
    then show "apart m n" using lists_invD(2) [OF inv, of m n] sub by (auto simp: h')
  qed (use sub lists_invD(1,5,7,8) [OF inv] in \<open>auto simp: h'\<close>)
qed

lemma shown_inv_free:
  assumes inv: "shown_inv h shown cur" and free: "vc4_hvs_free_dlist_entry_locked p h = Some h'"
    and cur: "\<And>c. c < 3 \<Longrightarrow> channel_on h c \<Longrightarrow> cur c \<noteq> Some p"
    and shown: "\<And>c start q. c < 3 \<Longrightarrow> shown c = Some start \<Longrightarrow> list_on h c q start \<Longrightarrow>
      (q \<in> set (stale_dlist_entries h) \<longrightarrow> target_frame_count (the (dlist_allocs h q)) = (frame_count h c + 1) AND mask 6) \<Longrightarrow> q \<noteq> p"
  shows "shown_inv h' shown cur"
proof -
  obtain a where a: "dlist_allocs h p = Some a" using free by (auto simp: vc4_hvs_free_dlist_entry_locked_def split: option.splits)
  have v: "same_view h h'" using free a by (auto simp: vc4_hvs_free_dlist_entry_locked_def same_view_def)
  have f: "stale_dlist_entries h' = filter (\<lambda>q. q \<noteq> p) (stale_dlist_entries h)" "dlist_allocs h' = (dlist_allocs h)(p := None)"
    using free a by (auto simp: vc4_hvs_free_dlist_entry_locked_def)
  have on: "list_on h' c q s \<longleftrightarrow> list_on h c q s \<and> q \<noteq> p" for c q s by (auto simp: list_on_def f)
  show ?thesis unfolding shown_inv_def
  proof (intro allI impI conjI)
    fix c :: nat assume c: "c < 3"
    { assume "channel_on h' c"
      then have ch: "channel_on h c" using same_viewD(2) [OF v] by simp
      then obtain q where "cur c = Some q" "q \<notin> set (stale_dlist_entries h)" "list_on h c q (installed_start h c)"
        using inv c unfolding shown_inv_def by blast
      then show "\<exists>q. cur c = Some q \<and> q \<notin> set (stale_dlist_entries h') \<and> list_on h' c q (installed_start h' c)"
        using cur [OF c ch] by (auto simp: on f(1) same_viewD(1) [OF v]) }
    fix start assume s: "shown c = Some start"
    then show "channel_on h' c" using inv c same_viewD(2) [OF v] unfolding shown_inv_def by blast
    obtain q where q: "list_on h c q start"
      "q \<in> set (stale_dlist_entries h) \<longrightarrow> target_frame_count (the (dlist_allocs h q)) = (frame_count h c + 1) AND mask 6"
      using inv c s unfolding shown_inv_def by blast
    then have "q \<noteq> p" using shown [OF c s] by blast
    with q show "\<exists>q. list_on h' c q start \<and> (q \<in> set (stale_dlist_entries h') \<longrightarrow>
        target_frame_count (the (dlist_allocs h' q)) = (frame_count h' c + 1) AND mask 6)"
      by (intro exI [of _ q]) (auto simp: on f same_viewD(3) [OF v])
  qed
qed

lemma eof_inv_free: "eof_inv h \<Longrightarrow> vc4_hvs_free_dlist_entry_locked p h = Some h' \<Longrightarrow> eof_inv h'"
  by (rule eof_inv_cong [of h]) (auto simp: vc4_hvs_free_dlist_entry_locked_def split: option.splits)

lemma free_entry_frame:
  assumes "vc4_hvs_free_dlist_entry_locked p h = Some h'"
  shows "same_view h h'" "h_gone h' = h_gone h" "stale_dlist_entries h' = filter (\<lambda>q. q \<noteq> p) (stale_dlist_entries h)"
    "dlist_allocs h' = (dlist_allocs h)(p := None)"
  using assms by (auto simp: vc4_hvs_free_dlist_entry_locked_def same_view_def split: option.splits)

subsubsection \<open>The sweep\<close>

text \<open>The entries that the sweep frees.\<close>
definition due :: "(u32 \<Rightarrow> bool) \<Rightarrow> (u32 \<Rightarrow> u8) \<Rightarrow> dlist_allocation \<Rightarrow> bool" where
  "due active frcnt a \<longleftrightarrow> \<not> (active (da_channel a) \<and> \<not> vc4_hvs_frcnt_lte (target_frame_count a) (frcnt (da_channel a)))"

lemma hvs_inv_free_due:
  assumes inv: "hvs_inv h shown cur" and p: "p \<in> set (stale_dlist_entries h)" and a: "dlist_allocs h p = Some a"
    and due: "due (vc4_hvs_check_channel_active h) (vc4_hvs_get_fifo_frame_count h) a"
    and free: "vc4_hvs_free_dlist_entry_locked p h = Some h'"
  shows "hvs_inv h' shown cur"
proof -
  have si: "shown_inv h shown cur" using inv by (simp add: hvs_inv_def)
  have "shown_inv h' shown cur"
  proof (rule shown_inv_free [OF si free])
    show "cur c \<noteq> Some p" if "c < 3" "channel_on h c" for c using si that p unfolding shown_inv_def by auto
    fix c start q
    assume *: "c < 3" "shown c = Some start" "list_on h c q start"
      "q \<in> set (stale_dlist_entries h) \<longrightarrow> target_frame_count (the (dlist_allocs h q)) = (frame_count h c + 1) AND mask 6"
    show "q \<noteq> p"
    proof
      assume q: "q = p"
      have "channel_on h c" using si *(1,2) unfolding shown_inv_def by blast
      moreover have "da_channel a = of_nat c" using *(3) a by (auto simp: list_on_def q)
      moreover have "target_frame_count a = (frame_count h c + 1) AND mask 6" using *(4) p a by (simp add: q)
      ultimately show False using due frcnt_next_not_lte by (simp add: due_def)
    qed
  qed
  moreover have "lists_inv h'" "eof_inv h'" "\<not> h_gone h'"
    using inv lists_inv_free [OF _ free] eof_inv_free [OF _ free] free_entry_frame(2) [OF free] by (simp_all add: hvs_inv_def)
  ultimately show ?thesis by (simp add: hvs_inv_def)
qed

lemma sweep_loop_frees:
  assumes "hvs_inv h shown cur" "distinct ps" "set ps \<subseteq> set (stale_dlist_entries h)"
    "active = vc4_hvs_check_channel_active h" "frcnt = vc4_hvs_get_fifo_frame_count h"
  shows "\<exists>h'. sweep_loop active frcnt ps h = Some h' \<and> hvs_inv h' shown cur \<and> same_view h h' \<and>
    stale_dlist_entries h' = filter (\<lambda>p. p \<in> set ps \<longrightarrow> \<not> due active frcnt (the (dlist_allocs h p))) (stale_dlist_entries h) \<and>
    (\<forall>p. dlist_allocs h' p = (if p \<in> set ps \<and> due active frcnt (the (dlist_allocs h p)) then None else dlist_allocs h p))"
  using assms
proof (induction ps arbitrary: h)
  case (Cons p ps)
  obtain a where a: "dlist_allocs h p = Some a" "da_channel a < 3"
    using Cons.prems(1,3) unfolding hvs_inv_def lists_inv_def by auto
  show ?case
  proof (cases "due active frcnt a")
    case False
    then have "sweep_loop active frcnt (p # ps) h = sweep_loop active frcnt ps h" using a by (auto simp: due_def)
    moreover obtain h' where "sweep_loop active frcnt ps h = Some h'" "hvs_inv h' shown cur" "same_view h h'"
      "stale_dlist_entries h' = filter (\<lambda>p. p \<in> set ps \<longrightarrow> \<not> due active frcnt (the (dlist_allocs h p))) (stale_dlist_entries h)"
      "\<forall>p. dlist_allocs h' p = (if p \<in> set ps \<and> due active frcnt (the (dlist_allocs h p)) then None else dlist_allocs h p)"
      using Cons.IH [OF Cons.prems(1)] Cons.prems(2-5) by auto
    ultimately show ?thesis using False a by (intro exI [of _ h']) (auto intro!: filter_cong)
  next
    case True
    obtain h1 where h1: "vc4_hvs_free_dlist_entry_locked p h = Some h1" using free_entry_Some [OF a(1)] by simp
    note fr = free_entry_frame [OF h1]
    have inv1: "hvs_inv h1 shown cur"
      using hvs_inv_free_due [OF Cons.prems(1) _ a(1) _ h1] True Cons.prems(3-5) by simp
    have views: "active = vc4_hvs_check_channel_active h1" "frcnt = vc4_hvs_get_fifo_frame_count h1"
      using Cons.prems(4,5) fr(1) unfolding same_view_def
      by (auto simp: fun_eq_iff vc4_hvs_check_channel_active_def vc4_hvs_get_fifo_frame_count_def list_regs_def split: vc4_gen.split)
    have sub: "set ps \<subseteq> set (stale_dlist_entries h1)" "distinct ps" using Cons.prems(2,3) by (auto simp: fr(3))
    obtain h' where h': "sweep_loop active frcnt ps h1 = Some h'" "hvs_inv h' shown cur" "same_view h1 h'"
      "stale_dlist_entries h' = filter (\<lambda>p. p \<in> set ps \<longrightarrow> \<not> due active frcnt (the (dlist_allocs h1 p))) (stale_dlist_entries h1)"
      "\<forall>p. dlist_allocs h' p = (if p \<in> set ps \<and> due active frcnt (the (dlist_allocs h1 p)) then None else dlist_allocs h1 p)"
      using Cons.IH [OF inv1 sub(2,1) views] by auto
    have "sweep_loop active frcnt (p # ps) h = Some h'" using a True h1 h'(1) by (auto simp: due_def)
    moreover have "stale_dlist_entries h' =
        filter (\<lambda>q. q \<in> set (p # ps) \<longrightarrow> \<not> due active frcnt (the (dlist_allocs h q))) (stale_dlist_entries h)"
      unfolding h'(4) fr(3,4) filter_filter using a True Cons.prems(2) by (intro filter_cong) auto
    ultimately show ?thesis using h'(2,3,5) same_view_trans [OF fr(1)] a True Cons.prems(2) by (intro exI [of _ h']) (auto simp: fr(4))
  qed
qed simp

subsubsection \<open>Allocating\<close>

lemma list_on_alloc:
  assumes "dlist_allocs h p = None" "\<And>q. q \<noteq> p \<Longrightarrow> dlist_allocs h' q = dlist_allocs h q"
  shows "list_on h c q start \<Longrightarrow> list_on h' c q start"
  using assms by (cases "q = p") (auto simp: list_on_def)

lemma shown_inv_alloc:
  assumes inv: "shown_inv h shown cur" and "same_view h h'" "stale_dlist_entries h' = stale_dlist_entries h" "dlist_allocs h p = None"
    and q: "\<And>q. q \<noteq> p \<Longrightarrow> dlist_allocs h' q = dlist_allocs h q"
  shows "shown_inv h' shown cur"
proof -
  have "the (dlist_allocs h' q) = the (dlist_allocs h q)" if "list_on h c q start" for c q start
    using assms(4) q that by (cases "q = p") (auto simp: list_on_def)
  then show ?thesis
    using inv list_on_alloc [OF assms(4) q] unfolding shown_inv_def same_viewD [OF assms(2)] assms(3) by metis
qed

lemma lists_inv_new:
  assumes inv: "lists_inv h" and p: "dlist_allocs h p = None"
  shows "lists_inv (h\<lparr>dlist_allocs := (dlist_allocs h)(p \<mapsto> new_allocation)\<rparr>)"
  unfolding lists_inv_def
proof (intro conjI allI impI ballI)
  fix q assume "q \<in> set (stale_dlist_entries (h\<lparr>dlist_allocs := (dlist_allocs h)(p \<mapsto> new_allocation)\<rparr>))"
  then show "\<exists>a n. dlist_allocs (h\<lparr>dlist_allocs := (dlist_allocs h)(p \<mapsto> new_allocation)\<rparr>) q = Some a \<and> mm_node a = Some n \<and> dlist_programmed a \<and>
      da_channel a < 3 \<and> eof_enabled (h\<lparr>dlist_allocs := (dlist_allocs h)(p \<mapsto> new_allocation)\<rparr>) ! unat (da_channel a)"
    using lists_invD(6) [OF inv, of q] p by auto
next
  fix q r a b n
  assume "dlist_allocs (h\<lparr>dlist_allocs := (dlist_allocs h)(p \<mapsto> new_allocation)\<rparr>) q = Some a"
    "dlist_allocs (h\<lparr>dlist_allocs := (dlist_allocs h)(p \<mapsto> new_allocation)\<rparr>) r = Some b" "mm_node a = Some n" "mm_node b = Some n"
  then show "q = r" using lists_invD(4) [OF inv, of q a r b n] by (auto simp: new_allocation_def split: if_splits)
next
  fix q a n
  assume "dlist_allocs (h\<lparr>dlist_allocs := (dlist_allocs h)(p \<mapsto> new_allocation)\<rparr>) q = Some a" "mm_node a = Some n"
  then show "n \<in> set (dlist_nodes (h\<lparr>dlist_allocs := (dlist_allocs h)(p \<mapsto> new_allocation)\<rparr>))"
    using lists_invD(3) [OF inv, of q a n] by (auto simp: new_allocation_def split: if_splits)
qed (use lists_invD(1,2,5,7,8) [OF inv] in auto)

lemma lists_inv_place:
  assumes inv: "lists_inv h" and p: "dlist_allocs h p = Some new_allocation" and n: "0 < snd n"
    and rng: "fst (dlist_range h) \<le> fst n" "fst n + snd n \<le> snd (dlist_range h)" and free: "\<forall>m\<in>set (dlist_nodes h). apart m n"
  shows "lists_inv (place_node p n ch h)"
proof -
  let ?h = "place_node p n ch h"
  have new: "n \<notin> set (dlist_nodes h)" using free n by (auto simp: apart_def)
  have h: "dlist_nodes ?h = dlist_nodes h @ [n]" "stale_dlist_entries ?h = stale_dlist_entries h" "eof_enabled ?h = eof_enabled h"
    "dlist_allocs ?h = (dlist_allocs h)(p \<mapsto> new_allocation\<lparr>mm_node := Some n, da_channel := ch\<rparr>)" "dlist_range ?h = dlist_range h"
    by (simp_all add: place_node_def)
  show ?thesis unfolding lists_inv_def h
  proof (intro conjI allI impI ballI)
    fix q assume q: "q \<in> set (stale_dlist_entries h)"
    then have "q \<noteq> p" using lists_invD(6) [OF inv q] p by (auto simp: new_allocation_def)
    then show "\<exists>a m. ((dlist_allocs h)(p \<mapsto> new_allocation\<lparr>mm_node := Some n, da_channel := ch\<rparr>)) q = Some a \<and> mm_node a = Some m \<and>
        dlist_programmed a \<and> da_channel a < 3 \<and> eof_enabled h ! unat (da_channel a)"
      using lists_invD(6) [OF inv q] by simp
  next
    fix q r a b m
    assume "((dlist_allocs h)(p \<mapsto> new_allocation\<lparr>mm_node := Some n, da_channel := ch\<rparr>)) q = Some a"
      "((dlist_allocs h)(p \<mapsto> new_allocation\<lparr>mm_node := Some n, da_channel := ch\<rparr>)) r = Some b" "mm_node a = Some m" "mm_node b = Some m"
    then show "q = r"
      using lists_invD(4) [OF inv, of q a r b m] lists_invD(3) [OF inv, of _ _ n] new by (auto split: if_splits)
  next
    fix q a m
    assume "((dlist_allocs h)(p \<mapsto> new_allocation\<lparr>mm_node := Some n, da_channel := ch\<rparr>)) q = Some a" "mm_node a = Some m"
    then show "m \<in> set (dlist_nodes h @ [n])" using lists_invD(3) [OF inv, of q a m] by (auto split: if_splits)
  next
    fix k m assume "k \<in> set (dlist_nodes h @ [n])" "m \<in> set (dlist_nodes h @ [n])" "k \<noteq> m"
    then show "apart k m" using lists_invD(2) [OF inv, of k m] free by (auto intro: apart_sym)
  qed (use lists_invD(1,5,7,8) [OF inv] n rng in auto)
qed

lemma hvs_inv_check:
  assumes inv: "hvs_inv h shown cur" and env: "mm_sound env"
    and check: "vc4_hvs_atomic_check env mem planes s h = Some (r, s', h')"
    and mem: "\<And>p. mem = Some p \<Longrightarrow> dlist_allocs h p = None" and n: "planes_dlist_count planes \<noteq> 0"
    and fits: "(\<exists>start. insert_node env (unat (planes_dlist_count planes)) h = Inr start) \<or> stale_dlist_entries h = []"
  shows "hvs_inv h' shown cur"
proof (cases "h' = h")
  case False
  let ?n = "unat (planes_dlist_count planes)"
  obtain p where p: "mem = Some p" and ch: "s_channel s \<noteq> VC4_HVS_CHANNEL_DISABLED"
    using check False by (auto simp: vc4_hvs_atomic_check_def vc4_hvs_alloc_dlist_entry_def split: if_splits option.splits)
  let ?h0 = "h\<lparr>dlist_allocs := (dlist_allocs h)(p \<mapsto> new_allocation)\<rparr>"
  have fresh: "dlist_allocs h p = None" using mem p by simp
  have ins: "insert_node env ?n ?h0 = insert_node env ?n h" by (simp add: insert_node_def)
  have h': "h' = ?h0 \<or> (\<exists>start. insert_node env ?n h = Inr start \<and> h' = place_node p (start, ?n) (s_channel s) ?h0)"
    using check False p ch fits ins
    by (auto simp: vc4_hvs_atomic_check_def vc4_hvs_alloc_dlist_entry_def Let_def split: if_splits sum.splits option.splits)
  have l0: "lists_inv ?h0" using inv fresh by (simp add: hvs_inv_def lists_inv_new)
  have "lists_inv h'"
    using h'
  proof
    assume "\<exists>start. insert_node env ?n h = Inr start \<and> h' = place_node p (start, ?n) (s_channel s) ?h0"
    then obtain start where st: "insert_node env ?n h = Inr start" "h' = place_node p (start, ?n) (s_channel s) ?h0" by blast
    then have "fst (dlist_range h) \<le> start" "start + ?n \<le> snd (dlist_range h)" "\<forall>m\<in>set (dlist_nodes h). apart m (start, ?n)"
      using env unfolding mm_sound_def insert_node_def by blast+
    moreover have "0 < ?n" using n by (simp add: unat_gt_0)
    ultimately show "lists_inv h'" unfolding st(2) using l0 by (intro lists_inv_place) auto
  qed (use l0 in simp)
  moreover have fr: "same_view h h'" "stale_dlist_entries h' = stale_dlist_entries h" "h_gone h' = h_gone h" "eof_enabled h' = eof_enabled h"
      "eof_desc h' = eof_desc h" "bg_fill h' = bg_fill h" "h_gen h' = h_gen h" "irq_on h' = irq_on h" "h_regs h' = h_regs h"
      "\<And>q. q \<noteq> p \<Longrightarrow> dlist_allocs h' q = dlist_allocs h q"
    using h' by (auto simp: place_node_def same_view_def)
  moreover have "shown_inv h' shown cur"
    using inv unfolding hvs_inv_def by (intro shown_inv_alloc [OF _ fr(1,2) fresh fr(10)]) simp_all
  moreover have "eof_inv h'" "\<not> h_gone h'"
    using inv unfolding hvs_inv_def by (auto simp: fr intro: eof_inv_cong [of h])
  ultimately show ?thesis by (simp add: hvs_inv_def)
qed (use inv in simp)

subsubsection \<open>Interrupts\<close>

lemma less_3_cases: "(c :: nat) < 3 \<Longrightarrow> (c = 0 \<Longrightarrow> P) \<Longrightarrow> (c = 1 \<Longrightarrow> P) \<Longrightarrow> (c = 2 \<Longrightarrow> P) \<Longrightarrow> P"
  by (auto simp: numeral_3_eq_3 less_Suc_eq)

lemma unat_less_3: "(w :: u32) < 3 \<Longrightarrow> unat w < 3"
  by (simp add: word_less_nat_alt)

lemma eof_bit_nonzero: "c < 3 \<Longrightarrow> eof_bit g c \<noteq> 0"
  by (erule less_3_cases) (simp_all add: eof_bit_def SCALER_DISPCTRL_DSPEIEOF_def SCALER5_DISPCTRL_DSPEIEOF_def BIT_def)

lemma eof_bits_disjoint: "c < 3 \<Longrightarrow> c' < 3 \<Longrightarrow> c \<noteq> c' \<Longrightarrow> eof_bit g c AND eof_bit g c' = 0"
  by (erule less_3_cases; erule less_3_cases) (simp_all add: eof_bit_def SCALER_DISPCTRL_DSPEIEOF_def SCALER5_DISPCTRL_DSPEIEOF_def BIT_def)

lemma slur_eof_disjoint: "\<not> gen6 g \<Longrightarrow> c < 3 \<Longrightarrow> c' < 3 \<Longrightarrow> slur_bit g c AND eof_bit g c' = 0"
  by (cases g; erule less_3_cases; erule less_3_cases) (simp_all add: gen6_def eof_bit_def slur_bit_def SCALER_DISPCTRL_DSPEIEOF_def
      SCALER5_DISPCTRL_DSPEIEOF_def SCALER_DISPCTRL_DSPEISLUR_def SCALER5_DISPCTRL_DSPEISLUR_def BIT_def)

lemma and_not_disjoint: "s AND e = 0 \<Longrightarrow> (w AND NOT s) AND e = w AND (e :: u32)"
  by (rule bit_word_eqI) (auto simp: bit_and_iff bit_not_iff dest: arg_cong [where f = "\<lambda>x. bit x _"])

text \<open>What the interrupt code changes.\<close>
definition irq_change :: "vc4_hvs \<Rightarrow> vc4_hvs \<Rightarrow> bool" where
  "irq_change h h' \<longleftrightarrow> same_view h h' \<and> dlist_allocs h' = dlist_allocs h \<and> dlist_nodes h' = dlist_nodes h \<and> dlist_range h' = dlist_range h \<and>
     stale_dlist_entries h' = stale_dlist_entries h \<and> h_dlist h' = h_dlist h"

lemma DISPCTRL_not_list: "SCALER_DISPCTRL \<notin> list_regs" "SCALER_DISPSTAT \<notin> list_regs" by (auto simp: list_regs_def)

lemma irq_enable_eof:
  assumes inv: "eof_inv h" and c: "unat ch < 3"
  shows "\<exists>h'. vc4_hvs_irq_enable_eof ch h = Some h' \<and> eof_inv h' \<and> irq_change h h' \<and> eof_enabled h' = (eof_enabled h)[unat ch := True]"
proof (cases "eof_enabled h ! unat ch")
  case True
  then have "(eof_enabled h)[unat ch := True] = eof_enabled h" by (metis (full_types) list_update_id)
  then show ?thesis using inv c True by (auto simp: vc4_hvs_irq_enable_eof_def eof_inv_def irq_change_def)
next
  case False
  let ?h = "if gen6 (h_gen h) then h\<lparr>irq_on := (irq_on h)(eof_desc h ! unat ch := True)\<rparr>
    else hvs_write SCALER_DISPCTRL (h_regs h SCALER_DISPCTRL OR eof_bit (h_gen h) (unat ch)) h"
  let ?h' = "?h\<lparr>eof_enabled := (eof_enabled h)[unat ch := True]\<rparr>"
  have res: "vc4_hvs_irq_enable_eof ch h = Some ?h'" using False c inv by (simp add: vc4_hvs_irq_enable_eof_def eof_inv_def Let_def)
  have "eof_hw ?h' c'" if "c' < 3" "(eof_enabled h)[unat ch := True] ! c'" for c'
  proof (cases "c' = unat ch")
    case True
    have "(w OR b) AND b = b" for w b :: u32 by (simp add: bit.conj_disj_distrib2)
    then show ?thesis using True c eof_bit_nonzero [OF that(1)] by (simp add: eof_hw_def h_regs_write)
  next
    case False
    then have "eof_hw h c'" using inv that by (auto simp: eof_inv_def)
    then show ?thesis by (auto simp: eof_hw_def h_regs_write bit.conj_disj_distrib2 or_eq_0_iff)
  qed
  then have "eof_inv ?h'" using inv by (auto simp: eof_inv_def)
  moreover have "irq_change h ?h'" by (auto simp: irq_change_def same_view_def h_regs_write list_regs_def)
  ultimately show ?thesis using res by (intro exI [of _ ?h']) auto
qed

lemma irq_clear_eof:
  assumes inv: "eof_inv h" and c: "unat ch < 3"
  shows "\<exists>h'. vc4_hvs_irq_clear_eof ch h = Some h' \<and> eof_inv h' \<and> irq_change h h' \<and> h_gen h' = h_gen h"
proof (cases "eof_enabled h ! unat ch")
  case False
  then show ?thesis using inv c by (auto simp: vc4_hvs_irq_clear_eof_def eof_inv_def irq_change_def)
next
  case True
  let ?h = "if gen6 (h_gen h) then h\<lparr>irq_on := (irq_on h)(eof_desc h ! unat ch := False)\<rparr>
    else hvs_write SCALER_DISPCTRL (h_regs h SCALER_DISPCTRL AND NOT (eof_bit (h_gen h) (unat ch))) h"
  let ?h' = "?h\<lparr>eof_enabled := (eof_enabled h)[unat ch := False]\<rparr>"
  have res: "vc4_hvs_irq_clear_eof ch h = Some ?h'" using True c inv by (simp add: vc4_hvs_irq_clear_eof_def eof_inv_def Let_def)
  have "eof_hw ?h' c'" if "c' < 3" "(eof_enabled h)[unat ch := False] ! c'" for c'
  proof -
    have "c' \<noteq> unat ch" using that c inv by (auto simp: eof_inv_def)
    moreover from this have "eof_hw h c'" using inv that by (auto simp: eof_inv_def)
    moreover from this have "gen6 (h_gen h) \<Longrightarrow> eof_desc h ! c' \<noteq> eof_desc h ! unat ch"
      using inv that(1) c \<open>c' \<noteq> unat ch\<close> by (auto simp: eof_inv_def nth_eq_iff_index_eq)
    ultimately show ?thesis using and_not_disjoint [OF eof_bits_disjoint [OF c that(1)]] by (auto simp: eof_hw_def h_regs_write)
  qed
  then have "eof_inv ?h'" using inv by (auto simp: eof_inv_def)
  moreover have "irq_change h ?h'" by (auto simp: irq_change_def same_view_def h_regs_write list_regs_def)
  ultimately show ?thesis using res by (intro exI [of _ ?h']) auto
qed

lemma hvs_inv_irq_change:
  assumes "hvs_inv h shown cur" "irq_change h h'" "eof_inv h'" "stale_dlist_entries h = [] \<or> eof_enabled h' = eof_enabled h"
  shows "hvs_inv h' shown cur"
  using assms lists_inv_cong [of h h'] shown_inv_cong [of h shown cur h'] unfolding hvs_inv_def irq_change_def same_view_def by auto

lemma hvs_inv_schedule:
  assumes inv: "hvs_inv h shown cur" and c: "c < 3"
  shows "\<exists>h'. vc4_hvs_schedule_dlist_sweep (of_nat c) h = Some h' \<and> hvs_inv h' shown cur \<and> irq_change h h' \<and>
    (stale_dlist_entries h \<noteq> [] \<longrightarrow> free_dlist_work h')"
proof (cases "stale_dlist_entries h = []")
  case True
  have "unat (of_nat c :: u32) < 3" using c by (simp add: unat_of_nat take_bit_eq_mod)
  then obtain h' where "vc4_hvs_irq_clear_eof (of_nat c) h = Some h'" "eof_inv h'" "irq_change h h'"
    using irq_clear_eof [of h "of_nat c"] inv by (auto simp: hvs_inv_def)
  then show ?thesis using True hvs_inv_irq_change [OF inv] by (auto simp: vc4_hvs_schedule_dlist_sweep_def)
next
  case False
  let ?h = "h\<lparr>free_dlist_work := True\<rparr>"
  have "irq_change h ?h" by (simp add: irq_change_def same_view_def)
  moreover from this have "hvs_inv ?h shown cur"
    using hvs_inv_irq_change [OF inv, of ?h] eof_inv_cong [of h ?h] inv by (simp add: hvs_inv_def)
  ultimately show ?thesis using False by (simp add: vc4_hvs_schedule_dlist_sweep_def)
qed

lemma irq_loop_inv:
  assumes "hvs_inv h shown cur" "\<not> gen6 (h_gen h)" "set cs \<subseteq> {..<3}"
  shows "\<exists>handled' h'. irq_loop status control cs handled h = Some (handled', h') \<and> hvs_inv h' shown cur \<and> irq_change h h' \<and>
    (stale_dlist_entries h \<noteq> [] \<and> (free_dlist_work h \<or> (\<exists>c\<in>set cs. status AND SCALER_DISPSTAT_EOF c \<noteq> 0)) \<longrightarrow> free_dlist_work h')"
  using assms
proof (induction cs arbitrary: handled h)
  case (Cons c cs)
  have c: "c < 3" using Cons.prems(3) by simp
  define under where "under \<longleftrightarrow> status AND SCALER_DISPSTAT_EUFLOW c \<noteq> 0 \<and> control AND slur_bit (h_gen h) c \<noteq> 0"
  define h1 where "h1 = (if under then vc4_hvs_report_underrun (vc4_hvs_mask_underrun c h) else h)"
  have m: "hvs_inv (vc4_hvs_mask_underrun c h) shown cur"
    using Cons.prems(1,2) hvs_inv_write [OF Cons.prems(1), of SCALER_DISPCTRL] and_not_disjoint slur_eof_disjoint [OF Cons.prems(2) c]
    by (auto simp: vc4_hvs_mask_underrun_def DISPCTRL_not_list)
  let ?m = "vc4_hvs_mask_underrun c h"
  have ch1: "irq_change h h1" "h_gen h1 = h_gen h" "free_dlist_work h1 = free_dlist_work h"
    by (auto simp: h1_def vc4_hvs_report_underrun_def vc4_hvs_mask_underrun_def irq_change_def same_view_def h_regs_write list_regs_def)
  have "hvs_inv (vc4_hvs_report_underrun ?m) shown cur"
    using hvs_inv_irq_change [OF m, of "vc4_hvs_report_underrun ?m"] eof_inv_cong [of ?m "vc4_hvs_report_underrun ?m"] m
    by (auto simp: vc4_hvs_report_underrun_def irq_change_def same_view_def hvs_inv_def)
  then have inv1: "hvs_inv h1 shown cur" using Cons.prems(1) by (simp add: h1_def)
  have trans: "irq_change h1 h2 \<Longrightarrow> irq_change h h2" for h2
    using ch1(1) unfolding irq_change_def by (auto intro: same_view_trans)
  have st: "stale_dlist_entries h1 = stale_dlist_entries h" using ch1(1) by (simp add: irq_change_def)
  show ?case
  proof (cases "status AND SCALER_DISPSTAT_EOF c = 0")
    case True
    then have "irq_loop status control (c # cs) handled h = irq_loop status control cs (handled \<or> under) h1"
      by (simp add: under_def h1_def Let_def)
    then show ?thesis using Cons.IH [OF inv1, of "handled \<or> under"] Cons.prems(2,3) ch1 True trans st by auto
  next
    case False
    obtain h2 where h2: "vc4_hvs_schedule_dlist_sweep (of_nat c) h1 = Some h2" "hvs_inv h2 shown cur" "irq_change h1 h2"
      "stale_dlist_entries h1 \<noteq> [] \<longrightarrow> free_dlist_work h2"
      using hvs_inv_schedule [OF inv1 c] by blast
    then have "irq_loop status control (c # cs) handled h = irq_loop status control cs True h2"
      using False by (simp add: under_def h1_def Let_def)
    moreover have "h_gen h2 = h_gen h" "stale_dlist_entries h2 = stale_dlist_entries h"
      using h2(3) ch1 by (auto simp: irq_change_def same_view_def)
    moreover have "irq_change h2 h3 \<Longrightarrow> irq_change h h3" for h3
      using h2(3) trans unfolding irq_change_def by (auto intro: same_view_trans)
    ultimately show ?thesis using Cons.IH [OF h2(2), of True] Cons.prems(2,3) h2(4) st by auto
  qed
qed (simp add: irq_change_def)

lemma hvs_inv_irq_handler:
  assumes "hvs_inv h shown cur" "\<not> gen6 (h_gen h)"
  shows "\<exists>handled h'. vc4_hvs_irq_handler h = Some (handled, h') \<and> hvs_inv h' shown cur \<and> irq_change h h' \<and>
    (stale_dlist_entries h \<noteq> [] \<and> (\<exists>c < 3. h_regs h SCALER_DISPSTAT AND SCALER_DISPSTAT_EOF c \<noteq> 0) \<longrightarrow> free_dlist_work h')"
proof -
  obtain handled h1 where h1: "irq_loop (h_regs h SCALER_DISPSTAT) (h_regs h SCALER_DISPCTRL) [0..<SCALER_CHANNELS_COUNT] False h = Some (handled, h1)"
    "hvs_inv h1 shown cur" "irq_change h h1"
    "stale_dlist_entries h \<noteq> [] \<and> (free_dlist_work h \<or> (\<exists>c\<in>set [0..<SCALER_CHANNELS_COUNT]. h_regs h SCALER_DISPSTAT AND SCALER_DISPSTAT_EOF c \<noteq> 0)) \<longrightarrow>
      free_dlist_work h1"
    using irq_loop_inv [OF assms, of "[0..<SCALER_CHANNELS_COUNT]"] by (fastforce simp: SCALER_CHANNELS_COUNT_def)
  then show ?thesis using hvs_inv_write [OF h1(2), of SCALER_DISPSTAT]
    by (auto simp: vc4_hvs_irq_handler_def DISPCTRL_not_list irq_change_def SCALER_CHANNELS_COUNT_def intro: same_view_trans [OF _ same_view_write])
qed

lemma hvs_inv_eof_irq_handler:
  assumes inv: "hvs_inv h shown cur"
  shows "\<exists>handled h'. vc6_hvs_eof_irq_handler irq h = Some (handled, h') \<and> hvs_inv h' shown cur \<and>
    (stale_dlist_entries h \<noteq> [] \<and> (\<exists>c < 3. eof_enabled h ! c \<and> eof_desc h ! c = irq) \<longrightarrow> free_dlist_work h')"
proof (cases "List.find (\<lambda>i. eof_enabled h ! i \<and> eof_desc h ! i = irq) [0..<HVS_NUM_CHANNELS]")
  case None
  then have "\<not> (\<exists>c < 3. eof_enabled h ! c \<and> eof_desc h ! c = irq)" by (auto simp: find_None_iff HVS_NUM_CHANNELS_def)
  with None show ?thesis using inv by (intro exI [of _ False] exI [of _ h]) (auto simp: vc6_hvs_eof_irq_handler_def)
next
  case (Some i)
  then have i: "i < 3" using find_SomeD [OF Some] by (auto simp: HVS_NUM_CHANNELS_def)
  let ?h1 = "hvs_write (SCALER6_DISPX_CTRL1 i) (if bg_fill h ! i then h_regs h (SCALER6_DISPX_CTRL1 i) OR BIT 8 else h_regs h (SCALER6_DISPX_CTRL1 i) AND NOT (BIT 8)) h"
  have "hvs_inv ?h1 shown cur" by (rule hvs_inv_write [OF inv]) (auto simp: list_regs_def)
  then show ?thesis using hvs_inv_schedule [of ?h1 shown cur i] i Some by (auto simp: vc6_hvs_eof_irq_handler_def Let_def)
qed

end
