(* ===== verification/Vc4_Hvs_Run.thy ===== *)
theory Vc4_Hvs_Run
  imports Vc4_Hvs_Laws
begin

text \<open>
  The display lists of the HVS in every reachable state: installing a list, switching a channel, the end of a state and a new frame keep
  the invariant, it holds when the driver is bound, and the list a channel reads is never given to anybody else.
\<close>

subsubsection \<open>Installing a list\<close>

lemma hvs_inv_writes:
  assumes "hvs_inv h shown cur" "fst ` set ws \<inter> list_regs = {}" "SCALER_DISPCTRL \<notin> fst ` set ws"
  shows "hvs_inv (hvs_writes ws h) shown cur"
  using assms
proof (induction ws arbitrary: h)
  case (Cons w ws)
  obtain r v where w: "w = (r, v)" by fastforce
  have "hvs_inv (hvs_write r v h) shown cur" using Cons.prems w by (intro hvs_inv_write) auto
  then show ?case using Cons.IH Cons.prems(2,3) w by simp
qed simp

lemma hvs_inv_lut_load:
  assumes "hvs_inv h shown cur" "vc4_hvs_lut_load crtc s h = Some h'"
  shows "hvs_inv h' shown cur"
proof -
  have "h' = h \<or> (\<exists>ws. h' = hvs_writes ws h \<and> fst ` set ws \<subseteq> {SCALER_GAMADDR, SCALER_GAMDATA})"
    using assms(2) unfolding vc4_hvs_lut_load_def by (simp only: split: if_splits) (force simp del: hvs_writes_simps)+
  moreover have "hvs_inv (hvs_writes ws h) shown cur" if "fst ` set ws \<subseteq> {SCALER_GAMADDR, SCALER_GAMDATA}" for ws
    using that by (intro hvs_inv_writes [OF assms(1)]) (auto simp: list_regs_def)
  ultimately show ?thesis using assms(1) by auto
qed

lemma hvs_inv_flush_gamma:
  assumes "hvs_inv h shown cur" "flush_gamma env s crtc h = Some (crtc', h')"
  shows "hvs_inv h' shown cur"
proof -
  have bk: "hvs_inv (hvs_write (SCALER_DISPBKGNDX c) v h2) shown cur" if "hvs_inv h2 shown cur" for c v h2
    using hvs_inv_write [OF that, of "SCALER_DISPBKGNDX c" v] by (auto simp: list_regs_def)
  have "h' = h \<or> (\<exists>h2 c v. hvs_inv h2 shown cur \<and> h' = hvs_write (SCALER_DISPBKGNDX c) v h2)"
    using assms hvs_inv_lut_load [OF assms(1)]
    by (auto simp: flush_gamma_def vc4_hvs_update_gamma_lut_def Let_def split: if_splits option.splits) blast+
  then show ?thesis using bk assms(1) by auto
qed

text \<open>The memory of the lists and the fill flags of the channels are not part of the invariant.\<close>
lemma hvs_inv_memory:
  assumes "hvs_inv h shown cur" "length f = length (bg_fill h)"
  shows "hvs_inv (h\<lparr>h_dlist := m, bg_fill := f\<rparr>) shown cur"
  using assms lists_inv_cong [of h "h\<lparr>h_dlist := m, bg_fill := f\<rparr>"] shown_inv_cong [of h shown cur "h\<lparr>h_dlist := m, bg_fill := f\<rparr>"]
    eof_inv_cong [of h "h\<lparr>h_dlist := m, bg_fill := f\<rparr>"] by (simp add: hvs_inv_def same_view_def)

lemma unat_start:
  assumes "start < 4096"
  shows "unat (of_nat start :: u32) = start" "unat (VC4_GET_FIELD (VC4_SET_FIELD (of_nat start) (11, 0)) (11, 0)) = start"
proof -
  show 1: "unat (of_nat start :: u32) = start" using assms by (simp add: unat_of_nat take_bit_eq_mod)
  have "VC4_SET_FIELD (of_nat start) (11, 0) = put_field (of_nat start) (11, 0) 0" by (simp add: put_field_def)
  then have "VC4_GET_FIELD (VC4_SET_FIELD (of_nat start) (11, 0)) (11, 0) = take_bit 12 (of_nat start)"
    using VC4_GET_put_field [of 0 11 "of_nat start" 0] by simp
  also have "\<dots> = of_nat start" by (rule take_bit_word_self) (use assms 1 in simp)
  finally show "unat (VC4_GET_FIELD (VC4_SET_FIELD (of_nat start) (11, 0)) (11, 0)) = start" using 1 by simp
qed

lemma install_effect:
  assumes inv: "hvs_inv h shown cur" and mm: "s_mm s = Some p" and a: "dlist_allocs h p = Some a" "mm_node a = Some n"
    and ins: "vc4_hvs_install_dlist s h = Some h'"
  shows "dlist_allocs h' = (dlist_allocs h)(p \<mapsto> a\<lparr>dlist_programmed := True\<rparr>)" "dlist_nodes h' = dlist_nodes h"
    "dlist_range h' = dlist_range h" "stale_dlist_entries h' = stale_dlist_entries h" "eof_enabled h' = eof_enabled h"
    "h_gone h' = h_gone h" "h_gen h' = h_gen h" "eof_inv h'" "channel_on h' = channel_on h" "frame_count h' = frame_count h"
    "installed_start h' = (installed_start h)(unat (s_channel s) := fst n)" "h_dlist h' = h_dlist h" "bg_fill h' = bg_fill h"
proof -
  have gone: "\<not> h_gone h" using inv by (simp add: hvs_inv_def)
  have st: "fst n < 4096" using lists_invD(1) [of h n] lists_invD(3) [OF _ a] lists_invD(7) [of h] inv by (fastforce simp: hvs_inv_def)
  define r where "r = (if gen6 (h_gen h) then SCALER6_DISPX_LPTRS (unat (s_channel s)) else SCALER_DISPLISTX (unat (s_channel s)))"
  define v where "v = (if gen6 (h_gen h) then VC4_SET_FIELD (of_nat (fst n)) (11, 0) else of_nat (fst n))"
  have rv: "h' = hvs_write r v (h\<lparr>dlist_allocs := (dlist_allocs h)(p \<mapsto> a\<lparr>dlist_programmed := True\<rparr>)\<rparr>)"
    using ins mm a gone unfolding r_def v_def
    by (simp add: vc4_hvs_install_dlist_def node_start_def Let_def del: VC4_SET_FIELD.simps split: if_splits prod.splits)
  have regs: "h_regs h' q = (if q = r then v else h_regs h q)" for q by (simp add: rv h_regs_write r_def)
  have r: "SCALER_DISPCTRL \<noteq> r" "SCALER_DISPCTRLX c \<noteq> r" "SCALER_DISPSTATX c \<noteq> r" "SCALER6_DISPX_CTRL0 c \<noteq> r" "SCALER6_DISPX_STATUS c \<noteq> r" for c
    by (simp_all add: r_def)
  have gen: "h_gen h' = h_gen h" "h_gone h' = h_gone h" by (simp_all add: rv)
  have "eof_inv h" using inv by (simp add: hvs_inv_def)
  then show "eof_inv h'" by (rule eof_inv_cong) (simp_all only: regs r if_False, simp_all add: rv)
  have same: "h_regs h' (SCALER_DISPCTRLX c) = h_regs h (SCALER_DISPCTRLX c)" "h_regs h' (SCALER_DISPSTATX c) = h_regs h (SCALER_DISPSTATX c)"
    "h_regs h' (SCALER6_DISPX_CTRL0 c) = h_regs h (SCALER6_DISPX_CTRL0 c)" "h_regs h' (SCALER6_DISPX_STATUS c) = h_regs h (SCALER6_DISPX_STATUS c)" for c
    by (simp_all only: regs r if_False)
  show "channel_on h' = channel_on h" "frame_count h' = frame_count h"
    unfolding vc4_hvs_check_channel_active_def vc4_hvs_get_fifo_frame_count_def same gen by (rule refl)+
  show "installed_start h' = (installed_start h)(unat (s_channel s) := fst n)"
    using unat_start [OF st] unfolding fun_eq_iff installed_start_def regs
    by (auto simp: rv r_def v_def simp del: VC4_GET_FIELD.simps VC4_SET_FIELD.simps)
  show "dlist_allocs h' = (dlist_allocs h)(p \<mapsto> a\<lparr>dlist_programmed := True\<rparr>)" "dlist_nodes h' = dlist_nodes h"
    "dlist_range h' = dlist_range h" "stale_dlist_entries h' = stale_dlist_entries h" "eof_enabled h' = eof_enabled h"
    "h_gone h' = h_gone h" "h_gen h' = h_gen h" "h_dlist h' = h_dlist h" "bg_fill h' = bg_fill h"
    unfolding rv by simp_all
qed

lemma of_nat_unat_channel: "(ch :: u32) < 3 \<Longrightarrow> of_nat (unat ch) = ch" by simp

lemma of_nat_channel_eq: "c < 3 \<Longrightarrow> c' < 3 \<Longrightarrow> (of_nat c :: u32) = of_nat c' \<longleftrightarrow> c = c'"
  by (erule less_3_cases; erule less_3_cases) auto

text \<open>
  A list of the channel is installed: it may be the current one, and everything that holds of the lists shown stays.
\<close>
lemma shown_inv_install:
  assumes inv: "shown_inv h shown cur" and c: "c < 3"
    and al: "dlist_allocs h p = Some a" "mm_node a = Some n" "da_channel a = of_nat c" "p \<notin> set (stale_dlist_entries h)"
    and h': "dlist_allocs h' = (dlist_allocs h)(p \<mapsto> a\<lparr>dlist_programmed := True\<rparr>)" "stale_dlist_entries h' = stale_dlist_entries h"
      "channel_on h' = channel_on h" "frame_count h' = frame_count h" "installed_start h' = (installed_start h)(c := fst n)"
  shows "shown_inv h' shown (cur(c := Some p))" "list_on h' c p (installed_start h' c)"
proof -
  have on: "list_on h c' q start \<Longrightarrow> list_on h' c' q start" for c' q start by (auto simp: list_on_def h'(1) al(1))
  have tgt: "target_frame_count (the (dlist_allocs h' q)) = target_frame_count (the (dlist_allocs h q))" for q by (simp add: h'(1) al(1))
  show p: "list_on h' c p (installed_start h' c)" 
    unfolding list_on_def h'(1,5) using al by (intro exI [of _ "a\<lparr>dlist_programmed := True\<rparr>"] exI [of _ n]) simp
  show "shown_inv h' shown (cur(c := Some p))" unfolding shown_inv_def
  proof (intro allI impI conjI)
    fix c' :: nat assume c': "c' < 3"
    { assume "channel_on h' c'"
      then have "channel_on h c'" using h'(3) by metis
      then obtain q where q: "cur c' = Some q" "q \<notin> set (stale_dlist_entries h)" "list_on h c' q (installed_start h c')"
        using inv c' unfolding shown_inv_def by blast
      show "\<exists>q. (cur(c := Some p)) c' = Some q \<and> q \<notin> set (stale_dlist_entries h') \<and> list_on h' c' q (installed_start h' c')"
      proof (cases "c' = c")
        case True
        then show ?thesis using p al(4) h'(2) by simp
      next
        case False
        then show ?thesis using q on h'(2,5) by simp
      qed }
    fix start assume s: "shown c' = Some start"
    then show "channel_on h' c'" using inv c' h'(3) unfolding shown_inv_def by metis
    show "\<exists>q. list_on h' c' q start \<and> (q \<in> set (stale_dlist_entries h') \<longrightarrow>
        target_frame_count (the (dlist_allocs h' q)) = (frame_count h' c' + 1) AND mask 6)"
      using inv c' s on tgt h'(2,4) unfolding shown_inv_def by metis
  qed
qed

lemma lists_inv_install:
  assumes inv: "lists_inv h" and al: "dlist_allocs h p = Some a"
    and h': "dlist_allocs h' = (dlist_allocs h)(p \<mapsto> a\<lparr>dlist_programmed := True\<rparr>)" "dlist_nodes h' = dlist_nodes h" "dlist_range h' = dlist_range h"
      "stale_dlist_entries h' = stale_dlist_entries h" "eof_enabled h' = eof_enabled h"
  shows "lists_inv h'"
proof -
  have node: "\<exists>b'. dlist_allocs h q = Some b' \<and> mm_node b' = mm_node b" if "dlist_allocs h' q = Some b" for q b
    using that al by (cases "q = p") (auto simp: h'(1))
  show ?thesis unfolding lists_inv_def h'(2-5)
  proof (intro conjI allI impI ballI)
    fix q assume "q \<in> set (stale_dlist_entries h)"
    then show "\<exists>a n. dlist_allocs h' q = Some a \<and> mm_node a = Some n \<and> dlist_programmed a \<and> da_channel a < 3 \<and> eof_enabled h ! unat (da_channel a)"
      using lists_invD(6) [OF inv, of q] al by (auto simp: h'(1))
  next
    fix q b m assume "dlist_allocs h' q = Some b" "mm_node b = Some m"
    then show "m \<in> set (dlist_nodes h)" using node lists_invD(3) [OF inv] by metis
  next
    fix q r b d m
    assume "dlist_allocs h' q = Some b" "dlist_allocs h' r = Some d" "mm_node b = Some m" "mm_node d = Some m"
    then show "q = r" using node lists_invD(4) [OF inv] by metis
  next
    fix m k assume "m \<in> set (dlist_nodes h)" "k \<in> set (dlist_nodes h)" "m \<noteq> k"
    then show "apart m k" by (rule lists_invD(2) [OF inv])
  qed (use lists_invD(1,5,7,8) [OF inv] in auto)
qed

lemma hvs_inv_install:
  assumes inv: "hvs_inv h shown cur" and c: "s_channel s < 3" and mm: "s_mm s = Some p"
    and al: "dlist_allocs h p = Some a" "mm_node a = Some n" "da_channel a = s_channel s" "p \<notin> set (stale_dlist_entries h)"
    and ins: "vc4_hvs_install_dlist s h = Some h'"
  shows "hvs_inv h' shown (cur(unat (s_channel s) := Some p))" "list_on h' (unat (s_channel s)) p (installed_start h' (unat (s_channel s)))"
proof -
  note e = install_effect [OF inv mm al(1,2) ins]
  have si: "shown_inv h shown cur" and li: "lists_inv h" and g: "\<not> h_gone h" using inv by (simp_all add: hvs_inv_def)
  have c3: "unat (s_channel s) < 3" using unat_less_3 [OF c] .
  have ch: "da_channel a = of_nat (unat (s_channel s))" using al(3) by simp
  note s = shown_inv_install [OF si c3 al(1,2) ch al(4) e(1,4,9,10,11)]
  show "hvs_inv h' shown (cur(unat (s_channel s) := Some p))"
    unfolding hvs_inv_def using s(1) lists_inv_install [OF li al(1) e(1-5)] e(6,8) g by simp
  show "list_on h' (unat (s_channel s)) p (installed_start h' (unat (s_channel s)))" by (rule s(2))
qed

lemma hvs_inv_flush_planes:
  assumes inv: "hvs_inv h shown cur" and fl: "flush_planes planes start c h = Some h'"
  shows "hvs_inv h' shown cur" "dlist_allocs h' = dlist_allocs h" "stale_dlist_entries h' = stale_dlist_entries h" "h_gen h' = h_gen h"
proof -
  obtain nxt m bg where l: "flush_loop start planes 0 (start, h_dlist h, True) = (nxt, m, bg)" by (metis prod_cases3)
  define h1 where "h1 = h\<lparr>h_dlist := write_words nxt [SCALER_CTL0_END] m\<rparr>"
  have h': "h' = h1\<lparr>bg_fill := (bg_fill h1)[c := bg]\<rparr> \<or> (\<exists>v. h' = hvs_write (SCALER_DISPBKGNDX c) v h1)"
    using fl by (auto simp: flush_planes_def l Let_def h1_def split: if_splits)
  have i1: "hvs_inv h1 shown cur" and i2: "hvs_inv (h1\<lparr>bg_fill := (bg_fill h1)[c := bg]\<rparr>) shown cur"
    using hvs_inv_memory [OF inv, of "bg_fill h"] hvs_inv_memory [OF inv, of "(bg_fill h)[c := bg]"] by (simp_all add: h1_def)
  show "hvs_inv h' shown cur" using h' i2 hvs_inv_write [OF i1, of "SCALER_DISPBKGNDX c"] by (auto simp: list_regs_def)
  show "dlist_allocs h' = dlist_allocs h" "stale_dlist_entries h' = stale_dlist_entries h" "h_gen h' = h_gen h"
    using h' by (auto simp: h1_def)
qed

text \<open>A flush of a CRTC that has a channel goes through its three parts.\<close>
lemma flush_parts:
  assumes "\<not> h_gone h" "s_channel s < 3" "s_mm s = Some p" "dlist_allocs h p = Some a"
  shows "vc4_hvs_atomic_flush env old_active planes s crtc h =
    (case flush_planes planes (node_start a) (unat (s_channel s)) h of None \<Rightarrow> None
     | Some h1 \<Rightarrow> (case flush_install old_active s crtc h1 of None \<Rightarrow> None
         | Some (s1, crtc1, h2) \<Rightarrow> map_option (\<lambda>(crtc2, h3). (s1, crtc2, h3)) (flush_gamma env s1 crtc1 h2)))"
proof -
  have "s_channel s \<noteq> VC4_HVS_CHANNEL_DISABLED" using assms(2) by (auto simp: VC4_HVS_CHANNEL_DISABLED_def)
  then show ?thesis using assms by (simp add: vc4_hvs_atomic_flush_def)
qed

lemma hvs_inv_flush:
  assumes inv: "hvs_inv h shown cur" and c: "s_channel s < 3" and mm: "s_mm s = Some p"
    and al: "dlist_allocs h p = Some a" "mm_node a = Some n" "da_channel a = s_channel s" "p \<notin> set (stale_dlist_entries h)"
    and flush: "vc4_hvs_atomic_flush env old_active planes s crtc h = Some (s', crtc', h')"
  shows "hvs_inv h' shown (if s_active s \<and> old_active then cur(unat (s_channel s) := Some p) else cur)"
proof -
  have g: "\<not> h_gone h" using inv by (simp add: hvs_inv_def)
  obtain h1 s1 crtc1 h2 crtc2 where h: "flush_planes planes (node_start a) (unat (s_channel s)) h = Some h1"
    "flush_install old_active s crtc h1 = Some (s1, crtc1, h2)" "flush_gamma env s1 crtc1 h2 = Some (crtc2, h')"
    using flush unfolding flush_parts [OF g c mm al(1)] by (auto split: option.splits)
  note i1 = hvs_inv_flush_planes [OF inv h(1)]
  have "hvs_inv h2 shown (if s_active s \<and> old_active then cur(unat (s_channel s) := Some p) else cur)"
  proof (cases "s_active s \<and> old_active")
    case True
    then have "vc4_hvs_install_dlist s h1 = Some h2" using h(2) by (auto simp: flush_install_def split: option.splits)
    then show ?thesis using hvs_inv_install(1) [OF i1(1) c mm _ al(2,3), of h2] True i1(2,3) al(1,4) by simp
  qed (use h(2) i1(1) in \<open>auto simp: flush_install_def\<close>)
  then show ?thesis using h(3) hvs_inv_flush_gamma by blast
qed

subsubsection \<open>Switching a channel\<close>

text \<open>Registers of channel \<open>c\<close> that switch it on or off.\<close>
definition switch_change :: "nat \<Rightarrow> vc4_hvs \<Rightarrow> vc4_hvs \<Rightarrow> bool" where
  "switch_change c h h' \<longleftrightarrow> regs_change h h' \<and>
     (\<forall>r. r \<notin> {SCALER_DISPCTRLX c, SCALER6_DISPX_CTRL0 c, SCALER6_DISPX_CTRL1 c, SCALER_DISPBKGNDX c, SCALER_GAMADDR, SCALER_GAMDATA} \<longrightarrow>
        h_regs h' r = h_regs h r)"

lemma switch_change_writes:
  "fst ` set ws \<subseteq> {SCALER_DISPCTRLX c, SCALER6_DISPX_CTRL0 c, SCALER6_DISPX_CTRL1 c, SCALER_DISPBKGNDX c, SCALER_GAMADDR, SCALER_GAMDATA} \<Longrightarrow>
   switch_change c h (hvs_writes ws h)"
  unfolding switch_change_def by (auto intro: h_regs_writes_other)

lemma switch_change_write:
  "r \<in> {SCALER_DISPCTRLX c, SCALER6_DISPX_CTRL0 c, SCALER6_DISPX_CTRL1 c, SCALER_DISPBKGNDX c, SCALER_GAMADDR, SCALER_GAMDATA} \<Longrightarrow>
   switch_change c h (hvs_write r v h)"
  using switch_change_writes [of "[(r, v)]" c h] by simp

lemma switch_change_trans: "switch_change c h h' \<Longrightarrow> switch_change c h' h'' \<Longrightarrow> switch_change c h h''"
  unfolding switch_change_def using regs_change_trans by metis

lemma switch_change_refl [simp]: "switch_change c h h" by (simp add: switch_change_def)

lemma switch_changeD:
  assumes "switch_change c h h'"
  shows "installed_start h' c' = installed_start h c'" "frame_count h' c' = frame_count h c'"
    "c < 3 \<Longrightarrow> c' < 3 \<Longrightarrow> c' \<noteq> c \<Longrightarrow> channel_on h' c' = channel_on h c'" "eof_inv h \<Longrightarrow> eof_inv h'" "lists_inv h \<Longrightarrow> lists_inv h'"
proof -
  have fs: "h_gen h' = h_gen h" "h_gone h' = h_gone h" "dlist_range h' = dlist_range h" "dlist_nodes h' = dlist_nodes h"
    "dlist_allocs h' = dlist_allocs h" "stale_dlist_entries h' = stale_dlist_entries h" "eof_enabled h' = eof_enabled h"
    "eof_desc h' = eof_desc h" "irq_on h' = irq_on h" "bg_fill h' = bg_fill h"
    using regs_change_fields [of h h'] assms by (simp_all add: switch_change_def)
  have regs: "h_regs h' (SCALER_DISPLISTX k) = h_regs h (SCALER_DISPLISTX k)" "h_regs h' (SCALER6_DISPX_LPTRS k) = h_regs h (SCALER6_DISPX_LPTRS k)"
    "h_regs h' (SCALER_DISPSTATX k) = h_regs h (SCALER_DISPSTATX k)" "h_regs h' (SCALER6_DISPX_STATUS k) = h_regs h (SCALER6_DISPX_STATUS k)"
    "h_regs h' SCALER_DISPCTRL = h_regs h SCALER_DISPCTRL" for k
    using assms unfolding switch_change_def by simp_all
  show "installed_start h' c' = installed_start h c'" "frame_count h' c' = frame_count h c'"
    unfolding installed_start_def vc4_hvs_get_fifo_frame_count_def regs fs by (rule refl)+
  show "channel_on h' c' = channel_on h c'" if "c < 3" "c' < 3" "c' \<noteq> c"
  proof -
    have "unat (of_nat c' :: u32) = c'" using that(2) by (simp add: unat_of_nat take_bit_eq_mod)
    then show ?thesis using assms that(3) unfolding vc4_hvs_check_channel_active_def switch_change_def fs by simp
  qed
  show "eof_inv h'" if "eof_inv h" using that by (rule eof_inv_cong) (simp_all add: fs regs)
  show "lists_inv h'" if "lists_inv h" using that by (rule lists_inv_cong) (simp_all add: fs)
qed

lemma hvs_inv_switch:
  assumes inv: "hvs_inv h shown cur" and c: "c < 3" and sw: "switch_change c h h'" and none: "shown c = None"
    and on: "channel_on h' c \<Longrightarrow> \<exists>p. cur c = Some p \<and> p \<notin> set (stale_dlist_entries h) \<and> list_on h c p (installed_start h c)"
  shows "hvs_inv h' shown cur"
proof -
  note d = switch_changeD [OF sw]
  have fs: "h_gone h' = h_gone h" "dlist_allocs h' = dlist_allocs h" "stale_dlist_entries h' = stale_dlist_entries h"
    using regs_change_fields [of h h'] sw by (simp_all add: switch_change_def)
  have si: "shown_inv h shown cur" using inv by (simp add: hvs_inv_def)
  have lo: "list_on h' k p st = list_on h k p st" for k p st by (simp add: list_on_def fs(2))
  have "shown_inv h' shown cur" unfolding shown_inv_def fs d(1,2) lo
  proof (intro allI impI conjI)
    fix k :: nat assume k: "k < 3"
    { assume "channel_on h' k"
      then show "\<exists>p. cur k = Some p \<and> p \<notin> set (stale_dlist_entries h) \<and> list_on h k p (installed_start h k)"
        using on si k d(3) [OF c k] unfolding shown_inv_def by (cases "k = c") auto }
    fix start assume s: "shown k = Some start"
    then have "k \<noteq> c" using none by auto
    then show "channel_on h' k" using d(3) [OF c k] si s k unfolding shown_inv_def by blast
    show "\<exists>p. list_on h k p start \<and> (p \<in> set (stale_dlist_entries h) \<longrightarrow>
        target_frame_count (the (dlist_allocs h p)) = (frame_count h k + 1) AND mask 6)"
      using si s k unfolding shown_inv_def by blast
  qed
  then show ?thesis using inv d(4,5) fs unfolding hvs_inv_def by simp
qed

lemma lut_load_switch: "vc4_hvs_lut_load crtc s h = Some h' \<Longrightarrow> switch_change c h h'"
  unfolding vc4_hvs_lut_load_def by (auto split: if_splits simp del: hvs_writes_simps intro!: switch_change_writes)

lemma enable_parts:
  assumes en: "vc4_hvs_atomic_enable s crtc h = Some (s', crtc', h')"
  shows "\<exists>h1. vc4_hvs_install_dlist s h = Some h1 \<and> switch_change (unat (s_channel s)) h1 h'"
proof -
  obtain h1 s1 crtc1 where h1: "vc4_hvs_install_dlist s h = Some h1" "vc4_hvs_update_dlist h1 s crtc = Some (s1, crtc1)"
    using en by (auto simp: vc4_hvs_atomic_enable_def split: option.splits)
  have ch1: "s_channel s1 = s_channel s" using h1(2) by (auto simp: vc4_hvs_update_dlist_def Let_def split: option.splits if_splits)
  let ?c = "unat (s_channel s)"
  have "switch_change ?c h1 h'"
  proof (cases "gen6 (h_gen h)")
    case True
    then have "h' = snd (vc6_hvs_init_channel s1 (hc_feeds_txp crtc) h1)" using en h1 by (auto simp: vc4_hvs_atomic_enable_def)
    then show ?thesis unfolding vc6_hvs_init_channel_def ch1
      by (auto simp: Let_def simp del: hvs_writes_simps intro!: switch_change_trans [OF switch_change_write switch_change_writes])
  next
    case False
    then have "\<exists>r. vc4_hvs_init_channel crtc1 s1 (hc_feeds_txp crtc) h1 = Some (r, h')" using en h1 by (auto simp: vc4_hvs_atomic_enable_def)
    then show ?thesis unfolding vc4_hvs_init_channel_def ch1
      by (auto simp: Let_def simp del: hvs_writes_simps split: if_splits dest!: lut_load_switch [of _ _ _ _ ?c]
               elim!: switch_change_trans [rotated] intro!: switch_change_trans [OF switch_change_writes switch_change_writes])
  qed
  then show ?thesis using h1(1) by blast
qed

lemma hvs_inv_enable:
  assumes inv: "hvs_inv h shown cur" and c: "s_channel s < 3" and off: "\<not> vc4_hvs_check_channel_active h (s_channel s)"
    and mm: "s_mm s = Some p"
    and al: "dlist_allocs h p = Some a" "mm_node a = Some n" "da_channel a = s_channel s" "p \<notin> set (stale_dlist_entries h)"
    and en: "vc4_hvs_atomic_enable s crtc h = Some (s', crtc', h')"
  shows "hvs_inv h' shown (cur(unat (s_channel s) := Some p))"
proof -
  let ?c = "unat (s_channel s)"
  have c3: "?c < 3" by (rule unat_less_3 [OF c])
  obtain h1 where h1: "vc4_hvs_install_dlist s h = Some h1" "switch_change ?c h1 h'" using enable_parts [OF en] by blast
  note i1 = hvs_inv_install [OF inv c mm al h1(1)] and e = install_effect [OF inv mm al(1,2) h1(1)]
  have "shown ?c = None" using inv off c3 unfolding hvs_inv_def shown_inv_def by (cases "shown ?c") auto
  then show ?thesis using hvs_inv_switch [OF i1(1) c3 h1(2)] i1(2) al(4) e(4) by simp
qed

lemma disable_switch:
  "switch_change (unat (s_channel s)) h (vc4_hvs_atomic_disable s h)" "\<not> vc4_hvs_check_channel_active (vc4_hvs_atomic_disable s h) (s_channel s)"
  unfolding vc4_hvs_check_channel_active_def vc4_hvs_atomic_disable_def vc4_hvs_stop_channel_def vc4_stop_channel_def vc6_stop_channel_def
  by (auto simp: Let_def h_regs_write and.assoc intro!: switch_change_trans [OF switch_change_write switch_change_write])

lemma hvs_inv_disable:
  assumes inv: "hvs_inv h shown cur" and c: "s_channel s < 3"
  shows "hvs_inv (vc4_hvs_atomic_disable s h) (shown(unat (s_channel s) := None)) cur"
proof -
  have "hvs_inv h (shown(unat (s_channel s) := None)) cur" using inv unfolding hvs_inv_def shown_inv_def by auto
  then show ?thesis using hvs_inv_switch [OF _ unat_less_3 [OF c] disable_switch(1)] disable_switch(2) by simp
qed

subsubsection \<open>The end of a state, and a new frame\<close>

lemma shown_inv_mark:
  assumes inv: "shown_inv h shown cur" and al: "dlist_allocs h p = Some a" "mm_node a = Some n" "dlist_programmed a" and ch: "da_channel a < 3"
    and cur: "vc4_hvs_check_channel_active h (da_channel a) \<longrightarrow> cur (unat (da_channel a)) \<noteq> Some p" and v: "same_view h h'"
    and fs: "dlist_allocs h' = (dlist_allocs h)(p \<mapsto> a\<lparr>target_frame_count := (vc4_hvs_get_fifo_frame_count h (da_channel a) + 1) AND mask 6\<rparr>)"
      "stale_dlist_entries h' = stale_dlist_entries h @ [p]"
  shows "shown_inv h' shown cur"
proof -
  have lo: "list_on h' k q st = list_on h k q st" for k q st using al by (auto simp: list_on_def fs(1))
  have own: "da_channel a = of_nat k" if "list_on h k p st" for k st using that al by (auto simp: list_on_def)
  have k3: "unat (of_nat k :: u32) = k" if "k < 3" for k using that by (simp add: unat_of_nat take_bit_eq_mod)
  show ?thesis unfolding shown_inv_def lo same_viewD [OF v]
  proof (intro allI impI conjI)
    fix k :: nat assume k: "k < 3"
    { assume on: "channel_on h k"
      then obtain q where q: "cur k = Some q" "q \<notin> set (stale_dlist_entries h)" "list_on h k q (installed_start h k)"
        using inv k unfolding shown_inv_def by blast
      then have "q \<noteq> p" using own cur on k3 [OF k] by metis
      with q show "\<exists>q. cur k = Some q \<and> q \<notin> set (stale_dlist_entries h') \<and> list_on h k q (installed_start h k)" by (simp add: fs(2)) }
    fix start assume s: "shown k = Some start"
    then show "channel_on h k" using inv k unfolding shown_inv_def by blast
    obtain q where q: "list_on h k q start"
      "q \<in> set (stale_dlist_entries h) \<longrightarrow> target_frame_count (the (dlist_allocs h q)) = (frame_count h k + 1) AND mask 6"
      using inv k s unfolding shown_inv_def by blast
    then have "q \<in> set (stale_dlist_entries h') \<longrightarrow> target_frame_count (the (dlist_allocs h' q)) = (frame_count h k + 1) AND mask 6"
      using own [of k start] by (auto simp: fs)
    with q(1) show "\<exists>q. list_on h k q start \<and> (q \<in> set (stale_dlist_entries h') \<longrightarrow>
        target_frame_count (the (dlist_allocs h' q)) = (frame_count h k + 1) AND mask 6)" by blast
  qed
qed

lemma hvs_inv_mark:
  assumes inv: "hvs_inv h shown cur" and al: "dlist_allocs h p = Some a" "mm_node a = Some n" "dlist_programmed a"
    and ch: "da_channel a < 3" and p: "p \<notin> set (stale_dlist_entries h)"
    and cur: "vc4_hvs_check_channel_active h (da_channel a) \<longrightarrow> cur (unat (da_channel a)) \<noteq> Some p"
  shows "\<exists>h'. vc4_hvs_mark_dlist_entry_stale (Some p) h = Some h' \<and> hvs_inv h' shown cur \<and> stale_dlist_entries h' = stale_dlist_entries h @ [p] \<and>
    same_view h h' \<and> dlist_allocs h' = (dlist_allocs h)(p \<mapsto> a\<lparr>target_frame_count := (vc4_hvs_get_fifo_frame_count h (da_channel a) + 1) AND mask 6\<rparr>)"
proof -
  let ?a = "a\<lparr>target_frame_count := (vc4_hvs_get_fifo_frame_count h (da_channel a) + 1) AND mask 6\<rparr>"
  define h1 where "h1 = hvs_write SCALER_DISPSTAT (SCALER_DISPSTAT_EOF (unat (da_channel a)))
    (h\<lparr>dlist_allocs := (dlist_allocs h)(p \<mapsto> ?a), stale_dlist_entries := stale_dlist_entries h @ [p]\<rparr>)"
  have c3: "unat (da_channel a) < 3" by (rule unat_less_3 [OF ch])
  have "eof_inv h" using inv by (simp add: hvs_inv_def)
  then have "eof_inv h1" by (rule eof_inv_cong) (simp_all add: h1_def h_regs_write)
  then obtain h' where en: "vc4_hvs_irq_enable_eof (da_channel a) h1 = Some h'" "eof_inv h'" "irq_change h1 h'"
    "eof_enabled h' = (eof_enabled h1)[unat (da_channel a) := True]" using irq_enable_eof [OF _ c3] by blast
  have v1: "same_view h h1" by (auto simp: h1_def same_view_def h_regs_write list_regs_def)
  then have v: "same_view h h'" using en(3) same_view_trans by (auto simp: irq_change_def)
  have fs: "dlist_allocs h' = (dlist_allocs h)(p \<mapsto> ?a)" "stale_dlist_entries h' = stale_dlist_entries h @ [p]" "dlist_nodes h' = dlist_nodes h"
    "dlist_range h' = dlist_range h" "eof_enabled h' = (eof_enabled h)[unat (da_channel a) := True]"
    using en(3,4) by (simp_all add: irq_change_def h1_def)
  have res: "vc4_hvs_mark_dlist_entry_stale (Some p) h = Some h'"
    using al en(1) by (simp add: vc4_hvs_mark_dlist_entry_stale_def h1_def Let_def)
  have li: "lists_inv h" and si: "shown_inv h shown cur" and el: "length (eof_enabled h) = 3" using inv by (simp_all add: hvs_inv_def eof_inv_def)
  have node: "\<exists>b'. dlist_allocs h q = Some b' \<and> mm_node b' = mm_node b" if "dlist_allocs h' q = Some b" for q b
    using that al by (cases "q = p") (auto simp: fs(1))
  have "lists_inv h'" unfolding lists_inv_def fs(2-5)
  proof (intro conjI allI impI ballI)
    fix q assume q: "q \<in> set (stale_dlist_entries h @ [p])"
    show "\<exists>b m. dlist_allocs h' q = Some b \<and> mm_node b = Some m \<and> dlist_programmed b \<and> da_channel b < 3 \<and>
        (eof_enabled h)[unat (da_channel a) := True] ! unat (da_channel b)"
    proof (cases "q = p")
      case False
      then obtain b m where "dlist_allocs h q = Some b" "mm_node b = Some m" "dlist_programmed b" "da_channel b < 3" "eof_enabled h ! unat (da_channel b)"
        using lists_invD(6) [OF li, of q] q by auto
      then show ?thesis using False el c3 by (auto simp: fs(1) nth_list_update)
    qed (use al ch el c3 in \<open>simp add: fs(1)\<close>)
  next
    fix q b m assume "dlist_allocs h' q = Some b" "mm_node b = Some m"
    then show "m \<in> set (dlist_nodes h)" using node lists_invD(3) [OF li] by metis
  next
    fix q r b d m
    assume "dlist_allocs h' q = Some b" "dlist_allocs h' r = Some d" "mm_node b = Some m" "mm_node d = Some m"
    then show "q = r" using node lists_invD(4) [OF li] by metis
  next
    fix m k assume "m \<in> set (dlist_nodes h)" "k \<in> set (dlist_nodes h)" "m \<noteq> k"
    then show "apart m k" by (rule lists_invD(2) [OF li])
  qed (use lists_invD(1,5,7,8) [OF li] p in auto)
  moreover have "shown_inv h' shown cur"
    by (rule shown_inv_mark [OF si al ch cur v fs(1,2)])
  moreover have "\<not> h_gone h'" using v inv by (simp add: same_view_def hvs_inv_def)
  ultimately show ?thesis using res en(2) fs v by (simp add: hvs_inv_def)
qed

lemma hvs_inv_destroy:
  assumes inv: "hvs_inv h shown cur" and a: "\<And>p a. s_mm s = Some p \<Longrightarrow> dlist_allocs h p = Some a \<Longrightarrow> da_channel a < 3 \<and> p \<notin> set (stale_dlist_entries h) \<and>
        (vc4_hvs_check_channel_active h (da_channel a) \<longrightarrow> cur (unat (da_channel a)) \<noteq> Some p)"
    and live: "\<And>p. s_mm s = Some p \<Longrightarrow> dlist_allocs h p \<noteq> None"
  shows "\<exists>h'. vc4_crtc_destroy_state s h = Some h' \<and> hvs_inv h' shown cur"
proof -
  consider "vc4_crtc_destroy_state s h = Some h"
    | p a where "s_mm s = Some p" "dlist_allocs h p = Some a" "\<not> dlist_programmed a" "vc4_crtc_destroy_state s h = vc4_hvs_free_dlist_entry_locked p h"
    | p a n where "s_mm s = Some p" "dlist_allocs h p = Some a" "mm_node a = Some n" "dlist_programmed a"
  proof (cases "s_mm s")
    case (Some p)
    then obtain a where a: "dlist_allocs h p = Some a" using live by blast
    show ?thesis
    proof (cases "mm_node a = None")
      case True
      then show ?thesis using that(1) Some a by (simp add: vc4_crtc_destroy_state_def vc4_hvs_mark_dlist_entry_stale_def)
    next
      case False
      then show ?thesis using that(2) [OF Some a] that(3) [OF Some a] Some a
        by (cases "dlist_programmed a") (auto simp: vc4_crtc_destroy_state_def vc4_hvs_mark_dlist_entry_stale_def)
    qed
  qed (use that(1) in \<open>simp add: vc4_crtc_destroy_state_def vc4_hvs_mark_dlist_entry_stale_def\<close>)
  then show ?thesis
  proof cases
    case (2 p a)
    then obtain h' where h': "vc4_hvs_free_dlist_entry_locked p h = Some h'" using free_entry_Some [OF 2(2)] by simp
    have si: "shown_inv h shown cur" using inv by (simp add: hvs_inv_def)
    have "cur k \<noteq> Some p" if "k < 3" "channel_on h k" for k
      using si that 2(2,3) unfolding shown_inv_def list_on_def by fastforce
    moreover have "q \<noteq> p" if "list_on h k q st" for k q st using that 2(2,3) by (auto simp: list_on_def)
    ultimately have "shown_inv h' shown cur" using shown_inv_free [OF si h'] by blast
    then show ?thesis
      using 2(4) h' inv lists_inv_free [OF _ h'] eof_inv_free [OF _ h'] free_entry_frame(2) [OF h'] by (simp add: hvs_inv_def)
  next
    case (3 p a n)
    have g: "da_channel a < 3" "p \<notin> set (stale_dlist_entries h)" "vc4_hvs_check_channel_active h (da_channel a) \<longrightarrow> cur (unat (da_channel a)) \<noteq> Some p"
      using assms(2) [OF 3(1,2)] by simp_all
    show ?thesis using hvs_inv_mark [OF inv 3(2-4) g] 3(1) by (auto simp: vc4_crtc_destroy_state_def)
  qed (use inv in simp)
qed

lemma hvs_inv_frame:
  assumes inv: "hvs_inv h shown cur" and c: "c < 3" and on: "channel_on h c" and fr: "next_frame c h h'"
  shows "hvs_inv h' (shown(c := Some (installed_start h c))) cur"
proof -
  obtain r where h': "h' = h\<lparr>h_regs := r\<rparr>" and dc: "h_regs h' SCALER_DISPCTRL = h_regs h SCALER_DISPCTRL"
    using fr by (auto simp: next_frame_def)
  have v: "installed_start h' k = installed_start h k" "channel_on h' k = channel_on h k" "k \<noteq> c \<Longrightarrow> frame_count h' k = frame_count h k" if "k < 3" for k
    using fr that by (simp_all add: next_frame_def)
  have fs: "dlist_allocs h' = dlist_allocs h" "stale_dlist_entries h' = stale_dlist_entries h" by (simp_all add: h')
  have lo: "list_on h' k p st = list_on h k p st" for k p st by (simp add: list_on_def fs)
  have si: "shown_inv h shown cur" using inv by (simp add: hvs_inv_def)
  have "shown_inv h' (shown(c := Some (installed_start h c))) cur" unfolding shown_inv_def fs lo
  proof (intro allI impI conjI)
    fix k :: nat assume k: "k < 3"
    { assume "channel_on h' k"
      then show "\<exists>p. cur k = Some p \<and> p \<notin> set (stale_dlist_entries h) \<and> list_on h k p (installed_start h' k)"
        using si k v(1,2) [OF k] unfolding shown_inv_def by metis }
    fix start assume s: "(shown(c := Some (installed_start h c))) k = Some start"
    then show "channel_on h' k" using si k v(2) [OF k] on unfolding shown_inv_def by (cases "k = c") auto
    show "\<exists>p. list_on h k p start \<and> (p \<in> set (stale_dlist_entries h) \<longrightarrow>
        target_frame_count (the (dlist_allocs h p)) = (frame_count h' k + 1) AND mask 6)"
    proof (cases "k = c")
      case True
      then show ?thesis using si k on s unfolding shown_inv_def by auto
    next
      case False
      then show ?thesis using si k s v(3) [OF k False] unfolding shown_inv_def by auto
    qed
  qed
  moreover have "lists_inv h" "eof_inv h" using inv by (simp_all add: hvs_inv_def)
  then have "lists_inv h'" "eof_inv h'"
    using lists_inv_cong [of h h'] eof_inv_cong [of h h'] dc by (simp_all add: h')
  ultimately show ?thesis using inv by (simp add: hvs_inv_def h')
qed

subsection \<open>All reachable states\<close>

lemma hvs_inv_work:
  assumes "hvs_inv h shown cur"
  shows "\<exists>h'. vc4_hvs_dlist_free_work h = Some h' \<and> hvs_inv h' shown cur \<and>
    (\<forall>p. dlist_allocs h' p = (if p \<in> set (stale_dlist_entries h) \<and>
        due (vc4_hvs_check_channel_active h) (vc4_hvs_get_fifo_frame_count h) (the (dlist_allocs h p)) then None else dlist_allocs h p))"
proof -
  let ?h = "h\<lparr>free_dlist_work := False\<rparr>"
  have ic: "irq_change h ?h" by (simp add: irq_change_def same_view_def)
  have inv: "hvs_inv ?h shown cur"
    using hvs_inv_irq_change [OF assms ic] eof_inv_cong [of h ?h] assms by (simp add: hvs_inv_def)
  have d: "distinct (stale_dlist_entries ?h)" using lists_invD(5) [of h] assms by (simp add: hvs_inv_def)
  have views: "vc4_hvs_check_channel_active ?h = vc4_hvs_check_channel_active h" "vc4_hvs_get_fifo_frame_count ?h = vc4_hvs_get_fifo_frame_count h"
    by (rule ext; simp add: vc4_hvs_check_channel_active_def vc4_hvs_get_fifo_frame_count_def cong: vc4_gen.case_cong if_cong)+
  show ?thesis using sweep_loop_frees [OF inv d subset_refl refl refl] unfolding vc4_hvs_dlist_free_work_def views by auto
qed

lemma hvs_step_inv:
  assumes "hvs_step env x y" "mm_sound env" "hvs_inv (fst x) (fst (snd x)) (snd (snd x))"
  shows "hvs_inv (fst y) (fst (snd y)) (snd (snd y))"
  using assms
proof cases
  case (Check mem planes s h r s' h' shown cur)
  then show ?thesis using hvs_inv_check [OF _ assms(2)] assms(3) by auto
next
  case (Flush old_active planes s crtc h s' crtc' h' p a shown cur)
  then obtain n where "mm_node a = Some n" by blast
  then show ?thesis using hvs_inv_flush [of h shown cur s p a n] Flush assms(3) by auto
next
  case (Enable s crtc h s' crtc' h' p a shown cur)
  then obtain n where "mm_node a = Some n" by blast
  then show ?thesis using hvs_inv_enable [of h shown cur s p a n] Enable assms(3) by auto
next
  case (Destroy s h h' cur shown)
  have "dlist_allocs h p \<noteq> None" if "s_mm s = Some p" for p
    using Destroy(3) that by (cases "dlist_allocs h p") (auto simp: vc4_crtc_destroy_state_def vc4_hvs_mark_dlist_entry_stale_def)
  then show ?thesis using hvs_inv_destroy [of h shown cur s] Destroy assms(3) by auto
next
  case (Irq h handled h' shown cur)
  then show ?thesis using hvs_inv_irq_handler [of h shown cur] assms(3) by auto
next
  case (Irq6 h irq handled h' shown cur)
  then show ?thesis using hvs_inv_eof_irq_handler [of h shown cur irq] assms(3) by auto
next
  case (Work h h' shown cur)
  then show ?thesis using hvs_inv_work [of h shown cur] assms(3) by auto
qed (use assms(3) hvs_inv_disable hvs_inv_frame in auto)

lemma hvs_steps_inv:
  assumes "(hvs_step env)\<^sup>*\<^sup>* x y" "mm_sound env" "hvs_inv (fst x) (fst (snd x)) (snd (snd x))"
  shows "hvs_inv (fst y) (fst (snd y)) (snd (snd y))"
  using assms by (induction rule: rtranclp_induct) (auto intro: hvs_step_inv)

subsection \<open>The start\<close>

text \<open>What holds between the steps of \<open>vc4_hvs_bind\<close>.\<close>
definition bind_inv :: "vc4_hvs \<Rightarrow> bool" where
  "bind_inv h \<longleftrightarrow> lists_inv h \<and> dlist_allocs h = (\<lambda>_. None) \<and> stale_dlist_entries h = [] \<and> eof_enabled h = replicate 3 False \<and>
     length (eof_desc h) = 3 \<and> length (bg_fill h) = 3 \<and> \<not> h_gone h"

lemma bind_inv_regs: "bind_inv h \<Longrightarrow> regs_change h h' \<Longrightarrow> bind_inv h'"
  unfolding bind_inv_def using regs_change_fields [of h h'] lists_inv_cong [of h h'] by auto

lemma regs_change_init: "regs_change h (vc4_hvs_hw_init h)" "regs_change h (vc6_hvs_hw_init h)" "regs_change h (vc4_hvs_cob_init h)"
  unfolding vc4_hvs_hw_init_def vc6_hvs_hw_init_def vc4_hvs_cob_init_def reg_put_def Let_def
  by (auto simp del: hvs_writes_simps split: vc4_gen.split intro!: regs_change_trans [OF _ regs_change_write])

lemma bind_inv_alloc: "vc4_hvs_alloc mem gen regs m = Inr h \<Longrightarrow> bind_inv h"
  by (auto simp: vc4_hvs_alloc_def bind_inv_def hvs_zero_def drm_mm_init_def lists_inv_def Let_def HVS_NUM_CHANNELS_def
      HVS_BOOTLOADER_DLIST_END_def SCALER_DLIST_SIZE_def split: if_splits)

lemma bind_inv_upload:
  assumes env: "mm_sound env" and inv: "bind_inv h" and up: "hvs_upload env krn f h = (r, h')"
    and f: "\<And>n h. bind_inv h \<Longrightarrow> bind_inv (f n h)"
  shows "bind_inv h'"
proof (cases "mm_insert env (dlist_range h) (dlist_nodes h) VC4_KERNEL_DWORDS")
  case (Inr start)
  let ?n = "(start, VC4_KERNEL_DWORDS)"
  let ?h = "h\<lparr>dlist_nodes := dlist_nodes h @ [?n], h_dlist := write_words start (kernel_words krn) (h_dlist h)\<rparr>"
  have "fst (dlist_range h) \<le> start" "start + VC4_KERNEL_DWORDS \<le> snd (dlist_range h)" "\<forall>m\<in>set (dlist_nodes h). apart m ?n"
    using env Inr unfolding mm_sound_def by blast+
  then have "bind_inv ?h" using inv unfolding bind_inv_def lists_inv_def
    by (auto simp: VC4_KERNEL_DWORDS_def VC4_LINEAR_PHASE_KERNEL_DWORDS_def dest: apart_sym)
  then show ?thesis using f [of ?h ?n] up Inr by (simp add: hvs_upload_def vc4_hvs_upload_linear_kernel_def)
qed (use up inv in \<open>simp add: hvs_upload_def vc4_hvs_upload_linear_kernel_def\<close>)

lemma bind_inv_fields:
  "bind_inv h \<Longrightarrow> bind_inv (h\<lparr>mitchell_netravali_filter := a\<rparr>)" "bind_inv h \<Longrightarrow> bind_inv (h\<lparr>nearest_neighbour_filter := a\<rparr>)"
  "bind_inv h \<Longrightarrow> bind_inv (h\<lparr>dlist_base := b\<rparr>)" "bind_inv h \<Longrightarrow> bind_inv (h\<lparr>h_gen := g\<rparr>)" "bind_inv h \<Longrightarrow> bind_inv (h\<lparr>clk_on := k\<rparr>)"
  "bind_inv h \<Longrightarrow> bind_inv (h\<lparr>vc5_hdmi_enable_hdmi_20 := u, vc5_hdmi_enable_4096by2160 := v, h_max_core_rate := w\<rparr>)"
  "length e = length (eof_desc h) \<Longrightarrow> bind_inv h \<Longrightarrow> bind_inv (h\<lparr>eof_desc := e\<rparr>)"
  unfolding bind_inv_def lists_inv_def by auto

lemma bind_inv_irqs: "bind_inv h \<Longrightarrow> hvs_irqs byname js h = (r, h') \<Longrightarrow> bind_inv h'"
proof (induction js arbitrary: h)
  case (Cons i js)
  show ?case using Cons.prems Cons.IH [of "h\<lparr>eof_desc := (eof_desc h)[i := _]\<rparr>"] bind_inv_fields(7) [of _ h]
    by (auto split: sum.splits)
qed simp

lemma bind_inv_fail_on: "hvs_fail_on err f h = (r, h') \<Longrightarrow> bind_inv h \<Longrightarrow> bind_inv (f h) \<Longrightarrow> bind_inv h'"
  by (auto simp: hvs_fail_on_def split: option.splits)

lemma bind_inv_clocks:
  assumes inv: "bind_inv h" and "hvs_clocks be h = (r, h')"
  shows "bind_inv h'"
proof -
  have "h' = h \<or> run_steps (hvs_clock_steps be) h = (r, h')" using assms(2) unfolding hvs_clocks_def by (auto split: if_splits)
  moreover have "bind_inv h'" if "run_steps (hvs_clock_steps be) h = (r, h')"
    using that inv by (rule run_steps_invariant) (auto simp: hvs_clock_steps_def elim!: bind_inv_fail_on intro!: bind_inv_fields)
  ultimately show ?thesis using inv by auto
qed

lemma bind_inv_step:
  assumes env: "mm_sound env" and f: "f \<in> set (hvs_bind_steps env be)" and inv: "bind_inv h" and "f h = (r, h')"
  shows "bind_inv h'"
proof -
  have "bind_inv (hvs_version h)" "bind_inv (if gen6 (h_gen h) then vc6_hvs_hw_init h else vc4_hvs_hw_init h)" "bind_inv (vc4_hvs_cob_init h)"
    using inv bind_inv_regs [OF inv] regs_change_init [of h] by (auto simp: hvs_version_def intro: bind_inv_fields)
  then show ?thesis
    using f assms(4) bind_inv_fail_on [OF _ inv] bind_inv_clocks [OF inv] bind_inv_upload [OF env inv] bind_inv_fields inv
    unfolding hvs_bind_steps_def by auto
qed

lemma hvs_irqs_gen: "hvs_irqs byname js h = (r, h') \<Longrightarrow> h_gen h' = h_gen h"
  by (induction js arbitrary: h) (auto split: sum.splits)

lemma hvs_irqs_desc:
  "hvs_irqs byname js h = (Inr (), h') \<Longrightarrow> distinct js \<Longrightarrow> \<forall>j\<in>set js. j < length (eof_desc h) \<Longrightarrow>
   \<forall>j\<in>set js. byname j = Inr (eof_desc h' ! j)"
proof (induction js arbitrary: h)
  case (Cons i js)
  obtain irq where i: "byname i = Inr irq" "hvs_irqs byname js (h\<lparr>eof_desc := (eof_desc h)[i := irq]\<rparr>) = (Inr (), h')"
    using Cons.prems(1) by (auto split: sum.splits)
  have keep: "hvs_irqs byname ks g = (Inr (), g') \<Longrightarrow> i \<notin> set ks \<Longrightarrow> eof_desc g' ! i = eof_desc g ! i" for ks g g'
    by (induction ks arbitrary: g) (auto split: sum.splits)
  show ?case using Cons.IH [OF i(2)] keep [OF i(2)] Cons.prems(2,3) i(1) by auto
qed simp

text \<open>The channels are off after the start, and the three interrupts differ.\<close>
definition hvs_started :: "hvs_env \<Rightarrow> hvs_bind_env \<Rightarrow> vc4_gen \<Rightarrow> (hvs_reg \<Rightarrow> u32) \<Rightarrow> (nat \<Rightarrow> u32) \<Rightarrow> vc4_hvs \<Rightarrow> bool" where
  "hvs_started env be gen regs m h \<longleftrightarrow> vc4_hvs_bind env be gen regs m = (Inr (), Some h) \<and> (\<forall>c < 3. \<not> channel_on h c) \<and>
     (\<forall>i < 3. \<forall>j < 3. be_irq_byname be i = be_irq_byname be j \<longrightarrow> i = j)"

lemma hvs_inv_started:
  assumes env: "mm_sound env" and st: "hvs_started env be gen regs m h"
  shows "hvs_inv h (\<lambda>_. None) cur"
proof -
  obtain h0 where h0: "vc4_hvs_alloc (be_mem be) gen regs m = Inr h0" "run_steps (hvs_bind_steps env be @ [hvs_request_irqs be]) h0 = (Inr (), h)"
    using st by (auto simp: hvs_started_def vc4_hvs_bind_def split: option.splits sum.splits prod.splits)
  then obtain h1 where h1: "run_steps (hvs_bind_steps env be) h0 = (Inr (), h1)" "hvs_request_irqs be h1 = (Inr (), h)"
    by (auto simp: run_steps_append split: prod.splits sum.splits)
  have "bind_inv h1" using h1(1) bind_inv_alloc [OF h0(1)] by (rule run_steps_invariant) (rule bind_inv_step [OF env])
  then have b: "bind_inv h" "length (eof_desc h1) = 3"
    using h1(2) bind_inv_irqs [of h1] bind_inv_fail_on [of _ id h1] by (auto simp: hvs_request_irqs_def bind_inv_def [of h1] split: if_splits)
  have "distinct (eof_desc h)" if "gen6 (h_gen h1)"
  proof -
    have "hvs_irqs (be_irq_byname be) [0..<3] h1 = (Inr (), h)" using h1(2) that by (simp add: hvs_request_irqs_def HVS_NUM_CHANNELS_def)
    from hvs_irqs_desc [OF this] have "\<forall>j < 3. be_irq_byname be j = Inr (eof_desc h ! j)" using b(2) by auto
    then show ?thesis using st b(1) unfolding hvs_started_def bind_inv_def by (auto simp: distinct_conv_nth)
  qed
  moreover have "h_gen h = h_gen h1"
    using h1(2) hvs_irqs_gen by (auto simp: hvs_request_irqs_def hvs_fail_on_def split: if_splits option.splits)
  ultimately have "eof_inv h" using b(1) by (auto simp: eof_inv_def bind_inv_def nth_replicate)
  moreover have "shown_inv h (\<lambda>_. None) cur" using st by (simp add: shown_inv_def hvs_started_def)
  ultimately show ?thesis using b(1) by (simp add: hvs_inv_def bind_inv_def)
qed

lemma free_entry_nodes:
  assumes "vc4_hvs_free_dlist_entry_locked p h = Some h'"
  shows "set (dlist_nodes h') \<subseteq> set (dlist_nodes h)" "dlist_allocs h p = Some a \<Longrightarrow> mm_node a = Some n \<Longrightarrow> n \<notin> set (dlist_nodes h')"
  using assms by (auto simp: vc4_hvs_free_dlist_entry_locked_def split: option.splits)

lemma sweep_loop_nodes:
  assumes "sweep_loop active frcnt ps h = Some h'"
  shows "set (dlist_nodes h') \<subseteq> set (dlist_nodes h) \<and>
    (\<forall>p a n. p \<in> set ps \<longrightarrow> dlist_allocs h p = Some a \<longrightarrow> mm_node a = Some n \<longrightarrow> due active frcnt a \<longrightarrow> n \<notin> set (dlist_nodes h'))"
  using assms
proof (induction ps arbitrary: h)
  case (Cons p ps)
  obtain a where a: "dlist_allocs h p = Some a" using Cons.prems by (auto split: option.splits)
  show ?case
  proof (cases "due active frcnt a")
    case False
    then have "sweep_loop active frcnt ps h = Some h'" using Cons.prems a by (auto simp: due_def split: if_splits option.splits)
    from Cons.IH [OF this] show ?thesis using False a by auto
  next
    case True
    then obtain h1 where h1: "vc4_hvs_free_dlist_entry_locked p h = Some h1" "sweep_loop active frcnt ps h1 = Some h'"
      using Cons.prems a by (auto simp: due_def split: if_splits option.splits)
    have al: "dlist_allocs h1 q = (if q = p then None else dlist_allocs h q)" for q using free_entry_frame(4) [OF h1(1)] by simp
    note IH = Cons.IH [OF h1(2)]
    show ?thesis
    proof (intro conjI allI impI)
      show "set (dlist_nodes h') \<subseteq> set (dlist_nodes h)" using IH free_entry_nodes(1) [OF h1(1)] by blast
      fix q b n assume "q \<in> set (p # ps)" "dlist_allocs h q = Some b" "mm_node b = Some n" "due active frcnt b"
      then show "n \<notin> set (dlist_nodes h')" 
        using IH free_entry_nodes(2) [OF h1(1), of b n] al by (cases "q = p") (auto simp del: split_paired_All)
    qed
  qed
qed simp

subsection \<open>Properties\<close>



end
