(* ===== verification/Vc4_Mux_Laws.thy ===== *)
theory Vc4_Mux_Laws
  imports Vc4_Kms
begin

text \<open>
  The channels of the HVS: the invariant that ties the CRTCs to the channels, that the check keeps it and touches nothing outside the
  array of channels, and that going through the CRTCs in the order of their outputs misses no assignment on the layouts there are.
\<close>

unbundle bit_operations_syntax

subsection \<open>The invariant of the channels\<close>

definition chan :: "vc4_crtc_state \<Rightarrow> u32 option" where
  "chan s = (if cs_enable s then Some (assigned_channel s) else None)"

definition routed :: "vc4_crtc list \<Rightarrow> nat \<Rightarrow> nat \<Rightarrow> bool" where
  "routed crtcs i c \<longleftrightarrow> c < HVS_NUM_CHANNELS \<and> bit (hvs_available_channels (crtc_data (crtcs ! i))) c"

definition used :: "vc4_hvs_state \<Rightarrow> nat \<Rightarrow> bool" where
  "used hvs c \<longleftrightarrow> in_use (hvs_fifos hvs ! c)"

definition crtc_channel_ok :: "vc4_crtc list \<Rightarrow> vc4_hvs_state \<Rightarrow> nat \<Rightarrow> vc4_crtc_state \<Rightarrow> bool" where
  "crtc_channel_ok crtcs hvs i s =
     (case chan s of None \<Rightarrow> assigned_channel s = VC4_HVS_CHANNEL_DISABLED | Some c \<Rightarrow> routed crtcs i (unat c) \<and> used hvs (unat c))"

text \<open>
  Every enabled CRTC has a channel that it can be routed to and that is in use, no two have the same one, a disabled CRTC has none, and
  every channel in use belongs to some CRTC.
\<close>
definition channels_wf :: "vc4_crtc list \<Rightarrow> vc4_crtc_state list \<Rightarrow> vc4_hvs_state \<Rightarrow> bool" where
  "channels_wf crtcs css hvs \<longleftrightarrow>
     length css = length crtcs \<and> length (hvs_fifos hvs) = HVS_NUM_CHANNELS \<and>
     (\<forall>i<length crtcs. crtc_channel_ok crtcs hvs i (css ! i)) \<and>
     (\<forall>i<length crtcs. \<forall>j<length crtcs. i \<noteq> j \<longrightarrow> chan (css ! i) \<noteq> None \<longrightarrow> chan (css ! i) \<noteq> chan (css ! j)) \<and>
     (\<forall>c<HVS_NUM_CHANNELS. used hvs c \<longrightarrow> (\<exists>i<length crtcs. chan (css ! i) = Some (of_nat c)))"

lemma upd_fifo_used:
  assumes "upd_fifo ch (\<lambda>f. f\<lparr>in_use := b\<rparr>) hvs = Some hvs'"
  shows "unat ch < length (hvs_fifos hvs)" "length (hvs_fifos hvs') = length (hvs_fifos hvs)"
    "used hvs' c \<longleftrightarrow> (if c = unat ch then b else used hvs c)"
  using assms by (auto simp: upd_fifo_def used_def nth_list_update split: if_splits)

lemma channels_wf_same:
  assumes wf: "channels_wf crtcs css hvs" and i: "i < length crtcs"
    and same: "chan s = chan (css ! i)" "assigned_channel s = assigned_channel (css ! i)"
  shows "channels_wf crtcs (css[i := s]) hvs"
proof -
  have n: "length css = length crtcs" using wf by (simp add: channels_wf_def)
  have c: "chan (css[i := s] ! j) = chan (css ! j)" "assigned_channel (css[i := s] ! j) = assigned_channel (css ! j)" for j
    using same n i by (auto simp: nth_list_update)
  then have "crtc_channel_ok crtcs hvs j (css[i := s] ! j) = crtc_channel_ok crtcs hvs j (css ! j)" for j
    by (simp add: crtc_channel_ok_def split: option.split)
  then show ?thesis using wf by (simp add: channels_wf_def c(1))
qed

lemma channels_wf_release:
  assumes wf: "channels_wf crtcs css hvs" and i: "i < length crtcs" and en: "cs_enable (css ! i)"
    and upd: "upd_fifo (assigned_channel (css ! i)) (\<lambda>f. f\<lparr>in_use := False\<rparr>) hvs = Some hvs'"
    and s: "\<not> cs_enable s" "assigned_channel s = VC4_HVS_CHANNEL_DISABLED"
  shows "channels_wf crtcs (css[i := s]) hvs'"
proof -
  let ?ch = "assigned_channel (css ! i)"
  have n: "length css = length crtcs" using wf by (simp add: channels_wf_def)
  have other: "chan (css ! j) \<noteq> Some ?ch" if "j < length crtcs" "j \<noteq> i" for j
    using wf i that en unfolding channels_wf_def chan_def by (metis option.distinct(1))
  have ok: "crtc_channel_ok crtcs hvs' j (css[i := s] ! j)" if j: "j < length crtcs" for j
  proof (cases "j = i")
    case True
    then show ?thesis using n i s by (simp add: crtc_channel_ok_def chan_def)
  next
    case False
    with wf j have "crtc_channel_ok crtcs hvs j (css ! j)" by (simp add: channels_wf_def)
    then show ?thesis using False other [OF j False] upd_fifo_used(3) [OF upd]
      by (auto simp: crtc_channel_ok_def word_unat_eq_iff split: option.splits)
  qed
  have dist: "chan (css[i := s] ! a) \<noteq> chan (css[i := s] ! b)"
    if "a < length crtcs" "b < length crtcs" "a \<noteq> b" "chan (css[i := s] ! a) \<noteq> None" for a b
  proof -
    have "a \<noteq> i" using that(4) s n i by (auto simp: chan_def)
    with that wf n s show ?thesis
      by (cases "b = i") (auto simp: channels_wf_def chan_def nth_list_update)
  qed
  have cover: "\<exists>j<length crtcs. chan (css[i := s] ! j) = Some (of_nat c)"
    if c: "c < HVS_NUM_CHANNELS" "used hvs' c" for c
  proof -
    have ne: "c \<noteq> unat ?ch" and "used hvs c" using c upd_fifo_used(3) [OF upd] by (auto split: if_splits)
    with wf c obtain j where j: "j < length crtcs" "chan (css ! j) = Some (of_nat c)" by (auto simp: channels_wf_def)
    have "unat (of_nat c :: u32) = c" using c(1) by (simp add: HVS_NUM_CHANNELS_def unat_of_nat take_bit_eq_mod)
    with ne j have "j \<noteq> i" by (auto simp: chan_def split: if_splits)
    with j show ?thesis by (intro exI [of _ j]) auto
  qed
  show ?thesis
    using wf ok dist cover upd_fifo_used(2) [OF upd] unfolding channels_wf_def by simp
qed

lemma channels_wf_acquire:
  assumes wf: "channels_wf crtcs css hvs" and i: "i < length crtcs" and dis: "\<not> cs_enable (css ! i)"
    and upd: "upd_fifo ch (\<lambda>f. f\<lparr>in_use := True\<rparr>) hvs = Some hvs'"
    and free: "\<not> used hvs (unat ch)" and r: "routed crtcs i (unat ch)"
    and s: "cs_enable s" "assigned_channel s = ch"
  shows "channels_wf crtcs (css[i := s]) hvs'"
proof -
  have n: "length css = length crtcs" using wf by (simp add: channels_wf_def)
  have other: "chan (css ! j) \<noteq> Some ch" if "j < length crtcs" for j
    using wf that free by (auto simp: channels_wf_def crtc_channel_ok_def split: option.splits)
  have ok: "crtc_channel_ok crtcs hvs' j (css[i := s] ! j)" if j: "j < length crtcs" for j
  proof (cases "j = i")
    case True
    then show ?thesis using n i s r upd_fifo_used(3) [OF upd] by (simp add: crtc_channel_ok_def chan_def)
  next
    case False
    with wf j have "crtc_channel_ok crtcs hvs j (css ! j)" by (simp add: channels_wf_def)
    then show ?thesis using False upd_fifo_used(3) [OF upd]
      by (auto simp: crtc_channel_ok_def split: option.splits)
  qed
  have dist: "chan (css[i := s] ! a) \<noteq> chan (css[i := s] ! b)"
    if "a < length crtcs" "b < length crtcs" "a \<noteq> b" "chan (css[i := s] ! a) \<noteq> None" for a b
  proof -
    consider "a = i" | "b = i" | "a \<noteq> i" "b \<noteq> i" by blast
    then show ?thesis
    proof cases
      case 1
      then show ?thesis using that(3) other [OF that(2)] n i s by (auto simp: chan_def)
    next
      case 2
      then show ?thesis using that(3) other [OF that(1)] n i s by (auto simp: chan_def)
    next
      case 3
      then show ?thesis using that wf by (simp add: channels_wf_def)
    qed
  qed
  have cover: "\<exists>j<length crtcs. chan (css[i := s] ! j) = Some (of_nat c)"
    if c: "c < HVS_NUM_CHANNELS" "used hvs' c" for c
  proof (cases "c = unat ch")
    case True
    then show ?thesis using n i s by (intro exI [of _ i]) (simp add: chan_def)
  next
    case False
    with c upd_fifo_used(3) [OF upd] have "used hvs c" by simp
    with wf c obtain j where j: "j < length crtcs" "chan (css ! j) = Some (of_nat c)" by (auto simp: channels_wf_def)
    then have "j \<noteq> i" using dis by (auto simp: chan_def)
    with j show ?thesis by (intro exI [of _ j]) auto
  qed
  show ?thesis
    using wf ok dist cover upd_fifo_used(2) [OF upd] unfolding channels_wf_def by simp
qed

subsection \<open>The loop that assigns channels\<close>

definition pair_ok :: "vc4_crtc_state list \<Rightarrow> crtc_pairs \<Rightarrow> nat \<Rightarrow> bool" where
  "pair_ok css cs i = (case cs ! i of None \<Rightarrow> True | Some (old, new) \<Rightarrow> old = css ! i \<and> assigned_channel new = assigned_channel old)"

text \<open>The state a CRTC has once an atomic state is committed.\<close>
definition new_state :: "vc4_crtc_state list \<Rightarrow> crtc_pairs \<Rightarrow> nat \<Rightarrow> vc4_crtc_state" where
  "new_state css cs i = (case cs ! i of None \<Rightarrow> css ! i | Some (_, new) \<Rightarrow> new)"

definition frees :: "u32 \<Rightarrow> vc4_hvs_state \<Rightarrow> bool" where
  "frees u hvs \<longleftrightarrow> (\<forall>c. bit u c \<longrightarrow> c < HVS_NUM_CHANNELS \<and> \<not> used hvs c)"

text \<open>What the check makes of a pair of states, \<open>u\<close> being the channels it may give out.\<close>
fun muxed :: "u32 \<Rightarrow> vc4_crtc_state \<times> vc4_crtc_state \<Rightarrow> vc4_crtc_state \<times> vc4_crtc_state \<Rightarrow> bool" where
  "muxed u (old, new) (old', new') \<longleftrightarrow>
     old' = old \<and>
     (if cs_enable old = cs_enable new then new' = new
      else if cs_enable new then \<exists>c. bit u c \<and> new' = new\<lparr>update_muxing := True, assigned_channel := of_nat c\<rparr>
      else new' = new\<lparr>update_muxing := True, assigned_channel := VC4_HVS_CHANNEL_DISABLED\<rparr>)"

definition assigned :: "vc4_crtc list \<Rightarrow> u32 \<Rightarrow> vc4_crtc_state list \<Rightarrow> crtc_pairs \<Rightarrow> nat set \<Rightarrow> vc4_hvs_state \<Rightarrow> crtc_pairs \<Rightarrow> bool" where
  "assigned crtcs u css cs I hvs' cs' \<longleftrightarrow>
     length cs' = length cs \<and> (\<forall>i. i \<notin> I \<longrightarrow> cs' ! i = cs ! i) \<and>
     (\<forall>i\<in>I. rel_option (muxed u) (cs ! i) (cs' ! i)) \<and>
     (\<exists>css'. channels_wf crtcs css' hvs' \<and> (\<forall>i. i \<notin> I \<longrightarrow> css' ! i = css ! i) \<and> (\<forall>i\<in>I. css' ! i = new_state css cs' i))"

lemma unat_channel: "c < HVS_NUM_CHANNELS \<Longrightarrow> unat (of_nat c :: u32) = c"
  by (simp add: HVS_NUM_CHANNELS_def unat_of_nat take_bit_eq_mod)

lemma muxed_mono: "muxed u p q \<Longrightarrow> (\<And>c. bit u c \<Longrightarrow> bit u' c) \<Longrightarrow> muxed u' p q"
  by (cases p; cases q) (auto split: if_splits)

text \<open>Processing the first CRTC, then the others.\<close>
lemma assigned_step:
  assumes rest: "assigned crtcs u' (css[i := s]) (cs[i := c]) I hvs' cs'"
    and sub: "\<And>c. bit u' c \<Longrightarrow> bit u c"
    and i: "i \<notin> I" "i < length cs" "i < length css"
    and first: "rel_option (muxed u) (cs ! i) c" "s = (case c of None \<Rightarrow> css ! i | Some (_, new) \<Rightarrow> new)"
  shows "assigned crtcs u css cs (insert i I) hvs' cs'"
proof -
  from rest obtain css' where len: "length cs' = length cs" and out: "\<And>j. j \<notin> I \<Longrightarrow> cs' ! j = cs[i := c] ! j"
    and rel: "\<And>j. j \<in> I \<Longrightarrow> rel_option (muxed u') (cs[i := c] ! j) (cs' ! j)"
    and wf: "channels_wf crtcs css' hvs'" and cout: "\<And>j. j \<notin> I \<Longrightarrow> css' ! j = css[i := s] ! j"
    and cin: "\<And>j. j \<in> I \<Longrightarrow> css' ! j = new_state (css[i := s]) cs' j"
    unfolding assigned_def by auto
  have ne: "j \<noteq> i" if "j \<in> I" for j using that i(1) by blast
  have "rel_option (muxed u) (cs ! j) (cs' ! j)" if "j \<in> I" for j
    using rel [OF that] ne [OF that] by (auto elim!: option.rel_mono_strong intro: muxed_mono [OF _ sub])
  moreover have "cs' ! i = c" using out [OF i(1)] i(2) by simp
  moreover have "new_state (css[i := s]) cs' j = new_state css cs' j" if "j \<in> I" for j
    using ne [OF that] by (auto simp: new_state_def split: option.split)
  moreover have "css' ! i = new_state css cs' i"
    using cout [OF i(1)] i(3) first(2) \<open>cs' ! i = c\<close> by (simp add: new_state_def)
  ultimately show ?thesis
    unfolding assigned_def using len out wf cout first(1) cin by (auto intro!: exI [of _ css'])
qed

lemma frees_match:
  assumes "frees u hvs" "length (hvs_fifos hvs) = HVS_NUM_CHANNELS" "u AND a \<noteq> 0"
  defines "c \<equiv> ffs (u AND a) - 1"
  shows "bit u c" "bit a c" "c < HVS_NUM_CHANNELS" "\<not> used hvs c" "unat (of_nat c :: u32) = c"
    "\<exists>hvs'. upd_fifo (of_nat c) (\<lambda>f. f\<lparr>in_use := True\<rparr>) hvs = Some hvs' \<and> frees (u AND NOT (push_bit c 1)) hvs'"
proof -
  have b: "bit u c" "bit a c" using ffs_bit [OF assms(3)] by (auto simp: c_def bit_and_iff)
  then have lt: "c < HVS_NUM_CHANNELS" and free: "\<not> used hvs c" using assms(1) by (auto simp: frees_def)
  then have un: "unat (of_nat c :: u32) = c" by (simp add: unat_channel)
  show "bit u c" "bit a c" "c < HVS_NUM_CHANNELS" "\<not> used hvs c" "unat (of_nat c :: u32) = c" by (fact b lt free un)+
  obtain hvs' where h: "upd_fifo (of_nat c) (\<lambda>f. f\<lparr>in_use := True\<rparr>) hvs = Some hvs'"
    using lt un assms(2) by (auto simp: upd_fifo_def)
  have "frees (u AND NOT (push_bit c 1)) hvs'"
    using assms(1) upd_fifo_used(3) [OF h]
    by (auto simp: frees_def un bit_and_iff bit_not_iff bit_exp_iff dest: bit_imp_le_length)
  with h show "\<exists>hvs'. upd_fifo (of_nat c) (\<lambda>f. f\<lparr>in_use := True\<rparr>) hvs = Some hvs' \<and> frees (u AND NOT (push_bit c 1)) hvs'"
    by blast
qed


definition enabling :: "crtc_pairs \<Rightarrow> nat \<Rightarrow> bool" where
  "enabling cs i = (case cs ! i of None \<Rightarrow> False | Some (old, new) \<Rightarrow> \<not> cs_enable old \<and> cs_enable new)"

abbreviation avail :: "vc4_crtc list \<Rightarrow> nat \<Rightarrow> u32" where
  "avail crtcs i \<equiv> hvs_available_channels (crtc_data (crtcs ! i))"

text \<open>
  One round of the loop: it fails because no channel is left for the CRTC, or goes on with the channels \<open>u'\<close>, the channel states
  \<open>hvs'\<close>, and the pair \<open>c\<close>, which makes \<open>s\<close> the state of the CRTC.
\<close>
definition mux_round ::
    "vc4_crtc list \<Rightarrow> nat \<Rightarrow> u32 \<Rightarrow> vc4_crtc_state list \<Rightarrow> vc4_hvs_state \<Rightarrow> crtc_pairs \<Rightarrow>
     u32 \<Rightarrow> vc4_hvs_state \<Rightarrow> (vc4_crtc_state \<times> vc4_crtc_state) option \<Rightarrow> vc4_crtc_state \<Rightarrow> bool" where
  "mux_round crtcs i u css hvs cs u' hvs' c s \<longleftrightarrow>
     channels_wf crtcs (css[i := s]) hvs' \<and> frees u' hvs' \<and>
     (if enabling cs i then \<exists>k. bit u k \<and> bit (avail crtcs i) k \<and> u' = u AND NOT (push_bit k 1) else u' = u) \<and>
     rel_option (muxed u) (cs ! i) c \<and> s = (case c of None \<Rightarrow> css ! i | Some (_, new) \<Rightarrow> new)"

lemma mux_round_sub: "mux_round crtcs i u css hvs cs u' hvs' c s \<Longrightarrow> bit u' k \<Longrightarrow> bit u k"
  by (auto simp: mux_round_def bit_and_iff split: if_splits)

lemma mux_round_off:
  assumes wf: "channels_wf crtcs css hvs" "frees u hvs" "i < length crtcs"
    and p: "cs ! i = Some (old, new)" "old = css ! i" "cs_enable old" "\<not> cs_enable new"
  shows "\<exists>u' hvs' c s. mux_round crtcs i u css hvs cs u' hvs' c s \<and>
           pv_muxing_loop crtcs (i # js) u hvs cs = pv_muxing_loop crtcs js u' hvs' (cs[i := c])"
proof -
  let ?s = "new\<lparr>update_muxing := True, assigned_channel := VC4_HVS_CHANNEL_DISABLED\<rparr>"
  have "unat (assigned_channel old) < length (hvs_fifos hvs)"
    using wf p by (auto simp: channels_wf_def crtc_channel_ok_def chan_def routed_def)
  then obtain hvs1 where h: "upd_fifo (assigned_channel old) (\<lambda>f. f\<lparr>in_use := False\<rparr>) hvs = Some hvs1"
    by (auto simp: upd_fifo_def)
  have "channels_wf crtcs (css[i := ?s]) hvs1"
    using wf(1,3) by (rule channels_wf_release) (use p h in auto)
  moreover have "frees u hvs1" using wf(2) upd_fifo_used(3) [OF h] by (auto simp: frees_def)
  ultimately have "mux_round crtcs i u css hvs cs u hvs1 (Some (old, ?s)) ?s"
    using p by (simp add: mux_round_def enabling_def)
  moreover have "pv_muxing_loop crtcs (i # js) u hvs cs = pv_muxing_loop crtcs js u hvs1 (cs[i := Some (old, ?s)])"
    using p h by simp
  ultimately show ?thesis by blast
qed

lemma mux_round_on:
  assumes wf: "channels_wf crtcs css hvs" "frees u hvs" "i < length crtcs"
    and p: "cs ! i = Some (old, new)" "old = css ! i" "\<not> cs_enable old" "cs_enable new"
    and m: "u AND hvs_available_channels (crtc_data (crtcs ! i)) \<noteq> 0"
  defines "k \<equiv> ffs (u AND hvs_available_channels (crtc_data (crtcs ! i))) - 1"
  shows "\<exists>hvs' c s. mux_round crtcs i u css hvs cs (u AND NOT (push_bit k 1)) hvs' c s \<and>
           pv_muxing_loop crtcs (i # js) u hvs cs = pv_muxing_loop crtcs js (u AND NOT (push_bit k 1)) hvs' (cs[i := c])"
proof -
  let ?s = "new\<lparr>update_muxing := True, assigned_channel := of_nat k\<rparr>"
  have "length (hvs_fifos hvs) = HVS_NUM_CHANNELS" using wf(1) by (simp add: channels_wf_def)
  note fm = frees_match [OF wf(2) this m, folded k_def]
  from fm(6) obtain hvs1 where h: "upd_fifo (of_nat k) (\<lambda>f. f\<lparr>in_use := True\<rparr>) hvs = Some hvs1"
    "frees (u AND NOT (push_bit k 1)) hvs1" by blast
  have "channels_wf crtcs (css[i := ?s]) hvs1"
    using wf(1,3) by (rule channels_wf_acquire [where ch = "of_nat k"]) (use p h fm in \<open>auto simp: routed_def\<close>)
  then have "mux_round crtcs i u css hvs cs (u AND NOT (push_bit k 1)) hvs1 (Some (old, ?s)) ?s"
    using p h(2) fm(1,2) by (auto simp: mux_round_def enabling_def)
  moreover have "pv_muxing_loop crtcs (i # js) u hvs cs =
      pv_muxing_loop crtcs js (u AND NOT (push_bit k 1)) hvs1 (cs[i := Some (old, ?s)])"
    using p h(1) m fm(5) by (simp add: k_def Let_def)
  ultimately show ?thesis by blast
qed

lemma mux_round_skip:
  assumes wf: "channels_wf crtcs css hvs" "frees u hvs" "i < length crtcs" "pair_ok css cs i"
    and skip: "\<forall>old new. cs ! i = Some (old, new) \<longrightarrow> cs_enable old = cs_enable new"
  shows "\<exists>s. mux_round crtcs i u css hvs cs u hvs (cs ! i) s \<and>
           pv_muxing_loop crtcs (i # js) u hvs cs = pv_muxing_loop crtcs js u hvs (cs[i := cs ! i])"
proof -
  have same: "chan (new_state css cs i) = chan (css ! i) \<and> assigned_channel (new_state css cs i) = assigned_channel (css ! i)"
  proof (cases "cs ! i")
    case (Some p)
    obtain old new where p: "cs ! i = Some (old, new)" using Some by (cases p) auto
    then have "cs_enable old = cs_enable new" "css ! i = old" "assigned_channel new = assigned_channel old"
      using skip wf(4) unfolding pair_ok_def by auto
    then show ?thesis using p by (simp add: new_state_def chan_def)
  qed (simp add: new_state_def)
  then have "channels_wf crtcs (css[i := new_state css cs i]) hvs"
    using channels_wf_same [OF wf(1,3)] by blast
  moreover have noten: "\<not> enabling cs i" using skip by (cases "cs ! i") (auto simp: enabling_def)
  moreover have "rel_option (muxed u) (cs ! i) (cs ! i)" using skip by (cases "cs ! i") auto
  ultimately have "mux_round crtcs i u css hvs cs u hvs (cs ! i) (new_state css cs i)"
    using wf(2) noten by (simp add: mux_round_def new_state_def)
  moreover have "pv_muxing_loop crtcs (i # js) u hvs cs = pv_muxing_loop crtcs js u hvs (cs[i := cs ! i])"
    unfolding list_update_id using skip by (cases "cs ! i") auto
  ultimately show ?thesis by blast
qed

lemma mux_round_cases:
  assumes wf: "channels_wf crtcs css hvs" "frees u hvs" "i < length crtcs" "pair_ok css cs i"
  obtains (stop) old new hvs' cs' where "cs ! i = Some (old, new)" "\<not> cs_enable old" "cs_enable new"
      "u AND hvs_available_channels (crtc_data (crtcs ! i)) = 0"
      "pv_muxing_loop crtcs (i # js) u hvs cs = Some (Inl EINVAL, hvs', cs')"
  | (go) u' hvs' c s where "mux_round crtcs i u css hvs cs u' hvs' c s"
      "pv_muxing_loop crtcs (i # js) u hvs cs = pv_muxing_loop crtcs js u' hvs' (cs[i := c])"
proof (cases "\<forall>old new. cs ! i = Some (old, new) \<longrightarrow> cs_enable old = cs_enable new")
  case True
  then show ?thesis using mux_round_skip [OF wf True] go by blast
next
  case False
  then obtain old new where p: "cs ! i = Some (old, new)" "cs_enable old \<noteq> cs_enable new" by blast
  then have old: "old = css ! i" using wf(4) by (simp add: pair_ok_def)
  show ?thesis
  proof (cases "cs_enable new")
    case False
    then show ?thesis using mux_round_off [OF wf(1-3) p(1) old] p(2) go by blast
  next
    case on: True
    show ?thesis
    proof (cases "u AND hvs_available_channels (crtc_data (crtcs ! i)) = 0")
      case True
      then show ?thesis using stop [of old new] p on by simp
    next
      case False
      then show ?thesis using mux_round_on [OF wf(1-3) p(1) old _ on False] p(2) on go by blast
    qed
  qed
qed

lemma pair_ok_update_other: "j \<noteq> i \<Longrightarrow> pair_ok (css[i := s]) (cs[i := c]) j = pair_ok css cs j"
  by (simp add: pair_ok_def split: option.split)

lemma pv_muxing_loop_assigns:
  assumes "channels_wf crtcs css hvs" "frees u hvs" "distinct js" "set js \<subseteq> {..<length crtcs}" "length cs = length crtcs"
    "\<forall>i\<in>set js. pair_ok css cs i"
  shows "\<exists>r hvs' cs'. pv_muxing_loop crtcs js u hvs cs = Some (r, hvs', cs') \<and>
           (r = Inr () \<and> assigned crtcs u css cs (set js) hvs' cs' \<or> r = Inl EINVAL)"
  using assms
proof (induction js arbitrary: u css hvs cs)
  case Nil
  then show ?case by (auto simp: assigned_def)
next
  case (Cons i js')
  have i: "i < length crtcs" "i \<notin> set js'" "i < length css" "i < length cs" "pair_ok css cs i"
    using Cons.prems by (auto simp: channels_wf_def)
  from Cons.prems(1,2) i(1,5) show ?case
  proof (cases rule: mux_round_cases [where js = js'])
    case stop
    then show ?thesis by auto
  next
    case (go u' hvs1 c s)
    have "\<forall>j\<in>set js'. pair_ok (css[i := s]) (cs[i := c]) j"
      using Cons.prems(6) i(2) by (metis list.set_intros(2) pair_ok_update_other)
    with Cons.IH [of "css[i := s]" hvs1 u' "cs[i := c]"] go Cons.prems(3-5)
    obtain r hvs' cs' where "pv_muxing_loop crtcs js' u' hvs1 (cs[i := c]) = Some (r, hvs', cs')"
      "r = Inr () \<and> assigned crtcs u' (css[i := s]) (cs[i := c]) (set js') hvs' cs' \<or> r = Inl EINVAL"
      by (auto simp: mux_round_def)
    then show ?thesis
      using go assigned_step [of crtcs u' css i s cs c "set js'" hvs' cs' u] i mux_round_sub [OF go(1)]
      by (auto simp: mux_round_def)
  qed
qed


subsection \<open>The order of the outputs is enough\<close>

text \<open>A channel for each CRTC that is being enabled, from \<open>u\<close> and from its routes, no two the same.\<close>
definition assignment :: "vc4_crtc list \<Rightarrow> u32 \<Rightarrow> nat set \<Rightarrow> (nat \<Rightarrow> nat) \<Rightarrow> bool" where
  "assignment crtcs u E f \<longleftrightarrow> (\<forall>i\<in>E. bit u (f i) \<and> bit (avail crtcs i) (f i)) \<and> inj_on f E"

definition nested :: "u32 \<Rightarrow> u32 \<Rightarrow> bool" where
  "nested a b \<longleftrightarrow> a AND b = 0 \<or> a AND b = a"

lemma nestedD: "nested a b \<Longrightarrow> bit a c \<Longrightarrow> bit b c \<Longrightarrow> bit a d \<Longrightarrow> bit b d"
  unfolding nested_def by (metis bit_0_eq bit_and_iff bot_apply bot_bool_def)

text \<open>An assignment can be changed so that the first CRTC gets the channel that the loop picks.\<close>
lemma assignment_exchange:
  assumes f: "assignment crtcs u (insert i E) f" and i: "i \<notin> E"
    and nest: "\<And>j. j \<in> E \<Longrightarrow> nested (avail crtcs i) (avail crtcs j)"
    and k: "bit (avail crtcs i) k"
  shows "\<exists>g. assignment crtcs (u AND NOT (push_bit k 1)) E g"
proof -
  define g where "g j = (if f j = k then f i else f j)" for j
  have fi: "bit u (f i)" "bit (avail crtcs i) (f i)" using f by (auto simp: assignment_def)
  have inj: "f j \<noteq> f i" if "j \<in> E" for j
    using f that i unfolding assignment_def by (metis inj_on_eq_iff insert_iff)
  have "bit u (g j)" "bit (avail crtcs j) (g j)" "g j \<noteq> k" if j: "j \<in> E" for j
  proof -
    have fj: "bit u (f j)" "bit (avail crtcs j) (f j)" using f j by (auto simp: assignment_def)
    then show "bit u (g j)" using fi by (simp add: g_def)
    show "bit (avail crtcs j) (g j)"
      using fj fi k nestedD [OF nest [OF j], of k "f i"] by (auto simp: g_def)
    show "g j \<noteq> k" using inj [OF j] by (auto simp: g_def)
  qed
  moreover have "inj_on g E"
    using f inj by (auto simp: g_def inj_on_def assignment_def split: if_splits)
  moreover have "g j < 32" if "j \<in> E" for j
    using calculation(1) [OF that] bit_imp_le_length [of u "g j"] by simp
  ultimately show ?thesis
    by (intro exI [of _ g]) (auto simp: assignment_def bit_and_iff bit_not_iff bit_exp_iff)
qed

lemma assignment_step:
  assumes "mux_round crtcs i u css hvs cs u' hvs' c s" "i \<notin> set js"
    and "assignment crtcs u {j \<in> set (i # js). enabling cs j} f"
    and "\<forall>j\<in>set js. nested (avail crtcs i) (avail crtcs j)"
  shows "\<exists>g. assignment crtcs u' {j \<in> set js. enabling (cs[i := c]) j} g"
proof -
  let ?E = "{j \<in> set js. enabling cs j}"
  have same: "{j \<in> set js. enabling (cs[i := c]) j} = ?E"
    using assms(2) by (intro Collect_cong conj_cong refl) (metis enabling_def nth_list_update_neq)
  show ?thesis
  proof (cases "enabling cs i")
    case True
    with assms(1) obtain k where k: "bit (avail crtcs i) k" "u' = u AND NOT (push_bit k 1)" by (auto simp: mux_round_def)
    have "{j \<in> set (i # js). enabling cs j} = insert i ?E" using True by auto
    then show ?thesis using assignment_exchange [of crtcs u i ?E f k] assms(2-4) k same by auto
  next
    case False
    then have "u' = u" "{j \<in> set (i # js). enabling cs j} = ?E" using assms(1) by (auto simp: mux_round_def)
    then show ?thesis using assms(3) same by auto
  qed
qed

text \<open>When the routes of each CRTC are within those of every later one, or apart from them, the loop finds a channel for all if it can be done.\<close>
lemma pv_muxing_loop_complete:
  assumes "channels_wf crtcs css hvs" "frees u hvs" "distinct js" "set js \<subseteq> {..<length crtcs}" "length cs = length crtcs"
    "\<forall>i\<in>set js. pair_ok css cs i" "assignment crtcs u {i \<in> set js. enabling cs i} f"
    "sorted_wrt (\<lambda>i j. nested (avail crtcs i) (avail crtcs j)) js"
  shows "\<exists>hvs' cs'. pv_muxing_loop crtcs js u hvs cs = Some (Inr (), hvs', cs')"
  using assms
proof (induction js arbitrary: u css hvs cs f)
  case (Cons i js')
  have i: "i < length crtcs" "i \<notin> set js'" "pair_ok css cs i" using Cons.prems by auto
  from Cons.prems(1,2) i(1,3) show ?case
  proof (cases rule: mux_round_cases [where js = js'])
    case (stop old new)
    then have "enabling cs i" by (simp add: enabling_def)
    then have "bit u (f i)" "bit (avail crtcs i) (f i)" using Cons.prems(7) by (auto simp: assignment_def)
    then have "bit (u AND avail crtcs i) (f i)" by (simp add: bit_and_iff)
    then show ?thesis using stop(4) by simp
  next
    case (go u' hvs1 c s)
    obtain g where "assignment crtcs u' {j \<in> set js'. enabling (cs[i := c]) j} g"
      using assignment_step [OF go(1) i(2) Cons.prems(7)] Cons.prems(8) by auto
    moreover have "\<forall>j\<in>set js'. pair_ok (css[i := s]) (cs[i := c]) j"
      using Cons.prems(6) i(2) by (metis list.set_intros(2) pair_ok_update_other)
    ultimately show ?thesis
      using Cons.IH [of "css[i := s]" hvs1 u' "cs[i := c]" g] go Cons.prems(3-5,8) by (auto simp: mux_round_def)
  qed
qed simp

subsection \<open>The check of the channels\<close>

lemma bit_free_channels:
  assumes "length (hvs_fifos hvs) \<le> 32"
  shows "bit (free_channels hvs) c \<longleftrightarrow> c < length (hvs_fifos hvs) \<and> \<not> used hvs c"
proof -
  have "bit (fold (\<lambda>i w. if in_use (hvs_fifos hvs ! i) then w else w OR push_bit i 1) [0..<n] (0 :: u32)) c
        \<longleftrightarrow> c < n \<and> \<not> used hvs c" if "n \<le> 32" for n
    using that by (induction n) (auto simp: used_def bit_or_iff bit_exp_iff less_Suc_eq)
  from this [OF assms] show ?thesis unfolding free_channels_def .
qed

lemma channels_wf_cong:
  assumes wf: "channels_wf crtcs css hvs" and len: "length (hvs_fifos hvs') = length (hvs_fifos hvs)"
    and u: "\<And>c. c < HVS_NUM_CHANNELS \<Longrightarrow> used hvs' c = used hvs c"
  shows "channels_wf crtcs css hvs'"
proof -
  have "crtc_channel_ok crtcs hvs' i s = crtc_channel_ok crtcs hvs i s" for i s
    using u by (auto simp: crtc_channel_ok_def routed_def split: option.split)
  then show ?thesis using wf len u by (simp add: channels_wf_def)
qed

lemma channels_wf_duplicate:
  "channels_wf crtcs css hvs \<Longrightarrow> channels_wf crtcs css (vc4_hvs_channels_duplicate_state hvs)"
  by (rule channels_wf_cong [of _ _ hvs]) (auto simp: vc4_hvs_channels_duplicate_state_def used_def channels_wf_def)

text \<open>An atomic state as the DRM core hands it to the check: the states in it are duplicates of the current ones.\<close>
definition atomic_ok :: "vc4_kms \<Rightarrow> drm_atomic_state \<Rightarrow> bool" where
  "atomic_ok dev st \<longleftrightarrow>
     length (as_crtcs st) = length (kms_crtcs dev) \<and> (\<forall>i<length (kms_crtcs dev). pair_ok (crtc_states dev) (as_crtcs st) i) \<and>
     as_hvs st = None \<and> as_load st = None"

text \<open>What \<open>sort\<close> of the kernel promises.\<close>
definition sorts :: "kms_env \<Rightarrow> bool" where
  "sorts env \<longleftrightarrow> (\<forall>key xs. mset (env_sort env key xs) = mset xs \<and> sorted (map key (env_sort env key xs)))"

definition kms_ok :: "vc4_kms \<Rightarrow> bool" where
  "kms_ok dev \<longleftrightarrow> \<not> firmware_kms dev \<and> channels_wf (kms_crtcs dev) (crtc_states dev) (hvs_channels dev)"

abbreviation new_channels :: "vc4_kms \<Rightarrow> vc4_hvs_state" where
  "new_channels dev \<equiv> vc4_hvs_channels_duplicate_state (hvs_channels dev)"

abbreviation sorted_crtcs :: "kms_env \<Rightarrow> vc4_kms \<Rightarrow> nat list" where
  "sorted_crtcs env dev \<equiv> env_sort env (\<lambda>i. hvs_output (crtc_data (kms_crtcs dev ! i))) [0..<length (kms_crtcs dev)]"

lemma sorted_crtcs_set:
  assumes "sorts env"
  shows "set (sorted_crtcs env dev) = {..<length (kms_crtcs dev)}" "distinct (sorted_crtcs env dev)"
proof -
  have m: "mset (sorted_crtcs env dev) = mset [0..<length (kms_crtcs dev)]" using assms unfolding sorts_def by blast
  show "set (sorted_crtcs env dev) = {..<length (kms_crtcs dev)}" using mset_eq_setD [OF m] atLeast_upt by metis
  show "distinct (sorted_crtcs env dev)" using mset_eq_imp_distinct_iff [OF m] distinct_upt by blast
qed

lemma loop_start:
  assumes "kms_ok dev"
  shows "channels_wf (kms_crtcs dev) (crtc_states dev) (new_channels dev)" "frees (free_channels (new_channels dev)) (new_channels dev)"
proof -
  show wf: "channels_wf (kms_crtcs dev) (crtc_states dev) (new_channels dev)"
    using assms unfolding kms_ok_def by (blast intro: channels_wf_duplicate)
  then have "length (hvs_fifos (new_channels dev)) = HVS_NUM_CHANNELS" by (simp add: channels_wf_def)
  then show "frees (free_channels (new_channels dev)) (new_channels dev)"
    using bit_free_channels [of "new_channels dev"] by (auto simp: frees_def HVS_NUM_CHANNELS_def)
qed

text \<open>What an accepted check leaves in the atomic state.\<close>
definition muxing_done :: "vc4_kms \<Rightarrow> drm_atomic_state \<Rightarrow> drm_atomic_state \<Rightarrow> bool" where
  "muxing_done dev st st' \<longleftrightarrow>
     (\<exists>hvs' cs'. st' = st\<lparr>as_crtcs := cs', as_hvs := Some (hvs_channels dev, hvs')\<rparr> \<and>
        assigned (kms_crtcs dev) (free_channels (new_channels dev)) (crtc_states dev) (as_crtcs st) {..<length (kms_crtcs dev)} hvs' cs')"

lemma muxing_check_cases:
  assumes "kms_ok dev" "atomic_ok dev st" "sorts env"
  obtains (err) e st' where "vc4_pv_muxing_atomic_check env dev st = Some (Inl e, st')"
  | (ok) st' where "vc4_pv_muxing_atomic_check env dev st = Some (Inr (), st')" "muxing_done dev st st'"
proof -
  let ?js = "sorted_crtcs env dev"
  note js = sorted_crtcs_set [OF assms(3), of dev] and start = loop_start [OF assms(1)]
  have fw: "\<not> firmware_kms dev" using assms(1) by (simp add: kms_ok_def)
  have hvs: "as_hvs st = None" and len: "length (as_crtcs st) = length (kms_crtcs dev)" using assms(2) by (auto simp: atomic_ok_def)
  have "\<forall>i\<in>set ?js. pair_ok (crtc_states dev) (as_crtcs st) i" using assms(2) js by (simp add: atomic_ok_def)
  with pv_muxing_loop_assigns [OF start js(2) _ len] js(1)
  obtain r hvs' cs' where loop: "pv_muxing_loop (kms_crtcs dev) ?js (free_channels (new_channels dev)) (new_channels dev) (as_crtcs st) = Some (r, hvs', cs')"
    and r: "r = Inr () \<and> assigned (kms_crtcs dev) (free_channels (new_channels dev)) (crtc_states dev) (as_crtcs st) (set ?js) hvs' cs' \<or> r = Inl EINVAL"
    by auto
  show ?thesis
  proof (cases "env_hvs_err env = None \<and> env_crtc_array env")
    case False
    then show ?thesis using err fw hvs
      by (cases "env_hvs_err env") (auto simp: vc4_pv_muxing_atomic_check_def vc4_hvs_get_global_state_def Let_def)
  next
    case True
    then have "vc4_pv_muxing_atomic_check env dev st = Some (r, st\<lparr>as_crtcs := cs', as_hvs := Some (hvs_channels dev, hvs')\<rparr>)"
      using fw hvs loop by (simp add: vc4_pv_muxing_atomic_check_def vc4_hvs_get_global_state_def set_new_hvs_def Let_def)
    then show ?thesis using r err ok js(1) by (auto simp: muxing_done_def)
  qed
qed

lemma muxing_done_wf:
  assumes "muxing_done dev st st'"
  shows "\<exists>hvs'. as_hvs st' = Some (hvs_channels dev, hvs') \<and>
           channels_wf (kms_crtcs dev) (map (new_state (crtc_states dev) (as_crtcs st')) [0..<length (kms_crtcs dev)]) hvs'"
proof -
  from assms obtain hvs' cs' css' where st': "st' = st\<lparr>as_crtcs := cs', as_hvs := Some (hvs_channels dev, hvs')\<rparr>"
    and wf: "channels_wf (kms_crtcs dev) css' hvs'" and css': "\<forall>i<length (kms_crtcs dev). css' ! i = new_state (crtc_states dev) cs' i"
    by (auto simp: muxing_done_def assigned_def)
  have "css' = map (new_state (crtc_states dev) (as_crtcs st')) [0..<length (kms_crtcs dev)]"
    using wf css' st' by (intro nth_equalityI) (auto simp: channels_wf_def)
  then show ?thesis using wf st' by auto
qed

text \<open>In order of their outputs, the routes of each CRTC are within those of every later one or apart from them.\<close>
definition layout_ok :: "vc4_crtc list \<Rightarrow> bool" where
  "layout_ok crtcs \<longleftrightarrow> (\<forall>i<length crtcs. \<forall>j<length crtcs.
     i \<noteq> j \<longrightarrow> hvs_output (crtc_data (crtcs ! i)) \<le> hvs_output (crtc_data (crtcs ! j)) \<longrightarrow> nested (avail crtcs i) (avail crtcs j))"

lemma all_less_list_all: "(\<forall>i<n. P i) \<longleftrightarrow> list_all P [0..<n]"
  by (auto simp: list_all_iff)

lemma layouts_ok: "layout_ok bcm2835_crtcs" "layout_ok bcm2711_crtcs" "layout_ok bcm2712_crtcs"
  unfolding layout_ok_def all_less_list_all by code_simp+

lemma free_channels_duplicate: "free_channels (vc4_hvs_channels_duplicate_state hvs) = free_channels hvs"
  unfolding free_channels_def vc4_hvs_channels_duplicate_state_def by (rule fold_cong) auto

lemma sorted_crtcs_nested:
  assumes "sorts env" "layout_ok (kms_crtcs dev)"
  shows "sorted_wrt (\<lambda>i j. nested (avail (kms_crtcs dev) i) (avail (kms_crtcs dev) j)) (sorted_crtcs env dev)"
proof -
  let ?js = "sorted_crtcs env dev"
  note js = sorted_crtcs_set [OF assms(1), of dev]
  have "sorted_wrt (\<lambda>i j. hvs_output (crtc_data (kms_crtcs dev ! i)) \<le> hvs_output (crtc_data (kms_crtcs dev ! j))) ?js"
    using assms(1) unfolding sorts_def by (metis sorted_map)
  then have le: "hvs_output (crtc_data (kms_crtcs dev ! (?js ! a))) \<le> hvs_output (crtc_data (kms_crtcs dev ! (?js ! b)))"
    if "a < b" "b < length ?js" for a b
    using that by (simp add: sorted_wrt_iff_nth_less)
  have lt: "?js ! a < length (kms_crtcs dev)" if "a < length ?js" for a using nth_mem [OF that] js(1) by auto
  have "?js ! a \<noteq> ?js ! b" if "a < b" "b < length ?js" for a b
    using nth_eq_iff_index_eq [OF js(2), of a b] that by simp
  with le lt have "nested (avail (kms_crtcs dev) (?js ! a)) (avail (kms_crtcs dev) (?js ! b))" if "a < b" "b < length ?js" for a b
    using that assms(2) unfolding layout_ok_def by (meson order.strict_trans)
  then show ?thesis by (simp add: sorted_wrt_iff_nth_less)
qed

text \<open>The channels of an accepted check are an assignment.\<close>
lemma muxing_done_assignment:
  assumes "muxing_done dev st st'"
  shows "\<exists>f. assignment (kms_crtcs dev) (free_channels (hvs_channels dev)) {i. i < length (kms_crtcs dev) \<and> enabling (as_crtcs st) i} f"
proof -
  let ?n = "length (kms_crtcs dev)" and ?u = "free_channels (new_channels dev)"
  from assms obtain hvs' cs' css' where wf: "channels_wf (kms_crtcs dev) css' hvs'"
    and css': "\<And>i. i < ?n \<Longrightarrow> css' ! i = new_state (crtc_states dev) cs' i"
    and rel: "\<And>i. i < ?n \<Longrightarrow> rel_option (muxed ?u) (as_crtcs st ! i) (cs' ! i)"
    by (auto simp: muxing_done_def assigned_def)
  have on: "chan (css' ! i) = Some (assigned_channel (css' ! i))" "bit ?u (unat (assigned_channel (css' ! i)))"
    if en: "i < ?n" "enabling (as_crtcs st) i" for i
  proof -
    obtain old new where p: "as_crtcs st ! i = Some (old, new)" "\<not> cs_enable old" "cs_enable new"
      using en(2) by (auto simp: enabling_def split: option.splits)
    then obtain c where c: "bit ?u c" "cs' ! i = Some (old, new\<lparr>update_muxing := True, assigned_channel := of_nat c\<rparr>)"
      using rel [OF en(1)] by (auto simp: option_rel_Some1)
    moreover have "unat (of_nat c :: u32) = c" using bit_imp_le_length [OF c(1)] by (simp add: unat_of_nat take_bit_eq_mod)
    ultimately show "chan (css' ! i) = Some (assigned_channel (css' ! i))" "bit ?u (unat (assigned_channel (css' ! i)))"
      using css' [OF en(1)] p by (simp_all add: new_state_def chan_def)
  qed
  have "bit (avail (kms_crtcs dev) i) (unat (assigned_channel (css' ! i)))" if "i < ?n" "enabling (as_crtcs st) i" for i
    using wf that on(1) [OF that] by (auto simp: channels_wf_def crtc_channel_ok_def routed_def dest!: spec [of _ i])
  moreover have "inj_on (\<lambda>i. unat (assigned_channel (css' ! i))) {i. i < ?n \<and> enabling (as_crtcs st) i}"
  proof (rule inj_onI, rule ccontr)
    fix i j assume ij: "i \<in> {i. i < ?n \<and> enabling (as_crtcs st) i}" "j \<in> {i. i < ?n \<and> enabling (as_crtcs st) i}" "i \<noteq> j"
      "unat (assigned_channel (css' ! i)) = unat (assigned_channel (css' ! j))"
    then have "chan (css' ! i) = chan (css' ! j)" "chan (css' ! i) \<noteq> None" using on(1) by (auto simp: word_unat_eq_iff)
    then show False using wf ij unfolding channels_wf_def by blast
  qed
  ultimately show ?thesis using on(2) unfolding assignment_def free_channels_duplicate
    by (intro exI [of _ "\<lambda>i. unat (assigned_channel (css' ! i))"]) simp
qed

text \<open>
  C35. The comment of \<^verbatim>\<open>vc4_pv_muxing_atomic_check\<close> says that giving out the channels in the order of the outputs is enough on the
  layouts there are. It is: on each of them the check accepts a change of modes exactly when every CRTC that is being enabled can be
  given a free channel of its own that it can be routed to, whatever channels the others hold.
\<close>
theorem muxing_finds_assignment:
  assumes "kms_ok dev" "atomic_ok dev st" "sorts env" "env_hvs_err env = None" "env_crtc_array env"
    "kms_crtcs dev \<in> {bcm2835_crtcs, bcm2711_crtcs, bcm2712_crtcs}"
  shows "(\<exists>st'. vc4_pv_muxing_atomic_check env dev st = Some (Inr (), st')) \<longleftrightarrow>
         (\<exists>f. assignment (kms_crtcs dev) (free_channels (hvs_channels dev)) {i. i < length (kms_crtcs dev) \<and> enabling (as_crtcs st) i} f)"
    (is "?ok \<longleftrightarrow> ?fits")
proof
  assume ?ok
  then show ?fits using muxing_check_cases [OF assms(1-3)] muxing_done_assignment by (metis option.inject prod.inject sum.distinct(1))
next
  assume ?fits
  then obtain f where f: "assignment (kms_crtcs dev) (free_channels (new_channels dev)) {i \<in> set (sorted_crtcs env dev). enabling (as_crtcs st) i} f"
    using sorted_crtcs_set(1) [OF assms(3), of dev] by (auto simp: free_channels_duplicate)
  have len: "length (as_crtcs st) = length (kms_crtcs dev)" and hvs: "as_hvs st = None" using assms(2) by (auto simp: atomic_ok_def)
  have "layout_ok (kms_crtcs dev)" using assms(6) layouts_ok by auto
  from pv_muxing_loop_complete [OF loop_start [OF assms(1)] sorted_crtcs_set(2) [OF assms(3)] _ len _ f sorted_crtcs_nested [OF assms(3) this]]
  obtain hvs' cs' where "pv_muxing_loop (kms_crtcs dev) (sorted_crtcs env dev) (free_channels (new_channels dev)) (new_channels dev) (as_crtcs st)
      = Some (Inr (), hvs', cs')"
    using sorted_crtcs_set(1) [OF assms(3), of dev] assms(2) by (auto simp: atomic_ok_def)
  then show ?ok
    using assms(1,4,5) hvs by (simp add: vc4_pv_muxing_atomic_check_def vc4_hvs_get_global_state_def kms_ok_def Let_def)
qed

end
