(* ===== verification/Vc4_Kms_Laws.thy ===== *)
theory Vc4_Kms_Laws
  imports Vc4_Mux_Laws
begin

text \<open>
  The atomic check of vc4 as a whole: the loop on the colour matrix ends, the load tracker holds the sum of the loads of the planes, every
  active CRTC's load is on its channel, the core clock is no slower than any of them needs, and nothing outside the array of channels
  is touched. \<open>kms_inv\<close> is the invariant of the device and \<open>checked\<close> what an accepted request looks like.
\<close>

unbundle bit_operations_syntax

subsection \<open>The colour matrix\<close>

text \<open>Only the matrix of the atomic state differs.\<close>
definition ctm_only :: "drm_atomic_state \<Rightarrow> drm_atomic_state \<Rightarrow> bool" where
  "ctm_only st st' \<longleftrightarrow> st' = st\<lparr>as_ctm := as_ctm st'\<rparr>"

named_theorems frame \<open>what an operation leaves alone\<close>

lemma ctm_only_refl [frame]: "ctm_only st st"
  and ctm_only_update [frame]: "ctm_only st (st\<lparr>as_ctm := c\<rparr>)"
  and ctm_only_set [frame]: "ctm_only st (set_new_ctm n st)"
  by (simp_all add: ctm_only_def set_new_ctm_def)

lemma ctm_only_trans [trans]: "ctm_only a b \<Longrightarrow> ctm_only b c \<Longrightarrow> ctm_only a c"
  unfolding ctm_only_def by (metis drm_atomic_state.fold_congs(5) drm_atomic_state.surjective drm_atomic_state.update_convs(5))

lemma ctm_only_same:
  assumes "ctm_only st st'"
  shows "as_crtcs st' = as_crtcs st" "as_hvs st' = as_hvs st" "as_load st' = as_load st" "as_planes st' = as_planes st"
proof -
  obtain c where "st' = st\<lparr>as_ctm := c\<rparr>" using assms unfolding ctm_only_def by blast
  then show "as_crtcs st' = as_crtcs st" "as_hvs st' = as_hvs st" "as_load st' = as_load st" "as_planes st' = as_planes st"
    by simp_all
qed

lemma vc4_get_ctm_state_frame: "vc4_get_ctm_state env dev st = (r, st') \<Longrightarrow> ctm_only st st'"
  unfolding vc4_get_ctm_state_def by (auto simp: Let_def frame split: option.splits)

lemma ctm_disable_loop_frame: "ctm_disable_loop env dev cs got st = (r, g, st') \<Longrightarrow> ctm_only st st'"
proof (induction cs arbitrary: got st)
  case (Cons x xs)
  obtain r1 st1 where g: "vc4_get_ctm_state env dev st = (r1, st1)" by fastforce
  note st1 = vc4_get_ctm_state_frame [OF g]
  show ?case
    using Cons.prems g Cons.IH st1 ctm_only_trans [OF ctm_only_trans [OF st1 ctm_only_set]]
    by (auto split: option.splits if_splits sum.splits) blast
qed (simp add: frame)

lemma ctm_state_or_get_frame: "ctm_state_or_get env dev got st = (r, st') \<Longrightarrow> ctm_only st st'"
  unfolding ctm_state_or_get_def by (auto simp: frame vc4_get_ctm_state_frame split: if_splits option.splits)

lemma ctm_loop_frame:
  assumes "ctm_loop env dev i got st = Some y"
  shows "ctm_only st (snd y)"
  using assms
proof (rule ctm_loop.raw_induct [rotated])
  fix f :: "kms_env \<Rightarrow> vc4_kms \<Rightarrow> nat \<Rightarrow> bool \<Rightarrow> drm_atomic_state \<Rightarrow> (unit result \<times> drm_atomic_state) option"
    and env dev i got st y
  assume IH: "\<And>env dev i got st y. f env dev i got st = Some y \<Longrightarrow> ctm_only st (snd y)"
  assume body: "(if i \<ge> length (as_crtcs st) then Some (Inr (), st)
      else case as_crtcs st ! i of
        None \<Rightarrow> f env dev (Suc i) got st
      | Some (old, new) \<Rightarrow>
         (if cs_ctm new = cs_ctm old then f env dev (Suc i) got st
          else case ctm_state_or_get env dev got st of
            (Inl e, st1) \<Rightarrow> Some (Inl e, st1)
          | (Inr n, st1) \<Rightarrow>
             (case cs_ctm new of
                None \<Rightarrow> f env dev (Suc i) True st1
              | Some blob \<Rightarrow>
                 (let fifo = sint (assigned_channel new + 1)
                  in if ctm_fifo n \<noteq> 0 \<and> ctm_fifo n \<noteq> fifo then Some (Inl EINVAL, st1)
                     else if \<not> list_all ctm_scalar_ok (take CTM_SIZE (env_ctm_matrix env blob)) then Some (Inl EINVAL, st1)
                     else f env dev (Suc CTM_SIZE) True (set_new_ctm \<lparr>ctm = Some blob, ctm_fifo = fifo\<rparr> st1))))) = Some y"
  obtain r1 st1 where g: "ctm_state_or_get env dev got st = (r1, st1)" by fastforce
  note st1 = ctm_state_or_get_frame [OF g]
  have "ctm_only st (snd y)" if "f env dev j b st1 = Some y" for j b
    using ctm_only_trans [OF st1 IH [OF that]] .
  moreover have "ctm_only st (snd y)" if "f env dev j b (set_new_ctm n st1) = Some y" for j b n
    using ctm_only_trans [OF ctm_only_trans [OF st1 ctm_only_set] IH [OF that]] .
  ultimately show "ctm_only st (snd y)"
    using body st1 IH [of env dev "Suc i" got st y]
    by (auto simp: Let_def g frame split: if_splits option.splits sum.splits)
qed

lemma vc4_ctm_atomic_check_frame:
  assumes "vc4_ctm_atomic_check env dev st = Some (r, st')"
  shows "ctm_only st st'"
proof -
  obtain r1 g st1 where d: "ctm_disable_loop env dev (as_crtcs st) False st = (r1, g, st1)" by (metis prod_cases3)
  note st1 = ctm_disable_loop_frame [OF d]
  show ?thesis
    using assms d st1 ctm_only_trans [OF st1] ctm_loop_frame [of env dev 0 g st1 "(r, st')"]
    by (cases r1) (auto simp: vc4_ctm_atomic_check_def)
qed

text \<open>On a device with at most ten CRTCs, the loop ends; the loop over the matrix then leaves the outer one at its end.\<close>
lemma ctm_loop_returns:
  assumes "length (as_crtcs st) \<le> Suc CTM_SIZE"
  shows "\<exists>y. ctm_loop env dev i got st = Some y"
  using assms
proof (induction "length (as_crtcs st) - i" arbitrary: i got st rule: less_induct)
  case less
  show ?case
  proof (cases "i \<ge> length (as_crtcs st)")
    case True
    then show ?thesis by (simp add: ctm_loop.simps)
  next
    case False
    obtain r1 st1 where g: "ctm_state_or_get env dev got st = (r1, st1)" by fastforce
    then obtain c where c: "st1 = st\<lparr>as_ctm := c\<rparr>" using ctm_state_or_get_frame unfolding ctm_only_def by metis
    have rec: "\<exists>y. ctm_loop env dev (Suc i) b (st\<lparr>as_ctm := d\<rparr>) = Some y" for b d
      using less False by simp
    have rec0: "\<exists>y. ctm_loop env dev (Suc i) b st = Some y" for b using rec [of b "as_ctm st"] by simp
    have last: "\<exists>y. ctm_loop env dev (Suc CTM_SIZE) b (st\<lparr>as_ctm := d\<rparr>) = Some y" for b d
      using less.prems by (subst ctm_loop.simps) simp
    show ?thesis
      by (subst ctm_loop.simps)
        (use g c rec rec0 last in \<open>auto simp: Let_def set_new_ctm_def split: option.splits sum.splits\<close>)
  qed
qed

lemma vc4_ctm_atomic_check_returns:
  assumes "length (as_crtcs st) \<le> Suc CTM_SIZE"
  shows "\<exists>y. vc4_ctm_atomic_check env dev st = Some y"
proof -
  obtain r1 g st1 where d: "ctm_disable_loop env dev (as_crtcs st) False st = (r1, g, st1)" by (metis prod_cases3)
  note crtcs = ctm_only_same(1) [OF ctm_disable_loop_frame [OF d]]
  then show ?thesis using d ctm_loop_returns [of st1 env dev 0 g] assms by (auto simp: vc4_ctm_atomic_check_def split: sum.splits)
qed

subsection \<open>The load tracker\<close>

definition total_load :: "vc4_crtc list \<Rightarrow> (vc4_plane_state \<Rightarrow> u64) \<Rightarrow> vc4_plane_state list \<Rightarrow> u64" where
  "total_load crtcs f ps = (\<Sum>p\<leftarrow>ps. if plane_counts crtcs p then f p else 0)"

definition new_plane :: "vc4_plane_state \<Rightarrow> (vc4_plane_state \<times> vc4_plane_state) option \<Rightarrow> vc4_plane_state" where
  "new_plane p pl = (case pl of None \<Rightarrow> p | Some (_, new) \<Rightarrow> new)"

definition planes_ok :: "vc4_kms \<Rightarrow> drm_atomic_state \<Rightarrow> bool" where
  "planes_ok dev st = list_all2 (\<lambda>p pl. case pl of None \<Rightarrow> True | Some (old, _) \<Rightarrow> old = p) (plane_states dev) (as_planes st)"

lemma total_load_Nil: "total_load crtcs f [] = 0"
  and total_load_Cons: "total_load crtcs f (p # ps) = (if plane_counts crtcs p then f p else 0) + total_load crtcs f ps"
  by (simp_all add: total_load_def)

lemma track_plane_loads:
  assumes "case pl of None \<Rightarrow> True | Some (old, _) \<Rightarrow> old = p"
  shows "hvs_load (track_plane crtcs pl l) + (if plane_counts crtcs p then ps_hvs_load p else 0) =
           hvs_load l + (if plane_counts crtcs (new_plane p pl) then ps_hvs_load (new_plane p pl) else 0)"
    and "membus_load (track_plane crtcs pl l) + (if plane_counts crtcs p then ps_membus_load p else 0) =
           membus_load l + (if plane_counts crtcs (new_plane p pl) then ps_membus_load (new_plane p pl) else 0)"
  using assms by (auto simp: track_plane_def new_plane_def Let_def split: option.splits)

lemma track_planes:
  assumes "list_all2 (\<lambda>p pl. case pl of None \<Rightarrow> True | Some (old, _) \<Rightarrow> old = p) ps pls"
  shows "hvs_load (fold (track_plane crtcs) pls l) + total_load crtcs ps_hvs_load ps =
           hvs_load l + total_load crtcs ps_hvs_load (map2 new_plane ps pls) \<and>
         membus_load (fold (track_plane crtcs) pls l) + total_load crtcs ps_membus_load ps =
           membus_load l + total_load crtcs ps_membus_load (map2 new_plane ps pls)"
  using assms
proof (induction arbitrary: l rule: list_all2_induct)
  case (Cons p ps pl pls)
  let ?l = "track_plane crtcs pl l"
  note step = track_plane_loads [OF Cons.hyps(1), of crtcs l] and IH = Cons.IH [of ?l]
  have "hvs_load (fold (track_plane crtcs) pls ?l) + total_load crtcs ps_hvs_load ps + (if plane_counts crtcs p then ps_hvs_load p else 0) =
        (hvs_load ?l + (if plane_counts crtcs p then ps_hvs_load p else 0)) + total_load crtcs ps_hvs_load (map2 new_plane ps pls)"
    using IH by (simp only: add.assoc add.commute add.left_commute)
  moreover have "membus_load (fold (track_plane crtcs) pls ?l) + total_load crtcs ps_membus_load ps + (if plane_counts crtcs p then ps_membus_load p else 0) =
        (membus_load ?l + (if plane_counts crtcs p then ps_membus_load p else 0)) + total_load crtcs ps_membus_load (map2 new_plane ps pls)"
    using IH by (simp only: add.assoc add.commute add.left_commute)
  ultimately show ?case
    unfolding step by (simp add: total_load_Cons add.assoc add.commute add.left_commute)
qed (simp add: total_load_Nil)

definition tracker_ok :: "vc4_crtc list \<Rightarrow> vc4_plane_state list \<Rightarrow> vc4_load_tracker_state \<Rightarrow> bool" where
  "tracker_ok crtcs ps l \<longleftrightarrow> hvs_load l = total_load crtcs ps_hvs_load ps \<and> membus_load l = total_load crtcs ps_membus_load ps"

lemma load_tracker_check:
  assumes "vc4_load_tracker_atomic_check env dev st = (Inr (), st')" "as_load st = None" "planes_ok dev st"
    "tracker_ok (kms_crtcs dev) (plane_states dev) (load_tracker dev)"
  shows "\<exists>l. st' = st\<lparr>as_load := Some (load_tracker dev, l)\<rparr> \<and>
           tracker_ok (kms_crtcs dev) (map2 new_plane (plane_states dev) (as_planes st)) l \<and>
           (load_tracker_enabled dev \<longrightarrow> membus_load l \<le> MEMBUS_LIMIT \<and> hvs_load l \<le> HVS_LIMIT)"
proof -
  let ?l = "fold (track_plane (kms_crtcs dev)) (as_planes st) (load_tracker dev)"
  have "tracker_ok (kms_crtcs dev) (map2 new_plane (plane_states dev) (as_planes st)) ?l"
    using assms(3,4) track_planes [of "plane_states dev" "as_planes st" "kms_crtcs dev" "load_tracker dev"]
    by (simp add: tracker_ok_def planes_ok_def add.commute)
  then show ?thesis
    using assms(1,2)
    by (auto simp: vc4_load_tracker_atomic_check_def get_load_tracker_def vc4_load_tracker_duplicate_state_def set_new_load_def Let_def
             split: option.splits if_splits)
qed

subsection \<open>The load of the channels and the core clock\<close>

definition touches :: "(vc4_crtc_state \<times> vc4_crtc_state) option \<Rightarrow> nat \<Rightarrow> bool" where
  "touches p c = (case p of None \<Rightarrow> False | Some (old, new) \<Rightarrow>
     cs_active old \<and> unat (assigned_channel old) = c \<or> cs_active new \<and> unat (assigned_channel new) = c)"

definition in_range :: "nat \<Rightarrow> (vc4_crtc_state \<times> vc4_crtc_state) option \<Rightarrow> bool" where
  "in_range n p \<longleftrightarrow> (\<forall>c. touches p c \<longrightarrow> c < n)"

text \<open>Only the loads differ.\<close>
definition loads_only :: "vc4_hvs_state \<Rightarrow> vc4_hvs_state \<Rightarrow> bool" where
  "loads_only hvs hvs' \<longleftrightarrow> length (hvs_fifos hvs') = length (hvs_fifos hvs) \<and>
     (\<forall>c<length (hvs_fifos hvs). \<exists>l. hvs_fifos hvs' ! c = (hvs_fifos hvs ! c)\<lparr>fifo_load := l\<rparr>)"

lemma loads_only_refl [frame]: "loads_only h h"
  unfolding loads_only_def by (metis fifo_state.surjective fifo_state.update_convs(2))

lemma loads_only_trans: "loads_only a b \<Longrightarrow> loads_only b c \<Longrightarrow> loads_only a c"
  unfolding loads_only_def by (metis fifo_state.update_convs(2) fifo_state.surjective)

lemma upd_load:
  assumes "upd_fifo ch (\<lambda>f. f\<lparr>fifo_load := l\<rparr>) hvs = Some hvs'"
  shows "loads_only hvs hvs'" "unat ch < length (hvs_fifos hvs)" "fifo_load (hvs_fifos hvs' ! unat ch) = l"
    "c \<noteq> unat ch \<Longrightarrow> hvs_fifos hvs' ! c = hvs_fifos hvs ! c" "core_clock_rate hvs' = core_clock_rate hvs"
proof -
  have c: "unat ch < length (hvs_fifos hvs)" "hvs' = hvs\<lparr>hvs_fifos := (hvs_fifos hvs)[unat ch := (hvs_fifos hvs ! unat ch)\<lparr>fifo_load := l\<rparr>]\<rparr>"
    using assms by (auto simp: upd_fifo_def split: if_splits)
  then show "unat ch < length (hvs_fifos hvs)" "fifo_load (hvs_fifos hvs' ! unat ch) = l"
    "c \<noteq> unat ch \<Longrightarrow> hvs_fifos hvs' ! c = hvs_fifos hvs ! c" "core_clock_rate hvs' = core_clock_rate hvs" by simp_all
  have "hvs_fifos hvs' ! k = (hvs_fifos hvs ! k)\<lparr>fifo_load := fifo_load (hvs_fifos hvs' ! k)\<rparr>" if "k < length (hvs_fifos hvs)" for k
    using c that by (cases "k = unat ch") simp_all
  then show "loads_only hvs hvs'" using c by (auto simp: loads_only_def)
qed

lemma upd_load_when:
  assumes "(if b then upd_fifo ch (\<lambda>f. f\<lparr>fifo_load := l\<rparr>) hvs else Some hvs) = Some hvs'"
  shows "loads_only hvs hvs'" "\<not> (b \<and> unat ch = c) \<Longrightarrow> hvs_fifos hvs' ! c = hvs_fifos hvs ! c"
    "b \<Longrightarrow> fifo_load (hvs_fifos hvs' ! unat ch) = l"
proof -
  show "loads_only hvs hvs'" using assms upd_load(1) by (cases b) (auto simp: frame)
  show "\<not> (b \<and> unat ch = c) \<Longrightarrow> hvs_fifos hvs' ! c = hvs_fifos hvs ! c" using assms upd_load(4) by (cases b) auto
  show "b \<Longrightarrow> fifo_load (hvs_fifos hvs' ! unat ch) = l" using assms upd_load(3) by auto
qed

lemma load_channel_facts:
  assumes "load_channel p hvs = Some hvs'"
  shows "loads_only hvs hvs'" "\<not> touches p c \<Longrightarrow> hvs_fifos hvs' ! c = hvs_fifos hvs ! c"
    "p = Some (old, new) \<Longrightarrow> cs_active new \<Longrightarrow> fifo_load (hvs_fifos hvs' ! unat (assigned_channel new)) = cs_hvs_load new"
proof -
  have "loads_only hvs hvs' \<and> (\<not> touches p c \<longrightarrow> hvs_fifos hvs' ! c = hvs_fifos hvs ! c) \<and>
    (p = Some (old, new) \<longrightarrow> cs_active new \<longrightarrow> fifo_load (hvs_fifos hvs' ! unat (assigned_channel new)) = cs_hvs_load new)"
  proof (cases p)
    case None
    then show ?thesis using assms by (simp add: load_channel_def frame)
  next
    case (Some q)
    obtain o' n where q: "q = (o', n)" by fastforce
    obtain hvs1 where 1: "(if cs_active o' then upd_fifo (assigned_channel o') (\<lambda>f. f\<lparr>fifo_load := 0\<rparr>) hvs else Some hvs) = Some hvs1"
      and 2: "(if cs_active n then upd_fifo (assigned_channel n) (\<lambda>f. f\<lparr>fifo_load := cs_hvs_load n\<rparr>) hvs1 else Some hvs1) = Some hvs'"
      using assms Some q unfolding load_channel_def
      by (cases "if cs_active o' then upd_fifo (assigned_channel o') (\<lambda>f. f\<lparr>fifo_load := 0\<rparr>) hvs else Some hvs") auto
    show ?thesis
      using upd_load_when(1) [OF 1] upd_load_when(2) [OF 1, of c] upd_load_when(1,3) [OF 2] upd_load_when(2) [OF 2, of c] Some q
      by (auto simp: touches_def intro: loads_only_trans)
  qed
  then show "loads_only hvs hvs'" "\<not> touches p c \<Longrightarrow> hvs_fifos hvs' ! c = hvs_fifos hvs ! c"
    "p = Some (old, new) \<Longrightarrow> cs_active new \<Longrightarrow> fifo_load (hvs_fifos hvs' ! unat (assigned_channel new)) = cs_hvs_load new"
    by blast+
qed

lemma load_channel_returns: "in_range (length (hvs_fifos hvs)) p \<Longrightarrow> \<exists>hvs'. load_channel p hvs = Some hvs'"
  by (auto simp: load_channel_def in_range_def touches_def upd_fifo_def split: option.splits prod.splits)

lemma load_channels_facts:
  assumes "load_channels cs hvs = Some hvs'"
  shows "loads_only hvs hvs' \<and> (\<forall>c. (\<forall>p\<in>set cs. \<not> touches p c) \<longrightarrow> hvs_fifos hvs' ! c = hvs_fifos hvs ! c)"
  using assms
proof (induction cs arbitrary: hvs)
  case (Cons p cs)
  then obtain hvs1 where h: "load_channel p hvs = Some hvs1" "load_channels cs hvs1 = Some hvs'" by (auto split: option.splits)
  from Cons.IH [OF h(2)] load_channel_facts(1,2) [OF h(1)] show ?case by (auto intro: loads_only_trans)
qed (simp add: frame)

lemma load_channels_returns:
  "\<forall>p\<in>set cs. in_range (length (hvs_fifos hvs)) p \<Longrightarrow> \<exists>hvs'. load_channels cs hvs = Some hvs'"
proof (induction cs arbitrary: hvs)
  case (Cons p cs)
  then obtain hvs1 where h: "load_channel p hvs = Some hvs1" using load_channel_returns [of hvs p] by auto
  then have "length (hvs_fifos hvs1) = length (hvs_fifos hvs)" using load_channel_facts(1) by (auto simp: loads_only_def)
  with Cons.IH [of hvs1] Cons.prems h show ?case by simp
qed simp

lemma load_channels_append:
  "load_channels (xs @ ys) hvs = (case load_channels xs hvs of None \<Rightarrow> None | Some h \<Rightarrow> load_channels ys h)"
  by (induction xs arbitrary: hvs) (auto split: option.splits)

text \<open>A CRTC's load is there in the end if no other CRTC writes to its channel.\<close>
lemma load_channels_at:
  assumes "load_channels cs hvs = Some hvs'" "k < length cs" "cs ! k = Some (old, new)" "cs_active new"
    "\<And>j. j < length cs \<Longrightarrow> j \<noteq> k \<Longrightarrow> \<not> touches (cs ! j) (unat (assigned_channel new))"
  shows "fifo_load (hvs_fifos hvs' ! unat (assigned_channel new)) = cs_hvs_load new"
proof -
  let ?c = "unat (assigned_channel new)"
  have "cs = take k cs @ cs ! k # drop (Suc k) cs" using assms(2) by (rule id_take_nth_drop)
  then obtain h1 h2 where h: "load_channel (cs ! k) h1 = Some h2" "load_channels (drop (Suc k) cs) h2 = Some hvs'"
    using assms(1) load_channels_append [of "take k cs" "cs ! k # drop (Suc k) cs" hvs] by (auto split: option.splits)
  have "\<not> touches p ?c" if "p \<in> set (drop (Suc k) cs)" for p
  proof -
    from that obtain i where "i < length cs - Suc k" "p = cs ! (Suc k + i)" by (auto simp: in_set_conv_nth)
    then show ?thesis using assms(5) [of "Suc k + i"] by simp
  qed
  then have "hvs_fifos hvs' ! ?c = hvs_fifos h2 ! ?c" using load_channels_facts [OF h(2)] by blast
  then show ?thesis using load_channel_facts(3) [OF h(1)] assms(3,4) by simp
qed

lemma channel_rates_bound:
  assumes "f \<in> set fs" "in_use f"
  shows "fifo_load f \<le> snd (channel_rates fs)"
proof -
  let ?g = "\<lambda>f (n :: nat, r). if in_use f then (Suc n, max (fifo_load f) r) else (n, r)"
  have "r \<le> snd (fold ?g fs (n, r)) \<and> (\<forall>f\<in>set fs. in_use f \<longrightarrow> fifo_load f \<le> snd (fold ?g fs (n, r)))" for n r
  proof (induction fs arbitrary: n r)
    case (Cons f fs)
    show ?case
    proof (cases "in_use f")
      case True
      with Cons [of "max (fifo_load f) r" "Suc n"] show ?thesis by auto
    next
      case False
      with Cons [of r n] show ?thesis by auto
    qed
  qed simp
  then show ?thesis using assms by (simp add: channel_rates_def)
qed


subsection \<open>What the check establishes\<close>

definition active_ok :: "vc4_crtc_state list \<Rightarrow> bool" where
  "active_ok css \<longleftrightarrow> (\<forall>s\<in>set css. cs_active s \<longrightarrow> cs_enable s)"

definition loads_ok :: "vc4_crtc_state list \<Rightarrow> vc4_hvs_state \<Rightarrow> bool" where
  "loads_ok css hvs \<longleftrightarrow> (\<forall>s\<in>set css. cs_active s \<longrightarrow> fifo_load (hvs_fifos hvs ! unat (assigned_channel s)) = cs_hvs_load s)"

abbreviation new_states :: "vc4_kms \<Rightarrow> crtc_pairs \<Rightarrow> vc4_crtc_state list" where
  "new_states dev cs \<equiv> map (new_state (crtc_states dev) cs) [0..<length (kms_crtcs dev)]"

text \<open>The pairs of states after the channels have been assigned.\<close>
definition pair_muxed :: "vc4_kms \<Rightarrow> nat \<Rightarrow> (vc4_crtc_state \<times> vc4_crtc_state) option \<Rightarrow> bool" where
  "pair_muxed dev i p = (case p of None \<Rightarrow> True | Some (old, new) \<Rightarrow>
     old = crtc_states dev ! i \<and> (cs_active new \<longrightarrow> cs_enable new) \<and>
     (cs_enable new \<longrightarrow> (if cs_enable old then assigned_channel new = assigned_channel old
                          else \<not> used (hvs_channels dev) (unat (assigned_channel new)))))"

definition muxed_ok :: "vc4_kms \<Rightarrow> crtc_pairs \<Rightarrow> vc4_hvs_state \<Rightarrow> bool" where
  "muxed_ok dev cs hvs \<longleftrightarrow> length cs = length (kms_crtcs dev) \<and> (\<forall>i<length (kms_crtcs dev). pair_muxed dev i (cs ! i)) \<and>
     channels_wf (kms_crtcs dev) (new_states dev cs) hvs"

definition new_active :: "drm_atomic_state \<Rightarrow> bool" where
  "new_active st \<longleftrightarrow> (\<forall>old new. Some (old, new) \<in> set (as_crtcs st) \<longrightarrow> cs_active new \<longrightarrow> cs_enable new)"

lemma muxing_done_muxed_ok:
  assumes done': "muxing_done dev st st'" and ok: "kms_ok dev" "atomic_ok dev st" "new_active st"
  shows "\<exists>hvs'. as_hvs st' = Some (hvs_channels dev, hvs') \<and> muxed_ok dev (as_crtcs st') hvs'"
proof -
  let ?n = "length (kms_crtcs dev)"
  obtain hvs' where hvs': "as_hvs st' = Some (hvs_channels dev, hvs')" "channels_wf (kms_crtcs dev) (new_states dev (as_crtcs st')) hvs'"
    using muxing_done_wf [OF done'] by blast
  have len: "length (as_crtcs st') = ?n"
    and rel: "\<And>i. i < ?n \<Longrightarrow> rel_option (muxed (free_channels (new_channels dev))) (as_crtcs st ! i) (as_crtcs st' ! i)"
    using done' ok(2) by (auto simp: muxing_done_def assigned_def atomic_ok_def)
  have free: "\<not> used (hvs_channels dev) (unat (of_nat c :: u32))" if c: "bit (free_channels (new_channels dev)) c" for c
  proof -
    have "length (hvs_fifos (hvs_channels dev)) = HVS_NUM_CHANNELS" using ok(1) by (simp add: kms_ok_def channels_wf_def)
    then have "c < HVS_NUM_CHANNELS" "\<not> used (hvs_channels dev) c"
      using c bit_free_channels [of "hvs_channels dev" c] by (auto simp: free_channels_duplicate HVS_NUM_CHANNELS_def)
    then show ?thesis by (simp add: unat_channel)
  qed
  have "pair_muxed dev i (as_crtcs st' ! i)" if i: "i < ?n" for i
  proof (cases "as_crtcs st' ! i")
    case (Some p')
    then obtain old new new' where p: "as_crtcs st ! i = Some (old, new)" "as_crtcs st' ! i = Some (old, new')" "muxed (free_channels (new_channels dev)) (old, new) (old, new')"
      using rel [OF i] by (cases p') (auto simp: option_rel_Some2)
    then have old: "old = crtc_states dev ! i" "assigned_channel new = assigned_channel old" "cs_active new \<longrightarrow> cs_enable new"
      using ok(2,3) i by (auto simp: atomic_ok_def pair_ok_def new_active_def dest: spec [of _ i]) (metis nth_mem)
    show ?thesis
    proof (cases "cs_enable old = cs_enable new")
      case True
      then show ?thesis using p old by (simp add: pair_muxed_def)
    next
      case False
      then show ?thesis using p old free by (cases "cs_enable new") (auto simp: pair_muxed_def)
    qed
  qed (simp add: pair_muxed_def)
  then show ?thesis using hvs' len by (simp add: muxed_ok_def)
qed

text \<open>Only which channels are in use differs.\<close>
definition in_use_only :: "vc4_hvs_state \<Rightarrow> vc4_hvs_state \<Rightarrow> bool" where
  "in_use_only hvs hvs' \<longleftrightarrow> map fifo_load (hvs_fifos hvs') = map fifo_load (hvs_fifos hvs) \<and>
     map pending_commit (hvs_fifos hvs') = map pending_commit (hvs_fifos hvs)"

lemma upd_in_use: "upd_fifo ch (\<lambda>f. f\<lparr>in_use := b\<rparr>) hvs = Some hvs' \<Longrightarrow> in_use_only hvs hvs'"
  by (auto simp: upd_fifo_def in_use_only_def map_update list_update_same_conv split: if_splits)

lemma pv_muxing_loop_in_use:
  "pv_muxing_loop crtcs js u hvs cs = Some (r, hvs', cs') \<Longrightarrow> in_use_only hvs hvs'"
proof (induction crtcs js u hvs cs rule: pv_muxing_loop.induct)
  case (2 crtcs i js u hvs cs)
  then show ?case
    by (fastforce simp: in_use_only_def Let_def dest: upd_in_use split: option.splits if_splits prod.splits)
qed (simp add: in_use_only_def)

lemma muxing_check_in_use:
  assumes "vc4_pv_muxing_atomic_check env dev st = Some (r, st')" "as_hvs st = None" "as_hvs st' = Some (old, hvs')" "\<not> firmware_kms dev"
  shows "in_use_only (new_channels dev) hvs'"
  using assms pv_muxing_loop_in_use
  by (fastforce simp: vc4_pv_muxing_atomic_check_def vc4_hvs_get_global_state_def set_new_hvs_def Let_def in_use_only_def split: option.splits if_splits)

lemma channels_wf_distinct:
  assumes "channels_wf crtcs css hvs" "i < length crtcs" "j < length crtcs" "i \<noteq> j" "cs_enable (css ! i)" "cs_enable (css ! j)"
  shows "unat (assigned_channel (css ! i)) \<noteq> unat (assigned_channel (css ! j))"
proof -
  have "chan (css ! i) \<noteq> chan (css ! j)" using assms unfolding channels_wf_def chan_def by (metis option.distinct(1))
  then show ?thesis using assms(5,6) by (auto simp: chan_def word_unat_eq_iff)
qed

lemma channels_wf_used:
  assumes "channels_wf crtcs css hvs" "i < length crtcs" "cs_enable (css ! i)"
  shows "used hvs (unat (assigned_channel (css ! i)))" "unat (assigned_channel (css ! i)) < HVS_NUM_CHANNELS"
  using assms by (auto simp: channels_wf_def crtc_channel_ok_def chan_def routed_def dest: spec [of _ i])

lemma active_okD: "active_ok css \<Longrightarrow> i < length css \<Longrightarrow> cs_active (css ! i) \<Longrightarrow> cs_enable (css ! i)"
  by (simp add: active_ok_def)

lemma new_states_active:
  assumes "muxed_ok dev cs hvs" "active_ok (crtc_states dev)" "kms_ok dev"
  shows "active_ok (new_states dev cs)"
proof -
  have "cs_active (new_state (crtc_states dev) cs i) \<longrightarrow> cs_enable (new_state (crtc_states dev) cs i)" if i: "i < length (kms_crtcs dev)" for i
    using assms i active_okD [OF assms(2), of i]
    by (cases "cs ! i") (auto simp: new_state_def muxed_ok_def pair_muxed_def kms_ok_def channels_wf_def dest!: spec [of _ i])
  then show ?thesis by (auto simp: active_ok_def)
qed

lemma not_touched:
  assumes m: "muxed_ok dev cs hvs" and ok: "kms_ok dev" "active_ok (crtc_states dev)"
    and ij: "i < length (kms_crtcs dev)" "j < length (kms_crtcs dev)" "j \<noteq> i"
    and act: "cs_active (new_state (crtc_states dev) cs i)"
  shows "\<not> touches (cs ! j) (unat (assigned_channel (new_state (crtc_states dev) cs i)))"
proof
  let ?css = "crtc_states dev" and ?new = "new_state (crtc_states dev) cs"
  assume t: "touches (cs ! j) (unat (assigned_channel (?new i)))"
  have wfo: "channels_wf (kms_crtcs dev) ?css (hvs_channels dev)" using ok(1) by (simp add: kms_ok_def)
  have wfn: "channels_wf (kms_crtcs dev) (new_states dev cs) hvs" using m by (simp add: muxed_ok_def)
  have len: "length ?css = length (kms_crtcs dev)" using wfo by (simp add: channels_wf_def)
  have en: "cs_enable (?new k)" if "k < length (kms_crtcs dev)" "cs_active (?new k)" for k
    using active_okD [OF new_states_active [OF m ok(2,1)], of k] that by simp
  from t obtain old new where p: "cs ! j = Some (old, new)"
    and t: "cs_active old \<and> unat (assigned_channel old) = unat (assigned_channel (?new i)) \<or>
            cs_active new \<and> unat (assigned_channel new) = unat (assigned_channel (?new i))"
    by (auto simp: touches_def split: option.splits)
  have old: "old = ?css ! j" using m ij(2) p by (auto simp: muxed_ok_def pair_muxed_def dest: spec [of _ j])
  from t show False
  proof
    assume "cs_active new \<and> unat (assigned_channel new) = unat (assigned_channel (?new i))"
    then show False
      using channels_wf_distinct [OF wfn ij(1,2)] ij en [OF ij(1) act] en [OF ij(2)] p by (auto simp: new_state_def)
  next
    assume o: "cs_active old \<and> unat (assigned_channel old) = unat (assigned_channel (?new i))"
    then have eno: "cs_enable (?css ! j)" using active_okD [OF ok(2), of j] len ij(2) old by simp
    have "cs_enable (?css ! i) \<and> assigned_channel (?new i) = assigned_channel (?css ! i) \<or> \<not> used (hvs_channels dev) (unat (assigned_channel (?new i)))"
      using m ij(1) en [OF ij(1) act]
      by (cases "cs ! i") (auto simp: muxed_ok_def pair_muxed_def new_state_def dest!: spec [of _ i] split: if_splits)
    then show False
      using o old channels_wf_distinct [OF wfo ij(1,2) _ _ eno] ij(3) channels_wf_used(1) [OF wfo ij(2) eno] by auto
  qed
qed

lemma muxed_okD:
  assumes "muxed_ok dev cs hvs" "i < length (kms_crtcs dev)" "cs ! i = Some (old, new)"
  shows "old = crtc_states dev ! i" "cs_active new \<Longrightarrow> cs_enable new"
  using assms unfolding muxed_ok_def pair_muxed_def by (auto dest!: spec [of _ i])

lemma muxed_in_range:
  assumes m: "muxed_ok dev cs hvs" and ok: "kms_ok dev" "active_ok (crtc_states dev)" and p: "p \<in> set cs"
  shows "in_range (length (hvs_fifos hvs)) p"
proof -
  obtain i where i: "i < length (kms_crtcs dev)" "p = cs ! i" using p m by (auto simp: in_set_conv_nth muxed_ok_def)
  have wfo: "channels_wf (kms_crtcs dev) (crtc_states dev) (hvs_channels dev)" using ok(1) by (simp add: kms_ok_def)
  have wfn: "channels_wf (kms_crtcs dev) (new_states dev cs) hvs" using m by (simp add: muxed_ok_def)
  have lens: "length (hvs_fifos hvs) = HVS_NUM_CHANNELS" "length (crtc_states dev) = length (kms_crtcs dev)"
    using wfo wfn by (auto simp: channels_wf_def)
  have "unat (assigned_channel old) < HVS_NUM_CHANNELS" if "p = Some (old, new)" "cs_active old" for old new
    using muxed_okD(1) [OF m i(1), of old new] i that active_okD [OF ok(2), of i] channels_wf_used(2) [OF wfo i(1)] lens by simp
  moreover have "unat (assigned_channel new) < HVS_NUM_CHANNELS" if "p = Some (old, new)" "cs_active new" for old new
  proof -
    have "cs ! i = Some (old, new)" using i(2) that(1) by simp
    then have "new_states dev cs ! i = new" using i(1) by (simp add: new_state_def)
    then show ?thesis
      using i that active_okD [OF new_states_active [OF m ok(2,1)], of i] channels_wf_used(2) [OF wfn i(1)] by simp
  qed
  ultimately show ?thesis using lens by (auto simp: in_range_def touches_def split: option.splits)
qed

lemma clock_loads:
  assumes m: "muxed_ok dev cs hvs" and ok: "kms_ok dev" "active_ok (crtc_states dev)"
    and lo: "loads_ok (crtc_states dev) (hvs_channels dev)" and iu: "in_use_only (new_channels dev) hvs"
  shows "\<exists>hvs'. load_channels cs hvs = Some hvs' \<and> loads_only hvs hvs' \<and> loads_ok (new_states dev cs) hvs'"
proof -
  let ?n = "length (kms_crtcs dev)" and ?new = "new_state (crtc_states dev) cs"
  obtain hvs' where h: "load_channels cs hvs = Some hvs'" using load_channels_returns muxed_in_range [OF m ok] by blast
  note facts = load_channels_facts [OF h]
  have len: "length cs = ?n" "length (crtc_states dev) = ?n" "length (hvs_fifos (hvs_channels dev)) = HVS_NUM_CHANNELS"
    using m ok(1) by (auto simp: muxed_ok_def kms_ok_def channels_wf_def)
  have "fifo_load (hvs_fifos hvs' ! unat (assigned_channel (?new i))) = cs_hvs_load (?new i)" if i: "i < ?n" "cs_active (?new i)" for i
  proof (cases "cs ! i")
    case (Some p)
    then obtain old where "cs ! i = Some (old, ?new i)" by (cases p) (simp add: new_state_def)
    then show ?thesis using load_channels_at [OF h, of i old "?new i"] not_touched [OF m ok i(1) _ _ i(2)] len i by simp
  next
    case None
    then have new: "?new i = crtc_states dev ! i" by (simp add: new_state_def)
    let ?c = "unat (assigned_channel (crtc_states dev ! i))"
    have lt: "?c < HVS_NUM_CHANNELS"
      using channels_wf_used(2) [of "kms_crtcs dev" "crtc_states dev" "hvs_channels dev" i] ok active_okD [OF ok(2), of i] i new len
      by (simp add: kms_ok_def)
    have "\<not> touches p ?c" if "p \<in> set cs" for p
    proof -
      from that obtain j where j: "j < ?n" "p = cs ! j" using len by (auto simp: in_set_conv_nth)
      then show ?thesis using not_touched [OF m ok i(1) j(1) _ i(2)] None new by (cases "j = i") (auto simp: touches_def)
    qed
    then have "hvs_fifos hvs' ! ?c = hvs_fifos hvs ! ?c" using facts by blast
    moreover have "fifo_load (hvs_fifos hvs ! ?c) = map fifo_load (hvs_fifos hvs) ! ?c"
      using lt len iu by (metis in_use_only_def length_map nth_map vc4_hvs_channels_duplicate_state_def vc4_hvs_state.select_convs(2))
    moreover have "map fifo_load (hvs_fifos hvs) ! ?c = fifo_load (hvs_fifos (hvs_channels dev) ! ?c)"
      using iu lt len by (simp add: in_use_only_def vc4_hvs_channels_duplicate_state_def)
    ultimately show ?thesis using lo i new len by (simp add: loads_ok_def)
  qed
  then show ?thesis using h facts by (auto simp: loads_ok_def)
qed

lemma loads_only_keeps:
  assumes "loads_only hvs hvs'" "c < length (hvs_fifos hvs)"
  shows "used hvs' c = used hvs c" "pending_commit (hvs_fifos hvs' ! c) = pending_commit (hvs_fifos hvs ! c)"
proof -
  obtain l where "hvs_fifos hvs' ! c = (hvs_fifos hvs ! c)\<lparr>fifo_load := l\<rparr>" using assms by (auto simp: loads_only_def)
  then show "used hvs' c = used hvs c" "pending_commit (hvs_fifos hvs' ! c) = pending_commit (hvs_fifos hvs ! c)"
    by (simp_all add: used_def)
qed

lemma muxed_ok_cong:
  assumes "muxed_ok dev cs hvs" "length (hvs_fifos hvs') = length (hvs_fifos hvs)"
    "\<And>c. c < HVS_NUM_CHANNELS \<Longrightarrow> used hvs' c = used hvs c"
  shows "muxed_ok dev cs hvs'"
  using assms channels_wf_cong [of "kms_crtcs dev" "new_states dev cs" hvs hvs'] by (simp add: muxed_ok_def)

lemma muxed_ok_loads_only:
  assumes "muxed_ok dev cs hvs" "loads_only hvs hvs'"
  shows "muxed_ok dev cs hvs'"
proof (rule muxed_ok_cong [OF assms(1)])
  have "length (hvs_fifos hvs) = HVS_NUM_CHANNELS" using assms(1) by (simp add: muxed_ok_def channels_wf_def)
  then show "used hvs' c = used hvs c" if "c < HVS_NUM_CHANNELS" for c using loads_only_keeps(1) [OF assms(2)] that by simp
qed (use assms(2) in \<open>simp add: loads_only_def\<close>)

lemma channels_wf_states:
  assumes wf: "channels_wf crtcs css hvs" and len: "length css' = length css"
    and same: "\<And>i. i < length crtcs \<Longrightarrow> chan (css' ! i) = chan (css ! i)"
      "\<And>i. i < length crtcs \<Longrightarrow> assigned_channel (css' ! i) = assigned_channel (css ! i)"
  shows "channels_wf crtcs css' hvs"
proof -
  have ok: "crtc_channel_ok crtcs hvs i (css' ! i) = crtc_channel_ok crtcs hvs i (css ! i)" if "i < length crtcs" for i
    using same [OF that] by (simp add: crtc_channel_ok_def split: option.split)
  have "(\<exists>i<length crtcs. chan (css' ! i) = x) = (\<exists>i<length crtcs. chan (css ! i) = x)" for x
    using same(1) by auto
  then show ?thesis using wf len same(1) ok unfolding channels_wf_def by simp
qed

text \<open>What the driver counts on when it calls \<open>drm_atomic_helper_check\<close>.\<close>
definition helper_pair :: "vc4_crtc_state \<times> vc4_crtc_state \<Rightarrow> vc4_crtc_state \<times> vc4_crtc_state \<Rightarrow> bool" where
  "helper_pair p q \<longleftrightarrow> fst q = fst p \<and> cs_enable (snd q) = cs_enable (snd p) \<and> cs_active (snd q) = cs_active (snd p) \<and>
     assigned_channel (snd q) = assigned_channel (snd p)"

definition helper_keeps :: "kms_env \<Rightarrow> bool" where
  "helper_keeps env \<longleftrightarrow> (\<forall>dev st st'. env_helper_check env dev st = (Inr (), st') \<longrightarrow>
     as_hvs st' = as_hvs st \<and> as_load st' = as_load st \<and> list_all2 (rel_option helper_pair) (as_crtcs st) (as_crtcs st') \<and>
     (planes_ok dev st \<longrightarrow> planes_ok dev st'))"

lemma muxed_ok_helper:
  assumes m: "muxed_ok dev cs hvs" and h: "list_all2 (rel_option helper_pair) cs cs'"
  shows "muxed_ok dev cs' hvs"
proof -
  let ?n = "length (kms_crtcs dev)"
  have len: "length cs' = ?n" "length cs = ?n" using m h by (auto simp: muxed_ok_def list_all2_lengthD)
  have rel: "rel_option helper_pair (cs ! i) (cs' ! i)" if "i < ?n" for i using h that len by (simp add: list_all2_conv_all_nth)
  have pm: "pair_muxed dev i (cs' ! i)" if i: "i < ?n" for i
  proof (cases "cs' ! i")
    case (Some q)
    then obtain p where p: "cs ! i = Some p" "helper_pair p q" using rel [OF i] by (auto simp: option_rel_Some2)
    have "pair_muxed dev i (Some p)" using m i p(1) unfolding muxed_ok_def by (metis)
    then show ?thesis using Some p(2) by (cases p; cases q) (simp add: pair_muxed_def helper_pair_def)
  qed (simp add: pair_muxed_def)
  have same: "chan (new_state (crtc_states dev) cs' i) = chan (new_state (crtc_states dev) cs i)"
    "assigned_channel (new_state (crtc_states dev) cs' i) = assigned_channel (new_state (crtc_states dev) cs i)" if "i < ?n" for i
    using rel [OF that] by (cases "cs ! i"; cases "cs' ! i"; auto simp: new_state_def helper_pair_def chan_def)+
  have "channels_wf (kms_crtcs dev) (new_states dev cs') hvs"
  proof (rule channels_wf_states)
    show "channels_wf (kms_crtcs dev) (new_states dev cs) hvs" using m unfolding muxed_ok_def by blast
    show "chan (new_states dev cs' ! i) = chan (new_states dev cs ! i)"
      "assigned_channel (new_states dev cs' ! i) = assigned_channel (new_states dev cs ! i)" if "i < ?n" for i
      using same [OF that] that by simp_all
  qed simp
  then show ?thesis using pm len by (simp add: muxed_ok_def)
qed


subsection \<open>The whole check\<close>

text \<open>
  The channels are assigned as they should be, only enabled CRTCs are active, the tracker holds the sum of the loads of the planes, each
  active CRTC's load is on its channel, and the references to commits are those of the channels.
\<close>
definition commits_of :: "vc4_hvs_state \<Rightarrow> ptr \<Rightarrow> nat" where
  "commits_of hvs p = length (filter (\<lambda>f. pending_commit f = Some p) (hvs_fifos hvs))"

definition kms_inv :: "vc4_kms \<Rightarrow> bool" where
  "kms_inv dev \<longleftrightarrow> kms_ok dev \<and> active_ok (crtc_states dev) \<and> tracker_ok (kms_crtcs dev) (plane_states dev) (load_tracker dev) \<and>
     loads_ok (crtc_states dev) (hvs_channels dev) \<and> (\<forall>p. commit_refs dev p = int (commits_of (hvs_channels dev) p))"

text \<open>A commit as it comes from the DRM core: duplicates of the current states, with no CRTC active that is not enabled.\<close>
definition request_ok :: "vc4_kms \<Rightarrow> drm_atomic_state \<Rightarrow> bool" where
  "request_ok dev st \<longleftrightarrow> atomic_ok dev st \<and> new_active st \<and> planes_ok dev st"

definition no_commits :: "vc4_hvs_state \<Rightarrow> bool" where
  "no_commits hvs \<longleftrightarrow> (\<forall>f\<in>set (hvs_fifos hvs). pending_commit f = None)"

text \<open>What an accepted request looks like.\<close>
definition checked :: "vc4_kms \<Rightarrow> drm_atomic_state \<Rightarrow> bool" where
  "checked dev st \<longleftrightarrow> (\<exists>hvs l. as_hvs st = Some (hvs_channels dev, hvs) \<and> as_load st = Some (load_tracker dev, l) \<and>
     muxed_ok dev (as_crtcs st) hvs \<and> loads_ok (new_states dev (as_crtcs st)) hvs \<and> no_commits hvs \<and>
     tracker_ok (kms_crtcs dev) (map2 new_plane (plane_states dev) (as_planes st)) l \<and>
     (load_tracker_enabled dev \<longrightarrow> membus_load l \<le> MEMBUS_LIMIT \<and> hvs_load l \<le> HVS_LIMIT) \<and>
     (\<forall>s\<in>set (new_states dev (as_crtcs st)). cs_active s \<longrightarrow> cs_hvs_load s \<le> core_clock_rate hvs))"

lemma no_commits_loads_only:
  assumes "no_commits hvs" "loads_only hvs hvs'"
  shows "no_commits hvs'"
proof -
  have "pending_commit (hvs_fifos hvs' ! c) = None" if "c < length (hvs_fifos hvs')" for c
    using that assms loads_only_keeps(2) [OF assms(2), of c] by (auto simp: no_commits_def loads_only_def)
  then show ?thesis by (auto simp: no_commits_def in_set_conv_nth)
qed

lemma in_use_only_no_commits: "in_use_only (new_channels dev) hvs \<Longrightarrow> no_commits hvs"
proof -
  assume "in_use_only (new_channels dev) hvs"
  then have "pending_commit ` set (hvs_fifos hvs) = pending_commit ` set (hvs_fifos (new_channels dev))"
    unfolding in_use_only_def by (metis set_map)
  then show ?thesis by (force simp: no_commits_def vc4_hvs_channels_duplicate_state_def image_iff)
qed

lemma core_clock_check:
  assumes m: "muxed_ok dev (as_crtcs st) hvs" and ok: "kms_ok dev" "active_ok (crtc_states dev)"
    and lo: "loads_ok (crtc_states dev) (hvs_channels dev)" and iu: "in_use_only (new_channels dev) hvs"
    and st: "as_hvs st = Some (hvs_channels dev, hvs)" "as_load st = Some (load_tracker dev, l)"
  shows "\<exists>hvs'. vc4_core_clock_atomic_check env dev st = Some (Inr (), st\<lparr>as_hvs := Some (hvs_channels dev, hvs')\<rparr>) \<and>
           muxed_ok dev (as_crtcs st) hvs' \<and> loads_ok (new_states dev (as_crtcs st)) hvs' \<and> no_commits hvs' \<and>
           (\<forall>s\<in>set (new_states dev (as_crtcs st)). cs_active s \<longrightarrow> cs_hvs_load s \<le> core_clock_rate hvs')"
proof -
  obtain h1 where h1: "load_channels (as_crtcs st) hvs = Some h1" "loads_only hvs h1" "loads_ok (new_states dev (as_crtcs st)) h1"
    using clock_loads [OF m ok lo iu] by blast
  obtain n cob where r: "channel_rates (hvs_fifos h1) = (n, cob)" by fastforce
  obtain rate where rate: "vc4_core_clock_atomic_check env dev st =
      Some (Inr (), st\<lparr>as_hvs := Some (hvs_channels dev, h1\<lparr>core_clock_rate := rate\<rparr>)\<rparr>)" "cob \<le> rate"
    using st h1(1) r by (auto simp: vc4_core_clock_atomic_check_def get_load_tracker_def vc4_hvs_get_global_state_def set_new_hvs_def Let_def)
  let ?h = "h1\<lparr>core_clock_rate := rate\<rparr>"
  have m1: "muxed_ok dev (as_crtcs st) h1" using m h1(2) by (rule muxed_ok_loads_only)
  then have m2: "muxed_ok dev (as_crtcs st) ?h" by (rule muxed_ok_cong) (simp_all add: used_def)
  have "cs_hvs_load s \<le> rate" if s: "s \<in> set (new_states dev (as_crtcs st))" "cs_active s" for s
  proof -
    obtain i where i: "i < length (kms_crtcs dev)" "s = new_states dev (as_crtcs st) ! i" using s(1) by (auto simp: in_set_conv_nth)
    have wf: "channels_wf (kms_crtcs dev) (new_states dev (as_crtcs st)) h1" using m1 by (simp add: muxed_ok_def)
    have en: "cs_enable s" using active_okD [OF new_states_active [OF m ok(2,1)], of i] i s(2) by simp
    let ?f = "hvs_fifos h1 ! unat (assigned_channel s)"
    have "in_use ?f" "?f \<in> set (hvs_fifos h1)"
      using channels_wf_used [OF wf i(1)] en i(2) wf by (auto simp: used_def channels_wf_def)
    then have "fifo_load ?f \<le> cob" using channel_rates_bound [of ?f "hvs_fifos h1"] r by simp
    then show ?thesis using h1(3) s rate(2) unfolding loads_ok_def by (metis order_trans)
  qed
  moreover have "loads_ok (new_states dev (as_crtcs st)) ?h" using h1(3) by (simp add: loads_ok_def)
  moreover have "no_commits ?h"
    using no_commits_loads_only [OF in_use_only_no_commits [OF iu] h1(2)] by (simp add: no_commits_def)
  ultimately show ?thesis using rate(1) m2 by auto
qed


text \<open>The last three parts of the check, on the atomic state that the choice of channels and of the matrix left.\<close>
lemma check_rest:
  assumes inv: "kms_inv dev" and keeps: "helper_keeps env"
    and m: "muxed_ok dev (as_crtcs st) hvs" and iu: "in_use_only (new_channels dev) hvs"
    and st: "as_hvs st = Some (hvs_channels dev, hvs)" "as_load st = None" "planes_ok dev st"
    and h: "env_helper_check env dev st = (Inr (), st1)"
    and t: "vc4_load_tracker_atomic_check env dev st1 = (Inr (), st2)"
  shows "\<exists>st3. vc4_core_clock_atomic_check env dev st2 = Some (Inr (), st3) \<and> checked dev st3"
proof -
  have st1: "as_hvs st1 = Some (hvs_channels dev, hvs)" "as_load st1 = None" "planes_ok dev st1"
    "list_all2 (rel_option helper_pair) (as_crtcs st) (as_crtcs st1)"
    using keeps h st unfolding helper_keeps_def by auto
  have m1: "muxed_ok dev (as_crtcs st1) hvs" using m st1(4) by (rule muxed_ok_helper)
  obtain l where l: "st2 = st1\<lparr>as_load := Some (load_tracker dev, l)\<rparr>"
      "tracker_ok (kms_crtcs dev) (map2 new_plane (plane_states dev) (as_planes st1)) l"
      "load_tracker_enabled dev \<longrightarrow> membus_load l \<le> MEMBUS_LIMIT \<and> hvs_load l \<le> HVS_LIMIT"
    using load_tracker_check [OF t st1(2,3)] inv by (auto simp: kms_inv_def)
  have "kms_ok dev" "active_ok (crtc_states dev)" "loads_ok (crtc_states dev) (hvs_channels dev)" using inv by (simp_all add: kms_inv_def)
  from core_clock_check [OF _ this iu, of st2 l env] m1 st1(1) l show ?thesis by (auto simp: checked_def)
qed

lemma atomic_check_checked:
  assumes inv: "kms_inv dev" and req: "request_ok dev st" and env: "sorts env" "helper_keeps env"
    and few: "length (kms_crtcs dev) \<le> Suc CTM_SIZE"
  shows "\<exists>r st'. vc4_atomic_check env dev st = Some (r, st') \<and> (r = Inr () \<longrightarrow> checked dev st')"
proof -
  have ok: "kms_ok dev" and at: "atomic_ok dev st" "new_active st" "planes_ok dev st" using inv req by (auto simp: kms_inv_def request_ok_def)
  from ok at(1) env(1) show ?thesis
  proof (cases rule: muxing_check_cases)
    case (err e st')
    then show ?thesis by (simp add: vc4_atomic_check_def)
  next
    case (ok st1)
    obtain hvs where hvs: "as_hvs st1 = Some (hvs_channels dev, hvs)" "muxed_ok dev (as_crtcs st1) hvs"
      using muxing_done_muxed_ok [OF ok(2) \<open>kms_ok dev\<close> at(1,2)] by blast
    have st1: "as_load st1 = None" "planes_ok dev st1" using ok(2) at by (auto simp: muxing_done_def atomic_ok_def planes_ok_def)
    have iu: "in_use_only (new_channels dev) hvs"
      using muxing_check_in_use [OF ok(1) _ hvs(1)] at(1) \<open>kms_ok dev\<close> by (simp add: atomic_ok_def kms_ok_def)
    have "length (as_crtcs st1) \<le> Suc CTM_SIZE" using hvs(2) few by (simp add: muxed_ok_def)
    then obtain r2 st2 where c: "vc4_ctm_atomic_check env dev st1 = Some (r2, st2)" using vc4_ctm_atomic_check_returns by fastforce
    note same = ctm_only_same [OF vc4_ctm_atomic_check_frame [OF c]]
    obtain r3 st3 where h: "env_helper_check env dev st2 = (r3, st3)" by fastforce
    obtain r4 st4 where t: "vc4_load_tracker_atomic_check env dev st3 = (r4, st4)" by fastforce
    have "\<exists>st5. vc4_core_clock_atomic_check env dev st4 = Some (Inr (), st5) \<and> checked dev st5" if "r3 = Inr ()" "r4 = Inr ()"
      by (rule check_rest [OF inv env(2), of st2 hvs st3]) (use hvs iu st1 h t same that in \<open>simp_all add: planes_ok_def\<close>)
    then show ?thesis
      using ok(1) c h t by (cases r2; cases r3; cases r4) (auto simp: vc4_atomic_check_def)
  qed
qed

end
