(* ===== verification/Vc4_Commit_Laws.thy ===== *)
theory Vc4_Commit_Laws
  imports Vc4_Kms_Laws
begin

text \<open>
  Commits of vc4, from the request to the release of the old state: the references to pending commits balance, the muxes and the matrix
  only write registers, and the invariant of the device holds in every state that loading and committing can lead to.
\<close>

unbundle bit_operations_syntax

subsection \<open>A commit from the request to the release of the old state\<close>

text \<open>
  What the DRM core does around the driver: \<open>drm_atomic_helper_setup_commit\<close> gives each CRTC of the request its commit before it calls the
  driver's setup, \<open>drm_atomic_helper_swap_state\<close> installs the new states, and clearing the request destroys the old private states.
\<close>
definition with_commits :: "(nat \<Rightarrow> ptr) \<Rightarrow> drm_atomic_state \<Rightarrow> drm_atomic_state" where
  "with_commits f st = st\<lparr>as_crtcs := map2 (\<lambda>i. map_option (\<lambda>(old, new). (old, new\<lparr>cs_commit := Some (f i)\<rparr>))) [0..<length (as_crtcs st)] (as_crtcs st)\<rparr>"

definition kms_swap :: "drm_atomic_state \<Rightarrow> vc4_kms \<Rightarrow> vc4_kms" where
  "kms_swap st dev = dev\<lparr>
     crtc_states := map (new_state (crtc_states dev) (as_crtcs st)) [0..<length (kms_crtcs dev)],
     plane_states := map2 new_plane (plane_states dev) (as_planes st),
     hvs_channels := (case as_hvs st of None \<Rightarrow> hvs_channels dev | Some (_, n) \<Rightarrow> n),
     load_tracker := (case as_load st of None \<Rightarrow> load_tracker dev | Some (_, n) \<Rightarrow> n),
     ctm_manager := (case as_ctm st of None \<Rightarrow> ctm_manager dev | Some (_, n) \<Rightarrow> n)\<rparr>"

definition kms_release :: "drm_atomic_state \<Rightarrow> vc4_kms \<Rightarrow> vc4_kms" where
  "kms_release st dev = (case as_hvs st of None \<Rightarrow> dev | Some (old, _) \<Rightarrow> vc4_hvs_channels_destroy_state old dev)"

text \<open>None when the request is refused.\<close>
definition kms_commit :: "kms_env \<Rightarrow> (nat \<Rightarrow> ptr) \<Rightarrow> drm_atomic_state \<Rightarrow> vc4_kms \<Rightarrow> vc4_kms option" where
  "kms_commit env f st dev =
     (case vc4_atomic_check env dev st of
        Some (Inr _, st1) \<Rightarrow>
         (case vc4_atomic_commit_setup (with_commits f st1) dev of
            Some (Inr _, st2, dev1) \<Rightarrow> map_option (\<lambda>(st3, dev2). kms_release st3 dev2) (vc4_atomic_commit_tail env st2 (kms_swap st2 dev1))
          | _ \<Rightarrow> None)
      | _ \<Rightarrow> None)"

lemma filter_length_update:
  "i < length xs \<Longrightarrow> \<not> P (xs ! i) \<Longrightarrow> length (filter P (xs[i := x])) = length (filter P xs) + (if P x then 1 else 0)"
  by (induction xs arbitrary: i) (auto split: nat.splits simp: nth_Cons')

subsection \<open>Setting a commit up\<close>

text \<open>Only the pending commits and the references differ, and they differ together.\<close>
definition commits_added :: "vc4_hvs_state \<times> vc4_kms \<Rightarrow> vc4_hvs_state \<times> vc4_kms \<Rightarrow> bool" where
  "commits_added = (\<lambda>(hvs, dev) (hvs', dev').
     (\<exists>r. dev' = dev\<lparr>commit_refs := r\<rparr>) \<and> core_clock_rate hvs' = core_clock_rate hvs \<and>
     map in_use (hvs_fifos hvs') = map in_use (hvs_fifos hvs) \<and> map fifo_load (hvs_fifos hvs') = map fifo_load (hvs_fifos hvs) \<and>
     (\<forall>p. commit_refs dev' p - int (commits_of hvs' p) = commit_refs dev p - int (commits_of hvs p)))"

lemma commits_added_refl: "commits_added s s"
  by (cases s) (auto simp: commits_added_def intro: exI [of _ "commit_refs (snd s)"])

lemma commits_added_trans:
  assumes "commits_added a b" "commits_added b c"
  shows "commits_added a c"
proof -
  obtain ha da hb db hc dc where abc: "a = (ha, da)" "b = (hb, db)" "c = (hc, dc)" by (metis surj_pair)
  obtain r r' where "db = da\<lparr>commit_refs := r\<rparr>" "dc = db\<lparr>commit_refs := r'\<rparr>"
    using assms unfolding abc commits_added_def by auto
  then have "\<exists>r. dc = da\<lparr>commit_refs := r\<rparr>" by auto
  then show ?thesis using assms unfolding abc commits_added_def by simp
qed

definition channel_free :: "vc4_hvs_state \<Rightarrow> vc4_crtc_state \<Rightarrow> bool" where
  "channel_free hvs new \<longleftrightarrow> assigned_channel new = VC4_HVS_CHANNEL_DISABLED \<or>
     unat (assigned_channel new) < length (hvs_fifos hvs) \<and> pending_commit (hvs_fifos hvs ! unat (assigned_channel new)) = None"

lemma setup_crtc_adds:
  assumes "channel_free hvs new" "cs_commit new \<noteq> None"
  shows "\<exists>hvs' dev'. setup_crtc new (hvs, dev) = Some (hvs', dev') \<and> commits_added (hvs, dev) (hvs', dev') \<and>
           (\<forall>c. c \<noteq> unat (assigned_channel new) \<longrightarrow> hvs_fifos hvs' ! c = hvs_fifos hvs ! c)"
proof (cases "assigned_channel new = VC4_HVS_CHANNEL_DISABLED \<or> \<not> in_use (hvs_fifos hvs ! unat (assigned_channel new))")
  case True
  then show ?thesis using assms commits_added_refl [of "(hvs, dev)"] by (auto simp: setup_crtc_def channel_free_def Let_def)
next
  case False
  let ?c = "unat (assigned_channel new)"
  from False assms obtain p where p: "cs_commit new = Some p" "?c < length (hvs_fifos hvs)" "pending_commit (hvs_fifos hvs ! ?c) = None"
    by (auto simp: channel_free_def)
  let ?f = "(hvs_fifos hvs ! ?c)\<lparr>pending_commit := Some p\<rparr>"
  let ?hvs = "hvs\<lparr>hvs_fifos := (hvs_fifos hvs)[?c := ?f]\<rparr>"
  have "setup_crtc new (hvs, dev) = Some (?hvs, get_commit p dev)"
    using False p by (simp add: setup_crtc_def upd_fifo_def Let_def)
  moreover have "commits_of ?hvs q = commits_of hvs q + (if q = p then 1 else 0)" for q
    using filter_length_update [of ?c "hvs_fifos hvs" "\<lambda>f. pending_commit f = Some q" ?f] p by (auto simp: commits_of_def)
  then have "commits_added (hvs, dev) (?hvs, get_commit p dev)"
    using p by (auto simp: commits_added_def get_commit_def map_update list_update_same_conv)
  ultimately show ?thesis by fastforce
qed


lemma setup_crtcs_add:
  assumes "length cs = length crtcs" "\<forall>old new. Some (old, new) \<in> set cs \<longrightarrow> channel_free hvs new \<and> cs_commit new \<noteq> None"
    and "\<And>i j old new old' new'. i < j \<Longrightarrow> j < length cs \<Longrightarrow> cs ! i = Some (old, new) \<Longrightarrow> cs ! j = Some (old', new') \<Longrightarrow>
           assigned_channel new' = VC4_HVS_CHANNEL_DISABLED \<or> unat (assigned_channel new') \<noteq> unat (assigned_channel new)"
  shows "\<exists>hvs' dev'. new_crtcs (\<lambda>_ n. setup_crtc n) crtcs cs (hvs, dev) = Some (hvs', dev') \<and> commits_added (hvs, dev) (hvs', dev')"
  using assms
proof (induction cs arbitrary: crtcs hvs dev)
  case Nil
  then show ?case using commits_added_refl [of "(hvs, dev)"] by simp
next
  case (Cons x cs)
  obtain c crtcs' where crtcs: "crtcs = c # crtcs'" "length cs = length crtcs'" using Cons.prems(1) by (cases crtcs) auto
  have later: "assigned_channel n' = VC4_HVS_CHANNEL_DISABLED \<or> unat (assigned_channel n') \<noteq> unat (assigned_channel n)"
    if "i < j" "j < length cs" "cs ! i = Some (o', n)" "cs ! j = Some (o'', n')" for i j o' n o'' n'
    using Cons.prems(3) [of "Suc i" "Suc j" o' n o'' n'] that by simp
  show ?case
  proof (cases x)
    case None
    then show ?thesis using Cons.IH [of crtcs' hvs dev] later Cons.prems(2) crtcs by auto
  next
    case (Some q)
    obtain old new where q: "x = Some (old, new)" using Some by (cases q) auto
    obtain h1 d1 where s: "setup_crtc new (hvs, dev) = Some (h1, d1)" "commits_added (hvs, dev) (h1, d1)"
      "\<And>c. c \<noteq> unat (assigned_channel new) \<Longrightarrow> hvs_fifos h1 ! c = hvs_fifos hvs ! c"
      using setup_crtc_adds [of hvs new dev] Cons.prems(2) q by auto
    have len: "length (hvs_fifos h1) = length (hvs_fifos hvs)" using s(2) by (auto simp: commits_added_def dest: map_eq_imp_length_eq)
    have "channel_free h1 n' \<and> cs_commit n' \<noteq> None" if n': "Some (o', n') \<in> set cs" for o' n'
    proof -
      obtain j where j: "j < length cs" "cs ! j = Some (o', n')" using n' by (auto simp: in_set_conv_nth)
      have "assigned_channel n' = VC4_HVS_CHANNEL_DISABLED \<or> unat (assigned_channel n') \<noteq> unat (assigned_channel new)"
        using Cons.prems(3) [of 0 "Suc j" old new o' n'] q j by simp
      moreover have "channel_free hvs n'" "cs_commit n' \<noteq> None" using Cons.prems(2) n' by auto
      ultimately show ?thesis using s(3) len by (auto simp: channel_free_def)
    qed
    then obtain h2 d2 where "new_crtcs (\<lambda>_ n. setup_crtc n) crtcs' cs (h1, d1) = Some (h2, d2)" "commits_added (h1, d1) (h2, d2)"
      using Cons.IH [of crtcs' h1 d1] crtcs(2) later by blast
    then show ?thesis using s(1) commits_added_trans [OF s(2)] crtcs(1) q by auto
  qed
qed

lemma with_commits_nth:
  "i < length (as_crtcs st) \<Longrightarrow> as_crtcs (with_commits f st) ! i = map_option (\<lambda>(old, new). (old, new\<lparr>cs_commit := Some (f i)\<rparr>)) (as_crtcs st ! i)"
  by (simp add: with_commits_def)

lemma with_commits_same:
  "length (as_crtcs (with_commits f st)) = length (as_crtcs st)" "as_hvs (with_commits f st) = as_hvs st"
  "as_load (with_commits f st) = as_load st" "as_planes (with_commits f st) = as_planes st" "as_ctm (with_commits f st) = as_ctm st"
  by (simp_all add: with_commits_def)

lemma with_commits_new_state:
  assumes "length (as_crtcs st) = length (kms_crtcs dev)" "s' \<in> set (new_states dev (as_crtcs (with_commits f st)))"
  shows "\<exists>s\<in>set (new_states dev (as_crtcs st)). \<exists>x. s' = s\<lparr>cs_commit := x\<rparr>"
proof -
  obtain i where i: "i < length (kms_crtcs dev)" "s' = new_state (crtc_states dev) (as_crtcs (with_commits f st)) i"
    using assms(2) by auto
  let ?s = "new_state (crtc_states dev) (as_crtcs st) i"
  have "s' = ?s\<lparr>cs_commit := cs_commit s'\<rparr>"
    using i with_commits_nth [of i st f] assms(1) by (cases "as_crtcs st ! i") (auto simp: new_state_def)
  moreover have "?s \<in> set (new_states dev (as_crtcs st))" using i by simp
  ultimately show ?thesis by blast
qed

lemma loads_okD: "loads_ok css hvs \<Longrightarrow> s \<in> set css \<Longrightarrow> cs_active s \<Longrightarrow> fifo_load (hvs_fifos hvs ! unat (assigned_channel s)) = cs_hvs_load s"
  by (simp add: loads_ok_def)

lemma checked_with_commits:
  assumes "checked dev st"
  shows "checked dev (with_commits f st)" "Some (old, new) \<in> set (as_crtcs (with_commits f st)) \<Longrightarrow> cs_commit new \<noteq> None"
proof -
  obtain hvs l where c: "as_hvs st = Some (hvs_channels dev, hvs)" "as_load st = Some (load_tracker dev, l)"
    "muxed_ok dev (as_crtcs st) hvs" "loads_ok (new_states dev (as_crtcs st)) hvs" "no_commits hvs"
    "tracker_ok (kms_crtcs dev) (map2 new_plane (plane_states dev) (as_planes st)) l"
    "load_tracker_enabled dev \<longrightarrow> membus_load l \<le> MEMBUS_LIMIT \<and> hvs_load l \<le> HVS_LIMIT"
    "\<forall>s\<in>set (new_states dev (as_crtcs st)). cs_active s \<longrightarrow> cs_hvs_load s \<le> core_clock_rate hvs"
    using assms by (auto simp: checked_def)
  have len: "length (as_crtcs st) = length (kms_crtcs dev)" using c(3) by (simp add: muxed_ok_def)
  note ns = with_commits_new_state [OF len, of _ f]
  have "rel_option helper_pair (as_crtcs st ! i) (as_crtcs (with_commits f st) ! i)" if "i < length (as_crtcs st)" for i
    using with_commits_nth [OF that, of f] by (cases "as_crtcs st ! i") (auto simp: helper_pair_def)
  then have "muxed_ok dev (as_crtcs (with_commits f st)) hvs"
    by (intro muxed_ok_helper [OF c(3)]) (simp add: list_all2_conv_all_nth with_commits_same)
  moreover have "loads_ok (new_states dev (as_crtcs (with_commits f st))) hvs"
    unfolding loads_ok_def
  proof (intro ballI impI)
    fix s' assume s': "s' \<in> set (new_states dev (as_crtcs (with_commits f st)))" "cs_active s'"
    then obtain s x where s: "s \<in> set (new_states dev (as_crtcs st))" "s' = s\<lparr>cs_commit := x\<rparr>" using ns by blast
    then have "fifo_load (hvs_fifos hvs ! unat (assigned_channel s)) = cs_hvs_load s" using loads_okD [OF c(4) s(1)] s'(2) s(2) by simp
    then show "fifo_load (hvs_fifos hvs ! unat (assigned_channel s')) = cs_hvs_load s'" using s(2) by simp
  qed
  moreover have "cs_hvs_load s' \<le> core_clock_rate hvs" if s': "s' \<in> set (new_states dev (as_crtcs (with_commits f st)))" "cs_active s'" for s'
  proof -
    obtain s x where s: "s \<in> set (new_states dev (as_crtcs st))" "s' = s\<lparr>cs_commit := x\<rparr>" using ns [OF s'(1)] by blast
    then show ?thesis using bspec [OF c(8) s(1)] s'(2) by simp
  qed
  ultimately show "checked dev (with_commits f st)"
    unfolding checked_def using c by (simp only: with_commits_same) blast
  show "cs_commit new \<noteq> None" if new: "Some (old, new) \<in> set (as_crtcs (with_commits f st))"
  proof -
    obtain i where i: "i < length (as_crtcs st)" "as_crtcs (with_commits f st) ! i = Some (old, new)"
      using new with_commits_same(1) [of f st] by (metis in_set_conv_nth)
    then show ?thesis using with_commits_nth [of i st f] by auto
  qed
qed


lemma setup_ok:
  assumes c: "checked dev st" and cm: "\<And>old new. Some (old, new) \<in> set (as_crtcs st) \<Longrightarrow> cs_commit new \<noteq> None"
    and fw: "\<not> firmware_kms dev"
  obtains hvs hvs' dev' where "as_hvs st = Some (hvs_channels dev, hvs)" "commits_added (hvs, dev) (hvs', dev')"
    "vc4_atomic_commit_setup st dev = Some (Inr (), st\<lparr>legacy_cursor_update := False, as_hvs := Some (hvs_channels dev, hvs')\<rparr>, dev')"
proof -
  obtain hvs where h: "as_hvs st = Some (hvs_channels dev, hvs)" "muxed_ok dev (as_crtcs st) hvs" "no_commits hvs"
    using c by (auto simp: checked_def)
  let ?n = "length (kms_crtcs dev)" and ?css = "new_states dev (as_crtcs st)"
  have wf: "channels_wf (kms_crtcs dev) ?css hvs" and len: "length (as_crtcs st) = ?n" using h(2) by (auto simp: muxed_ok_def)
  have new: "?css ! i = new" if "i < ?n" "as_crtcs st ! i = Some (old, new)" for i old new using that by (simp add: new_state_def)
  have dis: "assigned_channel (?css ! i) = VC4_HVS_CHANNEL_DISABLED" if "i < ?n" "\<not> cs_enable (?css ! i)" for i
    using wf that by (auto simp: channels_wf_def crtc_channel_ok_def chan_def dest!: spec [of _ i])
  have lt: "unat (assigned_channel (?css ! i)) < length (hvs_fifos hvs)" if "i < ?n" "cs_enable (?css ! i)" for i
    using channels_wf_used(2) [OF wf that] wf by (simp add: channels_wf_def)
  have free: "channel_free hvs (?css ! i)" if "i < ?n" for i
    using dis [OF that] lt [OF that] h(3) by (cases "cs_enable (?css ! i)") (auto simp: channel_free_def no_commits_def)
  have "channel_free hvs new" if el: "Some (old, new) \<in> set (as_crtcs st)" for old new
    using el free new len by (metis in_set_conv_nth)
  moreover have "assigned_channel n' = VC4_HVS_CHANNEL_DISABLED \<or> unat (assigned_channel n') \<noteq> unat (assigned_channel n)"
    if ij: "i < j" "j < length (as_crtcs st)" "as_crtcs st ! i = Some (o', n)" "as_crtcs st ! j = Some (o'', n')" for i j o' n o'' n'
  proof -
    have i: "i < ?n" "j < ?n" "i \<noteq> j" "?css ! i = n" "?css ! j = n'" using ij new len by auto
    have "unat (assigned_channel n') \<noteq> unat (assigned_channel n)" if en: "cs_enable n'"
    proof (cases "cs_enable n")
      case True
      then show ?thesis using channels_wf_distinct [OF wf i(2,1)] i en by auto
    next
      case False
      then have "unat (assigned_channel n) = 2 ^ 32 - 1" using dis [OF i(1)] i(4)
        by (simp add: VC4_HVS_CHANNEL_DISABLED_def unsigned_minus_1_eq_mask mask_eq_exp_minus_1)
      moreover have "unat (assigned_channel n') < HVS_NUM_CHANNELS" using channels_wf_used(2) [OF wf i(2)] i(5) en by simp
      ultimately show ?thesis by (simp add: HVS_NUM_CHANNELS_def)
    qed
    then show ?thesis using dis [OF i(2)] i(5) by blast
  qed
  ultimately obtain hvs' dev' where "new_crtcs (\<lambda>_ n. setup_crtc n) (kms_crtcs dev) (as_crtcs st) (hvs, dev) = Some (hvs', dev')"
    "commits_added (hvs, dev) (hvs', dev')"
    using setup_crtcs_add [of "as_crtcs st" "kms_crtcs dev" hvs dev] len cm by blast
  then show ?thesis
    using h(1) fw that by (simp add: vc4_atomic_commit_setup_def vc4_hvs_get_new_global_state_def set_new_hvs_def Let_def)
qed

subsection \<open>The tail of a commit\<close>

lemma put_commits_refs: "put_commits cs dev = dev\<lparr>commit_refs := \<lambda>p. commit_refs dev p - int (length (filter (\<lambda>c. c = Some p) cs))\<rparr>"
proof (induction cs arbitrary: dev)
  case Nil
  then show ?case by (simp add: put_commits_def)
next
  case (Cons c cs)
  show ?case
  proof (cases c)
    case None
    then show ?thesis using Cons [of dev] by (simp add: put_commits_def)
  next
    case (Some q)
    let ?r = "(commit_refs dev)(q := commit_refs dev q - 1)"
    have "put_commits (c # cs) dev = put_commits cs (dev\<lparr>commit_refs := ?r\<rparr>)" using Some by (simp add: put_commits_def)
    also have "\<dots> = dev\<lparr>commit_refs := \<lambda>p. ?r p - int (length (filter (\<lambda>c. c = Some p) cs))\<rparr>" by (simp only: Cons) simp
    also have "(\<lambda>p. ?r p - int (length (filter (\<lambda>c. c = Some p) cs))) = (\<lambda>p. commit_refs dev p - int (length (filter (\<lambda>x. x = Some p) (c # cs))))"
      using Some by (intro ext) auto
    finally show ?thesis .
  qed
qed

lemma destroy_refs:
  "vc4_hvs_channels_destroy_state s dev = dev\<lparr>commit_refs := \<lambda>p. commit_refs dev p - int (commits_of s p)\<rparr>"
  by (simp add: vc4_hvs_channels_destroy_state_def put_commits_refs commits_of_def filter_map o_def)

lemma wait_channels_refs:
  assumes "wait_channels fs dev = (fs', dev')"
  shows "\<exists>r lg. dev' = dev\<lparr>commit_refs := r, kms_log := lg\<rparr> \<and>
     (\<forall>p. r p - int (length (filter (\<lambda>f. pending_commit f = Some p) fs')) =
          commit_refs dev p - int (length (filter (\<lambda>f. pending_commit f = Some p) fs)))"
  using assms
proof (induction fs arbitrary: dev fs' dev')
  case Nil
  then show ?case by (auto intro!: exI [of _ "commit_refs dev"] exI [of _ "kms_log dev"])
next
  case (Cons f fs)
  obtain f1 d1 where 1: "wait_channel f dev = (f1, d1)" by fastforce
  obtain fs2 d2 where 2: "wait_channels fs d1 = (fs2, d2)" by fastforce
  from Cons.IH [OF 2] obtain r lg where r: "d2 = d1\<lparr>commit_refs := r, kms_log := lg\<rparr>"
    "\<And>p. r p - int (length (filter (\<lambda>f. pending_commit f = Some p) fs2)) = commit_refs d1 p - int (length (filter (\<lambda>f. pending_commit f = Some p) fs))"
    by blast
  have "\<exists>r lg. d1 = dev\<lparr>commit_refs := r, kms_log := lg\<rparr> \<and>
     (\<forall>p. r p - (if pending_commit f1 = Some p then 1 else 0) = commit_refs dev p - (if pending_commit f = Some p then 1 else 0))"
  proof (cases "in_use f \<and> pending_commit f \<noteq> None")
    case True
    then have "d1 = dev\<lparr>commit_refs := commit_refs d1, kms_log := kms_log d1\<rparr>"
      "commit_refs d1 p - (if pending_commit f1 = Some p then 1 else 0) = commit_refs dev p - (if pending_commit f = Some p then 1 else 0)" for p
      using 1 by (auto simp: wait_channel_def put_commits_refs kms_logged_def)
    then show ?thesis by blast
  next
    case False
    then have "f1 = f" "d1 = dev" using 1 by (auto simp: wait_channel_def split: option.splits)
    then show ?thesis by (auto intro!: exI [of _ "commit_refs dev"] exI [of _ "kms_log dev"])
  qed
  then obtain r1 lg1 where d1: "d1 = dev\<lparr>commit_refs := r1, kms_log := lg1\<rparr>"
    "\<And>p. r1 p - (if pending_commit f1 = Some p then 1 else 0) = commit_refs dev p - (if pending_commit f = Some p then 1 else 0)"
    by blast
  have "fs' = f1 # fs2" "dev' = d2" using Cons.prems 1 2 by auto
  then have "dev' = dev\<lparr>commit_refs := r, kms_log := lg\<rparr>" using r(1) d1(1) by simp
  moreover have "r p - int (length (filter (\<lambda>f. pending_commit f = Some p) (f1 # fs2))) =
          commit_refs dev p - int (length (filter (\<lambda>f. pending_commit f = Some p) (f # fs)))" for p
    using r(2) [of p] d1(1) d1(2) [of p] by (simp split: if_splits)
  ultimately show ?case using \<open>fs' = f1 # fs2\<close> by blast
qed

text \<open>Programming the matrix and the muxes writes registers and nothing else.\<close>
definition regs_only :: "vc4_kms \<Rightarrow> vc4_kms \<Rightarrow> bool" where
  "regs_only dev dev' \<longleftrightarrow> (\<exists>r. dev' = dev\<lparr>hvs_regs := r\<rparr>)"

lemma regs_only_refl: "regs_only dev dev"
  unfolding regs_only_def by (rule exI [of _ "hvs_regs dev"]) simp

lemma regs_only_write: "regs_only dev dev' \<Longrightarrow> regs_only dev (HVS_WRITE r v dev')"
  by (auto simp: regs_only_def HVS_WRITE_def)

lemma regs_only_trans: "regs_only a b \<Longrightarrow> regs_only b c \<Longrightarrow> regs_only a c"
  by (auto simp: regs_only_def)

lemmas regs_only_intros = regs_only_refl regs_only_write

lemma new_crtcs_regs_only:
  assumes "new_crtcs f crtcs cs dev = Some dev'" "\<And>c n d d'. f c n d = Some d' \<Longrightarrow> regs_only d d'"
  shows "regs_only dev dev'"
  using assms
proof (induction f crtcs cs dev rule: new_crtcs.induct)
  case (1 f c crtcs old new cs s)
  then show ?case by (auto split: option.splits) (blast intro: regs_only_trans)
qed (auto intro: regs_only_refl)

lemma muxing_commit_regs_only: "muxing_commit st dev = Some dev' \<Longrightarrow> regs_only dev dev'"
  unfolding muxing_commit_def vc4_hvs_pv_muxing_commit_def vc5_hvs_pv_muxing_commit_def vc6_hvs_pv_muxing_commit_def
  by (auto simp: vc4_mux_crtc_def vc5_mux_crtc_def vc6_mux_crtc_def Let_def split: if_splits vc4_gen.splits
           intro!: regs_only_intros elim!: new_crtcs_regs_only)

lemma vc4_ctm_commit_regs_only: "vc4_ctm_commit env dev = Some dev' \<Longrightarrow> regs_only dev dev'"
  unfolding vc4_ctm_commit_def by (auto simp: Let_def split: if_splits intro!: regs_only_intros)

lemma commit_tail_refs:
  assumes t: "vc4_atomic_commit_tail env st dev = Some (st', dev')" and h: "as_hvs st = Some (old, new)"
  shows "\<exists>r lg rg. kms_release st' dev' = dev\<lparr>commit_refs := r, kms_log := lg, hvs_regs := rg\<rparr> \<and>
           (\<forall>p. r p = commit_refs dev p - int (commits_of old p))"
proof -
  obtain fs d1 where w: "wait_channels (hvs_fifos old) dev = (fs, d1)" by fastforce
  let ?cl = "kms_gen dev = VC4_GEN_5 \<and> \<not> firmware_kms dev"
  obtain lg2 d3 d4 lg4 where c: "(if kms_gen dev \<in> {VC4_GEN_4, VC4_GEN_5} then vc4_ctm_commit env (kms_logged lg2 d1) else Some (kms_logged lg2 d1)) = Some d3"
    and m: "muxing_commit (st\<lparr>as_hvs := Some (old\<lparr>hvs_fifos := fs\<rparr>, new)\<rparr>) d3 = Some d4"
    and e: "st' = st\<lparr>as_hvs := Some (old\<lparr>hvs_fifos := fs\<rparr>, new)\<rparr>" "dev' = kms_logged lg4 d4"
    using t h w unfolding vc4_atomic_commit_tail_def Let_def by (auto split: option.splits)
  have "regs_only (kms_logged lg2 d1) d3" using c by (auto split: if_splits intro: vc4_ctm_commit_regs_only regs_only_refl)
  then have "regs_only (kms_logged lg2 d1) d4" using muxing_commit_regs_only [OF m] by (rule regs_only_trans)
  then obtain rg where d4: "d4 = (kms_logged lg2 d1)\<lparr>hvs_regs := rg\<rparr>" by (auto simp: regs_only_def)
  from wait_channels_refs [OF w] obtain r lg where d1: "d1 = dev\<lparr>commit_refs := r, kms_log := lg\<rparr>"
    "\<And>p. r p - int (length (filter (\<lambda>f. pending_commit f = Some p) fs)) = commit_refs dev p - int (commits_of old p)"
    by (auto simp: commits_of_def)
  let ?r = "\<lambda>p. commit_refs dev p - int (commits_of old p)"
  have "kms_release st' dev' = dev\<lparr>commit_refs := \<lambda>p. r p - int (length (filter (\<lambda>f. pending_commit f = Some p) fs)),
      kms_log := (lg @ lg2) @ lg4, hvs_regs := rg\<rparr>"
    by (simp add: kms_release_def e destroy_refs d4 d1(1) kms_logged_def commits_of_def)
  then have "kms_release st' dev' = dev\<lparr>commit_refs := ?r, kms_log := (lg @ lg2) @ lg4, hvs_regs := rg\<rparr>" using d1(2) by simp
  then show ?thesis by blast
qed


subsection \<open>Every commit keeps the invariant\<close>

lemma commits_added_keeps:
  assumes "commits_added (hvs, dev) (hvs', dev')" "length (hvs_fifos hvs) = HVS_NUM_CHANNELS"
  shows "length (hvs_fifos hvs') = HVS_NUM_CHANNELS" "c < HVS_NUM_CHANNELS \<Longrightarrow> used hvs' c = used hvs c"
    "c < HVS_NUM_CHANNELS \<Longrightarrow> fifo_load (hvs_fifos hvs' ! c) = fifo_load (hvs_fifos hvs ! c)"
proof -
  have eq: "map in_use (hvs_fifos hvs') = map in_use (hvs_fifos hvs)" "map fifo_load (hvs_fifos hvs') = map fifo_load (hvs_fifos hvs)"
    using assms(1) by (auto simp: commits_added_def)
  show len: "length (hvs_fifos hvs') = HVS_NUM_CHANNELS" using map_eq_imp_length_eq [OF eq(1)] assms(2) by simp
  show "used hvs' c = used hvs c" if "c < HVS_NUM_CHANNELS"
    using arg_cong [OF eq(1), of "\<lambda>xs. xs ! c"] len assms(2) that by (simp add: used_def)
  show "fifo_load (hvs_fifos hvs' ! c) = fifo_load (hvs_fifos hvs ! c)" if "c < HVS_NUM_CHANNELS"
    using arg_cong [OF eq(2), of "\<lambda>xs. xs ! c"] len assms(2) that by simp
qed

lemma kms_swap_inv:
  assumes inv: "kms_inv dev" and c: "checked dev st" "as_hvs st = Some (hvs_channels dev, hvs)"
    and added: "commits_added (hvs, dev) (hvs', dev1)"
    and dev': "dev' = (kms_swap (st\<lparr>legacy_cursor_update := False, as_hvs := Some (hvs_channels dev, hvs')\<rparr>) dev1)\<lparr>commit_refs := r, kms_log := lg, hvs_regs := rg\<rparr>"
      "\<And>p. r p = commit_refs dev1 p - int (commits_of (hvs_channels dev) p)"
  shows "kms_inv dev'"
proof -
  obtain l where l: "as_load st = Some (load_tracker dev, l)" "muxed_ok dev (as_crtcs st) hvs" "loads_ok (new_states dev (as_crtcs st)) hvs"
    "no_commits hvs" "tracker_ok (kms_crtcs dev) (map2 new_plane (plane_states dev) (as_planes st)) l"
    using c by (auto simp: checked_def)
  have ok: "kms_ok dev" "active_ok (crtc_states dev)" using inv by (simp_all add: kms_inv_def)
  obtain rr where d1: "dev1 = dev\<lparr>commit_refs := rr\<rparr>" using added by (auto simp: commits_added_def)
  have wf: "channels_wf (kms_crtcs dev) (new_states dev (as_crtcs st)) hvs" using l(2) by (simp add: muxed_ok_def)
  then have len: "length (hvs_fifos hvs) = HVS_NUM_CHANNELS" by (simp add: channels_wf_def)
  note keep = commits_added_keeps [OF added len]
  have fields: "kms_crtcs dev' = kms_crtcs dev" "firmware_kms dev' = firmware_kms dev" "crtc_states dev' = new_states dev (as_crtcs st)"
    "plane_states dev' = map2 new_plane (plane_states dev) (as_planes st)" "hvs_channels dev' = hvs'" "load_tracker dev' = l" "commit_refs dev' = r"
    by (simp_all add: dev'(1) kms_swap_def d1 l(1))
  have "channels_wf (kms_crtcs dev) (new_states dev (as_crtcs st)) hvs'"
    using channels_wf_cong [OF wf] keep len by simp
  moreover have act: "active_ok (new_states dev (as_crtcs st))" using new_states_active [OF l(2) ok(2,1)] .
  moreover have "loads_ok (new_states dev (as_crtcs st)) hvs'"
    unfolding loads_ok_def
  proof (intro ballI impI)
    fix s assume s: "s \<in> set (new_states dev (as_crtcs st))" "cs_active s"
    obtain i where i: "i < length (kms_crtcs dev)" "s = new_states dev (as_crtcs st) ! i" using s(1) by (auto simp: in_set_conv_nth)
    have "unat (assigned_channel s) < HVS_NUM_CHANNELS"
      using channels_wf_used(2) [OF wf i(1)] active_okD [OF act, of i] i s(2) by simp
    then show "fifo_load (hvs_fifos hvs' ! unat (assigned_channel s)) = cs_hvs_load s"
      using keep(3) loads_okD [OF l(3) s] by simp
  qed
  moreover have "r p = int (commits_of hvs' p)" for p
  proof -
    have "commits_of hvs p = 0" using l(4) by (auto simp: commits_of_def no_commits_def filter_empty_conv)
    then have "commit_refs dev1 p - int (commits_of hvs' p) = commit_refs dev p" using added by (auto simp: commits_added_def)
    then show ?thesis using dev'(2) [of p] inv by (simp add: kms_inv_def)
  qed
  ultimately show ?thesis using ok(1) l(5) by (simp add: kms_inv_def kms_ok_def fields)
qed

lemma kms_commit_inv:
  assumes inv: "kms_inv dev" and req: "request_ok dev st" and env: "sorts env" "helper_keeps env"
    and few: "length (kms_crtcs dev) \<le> Suc CTM_SIZE" and commit: "kms_commit env f st dev = Some dev'"
  shows "kms_inv dev'" "kms_crtcs dev' = kms_crtcs dev"
proof -
  obtain r1 st1 where c: "vc4_atomic_check env dev st = Some (r1, st1)" "r1 = Inr () \<longrightarrow> checked dev st1"
    using atomic_check_checked [OF inv req env few] by blast
  then have r1: "r1 = Inr ()" using commit by (cases r1) (auto simp: kms_commit_def)
  let ?st = "with_commits f st1"
  have ch: "checked dev st1" using c r1 by blast
  have fw: "\<not> firmware_kms dev" using inv by (simp add: kms_inv_def kms_ok_def)
  obtain hvs hvs' dev1 where s: "as_hvs ?st = Some (hvs_channels dev, hvs)" "commits_added (hvs, dev) (hvs', dev1)"
    "vc4_atomic_commit_setup ?st dev = Some (Inr (), ?st\<lparr>legacy_cursor_update := False, as_hvs := Some (hvs_channels dev, hvs')\<rparr>, dev1)"
    using setup_ok [OF checked_with_commits(1) [OF ch, of f] _ fw] checked_with_commits(2) [OF ch] by blast
  let ?st2 = "?st\<lparr>legacy_cursor_update := False, as_hvs := Some (hvs_channels dev, hvs')\<rparr>"
  obtain st3 dev2 where t: "vc4_atomic_commit_tail env ?st2 (kms_swap ?st2 dev1) = Some (st3, dev2)" "dev' = kms_release st3 dev2"
    using commit c(1) r1 s(3) by (auto simp: kms_commit_def)
  from commit_tail_refs [OF t(1), of "hvs_channels dev" hvs']
  obtain r lg rg where d: "dev' = (kms_swap ?st2 dev1)\<lparr>commit_refs := r, kms_log := lg, hvs_regs := rg\<rparr>"
    "\<And>p. r p = commit_refs (kms_swap ?st2 dev1) p - int (commits_of (hvs_channels dev) p)" using t(2) by auto
  have refs: "commit_refs (kms_swap ?st2 dev1) = commit_refs dev1" by (simp add: kms_swap_def)
  show "kms_inv dev'"
    using kms_swap_inv [OF inv checked_with_commits(1) [OF ch] s(1,2) d(1)] d(2) refs by simp
  show "kms_crtcs dev' = kms_crtcs dev" using d(1) s(2) by (auto simp: kms_swap_def commits_added_def)
qed

text \<open>The states that loading the driver and then committing requests can lead to.\<close>
inductive kms_run :: "kms_env \<Rightarrow> vc4_kms \<Rightarrow> bool" for env where
  load: "vc4_kms_load None None None None dev mc = (Inr (), dev', mc') \<Longrightarrow> \<not> firmware_kms dev \<Longrightarrow> length (kms_crtcs dev) \<le> Suc CTM_SIZE \<Longrightarrow>
     \<forall>p\<in>set (plane_states dev). \<not> ps_fb p \<Longrightarrow> commit_refs dev = (\<lambda>_. 0) \<Longrightarrow> kms_run env dev'"
| commit: "kms_run env dev \<Longrightarrow> request_ok dev st \<Longrightarrow> kms_commit env f st dev = Some dev' \<Longrightarrow> kms_run env dev'"

lemma kms_load_inv:
  assumes "vc4_kms_load None None None None dev mc = (Inr (), dev', mc')" "\<not> firmware_kms dev" "\<forall>p\<in>set (plane_states dev). \<not> ps_fb p"
    "commit_refs dev = (\<lambda>_. 0)"
  shows "kms_inv dev'" "kms_crtcs dev' = kms_crtcs dev"
proof -
  have fields: "kms_crtcs dev' = kms_crtcs dev" "firmware_kms dev' = firmware_kms dev" "plane_states dev' = plane_states dev"
    "crtc_states dev' = map (\<lambda>_. vc4_crtc_reset) (kms_crtcs dev)" "commit_refs dev' = commit_refs dev"
    "hvs_channels dev' = \<lparr>core_clock_rate = 0, hvs_fifos = replicate HVS_NUM_CHANNELS fifo_zero\<rparr>"
    "load_tracker dev' = \<lparr>hvs_load = 0, membus_load = 0\<rparr>"
    using assms(1) by (auto simp: vc4_kms_load_def vc4_ctm_obj_init_def vc4_load_tracker_obj_init_def vc4_hvs_channels_obj_init_def Let_def
        split: if_splits)
  have "total_load (kms_crtcs dev) g (plane_states dev) = 0" for g
  proof -
    have "total_load (kms_crtcs dev) g (plane_states dev) = (\<Sum>p\<leftarrow>plane_states dev. 0)"
      unfolding total_load_def using assms(3) by (intro arg_cong [where f = sum_list] map_cong refl) (auto simp: plane_counts_def)
    then show ?thesis by simp
  qed
  then show "kms_inv dev'"
    using assms(2,4) by (auto simp: kms_inv_def kms_ok_def channels_wf_def crtc_channel_ok_def chan_def vc4_crtc_reset_def used_def fifo_zero_def
        active_ok_def loads_ok_def tracker_ok_def commits_of_def fields)
  show "kms_crtcs dev' = kms_crtcs dev" by (rule fields(1))
qed

lemma kms_run_inv:
  assumes "kms_run env dev" "sorts env" "helper_keeps env"
  shows "kms_inv dev \<and> length (kms_crtcs dev) \<le> Suc CTM_SIZE"
  using assms
proof (induction rule: kms_run.induct)
  case (load dev mc dev' mc')
  then show ?case using kms_load_inv [OF load(1,2,4,5)] by simp
next
  case (commit dev st f dev')
  then show ?case using kms_commit_inv [of dev st env f dev'] by simp
qed


subsection \<open>What the hardware is told\<close>

text \<open>The mux field of the outputs 3, 4 and 5 of the BCM2711.\<close>
definition mux_field :: "int \<Rightarrow> vc4_kms \<Rightarrow> u32" where
  "mux_field out dev =
     (if out = 3 then VC4_GET_FIELD (hvs_regs dev SCALER_DISPCTRL) SCALER_DISPCTRL_DSP3_MUX
      else if out = 4 then VC4_GET_FIELD (hvs_regs dev SCALER_DISPEOLN) SCALER_DISPEOLN_DSP4_MUX
      else VC4_GET_FIELD (hvs_regs dev SCALER_DISPDITHER) SCALER_DISPDITHER_DSP5_MUX)"

definition mux_value :: "vc4_crtc_state \<Rightarrow> u32" where
  "mux_value new = (if assigned_channel new = VC4_HVS_CHANNEL_DISABLED then 3 else take_bit 2 (assigned_channel new))"

lemma take_bit_2_mask_8: "take_bit 2 (w AND mask 8 :: u32) = take_bit 2 w"
  by (rule bit_word_eqI) (auto simp: bit_take_bit_iff bit_and_iff bit_mask_iff)

lemma take_bit_2_3: "take_bit 2 (3 :: u32) = 3"
  by (simp add: take_bit_eq_mask mask_eq_exp_minus_1)

lemma get_put_mux:
  "VC4_GET_FIELD (put_field v SCALER_DISPCTRL_DSP3_MUX reg) SCALER_DISPCTRL_DSP3_MUX = take_bit 2 v"
  "VC4_GET_FIELD (put_field v SCALER_DISPEOLN_DSP4_MUX reg) SCALER_DISPEOLN_DSP4_MUX = take_bit 2 v"
  "VC4_GET_FIELD (put_field v SCALER_DISPDITHER_DSP5_MUX reg) SCALER_DISPDITHER_DSP5_MUX = take_bit 2 v"
  unfolding SCALER_DISPCTRL_DSP3_MUX_def SCALER_DISPEOLN_DSP4_MUX_def SCALER_DISPDITHER_DSP5_MUX_def
  by (subst VC4_GET_put_field; simp add: numeral_2_eq_2)+

lemma mux_value_take_bit:
  "take_bit 2 (if c = VC4_HVS_CHANNEL_DISABLED then 3 else c AND mask 8) = (if c = VC4_HVS_CHANNEL_DISABLED then 3 else take_bit 2 c)"
  by (simp only: if_distrib [where f = "take_bit 2"] take_bit_2_mask_8 take_bit_2_3)

lemma vc5_mux_crtc_field:
  assumes "out \<in> {3, 4, 5}"
  shows "mux_field out (vc5_mux_crtc crtc new dev) =
     (if update_muxing new \<and> hvs_output (crtc_data crtc) = out then mux_value new else mux_field out dev)"
proof (cases "update_muxing new \<and> hvs_output (crtc_data crtc) \<in> {2, 3, 4, 5}")
  case False
  then have "vc5_mux_crtc crtc new dev = dev" by (auto simp: vc5_mux_crtc_def)
  then show ?thesis using False assms by auto
next
  case True
  define mux where "mux = (if assigned_channel new = VC4_HVS_CHANNEL_DISABLED then 3 else assigned_channel new AND mask 8)"
  have v: "take_bit 2 mux = mux_value new" unfolding mux_def mux_value_def by (rule mux_value_take_bit)
  let ?o = "hvs_output (crtc_data crtc)" and ?r = "hvs_regs (vc5_mux_crtc crtc new dev)" and ?regs = "hvs_regs dev"
  have r: "?o = 3 \<Longrightarrow> ?r = ?regs(SCALER_DISPCTRL := put_field mux SCALER_DISPCTRL_DSP3_MUX (?regs SCALER_DISPCTRL))"
    "?o = 4 \<Longrightarrow> ?r = ?regs(SCALER_DISPEOLN := put_field mux SCALER_DISPEOLN_DSP4_MUX (?regs SCALER_DISPEOLN))"
    "?o = 5 \<Longrightarrow> ?r = ?regs(SCALER_DISPDITHER := put_field mux SCALER_DISPDITHER_DSP5_MUX (?regs SCALER_DISPDITHER))"
    "?o = 2 \<Longrightarrow> \<exists>k. ?r = ?regs(SCALER_DISPECTRL := k)"
    using True by (simp_all add: vc5_mux_crtc_def Let_def HVS_WRITE_def mux_def) blast
  consider "?o = 2" | "?o = 3" | "?o = 4" | "?o = 5" using True by auto
  then show ?thesis
  proof cases
    case 1
    then obtain k where "?r = ?regs(SCALER_DISPECTRL := k)" using r(4) by blast
    then show ?thesis using 1 assms by (auto simp: mux_field_def simp del: VC4_GET_FIELD.simps)
  qed (use True assms r v in \<open>auto simp: mux_field_def get_put_mux simp del: VC4_GET_FIELD.simps\<close>)
qed

lemma vc5_mux_fields:
  assumes "out \<in> {3, 4, 5}" "distinct (map (\<lambda>c. hvs_output (crtc_data c)) crtcs)" "length cs = length crtcs"
    "new_crtcs (\<lambda>c n d. Some (vc5_mux_crtc c n d)) crtcs cs dev = Some dev'"
  shows "(\<forall>i old new. i < length crtcs \<longrightarrow> cs ! i = Some (old, new) \<longrightarrow> update_muxing new \<longrightarrow> hvs_output (crtc_data (crtcs ! i)) = out \<longrightarrow>
            mux_field out dev' = mux_value new) \<and>
         ((\<forall>i<length crtcs. hvs_output (crtc_data (crtcs ! i)) \<noteq> out) \<longrightarrow> mux_field out dev' = mux_field out dev)"
  using assms(2-)
proof (induction crtcs arbitrary: cs dev)
  case Nil
  then show ?case by simp
next
  case (Cons c crtcs)
  obtain x cs' where cs: "cs = x # cs'" "length cs' = length crtcs" using Cons.prems(2) by (cases cs) auto
  let ?d = "case x of None \<Rightarrow> dev | Some (old, new) \<Rightarrow> vc5_mux_crtc c new dev"
  have rest: "new_crtcs (\<lambda>c n d. Some (vc5_mux_crtc c n d)) crtcs cs' ?d = Some dev'"
    using Cons.prems(3) cs(1) by (cases x) auto
  have d: "distinct (map (\<lambda>c. hvs_output (crtc_data c)) crtcs)" using Cons.prems(1) by simp
  note IH = Cons.IH [OF d cs(2) rest]
  have head: "mux_field out dev' = mux_value new" if "x = Some (old, new)" "update_muxing new" "hvs_output (crtc_data c) = out" for old new
  proof -
    have "\<forall>i<length crtcs. hvs_output (crtc_data (crtcs ! i)) \<noteq> out"
      using Cons.prems(1) that(3) by (metis distinct.simps(2) in_set_conv_nth length_map list.simps(9) nth_map)
    then show ?thesis using IH that vc5_mux_crtc_field [OF assms(1), of c new dev] by simp
  qed
  have "mux_field out dev' = mux_value new"
    if "i < length (c # crtcs)" "cs ! i = Some (old, new)" "update_muxing new" "hvs_output (crtc_data ((c # crtcs) ! i)) = out" for i old new
    using that head [of old new] IH cs(1) by (cases i) auto
  moreover have "mux_field out dev' = mux_field out dev" if no: "\<forall>i<length (c # crtcs). hvs_output (crtc_data ((c # crtcs) ! i)) \<noteq> out"
  proof -
    have "hvs_output (crtc_data c) \<noteq> out" "\<forall>i<length crtcs. hvs_output (crtc_data (crtcs ! i)) \<noteq> out" using no by auto
    then show ?thesis using IH vc5_mux_crtc_field [OF assms(1), of c _ dev] by (cases x) auto
  qed
  ultimately show ?case by blast
qed


subsection \<open>The scalars of the matrix\<close>

lemma ctm_int_part:
  fixes v :: u64
  shows "(v AND push_bit 32 (mask 31)) > 0 \<longleftrightarrow> unat (take_bit 63 v) \<ge> 2 ^ 32"
proof -
  have "v AND push_bit 32 (mask 31) = push_bit 32 (drop_bit 32 (take_bit 63 v))"
    by (rule bit_word_eqI) (auto simp: bit_and_iff bit_push_bit_iff bit_mask_iff bit_drop_bit_eq bit_take_bit_iff simp del: push_bit_mask_eq)
  moreover have "push_bit 32 (drop_bit 32 (take_bit 63 v)) = 0 \<longleftrightarrow> drop_bit 32 (take_bit 63 v) = 0"
  proof
    assume z: "push_bit 32 (drop_bit 32 (take_bit 63 v)) = 0"
    show "drop_bit 32 (take_bit 63 v) = 0"
    proof (rule bit_word_eqI)
      fix n assume "n < LENGTH(64)"
      have "\<not> bit (push_bit 32 (drop_bit 32 (take_bit 63 v))) (n + 32)" using z by simp
      then show "bit (drop_bit 32 (take_bit 63 v)) n = bit 0 n"
        by (auto simp: bit_push_bit_iff bit_drop_bit_eq bit_take_bit_iff add.commute)
    qed
  qed simp
  moreover have "drop_bit 32 (take_bit 63 v) = 0 \<longleftrightarrow> unat (take_bit 63 v) < 2 ^ 32"
  proof -
    have "unat (drop_bit 32 (take_bit 63 v)) = unat (take_bit 63 v) div 2 ^ 32"
      unfolding unat_drop_bit_eq by (rule drop_bit_eq_div)
    then show ?thesis by (metis div_eq_0_iff unat_eq_zero zero_neq_numeral power_not_zero)
  qed
  ultimately show ?thesis by (simp add: word_gt_0 not_less)
qed

lemma ctm_conversion:
  assumes "ctm_scalar_ok v"
  shows "bit (vc4_ctm_s31_32_to_s0_9 v) 9 = bit v 63" "unat (take_bit 9 (vc4_ctm_s31_32_to_s0_9 v)) = min 511 (unat (take_bit 63 v) div 2 ^ 23)"
proof -
  let ?m = "take_bit 63 v"
  have "v AND NOT (push_bit 63 1) = ?m"
  proof (rule bit_word_eqI)
    fix n assume "n < LENGTH(64)"
    then show "bit (v AND NOT (push_bit 63 1)) n = bit ?m n"
      by (simp only: bit_and_iff bit_not_iff bit_push_bit_iff bit_1_iff bit_take_bit_iff) auto
  qed
  then have le: "unat ?m \<le> 2 ^ 32" using assms by (simp add: ctm_scalar_ok_def word_le_nat_alt)
  show "bit (vc4_ctm_s31_32_to_s0_9 v) 9 = bit v 63"
    by (auto simp: vc4_ctm_s31_32_to_s0_9_def bit_or_iff bit_and_iff bit_mask_iff bit_exp_iff)
  show "unat (take_bit 9 (vc4_ctm_s31_32_to_s0_9 v)) = min 511 (unat ?m div 2 ^ 23)"
  proof (cases "unat ?m \<ge> 2 ^ 32")
    case True
    then have "take_bit 9 (vc4_ctm_s31_32_to_s0_9 v) = mask 9"
      using ctm_int_part [of v]
      by (intro bit_word_eqI) (auto simp: vc4_ctm_s31_32_to_s0_9_def bit_or_iff bit_mask_iff bit_exp_iff bit_take_bit_iff)
    moreover have "unat (mask 9 :: u16) = 511" by (simp add: mask_eq_exp_minus_1)
    ultimately show ?thesis using True le by simp
  next
    case False
    have "\<not> bit (512 :: u16) n" if "n < 9" for n
    proof -
      have "(512 :: u16) = 2 ^ 9" by simp
      then show ?thesis using that by (metis bit_exp_iff nat_neq_iff)
    qed
    then have "take_bit 9 (vc4_ctm_s31_32_to_s0_9 v) = ucast (take_bit 9 (drop_bit 23 ?m))"
      using False ctm_int_part [of v]
      by (intro bit_word_eqI)
        (auto simp: vc4_ctm_s31_32_to_s0_9_def bit_or_iff bit_and_iff bit_mask_iff bit_exp_iff bit_take_bit_iff bit_ucast_iff bit_drop_bit_eq)
    moreover have "unat (ucast (take_bit 9 (drop_bit 23 ?m)) :: u16) = unat (take_bit 9 (drop_bit 23 ?m))"
      by (simp add: unsigned_ucast_eq unsigned_take_bit_eq)
    moreover have "unat (take_bit 9 (drop_bit 23 ?m)) = unat ?m div 2 ^ 23 mod 2 ^ 9"
      unfolding unsigned_take_bit_eq [of 9] unat_drop_bit_eq by (simp only: take_bit_eq_mod [of 9] drop_bit_eq_div)
    moreover have "unat ?m div 2 ^ 23 < 2 ^ 9" using False by (simp add: div_less_iff_less_mult)
    ultimately show ?thesis by simp
  qed
qed

subsection \<open>Claims on the check and on the hardware\<close>


text \<open>
  On the BCM2711, a commit leaves in the mux field of each of the outputs 3, 4 and 5 whose CRTC changed its channel the number of the
  channel, or 3 if the CRTC was disabled, and does not touch the fields of the others.
\<close>
theorem vc5_muxing_programs_channels:
  assumes "out \<in> {3, 4, 5}" "distinct (map (\<lambda>c. hvs_output (crtc_data c)) (kms_crtcs dev))" "length (as_crtcs st) = length (kms_crtcs dev)"
    and "vc5_hvs_pv_muxing_commit st dev = Some dev'"
  shows "(\<forall>i old new. i < length (kms_crtcs dev) \<longrightarrow> as_crtcs st ! i = Some (old, new) \<longrightarrow> update_muxing new \<longrightarrow>
            hvs_output (crtc_data (kms_crtcs dev ! i)) = out \<longrightarrow> mux_field out dev' = mux_value new) \<and>
         ((\<forall>i<length (kms_crtcs dev). hvs_output (crtc_data (kms_crtcs dev ! i)) \<noteq> out) \<longrightarrow> mux_field out dev' = mux_field out dev)"
  using vc5_mux_fields [OF assms(1-3)] assms(4) unfolding vc5_hvs_pv_muxing_commit_def by blast


subsection \<open>Examples\<close>

definition demo_env :: kms_env where
  "demo_env = \<lparr>env_hvs_err = None, env_load_err = None, env_ctm_lock_err = None, env_ctm_err = None, env_crtc_array = True,
     env_sort = sort_key, env_helper_check = (\<lambda>dev st. (Inr (), st)), env_ctm_matrix = (\<lambda>_. replicate 9 0x80000000)\<rparr>"

definition demo_unloaded :: vc4_kms where
  "demo_unloaded = \<lparr>kms_gen = VC4_GEN_5, firmware_kms = False, load_tracker_enabled = False, kms_crtcs = bcm2711_crtcs, crtc_states = [],
     plane_states = [], hvs_channels = \<lparr>core_clock_rate = 0, hvs_fifos = []\<rparr>, load_tracker = \<lparr>hvs_load = 0, membus_load = 0\<rparr>,
     ctm_manager = \<lparr>ctm = None, ctm_fifo = 0\<rparr>, max_core_rate = 550000000, hvs_regs = (\<lambda>_. 0), commit_refs = (\<lambda>_. 0), kms_log = []\<rparr>"

definition demo_config :: drm_mode_config where
  "demo_config = \<lparr>max_width = 0, max_height = 0, uses_vc4_fb_create = False, mc_ready = False\<rparr>"

definition demo_loaded :: vc4_kms where
  "demo_loaded = fst (snd (vc4_kms_load None None None None demo_unloaded demo_config))"

text \<open>Enabling some CRTCs of a device.\<close>
definition demo_request :: "nat list \<Rightarrow> vc4_kms \<Rightarrow> drm_atomic_state" where
  "demo_request es dev = \<lparr>as_crtcs = map (\<lambda>i. if i \<in> set es
       then Some (crtc_states dev ! i, (vc4_crtc_duplicate_state (crtc_states dev ! i))\<lparr>cs_enable := True, cs_active := True, cs_hvs_load := 148500000\<rparr>)
       else None) [0..<length (kms_crtcs dev)],
     as_planes = map (\<lambda>_. None) (plane_states dev), as_hvs = None, as_load = None, as_ctm = None, legacy_cursor_update = False\<rparr>"

declare ctm_loop.simps [code]


lemma demo_env_ok: "sorts demo_env" "helper_keeps demo_env"
proof -
  show "sorts demo_env" by (simp add: sorts_def demo_env_def)
  have "rel_option helper_pair x x" for x by (cases x) (auto simp: helper_pair_def)
  then show "helper_keeps demo_env" by (auto simp: helper_keeps_def demo_env_def intro: list_all2_refl)
qed

lemma demo_request_ok: "length (crtc_states dev) = length (kms_crtcs dev) \<Longrightarrow> request_ok dev (demo_request es dev)"
  by (auto simp: request_ok_def atomic_ok_def pair_ok_def new_active_def planes_ok_def demo_request_def vc4_crtc_duplicate_state_def
      list_all2_conv_all_nth)

lemma demo_loaded_run: "kms_run demo_env demo_loaded" "length (crtc_states demo_loaded) = length (kms_crtcs demo_loaded)"
proof -
  have l: "vc4_kms_load None None None None demo_unloaded demo_config =
      (Inr (), demo_loaded, snd (snd (vc4_kms_load None None None None demo_unloaded demo_config)))"
    by (simp add: demo_loaded_def vc4_kms_load_def vc4_ctm_obj_init_def vc4_load_tracker_obj_init_def vc4_hvs_channels_obj_init_def demo_unloaded_def Let_def)
  show "kms_run demo_env demo_loaded"
    by (rule kms_run.load [OF l]) (simp_all add: demo_unloaded_def bcm2711_crtcs_def CTM_SIZE_def)
  show "length (crtc_states demo_loaded) = length (kms_crtcs demo_loaded)" by code_simp
qed

definition demo_committed :: vc4_kms where
  "demo_committed = the (kms_commit demo_env (\<lambda>i. 100 + i) (demo_request [2, 4] demo_loaded) demo_loaded)"

lemma demo_commit: "kms_commit demo_env (\<lambda>i. 100 + i) (demo_request [2, 4] demo_loaded) demo_loaded = Some demo_committed"
proof -
  have "kms_commit demo_env (\<lambda>i. 100 + i) (demo_request [2, 4] demo_loaded) demo_loaded \<noteq> None \<longleftrightarrow>
        map_option (\<lambda>_. ()) (kms_commit demo_env (\<lambda>i. 100 + i) (demo_request [2, 4] demo_loaded) demo_loaded) = Some ()" by auto
  moreover have "map_option (\<lambda>_. ()) (kms_commit demo_env (\<lambda>i. 100 + i) (demo_request [2, 4] demo_loaded) demo_loaded) = Some ()" by code_simp
  ultimately show ?thesis by (auto simp: demo_committed_def)
qed



definition demo_checked :: drm_atomic_state where
  "demo_checked = snd (the (vc4_pv_muxing_atomic_check demo_env demo_loaded (demo_request [2, 4] demo_loaded)))"

theorem muxing_finds_assignment_witness:
  "\<exists>f. assignment bcm2711_crtcs (free_channels (hvs_channels demo_loaded)) {i. i < 5 \<and> enabling (as_crtcs (demo_request [2, 4] demo_loaded)) i} f"
proof -
  have k: "kms_ok demo_loaded" using kms_run_inv [OF demo_loaded_run(1) demo_env_ok] by (simp add: kms_inv_def)
  have a: "atomic_ok demo_loaded (demo_request [2, 4] demo_loaded)"
    using demo_request_ok [OF demo_loaded_run(2), of "[2, 4]"] by (simp add: request_ok_def)
  have c: "kms_crtcs demo_loaded = bcm2711_crtcs" "length bcm2711_crtcs = 5"
    by (simp_all add: demo_loaded_def vc4_kms_load_def vc4_ctm_obj_init_def vc4_load_tracker_obj_init_def vc4_hvs_channels_obj_init_def demo_unloaded_def
        Let_def bcm2711_crtcs_def)
  have "map_option fst (vc4_pv_muxing_atomic_check demo_env demo_loaded (demo_request [2, 4] demo_loaded)) = Some (Inr ())" by code_simp
  then have "\<exists>st'. vc4_pv_muxing_atomic_check demo_env demo_loaded (demo_request [2, 4] demo_loaded) = Some (Inr (), st')" by auto
  then show ?thesis
    using muxing_finds_assignment [OF k a demo_env_ok(1)] c by (simp add: demo_env_def)
qed

lemma demo_checked_facts:
  "length (as_crtcs demo_checked) = length (kms_crtcs demo_loaded)"
  "distinct (map (\<lambda>c. hvs_output (crtc_data c)) (kms_crtcs demo_loaded))"
  "map_option (\<lambda>(old, new). (update_muxing new, assigned_channel new)) (as_crtcs demo_checked ! 4) = Some (True, 1)"
  "hvs_output (crtc_data (kms_crtcs demo_loaded ! 4)) = 5" "length (kms_crtcs demo_loaded) = 5"
  by code_simp+

lemma demo_mux_commit: "\<exists>dev'. vc5_hvs_pv_muxing_commit demo_checked demo_loaded = Some dev'"
proof -
  have "map_option (\<lambda>_. ()) (vc5_hvs_pv_muxing_commit demo_checked demo_loaded) = Some ()" by code_simp
  then show ?thesis by auto
qed

theorem vc5_muxing_programs_channels_witness:
  "\<exists>dev'. vc5_hvs_pv_muxing_commit demo_checked demo_loaded = Some dev' \<and> mux_field 5 dev' = 1"
proof -
  obtain dev' where d: "vc5_hvs_pv_muxing_commit demo_checked demo_loaded = Some dev'" using demo_mux_commit by blast
  obtain old new where n: "as_crtcs demo_checked ! 4 = Some (old, new)" "update_muxing new" "assigned_channel new = 1"
    using demo_checked_facts(3) by auto
  then have "mux_field 5 dev' = mux_value new"
    using vc5_muxing_programs_channels [of 5 demo_loaded demo_checked dev', THEN conjunct1, rule_format, of 4 old new] d demo_checked_facts
    by simp
  then show ?thesis using d n by (simp add: mux_value_def VC4_HVS_CHANNEL_DISABLED_def)
qed

text \<open>
  Two CRTCs that ask for a matrix in one request both pass the check, although the hardware has one: the loop over the first matrix
  leaves the index of the outer loop at its end. The first CRTC's matrix is the one that is kept.
\<close>
definition demo_two_matrices :: drm_atomic_state where
  "demo_two_matrices = (let st = demo_request [2, 4] demo_committed
     in st\<lparr>as_crtcs := map (map_option (\<lambda>(old, new). (old, new\<lparr>cs_ctm := Some 7\<rparr>))) (as_crtcs st)\<rparr>)"

lemma two_matrices_accepted:
  "map_option (\<lambda>(r, st). (r, map_option snd (as_ctm st))) (vc4_ctm_atomic_check demo_env demo_committed demo_two_matrices) =
     Some (Inr (), Some \<lparr>ctm = Some 7, ctm_fifo = 1\<rparr>)"
  "map (map_option (\<lambda>(old, new). cs_ctm new)) (as_crtcs demo_two_matrices) = [None, None, Some (Some 7), None, Some (Some 7)]"
  by code_simp+

end
