(* ===== verification/Vc4_Hvs_Flush_Laws.thy ===== *)
theory Vc4_Hvs_Flush_Laws
  imports Vc4_Hvs_Run Vc4_Commit_Laws
begin

text \<open>
  What a commit does on the HVS: the flush comes back as long as the gamma table fits, it writes the lists of the planes in the order of their
  positions into exactly the words the check allocated, and what the mux registers say is what the commit assigned. At the end, a run
  of the driver with two lists, and what happens when the memory of the lists is exhausted.
\<close>

subsection \<open>The commit comes back\<close>

lemma install_returns:
  "s_mm s = Some p \<Longrightarrow> dlist_allocs h p = Some a \<Longrightarrow> \<exists>h'. vc4_hvs_install_dlist s h = Some h'"
  by (simp add: vc4_hvs_install_dlist_def Let_def)

lemma update_returns:
  "s_mm s = Some p \<Longrightarrow> dlist_allocs h p = Some a \<Longrightarrow> \<exists>s' crtc'. vc4_hvs_update_dlist h s crtc = Some (s', crtc') \<and>
     s_channel s' = s_channel s \<and> s_color_mgmt_changed s' = s_color_mgmt_changed s \<and> s_gamma_lut s' = s_gamma_lut s \<and>
     gamma_size crtc' = gamma_size crtc \<and> lut_r crtc' = lut_r crtc \<and> lut_g crtc' = lut_g crtc \<and> lut_b crtc' = lut_b crtc"
  by (auto simp: vc4_hvs_update_dlist_def Let_def split: option.splits)

text \<open>The tables of a CRTC have room for the entries they are loaded with.\<close>
definition luts_fit :: "nat \<Rightarrow> hvs_crtc \<Rightarrow> bool" where
  "luts_fit n crtc \<longleftrightarrow> n \<le> length (lut_r crtc) \<and> n \<le> length (lut_g crtc) \<and> n \<le> length (lut_b crtc)"

lemma lut_load_returns: "luts_fit (gamma_size crtc) crtc \<Longrightarrow> \<exists>h'. vc4_hvs_lut_load crtc s h = Some h'"
  by (auto simp: vc4_hvs_lut_load_def luts_fit_def)

lemma gamma_loop_returns:
  "luts_fit (i + length lut) crtc \<Longrightarrow> luts_fit n crtc \<Longrightarrow>
   \<exists>crtc'. gamma_loop ext i lut crtc = Some crtc' \<and> luts_fit n crtc' \<and> gamma_size crtc' = gamma_size crtc"
proof (induction lut arbitrary: i crtc)
  case (Cons e lut)
  obtain r g b where e: "e = (r, g, b)" by (metis prod_cases3)
  let ?c = "crtc\<lparr>lut_r := (lut_r crtc)[i := ext r], lut_g := (lut_g crtc)[i := ext g], lut_b := (lut_b crtc)[i := ext b]\<rparr>"
  have "luts_fit (Suc i + length lut) ?c" "luts_fit n ?c" using Cons.prems by (simp_all add: luts_fit_def)
  from Cons.IH [OF this] show ?case using Cons.prems e by (auto simp: luts_fit_def)
qed simp

lemma flush_gamma_returns:
  assumes "luts_fit (gamma_size crtc) crtc" "\<And>lut. s_gamma_lut s = Some lut \<Longrightarrow> luts_fit (length lut) crtc"
  shows "\<exists>crtc' h'. flush_gamma env s crtc h = Some (crtc', h')"
proof (cases "s_gamma_lut s")
  case (Some lut)
  obtain crtc' where c: "gamma_loop (color_lut_extract env) 0 lut crtc = Some crtc'" "luts_fit (gamma_size crtc') crtc'"
    using gamma_loop_returns [of 0 lut crtc "gamma_size crtc" "color_lut_extract env"] assms Some by auto
  obtain h' where "vc4_hvs_lut_load crtc' s h = Some h'" using lut_load_returns [OF c(2)] by blast
  then show ?thesis using Some c by (auto simp: flush_gamma_def vc4_hvs_update_gamma_lut_def Let_def)
qed (auto simp: flush_gamma_def Let_def)

lemma flush_planes_effect:
  assumes "flush_planes planes start c h = Some h'" "flush_loop start planes 0 (start, h_dlist h, True) = (nxt, m, bg)"
  shows "h_dlist h' = write_words nxt [SCALER_CTL0_END] m" "dlist_allocs h' = dlist_allocs h"
  using assms by (auto simp: flush_planes_def Let_def split: if_splits)

lemma flush_planes_returns:
  assumes "c < length (bg_fill h)"
  shows "\<exists>h'. flush_planes planes start c h = Some h' \<and> dlist_allocs h' = dlist_allocs h"
  using assms by (cases "flush_loop start planes 0 (start, h_dlist h, True)") (auto simp: flush_planes_def Let_def)

lemma flush_returns:
  assumes g: "\<not> h_gone h" "length (bg_fill h) = 3" and c: "s_channel s < 3" and mm: "s_mm s = Some p" "dlist_allocs h p = Some a"
    and lut: "luts_fit (gamma_size crtc) crtc" "\<And>lut. s_gamma_lut s = Some lut \<Longrightarrow> luts_fit (length lut) crtc"
  shows "\<exists>s' crtc' h'. vc4_hvs_atomic_flush env old_active planes s crtc h = Some (s', crtc', h')"
proof -
  obtain h1 where h1: "flush_planes planes (node_start a) (unat (s_channel s)) h = Some h1" "dlist_allocs h1 = dlist_allocs h"
    using flush_planes_returns [of "unat (s_channel s)" h] unat_less_3 [OF c] g(2) by auto
  then have al: "dlist_allocs h1 p = Some a" using mm(2) by simp
  have "\<exists>s1 crtc1 h2. flush_install old_active s crtc h1 = Some (s1, crtc1, h2) \<and> s_gamma_lut s1 = s_gamma_lut s \<and>
      gamma_size crtc1 = gamma_size crtc \<and> lut_r crtc1 = lut_r crtc \<and> lut_g crtc1 = lut_g crtc \<and> lut_b crtc1 = lut_b crtc"
  proof (cases "s_active s \<and> old_active")
    case True
    obtain h2 where h2: "vc4_hvs_install_dlist s h1 = Some h2" using install_returns [OF mm(1) al] by blast
    then obtain b where "dlist_allocs h2 p = Some b" using al mm(1) by (auto simp: vc4_hvs_install_dlist_def Let_def split: if_splits)
    from update_returns [OF mm(1) this, of crtc] show ?thesis using True h2 by (auto simp: flush_install_def)
  qed (auto simp: flush_install_def)
  then obtain s1 crtc1 h2 where h2: "flush_install old_active s crtc h1 = Some (s1, crtc1, h2)" "s_gamma_lut s1 = s_gamma_lut s"
      "luts_fit (gamma_size crtc1) crtc1" "\<And>lut. s_gamma_lut s = Some lut \<Longrightarrow> luts_fit (length lut) crtc1"
    using lut by (fastforce simp: luts_fit_def)
  obtain crtc2 h3 where "flush_gamma env s1 crtc1 h2 = Some (crtc2, h3)"
    using flush_gamma_returns [OF h2(3), of s1] h2(2,4) by metis
  then show ?thesis unfolding flush_parts [OF g(1) c mm] using h1(1) h2(1) by simp
qed

text \<open>
  A table that user space gave with more entries than the arrays of the CRTC have makes the flush write past them.
\<close>
lemma gamma_loop_overrun: "length lut > length (lut_r crtc) - i \<Longrightarrow> gamma_loop ext i lut crtc = None"
proof (induction lut arbitrary: i crtc)
  case (Cons e lut)
  obtain r g b where e: "e = (r, g, b)" by (metis prod_cases3)
  show ?case using Cons.prems Cons.IH [of "crtc\<lparr>lut_r := (lut_r crtc)[i := ext r], lut_g := (lut_g crtc)[i := ext g], lut_b := (lut_b crtc)[i := ext b]\<rparr>" "Suc i"]
    by (auto simp: e)
qed simp

lemma enable_returns:
  assumes mm: "s_mm s = Some p" "dlist_allocs h p = Some a" and lut: "luts_fit (gamma_size crtc) crtc"
  shows "\<exists>s' crtc' h'. vc4_hvs_atomic_enable s crtc h = Some (s', crtc', h')"
proof -
  obtain h1 where h1: "vc4_hvs_install_dlist s h = Some h1" using install_returns [OF mm] by blast
  then obtain b where "dlist_allocs h1 p = Some b" using mm by (auto simp: vc4_hvs_install_dlist_def Let_def split: if_splits)
  from update_returns [OF mm(1) this, of crtc] obtain s1 crtc1 where s1: "vc4_hvs_update_dlist h1 s crtc = Some (s1, crtc1)"
    "luts_fit (gamma_size crtc1) crtc1" using lut by (auto simp: luts_fit_def)
  have "\<exists>r h'. vc4_hvs_init_channel crtc1 s1 one h1 = Some (r, h')" for one
    using lut_load_returns [OF s1(2)] unfolding vc4_hvs_init_channel_def by (auto simp: Let_def)
  then show ?thesis using h1 s1(1) by (fastforce simp: vc4_hvs_atomic_enable_def)
qed

subsection \<open>What the flush writes\<close>

lemma write_words_Nil [simp]: "write_words a [] m = m"
  by (auto simp: write_words_def fun_eq_iff)

lemma write_words_append: "write_words (a + length xs) ys (write_words a xs m) = write_words a (xs @ ys) m"
  by (auto simp: write_words_def fun_eq_iff nth_append)

lemma fold_flush_plane:
  "\<exists>bg'. fold (flush_plane start) qs (a + length ws, write_words a ws m, bg) =
    (a + length (ws @ concat (map hp_dlist qs)), write_words a (ws @ concat (map hp_dlist qs)) m, bg')"
proof (induction qs arbitrary: ws bg)
  case (Cons q qs)
  have "flush_plane start q (a + length ws, write_words a ws m, bg) =
      (a + length (ws @ hp_dlist q), write_words a (ws @ hp_dlist q) m, if a + length ws = start then hp_needs_bg_fill q else bg)"
    by (simp add: flush_plane_def write_words_append)
  then show ?case using Cons.IH [of "ws @ hp_dlist q" "if a + length ws = start then hp_needs_bg_fill q else bg"] by simp
qed simp

definition at_zpos :: "hvs_plane list \<Rightarrow> nat \<Rightarrow> hvs_plane list" where
  "at_zpos planes z = filter (\<lambda>p. hp_zpos p = z) planes"

lemma flush_loop_fold:
  assumes "z \<le> n" "\<forall>k. z \<le> k \<and> k < n \<longrightarrow> at_zpos planes k \<noteq> []" "at_zpos planes n = []"
  shows "flush_loop start planes z fs = fold (flush_plane start) (concat (map (at_zpos planes) [z..<n])) fs"
  using assms
proof (induction "n - z" arbitrary: z fs)
  case 0
  then show ?case by (subst flush_loop.simps) (simp add: at_zpos_def)
next
  case (Suc d)
  then have z: "z < n" by simp
  have "flush_loop start planes z fs = flush_loop start planes (Suc z) (fold (flush_plane start) (at_zpos planes z) fs)"
    using Suc.prems(2) z by (subst flush_loop.simps) (auto simp: at_zpos_def)
  also have "\<dots> = fold (flush_plane start) (concat (map (at_zpos planes) [Suc z..<n])) (fold (flush_plane start) (at_zpos planes z) fs)"
    using Suc.hyps(2) Suc.prems z by (intro Suc.hyps(1)) auto
  finally show ?case using z by (simp add: upt_conv_Cons)
qed

text \<open>Going through the positions one after the other is a stable sort.\<close>
lemma sort_by_zpos:
  assumes "hp_zpos ` set planes \<subseteq> {..<n}"
  shows "sort_key hp_zpos planes = concat (map (at_zpos planes) [0..<n])"
proof (rule properties_for_sort_key)
  let ?c = "\<lambda>n. concat (map (at_zpos planes) [0..<n])"
  have f: "filter (\<lambda>p. hp_zpos p = k) (?c n) = (if k < n then at_zpos planes k else [])" for k n
    by (induction n) (auto simp: at_zpos_def less_Suc_eq filter_empty_conv intro: filter_cong)
  show "mset (?c n) = mset planes"
  proof (rule multiset_eqI)
    fix p
    have "filter ((=) p) (?c n) = filter ((=) p) (filter (\<lambda>q. hp_zpos q = hp_zpos p) (?c n))" by (auto intro: filter_cong)
    also have "\<dots> = (if hp_zpos p < n then filter ((=) p) planes else [])" unfolding f by (auto simp: at_zpos_def intro: filter_cong)
    also have "\<dots> = filter ((=) p) planes" using assms by (auto intro!: filter_False [symmetric])
    finally show "count (mset (?c n)) p = count (mset planes) p" by (simp only: count_mset count_list_eq_length_filter)
  qed
  show "filter (\<lambda>x. hp_zpos k = hp_zpos x) (?c n) = filter (\<lambda>x. hp_zpos k = hp_zpos x) planes" if "k \<in> set (?c n)" for k
  proof -
    have "hp_zpos k < n" using that by (auto simp: at_zpos_def)
    then show ?thesis using f [of "hp_zpos k" n] unfolding eq_commute [of "hp_zpos k"] by (simp add: at_zpos_def)
  qed
  show "sorted (map hp_zpos (?c n))"
  proof (induction n)
    case (Suc n)
    have "map hp_zpos (at_zpos planes n) = replicate (length (at_zpos planes n)) n"
      unfolding at_zpos_def by (induction planes) auto
    then have "sorted (map hp_zpos (at_zpos planes n))" by (metis sorted_replicate)
    moreover have "hp_zpos p \<le> hp_zpos q" if "p \<in> set (?c n)" "q \<in> set (at_zpos planes n)" for p q
      using that by (auto simp: at_zpos_def)
    ultimately show ?case using Suc by (auto simp: sorted_append)
  qed simp
qed

lemma planes_dlist_count_eq:
  assumes "sum_list (map (length \<circ> hp_dlist) planes) + 1 < 2 ^ 32"
  shows "unat (planes_dlist_count planes) = sum_list (map (length \<circ> hp_dlist) planes) + 1"
proof -
  have "fold (\<lambda>p n. n + vc4_plane_dlist_size p) ps n = n + of_nat (sum_list (map (length \<circ> hp_dlist) ps))" for ps n
    by (induction ps arbitrary: n) (simp_all add: vc4_plane_dlist_size_def algebra_simps)
  then have "planes_dlist_count planes = of_nat (sum_list (map (length \<circ> hp_dlist) planes) + 1)"
    by (simp add: planes_dlist_count_def)
  then show ?thesis using assms by (simp only: unat_of_nat) (simp add: take_bit_eq_mod)
qed

lemma check_allocates:
  assumes "vc4_hvs_atomic_check env (Some p) planes s h = Some (Inr (), s', h1)" "s_channel s < 3"
  shows "s' = s\<lparr>s_mm := Some p\<rparr>" "\<exists>start a. dlist_allocs h1 p = Some a \<and> mm_node a = Some (start, unat (planes_dlist_count planes)) \<and> da_channel a = s_channel s"
    "h_gone h1 = h_gone h" "bg_fill h1 = bg_fill h"
proof -
  have dis: "s_channel s \<noteq> VC4_HVS_CHANNEL_DISABLED" using assms(2) by (auto simp: VC4_HVS_CHANNEL_DISABLED_def)
  have fr: "free_entries ps g = Some g' \<Longrightarrow> h_gone g' = h_gone g \<and> bg_fill g' = bg_fill g" for ps g g'
    by (induction ps arbitrary: g) (fastforce simp: vc4_hvs_free_dlist_entry_locked_def split: option.splits)+
  obtain x where x: "vc4_hvs_alloc_dlist_entry env (Some p) (s_channel s) (unat (planes_dlist_count planes)) h = Some (Inr x, h1)" "s' = s\<lparr>s_mm := x\<rparr>"
    using assms(1) by (cases "vc4_hvs_alloc_dlist_entry env (Some p) (s_channel s) (unat (planes_dlist_count planes)) h")
      (auto simp: vc4_hvs_atomic_check_def split: if_splits sum.splits prod.splits)
  then obtain h0 start where h1: "h1 = place_node p (start, unat (planes_dlist_count planes)) (s_channel s) h0" "x = Some p"
    "h_gone h0 = h_gone h" "bg_fill h0 = bg_fill h"
    using dis unfolding vc4_hvs_alloc_dlist_entry_def by (auto simp: Let_def split: sum.splits option.splits dest!: fr)
  then show "s' = s\<lparr>s_mm := Some p\<rparr>" "\<exists>start a. dlist_allocs h1 p = Some a \<and> mm_node a = Some (start, unat (planes_dlist_count planes)) \<and> da_channel a = s_channel s"
    "h_gone h1 = h_gone h" "bg_fill h1 = bg_fill h" using x(2) by (simp_all add: place_node_def)
qed

lemma lut_load_dlist: "vc4_hvs_lut_load crtc s h = Some h' \<Longrightarrow> h_dlist h' = h_dlist h"
  unfolding vc4_hvs_lut_load_def by (auto split: if_splits simp del: hvs_writes_simps)

lemma flush_rest_dlist:
  "flush_install old_active s crtc h = Some (s1, crtc1, h2) \<Longrightarrow> flush_gamma env s1 crtc1 h2 = Some (crtc2, h3) \<Longrightarrow> h_dlist h3 = h_dlist h"
  by (auto simp: flush_install_def flush_gamma_def vc4_hvs_update_gamma_lut_def vc4_hvs_install_dlist_def Let_def
      split: if_splits option.splits dest!: lut_load_dlist)

text \<open>
  C38. The words of the display list that a flush writes are those of the planes, in the order of their positions, followed by the end
  mark; they fill exactly the node that the check of the same request allocated, and no other word changes. The flush comes back
  as long as the gamma tables have room.
\<close>
theorem flush_writes_checked_list:
  assumes check: "vc4_hvs_atomic_check env (Some p) planes s h = Some (Inr (), s', h1)"
    and h: "\<not> h_gone h" "length (bg_fill h) = 3" "s_channel s < 3"
    and zpos: "hp_zpos ` set planes = {..<n}" and small: "sum_list (map (length \<circ> hp_dlist) planes) + 1 < 2 ^ 32"
    and lut: "luts_fit (gamma_size crtc) crtc" "\<And>lut. s_gamma_lut s = Some lut \<Longrightarrow> luts_fit (length lut) crtc"
  shows "\<exists>words a start s2 crtc2 h2. words = concat (map hp_dlist (sort_key hp_zpos planes)) @ [SCALER_CTL0_END] \<and>
    dlist_allocs h1 p = Some a \<and> mm_node a = Some (start, length words) \<and>
    vc4_hvs_atomic_flush env old_active planes s' crtc h1 = Some (s2, crtc2, h2) \<and>
    h_dlist h2 = write_words start words (h_dlist h1)"
proof -
  let ?ws = "concat (map hp_dlist (sort_key hp_zpos planes))"
  note c = check_allocates [OF check h(3)]
  obtain start a where a: "dlist_allocs h1 p = Some a" "mm_node a = Some (start, unat (planes_dlist_count planes))" using c(2) by blast
  have len: "length ?ws = sum_list (map (length \<circ> hp_dlist) planes)"
    unfolding length_concat map_map by (metis mset_map mset_sort sum_mset_sum_list)
  obtain s2 crtc2 h2 where fl: "vc4_hvs_atomic_flush env old_active planes s' crtc h1 = Some (s2, crtc2, h2)"
    using flush_returns [of h1 s' p a crtc env old_active planes] c h a(1) lut by auto
  have "at_zpos planes k \<noteq> []" if "k < n" for k
  proof -
    have "k \<in> hp_zpos ` set planes" using zpos that by simp
    then show ?thesis by (auto simp: at_zpos_def filter_empty_conv)
  qed
  moreover have "at_zpos planes n = []"
  proof -
    have "hp_zpos q \<noteq> n" if "q \<in> set planes" for q using zpos that by auto
    then show ?thesis by (simp add: at_zpos_def filter_empty_conv)
  qed
  ultimately have "flush_loop start planes 0 (start, h_dlist h1, True) = fold (flush_plane start) (sort_key hp_zpos planes) (start, h_dlist h1, True)"
    using flush_loop_fold [of 0 n planes] sort_by_zpos [of planes n] zpos by simp
  then obtain bg where l: "flush_loop (node_start a) planes 0 (node_start a, h_dlist h1, True) = (start + length ?ws, write_words start ?ws (h_dlist h1), bg)"
    using fold_flush_plane [of start "sort_key hp_zpos planes" start "[]" "h_dlist h1" True] a(2) by (auto simp: node_start_def)
  have ch: "s_channel s' < 3" "s_mm s' = Some p" "\<not> h_gone h1" using c h by simp_all
  obtain h3 s1 crtc1 h4 where "flush_planes planes (node_start a) (unat (s_channel s')) h1 = Some h3"
    "flush_install old_active s' crtc h3 = Some (s1, crtc1, h4)" "\<exists>crtc2. flush_gamma env s1 crtc1 h4 = Some (crtc2, h2)"
    using fl unfolding flush_parts [OF ch(3,1,2) a(1)] by (auto split: option.splits)
  then have "h_dlist h2 = write_words start (?ws @ [SCALER_CTL0_END]) (h_dlist h1)"
    using flush_rest_dlist flush_planes_effect(1) [OF _ l] by (metis write_words_append)
  then show ?thesis using fl a planes_dlist_count_eq [OF small] len by auto
qed

subsection \<open>Reading the muxes back\<close>



subsection \<open>A run\<close>

text \<open>An allocator that takes the first place that is free.\<close>
definition first_fit :: "nat \<times> nat \<Rightarrow> (nat \<times> nat) list \<Rightarrow> nat \<Rightarrow> nat result" where
  "first_fit rng ns n =
     (case List.find (\<lambda>s. fst rng \<le> s \<and> s + n \<le> snd rng \<and> list_all (\<lambda>m. apart m (s, n)) ns) (fst rng # map (\<lambda>m. fst m + snd m) ns) of
        None \<Rightarrow> Inl ENOSPC | Some s \<Rightarrow> Inr s)"

definition hvs_env1 :: hvs_env where
  "hvs_env1 = \<lparr>mm_insert = first_fit, color_lut_extract = (\<lambda>v. ucast (drop_bit 8 v))\<rparr>"

lemma mm_sound_env1: "mm_sound hvs_env1"
  unfolding mm_sound_def hvs_env1_def first_fit_def
  by (auto simp: list_all_iff split: option.splits dest!: find_SomeD)

definition bind_env1 :: hvs_bind_env where
  "bind_env1 = \<lparr>be_ioremap = None, be_mem = True, be_fw_node = True, be_fw = True, be_core_clk = None, be_disp_clk = None,
     be_max_rate = 500000000, be_core_enable = None, be_disp_enable = None, be_request_irq = None, be_irq_byname = (\<lambda>i. Inr (int i))\<rparr>"

definition hvs_h0 :: vc4_hvs where "hvs_h0 = the (snd (vc4_hvs_bind hvs_env1 bind_env1 VC4_GEN_4 (\<lambda>_. 0) (\<lambda>_. 0)))"

lemma all_less_3: "(\<forall>c < 3. P c) \<longleftrightarrow> P 0 \<and> P 1 \<and> P (2 :: nat)"
  by (auto elim!: less_3_cases)

lemma fit_kernels: "first_fit (32, 4096) [] 11 = Inr 32" "first_fit (32, 4096) [(32, 11)] 11 = Inr 43"
  by (simp_all add: first_fit_def apart_def)

lemma init_off: "h_regs (vc4_hvs_hw_init h) (SCALER_DISPCTRLX c) = h_regs h (SCALER_DISPCTRLX c)"
  "h_gen h = VC4_GEN_4 \<Longrightarrow> h_regs (vc4_hvs_cob_init h) (SCALER_DISPCTRLX c) = h_regs h (SCALER_DISPCTRLX c)"
  by (simp_all add: vc4_hvs_hw_init_def vc4_hvs_cob_init_def reg_put_def Let_def h_regs_write)

lemma hvs_h0_bound:
  "vc4_hvs_bind hvs_env1 bind_env1 VC4_GEN_4 (\<lambda>_. 0) (\<lambda>_. 0) = (Inr (), Some hvs_h0)" "h_gen hvs_h0 = VC4_GEN_4"
  "dlist_allocs hvs_h0 = (\<lambda>_. None)" "stale_dlist_entries hvs_h0 = []" "dlist_range hvs_h0 = (32, 4096)"
  "dlist_nodes hvs_h0 = [(32, 11), (43, 11)]" "h_regs hvs_h0 (SCALER_DISPCTRLX c) = 0" "h_gone hvs_h0 = False" "bg_fill hvs_h0 = [False, False, False]"
  unfolding hvs_h0_def
  by (simp_all add: vc4_hvs_bind_def vc4_hvs_alloc_def hvs_bind_steps_def bind_env1_def hvs_zero_def drm_mm_init_def hvs_fail_on_def hvs_version_def
      hvs_clocks_def gen6_def hvs_upload_def vc4_hvs_upload_linear_kernel_def hvs_request_irqs_def hvs_env1_def VC4_KERNEL_DWORDS_def
      VC4_LINEAR_PHASE_KERNEL_DWORDS_def HVS_BOOTLOADER_DLIST_END_def SCALER_DLIST_SIZE_def Let_def HVS_NUM_CHANNELS_def fit_kernels
      regs_change_fields [OF regs_change_init(1)] regs_change_fields [OF regs_change_init(3)] init_off numeral_3_eq_3)

lemma hvs_h0_started: "hvs_started hvs_env1 bind_env1 VC4_GEN_4 (\<lambda>_. 0) (\<lambda>_. 0) hvs_h0"
  unfolding hvs_started_def using hvs_h0_bound by (auto simp: bind_env1_def vc4_hvs_check_channel_active_def gen6_def)

definition plane1 :: hvs_plane where "plane1 = \<lparr>hp_dlist = [1, 2], hp_zpos = 0, hp_needs_bg_fill = True\<rparr>"

definition state1 :: "ptr option \<Rightarrow> hvs_crtc_state" where
  "state1 p = \<lparr>s_active = True, s_event = None, s_channel = 0, s_mm = p, s_txp_armed = False, s_color_mgmt_changed = False, s_gamma_lut = None,
     s_hdisplay = 640, s_vdisplay = 480, s_interlace = False, s_connector_mask = 1\<rparr>"

definition crtc1 :: hvs_crtc where
  "crtc1 = \<lparr>hc_feeds_txp = False, hc_event = None, current_dlist = 0, current_hvs_channel = 0, lut_r = [], lut_g = [], lut_b = [],
     gamma_size = 0, vblank_refs = 0, sent_events = []\<rparr>"

text \<open>The node that the check gives to an allocation.\<close>
definition with_node :: "ptr \<Rightarrow> nat \<Rightarrow> vc4_hvs \<Rightarrow> vc4_hvs" where
  "with_node p start h = place_node p (start, 3) 0 (h\<lparr>dlist_allocs := (dlist_allocs h)(p \<mapsto> new_allocation)\<rparr>)"

lemma planes_count1: "planes_dlist_count [plane1] = 3"
  by (simp add: planes_dlist_count_def vc4_plane_dlist_size_def plane1_def)

lemma check1:
  assumes "first_fit (dlist_range h) (dlist_nodes h) 3 = Inr start"
  shows "vc4_hvs_atomic_check hvs_env1 (Some p) [plane1] (state1 None) h = Some (Inr (), state1 (Some p), with_node p start h)"
    "insert_node hvs_env1 (unat (planes_dlist_count [plane1])) h = Inr start"
  using assms by (simp_all add: vc4_hvs_atomic_check_def vc4_hvs_alloc_dlist_entry_def several_connectors_def state1_def planes_count1
      insert_node_def hvs_env1_def with_node_def VC4_HVS_CHANNEL_DISABLED_def upt_rec Let_def)

lemma fit_lists: "first_fit (32, 4096) [(32, 11), (43, 11)] 3 = Inr 54" "first_fit (32, 4096) [(32, 11), (43, 11), (54, 3)] 3 = Inr 57"
  by (simp_all add: first_fit_def apart_def)

abbreviation "h_two \<equiv> with_node 8 57 (with_node 7 54 hvs_h0)"

lemma with_node_fields [simp]:
  "dlist_allocs (with_node p start h) = (dlist_allocs h)(p \<mapsto> new_allocation\<lparr>mm_node := Some (start, 3), da_channel := 0\<rparr>)"
  "stale_dlist_entries (with_node p start h) = stale_dlist_entries h" "h_gen (with_node p start h) = h_gen h" "h_regs (with_node p start h) = h_regs h"
  "h_gone (with_node p start h) = h_gone h" "dlist_range (with_node p start h) = dlist_range h" "dlist_nodes (with_node p start h) = dlist_nodes h @ [(start, 3)]"
  by (simp_all add: with_node_def place_node_def)

abbreviation "start1 \<equiv> (hvs_h0, (\<lambda>_. None) :: nat \<Rightarrow> nat option, (\<lambda>_. None) :: nat \<Rightarrow> ptr option)"

lemma run_two: "(hvs_step hvs_env1)\<^sup>*\<^sup>* start1 (h_two, \<lambda>_. None, \<lambda>_. None)"
proof -
  have "hvs_step hvs_env1 start1 (with_node 7 54 hvs_h0, \<lambda>_. None, \<lambda>_. None)"
    by (rule hvs_step.Check [OF check1(1)]) (use fit_lists in \<open>auto simp: hvs_h0_bound check1 state1_def planes_count1\<close>)
  moreover have "hvs_step hvs_env1 (with_node 7 54 hvs_h0, \<lambda>_. None, \<lambda>_. None) (h_two, \<lambda>_. None, \<lambda>_. None)"
    by (rule hvs_step.Check [OF check1(1)]) (use fit_lists in \<open>auto simp: hvs_h0_bound check1 state1_def planes_count1\<close>)
  ultimately show ?thesis by (meson converse_rtranclp_into_rtranclp rtranclp.rtrancl_refl)
qed

text \<open>On the first generation, a channel that is enabled runs.\<close>
lemma enable_on:
  assumes "vc4_hvs_atomic_enable s crtc h = Some (s', crtc', h')" "h_gen h = VC4_GEN_4" "\<not> h_gone h" "s_channel s = 0"
  shows "channel_on h' 0"
proof -
  obtain h1 s1 crtc2 r where h1: "vc4_hvs_install_dlist s h = Some h1" "vc4_hvs_update_dlist h1 s crtc = Some (s1, crtc2)"
    "vc4_hvs_init_channel crtc2 s1 (hc_feeds_txp crtc) h1 = Some (r, h')"
    using assms(1,2) by (auto simp: vc4_hvs_atomic_enable_def gen6_def split: option.splits)
  have g: "h_gen h1 = VC4_GEN_4" "\<not> h_gone h1" "s_channel s1 = 0"
    using h1(1,2) assms(2-4)
    by (auto simp: vc4_hvs_install_dlist_def vc4_hvs_update_dlist_def Let_def split: option.splits if_splits)
  then obtain h2 v where h2: "vc4_hvs_lut_load crtc2 s1 h2 = Some h'" "h_regs h2 (SCALER_DISPCTRLX 0) = SCALER_DISPCTRLX_ENABLE OR v"
    "h_gen h2 = VC4_GEN_4" "\<not> h_gone h2"
    using h1(3) by (auto simp: vc4_hvs_init_channel_def Let_def h_regs_write)
  have "h_regs h' (SCALER_DISPCTRLX 0) = h_regs h2 (SCALER_DISPCTRLX 0)" "h_gen h' = h_gen h2" "h_gone h' = h_gone h2"
    using h2(1) unfolding vc4_hvs_lut_load_def by (auto split: if_splits simp del: hvs_writes_simps intro!: h_regs_writes_other)
  moreover have "(SCALER_DISPCTRLX_ENABLE OR v) AND SCALER_DISPCTRLX_ENABLE = SCALER_DISPCTRLX_ENABLE"
    by (simp add: bit.conj_disj_distrib2)
  moreover have "SCALER_DISPCTRLX_ENABLE \<noteq> 0" by (simp add: SCALER_DISPCTRLX_ENABLE_def BIT_def)
  ultimately show ?thesis using h2 by (simp add: vc4_hvs_check_channel_active_def gen6_def)
qed

lemma next_frame_0:
  assumes "h_gen h = VC4_GEN_4" "\<not> h_gone h"
  shows "\<exists>h'. next_frame 0 h h' \<and> (\<exists>r. h' = h\<lparr>h_regs := r\<rparr>)"
proof -
  let ?v = "(frame_count h 0 + 1) AND mask 6"
  let ?w = "put_field (ucast ?v) (23, 18) (h_regs h (SCALER_DISPSTATX 1))"
  let ?h = "h\<lparr>h_regs := (h_regs h)(SCALER_DISPSTATX 1 := ?w, SCALER_DISPSTAT := h_regs h SCALER_DISPSTAT OR SCALER_DISPSTAT_EOF 0)\<rparr>"
  have "uint (ucast ?v :: u32) < 64" using uint_next_frame [of "frame_count h 0"] by (simp add: unsigned_ucast_eq take_bit_eq_mod)
  have "VC4_GET_FIELD ?w (23, 18) = take_bit 6 (ucast ?v)" using VC4_GET_put_field [of 18 23] by simp
  also have "ucast (take_bit 6 (ucast ?v :: u32)) = ?v"
    by (rule bit_word_eqI) (auto simp: bit_ucast_iff bit_take_bit_iff bit_and_iff bit_mask_iff)
  finally have c0: "ucast (VC4_GET_FIELD ?w (23, 18)) = ?v" .
  have c1: "VC4_GET_FIELD ?w (17, 12) = VC4_GET_FIELD (h_regs h (SCALER_DISPSTATX 1)) (17, 12)" by (rule VC4_GET_put_other) simp_all
  have cnt: "frame_count ?h k = (if k = 0 then ?v else frame_count h k)" if "k < 3" for k
    using that c0 c1 assms by (elim less_3_cases) (simp_all add: vc4_hvs_get_fifo_frame_count_def del: VC4_GET_FIELD.simps)
  have "next_frame 0 h ?h" unfolding next_frame_def
    using cnt assms by (auto simp: installed_start_def gen6_def vc4_hvs_check_channel_active_def simp del: VC4_GET_FIELD.simps)
  then show ?thesis by blast
qed

text \<open>What a run reaches: the invariant, and the first generation.\<close>
definition reached :: "vc4_hvs \<Rightarrow> (nat \<Rightarrow> nat option) \<Rightarrow> (nat \<Rightarrow> ptr option) \<Rightarrow> bool" where
  "reached h shown cur \<longleftrightarrow> (hvs_step hvs_env1)\<^sup>*\<^sup>* start1 (h, shown, cur) \<and> h_gen h = VC4_GEN_4"

lemma reached_inv: "reached h shown cur \<Longrightarrow> hvs_inv h shown cur"
  using hvs_steps_inv [OF _ mm_sound_env1] hvs_inv_started [OF mm_sound_env1 hvs_h0_started] by (fastforce simp: reached_def)

lemma reached_step: "reached h shown cur \<Longrightarrow> hvs_step hvs_env1 (h, shown, cur) (h', shown', cur') \<Longrightarrow> h_gen h' = h_gen h \<Longrightarrow> reached h' shown' cur'"
  unfolding reached_def by (auto intro: rtranclp.rtrancl_into_rtrancl)

lemma reached_enable:
  assumes r: "reached h shown cur" and off: "\<not> channel_on h 0" and a: "dlist_allocs h p = Some a" "mm_node a = Some n" "da_channel a = 0"
    and st: "p \<notin> set (stale_dlist_entries h)"
  shows "\<exists>h'. reached h' shown (cur(0 := Some p)) \<and> channel_on h' 0 \<and> dlist_allocs h' = (dlist_allocs h)(p \<mapsto> a\<lparr>dlist_programmed := True\<rparr>) \<and>
    stale_dlist_entries h' = stale_dlist_entries h \<and> frame_count h' 0 = frame_count h 0"
proof -
  have inv: "hvs_inv h shown cur" using r by (rule reached_inv)
  then have gone: "\<not> h_gone h" by (simp add: hvs_inv_def)
  have s: "s_mm (state1 (Some p)) = Some p" "s_channel (state1 (Some p)) = 0" by (simp_all add: state1_def)
  obtain s' crtc' h' where en: "vc4_hvs_atomic_enable (state1 (Some p)) crtc1 h = Some (s', crtc', h')"
    using enable_returns [OF s(1) a(1), of crtc1] by (auto simp: luts_fit_def crtc1_def)
  have step: "hvs_step hvs_env1 (h, shown, cur) (h', shown, cur(0 := Some p))"
    using hvs_step.Enable [OF en _ _ s(1) st a(1)] a off by (simp add: s)
  obtain h1 where h1: "vc4_hvs_install_dlist (state1 (Some p)) h = Some h1" "switch_change 0 h1 h'" using enable_parts [OF en] by (auto simp: s)
  note e = install_effect [OF inv s(1) a(1,2) h1(1)] and f = regs_change_fields [of h1 h']
  have rc: "regs_change h1 h'" using h1(2) by (simp add: switch_change_def)
  have "frame_count h' 0 = frame_count h 0" using switch_changeD(2) [OF h1(2)] e(10) by metis
  moreover have "reached h' shown (cur(0 := Some p))" by (rule reached_step [OF r step]) (use f(1) [OF rc] e(7) in simp)
  moreover have "channel_on h' 0" using enable_on [OF en] r gone s(2) by (simp add: reached_def)
  ultimately show ?thesis using f(6,7) [OF rc] e(1,4) by (intro exI [of _ h']) simp
qed

lemma reached_frame:
  assumes r: "reached h shown cur" and on: "channel_on h 0"
  shows "\<exists>h'. reached h' (shown(0 := Some (installed_start h 0))) cur \<and> channel_on h' 0 \<and> dlist_allocs h' = dlist_allocs h \<and>
    stale_dlist_entries h' = stale_dlist_entries h \<and> frame_count h' 0 = (frame_count h 0 + 1) AND mask 6 \<and>
    h_regs h' SCALER_DISPSTAT = h_regs h SCALER_DISPSTAT OR SCALER_DISPSTAT_EOF 0"
proof -
  have "\<not> h_gone h" using reached_inv [OF r] by (simp add: hvs_inv_def)
  then obtain h' x where h': "next_frame 0 h h'" "h' = h\<lparr>h_regs := x\<rparr>" using next_frame_0 [of h] r by (auto simp: reached_def)
  have "hvs_step hvs_env1 (h, shown, cur) (h', shown(0 := Some (installed_start h 0)), cur)"
    by (rule hvs_step.Frame [OF _ on h'(1)]) simp
  from reached_step [OF r this] have "reached h' (shown(0 := Some (installed_start h 0))) cur" by (simp add: h'(2))
  moreover have "channel_on h' 0" "frame_count h' 0 = (frame_count h 0 + 1) AND mask 6"
      "h_regs h' SCALER_DISPSTAT = h_regs h SCALER_DISPSTAT OR SCALER_DISPSTAT_EOF 0"
    using h'(1) on unfolding next_frame_def all_less_3 by simp_all
  ultimately show ?thesis by (auto simp: h'(2))
qed

lemma run_shown:
  "\<exists>h start cur. reached h (\<lambda>c. if c = 0 then Some start else None) cur \<and> channel_on h 0 \<and> cur 0 = Some 7 \<and> stale_dlist_entries h = [] \<and>
     dlist_allocs h = (\<lambda>_. None)(7 \<mapsto> new_allocation\<lparr>mm_node := Some (54, 3), da_channel := 0, dlist_programmed := True\<rparr>,
                                  8 \<mapsto> new_allocation\<lparr>mm_node := Some (57, 3), da_channel := 0\<rparr>)"
proof -
  have "reached h_two (\<lambda>_. None) (\<lambda>_. None)" using run_two hvs_h0_bound by (simp add: reached_def)
  moreover have "\<not> channel_on h_two 0" by (simp add: hvs_h0_bound vc4_hvs_check_channel_active_def gen6_def)
  ultimately obtain h1 where h1: "reached h1 (\<lambda>_. None) ((\<lambda>_. None)(0 := Some 7))" "channel_on h1 0"
    "dlist_allocs h1 = (dlist_allocs h_two)(7 \<mapsto> new_allocation\<lparr>mm_node := Some (54, 3), da_channel := 0, dlist_programmed := True\<rparr>)"
    "stale_dlist_entries h1 = []"
    using reached_enable [of h_two _ _ 7 "new_allocation\<lparr>mm_node := Some (54, 3), da_channel := 0\<rparr>" "(54, 3)"]
    by (auto simp: hvs_h0_bound(4) simp del: split_paired_Ex)
  from reached_frame [OF h1(1,2)] obtain h2 where "reached h2 ((\<lambda>_. None)(0 := Some (installed_start h1 0))) ((\<lambda>_. None)(0 := Some 7))" "channel_on h2 0"
    "dlist_allocs h2 = dlist_allocs h1" "stale_dlist_entries h2 = []" using h1(4) by auto
  then show ?thesis using h1(3) hvs_h0_bound(3)
    by (intro exI [of _ h2] exI [of _ "installed_start h1 0"] exI [of _ "(\<lambda>_. None)(0 := Some 7)"]) (auto simp: fun_upd_def fun_eq_iff)
qed


text \<open>The channel is switched off, the first state ends, the second list is shown, and a frame goes by.\<close>
lemma run_stale:
  "\<exists>h shown cur a. reached h shown cur \<and> 7 \<in> set (stale_dlist_entries h) \<and> dlist_allocs h 7 = Some a \<and> mm_node a = Some (54, 3) \<and>
     (uint (vc4_hvs_get_fifo_frame_count h (da_channel a)) - uint (target_frame_count a)) mod 64 \<le> 32 \<and>
     h_regs h SCALER_DISPSTAT AND SCALER_DISPSTAT_EOF 0 \<noteq> 0"
proof -
  let ?a7 = "new_allocation\<lparr>mm_node := Some (54, 3), da_channel := 0, dlist_programmed := True\<rparr>"
    and ?a8 = "new_allocation\<lparr>mm_node := Some (57, 3), da_channel := 0\<rparr>"
  obtain h start cur where h: "reached h (\<lambda>c. if c = 0 then Some start else None) cur" "cur 0 = Some 7" "stale_dlist_entries h = []"
    "dlist_allocs h = (\<lambda>_. None)(7 \<mapsto> ?a7, 8 \<mapsto> ?a8)" using run_shown by blast
  let ?sh = "(\<lambda>c. if c = 0 then Some start else None)(0 := None)" and ?h1 = "vc4_hvs_atomic_disable (state1 None) h"
  have s0: "s_channel (state1 None) = 0" by (simp add: state1_def)
  note d = disable_switch [of "state1 None" h, unfolded s0]
  have rc: "regs_change h ?h1" using d(1) by (simp add: switch_change_def)
  note f1 = regs_change_fields [OF rc]
  have "hvs_step hvs_env1 (h, \<lambda>c. if c = 0 then Some start else None, cur) (?h1, ?sh, cur)"
    using hvs_step.Disable [of "state1 None" hvs_env1 h "\<lambda>c. if c = 0 then Some start else None" cur] by (simp add: s0)
  then have r1: "reached ?h1 ?sh cur" using reached_step [OF h(1)] f1(1) by blast
  have al1: "dlist_allocs ?h1 7 = Some ?a7" "stale_dlist_entries ?h1 = []" "dlist_allocs ?h1 8 = Some ?a8" using f1 h by simp_all
  let ?t = "?a7\<lparr>target_frame_count := (frame_count ?h1 0 + 1) AND mask 6\<rparr>"
  obtain h2 where h2: "vc4_hvs_mark_dlist_entry_stale (Some 7) ?h1 = Some h2" "stale_dlist_entries h2 = [7]" "same_view ?h1 h2"
    "dlist_allocs h2 = (dlist_allocs ?h1)(7 \<mapsto> ?t)"
    using hvs_inv_mark [OF reached_inv [OF r1] al1(1)] al1(2) d(2) by (auto simp del: split_paired_Ex)
  have "vc4_crtc_destroy_state (state1 (Some 7)) ?h1 = Some h2" using h2(1) by (simp add: vc4_crtc_destroy_state_def state1_def)
  then have "hvs_step hvs_env1 (?h1, ?sh, cur) (h2, ?sh, cur)"
    by (rule hvs_step.Destroy) (use al1 d(2) in \<open>auto simp: state1_def\<close>)
  then have r2: "reached h2 ?sh cur" using reached_step [OF r1] h2(3) by (simp add: same_view_def)
  have off: "\<not> channel_on h2 0" using same_viewD(2) [OF h2(3), of 0] d(2) by simp
  have al2: "dlist_allocs h2 8 = Some ?a8" using h2(4) al1(3) by simp
  obtain h3 where h3: "reached h3 ?sh (cur(0 := Some 8))" "channel_on h3 0" "dlist_allocs h3 = (dlist_allocs h2)(8 \<mapsto> ?a8\<lparr>dlist_programmed := True\<rparr>)"
    "stale_dlist_entries h3 = [7]" "frame_count h3 0 = frame_count h2 0"
    using reached_enable [OF r2 off al2] h2(2) by (auto simp del: split_paired_Ex)
  obtain h4 sh4 where h4: "reached h4 sh4 (cur(0 := Some 8))" "dlist_allocs h4 = dlist_allocs h3" "stale_dlist_entries h4 = [7]"
    "frame_count h4 0 = (frame_count h3 0 + 1) AND mask 6" "h_regs h4 SCALER_DISPSTAT = h_regs h3 SCALER_DISPSTAT OR SCALER_DISPSTAT_EOF 0"
    using reached_frame [OF h3(1,2)] h3(4) by auto
  have al4: "dlist_allocs h4 7 = Some ?t" using h4(2) h3(3) h2(4) by simp
  have cnt: "frame_count h4 0 = target_frame_count ?t" using h4(4) h3(5) same_viewD(3) [OF h2(3), of 0] by simp
  have "(w OR SCALER_DISPSTAT_EOF 0) AND SCALER_DISPSTAT_EOF 0 = SCALER_DISPSTAT_EOF 0" for w by (simp add: bit.conj_disj_distrib2)
  moreover have "SCALER_DISPSTAT_EOF 0 \<noteq> 0" by (simp add: SCALER_DISPSTAT_EOF_def BIT_def)
  ultimately show ?thesis using h4 al4 cnt by (intro exI [of _ h4] exI [of _ sh4] exI [of _ "cur(0 := Some 8)"] exI [of _ ?t]) simp
qed


text \<open>
  When the memory is exhausted, the fallback frees the stale lists whether the hardware reads them or not: the list that a channel shows is
  given to a new state.
\<close>
lemma fallback_reuses_shown_list:
  assumes "first_fit (dlist_range h) (dlist_nodes h) 3 = Inl ENOSPC" "stale_dlist_entries h = [7]" "dlist_range h = (32, 4096)"
    "dlist_allocs h = (\<lambda>_. None)(7 \<mapsto> a)" "mm_node a = Some (54, 4042)" "dlist_nodes h = [(32, 11), (43, 11), (54, 4042)]"
  shows "\<exists>h'. vc4_hvs_atomic_check hvs_env1 (Some 8) [plane1] (state1 None) h = Some (Inr (), state1 (Some 8), h') \<and>
    dlist_allocs h' 8 = Some (new_allocation\<lparr>mm_node := Some (54, 3), da_channel := 0\<rparr>)"
proof -
  have "first_fit (32, 4096) [(32, 11), (43, 11)] 3 = Inr 54" by (rule fit_lists)
  then show ?thesis using assms
    by (simp add: vc4_hvs_atomic_check_def vc4_hvs_alloc_dlist_entry_def several_connectors_def state1_def planes_count1 insert_node_def hvs_env1_def
        VC4_HVS_CHANNEL_DISABLED_def vc4_hvs_free_dlist_entry_locked_def place_node_def upt_rec Let_def)
qed

theorem flush_writes_checked_list_witness:
  "\<exists>a start s2 crtc2 h2. dlist_allocs (with_node 7 54 hvs_h0) 7 = Some a \<and> mm_node a = Some (start, 3) \<and>
    vc4_hvs_atomic_flush hvs_env1 True [plane1] (state1 (Some 7)) crtc1 (with_node 7 54 hvs_h0) = Some (s2, crtc2, h2) \<and>
    h_dlist h2 = write_words start [1, 2, SCALER_CTL0_END] (h_dlist (with_node 7 54 hvs_h0))"
proof -
  have "vc4_hvs_atomic_check hvs_env1 (Some 7) [plane1] (state1 None) hvs_h0 = Some (Inr (), state1 (Some 7), with_node 7 54 hvs_h0)"
    by (rule check1) (simp add: hvs_h0_bound fit_lists)
  from flush_writes_checked_list [OF this, of 1 crtc1 True] show ?thesis
    by (simp add: hvs_h0_bound state1_def plane1_def crtc1_def luts_fit_def lessThan_Suc del: split_paired_Ex)
qed

end
