(* ===== verification/Spec2Isabelle.thy ===== *)
theory Spec2Isabelle
  imports Vc4_Fkms Lkpi_Irq Lkpi_Drm Vbox_Mode_Laws Virtgpu_Host Vc4_Gem_Laws Vc4_Hvs_Flush_Laws
begin

text \<open>
  A verification development for the NextBSD kernel modules: graphics drivers written for Linux that run on FreeBSD over the
  LinuxKPI. All paths below are relative to \<^verbatim>\<open>graphics/\<close> of the repository.

  \<^bold>\<open>The program.\<close> The tree has four layers. The \<^emph>\<open>shims\<close> under \<^verbatim>\<open>lkpi/\<close> and \<^verbatim>\<open>linuxkpi_virtio/\<close> give the drivers what the LinuxKPI
  lacks: platform devices, device-tree lookups, the component framework, tagged interrupts, some DRM helpers and Linux' virtio
  interface. The \<^emph>\<open>glue\<close> under \<^verbatim>\<open>vc4_kms/\<close> and \<^verbatim>\<open>vc4_fkms/\<close> attaches newbus devices and drives the shims. \<^verbatim>\<open>lib/genalloc.c\<close> is a
  library the drivers share. The \<^emph>\<open>drivers\<close> under \<^verbatim>\<open>drivers/gpu/drm/\<close> are vc4 (Raspberry Pi), vboxvideo (VirtualBox) and virtio-gpu.

  \<^bold>\<open>Interaction.\<close> A newbus device attaches (\<open>Vc4_Newbus\<close>), which enters it into the platform and the node registry and adds a component;
  when the last component the master waits for is there, the framework calls the master's bind, which binds the components in
  the order of the match list. The vc4 master (\<open>Vc4_Drv\<close>) provides the callbacks that the framework's laws rely on; the locale
  \<open>component_master\<close> is that contract. The pools of \<open>Genalloc\<close> are the heap of the commands of \<open>Hgsmi\<close>, on which the ring of \<open>Vbva\<close>, the
  start-up of \<open>Vbox_Hw\<close>, the hot-plug of \<open>Vbox_Irq\<close> and the mode setting of \<open>Vbox_Mode\<close> rest. The fences of \<open>Virtgpu_Fence\<close> are emitted
  by the queues of \<open>Virtgpu_Vq\<close>, whose requests go through the virtqueues of \<open>Lkpi_Virtio\<close>. The buffer objects of \<open>Vc4_Bo\<close> are what the
  jobs of \<open>Vc4_Gem\<close> use. An atomic check of \<open>Vc4_Kms\<close> chooses HVS channels, and the commit programs them into the registers.

  \<^bold>\<open>How the code is modelled.\<close> A structure is a record and an enumeration a datatype, with the names of the source. A function of the
  code is a function of the same name that takes and returns the state it works on; integers that wrap keep their width as
  words. A negative errno is \<open>Inl\<close> of the code (\<open>errno\<close> in \<open>Kmod_Prelude\<close>). Where the code would touch memory outside an array, through
  NULL or after it was freed, the model's result is None (a trap), so that a theorem which says that an operation returns
  also says that it does not do so. Code that is not in the repository (the DRM core, FreeBSD's newbus, device tree and
  virtqueues, the host, allocation results, the bit searches) is an argument or a field of an environment record, and what
  is relied on in it is a named hypothesis or a locale, with an instance in the witness. Fields called a log or a ghost record the calls
  made and are read by no definition that models code. Locks are not modelled: an operation runs to its end before the next one, and
  where the code drops a lock in between, the pieces are separate steps.

  \<^bold>\<open>Theories and sources.\<close>
  \<^item> \<open>Kmod_Prelude\<close>: integer types, errors, TAILQ operations, the locale \<open>tailq_registry\<close>, word lemmas.
  \<^item> \<open>Lkpi_Platform\<close> (\<^verbatim>\<open>lkpi/lkpi_platform.c\<close>), \<open>Lkpi_Of\<close> (\<^verbatim>\<open>lkpi/lkpi_of.c\<close>): the registries, instances of \<open>tailq_registry\<close>, the device-tree walk
    and its termination.
  \<^item> \<open>Lkpi_Component\<close>, \<open>Lkpi_Component_Laws\<close> (\<^verbatim>\<open>lkpi/lkpi_component.c\<close>): every function; binding follows the match list, unbinding mirrors it, and
    a failure stops with the earlier components bound.
  \<^item> \<open>Lkpi_Irq\<close> (\<^verbatim>\<open>lkpi/lkpi_irq.c\<close>), \<open>Lkpi_Drm\<close> (\<^verbatim>\<open>lkpi/lkpi_drm.c\<close>).
  \<^item> \<open>Vc4_Drv\<close> (\<^verbatim>\<open>vc4/vc4_drv.c\<close>), \<open>Vc4_Newbus\<close> (\<^verbatim>\<open>vc4_kms/\<close>), \<open>Vc4_Fkms\<close> (\<^verbatim>\<open>vc4_fkms/vc4_fkms_master.c\<close>): master, attach and detach; the pipeline comes
    up in order and detach undoes attach.
  \<^item> \<open>Genalloc_Bitmap\<close>, \<open>Genalloc\<close>, \<open>Genalloc_Laws\<close> (\<^verbatim>\<open>lib/genalloc.c\<close>): allocation refines taking a free range, free undoes it, best fit is best.
  \<^item> \<open>Guest_Memory\<close>, \<open>Hgsmi\<close>, \<open>Hgsmi_Laws\<close> (\<^verbatim>\<open>vbox_hgsmi.c\<close>, \<^verbatim>\<open>hgsmi_base.c\<close>, \<^verbatim>\<open>modesetting.c\<close>): buffers are well-formed and commands leave the heap as it was.
  \<^item> \<open>Vbva\<close>, \<open>Vbva_Laws\<close> (\<^verbatim>\<open>vbva_base.c\<close>): the ring refines a byte stream between guest and host.
  \<^item> \<open>Vbox_Hw\<close>, \<open>Vbox_Hw_Laws\<close> (\<^verbatim>\<open>vbox_main.c\<close>), \<open>Vbox_Irq\<close> (\<^verbatim>\<open>vbox_irq.c\<close>), \<open>Vbox_Mode\<close>, \<open>Vbox_Mode_Laws\<close> (\<^verbatim>\<open>vbox_mode.c\<close>).
  \<^item> \<open>Lkpi_Virtio\<close> (\<^verbatim>\<open>linuxkpi_virtio/linux_virtio.c\<close>): requests arrive exactly, discovery and deletion of queues.
  \<^item> \<open>Virtgpu_Fence\<close> (\<^verbatim>\<open>virtgpu_fence.c\<close>), \<open>Virtgpu_Vq\<close>, \<open>Virtgpu_Cmd\<close>, \<open>Virtgpu_Laws\<close>, \<open>Virtgpu_Host\<close> (\<^verbatim>\<open>virtgpu_vq.c\<close>): fences signal in order, workers handle
    every used buffer once, the bytes of a command decode to its arguments.
  \<^item> \<open>Vc4_Bo\<close>, \<open>Vc4_Bo_Laws\<close> (\<^verbatim>\<open>vc4_bo.c\<close>): labels, cache and purgeable pool stay consistent under any sequence of calls.
  \<^item> \<open>Vc4_Gem\<close>, \<open>Vc4_Gem_Laws\<close> (\<^verbatim>\<open>vc4_gem.c\<close>, \<^verbatim>\<open>vc4_fence.c\<close>): reservations all or none, references balance, jobs in order.
  \<^item> \<open>Vc4_Fields\<close> (\<^verbatim>\<open>vc4_regs.h\<close>), \<open>Vc4_Kms\<close>, \<open>Vc4_Mux_Laws\<close>, \<open>Vc4_Kms_Laws\<close>, \<open>Vc4_Commit_Laws\<close> (\<^verbatim>\<open>vc4_kms.c\<close>, layouts of \<^verbatim>\<open>vc4_crtc.c\<close>): channel assignment,
    colour matrix, load tracker, core clock and commit; the invariant over all runs of check and commit.

  \<^bold>\<open>Loops and bounds.\<close> A loop over a list is structural recursion or a fold. A loop that follows memory or waits is a
  \<open>partial_function (option)\<close>, and that it ends is proved: the device-tree walk on a finite tree, the iterator over the platform
  devices, the purge of the buffer pool, the locking of reservations, the flush of the ring, the dequeue of a finite queue, the
  loop on the colour matrix with at most ten CRTCs (the layouts have at most five, and the writeback one or two more). There is no fuel
  in any definition. Sequence numbers, ring offsets, load sums and sizes keep their width; the theorems say where
  wrap-around is harmless (fences, sequence numbers, the load tracker) and where a check excludes it (the sizes of command lists).

  \<^bold>\<open>Not modelled.\<close> The HDMI encoder and its PHY (\<^verbatim>\<open>vc4_hdmi.c\<close>, \<^verbatim>\<open>vc4_hdmi_phy.c\<close>), the display lists of planes (\<^verbatim>\<open>vc4_plane.c\<close>), the HVS
  (\<^verbatim>\<open>vc4_hvs.c\<close>) and the pixel valves (\<^verbatim>\<open>vc4_crtc.c\<close> beyond its states and layouts) are register programming without state of their own to
  keep consistent, apart from what \<open>Vc4_Kms\<close> covers. \<^verbatim>\<open>vc4_firmware_kms.c\<close> passes its state to the firmware. The DRM helpers
  (\<^verbatim>\<open>drm_gem_*_helper.c\<close>, \<^verbatim>\<open>drm_fbdev_shmem.c\<close>, \<^verbatim>\<open>drm_simple_kms_helper.c\<close>) are copies of Linux files around DRM core calls. Module tables,
  DEVMETHOD tables, debugfs and printing carry no state. Concurrency inside an operation is not modelled.
\<close>

end
